(* ===== verification/Prelude.thy ===== *)
theory Prelude
  imports Main "HOL-Library.Word" "HOL-Library.List_Lexorder" "HOL-Library.Multiset"
begin

text \<open>
  Shared vocabulary of the development: the JavaScript values the web client computes with
  (strings as lists of UTF-16 code units, byte arrays as lists of 8-bit words, numbers as
  integers), decimal rendering, padding and slicing, and the generic list lemmas the
  components share.  A JavaScript string is ordered by code unit, which is the
  lexicographic order of \<^theory_text>\<open>HOL-Library.List_Lexorder\<close> on lists.
\<close>

named_theorems codec_simps \<open>facts that evaluate encoders and decoders\<close>
named_theorems js_simps \<open>facts about JavaScript string literals and rendered numbers\<close>

type_synonym code_unit = "16 word"
type_synonym js_string = "code_unit list"
type_synonym byte = "8 word"
type_synonym bytes = "byte list"

text \<open>A literal of the source is \<open>js ''text''\<close>; every literal of the source modelled here is ASCII.\<close>

definition js :: "string \<Rightarrow> js_string" where
  "js s = map of_char s"

lemma of_char_code_unit_bound: "(of_char c :: nat) < 65536"
  using nat_of_char_less_256 [of c] by linarith

lemma of_char_code_unit_inject: "(of_char c :: code_unit) = of_char d \<longleftrightarrow> c = d"
proof
  assume "(of_char c :: code_unit) = of_char d"
  then have "(of_nat (of_char c) :: code_unit) = of_nat (of_char d)"
    by (simp add: of_nat_of_char)
  then have "(of_char c :: nat) mod 2 ^ 16 = (of_char d :: nat) mod 2 ^ 16"
    by (simp add: word_of_nat_eq_iff take_bit_eq_mod)
  moreover have "(of_char c :: nat) < 2 ^ 16" "(of_char d :: nat) < 2 ^ 16"
    using of_char_code_unit_bound [of c] of_char_code_unit_bound [of d] by simp_all
  ultimately have "(of_char c :: nat) = of_char d" by simp
  then show "c = d" by (simp add: of_char_eq_iff)
qed simp

lemma js_inject [simp, js_simps]: "js s = js t \<longleftrightarrow> s = t"
  unfolding js_def by (simp add: inj_map_eq_map inj_def of_char_code_unit_inject)

lemma js_Nil [simp, js_simps]: "js [] = []"
  by (simp add: js_def)

lemma js_eq_Nil [simp, js_simps]: "js s = [] \<longleftrightarrow> s = []" "[] = js s \<longleftrightarrow> s = []"
  by (simp_all add: js_def)

lemma js_append [js_simps]: "js (s @ t) = js s @ js t"
  by (simp add: js_def)

lemma length_js [simp, js_simps]: "length (js s) = length s"
  by (simp add: js_def)

subsection \<open>Safe integers and their decimal rendering\<close>

text \<open>
  \<open>Number.isSafeInteger\<close> on an integer, and \<open>String(n)\<close> of an integer below $10^{21}$
  (every safe integer is).
\<close>

definition isSafeInteger :: "int \<Rightarrow> bool" where
  "isSafeInteger n \<longleftrightarrow> \<bar>n\<bar> \<le> 9007199254740991"

definition digit :: "nat \<Rightarrow> code_unit" where
  "digit d = 48 + of_nat d"

fun dec_digits :: "nat \<Rightarrow> js_string" where
  "dec_digits n = (if n < 10 then [digit n] else dec_digits (n div 10) @ [digit (n mod 10)])"

declare dec_digits.simps [simp del]

definition js_num :: "int \<Rightarrow> js_string" where
  "js_num n = (if n < 0 then 45 # dec_digits (nat (- n)) else dec_digits (nat n))"

definition padStart :: "nat \<Rightarrow> code_unit \<Rightarrow> js_string \<Rightarrow> js_string" where
  "padStart n c s = replicate (n - length s) c @ s"

text \<open>\<open>xs.join(sep)\<close>.\<close>

fun js_join :: "js_string \<Rightarrow> js_string list \<Rightarrow> js_string" where
  "js_join sep [] = []"
| "js_join sep [x] = x"
| "js_join sep (x # y # ys) = x @ sep @ js_join sep (y # ys)"

definition is_digit :: "code_unit \<Rightarrow> bool" where
  "is_digit c \<longleftrightarrow> 48 \<le> c \<and> c \<le> 57"

definition digit_value :: "code_unit \<Rightarrow> nat" where
  "digit_value c = unat (c - 48)"

definition dec_value :: "js_string \<Rightarrow> nat" where
  "dec_value s = foldl (\<lambda>n c. 10 * n + digit_value c) 0 s"

lemma unat_digit: "d < 10 \<Longrightarrow> unat (digit d) = 48 + d"
  unfolding digit_def by (subst unat_word_ariths(1)) (simp add: unat_of_nat)

lemma digit_value_digit [simp]: "d < 10 \<Longrightarrow> digit_value (digit d) = d"
  by (simp add: digit_value_def digit_def unat_of_nat)

lemma is_digit_digit [simp]: "d < 10 \<Longrightarrow> is_digit (digit d)"
  unfolding is_digit_def by (simp add: word_le_nat_alt unat_digit)

lemma digit_value_less: "is_digit c \<Longrightarrow> digit_value c < 10"
  unfolding is_digit_def digit_value_def by (auto simp: unat_sub_if' word_le_nat_alt)

lemma digit_digit_value [simp]: "is_digit c \<Longrightarrow> digit (digit_value c) = c"
  unfolding is_digit_def digit_value_def digit_def by simp

lemma dec_value_append: "dec_value (s @ [c]) = 10 * dec_value s + digit_value c"
  by (simp add: dec_value_def)

lemma dec_value_dec_digits [simp]: "dec_value (dec_digits n) = n"
proof (induction n rule: dec_digits.induct)
  case (1 n)
  show ?case
  proof (cases "n < 10")
    case True
    then show ?thesis by (simp add: dec_digits.simps [of n] dec_value_def)
  next
    case False
    then show ?thesis
      using 1 by (simp add: dec_digits.simps [of n] dec_value_append)
  qed
qed

lemma dec_digits_inject [simp]: "dec_digits m = dec_digits n \<longleftrightarrow> m = n"
  by (metis dec_value_dec_digits)

lemma dec_digits_all: "list_all is_digit (dec_digits n)"
proof (induction n rule: dec_digits.induct)
  case (1 n)
  then show ?case by (cases "n < 10") (simp_all add: dec_digits.simps [of n])
qed

lemma dec_digits_not_Nil [simp]: "dec_digits n \<noteq> []"
  by (subst dec_digits.simps) simp

lemma dec_digits_no_minus: "dec_digits n \<noteq> 45 # s"
proof
  assume "dec_digits n = 45 # s"
  with dec_digits_all [of n] have "is_digit 45" by simp
  then show False by (simp add: is_digit_def)
qed

lemma dec_value_Cons: "dec_value (c # s) = digit_value c * 10 ^ length s + dec_value s"
proof -
  have "foldl (\<lambda>n c. 10 * n + digit_value c) k s = k * 10 ^ length s + foldl (\<lambda>n c. 10 * n + digit_value c) 0 s" for k
  proof (induction s arbitrary: k)
    case (Cons d s)
    define F where "F = foldl (\<lambda>n c. 10 * n + digit_value c) 0 s"
    have "foldl (\<lambda>n c. 10 * n + digit_value c) k (d # s) = (10 * k + digit_value d) * 10 ^ length s + F"
      unfolding F_def by (simp only: foldl_Cons Cons [of "10 * k + digit_value d"])
    moreover have "foldl (\<lambda>n c. 10 * n + digit_value c) 0 (d # s) = digit_value d * 10 ^ length s + F"
      unfolding F_def by (simp only: foldl_Cons mult_0_right add_0) (rule Cons)
    ultimately show ?case by (simp only: length_Cons power_Suc add_mult_distrib)
  qed simp
  from this [of "digit_value c"] show ?thesis by (simp add: dec_value_def)
qed

lemma dec_value_Nil [simp]: "dec_value [] = 0"
  by (simp add: dec_value_def)

lemma dec_value_append_mult: "dec_value (s @ t) = dec_value s * 10 ^ length t + dec_value t"
  by (induction s) (simp_all add: dec_value_Cons algebra_simps power_add)

lemma dec_value_less: "list_all is_digit s \<Longrightarrow> dec_value s < 10 ^ length s"
proof (induction s)
  case (Cons c s)
  then have "digit_value c \<le> 9" "dec_value s < 10 ^ length s" using digit_value_less [of c] by auto
  then have "digit_value c * 10 ^ length s + dec_value s < 9 * 10 ^ length s + 10 ^ length s"
    by (intro add_le_less_mono mult_right_mono) simp_all
  then show ?case by (simp add: dec_value_Cons)
qed simp

lemma dec_value_Cons_inject:
  assumes "is_digit c" "is_digit d" "length s = length t" "list_all is_digit s" "list_all is_digit t"
    and "dec_value (c # s) = dec_value (d # t)"
  shows "c = d \<and> dec_value s = dec_value t"
proof -
  define B :: nat where "B = 10 ^ length t"
  have lt: "dec_value s < B" "dec_value t < B"
    using dec_value_less [OF assms(4)] dec_value_less [OF assms(5)] assms(3) by (simp_all add: B_def)
  have e: "digit_value c * B + dec_value s = digit_value d * B + dec_value t"
    using assms(3,6) by (simp add: dec_value_Cons B_def)
  have "(digit_value c * B + dec_value s) div B = digit_value c" "(digit_value d * B + dec_value t) div B = digit_value d"
    using lt by simp_all
  with e have v: "digit_value c = digit_value d" by simp
  then have "digit (digit_value c) = digit (digit_value d)" by simp
  then have "c = d" using assms(1,2) by (simp only: digit_digit_value)
  with e show ?thesis by simp
qed

lemma dec_value_inject:
  "list_all is_digit s \<Longrightarrow> list_all is_digit t \<Longrightarrow> length s = length t \<Longrightarrow> dec_value s = dec_value t \<Longrightarrow> s = t"
proof (induction s t rule: list_induct2')
  case (4 c s d t)
  then have "c = d \<and> dec_value s = dec_value t" by (intro dec_value_Cons_inject) simp_all
  with 4 show ?case by simp
qed simp_all

lemma js_num_inject [simp, js_simps]: "js_num m = js_num n \<longleftrightarrow> m = n"
  unfolding js_num_def using dec_digits_no_minus by (auto dest: sym)

subsection \<open>Searching and sorting\<close>

text \<open>\<open>Array.prototype.find\<close>; the library's \<^const>\<open>List.find\<close> is the same function.\<close>

lemma find_Some_iff_mem: "List.find P xs = Some x \<Longrightarrow> x \<in> set xs \<and> P x"
  by (induction xs) (auto split: if_splits)

text \<open>
  \<open>Array.prototype.sort\<close> with a comparator is a stable sort; for a comparator that is a total
  order it is determined by its result being a sorted permutation.
\<close>

fun insert_by :: "('a \<Rightarrow> 'a \<Rightarrow> int) \<Rightarrow> 'a \<Rightarrow> 'a list \<Rightarrow> 'a list" where
  "insert_by cmp x [] = [x]"
| "insert_by cmp x (y # ys) = (if cmp x y \<le> 0 then x # y # ys else y # insert_by cmp x ys)"

definition js_sort :: "('a \<Rightarrow> 'a \<Rightarrow> int) \<Rightarrow> 'a list \<Rightarrow> 'a list" where
  "js_sort cmp xs = foldr (insert_by cmp) xs []"

lemma insert_by_insort_key:
  fixes key :: "'a \<Rightarrow> 'k::linorder"
  assumes "\<And>x y. cmp x y \<le> 0 \<longleftrightarrow> key x \<le> key y"
  shows "insert_by cmp x ys = insort_key key x ys"
  by (induction ys) (simp_all add: assms)

lemma js_sort_sort_key:
  fixes key :: "'a \<Rightarrow> 'k::linorder"
  assumes "\<And>x y. cmp x y \<le> 0 \<longleftrightarrow> key x \<le> key y"
  shows "js_sort cmp xs = sort_key key xs"
proof -
  have "insert_by cmp = insort_key key"
    by (intro ext) (rule insert_by_insort_key [OF assms])
  then show ?thesis by (simp add: js_sort_def sort_key_def)
qed

end
