(* ===== verification/Codec.thy ===== *)
theory Codec
  imports Prelude
begin

text \<open>
  The byte encodings of web/src/lib/crypto: \<open>TextEncoder\<close>/\<open>TextDecoder\<close> (UTF-8), base64.ts,
  hex.ts and the length-prefixed concatenation of payload.ts, with the round trips that the
  signed payloads and the stored formats rest on.  The two contracts every encoding here
  keeps are the locales \<open>codec\<close> (what was encoded is decoded back) and \<open>strict_codec\<close>
  (and nothing else decodes).
\<close>

section \<open>The encoder and decoder contracts\<close>

locale codec =
  fixes enc :: "'a \<Rightarrow> 'b" and dec :: "'b \<Rightarrow> 'a option" and wf :: "'a \<Rightarrow> bool"
  assumes dec_enc: "wf x \<Longrightarrow> dec (enc x) = Some x"
begin

lemma enc_inject: "wf x \<Longrightarrow> wf y \<Longrightarrow> enc x = enc y \<longleftrightarrow> x = y"
  by (metis dec_enc option.inject)

lemma map_enc_inject:
  "list_all wf xs \<Longrightarrow> list_all wf ys \<Longrightarrow> map enc xs = map enc ys \<longleftrightarrow> xs = ys"
proof (induction xs arbitrary: ys)
  case Nil
  then show ?case by auto
next
  case (Cons x xs)
  then show ?case by (cases ys) (auto simp: enc_inject)
qed

end

locale strict_codec = codec enc dec wf
  for enc :: "'a \<Rightarrow> 'b" and dec :: "'b \<Rightarrow> 'a option" and wf :: "'a \<Rightarrow> bool" +
  assumes enc_dec: "dec b = Some x \<Longrightarrow> wf x \<and> enc x = b"
begin

lemma dec_Some_iff: "dec b = Some x \<longleftrightarrow> wf x \<and> enc x = b"
  using enc_dec dec_enc by auto

lemma dec_inject: "dec a = Some x \<Longrightarrow> dec b = Some x \<Longrightarrow> a = b"
  using enc_dec by blast

end

section \<open>UTF-8\<close>

definition is_high :: "code_unit \<Rightarrow> bool" where
  "is_high u \<longleftrightarrow> 0xD800 \<le> u \<and> u \<le> 0xDBFF"

definition is_low :: "code_unit \<Rightarrow> bool" where
  "is_low u \<longleftrightarrow> 0xDC00 \<le> u \<and> u \<le> 0xDFFF"

text \<open>The scalar values of a string; a lone surrogate is read as U+FFFD, as \<open>TextEncoder\<close> does.\<close>

definition lone :: "code_unit \<Rightarrow> nat" where
  "lone u = (if is_high u \<or> is_low u then 0xFFFD else unat u)"

fun code_points :: "js_string \<Rightarrow> nat list" where
  "code_points [] = []"
| "code_points [u] = [lone u]"
| "code_points (u # v # s) =
     (if is_high u \<and> is_low v
      then (0x10000 + (unat u - 0xD800) * 1024 + (unat v - 0xDC00)) # code_points s
      else lone u # code_points (v # s))"

fun isWellFormed :: "js_string \<Rightarrow> bool" where
  "isWellFormed [] = True"
| "isWellFormed [u] = (\<not> is_high u \<and> \<not> is_low u)"
| "isWellFormed (u # v # s) =
     (if is_high u \<and> is_low v then isWellFormed s
      else \<not> is_high u \<and> \<not> is_low u \<and> isWellFormed (v # s))"

definition scalar :: "nat \<Rightarrow> bool" where
  "scalar p \<longleftrightarrow> p < 0xD800 \<or> (0xE000 \<le> p \<and> p < 0x110000)"

definition byte_of :: "nat \<Rightarrow> byte" where
  "byte_of n = of_nat n"

definition unit_of :: "nat \<Rightarrow> code_unit" where
  "unit_of n = of_nat n"

lemma unat_byte_of [simp]: "n < 256 \<Longrightarrow> unat (byte_of n) = n"
  by (simp add: byte_of_def unat_of_nat)

lemma unat_unit_of [simp]: "n < 65536 \<Longrightarrow> unat (unit_of n) = n"
  by (simp add: unit_of_def unat_of_nat)

lemma byte_of_unat [simp]: "byte_of (unat b) = b"
  by (simp add: byte_of_def)

lemma unit_of_unat [simp]: "unit_of (unat u) = u"
  by (simp add: unit_of_def)

definition utf16_of :: "nat \<Rightarrow> js_string" where
  "utf16_of p =
     (if p < 0x10000 then [unit_of p]
      else [unit_of (0xD800 + (p - 0x10000) div 1024), unit_of (0xDC00 + (p - 0x10000) mod 1024)])"

definition utf8_of :: "nat \<Rightarrow> bytes" where
  "utf8_of p =
     (if p < 0x80 then [byte_of p]
      else if p < 0x800 then [byte_of (0xC0 + p div 64), byte_of (0x80 + p mod 64)]
      else if p < 0x10000 then
        [byte_of (0xE0 + p div 4096), byte_of (0x80 + p div 64 mod 64), byte_of (0x80 + p mod 64)]
      else
        [byte_of (0xF0 + p div 262144), byte_of (0x80 + p div 4096 mod 64),
         byte_of (0x80 + p div 64 mod 64), byte_of (0x80 + p mod 64)])"

text \<open>\<open>new TextEncoder().encode(s)\<close>.\<close>

definition utf8_encode :: "js_string \<Rightarrow> bytes" where
  "utf8_encode s = concat (map utf8_of (code_points s))"

definition is_cont :: "byte \<Rightarrow> bool" where
  "is_cont b \<longleftrightarrow> 0x80 \<le> b \<and> b < 0xC0"

definition cont :: "byte \<Rightarrow> nat" where
  "cont b = unat b - 0x80"

text \<open>
  The WHATWG UTF-8 decoder in fatal mode: overlong forms, surrogates, values above U+10FFFF
  and truncated or stray bytes all fail.
\<close>

fun utf8_points :: "bytes \<Rightarrow> nat list option" where
  "utf8_points [] = Some []"
| "utf8_points (a # bs) =
     (if a < 0x80 then map_option ((#) (unat a)) (utf8_points bs)
      else if a < 0xC0 then None
      else if a < 0xE0 then
        (case bs of
           b # bs' \<Rightarrow>
             (let p = (unat a - 0xC0) * 64 + cont b
              in if is_cont b \<and> 0x80 \<le> p then map_option ((#) p) (utf8_points bs') else None)
         | _ \<Rightarrow> None)
      else if a < 0xF0 then
        (case bs of
           b # c # bs' \<Rightarrow>
             (let p = (unat a - 0xE0) * 4096 + cont b * 64 + cont c
              in if is_cont b \<and> is_cont c \<and> 0x800 \<le> p \<and> scalar p
                 then map_option ((#) p) (utf8_points bs') else None)
         | _ \<Rightarrow> None)
      else if a < 0xF8 then
        (case bs of
           b # c # d # bs' \<Rightarrow>
             (let p = (unat a - 0xF0) * 262144 + cont b * 4096 + cont c * 64 + cont d
              in if is_cont b \<and> is_cont c \<and> is_cont d \<and> 0x10000 \<le> p \<and> scalar p
                 then map_option ((#) p) (utf8_points bs') else None)
         | _ \<Rightarrow> None)
      else None)"

text \<open>
  \<open>new TextDecoder('utf-8', { fatal: true }).decode(bytes)\<close>: \<open>ignoreBOM\<close> defaults to false, so
  one leading byte order mark is dropped from every decoded array.
\<close>

definition strip_bom :: "bytes \<Rightarrow> bytes" where
  "strip_bom bs = (if take 3 bs = [0xEF, 0xBB, 0xBF] then drop 3 bs else bs)"

definition utf8_decode :: "bytes \<Rightarrow> js_string option" where
  "utf8_decode bs = map_option (\<lambda>ps. concat (map utf16_of ps)) (utf8_points (strip_bom bs))"

lemma utf8_points_1: "unat a < 0x80 \<Longrightarrow> utf8_points (a # bs) = map_option ((#) (unat a)) (utf8_points bs)"
  by (simp add: word_less_nat_alt)

lemma utf8_points_2:
  assumes "0xC0 \<le> unat a" "unat a < 0xE0" "is_cont b" "p = (unat a - 0xC0) * 64 + cont b" "0x80 \<le> p"
  shows "utf8_points (a # b # bs) = map_option ((#) p) (utf8_points bs)"
  using assms by (simp add: word_less_nat_alt Let_def)

lemma utf8_points_3:
  assumes "0xE0 \<le> unat a" "unat a < 0xF0" "is_cont b" "is_cont c"
    and "p = (unat a - 0xE0) * 4096 + cont b * 64 + cont c" "0x800 \<le> p" "scalar p"
  shows "utf8_points (a # b # c # bs) = map_option ((#) p) (utf8_points bs)"
  using assms by (simp add: word_less_nat_alt Let_def)

lemma utf8_points_4:
  assumes "0xF0 \<le> unat a" "unat a < 0xF8" "is_cont b" "is_cont c" "is_cont d"
    and "p = (unat a - 0xF0) * 262144 + cont b * 4096 + cont c * 64 + cont d"
    and "0x10000 \<le> p" "scalar p"
  shows "utf8_points (a # b # c # d # bs) = map_option ((#) p) (utf8_points bs)"
  using assms by (simp add: word_less_nat_alt Let_def)

declare utf8_points.simps(2) [simp del]

lemma scalar_bound: "scalar p \<Longrightarrow> p < 1114112"
  by (auto simp: scalar_def)

lemma is_cont_byte_of [simp]: "n < 64 \<Longrightarrow> is_cont (byte_of (0x80 + n))"
  by (simp add: is_cont_def word_less_nat_alt word_le_nat_alt)

lemma cont_byte_of [simp]: "n < 64 \<Longrightarrow> cont (byte_of (0x80 + n)) = n"
  by (simp add: cont_def)

lemma base64_recombine:
  fixes p :: nat
  assumes "q1 * 64 + r0 = p" "q2 * 64 + r1 = q1" "q3 * 64 + r2 = q2"
  shows "q3 * 262144 + r2 * 4096 + r1 * 64 + r0 = p"
  using assms by auto

lemma base64_split:
  "p div 262144 * 262144 + p div 4096 mod 64 * 4096 + p div 64 mod 64 * 64 + p mod 64 = (p::nat)"
proof -
  have d: "p div 4096 = p div 64 div 64" "p div 262144 = p div 64 div 64 div 64"
    by (simp_all add: div_mult2_eq [symmetric])
  show ?thesis unfolding d by (rule base64_recombine) (rule div_mult_mod_eq)+
qed

lemma base64_split3: "p div 4096 * 4096 + p div 64 mod 64 * 64 + p mod 64 = (p::nat)"
proof -
  have d: "p div 4096 = p div 64 div 64"
    by (simp add: div_mult2_eq [symmetric])
  have "q2 * 4096 + r1 * 64 + r0 = p" if "q1 * 64 + r0 = p" "q2 * 64 + r1 = q1" for q1 q2 r0 r1
    using that by auto
  then show ?thesis unfolding d using div_mult_mod_eq by blast
qed

lemma utf8_points_utf8_of:
  assumes "scalar p"
  shows "utf8_points (utf8_of p @ bs) = map_option ((#) p) (utf8_points bs)"
proof -
  have b: "p < 1114112" by (rule scalar_bound [OF assms])
  consider "p < 0x80" | "0x80 \<le> p" "p < 0x800" | "0x800 \<le> p" "p < 0x10000" | "0x10000 \<le> p"
    by linarith
  then show ?thesis
  proof cases
    case 1
    then show ?thesis by (simp add: utf8_of_def utf8_points_1)
  next
    case 2
    then have "p div 64 < 32" by linarith
    with 2 show ?thesis
      by (simp add: utf8_of_def utf8_points_2 [where p = p])
  next
    case 3
    then have "p div 4096 < 16" by linarith
    moreover have "p div 4096 * 4096 + p div 64 mod 64 * 64 + p mod 64 = p"
      by (rule base64_split3)
    ultimately show ?thesis using 3 assms
      by (simp add: utf8_of_def utf8_points_3 [where p = p])
  next
    case 4
    then have "p div 262144 < 8" using b by linarith
    moreover have "p div 262144 * 262144 + p div 4096 mod 64 * 4096 + p div 64 mod 64 * 64 + p mod 64 = p"
      by (rule base64_split)
    ultimately show ?thesis using 4 assms
      by (simp add: utf8_of_def utf8_points_4 [where p = p])
  qed
qed

lemma utf8_points_encode:
  "list_all scalar ps \<Longrightarrow> utf8_points (concat (map utf8_of ps)) = Some ps"
  by (induction ps) (simp_all add: utf8_points_utf8_of)

text \<open>Decoding is canonical: what decodes is the encoding of its scalar values.\<close>

lemma cont_less: "is_cont b \<Longrightarrow> cont b < 64"
  by (auto simp: is_cont_def cont_def word_less_nat_alt word_le_nat_alt)

lemma byte_of_cont: "is_cont b \<Longrightarrow> byte_of (0x80 + cont b) = b"
  by (auto simp: is_cont_def cont_def word_less_nat_alt word_le_nat_alt)

lemma mul64: "c < 64 \<Longrightarrow> (q * 64 + c) div 64 = q" "c < 64 \<Longrightarrow> (q * 64 + c) mod 64 = c" for q :: nat
  by simp_all

lemma utf8_of_2:
  assumes "0xC0 \<le> unat a" "unat a < 0xE0" "is_cont b" "p = (unat a - 0xC0) * 64 + cont b" "0x80 \<le> p"
  shows "utf8_of p = [a, b]"
proof -
  have "p div 64 = unat a - 0xC0" "p mod 64 = cont b"
    unfolding assms(4) by (rule mul64 [OF cont_less [OF assms(3)]])+
  moreover have "p < 2048" using assms(1,2) cont_less [OF assms(3)] unfolding assms(4) by linarith
  ultimately show ?thesis
    using assms(1,2,5) cont_less [OF assms(3)] by (simp add: utf8_of_def byte_of_cont assms)
qed

lemma utf8_of_3:
  assumes "0xE0 \<le> unat a" "unat a < 0xF0" "is_cont b" "is_cont c"
    and "p = (unat a - 0xE0) * 4096 + cont b * 64 + cont c" "0x800 \<le> p"
  shows "utf8_of p = [a, b, c]"
proof -
  let ?q = "(unat a - 0xE0) * 64 + cont b"
  have p: "p = ?q * 64 + cont c" using assms(5) by simp
  have "p div 64 = ?q" "p mod 64 = cont c"
    unfolding p by (rule mul64 [OF cont_less [OF assms(4)]])+
  moreover have "?q div 64 = unat a - 0xE0" "?q mod 64 = cont b"
    by (rule mul64 [OF cont_less [OF assms(3)]])+
  moreover have "p div 4096 = p div 64 div 64" by (simp add: div_mult2_eq [symmetric])
  moreover have "p < 65536"
    using assms(1,2) cont_less [OF assms(3)] cont_less [OF assms(4)] unfolding assms(5) by linarith
  ultimately show ?thesis
    using assms(1,6) by (simp add: utf8_of_def byte_of_cont assms(3,4))
qed

lemma utf8_of_4:
  assumes "0xF0 \<le> unat a" "is_cont b" "is_cont c" "is_cont d"
    and "p = (unat a - 0xF0) * 262144 + cont b * 4096 + cont c * 64 + cont d" "0x10000 \<le> p"
  shows "utf8_of p = [a, b, c, d]"
proof -
  let ?r = "(unat a - 0xF0) * 64 + cont b"
  let ?q = "?r * 64 + cont c"
  have p: "p = ?q * 64 + cont d" using assms(5) by simp
  have "p div 64 = ?q" "p mod 64 = cont d"
    unfolding p by (rule mul64 [OF cont_less [OF assms(4)]])+
  moreover have "?q div 64 = ?r" "?q mod 64 = cont c"
    by (rule mul64 [OF cont_less [OF assms(3)]])+
  moreover have "?r div 64 = unat a - 0xF0" "?r mod 64 = cont b"
    by (rule mul64 [OF cont_less [OF assms(2)]])+
  moreover have "p div 4096 = p div 64 div 64" "p div 262144 = p div 64 div 64 div 64"
    by (simp_all add: div_mult2_eq [symmetric])
  ultimately show ?thesis
    using assms(1,6) by (simp add: utf8_of_def byte_of_cont assms(2,3,4))
qed

lemma utf8_points_canonical:
  "utf8_points bs = Some ps \<Longrightarrow> list_all scalar ps \<and> concat (map utf8_of ps) = bs"
proof (induction bs arbitrary: ps rule: utf8_points.induct)
  case 1
  then show ?case by simp
next
  case (2 a bs)
  note eq = "2.prems" [unfolded utf8_points.simps(2)]
  consider "a < 0x80" | "0xC0 \<le> a" "a < 0xE0" | "0xE0 \<le> a" "a < 0xF0" | "0xF0 \<le> a" "a < 0xF8"
    using eq by (force split: if_splits)
  then show ?case
  proof cases
    case 1
    then show ?thesis
      using eq "2.IH"(1) by (auto simp: scalar_def utf8_of_def word_less_nat_alt)
  next
    case 2
    then have r: "0xC0 \<le> unat a" "unat a < 0xE0" by (simp_all add: word_le_nat_alt word_less_nat_alt)
    from 2 eq obtain b bs' qs where b: "bs = b # bs'" "is_cont b"
        "0x80 \<le> (unat a - 0xC0) * 64 + cont b" "utf8_points bs' = Some qs"
        "ps = ((unat a - 0xC0) * 64 + cont b) # qs"
      by (auto simp: Let_def word_le_nat_alt word_less_nat_alt split: list.splits if_splits)
    have "scalar ((unat a - 0xC0) * 64 + cont b)"
      using r cont_less [OF b(2)] unfolding scalar_def by linarith
    moreover have "list_all scalar qs \<and> concat (map utf8_of qs) = bs'"
      using "2.IH"(2) 2 b by (simp add: word_le_nat_alt word_less_nat_alt Let_def)
    ultimately show ?thesis
      using b r by (simp add: utf8_of_2 [where p = "(unat a - 0xC0) * 64 + cont b"])
  next
    case 3
    then have r: "0xE0 \<le> unat a" "unat a < 0xF0" by (simp_all add: word_le_nat_alt word_less_nat_alt)
    from 3 eq obtain b c bs' qs p where b: "bs = b # c # bs'" "is_cont b" "is_cont c"
        "p = (unat a - 0xE0) * 4096 + cont b * 64 + cont c" "0x800 \<le> p" "scalar p"
        "utf8_points bs' = Some qs" "ps = p # qs"
      by (auto simp: Let_def word_le_nat_alt word_less_nat_alt split: list.splits if_splits)
    have "utf8_of p = [a, b, c]" by (rule utf8_of_3 [OF r b(2,3,4,5)])
    moreover have "list_all scalar qs \<and> concat (map utf8_of qs) = bs'"
      using "2.IH"(3) 3 b by (simp add: word_le_nat_alt word_less_nat_alt Let_def)
    ultimately show ?thesis
      using b(6) unfolding b(1) b(8) by simp
  next
    case 4
    then have r: "0xF0 \<le> unat a" "unat a < 0xF8" by (simp_all add: word_le_nat_alt word_less_nat_alt)
    from 4 eq obtain b c d bs' qs p where b: "bs = b # c # d # bs'" "is_cont b" "is_cont c" "is_cont d"
        "p = (unat a - 0xF0) * 262144 + cont b * 4096 + cont c * 64 + cont d" "0x10000 \<le> p" "scalar p"
        "utf8_points bs' = Some qs" "ps = p # qs"
      by (auto simp: Let_def word_le_nat_alt word_less_nat_alt split: list.splits if_splits)
    have "utf8_of p = [a, b, c, d]" by (rule utf8_of_4 [OF r(1) b(2,3,4,5,6)])
    moreover have "list_all scalar qs \<and> concat (map utf8_of qs) = bs'"
      using "2.IH"(4) 4 b by (simp add: word_le_nat_alt word_less_nat_alt Let_def)
    ultimately show ?thesis
      using b(7) unfolding b(1) b(9) by simp
  qed
qed

subsection \<open>Strings\<close>

text \<open>
  A string survives \<open>TextEncoder\<close> and \<open>TextDecoder\<close> when it is well formed (no lone surrogate)
  and does not start with the byte order mark U+FEFF that the decoder drops.
\<close>

definition text_ok :: "js_string \<Rightarrow> bool" where
  "text_ok s \<longleftrightarrow> isWellFormed s \<and> (\<forall>t. s \<noteq> 0xFEFF # t)"

lemma is_high_nat: "is_high u \<longleftrightarrow> 0xD800 \<le> unat u \<and> unat u < 0xDC00"
  by (auto simp: is_high_def word_le_nat_alt)

lemma is_low_nat: "is_low u \<longleftrightarrow> 0xDC00 \<le> unat u \<and> unat u < 0xE000"
  by (auto simp: is_low_def word_le_nat_alt)

lemma unat_unit_bound: "unat (u :: code_unit) < 65536"
  using unsigned_less [of u, where ?'a = nat] by simp

lemma scalar_lone: "scalar (lone u)"
  using unat_unit_bound [of u] by (auto simp: lone_def scalar_def is_high_nat is_low_nat)

lemma scalar_pair:
  "is_high u \<Longrightarrow> is_low v \<Longrightarrow> scalar (0x10000 + (unat u - 0xD800) * 1024 + (unat v - 0xDC00))"
  unfolding is_high_nat is_low_nat scalar_def by linarith

lemma code_points_scalar: "list_all scalar (code_points s)"
  by (induction s rule: code_points.induct) (auto simp: scalar_lone intro!: scalar_pair)

lemma utf16_of_lone: "\<not> is_high u \<Longrightarrow> \<not> is_low u \<Longrightarrow> utf16_of (lone u) = [u]"
  using unat_unit_bound [of u] by (simp add: lone_def utf16_of_def)

lemma utf16_of_pair:
  assumes "is_high u" "is_low v"
  shows "utf16_of (0x10000 + (unat u - 0xD800) * 1024 + (unat v - 0xDC00)) = [u, v]"
proof -
  let ?p = "0x10000 + (unat u - 0xD800) * 1024 + (unat v - 0xDC00)"
  have v: "unat v - 0xDC00 < 1024" using assms(2) by (auto simp: is_low_nat)
  have p: "?p - 0x10000 = (unat u - 0xD800) * 1024 + (unat v - 0xDC00)" by simp
  have q: "(?p - 0x10000) div 1024 = unat u - 0xD800" "(?p - 0x10000) mod 1024 = unat v - 0xDC00"
    unfolding p using v by (simp_all del: add_diff_assoc)
  have n: "\<not> ?p < 0x10000" by simp
  show ?thesis
    unfolding utf16_of_def q if_not_P [OF n] using assms by (simp add: is_high_nat is_low_nat)
qed

lemma utf16_code_points: "isWellFormed s \<Longrightarrow> concat (map utf16_of (code_points s)) = s"
  by (induction s rule: code_points.induct) (simp_all add: utf16_of_lone utf16_of_pair split: if_splits)

lemma utf8_points_utf8_encode: "utf8_points (utf8_encode s) = Some (code_points s)"
  unfolding utf8_encode_def by (rule utf8_points_encode [OF code_points_scalar])

lemma code_points_bom: "code_points s = 0xFEFF # ps \<Longrightarrow> \<exists>t. s = 0xFEFF # t"
  by (cases s rule: code_points.cases)
    (auto simp: lone_def is_high_nat is_low_nat word_unat_eq_iff split: if_splits)

lemma strip_bom_utf8_encode: "text_ok s \<Longrightarrow> strip_bom (utf8_encode s) = utf8_encode s"
proof (rule ccontr)
  assume ok: "text_ok s" and "strip_bom (utf8_encode s) \<noteq> utf8_encode s"
  then have "utf8_encode s = 0xEF # 0xBB # 0xBF # drop 3 (utf8_encode s)"
    by (metis append_Cons append_Nil append_take_drop_id strip_bom_def)
  then have "map_option ((#) 0xFEFF) (utf8_points (drop 3 (utf8_encode s))) = Some (code_points s)"
    using utf8_points_3 [of "0xEF" "0xBB" "0xBF" "0xFEFF" "drop 3 (utf8_encode s)"]
    by (simp add: utf8_points_utf8_encode [symmetric] is_cont_def cont_def scalar_def)
  then obtain ps where "code_points s = 0xFEFF # ps" by (metis map_option_eq_Some)
  with ok show False using code_points_bom by (auto simp: text_ok_def)
qed

lemma utf8_decode_encode: "text_ok s \<Longrightarrow> utf8_decode (utf8_encode s) = Some s"
  by (simp add: utf8_decode_def strip_bom_utf8_encode utf8_points_utf8_encode)
    (simp add: text_ok_def utf16_code_points)

interpretation utf8: codec utf8_encode utf8_decode text_ok
  by unfold_locales (rule utf8_decode_encode)

text \<open>Without the decoder: encoding alone is injective on every well-formed string.\<close>

definition utf8_strings :: "bytes \<Rightarrow> js_string option" where
  "utf8_strings bs = map_option (\<lambda>ps. concat (map utf16_of ps)) (utf8_points bs)"

interpretation utf8_wf: codec utf8_encode utf8_strings isWellFormed
  by unfold_locales (simp add: utf8_strings_def utf8_points_utf8_encode utf16_code_points)

end
