(* ===== verification/Base_Encodings.thy ===== *)
theory Base_Encodings
  imports Codec
begin

text \<open>
  base64.ts and hex.ts: the standard and the URL-safe base64 of byte arrays, over the
  \<open>btoa\<close> and \<open>atob\<close> of the platform (the forgiving decoder: ASCII whitespace and missing
  padding are accepted), and hexadecimal.  A string \<open>atob\<close> refuses is \<open>None\<close>, where the
  code's callers catch the exception.
\<close>

section \<open>base64.ts\<close>

definition b64_char :: "nat \<Rightarrow> code_unit" where
  "b64_char i =
     (if i < 26 then unit_of (65 + i)
      else if i < 52 then unit_of (97 + (i - 26))
      else if i < 62 then unit_of (48 + (i - 52))
      else if i = 62 then 43 else 47)"

definition b64_index :: "code_unit \<Rightarrow> nat option" where
  "b64_index u =
     (let c = unat u in
      if 65 \<le> c \<and> c \<le> 90 then Some (c - 65)
      else if 97 \<le> c \<and> c \<le> 122 then Some (c - 97 + 26)
      else if 48 \<le> c \<and> c \<le> 57 then Some (c - 48 + 52)
      else if c = 43 then Some 62
      else if c = 47 then Some 63
      else None)"

text \<open>\<open>btoa\<close> of the binary string of the bytes: three bytes to four characters, padded with \<open>=\<close>.\<close>

fun bytesToBase64 :: "bytes \<Rightarrow> js_string" where
  "bytesToBase64 [] = []"
| "bytesToBase64 [a] =
     [b64_char (unat a div 4), b64_char (unat a mod 4 * 16), 61, 61]"
| "bytesToBase64 [a, b] =
     [b64_char (unat a div 4), b64_char (unat a mod 4 * 16 + unat b div 16),
      b64_char (unat b mod 16 * 4), 61]"
| "bytesToBase64 (a # b # c # bs) =
     b64_char (unat a div 4) # b64_char (unat a mod 4 * 16 + unat b div 16)
     # b64_char (unat b mod 16 * 4 + unat c div 64) # b64_char (unat c mod 64)
     # bytesToBase64 bs"

definition is_ascii_space :: "code_unit \<Rightarrow> bool" where
  "is_ascii_space u \<longleftrightarrow> u = 9 \<or> u = 10 \<or> u = 12 \<or> u = 13 \<or> u = 32"

text \<open>The groups of \<open>atob\<close>: four characters are three bytes; two or three left over are one or two.\<close>

fun b64_groups :: "nat list \<Rightarrow> bytes option" where
  "b64_groups [] = Some []"
| "b64_groups [i] = None"
| "b64_groups [i, j] = Some [byte_of (i * 4 + j div 16)]"
| "b64_groups [i, j, k] = Some [byte_of (i * 4 + j div 16), byte_of (j mod 16 * 16 + k div 4)]"
| "b64_groups (i # j # k # l # is) =
     map_option (\<lambda>bs. byte_of (i * 4 + j div 16) # byte_of (j mod 16 * 16 + k div 4)
                       # byte_of (k mod 4 * 64 + l) # bs)
       (b64_groups is)"

definition b64_unpad :: "js_string \<Rightarrow> js_string" where
  "b64_unpad s =
     (if length s mod 4 = 0 then
        (if drop (length s - 2) s = [61, 61] then take (length s - 2) s
         else if drop (length s - 1) s = [61] then take (length s - 1) s else s)
      else s)"

fun b64_indices :: "js_string \<Rightarrow> nat list option" where
  "b64_indices [] = Some []"
| "b64_indices (u # s) =
     (case b64_index u of None \<Rightarrow> None | Some i \<Rightarrow> map_option ((#) i) (b64_indices s))"

definition base64ToBytes :: "js_string \<Rightarrow> bytes option" where
  "base64ToBytes s =
     Option.bind (b64_indices (b64_unpad (filter (\<lambda>u. \<not> is_ascii_space u) s))) b64_groups"

text \<open>The URL-safe variant: the two special characters replaced, the padding dropped.\<close>

definition replace_char :: "code_unit \<Rightarrow> code_unit \<Rightarrow> js_string \<Rightarrow> js_string" where
  "replace_char a b s = map (\<lambda>u. if u = a then b else u) s"

definition strip_eq :: "js_string \<Rightarrow> js_string" where
  "strip_eq s = rev (dropWhile (\<lambda>u. u = 61) (rev s))"

definition bytesToBase64Url :: "bytes \<Rightarrow> js_string" where
  "bytesToBase64Url bs = strip_eq (replace_char 47 95 (replace_char 43 45 (bytesToBase64 bs)))"

definition base64UrlToBytes :: "js_string \<Rightarrow> bytes option" where
  "base64UrlToBytes s =
     (let padded = replace_char 95 47 (replace_char 45 43 s)
      in base64ToBytes (padded @ replicate ((4 - length padded mod 4) mod 4) 61))"

subsection \<open>Round trips\<close>

lemma b64_index_char [simp]: "i < 64 \<Longrightarrow> b64_index (b64_char i) = Some i"
  by (auto simp: b64_index_def b64_char_def Let_def)

lemma b64_char_plain [simp]:
  assumes "i < 64"
  shows "b64_char i \<noteq> 61" "61 \<noteq> b64_char i" "\<not> is_ascii_space (b64_char i)" "b64_char i \<noteq> 45" "b64_char i \<noteq> 95"
proof -
  have "b64_index 61 = None" "b64_index 9 = None" "b64_index 10 = None" "b64_index 12 = None"
    "b64_index 13 = None" "b64_index 32 = None" "b64_index 45 = None" "b64_index 95 = None"
    by (simp_all add: b64_index_def Let_def)
  with b64_index_char [OF assms]
  show "b64_char i \<noteq> 61" "61 \<noteq> b64_char i" "\<not> is_ascii_space (b64_char i)" "b64_char i \<noteq> 45" "b64_char i \<noteq> 95"
    by (auto simp: is_ascii_space_def)
qed

lemma byte_bound: "unat (b :: byte) < 256"
  using unsigned_less [of b, where ?'a = nat] by simp

text \<open>The characters before the padding, as indices.\<close>

fun b64_body :: "bytes \<Rightarrow> nat list" where
  "b64_body [] = []"
| "b64_body [a] = [unat a div 4, unat a mod 4 * 16]"
| "b64_body [a, b] = [unat a div 4, unat a mod 4 * 16 + unat b div 16, unat b mod 16 * 4]"
| "b64_body (a # b # c # bs) =
     (unat a div 4) # (unat a mod 4 * 16 + unat b div 16) # (unat b mod 16 * 4 + unat c div 64)
     # (unat c mod 64) # b64_body bs"

lemma sextets:
  fixes a b c :: byte
  shows "unat a div 4 < 64" "unat a mod 4 * 16 < 64" "unat a mod 4 * 16 + unat b div 16 < 64"
    "unat b mod 16 * 4 < 64" "unat b mod 16 * 4 + unat c div 64 < 64" "unat c mod 64 < 64"
proof -
  have "unat a div 4 < 64" "unat b div 16 < 16" "unat c div 64 < 4"
    using byte_bound [of a] byte_bound [of b] byte_bound [of c] by linarith+
  moreover have "unat a mod 4 < 4" "unat b mod 16 < 16" by simp_all
  ultimately show "unat a div 4 < 64" "unat a mod 4 * 16 < 64"
    "unat a mod 4 * 16 + unat b div 16 < 64" "unat b mod 16 * 4 < 64"
    "unat b mod 16 * 4 + unat c div 64 < 64" "unat c mod 64 < 64"
    by linarith+
qed

lemma b64_body_less: "list_all (\<lambda>i. i < 64) (b64_body bs)"
  by (induction bs rule: b64_body.induct) (simp_all add: sextets del: mult_less_cancel2)

lemma length_b64_body_mod: "length (b64_body bs) mod 4 \<noteq> 1"
  by (induction bs rule: b64_body.induct) simp_all

lemma bytesToBase64_body:
  "bytesToBase64 bs = map b64_char (b64_body bs)
     @ replicate ((4 - length (b64_body bs) mod 4) mod 4) 61"
  by (induction bs rule: b64_body.induct) (simp_all add: numeral_2_eq_2)

lemma length_bytesToBase64_mod: "length (bytesToBase64 bs) mod 4 = 0"
  by (induction bs rule: bytesToBase64.induct) simp_all

lemma octets:
  fixes a b c :: byte
  shows "byte_of (unat a div 4 * 4 + (unat a mod 4 * 16) div 16) = a"
    "byte_of (unat a div 4 * 4 + (unat a mod 4 * 16 + unat b div 16) div 16) = a"
    "byte_of ((unat a mod 4 * 16 + unat b div 16) mod 16 * 16 + (unat b mod 16 * 4) div 4) = b"
    "byte_of ((unat a mod 4 * 16 + unat b div 16) mod 16 * 16 + (unat b mod 16 * 4 + unat c div 64) div 4) = b"
    "byte_of ((unat b mod 16 * 4 + unat c div 64) mod 4 * 64 + unat c mod 64) = c"
proof -
  have h: "unat b div 16 < 16" "unat c div 64 < 4"
    using byte_bound [of b] byte_bound [of c] by linarith+
  have "(unat a mod 4 * 16) div 16 = unat a mod 4" "(unat b mod 16 * 4) div 4 = unat b mod 16"
    "(unat a mod 4 * 16 + unat b div 16) div 16 = unat a mod 4"
    "(unat a mod 4 * 16 + unat b div 16) mod 16 = unat b div 16"
    "(unat b mod 16 * 4 + unat c div 64) div 4 = unat b mod 16"
    "(unat b mod 16 * 4 + unat c div 64) mod 4 = unat c div 64"
    using h by simp_all
  then show "byte_of (unat a div 4 * 4 + (unat a mod 4 * 16) div 16) = a"
    "byte_of (unat a div 4 * 4 + (unat a mod 4 * 16 + unat b div 16) div 16) = a"
    "byte_of ((unat a mod 4 * 16 + unat b div 16) mod 16 * 16 + (unat b mod 16 * 4) div 4) = b"
    "byte_of ((unat a mod 4 * 16 + unat b div 16) mod 16 * 16 + (unat b mod 16 * 4 + unat c div 64) div 4) = b"
    "byte_of ((unat b mod 16 * 4 + unat c div 64) mod 4 * 64 + unat c mod 64) = c"
    by (simp_all only: div_mult_mod_eq byte_of_unat)
qed

lemma b64_groups_body: "b64_groups (b64_body bs) = Some bs"
  by (induction bs rule: b64_body.induct) (simp_all only: b64_body.simps b64_groups.simps octets option.simps)

lemma b64_indices_chars: "list_all (\<lambda>i. i < 64) is \<Longrightarrow> b64_indices (map b64_char is) = Some is"
  by (induction "is") simp_all

lemma b64_unpad_pad:
  assumes "61 \<notin> set s" "length s mod 4 \<noteq> 1"
  shows "b64_unpad (s @ replicate ((4 - length s mod 4) mod 4) 61) = s"
proof -
  have no: "drop n s \<noteq> [61]" "drop n s \<noteq> [61, 61]" for n
    using assms(1) set_drop_subset [of n s] by auto
  consider "length s mod 4 = 0" | "length s mod 4 = 2" | "length s mod 4 = 3"
    using assms(2) mod_less_divisor [of 4 "length s"] by linarith
  then show ?thesis
  proof cases
    case 1
    then show ?thesis using no by (simp add: b64_unpad_def)
  next
    case 2
    then have "(length s + 2) mod 4 = 0" by presburger
    with 2 show ?thesis by (simp add: b64_unpad_def numeral_2_eq_2)
  next
    case 3
    then have "(length s + 1) mod 4 = 0" by presburger
    moreover from 3 have "length s \<noteq> 0" by presburger
    moreover have "drop (length s - Suc 0) s \<noteq> [61]" by (rule no)
    ultimately show ?thesis using 3 by (simp add: b64_unpad_def)
  qed
qed

lemma b64_body_no_pad: "61 \<notin> set (map b64_char (b64_body bs))"
  using b64_body_less [of bs] by (auto simp: list_all_iff)

lemma filter_space_base64: "filter (\<lambda>u. \<not> is_ascii_space u) (bytesToBase64 bs) = bytesToBase64 bs"
proof -
  have "\<forall>u\<in>set (bytesToBase64 bs). \<not> is_ascii_space u"
    using b64_body_less [of bs]
    by (auto simp: bytesToBase64_body list_all_iff is_ascii_space_def [of 61])
  then show ?thesis by (simp add: filter_id_conv)
qed

lemma base64_decode_encode [codec_simps]: "base64ToBytes (bytesToBase64 bs) = Some bs"
proof -
  have "b64_unpad (bytesToBase64 bs) = map b64_char (b64_body bs)"
    using b64_unpad_pad [OF b64_body_no_pad [of bs]] length_b64_body_mod [of bs]
    by (simp add: bytesToBase64_body)
  then show ?thesis
    by (simp add: base64ToBytes_def filter_space_base64 b64_indices_chars b64_body_less b64_groups_body)
qed

interpretation base64: codec bytesToBase64 base64ToBytes "\<lambda>_. True"
  by unfold_locales (rule base64_decode_encode)

lemma replace_char_body:
  "replace_char 95 47 (replace_char 45 43 (replace_char 47 95 (replace_char 43 45 (map b64_char (b64_body bs)))))
     = map b64_char (b64_body bs)"
proof -
  have "(if y = 95 then 47 else y) = x"
    if "x \<noteq> 45" "x \<noteq> 95" "y = (if z = 45 then 43 else z)" "z = (if w = 47 then 95 else w)"
      "w = (if x = 43 then 45 else x)" for x y z w :: code_unit
    using that by (auto split: if_splits)
  then show ?thesis
    using b64_body_less [of bs] by (auto simp: replace_char_def list_all_iff)
qed

lemma strip_eq_pad: "61 \<notin> set s \<Longrightarrow> strip_eq (s @ replicate k 61) = s"
proof -
  assume s: "61 \<notin> set s"
  have "dropWhile (\<lambda>u. u = 61) (replicate k 61 @ rev s) = dropWhile (\<lambda>u. u = 61) (rev s)"
    by (induction k) simp_all
  also have "\<dots> = rev s" using s by (cases s rule: rev_cases) auto
  finally show ?thesis by (simp add: strip_eq_def)
qed

lemma base64Url_decode_encode [codec_simps]: "base64UrlToBytes (bytesToBase64Url bs) = Some bs"
proof -
  let ?m = "map b64_char (b64_body bs)"
  let ?u = "replace_char 47 95 (replace_char 43 45 ?m)"
  have pad: "replace_char a b (s @ replicate k 61) = replace_char a b s @ replicate k 61"
    if "a \<noteq> 61" for a b s k using that by (simp add: replace_char_def)
  have "61 \<notin> set ?u"
    using b64_body_no_pad [of bs] by (auto simp: replace_char_def split: if_splits)
  then have u: "bytesToBase64Url bs = ?u"
    by (simp add: bytesToBase64Url_def bytesToBase64_body pad strip_eq_pad)
  have "length ?u = length (b64_body bs)" by (simp add: replace_char_def)
  then show ?thesis
    using base64_decode_encode [of bs]
    by (simp add: base64UrlToBytes_def u replace_char_body Let_def bytesToBase64_body)
qed

interpretation base64_url: codec bytesToBase64Url base64UrlToBytes "\<lambda>_. True"
  by unfold_locales (rule base64Url_decode_encode)

section \<open>hex.ts\<close>

definition hex_char :: "nat \<Rightarrow> code_unit" where
  "hex_char d = (if d < 10 then unit_of (48 + d) else unit_of (97 + (d - 10)))"

definition hex_value :: "code_unit \<Rightarrow> nat option" where
  "hex_value u =
     (let c = unat u in
      if 48 \<le> c \<and> c \<le> 57 then Some (c - 48)
      else if 97 \<le> c \<and> c \<le> 102 then Some (c - 97 + 10)
      else if 65 \<le> c \<and> c \<le> 70 then Some (c - 65 + 10)
      else None)"

text \<open>\<open>bytesToHex\<close>: \<open>b.toString(16).padStart(2, '0')\<close> for every byte.\<close>

definition hex_of_byte :: "byte \<Rightarrow> js_string" where
  "hex_of_byte b =
     padStart 2 48 (if unat b < 16 then [hex_char (unat b)]
                    else [hex_char (unat b div 16), hex_char (unat b mod 16)])"

definition bytesToHex :: "bytes \<Rightarrow> js_string" where
  "bytesToHex bs = concat (map hex_of_byte bs)"

text \<open>
  \<open>parseInt(s, 16)\<close>: white space, a sign and a \<open>0x\<close> are skipped, the longest run of digits is
  read, and no digit at all is NaN (\<open>None\<close>), which a \<open>Uint8Array\<close> stores as 0.
\<close>

definition is_js_space :: "code_unit \<Rightarrow> bool" where
  "is_js_space u \<longleftrightarrow>
     u \<in> {9, 10, 11, 12, 13, 32, 0xA0, 0x1680, 0x2028, 0x2029, 0x202F, 0x205F, 0x3000, 0xFEFF}
     \<or> (0x2000 \<le> u \<and> u \<le> 0x200A)"

fun hex_run :: "nat \<Rightarrow> js_string \<Rightarrow> nat" where
  "hex_run n [] = n"
| "hex_run n (u # s) = (case hex_value u of None \<Rightarrow> n | Some d \<Rightarrow> hex_run (16 * n + d) s)"

definition hex_unsigned :: "js_string \<Rightarrow> nat option" where
  "hex_unsigned s =
     (let t = (case s of z # x # r \<Rightarrow> if z = 48 \<and> (x = 120 \<or> x = 88) then r else s | _ \<Rightarrow> s)
      in case t of [] \<Rightarrow> None
         | u # _ \<Rightarrow> (if hex_value u = None then None else Some (hex_run 0 t)))"

definition parseInt16 :: "js_string \<Rightarrow> int option" where
  "parseInt16 s =
     (case dropWhile is_js_space s of
        [] \<Rightarrow> None
      | u # r \<Rightarrow>
          if u = 45 then map_option (\<lambda>n. - int n) (hex_unsigned r)
          else if u = 43 then map_option int (hex_unsigned r)
          else map_option int (hex_unsigned (u # r)))"

text \<open>\<open>hexToBytes\<close>: an odd length throws (\<open>None\<close>).\<close>

fun hex_pairs :: "js_string \<Rightarrow> bytes" where
  "hex_pairs (u # v # s) =
     (case parseInt16 [u, v] of None \<Rightarrow> 0 | Some n \<Rightarrow> of_int n) # hex_pairs s"
| "hex_pairs _ = []"

definition hexToBytes :: "js_string \<Rightarrow> bytes option" where
  "hexToBytes s = (if odd (length s) then None else Some (hex_pairs s))"

lemma hex_value_char [simp]: "d < 16 \<Longrightarrow> hex_value (hex_char d) = Some d"
  by (auto simp: hex_value_def hex_char_def Let_def)

lemma hex_char_plain:
  assumes "d < 16"
  shows "\<not> is_js_space (hex_char d)" "hex_char d \<noteq> 45" "hex_char d \<noteq> 43" "hex_char d \<noteq> 120" "hex_char d \<noteq> 88"
proof -
  have "48 \<le> unat (hex_char d)" "unat (hex_char d) \<le> 102"
      "unat (hex_char d) \<le> 57 \<or> 97 \<le> unat (hex_char d)"
    using assms by (auto simp: hex_char_def)
  then show "\<not> is_js_space (hex_char d)" "hex_char d \<noteq> 45" "hex_char d \<noteq> 43" "hex_char d \<noteq> 120" "hex_char d \<noteq> 88"
    by (auto simp: is_js_space_def word_le_nat_alt)
qed

lemma hex_of_byte_digits: "hex_of_byte b = [hex_char (unat b div 16), hex_char (unat b mod 16)]"
  by (auto simp: hex_of_byte_def padStart_def hex_char_def [of 0] unit_of_def numeral_2_eq_2)

lemma parseInt16_digits:
  assumes "d < 16" "e < 16"
  shows "parseInt16 [hex_char d, hex_char e] = Some (int (16 * d + e))"
  using assms hex_char_plain [OF assms(1)] hex_char_plain [OF assms(2)]
  by (simp add: parseInt16_def hex_unsigned_def)

lemma hex_pairs_bytesToHex: "hex_pairs (bytesToHex bs) = bs"
proof (induction bs)
  case Nil
  then show ?case by (simp add: bytesToHex_def)
next
  case (Cons b bs)
  have "unat b div 16 < 16" using byte_bound [of b] by linarith
  moreover have "(of_int (int (16 * (unat b div 16) + unat b mod 16)) :: byte) = b"
    by (simp only: mult_div_mod_eq of_int_of_nat_eq) simp
  ultimately show ?case
    using Cons by (simp add: bytesToHex_def hex_of_byte_digits parseInt16_digits del: of_nat_add of_nat_mult)
qed

lemma length_bytesToHex [simp]: "length (bytesToHex bs) = 2 * length bs"
  by (induction bs) (simp_all add: bytesToHex_def hex_of_byte_digits)

lemma hex_decode_encode [codec_simps]: "hexToBytes (bytesToHex bs) = Some bs"
  by (simp add: hexToBytes_def hex_pairs_bytesToHex)

interpretation hex: codec bytesToHex hexToBytes "\<lambda>_. True"
  by unfold_locales (rule hex_decode_encode)

end
