(* ===== verification/Length_Prefix.thy ===== *)
theory Length_Prefix
  imports Codec
begin

text \<open>
  The length-prefixed concatenation of payload.ts, which every signed payload and every
  stored layout uses: each field is preceded by its length as a 4-byte big-endian word.
  \<open>lengthPrefixedConcat_buf\<close> is the code's loop over an allocated array, where a write past
  the end is a \<open>RangeError\<close> (\<open>None\<close>); \<open>lengthPrefixedConcat\<close> is its result.  Parsing the
  fields back shows that the concatenation is unambiguous.
\<close>

text \<open>\<open>DataView.setUint32(offset, n, false)\<close> stores n modulo $2^{32}$.\<close>

definition be32 :: "nat \<Rightarrow> bytes" where
  "be32 n = [of_nat (n div 16777216), of_nat (n div 65536), of_nat (n div 256), of_nat n]"

fun be32_value :: "bytes \<Rightarrow> nat" where
  "be32_value [a, b, c, d] = unat a * 16777216 + unat b * 65536 + unat c * 256 + unat d"
| "be32_value _ = 0"

text \<open>\<open>out.set(field, offset)\<close>.\<close>

definition buf_set :: "bytes \<Rightarrow> nat \<Rightarrow> bytes \<Rightarrow> bytes option" where
  "buf_set out off f =
     (if off + length f \<le> length out then Some (take off out @ f @ drop (off + length f) out)
      else None)"

text \<open>\<open>appendLengthPrefixed\<close>: the length, the field, and the next offset.\<close>

definition appendLengthPrefixed :: "bytes \<Rightarrow> nat \<Rightarrow> bytes \<Rightarrow> (bytes \<times> nat) option" where
  "appendLengthPrefixed out off f =
     (case buf_set out off (be32 (length f)) of
        None \<Rightarrow> None
      | Some out1 \<Rightarrow>
          (case buf_set out1 (off + 4) f of
             None \<Rightarrow> None
           | Some out2 \<Rightarrow> Some (out2, off + 4 + length f)))"

fun write_fields :: "bytes \<Rightarrow> nat \<Rightarrow> bytes list \<Rightarrow> bytes option" where
  "write_fields out off [] = Some out"
| "write_fields out off (f # fs) =
     (case appendLengthPrefixed out off f of
        None \<Rightarrow> None
      | Some (out', off') \<Rightarrow> write_fields out' off' fs)"

definition fields_size :: "bytes list \<Rightarrow> nat" where
  "fields_size fs = foldl (\<lambda>n f. n + (4 + length f)) 0 fs"

definition lengthPrefixedConcat_buf :: "bytes list \<Rightarrow> bytes option" where
  "lengthPrefixedConcat_buf fs = write_fields (replicate (fields_size fs) 0) 0 fs"

definition lengthPrefixedConcat :: "bytes list \<Rightarrow> bytes" where
  "lengthPrefixedConcat fs = concat (map (\<lambda>f. be32 (length f) @ f) fs)"

lemma length_be32 [simp]: "length (be32 n) = 4"
  by (simp add: be32_def)

lemma lengthPrefixedConcat_simps [simp]:
  "lengthPrefixedConcat [] = []"
  "lengthPrefixedConcat (f # fs) = be32 (length f) @ f @ lengthPrefixedConcat fs"
  by (simp_all add: lengthPrefixedConcat_def)

lemma buf_set_append:
  "length f = n \<Longrightarrow> buf_set (done @ replicate (n + k) 0) (length done) f = Some (done @ f @ replicate k 0)"
  by (simp add: buf_set_def)

lemma write_fields_append:
  "write_fields (done @ replicate (length (lengthPrefixedConcat fs) + k) 0) (length done) fs
     = Some (done @ lengthPrefixedConcat fs @ replicate k 0)"
proof (induction fs arbitrary: "done")
  case Nil
  then show ?case by simp
next
  case (Cons f fs)
  let ?k = "length (lengthPrefixedConcat fs) + k"
  have a: "buf_set (done @ replicate (4 + (length f + ?k)) 0) (length done) (be32 (length f))
      = Some (done @ be32 (length f) @ replicate (length f + ?k) 0)"
    by (rule buf_set_append) simp
  have b: "buf_set ((done @ be32 (length f)) @ replicate (length f + ?k) 0)
        (length (done @ be32 (length f))) f
      = Some ((done @ be32 (length f)) @ f @ replicate ?k 0)"
    by (rule buf_set_append) simp
  have "appendLengthPrefixed (done @ replicate (4 + (length f + ?k)) 0) (length done) f
      = Some ((done @ be32 (length f) @ f) @ replicate ?k 0, length (done @ be32 (length f) @ f))"
    using b by (simp add: appendLengthPrefixed_def a)
  then show ?case
    using Cons [of "done @ be32 (length f) @ f"] by (simp add: add.assoc)
qed

lemma fields_size_eq: "fields_size fs = length (lengthPrefixedConcat fs)"
proof -
  have "foldl (\<lambda>n f. n + (4 + length f)) m fs = m + length (lengthPrefixedConcat fs)" for m
    by (induction fs arbitrary: m) simp_all
  then show ?thesis by (simp add: fields_size_def)
qed

lemma lengthPrefixedConcat_buf_eq: "lengthPrefixedConcat_buf fs = Some (lengthPrefixedConcat fs)"
  using write_fields_append [of "[]" fs 0]
  by (simp add: lengthPrefixedConcat_buf_def fields_size_eq)

section \<open>Reading the fields back\<close>

lemma be32_recombine:
  fixes n :: nat
  assumes "q1 * 256 + r0 = n" "q2 * 256 + r1 = q1" "q3 * 256 + r2 = q2"
  shows "q3 * 16777216 + r2 * 65536 + r1 * 256 + r0 = n"
  using assms by auto

lemma unat_of_nat_byte: "unat (of_nat n :: byte) = n mod 256"
  by (simp add: unat_of_nat)

lemma be32_value_be32 [simp]: "n < 4294967296 \<Longrightarrow> be32_value (be32 n) = n"
proof -
  assume "n < 4294967296"
  then have "n div 16777216 < 256" by (simp add: less_mult_imp_div_less)
  then have "n div 16777216 mod 256 = n div 16777216" by simp
  moreover have "n div 65536 = n div 256 div 256" "n div 16777216 = n div 256 div 256 div 256"
    by (simp_all add: div_mult2_eq [symmetric])
  moreover have "n div 256 div 256 div 256 * 16777216 + n div 256 div 256 mod 256 * 65536
      + n div 256 mod 256 * 256 + n mod 256 = n"
    by (rule be32_recombine) (rule div_mult_mod_eq)+
  ultimately show ?thesis by (simp only: be32_def be32_value.simps unat_of_nat_byte)
qed

lemma be32_inject: "m < 4294967296 \<Longrightarrow> n < 4294967296 \<Longrightarrow> be32 m = be32 n \<longleftrightarrow> m = n"
  by (metis be32_value_be32)

function parse_fields :: "bytes \<Rightarrow> bytes list option" where
  "parse_fields bs =
     (if bs = [] then Some []
      else if length bs < 4 then None
      else let n = be32_value (take 4 bs); rest = drop 4 bs
           in if length rest < n then None
              else map_option ((#) (take n rest)) (parse_fields (drop n rest)))"
  by pat_completeness auto
termination
  by (relation "measure length") auto

declare parse_fields.simps [simp del]

definition short :: "bytes \<Rightarrow> bool" where
  "short f \<longleftrightarrow> length f < 4294967296"

lemma parse_fields_concat: "list_all short fs \<Longrightarrow> parse_fields (lengthPrefixedConcat fs) = Some fs"
proof (induction fs)
  case Nil
  then show ?case by (simp add: parse_fields.simps)
next
  case (Cons f fs)
  have "be32 (length f) \<noteq> []" by (simp add: be32_def)
  with Cons show ?case
    by (simp add: parse_fields.simps [of "be32 (length f) @ f @ lengthPrefixedConcat fs"] short_def)
qed

interpretation fields: codec lengthPrefixedConcat parse_fields "list_all short"
  by unfold_locales (rule parse_fields_concat)

declare lengthPrefixedConcat_simps [simp del]

lemmas lengthPrefixedConcat_inject = fields.enc_inject

end
