(* ===== verification/Calendar.thy ===== *)
theory Calendar
  imports Prelude
begin

text \<open>
  The dates of the client: \<open>Date.parse\<close> on the ISO formats and \<open>toISOString().slice(0, 10)\<close>,
  over the proleptic Gregorian day numbers of ECMAScript, and the day checks built on them
  (\<open>isUtcDay\<close> of pin.ts, \<open>isDay\<close> of own-history.ts, \<open>dayStart\<close> of admission.ts).  What
  \<open>Date.parse\<close> does with a string outside the ISO format is left to the engine by the language
  (V8 rolls 2026-02-30 over to March, others refuse it): it is the parameter \<open>other\<close>.
\<close>

definition DAY_MS :: int where
  "DAY_MS = 24 * 60 * 60 * 1000"

definition is_leap :: "int \<Rightarrow> bool" where
  "is_leap y \<longleftrightarrow> y mod 4 = 0 \<and> (y mod 100 \<noteq> 0 \<or> y mod 400 = 0)"

definition leap :: "int \<Rightarrow> int" where
  "leap y = (if is_leap y then 1 else 0)"

text \<open>ECMAScript's \<open>DayFromYear\<close>: the day number of 1 January, 1970-01-01 being day 0.\<close>

definition year_start :: "int \<Rightarrow> int" where
  "year_start y = 365 * (y - 1970) + (y - 1969) div 4 - (y - 1901) div 100 + (y - 1601) div 400"

definition month_start :: "int \<Rightarrow> int \<Rightarrow> int" where
  "month_start l m =
     (if m = 1 then 0 else if m = 2 then 31 else if m = 3 then 59 + l else if m = 4 then 90 + l
      else if m = 5 then 120 + l else if m = 6 then 151 + l else if m = 7 then 181 + l
      else if m = 8 then 212 + l else if m = 9 then 243 + l else if m = 10 then 273 + l
      else if m = 11 then 304 + l else if m = 12 then 334 + l else 365 + l)"

definition valid_date :: "int \<times> int \<times> int \<Rightarrow> bool" where
  "valid_date = (\<lambda>(y, m, d). 1 \<le> m \<and> m \<le> 12 \<and> 1 \<le> d \<and>
     d \<le> month_start (leap y) (m + 1) - month_start (leap y) m)"

definition day_number :: "int \<times> int \<times> int \<Rightarrow> int" where
  "day_number = (\<lambda>(y, m, d). year_start y + month_start (leap y) m + (d - 1))"

text \<open>The way back: \<open>YearFromTime\<close> by an estimate that is at most one year off.\<close>

definition year_of :: "int \<Rightarrow> int" where
  "year_of n =
     (let y = 1970 + n * 400 div 146097
      in if year_start (y + 1) \<le> n then y + 1 else if n < year_start y then y - 1 else y)"

definition month_of :: "int \<Rightarrow> int \<Rightarrow> int" where
  "month_of l k =
     (if k < 31 then 1 else if k < 59 + l then 2 else if k < 90 + l then 3
      else if k < 120 + l then 4 else if k < 151 + l then 5 else if k < 181 + l then 6
      else if k < 212 + l then 7 else if k < 243 + l then 8 else if k < 273 + l then 9
      else if k < 304 + l then 10 else if k < 334 + l then 11 else 12)"

definition civil :: "int \<Rightarrow> int \<times> int \<times> int" where
  "civil n =
     (let y = year_of n; k = n - year_start y; m = month_of (leap y) k
      in (y, m, k - month_start (leap y) m + 1))"

lemma div_succ:
  assumes "0 < (b::int)"
  shows "(x + 1) div b = x div b + (if b dvd x + 1 then 1 else 0)"
proof (cases "x mod b = b - 1")
  case True
  then have "x + 1 = b * (x div b + 1)"
    using mult_div_mod_eq [of b x] by (simp add: distrib_left)
  with assms show ?thesis by simp
next
  case False
  then have r: "0 \<le> x mod b + 1" "x mod b + 1 < b"
    using pos_mod_bound [OF assms, of x] pos_mod_sign [OF assms, of x] by linarith+
  have "(x + 1) div b = x div b"
    by (rule int_div_pos_eq [OF _ r]) (simp add: mult_div_mod_eq)
  moreover have "\<not> b dvd x + 1"
  proof
    assume "b dvd x + 1"
    then have "b dvd x mod b + 1" by (simp add: dvd_eq_mod_eq_0 mod_add_left_eq)
    with r pos_mod_sign [OF assms, of x] show False by (simp add: zdvd_not_zless)
  qed
  ultimately show ?thesis by simp
qed

lemma numeral_dvds: "(100::int) dvd 400" "(4::int) dvd 100"
  by simp_all

lemma year_start_Suc: "year_start (y + 1) = year_start y + 365 + leap y"
proof -
  have m: "4 dvd y - 1968 \<longleftrightarrow> y mod 4 = 0" "100 dvd y - 1900 \<longleftrightarrow> y mod 100 = 0"
      "400 dvd y - 1600 \<longleftrightarrow> y mod 400 = 0"
    using mod_eq_dvd_iff [of y 4 1968] mod_eq_dvd_iff [of y 100 1900] mod_eq_dvd_iff [of y 400 1600]
    by simp_all
  obtain P4 P100 P400 where P: "(y mod 4 = 0) = P4" "(y mod 100 = 0) = P100" "(y mod 400 = 0) = P400"
    by blast
  note dv = numeral_dvds(1) [THEN dvd_trans, of y] numeral_dvds(2) [THEN dvd_trans, of y]
  have i: "P400 \<longrightarrow> P100" "P100 \<longrightarrow> P4"
    using dv unfolding dvd_eq_mod_eq_0 [of _ y] P by iprover+
  have l: "leap y = of_bool P4 - of_bool P100 + of_bool P400"
    unfolding leap_def is_leap_def P using i by (cases P4; cases P100; cases P400) simp_all
  obtain a b c where d: "(y - 1969) div 4 = a" "(y - 1901) div 100 = b" "(y - 1601) div 400 = c"
    by blast
  have e: "(y + 1 - 1969) div 4 = a + of_bool P4" "(y + 1 - 1901) div 100 = b + of_bool P100"
      "(y + 1 - 1601) div 400 = c + of_bool P400"
    using div_succ [of 4 "y - 1969"] div_succ [of 100 "y - 1901"] div_succ [of 400 "y - 1601"]
    by (simp_all add: m [unfolded P] d)
  show ?thesis
    unfolding year_start_def d e l by (simp only: algebra_simps)
qed

lemma leap_bounds: "0 \<le> leap y" "leap y \<le> 1"
  by (simp_all add: leap_def)

lemma year_start_add: "year_start y + 365 * int k \<le> year_start (y + int k)"
proof (induction k)
  case 0
  then show ?case by simp
next
  case (Suc k)
  have "year_start (y + int k + 1) = year_start (y + int k) + 365 + leap (y + int k)"
    by (rule year_start_Suc)
  with Suc show ?case using leap_bounds [of "y + int k"] by (simp add: algebra_simps)
qed

lemma year_start_mono: "y \<le> z \<Longrightarrow> year_start y \<le> year_start z"
  using year_start_add [of y "nat (z - y)"] by simp

lemma year_unique:
  assumes "year_start y \<le> n" "n < year_start (y + 1)" "year_start z \<le> n" "n < year_start (z + 1)"
  shows "y = z"
proof (rule ccontr)
  assume "y \<noteq> z"
  then consider "y + 1 \<le> z" | "z + 1 \<le> y" by linarith
  then show False
    using assms year_start_mono [of "y + 1" z] year_start_mono [of "z + 1" y] by cases linarith+
qed

lemma floor_bounds: "0 < (b::int) \<Longrightarrow> b * (a div b) \<le> a" "0 < b \<Longrightarrow> a < b * (a div b) + b"
  using pos_mod_bound [of b a] pos_mod_sign [of b a] mult_div_mod_eq [of b a] by linarith+

lemma year_start_estimate:
  "146097 * (y - 1970) - 1200 \<le> 400 * year_start y" "400 * year_start y \<le> 146097 * (y - 1970) + 1200"
proof -
  obtain a b c where d: "(y - 1969) div 4 = a" "(y - 1901) div 100 = b" "(y - 1601) div 400 = c"
    by blast
  have "4 * a \<le> y - 1969" "y - 1969 < 4 * a + 4" "100 * b \<le> y - 1901" "y - 1901 < 100 * b + 100"
      "400 * c \<le> y - 1601" "y - 1601 < 400 * c + 400"
    using floor_bounds [of 4 "y - 1969"] floor_bounds [of 100 "y - 1901"] floor_bounds [of 400 "y - 1601"]
    unfolding d by simp_all
  then have "100 * (y - 1969) < 400 * a + 400" "400 * b \<le> 4 * (y - 1901)" "y - 1601 < 400 * c + 400"
      "400 * a \<le> 100 * (y - 1969)" "4 * (y - 1901) < 400 * b + 400" "400 * c \<le> y - 1601"
    by simp_all
  then have "97 * y - 400 * a + 400 * b - 400 * c \<le> 191698"
      "400 * a - 400 * b + 400 * c \<le> 97 * y - 190497" by simp_all
  then show "146097 * (y - 1970) - 1200 \<le> 400 * year_start y"
    "400 * year_start y \<le> 146097 * (y - 1970) + 1200"
    unfolding year_start_def d by (simp_all add: algebra_simps)
qed

lemma year_of_bounds: "year_start (year_of n) \<le> n \<and> n < year_start (year_of n + 1)"
proof -
  obtain q where q: "n * 400 div 146097 = q" by blast
  have b: "146097 * q \<le> n * 400" "n * 400 < 146097 * q + 146097"
    using floor_bounds [of 146097 "n * 400"] unfolding q by simp_all
  have "400 * year_start (1969 + q) \<le> 146097 * q - 144897" "146097 * q + 290994 \<le> 400 * year_start (1972 + q)"
    using year_start_estimate [of "1969 + q"] year_start_estimate [of "1972 + q"]
    by (simp_all add: algebra_simps)
  with b have "year_start (1969 + q) \<le> n" "n < year_start (1972 + q)" by simp_all
  then show ?thesis by (auto simp: year_of_def q Let_def algebra_simps)
qed

lemma month_of_bounds:
  assumes "0 \<le> k" "k < 365 + l" "0 \<le> l" "l \<le> 1"
  shows "1 \<le> month_of l k" "month_of l k \<le> 12" "month_start l (month_of l k) \<le> k"
    "k < month_start l (month_of l k + 1)"
  using assms unfolding month_of_def month_start_def by (simp_all split: if_splits)

lemma civil_valid: "valid_date (civil n)"
  and day_number_civil: "day_number (civil n) = n"
proof -
  let ?y = "year_of n"
  have k: "0 \<le> n - year_start ?y" "n - year_start ?y < 365 + leap ?y"
    using year_of_bounds [of n] by (simp_all add: year_start_Suc)
  note m = month_of_bounds [OF k leap_bounds]
  show "valid_date (civil n)" using m by (simp add: civil_def valid_date_def Let_def)
  show "day_number (civil n) = n" by (simp add: civil_def day_number_def Let_def)
qed

lemma month_of_unique:
  assumes "1 \<le> m" "m \<le> 12" "month_start l m \<le> k" "k < month_start l (m + 1)" "0 \<le> l" "l \<le> 1"
  shows "month_of l k = m"
proof -
  have "m = 1 \<or> m = 2 \<or> m = 3 \<or> m = 4 \<or> m = 5 \<or> m = 6 \<or> m = 7 \<or> m = 8 \<or> m = 9 \<or> m = 10 \<or> m = 11 \<or> m = 12"
    using assms(1,2) by presburger
  then show ?thesis
    using assms(3-6) by (elim disjE) (simp_all add: month_start_def month_of_def)
qed

lemma month_start_total:
  assumes "1 \<le> m" "m \<le> 12" "0 \<le> l" "l \<le> 1"
  shows "0 \<le> month_start l m" "month_start l (m + 1) \<le> 365 + l"
  using assms unfolding month_start_def by (simp_all split: if_splits)

lemma civil_day_number:
  assumes "valid_date (y, m, d)"
  shows "civil (day_number (y, m, d)) = (y, m, d)"
proof -
  let ?n = "day_number (y, m, d)"
  from assms have m: "1 \<le> m" "m \<le> 12" "1 \<le> d" "d \<le> month_start (leap y) (m + 1) - month_start (leap y) m"
    by (simp_all add: valid_date_def)
  have "year_start y \<le> ?n" "?n < year_start (y + 1)"
    using m month_start_total [OF m(1,2) leap_bounds, of y] by (simp_all add: day_number_def year_start_Suc)
  then have y: "year_of ?n = y"
    using year_of_bounds [of ?n] year_unique by blast
  have "month_of (leap y) (?n - year_start y) = m"
    using m by (intro month_of_unique leap_bounds) (simp_all add: day_number_def)
  with y show ?thesis by (simp add: civil_def Let_def) (simp add: day_number_def)
qed

section \<open>ISO strings\<close>

text \<open>\<open>\d{4}-\d{2}-\d{2}\<close> anchored at both ends, and its three numbers.\<close>

fun day_fields :: "js_string \<Rightarrow> (int \<times> int \<times> int) option" where
  "day_fields [a, b, c, d, h, m, n, k, e, f] =
     (if list_all is_digit [a, b, c, d, m, n, e, f] \<and> h = 45 \<and> k = 45
      then Some (int (dec_value [a, b, c, d]), int (dec_value [m, n]), int (dec_value [e, f]))
      else None)"
| "day_fields _ = None"

definition day_shape :: "js_string \<Rightarrow> bool" where
  "day_shape s \<longleftrightarrow> day_fields s \<noteq> None"

definition digits2 :: "int \<Rightarrow> js_string" where
  "digits2 n = [digit (nat n div 10 mod 10), digit (nat n mod 10)]"

definition digits4 :: "int \<Rightarrow> js_string" where
  "digits4 n = [digit (nat n div 1000 mod 10), digit (nat n div 100 mod 10),
                digit (nat n div 10 mod 10), digit (nat n mod 10)]"

text \<open>
  The first ten characters of \<open>new Date(ms).toISOString()\<close>; a year outside 0 to 9999 is a sign
  and six digits.
\<close>

definition iso_year :: "int \<Rightarrow> js_string" where
  "iso_year y = (if 0 \<le> y \<and> y \<le> 9999 then digits4 y
                 else (if y < 0 then 45 else 43) # padStart 6 48 (js_num \<bar>y\<bar>))"

definition isoDay :: "int \<Rightarrow> js_string" where
  "isoDay ms = (case civil (ms div DAY_MS) of
     (y, m, d) \<Rightarrow> take 10 (iso_year y @ 45 # digits2 m @ 45 # digits2 d))"

text \<open>
  The ISO time after a date: nothing (midnight UTC), or \<open>THH:mmZ\<close>, \<open>THH:mm:ssZ\<close> or
  \<open>THH:mm:ss.sssZ\<close>.
\<close>

definition clock_ms :: "nat \<Rightarrow> nat \<Rightarrow> nat \<Rightarrow> nat \<Rightarrow> int option" where
  "clock_ms h m s t =
     (if h < 24 \<and> m < 60 \<and> s < 60 \<or> h = 24 \<and> m = 0 \<and> s = 0 \<and> t = 0
      then Some (int (((h * 60 + m) * 60 + s) * 1000 + t)) else None)"

fun time_fields :: "js_string \<Rightarrow> int option" where
  "time_fields [] = Some 0"
| "time_fields [t, a, b, p, c, d, z] =
     (if t = 84 \<and> p = 58 \<and> z = 90 \<and> list_all is_digit [a, b, c, d]
      then clock_ms (dec_value [a, b]) (dec_value [c, d]) 0 0 else None)"
| "time_fields [t, a, b, p, c, d, q, e, f, z] =
     (if t = 84 \<and> p = 58 \<and> q = 58 \<and> z = 90 \<and> list_all is_digit [a, b, c, d, e, f]
      then clock_ms (dec_value [a, b]) (dec_value [c, d]) (dec_value [e, f]) 0 else None)"
| "time_fields [t, a, b, p, c, d, q, e, f, r, u, v, w, z] =
     (if t = 84 \<and> p = 58 \<and> q = 58 \<and> r = 46 \<and> z = 90 \<and> list_all is_digit [a, b, c, d, e, f, u, v, w]
      then clock_ms (dec_value [a, b]) (dec_value [c, d]) (dec_value [e, f]) (dec_value [u, v, w])
      else None)"
| "time_fields _ = None"

definition iso_ms :: "js_string \<Rightarrow> int option" where
  "iso_ms s =
     (case day_fields (take 10 s) of
        None \<Rightarrow> None
      | Some f \<Rightarrow> if valid_date f
                  then map_option (\<lambda>t. day_number f * DAY_MS + t) (time_fields (drop 10 s))
                  else None)"

definition date_parse :: "(js_string \<Rightarrow> int option) \<Rightarrow> js_string \<Rightarrow> int option" where
  "date_parse other s = (case iso_ms s of Some ms \<Rightarrow> Some ms | None \<Rightarrow> other s)"

section \<open>The day checks\<close>

text \<open>\<open>isUtcDay\<close> (pin.ts): the shape, and a real calendar date.\<close>

definition isUtcDay :: "(js_string \<Rightarrow> int option) \<Rightarrow> js_string \<Rightarrow> bool" where
  "isUtcDay other s \<longleftrightarrow> day_shape s \<and>
     (case date_parse other (s @ js ''T00:00:00Z'') of None \<Rightarrow> False | Some ms \<Rightarrow> isoDay ms = s)"

text \<open>\<open>isDay\<close> (own-history.ts): the shape, and any date the engine accepts.\<close>

definition isDay :: "(js_string \<Rightarrow> int option) \<Rightarrow> js_string \<Rightarrow> bool" where
  "isDay other s \<longleftrightarrow> day_shape s \<and> date_parse other (s @ js ''T00:00:00Z'') \<noteq> None"

text \<open>\<open>dayStart\<close> (admission.ts): midnight UTC of a real date, in ms.\<close>

definition dayStart :: "(js_string \<Rightarrow> int option) \<Rightarrow> js_string \<Rightarrow> int option" where
  "dayStart other s =
     (if \<not> day_shape s then None
      else case date_parse other (s @ js ''T00:00:00.000Z'') of
             None \<Rightarrow> None
           | Some ms \<Rightarrow> if isoDay ms = s then Some ms else None)"

lemma day_fields_length: "day_fields s = Some f \<Longrightarrow> length s = 10"
  by (cases s rule: day_fields.cases) auto

lemma day_shape_length: "day_shape s \<Longrightarrow> length s = 10"
  using day_fields_length by (auto simp: day_shape_def)

lemma digits2_value: "0 \<le> n \<Longrightarrow> n < 100 \<Longrightarrow> int (dec_value (digits2 n)) = n"
proof -
  assume "0 \<le> n" "n < 100"
  then have "nat n div 10 < 10" by simp
  then have "10 * (nat n div 10 mod 10) + nat n mod 10 = nat n" by simp
  then show ?thesis using \<open>0 \<le> n\<close> by (simp add: digits2_def dec_value_def)
qed

lemma digits4_value: "0 \<le> n \<Longrightarrow> n < 10000 \<Longrightarrow> int (dec_value (digits4 n)) = n"
proof -
  assume n: "0 \<le> n" "n < 10000"
  have d: "nat n div 100 = nat n div 10 div 10" "nat n div 1000 = nat n div 10 div 10 div 10"
    by (simp_all add: div_mult2_eq [symmetric])
  have "10 * (10 * (10 * a + b) + c) + e = m"
    if "q * 10 + e = m" "r * 10 + c = q" "a * 10 + b = r" for a b c e m q r :: nat
    using that by simp
  from this [OF div_mult_mod_eq div_mult_mod_eq div_mult_mod_eq]
  have "10 * (10 * (10 * (nat n div 10 div 10 div 10) + nat n div 10 div 10 mod 10) + nat n div 10 mod 10)
      + nat n mod 10 = nat n" .
  moreover have "nat n div 1000 < 10" using n by simp
  ultimately show ?thesis
    using n(1) by (simp add: digits4_def dec_value_def d)
qed

lemma digits2_of_value: "is_digit a \<Longrightarrow> is_digit b \<Longrightarrow> digits2 (int (dec_value [a, b])) = [a, b]"
  using digit_value_less [of a] digit_value_less [of b]
  by (simp add: digits2_def dec_value_def del: of_nat_add of_nat_mult)

lemma digits4_of_value:
  assumes "is_digit a" "is_digit b" "is_digit c" "is_digit d"
  shows "digits4 (int (dec_value [a, b, c, d])) = [a, b, c, d]"
proof -
  let ?a = "digit_value a" and ?b = "digit_value b" and ?c = "digit_value c" and ?d = "digit_value d"
  let ?n = "10 * (10 * (10 * ?a + ?b) + ?c) + ?d"
  have l: "?a < 10" "?b < 10" "?c < 10" "?d < 10" using assms by (simp_all add: digit_value_less)
  have s: "(10 * q + r) div 10 = q" "(10 * q + r) mod 10 = r" if "r < 10" for q r :: nat
    using that by simp_all
  have "?n div 100 = ?n div 10 div 10" "?n div 1000 = ?n div 10 div 10 div 10"
    by (simp_all only: div_mult2_eq [symmetric]) simp_all
  moreover have "?n div 10 = 10 * (10 * ?a + ?b) + ?c" "?n mod 10 = ?d" by (rule s [OF l(4)])+
  moreover have "(10 * (10 * ?a + ?b) + ?c) div 10 = 10 * ?a + ?b"
      "(10 * (10 * ?a + ?b) + ?c) mod 10 = ?c" by (rule s [OF l(3)])+
  moreover have "(10 * ?a + ?b) div 10 = ?a" "(10 * ?a + ?b) mod 10 = ?b" by (rule s [OF l(2)])+
  ultimately have "digits4 (int ?n) = [digit (?a mod 10), digit ?b, digit ?c, digit ?d]"
    by (simp only: digits4_def nat_int)
  then show ?thesis using l assms by (simp add: dec_value_def)
qed

lemma day_fields_format:
  assumes "0 \<le> y" "y \<le> 9999" "valid_date (y, m, d)"
  shows "day_fields (digits4 y @ 45 # digits2 m @ 45 # digits2 d) = Some (y, m, d)"
proof -
  have "m = 1 \<or> m = 2 \<or> m = 3 \<or> m = 4 \<or> m = 5 \<or> m = 6 \<or> m = 7 \<or> m = 8 \<or> m = 9 \<or> m = 10 \<or> m = 11 \<or> m = 12"
    using assms(3) unfolding valid_date_def by (simp, presburger)
  then have "month_start (leap y) (m + 1) - month_start (leap y) m \<le> 31"
    using leap_bounds [of y] by (elim disjE) (simp_all add: month_start_def)
  then have "0 \<le> m" "m < 100" "0 \<le> d" "d < 100" using assms(3) by (auto simp: valid_date_def)
  moreover obtain a b c e where "digits4 y = [a, b, c, e]" "list_all is_digit [a, b, c, e]"
    by (simp add: digits4_def)
  moreover obtain p q where "digits2 m = [p, q]" "list_all is_digit [p, q]"
    by (simp add: digits2_def)
  moreover obtain u v where "digits2 d = [u, v]" "list_all is_digit [u, v]"
    by (simp add: digits2_def)
  ultimately show ?thesis
    using assms(1,2) digits4_value [of y] digits2_value [of m] digits2_value [of d] by simp
qed

lemma isoDay_format:
  "civil n = (y, m, d) \<Longrightarrow> 0 \<le> y \<Longrightarrow> y \<le> 9999 \<Longrightarrow>
   isoDay (n * DAY_MS) = digits4 y @ 45 # digits2 m @ 45 # digits2 d"
  by (simp add: isoDay_def DAY_MS_def iso_year_def digits4_def digits2_def)

lemma day_fields_year: "day_fields s = Some (y, m, d) \<Longrightarrow> 0 \<le> y \<and> y \<le> 9999"
proof (cases s rule: day_fields.cases)
  case (1 a b c d' h m' n' k e f)
  assume "day_fields s = Some (y, m, d)"
  with 1 have "is_digit a" "is_digit b" "is_digit c" "is_digit d'" "y = int (dec_value [a, b, c, d'])"
    by (simp_all split: if_splits)
  then show ?thesis
    using digit_value_less [of a] digit_value_less [of b] digit_value_less [of c] digit_value_less [of d']
    by (simp add: dec_value_def)
qed auto

lemma day_fields_inverse:
  assumes "day_fields s = Some (y, m, d)"
  shows "s = digits4 y @ 45 # digits2 m @ 45 # digits2 d"
proof (cases s rule: day_fields.cases)
  case (1 a b c d' h m' n' k e f)
  then show ?thesis
    using assms by (auto simp: digits4_of_value digits2_of_value split: if_splits)
qed (use assms in auto)

lemma isoDay_real_day:
  assumes "day_fields s = Some f" "valid_date f"
  shows "isoDay (day_number f * DAY_MS) = s"
proof -
  obtain y m d where f: "f = (y, m, d)" by (cases f)
  have "isoDay (day_number f * DAY_MS) = digits4 y @ 45 # digits2 m @ 45 # digits2 d"
    using assms day_fields_year unfolding f by (intro isoDay_format civil_day_number) auto
  with assms(1) show ?thesis using day_fields_inverse unfolding f by simp
qed

text \<open>Whatever day the engine produced, a day that prints back to \<open>s\<close> makes \<open>s\<close> a real date.\<close>

lemma isoDay_shape_valid:
  assumes "isoDay ms = s" "day_shape s"
  shows "\<exists>f. day_fields s = Some f \<and> valid_date f"
proof -
  obtain y m d where c: "civil (ms div DAY_MS) = (y, m, d)" by (cases "civil (ms div DAY_MS)")
  then have v: "valid_date (y, m, d)" using civil_valid [of "ms div DAY_MS"] by simp
  show ?thesis
  proof (cases "0 \<le> y \<and> y \<le> 9999")
    case True
    then have "s = digits4 y @ 45 # digits2 m @ 45 # digits2 d"
      using assms(1) c by (simp add: isoDay_def iso_year_def digits4_def digits2_def)
    with True v show ?thesis using day_fields_format by blast
  next
    case False
    then obtain u r where "s = u # r" "\<not> is_digit u"
      using assms(1) c by (fastforce simp: isoDay_def iso_year_def is_digit_def split: if_splits)
    then have "day_fields s = None" by (cases s rule: day_fields.cases) auto
    with assms(2) show ?thesis by (simp add: day_shape_def)
  qed
qed

lemma iso_ms_midnight:
  assumes "day_fields s = Some f" "valid_date f"
  shows "iso_ms (s @ js ''T00:00:00Z'') = Some (day_number f * DAY_MS)"
    "iso_ms (s @ js ''T00:00:00.000Z'') = Some (day_number f * DAY_MS)"
    "iso_ms s = Some (day_number f * DAY_MS)"
  using assms day_fields_length [OF assms(1)]
  by (simp_all add: iso_ms_def js_def clock_ms_def dec_value_def is_digit_def digit_value_def)

lemma isUtcDay_iff: "isUtcDay other s \<longleftrightarrow> (\<exists>f. day_fields s = Some f \<and> valid_date f)"
proof
  assume "isUtcDay other s"
  then obtain ms where "isoDay ms = s" "day_shape s"
    by (auto simp: isUtcDay_def split: option.splits)
  then show "\<exists>f. day_fields s = Some f \<and> valid_date f" by (rule isoDay_shape_valid)
next
  assume "\<exists>f. day_fields s = Some f \<and> valid_date f"
  then show "isUtcDay other s"
    by (auto simp: isUtcDay_def day_shape_def date_parse_def iso_ms_midnight isoDay_real_day)
qed

lemma dayStart_eq:
  "dayStart other s =
     (case day_fields s of
        None \<Rightarrow> None
      | Some f \<Rightarrow> if valid_date f then Some (day_number f * DAY_MS) else None)"
proof (cases "\<exists>f. day_fields s = Some f \<and> valid_date f")
  case True
  then show ?thesis
    by (auto simp: dayStart_def day_shape_def date_parse_def iso_ms_midnight isoDay_real_day)
next
  case False
  then have "isoDay ms \<noteq> s" if "day_shape s" for ms
    using isoDay_shape_valid [OF _ that] by blast
  then have "dayStart other s = None"
    by (auto simp: dayStart_def split: option.splits)
  with False show ?thesis by (auto split: option.splits)
qed

lemma isDay_real: "day_fields s = Some f \<Longrightarrow> valid_date f \<Longrightarrow> isDay other s"
  by (simp add: isDay_def day_shape_def date_parse_def iso_ms_midnight)

section \<open>Days compared as strings\<close>

lemma append_less_append:
  fixes xs xs' :: "'a::linorder list"
  assumes "length xs = length xs'"
  shows "xs @ ys < xs' @ ys' \<longleftrightarrow> xs < xs' \<or> xs = xs' \<and> ys < ys'"
  using assms by (induction xs xs' rule: list_induct2) auto

lemma digit_less: "is_digit a \<Longrightarrow> is_digit b \<Longrightarrow> a < b \<longleftrightarrow> digit_value a < digit_value b"
  by (simp add: is_digit_def digit_value_def word_less_nat_alt word_le_nat_alt unat_sub_if')
    linarith

lemma digits_less_iff:
  "length s = length t \<Longrightarrow> list_all is_digit s \<Longrightarrow> list_all is_digit t \<Longrightarrow>
   s < t \<longleftrightarrow> dec_value s < dec_value t"
proof (induction s t rule: list_induct2)
  case Nil
  then show ?case by simp
next
  case (Cons a s b t)
  have "q * 10 ^ length t + m < r * 10 ^ length t + n \<longleftrightarrow> q < r \<or> q = r \<and> m < n"
    if "m < 10 ^ length t" "n < 10 ^ length t" for q r m n :: nat
  proof -
    consider "q < r" | "q = r" | "r < q" by linarith
    then show ?thesis
    proof cases
      case 1
      then have "(q + 1) * 10 ^ length t \<le> r * 10 ^ length t" by (intro mult_le_mono1) simp
      with that 1 show ?thesis by simp
    next
      case 3
      then have "(r + 1) * 10 ^ length t \<le> q * 10 ^ length t" by (intro mult_le_mono1) simp
      with that 3 show ?thesis by simp
    qed simp
  qed
  with Cons dec_value_less [of s] dec_value_less [of t] show ?case
    by (simp add: dec_value_Cons digit_less) (metis digit_digit_value)
qed

text \<open>Dates in order: year, then month, then day.\<close>

lemma day_number_less_year:
  assumes "valid_date (y, m, d)" "valid_date (y', m', d')" "y < y'"
  shows "day_number (y, m, d) < day_number (y', m', d')"
proof -
  have "day_number (y, m, d) < year_start (y + 1)"
    using assms(1) month_start_total [OF _ _ leap_bounds, of m y]
    by (auto simp: valid_date_def day_number_def year_start_Suc)
  also have "\<dots> \<le> year_start y'" using assms(3) by (intro year_start_mono) simp
  also have "\<dots> \<le> day_number (y', m', d')"
    using assms(2) month_start_total [OF _ _ leap_bounds, of m' y']
    by (auto simp: valid_date_def day_number_def)
  finally show ?thesis .
qed

lemma month_start_mono: "1 \<le> m \<Longrightarrow> m < m' \<Longrightarrow> m' \<le> 12 \<Longrightarrow> month_start (leap y) (m + 1) \<le> month_start (leap y) m'"
proof -
  obtain l where l: "leap y = l" "0 \<le> l" "l \<le> 1" using leap_bounds [of y] by blast
  assume "1 \<le> m" "m < m'" "m' \<le> 12"
  with l(2,3) show ?thesis unfolding l(1) month_start_def by (auto; presburger)
qed

lemma day_number_less_month:
  assumes "valid_date (y, m, d)" "valid_date (y, m', d')" "m < m'"
  shows "day_number (y, m, d) < day_number (y, m', d')"
  using assms month_start_mono [of m m' y] by (auto simp: valid_date_def day_number_def)

lemma day_number_less_iff:
  assumes "valid_date (y, m, d)" "valid_date (y', m', d')"
  shows "day_number (y, m, d) < day_number (y', m', d') \<longleftrightarrow> y < y' \<or> y = y' \<and> (m < m' \<or> m = m' \<and> d < d')"
  using assms day_number_less_year [OF assms] day_number_less_year [OF assms(2,1)]
    day_number_less_month [of y m d m' d'] day_number_less_month [of y m' d' m d]
  by (cases y y' rule: linorder_cases; cases m m' rule: linorder_cases) (auto simp: day_number_def)

lemma day_fields_split:
  assumes "day_fields s = Some (y, m, d)"
  obtains a b c where "s = a @ 45 # b @ 45 # c" "length a = 4" "length b = 2" "length c = 2"
    "list_all is_digit a" "list_all is_digit b" "list_all is_digit c"
    "y = int (dec_value a)" "m = int (dec_value b)" "d = int (dec_value c)"
proof (cases s rule: day_fields.cases)
  case (1 a b c d' h m' n' k e f)
  with assms that [of "[a, b, c, d']" "[m', n']" "[e, f]"] show ?thesis
    by (auto split: if_splits)
qed (use assms in auto)

lemma day_string_less_iff:
  assumes "day_fields s = Some f" "day_fields t = Some g" "valid_date f" "valid_date g"
  shows "s < t \<longleftrightarrow> day_number f < day_number g"
proof -
  obtain y m d y' m' d' where f: "f = (y, m, d)" and g: "g = (y', m', d')"
    by (cases f, cases g) auto
  obtain a b c where s: "s = a @ 45 # b @ 45 # c" "length a = 4" "length b = 2" "length c = 2"
    "list_all is_digit a" "list_all is_digit b" "list_all is_digit c"
    "y = int (dec_value a)" "m = int (dec_value b)" "d = int (dec_value c)"
    using assms(1) unfolding f by (rule day_fields_split)
  obtain a' b' c' where t: "t = a' @ 45 # b' @ 45 # c'" "length a' = 4" "length b' = 2" "length c' = 2"
    "list_all is_digit a'" "list_all is_digit b'" "list_all is_digit c'"
    "y' = int (dec_value a')" "m' = int (dec_value b')" "d' = int (dec_value c')"
    using assms(2) unfolding g by (rule day_fields_split)
  have eq: "u = v \<longleftrightarrow> dec_value u = dec_value v"
    if "length u = length v" "list_all is_digit u" "list_all is_digit v" for u v
    using digits_less_iff [of u v] digits_less_iff [of v u] that
    by (cases u v rule: linorder_cases) auto
  have "s < t \<longleftrightarrow> a < a' \<or> a = a' \<and> (b < b' \<or> b = b' \<and> c < c')"
    using s(2,3) t(2,3) by (simp add: s(1) t(1) append_less_append)
  also have "\<dots> \<longleftrightarrow> y < y' \<or> y = y' \<and> (m < m' \<or> m = m' \<and> d < d')"
    using s t by (simp add: digits_less_iff eq [of a a'] eq [of b b'])
  also have "\<dots> \<longleftrightarrow> day_number f < day_number g"
    using assms(3,4) unfolding f g by (simp add: day_number_less_iff)
  finally show ?thesis .
qed

end
