(* ===== verification/Signing.thy ===== *)
theory Signing
  imports Base_Encodings Length_Prefix Calendar
begin

text \<open>
  ed25519.ts over the library it calls.  The third-party primitives the client uses
  (@noble/curves, @noble/hashes, SubtleCrypto) and the engine's reading of non-ISO dates are
  the fields of the record \<open>prims\<close>, a parameter of every definition that needs one;
  \<open>ed25519_laws\<close> is the documented behaviour of the signature scheme.
\<close>

record prims =
  ed_verify :: "bytes \<Rightarrow> bytes \<Rightarrow> bytes \<Rightarrow> bool option"  \<comment> \<open>signature, message, public key; \<open>None\<close>: it throws\<close>
  ed_sign :: "bytes \<Rightarrow> bytes \<Rightarrow> bytes"  \<comment> \<open>message, seed\<close>
  ed_public :: "bytes \<Rightarrow> bytes"  \<comment> \<open>the public key of a seed\<close>
  sha256 :: "bytes \<Rightarrow> bytes"
  date_other :: "js_string \<Rightarrow> int option"  \<comment> \<open>\<open>Date.parse\<close> outside the ISO format; \<open>None\<close>: NaN\<close>

type_synonym 'a result = "string + 'a"

datatype SigningContext =
    LoginChallenge | Post | Comment | RoleGrant | Invite | TrustAnchor | Pin | Verification
  | SuccessorDesignation | SuccessorClaim | RotationStart | RotationRekey | Admission
  | WrapRecord | KeyRotation

primrec context_name :: "SigningContext \<Rightarrow> string" where
  "context_name LoginChallenge = ''underground-bb:login-challenge:v1''"
| "context_name Post = ''underground-bb:post:v1''"
| "context_name Comment = ''underground-bb:comment:v1''"
| "context_name RoleGrant = ''underground-bb:role-grant:v1''"
| "context_name Invite = ''underground-bb:invite:v1''"
| "context_name TrustAnchor = ''underground-bb:trust-anchor:v1''"
| "context_name Pin = ''underground-bb:pin:v2''"
| "context_name Verification = ''underground-bb:verification:v2''"
| "context_name SuccessorDesignation = ''underground-bb:successor-designation:v1''"
| "context_name SuccessorClaim = ''underground-bb:successor-claim:v1''"
| "context_name RotationStart = ''underground-bb:rotation-start:v1''"
| "context_name RotationRekey = ''underground-bb:rotation-rekey:v1''"
| "context_name Admission = ''underground-bb:admission:v1''"
| "context_name WrapRecord = ''underground-bb:wrap-record:v1''"
| "context_name KeyRotation = ''underground-bb:key-rotation:v1''"

definition SEED_SIZE :: nat where "SEED_SIZE = 32"
definition PUBLIC_KEY_SIZE :: nat where "PUBLIC_KEY_SIZE = 32"
definition GO_PRIVATE_KEY_SIZE :: nat where "GO_PRIVATE_KEY_SIZE = 64"
definition SIGNATURE_SIZE :: nat where "SIGNATURE_SIZE = 64"

lemmas size_defs = SEED_SIZE_def PUBLIC_KEY_SIZE_def GO_PRIVATE_KEY_SIZE_def SIGNATURE_SIZE_def

record SigningKey =
  sk_seed :: bytes
  sk_publicKey :: bytes

text \<open>The comparison every module repeats: lengths first, then the accumulated XOR of the bytes.\<close>

definition bytesEqual :: "bytes \<Rightarrow> bytes \<Rightarrow> bool" where
  "bytesEqual a b \<longleftrightarrow>
     (if length a \<noteq> length b then False
      else foldl (\<lambda>diff (x, y). or diff (xor x y)) 0 (zip a b) = 0)"

text \<open>\<open>contextualize\<close>: the context, a zero byte, the message.\<close>

definition contextualize :: "SigningContext \<Rightarrow> bytes \<Rightarrow> bytes" where
  "contextualize ctx message = utf8_encode (js (context_name ctx)) @ 0 # message"

definition signingKeyFromSeed :: "prims \<Rightarrow> bytes \<Rightarrow> SigningKey result" where
  "signingKeyFromSeed P seed =
     (if length seed \<noteq> SEED_SIZE then Inl ''crypto: seed must be 32 bytes''
      else Inr \<lparr>sk_seed = seed, sk_publicKey = ed_public P seed\<rparr>)"

text \<open>\<open>generateSigningKey\<close>, with the platform's random bytes as an argument.\<close>

definition generateSigningKey :: "prims \<Rightarrow> bytes \<Rightarrow> SigningKey result" where
  "generateSigningKey P random = signingKeyFromSeed P random"

definition fromGoPrivateKeyBytes :: "prims \<Rightarrow> bytes \<Rightarrow> SigningKey result" where
  "fromGoPrivateKeyBytes P bs =
     (if length bs \<noteq> GO_PRIVATE_KEY_SIZE then Inl ''crypto: private key must be 64 bytes''
      else let seed = take SEED_SIZE bs; claimed = drop SEED_SIZE bs; pk = ed_public P seed
           in if \<not> bytesEqual pk claimed then Inl ''crypto: embedded public key does not match seed''
              else Inr \<lparr>sk_seed = seed, sk_publicKey = pk\<rparr>)"

definition toGoPrivateKeyBytes :: "SigningKey \<Rightarrow> bytes option" where
  "toGoPrivateKeyBytes key =
     (case buf_set (replicate GO_PRIVATE_KEY_SIZE 0) 0 (sk_seed key) of
        None \<Rightarrow> None
      | Some out \<Rightarrow> buf_set out SEED_SIZE (sk_publicKey key))"

definition sign :: "prims \<Rightarrow> SigningKey \<Rightarrow> SigningContext \<Rightarrow> bytes \<Rightarrow> bytes" where
  "sign P key ctx message = ed_sign P (contextualize ctx message) (sk_seed key)"

definition verify :: "prims \<Rightarrow> bytes \<Rightarrow> SigningContext \<Rightarrow> bytes \<Rightarrow> bytes \<Rightarrow> bool" where
  "verify P publicKey ctx message signature =
     (if length publicKey \<noteq> PUBLIC_KEY_SIZE then False
      else case ed_verify P signature (contextualize ctx message) publicKey of
             None \<Rightarrow> False
           | Some b \<Rightarrow> b)"

definition ed25519_laws :: "prims \<Rightarrow> bool" where
  "ed25519_laws P \<longleftrightarrow>
     (\<forall>seed m. length seed = 32 \<longrightarrow>
        length (ed_public P seed) = 32 \<and> length (ed_sign P m seed) = 64 \<and>
        ed_verify P (ed_sign P m seed) m (ed_public P seed) = Some True)"

section \<open>Facts\<close>

lemma or_eq_0_iff_word: "or a b = 0 \<longleftrightarrow> a = 0 \<and> b = (0 :: 'a::len word)"
  by (auto simp: bit_eq_iff bit_simps)

lemma xor_eq_0_iff_word: "xor a b = 0 \<longleftrightarrow> a = (b :: 'a::len word)"
  by (auto simp: bit_eq_iff bit_simps)

lemma bytesEqual_iff [simp]: "bytesEqual a b \<longleftrightarrow> a = b"
proof (cases "length a = length b")
  case True
  have "foldl (\<lambda>diff (x, y). or diff (xor x y)) d (zip a b) = 0 \<longleftrightarrow> d = 0 \<and> a = b" for d
    using True
  proof (induction a b arbitrary: d rule: list_induct2)
    case (Cons x xs y ys)
    then show ?case by (auto simp: or_eq_0_iff_word xor_eq_0_iff_word)
  qed simp
  with True show ?thesis by (simp add: bytesEqual_def)
qed (auto simp: bytesEqual_def)

lemma ascii_unit:
  assumes "(of_char c :: nat) < 128"
  shows "code_points (js (c # s)) = of_char c # code_points (js s)"
proof -
  let ?u = "of_char c :: code_unit"
  have u: "unat ?u = (of_char c :: nat)"
  proof -
    have "?u = of_nat (of_char c)" by (simp add: of_nat_of_char)
    then have "unat ?u = unat (of_nat (of_char c) :: code_unit)" by (rule arg_cong)
    with assms show ?thesis by (simp only: unat_of_nat) simp
  qed
  then have "\<not> is_high ?u" "\<not> is_low ?u" using assms by (simp_all add: is_high_nat is_low_nat)
  with u show ?thesis by (cases s) (simp_all add: js_def lone_def)
qed

definition ascii :: "string \<Rightarrow> bool" where
  "ascii s \<longleftrightarrow> list_all (\<lambda>c. (of_char c :: nat) < 128) s"

lemma utf8_encode_ascii: "ascii s \<Longrightarrow> utf8_encode (js s) = map of_char s"
proof (induction s)
  case Nil
  then show ?case by (simp add: utf8_encode_def)
next
  case (Cons c s)
  then have "(of_char c :: nat) < 128" "utf8_encode (js s) = map of_char s" by (simp_all add: ascii_def)
  then show ?case
    by (simp add: utf8_encode_def ascii_unit utf8_of_def byte_of_def of_nat_of_char)
qed

lemma ascii_context_name: "ascii (context_name ctx)"
  by (cases ctx) (simp_all add: ascii_def)

lemma of_char_byte_inject: "(of_char c :: byte) = of_char d \<longleftrightarrow> c = d"
proof
  assume "(of_char c :: byte) = of_char d"
  then have "unat (of_nat (of_char c) :: byte) = unat (of_nat (of_char d) :: byte)"
    by (simp add: of_nat_of_char)
  then show "c = d" by (simp add: unat_of_nat of_char_eq_iff)
qed simp

lemma context_name_inject: "context_name c = context_name d \<Longrightarrow> c = d"
  by (cases c; cases d) simp_all

lemma context_name_no_zero: "CHR 0x00 \<notin> set (context_name c)"
  by (cases c) simp_all

lemma append_zero_inject:
  assumes "xs @ z # m = ys @ z # n" "z \<notin> set xs" "z \<notin> set ys"
  shows "xs = ys \<and> m = n"
  using assms
proof (induction xs arbitrary: ys)
  case Nil
  then show ?case by (cases ys) auto
next
  case (Cons x xs)
  then show ?case by (cases ys) auto
qed

text \<open>Domain separation: the bytes that are signed determine the context and the message.\<close>

lemma contextualize_inject: "contextualize c m = contextualize d n \<longleftrightarrow> c = d \<and> m = n"
proof
  assume eq: "contextualize c m = contextualize d n"
  have z: "0 \<notin> set (map of_char (context_name e) :: bytes)" for e
  proof
    assume "0 \<in> set (map of_char (context_name e) :: bytes)"
    then obtain k where "k \<in> set (context_name e)" "(of_char k :: byte) = of_char (CHR 0x00)" by auto
    then show False using context_name_no_zero by (simp only: of_char_byte_inject)
  qed
  have "map of_char (context_name c) = (map of_char (context_name d) :: bytes) \<and> m = n"
    using eq by (intro append_zero_inject [OF _ z z])
      (simp add: contextualize_def utf8_encode_ascii ascii_context_name)
  then show "c = d \<and> m = n"
    by (metis context_name_inject inj_map_eq_map inj_onI of_char_byte_inject)
qed simp

lemma verify_sign:
  assumes "ed25519_laws P" "signingKeyFromSeed P seed = Inr key"
  shows "verify P (sk_publicKey key) ctx message (sign P key ctx message)"
  using assms by (auto simp: signingKeyFromSeed_def verify_def sign_def ed25519_laws_def size_defs
      split: if_splits)

lemma verify_length: "verify P pk ctx m s \<Longrightarrow> length pk = 32"
  by (simp add: verify_def size_defs split: if_splits)

lemma go_key_round_trip:
  assumes "ed25519_laws P" "signingKeyFromSeed P seed = Inr key"
  shows "\<exists>bs. toGoPrivateKeyBytes key = Some bs \<and> length bs = 64 \<and> fromGoPrivateKeyBytes P bs = Inr key"
proof -
  from assms have k: "length seed = 32" "key = \<lparr>sk_seed = seed, sk_publicKey = ed_public P seed\<rparr>"
    "length (ed_public P seed) = 32"
    by (auto simp: signingKeyFromSeed_def ed25519_laws_def size_defs split: if_splits)
  then have "toGoPrivateKeyBytes key = Some (seed @ ed_public P seed)"
    by (simp add: toGoPrivateKeyBytes_def buf_set_def size_defs)
  with k show ?thesis by (simp add: fromGoPrivateKeyBytes_def size_defs)
qed

section \<open>The live keys\<close>

text \<open>
  The unwrapped keys the worker keeps for a signed-in user (x25519.ts's \<open>WrappingKey\<close>,
  credential-material.ts's \<open>LiveKeys\<close>), shared by everything the client signs.
\<close>

record WrappingKey =
  wk_privateKey :: bytes
  wk_publicKey :: bytes

record LiveKeys =
  lv_userId :: js_string
  lv_signingKey :: SigningKey
  lv_wrappingKey :: WrappingKey

definition liveKeysWarmFor :: "LiveKeys option \<Rightarrow> js_string \<Rightarrow> bool" where
  "liveKeysWarmFor keys userId \<longleftrightarrow> (case keys of None \<Rightarrow> False | Some k \<Rightarrow> lv_userId k = userId)"

text \<open>A key whose public half belongs to its seed, as \<open>signingKeyFromSeed\<close> builds them.\<close>

definition genuine :: "prims \<Rightarrow> SigningKey \<Rightarrow> bool" where
  "genuine P key \<longleftrightarrow> length (sk_seed key) = 32 \<and> sk_publicKey key = ed_public P (sk_seed key)"

lemma genuine_from_seed: "signingKeyFromSeed P seed = Inr key \<Longrightarrow> genuine P key"
  by (auto simp: signingKeyFromSeed_def genuine_def SEED_SIZE_def split: if_splits)

lemma verify_genuine:
  "ed25519_laws P \<Longrightarrow> genuine P key \<Longrightarrow> verify P (sk_publicKey key) ctx m (sign P key ctx m)"
  by (rule verify_sign [of P "sk_seed key"])
    (auto simp: signingKeyFromSeed_def genuine_def SEED_SIZE_def)

lemma genuine_sizes:
  "ed25519_laws P \<Longrightarrow> genuine P key \<Longrightarrow> length (sk_publicKey key) = 32"
  "ed25519_laws P \<Longrightarrow> genuine P key \<Longrightarrow> length (sign P key ctx m) = 64"
  by (simp_all add: ed25519_laws_def genuine_def sign_def)

end
