(* ===== verification/Payloads.thy ===== *)
theory Payloads
  imports Signing
begin

text \<open>
  The byte strings the client signs and the associated data it encrypts under: group.ts,
  invite.ts (the payloads), payload.ts (\<open>signedPayload\<close>), credential.ts.  Each signed payload
  is a length-prefixed list of fields and determines its fields (the \<open>_inject\<close> lemmas); each
  associated-data string determines the row it is bound to.
\<close>

section \<open>Signed payloads\<close>

definition signedPayload ::
  "prims \<Rightarrow> js_string \<Rightarrow> js_string \<Rightarrow> js_string \<Rightarrow> int \<Rightarrow> js_string \<Rightarrow> bytes \<Rightarrow> bytes" where
  "signedPayload P authorUUID groupID sortKey generation utcDay ciphertext =
     lengthPrefixedConcat
       [utf8_encode authorUUID, utf8_encode groupID, utf8_encode sortKey,
        utf8_encode (js_num generation), utf8_encode utcDay, sha256 P ciphertext]"

definition trustAnchorPayload :: "js_string \<Rightarrow> bytes \<Rightarrow> js_string \<Rightarrow> bytes" where
  "trustAnchorPayload creatorUUID creatorSigningPublicKey groupId =
     lengthPrefixedConcat [utf8_encode creatorUUID, creatorSigningPublicKey, utf8_encode groupId]"

definition roleGrantPayload ::
  "js_string \<Rightarrow> js_string \<Rightarrow> js_string \<Rightarrow> js_string \<Rightarrow> js_string \<Rightarrow> bytes" where
  "roleGrantPayload groupId subjectUUID role grantSortKey grantorGrantRef =
     lengthPrefixedConcat
       [utf8_encode groupId, utf8_encode subjectUUID, utf8_encode role,
        utf8_encode grantSortKey, utf8_encode grantorGrantRef]"

definition admissionPayload ::
  "js_string \<Rightarrow> js_string \<Rightarrow> js_string \<Rightarrow> bytes \<Rightarrow> bytes \<Rightarrow> js_string \<Rightarrow> js_string \<Rightarrow> js_string \<Rightarrow> int
   \<Rightarrow> bytes" where
  "admissionPayload groupId inviterUUID inviteeUUID inviteeEd25519 inviteeX25519 inviteId
     inviterGrantRef day generation =
     lengthPrefixedConcat
       [utf8_encode groupId, utf8_encode inviterUUID, utf8_encode inviteeUUID,
        inviteeEd25519, inviteeX25519, utf8_encode inviteId, utf8_encode inviterGrantRef,
        utf8_encode day, utf8_encode (js_num generation)]"

definition rotationStartPayload ::
  "js_string \<Rightarrow> js_string \<Rightarrow> js_string \<Rightarrow> int \<Rightarrow> bytes result" where
  "rotationStartPayload groupId removerUUID subjectUUID generation =
     (if \<not> isSafeInteger generation then Inl ''generation must be an integer''
      else Inr (lengthPrefixedConcat
        [utf8_encode groupId, utf8_encode removerUUID, utf8_encode subjectUUID,
         utf8_encode (js_num generation)]))"

datatype RekeyReason = RekeySelf | RekeyApproval

primrec reason_string :: "RekeyReason \<Rightarrow> js_string" where
  "reason_string RekeySelf = js ''self''"
| "reason_string RekeyApproval = js ''approval''"

definition rotationRekeyPayload ::
  "js_string \<Rightarrow> js_string \<Rightarrow> js_string \<Rightarrow> int \<Rightarrow> RekeyReason \<Rightarrow> bytes result" where
  "rotationRekeyPayload groupId adminUUID memberUUID generation reason =
     (if \<not> isSafeInteger generation then Inl ''generation must be an integer''
      else Inr (lengthPrefixedConcat
        [utf8_encode groupId, utf8_encode adminUUID, utf8_encode memberUUID,
         utf8_encode (js_num generation), utf8_encode (reason_string reason)]))"

definition wrapRecordPayload ::
  "js_string \<Rightarrow> js_string \<Rightarrow> js_string \<Rightarrow> int \<Rightarrow> int \<Rightarrow> RekeyReason \<Rightarrow> js_string \<Rightarrow> bytes result" where
  "wrapRecordPayload groupId wrapperUUID memberUUID generation keyEpoch reason day =
     (if \<not> isSafeInteger generation \<or> \<not> isSafeInteger keyEpoch
      then Inl ''generation and keyEpoch must be integers''
      else Inr (lengthPrefixedConcat
        [utf8_encode groupId, utf8_encode wrapperUUID, utf8_encode memberUUID,
         utf8_encode (js_num generation), utf8_encode (js_num keyEpoch),
         utf8_encode (reason_string reason), utf8_encode day]))"

definition successorDesignationPayload ::
  "js_string \<Rightarrow> js_string \<Rightarrow> js_string \<Rightarrow> int \<Rightarrow> js_string \<Rightarrow> js_string \<Rightarrow> bytes result" where
  "successorDesignationPayload groupId adminUUID successorUUID periodDays designationSortKey
     adminGrantRef =
     (if \<not> isSafeInteger periodDays then Inl ''periodDays must be an integer''
      else Inr (lengthPrefixedConcat
        [utf8_encode groupId, utf8_encode adminUUID, utf8_encode successorUUID,
         utf8_encode (js_num periodDays), utf8_encode designationSortKey,
         utf8_encode adminGrantRef]))"

definition successorClaimPayload ::
  "js_string \<Rightarrow> js_string \<Rightarrow> js_string \<Rightarrow> js_string \<Rightarrow> bytes" where
  "successorClaimPayload groupId successorUUID designationSortKey claimSortKey =
     lengthPrefixedConcat
       [utf8_encode groupId, utf8_encode successorUUID, utf8_encode designationSortKey,
        utf8_encode claimSortKey]"

definition inviteCreationPayload :: "js_string \<Rightarrow> js_string \<Rightarrow> bytes \<Rightarrow> js_string \<Rightarrow> bytes" where
  "inviteCreationPayload inviteId groupId inviterPublicKey expiresAt =
     lengthPrefixedConcat
       [utf8_encode inviteId, utf8_encode groupId, inviterPublicKey, utf8_encode expiresAt]"

definition inviteAcceptancePayload :: "js_string \<Rightarrow> bytes \<Rightarrow> bytes \<Rightarrow> bytes" where
  "inviteAcceptancePayload inviteId invitedEd25519 invitedX25519 =
     lengthPrefixedConcat [utf8_encode inviteId, invitedEd25519, invitedX25519]"

section \<open>Sort keys the client mints\<close>

definition RAND_SUFFIX_BYTES :: nat where "RAND_SUFFIX_BYTES = 8"

text \<open>The clock (ms) and the random suffix of the platform are arguments.\<close>

definition generateGrantSortKey :: "js_string \<Rightarrow> int \<Rightarrow> bytes \<Rightarrow> js_string" where
  "generateGrantSortKey subjectUUID now random =
     js ''GRANT#'' @ subjectUUID @ js ''#'' @ isoDay now @ js ''#'' @ bytesToHex random"

definition generateDesignationSortKey :: "js_string \<Rightarrow> int \<Rightarrow> bytes \<Rightarrow> js_string" where
  "generateDesignationSortKey adminUUID now random =
     js ''DESIGNATION#'' @ adminUUID @ js ''#'' @ isoDay now @ js ''#'' @ bytesToHex random"

section \<open>Associated data\<close>

text \<open>\<open>generation.toString().padStart(6, '0')\<close>.\<close>

definition gen6 :: "int \<Rightarrow> js_string" where
  "gen6 generation = padStart 6 48 (js_num generation)"

definition memberWrapAAD :: "js_string \<Rightarrow> js_string \<Rightarrow> int \<Rightarrow> bytes" where
  "memberWrapAAD groupId memberUUID generation =
     utf8_encode (js ''GROUP#'' @ groupId @ js '':MEMBER#'' @ memberUUID @ js '':GEN#'' @ gen6 generation)"

definition genKeyAAD :: "js_string \<Rightarrow> int \<Rightarrow> bytes" where
  "genKeyAAD groupId generation = utf8_encode (js ''GROUP#'' @ groupId @ js '':GENKEY#'' @ gen6 generation)"

definition postAAD :: "js_string \<Rightarrow> js_string \<Rightarrow> int \<Rightarrow> bytes" where
  "postAAD groupId sortKey generation =
     utf8_encode (js ''GROUP#'' @ groupId @ js '':'' @ sortKey @ js '':GEN#'' @ gen6 generation)"

definition commentAAD :: "js_string \<Rightarrow> js_string \<Rightarrow> int \<Rightarrow> bytes" where
  "commentAAD postId path generation =
     utf8_encode (js ''POST#'' @ postId @ js '':CMT#'' @ path @ js '':GEN#'' @ gen6 generation)"

definition reactionAAD :: "js_string \<Rightarrow> js_string \<Rightarrow> js_string \<Rightarrow> int \<Rightarrow> bytes" where
  "reactionAAD postId target reactorId generation =
     utf8_encode (js ''POST#'' @ postId @ js '':RXN#'' @ target @ js ''#'' @ reactorId @ js '':GEN#''
       @ gen6 generation)"

datatype GroupTextField = NAME | DESC

primrec field_string :: "GroupTextField \<Rightarrow> js_string" where
  "field_string NAME = js ''NAME''"
| "field_string DESC = js ''DESC''"

definition groupNameAAD :: "js_string \<Rightarrow> GroupTextField \<Rightarrow> int \<Rightarrow> bytes" where
  "groupNameAAD groupId field generation =
     utf8_encode (js ''GROUP#'' @ groupId @ js '':'' @ field_string field @ js '':GEN#'' @ gen6 generation)"

datatype CredentialCopy = PROFILE | RECOVERY

primrec copy_string :: "CredentialCopy \<Rightarrow> js_string" where
  "copy_string PROFILE = js ''PROFILE''"
| "copy_string RECOVERY = js ''RECOVERY''"

definition credentialWrapAAD :: "js_string \<Rightarrow> CredentialCopy \<Rightarrow> bytes" where
  "credentialWrapAAD userID copy = utf8_encode (js ''USER#'' @ userID @ js '':'' @ copy_string copy)"

section \<open>A payload determines its fields\<close>

text \<open>
  A string the client can sign: well formed, and shorter than $2^{32}$ bytes in UTF-8 so that
  its length prefix does not wrap.  Every id, sort key, day and rendered number is one.
\<close>

definition field_ok :: "js_string \<Rightarrow> bool" where
  "field_ok s \<longleftrightarrow> isWellFormed s \<and> short (utf8_encode s)"

lemma field_ok_short [simp]: "field_ok s \<Longrightarrow> short (utf8_encode s)"
  by (simp add: field_ok_def)

lemma utf8_encode_field_inject: "field_ok s \<Longrightarrow> field_ok t \<Longrightarrow> utf8_encode s = utf8_encode t \<longleftrightarrow> s = t"
  by (simp add: field_ok_def utf8_wf.enc_inject)

lemma is_digit_plain: "is_digit u \<Longrightarrow> \<not> is_high u \<and> \<not> is_low u"
  by (auto simp: is_digit_def is_high_nat is_low_nat word_le_nat_alt)

lemma isWellFormed_plain: "list_all (\<lambda>u. \<not> is_high u \<and> \<not> is_low u) s \<Longrightarrow> isWellFormed s"
  by (induction s rule: isWellFormed.induct) auto

lemma code_points_plain: "list_all (\<lambda>u. \<not> is_high u \<and> \<not> is_low u) s \<Longrightarrow> code_points s = map unat s"
  by (induction s rule: code_points.induct) (auto simp: lone_def)

lemma is_digit_unat: "is_digit u \<Longrightarrow> unat u < 128"
  by (simp add: is_digit_def word_le_nat_alt)

lemma utf8_encode_below_128:
  "list_all (\<lambda>u. unat u < 128) s \<Longrightarrow> utf8_encode s = map (\<lambda>u. byte_of (unat u)) s"
proof -
  assume a: "list_all (\<lambda>u. unat u < 128) s"
  then have "list_all (\<lambda>u. \<not> is_high u \<and> \<not> is_low u) s"
    by (auto simp: list_all_iff is_high_nat is_low_nat)
  then have "utf8_encode s = concat (map utf8_of (map unat s))"
    by (simp only: utf8_encode_def code_points_plain)
  also have "\<dots> = map (\<lambda>u. byte_of (unat u)) s"
    using a by (induction s) (simp_all add: utf8_of_def)
  finally show ?thesis .
qed

lemma js_num_below_128: "list_all (\<lambda>u. unat u < 128) (js_num n)"
  using dec_digits_all [of "nat n"] dec_digits_all [of "nat (- n)"]
  by (auto simp: js_num_def list_all_iff dest: is_digit_unat)

lemma isWellFormed_below_128: "list_all (\<lambda>u. unat u < 128) s \<Longrightarrow> isWellFormed s"
  by (rule isWellFormed_plain) (auto simp: list_all_iff is_high_nat is_low_nat)

lemma length_dec_digits: "n < 10 ^ k \<Longrightarrow> 0 < k \<Longrightarrow> length (dec_digits n) \<le> k"
proof (induction n arbitrary: k rule: dec_digits.induct)
  case (1 n)
  show ?case
  proof (cases "n < 10")
    case True
    with 1(3) show ?thesis by (simp add: dec_digits.simps [of n])
  next
    case False
    then obtain j where k: "k = Suc j" "0 < j" using 1(2,3) by (cases k; cases "k - 1") auto
    then have "n div 10 < 10 ^ j" using 1(2) by (simp add: less_mult_imp_div_less mult.commute)
    then show ?thesis using 1(1) [OF False _ k(2)] False k by (simp add: dec_digits.simps [of n])
  qed
qed

lemma field_ok_js_num: "isSafeInteger n \<Longrightarrow> field_ok (js_num n)"
proof -
  assume "isSafeInteger n"
  then have "nat n < 10 ^ 16" "nat (- n) < 10 ^ 16" by (auto simp: isSafeInteger_def)
  then have "length (js_num n) \<le> 17"
    using length_dec_digits [of "nat n" 16] length_dec_digits [of "nat (- n)" 16]
    by (simp add: js_num_def)
  then show ?thesis
    by (simp add: field_ok_def short_def isWellFormed_below_128 js_num_below_128 utf8_encode_below_128)
qed

lemma utf8_encode_js_num_inject: "utf8_encode (js_num m) = utf8_encode (js_num n) \<longleftrightarrow> m = n"
  by (simp add: utf8_wf.enc_inject isWellFormed_below_128 js_num_below_128)

lemma unat_of_char_ascii: "(of_char c :: nat) < 128 \<Longrightarrow> unat (of_char c :: code_unit) = of_char c"
proof -
  assume c: "(of_char c :: nat) < 128"
  have "(of_char c :: code_unit) = of_nat (of_char c)" by (simp add: of_nat_of_char)
  then have "unat (of_char c :: code_unit) = unat (of_nat (of_char c) :: code_unit)" by (rule arg_cong)
  with c show ?thesis by (simp only: unat_of_nat) simp
qed

lemma field_ok_ascii: "ascii s \<Longrightarrow> length s < 4294967296 \<Longrightarrow> field_ok (js s)"
proof -
  assume a: "ascii s" and l: "length s < 4294967296"
  have "list_all (\<lambda>u. unat u < 128) (js s)"
    using a by (auto simp: list_all_iff ascii_def js_def unat_of_char_ascii)
  with a l show ?thesis
    by (simp add: field_ok_def short_def isWellFormed_below_128 utf8_encode_ascii)
qed

lemma field_ok_reason [simp]: "field_ok (reason_string r)"
  by (cases r) (simp_all add: field_ok_ascii ascii_def)

lemma reason_string_inject: "reason_string r = reason_string s \<longleftrightarrow> r = s"
  by (cases r; cases s) simp_all

lemmas payload_inject =
  lengthPrefixedConcat_inject utf8_encode_field_inject field_ok_js_num utf8_encode_js_num_inject
  reason_string_inject

lemma short_sized: "length b \<le> 64 \<Longrightarrow> short b"
  by (simp add: short_def)

lemma roleGrantPayload_inject:
  assumes "list_all field_ok [g, s, r, k, p, g', s', r', k', p']"
  shows "roleGrantPayload g s r k p = roleGrantPayload g' s' r' k' p' \<longleftrightarrow>
     g = g' \<and> s = s' \<and> r = r' \<and> k = k' \<and> p = p'"
  using assms by (simp add: roleGrantPayload_def payload_inject)

lemma signedPayload_inject:
  assumes "list_all field_ok [a, g, s, d, a', g', s', d']" "isSafeInteger n" "isSafeInteger n'"
    and "\<And>b. length (sha256 P b) = 32"
  shows "signedPayload P a g s n d c = signedPayload P a' g' s' n' d' c' \<longleftrightarrow>
     a = a' \<and> g = g' \<and> s = s' \<and> n = n' \<and> d = d' \<and> sha256 P c = sha256 P c'"
  using assms by (simp add: signedPayload_def payload_inject short_def [of "sha256 P _"])

lemma admissionPayload_inject:
  assumes "list_all field_ok [g, a, b, i, r, d, g', a', b', i', r', d']" "isSafeInteger n" "isSafeInteger n'"
    and "list_all short [e, x, e', x']"
  shows "admissionPayload g a b e x i r d n = admissionPayload g' a' b' e' x' i' r' d' n' \<longleftrightarrow>
     g = g' \<and> a = a' \<and> b = b' \<and> e = e' \<and> x = x' \<and> i = i' \<and> r = r' \<and> d = d' \<and> n = n'"
  using assms by (simp add: admissionPayload_def payload_inject)

text \<open>The two payloads of the invite handshake share a context and never coincide.\<close>

lemma invite_payloads_distinct:
  assumes "list_all field_ok [i, g, e, i']" "list_all short [k, p, x]"
  shows "inviteCreationPayload i g k e \<noteq> inviteAcceptancePayload i' p x"
  using assms by (simp add: inviteCreationPayload_def inviteAcceptancePayload_def lengthPrefixedConcat_inject)

end
