(* ===== verification/Key_History.thy ===== *)
theory Key_History
  imports Payloads
begin

text \<open>
  key-rotation.ts and own-history.ts: what a rotation signs, the verified chain of a user's
  key changes, and the questions the client asks it (which keys could sign on a day, whether
  a stored row signed under a superseded key counts, whether an admission still reaches the
  served keys).
\<close>

section \<open>key-rotation.ts\<close>

fun compareBytes :: "bytes \<Rightarrow> bytes \<Rightarrow> int" where
  "compareBytes (x # xs) (y # ys) =
     (if x \<noteq> y then int (unat x) - int (unat y) else compareBytes xs ys)"
| "compareBytes xs ys = int (length xs) - int (length ys)"

definition keyRotationPayload ::
  "js_string \<Rightarrow> bytes \<Rightarrow> bytes \<Rightarrow> bytes \<Rightarrow> bytes \<Rightarrow> js_string \<Rightarrow> int \<Rightarrow> bytes \<Rightarrow> bytes" where
  "keyRotationPayload userUUID oldSigning oldWrapping newSigning newWrapping utcDay keyEpoch
     rosterDigestBytes =
     lengthPrefixedConcat
       [utf8_encode userUUID, oldSigning, oldWrapping, newSigning, newWrapping,
        utf8_encode utcDay, utf8_encode (js_num keyEpoch), rosterDigestBytes]"

definition rosterEntryId :: "prims \<Rightarrow> js_string \<Rightarrow> bytes \<Rightarrow> bytes" where
  "rosterEntryId P sk signature = take 16 (sha256 P (utf8_encode sk @ signature))"

definition rosterDigest :: "prims \<Rightarrow> bytes list \<Rightarrow> bytes" where
  "rosterDigest P entries =
     (let sorted = js_sort compareBytes entries
      in sha256 P (lengthPrefixedConcat (utf8_encode (js_num (int (length sorted))) # sorted)))"

definition handoffWrapAAD :: "js_string \<Rightarrow> js_string \<Rightarrow> int \<Rightarrow> bytes \<Rightarrow> bytes" where
  "handoffWrapAAD userUUID groupId generation newWrappingPublicKey =
     utf8_encode (js ''USER#'' @ userUUID @ js '':HANDOFF#'' @ groupId @ js '':GEN#'' @ gen6 generation
       @ js '':KEY#'' @ bytesToHex newWrappingPublicKey)"

lemma compareBytes_le: "compareBytes a b \<le> 0 \<longleftrightarrow> a \<le> b"
proof (induction a b rule: compareBytes.induct)
  case (1 x xs y ys)
  then show ?case by (auto simp flip: word_le_def)
qed auto

lemma js_sort_compareBytes: "js_sort compareBytes xs = sort xs"
  by (rule js_sort_sort_key [where key = "\<lambda>x. x"]) (rule compareBytes_le)

text \<open>The digest covers the roster as a multiset.\<close>

lemma rosterDigest_permutation: "mset xs = mset ys \<Longrightarrow> rosterDigest P xs = rosterDigest P ys"
  by (simp add: rosterDigest_def js_sort_compareBytes sorted_list_of_multiset_mset [symmetric]
      del: sorted_list_of_multiset_mset)

section \<open>own-history.ts: the data\<close>

definition KEY_SIZE :: nat where "KEY_SIZE = 32"
definition ROSTER_ENTRY_SIZE :: nat where "ROSTER_ENTRY_SIZE = 16"

record WireKeyChange =
  kc_keyEpoch :: int
  kc_day :: js_string
  kc_oldSigningPublicKey :: js_string
  kc_oldWrappingPublicKey :: js_string
  kc_newSigningPublicKey :: js_string
  kc_newWrappingPublicKey :: js_string
  kc_rosterDigest :: js_string
  kc_oldSignature :: js_string
  kc_newSignature :: js_string

record WireKeyChangeRoster =
  kr_keyEpoch :: int
  kr_roster :: "js_string list"

record OwnKeyLink =
  lk_epoch :: int
  lk_day :: js_string
  lk_oldSigning :: bytes
  lk_newSigning :: bytes
  lk_oldWrapping :: bytes
  lk_newWrapping :: bytes
  lk_roster :: "bytes list option"

record OwnKeyHistory =
  oh_current :: bytes
  oh_links :: "OwnKeyLink list"

text \<open>A user's keys as GET /api/users/{id} serves them to the grant verifier (grant-chain.ts).\<close>

record SupersededKey =
  ss_publicKey :: js_string
  ss_from :: js_string
  ss_until :: "js_string option"

record UserKeyHistory =
  kh_signingPublicKey :: js_string
  kh_superseded :: "SupersededKey list"

section \<open>own-history.ts: verifying the chain\<close>

definition decode_sized :: "js_string \<Rightarrow> nat \<Rightarrow> bytes option" where
  "decode_sized b64 n =
     (case base64ToBytes b64 of
        None \<Rightarrow> None
      | Some b \<Rightarrow> if length b = n then Some b else None)"

fun decode_entries :: "js_string list \<Rightarrow> bytes list option" where
  "decode_entries [] = Some []"
| "decode_entries (e # es) =
     (case decode_sized e ROSTER_ENTRY_SIZE of
        None \<Rightarrow> None
      | Some b \<Rightarrow> map_option ((#) b) (decode_entries es))"

definition decodeRoster :: "prims \<Rightarrow> js_string list option \<Rightarrow> bytes \<Rightarrow> bytes list option" where
  "decodeRoster P roster digest =
     (case roster of
        None \<Rightarrow> None
      | Some r \<Rightarrow>
          (case decode_entries r of
             None \<Rightarrow> None
           | Some entries \<Rightarrow> if bytesEqual (rosterDigest P entries) digest then Some entries else None))"

text \<open>
  The body of \<open>buildOwnKeyHistory\<close>'s loop for the change at index \<open>i\<close>; \<open>None\<close> is its
  \<open>return null\<close>.
\<close>

definition follows :: "OwnKeyLink option \<Rightarrow> bytes \<Rightarrow> bytes \<Rightarrow> js_string \<Rightarrow> bool" where
  "follows previous oldSigning oldWrapping day =
     (case previous of
        None \<Rightarrow> True
      | Some p \<Rightarrow> bytesEqual (lk_newSigning p) oldSigning \<and> bytesEqual (lk_newWrapping p) oldWrapping
                  \<and> \<not> day < lk_day p)"

definition change_link ::
  "prims \<Rightarrow> js_string \<Rightarrow> WireKeyChangeRoster list \<Rightarrow> int \<Rightarrow> OwnKeyLink option \<Rightarrow> WireKeyChange
   \<Rightarrow> OwnKeyLink option" where
  "change_link P userId rosters i previous c =
     (if kc_keyEpoch c \<noteq> i + 1 \<or> \<not> isDay (date_other P) (kc_day c) then None
      else case (decode_sized (kc_oldSigningPublicKey c) KEY_SIZE,
                 decode_sized (kc_oldWrappingPublicKey c) KEY_SIZE,
                 decode_sized (kc_newSigningPublicKey c) KEY_SIZE,
                 decode_sized (kc_newWrappingPublicKey c) KEY_SIZE,
                 decode_sized (kc_rosterDigest c) 32,
                 decode_sized (kc_oldSignature c) SIGNATURE_SIZE,
                 decode_sized (kc_newSignature c) SIGNATURE_SIZE) of
        (Some oldSigning, Some oldWrapping, Some newSigning, Some newWrapping, Some digest,
         Some oldSig, Some newSig) \<Rightarrow>
          (let payload = keyRotationPayload userId oldSigning oldWrapping newSigning newWrapping
                           (kc_day c) (kc_keyEpoch c - 1) digest
           in if \<not> verify P oldSigning KeyRotation payload oldSig then None
              else if \<not> verify P newSigning KeyRotation payload newSig then None
              else if \<not> follows previous oldSigning oldWrapping (kc_day c) then None
              else Some \<lparr>lk_epoch = kc_keyEpoch c, lk_day = kc_day c,
                         lk_oldSigning = oldSigning, lk_newSigning = newSigning,
                         lk_oldWrapping = oldWrapping, lk_newWrapping = newWrapping,
                         lk_roster = decodeRoster P
                           (map_option kr_roster
                              (List.find (\<lambda>r. kr_keyEpoch r = kc_keyEpoch c) rosters)) digest\<rparr>)
      | _ \<Rightarrow> None)"

fun build_links ::
  "prims \<Rightarrow> js_string \<Rightarrow> WireKeyChangeRoster list \<Rightarrow> int \<Rightarrow> OwnKeyLink option \<Rightarrow> WireKeyChange list
   \<Rightarrow> OwnKeyLink list option" where
  "build_links P userId rosters i previous [] = Some []"
| "build_links P userId rosters i previous (c # cs) =
     (case change_link P userId rosters i previous c of
        None \<Rightarrow> None
      | Some link \<Rightarrow> map_option ((#) link) (build_links P userId rosters (i + 1) (Some link) cs))"

definition buildOwnKeyHistory ::
  "prims \<Rightarrow> js_string \<Rightarrow> bytes \<Rightarrow> WireKeyChange list \<Rightarrow> WireKeyChangeRoster list
   \<Rightarrow> OwnKeyHistory option" where
  "buildOwnKeyHistory P userId ownSigningKey changes rosters =
     (case build_links P userId rosters 0 None
             (js_sort (\<lambda>a b. kc_keyEpoch a - kc_keyEpoch b) changes) of
        None \<Rightarrow> None
      | Some links \<Rightarrow>
          if links \<noteq> [] \<and> \<not> bytesEqual (lk_newSigning (last links)) ownSigningKey then None
          else Some \<lparr>oh_current = ownSigningKey, oh_links = links\<rparr>)"

section \<open>own-history.ts: using the chain\<close>

text \<open>\<open>i > 0 ? history.links[i - 1].day : undefined\<close>.\<close>

definition introduced :: "OwnKeyLink list \<Rightarrow> nat \<Rightarrow> js_string option" where
  "introduced links i = (if 0 < i then Some (lk_day (links ! (i - 1))) else None)"

definition not_before :: "js_string option \<Rightarrow> js_string \<Rightarrow> bool" where
  "not_before start day = (case start of None \<Rightarrow> True | Some s \<Rightarrow> s \<le> day)"

definition chainCarriesKeys ::
  "prims \<Rightarrow> OwnKeyHistory \<Rightarrow> bytes \<Rightarrow> bytes \<Rightarrow> js_string \<Rightarrow> bytes \<Rightarrow> bool" where
  "chainCarriesKeys P history admittedSigning admittedWrapping admissionDay servedWrapping =
     (let links = oh_links history in
      if \<not> isDay (date_other P) admissionDay then False
      else if links = [] \<or> \<not> bytesEqual (lk_newWrapping (last links)) servedWrapping then False
      else list_ex (\<lambda>i. let link = links ! i in
             bytesEqual (lk_oldSigning link) admittedSigning
             \<and> bytesEqual (lk_oldWrapping link) admittedWrapping
             \<and> \<not> lk_day link < admissionDay
             \<and> not_before (introduced links i) admissionDay) [0..<length links])"

definition keysCarriedFrom :: "OwnKeyHistory \<Rightarrow> bytes \<Rightarrow> bytes list" where
  "keysCarriedFrom history admittedSigning =
     map lk_newSigning
       (dropWhile (\<lambda>l. \<not> bytesEqual (lk_oldSigning l) admittedSigning) (oh_links history))"

definition signingKeysOn :: "OwnKeyHistory \<Rightarrow> bytes \<Rightarrow> js_string \<Rightarrow> bytes list" where
  "signingKeysOn history current day =
     (let links = oh_links history in
      (if links = [] \<or> lk_day (last links) \<le> day then [current] else [])
      @ map (\<lambda>i. lk_oldSigning (links ! i))
          (filter (\<lambda>i. day \<le> lk_day (links ! i) \<and> not_before (introduced links i) day)
             [0..<length links]))"

definition ownKeys :: "OwnKeyHistory \<Rightarrow> bytes list" where
  "ownKeys history = oh_current history # map lk_oldSigning (oh_links history)"

definition ownSignerAccepted ::
  "prims \<Rightarrow> OwnKeyHistory \<Rightarrow> bytes \<Rightarrow> js_string \<Rightarrow> js_string \<Rightarrow> bytes \<Rightarrow> bool" where
  "ownSignerAccepted P history signer signedDay sk signature =
     (let links = oh_links history in
      if bytesEqual signer (oh_current history) then True
      else if \<not> isDay (date_other P) signedDay then False
      else list_ex (\<lambda>i. let link = links ! i in
             bytesEqual (lk_oldSigning link) signer
             \<and> \<not> lk_day link < signedDay
             \<and> not_before (introduced links i) signedDay
             \<and> (case lk_roster link of
                  None \<Rightarrow> False
                | Some roster \<Rightarrow> list_ex (\<lambda>e. bytesEqual e (rosterEntryId P sk signature)) roster))
           [0..<length links])"

definition ownHistoryMatchesServed ::
  "OwnKeyHistory \<Rightarrow> js_string \<Rightarrow> js_string list \<Rightarrow> int \<Rightarrow> bool" where
  "ownHistoryMatchesServed history signingPublicKey superseded keyEpoch =
     (case decode_sized signingPublicKey KEY_SIZE of
        None \<Rightarrow> False
      | Some current \<Rightarrow>
          if \<not> bytesEqual current (oh_current history) then False
          else if keyEpoch \<noteq> int (length (oh_links history)) then False
          else if length superseded \<noteq> length (oh_links history) then False
          else list_all (\<lambda>link. list_ex (\<lambda>k.
                 case decode_sized k KEY_SIZE of
                   None \<Rightarrow> False
                 | Some key \<Rightarrow> bytesEqual key (lk_oldSigning link)) superseded) (oh_links history))"

definition ownKeyHistoryForVerifiers :: "OwnKeyHistory \<Rightarrow> UserKeyHistory" where
  "ownKeyHistoryForVerifiers history =
     (let links = oh_links history in
      \<lparr>kh_signingPublicKey = bytesToBase64 (oh_current history),
       kh_superseded = map (\<lambda>i.
         \<lparr>ss_publicKey = bytesToBase64 (lk_oldSigning (links ! i)),
          ss_from = (case introduced links i of None \<Rightarrow> js ''1970-01-01'' | Some d \<Rightarrow> d),
          ss_until = Some (lk_day (links ! i))\<rparr>) [0..<length links]\<rparr>)"

section \<open>What a verified chain guarantees\<close>

text \<open>
  The abstract contract: every link is signed by both keys it names (and its roster, when one
  is kept, is the one that was signed), each link starts at the keys the previous one ended
  at and on no earlier day, and the last link ends at the caller's key.
\<close>

definition signed_link :: "prims \<Rightarrow> js_string \<Rightarrow> OwnKeyLink \<Rightarrow> bool" where
  "signed_link P userId l \<longleftrightarrow>
     (\<exists>digest oldSig newSig.
        let payload = keyRotationPayload userId (lk_oldSigning l) (lk_oldWrapping l) (lk_newSigning l)
                        (lk_newWrapping l) (lk_day l) (lk_epoch l - 1) digest
        in verify P (lk_oldSigning l) KeyRotation payload oldSig
           \<and> verify P (lk_newSigning l) KeyRotation payload newSig
           \<and> (\<forall>r. lk_roster l = Some r \<longrightarrow> rosterDigest P r = digest))"

fun chain_from :: "OwnKeyLink option \<Rightarrow> OwnKeyLink list \<Rightarrow> bool" where
  "chain_from previous [] = True"
| "chain_from previous (l # ls) \<longleftrightarrow>
     follows previous (lk_oldSigning l) (lk_oldWrapping l) (lk_day l) \<and> chain_from (Some l) ls"

definition links_ok :: "prims \<Rightarrow> js_string \<Rightarrow> OwnKeyLink list \<Rightarrow> bool" where
  "links_ok P userId links \<longleftrightarrow>
     chain_from None links
     \<and> map lk_epoch links = map int [1..<Suc (length links)]
     \<and> (\<forall>l\<in>set links. signed_link P userId l \<and> isDay (date_other P) (lk_day l)
          \<and> length (lk_newWrapping l) = 32 \<and> length (lk_oldWrapping l) = 32)"

definition history_ok :: "prims \<Rightarrow> js_string \<Rightarrow> OwnKeyHistory \<Rightarrow> bool" where
  "history_ok P userId h \<longleftrightarrow>
     links_ok P userId (oh_links h)
     \<and> (oh_links h \<noteq> [] \<longrightarrow> lk_newSigning (last (oh_links h)) = oh_current h)"

lemma decode_sized_length: "decode_sized s n = Some b \<Longrightarrow> length b = n"
  by (auto simp: decode_sized_def split: option.splits if_splits)

lemma decodeRoster_digest: "decodeRoster P r d = Some es \<Longrightarrow> rosterDigest P es = d"
  by (auto simp: decodeRoster_def split: option.splits if_splits)

lemma change_link_SomeE:
  assumes "change_link P u rs i prev c = Some l"
  obtains os ow ns nw digest oldSig newSig
  where "kc_keyEpoch c = i + 1" "isDay (date_other P) (kc_day c)"
    "decode_sized (kc_oldSigningPublicKey c) 32 = Some os"
    "decode_sized (kc_oldWrappingPublicKey c) 32 = Some ow"
    "decode_sized (kc_newSigningPublicKey c) 32 = Some ns"
    "decode_sized (kc_newWrappingPublicKey c) 32 = Some nw"
    "decode_sized (kc_rosterDigest c) 32 = Some digest"
    "decode_sized (kc_oldSignature c) 64 = Some oldSig"
    "decode_sized (kc_newSignature c) 64 = Some newSig"
    "verify P os KeyRotation (keyRotationPayload u os ow ns nw (kc_day c) i digest) oldSig"
    "verify P ns KeyRotation (keyRotationPayload u os ow ns nw (kc_day c) i digest) newSig"
    "follows prev os ow (kc_day c)"
    "l = \<lparr>lk_epoch = i + 1, lk_day = kc_day c, lk_oldSigning = os, lk_newSigning = ns,
          lk_oldWrapping = ow, lk_newWrapping = nw,
          lk_roster = decodeRoster P
            (map_option kr_roster (List.find (\<lambda>r. kr_keyEpoch r = i + 1) rs)) digest\<rparr>"
  using assms
  by (auto simp: change_link_def Let_def KEY_SIZE_def SIGNATURE_SIZE_def intro!: that
      split: option.splits if_splits)

lemma change_link_sound:
  assumes "change_link P u rs i prev c = Some l"
  shows "lk_epoch l = i + 1" "kc_keyEpoch c = i + 1" "signed_link P u l" "isDay (date_other P) (lk_day l)"
    "follows prev (lk_oldSigning l) (lk_oldWrapping l) (lk_day l)"
    "length (lk_newWrapping l) = 32" "length (lk_oldWrapping l) = 32"
proof -
  show "signed_link P u l"
    using assms by (elim change_link_SomeE) (auto simp: signed_link_def Let_def dest: decodeRoster_digest)
qed (use assms in \<open>auto elim!: change_link_SomeE dest: decode_sized_length\<close>)

lemma build_links_sound:
  assumes "build_links P u rs i prev cs = Some ls"
  shows "chain_from prev ls" "length ls = length cs"
    "map lk_epoch ls = map (\<lambda>k. i + 1 + int k) [0..<length ls]"
    "map kc_keyEpoch cs = map (\<lambda>k. i + 1 + int k) [0..<length ls]"
    "\<forall>l\<in>set ls. signed_link P u l \<and> isDay (date_other P) (lk_day l)
       \<and> length (lk_newWrapping l) = 32 \<and> length (lk_oldWrapping l) = 32"
  using assms
proof (induction cs arbitrary: i prev ls)
  case (Cons c cs)
  {
    case 1
    then show ?case using Cons(1) by (auto split: option.splits dest: change_link_sound)
  next
    case 2
    then show ?case using Cons(2) by (auto split: option.splits)
  next
    case 3
    then show ?case using Cons(3)
      by (auto split: option.splits simp: upt_conv_Cons map_Suc_upt [symmetric] change_link_sound
          simp del: upt_Suc) 
  next
    case 4
    then show ?case using Cons(4)
      by (auto split: option.splits simp: upt_conv_Cons map_Suc_upt [symmetric] change_link_sound
          simp del: upt_Suc)
  next
    case 5
    then show ?case using Cons(5) by (auto split: option.splits dest: change_link_sound)
  }
qed simp_all

end
