(* ===== verification/Key_Chain.thy ===== *)
theory Key_Chain
  imports Key_History
begin

text \<open>
  What own-history.ts guarantees: a history it returns is a chain signed under both keys at
  every step and ending at the caller's key, whatever order the server lists the changes in;
  the signing intervals it derives partition the days; and a stored row signed under a
  superseded key counts only when a rotation both keys signed listed that very row.
\<close>

section \<open>Building the chain\<close>

lemma js_sort_epochs: "js_sort (\<lambda>a b. kc_keyEpoch a - kc_keyEpoch b) cs = sort_key kc_keyEpoch cs"
  by (rule js_sort_sort_key) simp

lemma buildOwnKeyHistory_SomeE:
  assumes "buildOwnKeyHistory P u own changes rosters = Some h"
  obtains "build_links P u rosters 0 None (sort_key kc_keyEpoch changes) = Some (oh_links h)"
    "oh_current h = own" "oh_links h \<noteq> [] \<Longrightarrow> lk_newSigning (last (oh_links h)) = own"
  using assms by (auto simp: buildOwnKeyHistory_def js_sort_epochs split: option.splits if_splits)

lemma buildOwnKeyHistory_ok:
  assumes "buildOwnKeyHistory P u own changes rosters = Some h"
  shows "history_ok P u h" "oh_current h = own" "length (oh_links h) = length changes"
    "distinct (map kc_keyEpoch changes)"
proof -
  from assms obtain bl: "build_links P u rosters 0 None (sort_key kc_keyEpoch changes) = Some (oh_links h)"
    and own: "oh_current h = own" and fin: "oh_links h \<noteq> [] \<Longrightarrow> lk_newSigning (last (oh_links h)) = own"
    by (rule buildOwnKeyHistory_SomeE) blast
  note s = build_links_sound [OF bl]
  have "map int [1..<Suc n] = map (\<lambda>k. 0 + 1 + int k) [0..<n]" for n
    by (simp add: map_Suc_upt [symmetric] del: upt_Suc)
  then show "history_ok P u h" using s own fin by (simp add: history_ok_def links_ok_def)
  show "oh_current h = own" by (rule own)
  show "length (oh_links h) = length changes" using s(2) by simp
  have "distinct (map kc_keyEpoch (sort_key kc_keyEpoch changes))"
    unfolding s(4) by (simp add: distinct_map inj_on_def)
  moreover have "mset (map kc_keyEpoch (sort_key kc_keyEpoch changes)) = mset (map kc_keyEpoch changes)"
    by simp
  ultimately show "distinct (map kc_keyEpoch changes)" using mset_eq_imp_distinct_iff by blast
qed

lemma sort_key_distinct_cong:
  fixes f :: "'a \<Rightarrow> 'k::linorder"
  assumes "mset xs = mset ys" "distinct (map f xs)"
  shows "sort_key f xs = sort_key f ys"
proof (rule properties_for_sort_key [symmetric, THEN sym])
  have inj: "inj_on f (set xs)" "distinct xs" using assms(2) by (simp_all add: distinct_map)
  have sets: "set ys = set xs" by (rule mset_eq_setD [OF assms(1), symmetric])
  have "distinct ys" using assms(1) inj(2) mset_eq_imp_distinct_iff by blast
  have one: "filter (\<lambda>x. f k = f x) zs = [k]" if "k \<in> set zs" "set zs = set xs" "distinct zs" for k zs
  proof -
    have "filter (\<lambda>x. f k = f x) zs = filter (\<lambda>x. x = k) zs"
      using that(1,2) inj(1) by (intro filter_cong) (auto dest: inj_onD)
    also have "\<dots> = [k]" using that(1,3) by (induction zs) (auto simp: filter_empty_conv)
    finally show ?thesis .
  qed
  show "mset (sort_key f ys) = mset xs" using assms(1) by simp
  show "filter (\<lambda>x. f k = f x) (sort_key f ys) = filter (\<lambda>x. f k = f x) xs"
    if "k \<in> set (sort_key f ys)" for k
    using that one [of k xs] one [of k "sort_key f ys"] sets inj(2) \<open>distinct ys\<close> by simp
  show "sorted (map f (sort_key f ys))" by simp
qed

lemma buildOwnKeyHistory_perm:
  assumes "mset changes = mset changes'"
  shows "buildOwnKeyHistory P u own changes rosters = buildOwnKeyHistory P u own changes' rosters"
proof -
  have eq: "buildOwnKeyHistory P u own xs rosters = buildOwnKeyHistory P u own ys rosters"
    if "mset xs = mset ys" "buildOwnKeyHistory P u own xs rosters = Some h" for xs ys h
    using sort_key_distinct_cong [OF that(1) buildOwnKeyHistory_ok(4) [OF that(2)]]
    by (simp add: buildOwnKeyHistory_def js_sort_epochs)
  show ?thesis
    using eq [OF assms] eq [OF assms [symmetric]]
    by (cases "buildOwnKeyHistory P u own changes rosters";
        cases "buildOwnKeyHistory P u own changes' rosters") auto
qed

section \<open>Signing intervals\<close>

lemma chain_from_sorted:
  "chain_from prev ls \<Longrightarrow> sorted (map lk_day ls) \<and> (\<forall>p. prev = Some p \<longrightarrow> (\<forall>l\<in>set ls. lk_day p \<le> lk_day l))"
proof (induction ls arbitrary: prev)
  case (Cons l ls)
  then have "sorted (map lk_day ls)" "\<forall>m\<in>set ls. lk_day l \<le> lk_day m"
      "follows prev (lk_oldSigning l) (lk_oldWrapping l) (lk_day l)"
    using Cons.IH [of "Some l"] by auto
  then show ?case by (force simp: follows_def split: option.splits)
qed simp

lemma history_ok_sorted: "history_ok P u h \<Longrightarrow> sorted (map lk_day (oh_links h))"
  using chain_from_sorted by (auto simp: history_ok_def links_ok_def)

lemma sorted_days_nth:
  "sorted (map lk_day ls) \<Longrightarrow> i \<le> j \<Longrightarrow> j < length ls \<Longrightarrow> lk_day (ls ! i) \<le> lk_day (ls ! j)"
  using sorted_nth_mono [of "map lk_day ls" i j] by simp

definition in_interval :: "OwnKeyLink list \<Rightarrow> js_string \<Rightarrow> nat \<Rightarrow> bool" where
  "in_interval ls day i \<longleftrightarrow> day \<le> lk_day (ls ! i) \<and> not_before (introduced ls i) day"

lemma signingKeysOn_eq:
  "signingKeysOn h cur day =
     (if oh_links h = [] \<or> lk_day (last (oh_links h)) \<le> day then [cur] else [])
     @ map (\<lambda>i. lk_oldSigning (oh_links h ! i)) (filter (in_interval (oh_links h) day) [0..<length (oh_links h)])"
  by (simp add: signingKeysOn_def Let_def in_interval_def [abs_def])

lemma first_interval:
  assumes "day < lk_day (last ls)" "ls \<noteq> []"
  shows "\<exists>i < length ls. in_interval ls day i \<and> (\<forall>j < i. lk_day (ls ! j) < day)"
proof -
  let ?i = "LEAST i. i < length ls \<and> day \<le> lk_day (ls ! i)"
  have "length ls - 1 < length ls \<and> day \<le> lk_day (ls ! (length ls - 1))"
    using assms by (simp add: last_conv_nth)
  then have i: "?i < length ls \<and> day \<le> lk_day (ls ! ?i)" by (rule LeastI)
  have less: "lk_day (ls ! j) < day" if "j < ?i" for j
    using not_less_Least [OF that] that i by auto
  have "not_before (introduced ls ?i) day"
    using less [of "?i - 1"] by (simp add: not_before_def introduced_def less_imp_le)
  with i less show ?thesis by (auto simp: in_interval_def)
qed

lemma signingKeysOn_some: "signingKeysOn h cur day \<noteq> []"
proof (cases "oh_links h = [] \<or> lk_day (last (oh_links h)) \<le> day")
  case False
  then show ?thesis using first_interval [of day "oh_links h"]
    by (auto simp: signingKeysOn_eq filter_empty_conv not_le)
qed (simp add: signingKeysOn_eq)

lemma in_interval_unique:
  assumes "sorted (map lk_day ls)" "i < length ls" "j < length ls" "i < j"
    and "in_interval ls day i" "in_interval ls day j"
  shows "lk_day (ls ! i) = day"
proof -
  have "lk_day (ls ! i) \<le> lk_day (ls ! (j - 1))" using assms by (intro sorted_days_nth) auto
  also have "\<dots> \<le> day" using assms(4,6) by (simp add: in_interval_def not_before_def introduced_def)
  finally show ?thesis using assms(5) by (simp add: in_interval_def)
qed

lemma signingKeysOn_single:
  assumes ok: "history_ok P u h" and day: "day \<notin> lk_day ` set (oh_links h)"
  shows "length (signingKeysOn h cur day) = 1"
proof -
  let ?ls = "oh_links h"
  have sorted: "sorted (map lk_day ?ls)" by (rule history_ok_sorted [OF ok])
  have len: "length (filter (in_interval ?ls day) [0..<length ?ls]) = card {i. i < length ?ls \<and> in_interval ?ls day i}"
    by (simp add: length_filter_conv_card cong: conj_cong)
  show ?thesis
  proof (cases "?ls = [] \<or> lk_day (last ?ls) \<le> day")
    case True
    have "\<not> in_interval ?ls day i" if "i < length ?ls" for i
    proof
      assume "in_interval ?ls day i"
      then have "day \<le> lk_day (?ls ! i)" by (simp add: in_interval_def)
      moreover have "lk_day (?ls ! i) \<le> lk_day (last ?ls)"
        using that sorted_days_nth [OF sorted, of i "length ?ls - 1"] by (cases ?ls) (auto simp: last_conv_nth)
      ultimately have "lk_day (?ls ! i) = day" using True that by force
      with day that show False by auto
    qed
    then have "{i. i < length ?ls \<and> in_interval ?ls day i} = {}" by auto
    with True len show ?thesis by (simp add: signingKeysOn_eq)
  next
    case False
    then obtain i where i: "i < length ?ls" "in_interval ?ls day i" "\<And>j. j < i \<Longrightarrow> lk_day (?ls ! j) < day"
      using first_interval [of day ?ls] by (auto simp: not_le)
    have nd: "lk_day (?ls ! j) \<noteq> day" if "j < length ?ls" for j using day that by auto
    have uniq: "j = i" if j: "j < length ?ls" "in_interval ?ls day j" for j
    proof (rule ccontr)
      assume "j \<noteq> i"
      then consider "i < j" | "j < i" by linarith
      then show False
        using in_interval_unique [OF sorted, of i j day] in_interval_unique [OF sorted, of j i day]
          i(1,2) j nd by cases blast+
    qed
    then have "{i. i < length ?ls \<and> in_interval ?ls day i} = {i}" using i(1,2) by blast
    with False len show ?thesis by (simp add: signingKeysOn_eq)
  qed
qed

section \<open>Rows signed under a superseded key\<close>

lemma ownSignerAccepted_listed:
  assumes "history_ok P u h" "ownSignerAccepted P h signer day sk sig" "signer \<noteq> oh_current h"
  shows "\<exists>l\<in>set (oh_links h). \<exists>entries oldSig newSig.
    let payload = keyRotationPayload u signer (lk_oldWrapping l) (lk_newSigning l) (lk_newWrapping l)
                    (lk_day l) (lk_epoch l - 1) (rosterDigest P entries)
    in day \<le> lk_day l \<and> rosterEntryId P sk sig \<in> set entries
       \<and> verify P signer KeyRotation payload oldSig
       \<and> verify P (lk_newSigning l) KeyRotation payload newSig"
proof -
  from assms(2,3) obtain i roster where i: "i < length (oh_links h)"
    and l: "lk_oldSigning (oh_links h ! i) = signer" "day \<le> lk_day (oh_links h ! i)"
      "lk_roster (oh_links h ! i) = Some roster" "rosterEntryId P sk sig \<in> set roster"
    by (auto simp: ownSignerAccepted_def Let_def list_ex_iff not_less split: option.splits if_splits)
  have "signed_link P u (oh_links h ! i)" using assms(1) i by (simp add: history_ok_def links_ok_def)
  then show ?thesis
    using l nth_mem [OF i] unfolding signed_link_def Let_def by blast
qed

lemma ownSignerAccepted_interval:
  assumes "ownSignerAccepted P h signer day sk sig" "signer \<noteq> oh_current h"
  shows "signer \<in> set (signingKeysOn h (oh_current h) day)"
  using assms
  by (force simp: ownSignerAccepted_def Let_def list_ex_iff not_less signingKeysOn_eq in_interval_def
      split: if_splits)

lemma keysCarriedFrom_last:
  assumes "history_ok P u h" "keysCarriedFrom h k \<noteq> []"
  shows "last (keysCarriedFrom h k) = oh_current h" "k \<in> lk_oldSigning ` set (oh_links h)"
proof -
  let ?d = "dropWhile (\<lambda>l. \<not> bytesEqual (lk_oldSigning l) k) (oh_links h)"
  have d: "?d \<noteq> []" using assms(2) by (auto simp: keysCarriedFrom_def)
  then have "oh_links h \<noteq> []" by auto
  moreover have "last ?d = last (oh_links h)" using d by (metis append_is_Nil_conv last_appendR takeWhile_dropWhile_id)
  ultimately show "last (keysCarriedFrom h k) = oh_current h"
    using assms(1) d by (simp add: keysCarriedFrom_def last_map history_ok_def)
  show "k \<in> lk_oldSigning ` set (oh_links h)" using d by (auto simp: dropWhile_eq_Nil_conv)
qed

end
