(* ===== verification/Grant_Chain.thy ===== *)
theory Grant_Chain
  imports Key_Chain
begin

text \<open>
  grant-chain.ts: the verifier of a group's role-grant history.  Its closures read the input
  and share two caches; here the input is an argument and the caches are threaded through
  every call.  The recursion of \<open>verifyOne\<close> is bounded by fuel: \<open>None\<close> is the exception an
  exhausted stack raises.  The proofs are in Grant_Chain_Proofs.
\<close>

section \<open>The rows\<close>

record GrantRecord =
  gr_sortKey :: js_string
  gr_subjectUserId :: js_string
  gr_grantedRole :: js_string
  gr_grantorUserId :: js_string
  gr_grantorSigningPublicKey :: "js_string option"
  gr_grantorGrantRef :: "js_string option"
  gr_viaDesignation :: "js_string option"
  gr_signature :: js_string

record DesignationRecord =
  de_sortKey :: js_string
  de_adminUserId :: js_string
  de_successorUserId :: "js_string option"
  de_periodDays :: int
  de_adminGrantRef :: js_string
  de_signature :: js_string

record GrantAnchor =
  an_creatorUserId :: js_string
  an_creatorSigningPublicKey :: js_string
  an_trustAnchorSignature :: js_string
  an_rootGrantSortKey :: js_string

record GrantVerdict =
  gv_valid :: bool
  gv_reason :: "js_string option"

record PinnedAnchor =
  pa_creatorUserId :: js_string
  pa_creatorSigningPublicKey :: js_string

record GrantChainInput =
  gi_groupId :: js_string
  gi_anchor :: GrantAnchor
  gi_pinnedAnchor :: "PinnedAnchor option"
  gi_grants :: "GrantRecord list"
  gi_keyHistories :: "js_string \<rightharpoonup> UserKeyHistory"
  gi_designations :: "DesignationRecord list"  \<comment> \<open>\<open>input.designations ?? []\<close>\<close>
  gi_now :: "int option"

record GrantChainResult =
  cr_anchorValid :: bool
  cr_anchorPinned :: bool
  cr_verdicts :: "js_string \<rightharpoonup> GrantVerdict"
  cr_grantsBySubject :: "js_string \<Rightarrow> GrantRecord list"  \<comment> \<open>\<open>grantsBySubject.get(u) ?? []\<close>\<close>

text \<open>\<open>RoleStatus\<close>: the reason of an unverified role.\<close>

datatype RoleStatus = Verified | Unverified js_string

definition CLAIM_DAY_SKEW_TOLERANCE_MS :: int where
  "CLAIM_DAY_SKEW_TOLERANCE_MS = 2 * 60 * 60 * 1000"

definition MIN_PERIOD_DAYS :: int where "MIN_PERIOD_DAYS = 30"
definition MAX_PERIOD_DAYS :: int where "MAX_PERIOD_DAYS = 365"

definition ROLES :: "js_string list" where
  "ROLES = [js ''admin'', js ''ambassador'', js ''member'']"

section \<open>Sort keys and key histories\<close>

text \<open>\<open>[0-9a-f-]\<close> and \<open>[0-9a-f]\<close>.\<close>

definition is_lower_hex :: "code_unit \<Rightarrow> bool" where
  "is_lower_hex u \<longleftrightarrow> is_digit u \<or> (97 \<le> u \<and> u \<le> 102)"

definition is_id_char :: "code_unit \<Rightarrow> bool" where
  "is_id_char u \<longleftrightarrow> is_lower_hex u \<or> u = 45"

text \<open>
  The regular expressions \<open>SORT_KEY\<close> and \<open>DESIGNATION_KEY\<close>: every group has a fixed width, so
  a match is a string of the one length whose slices are of the right classes.
\<close>

definition match_key :: "js_string \<Rightarrow> js_string \<Rightarrow> (js_string \<times> js_string) option" where
  "match_key prefix s =
     (let n = length prefix; m1 = take 36 (drop n s); m2 = take 10 (drop (n + 37) s)
      in if length s = n + 64 \<and> take n s = prefix \<and> list_all is_id_char m1
            \<and> s ! (n + 36) = 35 \<and> day_shape m2 \<and> s ! (n + 47) = 35
            \<and> list_all is_lower_hex (drop (n + 48) s)
         then Some (m1, m2) else None)"

record ParsedKey =
  pk_subject :: js_string
  pk_day :: int

definition parsed_key :: "prims \<Rightarrow> js_string \<times> js_string \<Rightarrow> ParsedKey option" where
  "parsed_key P m =
     (case date_parse (date_other P) (snd m @ js ''T00:00:00.000Z'') of
        None \<Rightarrow> None
      | Some day \<Rightarrow> Some \<lparr>pk_subject = fst m, pk_day = day\<rparr>)"

definition parseSortKey :: "prims \<Rightarrow> js_string \<Rightarrow> ParsedKey option" where
  "parseSortKey P sortKey =
     (case match_key (js ''GRANT#'') sortKey of None \<Rightarrow> None | Some m \<Rightarrow> parsed_key P m)"

definition parseDesignationKey :: "prims \<Rightarrow> js_string \<Rightarrow> ParsedKey option" where
  "parseDesignationKey P sortKey =
     (case match_key (js ''DESIGNATION#'') sortKey of None \<Rightarrow> None | Some m \<Rightarrow> parsed_key P m)"

text \<open>\<open>decode\<close>: an empty string, and anything \<open>atob\<close> refuses, is null.\<close>

definition decode :: "js_string \<Rightarrow> bytes option" where
  "decode b64 = (if b64 = [] then None else base64ToBytes b64)"

text \<open>The bounds of a superseded key; a missing or empty \<open>until\<close> is NaN.\<close>

definition key_bounds :: "prims \<Rightarrow> SupersededKey \<Rightarrow> (int \<times> int) option" where
  "key_bounds P k =
     (case (date_parse (date_other P) (ss_from k),
            case ss_until k of
              None \<Rightarrow> None
            | Some u \<Rightarrow> if u = [] then None else date_parse (date_other P) u) of
        (Some from_ms, Some until_ms) \<Rightarrow> Some (from_ms, until_ms)
      | _ \<Rightarrow> None)"

definition add_key :: "bytes list \<Rightarrow> js_string \<Rightarrow> bytes list" where
  "add_key out b64 = (case decode b64 of None \<Rightarrow> out | Some key \<Rightarrow> out @ [key])"

text \<open>The loop over the superseded keys; \<open>currentFrom\<close> starts at minus infinity (\<open>None\<close>).\<close>

fun superseded_loop ::
  "prims \<Rightarrow> int \<Rightarrow> SupersededKey list \<Rightarrow> int option \<Rightarrow> bytes list \<Rightarrow> int option \<times> bytes list" where
  "superseded_loop P dayStart_ms [] currentFrom out = (currentFrom, out)"
| "superseded_loop P dayStart_ms (k # ks) currentFrom out =
     (case key_bounds P k of
        None \<Rightarrow> superseded_loop P dayStart_ms ks currentFrom out
      | Some (from_ms, until_ms) \<Rightarrow>
          superseded_loop P dayStart_ms ks
            (Some (case currentFrom of None \<Rightarrow> until_ms | Some c \<Rightarrow> max c until_ms))
            (if from_ms < dayStart_ms + DAY_MS \<and> dayStart_ms \<le> until_ms
             then add_key out (ss_publicKey k) else out))"

definition keysOnDay :: "prims \<Rightarrow> UserKeyHistory \<Rightarrow> int \<Rightarrow> bytes list" where
  "keysOnDay P history dayStart_ms =
     (case superseded_loop P dayStart_ms (kh_superseded history) None [] of
        (currentFrom, out) \<Rightarrow>
          if (case currentFrom of None \<Rightarrow> True | Some c \<Rightarrow> c < dayStart_ms + DAY_MS)
          then add_key out (kh_signingPublicKey history) else out)"

section \<open>What verifyGrantChain computes before it judges any grant\<close>

definition anchorKey :: "GrantChainInput \<Rightarrow> bytes option" where
  "anchorKey input = decode (an_creatorSigningPublicKey (gi_anchor input))"

definition pinMatched :: "GrantChainInput \<Rightarrow> bool" where
  "pinMatched input =
     (case gi_pinnedAnchor input of
        None \<Rightarrow> False
      | Some pin \<Rightarrow>
          (case (decode (pa_creatorSigningPublicKey pin), anchorKey input) of
             (Some pinKey, Some key) \<Rightarrow>
               pa_creatorUserId pin = an_creatorUserId (gi_anchor input) \<and> bytesEqual pinKey key
           | _ \<Rightarrow> False))"

definition pinMismatch :: "GrantChainInput \<Rightarrow> bool" where
  "pinMismatch input \<longleftrightarrow> gi_pinnedAnchor input \<noteq> None \<and> \<not> pinMatched input"

definition anchorValid :: "prims \<Rightarrow> GrantChainInput \<Rightarrow> bool" where
  "anchorValid P input \<longleftrightarrow>
     \<not> pinMismatch input \<and>
     (case (anchorKey input, decode (an_trustAnchorSignature (gi_anchor input))) of
        (Some key, Some sig) \<Rightarrow>
          verify P key TrustAnchor
            (trustAnchorPayload (an_creatorUserId (gi_anchor input)) key (gi_groupId input)) sig
      | _ \<Rightarrow> False)"

text \<open>
  The maps built by the three loops over the input: the keys met a second time, the rows of a
  subject or an admin in order, the last designation with a key, and how many grants rely on a
  designation.
\<close>

fun duplicates :: "js_string list \<Rightarrow> js_string list \<Rightarrow> js_string list" where
  "duplicates seen [] = []"
| "duplicates seen (k # ks) =
     (if k \<in> set seen then k # duplicates seen ks else duplicates (k # seen) ks)"

definition duplicated :: "GrantChainInput \<Rightarrow> js_string \<Rightarrow> bool" where
  "duplicated input k \<longleftrightarrow> k \<in> set (duplicates [] (map gr_sortKey (gi_grants input)))"

definition grantsBySubject :: "GrantChainInput \<Rightarrow> js_string \<Rightarrow> GrantRecord list" where
  "grantsBySubject input u = filter (\<lambda>g. gr_subjectUserId g = u) (gi_grants input)"

definition duplicatedDesignations :: "GrantChainInput \<Rightarrow> js_string \<Rightarrow> bool" where
  "duplicatedDesignations input k \<longleftrightarrow> k \<in> set (duplicates [] (map de_sortKey (gi_designations input)))"

definition designationByKey :: "GrantChainInput \<Rightarrow> js_string \<Rightarrow> DesignationRecord option" where
  "designationByKey input k = List.find (\<lambda>d. de_sortKey d = k) (rev (gi_designations input))"

definition designationsByAdmin :: "GrantChainInput \<Rightarrow> js_string \<Rightarrow> DesignationRecord list" where
  "designationsByAdmin input u = filter (\<lambda>d. de_adminUserId d = u) (gi_designations input)"

text \<open>\<open>g.viaDesignation\<close> as a condition: present and not empty.\<close>

definition via :: "GrantRecord \<Rightarrow> js_string option" where
  "via g = (case gr_viaDesignation g of None \<Rightarrow> None | Some k \<Rightarrow> if k = [] then None else Some k)"

definition citing :: "GrantChainInput \<Rightarrow> js_string \<Rightarrow> nat" where
  "citing input k = length (filter (\<lambda>g. via g = Some k) (gi_grants input))"

section \<open>Judging a grant\<close>

definition reject :: "string \<Rightarrow> GrantVerdict" where
  "reject reason = \<lparr>gv_valid = False, gv_reason = Some (js reason)\<rparr>"

definition accept :: GrantVerdict where
  "accept = \<lparr>gv_valid = True, gv_reason = None\<rparr>"

record Caches =
  ca_verdicts :: "js_string \<rightharpoonup> GrantVerdict"
  ca_designationVerdicts :: "js_string \<rightharpoonup> GrantVerdict"

type_synonym 'a judge = "Caches \<Rightarrow> ('a \<times> Caches) option"

definition pass :: "'a \<Rightarrow> 'a judge" where
  "pass x = (\<lambda>s. Some (x, s))"

definition andThen :: "'a judge \<Rightarrow> ('a \<Rightarrow> 'b judge) \<Rightarrow> 'b judge" where
  "andThen m f = (\<lambda>s. case m s of None \<Rightarrow> None | Some (x, s') \<Rightarrow> f x s')"

text \<open>A signature under some key the user held on the day: the loop that ends each rule.\<close>

definition signed_on ::
  "prims \<Rightarrow> UserKeyHistory \<Rightarrow> int \<Rightarrow> SigningContext \<Rightarrow> bytes \<Rightarrow> bytes \<Rightarrow> bool" where
  "signed_on P history day ctx payload sig \<longleftrightarrow>
     list_ex (\<lambda>key. verify P key ctx payload sig) (keysOnDay P history day)"

text \<open>The \<open>latestDay\<close>/\<open>latest\<close> update shared by the scans.\<close>

definition keep_latest ::
  "int \<Rightarrow> GrantRecord \<Rightarrow> int option \<times> GrantRecord list \<Rightarrow> int option \<times> GrantRecord list" where
  "keep_latest day other acc =
     (case fst acc of
        None \<Rightarrow> (Some day, [other])
      | Some l \<Rightarrow> if l < day then (Some day, [other])
                  else if day = l then (Some l, snd acc @ [other]) else acc)"

text \<open>
  The scan of \<open>computeDesignation\<close> and \<open>verifySelfDemotion\<close>: any row on the day rejects; what is
  left is the rows on the latest earlier day.
\<close>

fun scan_latest ::
  "prims \<Rightarrow> string \<Rightarrow> int \<Rightarrow> GrantRecord list \<Rightarrow> int option \<times> GrantRecord list
   \<Rightarrow> GrantVerdict + GrantRecord list" where
  "scan_latest P reason day [] acc = Inr (snd acc)"
| "scan_latest P reason day (other # rest) acc =
     (case parseSortKey P (gr_sortKey other) of
        None \<Rightarrow> scan_latest P reason day rest acc
      | Some p \<Rightarrow>
          if pk_day p = day then Inl (reject reason)
          else if pk_day p > day then scan_latest P reason day rest acc
          else scan_latest P reason day rest (keep_latest (pk_day p) other acc))"

definition isSelfDemotion :: "GrantRecord \<Rightarrow> bool" where
  "isSelfDemotion g \<longleftrightarrow> gr_grantorUserId g = gr_subjectUserId g \<and> gr_grantedRole g = js ''member''"

text \<open>The scan of \<open>compute\<close>: a verified self-demotion on the day is passed over.\<close>

fun scan_grantor ::
  "prims \<Rightarrow> (GrantRecord \<Rightarrow> GrantVerdict judge) \<Rightarrow> int \<Rightarrow> GrantRecord list
   \<Rightarrow> int option \<times> GrantRecord list \<Rightarrow> (GrantVerdict + GrantRecord list) judge" where
  "scan_grantor P vo day [] acc = pass (Inr (snd acc))"
| "scan_grantor P vo day (other # rest) acc =
     (case parseSortKey P (gr_sortKey other) of
        None \<Rightarrow> scan_grantor P vo day rest acc
      | Some p \<Rightarrow>
          if pk_day p = day then
            (let refuse = pass (Inl (reject ''grantor's role changed on the same UTC day''))
             in if isSelfDemotion other
                then andThen (vo other) (\<lambda>v. if gv_valid v then scan_grantor P vo day rest acc else refuse)
                else refuse)
          else if pk_day p > day then scan_grantor P vo day rest acc
          else scan_grantor P vo day rest (keep_latest (pk_day p) other acc))"

definition ref_of :: "GrantRecord \<Rightarrow> js_string" where
  "ref_of g = (case gr_grantorGrantRef g of None \<Rightarrow> [] | Some r \<Rightarrow> r)"

definition verifySelfDemotion ::
  "prims \<Rightarrow> GrantChainInput \<Rightarrow> (GrantRecord \<Rightarrow> GrantVerdict judge) \<Rightarrow> GrantRecord \<Rightarrow> int \<Rightarrow> js_string
   \<Rightarrow> bytes \<Rightarrow> bytes \<Rightarrow> GrantVerdict judge" where
  "verifySelfDemotion P input vo g day ref payload sig =
     (case scan_latest P ''signer's role changed on the same UTC day'' day
             (filter (\<lambda>other. gr_sortKey other \<noteq> gr_sortKey g)
                (grantsBySubject input (gr_subjectUserId g))) (None, []) of
        Inl v \<Rightarrow> pass v
      | Inr [] \<Rightarrow> pass (reject ''signer held no grant before the demotion'')
      | Inr [current] \<Rightarrow>
          if ref \<noteq> gr_sortKey current
          then pass (reject ''grantorGrantRef is not the signer's current grant'')
          else if gr_grantedRole current \<noteq> js ''admin'' \<and> gr_grantedRole current \<noteq> js ''ambassador''
          then pass (reject ''signer held no elevated role to give up'')
          else andThen (vo current) (\<lambda>v.
            if \<not> gv_valid v then pass (reject ''signer's own grant does not verify'')
            else case gi_keyHistories input (gr_subjectUserId g) of
                   None \<Rightarrow> pass (reject ''no key history for signer'')
                 | Some history \<Rightarrow>
                     if signed_on P history day RoleGrant payload sig then pass accept
                     else pass (reject ''signature does not verify under any key the signer held on that day''))
      | Inr _ \<Rightarrow> pass (reject ''signer's current grant is ambiguous (same-day tie)''))"

definition computeDesignation ::
  "prims \<Rightarrow> GrantChainInput \<Rightarrow> (GrantRecord \<Rightarrow> GrantVerdict judge) \<Rightarrow> DesignationRecord
   \<Rightarrow> GrantVerdict judge" where
  "computeDesignation P input vo d =
     (if duplicatedDesignations input (de_sortKey d)
      then pass (reject ''duplicate designation sort key'')
      else case parseDesignationKey P (de_sortKey d) of
        None \<Rightarrow> pass (reject ''malformed designation sort key'')
      | Some parsed \<Rightarrow>
          if pk_subject parsed \<noteq> de_adminUserId d
          then pass (reject ''designation sort key does not match admin'')
          else if \<not> isSafeInteger (de_periodDays d) \<or> de_periodDays d < MIN_PERIOD_DAYS
                  \<or> MAX_PERIOD_DAYS < de_periodDays d
          then pass (reject ''designation period is out of range'')
          else case decode (de_signature d) of
            None \<Rightarrow> pass (reject ''malformed designation signature'')
          | Some sig \<Rightarrow>
              if de_adminGrantRef d = []
              then pass (reject ''designation has no admin grant reference'')
              else case scan_latest P ''admin's role changed on the designation's day'' (pk_day parsed)
                          (grantsBySubject input (de_adminUserId d)) (None, []) of
                Inl v \<Rightarrow> pass v
              | Inr [] \<Rightarrow> pass (reject ''admin held no grant on the designation day'')
              | Inr [current] \<Rightarrow>
                  if de_adminGrantRef d \<noteq> gr_sortKey current
                  then pass (reject ''adminGrantRef is not the admin's current grant'')
                  else if gr_grantedRole current \<noteq> js ''admin''
                  then pass (reject ''designating admin was not admin that day'')
                  else andThen (vo current) (\<lambda>v.
                    if \<not> gv_valid v then pass (reject ''admin's own grant does not verify'')
                    else case gi_keyHistories input (de_adminUserId d) of
                      None \<Rightarrow> pass (reject ''no key history for the designating admin'')
                    | Some history \<Rightarrow>
                        (case successorDesignationPayload (gi_groupId input) (de_adminUserId d)
                                (case de_successorUserId d of None \<Rightarrow> [] | Some u \<Rightarrow> u)
                                (de_periodDays d) (de_sortKey d) (de_adminGrantRef d) of
                           Inl _ \<Rightarrow> (\<lambda>s. None)
                         | Inr payload \<Rightarrow>
                             if signed_on P history (pk_day parsed) SuccessorDesignation payload sig
                             then pass accept
                             else pass (reject ''designation signature does not verify under any key the admin held that day'')))
              | Inr _ \<Rightarrow> pass (reject ''admin's current grant is ambiguous (same-day tie)''))"

definition verifyDesignation ::
  "prims \<Rightarrow> GrantChainInput \<Rightarrow> (GrantRecord \<Rightarrow> GrantVerdict judge) \<Rightarrow> DesignationRecord
   \<Rightarrow> GrantVerdict judge" where
  "verifyDesignation P input vo d = (\<lambda>s.
     case ca_designationVerdicts s (de_sortKey d) of
       Some v \<Rightarrow> Some (v, s)
     | None \<Rightarrow> andThen (computeDesignation P input vo d)
         (\<lambda>v s'. Some (v, s'\<lparr>ca_designationVerdicts := (ca_designationVerdicts s')(de_sortKey d \<mapsto> v)\<rparr>)) s)"

text \<open>The lapse: a row of the admin's own dated from the designation's day to the claim's.\<close>

definition in_span :: "ParsedKey option \<Rightarrow> int \<Rightarrow> int \<Rightarrow> bool" where
  "in_span p first_day last_day =
     (case p of None \<Rightarrow> False | Some q \<Rightarrow> first_day \<le> pk_day q \<and> pk_day q \<le> last_day)"

text \<open>The part of \<open>verifyClaim\<close> after the designation has verified; none of it recurses.\<close>

definition claim_rest ::
  "prims \<Rightarrow> GrantChainInput \<Rightarrow> GrantRecord \<Rightarrow> ParsedKey \<Rightarrow> bytes \<Rightarrow> DesignationRecord \<Rightarrow> js_string
   \<Rightarrow> GrantVerdict option" where
  "claim_rest P input g parsed sig d designationKey =
     (if de_successorUserId d \<noteq> Some (gr_subjectUserId g)
      then Some (reject ''the designation names someone else'')
      else if gr_grantorUserId g \<noteq> de_adminUserId d
      then Some (reject ''claim names a different admin'')
      else if ref_of g \<noteq> de_adminGrantRef d
      then Some (reject ''claim does not cite the grant the designation was signed against'')
      else case parseDesignationKey P (de_sortKey d) of
        None \<Rightarrow> None
      | Some dParsed \<Rightarrow>
          if pk_day parsed - pk_day dParsed < de_periodDays d * DAY_MS
          then Some (reject ''the claim is dated before the designation period elapsed'')
          else if (case gi_now input of
                     None \<Rightarrow> False
                   | Some now \<Rightarrow> pk_day parsed - now > CLAIM_DAY_SKEW_TOLERANCE_MS)
          then Some (reject ''the claim is dated in the future'')
          else if list_ex (\<lambda>other. de_sortKey other \<noteq> de_sortKey d \<and>
                    in_span (parseDesignationKey P (de_sortKey other)) (pk_day dParsed) (pk_day parsed))
                    (designationsByAdmin input (de_adminUserId d))
          then Some (reject ''the admin signed another designation since, which cancels this one'')
          else if list_ex (\<lambda>other.
                    in_span (parseSortKey P (gr_sortKey other)) (pk_day dParsed) (pk_day parsed))
                    (grantsBySubject input (de_adminUserId d))
          then Some (reject ''the admin's own role changed since the designation'')
          else case gi_keyHistories input (gr_subjectUserId g) of
            None \<Rightarrow> Some (reject ''no key history for the successor'')
          | Some history \<Rightarrow>
              if signed_on P history (pk_day parsed) SuccessorClaim
                   (successorClaimPayload (gi_groupId input) (gr_subjectUserId g) designationKey
                      (gr_sortKey g)) sig
              then Some accept
              else Some (reject ''claim signature does not verify under any key the successor held that day''))"

definition verifyClaim ::
  "prims \<Rightarrow> GrantChainInput \<Rightarrow> (GrantRecord \<Rightarrow> GrantVerdict judge) \<Rightarrow> GrantRecord \<Rightarrow> js_string
   \<Rightarrow> ParsedKey \<Rightarrow> bytes \<Rightarrow> GrantVerdict judge" where
  "verifyClaim P input vo g designationKey parsed sig =
     (if gr_grantedRole g \<noteq> js ''admin''
      then pass (reject ''a successor claim can only confer admin'')
      else if 1 < citing input designationKey
      then pass (reject ''more than one grant relies on this designation'')
      else case designationByKey input designationKey of
        None \<Rightarrow> pass (reject ''the designation this claim relies on was not served'')
      | Some d \<Rightarrow>
          andThen (verifyDesignation P input vo d) (\<lambda>designation.
            if \<not> gv_valid designation
            then pass \<lparr>gv_valid = False, gv_reason = Some (js ''designation does not verify ('' @
                   (case gv_reason designation of None \<Rightarrow> js ''undefined'' | Some r \<Rightarrow> r) @ js '')'')\<rparr>
            else (\<lambda>s. case claim_rest P input g parsed sig d designationKey of
                         None \<Rightarrow> None
                       | Some v \<Rightarrow> Some (v, s))))"

text \<open>The root grant: judged against the anchor alone.\<close>

definition verifyRoot ::
  "prims \<Rightarrow> GrantChainInput \<Rightarrow> GrantRecord \<Rightarrow> int \<Rightarrow> js_string \<Rightarrow> bytes \<Rightarrow> bytes \<Rightarrow> GrantVerdict" where
  "verifyRoot P input g day ref payload sig =
     (let creator = an_creatorUserId (gi_anchor input) in
      if pinMismatch input then reject ''anchor does not match the pinned anchor''
      else case anchorKey input of
        None \<Rightarrow> reject ''trust anchor does not verify''
      | Some key \<Rightarrow>
          if \<not> anchorValid P input then reject ''trust anchor does not verify''
          else if gr_subjectUserId g \<noteq> creator \<or> gr_grantorUserId g \<noteq> creator
          then reject ''root grant is not self-signed by the creator''
          else if gr_grantedRole g \<noteq> js ''admin'' then reject ''root grant is not admin''
          else if ref \<noteq> [] then reject ''root grant has a predecessor''
          else case gi_keyHistories input creator of
            None \<Rightarrow> reject ''no key history for creator''
          | Some history \<Rightarrow>
              if \<not> list_ex (\<lambda>k. bytesEqual k key) (keysOnDay P history day)
              then reject ''anchor key is not a key the creator held on the root day''
              else if \<not> verify P key RoleGrant payload sig
              then reject ''root signature does not verify under the anchor key''
              else accept)"

text \<open>The rule for a grant by another member: the body of \<open>compute\<close> below its early returns.\<close>

definition verifyGranted ::
  "prims \<Rightarrow> GrantChainInput \<Rightarrow> (GrantRecord \<Rightarrow> GrantVerdict judge) \<Rightarrow> GrantRecord \<Rightarrow> int \<Rightarrow> js_string
   \<Rightarrow> bytes \<Rightarrow> bytes \<Rightarrow> GrantVerdict judge" where
  "verifyGranted P input vo g day ref payload sig =
     andThen (scan_grantor P vo day (grantsBySubject input (gr_grantorUserId g)) (None, [])) (\<lambda>r.
       case r of
         Inl v \<Rightarrow> pass v
       | Inr [] \<Rightarrow> pass (reject ''grantor held no grant on the signing day'')
       | Inr [current] \<Rightarrow>
           if ref \<noteq> gr_sortKey current
           then pass (reject ''grantorGrantRef is not the grantor's current grant'')
           else if gr_grantedRole current \<noteq> js ''admin''
           then pass (reject ''grantor was not admin on the signing day'')
           else andThen (vo current) (\<lambda>v.
             if \<not> gv_valid v then pass (reject ''grantor's own grant does not verify'')
             else case gi_keyHistories input (gr_grantorUserId g) of
               None \<Rightarrow> pass (reject ''no key history for grantor'')
             | Some history \<Rightarrow>
                 if signed_on P history day RoleGrant payload sig then pass accept
                 else pass (reject ''signature does not verify under any key the grantor held on that day''))
       | Inr _ \<Rightarrow> pass (reject ''grantor's current grant is ambiguous (same-day tie)''))"

definition compute ::
  "prims \<Rightarrow> GrantChainInput \<Rightarrow> (GrantRecord \<Rightarrow> GrantVerdict judge) \<Rightarrow> GrantRecord
   \<Rightarrow> GrantVerdict judge" where
  "compute P input vo g =
     (if duplicated input (gr_sortKey g) then pass (reject ''duplicate grant sort key'')
      else case parseSortKey P (gr_sortKey g) of
        None \<Rightarrow> pass (reject ''malformed sort key'')
      | Some parsed \<Rightarrow>
          if pk_subject parsed \<noteq> gr_subjectUserId g
          then pass (reject ''sort key does not match subject'')
          else if gr_grantedRole g \<notin> set ROLES then pass (reject ''unknown role'')
          else case decode (gr_signature g) of
            None \<Rightarrow> pass (reject ''malformed signature'')
          | Some sig \<Rightarrow>
              (case via g of
                 Some designationKey \<Rightarrow> verifyClaim P input vo g designationKey parsed sig
               | None \<Rightarrow>
                   (let ref = ref_of g;
                        payload = roleGrantPayload (gi_groupId input) (gr_subjectUserId g)
                                    (gr_grantedRole g) (gr_sortKey g) ref
                    in if gr_sortKey g = an_rootGrantSortKey (gi_anchor input)
                       then pass (verifyRoot P input g (pk_day parsed) ref payload sig)
                       else if ref = [] then pass (reject ''missing grantorGrantRef'')
                       else if gr_grantorUserId g = gr_subjectUserId g
                       then (if gr_grantedRole g \<noteq> js ''member'' then pass (reject ''non-root self-grant'')
                             else verifySelfDemotion P input vo g (pk_day parsed) ref payload sig)
                       else verifyGranted P input vo g (pk_day parsed) ref payload sig)))"

fun verifyOne :: "nat \<Rightarrow> prims \<Rightarrow> GrantChainInput \<Rightarrow> GrantRecord \<Rightarrow> GrantVerdict judge" where
  "verifyOne 0 P input g = (\<lambda>s. None)"
| "verifyOne (Suc n) P input g = (\<lambda>s.
     case ca_verdicts s (gr_sortKey g) of
       Some v \<Rightarrow> Some (v, s)
     | None \<Rightarrow> andThen (compute P input (verifyOne n P input) g)
         (\<lambda>v s'. Some (v, s'\<lparr>ca_verdicts := (ca_verdicts s')(gr_sortKey g \<mapsto> v)\<rparr>)) s)"

fun verifyAll :: "nat \<Rightarrow> prims \<Rightarrow> GrantChainInput \<Rightarrow> GrantRecord list \<Rightarrow> Caches \<Rightarrow> Caches option" where
  "verifyAll n P input [] s = Some s"
| "verifyAll n P input (g # gs) s =
     (case verifyOne n P input g s of None \<Rightarrow> None | Some (v, s') \<Rightarrow> verifyAll n P input gs s')"

definition no_caches :: Caches where
  "no_caches = \<lparr>ca_verdicts = Map.empty, ca_designationVerdicts = Map.empty\<rparr>"

definition verifyGrantChain :: "nat \<Rightarrow> prims \<Rightarrow> GrantChainInput \<Rightarrow> GrantChainResult option" where
  "verifyGrantChain fuel P input =
     (case verifyAll fuel P input (gi_grants input) no_caches of
        None \<Rightarrow> None
      | Some s \<Rightarrow> Some \<lparr>cr_anchorValid = anchorValid P input, cr_anchorPinned = pinMatched input,
                        cr_verdicts = ca_verdicts s, cr_grantsBySubject = grantsBySubject input\<rparr>)"

section \<open>checkMemberRole\<close>

fun scan_member ::
  "prims \<Rightarrow> GrantRecord list \<Rightarrow> int option \<times> GrantRecord list \<Rightarrow> GrantRecord list option" where
  "scan_member P [] acc = Some (snd acc)"
| "scan_member P (g # gs) acc =
     (case parseSortKey P (gr_sortKey g) of
        None \<Rightarrow> None
      | Some p \<Rightarrow> scan_member P gs (keep_latest (pk_day p) g acc))"

definition checkMemberRole :: "prims \<Rightarrow> GrantChainResult \<Rightarrow> js_string \<Rightarrow> js_string \<Rightarrow> RoleStatus" where
  "checkMemberRole P result userId claimedRole =
     (let grants = cr_grantsBySubject result userId in
      if grants = [] then
        (if claimedRole = js ''member'' then Verified
         else Unverified (js ''no grant backs role '' @ claimedRole))
      else case scan_member P grants (None, []) of
        None \<Rightarrow> Unverified (js ''malformed sort key'')
      | Some latest \<Rightarrow>
          if 1 < length latest then Unverified (js ''latest grant is ambiguous'')
          else let g = hd latest in
            (case cr_verdicts result (gr_sortKey g) of
               None \<Rightarrow> Unverified (js ''grant not verified'')
             | Some verdict \<Rightarrow>
                 if \<not> gv_valid verdict then
                   Unverified (case gv_reason verdict of None \<Rightarrow> js ''grant not verified'' | Some r \<Rightarrow> r)
                 else if gr_grantedRole g \<noteq> claimedRole then
                   Unverified (js ''latest grant says '' @ gr_grantedRole g @ js '', not '' @ claimedRole)
                 else Verified))"

end
