(* ===== verification/Grant_Chain_Proofs.thy ===== *)
theory Grant_Chain_Proofs
  imports Grant_Chain
begin

text \<open>
  What a verdict of grant-chain.ts means.  \<open>backed\<close> is the trust rule of the group, stated
  without scans, caches or an order of checks; \<open>verifyOne_correct\<close> shows that the memoised
  verifier accepts exactly the backed rows.
\<close>

section \<open>The trust rule\<close>

definition row_day :: "prims \<Rightarrow> GrantRecord \<Rightarrow> int option" where
  "row_day P g = map_option pk_day (parseSortKey P (gr_sortKey g))"

text \<open>\<open>cur\<close> is the only one of \<open>rows\<close> on the latest day before \<open>day\<close>.\<close>

definition current_at :: "prims \<Rightarrow> GrantRecord list \<Rightarrow> int \<Rightarrow> GrantRecord \<Rightarrow> bool" where
  "current_at P rows day cur \<longleftrightarrow>
     (\<exists>l<day. filter (\<lambda>o'. row_day P o' = Some l) rows = [cur]
        \<and> (\<forall>o'\<in>set rows. \<forall>e. row_day P o' = Some e \<longrightarrow> e < day \<longrightarrow> e \<le> l))"

definition grant_payload :: "GrantChainInput \<Rightarrow> GrantRecord \<Rightarrow> bytes" where
  "grant_payload input g =
     roleGrantPayload (gi_groupId input) (gr_subjectUserId g) (gr_grantedRole g) (gr_sortKey g) (ref_of g)"

definition row_ok :: "prims \<Rightarrow> GrantChainInput \<Rightarrow> GrantRecord \<Rightarrow> int \<Rightarrow> bytes \<Rightarrow> bool" where
  "row_ok P input g day sig \<longleftrightarrow>
     \<not> duplicated input (gr_sortKey g)
     \<and> parseSortKey P (gr_sortKey g) = Some \<lparr>pk_subject = gr_subjectUserId g, pk_day = day\<rparr>
     \<and> gr_grantedRole g \<in> set ROLES \<and> decode (gr_signature g) = Some sig"

definition plain_row :: "GrantChainInput \<Rightarrow> GrantRecord \<Rightarrow> bool" where
  "plain_row input g \<longleftrightarrow> via g = None \<and> gr_sortKey g \<noteq> an_rootGrantSortKey (gi_anchor input) \<and> ref_of g \<noteq> []"

definition signed_by ::
  "prims \<Rightarrow> GrantChainInput \<Rightarrow> js_string \<Rightarrow> int \<Rightarrow> SigningContext \<Rightarrow> bytes \<Rightarrow> bytes \<Rightarrow> bool" where
  "signed_by P input user day ctx payload sig \<longleftrightarrow>
     (\<exists>history. gi_keyHistories input user = Some history \<and> signed_on P history day ctx payload sig)"

inductive backed :: "prims \<Rightarrow> GrantChainInput \<Rightarrow> GrantRecord \<Rightarrow> bool"
  and designated :: "prims \<Rightarrow> GrantChainInput \<Rightarrow> DesignationRecord \<Rightarrow> int \<Rightarrow> bool"
  for P input where
  root: "\<lbrakk> row_ok P input g day sig; via g = None;
     gr_sortKey g = an_rootGrantSortKey (gi_anchor input); anchorValid P input;
     anchorKey input = Some key; gr_subjectUserId g = an_creatorUserId (gi_anchor input);
     gr_grantorUserId g = an_creatorUserId (gi_anchor input); gr_grantedRole g = js ''admin'';
     ref_of g = []; gi_keyHistories input (an_creatorUserId (gi_anchor input)) = Some history;
     key \<in> set (keysOnDay P history day); verify P key RoleGrant (grant_payload input g) sig \<rbrakk>
   \<Longrightarrow> backed P input g"
| granted: "\<lbrakk> row_ok P input g day sig; plain_row input g; gr_grantorUserId g \<noteq> gr_subjectUserId g;
     current_at P (grantsBySubject input (gr_grantorUserId g)) day cur;
     \<forall>o'\<in>set (grantsBySubject input (gr_grantorUserId g)).
       row_day P o' = Some day \<longrightarrow> isSelfDemotion o' \<and> backed P input o';
     ref_of g = gr_sortKey cur; gr_grantedRole cur = js ''admin''; backed P input cur;
     signed_by P input (gr_grantorUserId g) day RoleGrant (grant_payload input g) sig \<rbrakk>
   \<Longrightarrow> backed P input g"
| demoted: "\<lbrakk> row_ok P input g day sig; plain_row input g; isSelfDemotion g;
     rows = filter (\<lambda>o'. gr_sortKey o' \<noteq> gr_sortKey g) (grantsBySubject input (gr_subjectUserId g));
     current_at P rows day cur; \<forall>o'\<in>set rows. row_day P o' \<noteq> Some day;
     ref_of g = gr_sortKey cur; gr_grantedRole cur \<in> {js ''admin'', js ''ambassador''};
     backed P input cur;
     signed_by P input (gr_subjectUserId g) day RoleGrant (grant_payload input g) sig \<rbrakk>
   \<Longrightarrow> backed P input g"
| claimed: "\<lbrakk> row_ok P input g day sig; via g = Some k; gr_grantedRole g = js ''admin'';
     citing input k \<le> 1; designationByKey input k = Some d; designated P input d dday;
     de_successorUserId d = Some (gr_subjectUserId g); gr_grantorUserId g = de_adminUserId d;
     ref_of g = de_adminGrantRef d; dday + de_periodDays d * DAY_MS \<le> day;
     \<forall>now. gi_now input = Some now \<longrightarrow> day \<le> now + CLAIM_DAY_SKEW_TOLERANCE_MS;
     \<forall>e\<in>set (designationsByAdmin input (de_adminUserId d)). de_sortKey e \<noteq> k \<longrightarrow>
       \<not> in_span (parseDesignationKey P (de_sortKey e)) dday day;
     \<forall>o'\<in>set (grantsBySubject input (de_adminUserId d)).
       \<not> in_span (parseSortKey P (gr_sortKey o')) dday day;
     signed_by P input (gr_subjectUserId g) day SuccessorClaim
       (successorClaimPayload (gi_groupId input) (gr_subjectUserId g) k (gr_sortKey g)) sig \<rbrakk>
   \<Longrightarrow> backed P input g"
| designated: "\<lbrakk> \<not> duplicatedDesignations input (de_sortKey d);
     parseDesignationKey P (de_sortKey d) = Some \<lparr>pk_subject = de_adminUserId d, pk_day = dday\<rparr>;
     MIN_PERIOD_DAYS \<le> de_periodDays d; de_periodDays d \<le> MAX_PERIOD_DAYS;
     decode (de_signature d) = Some sig; de_adminGrantRef d \<noteq> [];
     current_at P (grantsBySubject input (de_adminUserId d)) dday cur;
     \<forall>o'\<in>set (grantsBySubject input (de_adminUserId d)). row_day P o' \<noteq> Some dday;
     de_adminGrantRef d = gr_sortKey cur; gr_grantedRole cur = js ''admin''; backed P input cur;
     successorDesignationPayload (gi_groupId input) (de_adminUserId d)
       (case de_successorUserId d of None \<Rightarrow> [] | Some u \<Rightarrow> u) (de_periodDays d) (de_sortKey d)
       (de_adminGrantRef d) = Inr payload;
     signed_by P input (de_adminUserId d) dday SuccessorDesignation payload sig \<rbrakk>
   \<Longrightarrow> designated P input d dday"

section \<open>The scans find the current grant\<close>

text \<open>What the accumulator holds after the rows \<open>seen\<close>, of the days satisfying \<open>Q\<close>.\<close>

definition latest_of :: "prims \<Rightarrow> (int \<Rightarrow> bool) \<Rightarrow> GrantRecord list \<Rightarrow> int option \<times> GrantRecord list \<Rightarrow> bool" where
  "latest_of P Q seen acc \<longleftrightarrow>
     (case fst acc of
        None \<Rightarrow> snd acc = [] \<and> (\<forall>o'\<in>set seen. \<forall>e. row_day P o' = Some e \<longrightarrow> \<not> Q e)
      | Some l \<Rightarrow> Q l \<and> snd acc = filter (\<lambda>o'. row_day P o' = Some l) seen \<and> snd acc \<noteq> []
                  \<and> (\<forall>o'\<in>set seen. \<forall>e. row_day P o' = Some e \<longrightarrow> Q e \<longrightarrow> e \<le> l))"

lemma latest_of_Nil [simp]: "latest_of P Q [] (None, [])"
  by (simp add: latest_of_def)

lemma latest_of_skip:
  "latest_of P Q seen acc \<Longrightarrow> (\<And>e. row_day P g = Some e \<Longrightarrow> \<not> Q e) \<Longrightarrow> latest_of P Q (seen @ [g]) acc"
  by (auto simp: latest_of_def split: option.splits)

lemma latest_of_keep:
  assumes "latest_of P Q seen acc" "row_day P g = Some e" "Q e"
  shows "latest_of P Q (seen @ [g]) (keep_latest e g acc)"
proof (cases "fst acc")
  case None
  with assms show ?thesis
    by (auto simp: latest_of_def keep_latest_def filter_empty_conv)
next
  case (Some l)
  then have l: "Q l" "snd acc = filter (\<lambda>o'. row_day P o' = Some l) seen" "snd acc \<noteq> []"
    and m: "\<And>o' e. o' \<in> set seen \<Longrightarrow> row_day P o' = Some e \<Longrightarrow> Q e \<Longrightarrow> e \<le> l"
    using assms(1) by (auto simp: latest_of_def)
  consider "l < e" | "l = e" | "e < l" by linarith
  then show ?thesis
  proof cases
    case 1
    then have "filter (\<lambda>o'. row_day P o' = Some e) seen = []"
      using m assms(3) by (fastforce simp: filter_empty_conv)
    then show ?thesis using 1 Some l m assms by (fastforce simp: latest_of_def keep_latest_def)
  next
    case 2
    then show ?thesis using Some l m assms by (auto simp: latest_of_def keep_latest_def)
  next
    case 3
    then show ?thesis using Some l m assms by (auto simp: latest_of_def keep_latest_def)
  qed
qed

lemma current_at_mem:
  assumes "current_at P rows day cur"
  shows "cur \<in> set rows" "\<exists>l<day. row_day P cur = Some l"
proof -
  from assms obtain l where l: "l < day" "filter (\<lambda>o'. row_day P o' = Some l) rows = [cur]"
    by (auto simp: current_at_def)
  then have "cur \<in> set (filter (\<lambda>o'. row_day P o' = Some l) rows)" by simp
  with l(1) show "cur \<in> set rows" "\<exists>l<day. row_day P cur = Some l" by auto
qed

lemma latest_of_current: "latest_of P (\<lambda>e. e < day) rows acc \<Longrightarrow> snd acc = [cur] \<longleftrightarrow> current_at P rows day cur"
proof (cases "fst acc")
  case None
  assume "latest_of P (\<lambda>e. e < day) rows acc"
  with None have "snd acc = []" "\<And>o' e. o' \<in> set rows \<Longrightarrow> row_day P o' = Some e \<Longrightarrow> \<not> e < day"
    by (auto simp: latest_of_def)
  then show ?thesis using current_at_mem [of P rows day cur] by auto
next
  case (Some l)
  assume "latest_of P (\<lambda>e. e < day) rows acc"
  with Some have l: "l < day" "snd acc = filter (\<lambda>o'. row_day P o' = Some l) rows" "snd acc \<noteq> []"
    and m: "\<And>o' e. o' \<in> set rows \<Longrightarrow> row_day P o' = Some e \<Longrightarrow> e < day \<Longrightarrow> e \<le> l"
    by (auto simp: latest_of_def)
  show ?thesis
  proof
    assume "snd acc = [cur]"
    then show "current_at P rows day cur" using l m by (auto simp: current_at_def)
  next
    assume "current_at P rows day cur"
    then obtain l' where l': "l' < day" "filter (\<lambda>o'. row_day P o' = Some l') rows = [cur]"
      "\<And>o' e. o' \<in> set rows \<Longrightarrow> row_day P o' = Some e \<Longrightarrow> e < day \<Longrightarrow> e \<le> l'"
      by (auto simp: current_at_def)
    from l(2,3) obtain x where "x \<in> set rows" "row_day P x = Some l" by (auto simp: filter_empty_conv)
    with l' l(1) have "l \<le> l'" by blast
    moreover have "cur \<in> set rows \<and> row_day P cur = Some l'"
      using arg_cong [OF l'(2), of set] by auto
    with m l'(1) have "l' \<le> l" by blast
    ultimately show "snd acc = [cur]" using l(2) l'(2) by simp
  qed
qed

lemma scan_latest_Inr:
  "latest_of P (\<lambda>e. e < day) seen acc \<Longrightarrow> scan_latest P r day rows acc = Inr latest \<Longrightarrow>
   (\<forall>o'\<in>set rows. row_day P o' \<noteq> Some day) \<and> (\<exists>ld. latest_of P (\<lambda>e. e < day) (seen @ rows) (ld, latest))"
proof (induction rows arbitrary: seen acc)
  case Nil
  then show ?case by (cases acc) auto
next
  case (Cons g rows)
  show ?case
  proof (cases "parseSortKey P (gr_sortKey g)")
    case None
    then have "row_day P g = None" by (simp add: row_day_def)
    with None show ?thesis
      using Cons.IH [OF latest_of_skip [OF Cons.prems(1)], of g] Cons.prems(2) by simp
  next
    case (Some p)
    then have d: "row_day P g = Some (pk_day p)" by (simp add: row_day_def)
    consider "pk_day p = day" | "pk_day p > day" | "pk_day p < day" by linarith
    then show ?thesis
    proof cases
      case 1
      then show ?thesis using Some Cons.prems by simp
    next
      case 2
      then show ?thesis
        using Some d Cons.prems(2) Cons.IH [OF latest_of_skip [OF Cons.prems(1)], of g] by simp
    next
      case 3
      then show ?thesis
        using Some d Cons.prems(2) Cons.IH [OF latest_of_keep [OF Cons.prems(1) d]] by simp
    qed
  qed
qed

lemma scan_latest_Inl:
  "scan_latest P r day rows acc = Inl v \<Longrightarrow> v = reject r \<and> (\<exists>o'\<in>set rows. row_day P o' = Some day)"
  by (induction rows arbitrary: acc) (auto simp: row_day_def split: option.splits if_splits)

lemma scan_latest_current:
  assumes "scan_latest P r day rows (None, []) = Inr latest"
  shows "latest = [cur] \<longleftrightarrow> current_at P rows day cur" "\<forall>o'\<in>set rows. row_day P o' \<noteq> Some day"
  using scan_latest_Inr [OF latest_of_Nil assms] latest_of_current by fastforce+

section \<open>Judgements over the caches\<close>

lemma count_list_mem: "Suc 0 < count_list ks k \<Longrightarrow> k \<in> set ks"
  by (rule ccontr) simp

lemma set_duplicates: "k \<in> set (duplicates seen ks) \<longleftrightarrow> (k \<in> set seen \<and> k \<in> set ks) \<or> 1 < count_list ks k"
  by (induction ks arbitrary: seen) (auto simp: count_list_0_iff dest: count_list_mem simp flip: neq0_conv)

lemma not_duplicate_unique:
  assumes "k \<notin> set (duplicates [] (map f xs))" "x \<in> set xs" "y \<in> set xs" "f x = k" "f y = k"
  shows "x = y"
proof (rule ccontr)
  assume "x \<noteq> y"
  from assms(2) obtain us vs where xs: "xs = us @ x # vs" by (meson split_list)
  with assms(3) \<open>x \<noteq> y\<close> have "y \<in> set us \<or> y \<in> set vs" by auto
  then have "k \<in> set (map f us) \<or> k \<in> set (map f vs)" using assms(5) by auto
  then have "0 < count_list (map f us) k + count_list (map f vs) k"
    by (auto simp: count_list_0_iff simp flip: neq0_conv)
  with xs assms(1,4) show False by (auto simp: set_duplicates)
qed

lemma unique_row:
  "\<not> duplicated input (gr_sortKey g) \<Longrightarrow> g \<in> set (gi_grants input) \<Longrightarrow> h \<in> set (gi_grants input)
   \<Longrightarrow> gr_sortKey h = gr_sortKey g \<Longrightarrow> h = g"
  unfolding duplicated_def by (rule not_duplicate_unique [where f = gr_sortKey and k = "gr_sortKey g"]) simp_all

lemma unique_designation:
  "\<not> duplicatedDesignations input (de_sortKey d) \<Longrightarrow> d \<in> set (gi_designations input)
   \<Longrightarrow> e \<in> set (gi_designations input) \<Longrightarrow> de_sortKey e = de_sortKey d \<Longrightarrow> e = d"
  unfolding duplicatedDesignations_def
  by (rule not_duplicate_unique [where f = de_sortKey and k = "de_sortKey d"]) simp_all

lemma designationByKey_mem:
  "designationByKey input k = Some d \<Longrightarrow> d \<in> set (gi_designations input) \<and> de_sortKey d = k"
  unfolding designationByKey_def by (drule find_Some_iff_mem) simp

definition sound_caches :: "prims \<Rightarrow> GrantChainInput \<Rightarrow> Caches \<Rightarrow> bool" where
  "sound_caches P input s \<longleftrightarrow>
     (\<forall>g\<in>set (gi_grants input). \<forall>v. ca_verdicts s (gr_sortKey g) = Some v \<longrightarrow>
        gv_valid v = backed P input g)
     \<and> (\<forall>d\<in>set (gi_designations input). \<forall>v. ca_designationVerdicts s (de_sortKey d) = Some v \<longrightarrow>
        gv_valid v = (\<exists>dday. designated P input d dday))"

definition judges :: "prims \<Rightarrow> GrantChainInput \<Rightarrow> 'a judge \<Rightarrow> ('a \<Rightarrow> bool) \<Rightarrow> bool" where
  "judges P input m R \<longleftrightarrow>
     (\<forall>s x s'. sound_caches P input s \<longrightarrow> m s = Some (x, s') \<longrightarrow> sound_caches P input s' \<and> R x)"

lemma judges_pass [intro]: "R x \<Longrightarrow> judges P input (pass x) R"
  by (simp add: judges_def pass_def)

lemma judges_andThen:
  assumes "judges P input m Q" "\<And>x. Q x \<Longrightarrow> judges P input (f x) R"
  shows "judges P input (andThen m f) R"
  unfolding judges_def
proof (intro allI impI)
  fix s x s' assume s: "sound_caches P input s" and m: "andThen m f s = Some (x, s')"
  then obtain y t where "m s = Some (y, t)" "f y t = Some (x, s')"
    by (auto simp: andThen_def split: option.splits)
  with s assms show "sound_caches P input s' \<and> R x" unfolding judges_def by blast
qed

lemma reject_invalid [simp]: "\<not> gv_valid (reject r)"
  by (simp add: reject_def)

lemma accept_valid [simp]: "gv_valid accept"
  by (simp add: accept_def)

lemma grantsBySubject_mem: "g \<in> set (grantsBySubject input u) \<longleftrightarrow> g \<in> set (gi_grants input) \<and> gr_subjectUserId g = u"
  by (auto simp: grantsBySubject_def)

abbreviation judges_rows ::
  "prims \<Rightarrow> GrantChainInput \<Rightarrow> (GrantRecord \<Rightarrow> GrantVerdict judge) \<Rightarrow> bool" where
  "judges_rows P input vo \<equiv>
     \<forall>g\<in>set (gi_grants input). judges P input (vo g) (\<lambda>v. gv_valid v = backed P input g)"

definition settled :: "prims \<Rightarrow> GrantChainInput \<Rightarrow> int \<Rightarrow> GrantRecord list \<Rightarrow> bool" where
  "settled P input day rows \<longleftrightarrow>
     (\<forall>o'\<in>set rows. row_day P o' = Some day \<longrightarrow> isSelfDemotion o' \<and> backed P input o')"

text \<open>What the scan of \<open>compute\<close> returns: the rows it keeps, or a refusal that is warranted.\<close>

definition scanned :: "prims \<Rightarrow> GrantChainInput \<Rightarrow> int \<Rightarrow> GrantRecord list \<Rightarrow> GrantVerdict + GrantRecord list \<Rightarrow> bool" where
  "scanned P input day rows r \<longleftrightarrow>
     (case r of
        Inl v \<Rightarrow> \<not> gv_valid v \<and> \<not> settled P input day rows
      | Inr latest \<Rightarrow> settled P input day rows
                      \<and> (\<forall>cur. latest = [cur] \<longleftrightarrow> current_at P rows day cur))"

lemma settled_simps [simp]:
  "settled P input day []"
  "settled P input day (g # rows) \<longleftrightarrow>
     (row_day P g = Some day \<longrightarrow> isSelfDemotion g \<and> backed P input g) \<and> settled P input day rows"
  by (simp_all add: settled_def)

lemma scan_grantor_judges:
  assumes "judges_rows P input vo" "set rows \<subseteq> set (gi_grants input)" "latest_of P (\<lambda>e. e < day) seen acc"
    "settled P input day seen"
  shows "judges P input (scan_grantor P vo day rows acc) (scanned P input day (seen @ rows))"
  using assms(2-)
proof (induction rows arbitrary: seen acc)
  case Nil
  then have "scanned P input day seen (Inr (snd acc))" by (simp add: scanned_def latest_of_current)
  then show ?case by auto
next
  case (Cons g rows)
  have step: "judges P input (scan_grantor P vo day rows acc') (scanned P input day (seen @ g # rows))"
    if "latest_of P (\<lambda>e. e < day) (seen @ [g]) acc'"
       "row_day P g = Some day \<Longrightarrow> isSelfDemotion g \<and> backed P input g" for acc'
    using Cons.IH [OF _ that(1)] Cons.prems(1,3) that(2) by (auto simp: settled_def)
  note skip = latest_of_skip [OF Cons.prems(2), of g]
  show ?case
  proof (cases "parseSortKey P (gr_sortKey g)")
    case None
    then have "row_day P g = None" by (simp add: row_day_def)
    with None show ?thesis using step [OF skip] by simp
  next
    case (Some p)
    then have d: "row_day P g = Some (pk_day p)" by (simp add: row_day_def)
    have refuse: "scanned P input day (seen @ g # rows) (Inl (reject r))"
      if "pk_day p = day" "\<not> (isSelfDemotion g \<and> backed P input g)" for r
      using that d by (auto simp: scanned_def settled_def)
    have vo: "judges P input (vo g) (\<lambda>v. gv_valid v = backed P input g)" using assms(1) Cons.prems(1) by simp
    consider "pk_day p = day" "isSelfDemotion g" | "pk_day p = day" "\<not> isSelfDemotion g"
      | "pk_day p > day" | "pk_day p < day" by linarith
    then show ?thesis
    proof cases
      case 1
      have "judges P input
          (andThen (vo g) (\<lambda>v. if gv_valid v then scan_grantor P vo day rows acc
             else pass (Inl (reject ''grantor's role changed on the same UTC day''))))
          (scanned P input day (seen @ g # rows))"
        using 1 d refuse step [OF skip] by (intro judges_andThen [OF vo]) auto
      with 1 Some show ?thesis by simp
    next
      case 2
      then show ?thesis using Some refuse by auto
    next
      case 3
      then show ?thesis using Some d step [OF skip] by simp
    next
      case 4
      then show ?thesis using Some d step [OF latest_of_keep [OF Cons.prems(2) d]] by simp
    qed
  qed
qed

section \<open>The rule, case by case\<close>

inductive_cases backedE: "backed P input g"
inductive_cases designatedE: "designated P input d dday"

lemma row_ok_det: "row_ok P input g d1 s1 \<Longrightarrow> row_ok P input g d2 s2 \<Longrightarrow> d1 = d2 \<and> s1 = s2"
  by (simp add: row_ok_def)

lemma backed_root_iff:
  assumes "row_ok P input g day sig" "via g = None" "gr_sortKey g = an_rootGrantSortKey (gi_anchor input)"
  shows "backed P input g \<longleftrightarrow>
     (\<exists>key history. anchorValid P input \<and> anchorKey input = Some key
        \<and> gr_subjectUserId g = an_creatorUserId (gi_anchor input)
        \<and> gr_grantorUserId g = an_creatorUserId (gi_anchor input) \<and> gr_grantedRole g = js ''admin''
        \<and> ref_of g = [] \<and> gi_keyHistories input (an_creatorUserId (gi_anchor input)) = Some history
        \<and> key \<in> set (keysOnDay P history day) \<and> verify P key RoleGrant (grant_payload input g) sig)"
proof
  assume "backed P input g"
  then show "\<exists>key history. anchorValid P input \<and> anchorKey input = Some key
        \<and> gr_subjectUserId g = an_creatorUserId (gi_anchor input)
        \<and> gr_grantorUserId g = an_creatorUserId (gi_anchor input) \<and> gr_grantedRole g = js ''admin''
        \<and> ref_of g = [] \<and> gi_keyHistories input (an_creatorUserId (gi_anchor input)) = Some history
        \<and> key \<in> set (keysOnDay P history day) \<and> verify P key RoleGrant (grant_payload input g) sig"
    by (cases rule: backedE) (use assms in \<open>auto simp: plain_row_def dest: row_ok_det\<close>)
qed (use assms in \<open>auto intro: backed_designated.root\<close>)

lemma backed_granted_iff:
  assumes "row_ok P input g day sig" "plain_row input g" "gr_grantorUserId g \<noteq> gr_subjectUserId g"
  shows "backed P input g \<longleftrightarrow>
     (\<exists>cur. current_at P (grantsBySubject input (gr_grantorUserId g)) day cur
        \<and> settled P input day (grantsBySubject input (gr_grantorUserId g))
        \<and> ref_of g = gr_sortKey cur \<and> gr_grantedRole cur = js ''admin'' \<and> backed P input cur
        \<and> signed_by P input (gr_grantorUserId g) day RoleGrant (grant_payload input g) sig)"
    (is "_ \<longleftrightarrow> ?R")
proof
  assume "backed P input g"
  then show ?R
    by (cases rule: backedE)
      (use assms in \<open>auto simp: plain_row_def isSelfDemotion_def settled_def dest: row_ok_det\<close>)
next
  assume ?R
  with assms show "backed P input g"
    unfolding settled_def by (elim exE conjE) (rule backed_designated.granted)
qed

lemma backed_demoted_iff:
  assumes "row_ok P input g day sig" "plain_row input g" "isSelfDemotion g"
    and rows: "rows = filter (\<lambda>o'. gr_sortKey o' \<noteq> gr_sortKey g) (grantsBySubject input (gr_subjectUserId g))"
  shows "backed P input g \<longleftrightarrow>
     (\<exists>cur. current_at P rows day cur \<and> (\<forall>o'\<in>set rows. row_day P o' \<noteq> Some day)
        \<and> ref_of g = gr_sortKey cur \<and> gr_grantedRole cur \<in> {js ''admin'', js ''ambassador''}
        \<and> backed P input cur
        \<and> signed_by P input (gr_subjectUserId g) day RoleGrant (grant_payload input g) sig)"
    (is "_ \<longleftrightarrow> ?R")
proof
  assume "backed P input g"
  then show ?R unfolding rows
    by (cases rule: backedE)
      (use assms(1-3) in \<open>auto simp: plain_row_def isSelfDemotion_def dest: row_ok_det\<close>)
next
  assume ?R
  with assms show "backed P input g"
    by (elim exE conjE) (rule backed_designated.demoted)
qed

lemma judges_mono: "judges P input m Q \<Longrightarrow> (\<And>x. Q x \<Longrightarrow> R x) \<Longrightarrow> judges P input m R"
  unfolding judges_def by blast

lemma judges_if:
  "(b \<Longrightarrow> judges P input m R) \<Longrightarrow> (\<not> b \<Longrightarrow> judges P input m' R) \<Longrightarrow> judges P input (if b then m else m') R"
  by simp

text \<open>The end of each rule: the current grant verifies, and the signer held the key.\<close>

lemma judges_tail:
  assumes "judges_rows P input vo" "cur \<in> set (gi_grants input)"
    and "B \<longleftrightarrow> backed P input cur \<and> signed_by P input u day ctx payload sig"
  shows "judges P input
     (andThen (vo cur) (\<lambda>v.
        if \<not> gv_valid v then pass (reject r1)
        else case gi_keyHistories input u of
               None \<Rightarrow> pass (reject r2)
             | Some history \<Rightarrow> if signed_on P history day ctx payload sig then pass accept
                              else pass (reject r3)))
     (\<lambda>v. gv_valid v = B)"
proof (rule judges_andThen)
  show "judges P input (vo cur) (\<lambda>v. gv_valid v = backed P input cur)" using assms(1,2) by simp
qed (auto simp: assms(3) signed_by_def split: option.splits)

text \<open>The three-way split on the rows a scan kept.\<close>

lemma judges_current:
  assumes cur: "\<And>c. latest = [c] \<longleftrightarrow> current_at P rows day c" and "set rows \<subseteq> set (gi_grants input)"
    and f: "\<And>c. c \<in> set (gi_grants input) \<Longrightarrow> judges P input (f c) (\<lambda>v. gv_valid v = Q c)"
    and B: "B \<longleftrightarrow> (\<exists>c. current_at P rows day c \<and> Q c)"
  shows "judges P input
     (case latest of [] \<Rightarrow> pass (reject r1) | [c] \<Rightarrow> f c | c # e # cs \<Rightarrow> pass (reject r2))
     (\<lambda>v. gv_valid v = B)"
proof (cases "\<exists>c. latest = [c]")
  case True
  then obtain c where c: "latest = [c]" by blast
  then have only: "\<And>x. current_at P rows day x \<longleftrightarrow> c = x" by (simp flip: cur)
  then have "c \<in> set (gi_grants input)" using current_at_mem(1) [of P rows day c] assms(2) by auto
  from f [OF this] show ?thesis by (simp add: c B only)
next
  case False
  then have "\<not> B" using cur by (auto simp: B)
  with False show ?thesis by (auto split: list.split)
qed

lemma verifySelfDemotion_judges:
  assumes vo: "judges_rows P input vo" and g: "row_ok P input g day sig" "plain_row input g" "isSelfDemotion g"
  shows "judges P input (verifySelfDemotion P input vo g day (ref_of g) (grant_payload input g) sig)
           (\<lambda>v. gv_valid v = backed P input g)"
proof -
  let ?rows = "filter (\<lambda>o'. gr_sortKey o' \<noteq> gr_sortKey g) (grantsBySubject input (gr_subjectUserId g))"
  note iff = backed_demoted_iff [OF g refl]
  show ?thesis
  proof (cases "scan_latest P ''signer's role changed on the same UTC day'' day ?rows (None, [])")
    case (Inl v)
    then have "v = reject ''signer's role changed on the same UTC day''" "\<not> backed P input g"
      unfolding iff using scan_latest_Inl [OF Inl] by blast+
    then show ?thesis by (auto simp: verifySelfDemotion_def Inl)
  next
    case (Inr latest)
    note cur = scan_latest_current [OF Inr]
    show ?thesis
      unfolding verifySelfDemotion_def Inr sum.case
    proof (rule judges_current [OF cur(1)])
      show "set ?rows \<subseteq> set (gi_grants input)" by (auto simp: grantsBySubject_mem)
      show "backed P input g \<longleftrightarrow> (\<exists>c. current_at P ?rows day c \<and> ref_of g = gr_sortKey c
          \<and> gr_grantedRole c \<in> {js ''admin'', js ''ambassador''} \<and> backed P input c
          \<and> signed_by P input (gr_subjectUserId g) day RoleGrant (grant_payload input g) sig)"
        unfolding iff using cur(2) by auto
    qed (intro judges_if judges_tail [OF vo] judges_pass; auto)
  qed
qed

lemma verifyGranted_judges:
  assumes vo: "judges_rows P input vo" and g: "row_ok P input g day sig" "plain_row input g"
    "gr_grantorUserId g \<noteq> gr_subjectUserId g"
  shows "judges P input (verifyGranted P input vo g day (ref_of g) (grant_payload input g) sig)
           (\<lambda>v. gv_valid v = backed P input g)"
proof -
  let ?rows = "grantsBySubject input (gr_grantorUserId g)"
  note iff = backed_granted_iff [OF g]
  have sub: "set ?rows \<subseteq> set (gi_grants input)" by (auto simp: grantsBySubject_mem)
  show ?thesis
    unfolding verifyGranted_def
  proof (rule judges_andThen)
    show "judges P input (scan_grantor P vo day ?rows (None, [])) (scanned P input day ?rows)"
      using scan_grantor_judges [OF vo sub latest_of_Nil settled_simps(1)] by simp
    fix r assume r: "scanned P input day ?rows r"
    show "judges P input
      (case r of
         Inl v \<Rightarrow> pass v
       | Inr [] \<Rightarrow> pass (reject ''grantor held no grant on the signing day'')
       | Inr [current] \<Rightarrow>
           if ref_of g \<noteq> gr_sortKey current
           then pass (reject ''grantorGrantRef is not the grantor's current grant'')
           else if gr_grantedRole current \<noteq> js ''admin''
           then pass (reject ''grantor was not admin on the signing day'')
           else andThen (vo current) (\<lambda>v.
             if \<not> gv_valid v then pass (reject ''grantor's own grant does not verify'')
             else case gi_keyHistories input (gr_grantorUserId g) of
               None \<Rightarrow> pass (reject ''no key history for grantor'')
             | Some history \<Rightarrow>
                 if signed_on P history day RoleGrant (grant_payload input g) sig then pass accept
                 else pass (reject ''signature does not verify under any key the grantor held on that day''))
       | Inr _ \<Rightarrow> pass (reject ''grantor's current grant is ambiguous (same-day tie)''))
      (\<lambda>v. gv_valid v = backed P input g)"
    proof (cases r)
      case (Inl v)
      with r have "\<not> gv_valid v" "\<not> backed P input g" unfolding iff by (auto simp: scanned_def)
      with Inl show ?thesis by auto
    next
      case (Inr latest)
      with r have st: "settled P input day ?rows" and cur: "\<And>c. latest = [c] \<longleftrightarrow> current_at P ?rows day c"
        by (auto simp: scanned_def)
      show ?thesis
        unfolding Inr sum.case
      proof (rule judges_current [OF cur sub])
        show "backed P input g \<longleftrightarrow> (\<exists>c. current_at P ?rows day c \<and> ref_of g = gr_sortKey c
            \<and> gr_grantedRole c = js ''admin'' \<and> backed P input c
            \<and> signed_by P input (gr_grantorUserId g) day RoleGrant (grant_payload input g) sig)"
          unfolding iff using st by auto
      qed (intro judges_if judges_tail [OF vo] judges_pass; auto)
    qed
  qed
qed

lemma designated_iff:
  assumes "\<not> duplicatedDesignations input (de_sortKey d)"
    "parseDesignationKey P (de_sortKey d) = Some \<lparr>pk_subject = de_adminUserId d, pk_day = day\<rparr>"
    "MIN_PERIOD_DAYS \<le> de_periodDays d" "de_periodDays d \<le> MAX_PERIOD_DAYS"
    "decode (de_signature d) = Some sig" "de_adminGrantRef d \<noteq> []"
    "successorDesignationPayload (gi_groupId input) (de_adminUserId d)
       (case de_successorUserId d of None \<Rightarrow> [] | Some u \<Rightarrow> u) (de_periodDays d) (de_sortKey d)
       (de_adminGrantRef d) = Inr payload"
  shows "(\<exists>dday. designated P input d dday) \<longleftrightarrow>
     (\<exists>cur. current_at P (grantsBySubject input (de_adminUserId d)) day cur
        \<and> (\<forall>o'\<in>set (grantsBySubject input (de_adminUserId d)). row_day P o' \<noteq> Some day)
        \<and> de_adminGrantRef d = gr_sortKey cur \<and> gr_grantedRole cur = js ''admin'' \<and> backed P input cur
        \<and> signed_by P input (de_adminUserId d) day SuccessorDesignation payload sig)"
    (is "?L \<longleftrightarrow> ?R")
proof
  assume ?L
  then obtain dday where "designated P input d dday" ..
  then show ?R by (cases rule: designatedE) (use assms in auto)
next
  assume ?R
  with assms show ?L by (elim exE conjE) (rule exI, rule backed_designated.designated)
qed

lemma not_designated:
  assumes "duplicatedDesignations input (de_sortKey d) \<or> parseDesignationKey P (de_sortKey d) = None
    \<or> (\<exists>p. parseDesignationKey P (de_sortKey d) = Some p \<and> pk_subject p \<noteq> de_adminUserId d)
    \<or> de_periodDays d < MIN_PERIOD_DAYS \<or> MAX_PERIOD_DAYS < de_periodDays d
    \<or> decode (de_signature d) = None \<or> de_adminGrantRef d = []"
  shows "\<not> designated P input d dday"
proof
  assume "designated P input d dday"
  then show False by (cases rule: designatedE) (use assms in auto)
qed

lemma safe_period: "MIN_PERIOD_DAYS \<le> n \<Longrightarrow> n \<le> MAX_PERIOD_DAYS \<Longrightarrow> isSafeInteger n"
  by (simp add: isSafeInteger_def MIN_PERIOD_DAYS_def MAX_PERIOD_DAYS_def)

lemma computeDesignation_judges:
  assumes vo: "judges_rows P input vo"
  shows "judges P input (computeDesignation P input vo d) (\<lambda>v. gv_valid v = (\<exists>dday. designated P input d dday))"
proof (cases "duplicatedDesignations input (de_sortKey d) \<or> parseDesignationKey P (de_sortKey d) = None
    \<or> (\<exists>p. parseDesignationKey P (de_sortKey d) = Some p \<and> pk_subject p \<noteq> de_adminUserId d)
    \<or> de_periodDays d < MIN_PERIOD_DAYS \<or> MAX_PERIOD_DAYS < de_periodDays d
    \<or> decode (de_signature d) = None \<or> de_adminGrantRef d = []")
  case True
  obtain k where "computeDesignation P input vo d =
     (if duplicatedDesignations input (de_sortKey d)
      then pass (reject ''duplicate designation sort key'')
      else case parseDesignationKey P (de_sortKey d) of
        None \<Rightarrow> pass (reject ''malformed designation sort key'')
      | Some parsed \<Rightarrow>
          if pk_subject parsed \<noteq> de_adminUserId d
          then pass (reject ''designation sort key does not match admin'')
          else if \<not> isSafeInteger (de_periodDays d) \<or> de_periodDays d < MIN_PERIOD_DAYS
                  \<or> MAX_PERIOD_DAYS < de_periodDays d
          then pass (reject ''designation period is out of range'')
          else case decode (de_signature d) of
            None \<Rightarrow> pass (reject ''malformed designation signature'')
          | Some sig \<Rightarrow>
              if de_adminGrantRef d = []
              then pass (reject ''designation has no admin grant reference'') else k parsed sig)"
    by (rule that) (rule computeDesignation_def)
  with True have "\<exists>r. computeDesignation P input vo d = pass (reject r)" by (auto split: option.split)
  with not_designated [OF True] show ?thesis by (auto intro!: judges_pass)
next
  case False
  then obtain p sig where p: "parseDesignationKey P (de_sortKey d) = Some p" "pk_subject p = de_adminUserId d"
    and sig: "decode (de_signature d) = Some sig" by auto
  have period: "MIN_PERIOD_DAYS \<le> de_periodDays d" "de_periodDays d \<le> MAX_PERIOD_DAYS" using False by auto
  note safe = safe_period [OF period]
  define day where "day = pk_day p"
  have p': "parseDesignationKey P (de_sortKey d) = Some \<lparr>pk_subject = de_adminUserId d, pk_day = day\<rparr>"
    using p by (simp add: day_def)
  define payload where "payload = lengthPrefixedConcat
        [utf8_encode (gi_groupId input), utf8_encode (de_adminUserId d),
         utf8_encode (case de_successorUserId d of None \<Rightarrow> [] | Some u \<Rightarrow> u),
         utf8_encode (js_num (de_periodDays d)), utf8_encode (de_sortKey d),
         utf8_encode (de_adminGrantRef d)]"
  have pl: "successorDesignationPayload (gi_groupId input) (de_adminUserId d)
       (case de_successorUserId d of None \<Rightarrow> [] | Some u \<Rightarrow> u) (de_periodDays d) (de_sortKey d)
       (de_adminGrantRef d) = Inr payload"
    using safe by (simp add: successorDesignationPayload_def payload_def)
  let ?rows = "grantsBySubject input (de_adminUserId d)"
  have sub: "set ?rows \<subseteq> set (gi_grants input)" by (auto simp: grantsBySubject_mem)
  have iff: "(\<exists>dday. designated P input d dday) \<longleftrightarrow>
     (\<exists>cur. current_at P ?rows day cur \<and> (\<forall>o'\<in>set ?rows. row_day P o' \<noteq> Some day)
        \<and> de_adminGrantRef d = gr_sortKey cur \<and> gr_grantedRole cur = js ''admin'' \<and> backed P input cur
        \<and> signed_by P input (de_adminUserId d) day SuccessorDesignation payload sig)"
    using False p' period sig pl by (intro designated_iff) auto
  have guards: "\<not> duplicatedDesignations input (de_sortKey d)" "de_adminGrantRef d \<noteq> []"
    "\<not> (\<not> isSafeInteger (de_periodDays d) \<or> de_periodDays d < MIN_PERIOD_DAYS \<or> MAX_PERIOD_DAYS < de_periodDays d)"
    using False safe by auto
  let ?scan = "scan_latest P ''admin's role changed on the designation's day'' day ?rows (None, [])"
  have unfold: "computeDesignation P input vo d =
    (case ?scan of
       Inl v \<Rightarrow> pass v
     | Inr latest \<Rightarrow>
         (case latest of
            [] \<Rightarrow> pass (reject ''admin held no grant on the designation day'')
          | [current] \<Rightarrow>
              if de_adminGrantRef d \<noteq> gr_sortKey current
              then pass (reject ''adminGrantRef is not the admin's current grant'')
              else if gr_grantedRole current \<noteq> js ''admin''
              then pass (reject ''designating admin was not admin that day'')
              else andThen (vo current) (\<lambda>v.
                if \<not> gv_valid v then pass (reject ''admin's own grant does not verify'')
                else case gi_keyHistories input (de_adminUserId d) of
                  None \<Rightarrow> pass (reject ''no key history for the designating admin'')
                | Some history \<Rightarrow>
                    if signed_on P history day SuccessorDesignation payload sig then pass accept
                    else pass (reject ''designation signature does not verify under any key the admin held that day''))
          | c # e # cs \<Rightarrow> pass (reject ''admin's current grant is ambiguous (same-day tie)'')))"
    unfolding computeDesignation_def by (simp only: guards p' sig pl if_False if_True option.case
        ParsedKey.select_convs simp_thms sum.case)
  show ?thesis
  proof (cases ?scan)
    case (Inl v)
    then have "v = reject ''admin's role changed on the designation's day''" "\<not> (\<exists>dday. designated P input d dday)"
      unfolding iff using scan_latest_Inl [OF Inl] by blast+
    then show ?thesis unfolding unfold by (auto simp: Inl)
  next
    case (Inr latest)
    note cur = scan_latest_current [OF Inr]
    show ?thesis
      unfolding unfold Inr sum.case
    proof (rule judges_current [OF cur(1) sub])
      show "(\<exists>dday. designated P input d dday) \<longleftrightarrow> (\<exists>c. current_at P ?rows day c
          \<and> de_adminGrantRef d = gr_sortKey c \<and> gr_grantedRole c = js ''admin'' \<and> backed P input c
          \<and> signed_by P input (de_adminUserId d) day SuccessorDesignation payload sig)"
        unfolding iff using cur(2) by auto
    qed (intro judges_if judges_tail [OF vo] judges_pass; auto)
  qed
qed

lemma verifyDesignation_judges:
  assumes vo: "judges_rows P input vo" and d: "d \<in> set (gi_designations input)"
  shows "judges P input (verifyDesignation P input vo d) (\<lambda>v. gv_valid v = (\<exists>dday. designated P input d dday))"
  unfolding judges_def
proof (intro allI impI)
  fix s v s' assume s: "sound_caches P input s" and run: "verifyDesignation P input vo d s = Some (v, s')"
  show "sound_caches P input s' \<and> gv_valid v = (\<exists>dday. designated P input d dday)"
  proof (cases "ca_designationVerdicts s (de_sortKey d)")
    case (Some w)
    with run s d show ?thesis by (auto simp: verifyDesignation_def sound_caches_def)
  next
    case None
    with run obtain t where t: "computeDesignation P input vo d s = Some (v, t)"
      and s': "s' = t\<lparr>ca_designationVerdicts := (ca_designationVerdicts t)(de_sortKey d \<mapsto> v)\<rparr>"
      by (auto simp: verifyDesignation_def andThen_def split: option.splits)
    have v: "gv_valid v = (\<exists>dday. designated P input d dday)" and st: "sound_caches P input t"
      using computeDesignation_judges [OF vo, of d] s t unfolding judges_def by blast+
    have "gv_valid v = (\<exists>dday. designated P input e dday)"
      if "e \<in> set (gi_designations input)" "de_sortKey e = de_sortKey d" for e
    proof (cases "duplicatedDesignations input (de_sortKey d)")
      case True
      then show ?thesis using not_designated [of input d] not_designated [of input e] v that by auto
    next
      case False
      then show ?thesis using unique_designation [OF _ d that] v by simp
    qed
    then show ?thesis using st v by (auto simp: s' sound_caches_def)
  qed
qed

lemma designated_day:
  "designated P input d dday \<Longrightarrow> parseDesignationKey P (de_sortKey d) = Some \<lparr>pk_subject = de_adminUserId d, pk_day = dday\<rparr>"
  by (erule designatedE) simp

lemma backed_claimed_iff:
  assumes g: "row_ok P input g day sig" "via g = Some k" and role: "gr_grantedRole g = js ''admin''"
    and cite: "citing input k \<le> 1" and d: "designationByKey input k = Some d" and des: "designated P input d dday"
  shows "backed P input g \<longleftrightarrow>
     de_successorUserId d = Some (gr_subjectUserId g) \<and> gr_grantorUserId g = de_adminUserId d
     \<and> ref_of g = de_adminGrantRef d \<and> dday + de_periodDays d * DAY_MS \<le> day
     \<and> (\<forall>now. gi_now input = Some now \<longrightarrow> day \<le> now + CLAIM_DAY_SKEW_TOLERANCE_MS)
     \<and> (\<forall>e\<in>set (designationsByAdmin input (de_adminUserId d)). de_sortKey e \<noteq> k \<longrightarrow>
          \<not> in_span (parseDesignationKey P (de_sortKey e)) dday day)
     \<and> (\<forall>o'\<in>set (grantsBySubject input (de_adminUserId d)).
          \<not> in_span (parseSortKey P (gr_sortKey o')) dday day)
     \<and> signed_by P input (gr_subjectUserId g) day SuccessorClaim
          (successorClaimPayload (gi_groupId input) (gr_subjectUserId g) k (gr_sortKey g)) sig"
    (is "_ \<longleftrightarrow> ?R")
proof
  assume "backed P input g"
  then show ?R
  proof (cases rule: backed.cases)
    case (claimed day' sig' k' d' dday')
    then have eq: "k' = k" "d' = d" "day' = day" "sig' = sig"
      using g d row_ok_det by fastforce+
    then have "dday' = dday" using designated_day [OF des] designated_day claimed by fastforce
    with eq claimed show ?R by blast
  qed (use g in \<open>simp_all add: plain_row_def\<close>)
next
  assume ?R
  with g role cite d des show "backed P input g" by (elim conjE) (rule backed_designated.claimed)
qed

lemma claim_rest_valid:
  assumes g: "row_ok P input g day sig" "via g = Some k" "pk_day parsed = day"
    and role: "gr_grantedRole g = js ''admin''"
    and cite: "citing input k \<le> 1" and d: "designationByKey input k = Some d" and des: "designated P input d dday"
  shows "\<exists>v. claim_rest P input g parsed sig d k = Some v \<and> gv_valid v = backed P input g"
proof -
  have k: "de_sortKey d = k" using designationByKey_mem [OF d] by simp
  note iff = backed_claimed_iff [OF g(1,2) role cite d des]
  have parse: "parseDesignationKey P k = Some \<lparr>pk_subject = de_adminUserId d, pk_day = dday\<rparr>"
    using designated_day [OF des] k by simp
  show ?thesis
    unfolding iff claim_rest_def k parse g(3) signed_by_def option.case ParsedKey.select_convs
    by (simp split: option.split add: list_ex_iff not_less) (auto simp: algebra_simps)
qed

lemma verifyClaim_judges:
  assumes vo: "judges_rows P input vo" and g: "row_ok P input g (pk_day parsed) sig" "via g = Some k"
  shows "judges P input (verifyClaim P input vo g k parsed sig) (\<lambda>v. gv_valid v = backed P input g)"
proof (cases "gr_grantedRole g = js ''admin'' \<and> citing input k \<le> 1 \<and> designationByKey input k \<noteq> None")
  case False
  have "\<not> backed P input g"
    by (rule notI, erule backedE) (use False g in \<open>auto simp: plain_row_def\<close>)
  with False show ?thesis by (auto simp: verifyClaim_def not_less intro!: judges_pass)
next
  case True
  then obtain d where d: "designationByKey input k = Some d" by blast
  then have mem: "d \<in> set (gi_designations input)" using designationByKey_mem by blast
  have "judges P input (andThen (verifyDesignation P input vo d) (\<lambda>designation.
            if \<not> gv_valid designation
            then pass \<lparr>gv_valid = False, gv_reason = Some (js ''designation does not verify ('' @
                   (case gv_reason designation of None \<Rightarrow> js ''undefined'' | Some r \<Rightarrow> r) @ js '')'')\<rparr>
            else (\<lambda>s. case claim_rest P input g parsed sig d k of
                         None \<Rightarrow> None
                       | Some v \<Rightarrow> Some (v, s)))) (\<lambda>v. gv_valid v = backed P input g)"
  proof (rule judges_andThen [OF verifyDesignation_judges [OF vo mem]], rule judges_if)
    fix v assume v: "gv_valid v = (\<exists>dday. designated P input d dday)" "\<not> gv_valid v"
    have "\<not> backed P input g"
    proof
      assume "backed P input g"
      then show False by (cases rule: backedE) (use g d v in \<open>auto simp: plain_row_def\<close>)
    qed
    then show "judges P input (pass \<lparr>gv_valid = False, gv_reason = Some (js ''designation does not verify ('' @
                   (case gv_reason v of None \<Rightarrow> js ''undefined'' | Some r \<Rightarrow> r) @ js '')'')\<rparr>)
                 (\<lambda>v. gv_valid v = backed P input g)" by (auto intro!: judges_pass)
  next
    fix v assume "gv_valid v = (\<exists>dday. designated P input d dday)" "\<not> \<not> gv_valid v"
    then obtain dday where "designated P input d dday" by blast
    with claim_rest_valid [OF g refl, of d dday] True d
    obtain w where "claim_rest P input g parsed sig d k = Some w" "gv_valid w = backed P input g" by blast
    then show "judges P input (\<lambda>s. case claim_rest P input g parsed sig d k of None \<Rightarrow> None | Some v \<Rightarrow> Some (v, s))
                 (\<lambda>v. gv_valid v = backed P input g)" by (simp add: judges_def)
  qed
  with True d show ?thesis by (simp add: verifyClaim_def)
qed

lemma verifyRoot_valid:
  assumes "row_ok P input g day sig" "via g = None" "gr_sortKey g = an_rootGrantSortKey (gi_anchor input)"
  shows "gv_valid (verifyRoot P input g day (ref_of g) (grant_payload input g) sig) = backed P input g"
proof -
  have "anchorValid P input \<Longrightarrow> \<not> pinMismatch input" by (simp add: anchorValid_def)
  then show ?thesis
    unfolding backed_root_iff [OF assms] verifyRoot_def Let_def
    by (auto simp: list_ex_iff split: option.split)
qed

section \<open>Every verdict is the rule's\<close>

lemma not_row_ok: "(\<And>day sig. \<not> row_ok P input g day sig) \<Longrightarrow> \<not> backed P input g"
  by (rule notI, erule backedE) blast+

lemma compute_judges:
  assumes vo: "judges_rows P input vo"
  shows "judges P input (compute P input vo g) (\<lambda>v. gv_valid v = backed P input g)"
proof (cases "\<exists>day sig. row_ok P input g day sig")
  case False
  obtain k where "compute P input vo g =
     (if duplicated input (gr_sortKey g) then pass (reject ''duplicate grant sort key'')
      else case parseSortKey P (gr_sortKey g) of
        None \<Rightarrow> pass (reject ''malformed sort key'')
      | Some parsed \<Rightarrow>
          if pk_subject parsed \<noteq> gr_subjectUserId g
          then pass (reject ''sort key does not match subject'')
          else if gr_grantedRole g \<notin> set ROLES then pass (reject ''unknown role'')
          else case decode (gr_signature g) of
            None \<Rightarrow> pass (reject ''malformed signature'')
          | Some sig \<Rightarrow> k parsed sig)"
    by (rule that) (rule compute_def)
  moreover have "\<not> backed P input g" using False by (intro not_row_ok) auto
  moreover have "\<exists>r. compute P input vo g = pass (reject r)"
  proof -
    note calculation(1)
    moreover have "duplicated input (gr_sortKey g) \<or> parseSortKey P (gr_sortKey g) = None
        \<or> (\<exists>p. parseSortKey P (gr_sortKey g) = Some p \<and> pk_subject p \<noteq> gr_subjectUserId g)
        \<or> gr_grantedRole g \<notin> set ROLES \<or> decode (gr_signature g) = None"
    proof (rule ccontr)
      assume a: "\<not> ?thesis"
      then obtain p sig where "parseSortKey P (gr_sortKey g) = Some p" "pk_subject p = gr_subjectUserId g"
        "decode (gr_signature g) = Some sig" by auto
      with a have "row_ok P input g (pk_day p) sig" by (simp add: row_ok_def)
      with False show False by blast
    qed
    ultimately show ?thesis by (auto split: option.split)
  qed
  ultimately show ?thesis by (auto intro!: judges_pass)
next
  case True
  then obtain day sig where ok: "row_ok P input g day sig" by blast
  let ?p = "\<lparr>pk_subject = gr_subjectUserId g, pk_day = day\<rparr>"
  let ?pl = "grant_payload input g"
  have unfold: "compute P input vo g =
     (case via g of
        Some k \<Rightarrow> verifyClaim P input vo g k ?p sig
      | None \<Rightarrow>
          if gr_sortKey g = an_rootGrantSortKey (gi_anchor input)
          then pass (verifyRoot P input g day (ref_of g) ?pl sig)
          else if ref_of g = [] then pass (reject ''missing grantorGrantRef'')
          else if gr_grantorUserId g = gr_subjectUserId g
          then (if gr_grantedRole g \<noteq> js ''member'' then pass (reject ''non-root self-grant'')
                else verifySelfDemotion P input vo g day (ref_of g) ?pl sig)
          else verifyGranted P input vo g day (ref_of g) ?pl sig)"
    using ok unfolding row_ok_def compute_def Let_def grant_payload_def
    by (simp only: if_False option.case ParsedKey.select_convs simp_thms)
  show ?thesis
  proof (cases "via g")
    case (Some k)
    have "judges P input (verifyClaim P input vo g k ?p sig) (\<lambda>v. gv_valid v = backed P input g)"
      using ok Some by (intro verifyClaim_judges [OF vo]) simp_all
    with Some show ?thesis by (simp add: unfold)
  next
    case None
    consider "gr_sortKey g = an_rootGrantSortKey (gi_anchor input)"
      | "gr_sortKey g \<noteq> an_rootGrantSortKey (gi_anchor input)" "ref_of g = []"
      | "plain_row input g" "gr_grantorUserId g = gr_subjectUserId g" "gr_grantedRole g \<noteq> js ''member''"
      | "plain_row input g" "isSelfDemotion g"
      | "plain_row input g" "gr_grantorUserId g \<noteq> gr_subjectUserId g"
      using None by (auto simp: plain_row_def isSelfDemotion_def)
    then show ?thesis
    proof cases
      case 1
      then show ?thesis using verifyRoot_valid [OF ok None] None by (auto simp: unfold intro!: judges_pass)
    next
      case 2
      have "\<not> backed P input g"
        by (rule notI, erule backedE) (use 2 None in \<open>auto simp: plain_row_def\<close>)
      with 2 None show ?thesis by (auto simp: unfold intro!: judges_pass)
    next
      case 3
      have "\<not> backed P input g"
        by (rule notI, erule backedE) (use 3 in \<open>auto simp: plain_row_def isSelfDemotion_def\<close>)
      with 3 None show ?thesis by (auto simp: unfold plain_row_def intro!: judges_pass)
    next
      case 4
      then show ?thesis using verifySelfDemotion_judges [OF vo ok] None
        by (auto simp: unfold plain_row_def isSelfDemotion_def)
    next
      case 5
      then show ?thesis using verifyGranted_judges [OF vo ok] None by (auto simp: unfold plain_row_def)
    qed
  qed
qed

lemma verifyOne_judges:
  assumes "g \<in> set (gi_grants input)"
  shows "judges P input (verifyOne n P input g) (\<lambda>v. gv_valid v = backed P input g)"
  using assms
proof (induction n arbitrary: g)
  case 0
  then show ?case by (simp add: judges_def)
next
  case (Suc n)
  have vo: "judges_rows P input (verifyOne n P input)" using Suc.IH by blast
  show ?case
    unfolding judges_def
  proof (intro allI impI)
    fix s v s' assume s: "sound_caches P input s" and run: "verifyOne (Suc n) P input g s = Some (v, s')"
    show "sound_caches P input s' \<and> gv_valid v = backed P input g"
    proof (cases "ca_verdicts s (gr_sortKey g)")
      case (Some w)
      with run s Suc.prems show ?thesis by (auto simp: sound_caches_def)
    next
      case None
      with run obtain t where t: "compute P input (verifyOne n P input) g s = Some (v, t)"
        and s': "s' = t\<lparr>ca_verdicts := (ca_verdicts t)(gr_sortKey g \<mapsto> v)\<rparr>"
        by (auto simp: andThen_def split: option.splits)
      have v: "gv_valid v = backed P input g" and st: "sound_caches P input t"
        using compute_judges [OF vo, of g] s t unfolding judges_def by blast+
      have "gv_valid v = backed P input h"
        if "h \<in> set (gi_grants input)" "gr_sortKey h = gr_sortKey g" for h
      proof (cases "duplicated input (gr_sortKey g)")
        case True
        then have "\<not> backed P input g" "\<not> backed P input h"
          using that(2) by (auto intro!: not_row_ok simp: row_ok_def)
        with v show ?thesis by simp
      next
        case False
        then show ?thesis using unique_row [OF _ Suc.prems that] v by simp
      qed
      then show ?thesis using st v by (auto simp: s' sound_caches_def)
    qed
  qed
qed

lemma verifyAll_sound:
  assumes "verifyAll n P input gs s = Some s'" "set gs \<subseteq> set (gi_grants input)" "sound_caches P input s"
  shows "sound_caches P input s'"
  using assms
proof (induction gs arbitrary: s)
  case (Cons g gs)
  then obtain v t where t: "verifyOne n P input g s = Some (v, t)" "verifyAll n P input gs t = Some s'"
    by (auto split: option.splits)
  moreover have "judges P input (verifyOne n P input g) (\<lambda>v. gv_valid v = backed P input g)"
    using Cons.prems(2) by (intro verifyOne_judges) simp
  ultimately have "sound_caches P input t" using Cons.prems(3) unfolding judges_def by blast
  with Cons t(2) show ?case by simp
qed simp

end
