(* ===== verification/Grant_Chain_Run.thy ===== *)
theory Grant_Chain_Run
  imports Grant_Chain_Proofs
begin

text \<open>
  Whether a run of grant-chain.ts returns, and what its result says: enough fuel for every
  history whose claims are dated after their designations, the two claim rows on which the
  recursion never ends, the path from a verified row back to the root, and the roles
  \<open>checkMemberRole\<close> confirms.
\<close>

section \<open>Enough fuel\<close>

definition returns :: "prims \<Rightarrow> GrantChainInput \<Rightarrow> 'a judge \<Rightarrow> bool" where
  "returns P input m \<longleftrightarrow> (\<forall>s. sound_caches P input s \<longrightarrow> m s \<noteq> None)"

lemma returns_pass [simp, intro]: "returns P input (pass x)"
  by (simp add: returns_def pass_def)

lemma returns_andThen:
  assumes "returns P input m" "judges P input m Q" "\<And>x. Q x \<Longrightarrow> returns P input (f x)"
  shows "returns P input (andThen m f)"
  unfolding returns_def
proof (intro allI impI)
  fix s assume s: "sound_caches P input s"
  with assms(1) obtain x t where x: "m s = Some (x, t)" unfolding returns_def by fastforce
  with assms(2) s have "sound_caches P input t" "Q x" unfolding judges_def by blast+
  with assms(3) x show "andThen m f s \<noteq> None" by (simp add: andThen_def returns_def)
qed

lemma returns_if:
  "(b \<Longrightarrow> returns P input m) \<Longrightarrow> (\<not> b \<Longrightarrow> returns P input m') \<Longrightarrow> returns P input (if b then m else m')"
  by simp

text \<open>How many distinct days of the history precede a day, and the depth a row needs.\<close>

definition row_days :: "prims \<Rightarrow> GrantChainInput \<Rightarrow> int set" where
  "row_days P input = {d. \<exists>g\<in>set (gi_grants input). row_day P g = Some d}"

definition rank :: "prims \<Rightarrow> GrantChainInput \<Rightarrow> int \<Rightarrow> nat" where
  "rank P input d = card {e \<in> row_days P input. e < d}"

definition depth :: "prims \<Rightarrow> GrantChainInput \<Rightarrow> GrantRecord \<Rightarrow> nat" where
  "depth P input g =
     (case row_day P g of
        None \<Rightarrow> 1
      | Some d \<Rightarrow> 2 * rank P input d + (if isSelfDemotion g then 1 else 2))"

lemma row_days_image:
  "row_days P input = the ` (row_day P ` set (gi_grants input) - {None})"
  by (force simp: row_days_def image_iff)

lemma finite_row_days [simp]: "finite (row_days P input)"
  by (simp add: row_days_image)

lemma card_row_days: "card (row_days P input) \<le> length (gi_grants input)"
proof -
  have "card (row_days P input) \<le> card (row_day P ` set (gi_grants input) - {None})"
    unfolding row_days_image by (rule card_image_le) simp
  also have "\<dots> \<le> card (row_day P ` set (gi_grants input))" by (rule card_mono) auto
  also have "\<dots> \<le> card (set (gi_grants input))" by (rule card_image_le) simp
  finally show ?thesis using card_length le_trans by blast
qed

lemma rank_less:
  assumes "e \<in> row_days P input" "e < d"
  shows "rank P input e < rank P input d"
  unfolding rank_def by (rule psubset_card_mono) (use assms in auto)

lemma rank_mono: "e \<le> d \<Longrightarrow> rank P input e \<le> rank P input d"
  unfolding rank_def by (rule card_mono) auto

lemma depth_earlier:
  assumes "cur \<in> set (gi_grants input)" "row_day P cur = Some e" "e < d"
  shows "depth P input cur \<le> 2 * rank P input d"
proof -
  have "rank P input e < rank P input d" using assms by (intro rank_less) (auto simp: row_days_def)
  with assms(2) show ?thesis by (simp add: depth_def)
qed

lemma depth_bound:
  assumes "g \<in> set (gi_grants input)"
  shows "depth P input g \<le> 2 * length (gi_grants input)"
proof (cases "row_day P g")
  case None
  have "0 < length (gi_grants input)" using assms by (cases "gi_grants input") auto
  with None show ?thesis by (simp add: depth_def Suc_le_eq)
next
  case (Some d)
  then have "d \<in> row_days P input" using assms by (auto simp: row_days_def)
  then have "rank P input d < card (row_days P input)"
    unfolding rank_def by (intro psubset_card_mono) auto
  with card_row_days [of P input] Some show ?thesis by (simp add: depth_def)
qed

text \<open>The condition under which the days of the recursion decrease.\<close>

definition claim_in_order :: "prims \<Rightarrow> GrantChainInput \<Rightarrow> GrantRecord \<Rightarrow> bool" where
  "claim_in_order P input g \<longleftrightarrow>
     (case via g of
        None \<Rightarrow> True
      | Some k \<Rightarrow>
          (case designationByKey input k of
             None \<Rightarrow> True
           | Some d \<Rightarrow>
               (case (parseSortKey P (gr_sortKey g), parseDesignationKey P (de_sortKey d)) of
                  (Some p, Some q) \<Rightarrow> pk_day q \<le> pk_day p
                | _ \<Rightarrow> True)))"

definition claims_in_order :: "prims \<Rightarrow> GrantChainInput \<Rightarrow> bool" where
  "claims_in_order P input \<longleftrightarrow> list_all (claim_in_order P input) (gi_grants input)"

abbreviation returns_below ::
  "prims \<Rightarrow> GrantChainInput \<Rightarrow> (GrantRecord \<Rightarrow> GrantVerdict judge) \<Rightarrow> nat \<Rightarrow> bool" where
  "returns_below P input vo n \<equiv> \<forall>g\<in>set (gi_grants input). depth P input g \<le> n \<longrightarrow> returns P input (vo g)"

lemma scan_grantor_returns:
  assumes vo: "judges_rows P input vo" "returns_below P input vo n" and n: "2 * rank P input day + 1 \<le> n"
    and "set rows \<subseteq> set (gi_grants input)"
  shows "returns P input (scan_grantor P vo day rows acc)"
  using assms(4)
proof (induction rows arbitrary: acc)
  case (Cons g rows)
  then have rest: "\<And>acc. returns P input (scan_grantor P vo day rows acc)" by simp
  show ?case
  proof (cases "parseSortKey P (gr_sortKey g)")
    case (Some p)
    show ?thesis
    proof (cases "pk_day p = day \<and> isSelfDemotion g")
      case True
      with Some have "depth P input g \<le> n" using n by (simp add: depth_def row_day_def)
      then have "returns P input (vo g)" "judges P input (vo g) (\<lambda>v. gv_valid v = backed P input g)"
        using vo Cons.prems by auto
      then have "returns P input (andThen (vo g) (\<lambda>v. if gv_valid v then scan_grantor P vo day rows acc
             else pass (Inl (reject ''grantor's role changed on the same UTC day''))))"
        by (rule returns_andThen) (simp add: rest)
      with True Some show ?thesis by simp
    qed (use Some rest in simp)
  qed (use rest in simp)
qed simp

lemma tail_returns:
  assumes "judges_rows P input vo" "cur \<in> set (gi_grants input)" "returns P input (vo cur)"
    "\<And>v. returns P input (f v)"
  shows "returns P input (andThen (vo cur) f)"
  using assms by (intro returns_andThen [where m = "vo cur"]) auto

text \<open>The three-way split on what a scan kept: the single row is an earlier one of the history.\<close>

lemma current_returns:
  assumes "\<And>c. latest = [c] \<Longrightarrow> current_at P rows day c" "set rows \<subseteq> set (gi_grants input)"
    and n: "returns_below P input vo n" "2 * rank P input day \<le> n"
    and f: "\<And>c. c \<in> set (gi_grants input) \<Longrightarrow> returns P input (vo c) \<Longrightarrow> returns P input (f c)"
  shows "returns P input
     (case latest of [] \<Rightarrow> pass (reject r1) | [c] \<Rightarrow> f c | c # e # cs \<Rightarrow> pass (reject r2))"
proof (cases "\<exists>c. latest = [c]")
  case True
  then obtain c where c: "latest = [c]" by blast
  then have at: "current_at P rows day c" using assms(1) by simp
  then have mem: "c \<in> set (gi_grants input)" using assms(2) current_at_mem by blast
  from current_at_mem(2) [OF at] obtain l where "l < day" "row_day P c = Some l" by blast
  then have "depth P input c \<le> n" using depth_earlier [OF mem] n(2) le_trans by blast
  then have "returns P input (vo c)" using n(1) mem by blast
  from f [OF mem this] c show ?thesis by simp
qed (auto split: list.split)

lemma verifySelfDemotion_returns:
  assumes vo: "judges_rows P input vo" "returns_below P input vo n" "2 * rank P input day \<le> n"
  shows "returns P input (verifySelfDemotion P input vo g day ref payload sig)"
proof -
  let ?rows = "filter (\<lambda>o'. gr_sortKey o' \<noteq> gr_sortKey g) (grantsBySubject input (gr_subjectUserId g))"
  show ?thesis
  proof (cases "scan_latest P ''signer's role changed on the same UTC day'' day ?rows (None, [])")
    case (Inr latest)
    show ?thesis
      unfolding verifySelfDemotion_def Inr sum.case
    proof (rule current_returns [OF _ _ vo(2,3)])
      show "current_at P ?rows day c" if "latest = [c]" for c
        using scan_latest_current(1) [OF Inr, of c] that by blast
      show "set ?rows \<subseteq> set (gi_grants input)" by (auto simp: grantsBySubject_mem)
    qed (intro returns_if tail_returns [OF vo(1)] returns_pass; auto split: option.split)
  qed (simp add: verifySelfDemotion_def)
qed

lemma verifyGranted_returns:
  assumes vo: "judges_rows P input vo" "returns_below P input vo n" "2 * rank P input day + 1 \<le> n"
  shows "returns P input (verifyGranted P input vo g day ref payload sig)"
proof -
  let ?rows = "grantsBySubject input (gr_grantorUserId g)"
  have sub: "set ?rows \<subseteq> set (gi_grants input)" by (auto simp: grantsBySubject_mem)
  have n: "2 * rank P input day \<le> n" using vo(3) by simp
  show ?thesis
    unfolding verifyGranted_def
  proof (rule returns_andThen [OF scan_grantor_returns [OF vo sub]])
    show "judges P input (scan_grantor P vo day ?rows (None, [])) (scanned P input day ?rows)"
      using scan_grantor_judges [OF vo(1) sub latest_of_Nil settled_simps(1)] by simp
    fix r assume r: "scanned P input day ?rows r"
    show "returns P input
      (case r of
         Inl v \<Rightarrow> pass v
       | Inr [] \<Rightarrow> pass (reject ''grantor held no grant on the signing day'')
       | Inr [current] \<Rightarrow>
           if ref \<noteq> gr_sortKey current
           then pass (reject ''grantorGrantRef is not the grantor's current grant'')
           else if gr_grantedRole current \<noteq> js ''admin''
           then pass (reject ''grantor was not admin on the signing day'')
           else andThen (vo current) (\<lambda>v.
             if \<not> gv_valid v then pass (reject ''grantor's own grant does not verify'')
             else case gi_keyHistories input (gr_grantorUserId g) of
               None \<Rightarrow> pass (reject ''no key history for grantor'')
             | Some history \<Rightarrow>
                 if signed_on P history day RoleGrant payload sig then pass accept
                 else pass (reject ''signature does not verify under any key the grantor held on that day''))
       | Inr _ \<Rightarrow> pass (reject ''grantor's current grant is ambiguous (same-day tie)''))"
    proof (cases r)
      case (Inr latest)
      with r have cur: "\<And>c. latest = [c] \<Longrightarrow> current_at P ?rows day c" by (auto simp: scanned_def)
      show ?thesis
        unfolding Inr sum.case
        by (rule current_returns [OF cur sub vo(2) n]; (intro returns_if tail_returns [OF vo(1)] returns_pass)?)
          (auto split: option.split)
    qed simp
  qed
qed

lemma computeDesignation_returns:
  assumes vo: "judges_rows P input vo" "returns_below P input vo n"
    and n: "\<And>p. parseDesignationKey P (de_sortKey d) = Some p \<Longrightarrow> 2 * rank P input (pk_day p) \<le> n"
  shows "returns P input (computeDesignation P input vo d)"
proof -
  let ?rows = "grantsBySubject input (de_adminUserId d)"
  have sub: "set ?rows \<subseteq> set (gi_grants input)" by (auto simp: grantsBySubject_mem)
  have scan: "returns P input
      (case scan_latest P r day ?rows (None, []) of
         Inl v \<Rightarrow> pass v
       | Inr latest \<Rightarrow>
           (case latest of [] \<Rightarrow> pass (reject r1) | [c] \<Rightarrow> f c | c # e # cs \<Rightarrow> pass (reject r2)))"
    if "2 * rank P input day \<le> n" "\<And>c. c \<in> set (gi_grants input) \<Longrightarrow> returns P input (vo c) \<Longrightarrow> returns P input (f c)"
    for r day r1 f r2
  proof (cases "scan_latest P r day ?rows (None, [])")
    case (Inr latest)
    have at: "current_at P ?rows day c" if "latest = [c]" for c
      using scan_latest_current(1) [OF Inr, of c] that by blast
    show ?thesis unfolding Inr sum.case by (rule current_returns [OF at sub vo(2) that])
  qed simp
  have payload: "returns P input (case successorDesignationPayload a b c (de_periodDays d) e f of
        Inl _ \<Rightarrow> \<lambda>s. None | Inr payload \<Rightarrow> g payload)"
    if "isSafeInteger (de_periodDays d)" "\<And>payload. returns P input (g payload)" for a b c e f g
    using that by (simp add: successorDesignationPayload_def)
  show ?thesis
    unfolding computeDesignation_def
    by (intro returns_if returns_pass scan n tail_returns [OF vo(1)] | assumption
        | split option.split; safe | rule payload | simp)+
qed

lemma verifyDesignation_returns:
  assumes "returns P input (computeDesignation P input vo d)"
  shows "returns P input (verifyDesignation P input vo d)"
  using assms by (fastforce simp: returns_def verifyDesignation_def andThen_def split: option.split)

lemma verifyClaim_returns:
  assumes vo: "judges_rows P input vo" "returns_below P input vo n"
    and g: "row_ok P input g day sig" "via g = Some k" "pk_day parsed = day" "claim_in_order P input g"
    and n: "2 * rank P input day \<le> n"
  shows "returns P input (verifyClaim P input vo g k parsed sig)"
proof (cases "gr_grantedRole g = js ''admin'' \<and> citing input k \<le> 1 \<and> designationByKey input k \<noteq> None")
  case True
  then obtain d where d: "designationByKey input k = Some d" by blast
  then have mem: "d \<in> set (gi_designations input)" using designationByKey_mem by blast
  have "returns P input (computeDesignation P input vo d)"
  proof (rule computeDesignation_returns [OF vo])
    fix q assume "parseDesignationKey P (de_sortKey d) = Some q"
    with g d have "pk_day q \<le> day" by (simp add: claim_in_order_def row_ok_def)
    then have "rank P input (pk_day q) \<le> rank P input day" by (rule rank_mono)
    with n show "2 * rank P input (pk_day q) \<le> n" by simp
  qed
  then have "returns P input (verifyDesignation P input vo d)" by (rule verifyDesignation_returns)
  then have "returns P input (andThen (verifyDesignation P input vo d) (\<lambda>designation.
            if \<not> gv_valid designation
            then pass \<lparr>gv_valid = False, gv_reason = Some (js ''designation does not verify ('' @
                   (case gv_reason designation of None \<Rightarrow> js ''undefined'' | Some r \<Rightarrow> r) @ js '')'')\<rparr>
            else (\<lambda>s. case claim_rest P input g parsed sig d k of
                         None \<Rightarrow> None
                       | Some v \<Rightarrow> Some (v, s))))"
  proof (rule returns_andThen [OF _ verifyDesignation_judges [OF vo(1) mem]], intro returns_if returns_pass)
    fix v assume "gv_valid v = (\<exists>dday. designated P input d dday)" "\<not> \<not> gv_valid v"
    then obtain dday where "designated P input d dday" by blast
    with claim_rest_valid [OF g(1-3), of d dday] True d
    obtain w where "claim_rest P input g parsed sig d k = Some w" by blast
    then show "returns P input (\<lambda>s. case claim_rest P input g parsed sig d k of None \<Rightarrow> None | Some v \<Rightarrow> Some (v, s))"
      by (simp add: returns_def)
  qed
  with True d show ?thesis by (simp add: verifyClaim_def)
qed (auto simp: verifyClaim_def not_less split: option.split)

lemma compute_returns:
  assumes vo: "judges_rows P input vo" "returns_below P input vo n"
    and g: "claim_in_order P input g" "depth P input g \<le> Suc n"
  shows "returns P input (compute P input vo g)"
proof (cases "\<exists>day sig. row_ok P input g day sig")
  case False
  show ?thesis
    unfolding compute_def
  proof (intro returns_if returns_pass, split option.split, intro conjI allI impI returns_if returns_pass,
      split option.split, intro conjI allI impI returns_pass)
    fix p sig
    assume "\<not> duplicated input (gr_sortKey g)" "parseSortKey P (gr_sortKey g) = Some p"
      "\<not> pk_subject p \<noteq> gr_subjectUserId g" "\<not> gr_grantedRole g \<notin> set ROLES"
      "decode (gr_signature g) = Some sig"
    then have "row_ok P input g (pk_day p) sig" by (simp add: row_ok_def)
    with False show "returns P input
       (case via g of
          None \<Rightarrow>
            (let ref = ref_of g;
                 payload = roleGrantPayload (gi_groupId input) (gr_subjectUserId g)
                             (gr_grantedRole g) (gr_sortKey g) ref
             in if gr_sortKey g = an_rootGrantSortKey (gi_anchor input)
                then pass (verifyRoot P input g (pk_day p) ref payload sig)
                else if ref = [] then pass (reject ''missing grantorGrantRef'')
                else if gr_grantorUserId g = gr_subjectUserId g
                then (if gr_grantedRole g \<noteq> js ''member'' then pass (reject ''non-root self-grant'')
                      else verifySelfDemotion P input vo g (pk_day p) ref payload sig)
                else verifyGranted P input vo g (pk_day p) ref payload sig)
        | Some designationKey \<Rightarrow> verifyClaim P input vo g designationKey p sig)" by blast
  qed
next
  case True
  then obtain day sig where ok: "row_ok P input g day sig" by blast
  let ?p = "\<lparr>pk_subject = gr_subjectUserId g, pk_day = day\<rparr>"
  have day: "row_day P g = Some day" using ok by (simp add: row_ok_def row_day_def)
  have n: "2 * rank P input day \<le> n" using g(2) day by (auto simp: depth_def split: if_splits)
  have n': "2 * rank P input day + 1 \<le> n" if "\<not> isSelfDemotion g"
    using g(2) day that by (simp add: depth_def)
  have "returns P input (verifyClaim P input vo g k ?p sig)" if "via g = Some k" for k
    using verifyClaim_returns [OF vo ok that _ g(1) n] by simp
  moreover have "returns P input (verifySelfDemotion P input vo g day ref pl sig)" for ref pl
    by (rule verifySelfDemotion_returns [OF vo n])
  moreover have "returns P input (verifyGranted P input vo g day ref pl sig)"
    if "gr_grantorUserId g \<noteq> gr_subjectUserId g" for ref pl
    using that by (intro verifyGranted_returns [OF vo n']) (simp add: isSelfDemotion_def)
  ultimately show ?thesis
    using ok unfolding row_ok_def compute_def Let_def
    by (simp split: option.split)
qed

lemma verifyOne_returns:
  assumes "claims_in_order P input"
  shows "g \<in> set (gi_grants input) \<Longrightarrow> depth P input g \<le> n \<Longrightarrow> returns P input (verifyOne n P input g)"
proof (induction n arbitrary: g)
  case 0
  then show ?case by (auto simp: depth_def split: option.splits if_splits)
next
  case (Suc n)
  have "returns P input (compute P input (verifyOne n P input) g)"
    using Suc.IH Suc.prems assms verifyOne_judges
    by (intro compute_returns) (auto simp: claims_in_order_def list_all_iff)
  then show ?case
    unfolding returns_def by (fastforce simp: andThen_def split: option.split)
qed

lemma verifyAll_returns:
  assumes "claims_in_order P input" "2 * length (gi_grants input) \<le> n"
  shows "set gs \<subseteq> set (gi_grants input) \<Longrightarrow> sound_caches P input s \<Longrightarrow> verifyAll n P input gs s \<noteq> None"
proof (induction gs arbitrary: s)
  case (Cons g gs)
  then have g: "g \<in> set (gi_grants input)" by simp
  then have "depth P input g \<le> n" using depth_bound assms(2) le_trans by blast
  then have "returns P input (verifyOne n P input g)" using verifyOne_returns assms(1) g by blast
  then obtain v t where t: "verifyOne n P input g s = Some (v, t)"
    using Cons.prems(2) unfolding returns_def by fastforce
  then have "sound_caches P input t"
    using verifyOne_judges [OF g] Cons.prems(2) unfolding judges_def by blast
  with t Cons show ?case by simp
qed simp

section \<open>The path from a row back to the root\<close>

text \<open>
  \<open>q\<close> cites \<open>p\<close>: the grant \<open>q\<close> was signed against, held on a strictly earlier day with a role
  that allows it.
\<close>

definition cites :: "prims \<Rightarrow> GrantRecord \<Rightarrow> GrantRecord \<Rightarrow> bool" where
  "cites P p q \<longleftrightarrow>
     ref_of q = gr_sortKey p
     \<and> (\<exists>d e. row_day P p = Some d \<and> row_day P q = Some e \<and> d < e)
     \<and> (gr_grantedRole p = js ''admin'' \<or> gr_grantedRole p = js ''ambassador'' \<and> isSelfDemotion q)"

definition path_to_root :: "prims \<Rightarrow> GrantChainInput \<Rightarrow> GrantRecord list \<Rightarrow> bool" where
  "path_to_root P input path \<longleftrightarrow>
     path \<noteq> [] \<and> gr_sortKey (last path) = an_rootGrantSortKey (gi_anchor input)
     \<and> via (last path) = None \<and> set path \<subseteq> set (gi_grants input) \<and> (\<forall>p\<in>set path. backed P input p)
     \<and> successively (\<lambda>q p. cites P p q) path"

lemma path_step:
  assumes "path_to_root P input path" "hd path = p" "cites P p g" "backed P input g" "g \<in> set (gi_grants input)"
  shows "path_to_root P input (g # path)"
  using assms by (cases path) (auto simp: path_to_root_def)

lemma row_ok_day: "row_ok P input g day sig \<Longrightarrow> row_day P g = Some day"
  by (simp add: row_ok_def row_day_def)

lemma current_cites:
  assumes "current_at P (filter Q (grantsBySubject input u)) day cur"
  shows "cur \<in> set (gi_grants input)" "\<exists>l<day. row_day P cur = Some l"
  using current_at_mem [OF assms] by (auto simp: grantsBySubject_mem)

lemma current_cites': 
  assumes "current_at P (grantsBySubject input u) day cur"
  shows "cur \<in> set (gi_grants input)" "\<exists>l<day. row_day P cur = Some l"
  using current_at_mem [OF assms] by (auto simp: grantsBySubject_mem)

lemma backed_path_aux:
  "backed P input g \<Longrightarrow> g \<in> set (gi_grants input) \<longrightarrow>
     anchorValid P input \<and> (\<exists>path. path_to_root P input path \<and> hd path = g)"
  "designated P input d dday \<Longrightarrow>
     \<exists>cur path. anchorValid P input \<and> path_to_root P input path \<and> hd path = cur
       \<and> de_adminGrantRef d = gr_sortKey cur \<and> gr_grantedRole cur = js ''admin''
       \<and> (\<exists>l<dday. row_day P cur = Some l) \<and> MIN_PERIOD_DAYS \<le> de_periodDays d"
proof (induction rule: backed_designated.inducts)
  case (root g day sig key history)
  have "backed P input g" by (rule backed_designated.root) (rule root)+
  moreover have "path_to_root P input [g]" if "g \<in> set (gi_grants input)" "backed P input g"
    using that root by (simp add: path_to_root_def)
  ultimately show ?case using root by (auto intro: exI [of _ "[g]"])
next
  case (granted g day sig cur)
  have g: "backed P input g"
    by (rule backed_designated.granted [of _ _ _ day sig cur]) (use granted in auto)
  from granted current_cites' obtain path where path: "path_to_root P input path" "hd path = cur"
    "anchorValid P input" by blast
  have "cites P cur g"
    using granted current_cites'(2) [OF \<open>current_at P (grantsBySubject input (gr_grantorUserId g)) day cur\<close>]
      row_ok_day [OF \<open>row_ok P input g day sig\<close>] by (auto simp: cites_def)
  with path g show ?case by (auto intro!: exI [of _ "g # path"] path_step)
next
  case (demoted g day sig rows cur)
  have g: "backed P input g"
    by (rule backed_designated.demoted [of _ _ _ day sig rows cur]) (use demoted in auto)
  note cur = current_cites [OF \<open>current_at P rows day cur\<close> [unfolded \<open>rows = _\<close>]]
  from demoted cur obtain path where path: "path_to_root P input path" "hd path = cur"
    "anchorValid P input" by blast
  have "cites P cur g"
    using demoted cur(2) row_ok_day [OF \<open>row_ok P input g day sig\<close>] by (auto simp: cites_def)
  with path g show ?case by (auto intro!: exI [of _ "g # path"] path_step)
next
  case (claimed g day sig k d dday)
  have g: "backed P input g"
    by (rule backed_designated.claimed [of _ _ _ day sig k d dday]) (use claimed in auto)
  from claimed obtain cur path l where path: "path_to_root P input path" "hd path = cur" "anchorValid P input"
    and cur: "de_adminGrantRef d = gr_sortKey cur" "gr_grantedRole cur = js ''admin''" "l < dday"
      "row_day P cur = Some l" "MIN_PERIOD_DAYS \<le> de_periodDays d" by blast
  have "0 \<le> de_periodDays d * DAY_MS" using cur(5) by (simp add: MIN_PERIOD_DAYS_def DAY_MS_def)
  then have "l < day" using cur(3) \<open>dday + de_periodDays d * DAY_MS \<le> day\<close> by linarith
  then have "cites P cur g"
    using claimed cur row_ok_day [OF \<open>row_ok P input g day sig\<close>] by (auto simp: cites_def)
  with path g show ?case by (auto intro!: exI [of _ "g # path"] path_step)
next
  case (designated d dday sig cur payload)
  with current_cites' show ?case by blast
qed

section \<open>checkMemberRole\<close>

text \<open>\<open>g\<close> is the one row on the latest day of \<open>rows\<close>, all of which have a well-formed key.\<close>

definition newest :: "prims \<Rightarrow> GrantRecord list \<Rightarrow> GrantRecord \<Rightarrow> bool" where
  "newest P rows g \<longleftrightarrow>
     (\<forall>o'\<in>set rows. row_day P o' \<noteq> None)
     \<and> (\<exists>l. filter (\<lambda>o'. row_day P o' = Some l) rows = [g]
          \<and> (\<forall>o'\<in>set rows. \<forall>e. row_day P o' = Some e \<longrightarrow> e \<le> l))"

lemma newest_mem: "newest P rows g \<Longrightarrow> g \<in> set rows"
proof -
  assume "newest P rows g"
  then obtain l where "filter (\<lambda>o'. row_day P o' = Some l) rows = [g]" by (auto simp: newest_def)
  then have "g \<in> set (filter (\<lambda>o'. row_day P o' = Some l) rows)" by simp
  then show "g \<in> set rows" by simp
qed

lemma scan_member_Some:
  "latest_of P (\<lambda>e. True) seen acc \<Longrightarrow> scan_member P rows acc = Some latest \<Longrightarrow>
   (\<forall>o'\<in>set rows. row_day P o' \<noteq> None) \<and> (\<exists>ld. latest_of P (\<lambda>e. True) (seen @ rows) (ld, latest))"
proof (induction rows arbitrary: seen acc)
  case Nil
  then show ?case by (cases acc) auto
next
  case (Cons g rows)
  then obtain p where p: "parseSortKey P (gr_sortKey g) = Some p" by (auto split: option.splits)
  then have d: "row_day P g = Some (pk_day p)" by (simp add: row_day_def)
  from Cons.IH [OF latest_of_keep [OF Cons.prems(1) d]] Cons.prems(2) p d show ?case by simp
qed

lemma scan_member_None: "scan_member P rows acc = None \<longleftrightarrow> (\<exists>o'\<in>set rows. row_day P o' = None)"
  by (induction rows arbitrary: acc) (auto simp: row_day_def split: option.splits)

lemma scan_member_newest:
  assumes "scan_member P rows (None, []) = Some latest" "rows \<noteq> []"
  shows "latest \<noteq> []" "latest = [g] \<longleftrightarrow> newest P rows g"
proof -
  from scan_member_Some [OF latest_of_Nil assms(1)] obtain ld
    where all: "\<forall>o'\<in>set rows. row_day P o' \<noteq> None" and l: "latest_of P (\<lambda>e. True) rows (ld, latest)" by auto
  from assms(2) all obtain x e where "x \<in> set rows" "row_day P x = Some e" by (cases rows) auto
  with l obtain m where m: "ld = Some m" "latest = filter (\<lambda>o'. row_day P o' = Some m) rows" "latest \<noteq> []"
    "\<And>o' e. o' \<in> set rows \<Longrightarrow> row_day P o' = Some e \<Longrightarrow> e \<le> m"
    unfolding latest_of_def by (cases ld) auto
  then show "latest \<noteq> []" by simp
  show "latest = [g] \<longleftrightarrow> newest P rows g"
  proof
    assume "latest = [g]"
    with m all show "newest P rows g" by (auto simp: newest_def)
  next
    assume "newest P rows g"
    then obtain l' where l': "filter (\<lambda>o'. row_day P o' = Some l') rows = [g]"
      "\<And>o' e. o' \<in> set rows \<Longrightarrow> row_day P o' = Some e \<Longrightarrow> e \<le> l'" by (auto simp: newest_def)
    from m(2,3) obtain y where "y \<in> set rows" "row_day P y = Some m" by (auto simp: filter_empty_conv)
    with l'(2) have "m \<le> l'" by blast
    moreover have "g \<in> set rows \<and> row_day P g = Some l'" using arg_cong [OF l'(1), of set] by auto
    with m(4) have "l' \<le> m" by blast
    ultimately show "latest = [g]" using m(2) l'(1) by simp
  qed
qed

end
