(* ===== verification/Sample.thy ===== *)
theory Sample
  imports Grant_Chain_Run
begin

text \<open>
  A concrete instance of the primitives and a small group, on which the hypotheses of the
  theorems are shown to hold.  A signature of the instance is the public key followed by 32
  copies of the sum of the message's bytes; it satisfies \<open>ed25519_laws\<close>.
\<close>

definition checksum :: "bytes \<Rightarrow> byte" where
  "checksum m = foldl (\<lambda>h b. 31 * h + b + 1) 7 m"

definition sample :: prims where
  "sample = \<lparr>ed_verify = (\<lambda>sig m pk. Some (sig = pk @ replicate 32 (checksum m))),
             ed_sign = (\<lambda>m seed. seed @ replicate 32 (checksum m)),
             ed_public = (\<lambda>seed. seed),
             sha256 = (\<lambda>m. replicate 32 (checksum m)),
             date_other = (\<lambda>s. None)\<rparr>"

lemma sample_laws: "ed25519_laws sample"
  by (simp add: ed25519_laws_def sample_def)

definition seed_of :: "byte \<Rightarrow> bytes" where
  "seed_of b = replicate 32 b"

definition key_of :: "byte \<Rightarrow> SigningKey" where
  "key_of b = \<lparr>sk_seed = seed_of b, sk_publicKey = seed_of b\<rparr>"

definition alice :: js_string where
  "alice = js ''00000000-0000-4000-8000-00000000000a''"

definition bob :: js_string where
  "bob = js ''00000000-0000-4000-8000-00000000000b''"

definition group1 :: js_string where
  "group1 = js ''00000000-0000-4000-8000-0000000000f1''"

definition root_key :: js_string where
  "root_key = js ''GRANT#00000000-0000-4000-8000-00000000000a#2026-01-05#0123456789abcdef''"

definition bob_key :: js_string where
  "bob_key = js ''GRANT#00000000-0000-4000-8000-00000000000b#2026-02-01#0123456789abcdef''"

definition signed_b64 :: "byte \<Rightarrow> SigningContext \<Rightarrow> bytes \<Rightarrow> js_string" where
  "signed_b64 k ctx payload = bytesToBase64 (sign sample (key_of k) ctx payload)"

definition root_row :: GrantRecord where
  "root_row = \<lparr>gr_sortKey = root_key, gr_subjectUserId = alice, gr_grantedRole = js ''admin'',
     gr_grantorUserId = alice, gr_grantorSigningPublicKey = None, gr_grantorGrantRef = None,
     gr_viaDesignation = None,
     gr_signature = signed_b64 1 RoleGrant (roleGrantPayload group1 alice (js ''admin'') root_key [])\<rparr>"

definition bob_row :: GrantRecord where
  "bob_row = \<lparr>gr_sortKey = bob_key, gr_subjectUserId = bob, gr_grantedRole = js ''admin'',
     gr_grantorUserId = alice, gr_grantorSigningPublicKey = None, gr_grantorGrantRef = Some root_key,
     gr_viaDesignation = None,
     gr_signature = signed_b64 1 RoleGrant (roleGrantPayload group1 bob (js ''admin'') bob_key root_key)\<rparr>"

definition history_of :: "byte \<Rightarrow> UserKeyHistory" where
  "history_of b = \<lparr>kh_signingPublicKey = bytesToBase64 (seed_of b), kh_superseded = []\<rparr>"

definition sample_anchor :: GrantAnchor where
  "sample_anchor = \<lparr>an_creatorUserId = alice, an_creatorSigningPublicKey = bytesToBase64 (seed_of 1),
     an_trustAnchorSignature = signed_b64 1 TrustAnchor (trustAnchorPayload alice (seed_of 1) group1),
     an_rootGrantSortKey = root_key\<rparr>"

definition sample_pin :: PinnedAnchor where
  "sample_pin = \<lparr>pa_creatorUserId = alice, pa_creatorSigningPublicKey = bytesToBase64 (seed_of 1)\<rparr>"

definition sample_input :: GrantChainInput where
  "sample_input = \<lparr>gi_groupId = group1, gi_anchor = sample_anchor, gi_pinnedAnchor = Some sample_pin,
     gi_grants = [bob_row, root_row],
     gi_keyHistories = [alice \<mapsto> history_of 1, bob \<mapsto> history_of 2],
     gi_designations = [], gi_now = None\<rparr>"

section \<open>Evaluating the sample\<close>

lemma bytesToBase64_Nil_iff: "bytesToBase64 bs = [] \<longleftrightarrow> bs = []"
  by (cases bs rule: bytesToBase64.cases) simp_all

lemma decode_bytesToBase64: "bs \<noteq> [] \<Longrightarrow> decode (bytesToBase64 bs) = Some bs"
  by (simp add: decode_def bytesToBase64_Nil_iff base64.dec_enc)

lemma seed_of_simps [simp]: "length (seed_of b) = 32" "seed_of b \<noteq> []" "seed_of b = seed_of c \<longleftrightarrow> b = c"
  by (simp_all add: seed_of_def replicate_eq_replicate)

lemma decode_seed [simp]: "decode (bytesToBase64 (seed_of b)) = Some (seed_of b)"
  by (simp add: decode_bytesToBase64)

lemma decode_signed [simp]: "decode (signed_b64 k ctx payload) = Some (sign sample (key_of k) ctx payload)"
  by (simp add: signed_b64_def decode_bytesToBase64 sign_def sample_def key_of_def)

lemma sample_verify [simp]:
  "verify sample (seed_of b) ctx m (sign sample (key_of b) ctx m)"
  by (simp add: verify_def sign_def sample_def key_of_def size_defs)

lemma keysOnDay_history_of [simp]: "keysOnDay P (history_of b) day = [seed_of b]"
  by (simp add: keysOnDay_def history_of_def add_key_def)

lemma signed_on_history_of [simp]:
  "signed_on sample (history_of b) day ctx m (sign sample (key_of b) ctx m)"
  by (simp add: signed_on_def)

lemma sample_days [simp]:
  "parseSortKey sample root_key = Some \<lparr>pk_subject = alice, pk_day = 1767571200000\<rparr>"
  "parseSortKey sample bob_key = Some \<lparr>pk_subject = bob, pk_day = 1769904000000\<rparr>"
  by code_simp+

lemma sample_distinct [simp]:
  "alice \<noteq> bob" "bob \<noteq> alice" "root_key \<noteq> bob_key" "bob_key \<noteq> root_key" "root_key \<noteq> []"
  by (simp_all add: alice_def bob_def root_key_def bob_key_def)

lemma sample_anchor_valid: "anchorValid sample sample_input"
  by (simp add: anchorValid_def pinMismatch_def pinMatched_def anchorKey_def sample_input_def
      sample_anchor_def sample_pin_def)

lemma sample_row_fields [simp]:
  "gr_sortKey root_row = root_key" "gr_subjectUserId root_row = alice" "gr_grantedRole root_row = js ''admin''"
  "gr_grantorUserId root_row = alice" "ref_of root_row = []" "via root_row = None"
  "gr_sortKey bob_row = bob_key" "gr_subjectUserId bob_row = bob" "gr_grantedRole bob_row = js ''admin''"
  "gr_grantorUserId bob_row = alice" "ref_of bob_row = root_key" "via bob_row = None"
  by (simp_all add: root_row_def bob_row_def ref_of_def via_def)

lemma sample_row_signatures [simp]:
  "gr_signature root_row = signed_b64 1 RoleGrant (roleGrantPayload group1 alice (js ''admin'') root_key [])"
  "gr_signature bob_row = signed_b64 1 RoleGrant (roleGrantPayload group1 bob (js ''admin'') bob_key root_key)"
  by (simp_all add: root_row_def bob_row_def)

lemma sample_input_fields [simp]:
  "gi_groupId sample_input = group1" "gi_anchor sample_input = sample_anchor"
  "gi_pinnedAnchor sample_input = Some sample_pin" "gi_grants sample_input = [bob_row, root_row]"
  "gi_keyHistories sample_input = [alice \<mapsto> history_of 1, bob \<mapsto> history_of 2]"
  "gi_designations sample_input = []" "gi_now sample_input = None"
  "an_creatorUserId sample_anchor = alice" "an_rootGrantSortKey sample_anchor = root_key"
  "an_creatorSigningPublicKey sample_anchor = bytesToBase64 (seed_of 1)"
  by (simp_all add: sample_input_def sample_anchor_def)

lemma sample_not_duplicated [simp]: "\<not> duplicated sample_input k"
  by (simp add: duplicated_def)

lemma sample_row_ok:
  "row_ok sample sample_input root_row 1767571200000 (sign sample (key_of 1) RoleGrant (grant_payload sample_input root_row))"
  "row_ok sample sample_input bob_row 1769904000000 (sign sample (key_of 1) RoleGrant (grant_payload sample_input bob_row))"
  by (simp_all add: row_ok_def ROLES_def grant_payload_def)

lemma sample_backed_root: "backed sample sample_input root_row"
proof (rule backed_designated.root [OF sample_row_ok(1) _ _ sample_anchor_valid])
  show "gi_keyHistories sample_input (an_creatorUserId (gi_anchor sample_input)) = Some (history_of 1)" by simp
  show "verify sample (seed_of 1) RoleGrant (grant_payload sample_input root_row)
     (sign sample (key_of 1) RoleGrant (grant_payload sample_input root_row))" by simp
qed (simp_all add: anchorKey_def)

lemma sample_rows_of_alice [simp]: "grantsBySubject sample_input alice = [root_row]"
  by (simp add: grantsBySubject_def)

lemma sample_row_days [simp]:
  "row_day sample root_row = Some 1767571200000" "row_day sample bob_row = Some 1769904000000"
  by (simp_all add: row_day_def)

lemma sample_backed_bob: "backed sample sample_input bob_row"
proof (rule backed_designated.granted [OF sample_row_ok(2), where cur = root_row])
  show "current_at sample (grantsBySubject sample_input (gr_grantorUserId bob_row)) 1769904000000 root_row"
    by (auto simp: current_at_def intro!: exI [of _ "1767571200000::int"])
  show "signed_by sample sample_input (gr_grantorUserId bob_row) 1769904000000 RoleGrant
     (grant_payload sample_input bob_row) (sign sample (key_of 1) RoleGrant (grant_payload sample_input bob_row))"
    by (simp add: signed_by_def)
qed (simp_all add: plain_row_def sample_backed_root)

lemma sample_in_order: "claims_in_order sample sample_input"
  by (simp add: claims_in_order_def claim_in_order_def)

lemma sample_returns: "verifyGrantChain 4 sample sample_input \<noteq> None"
proof -
  have "verifyAll 4 sample sample_input (gi_grants sample_input) no_caches \<noteq> None"
    using sample_in_order by (intro verifyAll_returns) (simp_all add: sound_caches_def no_caches_def)
  then show ?thesis by (auto simp: verifyGrantChain_def)
qed

end
