(* ===== verification/Grant_Properties.thy ===== *)
theory Grant_Properties
  imports Sample
begin

text \<open>The theorems about grant-chain.ts, each with the input it was tried on.\<close>

section \<open>Verdicts\<close>

lemma verifyGrantChain_SomeE:
  assumes "verifyGrantChain fuel P input = Some res"
  obtains s where "verifyAll fuel P input (gi_grants input) no_caches = Some s" "sound_caches P input s"
    "cr_verdicts res = ca_verdicts s" "cr_grantsBySubject res = grantsBySubject input"
    "cr_anchorValid res = anchorValid P input" "cr_anchorPinned res = pinMatched input"
proof -
  from assms obtain s where s: "verifyAll fuel P input (gi_grants input) no_caches = Some s"
    and res: "res = \<lparr>cr_anchorValid = anchorValid P input, cr_anchorPinned = pinMatched input,
                cr_verdicts = ca_verdicts s, cr_grantsBySubject = grantsBySubject input\<rparr>"
    by (auto simp: verifyGrantChain_def split: option.splits)
  have "sound_caches P input s"
    by (rule verifyAll_sound [OF s subset_refl]) (simp add: sound_caches_def no_caches_def)
  with s res that show ?thesis by simp
qed

text \<open>A cached verdict is never dropped, so after the run every row has one.\<close>

definition extends :: "'a judge \<Rightarrow> bool" where
  "extends m \<longleftrightarrow> (\<forall>s x s'. m s = Some (x, s') \<longrightarrow> dom (ca_verdicts s) \<subseteq> dom (ca_verdicts s'))"

lemma extends_pass [simp, intro]: "extends (pass x)"
  by (simp add: extends_def pass_def)

lemma extends_andThen: "extends m \<Longrightarrow> (\<And>x. extends (f x)) \<Longrightarrow> extends (andThen m f)"
  unfolding extends_def andThen_def by (fastforce split: option.splits)

lemma extends_if: "extends m \<Longrightarrow> extends m' \<Longrightarrow> extends (if b then m else m')"
  by simp

lemma extends_case_option: "extends m \<Longrightarrow> (\<And>x. extends (f x)) \<Longrightarrow> extends (case z of None \<Rightarrow> m | Some x \<Rightarrow> f x)"
  by (simp split: option.split)

lemma extends_case_list:
  "extends m \<Longrightarrow> (\<And>x xs. extends (f x xs)) \<Longrightarrow> extends (case z of [] \<Rightarrow> m | x # xs \<Rightarrow> f x xs)"
  by (simp split: list.split)

lemma extends_case_sum:
  "(\<And>x. extends (f x)) \<Longrightarrow> (\<And>x. extends (g x)) \<Longrightarrow> extends (case z of Inl x \<Rightarrow> f x | Inr x \<Rightarrow> g x)"
  by (simp split: sum.split)

lemma extends_stuck [simp, intro]: "extends (\<lambda>s. None)"
  by (simp add: extends_def)

lemmas extends_intros =
  extends_pass extends_stuck extends_if extends_case_option extends_case_list extends_case_sum extends_andThen

lemma extends_scan_grantor:
  assumes "\<And>g. extends (vo g)"
  shows "extends (scan_grantor P vo day rows acc)"
  by (induction rows arbitrary: acc) (auto simp: Let_def intro!: extends_andThen assms split: option.split)

lemma extends_compute:
  assumes "\<And>g. extends (vo g)"
  shows "extends (compute P input vo g)"
proof -
  have d: "extends (computeDesignation P input vo d)" for d
    unfolding computeDesignation_def by (intro extends_intros assms)
  have "extends (verifyDesignation P input vo d)" for d
    using d [of d] unfolding extends_def verifyDesignation_def andThen_def
    by (fastforce split: option.splits)
  moreover have "extends (\<lambda>s. case claim_rest P input g p sig d k of None \<Rightarrow> None | Some v \<Rightarrow> Some (v, s))"
    for p sig d k by (simp add: extends_def split: option.split)
  ultimately have "extends (verifyClaim P input vo g k p sig)" for k p sig
    unfolding verifyClaim_def by (intro extends_intros)
  moreover have "extends (verifySelfDemotion P input vo g day ref pl sig)" for day ref pl sig
    unfolding verifySelfDemotion_def by (intro extends_intros assms)
  moreover have "extends (verifyGranted P input vo g day ref pl sig)" for day ref pl sig
    unfolding verifyGranted_def by (intro extends_intros extends_scan_grantor assms)
  ultimately show ?thesis unfolding compute_def Let_def by (intro extends_intros)
qed

lemma extends_verifyOne: "extends (verifyOne n P input g)"
proof (induction n arbitrary: g)
  case (Suc n)
  have "extends (compute P input (verifyOne n P input) g)" by (rule extends_compute) (rule Suc)
  then show ?case unfolding extends_def by (fastforce simp: andThen_def split: option.splits)
qed simp

lemma verifyOne_caches: "verifyOne n P input g s = Some (v, s') \<Longrightarrow> ca_verdicts s' (gr_sortKey g) = Some v"
  by (cases n) (auto simp: andThen_def split: option.splits)

lemma verifyAll_dom:
  "verifyAll n P input gs s = Some s' \<Longrightarrow>
   dom (ca_verdicts s) \<subseteq> dom (ca_verdicts s') \<and> gr_sortKey ` set gs \<subseteq> dom (ca_verdicts s')"
proof (induction gs arbitrary: s)
  case (Cons g gs)
  then obtain v t where t: "verifyOne n P input g s = Some (v, t)" "verifyAll n P input gs t = Some s'"
    by (auto split: option.splits)
  have "dom (ca_verdicts s) \<subseteq> dom (ca_verdicts t)" "gr_sortKey g \<in> dom (ca_verdicts t)"
    using extends_verifyOne [of n P input g] t(1) verifyOne_caches [OF t(1)] unfolding extends_def by auto
  with Cons.IH [OF t(2)] show ?case by auto
qed simp

lemma verdict_iff_backed:
  assumes "verifyGrantChain fuel P input = Some res" "g \<in> set (gi_grants input)"
  shows "\<exists>v. cr_verdicts res (gr_sortKey g) = Some v \<and> gv_valid v = backed P input g"
proof -
  from assms(1) obtain s where s: "verifyAll fuel P input (gi_grants input) no_caches = Some s"
    "sound_caches P input s" "cr_verdicts res = ca_verdicts s" by (rule verifyGrantChain_SomeE)
  from verifyAll_dom [OF s(1)] assms(2) obtain v where "ca_verdicts s (gr_sortKey g) = Some v" by blast
  with s(2,3) assms(2) show ?thesis by (auto simp: sound_caches_def)
qed

text \<open>
  C1: whatever the server sends, when verifyGrantChain returns, every row of the history has a
  verdict, and it is valid exactly when the trust rule of the group (\<open>backed\<close>: signed under a
  key the grantor held that day, by the admin grant that was the grantor's only current one,
  itself backed, back to the root grant under the anchor) accepts the row.  The caches, the
  scans and the order of the checks do not matter.
\<close>
theorem verifyGrantChain_exact:
  assumes "verifyGrantChain fuel P input = Some res" "g \<in> set (gi_grants input)"
  shows "\<exists>v. cr_verdicts res (gr_sortKey g) = Some v \<and> (gv_valid v \<longleftrightarrow> backed P input g)"
  using verdict_iff_backed [OF assms] by simp

theorem verifyGrantChain_exact_witness:
  "\<exists>res v. verifyGrantChain 4 sample sample_input = Some res \<and> cr_verdicts res bob_key = Some v \<and> gv_valid v"
proof -
  obtain res where res: "verifyGrantChain 4 sample sample_input = Some res" using sample_returns by auto
  from verifyGrantChain_exact [OF res, of bob_row] sample_backed_bob res show ?thesis by auto
qed

text \<open>
  C2: a valid row traces back to the anchor.  The anchor's own signature verifies, and there is
  a path of valid rows of the history that ends at the root grant, each citing the next as the
  grant it was signed against, on a strictly later day, and an admin's (or the admin or
  ambassador grant a leaver gives up).
\<close>
theorem valid_grant_traces_to_root:
  assumes "verifyGrantChain fuel P input = Some res" "g \<in> set (gi_grants input)"
    "cr_verdicts res (gr_sortKey g) = Some v" "gv_valid v"
  shows "anchorValid P input \<and> (\<exists>path. path_to_root P input path \<and> hd path = g)"
proof -
  have "backed P input g" using verdict_iff_backed [OF assms(1,2)] assms(3,4) by simp
  with backed_path_aux(1) assms(2) show ?thesis by blast
qed

theorem valid_grant_traces_to_root_witness:
  "\<exists>path. path_to_root sample sample_input path \<and> hd path = bob_row"
proof -
  obtain res where res: "verifyGrantChain 4 sample sample_input = Some res" using sample_returns by auto
  with verdict_iff_backed [OF res, of bob_row] sample_backed_bob obtain v
    where "cr_verdicts res bob_key = Some v" "gv_valid v" by auto
  with valid_grant_traces_to_root [OF res, of bob_row v] show ?thesis by simp
qed

text \<open>
  C3: with a pinned anchor, any valid row at all means that the root grant is self-signed by
  the pinned creator under the pinned key and that the served anchor is the pinned one; a
  server that substitutes the anchor gets no row accepted.
\<close>
theorem pinned_anchor_is_the_root:
  assumes "verifyGrantChain fuel P input = Some res" "gi_pinnedAnchor input = Some pin"
    and "g \<in> set (gi_grants input)" "cr_verdicts res (gr_sortKey g) = Some v" "gv_valid v"
  shows "cr_anchorPinned res \<and> (\<exists>key root sig.
     decode (pa_creatorSigningPublicKey pin) = Some key
     \<and> root \<in> set (gi_grants input) \<and> gr_grantedRole root = js ''admin''
     \<and> gr_subjectUserId root = pa_creatorUserId pin \<and> gr_grantorUserId root = pa_creatorUserId pin
     \<and> verify P key RoleGrant (grant_payload input root) sig)"
proof -
  have "backed P input g" using verdict_iff_backed [OF assms(1,3)] assms(4,5) by simp
  with backed_path_aux(1) assms(3) obtain path where anchor: "anchorValid P input"
    and path: "path_to_root P input path" by blast
  let ?root = "last path"
  from path have root: "backed P input ?root" "?root \<in> set (gi_grants input)"
    "gr_sortKey ?root = an_rootGrantSortKey (gi_anchor input)" "via ?root = None" by (auto simp: path_to_root_def)
  have pinned: "pinMatched input" using anchor assms(2) by (simp add: anchorValid_def pinMismatch_def)
  then obtain key where key: "decode (pa_creatorSigningPublicKey pin) = Some key" "anchorKey input = Some key"
    "pa_creatorUserId pin = an_creatorUserId (gi_anchor input)"
    using assms(2) by (auto simp: pinMatched_def split: option.splits)
  have "cr_anchorPinned res" using pinned assms(1) by (auto elim: verifyGrantChain_SomeE)
  moreover have "\<exists>sig. gr_grantedRole ?root = js ''admin''
     \<and> gr_subjectUserId ?root = pa_creatorUserId pin \<and> gr_grantorUserId ?root = pa_creatorUserId pin
     \<and> verify P key RoleGrant (grant_payload input ?root) sig"
    using root(1) by (cases rule: backed.cases) (use key root(3,4) in \<open>auto simp: plain_row_def\<close>)
  ultimately show ?thesis using root(2) key(1) by blast
qed

theorem pinned_anchor_is_the_root_witness:
  "\<exists>res. verifyGrantChain 4 sample sample_input = Some res \<and> cr_anchorPinned res"
proof -
  obtain res where res: "verifyGrantChain 4 sample sample_input = Some res" using sample_returns by auto
  with verdict_iff_backed [OF res, of bob_row] sample_backed_bob obtain v
    where "cr_verdicts res bob_key = Some v" "gv_valid v" by auto
  with pinned_anchor_is_the_root [OF res, of sample_pin bob_row v] res show ?thesis by simp
qed

section \<open>Termination\<close>

text \<open>
  C25: the verifier returns on every history in which no claim row is dated before its
  designation: a recursion twice as deep as the history is long is enough, whatever the rows,
  keys and signatures are.
\<close>
theorem verifyGrantChain_returns:
  assumes "claims_in_order P input" "2 * length (gi_grants input) \<le> fuel"
  shows "verifyGrantChain fuel P input \<noteq> None"
proof -
  have "sound_caches P input no_caches" by (simp add: sound_caches_def no_caches_def)
  from verifyAll_returns [OF assms subset_refl this] show ?thesis by (auto simp: verifyGrantChain_def)
qed

theorem verifyGrantChain_returns_witness: "verifyGrantChain 4 sample sample_input \<noteq> None"
  using verifyGrantChain_returns [OF sample_in_order, of 4] by simp

text \<open>
  Two rows, each a claim relying on a designation by the other's subject that is dated after both.  None of
  the checks made before the recursion refuses them, and each needs the other's verdict.
\<close>

definition cyc_row :: "js_string \<Rightarrow> js_string \<Rightarrow> js_string \<Rightarrow> js_string \<Rightarrow> js_string \<Rightarrow> GrantRecord" where
  "cyc_row key subject grantor ref designation =
     \<lparr>gr_sortKey = key, gr_subjectUserId = subject, gr_grantedRole = js ''admin'',
      gr_grantorUserId = grantor, gr_grantorSigningPublicKey = None, gr_grantorGrantRef = Some ref,
      gr_viaDesignation = Some designation, gr_signature = js ''AAAA''\<rparr>"

definition cyc_designation :: "js_string \<Rightarrow> js_string \<Rightarrow> js_string \<Rightarrow> js_string \<Rightarrow> DesignationRecord" where
  "cyc_designation key admin successor ref =
     \<lparr>de_sortKey = key, de_adminUserId = admin, de_successorUserId = Some successor,
      de_periodDays = 30, de_adminGrantRef = ref, de_signature = js ''AAAA''\<rparr>"

definition by_alice :: js_string where
  "by_alice = js ''DESIGNATION#00000000-0000-4000-8000-00000000000a#2026-06-01#0123456789abcdef''"

definition by_bob :: js_string where
  "by_bob = js ''DESIGNATION#00000000-0000-4000-8000-00000000000b#2026-06-01#0123456789abcdef''"

definition cyc_input :: GrantChainInput where
  "cyc_input = \<lparr>gi_groupId = group1, gi_anchor = sample_anchor, gi_pinnedAnchor = None,
     gi_grants = [cyc_row root_key alice bob bob_key by_bob, cyc_row bob_key bob alice root_key by_alice],
     gi_keyHistories = Map.empty,
     gi_designations = [cyc_designation by_bob bob alice bob_key, cyc_designation by_alice alice bob root_key],
     gi_now = None\<rparr>"

lemma cyc_days:
  "parseSortKey P root_key = Some \<lparr>pk_subject = alice, pk_day = 1767571200000\<rparr>"
  "parseSortKey P bob_key = Some \<lparr>pk_subject = bob, pk_day = 1769904000000\<rparr>"
  "parseDesignationKey P by_alice = Some \<lparr>pk_subject = alice, pk_day = 1780272000000\<rparr>"
  "parseDesignationKey P by_bob = Some \<lparr>pk_subject = bob, pk_day = 1780272000000\<rparr>"
proof -
  have m: "match_key (js ''GRANT#'') root_key = Some (alice, js ''2026-01-05'')"
    "match_key (js ''GRANT#'') bob_key = Some (bob, js ''2026-02-01'')"
    "match_key (js ''DESIGNATION#'') by_alice = Some (alice, js ''2026-06-01'')"
    "match_key (js ''DESIGNATION#'') by_bob = Some (bob, js ''2026-06-01'')"
    by code_simp+
  have t: "iso_ms (js ''2026-01-05'' @ js ''T00:00:00.000Z'') = Some 1767571200000"
    "iso_ms (js ''2026-02-01'' @ js ''T00:00:00.000Z'') = Some 1769904000000"
    "iso_ms (js ''2026-06-01'' @ js ''T00:00:00.000Z'') = Some 1780272000000"
    by code_simp+
  show "parseSortKey P root_key = Some \<lparr>pk_subject = alice, pk_day = 1767571200000\<rparr>"
    "parseSortKey P bob_key = Some \<lparr>pk_subject = bob, pk_day = 1769904000000\<rparr>"
    "parseDesignationKey P by_alice = Some \<lparr>pk_subject = alice, pk_day = 1780272000000\<rparr>"
    "parseDesignationKey P by_bob = Some \<lparr>pk_subject = bob, pk_day = 1780272000000\<rparr>"
    by (simp_all add: parseSortKey_def parseDesignationKey_def m parsed_key_def date_parse_def t)
qed

lemma cyc_distinct: "by_alice \<noteq> by_bob" "by_bob \<noteq> by_alice" "by_alice \<noteq> []" "by_bob \<noteq> []" "bob_key \<noteq> []"
  by (simp_all add: by_alice_def by_bob_def bob_key_def)

lemma cyc_decode: "decode (js ''AAAA'') = Some [0, 0, 0]"
  by code_simp

lemmas cyc_simps = cyc_days cyc_distinct cyc_decode cyc_row_def cyc_designation_def cyc_input_def
  duplicated_def duplicatedDesignations_def grantsBySubject_def designationByKey_def citing_def via_def ref_of_def

lemma cyc_stuck:
  "verifyOne n P cyc_input (cyc_row root_key alice bob bob_key by_bob) no_caches = None"
  "verifyOne n P cyc_input (cyc_row bob_key bob alice root_key by_alice) no_caches = None"
proof (induction n)
  case (Suc n)
  let ?vo = "verifyOne n P cyc_input"
  have d: "computeDesignation P cyc_input ?vo (cyc_designation by_bob bob alice bob_key) no_caches = None"
    "computeDesignation P cyc_input ?vo (cyc_designation by_alice alice bob root_key) no_caches = None"
    using Suc by (simp_all add: computeDesignation_def cyc_simps keep_latest_def isSafeInteger_def
        MIN_PERIOD_DAYS_def MAX_PERIOD_DAYS_def andThen_def)
  have v: "verifyDesignation P cyc_input ?vo (cyc_designation by_bob bob alice bob_key) no_caches = None"
    "verifyDesignation P cyc_input ?vo (cyc_designation by_alice alice bob root_key) no_caches = None"
    using d by (simp_all add: verifyDesignation_def no_caches_def andThen_def)
  have look: "designationByKey cyc_input by_bob = Some (cyc_designation by_bob bob alice bob_key)"
    "designationByKey cyc_input by_alice = Some (cyc_designation by_alice alice bob root_key)"
    by (simp_all add: designationByKey_def cyc_input_def cyc_designation_def cyc_distinct)
  have cite: "citing cyc_input by_bob = 1" "citing cyc_input by_alice = 1"
    by (simp_all add: citing_def cyc_input_def cyc_row_def via_def cyc_distinct)
  have "verifyClaim P cyc_input ?vo (cyc_row root_key alice bob bob_key by_bob) by_bob p sig no_caches = None"
    "verifyClaim P cyc_input ?vo (cyc_row bob_key bob alice root_key by_alice) by_alice p sig no_caches = None"
    for p sig using v by (simp_all add: verifyClaim_def look cite andThen_def) (simp_all add: cyc_row_def)
  then have "compute P cyc_input ?vo (cyc_row root_key alice bob bob_key by_bob) no_caches = None"
    "compute P cyc_input ?vo (cyc_row bob_key bob alice root_key by_alice) no_caches = None"
    by (simp_all add: compute_def cyc_simps ROLES_def)
  then show "verifyOne (Suc n) P cyc_input (cyc_row root_key alice bob bob_key by_bob) no_caches = None"
    "verifyOne (Suc n) P cyc_input (cyc_row bob_key bob alice root_key by_alice) no_caches = None"
    by (simp_all add: andThen_def no_caches_def)
qed simp_all

text \<open>
  The recursion does not always end.  On a history of two claim rows, each citing a
  designation by the other's subject dated after both rows, no depth of recursion gives a result: the
  source's comments promise that the recursion terminates without a cycle guard and that
  malformed input never throws, but the check that would refuse such a claim (the period) comes
  after the recursive call, so the verifier exhausts the stack.
\<close>
theorem verifyGrantChain_cyclic_claims: "verifyGrantChain fuel P cyc_input = None"
proof -
  have "gi_grants cyc_input = [cyc_row root_key alice bob bob_key by_bob, cyc_row bob_key bob alice root_key by_alice]"
    by (simp add: cyc_input_def)
  then show ?thesis by (simp add: verifyGrantChain_def cyc_stuck)
qed

section \<open>Roles\<close>

text \<open>
  C4: the roster's claim about a member is confirmed exactly when the verified history backs
  it: a member with no row is a baseline member, and otherwise all the member's rows have a
  well-formed key, one of them alone is on the latest day, it is backed and it grants the
  claimed role.
\<close>
theorem checkMemberRole_exact:
  assumes "verifyGrantChain fuel P input = Some res"
  shows "checkMemberRole P res user role = Verified \<longleftrightarrow>
    (let rows = grantsBySubject input user in
     if rows = [] then role = js ''member''
     else (\<exists>g. newest P rows g \<and> backed P input g \<and> gr_grantedRole g = role))"
proof (cases "grantsBySubject input user = []")
  case True
  then show ?thesis using assms by (auto elim!: verifyGrantChain_SomeE simp: checkMemberRole_def)
next
  case False
  let ?rows = "grantsBySubject input user"
  have rows: "cr_grantsBySubject res user = ?rows" using assms by (auto elim: verifyGrantChain_SomeE)
  have only: "x = g" if "newest P ?rows g" "newest P ?rows x" "scan_member P ?rows (None, []) = Some l" for g x l
    using scan_member_newest(2) [OF that(3) False] that(1,2) by (metis list.inject)
  show ?thesis
  proof (cases "scan_member P ?rows (None, [])")
    case None
    then obtain r where r: "r \<in> set ?rows" "row_day P r = None" using scan_member_None by blast
    have "\<not> newest P ?rows g" for g using r by (auto simp: newest_def)
    moreover have "checkMemberRole P res user role \<noteq> Verified"
      using False rows None by (simp add: checkMemberRole_def Let_def)
    ultimately show ?thesis using False by (simp add: Let_def)
  next
    case (Some latest)
    note n = scan_member_newest [OF Some False]
    show ?thesis
    proof (cases "\<exists>g. latest = [g]")
      case True
      then obtain g where g: "latest = [g]" by blast
      then have new: "newest P ?rows g" using n(2) by blast
      then have "g \<in> set (gi_grants input)" using newest_mem by (fastforce simp: grantsBySubject_mem)
      from verdict_iff_backed [OF assms this] obtain v
        where v: "cr_verdicts res (gr_sortKey g) = Some v" "gv_valid v = backed P input g" by blast
      have "checkMemberRole P res user role = Verified \<longleftrightarrow> backed P input g \<and> gr_grantedRole g = role"
        using False rows Some g v by (simp add: checkMemberRole_def Let_def)
      moreover have "x = g" if "newest P ?rows x" for x using only [OF new that Some] .
      ultimately show ?thesis using False new unfolding Let_def by (metis (full_types))
    next
      case False
      then have "1 < length latest" using n(1) by (cases latest; cases "tl latest") auto
      then have "checkMemberRole P res user role \<noteq> Verified"
        using \<open>?rows \<noteq> []\<close> rows Some by (simp add: checkMemberRole_def Let_def)
      moreover have "\<not> newest P ?rows g" for g using False n(2) [of g] by auto
      ultimately show ?thesis using \<open>?rows \<noteq> []\<close> by (simp add: Let_def)
    qed
  qed
qed

theorem checkMemberRole_exact_witness:
  "\<exists>res. verifyGrantChain 4 sample sample_input = Some res
     \<and> checkMemberRole sample res bob (js ''admin'') = Verified
     \<and> checkMemberRole sample res bob (js ''member'') \<noteq> Verified"
proof -
  obtain res where res: "verifyGrantChain 4 sample sample_input = Some res" using sample_returns by auto
  have rows: "grantsBySubject sample_input bob = [bob_row]" by (simp add: grantsBySubject_def)
  have "newest sample [bob_row] g \<longleftrightarrow> g = bob_row" for g by (auto simp: newest_def)
  with checkMemberRole_exact [OF res, of bob] rows sample_backed_bob res show ?thesis by simp
qed

end
