(* ===== verification/Key_Properties.thy ===== *)
theory Key_Properties
  imports Sample
begin

text \<open>
  Theorems about key histories (key-rotation.ts, own-history.ts) and their use by the grant
  verifier, and about the sort keys the client mints.
\<close>

section \<open>Sort keys\<close>

lemma isoDay_day_number:
  assumes "day_shape (isoDay ms)"
  shows "\<exists>f. day_fields (isoDay ms) = Some f \<and> valid_date f \<and> day_number f = ms div DAY_MS"
proof -
  obtain y m d where c: "civil (ms div DAY_MS) = (y, m, d)" by (cases "civil (ms div DAY_MS)")
  then have v: "valid_date (y, m, d)" using civil_valid [of "ms div DAY_MS"] by simp
  have n: "day_number (y, m, d) = ms div DAY_MS" using day_number_civil [of "ms div DAY_MS"] c by simp
  show ?thesis
  proof (cases "0 \<le> y \<and> y \<le> 9999")
    case True
    then have "isoDay ms = digits4 y @ 45 # digits2 m @ 45 # digits2 d"
      using c by (simp add: isoDay_def iso_year_def digits4_def digits2_def)
    with True v n show ?thesis using day_fields_format by auto
  next
    case False
    then obtain u r where "isoDay ms = u # r" "\<not> is_digit u"
      using c by (fastforce simp: isoDay_def iso_year_def is_digit_def split: if_splits)
    then have "day_fields (isoDay ms) = None" by (cases "isoDay ms" rule: day_fields.cases) auto
    with assms show ?thesis by (simp add: day_shape_def)
  qed
qed

lemma hex_char_lower: "d < 16 \<Longrightarrow> is_lower_hex (hex_char d)"
  by (auto simp: is_lower_hex_def is_digit_def hex_char_def word_le_nat_alt)

lemma bytesToHex_lower: "list_all is_lower_hex (bytesToHex bs)"
proof (induction bs)
  case (Cons b bs)
  have "unat b div 16 < 16" using byte_bound [of b] by linarith
  with Cons show ?case by (simp add: bytesToHex_def hex_of_byte_digits hex_char_lower)
qed (simp add: bytesToHex_def)

lemma match_key_mint:
  assumes "length u = 36" "list_all is_id_char u" "day_shape day" "length random = 8"
  shows "match_key prefix (prefix @ u @ js ''#'' @ day @ js ''#'' @ bytesToHex random) = Some (u, day)"
proof -
  have d: "length day = 10" by (rule day_shape_length [OF assms(3)])
  have hash: "js ''#'' = [35]" by code_simp
  let ?s = "prefix @ u @ js ''#'' @ day @ js ''#'' @ bytesToHex random"
  let ?n = "length prefix"
  have "?s ! (?n + 36) = 35" "?s ! (?n + 47) = 35" using assms(1) d by (simp_all add: nth_append hash)
  moreover have "take 36 (drop ?n ?s) = u" "take 10 (drop (?n + 37) ?s) = day"
      "drop (?n + 48) ?s = bytesToHex random"
    using assms(1) d by (simp_all add: hash)
  ultimately show ?thesis
    using assms d by (simp add: match_key_def Let_def bytesToHex_lower hash)
qed

lemma parsed_key_isoDay:
  assumes "day_shape (isoDay now)"
  shows "parsed_key P (u, isoDay now) = Some \<lparr>pk_subject = u, pk_day = now div DAY_MS * DAY_MS\<rparr>"
  using isoDay_day_number [OF assms]
  by (auto simp: parsed_key_def date_parse_def iso_ms_midnight)

text \<open>
  The sort keys the client mints are read back by the verifier: the subject (or the
  designating admin) and midnight of the UTC day of the clock, for any user id in the served
  form, any 8 random bytes and any clock in a four-digit year.
\<close>
theorem sort_key_round_trip:
  assumes "length user = 36" "list_all is_id_char user" "day_shape (isoDay now)" "length random = 8"
  shows "parseSortKey P (generateGrantSortKey user now random)
           = Some \<lparr>pk_subject = user, pk_day = now div DAY_MS * DAY_MS\<rparr>
     \<and> parseDesignationKey P (generateDesignationSortKey user now random)
           = Some \<lparr>pk_subject = user, pk_day = now div DAY_MS * DAY_MS\<rparr>"
  using assms
  by (simp add: parseSortKey_def parseDesignationKey_def generateGrantSortKey_def
      generateDesignationSortKey_def match_key_mint parsed_key_isoDay)

theorem sort_key_round_trip_witness:
  "parseSortKey sample (generateGrantSortKey alice 1767600000000 (replicate 8 255))
     = Some \<lparr>pk_subject = alice, pk_day = 1767571200000\<rparr>"
proof -
  have "length alice = 36" "list_all is_id_char alice" "day_shape (isoDay 1767600000000)" by code_simp+
  then show ?thesis
    using sort_key_round_trip [of alice 1767600000000 "replicate 8 255" sample] by (simp add: DAY_MS_def)
qed

section \<open>The keys of a day\<close>

definition day_ms :: "js_string \<Rightarrow> int" where
  "day_ms s = day_number (the (day_fields s)) * DAY_MS"

lemma isUtcDay_le_iff:
  assumes "isUtcDay P s" "isUtcDay P t"
  shows "day_ms s \<le> day_ms t \<longleftrightarrow> s \<le> t" "day_ms s < day_ms t + DAY_MS \<longleftrightarrow> s \<le> t"
proof -
  from assms obtain f g where f: "day_fields s = Some f" "valid_date f" and g: "day_fields t = Some g" "valid_date g"
    by (auto simp: isUtcDay_iff)
  have "t < s \<longleftrightarrow> day_number g < day_number f" by (rule day_string_less_iff [OF g(1) f(1) g(2) f(2)])
  then have le: "s \<le> t \<longleftrightarrow> day_number f \<le> day_number g" by (simp flip: not_less)
  show "day_ms s \<le> day_ms t \<longleftrightarrow> s \<le> t" by (simp add: day_ms_def f g le DAY_MS_def)
  have "day_number f * 86400000 < day_number g * 86400000 + 86400000 \<longleftrightarrow> day_number f \<le> day_number g"
    by linarith
  then show "day_ms s < day_ms t + DAY_MS \<longleftrightarrow> s \<le> t" by (simp add: day_ms_def f g le DAY_MS_def)
qed

lemma isUtcDay_parse: "isUtcDay (date_other P) s \<Longrightarrow> date_parse (date_other P) s = Some (day_ms s)"
  by (auto simp: isUtcDay_iff date_parse_def iso_ms_midnight day_ms_def)

lemma superseded_loop_all:
  assumes "\<forall>k\<in>set ks. key_bounds P k = Some (a k, b k) \<and> decode (ss_publicKey k) = Some (key k)"
  shows "snd (superseded_loop P ms ks c out) = out @ map key (filter (\<lambda>k. a k < ms + DAY_MS \<and> ms \<le> b k) ks)"
    "(case fst (superseded_loop P ms ks c out) of None \<Rightarrow> True | Some c \<Rightarrow> c < x) \<longleftrightarrow>
       (case c of None \<Rightarrow> True | Some c \<Rightarrow> c < x) \<and> (\<forall>k\<in>set ks. b k < x)"
  using assms by (induction ks arbitrary: c out) (auto simp: add_key_def split: option.split)

lemma keysOnDay_all:
  assumes "\<forall>k\<in>set (kh_superseded h). key_bounds P k = Some (a k, b k) \<and> decode (ss_publicKey k) = Some (key k)"
    and "decode (kh_signingPublicKey h) = Some cur"
  shows "keysOnDay P h ms =
    map key (filter (\<lambda>k. a k < ms + DAY_MS \<and> ms \<le> b k) (kh_superseded h))
    @ (if \<forall>k\<in>set (kh_superseded h). b k < ms + DAY_MS then [cur] else [])"
  using superseded_loop_all [OF assms(1), where ms = ms and c = None and out = "[]"] assms(2)
  by (cases "superseded_loop P ms (kh_superseded h) None []") (auto simp: keysOnDay_def add_key_def)

definition served_key :: "OwnKeyLink list \<Rightarrow> nat \<Rightarrow> SupersededKey" where
  "served_key links i =
     \<lparr>ss_publicKey = bytesToBase64 (lk_oldSigning (links ! i)),
      ss_from = (case introduced links i of None \<Rightarrow> js ''1970-01-01'' | Some d \<Rightarrow> d),
      ss_until = Some (lk_day (links ! i))\<rparr>"

lemma ownKeyHistoryForVerifiers_served:
  "ownKeyHistoryForVerifiers h =
     \<lparr>kh_signingPublicKey = bytesToBase64 (oh_current h),
      kh_superseded = map (served_key (oh_links h)) [0..<length (oh_links h)]\<rparr>"
  by (simp add: ownKeyHistoryForVerifiers_def served_key_def [abs_def] Let_def)

lemma epoch_day: "isUtcDay other (js ''1970-01-01'')" "day_ms (js ''1970-01-01'') = 0"
proof -
  have "day_fields (js ''1970-01-01'') = Some (1970, 1, 1)" "valid_date (1970, 1, 1)" "day_number (1970, 1, 1) = 0"
    by code_simp+
  then show "isUtcDay other (js ''1970-01-01'')" "day_ms (js ''1970-01-01'') = 0"
    by (auto simp: isUtcDay_iff day_ms_def)
qed

lemma isUtcDay_not_Nil: "isUtcDay other s \<Longrightarrow> s \<noteq> []"
  by (auto simp: isUtcDay_iff)

lemma history_ok_sizes:
  assumes "history_ok P u h" "l \<in> set (oh_links h)"
  shows "length (lk_oldSigning l) = 32"
  using assms by (auto simp: history_ok_def links_ok_def signed_link_def Let_def dest!: bspec dest: verify_length)

lemma keysOnDay_own_history:
  assumes ok: "history_ok P u h" and cur: "length (oh_current h) = 32"
    and days: "\<forall>l\<in>set (oh_links h). isUtcDay (date_other P) (lk_day l)"
    and day: "isUtcDay (date_other P) day" "js ''1970-01-01'' \<le> day"
  shows "mset (keysOnDay P (ownKeyHistoryForVerifiers h) (day_ms day)) = mset (signingKeysOn h (oh_current h) day)"
proof -
  let ?ls = "oh_links h" and ?o = "date_other P"
  have real: "isUtcDay ?o (case introduced ?ls i of None \<Rightarrow> js ''1970-01-01'' | Some d \<Rightarrow> d)"
    if "i < length ?ls" for i
    using that days by (auto simp: introduced_def epoch_day)
  have dec: "decode (bytesToBase64 b) = Some b" if "length b = 32" for b
    using that by (intro decode_bytesToBase64) auto
  define a :: "SupersededKey \<Rightarrow> int" where "a k = day_ms (ss_from k)" for k
  define b :: "SupersededKey \<Rightarrow> int" where "b k = day_ms (the (ss_until k))" for k
  define key :: "SupersededKey \<Rightarrow> bytes" where "key k = the (decode (ss_publicKey k))" for k
  have k: "key_bounds P (served_key ?ls i) = Some (a (served_key ?ls i), b (served_key ?ls i))
      \<and> decode (ss_publicKey (served_key ?ls i)) = Some (key (served_key ?ls i))" if "i < length ?ls" for i
    using real [OF that] days that history_ok_sizes [OF ok]
      isUtcDay_not_Nil [of ?o "lk_day (?ls ! i)"]
    by (simp add: key_bounds_def served_key_def a_def b_def key_def isUtcDay_parse dec)
  have key: "key (served_key ?ls i) = lk_oldSigning (?ls ! i)" if "i < length ?ls" for i
    using that history_ok_sizes [OF ok] by (simp add: key_def served_key_def dec)
  have start: "a (served_key ?ls i) < day_ms day + DAY_MS \<longleftrightarrow> not_before (introduced ?ls i) day"
    if "i < length ?ls" for i
    using isUtcDay_le_iff(2) [OF real [OF that] day(1)] day(2)
    by (simp add: a_def served_key_def not_before_def introduced_def)
  have fin: "day_ms day \<le> b (served_key ?ls i) \<longleftrightarrow> day \<le> lk_day (?ls ! i)"
    "b (served_key ?ls i) < day_ms day + DAY_MS \<longleftrightarrow> lk_day (?ls ! i) \<le> day" if "i < length ?ls" for i
    using days that isUtcDay_le_iff [of ?o] day(1) by (simp_all add: b_def served_key_def)
  have last: "(\<forall>i<length ?ls. lk_day (?ls ! i) \<le> day) \<longleftrightarrow> ?ls = [] \<or> lk_day (last ?ls) \<le> day"
  proof (cases "?ls = []")
    case False
    have "lk_day (?ls ! i) \<le> lk_day (last ?ls)" if "i < length ?ls" for i
      using that sorted_days_nth [OF history_ok_sorted [OF ok], of i "length ?ls - 1"] False
      by (simp add: last_conv_nth)
    with False show ?thesis by (metis (no_types) diff_less last_conv_nth length_greater_0_conv order_trans zero_less_one)
  qed simp
  have filter: "filter (\<lambda>k. a k < day_ms day + DAY_MS \<and> day_ms day \<le> b k) (map (served_key ?ls) [0..<length ?ls])
      = map (served_key ?ls) (filter (in_interval ?ls day) [0..<length ?ls])"
    by (auto simp: filter_map o_def in_interval_def start fin intro!: arg_cong [of _ _ "map _"] filter_cong)
  have "keysOnDay P (ownKeyHistoryForVerifiers h) (day_ms day) =
      map (\<lambda>i. lk_oldSigning (?ls ! i)) (filter (in_interval ?ls day) [0..<length ?ls])
      @ (if ?ls = [] \<or> lk_day (last ?ls) \<le> day then [oh_current h] else [])"
    unfolding ownKeyHistoryForVerifiers_served
    by (subst keysOnDay_all [of _ P a b key]) (auto simp: k key dec cur filter fin last [symmetric])
  then show ?thesis by (simp add: signingKeysOn_eq)
qed

section \<open>A sample rotation\<close>

definition sample_digest :: bytes where
  "sample_digest = rosterDigest sample [rosterEntryId sample (js ''PIN#x'') (seed_of 9)]"

definition change_payload :: bytes where
  "change_payload = keyRotationPayload alice (seed_of 1) (seed_of 11) (seed_of 2) (seed_of 12)
     (js ''2026-03-01'') 0 sample_digest"

definition sample_change :: WireKeyChange where
  "sample_change = \<lparr>kc_keyEpoch = 1, kc_day = js ''2026-03-01'',
     kc_oldSigningPublicKey = bytesToBase64 (seed_of 1), kc_oldWrappingPublicKey = bytesToBase64 (seed_of 11),
     kc_newSigningPublicKey = bytesToBase64 (seed_of 2), kc_newWrappingPublicKey = bytesToBase64 (seed_of 12),
     kc_rosterDigest = bytesToBase64 sample_digest,
     kc_oldSignature = signed_b64 1 KeyRotation change_payload,
     kc_newSignature = signed_b64 2 KeyRotation change_payload\<rparr>"

definition sample_rosters :: "WireKeyChangeRoster list" where
  "sample_rosters = [\<lparr>kr_keyEpoch = 1, kr_roster = [bytesToBase64 (rosterEntryId sample (js ''PIN#x'') (seed_of 9))]\<rparr>]"

definition sample_link :: OwnKeyLink where
  "sample_link = \<lparr>lk_epoch = 1, lk_day = js ''2026-03-01'', lk_oldSigning = seed_of 1, lk_newSigning = seed_of 2,
     lk_oldWrapping = seed_of 11, lk_newWrapping = seed_of 12,
     lk_roster = Some [rosterEntryId sample (js ''PIN#x'') (seed_of 9)]\<rparr>"

definition sample_history :: OwnKeyHistory where
  "sample_history = \<lparr>oh_current = seed_of 2, oh_links = [sample_link]\<rparr>"

lemma decode_sized_b64: "length b = n \<Longrightarrow> decode_sized (bytesToBase64 b) n = Some b"
  by (simp add: decode_sized_def base64.dec_enc)

lemma sample_sizes [simp]:
  "length sample_digest = 32" "length (rosterEntryId sample sk sig) = 16"
  "length (sign sample (key_of k) ctx m) = 64"
  by (simp_all add: sample_digest_def rosterDigest_def rosterEntryId_def sample_def Let_def sign_def key_of_def)

lemma sample_day: "isUtcDay other (js ''2026-03-01'')" "isDay other (js ''2026-03-01'')"
proof -
  have "day_fields (js ''2026-03-01'') = Some (2026, 3, 1)" "valid_date (2026, 3, 1)" by code_simp+
  then show "isUtcDay other (js ''2026-03-01'')" "isDay other (js ''2026-03-01'')"
    by (auto simp: isUtcDay_iff intro: isDay_real)
qed

lemma sample_change_link: "change_link sample alice sample_rosters 0 None sample_change = Some sample_link"
  by (simp add: change_link_def sample_change_def decode_sized_b64 KEY_SIZE_def SIGNATURE_SIZE_def
      signed_b64_def sample_day change_payload_def [symmetric] follows_def sample_link_def sample_rosters_def
      decodeRoster_def ROSTER_ENTRY_SIZE_def sample_digest_def [symmetric])

lemma sample_builds: "buildOwnKeyHistory sample alice (seed_of 2) [sample_change] sample_rosters = Some sample_history"
  by (simp add: buildOwnKeyHistory_def js_sort_def sample_change_link sample_history_def)
    (simp add: sample_link_def)

text \<open>
  C18: a key history the client builds is sound, whatever rows and order the server sends: it
  ends at the caller's own key; its links carry the epochs 1, 2, ... without a gap or a repeat,
  each starts at the signing and wrapping keys the previous one ended at, on no earlier day, and
  each is signed under both signing keys it names; and a roster is kept only if it is the one
  whose digest those signatures cover.
\<close>
theorem buildOwnKeyHistory_sound:
  assumes "buildOwnKeyHistory P user own changes rosters = Some h"
  shows "history_ok P user h \<and> oh_current h = own \<and> length (oh_links h) = length changes
     \<and> distinct (map kc_keyEpoch changes)"
  using buildOwnKeyHistory_ok [OF assms] by simp

theorem buildOwnKeyHistory_sound_witness: "history_ok sample alice sample_history"
  using buildOwnKeyHistory_sound [OF sample_builds] by simp

text \<open>
  The verdict on a served key history does not depend on the order in which the server
  lists the changes.
\<close>
theorem buildOwnKeyHistory_order:
  assumes "mset changes = mset changes'"
  shows "buildOwnKeyHistory P user own changes rosters = buildOwnKeyHistory P user own changes' rosters"
  by (rule buildOwnKeyHistory_perm [OF assms])

theorem buildOwnKeyHistory_order_witness:
  "buildOwnKeyHistory sample alice (seed_of 2) [sample_change, sample_change\<lparr>kc_keyEpoch := 2\<rparr>] [] =
   buildOwnKeyHistory sample alice (seed_of 2) [sample_change\<lparr>kc_keyEpoch := 2\<rparr>, sample_change] []"
  by (rule buildOwnKeyHistory_order) simp

text \<open>
  C28: a stored row signed under a superseded key counts only if its owner vouched for that very
  row: the key was one the history allows on the signed day, and the rotation that replaced it
  (on no earlier day) carries signatures under the old and the new key over a roster that
  contains the row's id.
\<close>
theorem ownSignerAccepted_sound:
  assumes "history_ok P user h" "ownSignerAccepted P h signer day sk sig" "signer \<noteq> oh_current h"
  shows "signer \<in> set (signingKeysOn h (oh_current h) day) \<and>
    (\<exists>l\<in>set (oh_links h). \<exists>entries oldSig newSig.
      let payload = keyRotationPayload user signer (lk_oldWrapping l) (lk_newSigning l) (lk_newWrapping l)
                      (lk_day l) (lk_epoch l - 1) (rosterDigest P entries)
      in day \<le> lk_day l \<and> rosterEntryId P sk sig \<in> set entries
         \<and> verify P signer KeyRotation payload oldSig
         \<and> verify P (lk_newSigning l) KeyRotation payload newSig)"
  using ownSignerAccepted_listed [OF assms] ownSignerAccepted_interval [OF assms(2,3)] by blast

theorem ownSignerAccepted_sound_witness:
  "seed_of 1 \<in> set (signingKeysOn sample_history (seed_of 2) (js ''2026-03-01''))"
proof -
  have ok: "history_ok sample alice sample_history" using buildOwnKeyHistory_ok(1) [OF sample_builds] .
  have acc: "ownSignerAccepted sample sample_history (seed_of 1) (js ''2026-03-01'') (js ''PIN#x'') (seed_of 9)"
    by (simp add: ownSignerAccepted_def sample_history_def sample_link_def sample_day introduced_def not_before_def Let_def)
  have "seed_of 1 \<noteq> oh_current sample_history" by (simp add: sample_history_def)
  with ownSignerAccepted_sound [OF ok acc] show ?thesis by (simp add: sample_history_def)
qed

text \<open>
  the two ways the client reads a rotated user's keys agree.  Handed its own history in the
  form the grant verifier takes, \<open>keysOnDay\<close> (which compares milliseconds) finds the keys that
  \<open>signingKeysOn\<close> (which compares day strings) finds, with the same multiplicity, on every real day
  from 1970 on.
\<close>
theorem keysOnDay_agrees_with_signingKeysOn:
  assumes "history_ok P user h" "length (oh_current h) = 32"
    and "\<forall>l\<in>set (oh_links h). isUtcDay (date_other P) (lk_day l)"
    and "dayStart (date_other P) day = Some ms" "js ''1970-01-01'' \<le> day"
  shows "mset (keysOnDay P (ownKeyHistoryForVerifiers h) ms) = mset (signingKeysOn h (oh_current h) day)"
proof -
  from assms(4) obtain f where f: "day_fields day = Some f" "valid_date f" "ms = day_number f * DAY_MS"
    by (auto simp: dayStart_eq split: option.splits if_splits)
  then have "isUtcDay (date_other P) day" "day_ms day = ms" by (auto simp: isUtcDay_iff day_ms_def)
  with keysOnDay_own_history [OF assms(1-3) _ assms(5)] show ?thesis by simp
qed

theorem keysOnDay_agrees_with_signingKeysOn_witness:
  "mset (keysOnDay sample (ownKeyHistoryForVerifiers sample_history) 1772323200000) = {#seed_of 1, seed_of 2#}"
proof -
  have ok: "history_ok sample alice sample_history" using buildOwnKeyHistory_ok(1) [OF sample_builds] .
  have ms: "dayStart (date_other sample) (js ''2026-03-01'') = Some 1772323200000" by code_simp
  have later: "js ''1970-01-01'' \<le> js ''2026-03-01''" by code_simp
  show ?thesis
    using keysOnDay_agrees_with_signingKeysOn [OF ok _ _ ms later]
    by (simp add: sample_history_def sample_link_def sample_day signingKeysOn_def introduced_def not_before_def Let_def)
qed

text \<open>
  The days are covered by the history's keys: on every day some key could sign, and on a
  day without a rotation exactly one could.
\<close>
theorem signingKeysOn_covers_days:
  assumes "history_ok P user h"
  shows "signingKeysOn h cur day \<noteq> []
     \<and> (day \<notin> lk_day ` set (oh_links h) \<longrightarrow> length (signingKeysOn h cur day) = 1)"
  using signingKeysOn_some signingKeysOn_single [OF assms] by blast

theorem signingKeysOn_covers_days_witness:
  "signingKeysOn sample_history (seed_of 2) (js ''2026-03-01'') \<noteq> []
   \<and> length (signingKeysOn sample_history (seed_of 2) (js ''2026-03-02'')) = 1"
proof -
  have ok: "history_ok sample alice sample_history" using buildOwnKeyHistory_ok(1) [OF sample_builds] .
  show ?thesis
    using signingKeysOn_covers_days [OF ok, of "seed_of 2" "js ''2026-03-02''"]
      signingKeysOn_covers_days [OF ok, of "seed_of 2" "js ''2026-03-01''"]
    by (simp add: sample_history_def sample_link_def)
qed

lemma chain_from_drop: "chain_from prev ls \<Longrightarrow> i < length ls \<Longrightarrow> chain_from None (drop i ls)"
proof (induction ls arbitrary: prev i)
  case (Cons l ls)
  then show ?case
    by (cases i) (auto simp: follows_def)
qed simp

lemma chainCarriesKeys_chain:
  assumes "history_ok P user h" "chainCarriesKeys P h admittedSigning admittedWrapping day served"
  shows "\<exists>chain. chain \<noteq> [] \<and> (\<exists>earlier. oh_links h = earlier @ chain) \<and> chain_from None chain
     \<and> (\<forall>l\<in>set chain. signed_link P user l)
     \<and> lk_oldSigning (hd chain) = admittedSigning \<and> lk_oldWrapping (hd chain) = admittedWrapping
     \<and> lk_newSigning (last chain) = oh_current h \<and> lk_newWrapping (last chain) = served
     \<and> admittedSigning \<in> set (signingKeysOn h (oh_current h) day)"
proof -
  let ?ls = "oh_links h"
  from assms(2) obtain i where i: "i < length ?ls" and k: "lk_oldSigning (?ls ! i) = admittedSigning"
      "lk_oldWrapping (?ls ! i) = admittedWrapping" "in_interval ?ls day i"
    and served: "lk_newWrapping (last ?ls) = served"
    by (auto simp: chainCarriesKeys_def Let_def list_ex_iff in_interval_def not_less split: if_splits)
  have "chain_from None ?ls" "lk_newSigning (last ?ls) = oh_current h" "\<forall>l\<in>set ?ls. signed_link P user l"
    using assms(1) i by (auto simp: history_ok_def links_ok_def)
  then have "chain_from None (drop i ?ls)" "lk_newSigning (last (drop i ?ls)) = oh_current h"
      "\<forall>l\<in>set (drop i ?ls). signed_link P user l"
    using chain_from_drop i by (auto dest: in_set_dropD)
  moreover have "admittedSigning \<in> set (signingKeysOn h (oh_current h) day)"
    using i k by (auto simp: signingKeysOn_eq)
  ultimately show ?thesis
    using i k served by (intro exI [of _ "drop i ?ls"]) (auto simp: hd_drop_conv_nth intro: exI [of _ "take i ?ls"])
qed

text \<open>
  when the client accepts an admission whose keys are no longer the served ones, a chain of
  rotations, each signed under the old and the new key, leads from exactly the admitted signing
  and wrapping keys to the current signing key and the served wrapping key, and the admitted
  signing key was one the member could sign with on the day of the admission.
\<close>
theorem chainCarriesKeys_sound:
  assumes "history_ok P user h" "chainCarriesKeys P h admittedSigning admittedWrapping day served"
  shows "\<exists>chain. chain \<noteq> [] \<and> (\<exists>earlier. oh_links h = earlier @ chain) \<and> chain_from None chain
     \<and> (\<forall>l\<in>set chain. signed_link P user l)
     \<and> lk_oldSigning (hd chain) = admittedSigning \<and> lk_oldWrapping (hd chain) = admittedWrapping
     \<and> lk_newSigning (last chain) = oh_current h \<and> lk_newWrapping (last chain) = served
     \<and> admittedSigning \<in> set (signingKeysOn h (oh_current h) day)"
  by (rule chainCarriesKeys_chain [OF assms])

theorem chainCarriesKeys_sound_witness:
  "chainCarriesKeys sample sample_history (seed_of 1) (seed_of 11) (js ''2026-03-01'') (seed_of 12)
   \<and> seed_of 1 \<in> set (signingKeysOn sample_history (seed_of 2) (js ''2026-03-01''))"
proof -
  have ok: "history_ok sample alice sample_history" using buildOwnKeyHistory_ok(1) [OF sample_builds] .
  have c: "chainCarriesKeys sample sample_history (seed_of 1) (seed_of 11) (js ''2026-03-01'') (seed_of 12)"
    by (simp add: chainCarriesKeys_def sample_history_def sample_link_def sample_day introduced_def not_before_def)
  from chainCarriesKeys_sound [OF ok c] have "seed_of 1 \<in> set (signingKeysOn sample_history (oh_current sample_history) (js ''2026-03-01''))"
    by blast
  with c show ?thesis by (simp add: sample_history_def)
qed

end
