(* ===== verification/Pins.thy ===== *)
theory Pins
  imports Key_Chain Signing
begin

text \<open>
  pin.ts, verification.ts, key-change-evidence.ts and fingerprint.ts: the caller's own signed
  records of the keys it saw for another user, and what they say about the keys served now.
\<close>

section \<open>fingerprint.ts\<close>

definition FINGERPRINT_DOMAIN :: js_string where
  "FINGERPRINT_DOMAIN = js ''underground-bb:fingerprint:v1''"

definition FINGERPRINT_DIGITS :: nat where "FINGERPRINT_DIGITS = 60"

text \<open>The BigInt the digest spells: shifting by 8 bits and filling in the byte.\<close>

definition digest_value :: "bytes \<Rightarrow> nat" where
  "digest_value digest = foldl (\<lambda>n b. n * 256 + unat b) 0 digest"

fun chunks5 :: "js_string \<Rightarrow> js_string list" where
  "chunks5 [] = []"
| "chunks5 (u # s) = take 5 (u # s) # chunks5 (drop 5 (u # s))"

definition formatFingerprint :: "bytes \<Rightarrow> js_string" where
  "formatFingerprint digest =
     (let full = padStart 78 48 (dec_digits (digest_value digest));
          digits = drop (length full - FINGERPRINT_DIGITS) full
      in js_join [45] (chunks5 digits))"

definition fingerprint :: "prims \<Rightarrow> bytes \<Rightarrow> bytes \<Rightarrow> js_string result" where
  "fingerprint P signingPub wrappingPub =
     (if length signingPub \<noteq> PUBLIC_KEY_SIZE then Inl ''crypto: invalid public key''
      else if length wrappingPub \<noteq> 32 then Inl ''crypto: invalid public key''
      else Inr (formatFingerprint (sha256 P (utf8_encode FINGERPRINT_DOMAIN @ signingPub @ wrappingPub))))"

section \<open>pin.ts\<close>

definition pinPayload ::
  "js_string \<Rightarrow> js_string \<Rightarrow> bytes \<Rightarrow> bytes \<Rightarrow> bytes list \<Rightarrow> int \<Rightarrow> js_string \<Rightarrow> bytes" where
  "pinPayload pinnerUUID pinnedUUID pinnerSigningPublicKey wrappingPublicKey signingKeys
     pinnedKeyEpoch utcDay =
     (let sorted = js_sort compareBytes signingKeys
      in lengthPrefixedConcat
           ([utf8_encode pinnerUUID, utf8_encode pinnedUUID, pinnerSigningPublicKey, wrappingPublicKey,
             utf8_encode utcDay, utf8_encode (js_num pinnedKeyEpoch),
             utf8_encode (js_num (int (length sorted)))] @ sorted))"

record PinRecord =
  pr_pinnedUserId :: js_string
  pr_signingPublicKeys :: "js_string list"
  pr_wrappingPublicKey :: js_string
  pr_pinnerSigningPublicKey :: js_string
  pr_signature :: js_string
  pr_keyEpoch :: int
  pr_signedDay :: js_string

record ServedUserKeys =
  su_signingPublicKey :: js_string
  su_supersededSigningKeys :: "js_string list"
  su_wrappingPublicKey :: js_string
  su_keyEpoch :: int

datatype PinVerdict = FirstSight | Match | Mismatch | Rollback | BadSignature

record EvaluatePinInput =
  ep_pinnerUserId :: js_string
  ep_pinnerSigningPublicKey :: bytes
  ep_pinnerHistory :: "OwnKeyHistory option"
  ep_pinnedUserId :: js_string
  ep_pin :: "PinRecord option"
  ep_served :: ServedUserKeys

text \<open>The loop of \<open>keySet\<close>: \<open>None\<close> at the first key that is not 32 decodable bytes.\<close>

fun keySet_loop :: "bytes list \<Rightarrow> js_string list \<Rightarrow> bytes list option" where
  "keySet_loop out [] = Some out"
| "keySet_loop out (k # ks) =
     (case base64ToBytes k of
        None \<Rightarrow> None
      | Some b \<Rightarrow>
          if length b \<noteq> KEY_SIZE then None
          else keySet_loop (if list_ex (\<lambda>x. bytesEqual x b) out then out else out @ [b]) ks)"

definition keySet :: "js_string list \<Rightarrow> bytes list option" where
  "keySet keys = keySet_loop [] keys"

definition sameSet :: "bytes list \<Rightarrow> bytes list \<Rightarrow> bool" where
  "sameSet a b \<longleftrightarrow> length a = length b \<and> list_all (\<lambda>x. list_ex (\<lambda>y. bytesEqual x y) b) a"

definition servedSigningKeySet :: "ServedUserKeys \<Rightarrow> bytes list option" where
  "servedSigningKeySet served = keySet (su_signingPublicKey served # su_supersededSigningKeys served)"

text \<open>
  Who may have signed one of the caller's own rows: the current key, or a superseded one under
  which the caller's verified history lists the row (the test shared by pins and verifications).
\<close>

definition own_signer ::
  "prims \<Rightarrow> bytes \<Rightarrow> OwnKeyHistory option \<Rightarrow> bytes \<Rightarrow> js_string \<Rightarrow> js_string \<Rightarrow> bytes \<Rightarrow> bool" where
  "own_signer P current history signer signedDay sk signature \<longleftrightarrow>
     bytesEqual signer current \<or>
     (case history of
        None \<Rightarrow> False
      | Some h \<Rightarrow> bytesEqual (oh_current h) current \<and> ownSignerAccepted P h signer signedDay sk signature)"

definition evaluatePin :: "prims \<Rightarrow> EvaluatePinInput \<Rightarrow> PinVerdict" where
  "evaluatePin P input =
     (case ep_pin input of
        None \<Rightarrow> FirstSight
      | Some pin \<Rightarrow>
          if pr_pinnedUserId pin \<noteq> ep_pinnedUserId input then BadSignature
          else case (base64ToBytes (pr_pinnerSigningPublicKey pin), base64ToBytes (pr_wrappingPublicKey pin),
                     base64ToBytes (pr_signature pin), keySet (pr_signingPublicKeys pin)) of
            (Some signer, Some wrapping, Some signature, Some pinnedKeys) \<Rightarrow>
              if pinnedKeys = [] then BadSignature
              else if \<not> isSafeInteger (pr_keyEpoch pin) \<or> pr_keyEpoch pin < 0
                      \<or> \<not> isUtcDay (date_other P) (pr_signedDay pin) then BadSignature
              else if \<not> own_signer P (ep_pinnerSigningPublicKey input) (ep_pinnerHistory input) signer
                        (pr_signedDay pin) (js ''PIN#'' @ ep_pinnedUserId input) signature then BadSignature
              else if \<not> verify P signer Pin
                        (pinPayload (ep_pinnerUserId input) (ep_pinnedUserId input) signer wrapping
                           pinnedKeys (pr_keyEpoch pin) (pr_signedDay pin)) signature then BadSignature
              else if su_keyEpoch (ep_served input) < pr_keyEpoch pin then Rollback
              else (case (servedSigningKeySet (ep_served input),
                          base64ToBytes (su_wrappingPublicKey (ep_served input))) of
                      (Some servedKeys, Some servedWrapping) \<Rightarrow>
                        if su_keyEpoch (ep_served input) \<noteq> pr_keyEpoch pin
                           \<or> \<not> sameSet pinnedKeys servedKeys \<or> \<not> bytesEqual wrapping servedWrapping
                        then Mismatch else Match
                    | _ \<Rightarrow> Mismatch)
          | _ \<Rightarrow> BadSignature)"

text \<open>\<open>signPin\<close> (credential-material.ts): the caller signs the keys it was served, dated today.\<close>

record SignedPin =
  sp_pinnerSigningPublicKey :: js_string
  sp_signature :: js_string
  sp_keyEpoch :: int
  sp_signedDay :: js_string

definition signPin ::
  "prims \<Rightarrow> LiveKeys \<Rightarrow> js_string \<Rightarrow> bytes list \<Rightarrow> bytes \<Rightarrow> int \<Rightarrow> int \<Rightarrow> SignedPin" where
  "signPin P keys pinnedUserId signingPublicKeys wrappingPublicKey keyEpoch now =
     (let signedDay = isoDay now;
          payload = pinPayload (lv_userId keys) pinnedUserId (sk_publicKey (lv_signingKey keys))
                      wrappingPublicKey signingPublicKeys keyEpoch signedDay;
          signature = sign P (lv_signingKey keys) Pin payload
      in \<lparr>sp_pinnerSigningPublicKey = bytesToBase64 (sk_publicKey (lv_signingKey keys)),
          sp_signature = bytesToBase64 signature, sp_keyEpoch = keyEpoch, sp_signedDay = signedDay\<rparr>)"

section \<open>verification.ts\<close>

definition verificationPayload ::
  "js_string \<Rightarrow> js_string \<Rightarrow> bytes \<Rightarrow> js_string \<Rightarrow> js_string \<Rightarrow> bytes" where
  "verificationPayload verifierUUID verifiedUUID verifierSigningPublicKey fpr utcDay =
     lengthPrefixedConcat
       [utf8_encode verifierUUID, utf8_encode verifiedUUID, verifierSigningPublicKey,
        utf8_encode fpr, utf8_encode utcDay]"

record VerificationRecord =
  vr_verifiedUserId :: js_string
  vr_fingerprint :: js_string
  vr_verifierSigningPublicKey :: js_string
  vr_signature :: js_string
  vr_signedDay :: js_string

datatype VerificationVerdict = NoRecord | VerifiedKeys | ChangedKeys | BadRecord

record EvaluateVerificationInput =
  ev_verifierUserId :: js_string
  ev_verifierSigningPublicKey :: bytes
  ev_verifierHistory :: "OwnKeyHistory option"
  ev_verifiedUserId :: js_string
  ev_record :: "VerificationRecord option"
  ev_servedFingerprint :: "js_string option"

definition evaluateVerification :: "prims \<Rightarrow> EvaluateVerificationInput \<Rightarrow> VerificationVerdict" where
  "evaluateVerification P input =
     (case ev_record input of
        None \<Rightarrow> NoRecord
      | Some r \<Rightarrow>
          if vr_verifiedUserId r \<noteq> ev_verifiedUserId input then BadRecord
          else case (base64ToBytes (vr_verifierSigningPublicKey r), base64ToBytes (vr_signature r)) of
            (Some signer, Some signature) \<Rightarrow>
              if \<not> isUtcDay (date_other P) (vr_signedDay r) then BadRecord
              else if \<not> own_signer P (ev_verifierSigningPublicKey input) (ev_verifierHistory input) signer
                        (vr_signedDay r) (js ''VERIFIED#'' @ ev_verifiedUserId input) signature then BadRecord
              else if \<not> verify P signer Verification
                        (verificationPayload (ev_verifierUserId input) (ev_verifiedUserId input) signer
                           (vr_fingerprint r) (vr_signedDay r)) signature then BadRecord
              else (case ev_servedFingerprint input of
                      None \<Rightarrow> ChangedKeys
                    | Some f \<Rightarrow> if f \<noteq> vr_fingerprint r then ChangedKeys else VerifiedKeys)
          | _ \<Rightarrow> BadRecord)"

record SignedVerification =
  sv_verifierSigningPublicKey :: js_string
  sv_signature :: js_string
  sv_signedDay :: js_string

definition signVerification ::
  "prims \<Rightarrow> LiveKeys \<Rightarrow> js_string \<Rightarrow> js_string \<Rightarrow> int \<Rightarrow> SignedVerification" where
  "signVerification P keys verifiedUserId fpr now =
     (let signedDay = isoDay now;
          payload = verificationPayload (lv_userId keys) verifiedUserId
                      (sk_publicKey (lv_signingKey keys)) fpr signedDay;
          signature = sign P (lv_signingKey keys) Verification payload
      in \<lparr>sv_verifierSigningPublicKey = bytesToBase64 (sk_publicKey (lv_signingKey keys)),
          sv_signature = bytesToBase64 signature, sv_signedDay = signedDay\<rparr>)"

text \<open>\<open>ownFingerprint\<close> (credential-material.ts).\<close>

definition ownFingerprint :: "prims \<Rightarrow> LiveKeys \<Rightarrow> js_string result" where
  "ownFingerprint P keys =
     fingerprint P (sk_publicKey (lv_signingKey keys)) (wk_publicKey (lv_wrappingKey keys))"

section \<open>key-change-evidence.ts\<close>

datatype KeyChangeEvidence = SignedRotation | NoLink | UnverifiedChange

fun decode_all :: "js_string list \<Rightarrow> bytes list option" where
  "decode_all [] = Some []"
| "decode_all (k # ks) =
     (case base64ToBytes k of None \<Rightarrow> None | Some b \<Rightarrow> map_option ((#) b) (decode_all ks))"

definition keyChangeEvidence ::
  "prims \<Rightarrow> js_string \<Rightarrow> js_string list \<Rightarrow> int \<Rightarrow> js_string \<Rightarrow> WireKeyChange list \<Rightarrow> KeyChangeEvidence" where
  "keyChangeEvidence P userId pinnedSigningKeys pinnedEpoch servedSigningKey changes =
     (case (base64ToBytes servedSigningKey, decode_all pinnedSigningKeys) of
        (Some servedCurrent, Some pinned) \<Rightarrow>
          (case buildOwnKeyHistory P userId servedCurrent changes [] of
             None \<Rightarrow> UnverifiedChange
           | Some history \<Rightarrow>
               (case List.find (\<lambda>l. lk_epoch l = pinnedEpoch + 1) (oh_links history) of
                  None \<Rightarrow> NoLink
                | Some next_link \<Rightarrow>
                    if list_ex (\<lambda>k. bytesEqual (lk_oldSigning next_link) k) pinned
                    then SignedRotation else NoLink))
      | _ \<Rightarrow> UnverifiedChange)"

end
