(* ===== verification/Pin_Properties.thy ===== *)
theory Pin_Properties
  imports Pins Key_Properties
begin

text \<open>Theorems about pins, verifications, fingerprints and key-change evidence.\<close>

section \<open>Key sets\<close>

lemma keySet_loop_step:
  "keySet_loop out (k # ks) = Some res \<Longrightarrow>
   \<exists>b. base64ToBytes k = Some b \<and> length b = 32 \<and> keySet_loop (if b \<in> set out then out else out @ [b]) ks = Some res"
  by (cases "base64ToBytes k") (auto simp: KEY_SIZE_def list_ex_iff split: if_splits)

lemma keySet_loop_Some:
  assumes "keySet_loop out ks = Some res" "distinct out" "\<forall>k\<in>set out. length k = 32"
  shows "distinct res \<and> (\<forall>k\<in>set res. length k = 32) \<and> set out \<subseteq> set res"
  using assms
proof (induction ks arbitrary: out)
  case (Cons k ks)
  from keySet_loop_step [OF Cons.prems(1)] obtain b where b: "length b = 32"
    "keySet_loop (if b \<in> set out then out else out @ [b]) ks = Some res" by blast
  show ?case
  proof (cases "b \<in> set out")
    case True
    with Cons.IH [of out] Cons.prems(2,3) b show ?thesis by simp
  next
    case False
    with Cons.IH [of "out @ [b]"] Cons.prems(2,3) b show ?thesis by auto
  qed
qed simp

lemma keySet_Some: "keySet ks = Some res \<Longrightarrow> distinct res \<and> (\<forall>k\<in>set res. length k = 32)"
  using keySet_loop_Some [of "[]"] by (auto simp: keySet_def)

lemma sameSet_mset: "distinct a \<Longrightarrow> distinct b \<Longrightarrow> sameSet a b \<longleftrightarrow> mset a = mset b"
proof -
  assume d: "distinct a" "distinct b"
  have "sameSet a b \<longleftrightarrow> length a = length b \<and> set a \<subseteq> set b"
    by (auto simp: sameSet_def list_all_iff list_ex_iff)
  also have "\<dots> \<longleftrightarrow> set a = set b"
  proof
    assume "length a = length b \<and> set a \<subseteq> set b"
    with d show "set a = set b" by (metis card_subset_eq distinct_card finite_set)
  next
    assume "set a = set b"
    with d show "length a = length b \<and> set a \<subseteq> set b" by (metis distinct_card order_refl)
  qed
  also have "\<dots> \<longleftrightarrow> mset a = mset b" using d set_eq_iff_mset_eq_distinct by blast
  finally show ?thesis .
qed

lemma pinPayload_perm: "mset ks = mset ks' \<Longrightarrow> pinPayload a b s w ks e d = pinPayload a b s w ks' e d"
  by (simp add: pinPayload_def js_sort_compareBytes sorted_list_of_multiset_mset [symmetric]
      del: sorted_list_of_multiset_mset)

lemma mset_sort_eq_iff: "sort xs = sort ys \<longleftrightarrow> mset xs = mset ys" for xs ys :: "bytes list"
  by (metis mset_sort sorted_list_of_multiset_mset)

text \<open>
  The bytes a pin signs determine what it says: the two users, the pinner's key, the
  wrapping key, the day, the epoch and the signing keys as a multiset.  Nothing else, so a pin
  cannot be read as one of other keys, and the order of its key list is immaterial.
\<close>
theorem pinPayload_determines:
  assumes "list_all field_ok [a, b, d, a', b', d']" "isSafeInteger e" "isSafeInteger e'"
    and "\<forall>k\<in>{s, w, s', w'} \<union> set ks \<union> set ks'. length k = 32"
    and "isSafeInteger (int (length ks))" "isSafeInteger (int (length ks'))"
  shows "pinPayload a b s w ks e d = pinPayload a' b' s' w' ks' e' d' \<longleftrightarrow>
    a = a' \<and> b = b' \<and> s = s' \<and> w = w' \<and> mset ks = mset ks' \<and> e = e' \<and> d = d'"
proof -
  have sh: "list_all short (sort ks)" "list_all short (sort ks')" "short s" "short w" "short s'" "short w'"
    using assms(4) by (auto simp: list_all_iff intro!: short_sized)
  show ?thesis
    using assms(1-3,5,6) sh
    by (auto simp: pinPayload_def js_sort_compareBytes payload_inject mset_sort_eq_iff dest: mset_eq_length)
qed

theorem pinPayload_determines_witness:
  "pinPayload alice bob (seed_of 1) (seed_of 2) [seed_of 3] 0 (js ''2026-03-01'')
   \<noteq> pinPayload alice bob (seed_of 1) (seed_of 2) [seed_of 4] 0 (js ''2026-03-01'')"
proof -
  have "field_ok alice" "field_ok bob" "field_ok (js ''2026-03-01'')"
    by (simp_all add: alice_def bob_def field_ok_ascii ascii_def)
  then show ?thesis
    by (subst pinPayload_determines) (simp_all add: isSafeInteger_def)
qed

section \<open>Evaluating a pin\<close>

text \<open>
  a pin matches only what the caller signed.  When evaluatePin says match, a key of the
  caller's (the current one, or a superseded one whose roster lists the row) signed a pin of
  exactly the user, the signing keys, the wrapping key and the epoch that the server serves now.
\<close>
theorem evaluatePin_match_sound:
  assumes "evaluatePin P input = Match"
  shows "\<exists>pin keys wrapping signer sig.
       ep_pin input = Some pin
       \<and> servedSigningKeySet (ep_served input) = Some keys
       \<and> base64ToBytes (su_wrappingPublicKey (ep_served input)) = Some wrapping
       \<and> own_signer P (ep_pinnerSigningPublicKey input) (ep_pinnerHistory input) signer (pr_signedDay pin)
            (js ''PIN#'' @ ep_pinnedUserId input) sig
       \<and> verify P signer Pin
            (pinPayload (ep_pinnerUserId input) (ep_pinnedUserId input) signer wrapping keys
               (su_keyEpoch (ep_served input)) (pr_signedDay pin)) sig"
proof -
  from assms obtain pin where pin: "ep_pin input = Some pin"
    by (cases "ep_pin input") (simp_all add: evaluatePin_def)
  from assms obtain signer wrapping sig pinned where
    dec: "base64ToBytes (pr_pinnerSigningPublicKey pin) = Some signer"
      "base64ToBytes (pr_wrappingPublicKey pin) = Some wrapping"
      "base64ToBytes (pr_signature pin) = Some sig" "keySet (pr_signingPublicKeys pin) = Some pinned"
    by (cases "base64ToBytes (pr_pinnerSigningPublicKey pin)"; cases "base64ToBytes (pr_wrappingPublicKey pin)";
        cases "base64ToBytes (pr_signature pin)"; cases "keySet (pr_signingPublicKeys pin)")
      (simp_all add: evaluatePin_def pin split: if_splits)
  from assms obtain served w where served: "servedSigningKeySet (ep_served input) = Some served"
      "base64ToBytes (su_wrappingPublicKey (ep_served input)) = Some w"
    by (cases "servedSigningKeySet (ep_served input)";
        cases "base64ToBytes (su_wrappingPublicKey (ep_served input))")
      (simp_all add: evaluatePin_def pin dec split: if_splits)
  have own: "own_signer P (ep_pinnerSigningPublicKey input) (ep_pinnerHistory input) signer (pr_signedDay pin)
          (js ''PIN#'' @ ep_pinnedUserId input) sig"
    and v: "verify P signer Pin
          (pinPayload (ep_pinnerUserId input) (ep_pinnedUserId input) signer wrapping pinned
             (pr_keyEpoch pin) (pr_signedDay pin)) sig"
    and e: "su_keyEpoch (ep_served input) = pr_keyEpoch pin" "sameSet pinned served" "w = wrapping"
    using assms by (simp_all add: evaluatePin_def pin dec served split: if_splits)
  have "mset pinned = mset served"
    using dec(4) served(1) e(2) keySet_Some sameSet_mset unfolding servedSigningKeySet_def by blast
  from pinPayload_perm [OF this] v e(1) have "verify P signer Pin
          (pinPayload (ep_pinnerUserId input) (ep_pinnedUserId input) signer wrapping served
             (su_keyEpoch (ep_served input)) (pr_signedDay pin)) sig"
    by simp
  with pin served own e(3) show ?thesis by blast
qed

text \<open>The row the server stores for a signed pin and serves back.\<close>

definition stored_pin :: "SignedPin \<Rightarrow> js_string \<Rightarrow> bytes list \<Rightarrow> bytes \<Rightarrow> PinRecord" where
  "stored_pin sp them keys wrapping =
     \<lparr>pr_pinnedUserId = them, pr_signingPublicKeys = map bytesToBase64 keys,
      pr_wrappingPublicKey = bytesToBase64 wrapping,
      pr_pinnerSigningPublicKey = sp_pinnerSigningPublicKey sp, pr_signature = sp_signature sp,
      pr_keyEpoch = sp_keyEpoch sp, pr_signedDay = sp_signedDay sp\<rparr>"

lemma keySet_loop_made:
  "distinct (out @ keys) \<Longrightarrow> \<forall>k\<in>set keys. length k = 32 \<Longrightarrow>
   keySet_loop out (map bytesToBase64 keys) = Some (out @ keys)"
proof (induction keys arbitrary: out)
  case (Cons k keys)
  then have "k \<notin> set out" "length k = 32" by auto
  then have "keySet_loop out (map bytesToBase64 (k # keys)) = keySet_loop (out @ [k]) (map bytesToBase64 keys)"
    by (auto simp: base64.dec_enc KEY_SIZE_def list_ex_iff)
  with Cons.IH [of "out @ [k]"] Cons.prems show ?case by simp
qed simp

lemma keySet_made: "distinct keys \<Longrightarrow> \<forall>k\<in>set keys. length k = 32 \<Longrightarrow> keySet (map bytesToBase64 keys) = Some keys"
  unfolding keySet_def by (subst keySet_loop_made) simp_all

lemma isoDay_isUtcDay: "day_shape (isoDay now) \<Longrightarrow> isUtcDay other (isoDay now)"
  using isoDay_day_number [of now] by (auto simp: isUtcDay_iff)

lemma signed_pin_matches:
  assumes "ed25519_laws P" "genuine P (lv_signingKey me)" "day_shape (isoDay now)"
    and "isSafeInteger epoch" "0 \<le> epoch" "keys \<noteq> []" "distinct keys" "\<forall>k\<in>set keys. length k = 32"
    and "servedSigningKeySet served = Some served_keys" "mset served_keys = mset keys"
    and "su_wrappingPublicKey served = bytesToBase64 wrapping" "su_keyEpoch served \<le> epoch"
  shows "evaluatePin P \<lparr>ep_pinnerUserId = lv_userId me,
      ep_pinnerSigningPublicKey = sk_publicKey (lv_signingKey me),
      ep_pinnerHistory = history, ep_pinnedUserId = them,
      ep_pin = Some (stored_pin (signPin P me them keys wrapping epoch now) them keys wrapping),
      ep_served = served\<rparr>
    = (if su_keyEpoch served = epoch then Match else Rollback)"
proof -
  have "distinct served_keys" using assms(9) keySet_Some unfolding servedSigningKeySet_def by blast
  then have "sameSet keys served_keys" using assms(7,10) sameSet_mset by simp
  then show ?thesis
    using assms verify_genuine [OF assms(1,2)] isoDay_isUtcDay [OF assms(3)]
    by (simp add: evaluatePin_def stored_pin_def signPin_def Let_def base64.dec_enc keySet_made own_signer_def)
qed

text \<open>
  A pin made by the client (signPin) is good for the keys it was made of: as long as the
  server serves the same signing keys, in any order, the same wrapping key and the same epoch,
  evaluatePin says match, and if it serves an older epoch the verdict is rollback.
\<close>
theorem signPin_matches:
  assumes "ed25519_laws P" "genuine P (lv_signingKey me)" "day_shape (isoDay now)"
    and "isSafeInteger epoch" "0 \<le> epoch" "keys \<noteq> []" "distinct keys" "\<forall>k\<in>set keys. length k = 32"
    and "servedSigningKeySet served = Some served_keys" "mset served_keys = mset keys"
    and "su_wrappingPublicKey served = bytesToBase64 wrapping" "su_keyEpoch served \<le> epoch"
  shows "evaluatePin P \<lparr>ep_pinnerUserId = lv_userId me,
      ep_pinnerSigningPublicKey = sk_publicKey (lv_signingKey me),
      ep_pinnerHistory = history, ep_pinnedUserId = them,
      ep_pin = Some (stored_pin (signPin P me them keys wrapping epoch now) them keys wrapping),
      ep_served = served\<rparr>
    = (if su_keyEpoch served = epoch then Match else Rollback)"
  by (rule signed_pin_matches [OF assms])

definition alice_keys :: LiveKeys where
  "alice_keys = \<lparr>lv_userId = alice, lv_signingKey = key_of 1,
     lv_wrappingKey = \<lparr>wk_privateKey = seed_of 11, wk_publicKey = seed_of 11\<rparr>\<rparr>"

lemma alice_keys_simps [simp]:
  "lv_userId alice_keys = alice" "lv_signingKey alice_keys = key_of 1" "genuine sample (key_of k)"
  "sk_publicKey (key_of k) = seed_of k"
  by (simp_all add: alice_keys_def genuine_def key_of_def sample_def)

definition bob_served :: ServedUserKeys where
  "bob_served = \<lparr>su_signingPublicKey = bytesToBase64 (seed_of 2), su_supersededSigningKeys = [],
     su_wrappingPublicKey = bytesToBase64 (seed_of 3), su_keyEpoch = 0\<rparr>"

definition bob_pin :: PinRecord where
  "bob_pin = stored_pin (signPin sample alice_keys bob [seed_of 2] (seed_of 3) 0 1767600000000) bob
     [seed_of 2] (seed_of 3)"

definition bob_pin_input :: EvaluatePinInput where
  "bob_pin_input = \<lparr>ep_pinnerUserId = alice, ep_pinnerSigningPublicKey = seed_of 1,
     ep_pinnerHistory = None, ep_pinnedUserId = bob, ep_pin = Some bob_pin, ep_served = bob_served\<rparr>"

lemma sample_now: "isoDay 1767600000000 = js ''2026-01-05''" "day_shape (js ''2026-01-05'')"
  by code_simp+

lemma bob_served_set: "servedSigningKeySet bob_served = Some [seed_of 2]"
  using keySet_made [of "[seed_of 2]"] by (simp add: servedSigningKeySet_def bob_served_def)

theorem signPin_matches_witness: "evaluatePin sample bob_pin_input = Match"
  using signPin_matches [OF sample_laws, of alice_keys 1767600000000 0 "[seed_of 2]" bob_served "[seed_of 2]"
      "seed_of 3" None bob] bob_served_set
  by (simp add: sample_now isSafeInteger_def bob_pin_input_def bob_pin_def) (simp add: bob_served_def)

theorem evaluatePin_match_sound_witness:
  "\<exists>signer sig. verify sample signer Pin (pinPayload alice bob signer (seed_of 3) [seed_of 2] 0 (js ''2026-01-05'')) sig"
proof -
  have "evaluatePin sample bob_pin_input = Match"
    using signed_pin_matches [OF sample_laws, of alice_keys 1767600000000 0 "[seed_of 2]" bob_served "[seed_of 2]"
        "seed_of 3" None bob] bob_served_set
    by (simp add: sample_now isSafeInteger_def bob_pin_input_def bob_pin_def) (simp add: bob_served_def)
  from evaluatePin_match_sound [OF this] show ?thesis
    using bob_served_set
    by (auto simp: bob_pin_input_def bob_pin_def stored_pin_def signPin_def Let_def sample_now)
      (auto simp: bob_served_def base64.dec_enc)
qed

section \<open>Fingerprints\<close>

lemma foldl_digest: "foldl (\<lambda>n b. n * 256 + unat (b :: byte)) k ds = k * 256 ^ length ds + foldl (\<lambda>n b. n * 256 + unat b) 0 ds"
proof (induction ds arbitrary: k)
  case (Cons d ds)
  have "foldl (\<lambda>n b. n * 256 + unat b) k (d # ds) = (k * 256 + unat d) * 256 ^ length ds + foldl (\<lambda>n b. n * 256 + unat b) 0 ds"
    by (simp only: foldl_Cons Cons [of "k * 256 + unat d"])
  moreover have "foldl (\<lambda>n b. n * 256 + unat b) 0 (d # ds) = unat d * 256 ^ length ds + foldl (\<lambda>n b. n * 256 + unat b) 0 ds"
    by (simp only: foldl_Cons mult_0 add_0) (rule Cons)
  ultimately show ?case by (simp add: add_mult_distrib)
qed simp

lemma digest_value_less: "digest_value ds < 256 ^ length ds"
proof (induction ds)
  case (Cons d ds)
  have "digest_value (d # ds) = unat d * 256 ^ length ds + digest_value ds"
    using foldl_digest [of "unat d" ds] by (simp add: digest_value_def)
  also have "\<dots> < unat d * 256 ^ length ds + 256 ^ length ds" using Cons by simp
  also have "\<dots> \<le> 255 * 256 ^ length ds + 256 ^ length ds"
    using byte_bound [of d] by (intro add_right_mono mult_right_mono) auto
  finally show ?case by simp
qed (simp add: digest_value_def)

lemma concat_chunks5: "concat (chunks5 s) = s"
  by (induction s rule: chunks5.induct) (simp_all del: take_Suc_Cons drop_Suc_Cons)

lemma js_join_filter:
  "\<forall>x\<in>set xs. 45 \<notin> set x \<Longrightarrow> filter (\<lambda>u. u \<noteq> 45) (js_join [45] xs) = concat xs"
  by (induction "[45] :: js_string" xs rule: js_join.induct) (auto simp: filter_id_conv)

lemma js_join_length: "length (js_join [45] xs) = length (concat xs) + (length xs - 1)"
  by (induction "[45] :: js_string" xs rule: js_join.induct) simp_all

lemma chunks5_digits: "list_all is_digit s \<Longrightarrow> \<forall>x\<in>set (chunks5 s). 45 \<notin> set x"
proof -
  assume "list_all is_digit s"
  then have "45 \<notin> set s" by (auto simp: list_all_iff is_digit_def)
  then have "45 \<notin> set (concat (chunks5 s))" by (simp add: concat_chunks5 del: set_concat)
  then show ?thesis by auto
qed

definition low_digits :: "bytes \<Rightarrow> js_string" where
  "low_digits digest = drop 18 (padStart 78 48 (dec_digits (digest_value digest)))"

lemma low_digits:
  assumes "length digest = 32"
  shows "list_all is_digit (low_digits digest)" "length (low_digits digest) = 60"
    "dec_value (low_digits digest) = digest_value digest mod 10 ^ 60"
    "formatFingerprint digest = js_join [45] (chunks5 (low_digits digest))"
proof -
  let ?full = "padStart 78 48 (dec_digits (digest_value digest))"
  have "digest_value digest < 256 ^ 32" using digest_value_less [of digest] assms by simp
  also have "(256::nat) ^ 32 < 10 ^ 78" by (simp only: power_numeral_even) simp
  finally have len: "length (dec_digits (digest_value digest)) \<le> 78" by (rule length_dec_digits) simp
  then have full: "length ?full = 78" by (simp add: padStart_def)
  have dig: "list_all is_digit ?full"
    using dec_digits_all [of "digest_value digest"] by (auto simp: padStart_def list_all_iff is_digit_def)
  show l: "length (low_digits digest) = 60" using full by (simp add: low_digits_def)
  show d: "list_all is_digit (low_digits digest)"
    using dig by (auto simp: low_digits_def list_all_iff dest: in_set_dropD)
  have zero: "digit_value 48 = 0" by (simp add: digit_value_def)
  have zeros: "dec_value (replicate n 48 @ t) = dec_value t" for n t
  proof (induction n)
    case (Suc n)
    have "dec_value (replicate (Suc n) 48 @ t) = dec_value (48 # (replicate n 48 @ t))" by simp
    also have "\<dots> = dec_value (replicate n 48 @ t)" by (simp only: dec_value_Cons zero mult_0 add_0)
    finally show ?case by (simp only: Suc)
  qed simp
  have "digest_value digest = dec_value (take 18 ?full @ low_digits digest)"
    unfolding low_digits_def append_take_drop_id by (simp add: padStart_def zeros)
  also have "\<dots> = dec_value (take 18 ?full) * 10 ^ 60 + dec_value (low_digits digest)"
    by (simp only: dec_value_append_mult l)
  finally have e: "digest_value digest = dec_value (take 18 ?full) * 10 ^ 60 + dec_value (low_digits digest)" .
  have "dec_value (low_digits digest) < 10 ^ 60" using dec_value_less [OF d] by (simp only: l)
  then have "(dec_value (take 18 ?full) * 10 ^ 60 + dec_value (low_digits digest)) mod 10 ^ 60 = dec_value (low_digits digest)"
    by (simp only: mod_mult_self3 mod_less)
  with arg_cong [OF e, of "\<lambda>n. n mod 10 ^ 60"]
  show "dec_value (low_digits digest) = digest_value digest mod 10 ^ 60" by (rule trans [THEN sym])
  show "formatFingerprint digest = js_join [45] (chunks5 (low_digits digest))"
    unfolding formatFingerprint_def Let_def full low_digits_def by (simp add: FINGERPRINT_DIGITS_def)
qed

lemma formatFingerprint_eq_iff:
  assumes "length d = 32" "length e = 32"
  shows "formatFingerprint d = formatFingerprint e \<longleftrightarrow> digest_value d mod 10 ^ 60 = digest_value e mod 10 ^ 60"
proof
  assume eq: "formatFingerprint d = formatFingerprint e"
  have "filter (\<lambda>u. u \<noteq> 45) (formatFingerprint x) = low_digits x" if "length x = 32" for x
    using low_digits [OF that] chunks5_digits by (simp add: js_join_filter concat_chunks5)
  with eq assms have "low_digits d = low_digits e" by metis
  then have "dec_value (low_digits d) = dec_value (low_digits e)" by simp
  then show "digest_value d mod 10 ^ 60 = digest_value e mod 10 ^ 60"
    by (simp only: low_digits(3) [OF assms(1)] low_digits(3) [OF assms(2)])
next
  assume "digest_value d mod 10 ^ 60 = digest_value e mod 10 ^ 60"
  then have "dec_value (low_digits d) = dec_value (low_digits e)"
    by (simp only: low_digits(3) [OF assms(1)] low_digits(3) [OF assms(2)])
  then have "low_digits d = low_digits e"
    using dec_value_inject low_digits(1,2) [OF assms(1)] low_digits(1,2) [OF assms(2)] by simp
  then show "formatFingerprint d = formatFingerprint e" using low_digits(4) assms by simp
qed

lemma length_chunks5: "length s = 5 * n \<Longrightarrow> length (chunks5 s) = n"
proof (induction n arbitrary: s)
  case (Suc n)
  then obtain u t where s: "s = u # t" by (cases s) auto
  have "length (drop 5 s) = 5 * n" using Suc.prems by simp
  from Suc.IH [OF this] show ?case by (simp add: s)
qed simp

text \<open>
  C35: what comparing fingerprints compares.  For 32-byte keys the fingerprint is always 71
  characters (60 digits in twelve groups of five), and two fingerprints are equal exactly when
  the two SHA-256 digests, read as numbers, agree modulo $10^{60}$: the grouping, the zero
  padding and the truncation lose nothing else.
\<close>
theorem fingerprint_compares_digests:
  assumes "\<And>b. length (sha256 P b) = 32" "\<forall>k\<in>{s, w, s', w'}. length k = 32"
  shows "\<exists>f f'. fingerprint P s w = Inr f \<and> fingerprint P s' w' = Inr f' \<and> length f = 71
     \<and> (f = f' \<longleftrightarrow>
        digest_value (sha256 P (utf8_encode FINGERPRINT_DOMAIN @ s @ w)) mod 10 ^ 60
        = digest_value (sha256 P (utf8_encode FINGERPRINT_DOMAIN @ s' @ w')) mod 10 ^ 60)"
proof -
  let ?d = "sha256 P (utf8_encode FINGERPRINT_DOMAIN @ s @ w)"
  have "length (chunks5 (low_digits ?d)) = 12" using low_digits(2) [OF assms(1)] by (intro length_chunks5) simp
  then have "length (formatFingerprint ?d) = 71"
    using low_digits(2,4) [OF assms(1)] by (simp add: js_join_length concat_chunks5)
  with assms formatFingerprint_eq_iff [OF assms(1) assms(1)] show ?thesis
    by (simp add: fingerprint_def PUBLIC_KEY_SIZE_def)
qed

theorem fingerprint_compares_digests_witness:
  "\<exists>f. fingerprint sample (seed_of 1) (seed_of 2) = Inr f \<and> length f = 71"
  using fingerprint_compares_digests [of sample "seed_of 1" "seed_of 2" "seed_of 1" "seed_of 2"]
  by (auto simp: sample_def)

section \<open>Verifications\<close>

text \<open>
  A user is shown as verified only if a key of the caller's (the current one, or a
  superseded one whose roster lists the row) signed, for that user, the very fingerprint of the
  keys the server serves now.
\<close>
theorem evaluateVerification_sound:
  assumes "evaluateVerification P input = VerifiedKeys"
  shows "\<exists>r signer sig fpr. ev_record input = Some r \<and> ev_servedFingerprint input = Some fpr
        \<and> own_signer P (ev_verifierSigningPublicKey input) (ev_verifierHistory input) signer (vr_signedDay r)
             (js ''VERIFIED#'' @ ev_verifiedUserId input) sig
        \<and> verify P signer Verification
             (verificationPayload (ev_verifierUserId input) (ev_verifiedUserId input) signer fpr (vr_signedDay r)) sig"
proof -
  from assms obtain r where r: "ev_record input = Some r"
    by (cases "ev_record input") (simp_all add: evaluateVerification_def)
  from assms obtain signer sig fpr where
    dec: "base64ToBytes (vr_verifierSigningPublicKey r) = Some signer" "base64ToBytes (vr_signature r) = Some sig"
      "ev_servedFingerprint input = Some fpr"
    by (cases "base64ToBytes (vr_verifierSigningPublicKey r)"; cases "base64ToBytes (vr_signature r)";
        cases "ev_servedFingerprint input")
      (simp_all add: evaluateVerification_def r split: if_splits)
  from assms show ?thesis
    by (intro exI [of _ r] exI [of _ signer] exI [of _ sig] exI [of _ fpr])
      (simp add: evaluateVerification_def r dec split: if_splits)
qed

lemma signed_verification:
  assumes "ed25519_laws P" "genuine P (lv_signingKey me)" "day_shape (isoDay now)"
  shows "evaluateVerification P \<lparr>ev_verifierUserId = lv_userId me,
        ev_verifierSigningPublicKey = sk_publicKey (lv_signingKey me), ev_verifierHistory = history,
        ev_verifiedUserId = them,
        ev_record = Some \<lparr>vr_verifiedUserId = them, vr_fingerprint = fpr,
           vr_verifierSigningPublicKey = sv_verifierSigningPublicKey (signVerification P me them fpr now),
           vr_signature = sv_signature (signVerification P me them fpr now),
           vr_signedDay = sv_signedDay (signVerification P me them fpr now)\<rparr>,
        ev_servedFingerprint = served\<rparr>
      = (if served = Some fpr then VerifiedKeys else ChangedKeys)"
  using verify_genuine [OF assms(1,2)] isoDay_isUtcDay [OF assms(3)]
  by (simp add: evaluateVerification_def signVerification_def Let_def base64.dec_enc own_signer_def split: option.split)

theorem evaluateVerification_sound_witness:
  "\<exists>signer sig day. verify sample signer Verification (verificationPayload alice bob signer (js ''12345'') day) sig"
proof -
  have "evaluateVerification sample \<lparr>ev_verifierUserId = lv_userId alice_keys,
        ev_verifierSigningPublicKey = sk_publicKey (lv_signingKey alice_keys), ev_verifierHistory = None,
        ev_verifiedUserId = bob,
        ev_record = Some \<lparr>vr_verifiedUserId = bob, vr_fingerprint = js ''12345'',
           vr_verifierSigningPublicKey = sv_verifierSigningPublicKey (signVerification sample alice_keys bob (js ''12345'') 1767600000000),
           vr_signature = sv_signature (signVerification sample alice_keys bob (js ''12345'') 1767600000000),
           vr_signedDay = sv_signedDay (signVerification sample alice_keys bob (js ''12345'') 1767600000000)\<rparr>,
        ev_servedFingerprint = Some (js ''12345'')\<rparr> = VerifiedKeys"
    by (subst signed_verification [OF sample_laws]) (simp_all add: sample_now)
  from evaluateVerification_sound [OF this] show ?thesis by simp blast
qed

section \<open>Evidence for a key change\<close>

lemma decode_all_Some: "decode_all ks = Some bs \<Longrightarrow> map base64ToBytes ks = map Some bs"
  by (induction ks arbitrary: bs) (auto split: option.splits)

lemma links_epochs:
  assumes "links_ok P u ls" "i < length ls"
  shows "lk_epoch (ls ! i) = int i + 1"
proof -
  have "map lk_epoch ls ! i = map int [1..<Suc (length ls)] ! i" using assms(1) by (simp add: links_ok_def)
  with assms(2) show ?thesis by (simp del: upt_Suc)
qed

text \<open>
  "signed rotation" is shown only when one of the keys the caller pinned signed the change:
  the served changes form a verified history ending at the served key, and from the rotation
  that replaced a pinned key, the one that produced the epoch after the pinned one, every change
  up to the served key is signed under the key it retires.
\<close>
theorem keyChangeEvidence_sound:
  assumes "keyChangeEvidence P user pinned epoch served changes = SignedRotation"
  shows "\<exists>h key chain. base64ToBytes served = Some (oh_current h) \<and> history_ok P user h
     \<and> Some key \<in> base64ToBytes ` set pinned \<and> chain \<noteq> []
     \<and> (\<exists>earlier. oh_links h = earlier @ chain \<and> int (length earlier) = epoch)
     \<and> lk_oldSigning (hd chain) = key \<and> lk_newSigning (last chain) = oh_current h
     \<and> chain_from None chain \<and> (\<forall>l\<in>set chain. signed_link P user l)"
proof -
  from assms obtain cur ks where d: "base64ToBytes served = Some cur" "decode_all pinned = Some ks"
    by (cases "base64ToBytes served"; cases "decode_all pinned") (simp_all add: keyChangeEvidence_def)
  from assms d obtain h where h: "buildOwnKeyHistory P user cur changes [] = Some h"
    by (cases "buildOwnKeyHistory P user cur changes []") (simp_all add: keyChangeEvidence_def)
  note ok = buildOwnKeyHistory_ok(1,2) [OF h]
  from assms d h obtain l where l: "List.find (\<lambda>l. lk_epoch l = epoch + 1) (oh_links h) = Some l"
      "lk_oldSigning l \<in> set ks"
    by (cases "List.find (\<lambda>l. lk_epoch l = epoch + 1) (oh_links h)")
      (auto simp: keyChangeEvidence_def list_ex_iff split: if_splits)
  then have "l \<in> set (oh_links h)" "lk_epoch l = epoch + 1" using find_Some_iff_mem by fast+
  then obtain i where i: "i < length (oh_links h)" "l = oh_links h ! i" by (auto simp: in_set_conv_nth)
  have links: "links_ok P user (oh_links h)" "lk_newSigning (last (oh_links h)) = oh_current h"
    using ok(1) i by (auto simp: history_ok_def)
  have epoch: "int i = epoch" using links_epochs [OF links(1) i(1)] i \<open>lk_epoch l = epoch + 1\<close> by simp
  have key: "Some (lk_oldSigning l) \<in> base64ToBytes ` set pinned"
    using arg_cong [OF decode_all_Some [OF d(2)], of set] l(2) by auto
  show ?thesis
    using d(1) ok links i epoch key chain_from_drop [of None "oh_links h" i]
    by (intro exI [of _ h] exI [of _ "lk_oldSigning l"] exI [of _ "drop i (oh_links h)"])
      (auto simp: links_ok_def hd_drop_conv_nth intro!: exI [of _ "take i (oh_links h)"] dest: in_set_dropD)
qed

theorem keyChangeEvidence_sound_witness:
  "\<exists>h. history_ok sample alice h \<and> oh_current h = seed_of 2 \<and> oh_links h \<noteq> []"
proof -
  have "change_link sample alice [] 0 None sample_change = Some (sample_link\<lparr>lk_roster := None\<rparr>)"
    by (simp add: change_link_def sample_change_def decode_sized_b64 KEY_SIZE_def SIGNATURE_SIZE_def
        signed_b64_def sample_day change_payload_def [symmetric] follows_def sample_link_def decodeRoster_def)
  then have "buildOwnKeyHistory sample alice (seed_of 2) [sample_change] [] =
      Some \<lparr>oh_current = seed_of 2, oh_links = [sample_link\<lparr>lk_roster := None\<rparr>]\<rparr>"
    by (simp add: buildOwnKeyHistory_def js_sort_def) (simp add: sample_link_def)
  then have "keyChangeEvidence sample alice [bytesToBase64 (seed_of 1)] 0 (bytesToBase64 (seed_of 2)) [sample_change]
      = SignedRotation"
    by (simp add: keyChangeEvidence_def base64.dec_enc sample_link_def)
  from keyChangeEvidence_sound [OF this] show ?thesis by (auto simp: base64.dec_enc)
qed

end
