(* ===== verification/Membership.thy ===== *)
theory Membership
  imports Grant_Chain
begin

text \<open>
  admission.ts and removal.ts: the two checks a rotating admin makes before wrapping a new group
  key to a member.  An admission is judged against the verified grant chain; the removals
  against the links of the generation chain.
\<close>

section \<open>admission.ts\<close>

record AdmissionRecord =
  ad_inviteeUserId :: js_string
  ad_inviterUserId :: js_string
  ad_inviteId :: js_string
  ad_inviteeEd25519PublicKey :: js_string
  ad_inviteeX25519PublicKey :: js_string
  ad_inviterGrantRef :: js_string
  ad_day :: js_string
  ad_generation :: int
  ad_signature :: js_string

datatype AdmissionVerdict = Admitted | NotAdmitted string

record VerifyAdmissionInput =
  va_groupId :: js_string
  va_record :: AdmissionRecord
  va_inviteeSigningKeys :: "bytes list"
  va_inviteeWrappingKey :: js_string
  va_chain :: GrantChainResult
  va_inviterHistory :: "UserKeyHistory option"
  va_inviteeHistory :: "OwnKeyHistory option"

text \<open>Whether the served wrapping key is the admitted one or the invitee's history carries to it.\<close>

definition wrapping_admitted :: "prims \<Rightarrow> VerifyAdmissionInput \<Rightarrow> bytes \<Rightarrow> bytes \<Rightarrow> bool" where
  "wrapping_admitted P input ed x =
     (case decode_sized (va_inviteeWrappingKey input) 32 of
        None \<Rightarrow> False
      | Some served \<Rightarrow>
          bytesEqual served x \<or>
          (case va_inviteeHistory input of
             None \<Rightarrow> False
           | Some h \<Rightarrow> chainCarriesKeys P h ed x (ad_day (va_record input)) served))"

text \<open>The loop over the inviter's other grants: why one of them refuses the admission, if any.\<close>

fun inviter_changed :: "prims \<Rightarrow> js_string \<Rightarrow> int \<Rightarrow> int \<Rightarrow> GrantRecord list \<Rightarrow> string option" where
  "inviter_changed P refSortKey refDay day [] = None"
| "inviter_changed P refSortKey refDay day (g # gs) =
     (if gr_sortKey g = refSortKey then inviter_changed P refSortKey refDay day gs
      else case parseSortKey P (gr_sortKey g) of
        None \<Rightarrow> Some ''one of the inviter's grants has a malformed address''
      | Some k \<Rightarrow>
          if refDay \<le> pk_day k \<and> pk_day k \<le> day
          then Some ''the inviter's role changed on or before the day of the admission''
          else inviter_changed P refSortKey refDay day gs)"

definition verifyAdmission :: "prims \<Rightarrow> VerifyAdmissionInput \<Rightarrow> AdmissionVerdict" where
  "verifyAdmission P input =
     (let r = va_record input; chain = va_chain input in
      case (decode_sized (ad_inviteeEd25519PublicKey r) 32, decode_sized (ad_inviteeX25519PublicKey r) 32,
            decode_sized (ad_signature r) 64) of
        (Some ed, Some x, Some sig) \<Rightarrow>
          (case dayStart (date_other P) (ad_day r) of
             None \<Rightarrow> NotAdmitted ''the admission record has a malformed date''
           | Some day \<Rightarrow>
               if \<not> list_ex (\<lambda>k. bytesEqual k ed) (va_inviteeSigningKeys input)
               then NotAdmitted ''the admitted signing key is not one the server serves for this member''
               else if \<not> wrapping_admitted P input ed x
               then NotAdmitted ''the admitted wrapping key is not the one the server serves for this member''
               else let inviterGrants = cr_grantsBySubject chain (ad_inviterUserId r) in
                 (case List.find (\<lambda>g. gr_sortKey g = ad_inviterGrantRef r) inviterGrants of
                    None \<Rightarrow> NotAdmitted ''the inviter's grant named by the admission is not on record''
                  | Some ref \<Rightarrow>
                      if gr_grantedRole ref \<noteq> js ''admin'' \<and> gr_grantedRole ref \<noteq> js ''ambassador''
                      then NotAdmitted ''the inviter held no role that can invite''
                      else if (case cr_verdicts chain (gr_sortKey ref) of
                                 None \<Rightarrow> True | Some v \<Rightarrow> \<not> gv_valid v)
                      then NotAdmitted ''the inviter's grant does not verify''
                      else (case parseSortKey P (gr_sortKey ref) of
                          None \<Rightarrow> NotAdmitted ''the inviter's grant has a malformed address''
                        | Some refKey \<Rightarrow>
                            if day < pk_day refKey
                            then NotAdmitted ''the inviter's grant is dated after the admission''
                            else (case inviter_changed P (gr_sortKey ref) (pk_day refKey) day inviterGrants of
                                Some reason \<Rightarrow> NotAdmitted reason
                              | None \<Rightarrow>
                                  (case va_inviterHistory input of
                                     None \<Rightarrow> NotAdmitted ''the inviter's keys are not available''
                                   | Some history \<Rightarrow>
                                       if signed_on P history day Admission
                                            (admissionPayload (va_groupId input) (ad_inviterUserId r)
                                               (ad_inviteeUserId r) ed x (ad_inviteId r)
                                               (ad_inviterGrantRef r) (ad_day r) (ad_generation r)) sig
                                       then Admitted
                                       else NotAdmitted ''the admission signature does not verify under any key the inviter held that day'')))))
      | _ \<Rightarrow> NotAdmitted ''the admission record is malformed'')"

section \<open>removal.ts\<close>

record RemovalLink =
  rl_generation :: int
  rl_removerUserId :: "js_string option"
  rl_removedUserId :: "js_string option"
  rl_startSignature :: "js_string option"
  rl_rekeyedUserId :: "js_string option"
  rl_rekeyReason :: "js_string option"

text \<open>\<open>RemovalVerdict\<close>: the reason, or for every removed user the newest generation that removed them.\<close>

type_synonym RemovalVerdict = "js_string + (js_string \<rightharpoonup> int)"

record VerifyRemovalsInput =
  vi_groupId :: js_string
  vi_currentGeneration :: int
  vi_links :: "RemovalLink list"
  vi_keysFor :: "js_string \<Rightarrow> bytes list option"

text \<open>\<open>[...new Set(xs)]\<close>: the first occurrences in order.\<close>

definition unique_list :: "'a list \<Rightarrow> 'a list" where
  "unique_list xs = foldl (\<lambda>out x. if x \<in> set out then out else out @ [x]) [] xs"

definition removersOf :: "RemovalLink list \<Rightarrow> js_string list" where
  "removersOf links =
     unique_list (concat (map (\<lambda>l. case rl_removerUserId l of None \<Rightarrow> [] | Some u \<Rightarrow> [u]) links))"

definition rekeyKindOk :: "js_string option \<Rightarrow> js_string \<Rightarrow> js_string \<Rightarrow> RekeyReason option" where
  "rekeyKindOk reason signer rekeyed =
     (if reason = Some (js ''self'') then (if rekeyed = signer then Some RekeySelf else None)
      else if reason = Some (js ''approval'') then (if rekeyed \<noteq> signer then Some RekeyApproval else None)
      else None)"

text \<open>
  The checks of one link: \<open>Inl\<close> a reason, \<open>Inr\<close> who it removed (nobody, for a re-key).  The
  outer \<open>None\<close> is an exception (the payload builders throw on an unsafe generation).
\<close>

definition verifyRekeyLink ::
  "prims \<Rightarrow> VerifyRemovalsInput \<Rightarrow> int \<Rightarrow> RemovalLink \<Rightarrow> (js_string + js_string option) option" where
  "verifyRekeyLink P input generation link =
     (let fail = (\<lambda>rest. Some (Inl (js ''generation '' @ js_num generation @ js rest))) in
      case (rl_removerUserId link, rl_rekeyedUserId link, rl_startSignature link, rl_removedUserId link) of
        (Some remover, Some rekeyed, Some startSignature, None) \<Rightarrow>
          (case rekeyKindOk (rl_rekeyReason link) remover rekeyed of
             None \<Rightarrow> fail '' has a re-key record of a kind this app cannot check''
           | Some reason \<Rightarrow>
               (case base64ToBytes startSignature of
                  None \<Rightarrow> Some (Inl (js ''the signed re-key record for generation '' @ js_num generation
                            @ js '' is malformed''))
                | Some signature \<Rightarrow>
                    (case vi_keysFor input remover of
                       None \<Rightarrow> Some (Inl (js ''could not read the keys of '' @ remover
                                 @ js '', who re-keyed at generation '' @ js_num generation))
                     | Some keys \<Rightarrow>
                         (case rotationRekeyPayload (vi_groupId input) remover rekeyed generation reason of
                            Inl _ \<Rightarrow> None
                          | Inr payload \<Rightarrow>
                              if list_ex (\<lambda>k. verify P k RotationRekey payload signature) keys
                              then Some (Inr None)
                              else Some (Inl (js ''the signed re-key record for generation ''
                                     @ js_num generation @ js '' does not verify''))))))
      | _ \<Rightarrow> fail '' has a malformed re-key record'')"

definition verify_link ::
  "prims \<Rightarrow> VerifyRemovalsInput \<Rightarrow> int \<Rightarrow> RemovalLink \<Rightarrow> (js_string + js_string option) option" where
  "verify_link P input generation link =
     (if rl_rekeyedUserId link \<noteq> None then verifyRekeyLink P input generation link
      else case (rl_removerUserId link, rl_removedUserId link, rl_startSignature link) of
        (Some remover, Some removed, Some startSignature) \<Rightarrow>
          (case base64ToBytes startSignature of
             None \<Rightarrow> Some (Inl (js ''the signed removal record for generation '' @ js_num generation
                       @ js '' is malformed''))
           | Some signature \<Rightarrow>
               (case vi_keysFor input remover of
                  None \<Rightarrow> Some (Inl (js ''could not read the keys of '' @ remover
                            @ js '', who removed a member at generation '' @ js_num generation))
                | Some keys \<Rightarrow>
                    (case rotationStartPayload (vi_groupId input) remover removed generation of
                       Inl _ \<Rightarrow> None
                     | Inr payload \<Rightarrow>
                         if list_ex (\<lambda>k. verify P k RotationStart payload signature) keys
                         then Some (Inr (Some removed))
                         else Some (Inl (js ''the signed removal record for generation ''
                                @ js_num generation @ js '' does not verify'')))))
      | _ \<Rightarrow> Some (Inl (js ''generation '' @ js_num generation
                 @ js '' was created without a signed record of who was removed'')))"

text \<open>The index by generation; a malformed or repeated generation fails.\<close>

fun by_generation :: "RemovalLink list \<Rightarrow> (int \<rightharpoonup> RemovalLink) \<Rightarrow> js_string + (int \<rightharpoonup> RemovalLink)" where
  "by_generation [] m = Inr m"
| "by_generation (link # links) m =
     (if \<not> isSafeInteger (rl_generation link) \<or> rl_generation link < 0
      then Inl (js ''a key chain link has a malformed generation'')
      else if m (rl_generation link) \<noteq> None then Inl (js ''the key chain lists a generation twice'')
      else by_generation links (m(rl_generation link \<mapsto> link)))"

text \<open>The main loop, from generation \<open>n\<close> on, with \<open>k\<close> generations to go.\<close>

fun removals_from ::
  "prims \<Rightarrow> VerifyRemovalsInput \<Rightarrow> (int \<rightharpoonup> RemovalLink) \<Rightarrow> nat \<Rightarrow> int \<Rightarrow> (js_string \<rightharpoonup> int)
   \<Rightarrow> RemovalVerdict option" where
  "removals_from P input byGeneration 0 n removedAt = Some (Inr removedAt)"
| "removals_from P input byGeneration (Suc k) n removedAt =
     (case byGeneration n of
        None \<Rightarrow> Some (Inl (js ''the key chain is missing the removal that created generation '' @ js_num (n + 1)))
      | Some link \<Rightarrow>
          (case verify_link P input (n + 1) link of
             None \<Rightarrow> None
           | Some (Inl reason) \<Rightarrow> Some (Inl reason)
           | Some (Inr None) \<Rightarrow> removals_from P input byGeneration k (n + 1) removedAt
           | Some (Inr (Some removed)) \<Rightarrow>
               removals_from P input byGeneration k (n + 1) (removedAt(removed \<mapsto> n + 1))))"

definition verifyRemovals :: "prims \<Rightarrow> VerifyRemovalsInput \<Rightarrow> RemovalVerdict option" where
  "verifyRemovals P input =
     (if \<not> isSafeInteger (vi_currentGeneration input) \<or> vi_currentGeneration input < 0
      then Some (Inl (js ''the group key generation is malformed''))
      else case by_generation (vi_links input) Map.empty of
        Inl reason \<Rightarrow> Some (Inl reason)
      | Inr byGeneration \<Rightarrow>
          removals_from P input byGeneration (nat (vi_currentGeneration input)) 0 Map.empty)"

end
