(* ===== verification/Membership_Properties.thy ===== *)
theory Membership_Properties
  imports Membership Grant_Properties Pin_Properties
begin

text \<open>Theorems about admissions and removals.\<close>

section \<open>Admissions\<close>

lemma inviter_changed_None:
  "inviter_changed P k rd day gs = None \<Longrightarrow> g \<in> set gs \<Longrightarrow> gr_sortKey g \<noteq> k \<Longrightarrow>
   \<exists>e. row_day P g = Some e \<and> \<not> (rd \<le> e \<and> e \<le> day)"
  by (induction gs) (auto simp: row_day_def split: if_splits option.splits)

lemma not_duplicated_once:
  assumes "\<not> duplicated input (gr_sortKey g)" "g \<in> set (gi_grants input)"
  shows "filter (\<lambda>h. gr_sortKey h = gr_sortKey g) (gi_grants input) = [g]"
proof -
  let ?k = "gr_sortKey g"
  have "count_list (map gr_sortKey xs) ?k = length (filter (\<lambda>h. gr_sortKey h = ?k) xs)" for xs
    by (induction xs) auto
  from this [of "gi_grants input"] assms(1)
  have "length (filter (\<lambda>h. gr_sortKey h = ?k) (gi_grants input)) \<le> 1"
    by (simp add: duplicated_def set_duplicates not_less)
  moreover have "g \<in> set (filter (\<lambda>h. gr_sortKey h = ?k) (gi_grants input))" using assms(2) by simp
  ultimately show ?thesis
    by (cases "filter (\<lambda>h. gr_sortKey h = ?k) (gi_grants input)") auto
qed

lemma only_day_current:
  assumes "\<not> duplicated input (gr_sortKey ref)" "ref \<in> set (grantsBySubject input u)" "row_day P ref = Some rd"
    and "rd \<le> day"
    and other: "\<And>g. g \<in> set (grantsBySubject input u) \<Longrightarrow> gr_sortKey g \<noteq> gr_sortKey ref \<Longrightarrow>
      \<exists>e. row_day P g = Some e \<and> \<not> (rd \<le> e \<and> e \<le> day)"
  shows "current_at P (grantsBySubject input u) (day + 1) ref"
proof -
  let ?rows = "grantsBySubject input u"
  have mem: "ref \<in> set (gi_grants input)" "gr_subjectUserId ref = u" using assms(2) by (auto simp: grantsBySubject_mem)
  have same: "g = ref" if "g \<in> set ?rows" "gr_sortKey g = gr_sortKey ref" for g
    using unique_row [OF assms(1) mem(1) _ that(2)] that(1) by (auto simp: grantsBySubject_mem)
  have iff: "row_day P g = Some rd \<longleftrightarrow> gr_sortKey g = gr_sortKey ref" if "g \<in> set ?rows" for g
    using other [OF that] same [OF that] assms(3,4) by fastforce
  have "filter (\<lambda>g. row_day P g = Some rd) ?rows = filter (\<lambda>g. gr_sortKey g = gr_sortKey ref) ?rows"
    by (rule filter_cong) (simp_all add: iff)
  also have "\<dots> = filter (\<lambda>g. gr_subjectUserId g = u) (filter (\<lambda>g. gr_sortKey g = gr_sortKey ref) (gi_grants input))"
    by (auto simp: grantsBySubject_def intro!: filter_cong)
  also have "\<dots> = [ref]" using not_duplicated_once [OF assms(1) mem(1)] mem(2) by simp
  finally have one: "filter (\<lambda>g. row_day P g = Some rd) ?rows = [ref]" .
  have "e \<le> rd" if "g \<in> set ?rows" "row_day P g = Some e" "e < day + 1" for g e
    using other [OF that(1)] same [OF that(1)] that(2,3) assms(3) by fastforce
  with one assms(4) show ?thesis by (auto simp: current_at_def intro!: exI [of _ rd])
qed

lemma verifyAdmission_admits:
  assumes "verifyGrantChain fuel P gi = Some (va_chain input)" "verifyAdmission P input = Admitted"
    and "va_record input = r"
  shows "\<exists>ed x sig day ref history.
    base64ToBytes (ad_inviteeEd25519PublicKey r) = Some ed \<and> length ed = 32
    \<and> base64ToBytes (ad_inviteeX25519PublicKey r) = Some x \<and> length x = 32
    \<and> dayStart (date_other P) (ad_day r) = Some day
    \<and> ed \<in> set (va_inviteeSigningKeys input)
    \<and> gr_sortKey ref = ad_inviterGrantRef r \<and> gr_subjectUserId ref = ad_inviterUserId r
    \<and> gr_grantedRole ref \<in> {js ''admin'', js ''ambassador''} \<and> backed P gi ref
    \<and> current_at P (grantsBySubject gi (ad_inviterUserId r)) (day + 1) ref
    \<and> va_inviterHistory input = Some history
    \<and> signed_on P history day Admission
        (admissionPayload (va_groupId input) (ad_inviterUserId r) (ad_inviteeUserId r) ed x (ad_inviteId r)
           (ad_inviterGrantRef r) (ad_day r) (ad_generation r)) sig"
proof -
  note [simp] = verifyAdmission_def assms(3) Let_def
  from assms(2) obtain ed x sig where
    dec: "decode_sized (ad_inviteeEd25519PublicKey r) 32 = Some ed" "decode_sized (ad_inviteeX25519PublicKey r) 32 = Some x"
      "decode_sized (ad_signature r) 64 = Some sig"
    by (cases "decode_sized (ad_inviteeEd25519PublicKey r) 32"; cases "decode_sized (ad_inviteeX25519PublicKey r) 32";
        cases "decode_sized (ad_signature r) 64") simp_all
  note [simp] = dec
  from assms(2) obtain day where day [simp]: "dayStart (date_other P) (ad_day r) = Some day"
    by (cases "dayStart (date_other P) (ad_day r)") simp_all
  let ?rows = "cr_grantsBySubject (va_chain input) (ad_inviterUserId r)"
  from assms(2) obtain ref where ref [simp]: "List.find (\<lambda>g. gr_sortKey g = ad_inviterGrantRef r) ?rows = Some ref"
    by (cases "List.find (\<lambda>g. gr_sortKey g = ad_inviterGrantRef r) ?rows") (simp_all split: if_splits)
  from assms(2) obtain v where v [simp]: "cr_verdicts (va_chain input) (gr_sortKey ref) = Some v" and valid: "gv_valid v"
    by (cases "cr_verdicts (va_chain input) (gr_sortKey ref)") (simp_all split: if_splits)
  from assms(2) valid obtain k where k [simp]: "parseSortKey P (gr_sortKey ref) = Some k"
    by (cases "parseSortKey P (gr_sortKey ref)") (simp_all split: if_splits)
  from assms(2) valid have changed [simp]: "inviter_changed P (gr_sortKey ref) (pk_day k) day ?rows = None"
    by (cases "inviter_changed P (gr_sortKey ref) (pk_day k) day ?rows") (simp_all split: if_splits)
  from assms(2) valid obtain history where h [simp]: "va_inviterHistory input = Some history"
    by (cases "va_inviterHistory input") (simp_all split: if_splits)
  from assms(2) valid have facts: "ed \<in> set (va_inviteeSigningKeys input)"
    "gr_grantedRole ref \<in> {js ''admin'', js ''ambassador''}" "pk_day k \<le> day"
    "signed_on P history day Admission
        (admissionPayload (va_groupId input) (ad_inviterUserId r) (ad_inviteeUserId r) ed x (ad_inviteId r)
           (ad_inviterGrantRef r) (ad_day r) (ad_generation r)) sig"
    by (auto simp: list_ex_iff not_less split: if_splits)
  have rows: "?rows = grantsBySubject gi (ad_inviterUserId r)" using assms(1) by (auto elim: verifyGrantChain_SomeE)
  have mem: "ref \<in> set (grantsBySubject gi (ad_inviterUserId r))" "gr_sortKey ref = ad_inviterGrantRef r"
    using find_Some_iff_mem [OF ref] rows by auto
  then have "ref \<in> set (gi_grants gi)" "gr_subjectUserId ref = ad_inviterUserId r" by (auto simp: grantsBySubject_mem)
  moreover from this have backed: "backed P gi ref" using verdict_iff_backed [OF assms(1), of ref] v valid by simp
  then have nodup: "\<not> duplicated gi (gr_sortKey ref)" using not_row_ok [of P gi ref] by (auto simp: row_ok_def)
  have "current_at P (grantsBySubject gi (ad_inviterUserId r)) (day + 1) ref"
    using inviter_changed_None [OF changed] rows facts(3)
    by (intro only_day_current [OF nodup mem(1), of P "pk_day k"]) (simp_all add: row_day_def)
  ultimately show ?thesis using dec facts backed mem(2) h day
    by (auto simp: decode_sized_def simp del: verifyAdmission_def split: option.splits if_splits)
qed

text \<open>
  C27: an admission counts only if the inviter vouched for exactly these keys while allowed to.
  When verifyAdmission accepts a record against a verified chain, the inviter signed, with a key
  held on that day, an admission of this invitee's signing and wrapping keys for this invite,
  generation and grant; the grant it names is backed by the group's trust rule, is admin or
  ambassador, and is the inviter's only current grant up to the end of that day; and the
  admitted signing key is among the served ones.
\<close>
theorem verifyAdmission_sound:
  assumes "verifyGrantChain fuel P gi = Some (va_chain input)" "verifyAdmission P input = Admitted"
    and "va_record input = r"
  shows "\<exists>ed x sig day ref history.
    base64ToBytes (ad_inviteeEd25519PublicKey r) = Some ed \<and> length ed = 32
    \<and> base64ToBytes (ad_inviteeX25519PublicKey r) = Some x \<and> length x = 32
    \<and> dayStart (date_other P) (ad_day r) = Some day
    \<and> ed \<in> set (va_inviteeSigningKeys input)
    \<and> gr_sortKey ref = ad_inviterGrantRef r \<and> gr_subjectUserId ref = ad_inviterUserId r
    \<and> gr_grantedRole ref \<in> {js ''admin'', js ''ambassador''} \<and> backed P gi ref
    \<and> current_at P (grantsBySubject gi (ad_inviterUserId r)) (day + 1) ref
    \<and> va_inviterHistory input = Some history
    \<and> signed_on P history day Admission
        (admissionPayload (va_groupId input) (ad_inviterUserId r) (ad_inviteeUserId r) ed x (ad_inviteId r)
           (ad_inviterGrantRef r) (ad_day r) (ad_generation r)) sig"
  by (rule verifyAdmission_admits [OF assms])

definition sample_result :: GrantChainResult where
  "sample_result = the (verifyGrantChain 4 sample sample_input)"

lemma sample_result: "verifyGrantChain 4 sample sample_input = Some sample_result"
  using sample_returns by (auto simp: sample_result_def)

lemma sample_result_root:
  "cr_grantsBySubject sample_result alice = [root_row]"
  "\<exists>v. cr_verdicts sample_result root_key = Some v \<and> gv_valid v"
  using sample_result verdict_iff_backed [OF sample_result, of root_row] sample_backed_root
  by (auto elim!: verifyGrantChain_SomeE)

definition sample_admission :: AdmissionRecord where
  "sample_admission = \<lparr>ad_inviteeUserId = bob, ad_inviterUserId = alice, ad_inviteId = js ''i1'',
     ad_inviteeEd25519PublicKey = bytesToBase64 (seed_of 2), ad_inviteeX25519PublicKey = bytesToBase64 (seed_of 12),
     ad_inviterGrantRef = root_key, ad_day = js ''2026-03-01'', ad_generation = 0,
     ad_signature = signed_b64 1 Admission (admissionPayload group1 alice bob (seed_of 2) (seed_of 12)
       (js ''i1'') root_key (js ''2026-03-01'') 0)\<rparr>"

definition sample_admission_input :: VerifyAdmissionInput where
  "sample_admission_input = \<lparr>va_groupId = group1, va_record = sample_admission,
     va_inviteeSigningKeys = [seed_of 2], va_inviteeWrappingKey = bytesToBase64 (seed_of 12),
     va_chain = sample_result, va_inviterHistory = Some (history_of 1), va_inviteeHistory = None\<rparr>"

lemma sample_march: "dayStart (date_other sample) (js ''2026-03-01'') = Some 1772323200000"
  by code_simp

lemma sample_admitted: "verifyAdmission sample sample_admission_input = Admitted"
proof -
  obtain v where "cr_verdicts sample_result root_key = Some v" "gv_valid v" using sample_result_root by blast
  then show ?thesis
    by (simp add: verifyAdmission_def sample_admission_input_def sample_admission_def decode_sized_b64 signed_b64_def
        sample_march sample_result_root wrapping_admitted_def)
qed

theorem verifyAdmission_sound_witness:
  "verifyAdmission sample sample_admission_input = Admitted \<and>
   current_at sample (grantsBySubject sample_input alice) 1772323200001 root_row"
proof -
  have "va_record sample_admission_input = sample_admission" "va_chain sample_admission_input = sample_result"
    by (simp_all add: sample_admission_input_def)
  with verifyAdmission_sound [of 4 sample sample_input sample_admission_input sample_admission] sample_result sample_admitted
  obtain day ref where "dayStart (date_other sample) (ad_day sample_admission) = Some day"
    "gr_subjectUserId ref = ad_inviterUserId sample_admission"
    "current_at sample (grantsBySubject sample_input (ad_inviterUserId sample_admission)) (day + 1) ref"
    by auto
  moreover from this have "ref = root_row"
    using current_at_mem(1) by (fastforce simp: sample_admission_def)
  ultimately show ?thesis using sample_admitted by (simp add: sample_admission_def sample_march)
qed

text \<open>
  A new group key goes only to keys the inviter vouched for or their owner carried on.  When
  verifyAdmission accepts, the wrapping key the server serves for the invitee is the admitted
  one, or the invitee's verified key history carries the admitted signing and wrapping keys to
  the served wrapping key through changes that each retiring key signed.
\<close>
theorem admitted_wrapping_key:
  assumes "verifyAdmission P input = Admitted"
    and "\<And>h. va_inviteeHistory input = Some h \<Longrightarrow>
      buildOwnKeyHistory P (ad_inviteeUserId (va_record input)) own changes rosters = Some h"
  shows "\<exists>ed x served. base64ToBytes (ad_inviteeEd25519PublicKey (va_record input)) = Some ed
    \<and> base64ToBytes (ad_inviteeX25519PublicKey (va_record input)) = Some x
    \<and> base64ToBytes (va_inviteeWrappingKey input) = Some served
    \<and> (served = x \<or> (\<exists>chain. chain \<noteq> [] \<and> chain_from None chain
         \<and> (\<forall>l\<in>set chain. signed_link P (ad_inviteeUserId (va_record input)) l)
         \<and> lk_oldSigning (hd chain) = ed \<and> lk_oldWrapping (hd chain) = x
         \<and> lk_newSigning (last chain) = own \<and> lk_newWrapping (last chain) = served))"
proof -
  let ?r = "va_record input"
  from assms(1) obtain ed x sig where
    dec: "decode_sized (ad_inviteeEd25519PublicKey ?r) 32 = Some ed" "decode_sized (ad_inviteeX25519PublicKey ?r) 32 = Some x"
      "decode_sized (ad_signature ?r) 64 = Some sig"
    by (cases "decode_sized (ad_inviteeEd25519PublicKey ?r) 32"; cases "decode_sized (ad_inviteeX25519PublicKey ?r) 32";
        cases "decode_sized (ad_signature ?r) 64") (simp_all add: verifyAdmission_def)
  have w: "wrapping_admitted P input ed x"
    using assms(1) dec by (simp add: verifyAdmission_def Let_def split: option.splits if_splits)
  then obtain served where s: "decode_sized (va_inviteeWrappingKey input) 32 = Some served"
    by (auto simp: wrapping_admitted_def split: option.splits)
  show ?thesis
  proof (cases "served = x")
    case True
    with dec s show ?thesis by (auto simp: decode_sized_def split: option.splits if_splits)
  next
    case False
    with w s obtain h where h: "va_inviteeHistory input = Some h" "chainCarriesKeys P h ed x (ad_day ?r) served"
      by (auto simp: wrapping_admitted_def split: option.splits)
    note ok = buildOwnKeyHistory_ok(1,2) [OF assms(2) [OF h(1)]]
    from chainCarriesKeys_chain [OF ok(1) h(2)] ok(2) dec s show ?thesis
      by (auto simp: decode_sized_def split: option.splits if_splits)
  qed
qed

theorem admitted_wrapping_key_witness:
  "\<exists>ed x. base64ToBytes (ad_inviteeEd25519PublicKey sample_admission) = Some ed
     \<and> base64ToBytes (ad_inviteeX25519PublicKey sample_admission) = Some x
     \<and> base64ToBytes (va_inviteeWrappingKey sample_admission_input) = Some x"
proof -
  have "va_record sample_admission_input = sample_admission" "va_inviteeHistory sample_admission_input = None"
    by (simp_all add: sample_admission_input_def)
  with admitted_wrapping_key [OF sample_admitted] show ?thesis
    by (auto simp: sample_admission_input_def sample_admission_def base64.dec_enc)
qed

section \<open>Removals\<close>

text \<open>What makes a link of the generation chain good: a removal or a re-key some served key signed.\<close>

definition removal_signed :: "prims \<Rightarrow> VerifyRemovalsInput \<Rightarrow> RemovalLink \<Rightarrow> js_string \<Rightarrow> bool" where
  "removal_signed P input link removed \<longleftrightarrow>
     rl_rekeyedUserId link = None \<and> rl_removedUserId link = Some removed
     \<and> (\<exists>remover sig64 sig keys key payload.
          rl_removerUserId link = Some remover \<and> rl_startSignature link = Some sig64
          \<and> base64ToBytes sig64 = Some sig \<and> vi_keysFor input remover = Some keys \<and> key \<in> set keys
          \<and> rotationStartPayload (vi_groupId input) remover removed (rl_generation link + 1) = Inr payload
          \<and> verify P key RotationStart payload sig)"

definition rekey_signed :: "prims \<Rightarrow> VerifyRemovalsInput \<Rightarrow> RemovalLink \<Rightarrow> bool" where
  "rekey_signed P input link \<longleftrightarrow>
     rl_removedUserId link = None
     \<and> (\<exists>remover rekeyed reason sig64 sig keys key payload.
          rl_removerUserId link = Some remover \<and> rl_rekeyedUserId link = Some rekeyed
          \<and> rl_rekeyReason link = Some (reason_string reason) \<and> (reason = RekeySelf \<longleftrightarrow> rekeyed = remover)
          \<and> rl_startSignature link = Some sig64
          \<and> base64ToBytes sig64 = Some sig \<and> vi_keysFor input remover = Some keys \<and> key \<in> set keys
          \<and> rotationRekeyPayload (vi_groupId input) remover rekeyed (rl_generation link + 1) reason = Inr payload
          \<and> verify P key RotationRekey payload sig)"

lemma rekeyKindOk_Some:
  "rekeyKindOk reason signer rekeyed = Some k \<longleftrightarrow>
   reason = Some (reason_string k) \<and> (k = RekeySelf \<longleftrightarrow> rekeyed = signer)"
  by (cases k) (auto simp: rekeyKindOk_def)

lemma rekeyKindOk_string:
  "rekeyKindOk (Some (reason_string k)) signer rekeyed =
     (if k = RekeySelf \<longleftrightarrow> rekeyed = signer then Some k else None)"
  by (cases k) (auto simp: rekeyKindOk_def)

lemma rekeyKindOk_kinds:
  "rekeyKindOk (Some (js ''self'')) signer rekeyed = (if rekeyed = signer then Some RekeySelf else None)"
  "rekeyKindOk (Some (js ''approval'')) signer rekeyed = (if rekeyed \<noteq> signer then Some RekeyApproval else None)"
  by (simp_all add: rekeyKindOk_def)

lemma safe_payloads:
  assumes "isSafeInteger n"
  shows "\<exists>p. rotationStartPayload g a b n = Inr p" "\<exists>p. rotationRekeyPayload g a b n r = Inr p"
  using assms by (simp_all add: rotationStartPayload_def rotationRekeyPayload_def)

lemma verifyRekeyLink_ok:
  assumes "isSafeInteger n" "rl_rekeyedUserId link \<noteq> None" "n = rl_generation link + 1"
  shows "verifyRekeyLink P input n link \<noteq> None"
    "verifyRekeyLink P input n link = Some (Inr w) \<longleftrightarrow> rekey_signed P input link \<and> w = None"
proof -
  from assms(2) obtain rekeyed where rk: "rl_rekeyedUserId link = Some rekeyed" by blast
  have pl: "\<exists>p. rotationRekeyPayload (vi_groupId input) a b n r = Inr p" for a b r by (rule safe_payloads [OF assms(1)])
  show "verifyRekeyLink P input n link \<noteq> None"
    using assms(1) by (simp add: verifyRekeyLink_def Let_def rotationRekeyPayload_def split: option.split)
  show "verifyRekeyLink P input n link = Some (Inr w) \<longleftrightarrow> rekey_signed P input link \<and> w = None"
    using rk assms(1) unfolding verifyRekeyLink_def Let_def rekey_signed_def assms(3) [symmetric]
    by (auto simp: list_ex_iff rekeyKindOk_Some rekeyKindOk_string rekeyKindOk_kinds reason_string_inject
        rotationRekeyPayload_def split: option.splits if_splits)
qed

lemma verify_link_ok:
  assumes "isSafeInteger n" "n = rl_generation link + 1"
  shows "verify_link P input n link \<noteq> None"
    "verify_link P input n link = Some (Inr None) \<longleftrightarrow> rekey_signed P input link"
    "verify_link P input n link = Some (Inr (Some u)) \<longleftrightarrow> removal_signed P input link u"
proof -
  have pl: "\<exists>p. rotationStartPayload (vi_groupId input) a b n = Inr p" for a b by (rule safe_payloads [OF assms(1)])
  show "verify_link P input n link \<noteq> None"
    using verifyRekeyLink_ok(1) [OF assms(1) _ assms(2)] assms(1)
    by (auto simp: verify_link_def rotationStartPayload_def split: option.split)
  show "verify_link P input n link = Some (Inr None) \<longleftrightarrow> rekey_signed P input link"
  proof (cases "rl_rekeyedUserId link")
    case None
    then have "\<not> rekey_signed P input link" by (simp add: rekey_signed_def)
    with None show ?thesis by (auto simp: verify_link_def split: option.splits sum.splits if_splits)
  qed (use verifyRekeyLink_ok(2) [OF assms(1) _ assms(2)] in \<open>simp add: verify_link_def\<close>)
  show "verify_link P input n link = Some (Inr (Some u)) \<longleftrightarrow> removal_signed P input link u"
  proof (cases "rl_rekeyedUserId link")
    case None
    with pl show ?thesis
      unfolding verify_link_def removal_signed_def assms(2) [symmetric]
      by (auto simp: list_ex_iff split: option.splits sum.splits if_splits)
  qed (use verifyRekeyLink_ok(2) [OF assms(1) _ assms(2)] in \<open>simp add: verify_link_def removal_signed_def\<close>)
qed

lemma by_generation_Inr:
  "by_generation links m0 = Inr m \<Longrightarrow>
   (\<forall>g l. m g = Some l \<longleftrightarrow> m0 g = Some l \<or> l \<in> set links \<and> rl_generation l = g)
   \<and> distinct (map rl_generation links)
   \<and> (\<forall>l\<in>set links. m0 (rl_generation l) = None)"
proof (induction links arbitrary: m0)
  case (Cons link links)
  then have link: "m0 (rl_generation link) = None"
    and rest: "by_generation links (m0(rl_generation link \<mapsto> link)) = Inr m" by (auto split: if_splits)
  note ih = Cons.IH [OF rest]
  have new: "rl_generation l \<noteq> rl_generation link \<and> m0 (rl_generation l) = None" if "l \<in> set links" for l
    using ih that by (auto split: if_splits)
  have "m g = Some l \<longleftrightarrow> m0 g = Some l \<or> l \<in> set (link # links) \<and> rl_generation l = g" for g l
    using ih link new by (auto split: if_splits)
  moreover have "rl_generation link \<notin> rl_generation ` set links" using new by force
  then have "distinct (map rl_generation (link # links))" using ih by simp
  ultimately show ?case using link new by auto
qed simp

text \<open>The loop: every generation in its range has a good link, and the newest removal wins.\<close>

definition good_at :: "prims \<Rightarrow> VerifyRemovalsInput \<Rightarrow> (int \<rightharpoonup> RemovalLink) \<Rightarrow> int \<Rightarrow> bool" where
  "good_at P input B i \<longleftrightarrow>
     (\<exists>l. B i = Some l \<and> (rekey_signed P input l \<or> (\<exists>u. removal_signed P input l u)))"

definition removed_at :: "prims \<Rightarrow> VerifyRemovalsInput \<Rightarrow> (int \<rightharpoonup> RemovalLink) \<Rightarrow> int \<Rightarrow> js_string \<Rightarrow> bool" where
  "removed_at P input B i u \<longleftrightarrow> (\<exists>l. B i = Some l \<and> removal_signed P input l u)"

text \<open>No \<open>i\<close> in the half-open range satisfies \<open>R\<close>; the last \<open>i\<close> in it that does.\<close>

definition none_in :: "(int \<Rightarrow> bool) \<Rightarrow> int \<Rightarrow> int \<Rightarrow> bool" where
  "none_in R a b \<longleftrightarrow> (\<forall>i. a \<le> i \<and> i < b \<longrightarrow> \<not> R i)"

definition last_in :: "(int \<Rightarrow> bool) \<Rightarrow> int \<Rightarrow> int \<Rightarrow> int \<Rightarrow> bool" where
  "last_in R a b i \<longleftrightarrow> a \<le> i \<and> i < b \<and> R i \<and> none_in R (i + 1) b"

lemma none_in_step: "a < b \<Longrightarrow> none_in R a b \<longleftrightarrow> \<not> R a \<and> none_in R (a + 1) b"
  unfolding none_in_def by (metis order_le_less zless_imp_add1_zle le_less_trans less_add_one add1_zle_eq order_refl)

lemma last_in_step: "a < b \<Longrightarrow> last_in R a b i \<longleftrightarrow> last_in R (a + 1) b i \<or> i = a \<and> R a \<and> none_in R (a + 1) b"
  unfolding last_in_def by (metis add1_zle_eq order_le_less order_refl)

lemma removals_from_Inr:
  assumes "removals_from P input B k n m0 = Some (Inr m)"
    and B: "\<And>i l. B i = Some l \<Longrightarrow> rl_generation l = i"
    and "\<And>i. n \<le> i \<Longrightarrow> i < n + int k \<Longrightarrow> isSafeInteger (i + 1)"
  shows "(\<forall>i. n \<le> i \<and> i < n + int k \<longrightarrow> good_at P input B i)
    \<and> (\<forall>u g. m u = Some g \<longleftrightarrow>
          last_in (\<lambda>i. removed_at P input B i u) n (n + int k) (g - 1)
          \<or> m0 u = Some g \<and> none_in (\<lambda>i. removed_at P input B i u) n (n + int k))"
  using assms(1,3)
proof (induction k arbitrary: n m0)
  case 0
  then show ?case by (auto simp: none_in_def last_in_def)
next
  case (Suc k)
  let ?N = "n + int (Suc k)"
  have N: "n + 1 + int k = ?N" "n < ?N" by simp_all
  from Suc.prems(1) obtain link where link: "B n = Some link" by (auto split: option.splits)
  have gen: "rl_generation link = n" by (rule B [OF link])
  have safe: "isSafeInteger (n + 1)" using Suc.prems(2) [of n] by simp
  note vl = verify_link_ok [OF safe, of link P input, unfolded gen, OF refl]
  have rest: "isSafeInteger (i + 1)" if "n + 1 \<le> i" "i < n + 1 + int k" for i using Suc.prems(2) [of i] that by simp
  from Suc.prems(1) link vl(1) obtain w where w: "verify_link P input (n + 1) link = Some (Inr w)"
    by (cases "verify_link P input (n + 1) link"; cases "the (verify_link P input (n + 1) link)") auto
  show ?case
  proof (cases w)
    case None
    then have "rekey_signed P input link" using w vl(2) by simp
    then have good: "good_at P input B n" using link by (auto simp: good_at_def)
    have no: "\<not> removed_at P input B n u" for u using w None vl(3) [of u] link by (simp add: removed_at_def)
    have "removals_from P input B k (n + 1) m0 = Some (Inr m)" using Suc.prems(1) link w None by simp
    from Suc.IH [OF this rest] have ih: "\<forall>i. n + 1 \<le> i \<and> i < ?N \<longrightarrow> good_at P input B i"
      "\<And>u g. m u = Some g \<longleftrightarrow> last_in (\<lambda>i. removed_at P input B i u) (n + 1) ?N (g - 1)
          \<or> m0 u = Some g \<and> none_in (\<lambda>i. removed_at P input B i u) (n + 1) ?N" unfolding N(1) by blast+
    have "good_at P input B i" if "n \<le> i \<and> i < ?N" for i
      using ih(1) good that by (cases "i = n") auto
    then show ?thesis using ih(2) no by (simp only: none_in_step [OF N(2)] last_in_step [OF N(2)]) simp
  next
    case (Some u0)
    then have rem: "removal_signed P input link u \<longleftrightarrow> u = u0" for u using w vl(3) [of u] by auto
    then have good: "good_at P input B n" using link by (auto simp: good_at_def)
    have at: "removed_at P input B n u \<longleftrightarrow> u = u0" for u using rem link by (simp add: removed_at_def)
    have "removals_from P input B k (n + 1) (m0(u0 \<mapsto> n + 1)) = Some (Inr m)" using Suc.prems(1) link w Some by simp
    from Suc.IH [OF this rest] have ih: "\<forall>i. n + 1 \<le> i \<and> i < ?N \<longrightarrow> good_at P input B i"
      "\<And>u g. m u = Some g \<longleftrightarrow> last_in (\<lambda>i. removed_at P input B i u) (n + 1) ?N (g - 1)
          \<or> (m0(u0 \<mapsto> n + 1)) u = Some g \<and> none_in (\<lambda>i. removed_at P input B i u) (n + 1) ?N" unfolding N(1) by blast+
    have "good_at P input B i" if "n \<le> i \<and> i < ?N" for i
      using ih(1) good that by (cases "i = n") auto
    then show ?thesis
      using ih(2) at by (simp only: none_in_step [OF N(2)] last_in_step [OF N(2)]) (auto split: if_splits)
  qed
qed

text \<open>
  C26: a removal history that passes hides no removal.  When verifyRemovals succeeds, every
  generation below the caller's was created by exactly one link, which carries a removal or a
  re-key record for the next generation that a served key of its signer signed; and a user is
  reported removed at generation g exactly when the link of g - 1 is a signed removal of that
  user and no later link below the caller's generation removes them again.
\<close>
theorem verifyRemovals_sound:
  assumes "verifyRemovals P input = Some (Inr removedAt)"
  shows "(\<forall>n. 0 \<le> n \<and> n < vi_currentGeneration input \<longrightarrow>
      (\<exists>!l. l \<in> set (vi_links input) \<and> rl_generation l = n)
      \<and> (\<exists>l\<in>set (vi_links input). rl_generation l = n
           \<and> (rekey_signed P input l \<or> (\<exists>u. removal_signed P input l u))))
    \<and> (\<forall>u g. removedAt u = Some g \<longleftrightarrow>
      last_in (\<lambda>n. \<exists>l\<in>set (vi_links input). rl_generation l = n \<and> removal_signed P input l u)
        0 (vi_currentGeneration input) (g - 1))"
proof -
  let ?G = "vi_currentGeneration input"
  from assms have G: "isSafeInteger ?G" "0 \<le> ?G" by (auto simp: verifyRemovals_def split: if_splits)
  from assms G obtain B where B: "by_generation (vi_links input) Map.empty = Inr B"
    and run: "removals_from P input B (nat ?G) 0 Map.empty = Some (Inr removedAt)"
    by (auto simp: verifyRemovals_def split: sum.splits)
  note b = by_generation_Inr [OF B]
  have mem: "B n = Some l \<longleftrightarrow> l \<in> set (vi_links input) \<and> rl_generation l = n" for n l using b by simp
  have safe: "isSafeInteger (i + 1)" if "0 \<le> i" "i < 0 + int (nat ?G)" for i
    using that G by (simp add: isSafeInteger_def)
  note r = removals_from_Inr [OF run _ safe, unfolded mem]
  have N: "0 + int (nat ?G) = ?G" using G by simp
  have at: "removed_at P input B = (\<lambda>n u. \<exists>l\<in>set (vi_links input). rl_generation l = n \<and> removal_signed P input l u)"
    by (intro ext) (auto simp: removed_at_def mem)
  have "\<exists>!l. l \<in> set (vi_links input) \<and> rl_generation l = n" if "B n = Some l" for n l
    using that unfolding mem [symmetric] by auto
  then show ?thesis
    using r unfolding N at by (fastforce simp: good_at_def mem)
qed

definition sample_removal :: RemovalLink where
  "sample_removal = \<lparr>rl_generation = 0, rl_removerUserId = Some alice, rl_removedUserId = Some bob,
     rl_startSignature = Some (signed_b64 1 RotationStart
       (lengthPrefixedConcat [utf8_encode group1, utf8_encode alice, utf8_encode bob, utf8_encode (js_num 1)])),
     rl_rekeyedUserId = None, rl_rekeyReason = None\<rparr>"

definition sample_removals :: VerifyRemovalsInput where
  "sample_removals = \<lparr>vi_groupId = group1, vi_currentGeneration = 1, vi_links = [sample_removal],
     vi_keysFor = [alice \<mapsto> [seed_of 1]]\<rparr>"

lemma base64ToBytes_signed [simp]:
  "base64ToBytes (signed_b64 k ctx payload) = Some (sign sample (key_of k) ctx payload)"
  by (simp add: signed_b64_def base64.dec_enc)

lemma sample_removals_pass: "verifyRemovals sample sample_removals = Some (Inr [bob \<mapsto> 1])"
  by (simp add: verifyRemovals_def sample_removals_def sample_removal_def isSafeInteger_def
      verify_link_def rotationStartPayload_def)

theorem verifyRemovals_sound_witness:
  "verifyRemovals sample sample_removals = Some (Inr [bob \<mapsto> 1]) \<and>
   (\<exists>l\<in>set (vi_links sample_removals). removal_signed sample sample_removals l bob)"
proof -
  from verifyRemovals_sound [OF sample_removals_pass]
  have "last_in (\<lambda>n. \<exists>l\<in>set (vi_links sample_removals). rl_generation l = n \<and> removal_signed sample sample_removals l bob)
      0 (vi_currentGeneration sample_removals) (1 - 1)" by fastforce
  then show ?thesis using sample_removals_pass by (auto simp: last_in_def)
qed

lemma removals_from_total:
  assumes "\<And>i l. B i = Some l \<Longrightarrow> rl_generation l = i"
    and "\<And>i. n \<le> i \<Longrightarrow> i < n + int k \<Longrightarrow> isSafeInteger (i + 1)"
  shows "removals_from P input B k n m0 \<noteq> None"
  using assms(2)
proof (induction k arbitrary: n m0)
  case (Suc k)
  have "removals_from P input B k (n + 1) m \<noteq> None" for m
    using Suc.prems by (intro Suc.IH) auto
  moreover have "verify_link P input (n + 1) link \<noteq> None" if "B n = Some link" for link
  proof (rule verify_link_ok(1))
    show "isSafeInteger (n + 1)" by (rule Suc.prems) simp_all
    show "n + 1 = rl_generation link + 1" by (simp only: assms(1) [OF that])
  qed
  ultimately show ?case by (auto split: option.split sum.split)
qed simp

text \<open>
  VerifyRemovals never throws.  Whatever links, generations and signatures the server
  serves, the check ends in a verdict: the payload builders, which throw on a generation that
  is not a safe integer, are only reached with generations that are.
\<close>
theorem verifyRemovals_total: "\<exists>verdict. verifyRemovals P input = Some verdict"
proof -
  let ?G = "vi_currentGeneration input"
  have "removals_from P input B (nat ?G) 0 Map.empty \<noteq> None"
    if "isSafeInteger ?G" "0 \<le> ?G" "by_generation (vi_links input) Map.empty = Inr B" for B
  proof (rule removals_from_total)
    show "rl_generation l = i" if "B i = Some l" for i l
      using by_generation_Inr [OF \<open>by_generation (vi_links input) Map.empty = Inr B\<close>] that by simp
    show "isSafeInteger (i + 1)" if "0 \<le> i" "i < 0 + int (nat ?G)" for i
      using that \<open>isSafeInteger ?G\<close> \<open>0 \<le> ?G\<close> by (simp add: isSafeInteger_def)
  qed
  then show ?thesis by (auto simp: verifyRemovals_def split: sum.split)
qed

end
