(* ===== verification/Items.thy ===== *)
theory Items
  imports Signing Calendar
begin

text \<open>
  The plaintext layouts of what a member writes and keeps: post.ts, comment.ts, reaction.ts and
  keybundle.ts.  The encoders fill an allocated array with \<open>appendLengthPrefixed\<close>; the decoders
  read it back with the checks, in the order, of the code.  A thrown error is \<open>Inl\<close>.
\<close>

section \<open>Timestamps\<close>

text \<open>\<open>new Date(ms).toISOString()\<close>: the date, then the time of day to the millisecond.\<close>

definition digits3 :: "int \<Rightarrow> js_string" where
  "digits3 n = [digit (nat n div 100 mod 10), digit (nat n div 10 mod 10), digit (nat n mod 10)]"

definition iso_time :: "int \<Rightarrow> js_string" where
  "iso_time ms = 84 # digits2 (ms div 3600000) @ 58 # digits2 (ms div 60000 mod 60)
     @ 58 # digits2 (ms div 1000 mod 60) @ 46 # digits3 (ms mod 1000) @ [90]"

definition toISOString :: "int \<Rightarrow> js_string" where
  "toISOString ms = (case civil (ms div DAY_MS) of
     (y, m, d) \<Rightarrow> iso_year y @ 45 # digits2 m @ 45 # digits2 d @ iso_time (ms mod DAY_MS))"

text \<open>\<open>AT_PATTERN\<close>: \<open>d\<close> stands for a digit, every other character for itself.\<close>

definition at_shape :: "js_string \<Rightarrow> bool" where
  "at_shape s \<longleftrightarrow>
     list_all2 (\<lambda>c u. if c = CHR ''d'' then is_digit u else u = of_char c) ''dddd-dd-ddTdd:dd:dd.dddZ'' s"

section \<open>post.ts and comment.ts\<close>

definition POST_VERSION :: byte where "POST_VERSION = 1"
definition POST_EDITED_VERSION :: byte where "POST_EDITED_VERSION = 2"
definition EDITED_AT_BYTES :: nat where "EDITED_AT_BYTES = 4 + 24"
definition POST_ENVELOPE_BYTES :: nat where "POST_ENVELOPE_BYTES = 1 + 3 * 4 + 24"
definition GCM_TAG_BYTES :: nat where "GCM_TAG_BYTES = 16"
definition SERVER_ENVELOPE_ALLOWANCE :: nat where "SERVER_ENVELOPE_ALLOWANCE = 64"

record PostContent =
  po_title :: js_string
  po_body :: js_string
  po_at :: js_string
  po_editedAt :: "js_string option"

definition utf8Length :: "js_string \<Rightarrow> nat" where
  "utf8Length s = length (utf8_encode s)"

text \<open>The allocated array: the version byte, then every field behind its length.\<close>

definition layout :: "byte \<Rightarrow> bytes list \<Rightarrow> bytes result" where
  "layout version parts =
     (case write_fields (version # replicate (fields_size parts) 0) 1 parts of
        None \<Rightarrow> Inl ''RangeError'' | Some out \<Rightarrow> Inr out)"

definition encodePost :: "PostContent \<Rightarrow> bytes result" where
  "encodePost content =
     (if \<not> at_shape (po_at content) then Inl ''post: at must be an RFC 3339 UTC time with milliseconds''
      else case po_editedAt content of
        None \<Rightarrow>
          layout POST_VERSION
            [utf8_encode (po_title content), utf8_encode (po_body content), utf8_encode (po_at content)]
      | Some e \<Rightarrow>
          if \<not> at_shape e then Inl ''post: editedAt must be an RFC 3339 UTC time with milliseconds''
          else layout POST_EDITED_VERSION
                 [utf8_encode (po_title content), utf8_encode (po_body content),
                  utf8_encode (po_at content), utf8_encode e])"

text \<open>
  The reading loop a post and a comment share, for \<open>cnt\<close> fields from \<open>offset\<close> on: the strings
  and the offset behind them.  \<open>name\<close> starts the messages.
\<close>

fun read_fields :: "string \<Rightarrow> nat \<Rightarrow> nat \<Rightarrow> bytes \<Rightarrow> (js_string list \<times> nat) result" where
  "read_fields name 0 offset bs = Inr ([], offset)"
| "read_fields name (Suc cnt) offset bs =
     (if length bs < offset + 4 then Inl (name @ '': truncated'')
      else let len = be32_value (take 4 (drop offset bs)); start = offset + 4
           in if length bs - start < len then Inl (name @ '': field runs past the end'')
              else case utf8_decode (take len (drop start bs)) of
                None \<Rightarrow> Inl ''TypeError''
              | Some s \<Rightarrow>
                  (case read_fields name cnt (start + len) bs of
                     Inl e \<Rightarrow> Inl e
                   | Inr (parts, end_offset) \<Rightarrow> Inr (s # parts, end_offset)))"

definition read_layout :: "string \<Rightarrow> nat option \<Rightarrow> bytes \<Rightarrow> js_string list result" where
  "read_layout name cnt bs =
     (case cnt of
        None \<Rightarrow> Inl (name @ '': unknown or truncated layout'')
      | Some n \<Rightarrow>
          if length bs < 1 + n * 4 then Inl (name @ '': unknown or truncated layout'')
          else case read_fields name n 1 bs of
            Inl e \<Rightarrow> Inl e
          | Inr (parts, offset) \<Rightarrow>
              if offset \<noteq> length bs then Inl (name @ '': trailing bytes'') else Inr parts)"

definition version_count :: "byte \<Rightarrow> nat \<Rightarrow> byte \<Rightarrow> nat \<Rightarrow> bytes \<Rightarrow> nat option" where
  "version_count plain n edited m bs =
     (case bs of [] \<Rightarrow> None | b # _ \<Rightarrow> if b = plain then Some n else if b = edited then Some m else None)"

definition decodePost :: "bytes \<Rightarrow> PostContent result" where
  "decodePost bs =
     (case read_layout ''post'' (version_count POST_VERSION 3 POST_EDITED_VERSION 4 bs) bs of
        Inl e \<Rightarrow> Inl e
      | Inr parts \<Rightarrow>
          let title = parts ! 0; body = parts ! 1; at = parts ! 2;
              editedAt = (if length parts = 4 then Some (parts ! 3) else None)
          in if \<not> at_shape at \<or> (case editedAt of None \<Rightarrow> False | Some e \<Rightarrow> \<not> at_shape e)
             then Inl ''post: malformed time''
             else Inr \<lparr>po_title = title, po_body = body, po_at = at, po_editedAt = editedAt\<rparr>)"

definition postCiphertextLength :: "nat \<Rightarrow> nat \<Rightarrow> nat" where
  "postCiphertextLength titleBytes bodyBytes = titleBytes + bodyBytes + POST_ENVELOPE_BYTES + GCM_TAG_BYTES"

definition COMMENT_VERSION :: byte where "COMMENT_VERSION = 1"
definition COMMENT_EDITED_VERSION :: byte where "COMMENT_EDITED_VERSION = 2"
definition COMMENT_ENVELOPE_BYTES :: nat where "COMMENT_ENVELOPE_BYTES = 1 + 2 * 4 + 24"

record CommentContent =
  co_text :: js_string
  co_at :: js_string
  co_editedAt :: "js_string option"

definition encodeComment :: "CommentContent \<Rightarrow> bytes result" where
  "encodeComment content =
     (if \<not> at_shape (co_at content) then Inl ''comment: at must be an RFC 3339 UTC time with milliseconds''
      else case co_editedAt content of
        None \<Rightarrow> layout COMMENT_VERSION [utf8_encode (co_text content), utf8_encode (co_at content)]
      | Some e \<Rightarrow>
          if \<not> at_shape e then Inl ''comment: editedAt must be an RFC 3339 UTC time with milliseconds''
          else layout COMMENT_EDITED_VERSION
                 [utf8_encode (co_text content), utf8_encode (co_at content), utf8_encode e])"

definition decodeComment :: "bytes \<Rightarrow> CommentContent result" where
  "decodeComment bs =
     (case read_layout ''comment'' (version_count COMMENT_VERSION 2 COMMENT_EDITED_VERSION 3 bs) bs of
        Inl e \<Rightarrow> Inl e
      | Inr parts \<Rightarrow>
          let txt = parts ! 0; at = parts ! 1;
              editedAt = (if length parts = 3 then Some (parts ! 2) else None)
          in if \<not> at_shape at \<or> (case editedAt of None \<Rightarrow> False | Some e \<Rightarrow> \<not> at_shape e)
             then Inl ''comment: malformed time''
             else Inr \<lparr>co_text = txt, co_at = at, co_editedAt = editedAt\<rparr>)"

section \<open>reaction.ts\<close>

definition REACTION_PLAINTEXT_BYTES :: nat where "REACTION_PLAINTEXT_BYTES = 1"
definition REACTION_CIPHERTEXT_BYTES :: nat where "REACTION_CIPHERTEXT_BYTES = 17"

record ReactionKind =
  rk_index :: nat
  rk_emoji :: js_string
  rk_label :: js_string

text \<open>The emoji as UTF-16: U+1F44D is the pair D83D DC4D, and so on.\<close>

definition REACTIONS :: "ReactionKind list" where
  "REACTIONS =
     [\<lparr>rk_index = 1, rk_emoji = [0xD83D, 0xDC4D], rk_label = js ''Thumbs up''\<rparr>,
      \<lparr>rk_index = 2, rk_emoji = [0x2764, 0xFE0F], rk_label = js ''Heart''\<rparr>,
      \<lparr>rk_index = 3, rk_emoji = [0xD83D, 0xDE02], rk_label = js ''Laughing''\<rparr>,
      \<lparr>rk_index = 4, rk_emoji = [0xD83D, 0xDE2E], rk_label = js ''Surprised''\<rparr>,
      \<lparr>rk_index = 5, rk_emoji = [0xD83D, 0xDE22], rk_label = js ''Sad''\<rparr>,
      \<lparr>rk_index = 6, rk_emoji = [0xD83C, 0xDF89], rk_label = js ''Celebrate''\<rparr>,
      \<lparr>rk_index = 7, rk_emoji = [0xD83D, 0xDE21], rk_label = js ''Angry''\<rparr>]"

definition BY_INDEX :: "nat \<rightharpoonup> ReactionKind" where
  "BY_INDEX = map_of (rev (map (\<lambda>r. (rk_index r, r)) REACTIONS))"

definition reactionOf :: "nat \<Rightarrow> ReactionKind option" where
  "reactionOf index = BY_INDEX index"

definition encodeReaction :: "nat \<Rightarrow> bytes result" where
  "encodeReaction index =
     (if BY_INDEX index = None then Inl ''reaction: not a known reaction'' else Inr [of_nat index])"

definition decodeReaction :: "bytes \<Rightarrow> nat result" where
  "decodeReaction bs =
     (case bs of
        [] \<Rightarrow> Inl ''reaction: unknown or malformed''
      | b # _ \<Rightarrow>
          if length bs \<noteq> REACTION_PLAINTEXT_BYTES \<or> BY_INDEX (unat b) = None
          then Inl ''reaction: unknown or malformed'' else Inr (unat b))"

section \<open>keybundle.ts\<close>

definition KEY_BUNDLE_VERSION_1 :: byte where "KEY_BUNDLE_VERSION_1 = 1"
definition SIGNING_SEED_SIZE :: nat where "SIGNING_SEED_SIZE = 32"
definition WRAPPING_KEY_SIZE :: nat where "WRAPPING_KEY_SIZE = 32"

record KeyBundle =
  kb_signingSeed :: bytes
  kb_wrappingPrivateKey :: bytes

definition MalformedKeyBundle :: string where "MalformedKeyBundle = ''crypto: malformed key bundle''"
definition UnsupportedKeyBundleVersion :: string where
  "UnsupportedKeyBundleVersion = ''crypto: unsupported key bundle version''"

definition encodeKeyBundle :: "KeyBundle \<Rightarrow> bytes result" where
  "encodeKeyBundle b =
     (if length (kb_signingSeed b) \<noteq> SIGNING_SEED_SIZE
         \<or> length (kb_wrappingPrivateKey b) \<noteq> WRAPPING_KEY_SIZE
      then Inl MalformedKeyBundle
      else layout KEY_BUNDLE_VERSION_1 [kb_signingSeed b, kb_wrappingPrivateKey b])"

definition readLengthPrefixed :: "bytes \<Rightarrow> nat \<Rightarrow> (bytes \<times> nat) result" where
  "readLengthPrefixed data offset =
     (if length data < offset + 4 then Inl MalformedKeyBundle
      else let n = be32_value (take 4 (drop offset data)); fieldStart = offset + 4; fieldEnd = fieldStart + n
           in if length data < fieldEnd then Inl MalformedKeyBundle
              else Inr (take n (drop fieldStart data), fieldEnd))"

definition decodeKeyBundle :: "bytes \<Rightarrow> KeyBundle result" where
  "decodeKeyBundle data =
     (case data of
        [] \<Rightarrow> Inl MalformedKeyBundle
      | version # _ \<Rightarrow>
          if version \<noteq> KEY_BUNDLE_VERSION_1 then Inl UnsupportedKeyBundleVersion
          else case readLengthPrefixed data 1 of
            Inl e \<Rightarrow> Inl e
          | Inr (signingSeed, afterSeed) \<Rightarrow>
              if length signingSeed \<noteq> SIGNING_SEED_SIZE then Inl MalformedKeyBundle
              else case readLengthPrefixed data afterSeed of
                Inl e \<Rightarrow> Inl e
              | Inr (wrappingPrivateKey, afterWrap) \<Rightarrow>
                  if length wrappingPrivateKey \<noteq> WRAPPING_KEY_SIZE then Inl MalformedKeyBundle
                  else if afterWrap \<noteq> length data then Inl MalformedKeyBundle
                  else Inr \<lparr>kb_signingSeed = signingSeed, kb_wrappingPrivateKey = wrappingPrivateKey\<rparr>)"

end
