(* ===== verification/Item_Codecs.thy ===== *)
theory Item_Codecs
  imports Items Payloads
begin

text \<open>The round trips of the stored layouts, and what else their decoders accept.\<close>

section \<open>Timestamps\<close>

lemma at_shape_split:
  "at_shape (y @ 45 # m @ 45 # d @ 84 # h @ 58 # n @ 58 # s @ 46 # z @ [90]) \<longleftrightarrow>
     list_all is_digit (y @ m @ d @ h @ n @ s @ z)"
  if "length y = 4" "length m = 2" "length d = 2" "length h = 2" "length n = 2" "length s = 2" "length z = 3"
  using that
  by (auto simp: at_shape_def length_Suc_conv eval_nat_numeral list_all2_Cons1 list_all2_Cons2)

lemma digits_digit [simp]:
  "list_all is_digit (digits2 n)" "list_all is_digit (digits3 n)" "list_all is_digit (digits4 n)"
  "length (digits2 n) = 2" "length (digits3 n) = 3" "length (digits4 n) = 4"
  by (simp_all add: digits2_def digits3_def digits4_def)

text \<open>A year of four digits: the clock of every client until the year 10000.\<close>

definition plain_year :: "int \<Rightarrow> bool" where
  "plain_year ms \<longleftrightarrow> (case civil (ms div DAY_MS) of (y, m, d) \<Rightarrow> 0 \<le> y \<and> y \<le> 9999)"

lemma toISOString_shape: "plain_year ms \<Longrightarrow> at_shape (toISOString ms)"
  by (auto simp: plain_year_def toISOString_def iso_time_def iso_year_def at_shape_split split: prod.splits)

lemma length_padStart: "length (padStart n u s) = max n (length s)"
  by (simp add: padStart_def)

lemma take_10_toISOString [simp]: "take 10 (toISOString ms) = isoDay ms"
proof -
  have "take 10 (y @ a @ b) = take 10 (y @ a)" if "10 \<le> length (y @ a)" for y a b :: js_string
    using that by simp
  then show ?thesis
    by (cases "civil (ms div DAY_MS)")
      (auto simp: toISOString_def isoDay_def iso_year_def length_padStart take_Cons' take_append)
qed

lemma at_shape_length: "at_shape s \<Longrightarrow> length s = 24"
  unfolding at_shape_def by (drule list_all2_lengthD) simp

lemma at_shape_ascii: "at_shape s \<Longrightarrow> list_all (\<lambda>u. unat u < 128) s"
proof -
  let ?P = "\<lambda>c u. if c = CHR ''d'' then is_digit u else u = of_char c"
  have "list_all (\<lambda>u. unat u < 128) s" if "list_all2 ?P t s" "ascii t" for t
    using that
  proof (induction t s rule: list_all2_induct)
    case (Cons c t u s)
    then show ?case
      by (cases "c = CHR ''d''") (simp_all add: ascii_def is_digit_unat unat_of_char_ascii)
  qed simp
  moreover have "ascii ''dddd-dd-ddTdd:dd:dd.dddZ''" by (simp add: ascii_def)
  moreover assume "at_shape s"
  ultimately show ?thesis by (simp only: at_shape_def)
qed

lemma at_shape_text: "at_shape s \<Longrightarrow> text_ok s \<and> length (utf8_encode s) = 24"
  using at_shape_ascii [of s] at_shape_length [of s]
  by (auto simp: text_ok_def isWellFormed_below_128 utf8_encode_below_128)

section \<open>The shared layout\<close>

lemma layout_eq [simp]: "layout v fs = Inr (v # lengthPrefixedConcat fs)"
  using write_fields_append [of "[v]" fs 0] by (simp add: layout_def fields_size_eq)

lemma take_drop_middle: "length a = n \<Longrightarrow> take (length b) (drop n (a @ b @ c)) = b"
  by simp

lemma lengthPrefixedConcat_Cons: "lengthPrefixedConcat (f # fs) = be32 (length f) @ f @ lengthPrefixedConcat fs"
  by (simp add: lengthPrefixedConcat_def)

lemma read_fields_encoded:
  assumes "list_all text_ok ss" "list_all short (map utf8_encode ss)"
  shows "read_fields name (length ss) (length pre) (pre @ lengthPrefixedConcat (map utf8_encode ss) @ post)
    = Inr (ss, length pre + length (lengthPrefixedConcat (map utf8_encode ss)))"
  using assms
proof (induction ss arbitrary: pre)
  case (Cons s ss)
  let ?b = "utf8_encode s" and ?r = "lengthPrefixedConcat (map utf8_encode ss)"
  let ?bs = "pre @ be32 (length ?b) @ ?b @ ?r @ post"
  have "take 4 (drop (length pre) ?bs) = be32 (length ?b)" by simp
  moreover have "take (length ?b) (drop (length pre + 4) ?bs) = ?b" by (simp add: drop_append)
  moreover have "length ?b < 4294967296" using Cons.prems(2) by (simp add: short_def)
  moreover have "read_fields name (length ss) (length pre + 4 + length ?b) ?bs
      = Inr (ss, length pre + 4 + length ?b + length ?r)"
    using Cons.IH [of "pre @ be32 (length ?b) @ ?b"] Cons.prems by (simp add: add.assoc)
  ultimately show ?case
    using Cons.prems by (simp add: lengthPrefixedConcat_Cons Let_def utf8_decode_encode)
qed (simp add: lengthPrefixedConcat_def)

lemma read_layout_encoded:
  assumes "list_all text_ok ss" "list_all short (map utf8_encode ss)"
  shows "read_layout name (Some (length ss)) (v # lengthPrefixedConcat (map utf8_encode ss)) = Inr ss"
proof -
  have "length fs * 4 \<le> length (lengthPrefixedConcat fs)" for fs :: "bytes list"
    by (induction fs) (simp_all add: lengthPrefixedConcat_Cons lengthPrefixedConcat_def)
  from this [of "map utf8_encode ss"] read_fields_encoded [OF assms, of name "[v]" "[]"]
  show ?thesis by (simp add: read_layout_def)
qed

section \<open>What the decoders accept\<close>

lemma code_points_utf16:
  "list_all scalar ps \<Longrightarrow> code_points (concat (map utf16_of ps)) = ps \<and> isWellFormed (concat (map utf16_of ps))"
proof (induction ps)
  case (Cons p ps)
  let ?r = "concat (map utf16_of ps)"
  from Cons have p: "scalar p" and ih: "code_points ?r = ps" "isWellFormed ?r" by simp_all
  show ?case
  proof (cases "p < 0x10000")
    case True
    then have u: "utf16_of p = [unit_of p]" "\<not> is_high (unit_of p)" "\<not> is_low (unit_of p)" "unat (unit_of p) = p"
      using p by (auto simp: utf16_of_def is_high_nat is_low_nat scalar_def)
    then show ?thesis using ih by (cases ?r) (auto simp: lone_def)
  next
    case False
    let ?q = "p - 0x10000"
    have "?q < 1024 * 1024" using p by (auto simp: scalar_def)
    then have "?q div 1024 < 1024" by (rule less_mult_imp_div_less)
    moreover have m: "?q mod 1024 < 1024" by simp
    ultimately have u: "utf16_of p = [unit_of (0xD800 + ?q div 1024), unit_of (0xDC00 + ?q mod 1024)]"
      "unat (unit_of (0xD800 + ?q div 1024)) = 0xD800 + ?q div 1024"
      "unat (unit_of (0xDC00 + ?q mod 1024)) = 0xDC00 + ?q mod 1024"
      "is_high (unit_of (0xD800 + ?q div 1024))" "is_low (unit_of (0xDC00 + ?q mod 1024))"
      using False by (simp_all add: utf16_of_def is_high_nat is_low_nat)
    have "0x10000 + ?q div 1024 * 1024 + ?q mod 1024 = p"
      using False div_mult_mod_eq [of ?q 1024] by linarith
    then show ?thesis using u ih by (simp del: div_mult_mod_eq)
  qed
qed simp

lemma utf8_decode_canonical:
  "utf8_decode b = Some s \<Longrightarrow> isWellFormed s \<and> utf8_encode s = strip_bom b"
  using utf8_points_canonical [of "strip_bom b"] code_points_utf16
  by (auto simp: utf8_decode_def utf8_encode_def)

lemma be32_bytes: "length q = 4 \<Longrightarrow> be32 (be32_value q) = q"
proof -
  assume "length q = 4"
  then obtain a b c d where q: "q = [a, b, c, d]"
    by (auto simp: length_Suc_conv eval_nat_numeral)
  let ?A = "unat a" and ?B = "unat b" and ?C = "unat c" and ?D = "unat d"
  have less: "?A < 256" "?B < 256" "?C < 256" "?D < 256" by (rule byte_bound)+
  have h: "x * 256 + r = y \<Longrightarrow> r < 256 \<Longrightarrow> y div 256 = x \<and> y mod 256 = r" for x r y :: nat by auto
  let ?n = "?A * 16777216 + ?B * 65536 + ?C * 256 + ?D"
  have 1: "?n div 256 = ?A * 65536 + ?B * 256 + ?C \<and> ?n mod 256 = ?D" by (rule h) (use less in simp_all)
  have 2: "(?A * 65536 + ?B * 256 + ?C) div 256 = ?A * 256 + ?B \<and> (?A * 65536 + ?B * 256 + ?C) mod 256 = ?C"
    by (rule h) (use less in simp_all)
  have 3: "(?A * 256 + ?B) div 256 = ?A \<and> (?A * 256 + ?B) mod 256 = ?B" by (rule h) (use less in simp_all)
  have m: "(of_nat (x mod 256) :: byte) = of_nat x" for x
    by (simp add: word_of_nat_eq_iff take_bit_eq_mod)
  have d2: "?n div 65536 = ?n div 256 div 256" "?n div 16777216 = ?n div 256 div 256 div 256"
    by (simp_all add: div_mult2_eq [symmetric])
  have "(of_nat ?n :: byte) = d" using m [of ?n] 1 by simp
  moreover have "(of_nat (?n div 256) :: byte) = c" using m [of "?n div 256"] 1 2 by simp
  moreover have "(of_nat (?n div 65536) :: byte) = b" using m [of "?n div 65536"] 1 2 3 d2 by simp
  moreover have "(of_nat (?n div 16777216) :: byte) = a" using 1 2 3 d2 by simp
  ultimately show ?thesis unfolding q be32_value.simps be32_def by (simp only:)
qed

lemma read_fields_Inr:
  assumes "read_fields name cnt offset bs = Inr (ss, stop)" "offset \<le> length bs"
  shows "\<exists>raw. length raw = cnt \<and> stop \<le> length bs
    \<and> take stop bs = take offset bs @ lengthPrefixedConcat raw
    \<and> list_all2 (\<lambda>r s. isWellFormed s \<and> utf8_encode s = strip_bom r) raw ss"
  using assms
proof (induction name cnt offset bs arbitrary: ss stop rule: read_fields.induct)
  case (1 name offset bs)
  then show ?case by (auto simp: lengthPrefixedConcat_def)
next
  case (2 name cnt offset bs)
  let ?len = "be32_value (take 4 (drop offset bs))" and ?start = "offset + 4"
  from 2(2) have len: "\<not> length bs < offset + 4" "\<not> length bs - ?start < ?len"
    by (auto simp: Let_def split: if_splits)
  let ?r = "take ?len (drop ?start bs)"
  from 2(2) len obtain s where s: "utf8_decode ?r = Some s"
    by (cases "utf8_decode ?r") (simp_all add: Let_def)
  from 2(2) len s obtain rest where rest: "read_fields name cnt (?start + ?len) bs = Inr (rest, stop)" "ss = s # rest"
    by (auto simp: Let_def split: sum.splits)
  have "?start + ?len \<le> length bs" using len by simp
  from 2(1) [OF len(1) refl refl len(2) s rest(1) this] obtain raw where raw: "length raw = cnt" "stop \<le> length bs"
    "take stop bs = take (?start + ?len) bs @ lengthPrefixedConcat raw"
    "list_all2 (\<lambda>r s. isWellFormed s \<and> utf8_encode s = strip_bom r) raw rest" by blast
  have "length ?r = ?len" using len by simp
  then have "lengthPrefixedConcat (?r # raw) = take 4 (drop offset bs) @ ?r @ lengthPrefixedConcat raw"
    using len be32_bytes [of "take 4 (drop offset bs)"] by (simp add: lengthPrefixedConcat_Cons)
  moreover have "take (?start + ?len) bs = take offset bs @ take 4 (drop offset bs) @ ?r"
    by (simp add: take_add)
  ultimately have "take stop bs = take offset bs @ lengthPrefixedConcat (?r # raw)" using raw(3) by simp
  then show ?case using raw(1,2,4) rest(2) utf8_decode_canonical [OF s] by (intro exI [of _ "?r # raw"]) auto
qed

lemma read_layout_Inr:
  assumes "read_layout name cnt bs = Inr ss"
  shows "\<exists>raw v n. cnt = Some n \<and> length raw = n \<and> bs = v # lengthPrefixedConcat raw
    \<and> list_all2 (\<lambda>r s. isWellFormed s \<and> utf8_encode s = strip_bom r) raw ss"
proof -
  from assms obtain n where n: "cnt = Some n" "1 + n * 4 \<le> length bs" "read_fields name n 1 bs = Inr (ss, length bs)"
    by (auto simp: read_layout_def split: option.splits sum.splits if_splits)
  from read_fields_Inr [OF n(3)] n(2) obtain raw where raw: "length raw = n"
    "bs = take 1 bs @ lengthPrefixedConcat raw"
    "list_all2 (\<lambda>r s. isWellFormed s \<and> utf8_encode s = strip_bom r) raw ss" by auto
  from n(2) obtain v where "take 1 bs = [v]" by (cases bs) simp_all
  with raw n(1) show ?thesis by (intro exI [of _ raw] exI [of _ v] exI [of _ n]) simp
qed

section \<open>Posts and comments\<close>

text \<open>A time the layouts accept, and a text that survives them.\<close>

definition time_option_ok :: "js_string option \<Rightarrow> bool" where
  "time_option_ok t \<longleftrightarrow> (case t of None \<Rightarrow> True | Some e \<Rightarrow> at_shape e)"

definition text_field_ok :: "js_string \<Rightarrow> bool" where
  "text_field_ok s \<longleftrightarrow> text_ok s \<and> short (utf8_encode s)"

lemma at_shape_field: "at_shape s \<Longrightarrow> text_field_ok s"
  using at_shape_text [of s] by (simp add: text_field_ok_def short_def)

lemma text_fields_ok:
  "list_all text_field_ok ss \<Longrightarrow> list_all text_ok ss \<and> list_all short (map utf8_encode ss)"
  by (induction ss) (simp_all add: text_field_ok_def)

definition post_parts :: "PostContent \<Rightarrow> js_string list" where
  "post_parts c = [po_title c, po_body c, po_at c] @ (case po_editedAt c of None \<Rightarrow> [] | Some e \<Rightarrow> [e])"

definition post_version :: "PostContent \<Rightarrow> byte" where
  "post_version c = (case po_editedAt c of None \<Rightarrow> POST_VERSION | Some e \<Rightarrow> POST_EDITED_VERSION)"

lemma encodePost_eq:
  "encodePost c = Inr bs \<longleftrightarrow> at_shape (po_at c) \<and> time_option_ok (po_editedAt c)
     \<and> bs = post_version c # lengthPrefixedConcat (map utf8_encode (post_parts c))"
  by (auto simp: encodePost_def time_option_ok_def post_version_def post_parts_def split: option.splits)

definition post_ok :: "PostContent \<Rightarrow> bool" where
  "post_ok c \<longleftrightarrow> text_field_ok (po_title c) \<and> text_field_ok (po_body c)
     \<and> at_shape (po_at c) \<and> time_option_ok (po_editedAt c)"

lemma post_encodes: "post_ok c \<Longrightarrow> \<exists>bs. encodePost c = Inr bs"
  by (simp add: encodePost_eq post_ok_def)

lemma post_decodes:
  assumes "post_ok c" "encodePost c = Inr bs"
  shows "decodePost bs = Inr c"
proof -
  have ok: "list_all text_field_ok (post_parts c)"
    using assms(1) at_shape_field
    by (auto simp: post_ok_def post_parts_def time_option_ok_def split: option.splits)
  have bs: "bs = post_version c # lengthPrefixedConcat (map utf8_encode (post_parts c))"
    using assms(2) by (simp add: encodePost_eq)
  have "version_count POST_VERSION 3 POST_EDITED_VERSION 4 bs = Some (length (post_parts c))"
    by (simp add: bs version_count_def post_version_def post_parts_def POST_VERSION_def POST_EDITED_VERSION_def
        split: option.split)
  then have "read_layout ''post'' (version_count POST_VERSION 3 POST_EDITED_VERSION 4 bs) bs = Inr (post_parts c)"
    using read_layout_encoded text_fields_ok [OF ok] bs by simp
  then show ?thesis
    using assms(1)
    by (cases c, cases "po_editedAt c")
      (simp_all add: decodePost_def post_parts_def post_ok_def time_option_ok_def)
qed

lemma post_length:
  assumes "encodePost c = Inr bs"
  shows "length bs = POST_ENVELOPE_BYTES + utf8Length (po_title c) + utf8Length (po_body c)
    + (if po_editedAt c = None then 0 else EDITED_AT_BYTES)"
  using assms at_shape_text
  by (auto simp: encodePost_eq post_parts_def time_option_ok_def lengthPrefixedConcat_Cons
      lengthPrefixedConcat_def [of "[]"] POST_ENVELOPE_BYTES_def EDITED_AT_BYTES_def utf8Length_def
      split: option.splits)

lemma list_all2_length3:
  "list_all2 P raw ss \<Longrightarrow> length raw = 3 \<Longrightarrow> \<exists>a b c. ss = [a, b, c]"
  "list_all2 P raw ss \<Longrightarrow> length raw = 4 \<Longrightarrow> \<exists>a b c d. ss = [a, b, c, d]"
  "list_all2 P raw ss \<Longrightarrow> length raw = 2 \<Longrightarrow> \<exists>a b. ss = [a, b]"
  by (drule list_all2_lengthD; auto simp: length_Suc_conv eval_nat_numeral)+

text \<open>The bytes a decoded post came from: its layout, up to a byte order mark before a field.\<close>

lemma decodePost_Inr:
  assumes "decodePost bs = Inr c"
  shows "\<exists>raw. bs = post_version c # lengthPrefixedConcat raw
    \<and> list_all2 (\<lambda>r s. isWellFormed s \<and> utf8_encode s = strip_bom r) raw (post_parts c)
    \<and> at_shape (po_at c) \<and> time_option_ok (po_editedAt c)"
proof -
  let ?n = "version_count POST_VERSION 3 POST_EDITED_VERSION 4 bs"
  from assms obtain ss where ss: "read_layout ''post'' ?n bs = Inr ss"
    by (auto simp: decodePost_def split: sum.splits)
  from read_layout_Inr [OF this] obtain raw v n where raw: "?n = Some n" "length raw = n"
    "bs = v # lengthPrefixedConcat raw"
    "list_all2 (\<lambda>r s. isWellFormed s \<and> utf8_encode s = strip_bom r) raw ss" by blast
  from raw(1,3) consider "n = 3" "v = POST_VERSION" | "n = 4" "v = POST_EDITED_VERSION"
    by (auto simp: version_count_def split: if_splits)
  then show ?thesis
  proof cases
    case 1
    with list_all2_length3(1) [OF raw(4)] raw(2) obtain a b d where "ss = [a, b, d]" by auto
    with assms ss raw 1 show ?thesis
      by (auto simp: decodePost_def post_version_def post_parts_def time_option_ok_def split: if_splits
          intro!: exI [of _ raw])
  next
    case 2
    with list_all2_length3(2) [OF raw(4)] raw(2) obtain a b d e where "ss = [a, b, d, e]" by auto
    with assms ss raw 2 show ?thesis
      by (auto simp: decodePost_def post_version_def post_parts_def time_option_ok_def split: if_splits
          intro!: exI [of _ raw])
  qed
qed

definition comment_parts :: "CommentContent \<Rightarrow> js_string list" where
  "comment_parts c = [co_text c, co_at c] @ (case co_editedAt c of None \<Rightarrow> [] | Some e \<Rightarrow> [e])"

definition comment_version :: "CommentContent \<Rightarrow> byte" where
  "comment_version c = (case co_editedAt c of None \<Rightarrow> COMMENT_VERSION | Some e \<Rightarrow> COMMENT_EDITED_VERSION)"

lemma encodeComment_eq:
  "encodeComment c = Inr bs \<longleftrightarrow> at_shape (co_at c) \<and> time_option_ok (co_editedAt c)
     \<and> bs = comment_version c # lengthPrefixedConcat (map utf8_encode (comment_parts c))"
  by (auto simp: encodeComment_def time_option_ok_def comment_version_def comment_parts_def split: option.splits)

definition comment_ok :: "CommentContent \<Rightarrow> bool" where
  "comment_ok c \<longleftrightarrow> text_field_ok (co_text c) \<and> at_shape (co_at c) \<and> time_option_ok (co_editedAt c)"

lemma comment_encodes: "comment_ok c \<Longrightarrow> \<exists>bs. encodeComment c = Inr bs"
  by (simp add: encodeComment_eq comment_ok_def)

lemma comment_decodes:
  assumes "comment_ok c" "encodeComment c = Inr bs"
  shows "decodeComment bs = Inr c"
proof -
  have ok: "list_all text_field_ok (comment_parts c)"
    using assms(1) at_shape_field
    by (auto simp: comment_ok_def comment_parts_def time_option_ok_def split: option.splits)
  have bs: "bs = comment_version c # lengthPrefixedConcat (map utf8_encode (comment_parts c))"
    using assms(2) by (simp add: encodeComment_eq)
  have "version_count COMMENT_VERSION 2 COMMENT_EDITED_VERSION 3 bs = Some (length (comment_parts c))"
    by (simp add: bs version_count_def comment_version_def comment_parts_def COMMENT_VERSION_def
        COMMENT_EDITED_VERSION_def split: option.split)
  then have "read_layout ''comment'' (version_count COMMENT_VERSION 2 COMMENT_EDITED_VERSION 3 bs) bs
      = Inr (comment_parts c)"
    using read_layout_encoded text_fields_ok [OF ok] bs by simp
  then show ?thesis
    using assms(1)
    by (cases c, cases "co_editedAt c")
      (simp_all add: decodeComment_def comment_parts_def comment_ok_def time_option_ok_def)
qed

section \<open>Reactions and key bundles\<close>

definition ok_of :: "'a result \<Rightarrow> 'a option" where
  "ok_of r = (case r of Inl e \<Rightarrow> None | Inr x \<Rightarrow> Some x)"

lemma ok_of_Some [simp]: "ok_of r = Some x \<longleftrightarrow> r = Inr x"
  by (simp add: ok_of_def split: sum.split)

lemma BY_INDEX_Some: "BY_INDEX i \<noteq> None \<longleftrightarrow> 1 \<le> i \<and> i \<le> 7"
  by (auto simp: BY_INDEX_def REACTIONS_def)

interpretation reaction: strict_codec "\<lambda>i. projr (encodeReaction i)" "\<lambda>b. ok_of (decodeReaction b)"
  "\<lambda>i. reactionOf i \<noteq> None"
proof unfold_locales
  show "ok_of (decodeReaction (projr (encodeReaction i))) = Some i" if "reactionOf i \<noteq> None" for i
  proof -
    from that have "i mod 256 = i" using BY_INDEX_Some [of i] by (simp add: reactionOf_def)
    then show ?thesis using that
      by (auto simp: reactionOf_def encodeReaction_def decodeReaction_def REACTION_PLAINTEXT_BYTES_def unat_of_nat)
  qed
  show "reactionOf i \<noteq> None \<and> projr (encodeReaction i) = b" if "ok_of (decodeReaction b) = Some i" for b i
    using that
    by (cases b) (auto simp: reactionOf_def encodeReaction_def decodeReaction_def REACTION_PLAINTEXT_BYTES_def
        split: if_splits)
qed

definition bundle_ok :: "KeyBundle \<Rightarrow> bool" where
  "bundle_ok b \<longleftrightarrow> length (kb_signingSeed b) = 32 \<and> length (kb_wrappingPrivateKey b) = 32"

lemma encodeKeyBundle_eq:
  "bundle_ok b \<Longrightarrow> encodeKeyBundle b =
     Inr (KEY_BUNDLE_VERSION_1 # be32 32 @ kb_signingSeed b @ be32 32 @ kb_wrappingPrivateKey b)"
  by (simp add: encodeKeyBundle_def bundle_ok_def SIGNING_SEED_SIZE_def WRAPPING_KEY_SIZE_def
      lengthPrefixedConcat_Cons lengthPrefixedConcat_def [of "[]"])

lemma readLengthPrefixed_append:
  "length f < 4294967296 \<Longrightarrow>
   readLengthPrefixed (pre @ be32 (length f) @ f @ post) (length pre) = Inr (f, length pre + 4 + length f)"
  by (simp add: readLengthPrefixed_def Let_def)

lemma readLengthPrefixed_Inr:
  assumes "readLengthPrefixed data offset = Inr (f, stop)"
  shows "stop = offset + 4 + length f \<and> stop \<le> length data
    \<and> take stop data = take offset data @ be32 (length f) @ f"
proof -
  let ?q = "take 4 (drop offset data)"
  from assms have a: "offset + 4 + be32_value ?q \<le> length data" "stop = offset + 4 + be32_value ?q"
    "f = take (be32_value ?q) (drop (offset + 4) data)"
    by (auto simp: readLengthPrefixed_def Let_def split: if_splits)
  then have l: "length f = be32_value ?q" by simp
  then have "be32 (length f) = ?q" using a be32_bytes [of ?q] by simp
  then show ?thesis using a l by (simp add: take_add)
qed

lemma decode_encodeKeyBundle: "bundle_ok b \<Longrightarrow> decodeKeyBundle (projr (encodeKeyBundle b)) = Inr b"
proof -
  assume ok: "bundle_ok b"
  let ?s = "kb_signingSeed b" and ?w = "kb_wrappingPrivateKey b" and ?v = "KEY_BUNDLE_VERSION_1"
  let ?d = "?v # be32 32 @ ?s @ be32 32 @ ?w"
  have l: "length ?s = 32" "length ?w = 32" using ok by (simp_all add: bundle_ok_def)
  have "readLengthPrefixed ?d 1 = Inr (?s, 37)"
    using readLengthPrefixed_append [of ?s "[?v]" "be32 32 @ ?w"] l by simp
  moreover have "readLengthPrefixed ?d 37 = Inr (?w, 73)"
    using readLengthPrefixed_append [of ?w "?v # be32 32 @ ?s" "[]"] l by simp
  ultimately show ?thesis
    using l by (simp add: encodeKeyBundle_eq [OF ok] decodeKeyBundle_def SIGNING_SEED_SIZE_def WRAPPING_KEY_SIZE_def)
qed

lemma encode_decodeKeyBundle:
  assumes "decodeKeyBundle d = Inr b"
  shows "bundle_ok b \<and> encodeKeyBundle b = Inr d"
proof -
  from assms obtain s w o1 where d: "hd d = KEY_BUNDLE_VERSION_1" "d \<noteq> []"
    "readLengthPrefixed d 1 = Inr (s, o1)" "length s = 32" "readLengthPrefixed d o1 = Inr (w, length d)"
    "length w = 32" "b = \<lparr>kb_signingSeed = s, kb_wrappingPrivateKey = w\<rparr>"
    by (cases d) (auto simp: decodeKeyBundle_def SIGNING_SEED_SIZE_def WRAPPING_KEY_SIZE_def
        split: if_splits sum.splits)
  note r1 = readLengthPrefixed_Inr [OF d(3)] and r2 = readLengthPrefixed_Inr [OF d(5)]
  have "take 1 d = [KEY_BUNDLE_VERSION_1]" using d(1,2) by (cases d) simp_all
  with r1 have "o1 = 37" "take 37 d = KEY_BUNDLE_VERSION_1 # be32 32 @ s" using d(4) by auto
  moreover from this r2 have "d = take 37 d @ be32 32 @ w" using d(6) by simp
  ultimately have "d = KEY_BUNDLE_VERSION_1 # be32 32 @ s @ be32 32 @ w" by (metis append_Cons append_assoc)
  then show ?thesis using d(4,6,7) by (simp add: bundle_ok_def encodeKeyBundle_eq)
qed

interpretation key_bundle: strict_codec "\<lambda>b. projr (encodeKeyBundle b)" "\<lambda>d. ok_of (decodeKeyBundle d)" bundle_ok
  by unfold_locales (simp_all add: decode_encodeKeyBundle encode_decodeKeyBundle)

end
