(* ===== verification/Item_Check.thy ===== *)
theory Item_Check
  imports Items Key_Chain Grant_Chain
begin

text \<open>
  post-check.ts, comment-check.ts and wrap-record.ts: whose signature is on a stored post or
  comment and whether its times fit the day it was signed, and who wrapped a member's entry.
\<close>

section \<open>post-check.ts\<close>

record AuthorKeys =
  ak_signingPublicKey :: js_string
  ak_keyChanges :: "WireKeyChange list"

datatype SignatureVerdict = ValidSignature | InvalidSignature | UncheckedSignature string

text \<open>\<open>SORT_KEY\<close>, \<open>/^POST#(\d{4}-\d{2}-\d{2})#[0-9a-f]{16}$/\<close>, and its first group.\<close>

definition sortKeyDay :: "js_string \<Rightarrow> js_string option" where
  "sortKeyDay sortKey =
     (if length sortKey = 32 \<and> take 5 sortKey = js ''POST#'' \<and> day_shape (take 10 (drop 5 sortKey))
         \<and> sortKey ! 15 = 35 \<and> list_all is_lower_hex (drop 16 sortKey)
      then Some (take 10 (drop 5 sortKey)) else None)"

definition postIdOf :: "js_string \<Rightarrow> js_string \<Rightarrow> js_string option" where
  "postIdOf groupId sortKey =
     (if sortKeyDay sortKey \<noteq> None then Some (groupId @ 35 # drop 5 sortKey) else None)"

text \<open>\<open>POST_ID\<close>, \<open>/^([0-9a-f-]{36})#\d{4}-\d{2}-\d{2}#[0-9a-f]{16}$/\<close>, and its first group.\<close>

definition groupOfPostId :: "js_string \<Rightarrow> js_string option" where
  "groupOfPostId postId =
     (if length postId = 64 \<and> list_all (\<lambda>u. is_lower_hex u \<or> u = 45) (take 36 postId)
         \<and> postId ! 36 = 35 \<and> day_shape (take 10 (drop 37 postId))
         \<and> postId ! 47 = 35 \<and> list_all is_lower_hex (drop 48 postId)
      then Some (take 36 postId) else None)"

definition atOnSortKeyDay :: "js_string \<Rightarrow> js_string \<Rightarrow> bool" where
  "atOnSortKeyDay sortKey at = (case sortKeyDay sortKey of None \<Rightarrow> False | Some day \<Rightarrow> take 10 at = day)"

definition postTimeSuspect ::
  "js_string \<Rightarrow> js_string option \<Rightarrow> js_string \<Rightarrow> js_string option \<Rightarrow> bool" where
  "postTimeSuspect sortKey signedDay at editedAt =
     (if \<not> atOnSortKeyDay sortKey at then True
      else case editedAt of
        None \<Rightarrow> False
      | Some e \<Rightarrow>
          let day = (case signedDay of Some d \<Rightarrow> Some d | None \<Rightarrow> sortKeyDay sortKey)
          in Some (take 10 e) \<noteq> day \<or> e < at)"

record SignedItem =
  si_groupId :: js_string
  si_authorUserId :: js_string
  si_sortKey :: js_string
  si_generation :: int
  si_ciphertext :: js_string
  si_signature :: js_string
  si_author :: "AuthorKeys option"

definition checkSignedItem :: "prims \<Rightarrow> SignedItem \<Rightarrow> js_string \<Rightarrow> SigningContext \<Rightarrow> SignatureVerdict" where
  "checkSignedItem P input day ctx =
     (case si_author input of
        None \<Rightarrow> UncheckedSignature ''their keys were not read''
      | Some author \<Rightarrow>
          (case (base64ToBytes (si_signature input), base64ToBytes (si_ciphertext input),
                 base64ToBytes (ak_signingPublicKey author)) of
             (Some signature, Some ciphertext, Some current) \<Rightarrow>
               (case buildOwnKeyHistory P (si_authorUserId input) current (ak_keyChanges author) [] of
                  None \<Rightarrow> UncheckedSignature ''their key history does not verify''
                | Some history \<Rightarrow>
                    let payload = signedPayload P (si_authorUserId input) (si_groupId input)
                                    (si_sortKey input) (si_generation input) day ciphertext
                    in if list_ex (\<lambda>k. verify P k ctx payload signature) (signingKeysOn history current day)
                       then ValidSignature else InvalidSignature)
           | _ \<Rightarrow> UncheckedSignature ''the post or the keys served for its author are malformed''))"

definition checkPostSignature :: "prims \<Rightarrow> SignedItem \<Rightarrow> js_string option \<Rightarrow> SignatureVerdict" where
  "checkPostSignature P input signedDay =
     (case sortKeyDay (si_sortKey input) of
        None \<Rightarrow> InvalidSignature
      | Some filed \<Rightarrow>
          (case signedDay of
             None \<Rightarrow> checkSignedItem P input filed Post
           | Some d \<Rightarrow>
               if \<not> day_shape d then InvalidSignature
               else if d < filed then InvalidSignature
               else checkSignedItem P input d Post))"

section \<open>comment-check.ts\<close>

definition atOnSignedDay :: "js_string \<Rightarrow> js_string \<Rightarrow> bool" where
  "atOnSignedDay signedDay at \<longleftrightarrow> day_shape signedDay \<and> take 10 at = signedDay"

definition commentTimeSuspect :: "js_string \<Rightarrow> js_string \<Rightarrow> js_string option \<Rightarrow> bool" where
  "commentTimeSuspect signedDay at editedAt =
     (case editedAt of
        None \<Rightarrow> \<not> atOnSignedDay signedDay at
      | Some e \<Rightarrow> \<not> atOnSignedDay signedDay e \<or> e < at)"

record CommentItem =
  ci_groupId :: js_string
  ci_authorUserId :: js_string
  ci_path :: js_string
  ci_generation :: int
  ci_signedDay :: js_string
  ci_ciphertext :: js_string
  ci_signature :: js_string
  ci_author :: "AuthorKeys option"

definition checkCommentSignature :: "prims \<Rightarrow> CommentItem \<Rightarrow> SignatureVerdict" where
  "checkCommentSignature P input =
     (if \<not> day_shape (ci_signedDay input) then InvalidSignature
      else checkSignedItem P
        \<lparr>si_groupId = ci_groupId input, si_authorUserId = ci_authorUserId input,
         si_sortKey = js ''CMT#'' @ ci_path input, si_generation = ci_generation input,
         si_ciphertext = ci_ciphertext input, si_signature = ci_signature input,
         si_author = ci_author input\<rparr> (ci_signedDay input) Comment)"

section \<open>wrap-record.ts\<close>

record WireWrapRecord =
  ww_wrapperUserId :: js_string
  ww_reason :: js_string
  ww_day :: js_string
  ww_signature :: js_string

datatype WrapEvidence =
  ApprovedWrap js_string | SelfWrap | NoWrap | InvalidWrap | UncheckedWrap js_string

record WrapperKeys =
  wr_signingPublicKey :: js_string
  wr_keyChanges :: "WireKeyChange list"

record CheckWrapRecord =
  cw_groupId :: js_string
  cw_memberUserId :: js_string
  cw_generation :: int
  cw_wrapEpoch :: "int option"
  cw_record :: "WireWrapRecord option"
  cw_wrapper :: "WrapperKeys option"

text \<open>
  The check of the signature, once the record's kind and day are settled.  \<open>None\<close> is an
  exception: the payload builder throws on an unsafe generation or epoch.
\<close>

definition wrap_signature_evidence ::
  "prims \<Rightarrow> CheckWrapRecord \<Rightarrow> WireWrapRecord \<Rightarrow> int \<Rightarrow> WrapperKeys \<Rightarrow> bool \<Rightarrow> WrapEvidence option" where
  "wrap_signature_evidence P input r wrapEpoch wrapper isSelf =
     (case (base64ToBytes (ww_signature r), base64ToBytes (wr_signingPublicKey wrapper)) of
        (Some signature, Some current) \<Rightarrow>
          (case buildOwnKeyHistory P (ww_wrapperUserId r) current (wr_keyChanges wrapper) [] of
             None \<Rightarrow> Some (UncheckedWrap (js ''the wrapper's key history does not verify''))
           | Some history \<Rightarrow>
               (case wrapRecordPayload (cw_groupId input) (ww_wrapperUserId r)
                       (cw_memberUserId input) (cw_generation input) wrapEpoch
                       (if isSelf then RekeySelf else RekeyApproval) (ww_day r) of
                  Inl _ \<Rightarrow> None
                | Inr payload \<Rightarrow>
                    if list_ex (\<lambda>k. verify P k WrapRecord payload signature)
                         (signingKeysOn history current (ww_day r))
                    then Some (if isSelf then SelfWrap else ApprovedWrap (ww_wrapperUserId r))
                    else Some InvalidWrap))
      | _ \<Rightarrow> Some (UncheckedWrap (js ''the keys served for the wrapper are malformed'')))"

definition checkWrapRecord :: "prims \<Rightarrow> CheckWrapRecord \<Rightarrow> WrapEvidence option" where
  "checkWrapRecord P input =
     (case cw_record input of
        None \<Rightarrow> Some NoWrap
      | Some r \<Rightarrow>
          (case cw_wrapEpoch input of
             None \<Rightarrow> Some (UncheckedWrap (js ''the server did not say which keys the entry was wrapped to''))
           | Some wrapEpoch \<Rightarrow>
               let isSelf = (ww_reason r = js ''self'') in
               if \<not> isSelf \<and> ww_reason r \<noteq> js ''approval'' then Some InvalidWrap
               else if isSelf \<noteq> (ww_wrapperUserId r = cw_memberUserId input) then Some InvalidWrap
               else if \<not> day_shape (ww_day r) then Some InvalidWrap
               else case cw_wrapper input of
                 None \<Rightarrow> Some (UncheckedWrap (js ''their key history was not read''))
               | Some wrapper \<Rightarrow> wrap_signature_evidence P input r wrapEpoch wrapper isSelf))"

end
