(* ===== verification/Item_Properties.thy ===== *)
theory Item_Properties
  imports Item_Codecs Item_Check Key_Properties
begin

text \<open>Theorems about the stored layouts and the checks of stored posts, comments and wrap records.\<close>

section \<open>Layouts\<close>

text \<open>
  A post survives its layout and weighs what the server expects.  For a title and body
  without lone surrogates or a leading byte order mark (and shorter than 2^32 bytes) and times
  in the fixed format, encodePost succeeds, decodePost returns the very same post, and the
  encoding plus the GCM tag has the length postCiphertextLength announces, plus 28 bytes when
  the post was edited.
\<close>
theorem post_round_trip:
  assumes "post_ok c"
  shows "\<exists>bs. encodePost c = Inr bs \<and> decodePost bs = Inr c
    \<and> length bs + GCM_TAG_BYTES = postCiphertextLength (utf8Length (po_title c)) (utf8Length (po_body c))
        + (if po_editedAt c = None then 0 else EDITED_AT_BYTES)"
proof -
  obtain bs where bs: "encodePost c = Inr bs" using post_encodes [OF assms] by blast
  with post_decodes [OF assms bs] post_length [OF bs] show ?thesis
    by (simp add: postCiphertextLength_def)
qed

definition sample_post :: PostContent where
  "sample_post = \<lparr>po_title = js ''Hi'', po_body = js ''there'', po_at = js ''2026-10-28T12:34:56.789Z'',
     po_editedAt = Some (js ''2026-10-29T00:00:00.000Z'')\<rparr>"

lemma text_field_ok_js: "ascii s \<Longrightarrow> length s < 4294967296 \<Longrightarrow> text_field_ok (js s)"
proof -
  assume a: "ascii s" "length s < 4294967296"
  have "js s \<noteq> 0xFEFF # t" for t
  proof
    assume "js s = 0xFEFF # t"
    then have "0xFEFF \<in> set (js s)" by simp
    then obtain c where "c \<in> set s" "of_char c = (0xFEFF :: code_unit)" by (auto simp: js_def)
    moreover from this a(1) have "(of_char c :: nat) < 128" by (auto simp: ascii_def list_all_iff)
    from unat_of_char_ascii [OF this] have "unat (of_char c :: code_unit) < 128" using \<open>of_char c < 128\<close> by simp
    ultimately show False by simp
  qed
  then show ?thesis using field_ok_ascii [OF a] by (simp add: text_field_ok_def field_ok_def text_ok_def)
qed

lemma sample_post_ok: "post_ok sample_post"
proof -
  have "text_field_ok (js ''Hi'')" "text_field_ok (js ''there'')"
    by (rule text_field_ok_js; simp add: ascii_def)+
  moreover have "at_shape (js ''2026-10-28T12:34:56.789Z'')" "at_shape (js ''2026-10-29T00:00:00.000Z'')"
    by code_simp+
  ultimately show ?thesis by (simp add: post_ok_def sample_post_def time_option_ok_def)
qed

theorem post_round_trip_witness:
  "\<exists>bs. encodePost sample_post = Inr bs \<and> decodePost bs = Inr sample_post"
  using post_round_trip [OF sample_post_ok] by blast

text \<open>
  C37: the post decoder guesses nothing.  Whatever bytes decodePost accepts are the version byte
  of the post it returns followed by exactly the length-prefixed fields of that post, with
  nothing truncated, trailing or re-encoded: each field's bytes are the UTF-8 of the returned
  string, except that a leading byte order mark in a field is dropped.  The times it returns
  are in the fixed format.
\<close>
theorem decodePost_strict:
  assumes "decodePost bs = Inr c"
  shows "\<exists>raw. bs = post_version c # lengthPrefixedConcat raw
    \<and> list_all2 (\<lambda>r s. isWellFormed s \<and> utf8_encode s = strip_bom r) raw (post_parts c)
    \<and> at_shape (po_at c) \<and> time_option_ok (po_editedAt c)"
  using assms by (rule decodePost_Inr)

theorem decodePost_strict_witness:
  "\<exists>bs raw. decodePost bs = Inr sample_post \<and> bs = POST_EDITED_VERSION # lengthPrefixedConcat raw
     \<and> length raw = 4"
proof -
  obtain bs where bs: "decodePost bs = Inr sample_post"
    using post_decodes [OF sample_post_ok] post_encodes [OF sample_post_ok] by blast
  from decodePost_strict [OF this] obtain raw where raw: "bs = post_version sample_post # lengthPrefixedConcat raw"
    "list_all2 (\<lambda>r s. isWellFormed s \<and> utf8_encode s = strip_bom r) raw (post_parts sample_post)" by blast
  have "length raw = 4" using list_all2_lengthD [OF raw(2)] by (simp add: post_parts_def sample_post_def)
  with bs raw(1) show ?thesis by (auto simp: post_version_def sample_post_def)
qed

text \<open>The byte order mark: a title that starts with U+FEFF comes back without it.\<close>

lemma code_points_bom_Cons: "code_points (0xFEFF # s) = 0xFEFF # code_points s"
  by (cases s) (simp_all add: lone_def is_high_nat is_low_nat)

lemma utf8_decode_bom:
  assumes "isWellFormed s"
  shows "utf8_decode (utf8_encode (0xFEFF # s)) = Some s"
proof -
  have "utf8_of 0xFEFF = [0xEF, 0xBB, 0xBF]" by (simp add: utf8_of_def byte_of_def)
  then have "utf8_encode (0xFEFF # s) = 0xEF # 0xBB # 0xBF # utf8_encode s"
    by (simp add: utf8_encode_def code_points_bom_Cons)
  then have "strip_bom (utf8_encode (0xFEFF # s)) = utf8_encode s" by (simp add: strip_bom_def)
  then show ?thesis using assms by (simp add: utf8_decode_def utf8_points_utf8_encode utf16_code_points)
qed

lemma comment_round_trip:
  assumes "comment_ok c"
  shows "\<exists>bs. encodeComment c = Inr bs \<and> decodeComment bs = Inr c"
  using comment_encodes [OF assms] comment_decodes [OF assms] by blast

text \<open>
  A key bundle has exactly one encoding.  decodeKeyBundle returns a bundle exactly for the
  bytes encodeKeyBundle produces from it, and only for a 32-byte seed and a 32-byte wrapping
  key: no truncated, padded or relabelled blob decodes, and no two blobs decode alike.
\<close>
theorem key_bundle_one_encoding:
  "decodeKeyBundle d = Inr b \<longleftrightarrow> encodeKeyBundle b = Inr d"
proof
  assume "encodeKeyBundle b = Inr d"
  moreover from this have "bundle_ok b"
    by (auto simp: encodeKeyBundle_def bundle_ok_def SIGNING_SEED_SIZE_def WRAPPING_KEY_SIZE_def split: if_splits)
  ultimately show "decodeKeyBundle d = Inr b" using key_bundle.dec_Some_iff [of d b] by simp
qed (use key_bundle.dec_Some_iff [of d b] encode_decodeKeyBundle in simp)

section \<open>Signatures of stored items\<close>

text \<open>What a valid verdict means: a key of the author's verified chain, held that day, signed it.\<close>

definition signed_item ::
  "prims \<Rightarrow> SignedItem \<Rightarrow> js_string \<Rightarrow> SigningContext \<Rightarrow> OwnKeyHistory \<Rightarrow> bytes \<Rightarrow> bool" where
  "signed_item P input day ctx history key \<longleftrightarrow>
     (\<exists>author signature ciphertext.
        si_author input = Some author
        \<and> base64ToBytes (si_signature input) = Some signature
        \<and> base64ToBytes (si_ciphertext input) = Some ciphertext
        \<and> base64ToBytes (ak_signingPublicKey author) = Some (oh_current history)
        \<and> buildOwnKeyHistory P (si_authorUserId input) (oh_current history) (ak_keyChanges author) [] = Some history
        \<and> key \<in> set (signingKeysOn history (oh_current history) day)
        \<and> verify P key ctx
            (signedPayload P (si_authorUserId input) (si_groupId input) (si_sortKey input)
               (si_generation input) day ciphertext) signature)"

lemma checkSignedItem_valid:
  "checkSignedItem P input day ctx = ValidSignature \<longleftrightarrow> (\<exists>history key. signed_item P input day ctx history key)"
proof
  assume v: "checkSignedItem P input day ctx = ValidSignature"
  then obtain author where a: "si_author input = Some author" by (auto simp: checkSignedItem_def split: option.splits)
  from v a obtain sig ct cur where d: "base64ToBytes (si_signature input) = Some sig"
    "base64ToBytes (si_ciphertext input) = Some ct" "base64ToBytes (ak_signingPublicKey author) = Some cur"
    by (cases "base64ToBytes (si_signature input)"; cases "base64ToBytes (si_ciphertext input)";
        cases "base64ToBytes (ak_signingPublicKey author)") (simp_all add: checkSignedItem_def)
  from v a d obtain h where h: "buildOwnKeyHistory P (si_authorUserId input) cur (ak_keyChanges author) [] = Some h"
    by (cases "buildOwnKeyHistory P (si_authorUserId input) cur (ak_keyChanges author) []")
      (simp_all add: checkSignedItem_def)
  have "oh_current h = cur" by (rule buildOwnKeyHistory_ok(2) [OF h])
  with v a d h show "\<exists>history key. signed_item P input day ctx history key"
    by (auto simp: checkSignedItem_def signed_item_def list_ex_iff Let_def split: if_splits)
next
  assume "\<exists>history key. signed_item P input day ctx history key"
  then show "checkSignedItem P input day ctx = ValidSignature"
    by (auto simp: checkSignedItem_def signed_item_def list_ex_iff)
qed

text \<open>
  C36: what a reader may conclude from a post marked as validly signed.  The verdict is valid
  exactly when the sort key is a post's, the signing day (the row's, or the filing day of a
  post never edited) is not before the filing day, and a signing key that the author's verified
  key chain gives them on that day signed this author, group, sort key, generation, day and
  ciphertext.
\<close>
theorem checkPostSignature_exact:
  "checkPostSignature P input signedDay = ValidSignature \<longleftrightarrow>
     (\<exists>filed day history key. sortKeyDay (si_sortKey input) = Some filed
        \<and> (case signedDay of None \<Rightarrow> day = filed | Some d \<Rightarrow> day = d \<and> day_shape d \<and> filed \<le> d)
        \<and> signed_item P input day Post history key)"
  by (auto simp: checkPostSignature_def checkSignedItem_valid not_less split: option.splits)

text \<open>
  a retired key cannot sign a post filed after it was retired.  The key under which a valid
  post verifies is the author's current one, or one whose retiring rotation is dated on or
  after the day in the post's sort key, also when the row claims an earlier signing day.
\<close>
theorem retired_keys_sign_no_later_post:
  assumes "checkPostSignature P input signedDay = ValidSignature"
    and "sortKeyDay (si_sortKey input) = Some filed"
  shows "\<exists>day history key. signed_item P input day Post history key
    \<and> (key = oh_current history
        \<or> (\<exists>l\<in>set (oh_links history). lk_oldSigning l = key \<and> filed \<le> lk_day l
             \<and> signed_link P (si_authorUserId input) l))"
proof -
  from assms(1) [unfolded checkPostSignature_exact] obtain day history key where
    d: "case signedDay of None \<Rightarrow> day = filed | Some d \<Rightarrow> day = d \<and> day_shape d \<and> filed \<le> d"
    and s: "signed_item P input day Post history key" using assms(2) by auto
  have le: "filed \<le> day" using d by (cases signedDay) auto
  from s have key: "key \<in> set (signingKeysOn history (oh_current history) day)"
    and ok: "history_ok P (si_authorUserId input) history"
    by (auto simp: signed_item_def dest: buildOwnKeyHistory_ok(1))
  from key consider "key = oh_current history"
    | i where "i < length (oh_links history)" "in_interval (oh_links history) day i"
        "key = lk_oldSigning (oh_links history ! i)"
    by (auto simp: signingKeysOn_eq split: if_splits)
  then show ?thesis
  proof cases
    case 2
    let ?l = "oh_links history ! i"
    have "day \<le> lk_day ?l" using 2(2) by (simp add: in_interval_def)
    then have "filed \<le> lk_day ?l" using le by simp
    moreover have "?l \<in> set (oh_links history)" using 2(1) by simp
    moreover from this have "signed_link P (si_authorUserId input) ?l"
      using ok by (simp add: history_ok_def links_ok_def)
    ultimately show ?thesis using s 2(3) by blast
  qed (use s in blast)
qed

lemma checkWrapRecord_checked:
  assumes "checkWrapRecord P input = Some evidence" "evidence = SelfWrap \<or> evidence = ApprovedWrap w"
    and "cw_record input = Some r"
  shows "\<exists>epoch wrapper self. cw_wrapEpoch input = Some epoch
    \<and> (self \<longleftrightarrow> ww_wrapperUserId r = cw_memberUserId input) \<and> (self \<longleftrightarrow> ww_reason r = js ''self'')
    \<and> wrap_signature_evidence P input r epoch wrapper self = Some evidence"
  using assms by (auto simp: checkWrapRecord_def Let_def split: option.splits if_splits)

lemma wrap_signature_evidence_sound:
  assumes "wrap_signature_evidence P input r epoch wrapper self = Some evidence"
    and "evidence = SelfWrap \<or> evidence = ApprovedWrap w"
  shows "\<exists>history key signature payload.
    evidence = (if self then SelfWrap else ApprovedWrap (ww_wrapperUserId r))
    \<and> history_ok P (ww_wrapperUserId r) history
    \<and> key \<in> set (signingKeysOn history (oh_current history) (ww_day r))
    \<and> wrapRecordPayload (cw_groupId input) (ww_wrapperUserId r) (cw_memberUserId input) (cw_generation input)
        epoch (if self then RekeySelf else RekeyApproval) (ww_day r) = Inr payload
    \<and> verify P key WrapRecord payload signature"
proof -
  note [simp] = wrap_signature_evidence_def
  from assms obtain sig cur where d [simp]: "base64ToBytes (ww_signature r) = Some sig"
    "base64ToBytes (wr_signingPublicKey wrapper) = Some cur"
    by (cases "base64ToBytes (ww_signature r)"; cases "base64ToBytes (wr_signingPublicKey wrapper)") auto
  from assms obtain h where h [simp]:
    "buildOwnKeyHistory P (ww_wrapperUserId r) cur (wr_keyChanges wrapper) [] = Some h"
    by (cases "buildOwnKeyHistory P (ww_wrapperUserId r) cur (wr_keyChanges wrapper) []") auto
  note ok = buildOwnKeyHistory_ok(1,2) [OF h]
  let ?p = "wrapRecordPayload (cw_groupId input) (ww_wrapperUserId r) (cw_memberUserId input)
     (cw_generation input) epoch (if self then RekeySelf else RekeyApproval) (ww_day r)"
  from assms obtain payload where p: "?p = Inr payload" by (cases ?p) auto
  have "list_ex (\<lambda>k. verify P k WrapRecord payload sig) (signingKeysOn h cur (ww_day r))"
    and ev: "evidence = (if self then SelfWrap else ApprovedWrap (ww_wrapperUserId r))"
    using assms p by (auto split: if_splits)
  then obtain key where "key \<in> set (signingKeysOn h cur (ww_day r))" "verify P key WrapRecord payload sig"
    by (auto simp: list_ex_iff)
  with ok p ev show ?thesis by blast
qed

text \<open>
  A wrap record is believed only for what it was signed for.  When checkWrapRecord answers
  that a member's entry was wrapped by its owner, or approved by someone else, the named
  wrapper signed, with a key their verified chain gives them on the record's day, this group,
  member, served generation and served key epoch, with the reason that fits: self exactly when
  the wrapper is the member.
\<close>
theorem checkWrapRecord_sound:
  assumes "checkWrapRecord P input = Some evidence" "evidence = SelfWrap \<or> evidence = ApprovedWrap w"
    and "cw_record input = Some r"
  shows "\<exists>epoch history key signature payload.
    cw_wrapEpoch input = Some epoch
    \<and> (evidence = SelfWrap \<longleftrightarrow> ww_wrapperUserId r = cw_memberUserId input)
    \<and> (evidence \<noteq> SelfWrap \<longrightarrow> w = ww_wrapperUserId r)
    \<and> history_ok P (ww_wrapperUserId r) history
    \<and> key \<in> set (signingKeysOn history (oh_current history) (ww_day r))
    \<and> wrapRecordPayload (cw_groupId input) (ww_wrapperUserId r) (cw_memberUserId input) (cw_generation input)
        epoch (if evidence = SelfWrap then RekeySelf else RekeyApproval) (ww_day r) = Inr payload
    \<and> verify P key WrapRecord payload signature"
proof -
  from checkWrapRecord_checked [OF assms] obtain epoch wrapper self where
    e: "cw_wrapEpoch input = Some epoch" "self \<longleftrightarrow> ww_wrapperUserId r = cw_memberUserId input"
    and s: "wrap_signature_evidence P input r epoch wrapper self = Some evidence" by blast
  from wrap_signature_evidence_sound [OF s assms(2)] obtain history key signature payload where
    f: "evidence = (if self then SelfWrap else ApprovedWrap (ww_wrapperUserId r))"
      "history_ok P (ww_wrapperUserId r) history"
      "key \<in> set (signingKeysOn history (oh_current history) (ww_day r))"
      "wrapRecordPayload (cw_groupId input) (ww_wrapperUserId r) (cw_memberUserId input) (cw_generation input)
        epoch (if self then RekeySelf else RekeyApproval) (ww_day r) = Inr payload"
      "verify P key WrapRecord payload signature" by blast
  have self: "self = (evidence = SelfWrap)" using f(1) by (cases self) simp_all
  have "w = ww_wrapperUserId r" if "evidence \<noteq> SelfWrap" using that assms(2) f(1) by (cases self) auto
  show ?thesis
    by (rule exI [of _ epoch], rule exI [of _ history], rule exI [of _ key], rule exI [of _ signature],
        rule exI [of _ payload])
      (use e f(2-5) \<open>evidence \<noteq> SelfWrap \<Longrightarrow> w = ww_wrapperUserId r\<close> in \<open>simp add: self\<close>)
qed

section \<open>Samples\<close>

lemma no_changes [simp]: "buildOwnKeyHistory P u own [] [] = Some \<lparr>oh_current = own, oh_links = []\<rparr>"
  by (simp add: buildOwnKeyHistory_def js_sort_def)

lemma base64ToBytes_seed [simp]: "base64ToBytes (bytesToBase64 b) = Some b"
  by (rule base64_decode_encode)

lemma base64ToBytes_signed_b64 [simp]:
  "base64ToBytes (signed_b64 k ctx payload) = Some (sign sample (key_of k) ctx payload)"
  by (simp add: signed_b64_def)

definition sample_sort_key :: js_string where
  "sample_sort_key = js ''POST#2026-10-28#0123456789abcdef''"

definition sample_item :: SignedItem where
  "sample_item = \<lparr>si_groupId = group1, si_authorUserId = bob, si_sortKey = sample_sort_key, si_generation = 3,
     si_ciphertext = bytesToBase64 (seed_of 9),
     si_signature = signed_b64 2 Post (signedPayload sample bob group1 sample_sort_key 3 (js ''2026-10-28'') (seed_of 9)),
     si_author = Some \<lparr>ak_signingPublicKey = bytesToBase64 (seed_of 2), ak_keyChanges = []\<rparr>\<rparr>"

lemma sample_sort_key_day: "sortKeyDay sample_sort_key = Some (js ''2026-10-28'')"
  by code_simp

lemma sample_item_valid: "checkPostSignature sample sample_item None = ValidSignature"
  by (simp add: checkPostSignature_def sample_item_def sample_sort_key_day checkSignedItem_def signingKeysOn_eq)

theorem retired_keys_sign_no_later_post_witness:
  "\<exists>day history key. signed_item sample sample_item day Post history key"
  using retired_keys_sign_no_later_post [OF sample_item_valid, of "js ''2026-10-28''"]
  by (simp add: sample_item_def sample_sort_key_day) blast

definition sample_wrap_record :: WireWrapRecord where
  "sample_wrap_record = \<lparr>ww_wrapperUserId = alice, ww_reason = js ''approval'', ww_day = js ''2026-10-28'',
     ww_signature = signed_b64 1 WrapRecord
       (projr (wrapRecordPayload group1 alice bob 4 2 RekeyApproval (js ''2026-10-28'')))\<rparr>"

definition sample_wrap :: "int \<Rightarrow> CheckWrapRecord" where
  "sample_wrap generation = \<lparr>cw_groupId = group1, cw_memberUserId = bob, cw_generation = generation,
     cw_wrapEpoch = Some 2, cw_record = Some sample_wrap_record,
     cw_wrapper = Some \<lparr>wr_signingPublicKey = bytesToBase64 (seed_of 1), wr_keyChanges = []\<rparr>\<rparr>"

lemma sample_day_shape: "day_shape (js ''2026-10-28'')"
  by code_simp

lemma sample_wrap_checked:
  "checkWrapRecord sample (sample_wrap generation) =
     wrap_signature_evidence sample (sample_wrap generation) sample_wrap_record 2
       \<lparr>wr_signingPublicKey = bytesToBase64 (seed_of 1), wr_keyChanges = []\<rparr> False"
  by (simp add: checkWrapRecord_def sample_wrap_def sample_wrap_record_def sample_day_shape)

lemma sample_wrap_approved: "checkWrapRecord sample (sample_wrap 4) = Some (ApprovedWrap alice)"
  unfolding sample_wrap_checked
  by (simp add: wrap_signature_evidence_def sample_wrap_def sample_wrap_record_def signingKeysOn_eq
      wrapRecordPayload_def isSafeInteger_def)

theorem checkWrapRecord_sound_witness:
  "\<exists>epoch payload. cw_wrapEpoch (sample_wrap 4) = Some epoch
     \<and> wrapRecordPayload group1 alice bob 4 epoch RekeyApproval (js ''2026-10-28'') = Inr payload"
proof -
  have "cw_record (sample_wrap 4) = Some sample_wrap_record" by (simp add: sample_wrap_def)
  from checkWrapRecord_sound [OF sample_wrap_approved _ this, of alice] show ?thesis
    by (auto simp: sample_wrap_def sample_wrap_record_def)
qed

text \<open>
  checkWrapRecord says it never throws; on a generation that is not a safe integer, with
  everything else in order, it does.
\<close>

lemma checkWrapRecord_throws: "checkWrapRecord sample (sample_wrap 9007199254740992) = None"
  unfolding sample_wrap_checked
  by (simp add: wrap_signature_evidence_def sample_wrap_def sample_wrap_record_def wrapRecordPayload_def
      isSafeInteger_def)

end
