(* ===== verification/Wrapping.thy ===== *)
theory Wrapping
  imports Signing Base_Encodings Payloads
begin

text \<open>
  aesgcm.ts, x25519.ts, argon2.ts and the key derivations of invite.ts: sealing under a key,
  wrapping to a public key, and deriving keys from secrets.  SubtleCrypto, noble and hash-wasm
  are the parameter \<open>ciphers\<close>; what the platform draws at random (nonces, ephemeral keys) is an
  argument.  Every \<open>await\<close> is in a function of its arguments only, so a call is a pure function;
  a rejected promise is \<open>Inl\<close>.
\<close>

record Argon2idParams =
  memoryKiB :: int
  iterations :: int
  parallelism :: int

record ciphers =
  aes_seal :: "bytes \<Rightarrow> bytes \<Rightarrow> bytes \<Rightarrow> bytes \<Rightarrow> bytes"
  aes_open :: "bytes \<Rightarrow> bytes \<Rightarrow> bytes \<Rightarrow> bytes \<Rightarrow> bytes option"
  x_public :: "bytes \<Rightarrow> bytes option"
  x_shared :: "bytes \<Rightarrow> bytes \<Rightarrow> bytes option"
  hkdf_sha256 :: "bytes \<Rightarrow> bytes \<Rightarrow> nat \<Rightarrow> bytes"
  hmac_sha256 :: "bytes \<Rightarrow> bytes \<Rightarrow> bytes"
  argon2id :: "js_string \<Rightarrow> bytes \<Rightarrow> Argon2idParams \<Rightarrow> nat \<Rightarrow> js_string option"

text \<open>
  What the platform documents.  AES-GCM appends a 16-byte tag and opens exactly what was sealed
  under the same key, nonce and associated data; X25519 public keys are 32 bytes of a 32-byte
  scalar, and two key pairs agree on the shared secret.
\<close>

definition aead_laws :: "ciphers \<Rightarrow> bool" where
  "aead_laws C \<longleftrightarrow>
     (\<forall>key nonce plain aad. length key = 32 \<longrightarrow> length nonce = 12 \<longrightarrow>
        length (aes_seal C key nonce plain aad) = length plain + 16
        \<and> (\<forall>ct. aes_open C key nonce ct aad = Some plain \<longleftrightarrow> ct = aes_seal C key nonce plain aad))"

definition x25519_laws :: "ciphers \<Rightarrow> bool" where
  "x25519_laws C \<longleftrightarrow>
     (\<forall>priv. x_public C priv \<noteq> None \<longleftrightarrow> length priv = 32)
     \<and> (\<forall>priv pub. x_public C priv = Some pub \<longrightarrow> length pub = 32)
     \<and> (\<forall>a A b B. x_public C a = Some A \<longrightarrow> x_public C b = Some B \<longrightarrow>
          x_shared C a B = x_shared C b A \<and> x_shared C a B \<noteq> None)
     \<and> (\<forall>ikm info n. length (hkdf_sha256 C ikm info n) = n)"

section \<open>aesgcm.ts\<close>

definition NONCE_SIZE :: nat where "NONCE_SIZE = 12"
definition AES_KEY_SIZE :: nat where "AES_KEY_SIZE = 32"

definition DecryptionFailed :: string where "DecryptionFailed = ''crypto: decryption failed''"

definition requireKeySize :: "bytes \<Rightarrow> unit result" where
  "requireKeySize key = (if length key \<noteq> AES_KEY_SIZE then Inl ''crypto: key must be 32 bytes'' else Inr ())"

definition requireNonceSize :: "bytes \<Rightarrow> unit result" where
  "requireNonceSize nonce = (if length nonce \<noteq> NONCE_SIZE then Inl ''crypto: nonce must be 12 bytes'' else Inr ())"

text \<open>Sequencing of calls that may throw.\<close>

definition bind :: "'a result \<Rightarrow> ('a \<Rightarrow> 'b result) \<Rightarrow> 'b result" where
  "bind r f = (case r of Inl e \<Rightarrow> Inl e | Inr x \<Rightarrow> f x)"

definition throwing :: "string \<Rightarrow> 'a option \<Rightarrow> 'a result" where
  "throwing e x = (case x of None \<Rightarrow> Inl e | Some y \<Rightarrow> Inr y)"

definition encryptWithNonce :: "ciphers \<Rightarrow> bytes \<Rightarrow> bytes \<Rightarrow> bytes \<Rightarrow> bytes \<Rightarrow> bytes result" where
  "encryptWithNonce C key nonce plaintext aad =
     bind (requireKeySize key) (\<lambda>_. bind (requireNonceSize nonce) (\<lambda>_.
       Inr (aes_seal C key nonce plaintext aad)))"

text \<open>\<open>encrypt\<close>, with the nonce the platform draws: the nonce and the ciphertext.\<close>

definition encrypt :: "ciphers \<Rightarrow> bytes \<Rightarrow> bytes \<Rightarrow> bytes \<Rightarrow> bytes \<Rightarrow> (bytes \<times> bytes) result" where
  "encrypt C nonce key plaintext aad =
     bind (encryptWithNonce C key nonce plaintext aad) (\<lambda>ciphertext. Inr (nonce, ciphertext))"

definition decrypt :: "ciphers \<Rightarrow> bytes \<Rightarrow> bytes \<Rightarrow> bytes \<Rightarrow> bytes \<Rightarrow> bytes result" where
  "decrypt C key nonce ciphertext aad =
     bind (requireKeySize key) (\<lambda>_. bind (requireNonceSize nonce) (\<lambda>_.
       throwing DecryptionFailed (aes_open C key nonce ciphertext aad)))"

section \<open>x25519.ts\<close>

definition HKDF_INFO :: js_string where "HKDF_INFO = js ''underground-bb:x25519-wrap:v1''"
definition KEY_LEN :: nat where "KEY_LEN = 32"

definition InvalidPublicKey :: string where "InvalidPublicKey = ''crypto: invalid public key''"

record Wrapped =
  wp_ephemeralPub :: bytes
  wp_nonce :: bytes
  wp_ciphertext :: bytes

definition wrappingKeyFromPrivate :: "ciphers \<Rightarrow> bytes \<Rightarrow> WrappingKey result" where
  "wrappingKeyFromPrivate C privateKey =
     (if length privateKey \<noteq> KEY_LEN then Inl ''crypto: private key must be 32 bytes''
      else bind (throwing ''noble'' (x_public C privateKey)) (\<lambda>pub.
        Inr \<lparr>wk_privateKey = privateKey, wk_publicKey = pub\<rparr>))"

definition generateWrappingKey :: "ciphers \<Rightarrow> bytes \<Rightarrow> WrappingKey result" where
  "generateWrappingKey C random =
     bind (throwing ''noble'' (x_public C random)) (\<lambda>pub.
       Inr \<lparr>wk_privateKey = random, wk_publicKey = pub\<rparr>)"

definition deriveWrappingKey :: "ciphers \<Rightarrow> bytes \<Rightarrow> bytes \<Rightarrow> bytes \<Rightarrow> bytes" where
  "deriveWrappingKey C sharedSecret ephemeralPub recipientPub =
     hkdf_sha256 C sharedSecret (utf8_encode HKDF_INFO @ ephemeralPub @ recipientPub) AES_KEY_SIZE"

definition wrapWithEphemeralAndNonce ::
  "ciphers \<Rightarrow> bytes \<Rightarrow> bytes \<Rightarrow> bytes \<Rightarrow> bytes \<Rightarrow> bytes \<Rightarrow> Wrapped result" where
  "wrapWithEphemeralAndNonce C recipientPub ephemeralPriv nonce plaintext aad =
     bind (throwing ''noble'' (x_public C ephemeralPriv)) (\<lambda>ephemeralPub.
     bind (throwing ''noble'' (x_shared C ephemeralPriv recipientPub)) (\<lambda>sharedSecret.
     bind (encryptWithNonce C (deriveWrappingKey C sharedSecret ephemeralPub recipientPub) nonce plaintext aad)
       (\<lambda>ciphertext. Inr \<lparr>wp_ephemeralPub = ephemeralPub, wp_nonce = nonce, wp_ciphertext = ciphertext\<rparr>)))"

text \<open>What one call of \<open>wrap\<close> draws: the ephemeral scalar, then the nonce.\<close>

record draw =
  dr_ephemeral :: bytes
  dr_nonce :: bytes

definition draw_ok :: "draw \<Rightarrow> bool" where
  "draw_ok d \<longleftrightarrow> length (dr_ephemeral d) = 32 \<and> length (dr_nonce d) = 12"

definition wrapWithEphemeral ::
  "ciphers \<Rightarrow> bytes \<Rightarrow> bytes \<Rightarrow> bytes \<Rightarrow> bytes \<Rightarrow> bytes \<Rightarrow> Wrapped result" where
  "wrapWithEphemeral C nonce recipientPub ephemeralPriv plaintext aad =
     wrapWithEphemeralAndNonce C recipientPub ephemeralPriv nonce plaintext aad"

definition wrap :: "ciphers \<Rightarrow> draw \<Rightarrow> bytes \<Rightarrow> bytes \<Rightarrow> bytes \<Rightarrow> Wrapped result" where
  "wrap C d recipientPub plaintext aad =
     wrapWithEphemeral C (dr_nonce d) recipientPub (dr_ephemeral d) plaintext aad"

definition unwrap :: "ciphers \<Rightarrow> bytes \<Rightarrow> Wrapped \<Rightarrow> bytes \<Rightarrow> bytes result" where
  "unwrap C recipientPriv w aad =
     (if length (wp_ephemeralPub w) \<noteq> KEY_LEN then Inl InvalidPublicKey
      else bind (throwing ''noble'' (x_public C recipientPriv)) (\<lambda>recipientPub.
        bind (throwing ''noble'' (x_shared C recipientPriv (wp_ephemeralPub w))) (\<lambda>sharedSecret.
          decrypt C (deriveWrappingKey C sharedSecret (wp_ephemeralPub w) recipientPub)
            (wp_nonce w) (wp_ciphertext w) aad)))"

section \<open>argon2.ts\<close>

definition DEFAULT_PARAMS :: Argon2idParams where
  "DEFAULT_PARAMS = \<lparr>memoryKiB = 64 * 1024, iterations = 3, parallelism = 1\<rparr>"

definition deriveKey :: "ciphers \<Rightarrow> js_string \<Rightarrow> bytes \<Rightarrow> Argon2idParams \<Rightarrow> nat \<Rightarrow> bytes result" where
  "deriveKey C password salt params outputLength =
     bind (throwing ''argon2'' (argon2id C password salt params outputLength)) (\<lambda>hex.
       throwing ''hex'' (hexToBytes hex))"

section \<open>invite.ts: the key an invite link carries\<close>

definition INVITE_MAC_INFO :: js_string where "INVITE_MAC_INFO = js ''underground-bb:invite-mac:v1''"
definition INVITE_SEED_SIZE :: nat where "INVITE_SEED_SIZE = 32"
definition INVITE_MAC_KEY_SIZE :: nat where "INVITE_MAC_KEY_SIZE = 32"

definition deriveInviteMACKey :: "ciphers \<Rightarrow> bytes \<Rightarrow> js_string \<Rightarrow> bytes result" where
  "deriveInviteMACKey C inviterSigningSeed inviteId =
     (if length inviterSigningSeed \<noteq> INVITE_SEED_SIZE then Inl ''crypto: invalid signing seed''
      else Inr (hkdf_sha256 C inviterSigningSeed (utf8_encode (INVITE_MAC_INFO @ inviteId)) INVITE_MAC_KEY_SIZE))"

definition computeInviteMAC :: "ciphers \<Rightarrow> bytes \<Rightarrow> bytes \<Rightarrow> bytes" where
  "computeInviteMAC C macKey payload = hmac_sha256 C macKey payload"

definition verifyInviteMAC :: "ciphers \<Rightarrow> bytes \<Rightarrow> bytes \<Rightarrow> bytes \<Rightarrow> bool" where
  "verifyInviteMAC C macKey payload mac = bytesEqual (computeInviteMAC C macKey payload) mac"

section \<open>Facts\<close>

lemma bind_simps [simp]: "bind (Inl e) f = Inl e" "bind (Inr x) f = f x"
  by (simp_all add: bind_def)

lemma bind_Inr_iff: "bind r f = Inr y \<longleftrightarrow> (\<exists>x. r = Inr x \<and> f x = Inr y)"
  by (cases r) simp_all

lemma throwing_simps [simp]: "throwing e None = Inl e" "throwing e (Some x) = Inr x"
  by (simp_all add: throwing_def)

lemma throwing_Inr_iff [simp]: "throwing e x = Inr y \<longleftrightarrow> x = Some y"
  by (cases x) simp_all

lemma require_simps:
  "requireKeySize key = Inr u \<longleftrightarrow> length key = 32" "requireNonceSize nonce = Inr u \<longleftrightarrow> length nonce = 12"
  "length key = 32 \<Longrightarrow> requireKeySize key = Inr ()" "length nonce = 12 \<Longrightarrow> requireNonceSize nonce = Inr ()"
  by (simp_all add: requireKeySize_def requireNonceSize_def AES_KEY_SIZE_def NONCE_SIZE_def)

lemma encryptWithNonce_eq:
  "length key = 32 \<Longrightarrow> length nonce = 12 \<Longrightarrow>
   encryptWithNonce C key nonce plain aad = Inr (aes_seal C key nonce plain aad)"
  by (simp add: encryptWithNonce_def require_simps)

text \<open>Sealing under a key, nonce and associated data is a strict codec.\<close>

lemma decrypt_iff:
  assumes "aead_laws C"
  shows "decrypt C key nonce ct aad = Inr plain \<longleftrightarrow>
    length key = 32 \<and> length nonce = 12 \<and> ct = aes_seal C key nonce plain aad"
  using assms by (auto simp: decrypt_def bind_Inr_iff require_simps aead_laws_def)

lemma decrypt_encrypt:
  "aead_laws C \<Longrightarrow> encrypt C nonce key plain aad = Inr (n, ct) \<Longrightarrow> decrypt C key n ct aad = Inr plain"
  by (auto simp: encrypt_def bind_Inr_iff encryptWithNonce_def require_simps decrypt_iff)

lemma length_deriveWrappingKey: "x25519_laws C \<Longrightarrow> length (deriveWrappingKey C s e r) = 32"
  by (simp add: x25519_laws_def deriveWrappingKey_def AES_KEY_SIZE_def)

text \<open>A wrapping key pair whose public half belongs to its scalar.\<close>

definition genuine_wrapping :: "ciphers \<Rightarrow> WrappingKey \<Rightarrow> bool" where
  "genuine_wrapping C k \<longleftrightarrow> x_public C (wk_privateKey k) = Some (wk_publicKey k)"

lemma generateWrappingKey_genuine: "generateWrappingKey C r = Inr k \<Longrightarrow> genuine_wrapping C k"
  by (auto simp: generateWrappingKey_def bind_Inr_iff genuine_wrapping_def)

lemma wrappingKeyFromPrivate_genuine:
  "wrappingKeyFromPrivate C priv = Inr k \<Longrightarrow> genuine_wrapping C k \<and> wk_privateKey k = priv"
  by (auto simp: wrappingKeyFromPrivate_def bind_Inr_iff genuine_wrapping_def split: if_splits)

lemma x_public_exists: "x25519_laws C \<Longrightarrow> length priv = 32 \<Longrightarrow> \<exists>pub. x_public C priv = Some pub \<and> length pub = 32"
  unfolding x25519_laws_def by (metis not_None_eq)

lemma x_public_length: "x25519_laws C \<Longrightarrow> x_public C priv = Some pub \<Longrightarrow> length priv = 32 \<and> length pub = 32"
  unfolding x25519_laws_def by (metis not_None_eq)

lemma genuine_wrapping_sizes:
  "x25519_laws C \<Longrightarrow> genuine_wrapping C k \<Longrightarrow> length (wk_privateKey k) = 32 \<and> length (wk_publicKey k) = 32"
  using x_public_length by (simp add: genuine_wrapping_def)

lemma wrappingKeyFromPrivate_genuineI:
  "x25519_laws C \<Longrightarrow> genuine_wrapping C k \<Longrightarrow> wrappingKeyFromPrivate C (wk_privateKey k) = Inr k"
  using x_public_length [of C "wk_privateKey k" "wk_publicKey k"]
  by (cases k) (simp add: wrappingKeyFromPrivate_def genuine_wrapping_def KEY_LEN_def)

lemma wrap_eq:
  assumes "aead_laws C" "x25519_laws C" "genuine_wrapping C k" "draw_ok d"
  shows "\<exists>w. wrap C d (wk_publicKey k) plain aad = Inr w \<and> unwrap C (wk_privateKey k) w aad = Inr plain
    \<and> length (wp_ephemeralPub w) = 32 \<and> length (wp_nonce w) = 12 \<and> length (wp_ciphertext w) = length plain + 16"
proof -
  from x_public_exists [OF assms(2)] assms(4) obtain E where E: "x_public C (dr_ephemeral d) = Some E" "length E = 32"
    by (auto simp: draw_ok_def)
  from assms(2,3) E obtain s where s: "x_shared C (dr_ephemeral d) (wk_publicKey k) = Some s"
    "x_shared C (wk_privateKey k) E = Some s"
    unfolding x25519_laws_def genuine_wrapping_def by (metis not_None_eq)
  let ?key = "deriveWrappingKey C s E (wk_publicKey k)"
  let ?w = "\<lparr>wp_ephemeralPub = E, wp_nonce = dr_nonce d,
    wp_ciphertext = aes_seal C ?key (dr_nonce d) plain aad\<rparr>"
  have sizes: "length ?key = 32" "length (dr_nonce d) = 12"
    using length_deriveWrappingKey [OF assms(2)] assms(4) by (simp_all add: draw_ok_def)
  have "wrap C d (wk_publicKey k) plain aad = Inr ?w"
    using E s sizes by (simp add: wrap_def wrapWithEphemeral_def wrapWithEphemeralAndNonce_def encryptWithNonce_eq)
  moreover have "unwrap C (wk_privateKey k) ?w aad = Inr plain"
    using E s sizes assms(1,3) by (simp add: unwrap_def KEY_LEN_def genuine_wrapping_def decrypt_iff)
  ultimately show ?thesis using E(2) sizes assms(1) by (auto simp: aead_laws_def)
qed

lemma unwrap_wrap:
  assumes "aead_laws C" "x25519_laws C" "genuine_wrapping C k" "draw_ok d"
    and "wrap C d (wk_publicKey k) plain aad = Inr w"
  shows "unwrap C (wk_privateKey k) w aad = Inr plain"
  using wrap_eq [OF assms(1-4), of plain aad] assms(5) by auto

lemma verifyInviteMAC_iff: "verifyInviteMAC C k payload mac \<longleftrightarrow> mac = computeInviteMAC C k payload"
  by (auto simp: verifyInviteMAC_def)

end
