(* ===== verification/Text_Decoder.thy ===== *)
theory Text_Decoder
  imports Codec
begin

text \<open>
  \<open>new TextDecoder().decode(bytes)\<close>: the WHATWG UTF-8 decoder in its default mode, which
  replaces what is malformed by U+FFFD and drops one leading byte order mark.  The decoder's
  state is the continuation bytes still needed, the bounds of the next one, and the code point
  read so far.
\<close>

text \<open>A lead byte: the bytes needed, the bounds of the first of them, and the bits it carries.\<close>

definition lead :: "nat \<Rightarrow> (nat \<times> nat \<times> nat \<times> nat) option" where
  "lead b =
     (if 0xC2 \<le> b \<and> b \<le> 0xDF then Some (1, 0x80, 0xBF, b - 0xC0)
      else if 0xE0 \<le> b \<and> b \<le> 0xEF
      then Some (2, if b = 0xE0 then 0xA0 else 0x80, if b = 0xED then 0x9F else 0xBF, b - 0xE0)
      else if 0xF0 \<le> b \<and> b \<le> 0xF4
      then Some (3, if b = 0xF0 then 0x90 else 0x80, if b = 0xF4 then 0x8F else 0xBF, b - 0xF0)
      else None)"

function lossy :: "nat \<Rightarrow> nat \<Rightarrow> nat \<Rightarrow> nat \<Rightarrow> bytes \<Rightarrow> nat list" where
  "lossy 0 lo hi p [] = []"
| "lossy (Suc n) lo hi p [] = [0xFFFD]"
| "lossy 0 lo hi p (b # bs) =
     (if unat b < 0x80 then unat b # lossy 0 lo hi p bs
      else case lead (unat b) of
        None \<Rightarrow> 0xFFFD # lossy 0 lo hi p bs
      | Some (n, lo', hi', p') \<Rightarrow> lossy n lo' hi' p' bs)"
| "lossy (Suc n) lo hi p (b # bs) =
     (if lo \<le> unat b \<and> unat b \<le> hi
      then (let p' = p * 64 + (unat b - 0x80)
            in if n = 0 then p' # lossy 0 0x80 0xBF 0 bs else lossy n 0x80 0xBF p' bs)
      else 0xFFFD # lossy 0 0x80 0xBF 0 (b # bs))"
  by pat_completeness auto
termination
  by (relation "measure (\<lambda>(n, lo, hi, p, bs). 2 * length bs + (if n = 0 then 0 else 1))") auto

definition utf8_decode_lossy :: "bytes \<Rightarrow> js_string" where
  "utf8_decode_lossy bs = concat (map utf16_of (lossy 0 0x80 0xBF 0 (strip_bom bs)))"

text \<open>The bounds and the point left over by an earlier character do not matter.\<close>

lemma lossy_0 [simp]: "NO_MATCH (0::nat) p \<or> NO_MATCH (0x80::nat) lo \<or> NO_MATCH (0xBF::nat) hi \<Longrightarrow> lossy 0 lo hi p bs = lossy 0 0x80 0xBF 0 bs"
  by (induction "0::nat" lo hi p bs rule: lossy.induct) (auto split: option.split)

lemma lossy_2:
  assumes "p = a * 64 + b" "b < 64" "128 \<le> p" "p < 2048"
  shows "lossy 0 0x80 0xBF 0 (byte_of (192 + a) # byte_of (128 + b) # bs) = p # lossy 0 0x80 0xBF 0 bs"
proof -
  have "2 \<le> a" "a < 32" using assms by linarith+
  then have u: "unat (byte_of (192 + a)) = 192 + a" "unat (byte_of (128 + b)) = 128 + b"
    and l: "lead (192 + a) = Some (1, 128, 191, a)"
    using assms(2) by (simp_all add: lead_def)
  show ?thesis using assms(1,2) by (simp add: u l numeral_2_eq_2 [symmetric])
qed

lemma lossy_3:
  assumes "p = a * 4096 + b * 64 + c" "b < 64" "c < 64" "2048 \<le> p" "p < 65536" "scalar p"
  shows "lossy 0 0x80 0xBF 0 (byte_of (224 + a) # byte_of (128 + b) # byte_of (128 + c) # bs)
    = p # lossy 0 0x80 0xBF 0 bs"
proof -
  have a: "a < 16" using assms by linarith
  have lo: "a = 0 \<Longrightarrow> 32 \<le> b" and hi: "a = 13 \<Longrightarrow> b \<le> 31"
    using assms unfolding scalar_def by linarith+
  have u: "unat (byte_of (224 + a)) = 224 + a" "unat (byte_of (128 + b)) = 128 + b" "unat (byte_of (128 + c)) = 128 + c"
    using a assms(2,3) by simp_all
  have l: "lead (224 + a) = Some (2, if a = 0 then 160 else 128, if a = 13 then 159 else 191, a)"
    using a by (simp add: lead_def)
  show ?thesis using assms(2,3) lo hi by (simp add: u l numeral_2_eq_2) (use assms(1) in auto)
qed

lemma lossy_4:
  assumes "p = a * 262144 + b * 4096 + c * 64 + d" "b < 64" "c < 64" "d < 64" "65536 \<le> p" "p < 1114112"
  shows "lossy 0 0x80 0xBF 0 (byte_of (240 + a) # byte_of (128 + b) # byte_of (128 + c) # byte_of (128 + d) # bs)
    = p # lossy 0 0x80 0xBF 0 bs"
proof -
  have a: "a < 5" using assms by linarith
  have lo: "a = 0 \<Longrightarrow> 16 \<le> b" and hi: "a = 4 \<Longrightarrow> b \<le> 15" using assms by linarith+
  have u: "unat (byte_of (240 + a)) = 240 + a" "unat (byte_of (128 + b)) = 128 + b"
    "unat (byte_of (128 + c)) = 128 + c" "unat (byte_of (128 + d)) = 128 + d"
    using a assms(2,3,4) by simp_all
  have l: "lead (240 + a) = Some (3, if a = 0 then 144 else 128, if a = 4 then 143 else 191, a)"
    using a by (simp add: lead_def)
  show ?thesis using assms(2-4) lo hi by (simp add: u l numeral_3_eq_3) (use assms(1) in auto)
qed

lemma lossy_utf8_of:
  assumes "scalar p"
  shows "lossy 0 0x80 0xBF 0 (utf8_of p @ bs) = p # lossy 0 0x80 0xBF 0 bs"
proof -
  consider "p < 128" | "128 \<le> p" "p < 2048" | "2048 \<le> p" "p < 65536" | "65536 \<le> p" "p < 1114112"
    using scalar_bound [OF assms] by linarith
  then show ?thesis
  proof cases
    case 2
    then show ?thesis using lossy_2 [of p "p div 64" "p mod 64"] by (simp add: utf8_of_def)
  next
    case 3
    have "p = p div 4096 * 4096 + p div 64 mod 64 * 64 + p mod 64" by (rule base64_split3 [symmetric])
    then show ?thesis using 3 assms lossy_3 [of p "p div 4096" "p div 64 mod 64" "p mod 64"]
      by (simp add: utf8_of_def)
  next
    case 4
    have "p = p div 262144 * 262144 + p div 4096 mod 64 * 4096 + p div 64 mod 64 * 64 + p mod 64"
      by (rule base64_split [symmetric])
    then show ?thesis using 4 lossy_4 [of p "p div 262144" "p div 4096 mod 64" "p div 64 mod 64" "p mod 64"]
      by (simp add: utf8_of_def)
  qed (simp add: utf8_of_def)
qed

lemma lossy_points: "list_all scalar ps \<Longrightarrow> lossy 0 0x80 0xBF 0 (concat (map utf8_of ps)) = ps"
  by (induction ps) (simp_all add: lossy_utf8_of)

lemma utf8_decode_lossy_encode: "text_ok s \<Longrightarrow> utf8_decode_lossy (utf8_encode s) = s"
  by (simp add: utf8_decode_lossy_def strip_bom_utf8_encode)
    (simp add: utf8_encode_def lossy_points code_points_scalar utf16_code_points text_ok_def)

text \<open>On bytes that are UTF-8 the two modes of the decoder agree.\<close>

lemma utf8_decode_lossy_strict: "utf8_decode bs = Some s \<Longrightarrow> utf8_decode_lossy bs = s"
proof -
  assume "utf8_decode bs = Some s"
  then obtain ps where ps: "utf8_points (strip_bom bs) = Some ps" "s = concat (map utf16_of ps)"
    by (auto simp: utf8_decode_def)
  have "lossy 0 0x80 0xBF 0 (strip_bom bs) = ps"
    using utf8_points_canonical [OF ps(1)] lossy_points [of ps] by simp
  then show ?thesis by (simp add: utf8_decode_lossy_def ps(2))
qed

interpretation utf8_lossy: codec utf8_encode "\<lambda>bs. Some (utf8_decode_lossy bs)" text_ok
  by unfold_locales (simp add: utf8_decode_lossy_encode)

end
