(* ===== verification/Group_Material.thy ===== *)
theory Group_Material
  imports Wrapping Pins Text_Decoder
begin

text \<open>
  credential-material.ts, the half about groups: what a member signs and wraps (the new group,
  grants, successors, invites, admissions, rotations, re-keys, wrap records), the walk down the
  chain of generation keys, and a private group's name and description.  Clock, random suffixes
  and draws are arguments; each function runs on the keys it was called with.
\<close>

section \<open>Wire forms\<close>

record WireWrapped =
  we_ephemeralPub :: js_string
  we_nonce :: js_string
  we_ciphertext :: js_string

definition toWireWrapped :: "Wrapped \<Rightarrow> WireWrapped" where
  "toWireWrapped w =
     \<lparr>we_ephemeralPub = bytesToBase64 (wp_ephemeralPub w), we_nonce = bytesToBase64 (wp_nonce w),
      we_ciphertext = bytesToBase64 (wp_ciphertext w)\<rparr>"

definition atob :: "js_string \<Rightarrow> bytes result" where
  "atob s = throwing ''InvalidCharacterError'' (base64ToBytes s)"

definition wrappedFromWire :: "WireWrapped \<Rightarrow> Wrapped result" where
  "wrappedFromWire w =
     bind (atob (we_ephemeralPub w)) (\<lambda>e. bind (atob (we_nonce w)) (\<lambda>n. bind (atob (we_ciphertext w)) (\<lambda>c.
       Inr \<lparr>wp_ephemeralPub = e, wp_nonce = n, wp_ciphertext = c\<rparr>)))"

text \<open>A sealed value and a link of the generation chain, as the server stores them.\<close>

record Sealed =
  sl_nonce :: js_string
  sl_ciphertext :: js_string

definition sealed :: "bytes \<times> bytes \<Rightarrow> Sealed" where
  "sealed nc = \<lparr>sl_nonce = bytesToBase64 (fst nc), sl_ciphertext = bytesToBase64 (snd nc)\<rparr>"

definition open_sealed :: "ciphers \<Rightarrow> bytes \<Rightarrow> Sealed \<Rightarrow> bytes \<Rightarrow> bytes result" where
  "open_sealed C key s aad =
     bind (atob (sl_nonce s)) (\<lambda>n. bind (atob (sl_ciphertext s)) (\<lambda>c. decrypt C key n c aad))"

record ChainLink =
  cl_generation :: int
  cl_wrapped :: Sealed

section \<open>Groups, grants and successors\<close>

record GroupCreation =
  gc_trustAnchorSignature :: js_string
  gc_rootGrantSortKey :: js_string
  gc_rootGrantSignature :: js_string
  gc_groupKeyWrapped :: WireWrapped

definition signGroupCreation ::
  "prims \<Rightarrow> ciphers \<Rightarrow> int \<Rightarrow> bytes \<Rightarrow> draw \<Rightarrow> LiveKeys \<Rightarrow> js_string \<Rightarrow> bytes \<Rightarrow> GroupCreation result" where
  "signGroupCreation P C now random d keys groupId groupKey =
     (let anchorPayload = trustAnchorPayload (lv_userId keys) (sk_publicKey (lv_signingKey keys)) groupId;
          trustAnchorSignature = sign P (lv_signingKey keys) TrustAnchor anchorPayload;
          rootGrantSortKey = generateGrantSortKey (lv_userId keys) now random;
          grantPayload = roleGrantPayload groupId (lv_userId keys) (js ''admin'') rootGrantSortKey [];
          rootGrantSignature = sign P (lv_signingKey keys) RoleGrant grantPayload
      in bind (wrap C d (wk_publicKey (lv_wrappingKey keys)) groupKey (memberWrapAAD groupId (lv_userId keys) 0))
           (\<lambda>wrapped. Inr
             \<lparr>gc_trustAnchorSignature = bytesToBase64 trustAnchorSignature,
              gc_rootGrantSortKey = rootGrantSortKey,
              gc_rootGrantSignature = bytesToBase64 rootGrantSignature,
              gc_groupKeyWrapped = toWireWrapped wrapped\<rparr>))"

text \<open>The sort key and the signature.\<close>

definition signRoleGrant ::
  "prims \<Rightarrow> int \<Rightarrow> bytes \<Rightarrow> LiveKeys \<Rightarrow> js_string \<Rightarrow> js_string \<Rightarrow> js_string \<Rightarrow> js_string
   \<Rightarrow> js_string \<times> js_string" where
  "signRoleGrant P now random keys groupId subjectUserId role grantorGrantRef =
     (let grantSortKey = generateGrantSortKey subjectUserId now random;
          payload = roleGrantPayload groupId subjectUserId role grantSortKey grantorGrantRef
      in (grantSortKey, bytesToBase64 (sign P (lv_signingKey keys) RoleGrant payload)))"

definition signSuccessorDesignation ::
  "prims \<Rightarrow> int \<Rightarrow> bytes \<Rightarrow> LiveKeys \<Rightarrow> js_string \<Rightarrow> js_string \<Rightarrow> int \<Rightarrow> js_string
   \<Rightarrow> (js_string \<times> js_string) result" where
  "signSuccessorDesignation P now random keys groupId successorUserId periodDays adminGrantRef =
     (let designationSortKey = generateDesignationSortKey (lv_userId keys) now random
      in bind (successorDesignationPayload groupId (lv_userId keys) successorUserId periodDays
                 designationSortKey adminGrantRef)
           (\<lambda>payload. Inr (designationSortKey,
              bytesToBase64 (sign P (lv_signingKey keys) SuccessorDesignation payload))))"

definition signSuccessorClaim ::
  "prims \<Rightarrow> int \<Rightarrow> bytes \<Rightarrow> LiveKeys \<Rightarrow> js_string \<Rightarrow> js_string \<Rightarrow> js_string \<times> js_string" where
  "signSuccessorClaim P now random keys groupId designationSortKey =
     (let claimSortKey = generateGrantSortKey (lv_userId keys) now random;
          payload = successorClaimPayload groupId (lv_userId keys) designationSortKey claimSortKey
      in (claimSortKey, bytesToBase64 (sign P (lv_signingKey keys) SuccessorClaim payload)))"

text \<open>The signature and the day.\<close>

definition signWrapRecord ::
  "prims \<Rightarrow> int \<Rightarrow> LiveKeys \<Rightarrow> js_string \<Rightarrow> js_string \<Rightarrow> int \<Rightarrow> int \<Rightarrow> RekeyReason
   \<Rightarrow> (js_string \<times> js_string) result" where
  "signWrapRecord P now keys groupId memberUserId generation keyEpoch reason =
     (if (reason = RekeySelf) \<noteq> (memberUserId = lv_userId keys)
      then Inl ''crypto: a wrap record's reason must be 'self' exactly for the caller's own entry''
      else let wrapDay = isoDay now in
        bind (wrapRecordPayload groupId (lv_userId keys) memberUserId generation keyEpoch reason wrapDay)
          (\<lambda>payload. Inr (bytesToBase64 (sign P (lv_signingKey keys) WrapRecord payload), wrapDay)))"

section \<open>Invites and admissions\<close>

definition InviteMACError :: string where
  "InviteMACError = ''crypto: invite MAC does not verify -- this response may not be from the real invitee''"

record InviteCreation =
  ic_creationSignature :: js_string
  ic_inviterFingerprint :: js_string
  ic_inviteMACKey :: js_string

definition signInviteCreation ::
  "prims \<Rightarrow> ciphers \<Rightarrow> LiveKeys \<Rightarrow> js_string \<Rightarrow> js_string \<Rightarrow> js_string \<Rightarrow> InviteCreation result" where
  "signInviteCreation P C keys inviteId groupId expiresAt =
     (let payload = inviteCreationPayload inviteId groupId (sk_publicKey (lv_signingKey keys)) expiresAt;
          signature = sign P (lv_signingKey keys) Invite payload
      in bind (ownFingerprint P keys) (\<lambda>inviterFingerprint.
         bind (deriveInviteMACKey C (sk_seed (lv_signingKey keys)) inviteId) (\<lambda>macKey.
           Inr \<lparr>ic_creationSignature = bytesToBase64 signature,
                ic_inviterFingerprint = inviterFingerprint,
                ic_inviteMACKey = bytesToBase64Url macKey\<rparr>)))"

text \<open>The acceptance signature and the MAC.\<close>

definition signInviteAcceptance ::
  "prims \<Rightarrow> ciphers \<Rightarrow> LiveKeys \<Rightarrow> js_string \<Rightarrow> bytes \<Rightarrow> js_string \<times> js_string" where
  "signInviteAcceptance P C keys inviteId inviteMACKey =
     (let payload = inviteAcceptancePayload inviteId (sk_publicKey (lv_signingKey keys))
                      (wk_publicKey (lv_wrappingKey keys))
      in (bytesToBase64 (sign P (lv_signingKey keys) Invite payload),
          bytesToBase64 (computeInviteMAC C inviteMACKey payload)))"

record SignedAdmission =
  am_inviterGrantRef :: js_string
  am_day :: js_string
  am_signature :: js_string

definition signReadmission ::
  "prims \<Rightarrow> LiveKeys \<Rightarrow> js_string \<Rightarrow> js_string \<Rightarrow> bytes \<Rightarrow> bytes \<Rightarrow> js_string \<Rightarrow> js_string \<Rightarrow> js_string \<Rightarrow> int
   \<Rightarrow> SignedAdmission" where
  "signReadmission P keys groupId subjectUserId subjectEd25519 subjectX25519 inviteId inviterGrantRef day generation =
     \<lparr>am_inviterGrantRef = inviterGrantRef, am_day = day,
      am_signature = bytesToBase64 (sign P (lv_signingKey keys) Admission
        (admissionPayload groupId (lv_userId keys) subjectUserId subjectEd25519 subjectX25519 inviteId
           inviterGrantRef day generation))\<rparr>"

record CompletedInvite =
  cp_wrappedGroupKey :: WireWrapped
  cp_generation :: int
  cp_admission :: SignedAdmission

definition completeInvite ::
  "prims \<Rightarrow> ciphers \<Rightarrow> draw \<Rightarrow> LiveKeys \<Rightarrow> js_string \<Rightarrow> js_string \<Rightarrow> Wrapped \<Rightarrow> int \<Rightarrow> js_string \<Rightarrow> bytes \<Rightarrow> bytes
   \<Rightarrow> bytes \<Rightarrow> js_string \<Rightarrow> js_string \<Rightarrow> CompletedInvite result" where
  "completeInvite P C d keys inviteId groupId ownWrappedGroupKey ownGeneration invitedUserId
     invitedEd25519 invitedX25519 inviteMAC inviterGrantRef day =
     bind (deriveInviteMACKey C (sk_seed (lv_signingKey keys)) inviteId) (\<lambda>macKey.
       let payload = inviteAcceptancePayload inviteId invitedEd25519 invitedX25519 in
       if \<not> verifyInviteMAC C macKey payload inviteMAC then Inl InviteMACError
       else bind (unwrap C (wk_privateKey (lv_wrappingKey keys)) ownWrappedGroupKey
                    (memberWrapAAD groupId (lv_userId keys) ownGeneration)) (\<lambda>groupKey.
         bind (wrap C d invitedX25519 groupKey (memberWrapAAD groupId invitedUserId ownGeneration)) (\<lambda>wrapped.
           let admissionSignature = sign P (lv_signingKey keys) Admission
             (admissionPayload groupId (lv_userId keys) invitedUserId invitedEd25519 invitedX25519 inviteId
                inviterGrantRef day ownGeneration)
           in Inr \<lparr>cp_wrappedGroupKey = toWireWrapped wrapped, cp_generation = ownGeneration,
                   cp_admission = \<lparr>am_inviterGrantRef = inviterGrantRef, am_day = day,
                                   am_signature = bytesToBase64 admissionSignature\<rparr>\<rparr>)))"

section \<open>Rotations and re-keys\<close>

definition unwrapOwnGroupKey ::
  "ciphers \<Rightarrow> LiveKeys \<Rightarrow> js_string \<Rightarrow> Wrapped \<Rightarrow> int \<Rightarrow> bytes result" where
  "unwrapOwnGroupKey C keys groupId ownWrappedGroupKey ownGeneration =
     bind (unwrap C (wk_privateKey (lv_wrappingKey keys)) ownWrappedGroupKey
             (memberWrapAAD groupId (lv_userId keys) ownGeneration)) (\<lambda>groupKey.
       if length groupKey \<noteq> AES_KEY_SIZE then Inl ''crypto: unwrapped group key has the wrong length''
       else Inr groupKey)"

record RotationStarted =
  rs_generation :: int
  rs_link :: Sealed
  rs_removerWrappedKey :: WireWrapped
  rs_memberWrappedKey :: "WireWrapped option"
  rs_startSignature :: js_string

text \<open>What minting draws: the new key, the nonce of the link, and the draw of each wrap.\<close>

record mint =
  mi_newKey :: bytes
  mi_nonce :: bytes
  mi_own :: draw
  mi_member :: draw

definition startGroupRotation ::
  "prims \<Rightarrow> ciphers \<Rightarrow> mint \<Rightarrow> LiveKeys \<Rightarrow> js_string \<Rightarrow> Wrapped \<Rightarrow> int \<Rightarrow> js_string \<Rightarrow> RotationStarted result" where
  "startGroupRotation P C m keys groupId ownWrappedGroupKey ownGeneration subjectUserId =
     bind (unwrapOwnGroupKey C keys groupId ownWrappedGroupKey ownGeneration) (\<lambda>oldKey.
       let newKey = mi_newKey m; generation = ownGeneration + 1 in
       bind (encrypt C (mi_nonce m) newKey oldKey (genKeyAAD groupId ownGeneration)) (\<lambda>link.
       bind (wrap C (mi_own m) (wk_publicKey (lv_wrappingKey keys)) newKey
               (memberWrapAAD groupId (lv_userId keys) generation)) (\<lambda>removerWrapped.
       bind (rotationStartPayload groupId (lv_userId keys) subjectUserId generation) (\<lambda>payload.
         Inr \<lparr>rs_generation = generation, rs_link = sealed link,
              rs_removerWrappedKey = toWireWrapped removerWrapped, rs_memberWrappedKey = None,
              rs_startSignature = bytesToBase64 (sign P (lv_signingKey keys) RotationStart payload)\<rparr>))))"

text \<open>The handed-off key both re-key paths open.\<close>

definition unwrapHandoff :: "ciphers \<Rightarrow> LiveKeys \<Rightarrow> js_string \<Rightarrow> int \<Rightarrow> Wrapped \<Rightarrow> bytes result" where
  "unwrapHandoff C keys groupId handoffGeneration handoffWrappedKey =
     bind (unwrap C (wk_privateKey (lv_wrappingKey keys)) handoffWrappedKey
             (handoffWrapAAD (lv_userId keys) groupId handoffGeneration (wk_publicKey (lv_wrappingKey keys))))
       (\<lambda>oldKey. if length oldKey \<noteq> AES_KEY_SIZE then Inl ''crypto: handed-off group key has the wrong length''
                 else Inr oldKey)"

definition startSelfRekey ::
  "prims \<Rightarrow> ciphers \<Rightarrow> mint \<Rightarrow> LiveKeys \<Rightarrow> js_string \<Rightarrow> int \<Rightarrow> Wrapped \<Rightarrow> RotationStarted result" where
  "startSelfRekey P C m keys groupId handoffGeneration handoffWrappedKey =
     bind (unwrapHandoff C keys groupId handoffGeneration handoffWrappedKey) (\<lambda>oldKey.
       let newKey = mi_newKey m; generation = handoffGeneration + 1 in
       bind (encrypt C (mi_nonce m) newKey oldKey (genKeyAAD groupId handoffGeneration)) (\<lambda>link.
       bind (wrap C (mi_own m) (wk_publicKey (lv_wrappingKey keys)) newKey
               (memberWrapAAD groupId (lv_userId keys) generation)) (\<lambda>ownWrapped.
       bind (rotationRekeyPayload groupId (lv_userId keys) (lv_userId keys) generation RekeySelf) (\<lambda>payload.
         Inr \<lparr>rs_generation = generation, rs_link = sealed link,
              rs_removerWrappedKey = toWireWrapped ownWrapped, rs_memberWrappedKey = None,
              rs_startSignature = bytesToBase64 (sign P (lv_signingKey keys) RotationRekey payload)\<rparr>))))"

definition selfWrapFromHandoff ::
  "ciphers \<Rightarrow> draw \<Rightarrow> LiveKeys \<Rightarrow> js_string \<Rightarrow> int \<Rightarrow> Wrapped \<Rightarrow> WireWrapped result" where
  "selfWrapFromHandoff C d keys groupId handoffGeneration handoffWrappedKey =
     bind (unwrapHandoff C keys groupId handoffGeneration handoffWrappedKey) (\<lambda>groupKey.
       bind (wrap C d (wk_publicKey (lv_wrappingKey keys)) groupKey
               (memberWrapAAD groupId (lv_userId keys) handoffGeneration)) (\<lambda>ownWrapped.
         Inr (toWireWrapped ownWrapped)))"

definition startApprovalRekey ::
  "prims \<Rightarrow> ciphers \<Rightarrow> mint \<Rightarrow> LiveKeys \<Rightarrow> js_string \<Rightarrow> Wrapped \<Rightarrow> int \<Rightarrow> js_string \<Rightarrow> bytes
   \<Rightarrow> RotationStarted result" where
  "startApprovalRekey P C m keys groupId ownWrappedGroupKey ownGeneration memberUserId memberWrappingPublicKey =
     (if memberUserId = lv_userId keys
      then Inl ''crypto: refusing to approve the caller with a re-key; use the self re-key''
      else if length memberWrappingPublicKey \<noteq> KEY_LEN
      then Inl ''crypto: member X25519 public key must be 32 bytes''
      else bind (unwrapOwnGroupKey C keys groupId ownWrappedGroupKey ownGeneration) (\<lambda>oldKey.
        let newKey = mi_newKey m; generation = ownGeneration + 1 in
        bind (encrypt C (mi_nonce m) newKey oldKey (genKeyAAD groupId ownGeneration)) (\<lambda>link.
        bind (wrap C (mi_own m) (wk_publicKey (lv_wrappingKey keys)) newKey
                (memberWrapAAD groupId (lv_userId keys) generation)) (\<lambda>ownWrapped.
        bind (wrap C (mi_member m) memberWrappingPublicKey newKey
                (memberWrapAAD groupId memberUserId generation)) (\<lambda>memberWrapped.
        bind (rotationRekeyPayload groupId (lv_userId keys) memberUserId generation RekeyApproval) (\<lambda>payload.
          Inr \<lparr>rs_generation = generation, rs_link = sealed link,
               rs_removerWrappedKey = toWireWrapped ownWrapped,
               rs_memberWrappedKey = Some (toWireWrapped memberWrapped),
               rs_startSignature = bytesToBase64 (sign P (lv_signingKey keys) RotationRekey payload)\<rparr>))))))"

text \<open>The generation and the signature.\<close>

definition signLeaveRotationStart ::
  "prims \<Rightarrow> LiveKeys \<Rightarrow> js_string \<Rightarrow> int \<Rightarrow> (int \<times> js_string) result" where
  "signLeaveRotationStart P keys groupId ownGeneration =
     (let generation = ownGeneration + 1 in
      bind (rotationStartPayload groupId (lv_userId keys) (lv_userId keys) generation) (\<lambda>payload.
        Inr (generation, bytesToBase64 (sign P (lv_signingKey keys) RotationStart payload))))"

text \<open>The loop of \<open>rewrapGroupKey\<close>, with one draw for each recipient.\<close>

fun rewrap_all ::
  "ciphers \<Rightarrow> LiveKeys \<Rightarrow> js_string \<Rightarrow> int \<Rightarrow> bytes \<Rightarrow> ((js_string \<times> bytes) \<times> draw) list
   \<Rightarrow> (js_string \<times> WireWrapped) list result" where
  "rewrap_all C keys groupId ownGeneration groupKey [] = Inr []"
| "rewrap_all C keys groupId ownGeneration groupKey (((userId, x25519PublicKey), d) # rs) =
     (if userId = lv_userId keys then Inl ''crypto: refusing to re-wrap the group key to the caller''
      else if length x25519PublicKey \<noteq> KEY_LEN then Inl ''crypto: recipient X25519 public key must be 32 bytes''
      else bind (wrap C d x25519PublicKey groupKey (memberWrapAAD groupId userId ownGeneration)) (\<lambda>wrapped.
        bind (rewrap_all C keys groupId ownGeneration groupKey rs) (\<lambda>out.
          Inr ((userId, toWireWrapped wrapped) # out))))"

definition rewrapGroupKey ::
  "ciphers \<Rightarrow> LiveKeys \<Rightarrow> js_string \<Rightarrow> Wrapped \<Rightarrow> int \<Rightarrow> ((js_string \<times> bytes) \<times> draw) list
   \<Rightarrow> (js_string \<times> WireWrapped) list result" where
  "rewrapGroupKey C keys groupId ownWrappedGroupKey ownGeneration recipients =
     bind (unwrapOwnGroupKey C keys groupId ownWrappedGroupKey ownGeneration) (\<lambda>groupKey.
       rewrap_all C keys groupId ownGeneration groupKey recipients)"

section \<open>The chain of generation keys\<close>

text \<open>\<open>new Map(chain.map(...))\<close>: the last link listed for a generation wins.\<close>

definition chain_map :: "ChainLink list \<Rightarrow> (int \<rightharpoonup> Sealed)" where
  "chain_map chain = map_of (rev (map (\<lambda>l. (cl_generation l, cl_wrapped l)) chain))"

text \<open>The loop, with \<open>k\<close> links to go from the key of \<open>generation\<close>.\<close>

fun walk_down :: "ciphers \<Rightarrow> js_string \<Rightarrow> (int \<rightharpoonup> Sealed) \<Rightarrow> nat \<Rightarrow> int \<Rightarrow> bytes \<Rightarrow> bytes result" where
  "walk_down C groupId links 0 generation key = Inr key"
| "walk_down C groupId links (Suc k) generation key =
     (case links (generation - 1) of
        None \<Rightarrow> Inl ''crypto: no chain link for generation''
      | Some link \<Rightarrow>
          bind (open_sealed C key link (genKeyAAD groupId (generation - 1))) (\<lambda>key'.
            if length key' \<noteq> AES_KEY_SIZE then Inl ''crypto: chain link opened to a key of the wrong length''
            else walk_down C groupId links k (generation - 1) key'))"

definition walkChainDown ::
  "ciphers \<Rightarrow> bytes \<Rightarrow> js_string \<Rightarrow> int \<Rightarrow> int \<Rightarrow> ChainLink list \<Rightarrow> bytes result" where
  "walkChainDown C startKey groupId fromGeneration toGeneration chain =
     (if fromGeneration < toGeneration
      then Inl ''crypto: the name is from a newer generation than the member holds''
      else walk_down C groupId (chain_map chain) (nat (fromGeneration - toGeneration)) fromGeneration startKey)"

section \<open>A private group's name and description\<close>

definition decryptGroupText ::
  "ciphers \<Rightarrow> bytes \<Rightarrow> js_string \<Rightarrow> GroupTextField \<Rightarrow> int \<Rightarrow> Sealed \<Rightarrow> js_string result" where
  "decryptGroupText C groupKey groupId field generation ciphertext =
     bind (open_sealed C groupKey ciphertext (groupNameAAD groupId field generation)) (\<lambda>plaintext.
       Inr (utf8_decode_lossy plaintext))"

record GroupNameEntry =
  gn_groupId :: js_string
  gn_generation :: int
  gn_nameGeneration :: int
  gn_wrappedGroupKey :: WireWrapped
  gn_nameCiphertext :: Sealed
  gn_descriptionCiphertext :: Sealed
  gn_chain :: "ChainLink list"

record DecryptedGroupName =
  dg_groupId :: js_string
  dg_name :: "js_string option"
  dg_description :: "js_string option"

text \<open>The body of the \<open>try\<close> block: the name and the description.\<close>

definition group_name_of ::
  "ciphers \<Rightarrow> LiveKeys \<Rightarrow> GroupNameEntry \<Rightarrow> (js_string \<times> js_string) result" where
  "group_name_of C keys g =
     bind (wrappedFromWire (gn_wrappedGroupKey g)) (\<lambda>wrappedGroupKey.
     bind (unwrap C (wk_privateKey (lv_wrappingKey keys)) wrappedGroupKey
             (memberWrapAAD (gn_groupId g) (lv_userId keys) (gn_generation g))) (\<lambda>ownKey.
     bind (walkChainDown C ownKey (gn_groupId g) (gn_generation g) (gn_nameGeneration g) (gn_chain g)) (\<lambda>groupKey.
     bind (decryptGroupText C groupKey (gn_groupId g) NAME (gn_nameGeneration g) (gn_nameCiphertext g)) (\<lambda>name.
     bind (decryptGroupText C groupKey (gn_groupId g) DESC (gn_nameGeneration g) (gn_descriptionCiphertext g))
       (\<lambda>description. Inr (name, description))))))"

definition decryptOneGroupName :: "ciphers \<Rightarrow> LiveKeys \<Rightarrow> GroupNameEntry \<Rightarrow> DecryptedGroupName" where
  "decryptOneGroupName C keys g =
     (case group_name_of C keys g of
        Inl _ \<Rightarrow> \<lparr>dg_groupId = gn_groupId g, dg_name = None, dg_description = None\<rparr>
      | Inr (name, description) \<Rightarrow>
          \<lparr>dg_groupId = gn_groupId g, dg_name = Some name, dg_description = Some description\<rparr>)"

definition decryptGroupNames :: "ciphers \<Rightarrow> LiveKeys \<Rightarrow> GroupNameEntry list \<Rightarrow> DecryptedGroupName list" where
  "decryptGroupNames C keys groups = map (decryptOneGroupName C keys) groups"

record EncryptGroupText =
  eg_groupId :: js_string
  eg_generation :: int
  eg_nameGeneration :: int
  eg_wrappedGroupKey :: WireWrapped
  eg_name :: js_string
  eg_description :: js_string

definition seal_text ::
  "ciphers \<Rightarrow> bytes \<Rightarrow> bytes \<Rightarrow> js_string \<Rightarrow> int \<Rightarrow> GroupTextField \<Rightarrow> js_string \<Rightarrow> Sealed result" where
  "seal_text C nonce groupKey groupId nameGeneration field txt =
     bind (encrypt C nonce groupKey (utf8_encode txt) (groupNameAAD groupId field nameGeneration))
       (\<lambda>s. Inr (sealed s))"

definition encryptGroupText ::
  "ciphers \<Rightarrow> bytes \<Rightarrow> bytes \<Rightarrow> LiveKeys \<Rightarrow> EncryptGroupText \<Rightarrow> (Sealed \<times> Sealed) result" where
  "encryptGroupText C nonce1 nonce2 keys req =
     bind (wrappedFromWire (eg_wrappedGroupKey req)) (\<lambda>wrapped.
     bind (unwrap C (wk_privateKey (lv_wrappingKey keys)) wrapped
             (memberWrapAAD (eg_groupId req) (lv_userId keys) (eg_generation req))) (\<lambda>groupKey.
     bind (seal_text C nonce1 groupKey (eg_groupId req) (eg_nameGeneration req) NAME (eg_name req)) (\<lambda>name.
     bind (seal_text C nonce2 groupKey (eg_groupId req) (eg_nameGeneration req) DESC (eg_description req))
       (\<lambda>description. Inr (name, description)))))"

end
