(* ===== verification/Group_Properties.thy ===== *)
theory Group_Properties
  imports Group_Material Membership_Properties Item_Properties
begin

text \<open>Theorems about what a member signs and wraps for a group.\<close>

section \<open>The walk down the generation chain\<close>

lemma atob_Inr [simp]: "atob s = Inr b \<longleftrightarrow> base64ToBytes s = Some b"
  by (simp add: atob_def)

lemma atob_b64 [simp]: "atob (bytesToBase64 b) = Inr b"
  by simp

text \<open>Link \<open>g\<close> holds the old key sealed under the new one, bound to the group and the generation.\<close>

definition key_link :: "ciphers \<Rightarrow> js_string \<Rightarrow> (int \<rightharpoonup> Sealed) \<Rightarrow> int \<Rightarrow> bytes \<Rightarrow> bytes \<Rightarrow> bool" where
  "key_link C groupId links g newKey oldKey \<longleftrightarrow>
     length newKey = 32 \<and> length oldKey = 32 \<and>
     (\<exists>s n. links g = Some s \<and> base64ToBytes (sl_nonce s) = Some n \<and> length n = 12
        \<and> base64ToBytes (sl_ciphertext s) = Some (aes_seal C newKey n oldKey (genKeyAAD groupId g)))"

lemma walk_down_Suc:
  assumes "aead_laws C"
  shows "walk_down C gid links (Suc k) g key = Inr r \<longleftrightarrow>
    (\<exists>key'. key_link C gid links (g - 1) key key' \<and> walk_down C gid links k (g - 1) key' = Inr r)"
  by (auto simp: key_link_def open_sealed_def bind_Inr_iff decrypt_iff [OF assms] AES_KEY_SIZE_def
      split: option.split if_splits)

lemma walk_down_iff:
  assumes "aead_laws C"
  shows "walk_down C gid links k g key = Inr r \<longleftrightarrow>
    (\<exists>K. K g = key \<and> K (g - int k) = r
       \<and> (\<forall>i. g - int k \<le> i \<and> i < g \<longrightarrow> key_link C gid links i (K (i + 1)) (K i)))"
proof (induction k arbitrary: g key)
  case 0
  then show ?case by auto
next
  case (Suc k)
  have e: "g - 1 - int k = g - int (Suc k)" by simp
  show ?case (is "?l \<longleftrightarrow> ?r")
  proof
    assume ?l
    then obtain key' K where k: "key_link C gid links (g - 1) key key'" "K (g - 1) = key'" "K (g - int (Suc k)) = r"
      "\<And>i. g - int (Suc k) \<le> i \<Longrightarrow> i < g - 1 \<Longrightarrow> key_link C gid links i (K (i + 1)) (K i)"
      unfolding walk_down_Suc [OF assms] Suc.IH e by blast
    have "key_link C gid links i ((K(g := key)) (i + 1)) ((K(g := key)) i)" if "g - int (Suc k) \<le> i" "i < g" for i
      using k(1,2) k(4) [of i] that by (cases "i = g - 1") auto
    then show ?r using k(3) by (intro exI [of _ "K(g := key)"]) auto
  next
    assume ?r
    then obtain K where k: "K g = key" "K (g - int (Suc k)) = r"
      "\<And>i. g - int (Suc k) \<le> i \<Longrightarrow> i < g \<Longrightarrow> key_link C gid links i (K (i + 1)) (K i)" by blast
    have "key_link C gid links (g - 1) key (K (g - 1))" using k(1) k(3) [of "g - 1"] by simp
    moreover have "walk_down C gid links k (g - 1) (K (g - 1)) = Inr r"
      unfolding Suc.IH e using k(2,3) by (intro exI [of _ K]) auto
    ultimately show ?l unfolding walk_down_Suc [OF assms] by blast
  qed
qed

text \<open>
  C38: a member reaches an older generation's key only down an unbroken chain.  walkChainDown
  returns a key exactly when the wanted generation is not newer than the caller's and there is
  a key for every generation between, starting at the caller's own, such that every link the
  server lists last for a generation is that generation's key sealed under the next one's and
  bound to this group and generation.
\<close>
theorem walkChainDown_exact:
  assumes "aead_laws C"
  shows "walkChainDown C startKey groupId from_gen to_gen chain = Inr key \<longleftrightarrow>
    to_gen \<le> from_gen
    \<and> (\<exists>K. K from_gen = startKey \<and> K to_gen = key
         \<and> (\<forall>g. to_gen \<le> g \<and> g < from_gen \<longrightarrow>
              key_link C groupId (chain_map chain) g (K (g + 1)) (K g)))"
proof (cases "from_gen < to_gen")
  case False
  then have "from_gen - int (nat (from_gen - to_gen)) = to_gen" by simp
  with False show ?thesis by (simp add: walkChainDown_def walk_down_iff [OF assms])
qed (simp add: walkChainDown_def)

section \<open>A sample of the ciphers\<close>

text \<open>
  Sealing appends the padded key and associated data's checksum; the shared secret of two key
  pairs is the bytewise sum of the public keys, which are the scalars themselves.
\<close>

definition sample_tag :: "bytes \<Rightarrow> bytes \<Rightarrow> bytes \<Rightarrow> bytes" where
  "sample_tag key nonce aad = replicate 16 (checksum (key @ nonce @ aad))"

definition sample_ciphers :: ciphers where
  "sample_ciphers =
     \<lparr>aes_seal = (\<lambda>key nonce plain aad. plain @ sample_tag key nonce aad),
      aes_open = (\<lambda>key nonce ct aad.
        if 16 \<le> length ct \<and> drop (length ct - 16) ct = sample_tag key nonce aad
        then Some (take (length ct - 16) ct) else None),
      x_public = (\<lambda>priv. if length priv = 32 then Some priv else None),
      x_shared = (\<lambda>a b. if length b = 32 then Some (map (\<lambda>(x, y). x + y) (zip a b)) else None),
      hkdf_sha256 = (\<lambda>ikm info n. replicate n (checksum (ikm @ info))),
      hmac_sha256 = (\<lambda>key m. replicate 32 (checksum (key @ m))),
      argon2id = (\<lambda>password salt params n. Some (bytesToHex (replicate n (checksum (utf8_encode password @ salt)))))\<rparr>"

lemma sample_aead: "aead_laws sample_ciphers"
proof -
  have [simp]: "length (sample_tag k n a) = 16" for k n a by (simp add: sample_tag_def)
  have "(if 16 \<le> length ct \<and> drop (length ct - 16) ct = t then Some (take (length ct - 16) ct) else None) = Some p
      \<longleftrightarrow> ct = p @ t" if "length t = 16" for ct p t :: bytes
  proof (cases "\<exists>q. ct = q @ t")
    case True
    then show ?thesis using that by auto
  next
    case False
    then have "drop (length ct - 16) ct \<noteq> t" using append_take_drop_id [of "length ct - 16" ct] by metis
    with False show ?thesis by auto
  qed
  then show ?thesis by (simp add: aead_laws_def sample_ciphers_def split del: if_split)
qed

lemma sample_x25519: "x25519_laws sample_ciphers"
proof -
  have "map (\<lambda>(x, y). x + y) (zip a b) = map (\<lambda>(x, y). x + y) (zip b a)" for a b :: bytes
    by (rule nth_equalityI) (auto simp: add.commute)
  then show ?thesis by (simp add: x25519_laws_def sample_ciphers_def split: if_splits)
qed

theorem walkChainDown_exact_witness:
  "walkChainDown sample_ciphers (seed_of 5) group1 3 3 [] = Inr (seed_of 5)
   \<and> walkChainDown sample_ciphers (seed_of 5) group1 3 2 [] \<noteq> Inr (seed_of 6)"
  using walkChainDown_exact [OF sample_aead, of "seed_of 5" group1 3 3 "[]" "seed_of 5"]
    walkChainDown_exact [OF sample_aead, of "seed_of 5" group1 3 2 "[]" "seed_of 6"]
  by (auto simp: key_link_def chain_map_def)

section \<open>Rotations\<close>

lemma wrappedFromWire_toWire [simp]: "wrappedFromWire (toWireWrapped w) = Inr w"
  by (simp add: wrappedFromWire_def toWireWrapped_def)

lemma open_sealed_encrypt:
  "aead_laws C \<Longrightarrow> encrypt C nonce key plain aad = Inr s \<Longrightarrow> open_sealed C key (sealed s) aad = Inr plain"
  by (cases s) (simp add: open_sealed_def sealed_def decrypt_encrypt)

lemma wrap_draw_ok:
  assumes "x25519_laws C" "wrap C d pub plain aad = Inr w"
  shows "draw_ok d"
  using assms x_public_length [OF assms(1)]
  by (auto simp: wrap_def wrapWithEphemeral_def wrapWithEphemeralAndNonce_def bind_Inr_iff encryptWithNonce_def
      require_simps draw_ok_def)

lemma unwrap_wrapped:
  assumes "aead_laws C" "x25519_laws C" "genuine_wrapping C k" "wrap C d (wk_publicKey k) plain aad = Inr w"
  shows "unwrap C (wk_privateKey k) w aad = Inr plain"
  using unwrap_wrap [OF assms(1-3) wrap_draw_ok [OF assms(2,4)] assms(4)] .

lemma chain_map_snoc: "chain_map (chain @ [l]) = (chain_map chain)(cl_generation l \<mapsto> cl_wrapped l)"
  by (simp add: chain_map_def)

text \<open>What minting a key guarantees, whoever mints it: the key and the step back to the old one.\<close>

definition mints :: "ciphers \<Rightarrow> LiveKeys \<Rightarrow> js_string \<Rightarrow> int \<Rightarrow> bytes \<Rightarrow> bytes \<Rightarrow> RotationStarted \<Rightarrow> bool" where
  "mints C keys groupId ownGeneration oldKey newKey r \<longleftrightarrow>
     rs_generation r = ownGeneration + 1
     \<and> (\<exists>w. wrappedFromWire (rs_removerWrappedKey r) = Inr w
          \<and> unwrapOwnGroupKey C keys groupId w (rs_generation r) = Inr newKey)
     \<and> (\<forall>chain. walkChainDown C newKey groupId (rs_generation r) ownGeneration
          (chain @ [\<lparr>cl_generation = ownGeneration, cl_wrapped = rs_link r\<rparr>]) = Inr oldKey)"

lemma mintsI:
  assumes laws: "aead_laws C" "x25519_laws C" and own: "genuine_wrapping C (lv_wrappingKey keys)"
    and old: "length oldKey = 32"
    and link: "encrypt C nonce newKey oldKey (genKeyAAD groupId g) = Inr link"
    and w: "wrap C d (wk_publicKey (lv_wrappingKey keys)) newKey (memberWrapAAD groupId (lv_userId keys) (g + 1)) = Inr w"
    and r: "rs_generation r = g + 1" "rs_link r = sealed link" "rs_removerWrappedKey r = toWireWrapped w"
  shows "mints C keys groupId g oldKey newKey r"
proof -
  have n: "length newKey = 32" using link by (auto simp: encrypt_def bind_Inr_iff encryptWithNonce_def require_simps)
  have "unwrapOwnGroupKey C keys groupId w (g + 1) = Inr newKey"
    using unwrap_wrapped [OF laws own w] n by (simp add: unwrapOwnGroupKey_def AES_KEY_SIZE_def)
  moreover have "walkChainDown C newKey groupId (g + 1) g (chain @ [\<lparr>cl_generation = g, cl_wrapped = sealed link\<rparr>]) = Inr oldKey" for chain
    using open_sealed_encrypt [OF laws(1) link] old
    by (simp add: walkChainDown_def chain_map_snoc AES_KEY_SIZE_def)
  ultimately show ?thesis using r by (simp add: mints_def)
qed

lemma unwrapOwnGroupKey_length: "unwrapOwnGroupKey C keys g w n = Inr k \<Longrightarrow> length k = 32"
  by (auto simp: unwrapOwnGroupKey_def bind_Inr_iff AES_KEY_SIZE_def split: if_splits)

text \<open>The link the server files for a started rotation.\<close>

definition removal_link :: "LiveKeys \<Rightarrow> js_string \<Rightarrow> int \<Rightarrow> js_string \<Rightarrow> RemovalLink" where
  "removal_link keys subject generation signature =
     \<lparr>rl_generation = generation - 1, rl_removerUserId = Some (lv_userId keys), rl_removedUserId = Some subject,
      rl_startSignature = Some signature, rl_rekeyedUserId = None, rl_rekeyReason = None\<rparr>"

text \<open>
  removing a member keeps every older key reachable and its own record verifiable.  When
  startGroupRotation succeeds, the caller's old entry held a 32-byte key; the new entry opens to
  the freshly minted key at the next generation; the new link leads from that key back to the
  old one, whatever older links stand beside it; and a reader who holds the caller's signing key
  accepts the signature as the removal of exactly this member at exactly this generation.
\<close>
theorem startGroupRotation_sound:
  assumes "ed25519_laws P" "aead_laws C" "x25519_laws C"
    and "genuine P (lv_signingKey keys)" "genuine_wrapping C (lv_wrappingKey keys)"
    and "startGroupRotation P C m keys groupId own g subject = Inr r"
    and "vi_groupId input = groupId" "vi_keysFor input (lv_userId keys) = Some served"
    and "sk_publicKey (lv_signingKey keys) \<in> set served"
  shows "\<exists>oldKey. unwrapOwnGroupKey C keys groupId own g = Inr oldKey
    \<and> mints C keys groupId g oldKey (mi_newKey m) r
    \<and> removal_signed P input (removal_link keys subject (rs_generation r) (rs_startSignature r)) subject"
proof -
  from assms(6) obtain oldKey link w payload where
    o: "unwrapOwnGroupKey C keys groupId own g = Inr oldKey"
    and l: "encrypt C (mi_nonce m) (mi_newKey m) oldKey (genKeyAAD groupId g) = Inr link"
    and w: "wrap C (mi_own m) (wk_publicKey (lv_wrappingKey keys)) (mi_newKey m)
      (memberWrapAAD groupId (lv_userId keys) (g + 1)) = Inr w"
    and p: "rotationStartPayload groupId (lv_userId keys) subject (g + 1) = Inr payload"
    and r: "r = \<lparr>rs_generation = g + 1, rs_link = sealed link, rs_removerWrappedKey = toWireWrapped w,
      rs_memberWrappedKey = None,
      rs_startSignature = bytesToBase64 (sign P (lv_signingKey keys) RotationStart payload)\<rparr>"
    by (auto simp: startGroupRotation_def bind_Inr_iff Let_def)
  have "mints C keys groupId g oldKey (mi_newKey m) r"
    using mintsI [OF assms(2,3,5) unwrapOwnGroupKey_length [OF o] l w] by (simp add: r)
  moreover have "removal_signed P input (removal_link keys subject (rs_generation r) (rs_startSignature r)) subject"
    using assms(7-9) p verify_genuine [OF assms(1,4), of RotationStart payload]
    by (auto simp: removal_signed_def removal_link_def r)
  ultimately show ?thesis using o by blast
qed

definition sample_live :: LiveKeys where
  "sample_live = \<lparr>lv_userId = alice, lv_signingKey = key_of 1,
     lv_wrappingKey = \<lparr>wk_privateKey = seed_of 11, wk_publicKey = seed_of 11\<rparr>\<rparr>"

lemma sample_live_fields [simp]:
  "lv_userId sample_live = alice" "lv_signingKey sample_live = key_of 1"
  "wk_publicKey (lv_wrappingKey sample_live) = seed_of 11" "wk_privateKey (lv_wrappingKey sample_live) = seed_of 11"
  by (simp_all add: sample_live_def)

definition sample_draw :: draw where
  "sample_draw = \<lparr>dr_ephemeral = seed_of 21, dr_nonce = replicate 12 4\<rparr>"

definition sample_mint :: mint where
  "sample_mint = \<lparr>mi_newKey = seed_of 31, mi_nonce = replicate 12 5, mi_own = sample_draw, mi_member = sample_draw\<rparr>"

lemma sample_genuine: "genuine sample (lv_signingKey sample_live)"
  "genuine_wrapping sample_ciphers (lv_wrappingKey sample_live)"
  by (simp_all add: genuine_def genuine_wrapping_def sample_live_def sample_def sample_ciphers_def key_of_def)

lemma sample_mint_fields [simp]:
  "mi_newKey sample_mint = seed_of 31" "mi_nonce sample_mint = replicate 12 5"
  "mi_own sample_mint = sample_draw" "mi_member sample_mint = sample_draw"
  by (simp_all add: sample_mint_def)

lemma sample_draw_ok: "draw_ok sample_draw"
  by (simp add: draw_ok_def sample_draw_def)

lemmas sample_wrap_eq = wrap_eq [OF sample_aead sample_x25519 _ sample_draw_ok]

text \<open>The group key 7, wrapped for alice at some generation.\<close>

definition sample_own :: "int \<Rightarrow> Wrapped" where
  "sample_own g = projr (wrap sample_ciphers sample_draw (seed_of 11) (seed_of 7) (memberWrapAAD group1 alice g))"

lemma sample_own_key: "unwrapOwnGroupKey sample_ciphers sample_live group1 (sample_own g) g = Inr (seed_of 7)"
proof -
  have "genuine_wrapping sample_ciphers \<lparr>wk_privateKey = seed_of 11, wk_publicKey = seed_of 11\<rparr>"
    using sample_genuine(2) by (simp add: sample_live_def)
  from sample_wrap_eq [OF this, of "seed_of 7" "memberWrapAAD group1 alice g"] show ?thesis
    by (auto simp: unwrapOwnGroupKey_def sample_live_def sample_own_def AES_KEY_SIZE_def)
qed

lemma sample_rotation:
  "\<exists>r. startGroupRotation sample sample_ciphers sample_mint sample_live group1 (sample_own 0) 0 bob = Inr r"
proof -
  obtain w where "wrap sample_ciphers sample_draw (seed_of 11) (seed_of 31) (memberWrapAAD group1 alice 1) = Inr w"
    using sample_wrap_eq [OF sample_genuine(2), of "seed_of 31" "memberWrapAAD group1 alice 1"]
    by (auto simp: sample_live_def)
  then show ?thesis
    by (simp add: startGroupRotation_def sample_own_key encrypt_def encryptWithNonce_eq
        rotationStartPayload_def isSafeInteger_def Let_def)
qed

theorem startGroupRotation_sound_witness:
  "\<exists>r. startGroupRotation sample sample_ciphers sample_mint sample_live group1 (sample_own 0) 0 bob = Inr r
     \<and> mints sample_ciphers sample_live group1 0 (seed_of 7) (seed_of 31) r"
proof -
  obtain r where r: "startGroupRotation sample sample_ciphers sample_mint sample_live group1 (sample_own 0) 0 bob = Inr r"
    using sample_rotation by blast
  have "vi_groupId sample_removals = group1" "vi_keysFor sample_removals (lv_userId sample_live) = Some [seed_of 1]"
    "sk_publicKey (lv_signingKey sample_live) \<in> set [seed_of 1]"
    by (simp_all add: sample_removals_def sample_live_def key_of_def)
  from startGroupRotation_sound [OF sample_laws sample_aead sample_x25519 sample_genuine r this] r show ?thesis
    by (auto simp: sample_own_key sample_mint_def)
qed

text \<open>The same for the two re-keys, whose record removes nobody.\<close>

definition rekey_link :: "LiveKeys \<Rightarrow> js_string \<Rightarrow> RekeyReason \<Rightarrow> int \<Rightarrow> js_string \<Rightarrow> RemovalLink" where
  "rekey_link keys member reason generation signature =
     \<lparr>rl_generation = generation - 1, rl_removerUserId = Some (lv_userId keys), rl_removedUserId = None,
      rl_startSignature = Some signature, rl_rekeyedUserId = Some member,
      rl_rekeyReason = Some (reason_string reason)\<rparr>"

lemma startSelfRekey_sound:
  assumes "ed25519_laws P" "aead_laws C" "x25519_laws C"
    and "genuine P (lv_signingKey keys)" "genuine_wrapping C (lv_wrappingKey keys)"
    and "startSelfRekey P C m keys groupId g handoff = Inr r"
    and "vi_groupId input = groupId" "vi_keysFor input (lv_userId keys) = Some served"
    and "sk_publicKey (lv_signingKey keys) \<in> set served"
  shows "\<exists>oldKey. unwrapHandoff C keys groupId g handoff = Inr oldKey
    \<and> mints C keys groupId g oldKey (mi_newKey m) r
    \<and> rekey_signed P input (rekey_link keys (lv_userId keys) RekeySelf (rs_generation r) (rs_startSignature r))"
proof -
  from assms(6) obtain oldKey link w payload where
    o: "unwrapHandoff C keys groupId g handoff = Inr oldKey"
    and l: "encrypt C (mi_nonce m) (mi_newKey m) oldKey (genKeyAAD groupId g) = Inr link"
    and w: "wrap C (mi_own m) (wk_publicKey (lv_wrappingKey keys)) (mi_newKey m)
      (memberWrapAAD groupId (lv_userId keys) (g + 1)) = Inr w"
    and p: "rotationRekeyPayload groupId (lv_userId keys) (lv_userId keys) (g + 1) RekeySelf = Inr payload"
    and r: "r = \<lparr>rs_generation = g + 1, rs_link = sealed link, rs_removerWrappedKey = toWireWrapped w,
      rs_memberWrappedKey = None,
      rs_startSignature = bytesToBase64 (sign P (lv_signingKey keys) RotationRekey payload)\<rparr>"
    by (auto simp: startSelfRekey_def bind_Inr_iff Let_def)
  have "length oldKey = 32" using o by (auto simp: unwrapHandoff_def bind_Inr_iff AES_KEY_SIZE_def split: if_splits)
  then have "mints C keys groupId g oldKey (mi_newKey m) r"
    using mintsI [OF assms(2,3,5) _ l w] by (simp add: r)
  moreover have "rekey_signed P input (rekey_link keys (lv_userId keys) RekeySelf (rs_generation r) (rs_startSignature r))"
    using assms(7-9) p verify_genuine [OF assms(1,4), of RotationRekey payload]
    by (auto simp: rekey_signed_def rekey_link_def r reason_string_inject intro!: exI [of _ RekeySelf])
  ultimately show ?thesis using o by blast
qed

text \<open>
  Approving a member's new keys hands over the new group key and nothing else goes wrong.
  When startApprovalRekey succeeds, the member is not the caller, the new key is minted as for
  a removal, the member's entry opens with the private half of exactly the key that was
  approved to the freshly minted key, and a reader who holds the caller's signing key accepts
  the signature as an approval re-key of exactly this member at this generation.
\<close>
theorem startApprovalRekey_sound:
  assumes "ed25519_laws P" "aead_laws C" "x25519_laws C"
    and "genuine P (lv_signingKey keys)" "genuine_wrapping C (lv_wrappingKey keys)"
    and "startApprovalRekey P C m keys groupId own g member (wk_publicKey memberKey) = Inr r"
    and "genuine_wrapping C memberKey"
    and "vi_groupId input = groupId" "vi_keysFor input (lv_userId keys) = Some served"
    and "sk_publicKey (lv_signingKey keys) \<in> set served"
  shows "member \<noteq> lv_userId keys
    \<and> (\<exists>oldKey. unwrapOwnGroupKey C keys groupId own g = Inr oldKey
         \<and> mints C keys groupId g oldKey (mi_newKey m) r)
    \<and> (\<exists>wire w. rs_memberWrappedKey r = Some wire \<and> wrappedFromWire wire = Inr w
         \<and> unwrap C (wk_privateKey memberKey) w (memberWrapAAD groupId member (rs_generation r)) = Inr (mi_newKey m))
    \<and> rekey_signed P input (rekey_link keys member RekeyApproval (rs_generation r) (rs_startSignature r))"
proof -
  from assms(6) obtain oldKey link w v payload where
    ne: "member \<noteq> lv_userId keys" and o: "unwrapOwnGroupKey C keys groupId own g = Inr oldKey"
    and l: "encrypt C (mi_nonce m) (mi_newKey m) oldKey (genKeyAAD groupId g) = Inr link"
    and w: "wrap C (mi_own m) (wk_publicKey (lv_wrappingKey keys)) (mi_newKey m)
      (memberWrapAAD groupId (lv_userId keys) (g + 1)) = Inr w"
    and v: "wrap C (mi_member m) (wk_publicKey memberKey) (mi_newKey m) (memberWrapAAD groupId member (g + 1)) = Inr v"
    and p: "rotationRekeyPayload groupId (lv_userId keys) member (g + 1) RekeyApproval = Inr payload"
    and r: "r = \<lparr>rs_generation = g + 1, rs_link = sealed link, rs_removerWrappedKey = toWireWrapped w,
      rs_memberWrappedKey = Some (toWireWrapped v),
      rs_startSignature = bytesToBase64 (sign P (lv_signingKey keys) RotationRekey payload)\<rparr>"
    by (auto simp: startApprovalRekey_def bind_Inr_iff Let_def split: if_splits)
  have "mints C keys groupId g oldKey (mi_newKey m) r"
    using mintsI [OF assms(2,3,5) unwrapOwnGroupKey_length [OF o] l w] by (simp add: r)
  moreover have "unwrap C (wk_privateKey memberKey) v (memberWrapAAD groupId member (g + 1)) = Inr (mi_newKey m)"
    by (rule unwrap_wrapped [OF assms(2,3,7) v])
  moreover have "rekey_signed P input (rekey_link keys member RekeyApproval (rs_generation r) (rs_startSignature r))"
    using assms(8-10) p ne verify_genuine [OF assms(1,4), of RotationRekey payload]
    by (auto simp: rekey_signed_def rekey_link_def r reason_string_inject intro!: exI [of _ RekeyApproval])
  ultimately show ?thesis using o ne by (auto simp: r)
qed

lemma sample_wrap_to:
  "\<exists>w. wrap sample_ciphers sample_draw (seed_of b) plain aad = Inr w"
proof -
  have "genuine_wrapping sample_ciphers \<lparr>wk_privateKey = seed_of b, wk_publicKey = seed_of b\<rparr>"
    by (simp add: genuine_wrapping_def sample_ciphers_def)
  from sample_wrap_eq [OF this, of plain aad] show ?thesis by auto
qed

theorem startApprovalRekey_sound_witness:
  "\<exists>r. startApprovalRekey sample sample_ciphers sample_mint sample_live group1 (sample_own 0) 0 bob (seed_of 12) = Inr r
     \<and> rekey_signed sample sample_removals (rekey_link sample_live bob RekeyApproval (rs_generation r) (rs_startSignature r))"
proof -
  let ?k = "\<lparr>wk_privateKey = seed_of 12, wk_publicKey = seed_of 12\<rparr>"
  obtain w where "wrap sample_ciphers sample_draw (seed_of 11) (seed_of 31) (memberWrapAAD group1 alice 1) = Inr w"
    using sample_wrap_to by blast
  moreover obtain v where "wrap sample_ciphers sample_draw (seed_of 12) (seed_of 31) (memberWrapAAD group1 bob 1) = Inr v"
    using sample_wrap_to by blast
  ultimately have "\<exists>r. startApprovalRekey sample sample_ciphers sample_mint sample_live group1 (sample_own 0) 0 bob (wk_publicKey ?k) = Inr r"
    by (simp add: startApprovalRekey_def sample_own_key encrypt_def encryptWithNonce_eq KEY_LEN_def
        rotationRekeyPayload_def isSafeInteger_def Let_def)
  then obtain r where
    r: "startApprovalRekey sample sample_ciphers sample_mint sample_live group1 (sample_own 0) 0 bob (wk_publicKey ?k) = Inr r"
    by blast
  have k: "genuine_wrapping sample_ciphers ?k" by (simp add: genuine_wrapping_def sample_ciphers_def)
  have "vi_groupId sample_removals = group1" "vi_keysFor sample_removals (lv_userId sample_live) = Some [seed_of 1]"
    "sk_publicKey (lv_signingKey sample_live) \<in> set [seed_of 1]"
    by (simp_all add: sample_removals_def sample_live_def key_of_def)
  from startApprovalRekey_sound [OF sample_laws sample_aead sample_x25519 sample_genuine r k this] r show ?thesis
    by auto
qed

text \<open>
  Re-wrapping reaches every recipient and never the caller.  When rewrapGroupKey succeeds,
  it returns one entry for every recipient, in order; none of them is the caller; and the
  private half of each recipient's key opens their entry, bound to their id and this generation,
  to the group key the caller's own entry holds.
\<close>
theorem rewrapGroupKey_sound:
  assumes "aead_laws C" "x25519_laws C"
    and "rewrapGroupKey C keys groupId own g recipients = Inr out"
  shows "\<exists>groupKey. unwrapOwnGroupKey C keys groupId own g = Inr groupKey
    \<and> map fst out = map (fst \<circ> fst) recipients \<and> lv_userId keys \<notin> fst ` set out
    \<and> (\<forall>i<length recipients. \<forall>k. genuine_wrapping C k \<and> wk_publicKey k = snd (fst (recipients ! i)) \<longrightarrow>
         (\<exists>w. wrappedFromWire (snd (out ! i)) = Inr w
            \<and> unwrap C (wk_privateKey k) w (memberWrapAAD groupId (fst (out ! i)) g) = Inr groupKey))"
proof -
  from assms(3) obtain groupKey where o: "unwrapOwnGroupKey C keys groupId own g = Inr groupKey"
    and run: "rewrap_all C keys groupId g groupKey recipients = Inr out"
    by (auto simp: rewrapGroupKey_def bind_Inr_iff)
  have "map fst out = map (fst \<circ> fst) recipients \<and> lv_userId keys \<notin> fst ` set out
    \<and> (\<forall>i<length recipients. \<forall>k. genuine_wrapping C k \<and> wk_publicKey k = snd (fst (recipients ! i)) \<longrightarrow>
         (\<exists>w. wrappedFromWire (snd (out ! i)) = Inr w
            \<and> unwrap C (wk_privateKey k) w (memberWrapAAD groupId (fst (out ! i)) g) = Inr groupKey))"
    using run
  proof (induction recipients arbitrary: out)
    case (Cons r rs)
    obtain u pub d where r: "r = ((u, pub), d)" by (cases r) auto
    from Cons.prems obtain w out' where ne: "u \<noteq> lv_userId keys"
      and w: "wrap C d pub groupKey (memberWrapAAD groupId u g) = Inr w"
      and rest: "rewrap_all C keys groupId g groupKey rs = Inr out'" "out = (u, toWireWrapped w) # out'"
      by (auto simp: r bind_Inr_iff split: if_splits)
    have "unwrap C (wk_privateKey k) w (memberWrapAAD groupId u g) = Inr groupKey"
      if "genuine_wrapping C k" "wk_publicKey k = pub" for k
      using unwrap_wrapped [OF assms(1,2) that(1)] w that(2) by simp
    note ih = Cons.IH [OF rest(1)] and this
    then have "\<forall>i<Suc (length rs). \<forall>k. genuine_wrapping C k \<and> wk_publicKey k = snd (fst ((r # rs) ! i)) \<longrightarrow>
         (\<exists>w. wrappedFromWire (snd (out ! i)) = Inr w
            \<and> unwrap C (wk_privateKey k) w (memberWrapAAD groupId (fst (out ! i)) g) = Inr groupKey)"
      by (auto simp: r rest(2) nth_Cons split: nat.split)
    moreover have "lv_userId keys \<notin> fst ` set out" using ih ne by (simp add: rest(2))
    ultimately show ?case using ih by (simp add: r rest(2))
  qed simp
  with o show ?thesis by blast
qed

theorem rewrapGroupKey_sound_witness:
  "\<exists>out. rewrapGroupKey sample_ciphers sample_live group1 (sample_own 0) 0 [((bob, seed_of 12), sample_draw)] = Inr out
     \<and> map fst out = [bob]"
proof -
  obtain w where "wrap sample_ciphers sample_draw (seed_of 12) (seed_of 7) (memberWrapAAD group1 bob 0) = Inr w"
    using sample_wrap_to by blast
  then have "\<exists>out. rewrapGroupKey sample_ciphers sample_live group1 (sample_own 0) 0 [((bob, seed_of 12), sample_draw)] = Inr out"
    by (simp add: rewrapGroupKey_def sample_own_key KEY_LEN_def)
  then obtain out where
    out: "rewrapGroupKey sample_ciphers sample_live group1 (sample_own 0) 0 [((bob, seed_of 12), sample_draw)] = Inr out"
    by blast
  from rewrapGroupKey_sound [OF sample_aead sample_x25519 out] out show ?thesis by auto
qed

section \<open>A new group, and the first grant\<close>

lemma parse_minted:
  assumes "length u = 36" "list_all is_id_char u" "day_shape (isoDay now)" "length random = 8"
  shows "parseSortKey P (generateGrantSortKey u now random) = Some \<lparr>pk_subject = u, pk_day = now div DAY_MS * DAY_MS\<rparr>"
  using assms match_key_mint [OF assms] parsed_key_isoDay [OF assms(3)]
  unfolding parseSortKey_def generateGrantSortKey_def by (simp only: option.case)

text \<open>The rows the server files for a created group and for a signed grant, and the verifier's input.\<close>

definition root_row_of :: "LiveKeys \<Rightarrow> GroupCreation \<Rightarrow> GrantRecord" where
  "root_row_of keys c = \<lparr>gr_sortKey = gc_rootGrantSortKey c, gr_subjectUserId = lv_userId keys,
     gr_grantedRole = js ''admin'', gr_grantorUserId = lv_userId keys, gr_grantorSigningPublicKey = None,
     gr_grantorGrantRef = None, gr_viaDesignation = None, gr_signature = gc_rootGrantSignature c\<rparr>"

definition granted_row_of :: "LiveKeys \<Rightarrow> js_string \<Rightarrow> js_string \<Rightarrow> js_string \<Rightarrow> js_string \<times> js_string \<Rightarrow> GrantRecord" where
  "granted_row_of keys subject role ref ks = \<lparr>gr_sortKey = fst ks, gr_subjectUserId = subject,
     gr_grantedRole = role, gr_grantorUserId = lv_userId keys, gr_grantorSigningPublicKey = None,
     gr_grantorGrantRef = Some ref, gr_viaDesignation = None, gr_signature = snd ks\<rparr>"

definition new_group_input ::
  "LiveKeys \<Rightarrow> js_string \<Rightarrow> GroupCreation \<Rightarrow> PinnedAnchor option \<Rightarrow> GrantRecord list \<Rightarrow> GrantChainInput" where
  "new_group_input keys groupId c pinned rows = \<lparr>gi_groupId = groupId,
     gi_anchor = \<lparr>an_creatorUserId = lv_userId keys,
       an_creatorSigningPublicKey = bytesToBase64 (sk_publicKey (lv_signingKey keys)),
       an_trustAnchorSignature = gc_trustAnchorSignature c, an_rootGrantSortKey = gc_rootGrantSortKey c\<rparr>,
     gi_pinnedAnchor = pinned, gi_grants = rows,
     gi_keyHistories = [lv_userId keys \<mapsto>
       \<lparr>kh_signingPublicKey = bytesToBase64 (sk_publicKey (lv_signingKey keys)), kh_superseded = []\<rparr>],
     gi_designations = [], gi_now = None\<rparr>"

definition own_pin :: "LiveKeys \<Rightarrow> PinnedAnchor" where
  "own_pin keys = \<lparr>pa_creatorUserId = lv_userId keys,
     pa_creatorSigningPublicKey = bytesToBase64 (sk_publicKey (lv_signingKey keys))\<rparr>"

lemma decode_b64: "b \<noteq> [] \<Longrightarrow> decode (bytesToBase64 b) = Some b"
  by (rule decode_bytesToBase64)

lemma duplicates_two: "k \<noteq> l \<Longrightarrow> duplicates [] [k, l] = []"
  by simp

lemma created_rows_backed:
  fixes keys :: LiveKeys
  defines "u \<equiv> lv_userId keys" and "pk \<equiv> sk_publicKey (lv_signingKey keys)"
  assumes laws: "ed25519_laws P" and own: "genuine P (lv_signingKey keys)"
    and ids: "length u = 36" "list_all is_id_char u" "length subject = 36" "list_all is_id_char subject"
    and clock: "day_shape (isoDay now)" "day_shape (isoDay now')" "now div DAY_MS < now' div DAY_MS"
    and rnd: "length random = 8" "length random' = 8"
    and c: "signGroupCreation P C now random d keys groupId groupKey = Inr c"
    and ks: "ks = signRoleGrant P now' random' keys groupId subject role (gc_rootGrantSortKey c)"
    and role: "role \<in> set ROLES" and other: "subject \<noteq> u"
    and pinned: "pinned = None \<or> pinned = Some (own_pin keys)"
    and input: "input = new_group_input keys groupId c pinned
      [granted_row_of keys subject role (gc_rootGrantSortKey c) ks, root_row_of keys c]"
  shows "backed P input (root_row_of keys c)"
    and "backed P input (granted_row_of keys subject role (gc_rootGrantSortKey c) ks)"
proof -
  let ?root = "root_row_of keys c" and ?row = "granted_row_of keys subject role (gc_rootGrantSortKey c) ks"
  let ?day = "now div DAY_MS * DAY_MS" and ?day' = "now' div DAY_MS * DAY_MS"
  have pk: "length pk = 32" "pk \<noteq> []" using genuine_sizes(1) [OF laws own] by (auto simp: pk_def)
  have sig: "sign P (lv_signingKey keys) ctx m \<noteq> []" for ctx m using genuine_sizes(2) [OF laws own, of ctx m] by auto
  note ver = verify_genuine [OF laws own, folded pk_def]
  have cf: "gc_rootGrantSortKey c = generateGrantSortKey u now random"
    "gc_trustAnchorSignature c = bytesToBase64 (sign P (lv_signingKey keys) TrustAnchor (trustAnchorPayload u pk groupId))"
    "gc_rootGrantSignature c = bytesToBase64 (sign P (lv_signingKey keys) RoleGrant
       (roleGrantPayload groupId u (js ''admin'') (gc_rootGrantSortKey c) []))"
    using c by (auto simp: signGroupCreation_def Let_def bind_Inr_iff u_def pk_def)
  have kf: "fst ks = generateGrantSortKey subject now' random'"
    "snd ks = bytesToBase64 (sign P (lv_signingKey keys) RoleGrant
       (roleGrantPayload groupId subject role (fst ks) (gc_rootGrantSortKey c)))"
    by (simp_all add: ks signRoleGrant_def Let_def)
  have parse: "parseSortKey P (gc_rootGrantSortKey c) = Some \<lparr>pk_subject = u, pk_day = ?day\<rparr>"
    "parseSortKey P (fst ks) = Some \<lparr>pk_subject = subject, pk_day = ?day'\<rparr>"
    unfolding cf kf using parse_minted ids clock rnd by blast+
  have ne: "fst ks \<noteq> gc_rootGrantSortKey c" using parse other by auto
  have root_ne: "gc_rootGrantSortKey c \<noteq> []" using cf(1) by (simp add: generateGrantSortKey_def)
  have dup: "\<not> duplicated input k" for k
    using ne by (simp add: duplicated_def input new_group_input_def granted_row_of_def root_row_of_def)
  have anchor: "anchorKey input = Some pk" using pk by (simp add: anchorKey_def input new_group_input_def pk_def decode_b64)
  have "pinMatched input" if "pinned = Some (own_pin keys)"
    using that anchor pk by (simp add: pinMatched_def input new_group_input_def own_pin_def u_def pk_def decode_b64)
  then have av: "anchorValid P input"
    using pinned anchor ver sig by (auto simp: anchorValid_def pinMismatch_def input new_group_input_def cf decode_b64 u_def)
  have hist: "gi_keyHistories input u = Some \<lparr>kh_signingPublicKey = bytesToBase64 pk, kh_superseded = []\<rparr>"
    by (simp add: input new_group_input_def u_def pk_def)
  have keys: "keysOnDay P \<lparr>kh_signingPublicKey = bytesToBase64 pk, kh_superseded = []\<rparr> day = [pk]" for day
    using pk by (simp add: keysOnDay_def add_key_def decode_b64)
  let ?sig = "sign P (lv_signingKey keys) RoleGrant (grant_payload input ?root)"
  let ?sig' = "sign P (lv_signingKey keys) RoleGrant (grant_payload input ?row)"
  have pay: "grant_payload input ?root = roleGrantPayload groupId u (js ''admin'') (gc_rootGrantSortKey c) []"
    "grant_payload input ?row = roleGrantPayload groupId subject role (fst ks) (gc_rootGrantSortKey c)"
    by (simp_all add: grant_payload_def input new_group_input_def root_row_of_def granted_row_of_def ref_of_def u_def)
  have ok: "row_ok P input ?root ?day ?sig" "row_ok P input ?row ?day' ?sig'"
    using dup parse role sig unfolding row_ok_def pay
    by (simp_all add: root_row_of_def granted_row_of_def cf(3) [folded u_def] kf(2) decode_b64 ROLES_def u_def)
  show root: "backed P input ?root"
    using backed_designated.root [OF ok(1) _ _ av anchor, of "\<lparr>kh_signingPublicKey = bytesToBase64 pk, kh_superseded = []\<rparr>"]
      ver hist keys
    by (simp add: via_def ref_of_def root_row_of_def input new_group_input_def u_def)
  have rows: "grantsBySubject input u = [?root]"
    using other by (simp add: grantsBySubject_def input new_group_input_def root_row_of_def granted_row_of_def u_def)
  have days: "row_day P ?root = Some ?day" using parse by (simp add: row_day_def root_row_of_def)
  have less: "?day < ?day'" using clock(3) by (simp add: DAY_MS_def)
  have fields: "gr_grantorUserId ?row = u" "gr_subjectUserId ?row = subject" "ref_of ?row = gr_sortKey ?root"
    "gr_grantedRole ?root = js ''admin''"
    by (simp_all add: granted_row_of_def root_row_of_def ref_of_def u_def)
  show "backed P input ?row"
  proof (rule backed_designated.granted [OF ok(2)])
    show "plain_row input ?row"
      using ne root_ne by (simp add: plain_row_def via_def ref_of_def granted_row_of_def input new_group_input_def)
    show "gr_grantorUserId ?row \<noteq> gr_subjectUserId ?row" using other fields by simp
    show "current_at P (grantsBySubject input (gr_grantorUserId ?row)) ?day' ?root"
      using days less by (auto simp: fields rows current_at_def intro!: exI [of _ ?day])
    show "\<forall>o'\<in>set (grantsBySubject input (gr_grantorUserId ?row)).
        row_day P o' = Some ?day' \<longrightarrow> isSelfDemotion o' \<and> backed P input o'"
      using days less by (auto simp: fields rows)
    show "signed_by P input (gr_grantorUserId ?row) ?day' RoleGrant (grant_payload input ?row) ?sig'"
      using hist keys ver by (simp add: fields signed_by_def signed_on_def)
  qed (use root fields in simp_all)
qed

text \<open>
  C39: a group that was just created stands, and so does its creator's first grant.  For keys
  and clocks as the client has them, the rows that signGroupCreation and a signRoleGrant of a
  later day produce are judged valid by verifyGrantChain (with the creator's own anchor pinned
  or none), and the creator's private key opens the wrapped group key to the one it created.
\<close>
theorem created_group_verifies:
  assumes "ed25519_laws P" "aead_laws C" "x25519_laws C"
    and "genuine P (lv_signingKey keys)" "genuine_wrapping C (lv_wrappingKey keys)"
    and "length (lv_userId keys) = 36" "list_all is_id_char (lv_userId keys)"
    and "length subject = 36" "list_all is_id_char subject" "subject \<noteq> lv_userId keys" "role \<in> set ROLES"
    and "day_shape (isoDay now)" "day_shape (isoDay now')" "now div DAY_MS < now' div DAY_MS"
    and "length random = 8" "length random' = 8"
    and "signGroupCreation P C now random d keys groupId groupKey = Inr c"
    and "ks = signRoleGrant P now' random' keys groupId subject role (gc_rootGrantSortKey c)"
    and "pinned = None \<or> pinned = Some (own_pin keys)" "4 \<le> fuel"
  shows "(\<exists>res. verifyGrantChain fuel P (new_group_input keys groupId c pinned
        [granted_row_of keys subject role (gc_rootGrantSortKey c) ks, root_row_of keys c]) = Some res
      \<and> (\<exists>v. cr_verdicts res (gc_rootGrantSortKey c) = Some v \<and> gv_valid v)
      \<and> (\<exists>v. cr_verdicts res (fst ks) = Some v \<and> gv_valid v))
    \<and> (\<exists>w. wrappedFromWire (gc_groupKeyWrapped c) = Inr w
      \<and> unwrap C (wk_privateKey (lv_wrappingKey keys)) w (memberWrapAAD groupId (lv_userId keys) 0) = Inr groupKey)"
proof -
  let ?rows = "[granted_row_of keys subject role (gc_rootGrantSortKey c) ks, root_row_of keys c]"
  let ?input = "new_group_input keys groupId c pinned ?rows"
  note b = created_rows_backed [OF assms(1,4,6-9,12-18,11,10,19) refl]
  have fields: "gi_grants ?input = ?rows" by (simp add: new_group_input_def)
  have "via g = None" if "g \<in> set ?rows" for g using that by (auto simp: via_def granted_row_of_def root_row_of_def)
  then have order: "claims_in_order P ?input"
    by (simp add: claims_in_order_def claim_in_order_def fields list_all_iff)
  have fuel: "2 * length (gi_grants ?input) \<le> fuel" using assms(20) by (simp add: fields)
  have "sound_caches P ?input no_caches" by (simp add: sound_caches_def no_caches_def)
  from verifyAll_returns [OF order fuel subset_refl this] obtain res where
    res: "verifyGrantChain fuel P ?input = Some res" by (auto simp: verifyGrantChain_def)
  have rows: "root_row_of keys c \<in> set (gi_grants ?input)"
    "granted_row_of keys subject role (gc_rootGrantSortKey c) ks \<in> set (gi_grants ?input)" by (simp_all add: fields)
  from assms(17) obtain w where
    w: "wrap C d (wk_publicKey (lv_wrappingKey keys)) groupKey (memberWrapAAD groupId (lv_userId keys) 0) = Inr w"
    and g: "gc_groupKeyWrapped c = toWireWrapped w"
    by (auto simp: signGroupCreation_def Let_def bind_Inr_iff)
  have "unwrap C (wk_privateKey (lv_wrappingKey keys)) w (memberWrapAAD groupId (lv_userId keys) 0) = Inr groupKey"
    by (rule unwrap_wrapped [OF assms(2,3,5) w])
  with verdict_iff_backed [OF res rows(1)] verdict_iff_backed [OF res rows(2)] b res show ?thesis
    by (auto simp: g root_row_of_def granted_row_of_def)
qed

lemma sample_clock:
  "day_shape (isoDay 1767600000000)" "day_shape (isoDay 1769904000000)"
  "(1767600000000::int) div DAY_MS < 1769904000000 div DAY_MS"
  "length alice = 36" "list_all is_id_char alice" "length bob = 36" "list_all is_id_char bob"
  by code_simp+

theorem created_group_verifies_witness:
  "\<exists>c ks res. signGroupCreation sample sample_ciphers 1767600000000 (replicate 8 255) sample_draw sample_live group1
       (seed_of 7) = Inr c
     \<and> verifyGrantChain 4 sample (new_group_input sample_live group1 c None
         [granted_row_of sample_live bob (js ''ambassador'') (gc_rootGrantSortKey c) ks, root_row_of sample_live c]) = Some res
     \<and> (\<exists>v. cr_verdicts res (fst ks) = Some v \<and> gv_valid v)"
proof -
  obtain w where "wrap sample_ciphers sample_draw (seed_of 11) (seed_of 7) (memberWrapAAD group1 alice 0) = Inr w"
    using sample_wrap_to by blast
  then have "\<exists>c. signGroupCreation sample sample_ciphers 1767600000000 (replicate 8 255) sample_draw sample_live group1
       (seed_of 7) = Inr c" by (simp add: signGroupCreation_def Let_def)
  then obtain c where c: "signGroupCreation sample sample_ciphers 1767600000000 (replicate 8 255) sample_draw sample_live
      group1 (seed_of 7) = Inr c" by blast
  have ids: "length (lv_userId sample_live) = 36" "list_all is_id_char (lv_userId sample_live)" "bob \<noteq> lv_userId sample_live"
    "js ''ambassador'' \<in> set ROLES" "length (replicate 8 255 :: bytes) = 8" "(None :: PinnedAnchor option) = None \<or> None = Some (own_pin sample_live)" "(4::nat) \<le> 4"
    using sample_clock by (simp_all add: ROLES_def)
  from created_group_verifies [OF sample_laws sample_aead sample_x25519 sample_genuine ids(1,2) sample_clock(6,7) ids(3,4)
      sample_clock(1-3) ids(5) ids(5) c refl ids(6,7)] c show ?thesis by blast
qed

section \<open>The invite handshake\<close>

text \<open>
  C40: the three steps of an invite fit together.  If the invitee accepts with the key from the
  inviter's link, the inviter's completion accepts the response (whatever the server relays, the
  keys and MAC being the invitee's own), hands over exactly the group key the inviter's entry
  holds, sealed to the invitee's key and address, and signs an admission of these keys that
  verifies under the inviter's key.
\<close>
theorem invite_handshake:
  assumes "ed25519_laws P" "aead_laws C" "x25519_laws C"
    and "genuine P (lv_signingKey inviter)" "genuine_wrapping C (lv_wrappingKey invitee)" "draw_ok d"
    and "signInviteCreation P C inviter inviteId groupId expiresAt = Inr created"
    and "base64UrlToBytes (ic_inviteMACKey created) = Some macKey"
    and "signInviteAcceptance P C invitee inviteId macKey = (acceptance, mac64)" "base64ToBytes mac64 = Some mac"
    and "unwrap C (wk_privateKey (lv_wrappingKey inviter)) own (memberWrapAAD groupId (lv_userId inviter) g) = Inr groupKey"
  shows "\<exists>r w sig. completeInvite P C d inviter inviteId groupId own g (lv_userId invitee)
      (sk_publicKey (lv_signingKey invitee)) (wk_publicKey (lv_wrappingKey invitee)) mac ref day = Inr r
    \<and> cp_generation r = g \<and> wrappedFromWire (cp_wrappedGroupKey r) = Inr w
    \<and> unwrap C (wk_privateKey (lv_wrappingKey invitee)) w (memberWrapAAD groupId (lv_userId invitee) g) = Inr groupKey
    \<and> base64ToBytes (am_signature (cp_admission r)) = Some sig
    \<and> verify P (sk_publicKey (lv_signingKey inviter)) Admission
        (admissionPayload groupId (lv_userId inviter) (lv_userId invitee) (sk_publicKey (lv_signingKey invitee))
           (wk_publicKey (lv_wrappingKey invitee)) inviteId ref day g) sig"
proof -
  let ?payload = "inviteAcceptancePayload inviteId (sk_publicKey (lv_signingKey invitee)) (wk_publicKey (lv_wrappingKey invitee))"
  from assms(7) obtain k where k: "deriveInviteMACKey C (sk_seed (lv_signingKey inviter)) inviteId = Inr k"
    and "ic_inviteMACKey created = bytesToBase64Url k"
    by (auto simp: signInviteCreation_def Let_def bind_Inr_iff)
  with assms(8) have "macKey = k" by (simp add: base64Url_decode_encode)
  with assms(9,10) have mac: "mac = computeInviteMAC C k ?payload"
    by (auto simp: signInviteAcceptance_def Let_def)
  from wrap_eq [OF assms(2,3,5,6), of groupKey "memberWrapAAD groupId (lv_userId invitee) g"] obtain w where
    w: "wrap C d (wk_publicKey (lv_wrappingKey invitee)) groupKey (memberWrapAAD groupId (lv_userId invitee) g) = Inr w"
      "unwrap C (wk_privateKey (lv_wrappingKey invitee)) w (memberWrapAAD groupId (lv_userId invitee) g) = Inr groupKey"
    by blast
  from verify_genuine [OF assms(1,4)] w k mac assms(11) show ?thesis
    by (simp add: completeInvite_def verifyInviteMAC_iff)
qed

definition sample_invitee :: LiveKeys where
  "sample_invitee = \<lparr>lv_userId = bob, lv_signingKey = key_of 2,
     lv_wrappingKey = \<lparr>wk_privateKey = seed_of 12, wk_publicKey = seed_of 12\<rparr>\<rparr>"

theorem invite_handshake_witness:
  "\<exists>created macKey mac r. signInviteCreation sample sample_ciphers sample_live (js ''i1'') group1 (js ''2026-12-01'') = Inr created
     \<and> base64UrlToBytes (ic_inviteMACKey created) = Some macKey
     \<and> completeInvite sample sample_ciphers sample_draw sample_live (js ''i1'') group1 (sample_own 0) 0 bob
         (seed_of 2) (seed_of 12) mac root_key (js ''2026-03-01'') = Inr r"
proof -
  have "\<exists>created. signInviteCreation sample sample_ciphers sample_live (js ''i1'') group1 (js ''2026-12-01'') = Inr created
     \<and> (\<exists>k. base64UrlToBytes (ic_inviteMACKey created) = Some k)"
    by (simp add: signInviteCreation_def ownFingerprint_def fingerprint_def PUBLIC_KEY_SIZE_def deriveInviteMACKey_def
        INVITE_SEED_SIZE_def key_of_def base64Url_decode_encode)
  then obtain created k where c: "signInviteCreation sample sample_ciphers sample_live (js ''i1'') group1 (js ''2026-12-01'') = Inr created"
    "base64UrlToBytes (ic_inviteMACKey created) = Some k" by blast
  obtain acc mac64 where a: "signInviteAcceptance sample sample_ciphers sample_invitee (js ''i1'') k = (acc, mac64)" by fastforce
  then obtain mac where m: "base64ToBytes mac64 = Some mac" by (auto simp: signInviteAcceptance_def Let_def)
  have i: "genuine_wrapping sample_ciphers (lv_wrappingKey sample_invitee)"
    by (simp add: genuine_wrapping_def sample_invitee_def sample_ciphers_def)
  have "unwrap sample_ciphers (wk_privateKey (lv_wrappingKey sample_live)) (sample_own 0)
      (memberWrapAAD group1 (lv_userId sample_live) 0) = Inr (seed_of 7)"
    using sample_own_key [of 0] by (auto simp: unwrapOwnGroupKey_def bind_Inr_iff split: if_splits)
  from invite_handshake [OF sample_laws sample_aead sample_x25519 sample_genuine(1) i sample_draw_ok c a m this,
      of root_key "js ''2026-03-01''"] c
  show ?thesis by (auto simp: sample_invitee_def key_of_def)
qed

section \<open>Names and descriptions\<close>

text \<open>
  a private group's name and description are read back as they were written.  What
  encryptGroupText seals under the caller's group key, decryptGroupNames shows to the same
  member: for the generation they were sealed at, and also when the member's entry has moved on
  to a newer generation and the server supplies the links that lead back.
\<close>
theorem group_text_round_trip:
  assumes "aead_laws C" "encryptGroupText C n1 n2 keys req = Inr (nameCt, descCt)"
    and "text_ok (eg_name req)" "text_ok (eg_description req)"
    and "wrappedFromWire (eg_wrappedGroupKey req) = Inr own"
    and "unwrap C (wk_privateKey (lv_wrappingKey keys)) own
           (memberWrapAAD (eg_groupId req) (lv_userId keys) (eg_generation req)) = Inr sealKey"
    and "wrappedFromWire wire = Inr later"
    and "unwrap C (wk_privateKey (lv_wrappingKey keys)) later
           (memberWrapAAD (eg_groupId req) (lv_userId keys) g) = Inr laterKey"
    and "walkChainDown C laterKey (eg_groupId req) g (eg_nameGeneration req) chain = Inr sealKey"
  shows "decryptGroupNames C keys
      [\<lparr>gn_groupId = eg_groupId req, gn_generation = g, gn_nameGeneration = eg_nameGeneration req,
        gn_wrappedGroupKey = wire, gn_nameCiphertext = nameCt, gn_descriptionCiphertext = descCt, gn_chain = chain\<rparr>]
    = [\<lparr>dg_groupId = eg_groupId req, dg_name = Some (eg_name req), dg_description = Some (eg_description req)\<rparr>]"
proof -
  have seal: "decryptGroupText C sealKey gid f n ct = Inr t"
    if "seal_text C nonce sealKey gid n f t = Inr ct" "text_ok t" for nonce gid n f t ct
    using that open_sealed_encrypt [OF assms(1)]
    by (auto simp: seal_text_def bind_Inr_iff decryptGroupText_def utf8_decode_lossy_encode)
  from assms(2,5,6) have "seal_text C n1 sealKey (eg_groupId req) (eg_nameGeneration req) NAME (eg_name req) = Inr nameCt"
    "seal_text C n2 sealKey (eg_groupId req) (eg_nameGeneration req) DESC (eg_description req) = Inr descCt"
    by (auto simp: encryptGroupText_def bind_Inr_iff)
  with seal assms(3,4,7-9) show ?thesis
    by (simp add: decryptGroupNames_def decryptOneGroupName_def group_name_of_def)
qed

definition sample_text :: EncryptGroupText where
  "sample_text = \<lparr>eg_groupId = group1, eg_generation = 0, eg_nameGeneration = 0,
     eg_wrappedGroupKey = toWireWrapped (sample_own 0), eg_name = js ''Club'', eg_description = []\<rparr>"

theorem group_text_round_trip_witness:
  "\<exists>n d. decryptGroupNames sample_ciphers sample_live
      [\<lparr>gn_groupId = group1, gn_generation = 0, gn_nameGeneration = 0,
        gn_wrappedGroupKey = toWireWrapped (sample_own 0), gn_nameCiphertext = n, gn_descriptionCiphertext = d, gn_chain = []\<rparr>]
    = [\<lparr>dg_groupId = group1, dg_name = Some (js ''Club''), dg_description = Some []\<rparr>]"
proof -
  have own: "unwrap sample_ciphers (wk_privateKey (lv_wrappingKey sample_live)) (sample_own 0)
      (memberWrapAAD (eg_groupId sample_text) (lv_userId sample_live) 0) = Inr (seed_of 7)"
    using sample_own_key [of 0] by (auto simp: unwrapOwnGroupKey_def bind_Inr_iff sample_text_def split: if_splits)
  have "\<exists>n d. encryptGroupText sample_ciphers (replicate 12 1) (replicate 12 2) sample_live sample_text = Inr (n, d)"
    using own by (simp add: encryptGroupText_def sample_text_def seal_text_def encrypt_def encryptWithNonce_eq)
  then obtain n d where e: "encryptGroupText sample_ciphers (replicate 12 1) (replicate 12 2) sample_live sample_text = Inr (n, d)"
    by blast
  have t: "text_ok (eg_name sample_text)" "text_ok (eg_description sample_text)"
    "wrappedFromWire (eg_wrappedGroupKey sample_text) = Inr (sample_own 0)" "eg_generation sample_text = 0"
    using text_field_ok_js [of "''Club''"]
    by (simp_all add: sample_text_def text_field_ok_def ascii_def text_ok_def [of "[]"])
  have w: "walkChainDown sample_ciphers (seed_of 7) (eg_groupId sample_text) 0 (eg_nameGeneration sample_text) [] = Inr (seed_of 7)"
    by (simp add: walkChainDown_def sample_text_def)
  have own': "unwrap sample_ciphers (wk_privateKey (lv_wrappingKey sample_live)) (sample_own 0)
      (memberWrapAAD (eg_groupId sample_text) (lv_userId sample_live) (eg_generation sample_text)) = Inr (seed_of 7)"
    by (simp only: t(4) own)
  from group_text_round_trip [OF sample_aead e t(1-3) own' wrappedFromWire_toWire own w]
  show ?thesis by (auto simp: sample_text_def)
qed

section \<open>Wrap records\<close>

text \<open>
  A wrap record the client signs is the evidence a reader finds.  When signWrapRecord
  succeeds, checkWrapRecord, given the entry's own generation and epoch and the wrapper's
  current key, answers self exactly for the wrapper's own entry and approved otherwise.
\<close>
theorem signWrapRecord_checks:
  assumes "ed25519_laws P" "genuine P (lv_signingKey keys)" "day_shape (isoDay now)"
    and "signWrapRecord P now keys groupId member g epoch reason = Inr (sig, day)"
  shows "checkWrapRecord P \<lparr>cw_groupId = groupId, cw_memberUserId = member, cw_generation = g, cw_wrapEpoch = Some epoch,
      cw_record = Some \<lparr>ww_wrapperUserId = lv_userId keys, ww_reason = reason_string reason, ww_day = day, ww_signature = sig\<rparr>,
      cw_wrapper = Some \<lparr>wr_signingPublicKey = bytesToBase64 (sk_publicKey (lv_signingKey keys)), wr_keyChanges = []\<rparr>\<rparr>
    = Some (if member = lv_userId keys then SelfWrap else ApprovedWrap (lv_userId keys))"
proof -
  from assms(4) obtain payload where p: "reason = RekeySelf \<longleftrightarrow> member = lv_userId keys" "day = isoDay now"
    "wrapRecordPayload groupId (lv_userId keys) member g epoch reason (isoDay now) = Inr payload"
    "sig = bytesToBase64 (sign P (lv_signingKey keys) WrapRecord payload)"
    by (auto simp: signWrapRecord_def bind_Inr_iff Let_def split: if_splits)
  note v = verify_genuine [OF assms(1,2), of WrapRecord payload]
  show ?thesis
  proof (cases reason)
    case RekeySelf
    with p v assms(3) show ?thesis
      by (simp add: checkWrapRecord_def wrap_signature_evidence_def signingKeysOn_eq)
  next
    case RekeyApproval
    with p v assms(3) show ?thesis
      by (auto simp: checkWrapRecord_def wrap_signature_evidence_def signingKeysOn_eq)
  qed
qed

theorem signWrapRecord_checks_witness:
  "\<exists>sig day. signWrapRecord sample 1767600000000 sample_live group1 bob 4 2 RekeyApproval = Inr (sig, day)
     \<and> day_shape (isoDay 1767600000000)"
proof -
  have "\<exists>sig day. signWrapRecord sample 1767600000000 sample_live group1 bob 4 2 RekeyApproval = Inr (sig, day)"
    by (simp add: signWrapRecord_def wrapRecordPayload_def isSafeInteger_def Let_def)
  then obtain sig day where s: "signWrapRecord sample 1767600000000 sample_live group1 bob 4 2 RekeyApproval = Inr (sig, day)"
    by blast
  from signWrapRecord_checks [OF sample_laws sample_genuine(1) sample_clock(1) s] s sample_clock(1) show ?thesis by blast
qed

end
