(* ===== verification/Item_Material.thy ===== *)
theory Item_Material
  imports Group_Material Item_Check Item_Codecs
begin

text \<open>
  credential-material.ts, the half about content: sealing and signing posts, comments and
  reactions, and opening a page of them.  A member's entry (the wrapped group key, the
  generation it is at and the links the server supplied) is \<open>MemberEntry\<close>.
\<close>

record MemberEntry =
  me_groupId :: js_string
  me_generation :: int
  me_wrappedGroupKey :: WireWrapped
  me_chain :: "ChainLink list"

text \<open>The unwrap of the caller's own entry every function starts with.\<close>

definition own_key :: "ciphers \<Rightarrow> LiveKeys \<Rightarrow> MemberEntry \<Rightarrow> bytes result" where
  "own_key C keys e =
     bind (wrappedFromWire (me_wrappedGroupKey e)) (\<lambda>w.
       unwrap C (wk_privateKey (lv_wrappingKey keys)) w
         (memberWrapAAD (me_groupId e) (lv_userId keys) (me_generation e)))"

definition key_at :: "ciphers \<Rightarrow> MemberEntry \<Rightarrow> bytes \<Rightarrow> int \<Rightarrow> bytes result" where
  "key_at C e ownKey generation =
     walkChainDown C ownKey (me_groupId e) (me_generation e) generation (me_chain e)"

section \<open>Posts\<close>

record SealedPost =
  sp_sealed :: Sealed
  sp_itemSignature :: js_string

definition sealPostContent ::
  "prims \<Rightarrow> ciphers \<Rightarrow> bytes \<Rightarrow> LiveKeys \<Rightarrow> MemberEntry \<Rightarrow> int \<Rightarrow> js_string \<Rightarrow> PostContent \<Rightarrow> js_string
   \<Rightarrow> SealedPost result" where
  "sealPostContent P C nonce keys e postGeneration sortKey content day =
     bind (own_key C keys e) (\<lambda>ownKey.
     bind (key_at C e ownKey postGeneration) (\<lambda>groupKey.
     bind (encodePost content) (\<lambda>plain.
     bind (encrypt C nonce groupKey plain (postAAD (me_groupId e) sortKey postGeneration)) (\<lambda>s.
       Inr \<lparr>sp_sealed = sealed s,
            sp_itemSignature = bytesToBase64 (sign P (lv_signingKey keys) Post
              (signedPayload P (lv_userId keys) (me_groupId e) sortKey postGeneration day (snd s)))\<rparr>))))"

record PublishedPost =
  pp_sortKey :: js_string
  pp_generation :: int
  pp_signedDay :: "js_string option"
  pp_sealed :: Sealed
  pp_signature :: js_string

definition postSortKey :: "js_string \<Rightarrow> bytes \<Rightarrow> js_string" where
  "postSortKey day random = js ''POST#'' @ day @ js ''#'' @ bytesToHex random"

definition sealPost ::
  "prims \<Rightarrow> ciphers \<Rightarrow> int \<Rightarrow> bytes \<Rightarrow> bytes \<Rightarrow> LiveKeys \<Rightarrow> MemberEntry \<Rightarrow> int \<Rightarrow> js_string \<Rightarrow> js_string
   \<Rightarrow> PublishedPost result" where
  "sealPost P C now random nonce keys e postGeneration title body =
     (let day = isoDay now; sortKey = postSortKey day random in
      bind (sealPostContent P C nonce keys e postGeneration sortKey
              \<lparr>po_title = title, po_body = body, po_at = toISOString now, po_editedAt = None\<rparr> day) (\<lambda>s.
        Inr \<lparr>pp_sortKey = sortKey, pp_generation = postGeneration, pp_signedDay = None,
             pp_sealed = sp_sealed s, pp_signature = sp_itemSignature s\<rparr>))"

definition sealPostEdit ::
  "prims \<Rightarrow> ciphers \<Rightarrow> int \<Rightarrow> bytes \<Rightarrow> LiveKeys \<Rightarrow> MemberEntry \<Rightarrow> int \<Rightarrow> js_string \<Rightarrow> js_string \<Rightarrow> js_string
   \<Rightarrow> js_string \<Rightarrow> PublishedPost result" where
  "sealPostEdit P C now nonce keys e postGeneration sortKey title body at =
     (case sortKeyDay sortKey of
        None \<Rightarrow> Inl ''post: not a post sort key''
      | Some filed \<Rightarrow>
          let today = isoDay now;
              day = (if filed < today then today else filed);
              nowIso = toISOString now;
              editedAt = (if at < nowIso then nowIso else at)
          in bind (sealPostContent P C nonce keys e postGeneration sortKey
                     \<lparr>po_title = title, po_body = body, po_at = at, po_editedAt = Some editedAt\<rparr> day) (\<lambda>s.
               Inr \<lparr>pp_sortKey = sortKey, pp_generation = postGeneration, pp_signedDay = Some day,
                    pp_sealed = sp_sealed s, pp_signature = sp_itemSignature s\<rparr>))"

section \<open>Opening\<close>

datatype 'a opened = Opened 'a | Unreadable

text \<open>
  \<open>generationKeys\<close>: the lookup of a generation's key, which remembers every answer, also that a
  generation cannot be reached.
\<close>

type_synonym key_cache = "int \<rightharpoonup> bytes option"

definition keyFor :: "ciphers \<Rightarrow> MemberEntry \<Rightarrow> bytes \<Rightarrow> int \<Rightarrow> key_cache \<Rightarrow> bytes option \<times> key_cache" where
  "keyFor C e ownKey generation byGeneration =
     (case byGeneration generation of
        Some found \<Rightarrow> (found, byGeneration)
      | None \<Rightarrow>
          let found = ok_of (key_at C e ownKey generation) in (found, byGeneration(generation \<mapsto> found)))"

text \<open>
  The loop the three readers share: an item whose key cannot be derived, that does not open or
  does not decode is unreadable, and the loop goes on.
\<close>

fun open_items ::
  "ciphers \<Rightarrow> MemberEntry \<Rightarrow> bytes \<Rightarrow> ('i \<Rightarrow> int) \<Rightarrow> (bytes \<Rightarrow> 'i \<Rightarrow> 'o result) \<Rightarrow> key_cache \<Rightarrow> 'i list
   \<Rightarrow> 'o opened list" where
  "open_items C e ownKey gen open_one byGeneration [] = []"
| "open_items C e ownKey gen open_one byGeneration (i # is) =
     (case keyFor C e ownKey (gen i) byGeneration of
        (None, cache) \<Rightarrow> Unreadable # open_items C e ownKey gen open_one cache is
      | (Some groupKey, cache) \<Rightarrow>
          (case open_one groupKey i of Inl _ \<Rightarrow> Unreadable | Inr content \<Rightarrow> Opened content)
          # open_items C e ownKey gen open_one cache is)"

record StoredPost =
  st_sortKey :: js_string
  st_generation :: int
  st_sealed :: Sealed

definition open_post :: "ciphers \<Rightarrow> js_string \<Rightarrow> bytes \<Rightarrow> StoredPost \<Rightarrow> PostContent result" where
  "open_post C groupId groupKey p =
     bind (open_sealed C groupKey (st_sealed p) (postAAD groupId (st_sortKey p) (st_generation p))) decodePost"

definition openPosts ::
  "ciphers \<Rightarrow> LiveKeys \<Rightarrow> MemberEntry \<Rightarrow> StoredPost list \<Rightarrow> PostContent opened list result" where
  "openPosts C keys e posts =
     bind (own_key C keys e) (\<lambda>ownKey.
       Inr (open_items C e ownKey st_generation (open_post C (me_groupId e)) Map.empty posts))"

section \<open>Comments\<close>

record PublishedComment =
  pc_path :: js_string
  pc_generation :: int
  pc_signedDay :: js_string
  pc_sealed :: Sealed
  pc_signature :: js_string

definition sealCommentContent ::
  "prims \<Rightarrow> ciphers \<Rightarrow> int \<Rightarrow> bytes \<Rightarrow> LiveKeys \<Rightarrow> MemberEntry \<Rightarrow> js_string \<Rightarrow> js_string \<Rightarrow> int \<Rightarrow> CommentContent
   \<Rightarrow> PublishedComment result" where
  "sealCommentContent P C now nonce keys e postId path commentGeneration content =
     bind (own_key C keys e) (\<lambda>ownKey.
     bind (key_at C e ownKey commentGeneration) (\<lambda>groupKey.
       let day = isoDay now in
       bind (encodeComment content) (\<lambda>plain.
       bind (encrypt C nonce groupKey plain (commentAAD postId path commentGeneration)) (\<lambda>s.
         Inr \<lparr>pc_path = path, pc_generation = commentGeneration, pc_signedDay = day, pc_sealed = sealed s,
              pc_signature = bytesToBase64 (sign P (lv_signingKey keys) Comment
                (signedPayload P (lv_userId keys) (me_groupId e) (js ''CMT#'' @ path) commentGeneration day (snd s)))\<rparr>))))"

definition sealComment ::
  "prims \<Rightarrow> ciphers \<Rightarrow> int \<Rightarrow> bytes \<Rightarrow> LiveKeys \<Rightarrow> MemberEntry \<Rightarrow> js_string \<Rightarrow> js_string \<Rightarrow> int \<Rightarrow> js_string
   \<Rightarrow> PublishedComment result" where
  "sealComment P C now nonce keys e postId path commentGeneration txt =
     sealCommentContent P C now nonce keys e postId path commentGeneration
       \<lparr>co_text = txt, co_at = toISOString now, co_editedAt = None\<rparr>"

definition sealCommentEdit ::
  "prims \<Rightarrow> ciphers \<Rightarrow> int \<Rightarrow> bytes \<Rightarrow> LiveKeys \<Rightarrow> MemberEntry \<Rightarrow> js_string \<Rightarrow> js_string \<Rightarrow> int \<Rightarrow> js_string \<Rightarrow> js_string
   \<Rightarrow> PublishedComment result" where
  "sealCommentEdit P C now nonce keys e postId path commentGeneration txt at =
     sealCommentContent P C now nonce keys e postId path commentGeneration
       \<lparr>co_text = txt, co_at = at, co_editedAt = Some (toISOString now)\<rparr>"

record StoredComment =
  sc_path :: js_string
  sc_generation :: int
  sc_sealed :: Sealed

definition open_comment :: "ciphers \<Rightarrow> js_string \<Rightarrow> bytes \<Rightarrow> StoredComment \<Rightarrow> CommentContent result" where
  "open_comment C postId groupKey c =
     bind (open_sealed C groupKey (sc_sealed c) (commentAAD postId (sc_path c) (sc_generation c))) decodeComment"

definition openComments ::
  "ciphers \<Rightarrow> LiveKeys \<Rightarrow> MemberEntry \<Rightarrow> js_string \<Rightarrow> StoredComment list \<Rightarrow> CommentContent opened list result" where
  "openComments C keys e postId comments =
     bind (own_key C keys e) (\<lambda>ownKey.
       Inr (open_items C e ownKey sc_generation (open_comment C postId) Map.empty comments))"

section \<open>Reactions\<close>

text \<open>The generation and the sealed index.\<close>

definition sealReaction ::
  "ciphers \<Rightarrow> bytes \<Rightarrow> LiveKeys \<Rightarrow> MemberEntry \<Rightarrow> js_string \<Rightarrow> js_string \<Rightarrow> int \<Rightarrow> nat \<Rightarrow> (int \<times> Sealed) result" where
  "sealReaction C nonce keys e postId target reactionGeneration index =
     bind (encodeReaction index) (\<lambda>plaintext.
     bind (own_key C keys e) (\<lambda>ownKey.
     bind (key_at C e ownKey reactionGeneration) (\<lambda>groupKey.
     bind (encrypt C nonce groupKey plaintext (reactionAAD postId target (lv_userId keys) reactionGeneration)) (\<lambda>s.
       Inr (reactionGeneration, sealed s)))))"

record StoredReaction =
  sr_target :: js_string
  sr_reactorUserId :: js_string
  sr_generation :: int
  sr_sealed :: Sealed

definition open_reaction :: "ciphers \<Rightarrow> js_string \<Rightarrow> bytes \<Rightarrow> StoredReaction \<Rightarrow> nat result" where
  "open_reaction C postId groupKey x =
     bind (open_sealed C groupKey (sr_sealed x)
             (reactionAAD postId (sr_target x) (sr_reactorUserId x) (sr_generation x))) decodeReaction"

definition openReactions ::
  "ciphers \<Rightarrow> LiveKeys \<Rightarrow> MemberEntry \<Rightarrow> js_string \<Rightarrow> StoredReaction list \<Rightarrow> nat opened list result" where
  "openReactions C keys e postId reactions =
     bind (own_key C keys e) (\<lambda>ownKey.
       Inr (open_items C e ownKey sr_generation (open_reaction C postId) Map.empty reactions))"

section \<open>The cache is invisible\<close>

text \<open>What the loop computes, without remembering anything.\<close>

definition read_one :: "ciphers \<Rightarrow> MemberEntry \<Rightarrow> bytes \<Rightarrow> ('i \<Rightarrow> int) \<Rightarrow> (bytes \<Rightarrow> 'i \<Rightarrow> 'o result) \<Rightarrow> 'i \<Rightarrow> 'o opened" where
  "read_one C e ownKey gen open_one i =
     (case bind (key_at C e ownKey (gen i)) (\<lambda>k. open_one k i) of Inl _ \<Rightarrow> Unreadable | Inr x \<Rightarrow> Opened x)"

definition cache_ok :: "ciphers \<Rightarrow> MemberEntry \<Rightarrow> bytes \<Rightarrow> key_cache \<Rightarrow> bool" where
  "cache_ok C e ownKey cache \<longleftrightarrow> (\<forall>g found. cache g = Some found \<longrightarrow> found = ok_of (key_at C e ownKey g))"

lemma keyFor_ok:
  "cache_ok C e ownKey cache \<Longrightarrow>
   fst (keyFor C e ownKey g cache) = ok_of (key_at C e ownKey g) \<and> cache_ok C e ownKey (snd (keyFor C e ownKey g cache))"
  by (auto simp: keyFor_def cache_ok_def Let_def split: option.split)

lemma open_items_eq:
  "cache_ok C e ownKey cache \<Longrightarrow>
   open_items C e ownKey gen open_one cache is = map (read_one C e ownKey gen open_one) is"
proof (induction "is" arbitrary: cache)
  case (Cons i "is")
  obtain found cache' where k: "keyFor C e ownKey (gen i) cache = (found, cache')" by fastforce
  with keyFor_ok [OF Cons.prems, of "gen i"] have f: "found = ok_of (key_at C e ownKey (gen i))"
    and c: "cache_ok C e ownKey cache'" by auto
  from Cons.IH [OF c] k f show ?case
    by (cases "key_at C e ownKey (gen i)") (auto simp: read_one_def ok_of_def split: sum.split)
qed simp

lemma openPosts_eq:
  "openPosts C keys e posts =
     bind (own_key C keys e) (\<lambda>k. Inr (map (read_one C e k st_generation (open_post C (me_groupId e))) posts))"
  "openComments C keys e postId comments =
     bind (own_key C keys e) (\<lambda>k. Inr (map (read_one C e k sc_generation (open_comment C postId)) comments))"
  "openReactions C keys e postId reactions =
     bind (own_key C keys e) (\<lambda>k. Inr (map (read_one C e k sr_generation (open_reaction C postId)) reactions))"
  by (simp_all add: openPosts_def openComments_def openReactions_def open_items_eq cache_ok_def)

end
