(* ===== verification/Item_Material_Properties.thy ===== *)
theory Item_Material_Properties
  imports Item_Material Item_Properties Group_Properties
begin

text \<open>
  What credential-material.ts promises of content: what a member publishes another member reads
  back, verifiably theirs and with times that are not suspect, also after an edit made with a
  clock that runs behind; and the readers, which remember generation keys, compute what a reader
  without a memory would.
\<close>

section \<open>Readers\<close>

text \<open>
  C30: the readers' memory is invisible, and no item spoils another.  openPosts, openComments and
  openReactions, which derive each generation's key once and remember it (or that it cannot be
  derived), return exactly what opening every item by itself returns, in order; they fail only
  when the caller's own entry does not open.
\<close>
theorem open_items_refines:
  "openPosts C keys e posts =
     bind (own_key C keys e) (\<lambda>k. Inr (map (read_one C e k st_generation (open_post C (me_groupId e))) posts))
   \<and> openComments C keys e postId comments =
     bind (own_key C keys e) (\<lambda>k. Inr (map (read_one C e k sc_generation (open_comment C postId)) comments))
   \<and> openReactions C keys e postId reactions =
     bind (own_key C keys e) (\<lambda>k. Inr (map (read_one C e k sr_generation (open_reaction C postId)) reactions))"
  by (intro conjI openPosts_eq)

section \<open>Days and times as strings\<close>

lemma take_mono: "a \<le> b \<Longrightarrow> take n a \<le> take n (b :: 'a::linorder list)"
proof (induction n arbitrary: a b)
  case (Suc n)
  then show ?case by (cases a; cases b) auto
qed simp

lemma take_max: "take n (max a b) = max (take n a) (take n (b :: 'a::linorder list))"
  by (metis linear max.absorb1 max.absorb2 take_mono)

lemma later_of: "(if b < (a::'a::linorder) then a else b) = max a b"
  by (auto simp: max_def)

lemma postSortKey_day:
  "day_shape day \<Longrightarrow> length random = 8 \<Longrightarrow> sortKeyDay (postSortKey day random) = Some day"
  using day_shape_length [of day] bytesToHex_lower [of random]
  by (simp add: sortKeyDay_def postSortKey_def js_def nth_append)

section \<open>A sealed item opens\<close>

text \<open>The row a published post is stored as, and what a reader checks it against.\<close>

definition post_row :: "PublishedPost \<Rightarrow> StoredPost" where
  "post_row p = \<lparr>st_sortKey = pp_sortKey p, st_generation = pp_generation p, st_sealed = pp_sealed p\<rparr>"

definition post_item :: "LiveKeys \<Rightarrow> MemberEntry \<Rightarrow> PublishedPost \<Rightarrow> AuthorKeys \<Rightarrow> SignedItem" where
  "post_item keys e p author = \<lparr>si_groupId = me_groupId e, si_authorUserId = lv_userId keys,
     si_sortKey = pp_sortKey p, si_generation = pp_generation p, si_ciphertext = sl_ciphertext (pp_sealed p),
     si_signature = pp_signature p, si_author = Some author\<rparr>"

text \<open>The reader's entry leads to the same key of the generation as the author's.\<close>

definition same_key :: "ciphers \<Rightarrow> LiveKeys \<Rightarrow> MemberEntry \<Rightarrow> LiveKeys \<Rightarrow> MemberEntry \<Rightarrow> int \<Rightarrow> bool" where
  "same_key C author e reader e' g \<longleftrightarrow>
     me_groupId e' = me_groupId e \<and> (\<exists>k. own_key C reader e' = Inr k)
     \<and> bind (own_key C reader e') (\<lambda>k. key_at C e' k g) = bind (own_key C author e) (\<lambda>k. key_at C e k g)"

text \<open>The served keys of the author give them their current key on the day.\<close>

definition author_on :: "prims \<Rightarrow> LiveKeys \<Rightarrow> AuthorKeys \<Rightarrow> js_string \<Rightarrow> bool" where
  "author_on P keys author day \<longleftrightarrow>
     (\<exists>history. base64ToBytes (ak_signingPublicKey author) = Some (oh_current history)
        \<and> buildOwnKeyHistory P (lv_userId keys) (oh_current history) (ak_keyChanges author) [] = Some history
        \<and> sk_publicKey (lv_signingKey keys) \<in> set (signingKeysOn history (oh_current history) day))"

lemma sealPostContent_Inr:
  assumes "aead_laws C" "sealPostContent P C nonce keys e g sortKey c day = Inr s"
  obtains groupKey plain n ct where
    "bind (own_key C keys e) (\<lambda>k. key_at C e k g) = Inr groupKey" "encodePost c = Inr plain"
    "sp_sealed s = sealed (n, ct)"
    "open_sealed C groupKey (sp_sealed s) (postAAD (me_groupId e) sortKey g) = Inr plain"
    "sp_itemSignature s = bytesToBase64 (sign P (lv_signingKey keys) Post
       (signedPayload P (lv_userId keys) (me_groupId e) sortKey g day ct))"
  using assms open_sealed_encrypt [OF assms(1)] unfolding sealPostContent_def
  by (fastforce simp: bind_Inr_iff)

lemma sealed_post_opens:
  assumes "aead_laws C" "sealPostContent P C nonce keys e g sortKey c day = Inr s" "post_ok c"
    and "same_key C keys e reader e' g"
  shows "\<exists>k. own_key C reader e' = Inr k \<and>
    read_one C e' k st_generation (open_post C (me_groupId e'))
      \<lparr>st_sortKey = sortKey, st_generation = g, st_sealed = sp_sealed s\<rparr> = Opened c"
proof -
  from sealPostContent_Inr [OF assms(1,2)] obtain groupKey plain where
    k: "bind (own_key C keys e) (\<lambda>k. key_at C e k g) = Inr groupKey" and p: "encodePost c = Inr plain"
    and o: "open_sealed C groupKey (sp_sealed s) (postAAD (me_groupId e) sortKey g) = Inr plain" by metis
  from assms(4) obtain k' where k': "own_key C reader e' = Inr k'" unfolding same_key_def by blast
  with assms(4) k have "key_at C e' k' g = Inr groupKey" "me_groupId e' = me_groupId e"
    by (simp_all add: same_key_def)
  with k' o post_decodes [OF assms(3) p] show ?thesis by (simp add: read_one_def open_post_def)
qed

lemma sealed_post_signed:
  assumes "ed25519_laws P" "aead_laws C" "genuine P (lv_signingKey keys)"
    and "sealPostContent P C nonce keys e g sortKey c day = Inr s" "author_on P keys author day"
    and "pp_sortKey p = sortKey" "pp_generation p = g" "pp_sealed p = sp_sealed s" "pp_signature p = sp_itemSignature s"
  shows "\<exists>history. signed_item P (post_item keys e p author) day Post history (sk_publicKey (lv_signingKey keys))"
proof -
  from sealPostContent_Inr [OF assms(2,4)] obtain n ct where
    "sp_sealed s = sealed (n, ct)"
    "sp_itemSignature s = bytesToBase64 (sign P (lv_signingKey keys) Post
       (signedPayload P (lv_userId keys) (me_groupId e) sortKey g day ct))" by metis
  with assms(5-) verify_genuine [OF assms(1,3)] show ?thesis
    unfolding author_on_def signed_item_def post_item_def by (auto simp: sealed_def)
qed

section \<open>Publishing and editing a post\<close>

lemma openPosts_nth:
  assumes "own_key C reader e' = Inr k"
  shows "\<exists>out. openPosts C reader e' (before @ row # after) = Inr out
    \<and> out ! length before = read_one C e' k st_generation (open_post C (me_groupId e')) row"
  using assms by (simp add: openPosts_eq nth_append)

text \<open>
  C31: a published post is readable, attributable and on time.  A post sealed by sealPost opens,
  at its place in any page, to its title, its body and the author's clock for every member whose
  entry leads to the same generation key; its signature is valid for everyone who is served the
  author's keys; and its time is not suspect.
\<close>
theorem published_post_reads_back:
  assumes "ed25519_laws P" "aead_laws C" "genuine P (lv_signingKey keys)"
    and "plain_year now" "day_shape (isoDay now)" "length random = 8" "text_field_ok title" "text_field_ok body"
    and "sealPost P C now random nonce keys e g title body = Inr p"
    and "same_key C keys e reader e' g" "author_on P keys author (isoDay now)"
  shows "(\<exists>out. openPosts C reader e' (before @ post_row p # after) = Inr out
      \<and> out ! length before =
          Opened \<lparr>po_title = title, po_body = body, po_at = toISOString now, po_editedAt = None\<rparr>)
    \<and> checkPostSignature P (post_item keys e p author) None = ValidSignature
    \<and> \<not> postTimeSuspect (pp_sortKey p) None (toISOString now) None"
proof -
  let ?day = "isoDay now" and ?content = "\<lparr>po_title = title, po_body = body, po_at = toISOString now, po_editedAt = None\<rparr>"
  from assms(9) obtain s where s: "sealPostContent P C nonce keys e g (postSortKey ?day random) ?content ?day = Inr s"
    and p: "p = \<lparr>pp_sortKey = postSortKey ?day random, pp_generation = g, pp_signedDay = None,
      pp_sealed = sp_sealed s, pp_signature = sp_itemSignature s\<rparr>"
    by (auto simp: sealPost_def Let_def bind_Inr_iff)
  note day = postSortKey_day [OF assms(5,6)]
  have "post_ok ?content" using assms(4,7,8) by (simp add: post_ok_def toISOString_shape time_option_ok_def)
  from sealed_post_opens [OF assms(2) s this assms(10)] obtain k where k: "own_key C reader e' = Inr k"
    and o: "read_one C e' k st_generation (open_post C (me_groupId e')) (post_row p) = Opened ?content"
    by (auto simp: p post_row_def)
  from sealed_post_signed [OF assms(1-3) s assms(11), of p] p day
  have "checkPostSignature P (post_item keys e p author) None = ValidSignature"
    by (auto simp: checkPostSignature_def post_item_def checkSignedItem_valid)
  with openPosts_nth [OF k, of before "post_row p" after] o day p show ?thesis
    by (simp add: postTimeSuspect_def atOnSortKeyDay_def)
qed

definition sample_entry :: MemberEntry where
  "sample_entry = \<lparr>me_groupId = group1, me_generation = 0, me_wrappedGroupKey = toWireWrapped (sample_own 0), me_chain = []\<rparr>"

definition sample_author :: AuthorKeys where
  "sample_author = \<lparr>ak_signingPublicKey = bytesToBase64 (seed_of 1), ak_keyChanges = []\<rparr>"

lemma sample_own_entry: "own_key sample_ciphers sample_live sample_entry = Inr (seed_of 7)"
  "key_at sample_ciphers sample_entry k 0 = Inr k" "me_groupId sample_entry = group1"
  using sample_own_key [of 0]
  by (auto simp: own_key_def sample_entry_def unwrapOwnGroupKey_def key_at_def walkChainDown_def bind_Inr_iff split: if_splits)

lemma sample_same_key: "same_key sample_ciphers sample_live sample_entry sample_live sample_entry 0"
  by (simp add: same_key_def sample_own_entry)

lemma sample_author_on: "author_on sample sample_live sample_author day"
proof -
  have "seed_of 1 \<in> set (signingKeysOn \<lparr>oh_current = seed_of 1, oh_links = []\<rparr> (seed_of 1) day)"
    by (simp add: signingKeysOn_def)
  then show ?thesis unfolding author_on_def
    by (intro exI [of _ "\<lparr>oh_current = seed_of 1, oh_links = []\<rparr>"]) (simp add: sample_author_def key_of_def)
qed

lemma sample_clock_year: "plain_year 1767600000000" "day_shape (isoDay 1767600000000)"
  by code_simp+

lemma sample_sealed:
  assumes "post_ok c"
  shows "\<exists>s. sealPostContent sample sample_ciphers (replicate 12 1) sample_live sample_entry 0 sortKey c day = Inr s"
proof -
  from post_encodes [OF assms] obtain plain where "encodePost c = Inr plain" by blast
  then show ?thesis
    by (simp add: sealPostContent_def sample_own_entry encrypt_def encryptWithNonce_eq)
qed

lemma sample_texts: "text_field_ok (js ''Hi'')" "text_field_ok (js ''there'')"
  by (simp_all add: text_field_ok_js ascii_def)

theorem published_post_reads_back_witness:
  "\<exists>p out. sealPost sample sample_ciphers 1767600000000 (replicate 8 255) (replicate 12 1) sample_live sample_entry 0
       (js ''Hi'') (js ''there'') = Inr p
     \<and> openPosts sample_ciphers sample_live sample_entry [post_row p] = Inr out
     \<and> out ! 0 = Opened \<lparr>po_title = js ''Hi'', po_body = js ''there'', po_at = toISOString 1767600000000, po_editedAt = None\<rparr>
     \<and> checkPostSignature sample (post_item sample_live sample_entry p sample_author) None = ValidSignature"
proof -
  have "post_ok \<lparr>po_title = js ''Hi'', po_body = js ''there'', po_at = toISOString 1767600000000, po_editedAt = None\<rparr>"
    using sample_texts sample_clock_year by (simp add: post_ok_def toISOString_shape time_option_ok_def)
  from sample_sealed [OF this, of "postSortKey (isoDay 1767600000000) (replicate 8 255)" "isoDay 1767600000000"]
  have "\<exists>p. sealPost sample sample_ciphers 1767600000000 (replicate 8 255) (replicate 12 1) sample_live sample_entry 0
       (js ''Hi'') (js ''there'') = Inr p"
    by (auto simp: sealPost_def Let_def)
  then obtain p where p: "sealPost sample sample_ciphers 1767600000000 (replicate 8 255) (replicate 12 1) sample_live
      sample_entry 0 (js ''Hi'') (js ''there'') = Inr p" by blast
  have "length (replicate 8 (255 :: byte)) = 8" by simp
  from published_post_reads_back [OF sample_laws sample_aead sample_genuine(1) sample_clock_year this sample_texts p
      sample_same_key sample_author_on, of "[]" "[]"] p
  show ?thesis by auto
qed

text \<open>
  an edit stands even when the editing device's clock runs behind.  Whatever its clock says,
  what sealPostEdit makes of a post whose original time lies on its filing day opens to the new
  text, the original time and an edit time; the signature is valid if the author's current key
  is theirs on the signed day; and the times are not suspect.
\<close>
theorem edited_post_reads_back:
  assumes "ed25519_laws P" "aead_laws C" "genuine P (lv_signingKey keys)"
    and "plain_year now" "day_shape (isoDay now)" "text_field_ok title" "text_field_ok body"
    and "at_shape at" "atOnSortKeyDay sortKey at"
    and "sealPostEdit P C now nonce keys e g sortKey title body at = Inr p"
    and "same_key C keys e reader e' g" "author_on P keys author (the (pp_signedDay p))"
  shows "\<exists>editedAt out. openPosts C reader e' (before @ post_row p # after) = Inr out
    \<and> out ! length before =
        Opened \<lparr>po_title = title, po_body = body, po_at = at, po_editedAt = Some editedAt\<rparr>
    \<and> pp_sortKey p = sortKey \<and> pp_signedDay p \<noteq> None
    \<and> checkPostSignature P (post_item keys e p author) (pp_signedDay p) = ValidSignature
    \<and> \<not> postTimeSuspect sortKey (pp_signedDay p) at (Some editedAt)"
proof -
  from assms(9) have filed: "sortKeyDay sortKey = Some (take 10 at)"
    by (auto simp: atOnSortKeyDay_def split: option.splits)
  let ?edited = "max (toISOString now) at"
  have day: "max (isoDay now) (take 10 at) = take 10 ?edited" by (simp add: take_max)
  let ?content = "\<lparr>po_title = title, po_body = body, po_at = at, po_editedAt = Some ?edited\<rparr>"
  from assms(10) filed obtain s where
    s: "sealPostContent P C nonce keys e g sortKey ?content (take 10 ?edited) = Inr s"
    and p: "p = \<lparr>pp_sortKey = sortKey, pp_generation = g, pp_signedDay = Some (take 10 ?edited),
      pp_sealed = sp_sealed s, pp_signature = sp_itemSignature s\<rparr>"
    by (auto simp: sealPostEdit_def Let_def bind_Inr_iff later_of day)
  have shape: "day_shape (take 10 at)" using filed by (auto simp: sortKeyDay_def split: if_splits)
  have "at_shape ?edited" "day_shape (take 10 ?edited)"
    using assms(4,5,8) shape by (simp_all add: max_def toISOString_shape)
  moreover from this have "post_ok ?content" using assms(6-8) by (simp add: post_ok_def time_option_ok_def)
  from sealed_post_opens [OF assms(2) s this assms(11)] obtain k where k: "own_key C reader e' = Inr k"
    and o: "read_one C e' k st_generation (open_post C (me_groupId e')) (post_row p) = Opened ?content"
    by (auto simp: p post_row_def)
  have "take 10 at \<le> take 10 ?edited" by (simp add: take_mono)
  moreover from sealed_post_signed [OF assms(1-3) s, of author p] assms(12) p
  obtain history where "signed_item P (post_item keys e p author) (take 10 ?edited) Post history (sk_publicKey (lv_signingKey keys))"
    by auto
  ultimately have "checkPostSignature P (post_item keys e p author) (pp_signedDay p) = ValidSignature"
    using p filed by (auto simp: checkPostSignature_def post_item_def checkSignedItem_valid)
  moreover have "\<not> postTimeSuspect sortKey (pp_signedDay p) at (Some ?edited)"
    using p assms(9) by (simp add: postTimeSuspect_def)
  ultimately show ?thesis using openPosts_nth [OF k, of before "post_row p" after] o p by auto
qed

theorem edited_post_reads_back_witness:
  "\<exists>p editedAt out. sealPostEdit sample sample_ciphers 1767600000000 (replicate 12 1) sample_live sample_entry 0
       sample_sort_key (js ''Hi'') (js ''there'') (js ''2026-10-28T12:34:56.789Z'') = Inr p
     \<and> openPosts sample_ciphers sample_live sample_entry [post_row p] = Inr out
     \<and> out ! 0 = Opened \<lparr>po_title = js ''Hi'', po_body = js ''there'', po_at = js ''2026-10-28T12:34:56.789Z'',
                        po_editedAt = Some editedAt\<rparr>
     \<and> \<not> postTimeSuspect sample_sort_key (pp_signedDay p) (js ''2026-10-28T12:34:56.789Z'') (Some editedAt)"
proof -
  let ?at = "js ''2026-10-28T12:34:56.789Z''"
  have at: "at_shape ?at" by code_simp
  have on: "atOnSortKeyDay sample_sort_key ?at"
    unfolding atOnSortKeyDay_def sample_sort_key_day option.case by code_simp
  have "post_ok \<lparr>po_title = js ''Hi'', po_body = js ''there'', po_at = ?at,
      po_editedAt = Some (if ?at < toISOString 1767600000000 then toISOString 1767600000000 else ?at)\<rparr>"
    using sample_texts sample_clock_year at by (simp add: post_ok_def toISOString_shape time_option_ok_def)
  from sample_sealed [OF this] have "\<exists>p. sealPostEdit sample sample_ciphers 1767600000000 (replicate 12 1) sample_live
      sample_entry 0 sample_sort_key (js ''Hi'') (js ''there'') ?at = Inr p"
    unfolding sealPostEdit_def sample_sort_key_day option.case Let_def bind_Inr_iff by blast
  then obtain p where p: "sealPostEdit sample sample_ciphers 1767600000000 (replicate 12 1) sample_live
      sample_entry 0 sample_sort_key (js ''Hi'') (js ''there'') ?at = Inr p" by blast
  from edited_post_reads_back [OF sample_laws sample_aead sample_genuine(1) sample_clock_year sample_texts at on p
      sample_same_key sample_author_on, of "[]" "[]"] p
  show ?thesis by auto
qed

text \<open>
  A comment's edit does not get the same care: sealCommentEdit signs the device's own day and
  time, so an edit made before the comment's time (by a clock that runs behind the one that wrote
  it) is shown as suspect although its author made it.
\<close>

lemma slow_comment_edit_suspect:
  assumes "sealCommentEdit P C now nonce keys e postId path g txt at = Inr p" "toISOString now < at"
  shows "commentTimeSuspect (pc_signedDay p) at (Some (toISOString now))"
  using assms(2) by (simp add: commentTimeSuspect_def)

end
