(* ===== verification/Recovery.thy ===== *)
theory Recovery
  imports Wrapping Items
begin

text \<open>
  recovery-code.ts and uuid.ts: the code a user writes down, in which letters look alike, and the
  identifiers the client draws.  \<open>encodeBase32\<close> is kept at the width of JavaScript's bitwise
  operators, 32 bits.  Upper-casing is written out for ASCII; what Unicode says of the other code
  points is the argument \<open>U\<close>, given the one or two code units of a code point.
\<close>

section \<open>recovery-code.ts\<close>

definition ALPHABET :: js_string where "ALPHABET = js ''0123456789ABCDEFGHJKMNPQRSTVWXYZ''"
definition ENTROPY_BYTES :: nat where "ENTROPY_BYTES = 16"
definition GROUP_SIZES :: "nat list" where "GROUP_SIZES = [5, 5, 5, 5, 6]"
definition CODE_LENGTH :: nat where "CODE_LENGTH = sum_list GROUP_SIZES"

text \<open>The inner loop: what it appends, and the number of bits it leaves in the buffer.\<close>

fun emit :: "32 word \<Rightarrow> nat \<Rightarrow> js_string \<times> nat" where
  "emit bitBuffer bitCount =
     (if 5 \<le> bitCount
      then (let index = and (signed_drop_bit (bitCount - 5) bitBuffer) 0x1f;
                (out, rest) = emit bitBuffer (bitCount - 5)
            in (ALPHABET ! unat index # out, rest))
      else ([], bitCount))"

declare emit.simps [simp del]

fun base32_loop :: "32 word \<Rightarrow> nat \<Rightarrow> bytes \<Rightarrow> js_string" where
  "base32_loop bitBuffer bitCount [] =
     (if 0 < bitCount then [ALPHABET ! unat (and (push_bit (5 - bitCount) bitBuffer) 0x1f)] else [])"
| "base32_loop bitBuffer bitCount (b # bs) =
     (let bitBuffer' = or (push_bit 8 bitBuffer) (ucast b);
          (out, bitCount') = emit bitBuffer' (bitCount + 8)
      in out @ base32_loop bitBuffer' bitCount' bs)"

definition encodeBase32 :: "bytes \<Rightarrow> js_string" where
  "encodeBase32 bs = base32_loop 0 0 bs"

fun code_groups :: "nat list \<Rightarrow> nat \<Rightarrow> js_string \<Rightarrow> js_string list" where
  "code_groups [] offset raw = []"
| "code_groups (n # ns) offset raw = take n (drop offset raw) # code_groups ns (offset + n) raw"

definition formatRecoveryCode :: "js_string \<Rightarrow> js_string" where
  "formatRecoveryCode raw = js_join (js ''-'') (code_groups GROUP_SIZES 0 raw)"

definition generateRecoveryCode :: "bytes \<Rightarrow> js_string result" where
  "generateRecoveryCode random =
     (let raw = encodeBase32 random in
      if length raw \<noteq> CODE_LENGTH
      then Inl ''crypto: recovery code encoding produced a wrong number of characters''
      else Inr (formatRecoveryCode raw))"

text \<open>\<open>toUpperCase\<close>, and the characters of \<open>/[\s-]/\<close>.\<close>

definition ascii_upper :: "code_unit \<Rightarrow> code_unit" where
  "ascii_upper u = (if 97 \<le> u \<and> u \<le> 122 then u - 32 else u)"

fun toUpperCase :: "(js_string \<Rightarrow> js_string) \<Rightarrow> js_string \<Rightarrow> js_string" where
  "toUpperCase U [] = []"
| "toUpperCase U [u] = (if u < 128 then [ascii_upper u] else U [u])"
| "toUpperCase U (u # v # s) =
     (if u < 128 then ascii_upper u # toUpperCase U (v # s)
      else if is_high u \<and> is_low v then U [u, v] @ toUpperCase U s
      else U [u] @ toUpperCase U (v # s))"

definition is_space :: "code_unit \<Rightarrow> bool" where
  "is_space u \<longleftrightarrow> 9 \<le> u \<and> u \<le> 13 \<or> u = 32 \<or> u = 0xa0 \<or> u = 0x1680 \<or> 0x2000 \<le> u \<and> u \<le> 0x200a
     \<or> u = 0x2028 \<or> u = 0x2029 \<or> u = 0x202f \<or> u = 0x205f \<or> u = 0x3000 \<or> u = 0xfeff"

definition separator :: "code_unit \<Rightarrow> bool" where
  "separator u \<longleftrightarrow> is_space u \<or> u = 45"

text \<open>The two replacements of letters that look like digits.\<close>

definition misread :: "code_unit \<Rightarrow> code_unit" where
  "misread u = (let v = (if u = 73 \<or> u = 76 then 49 else u) in if v = 79 then 48 else v)"

definition normalizeRecoveryCode :: "(js_string \<Rightarrow> js_string) \<Rightarrow> js_string \<Rightarrow> js_string" where
  "normalizeRecoveryCode U input = map misread (filter (\<lambda>u. \<not> separator u) (toUpperCase U input))"

definition RECOVERY_VERIFIER_LEN :: nat where "RECOVERY_VERIFIER_LEN = 32"

definition deriveRecoveryWrapKey ::
  "(js_string \<Rightarrow> js_string) \<Rightarrow> ciphers \<Rightarrow> js_string \<Rightarrow> bytes \<Rightarrow> Argon2idParams \<Rightarrow> bytes result" where
  "deriveRecoveryWrapKey U C code salt params = deriveKey C (normalizeRecoveryCode U code) salt params 32"

definition deriveRecoveryVerifier ::
  "(js_string \<Rightarrow> js_string) \<Rightarrow> ciphers \<Rightarrow> js_string \<Rightarrow> bytes \<Rightarrow> Argon2idParams \<Rightarrow> bytes result" where
  "deriveRecoveryVerifier U C code salt params =
     deriveKey C (normalizeRecoveryCode U code) salt params RECOVERY_VERIFIER_LEN"

section \<open>uuid.ts\<close>

text \<open>\<open>UUID_PATTERN\<close>: \<open>h\<close> stands for a lower-case hex digit, \<open>v\<close> for one of 8, 9, a and b.\<close>

definition hex_unit :: "code_unit \<Rightarrow> bool" where
  "hex_unit u \<longleftrightarrow> is_digit u \<or> 97 \<le> u \<and> u \<le> 102"

definition isValidUUID :: "js_string \<Rightarrow> bool" where
  "isValidUUID s \<longleftrightarrow>
     list_all2 (\<lambda>c u. if c = CHR ''h'' then hex_unit u
                      else if c = CHR ''v'' then u \<in> {56, 57, 97, 98} else u = of_char c)
       ''hhhhhhhh-hhhh-4hhh-vhhh-hhhhhhhhhhhh'' s"

definition isValidUserID :: "js_string \<Rightarrow> bool" where
  "isValidUserID s = isValidUUID s"

text \<open>\<open>crypto.randomUUID()\<close>'s answer is the argument.\<close>

definition generateUUID :: "js_string \<Rightarrow> js_string result" where
  "generateUUID randomUUID =
     (if isValidUUID randomUUID then Inr randomUUID
      else Inl ''crypto: crypto.randomUUID() produced an unexpected shape'')"

definition generateUserID :: "js_string \<Rightarrow> js_string result" where
  "generateUserID randomUUID = generateUUID randomUUID"

end
