(* ===== verification/Recovery_Properties.thy ===== *)
theory Recovery_Properties
  imports Recovery Group_Properties
begin

text \<open>
  What a recovery code is: the 128 drawn bits in groups of five, behind an alphabet in which no
  two characters are confused, so that every reasonable way of writing it down is read back as
  the code that was drawn.
\<close>

section \<open>Base 32 against bit strings\<close>

definition low :: "nat \<Rightarrow> 'a::len word \<Rightarrow> bool list" where
  "low n w = map (bit w) (rev [0..<n])"

definition bits_value :: "bool list \<Rightarrow> nat" where
  "bits_value bs = horner_sum of_bool 2 (rev bs)"

text \<open>The reference: the bits, most significant first, in groups of five padded with zeros.\<close>

fun base32_of_bits :: "bool list \<Rightarrow> js_string" where
  "base32_of_bits bs =
     (if bs = [] then []
      else ALPHABET ! bits_value (take 5 (bs @ replicate 4 False)) # base32_of_bits (drop 5 bs))"

declare base32_of_bits.simps [simp del]

definition byte_bits :: "bytes \<Rightarrow> bool list" where
  "byte_bits bs = concat (map (low 8) bs)"

lemma length_low [simp]: "length (low n w) = n"
  by (simp add: low_def)

lemma upt_split: "rev [0..<c + n] = map ((+) c) (rev [0..<n]) @ rev [0..<c]"
proof -
  have "[0..<c + n] = [0..<c] @ [c..<c + n]" by (rule upt_add_eq_append) simp
  moreover have "[c..<c + n] = map ((+) c) [0..<n]" by (rule nth_equalityI) simp_all
  ultimately show ?thesis by (simp add: rev_map)
qed

lemma low_split: "low (c + n) w = map (\<lambda>i. bit w (c + i)) (rev [0..<n]) @ low c w"
  by (simp add: low_def upt_split comp_def)

lemma bits_value_unat:
  assumes "\<And>i. i < 5 \<Longrightarrow> bit x i = f i"
  shows "bits_value (map f (rev [0..<5])) = unat (and x (0x1f :: 32 word))"
proof -
  have "and x 0x1f = take_bit 5 x" by (simp add: take_bit_eq_mask mask_numeral)
  moreover have "map f [0..<5] = map (bit (unat x)) [0..<5]"
    by (rule map_cong [OF refl]) (use assms in \<open>simp add: bit_unsigned_iff bit_imp_le_length\<close>)
  moreover have "unat (take_bit 5 x) = take_bit 5 (unat x)"
    by (simp add: unsigned_take_bit_eq)
  ultimately show ?thesis
    by (simp only: bits_value_def rev_map rev_rev_ident horner_sum_bit_eq_take_bit)
qed

lemma emit_digit:
  assumes "c + 5 \<le> 32"
  shows "bits_value (map (\<lambda>i. bit w (c + i)) (rev [0..<5])) = unat (and (signed_drop_bit c w) (0x1f :: 32 word))"
  by (rule bits_value_unat) (use assms in \<open>auto simp: bit_signed_drop_bit_iff\<close>)

lemma emit_bits:
  assumes "n \<le> 32" "emit w n = (out, r)"
  shows "r < 5 \<and> base32_of_bits (low n w @ rest) = out @ base32_of_bits (low r w @ rest)"
  using assms
proof (induction w n arbitrary: out rule: emit.induct)
  case (1 w n)
  show ?case
  proof (cases "5 \<le> n")
    case True
    define c where "c = n - 5"
    have n: "n = c + 5" using True by (simp add: c_def)
    obtain out' where e: "emit w c = (out', r)" and
      o: "out = ALPHABET ! unat (and (signed_drop_bit c w) 0x1f) # out'"
      using 1(3) True by (subst (asm) emit.simps) (auto simp: c_def Let_def split: prod.splits)
    have "r < 5 \<and> base32_of_bits (low c w @ rest) = out' @ base32_of_bits (low r w @ rest)"
      using 1 True e by (simp add: c_def)
    moreover have "base32_of_bits (low n w @ rest) =
        ALPHABET ! unat (and (signed_drop_bit c w) 0x1f) # base32_of_bits (low c w @ rest)"
      using 1(2) emit_digit [of c w]
      by (subst base32_of_bits.simps) (simp add: n low_split)
    ultimately show ?thesis using o by simp
  next
    case False
    then show ?thesis using 1(3) by (subst (asm) emit.simps) simp
  qed
qed

lemma low_shift:
  "n \<le> 4 \<Longrightarrow> low (n + 8) (or (push_bit 8 w) (ucast (b :: byte)) :: 32 word) = low n w @ low 8 b"
  unfolding low_def add.commute [of n] upt_split
  by (auto simp: bit_or_iff bit_push_bit_iff bit_unsigned_iff dest: bit_imp_le_length)

lemma base32_loop_bits:
  "n \<le> 4 \<Longrightarrow> base32_loop w n bs = base32_of_bits (low n w @ byte_bits bs)"
proof (induction bs arbitrary: w n)
  case Nil
  show ?case
  proof (cases "n = 0")
    case False
    have "bits_value (take 5 (low n w @ replicate 4 False)) = unat (and (push_bit (5 - n) w) (0x1f :: 32 word))"
    proof -
      have "take 5 (low n w @ replicate 4 False) = map (\<lambda>i. 5 - n \<le> i \<and> bit w (i - (5 - n))) (rev [0..<5])"
        using Nil False by (intro nth_equalityI) (auto simp: low_def nth_append rev_nth)
      moreover have "bits_value (map (\<lambda>i. 5 - n \<le> i \<and> bit w (i - (5 - n))) (rev [0..<5]))
          = unat (and (push_bit (5 - n) w) (0x1f :: 32 word))"
        by (rule bits_value_unat) (auto simp: bit_push_bit_iff)
      ultimately show ?thesis by simp
    qed
    with Nil False show ?thesis
      by (subst base32_of_bits.simps) (simp add: byte_bits_def base32_of_bits.simps [of "[]"] flip: length_0_conv)
  qed (simp add: byte_bits_def base32_of_bits.simps low_def)
next
  case (Cons b bs)
  obtain out r where e: "emit (or (push_bit 8 w) (ucast b)) (n + 8) = (out, r)" by fastforce
  have "n + 8 \<le> 32" using Cons.prems by simp
  from emit_bits [OF this e, of "byte_bits bs"] Cons.IH [of r "or (push_bit 8 w) (ucast b)"] e low_shift [OF Cons.prems]
  show ?case by (simp add: byte_bits_def)
qed

lemma encodeBase32_bits: "encodeBase32 bs = base32_of_bits (byte_bits bs)"
  by (simp add: encodeBase32_def base32_loop_bits low_def)

section \<open>No bit of the code is lost\<close>

lemma length_base32: "length (base32_of_bits bs) = (length bs + 4) div 5"
proof (induction bs rule: base32_of_bits.induct)
  case (1 bs)
  show ?case
  proof (cases "bs = []")
    case True
    then show ?thesis by (simp add: base32_of_bits.simps)
  next
    case False
    have "length (base32_of_bits bs) = Suc ((length bs - 5 + 4) div 5)"
      using 1 [OF False] False by (subst base32_of_bits.simps) simp
    also have "\<dots> = (length bs + 4) div 5"
    proof (cases "5 \<le> length bs")
      case True
      then obtain k where "length bs = k + 5" by (metis add.commute le_Suc_ex)
      then show ?thesis by simp
    next
      case short: False
      moreover have "length bs \<noteq> 0" using False by simp
      ultimately have "length bs = 1 \<or> length bs = 2 \<or> length bs = 3 \<or> length bs = 4" by linarith
      then show ?thesis by auto
    qed
    finally show ?thesis .
  qed
qed

lemma length_byte_bits [simp]: "length (byte_bits bs) = 8 * length bs"
  by (induction bs) (simp_all add: byte_bits_def)

lemma bits_value_inject:
  assumes "bits_value bs = bits_value cs" "length bs = length cs"
  shows "bs = cs"
proof -
  have "rev bs ! i = rev cs ! i" if "i < length bs" for i
    using that assms bit_horner_sum_bit_iff [where 'a = nat, of "rev bs" i]
      bit_horner_sum_bit_iff [where 'a = nat, of "rev cs" i]
    by (simp add: bits_value_def)
  then have "rev bs = rev cs" using assms(2) by (intro nth_equalityI) simp_all
  then show ?thesis by simp
qed

lemma bits_value_less: "length bs = 5 \<Longrightarrow> bits_value bs < 32"
  using horner_sum_of_bool_2_less [where 'a = nat, of "rev bs"] by (simp add: bits_value_def)

lemma ALPHABET_facts: "length ALPHABET = 32" "distinct ALPHABET"
  by code_simp+

lemma base32_inject:
  "base32_of_bits bs = base32_of_bits cs \<Longrightarrow> length bs = length cs \<Longrightarrow> bs = cs"
proof (induction bs arbitrary: cs rule: base32_of_bits.induct)
  case (1 bs)
  show ?case
  proof (cases "bs = []")
    case False
    let ?b = "take 5 (bs @ replicate 4 False)" and ?c = "take 5 (cs @ replicate 4 False)"
    have len: "length ?b = 5" "length ?c = 5" using False 1(3) by (cases bs; simp)+
    have "cs \<noteq> []" using 1(3) False by auto
    with 1(2) False have "ALPHABET ! bits_value ?b = ALPHABET ! bits_value ?c"
      "base32_of_bits (drop 5 bs) = base32_of_bits (drop 5 cs)"
      by (simp_all add: base32_of_bits.simps [of bs] base32_of_bits.simps [of cs])
    then have "bits_value ?b = bits_value ?c" and d: "drop 5 bs = drop 5 cs"
      using 1(1) [OF False, of "drop 5 cs"] 1(3) bits_value_less [OF len(1)] bits_value_less [OF len(2)] ALPHABET_facts
      by (simp_all only: nth_eq_iff_index_eq length_drop)
    from bits_value_inject [OF this(1)] len have "?b = ?c" by metis
    then have "take 5 bs = take 5 cs" using 1(3) by simp
    with d show ?thesis by (metis append_take_drop_id)
  qed (use 1(3) in simp)
qed

lemma low8_inject: "low 8 (a :: byte) = low 8 b \<Longrightarrow> a = b"
proof -
  assume "low 8 a = low 8 b"
  then have "map (bit a) [0..<8] = map (bit b) [0..<8]" unfolding low_def rev_map by simp
  then have "bit a n = bit b n" if "n < 8" for n
    using that nth_map [of n "[0..<8]" "bit a"] nth_map [of n "[0..<8]" "bit b"] by simp
  then show ?thesis by (intro bit_word_eqI) simp
qed

lemma byte_bits_inject: "byte_bits bs = byte_bits cs \<Longrightarrow> length bs = length cs \<Longrightarrow> bs = cs"
proof (induction bs cs rule: list_induct2')
  case (4 b bs c cs)
  then show ?case using low8_inject [of b c] by (simp add: byte_bits_def)
qed simp_all

lemma encodeBase32_inject: "encodeBase32 bs = encodeBase32 cs \<Longrightarrow> length bs = length cs \<Longrightarrow> bs = cs"
  using base32_inject [of "byte_bits bs" "byte_bits cs"] byte_bits_inject [of bs cs]
  by (simp add: encodeBase32_bits)

lemma base32_alphabet: "set (base32_of_bits bs) \<subseteq> set ALPHABET"
proof (induction bs rule: base32_of_bits.induct)
  case (1 bs)
  show ?case
  proof (cases "bs = []")
    case False
    have "bits_value (take 5 (bs @ replicate 4 False)) < 32"
      by (rule bits_value_less) (use False in \<open>cases bs; simp\<close>)
    with 1 False show ?thesis
      by (subst base32_of_bits.simps) (simp add: ALPHABET_facts)
  qed (simp add: base32_of_bits.simps)
qed

section \<open>Writing a code down\<close>

text \<open>
  What may be written for a character of a code: itself, its lower-case letter, and the letters
  that look like a one or a zero.  Spaces and hyphens may stand anywhere.
\<close>

definition written_as :: "code_unit \<Rightarrow> code_unit \<Rightarrow> bool" where
  "written_as c u \<longleftrightarrow> u = c \<or> (97 \<le> u \<and> u \<le> 122 \<and> u - 32 = c)
     \<or> (c = 49 \<and> u \<in> set (js ''IiLl'')) \<or> (c = 48 \<and> u \<in> set (js ''Oo''))"

definition transcription :: "js_string \<Rightarrow> js_string \<Rightarrow> bool" where
  "transcription s code \<longleftrightarrow>
     list_all2 written_as (filter (\<lambda>u. \<not> separator u) code) (filter (\<lambda>u. \<not> separator u) s)"

text \<open>What Unicode says of white space: it has no upper case.\<close>

definition case_laws :: "(js_string \<Rightarrow> js_string) \<Rightarrow> bool" where
  "case_laws U \<longleftrightarrow> (\<forall>u. 128 \<le> u \<longrightarrow> is_space u \<longrightarrow> U [u] = [u])"

lemma ALPHABET_set: "set ALPHABET = of_char ` set ''0123456789ABCDEFGHJKMNPQRSTVWXYZ''"
  by (simp add: ALPHABET_def js_def)

lemma alphabet_written:
  assumes "c \<in> set ALPHABET" "written_as c u"
  shows "u < 128 \<and> misread (ascii_upper u) = c"
proof -
  have "list_all (\<lambda>c. c < 128 \<and> misread c = c \<and> ascii_upper c = c) ALPHABET" by code_simp
  with assms(1) have c: "c < 128" "misread c = c" "ascii_upper c = c" by (auto simp: list_all_iff)
  have letters: "list_all (\<lambda>u. u < 128 \<and> misread (ascii_upper u) = 49) (js ''IiLl'')"
    "list_all (\<lambda>u. u < 128 \<and> misread (ascii_upper u) = 48) (js ''Oo'')" by code_simp+
  from assms(2) consider "u = c" | "97 \<le> u" "u \<le> 122" "u - 32 = c" | "c = 49" "u \<in> set (js ''IiLl'')"
    | "c = 48" "u \<in> set (js ''Oo'')"
    by (auto simp: written_as_def)
  then show ?thesis
  proof cases
    case 2
    then have "ascii_upper u = c" "u < 128" by (auto simp: ascii_upper_def intro: le_less_trans)
    with c show ?thesis by simp
  qed (use c letters in \<open>auto simp: list_all_iff\<close>)
qed

lemma separator_unat:
  "separator u \<longleftrightarrow> (let n = unat u in 9 \<le> n \<and> n \<le> 13 \<or> n = 32 \<or> n = 0xa0 \<or> n = 0x1680 \<or> 0x2000 \<le> n \<and> n \<le> 0x200a
     \<or> n = 0x2028 \<or> n = 0x2029 \<or> n = 0x202f \<or> n = 0x205f \<or> n = 0x3000 \<or> n = 0xfeff \<or> n = 45)"
  by (simp add: separator_def is_space_def Let_def word_le_nat_alt word_unat_eq_iff)

lemma separator_upper: "separator (ascii_upper u) \<longleftrightarrow> separator u"
proof (cases "97 \<le> u \<and> u \<le> 122")
  case True
  then have n: "97 \<le> unat u" "unat u \<le> 122" by (simp_all add: word_le_nat_alt)
  then have "unat (ascii_upper u) = unat u - 32"
    using True by (simp add: ascii_upper_def unat_sub_if' word_le_nat_alt)
  with n show ?thesis unfolding separator_unat Let_def by linarith
qed (auto simp: ascii_upper_def)

lemma space_no_surrogate: "is_space u \<Longrightarrow> \<not> is_high u"
  by (auto simp: is_space_def is_high_def word_le_nat_alt word_unat_eq_iff)

lemma ascii_upper_other: "\<not> u < 128 \<Longrightarrow> ascii_upper u = u"
  using le_less_trans [of u 122 128] by (auto simp: ascii_upper_def)

lemma toUpperCase_plain:
  "case_laws U \<Longrightarrow> \<forall>u\<in>set s. u < 128 \<or> is_space u \<Longrightarrow> toUpperCase U s = map ascii_upper s"
proof (induction U s rule: toUpperCase.induct)
  case (2 U u)
  then show ?case by (auto simp: case_laws_def ascii_upper_other not_less)
next
  case (3 U u v s)
  then show ?case using space_no_surrogate by (auto simp: case_laws_def ascii_upper_other not_less)
qed simp

text \<open>A formatted code is its characters with four hyphens between them.\<close>

lemma formatRecoveryCode_shape:
  assumes "length raw = 26"
  shows "\<exists>a b c d e. raw = a @ b @ c @ d @ e \<and> map length [a, b, c, d, e] = GROUP_SIZES
    \<and> formatRecoveryCode raw = a @ 45 # b @ 45 # c @ 45 # d @ 45 # e"
proof -
  let ?a = "take 5 raw" and ?b = "take 5 (drop 5 raw)" and ?c = "take 5 (drop 10 raw)"
    and ?d = "take 5 (drop 15 raw)" and ?e = "drop 20 raw"
  have "drop 5 raw = ?b @ drop 10 raw" "drop 10 raw = ?c @ drop 15 raw" "drop 15 raw = ?d @ ?e"
    using append_take_drop_id [of 5 "drop 5 raw", symmetric] append_take_drop_id [of 5 "drop 10 raw", symmetric]
      append_take_drop_id [of 5 "drop 15 raw", symmetric] by simp_all
  then have raw: "raw = ?a @ ?b @ ?c @ ?d @ ?e" by (metis append_take_drop_id)
  have "formatRecoveryCode raw = ?a @ 45 # ?b @ 45 # ?c @ 45 # ?d @ 45 # ?e"
    using assms by (simp add: formatRecoveryCode_def GROUP_SIZES_def js_def)
  moreover have "map length [?a, ?b, ?c, ?d, ?e] = GROUP_SIZES" using assms by (simp add: GROUP_SIZES_def)
  ultimately show ?thesis using raw by blast
qed

lemma generated_code:
  assumes "length random = 16"
  shows "length (encodeBase32 random) = 26" "set (encodeBase32 random) \<subseteq> set ALPHABET"
    "generateRecoveryCode random = Inr (formatRecoveryCode (encodeBase32 random))"
  using assms base32_alphabet
  by (simp_all add: encodeBase32_bits length_base32 generateRecoveryCode_def CODE_LENGTH_def GROUP_SIZES_def)

lemma alphabet_plain: "c \<in> set ALPHABET \<Longrightarrow> \<not> separator c"
proof -
  have "list_all (\<lambda>c. \<not> separator c) ALPHABET" by code_simp
  then show "c \<in> set ALPHABET \<Longrightarrow> \<not> separator c" by (auto simp: list_all_iff)
qed

lemma strip_formatted:
  assumes "length raw = 26" "set raw \<subseteq> set ALPHABET"
  shows "filter (\<lambda>u. \<not> separator u) (formatRecoveryCode raw) = raw"
proof -
  from formatRecoveryCode_shape [OF assms(1)] obtain a b c d e where
    raw: "raw = a @ b @ c @ d @ e" and f: "formatRecoveryCode raw = a @ 45 # b @ 45 # c @ 45 # d @ 45 # e" by blast
  have "filter (\<lambda>u. \<not> separator u) x = x" if "set x \<subseteq> set ALPHABET" for x
    using that alphabet_plain by (auto simp: filter_id_conv)
  moreover have "separator 45" by (simp add: separator_def)
  ultimately show ?thesis using assms(2) unfolding f by (simp add: raw)
qed

lemma transcription_normalizes:
  assumes "case_laws U" "length raw = 26" "set raw \<subseteq> set ALPHABET" "transcription s (formatRecoveryCode raw)"
  shows "normalizeRecoveryCode U s = raw"
proof -
  let ?s = "filter (\<lambda>u. \<not> separator u) s"
  have w: "list_all2 written_as raw ?s"
    using assms(4) strip_formatted [OF assms(2,3)] by (simp add: transcription_def)
  have each: "?s ! i < 128 \<and> misread (ascii_upper (?s ! i)) = raw ! i" if "i < length raw" for i
  proof (rule alphabet_written)
    show "raw ! i \<in> set ALPHABET" using assms(3) nth_mem [OF that] by blast
    show "written_as (raw ! i) (?s ! i)" using w that by (simp add: list_all2_conv_all_nth)
  qed
  have len: "length ?s = length raw" using w by (simp add: list_all2_lengthD)
  have "u < 128" if "u \<in> set ?s" for u
    using that each len by (metis in_set_conv_nth)
  then have "u < 128 \<or> is_space u" if "u \<in> set s" for u
    using that by (cases "u = 45") (auto simp: separator_def)
  then have "\<forall>u\<in>set s. u < 128 \<or> is_space u" by blast
  note upper = toUpperCase_plain [OF assms(1) this]
  have "filter (\<lambda>u. \<not> separator u) (map ascii_upper s) = map ascii_upper ?s"
    by (simp add: filter_map comp_def separator_upper)
  moreover have "map misread (map ascii_upper ?s) = raw"
    by (rule nth_equalityI) (use each len in simp_all)
  ultimately show ?thesis by (simp add: normalizeRecoveryCode_def upper)
qed

text \<open>
  C32: a recovery code carries all of the 128 drawn bits and survives being written down.  Sixteen
  drawn bytes give a code of five groups (5-5-5-5-6), different bytes give different codes, and
  however the code is written, in either case, with spaces or hyphens anywhere and with I, L and
  O for 1 and 0, it is normalised to the same string that the keys were derived from.
\<close>
theorem recovery_code_reads_back:
  assumes "length random = 16" "case_laws U"
  shows "\<exists>code. generateRecoveryCode random = Inr code
    \<and> (\<exists>a b c d e. code = a @ 45 # b @ 45 # c @ 45 # d @ 45 # e \<and> map length [a, b, c, d, e] = GROUP_SIZES)
    \<and> (\<forall>s. transcription s code \<longrightarrow> normalizeRecoveryCode U s = encodeBase32 random)
    \<and> (\<forall>other. length other = 16 \<and> generateRecoveryCode other = Inr code \<longrightarrow> other = random)"
proof -
  note g = generated_code [OF assms(1)]
  have "other = random" if "length other = 16" "generateRecoveryCode other = Inr (formatRecoveryCode (encodeBase32 random))" for other
  proof -
    note o = generated_code [OF that(1)]
    from that(2) o(3) have "formatRecoveryCode (encodeBase32 other) = formatRecoveryCode (encodeBase32 random)" by simp
    with strip_formatted [OF o(1,2)] strip_formatted [OF g(1,2)] have "encodeBase32 other = encodeBase32 random" by metis
    with that(1) assms(1) show ?thesis by (simp add: encodeBase32_inject)
  qed
  with g formatRecoveryCode_shape [OF g(1)] transcription_normalizes [OF assms(2) g(1,2)] show ?thesis by blast
qed

theorem recovery_code_reads_back_witness:
  "\<exists>code. generateRecoveryCode (replicate 16 255) = Inr code
     \<and> (\<forall>s. transcription s code \<longrightarrow> normalizeRecoveryCode (\<lambda>s. s) s = encodeBase32 (replicate 16 255))"
proof -
  have "case_laws (\<lambda>s. s)" "length (replicate 16 (255 :: byte)) = 16" by (simp_all add: case_laws_def)
  from recovery_code_reads_back [OF this(2,1)] show ?thesis by blast
qed

end
