(* ===== verification/Account.thy ===== *)
theory Account
  imports Recovery Group_Material
begin

text \<open>
  credential-material.ts, the account half: the wraps of the private keys under a password and
  under a recovery code, and what signup, login, recovery and a password change make of them.
  \<open>U\<close> is the case mapping of \<open>Recovery\<close>; what the code draws is the argument \<open>d\<close>.  A call that
  reports its progress returns the steps it reported before it returned or threw.
\<close>

section \<open>Calls that report progress\<close>

record ProgressStep =
  pg_step :: nat
  pg_totalSteps :: nat
  pg_label :: string

type_synonym 'a reported = "ProgressStep list \<times> 'a result"

definition quiet :: "'a result \<Rightarrow> 'a reported" where
  "quiet r = ([], r)"

definition onProgress :: "nat \<Rightarrow> nat \<Rightarrow> string \<Rightarrow> unit reported" where
  "onProgress n steps l = ([\<lparr>pg_step = n, pg_totalSteps = steps, pg_label = l\<rparr>], Inr ())"

definition then_do :: "'a reported \<Rightarrow> ('a \<Rightarrow> 'b reported) \<Rightarrow> 'b reported" where
  "then_do m f = (case snd m of
     Inl e \<Rightarrow> (fst m, Inl e)
   | Inr x \<Rightarrow> (fst m @ fst (f x), snd (f x)))"

section \<open>Wrapping the keys\<close>

definition SIGNUP_ARGON2_PARAMS :: Argon2idParams where
  "SIGNUP_ARGON2_PARAMS = \<lparr>memoryKiB = memoryKiB DEFAULT_PARAMS, iterations = iterations DEFAULT_PARAMS,
     parallelism = parallelism DEFAULT_PARAMS\<rparr>"

text \<open>The wire form of the credentials: \<open>RecoveryMaterial\<close> of worker-protocol.ts.\<close>

record RecoveryMaterial =
  rm_salt :: js_string
  rm_argon2Params :: Argon2idParams
  rm_wrappedPrivateKeys :: Sealed
  rm_recoverySalt :: js_string
  rm_recoveryArgon2Params :: Argon2idParams
  rm_recoveryWrappedPrivateKeys :: Sealed
  rm_recoveryVerifierSalt :: js_string
  rm_recoveryVerifierParams :: Argon2idParams
  rm_recoveryVerifier :: js_string
  rm_recoveryCode :: js_string

text \<open>What \<open>wrapNewCredentials\<close> draws: three salts, two nonces and the code's entropy.\<close>

record credential_draw =
  cd_salt :: bytes
  cd_profileNonce :: bytes
  cd_entropy :: bytes
  cd_recoverySalt :: bytes
  cd_recoveryNonce :: bytes
  cd_verifierSalt :: bytes

definition wrapNewCredentials ::
  "(js_string \<Rightarrow> js_string) \<Rightarrow> ciphers \<Rightarrow> credential_draw \<Rightarrow> js_string \<Rightarrow> js_string \<Rightarrow> bytes \<Rightarrow> nat \<Rightarrow> nat
   \<Rightarrow> RecoveryMaterial reported" where
  "wrapNewCredentials U C d userId password keyBundle stepOffset totalSteps =
     then_do (quiet (deriveKey C password (cd_salt d) SIGNUP_ARGON2_PARAMS AES_KEY_SIZE)) (\<lambda>passwordKey.
     then_do (quiet (encryptWithNonce C passwordKey (cd_profileNonce d) keyBundle
                       (credentialWrapAAD userId PROFILE))) (\<lambda>profileCiphertext.
     then_do (onProgress (stepOffset + 1) totalSteps ''Password key ready'') (\<lambda>_.
     then_do (quiet (generateRecoveryCode (cd_entropy d))) (\<lambda>recoveryCode.
     then_do (quiet (deriveRecoveryWrapKey U C recoveryCode (cd_recoverySalt d) SIGNUP_ARGON2_PARAMS)) (\<lambda>recoveryKey.
     then_do (quiet (encryptWithNonce C recoveryKey (cd_recoveryNonce d) keyBundle
                       (credentialWrapAAD userId RECOVERY))) (\<lambda>recoveryCiphertext.
     then_do (onProgress (stepOffset + 2) totalSteps ''Recovery key ready'') (\<lambda>_.
     then_do (quiet (deriveRecoveryVerifier U C recoveryCode (cd_verifierSalt d) SIGNUP_ARGON2_PARAMS)) (\<lambda>verifier.
     then_do (onProgress (stepOffset + 3) totalSteps ''Recovery verifier ready'') (\<lambda>_.
       quiet (Inr
         \<lparr>rm_salt = bytesToBase64 (cd_salt d), rm_argon2Params = SIGNUP_ARGON2_PARAMS,
          rm_wrappedPrivateKeys = sealed (cd_profileNonce d, profileCiphertext),
          rm_recoverySalt = bytesToBase64 (cd_recoverySalt d), rm_recoveryArgon2Params = SIGNUP_ARGON2_PARAMS,
          rm_recoveryWrappedPrivateKeys = sealed (cd_recoveryNonce d, recoveryCiphertext),
          rm_recoveryVerifierSalt = bytesToBase64 (cd_verifierSalt d),
          rm_recoveryVerifierParams = SIGNUP_ARGON2_PARAMS, rm_recoveryVerifier = bytesToBase64 verifier,
          rm_recoveryCode = recoveryCode\<rparr>))))))))))"

record SignupMaterial =
  sm_signingPublicKey :: js_string
  sm_wrappingPublicKey :: js_string
  sm_wrapped :: RecoveryMaterial

definition generateSignupMaterial ::
  "(js_string \<Rightarrow> js_string) \<Rightarrow> prims \<Rightarrow> ciphers \<Rightarrow> bytes \<Rightarrow> bytes \<Rightarrow> credential_draw \<Rightarrow> js_string \<Rightarrow> js_string
   \<Rightarrow> SignupMaterial reported" where
  "generateSignupMaterial U P C seed priv d userId password =
     then_do (quiet (generateSigningKey P seed)) (\<lambda>signingKey.
     then_do (quiet (generateWrappingKey C priv)) (\<lambda>wrappingKey.
     then_do (quiet (encodeKeyBundle \<lparr>kb_signingSeed = sk_seed signingKey,
                       kb_wrappingPrivateKey = wk_privateKey wrappingKey\<rparr>)) (\<lambda>keyBundle.
     then_do (wrapNewCredentials U C d userId password keyBundle 0 3) (\<lambda>wrapped.
       quiet (Inr \<lparr>sm_signingPublicKey = bytesToBase64 (sk_publicKey signingKey),
                   sm_wrappingPublicKey = bytesToBase64 (wk_publicKey wrappingKey), sm_wrapped = wrapped\<rparr>)))))"

section \<open>Unwrapping them\<close>

definition unwrapAndValidate ::
  "ciphers \<Rightarrow> bytes \<Rightarrow> Sealed \<Rightarrow> js_string \<Rightarrow> CredentialCopy \<Rightarrow> (bytes \<times> KeyBundle) result" where
  "unwrapAndValidate C key wrappedPrivateKeys userId copy =
     bind (open_sealed C key wrappedPrivateKeys (credentialWrapAAD userId copy)) (\<lambda>keyBundle.
     bind (decodeKeyBundle keyBundle) (\<lambda>decoded.
       if length (kb_wrappingPrivateKey decoded) \<noteq> KEY_LEN
       then Inl ''crypto: decoded key bundle has an invalid wrapping key length''
       else Inr (keyBundle, decoded)))"

record CompleteLogin =
  cl_password :: js_string
  cl_salt :: js_string
  cl_argon2Params :: Argon2idParams
  cl_wrappedPrivateKeys :: Sealed
  cl_userId :: js_string
  cl_nonce :: js_string

definition completeLogin :: "prims \<Rightarrow> ciphers \<Rightarrow> CompleteLogin \<Rightarrow> (js_string \<times> LiveKeys) result" where
  "completeLogin P C req =
     bind (atob (cl_salt req)) (\<lambda>salt.
     bind (deriveKey C (cl_password req) salt (cl_argon2Params req) AES_KEY_SIZE) (\<lambda>key.
     bind (unwrapAndValidate C key (cl_wrappedPrivateKeys req) (cl_userId req) PROFILE) (\<lambda>(_, decoded).
     bind (signingKeyFromSeed P (kb_signingSeed decoded)) (\<lambda>signingKey.
     bind (atob (cl_nonce req)) (\<lambda>nonce.
       let signature = sign P signingKey LoginChallenge nonce in
       bind (wrappingKeyFromPrivate C (kb_wrappingPrivateKey decoded)) (\<lambda>wrappingKey.
         Inr (bytesToBase64 signature,
              \<lparr>lv_userId = cl_userId req, lv_signingKey = signingKey, lv_wrappingKey = wrappingKey\<rparr>)))))))"

record CompleteRecovery =
  cr_recoveryCode :: js_string
  cr_recoverySalt :: js_string
  cr_recoveryArgon2Params :: Argon2idParams
  cr_recoveryWrappedPrivateKeys :: Sealed
  cr_userId :: js_string
  cr_newPassword :: js_string

definition completeRecovery ::
  "(js_string \<Rightarrow> js_string) \<Rightarrow> ciphers \<Rightarrow> credential_draw \<Rightarrow> CompleteRecovery \<Rightarrow> RecoveryMaterial reported" where
  "completeRecovery U C d req =
     then_do (quiet (atob (cr_recoverySalt req))) (\<lambda>recoverySalt.
     then_do (quiet (deriveRecoveryWrapKey U C (cr_recoveryCode req) recoverySalt (cr_recoveryArgon2Params req)))
       (\<lambda>recoveryKey.
     then_do (quiet (unwrapAndValidate C recoveryKey (cr_recoveryWrappedPrivateKeys req) (cr_userId req) RECOVERY))
       (\<lambda>(keyBundle, _).
     then_do (onProgress 1 4 ''Recovery code confirmed'') (\<lambda>_.
       wrapNewCredentials U C d (cr_userId req) (cr_newPassword req) keyBundle 1 4))))"

record CompleteChangePassword =
  cc_oldPassword :: js_string
  cc_salt :: js_string
  cc_argon2Params :: Argon2idParams
  cc_wrappedPrivateKeys :: Sealed
  cc_userId :: js_string
  cc_newPassword :: js_string

definition completeChangePassword ::
  "(js_string \<Rightarrow> js_string) \<Rightarrow> ciphers \<Rightarrow> credential_draw \<Rightarrow> CompleteChangePassword \<Rightarrow> RecoveryMaterial reported" where
  "completeChangePassword U C d req =
     then_do (quiet (atob (cc_salt req))) (\<lambda>salt.
     then_do (quiet (deriveKey C (cc_oldPassword req) salt (cc_argon2Params req) AES_KEY_SIZE)) (\<lambda>oldKey.
     then_do (quiet (unwrapAndValidate C oldKey (cc_wrappedPrivateKeys req) (cc_userId req) PROFILE))
       (\<lambda>(keyBundle, _).
     then_do (onProgress 1 4 ''Current password confirmed'') (\<lambda>_.
       wrapNewCredentials U C d (cc_userId req) (cc_newPassword req) keyBundle 1 4))))"

end
