(* ===== verification/Account_Properties.thy ===== *)
theory Account_Properties
  imports Account Recovery_Properties
begin

text \<open>
  An account keeps its keys: whatever sequence of recoveries and password changes follows a
  signup, the password set last opens the key pair the account was created with, and the recovery
  code issued last opens it too.
\<close>

section \<open>Reported calls\<close>

lemma then_do_simps [simp]:
  "then_do (quiet (Inl e)) f = ([], Inl e)" "then_do (quiet (Inr x)) f = f x"
  "then_do (onProgress n t l) g = (\<lparr>pg_step = n, pg_totalSteps = t, pg_label = l\<rparr> # fst (g ()), snd (g ()))"
  "then_do (ps, Inr x) f = (ps @ fst (f x), snd (f x))" "then_do (ps, Inl e) f = (ps, Inl e)"
  "snd (quiet r) = r" "fst (quiet r) = []"
  by (simp_all add: then_do_def quiet_def onProgress_def split: sum.split)

text \<open>
  What hash-wasm documents: for a password that is not empty and a 16-byte salt, Argon2id at the
  client's parameters returns the 32 bytes asked for in hexadecimal.
\<close>

definition argon2_laws :: "ciphers \<Rightarrow> bool" where
  "argon2_laws C \<longleftrightarrow> (\<forall>password salt. password \<noteq> [] \<longrightarrow> length salt = 16 \<longrightarrow>
     (\<exists>k. length k = 32 \<and> argon2id C password salt DEFAULT_PARAMS 32 = Some (bytesToHex k)))"

definition credential_draw_ok :: "credential_draw \<Rightarrow> bool" where
  "credential_draw_ok d \<longleftrightarrow> length (cd_salt d) = 16 \<and> length (cd_profileNonce d) = 12 \<and> length (cd_entropy d) = 16
     \<and> length (cd_recoverySalt d) = 16 \<and> length (cd_recoveryNonce d) = 12 \<and> length (cd_verifierSalt d) = 16"

lemma SIGNUP_params [simp]: "SIGNUP_ARGON2_PARAMS = DEFAULT_PARAMS"
  by (simp add: SIGNUP_ARGON2_PARAMS_def)

lemma deriveKey_ok:
  assumes "argon2_laws C" "password \<noteq> []" "length salt = 16"
  shows "\<exists>k. length k = 32 \<and> deriveKey C password salt DEFAULT_PARAMS 32 = Inr k"
  using assms hex_decode_encode by (fastforce simp: argon2_laws_def deriveKey_def)

section \<open>What wrapped credentials hold\<close>

definition opens_profile :: "ciphers \<Rightarrow> js_string \<Rightarrow> js_string \<Rightarrow> RecoveryMaterial \<Rightarrow> bytes \<Rightarrow> bool" where
  "opens_profile C userId password m keyBundle \<longleftrightarrow> (\<exists>salt k. base64ToBytes (rm_salt m) = Some salt
     \<and> deriveKey C password salt (rm_argon2Params m) 32 = Inr k
     \<and> open_sealed C k (rm_wrappedPrivateKeys m) (credentialWrapAAD userId PROFILE) = Inr keyBundle)"

definition opens_recovery ::
  "(js_string \<Rightarrow> js_string) \<Rightarrow> ciphers \<Rightarrow> js_string \<Rightarrow> RecoveryMaterial \<Rightarrow> bytes \<Rightarrow> bool" where
  "opens_recovery U C userId m keyBundle \<longleftrightarrow> (\<exists>random salt k. length random = 16
     \<and> generateRecoveryCode random = Inr (rm_recoveryCode m) \<and> base64ToBytes (rm_recoverySalt m) = Some salt
     \<and> deriveKey C (encodeBase32 random) salt (rm_recoveryArgon2Params m) 32 = Inr k
     \<and> open_sealed C k (rm_recoveryWrappedPrivateKeys m) (credentialWrapAAD userId RECOVERY) = Inr keyBundle)"

lemma sealed_opens:
  "aead_laws C \<Longrightarrow> length k = 32 \<Longrightarrow> length n = 12 \<Longrightarrow> open_sealed C k (sealed (n, aes_seal C k n plain aad)) aad = Inr plain"
  by (rule open_sealed_encrypt [where nonce = n]) (simp_all add: encrypt_def encryptWithNonce_eq)

text \<open>The steps a caller is told of, and the credentials made.\<close>

definition wrap_steps :: "nat \<Rightarrow> nat \<Rightarrow> ProgressStep list" where
  "wrap_steps offset steps =
     [\<lparr>pg_step = offset + 1, pg_totalSteps = steps, pg_label = ''Password key ready''\<rparr>,
      \<lparr>pg_step = offset + 2, pg_totalSteps = steps, pg_label = ''Recovery key ready''\<rparr>,
      \<lparr>pg_step = offset + 3, pg_totalSteps = steps, pg_label = ''Recovery verifier ready''\<rparr>]"

lemma transcription_self:
  assumes "generateRecoveryCode random = Inr code" "length random = 16"
  shows "transcription code code"
  unfolding transcription_def by (rule list_all2_refl) (simp add: written_as_def)

lemma normalize_transcription:
  assumes "case_laws U" "length random = 16" "generateRecoveryCode random = Inr code" "transcription s code"
  shows "normalizeRecoveryCode U s = encodeBase32 random"
  using transcription_normalizes [OF assms(1) generated_code(1,2) [OF assms(2)]] generated_code(3) [OF assms(2)] assms(3,4)
  by simp

lemma wrapNewCredentials_opens:
  assumes "aead_laws C" "argon2_laws C" "case_laws U" "credential_draw_ok d" "password \<noteq> []"
  shows "\<exists>m. wrapNewCredentials U C d userId password keyBundle offset steps = (wrap_steps offset steps, Inr m)
    \<and> opens_profile C userId password m keyBundle \<and> opens_recovery U C userId m keyBundle"
proof -
  from assms(4) have d: "length (cd_salt d) = 16" "length (cd_profileNonce d) = 12" "length (cd_entropy d) = 16"
    "length (cd_recoverySalt d) = 16" "length (cd_recoveryNonce d) = 12" "length (cd_verifierSalt d) = 16"
    by (simp_all add: credential_draw_ok_def)
  let ?raw = "encodeBase32 (cd_entropy d)" and ?code = "formatRecoveryCode (encodeBase32 (cd_entropy d))"
  note g = generated_code [OF d(3)]
  have n: "normalizeRecoveryCode U ?code = ?raw"
    by (rule normalize_transcription [OF assms(3) d(3) g(3) transcription_self [OF g(3) d(3)]])
  have raw: "?raw \<noteq> []" using g(1) by auto
  from deriveKey_ok [OF assms(2,5) d(1)] obtain k where k: "length k = 32"
    "deriveKey C password (cd_salt d) DEFAULT_PARAMS 32 = Inr k" by blast
  from deriveKey_ok [OF assms(2) raw d(4)] obtain r where r: "length r = 32"
    "deriveKey C ?raw (cd_recoverySalt d) DEFAULT_PARAMS 32 = Inr r" by blast
  from deriveKey_ok [OF assms(2) raw d(6)] obtain v where v:
    "deriveKey C ?raw (cd_verifierSalt d) DEFAULT_PARAMS 32 = Inr v" by blast
  let ?m = "\<lparr>rm_salt = bytesToBase64 (cd_salt d), rm_argon2Params = DEFAULT_PARAMS,
      rm_wrappedPrivateKeys = sealed (cd_profileNonce d, aes_seal C k (cd_profileNonce d) keyBundle (credentialWrapAAD userId PROFILE)),
      rm_recoverySalt = bytesToBase64 (cd_recoverySalt d), rm_recoveryArgon2Params = DEFAULT_PARAMS,
      rm_recoveryWrappedPrivateKeys = sealed (cd_recoveryNonce d, aes_seal C r (cd_recoveryNonce d) keyBundle (credentialWrapAAD userId RECOVERY)),
      rm_recoveryVerifierSalt = bytesToBase64 (cd_verifierSalt d), rm_recoveryVerifierParams = DEFAULT_PARAMS,
      rm_recoveryVerifier = bytesToBase64 v, rm_recoveryCode = ?code\<rparr>"
  have "wrapNewCredentials U C d userId password keyBundle offset steps = (wrap_steps offset steps, Inr ?m)"
    using k r v d n g(3)
    by (simp add: wrapNewCredentials_def wrap_steps_def AES_KEY_SIZE_def encryptWithNonce_eq deriveRecoveryWrapKey_def
        deriveRecoveryVerifier_def RECOVERY_VERIFIER_LEN_def)
  moreover have "opens_profile C userId password ?m keyBundle"
    using k sealed_opens [OF assms(1) k(1) d(2)] by (simp add: opens_profile_def)
  moreover have "opens_recovery U C userId ?m keyBundle"
    unfolding opens_recovery_def
    by (rule exI [of _ "cd_entropy d"]) (use r d(3) g(3) sealed_opens [OF assms(1) r(1) d(5)] in simp)
  ultimately show ?thesis by blast
qed

section \<open>The requests that use them\<close>

definition login_with :: "js_string \<Rightarrow> js_string \<Rightarrow> RecoveryMaterial \<Rightarrow> bytes \<Rightarrow> CompleteLogin" where
  "login_with userId password m challenge = \<lparr>cl_password = password, cl_salt = rm_salt m,
     cl_argon2Params = rm_argon2Params m, cl_wrappedPrivateKeys = rm_wrappedPrivateKeys m,
     cl_userId = userId, cl_nonce = bytesToBase64 challenge\<rparr>"

definition recover_with :: "js_string \<Rightarrow> js_string \<Rightarrow> js_string \<Rightarrow> RecoveryMaterial \<Rightarrow> CompleteRecovery" where
  "recover_with userId code newPassword m = \<lparr>cr_recoveryCode = code, cr_recoverySalt = rm_recoverySalt m,
     cr_recoveryArgon2Params = rm_recoveryArgon2Params m,
     cr_recoveryWrappedPrivateKeys = rm_recoveryWrappedPrivateKeys m, cr_userId = userId, cr_newPassword = newPassword\<rparr>"

definition change_with :: "js_string \<Rightarrow> js_string \<Rightarrow> js_string \<Rightarrow> RecoveryMaterial \<Rightarrow> CompleteChangePassword" where
  "change_with userId password newPassword m = \<lparr>cc_oldPassword = password, cc_salt = rm_salt m,
     cc_argon2Params = rm_argon2Params m, cc_wrappedPrivateKeys = rm_wrappedPrivateKeys m,
     cc_userId = userId, cc_newPassword = newPassword\<rparr>"

text \<open>
  The life of an account after its signup: the credentials the server holds and the password that
  was set with them.  A recovery uses the code issued last, however it is written.
\<close>

inductive credentials_step ::
  "(js_string \<Rightarrow> js_string) \<Rightarrow> ciphers \<Rightarrow> js_string \<Rightarrow> RecoveryMaterial \<times> js_string \<Rightarrow> RecoveryMaterial \<times> js_string \<Rightarrow> bool"
  for U C userId where
  recovered: "transcription s (rm_recoveryCode m) \<Longrightarrow> credential_draw_ok d \<Longrightarrow> newPassword \<noteq> [] \<Longrightarrow>
    completeRecovery U C d (recover_with userId s newPassword m) = (ps, Inr m') \<Longrightarrow>
    credentials_step U C userId (m, password) (m', newPassword)"
| changed: "credential_draw_ok d \<Longrightarrow> newPassword \<noteq> [] \<Longrightarrow>
    completeChangePassword U C d (change_with userId password newPassword m) = (ps, Inr m') \<Longrightarrow>
    credentials_step U C userId (m, password) (m', newPassword)"

text \<open>The invariant: both copies hold the bundle.\<close>

definition credentials_hold ::
  "(js_string \<Rightarrow> js_string) \<Rightarrow> ciphers \<Rightarrow> js_string \<Rightarrow> bytes \<Rightarrow> RecoveryMaterial \<times> js_string \<Rightarrow> bool" where
  "credentials_hold U C userId keyBundle mp \<longleftrightarrow>
     opens_profile C userId (snd mp) (fst mp) keyBundle \<and> opens_recovery U C userId (fst mp) keyBundle"

lemma atob_ok: "base64ToBytes s = Some b \<Longrightarrow> atob s = Inr b"
  by simp

lemma decoded_size: "decodeKeyBundle keyBundle = Inr b \<Longrightarrow> length (kb_wrappingPrivateKey b) = KEY_LEN"
  using encode_decodeKeyBundle [of keyBundle b] by (simp add: bundle_ok_def KEY_LEN_def)

lemma recovery_succeeds:
  assumes "case_laws U" "credentials_hold U C userId keyBundle (m, password)" "decodeKeyBundle keyBundle = Inr b"
    and "transcription s (rm_recoveryCode m)"
  shows "completeRecovery U C d (recover_with userId s newPassword m) =
    (let r = wrapNewCredentials U C d userId newPassword keyBundle 1 4
     in (\<lparr>pg_step = 1, pg_totalSteps = 4, pg_label = ''Recovery code confirmed''\<rparr> # fst r, snd r))"
proof -
  from assms(2) obtain random salt k where r: "length random = 16" "generateRecoveryCode random = Inr (rm_recoveryCode m)"
    "base64ToBytes (rm_recoverySalt m) = Some salt"
    "deriveKey C (encodeBase32 random) salt (rm_recoveryArgon2Params m) 32 = Inr k"
    "open_sealed C k (rm_recoveryWrappedPrivateKeys m) (credentialWrapAAD userId RECOVERY) = Inr keyBundle"
    by (auto simp: credentials_hold_def opens_recovery_def)
  from r normalize_transcription [OF assms(1) r(1,2) assms(4)] decoded_size [OF assms(3)] assms(3) show ?thesis
    by (simp add: completeRecovery_def recover_with_def deriveRecoveryWrapKey_def unwrapAndValidate_def atob_ok Let_def)
qed

lemma change_succeeds:
  assumes "credentials_hold U C userId keyBundle (m, password)" "decodeKeyBundle keyBundle = Inr b"
  shows "completeChangePassword U C d (change_with userId password newPassword m) =
    (let r = wrapNewCredentials U C d userId newPassword keyBundle 1 4
     in (\<lparr>pg_step = 1, pg_totalSteps = 4, pg_label = ''Current password confirmed''\<rparr> # fst r, snd r))"
proof -
  from assms(1) obtain salt k where r: "base64ToBytes (rm_salt m) = Some salt"
    "deriveKey C password salt (rm_argon2Params m) 32 = Inr k"
    "open_sealed C k (rm_wrappedPrivateKeys m) (credentialWrapAAD userId PROFILE) = Inr keyBundle"
    by (auto simp: credentials_hold_def opens_profile_def)
  from r decoded_size [OF assms(2)] assms(2) show ?thesis
    by (simp add: completeChangePassword_def change_with_def unwrapAndValidate_def AES_KEY_SIZE_def atob_ok Let_def)
qed

lemma credentials_step_hold:
  assumes "aead_laws C" "argon2_laws C" "case_laws U" "decodeKeyBundle keyBundle = Inr b"
    and "credentials_step U C userId mp mp'" "credentials_hold U C userId keyBundle mp"
  shows "credentials_hold U C userId keyBundle mp'"
  using assms(5,6)
proof cases
  case (recovered s m d newPassword ps m' password)
  from wrapNewCredentials_opens [OF assms(1-3) recovered(4,5)] obtain n where
    "wrapNewCredentials U C d userId newPassword keyBundle 1 4 = (wrap_steps 1 4, Inr n)"
    "opens_profile C userId newPassword n keyBundle" "opens_recovery U C userId n keyBundle" by blast
  with recovered recovery_succeeds [OF assms(3) _ assms(4) recovered(3)] assms(6) show ?thesis
    by (auto simp: credentials_hold_def)
next
  case (changed d newPassword password m ps m')
  from wrapNewCredentials_opens [OF assms(1-3) changed(3,4)] obtain n where
    "wrapNewCredentials U C d userId newPassword keyBundle 1 4 = (wrap_steps 1 4, Inr n)"
    "opens_profile C userId newPassword n keyBundle" "opens_recovery U C userId n keyBundle" by blast
  with changed change_succeeds [OF _ assms(4)] assms(6) show ?thesis
    by (auto simp: credentials_hold_def)
qed

section \<open>The key pair an account keeps\<close>

definition account_keys :: "prims \<Rightarrow> js_string \<Rightarrow> bytes \<Rightarrow> bytes \<Rightarrow> bytes \<Rightarrow> LiveKeys" where
  "account_keys P userId seed priv pub = \<lparr>lv_userId = userId,
     lv_signingKey = \<lparr>sk_seed = seed, sk_publicKey = ed_public P seed\<rparr>,
     lv_wrappingKey = \<lparr>wk_privateKey = priv, wk_publicKey = pub\<rparr>\<rparr>"

definition login_ok :: "prims \<Rightarrow> ciphers \<Rightarrow> js_string \<Rightarrow> js_string \<Rightarrow> RecoveryMaterial \<Rightarrow> LiveKeys \<Rightarrow> bool" where
  "login_ok P C userId password m keys \<longleftrightarrow> (\<forall>challenge. \<exists>signature.
     completeLogin P C (login_with userId password m challenge) = Inr (bytesToBase64 signature, keys)
     \<and> verify P (sk_publicKey (lv_signingKey keys)) LoginChallenge challenge signature)"

lemma hold_login:
  assumes "ed25519_laws P" "length seed = 32" "x_public C priv = Some pub" "length priv = 32"
    and "decodeKeyBundle keyBundle = Inr \<lparr>kb_signingSeed = seed, kb_wrappingPrivateKey = priv\<rparr>"
    and "opens_profile C userId password m keyBundle"
  shows "login_ok P C userId password m (account_keys P userId seed priv pub)"
proof -
  let ?key = "\<lparr>sk_seed = seed, sk_publicKey = ed_public P seed\<rparr>"
  have k: "signingKeyFromSeed P seed = Inr ?key" using assms(2) by (simp add: signingKeyFromSeed_def SEED_SIZE_def)
  from assms(6) obtain salt k' where r: "base64ToBytes (rm_salt m) = Some salt"
    "deriveKey C password salt (rm_argon2Params m) 32 = Inr k'"
    "open_sealed C k' (rm_wrappedPrivateKeys m) (credentialWrapAAD userId PROFILE) = Inr keyBundle"
    by (auto simp: opens_profile_def)
  from r k assms(3-5) have "completeLogin P C (login_with userId password m challenge)
      = Inr (bytesToBase64 (sign P ?key LoginChallenge challenge), account_keys P userId seed priv pub)" for challenge
    by (simp add: completeLogin_def login_with_def unwrapAndValidate_def AES_KEY_SIZE_def KEY_LEN_def atob_ok
        wrappingKeyFromPrivate_def account_keys_def)
  with verify_sign [OF assms(1) k, of LoginChallenge] show ?thesis
    unfolding login_ok_def by (auto simp: account_keys_def)
qed

lemma signup_bundle:
  assumes "length seed = 32" "length priv = 32"
  shows "\<exists>keyBundle. encodeKeyBundle \<lparr>kb_signingSeed = seed, kb_wrappingPrivateKey = priv\<rparr> = Inr keyBundle
    \<and> decodeKeyBundle keyBundle = Inr \<lparr>kb_signingSeed = seed, kb_wrappingPrivateKey = priv\<rparr>"
proof -
  let ?b = "\<lparr>kb_signingSeed = seed, kb_wrappingPrivateKey = priv\<rparr>"
  have "bundle_ok ?b" using assms by (simp add: bundle_ok_def)
  then show ?thesis using encodeKeyBundle_eq [of ?b] decode_encodeKeyBundle [of ?b] by auto
qed

text \<open>
  C19: an account keeps its keys.  A signup with a password that is not empty succeeds and reports
  its three steps; after it and after any sequence of recoveries (with the code issued last,
  however it is written) and password changes, the password set last logs in with the key pair
  whose public halves the signup published, and signs the challenge verifiably; and at every
  point a recovery with the current code succeeds.
\<close>
theorem account_keeps_its_keys:
  assumes "ed25519_laws P" "aead_laws C" "x25519_laws C" "argon2_laws C" "case_laws U"
    and "length seed = 32" "length priv = 32" "credential_draw_ok d" "password \<noteq> []"
  shows "\<exists>material keys.
    generateSignupMaterial U P C seed priv d userId password = (wrap_steps 0 3, Inr material)
    \<and> lv_userId keys = userId
    \<and> sm_signingPublicKey material = bytesToBase64 (sk_publicKey (lv_signingKey keys))
    \<and> sm_wrappingPublicKey material = bytesToBase64 (wk_publicKey (lv_wrappingKey keys))
    \<and> (\<forall>m current. (credentials_step U C userId)\<^sup>*\<^sup>* (sm_wrapped material, password) (m, current) \<longrightarrow>
         login_ok P C userId current m keys
         \<and> (\<forall>s d' new. transcription s (rm_recoveryCode m) \<longrightarrow> credential_draw_ok d' \<longrightarrow> new \<noteq> [] \<longrightarrow>
              (\<exists>ps m'. completeRecovery U C d' (recover_with userId s new m) = (ps, Inr m') \<and> length ps = 4)))"
proof -
  let ?b = "\<lparr>kb_signingSeed = seed, kb_wrappingPrivateKey = priv\<rparr>"
  from signup_bundle [OF assms(6,7)] obtain keyBundle where
    e: "encodeKeyBundle ?b = Inr keyBundle" and dec: "decodeKeyBundle keyBundle = Inr ?b" by blast
  from x_public_exists [OF assms(3,7)] obtain pub where pub: "x_public C priv = Some pub" by blast
  let ?keys = "account_keys P userId seed priv pub"
  from wrapNewCredentials_opens [OF assms(2,4,5,8,9)] obtain w where
    w: "wrapNewCredentials U C d userId password keyBundle 0 3 = (wrap_steps 0 3, Inr w)"
    and h: "credentials_hold U C userId keyBundle (w, password)"
    unfolding credentials_hold_def by (metis fst_conv snd_conv)
  have life: "login_ok P C userId current m ?keys
      \<and> (\<forall>s d' new. transcription s (rm_recoveryCode m) \<longrightarrow> credential_draw_ok d' \<longrightarrow> new \<noteq> [] \<longrightarrow>
           (\<exists>ps m'. completeRecovery U C d' (recover_with userId s new m) = (ps, Inr m') \<and> length ps = 4))"
    if "(credentials_step U C userId)\<^sup>*\<^sup>* (w, password) (m, current)" for m current
  proof -
    from that have hold: "credentials_hold U C userId keyBundle (m, current)"
      using h credentials_step_hold [OF assms(2,4,5) dec] by (induction rule: rtranclp_induct) auto
    have "login_ok P C userId current m ?keys"
      by (rule hold_login [OF assms(1,6) pub assms(7) dec]) (use hold in \<open>simp add: credentials_hold_def\<close>)
    moreover have "\<exists>ps m'. completeRecovery U C d' (recover_with userId s new m) = (ps, Inr m') \<and> length ps = 4"
      if "transcription s (rm_recoveryCode m)" "credential_draw_ok d'" "new \<noteq> []" for s d' new
    proof -
      from wrapNewCredentials_opens [OF assms(2,4,5) that(2,3), of userId keyBundle 1 4] obtain n where
        "wrapNewCredentials U C d' userId new keyBundle 1 4 = (wrap_steps 1 4, Inr n)" by metis
      with recovery_succeeds [OF assms(5) hold dec that(1)] show ?thesis by (simp add: wrap_steps_def)
    qed
    ultimately show ?thesis by blast
  qed
  let ?M = "\<lparr>sm_signingPublicKey = bytesToBase64 (ed_public P seed), sm_wrappingPublicKey = bytesToBase64 pub, sm_wrapped = w\<rparr>"
  have signup: "generateSignupMaterial U P C seed priv d userId password = (wrap_steps 0 3, Inr ?M)"
    using e w pub assms(6)
    by (simp add: generateSignupMaterial_def generateSigningKey_def signingKeyFromSeed_def SEED_SIZE_def generateWrappingKey_def)
  show ?thesis
  proof (rule exI [of _ ?M], rule exI [of _ ?keys], intro conjI)
    show "\<forall>m current. (credentials_step U C userId)\<^sup>*\<^sup>* (sm_wrapped ?M, password) (m, current) \<longrightarrow>
         login_ok P C userId current m ?keys
         \<and> (\<forall>s d' new. transcription s (rm_recoveryCode m) \<longrightarrow> credential_draw_ok d' \<longrightarrow> new \<noteq> [] \<longrightarrow>
              (\<exists>ps m'. completeRecovery U C d' (recover_with userId s new m) = (ps, Inr m') \<and> length ps = 4))"
      unfolding SignupMaterial.simps using life by blast
  qed (use signup in \<open>simp_all add: account_keys_def\<close>)
qed

definition sample_credentials :: credential_draw where
  "sample_credentials = \<lparr>cd_salt = replicate 16 1, cd_profileNonce = replicate 12 2, cd_entropy = replicate 16 3,
     cd_recoverySalt = replicate 16 4, cd_recoveryNonce = replicate 12 5, cd_verifierSalt = replicate 16 6\<rparr>"

lemma sample_argon2: "argon2_laws sample_ciphers"
  unfolding argon2_laws_def
proof (intro allI impI)
  fix password :: js_string and salt :: bytes
  show "\<exists>k. length k = 32 \<and> argon2id sample_ciphers password salt DEFAULT_PARAMS 32 = Some (bytesToHex k)"
    by (rule exI [of _ "replicate 32 (checksum (utf8_encode password @ salt))"]) (simp add: sample_ciphers_def)
qed

theorem account_keeps_its_keys_witness:
  "\<exists>material keys. generateSignupMaterial (\<lambda>s. s) sample sample_ciphers (seed_of 1) (seed_of 11) sample_credentials alice
       (js ''hunter22'') = (wrap_steps 0 3, Inr material)
     \<and> login_ok sample sample_ciphers alice (js ''hunter22'') (sm_wrapped material) keys"
proof -
  have "case_laws (\<lambda>s. s)" "length (seed_of 1) = 32" "length (seed_of 11) = 32" "credential_draw_ok sample_credentials"
    "js ''hunter22'' \<noteq> []"
    by (simp_all add: case_laws_def credential_draw_ok_def sample_credentials_def)
  from account_keeps_its_keys [OF sample_laws sample_aead sample_x25519 sample_argon2 this, of alice]
  show ?thesis by blast
qed

end
