(* ===== verification/Rotation_Material.thy ===== *)
theory Rotation_Material
  imports Account
begin

text \<open>
  rotation-material.ts: the worker's half of a key rotation and the state it keeps between the
  calls of one.
\<close>

record PendingRotation =
  pn_userId :: js_string
  pn_signingKey :: SigningKey
  pn_wrappingKey :: WrappingKey

definition ROTATION_ENTRY_SIZE :: nat where "ROTATION_ENTRY_SIZE = 16"
definition MAX_ROSTER_ENTRIES :: nat where "MAX_ROSTER_ENTRIES = 8192"

text \<open>The pending keys and their public halves; the drawn seed and scalar are arguments.\<close>

definition beginKeyRotation ::
  "prims \<Rightarrow> ciphers \<Rightarrow> bytes \<Rightarrow> bytes \<Rightarrow> LiveKeys \<Rightarrow> (PendingRotation \<times> js_string \<times> js_string) result" where
  "beginKeyRotation P C seed priv keys =
     bind (generateSigningKey P seed) (\<lambda>signingKey.
     bind (generateWrappingKey C priv) (\<lambda>wrappingKey.
       Inr (\<lparr>pn_userId = lv_userId keys, pn_signingKey = signingKey, pn_wrappingKey = wrappingKey\<rparr>,
            bytesToBase64 (sk_publicKey signingKey), bytesToBase64 (wk_publicKey wrappingKey))))"

record WrapHandoffRequest =
  wh_groupId :: js_string
  wh_ownWrappedGroupKey :: WireWrapped
  wh_generation :: int

record HandoffWrap =
  hw_generation :: int
  hw_newWrappingPublicKey :: js_string
  hw_wrappedGroupKey :: WireWrapped

definition wrapHandoff ::
  "ciphers \<Rightarrow> draw \<Rightarrow> LiveKeys \<Rightarrow> PendingRotation \<Rightarrow> WrapHandoffRequest \<Rightarrow> HandoffWrap result" where
  "wrapHandoff C d keys pending req =
     bind (wrappedFromWire (wh_ownWrappedGroupKey req)) (\<lambda>own.
     bind (unwrapOwnGroupKey C keys (wh_groupId req) own (wh_generation req)) (\<lambda>groupKey.
       let newPub = wk_publicKey (pn_wrappingKey pending) in
       bind (wrap C d newPub groupKey
               (handoffWrapAAD (lv_userId keys) (wh_groupId req) (wh_generation req) newPub)) (\<lambda>wrapped.
         Inr \<lparr>hw_generation = wh_generation req, hw_newWrappingPublicKey = bytesToBase64 newPub,
              hw_wrappedGroupKey = toWireWrapped wrapped\<rparr>)))"

record SignKeyRotationRequest =
  kq_newPassword :: js_string
  kq_expectedKeyEpoch :: int
  kq_roster :: "js_string list"

record SignedKeyRotation =
  sr_signedDay :: js_string
  sr_newSigningPublicKey :: js_string
  sr_newWrappingPublicKey :: js_string
  sr_roster :: "js_string list"
  sr_oldSignature :: js_string
  sr_newSignature :: js_string
  sr_credentials :: RecoveryMaterial

definition RosterTooLarge :: string where
  "RosterTooLarge = ''rotation: a roster holds at most 8192 entries''"

fun roster_entries :: "js_string list \<Rightarrow> bytes list result" where
  "roster_entries [] = Inr []"
| "roster_entries (e # es) =
     bind (atob e) (\<lambda>b.
       if length b \<noteq> ROTATION_ENTRY_SIZE then Inl ''rotation: a roster entry must be 16 bytes''
       else bind (roster_entries es) (\<lambda>bs. Inr (b # bs)))"

definition signKeyRotation ::
  "(js_string \<Rightarrow> js_string) \<Rightarrow> prims \<Rightarrow> ciphers \<Rightarrow> int \<Rightarrow> credential_draw \<Rightarrow> LiveKeys \<Rightarrow> PendingRotation
   \<Rightarrow> SignKeyRotationRequest \<Rightarrow> SignedKeyRotation reported" where
  "signKeyRotation U P C now d keys pending req =
     (if MAX_ROSTER_ENTRIES < length (kq_roster req) then quiet (Inl RosterTooLarge)
      else then_do (quiet (roster_entries (kq_roster req))) (\<lambda>entries.
        let signedDay = isoDay now;
            payload = keyRotationPayload (lv_userId keys) (sk_publicKey (lv_signingKey keys))
              (wk_publicKey (lv_wrappingKey keys)) (sk_publicKey (pn_signingKey pending))
              (wk_publicKey (pn_wrappingKey pending)) signedDay (kq_expectedKeyEpoch req) (rosterDigest P entries);
            oldSignature = sign P (lv_signingKey keys) KeyRotation payload;
            newSignature = sign P (pn_signingKey pending) KeyRotation payload
        in then_do (quiet (encodeKeyBundle \<lparr>kb_signingSeed = sk_seed (pn_signingKey pending),
                       kb_wrappingPrivateKey = wk_privateKey (pn_wrappingKey pending)\<rparr>)) (\<lambda>keyBundle.
        then_do (wrapNewCredentials U C d (lv_userId keys) (kq_newPassword req) keyBundle 0 3) (\<lambda>credentials.
          quiet (Inr \<lparr>sr_signedDay = signedDay,
            sr_newSigningPublicKey = bytesToBase64 (sk_publicKey (pn_signingKey pending)),
            sr_newWrappingPublicKey = bytesToBase64 (wk_publicKey (pn_wrappingKey pending)),
            sr_roster = kq_roster req, sr_oldSignature = bytesToBase64 oldSignature,
            sr_newSignature = bytesToBase64 newSignature, sr_credentials = credentials\<rparr>)))))"

definition commitKeyRotation :: "PendingRotation \<Rightarrow> LiveKeys" where
  "commitKeyRotation pending =
     \<lparr>lv_userId = pn_userId pending, lv_signingKey = pn_signingKey pending, lv_wrappingKey = pn_wrappingKey pending\<rparr>"

section \<open>RotationState\<close>

record RotationState =
  pending :: "PendingRotation option"

definition new_rotation :: RotationState where "new_rotation = \<lparr>pending = None\<rparr>"

definition rotation_begin :: "PendingRotation \<Rightarrow> RotationState \<Rightarrow> RotationState" where
  "rotation_begin p s = s\<lparr>pending := Some p\<rparr>"

definition rotation_require :: "js_string \<Rightarrow> RotationState \<Rightarrow> PendingRotation result" where
  "rotation_require userId s =
     (case pending s of
        None \<Rightarrow> Inl ''worker: no key rotation has begun for this account''
      | Some p \<Rightarrow> if pn_userId p \<noteq> userId then Inl ''worker: no key rotation has begun for this account'' else Inr p)"

definition assertIdle :: "string \<Rightarrow> RotationState \<Rightarrow> unit result" where
  "assertIdle what s =
     (if pending s \<noteq> None
      then Inl (''worker: a key rotation is in progress -- finish or cancel it before you '' @ what)
      else Inr ())"

definition rotation_clear :: "RotationState \<Rightarrow> RotationState" where
  "rotation_clear s = s\<lparr>pending := None\<rparr>"

text \<open>The new live keys, and the state after the commit.\<close>

definition rotation_commit :: "js_string \<Rightarrow> RotationState \<Rightarrow> (LiveKeys \<times> RotationState) result" where
  "rotation_commit userId s =
     bind (rotation_require userId s) (\<lambda>p. Inr (commitKeyRotation p, s\<lparr>pending := None\<rparr>))"

end
