(* ===== verification/Rotation_Properties.thy ===== *)
theory Rotation_Properties
  imports Rotation_Material Account_Properties
begin

text \<open>
  A rotation against the verifiers: what signKeyRotation signs extends every history the old keys
  verified under, keeps the rows its roster lists countable, and what wrapHandoff leaves behind
  opens under the new keys.
\<close>

section \<open>Appending a change\<close>

lemma insort_key_greatest:
  fixes f :: "'a \<Rightarrow> 'k::linorder"
  shows "\<forall>x\<in>set xs. f x < f c \<Longrightarrow> insort_key f c xs = xs @ [c]"
  by (induction xs) (auto simp: leD)

lemma build_links_append:
  "build_links P u rs i prev (cs @ [c]) =
     (case build_links P u rs i prev cs of
        None \<Rightarrow> None
      | Some ls \<Rightarrow>
          map_option (\<lambda>l. ls @ [l])
            (change_link P u rs (i + int (length cs)) (if ls = [] then prev else Some (last ls)) c))"
proof (induction cs arbitrary: i prev)
  case Nil
  show ?case by (auto split: option.split)
next
  case (Cons d cs)
  show ?case
  proof (cases "change_link P u rs i prev d")
    case (Some l)
    show ?thesis
    proof (cases "build_links P u rs (i + 1) (Some l) cs")
      case None
      with Cons [of "i + 1" "Some l"] Some show ?thesis by simp
    next
      case ls: (Some ls)
      have "i + 1 + int (length cs) = i + int (length (d # cs))" by simp
      with Cons [of "i + 1" "Some l"] Some ls show ?thesis
        by (auto simp: option.map_comp comp_def)
    qed
  qed simp
qed

text \<open>A roster filed for a later change is not looked at by the earlier ones.\<close>

lemma change_link_later_roster:
  "i + 1 \<noteq> kr_keyEpoch r \<Longrightarrow> change_link P u (r # rs) i prev c = change_link P u rs i prev c"
proof (cases "kc_keyEpoch c = i + 1")
  case True
  assume "i + 1 \<noteq> kr_keyEpoch r"
  with True have f: "List.find (\<lambda>r. kr_keyEpoch r = kc_keyEpoch c) (r # rs) = List.find (\<lambda>r. kr_keyEpoch r = kc_keyEpoch c) rs"
    by simp
  show ?thesis unfolding change_link_def f ..
qed (simp add: change_link_def)

lemma build_links_later_roster:
  "i + int (length cs) < kr_keyEpoch r \<Longrightarrow> build_links P u (r # rs) i prev cs = build_links P u rs i prev cs"
proof (induction cs arbitrary: i prev)
  case (Cons c cs)
  have "change_link P u (r # rs) i prev c = change_link P u rs i prev c"
    by (rule change_link_later_roster) (use Cons.prems in simp)
  moreover have "build_links P u (r # rs) (i + 1) p cs = build_links P u rs (i + 1) p cs" for p
    by (rule Cons.IH) (use Cons.prems in simp)
  ultimately show ?case by (simp split: option.split)
qed simp

lemma decode_own_b64 [simp]: "length b = n \<Longrightarrow> decode_sized (bytesToBase64 b) n = Some b"
  by (simp add: decode_sized_def)

lemma roster_decodes: "roster_entries r = Inr es \<Longrightarrow> decode_entries r = Some es"
proof (induction r arbitrary: es)
  case (Cons e r)
  then show ?case
    by (auto simp: bind_Inr_iff decode_sized_def ROSTER_ENTRY_SIZE_def ROTATION_ENTRY_SIZE_def split: if_splits)
qed simp

section \<open>What the server files\<close>

definition filed_change :: "prims \<Rightarrow> LiveKeys \<Rightarrow> int \<Rightarrow> bytes list \<Rightarrow> SignedKeyRotation \<Rightarrow> WireKeyChange" where
  "filed_change P keys expected entries r =
     \<lparr>kc_keyEpoch = expected + 1, kc_day = sr_signedDay r,
      kc_oldSigningPublicKey = bytesToBase64 (sk_publicKey (lv_signingKey keys)),
      kc_oldWrappingPublicKey = bytesToBase64 (wk_publicKey (lv_wrappingKey keys)),
      kc_newSigningPublicKey = sr_newSigningPublicKey r, kc_newWrappingPublicKey = sr_newWrappingPublicKey r,
      kc_rosterDigest = bytesToBase64 (rosterDigest P entries),
      kc_oldSignature = sr_oldSignature r, kc_newSignature = sr_newSignature r\<rparr>"

definition filed_roster :: "int \<Rightarrow> SignedKeyRotation \<Rightarrow> WireKeyChangeRoster" where
  "filed_roster expected r = \<lparr>kr_keyEpoch = expected + 1, kr_roster = sr_roster r\<rparr>"

definition rotation_link :: "LiveKeys \<Rightarrow> PendingRotation \<Rightarrow> int \<Rightarrow> bytes list \<Rightarrow> js_string \<Rightarrow> OwnKeyLink" where
  "rotation_link keys p expected entries day =
     \<lparr>lk_epoch = expected + 1, lk_day = day, lk_oldSigning = sk_publicKey (lv_signingKey keys),
      lk_newSigning = sk_publicKey (pn_signingKey p), lk_oldWrapping = wk_publicKey (lv_wrappingKey keys),
      lk_newWrapping = wk_publicKey (pn_wrappingKey p), lk_roster = Some entries\<rparr>"

lemma signKeyRotation_Inr:
  assumes "signKeyRotation U P C now d keys p req = (ps, Inr r)"
  obtains entries where "roster_entries (kq_roster req) = Inr entries" "length (kq_roster req) \<le> MAX_ROSTER_ENTRIES"
    "sr_signedDay r = isoDay now" "sr_roster r = kq_roster req"
    "sr_newSigningPublicKey r = bytesToBase64 (sk_publicKey (pn_signingKey p))"
    "sr_newWrappingPublicKey r = bytesToBase64 (wk_publicKey (pn_wrappingKey p))"
    "\<And>payload. payload = keyRotationPayload (lv_userId keys) (sk_publicKey (lv_signingKey keys))
         (wk_publicKey (lv_wrappingKey keys)) (sk_publicKey (pn_signingKey p)) (wk_publicKey (pn_wrappingKey p))
         (isoDay now) (kq_expectedKeyEpoch req) (rosterDigest P entries) \<Longrightarrow>
       sr_oldSignature r = bytesToBase64 (sign P (lv_signingKey keys) KeyRotation payload)
       \<and> sr_newSignature r = bytesToBase64 (sign P (pn_signingKey p) KeyRotation payload)"
proof -
  from assms obtain entries where e: "roster_entries (kq_roster req) = Inr entries"
    and l: "\<not> MAX_ROSTER_ENTRIES < length (kq_roster req)"
    by (cases "roster_entries (kq_roster req)") (auto simp: signKeyRotation_def quiet_def then_do_def split: if_splits)
  let ?b = "encodeKeyBundle \<lparr>kb_signingSeed = sk_seed (pn_signingKey p), kb_wrappingPrivateKey = wk_privateKey (pn_wrappingKey p)\<rparr>"
  from assms e l obtain keyBundle where b: "?b = Inr keyBundle"
    by (cases ?b) (simp_all add: signKeyRotation_def quiet_def then_do_def)
  from assms e l b obtain ps' cs where "wrapNewCredentials U C d (lv_userId keys) (kq_newPassword req) keyBundle 0 3 = (ps', Inr cs)"
    by (cases "wrapNewCredentials U C d (lv_userId keys) (kq_newPassword req) keyBundle 0 3"; cases "snd (wrapNewCredentials U C d (lv_userId keys) (kq_newPassword req) keyBundle 0 3)")
      (simp_all add: signKeyRotation_def then_do_def)
  with assms e l b show ?thesis
    by (intro that) (auto simp: signKeyRotation_def Let_def)
qed

lemma rotation_change_link:
  assumes "ed25519_laws P" "\<forall>m. length (sha256 P m) = 32"
    and "genuine P (lv_signingKey keys)" "genuine P (pn_signingKey p)"
    and "length (wk_publicKey (lv_wrappingKey keys)) = 32" "length (wk_publicKey (pn_wrappingKey p)) = 32"
    and "day_shape (isoDay now)"
    and "signKeyRotation U P C now d keys p req = (ps, Inr r)" "roster_entries (kq_roster req) = Inr entries"
    and "follows prev (sk_publicKey (lv_signingKey keys)) (wk_publicKey (lv_wrappingKey keys)) (isoDay now)"
  shows "change_link P (lv_userId keys) (filed_roster (kq_expectedKeyEpoch req) r # rosters) (kq_expectedKeyEpoch req) prev
      (filed_change P keys (kq_expectedKeyEpoch req) entries r)
    = Some (rotation_link keys p (kq_expectedKeyEpoch req) entries (isoDay now))"
  using signKeyRotation_Inr [OF assms(8)]
proof cases
  case (1 entries')
  then have [simp]: "entries' = entries" using assms(9) by simp
  have day: "isDay (date_other P) (isoDay now)"
    using isoDay_shape_valid [OF refl assms(7)] isDay_real by blast
  have "length (rosterDigest P entries) = 32" using assms(2) by (simp add: rosterDigest_def Let_def)
  moreover note genuine_sizes [OF assms(1,3)] genuine_sizes [OF assms(1,4)] assms(5,6) day 1(1-6) 1(7) [OF refl]
  moreover note verify_genuine [OF assms(1,3)] verify_genuine [OF assms(1,4)] roster_decodes [OF assms(9)]
  ultimately show ?thesis
    using assms(10)
    by (simp add: change_link_def filed_change_def filed_roster_def rotation_link_def KEY_SIZE_def SIGNATURE_SIZE_def
        decodeRoster_def)
qed

lemma history_epochs:
  assumes "build_links P u rs 0 None (sort_key kc_keyEpoch changes) = Some links"
  shows "\<forall>c\<in>set changes. kc_keyEpoch c < int (length changes) + 1" "length links = length changes"
proof -
  note b = build_links_sound(2,4) [OF assms]
  then show l: "length links = length changes" by simp
  have e: "set (map kc_keyEpoch changes) = set (map kc_keyEpoch (sort_key kc_keyEpoch changes))" by simp
  show "\<forall>c\<in>set changes. kc_keyEpoch c < int (length changes) + 1"
  proof
    fix c assume "c \<in> set changes"
    then have "kc_keyEpoch c \<in> set (map kc_keyEpoch changes)" by simp
    then show "kc_keyEpoch c < int (length changes) + 1" unfolding e b(2) l by auto
  qed
qed

lemma last_link_accepted:
  assumes "isDay (date_other P) day" "\<not> lk_day l < day" "ls \<noteq> [] \<longrightarrow> lk_day (last ls) \<le> day"
    and "lk_roster l = Some entries" "rosterEntryId P sk sig \<in> set entries"
  shows "ownSignerAccepted P \<lparr>oh_current = cur, oh_links = ls @ [l]\<rparr> (lk_oldSigning l) day sk sig"
proof -
  have "not_before (introduced (ls @ [l]) (length ls)) day"
    using assms(3) by (cases ls rule: rev_cases) (simp_all add: not_before_def introduced_def nth_append)
  moreover have "list_ex (\<lambda>e. bytesEqual e (rosterEntryId P sk sig)) entries"
    using assms(5) by (auto simp: list_ex_iff)
  ultimately show ?thesis
    using assms(1,2,4) by (auto simp: ownSignerAccepted_def Let_def list_ex_iff nth_append intro!: bexI [of _ "length ls"])
qed

text \<open>
  C20: a rotation the client signs is accepted by every verifier and keeps the rows it lists.  If
  the served history verifies up to the keys being replaced, and the clock is not behind the last
  rotation, then after signKeyRotation the history with the change and the roster the server
  files verifies up to the new keys, with exactly one link more; and every row whose entry the
  roster lists still counts as the caller's, signed under the retired key on any day since the
  rotation before.
\<close>
theorem rotation_extends_history:
  assumes "ed25519_laws P" "\<forall>m. length (sha256 P m) = 32"
    and "genuine P (lv_signingKey keys)" "genuine P (pn_signingKey p)"
    and "length (wk_publicKey (lv_wrappingKey keys)) = 32" "length (wk_publicKey (pn_wrappingKey p)) = 32"
    and "day_shape (isoDay now)"
    and "buildOwnKeyHistory P (lv_userId keys) (sk_publicKey (lv_signingKey keys)) changes rosters = Some h"
    and "oh_links h = [] \<or> lk_newWrapping (last (oh_links h)) = wk_publicKey (lv_wrappingKey keys)
                           \<and> lk_day (last (oh_links h)) \<le> isoDay now"
    and "kq_expectedKeyEpoch req = int (length changes)"
    and "signKeyRotation U P C now d keys p req = (ps, Inr r)"
  shows "\<exists>entries h'. roster_entries (kq_roster req) = Inr entries
    \<and> buildOwnKeyHistory P (lv_userId keys) (sk_publicKey (pn_signingKey p))
        (filed_change P keys (kq_expectedKeyEpoch req) entries r # changes)
        (filed_roster (kq_expectedKeyEpoch req) r # rosters) = Some h'
    \<and> oh_links h' = oh_links h @ [rotation_link keys p (kq_expectedKeyEpoch req) entries (isoDay now)]
    \<and> (\<forall>sk sig day. rosterEntryId P sk sig \<in> set entries \<longrightarrow> isDay (date_other P) day \<longrightarrow> day \<le> isoDay now \<longrightarrow>
         (oh_links h = [] \<or> lk_day (last (oh_links h)) \<le> day) \<longrightarrow>
         ownSignerAccepted P h' (sk_publicKey (lv_signingKey keys)) day sk sig)"
proof -
  let ?e = "kq_expectedKeyEpoch req" and ?u = "lv_userId keys" and ?prev = "if oh_links h = [] then None else Some (last (oh_links h))"
  from signKeyRotation_Inr [OF assms(11)] obtain entries where e: "roster_entries (kq_roster req) = Inr entries" by metis
  let ?c = "filed_change P keys ?e entries r" and ?rs = "filed_roster ?e r # rosters"
    and ?l = "rotation_link keys p ?e entries (isoDay now)"
  let ?h = "\<lparr>oh_current = sk_publicKey (pn_signingKey p), oh_links = oh_links h @ [?l]\<rparr>"
  from assms(8) obtain b: "build_links P ?u rosters 0 None (sort_key kc_keyEpoch changes) = Some (oh_links h)"
    and last: "oh_links h \<noteq> [] \<longrightarrow> lk_newSigning (last (oh_links h)) = sk_publicKey (lv_signingKey keys)"
    by (rule buildOwnKeyHistory_SomeE) blast
  note ep = history_epochs [OF b]
  have "follows ?prev (sk_publicKey (lv_signingKey keys)) (wk_publicKey (lv_wrappingKey keys)) (isoDay now)"
    using assms(9) last by (auto simp: follows_def)
  from rotation_change_link [OF assms(1-7,11) e this, of rosters]
  have link: "change_link P ?u ?rs ?e ?prev ?c = Some ?l" .
  have "sort_key kc_keyEpoch (?c # changes) = sort_key kc_keyEpoch changes @ [?c]"
    using ep(1) assms(10) by (simp add: insort_key_greatest filed_change_def)
  moreover have "build_links P ?u ?rs 0 None (sort_key kc_keyEpoch changes) = Some (oh_links h)"
    using b assms(10) by (subst build_links_later_roster) (simp_all add: filed_roster_def)
  ultimately have "build_links P ?u ?rs 0 None (sort_key kc_keyEpoch (?c # changes)) = Some (oh_links h @ [?l])"
    using link assms(10) by (simp add: build_links_append)
  then have built: "buildOwnKeyHistory P ?u (sk_publicKey (pn_signingKey p)) (?c # changes) ?rs = Some ?h"
    unfolding buildOwnKeyHistory_def js_sort_epochs by (simp add: rotation_link_def)
  have "ownSignerAccepted P ?h (sk_publicKey (lv_signingKey keys)) day sk sig"
    if "rosterEntryId P sk sig \<in> set entries" "isDay (date_other P) day" "day \<le> isoDay now"
      "oh_links h = [] \<or> lk_day (last (oh_links h)) \<le> day" for sk sig day
    using last_link_accepted [of P day ?l "oh_links h" entries sk sig "sk_publicKey (pn_signingKey p)"] that
    by (auto simp: rotation_link_def)
  with built e show ?thesis
    by (intro exI [of _ entries] exI [of _ ?h]) auto
qed

section \<open>The handoff\<close>

text \<open>What wrapHandoff leaves for a group opens, after the commit, to the group's current key.\<close>

lemma handoff_opens:
  assumes "aead_laws C" "x25519_laws C" "genuine_wrapping C (pn_wrappingKey p)" "pn_userId p = lv_userId keys"
    and "wrapHandoff C d keys p req = Inr hw"
  shows "\<exists>own groupKey w. wrappedFromWire (wh_ownWrappedGroupKey req) = Inr own
    \<and> unwrapOwnGroupKey C keys (wh_groupId req) own (wh_generation req) = Inr groupKey
    \<and> wrappedFromWire (hw_wrappedGroupKey hw) = Inr w
    \<and> unwrapHandoff C (commitKeyRotation p) (wh_groupId req) (hw_generation hw) w = Inr groupKey"
proof -
  from assms(5) obtain own groupKey w where o: "wrappedFromWire (wh_ownWrappedGroupKey req) = Inr own"
    "unwrapOwnGroupKey C keys (wh_groupId req) own (wh_generation req) = Inr groupKey"
    and w: "wrap C d (wk_publicKey (pn_wrappingKey p)) groupKey
      (handoffWrapAAD (lv_userId keys) (wh_groupId req) (wh_generation req) (wk_publicKey (pn_wrappingKey p))) = Inr w"
    and hw: "hw = \<lparr>hw_generation = wh_generation req, hw_newWrappingPublicKey = bytesToBase64 (wk_publicKey (pn_wrappingKey p)),
      hw_wrappedGroupKey = toWireWrapped w\<rparr>"
    by (auto simp: wrapHandoff_def Let_def bind_Inr_iff)
  from unwrap_wrapped [OF assms(1-3) w] unwrapOwnGroupKey_length [OF o(2)] assms(4)
  have "unwrapHandoff C (commitKeyRotation p) (wh_groupId req) (wh_generation req) w = Inr groupKey"
    by (simp add: unwrapHandoff_def commitKeyRotation_def AES_KEY_SIZE_def)
  with o hw show ?thesis by simp
qed

section \<open>A sample rotation\<close>

lemma sample_rotation_signed:
  assumes "x_public sample_ciphers (wk_privateKey (pn_wrappingKey p)) \<noteq> None" "length (sk_seed (pn_signingKey p)) = 32"
    and "kq_roster req = []" "kq_newPassword req \<noteq> []"
  shows "\<exists>ps r. signKeyRotation (\<lambda>s. s) sample sample_ciphers now sample_credentials sample_live p req = (ps, Inr r)"
proof -
  have "length (wk_privateKey (pn_wrappingKey p)) = 32"
    using assms(1) sample_x25519 by (simp add: x25519_laws_def)
  from signup_bundle [OF assms(2) this] obtain keyBundle where
    b: "encodeKeyBundle \<lparr>kb_signingSeed = sk_seed (pn_signingKey p), kb_wrappingPrivateKey = wk_privateKey (pn_wrappingKey p)\<rparr>
      = Inr keyBundle" by blast
  have "case_laws (\<lambda>s. s)" "credential_draw_ok sample_credentials"
    by (simp_all add: case_laws_def credential_draw_ok_def sample_credentials_def)
  from wrapNewCredentials_opens [OF sample_aead sample_argon2 this assms(4), of alice keyBundle 0 3] obtain m where
    "wrapNewCredentials (\<lambda>s. s) sample_ciphers sample_credentials alice (kq_newPassword req) keyBundle 0 3 = (wrap_steps 0 3, Inr m)"
    by metis
  with b assms(3) show ?thesis by (simp add: signKeyRotation_def Let_def)
qed

definition sample_pending :: PendingRotation where
  "sample_pending = \<lparr>pn_userId = alice, pn_signingKey = key_of 2,
     pn_wrappingKey = \<lparr>wk_privateKey = seed_of 12, wk_publicKey = seed_of 12\<rparr>\<rparr>"

definition sample_request :: SignKeyRotationRequest where
  "sample_request = \<lparr>kq_newPassword = js ''hunter23'', kq_expectedKeyEpoch = 0, kq_roster = []\<rparr>"

theorem rotation_extends_history_witness:
  "\<exists>ps r h'. signKeyRotation (\<lambda>s. s) sample sample_ciphers 1767600000000 sample_credentials sample_live sample_pending sample_request
       = (ps, Inr r)
     \<and> buildOwnKeyHistory sample alice (seed_of 2) [filed_change sample sample_live 0 [] r] [filed_roster 0 r] = Some h'
     \<and> length (oh_links h') = 1"
proof -
  have p: "genuine sample (pn_signingKey sample_pending)" "length (wk_publicKey (pn_wrappingKey sample_pending)) = 32"
    "x_public sample_ciphers (wk_privateKey (pn_wrappingKey sample_pending)) \<noteq> None"
    "length (sk_seed (pn_signingKey sample_pending)) = 32" "kq_roster sample_request = []" "kq_newPassword sample_request \<noteq> []"
    "kq_expectedKeyEpoch sample_request = 0" "sk_publicKey (pn_signingKey sample_pending) = seed_of 2"
    by (simp_all add: sample_pending_def sample_request_def genuine_def sample_def key_of_def sample_ciphers_def)
  have s: "\<forall>m. length (sha256 sample m) = 32" "length (wk_publicKey (lv_wrappingKey sample_live)) = 32"
    "buildOwnKeyHistory sample (lv_userId sample_live) (sk_publicKey (lv_signingKey sample_live)) [] []
       = Some \<lparr>oh_current = sk_publicKey (lv_signingKey sample_live), oh_links = []\<rparr>"
    by (simp_all add: sample_def)
  have o: "oh_links \<lparr>oh_current = sk_publicKey (lv_signingKey sample_live), oh_links = []\<rparr> = []
      \<or> lk_newWrapping (last (oh_links \<lparr>oh_current = sk_publicKey (lv_signingKey sample_live), oh_links = []\<rparr>))
          = wk_publicKey (lv_wrappingKey sample_live)
        \<and> lk_day (last (oh_links \<lparr>oh_current = sk_publicKey (lv_signingKey sample_live), oh_links = []\<rparr>)) \<le> isoDay 1767600000000"
    by simp
  obtain ps r where r: "signKeyRotation (\<lambda>s. s) sample sample_ciphers 1767600000000 sample_credentials sample_live
      sample_pending sample_request = (ps, Inr r)"
    using sample_rotation_signed [OF p(3-6)] by blast
  have z: "kq_expectedKeyEpoch sample_request = int (length ([] :: WireKeyChange list))" using p(7) by simp
  from rotation_extends_history [OF sample_laws s(1) sample_genuine(1) p(1) s(2) p(2) sample_clock(1) s(3) o z r] r p(5,7,8)
  show ?thesis by auto
qed

end
