(* ===== verification/Worker.thy ===== *)
theory Worker
  imports Rotation_Material Item_Material
begin

text \<open>
  worker.ts: the messages the crypto worker takes (worker-protocol.ts) and what its handlers do
  with them.  The worker keeps the live keys and the pending rotation.  A handler checks its guards and captures
  the keys when the message arrives; what it computes from there (\<open>outcome\<close>) is posted at once by
  the synchronous handlers and later by the others, and a login caches its keys only when it is
  posted.  Clock and randomness are the argument \<open>E\<close>.
\<close>

section \<open>Messages\<close>

datatype (plugins only: code size) WorkerRequest =
    GenerateSignupMaterial js_string js_string
  | CompleteLoginRequest CompleteLogin
  | CompleteRecoveryRequest CompleteRecovery
  | CompleteChangePasswordRequest CompleteChangePassword
  | SignGroupCreation js_string js_string js_string
  | SignRoleGrant js_string js_string js_string js_string js_string
  | SignSuccessorDesignation js_string js_string js_string int js_string
  | SignSuccessorClaim js_string js_string js_string
  | SignPin js_string js_string "js_string list" js_string int
  | SignWrapRecord js_string js_string js_string int int RekeyReason
  | SignVerification js_string js_string js_string
  | GetOwnSigningKey js_string
  | GetOwnFingerprint js_string
  | HasLiveKeys js_string
  | DecryptGroupNames js_string "GroupNameEntry list"
  | EncryptGroupTextRequest js_string EncryptGroupText
  | SealPost js_string MemberEntry int js_string js_string
  | SealPostEdit js_string MemberEntry int js_string js_string js_string js_string
  | SealComment js_string MemberEntry js_string js_string int js_string
  | SealCommentEdit js_string MemberEntry js_string js_string int js_string js_string
  | SealReaction js_string MemberEntry js_string js_string int nat
  | OpenPosts js_string MemberEntry "StoredPost list"
  | OpenComments js_string MemberEntry js_string "StoredComment list"
  | OpenReactions js_string MemberEntry js_string "StoredReaction list"
  | SignInviteCreation js_string js_string js_string js_string
  | SignInviteAcceptance js_string js_string js_string
  | CompleteInvite js_string js_string js_string WireWrapped int js_string js_string js_string js_string js_string js_string
  | SignReadmission js_string js_string js_string js_string js_string js_string js_string js_string int
  | StartGroupRotation js_string js_string WireWrapped int js_string
  | StartSelfRekey js_string js_string int WireWrapped
  | SelfWrapFromHandoff js_string js_string int WireWrapped
  | StartApprovalRekey js_string js_string WireWrapped int js_string js_string
  | SignLeaveRotationStart js_string js_string int
  | RewrapGroupKey js_string js_string WireWrapped int "(js_string \<times> js_string) list"
  | BeginKeyRotation js_string
  | WrapHandoff js_string WrapHandoffRequest
  | SignKeyRotation js_string SignKeyRotationRequest
  | CommitKeyRotation js_string
  | DiscardKeyRotation
  | ClearLiveKeys

text \<open>What a response carries beside the id.\<close>

datatype (plugins only: code size) WorkerResult =
    GenerateSignupMaterialDone SignupMaterial
  | CompleteLoginDone js_string
  | CompleteRecoveryDone RecoveryMaterial
  | CompleteChangePasswordDone RecoveryMaterial
  | SignGroupCreationDone GroupCreation
  | SignRoleGrantDone "js_string \<times> js_string"
  | SignSuccessorDesignationDone "js_string \<times> js_string"
  | SignSuccessorClaimDone "js_string \<times> js_string"
  | SignPinDone SignedPin
  | SignWrapRecordDone "js_string \<times> js_string"
  | SignVerificationDone SignedVerification
  | GetOwnSigningKeyDone js_string
  | GetOwnFingerprintDone js_string
  | HasLiveKeysDone bool
  | DecryptGroupNamesDone "DecryptedGroupName list"
  | EncryptGroupTextDone "Sealed \<times> Sealed"
  | SealPostDone PublishedPost
  | SealPostEditDone PublishedPost
  | SealCommentDone PublishedComment
  | SealCommentEditDone PublishedComment
  | SealReactionDone "int \<times> Sealed"
  | OpenPostsDone "PostContent opened list"
  | OpenCommentsDone "CommentContent opened list"
  | OpenReactionsDone "nat opened list"
  | SignInviteCreationDone InviteCreation
  | SignInviteAcceptanceDone "js_string \<times> js_string"
  | CompleteInviteDone CompletedInvite
  | SignReadmissionDone SignedAdmission
  | StartGroupRotationDone RotationStarted
  | StartSelfRekeyDone RotationStarted
  | SelfWrapFromHandoffDone WireWrapped
  | StartApprovalRekeyDone RotationStarted
  | SignLeaveRotationStartDone "int \<times> js_string"
  | RewrapGroupKeyDone "(js_string \<times> WireWrapped) list"
  | BeginKeyRotationDone js_string js_string
  | WrapHandoffDone HandoffWrap
  | SignKeyRotationDone SignedKeyRotation
  | CommitKeyRotationDone
  | DiscardKeyRotationDone

datatype WorkerResponse = SignupProgress ProgressStep | Done WorkerResult | Failed string

section \<open>State and guards\<close>

record Worker =
  liveKeys :: "LiveKeys option"
  rotation :: RotationState

definition new_worker :: Worker where
  "new_worker = \<lparr>liveKeys = None, rotation = new_rotation\<rparr>"

record entropy =
  en_now :: int
  en_random :: bytes
  en_nonce :: bytes
  en_nonce2 :: bytes
  en_draw :: "nat \<Rightarrow> draw"
  en_mint :: mint
  en_seed :: bytes
  en_scalar :: bytes
  en_credentials :: credential_draw

text \<open>The guard that ten handlers write out, with the rest of their message.\<close>

definition cached_keys :: "Worker \<Rightarrow> js_string \<Rightarrow> string \<Rightarrow> LiveKeys result" where
  "cached_keys w userId doing =
     (case liveKeys w of
        None \<Rightarrow> Inl (''worker: no live keys cached -- log in again '' @ doing @ '' (this can happen after a page reload)'')
      | Some keys \<Rightarrow>
          if lv_userId keys \<noteq> userId then Inl ''worker: cached keys belong to a different account than requested''
          else Inr keys)"

definition requireLiveKeys :: "Worker \<Rightarrow> js_string \<Rightarrow> string \<Rightarrow> LiveKeys result" where
  "requireLiveKeys w userId doing = cached_keys w userId (''to '' @ doing)"

definition requireLiveKeysFor :: "Worker \<Rightarrow> js_string \<Rightarrow> string \<Rightarrow> LiveKeys result" where
  "requireLiveKeysFor w userId action = cached_keys w userId (''to '' @ action)"

text \<open>No signing of what a roster covers, and no writing, while a rotation is pending.\<close>

definition idle_keys :: "Worker \<Rightarrow> js_string \<Rightarrow> string \<Rightarrow> LiveKeys result" where
  "idle_keys w userId doing = bind (assertIdle doing (rotation w)) (\<lambda>_. requireLiveKeys w userId doing)"

fun atob_all :: "js_string list \<Rightarrow> bytes list result" where
  "atob_all [] = Inr []"
| "atob_all (s # ss) = bind (atob s) (\<lambda>b. bind (atob_all ss) (\<lambda>bs. Inr (b # bs)))"

section \<open>Handlers that only answer\<close>

definition on_signGroupCreation ::
  "prims \<Rightarrow> ciphers \<Rightarrow> entropy \<Rightarrow> Worker \<Rightarrow> js_string \<Rightarrow> js_string \<Rightarrow> js_string \<Rightarrow> WorkerResult result" where
  "on_signGroupCreation P C E w userId groupId groupKey =
     bind (cached_keys w userId ''before creating a group'') (\<lambda>keys.
       bind (atob groupKey) (\<lambda>k.
       bind (signGroupCreation P C (en_now E) (en_random E) (en_draw E 0) keys groupId k) (\<lambda>r. Inr (SignGroupCreationDone r))))"

definition on_decryptGroupNames ::
  "ciphers \<Rightarrow> Worker \<Rightarrow> js_string \<Rightarrow> GroupNameEntry list \<Rightarrow> WorkerResult result" where
  "on_decryptGroupNames C w userId groups =
     bind (cached_keys w userId ''to see private group names'') (\<lambda>keys.
       Inr (DecryptGroupNamesDone (decryptGroupNames C keys groups)))"

definition on_encryptGroupText ::
  "ciphers \<Rightarrow> entropy \<Rightarrow> Worker \<Rightarrow> js_string \<Rightarrow> EncryptGroupText \<Rightarrow> WorkerResult result" where
  "on_encryptGroupText C E w userId req =
     bind (cached_keys w userId ''to edit private group settings'') (\<lambda>keys.
       bind (encryptGroupText C (en_nonce E) (en_nonce2 E) keys req) (\<lambda>r. Inr (EncryptGroupTextDone r)))"

definition on_sealComment ::
  "prims \<Rightarrow> ciphers \<Rightarrow> entropy \<Rightarrow> Worker \<Rightarrow> js_string \<Rightarrow> MemberEntry \<Rightarrow> js_string \<Rightarrow> js_string \<Rightarrow> int
   \<Rightarrow> js_string \<Rightarrow> WorkerResult result" where
  "on_sealComment P C E w userId e postId path commentGeneration txt =
     bind (idle_keys w userId ''write a comment'') (\<lambda>keys.
       bind (sealComment P C (en_now E) (en_nonce E) keys e postId path commentGeneration txt) (\<lambda>r. Inr (SealCommentDone r)))"

definition on_sealCommentEdit ::
  "prims \<Rightarrow> ciphers \<Rightarrow> entropy \<Rightarrow> Worker \<Rightarrow> js_string \<Rightarrow> MemberEntry \<Rightarrow> js_string \<Rightarrow> js_string \<Rightarrow> int
   \<Rightarrow> js_string \<Rightarrow> js_string \<Rightarrow> WorkerResult result" where
  "on_sealCommentEdit P C E w userId e postId path commentGeneration txt at =
     bind (idle_keys w userId ''edit a comment'') (\<lambda>keys.
       bind (sealCommentEdit P C (en_now E) (en_nonce E) keys e postId path commentGeneration txt at) (\<lambda>r. Inr (SealCommentEditDone r)))"

definition on_sealPostEdit ::
  "prims \<Rightarrow> ciphers \<Rightarrow> entropy \<Rightarrow> Worker \<Rightarrow> js_string \<Rightarrow> MemberEntry \<Rightarrow> int \<Rightarrow> js_string \<Rightarrow> js_string
   \<Rightarrow> js_string \<Rightarrow> js_string \<Rightarrow> WorkerResult result" where
  "on_sealPostEdit P C E w userId e postGeneration sortKey title body at =
     bind (idle_keys w userId ''edit a post'') (\<lambda>keys.
       bind (sealPostEdit P C (en_now E) (en_nonce E) keys e postGeneration sortKey title body at) (\<lambda>r. Inr (SealPostEditDone r)))"

definition on_sealPost ::
  "prims \<Rightarrow> ciphers \<Rightarrow> entropy \<Rightarrow> Worker \<Rightarrow> js_string \<Rightarrow> MemberEntry \<Rightarrow> int \<Rightarrow> js_string \<Rightarrow> js_string
   \<Rightarrow> WorkerResult result" where
  "on_sealPost P C E w userId e postGeneration title body =
     bind (idle_keys w userId ''write a post'') (\<lambda>keys.
       bind (sealPost P C (en_now E) (en_random E) (en_nonce E) keys e postGeneration title body) (\<lambda>r. Inr (SealPostDone r)))"

definition on_openPosts ::
  "ciphers \<Rightarrow> Worker \<Rightarrow> js_string \<Rightarrow> MemberEntry \<Rightarrow> StoredPost list \<Rightarrow> WorkerResult result" where
  "on_openPosts C w userId e posts =
     bind (requireLiveKeys w userId ''read posts'') (\<lambda>keys.
       bind (openPosts C keys e posts) (\<lambda>r. Inr (OpenPostsDone r)))"

definition on_sealReaction ::
  "ciphers \<Rightarrow> entropy \<Rightarrow> Worker \<Rightarrow> js_string \<Rightarrow> MemberEntry \<Rightarrow> js_string \<Rightarrow> js_string \<Rightarrow> int \<Rightarrow> nat
   \<Rightarrow> WorkerResult result" where
  "on_sealReaction C E w userId e postId target reactionGeneration index =
     bind (idle_keys w userId ''react'') (\<lambda>keys.
       bind (sealReaction C (en_nonce E) keys e postId target reactionGeneration index) (\<lambda>r. Inr (SealReactionDone r)))"

definition on_openReactions ::
  "ciphers \<Rightarrow> Worker \<Rightarrow> js_string \<Rightarrow> MemberEntry \<Rightarrow> js_string \<Rightarrow> StoredReaction list
   \<Rightarrow> WorkerResult result" where
  "on_openReactions C w userId e postId reactions =
     bind (requireLiveKeys w userId ''read reactions'') (\<lambda>keys.
       bind (openReactions C keys e postId reactions) (\<lambda>r. Inr (OpenReactionsDone r)))"

definition on_openComments ::
  "ciphers \<Rightarrow> Worker \<Rightarrow> js_string \<Rightarrow> MemberEntry \<Rightarrow> js_string \<Rightarrow> StoredComment list
   \<Rightarrow> WorkerResult result" where
  "on_openComments C w userId e postId comments =
     bind (requireLiveKeys w userId ''read comments'') (\<lambda>keys.
       bind (openComments C keys e postId comments) (\<lambda>r. Inr (OpenCommentsDone r)))"

definition on_signRoleGrant ::
  "prims \<Rightarrow> entropy \<Rightarrow> Worker \<Rightarrow> js_string \<Rightarrow> js_string \<Rightarrow> js_string \<Rightarrow> js_string \<Rightarrow> js_string
   \<Rightarrow> WorkerResult result" where
  "on_signRoleGrant P E w userId groupId subjectUserId role grantorGrantRef =
     bind (cached_keys w userId ''before changing a role'') (\<lambda>keys.
       Inr (SignRoleGrantDone (signRoleGrant P (en_now E) (en_random E) keys groupId subjectUserId role grantorGrantRef)))"

definition on_signSuccessorDesignation ::
  "prims \<Rightarrow> entropy \<Rightarrow> Worker \<Rightarrow> js_string \<Rightarrow> js_string \<Rightarrow> js_string \<Rightarrow> int \<Rightarrow> js_string
   \<Rightarrow> WorkerResult result" where
  "on_signSuccessorDesignation P E w userId groupId successorUserId periodDays adminGrantRef =
     bind (requireLiveKeys w userId ''designate a successor'') (\<lambda>keys.
       bind (signSuccessorDesignation P (en_now E) (en_random E) keys groupId successorUserId periodDays adminGrantRef) (\<lambda>r. Inr (SignSuccessorDesignationDone r)))"

definition on_signSuccessorClaim ::
  "prims \<Rightarrow> entropy \<Rightarrow> Worker \<Rightarrow> js_string \<Rightarrow> js_string \<Rightarrow> js_string \<Rightarrow> WorkerResult result" where
  "on_signSuccessorClaim P E w userId groupId designationSortKey =
     bind (requireLiveKeys w userId ''claim the admin role'') (\<lambda>keys.
       Inr (SignSuccessorClaimDone (signSuccessorClaim P (en_now E) (en_random E) keys groupId designationSortKey)))"

definition on_signVerification ::
  "prims \<Rightarrow> entropy \<Rightarrow> Worker \<Rightarrow> js_string \<Rightarrow> js_string \<Rightarrow> js_string \<Rightarrow> WorkerResult result" where
  "on_signVerification P E w userId verifiedUserId fpr =
     bind (idle_keys w userId ''verify a fingerprint'') (\<lambda>keys.
       Inr (SignVerificationDone (signVerification P keys verifiedUserId fpr (en_now E))))"

definition on_signPin ::
  "prims \<Rightarrow> entropy \<Rightarrow> Worker \<Rightarrow> js_string \<Rightarrow> js_string \<Rightarrow> js_string list \<Rightarrow> js_string \<Rightarrow> int
   \<Rightarrow> WorkerResult result" where
  "on_signPin P E w userId pinnedUserId signingPublicKeys wrappingPublicKey keyEpoch =
     bind (idle_keys w userId ''pin a key'') (\<lambda>keys.
       bind (atob_all signingPublicKeys) (\<lambda>signing. bind (atob wrappingPublicKey) (\<lambda>wrapping.
       Inr (SignPinDone (signPin P keys pinnedUserId signing wrapping keyEpoch (en_now E))))))"

definition on_signWrapRecord ::
  "prims \<Rightarrow> entropy \<Rightarrow> Worker \<Rightarrow> js_string \<Rightarrow> js_string \<Rightarrow> js_string \<Rightarrow> int \<Rightarrow> int \<Rightarrow> RekeyReason
   \<Rightarrow> WorkerResult result" where
  "on_signWrapRecord P E w userId groupId memberUserId generation keyEpoch reason =
     bind (idle_keys w userId ''sign a wrap'') (\<lambda>keys.
       bind (signWrapRecord P (en_now E) keys groupId memberUserId generation keyEpoch reason) (\<lambda>r. Inr (SignWrapRecordDone r)))"

definition on_signReadmission ::
  "prims \<Rightarrow> Worker \<Rightarrow> js_string \<Rightarrow> js_string \<Rightarrow> js_string \<Rightarrow> js_string \<Rightarrow> js_string \<Rightarrow> js_string
   \<Rightarrow> js_string \<Rightarrow> js_string \<Rightarrow> int \<Rightarrow> WorkerResult result" where
  "on_signReadmission P w userId groupId subjectUserId ed x inviteId ref day generation =
     bind (requireLiveKeys w userId ''re-admit a member'') (\<lambda>keys.
       bind (atob ed) (\<lambda>signing. bind (atob x) (\<lambda>wrapping.
       Inr (SignReadmissionDone (signReadmission P keys groupId subjectUserId signing wrapping inviteId ref day generation)))))"

definition on_getOwnSigningKey ::
  "Worker \<Rightarrow> js_string \<Rightarrow> WorkerResult result" where
  "on_getOwnSigningKey w userId =
     bind (requireLiveKeys w userId ''check keys'') (\<lambda>keys.
       Inr (GetOwnSigningKeyDone (bytesToBase64 (sk_publicKey (lv_signingKey keys)))))"

definition on_getOwnFingerprint ::
  "prims \<Rightarrow> Worker \<Rightarrow> js_string \<Rightarrow> WorkerResult result" where
  "on_getOwnFingerprint P w userId =
     bind (requireLiveKeys w userId ''show your fingerprint'') (\<lambda>keys.
       bind (ownFingerprint P keys) (\<lambda>r. Inr (GetOwnFingerprintDone r)))"

definition on_signInviteCreation ::
  "prims \<Rightarrow> ciphers \<Rightarrow> Worker \<Rightarrow> js_string \<Rightarrow> js_string \<Rightarrow> js_string \<Rightarrow> js_string \<Rightarrow> WorkerResult result" where
  "on_signInviteCreation P C w userId inviteId groupId expiresAt =
     bind (cached_keys w userId ''before creating an invite'') (\<lambda>keys.
       bind (signInviteCreation P C keys inviteId groupId expiresAt) (\<lambda>r. Inr (SignInviteCreationDone r)))"

definition on_signInviteAcceptance ::
  "prims \<Rightarrow> ciphers \<Rightarrow> Worker \<Rightarrow> js_string \<Rightarrow> js_string \<Rightarrow> js_string \<Rightarrow> WorkerResult result" where
  "on_signInviteAcceptance P C w userId inviteId inviteMACKey =
     bind (cached_keys w userId ''before accepting an invite'') (\<lambda>keys.
       bind (throwing ''InvalidCharacterError'' (base64UrlToBytes inviteMACKey)) (\<lambda>macKey.
       Inr (SignInviteAcceptanceDone (signInviteAcceptance P C keys inviteId macKey))))"

definition on_completeInvite ::
  "prims \<Rightarrow> ciphers \<Rightarrow> entropy \<Rightarrow> Worker \<Rightarrow> js_string \<Rightarrow> js_string \<Rightarrow> js_string \<Rightarrow> WireWrapped \<Rightarrow> int
   \<Rightarrow> js_string \<Rightarrow> js_string \<Rightarrow> js_string \<Rightarrow> js_string \<Rightarrow> js_string \<Rightarrow> js_string \<Rightarrow> WorkerResult result" where
  "on_completeInvite P C E w userId inviteId groupId own ownGeneration invitedUserId ed x mac ref day =
     bind (cached_keys w userId ''to complete pending invites'') (\<lambda>keys.
       bind (wrappedFromWire own) (\<lambda>ownKey. bind (atob ed) (\<lambda>signing. bind (atob x) (\<lambda>wrapping. bind (atob mac) (\<lambda>inviteMAC.
       bind (completeInvite P C (en_draw E 0) keys inviteId groupId ownKey ownGeneration invitedUserId signing wrapping inviteMAC ref day) (\<lambda>r. Inr (CompleteInviteDone r)))))))"

definition on_startGroupRotation ::
  "prims \<Rightarrow> ciphers \<Rightarrow> entropy \<Rightarrow> Worker \<Rightarrow> js_string \<Rightarrow> js_string \<Rightarrow> WireWrapped \<Rightarrow> int \<Rightarrow> js_string
   \<Rightarrow> WorkerResult result" where
  "on_startGroupRotation P C E w userId groupId own ownGeneration subjectUserId =
     bind (requireLiveKeysFor w userId ''remove a member'') (\<lambda>keys.
       bind (wrappedFromWire own) (\<lambda>ownKey.
       bind (startGroupRotation P C (en_mint E) keys groupId ownKey ownGeneration subjectUserId) (\<lambda>r. Inr (StartGroupRotationDone r))))"

definition on_startSelfRekey ::
  "prims \<Rightarrow> ciphers \<Rightarrow> entropy \<Rightarrow> Worker \<Rightarrow> js_string \<Rightarrow> js_string \<Rightarrow> int \<Rightarrow> WireWrapped
   \<Rightarrow> WorkerResult result" where
  "on_startSelfRekey P C E w userId groupId generation handoff =
     bind (requireLiveKeysFor w userId ''re-key a group'') (\<lambda>keys.
       bind (wrappedFromWire handoff) (\<lambda>handoffKey.
       bind (startSelfRekey P C (en_mint E) keys groupId generation handoffKey) (\<lambda>r. Inr (StartSelfRekeyDone r))))"

definition on_selfWrapFromHandoff ::
  "ciphers \<Rightarrow> entropy \<Rightarrow> Worker \<Rightarrow> js_string \<Rightarrow> js_string \<Rightarrow> int \<Rightarrow> WireWrapped \<Rightarrow> WorkerResult result" where
  "on_selfWrapFromHandoff C E w userId groupId generation handoff =
     bind (requireLiveKeysFor w userId ''wrap a group key'') (\<lambda>keys.
       bind (wrappedFromWire handoff) (\<lambda>handoffKey.
       bind (selfWrapFromHandoff C (en_draw E 0) keys groupId generation handoffKey) (\<lambda>r. Inr (SelfWrapFromHandoffDone r))))"

definition on_startApprovalRekey ::
  "prims \<Rightarrow> ciphers \<Rightarrow> entropy \<Rightarrow> Worker \<Rightarrow> js_string \<Rightarrow> js_string \<Rightarrow> WireWrapped \<Rightarrow> int \<Rightarrow> js_string
   \<Rightarrow> js_string \<Rightarrow> WorkerResult result" where
  "on_startApprovalRekey P C E w userId groupId own ownGeneration memberUserId memberKey =
     bind (requireLiveKeysFor w userId ''approve a key change'') (\<lambda>keys.
       bind (wrappedFromWire own) (\<lambda>ownKey. bind (atob memberKey) (\<lambda>memberPub.
       bind (startApprovalRekey P C (en_mint E) keys groupId ownKey ownGeneration memberUserId memberPub) (\<lambda>r. Inr (StartApprovalRekeyDone r)))))"

definition on_signLeaveRotationStart ::
  "prims \<Rightarrow> Worker \<Rightarrow> js_string \<Rightarrow> js_string \<Rightarrow> int \<Rightarrow> WorkerResult result" where
  "on_signLeaveRotationStart P w userId groupId ownGeneration =
     bind (requireLiveKeysFor w userId ''sign your leaving'') (\<lambda>keys.
       bind (signLeaveRotationStart P keys groupId ownGeneration) (\<lambda>r. Inr (SignLeaveRotationStartDone r)))"

definition on_rewrapGroupKey ::
  "ciphers \<Rightarrow> entropy \<Rightarrow> Worker \<Rightarrow> js_string \<Rightarrow> js_string \<Rightarrow> WireWrapped \<Rightarrow> int
   \<Rightarrow> (js_string \<times> js_string) list \<Rightarrow> WorkerResult result" where
  "on_rewrapGroupKey C E w userId groupId own ownGeneration recipients =
     bind (requireLiveKeysFor w userId ''re-wrap members'') (\<lambda>keys.
       bind (wrappedFromWire own) (\<lambda>ownKey. bind (atob_all (map snd recipients)) (\<lambda>pubs.
       bind (rewrapGroupKey C keys groupId ownKey ownGeneration (zip (zip (map fst recipients) pubs) (map (en_draw E) [0..<length recipients]))) (\<lambda>r. Inr (RewrapGroupKeyDone r)))))"

section \<open>Handlers that change the state or take long\<close>

definition on_hasLiveKeys :: "Worker \<Rightarrow> js_string \<Rightarrow> WorkerResult" where
  "on_hasLiveKeys w userId = HasLiveKeysDone (liveKeysWarmFor (liveKeys w) userId)"

definition on_clearLiveKeys :: "Worker \<Rightarrow> Worker" where
  "on_clearLiveKeys w = w\<lparr>liveKeys := None, rotation := rotation_clear (rotation w)\<rparr>"

definition on_beginKeyRotation ::
  "prims \<Rightarrow> ciphers \<Rightarrow> entropy \<Rightarrow> Worker \<Rightarrow> js_string \<Rightarrow> (Worker \<times> WorkerResult) result" where
  "on_beginKeyRotation P C E w userId =
     bind (requireLiveKeys w userId ''rotate your keys'') (\<lambda>keys.
     bind (beginKeyRotation P C (en_seed E) (en_scalar E) keys) (\<lambda>(p, newSigningPublicKey, newWrappingPublicKey).
       Inr (w\<lparr>rotation := rotation_begin p (rotation w)\<rparr>,
            BeginKeyRotationDone newSigningPublicKey newWrappingPublicKey)))"

definition on_wrapHandoff ::
  "ciphers \<Rightarrow> entropy \<Rightarrow> Worker \<Rightarrow> js_string \<Rightarrow> WrapHandoffRequest \<Rightarrow> WorkerResult result" where
  "on_wrapHandoff C E w userId req =
     bind (requireLiveKeys w userId ''rotate your keys'') (\<lambda>keys.
     bind (rotation_require userId (rotation w)) (\<lambda>p.
     bind (wrapHandoff C (en_draw E 0) keys p req) (\<lambda>r. Inr (WrapHandoffDone r))))"

definition on_signKeyRotation ::
  "(js_string \<Rightarrow> js_string) \<Rightarrow> prims \<Rightarrow> ciphers \<Rightarrow> entropy \<Rightarrow> Worker \<Rightarrow> js_string \<Rightarrow> SignKeyRotationRequest
   \<Rightarrow> WorkerResult reported" where
  "on_signKeyRotation U P C E w userId req =
     then_do (quiet (requireLiveKeys w userId ''rotate your keys'')) (\<lambda>keys.
     then_do (quiet (rotation_require userId (rotation w))) (\<lambda>p.
     then_do (signKeyRotation U P C (en_now E) (en_credentials E) keys p req) (\<lambda>r.
       quiet (Inr (SignKeyRotationDone r)))))"

definition on_commitKeyRotation :: "Worker \<Rightarrow> js_string \<Rightarrow> (Worker \<times> WorkerResult) result" where
  "on_commitKeyRotation w userId =
     bind (rotation_commit userId (rotation w)) (\<lambda>(keys, s).
       Inr (w\<lparr>liveKeys := Some keys, rotation := s\<rparr>, CommitKeyRotationDone))"

definition on_discardKeyRotation :: "Worker \<Rightarrow> Worker \<times> WorkerResult" where
  "on_discardKeyRotation w = (w\<lparr>rotation := rotation_clear (rotation w)\<rparr>, DiscardKeyRotationDone)"

definition on_generateSignupMaterial ::
  "(js_string \<Rightarrow> js_string) \<Rightarrow> prims \<Rightarrow> ciphers \<Rightarrow> entropy \<Rightarrow> js_string \<Rightarrow> js_string \<Rightarrow> WorkerResult reported" where
  "on_generateSignupMaterial U P C E userId password =
     then_do (generateSignupMaterial U P C (en_seed E) (en_scalar E) (en_credentials E) userId password)
       (\<lambda>r. quiet (Inr (GenerateSignupMaterialDone r)))"

definition on_completeRecovery ::
  "(js_string \<Rightarrow> js_string) \<Rightarrow> ciphers \<Rightarrow> entropy \<Rightarrow> CompleteRecovery \<Rightarrow> WorkerResult reported" where
  "on_completeRecovery U C E req =
     then_do (completeRecovery U C (en_credentials E) req) (\<lambda>r. quiet (Inr (CompleteRecoveryDone r)))"

definition on_completeChangePassword ::
  "(js_string \<Rightarrow> js_string) \<Rightarrow> ciphers \<Rightarrow> entropy \<Rightarrow> CompleteChangePassword \<Rightarrow> WorkerResult reported" where
  "on_completeChangePassword U C E req =
     then_do (completeChangePassword U C (en_credentials E) req) (\<lambda>r. quiet (Inr (CompleteChangePasswordDone r)))"

text \<open>A login also returns the keys to cache when it is posted.\<close>

definition on_completeLogin :: "prims \<Rightarrow> ciphers \<Rightarrow> CompleteLogin \<Rightarrow> (WorkerResult \<times> LiveKeys option) result" where
  "on_completeLogin P C req =
     bind (completeLogin P C req) (\<lambda>(signature, keys). Inr (CompleteLoginDone signature, Some keys))"

section \<open>The message handler\<close>

text \<open>
  The state after the synchronous part, and what is to be posted: the progress reports, the
  answer and, for a login, the keys.  \<open>clearLiveKeys\<close> posts nothing.
\<close>

type_synonym outcome = "ProgressStep list \<times> (WorkerResult \<times> LiveKeys option) result"

definition no_keys :: "WorkerResult result \<Rightarrow> (WorkerResult \<times> LiveKeys option) result" where
  "no_keys r = bind r (\<lambda>x. Inr (x, None))"

definition answer :: "Worker \<Rightarrow> WorkerResult result \<Rightarrow> Worker \<times> outcome option" where
  "answer w r = (w, Some ([], no_keys r))"

definition answer_reported :: "Worker \<Rightarrow> WorkerResult reported \<Rightarrow> Worker \<times> outcome option" where
  "answer_reported w r = (w, Some (fst r, no_keys (snd r)))"

definition answer_changed :: "Worker \<Rightarrow> (Worker \<times> WorkerResult) result \<Rightarrow> Worker \<times> outcome option" where
  "answer_changed w r = (case r of
     Inl e \<Rightarrow> (w, Some ([], Inl e))
   | Inr (w', x) \<Rightarrow> (w', Some ([], Inr (x, None))))"

primrec handle ::
  "(js_string \<Rightarrow> js_string) \<Rightarrow> prims \<Rightarrow> ciphers \<Rightarrow> entropy \<Rightarrow> Worker \<Rightarrow> WorkerRequest \<Rightarrow> Worker \<times> outcome option" where
  "handle U P C E w (GenerateSignupMaterial u password) = answer_reported w (on_generateSignupMaterial U P C E u password)"
| "handle U P C E w (CompleteLoginRequest req) = (w, Some ([], on_completeLogin P C req))"
| "handle U P C E w (CompleteRecoveryRequest req) = answer_reported w (on_completeRecovery U C E req)"
| "handle U P C E w (CompleteChangePasswordRequest req) = answer_reported w (on_completeChangePassword U C E req)"
| "handle U P C E w (SignGroupCreation u g k) = answer w (on_signGroupCreation P C E w u g k)"
| "handle U P C E w (SignRoleGrant u g s role ref) = answer w (on_signRoleGrant P E w u g s role ref)"
| "handle U P C E w (SignSuccessorDesignation u g s days ref) = answer w (on_signSuccessorDesignation P E w u g s days ref)"
| "handle U P C E w (SignSuccessorClaim u g k) = answer w (on_signSuccessorClaim P E w u g k)"
| "handle U P C E w (SignPin u p ks x n) = answer w (on_signPin P E w u p ks x n)"
| "handle U P C E w (SignWrapRecord u g m n ep reason) = answer w (on_signWrapRecord P E w u g m n ep reason)"
| "handle U P C E w (SignVerification u v f) = answer w (on_signVerification P E w u v f)"
| "handle U P C E w (GetOwnSigningKey u) = answer w (on_getOwnSigningKey w u)"
| "handle U P C E w (GetOwnFingerprint u) = answer w (on_getOwnFingerprint P w u)"
| "handle U P C E w (HasLiveKeys u) = answer w (Inr (on_hasLiveKeys w u))"
| "handle U P C E w (DecryptGroupNames u gs) = answer w (on_decryptGroupNames C w u gs)"
| "handle U P C E w (EncryptGroupTextRequest u req) = answer w (on_encryptGroupText C E w u req)"
| "handle U P C E w (SealPost u e n title body) = answer w (on_sealPost P C E w u e n title body)"
| "handle U P C E w (SealPostEdit u e n k title body at) = answer w (on_sealPostEdit P C E w u e n k title body at)"
| "handle U P C E w (SealComment u e pid path n txt) = answer w (on_sealComment P C E w u e pid path n txt)"
| "handle U P C E w (SealCommentEdit u e pid path n txt at) = answer w (on_sealCommentEdit P C E w u e pid path n txt at)"
| "handle U P C E w (SealReaction u e pid target n i) = answer w (on_sealReaction C E w u e pid target n i)"
| "handle U P C E w (OpenPosts u e ps) = answer w (on_openPosts C w u e ps)"
| "handle U P C E w (OpenComments u e pid cs) = answer w (on_openComments C w u e pid cs)"
| "handle U P C E w (OpenReactions u e pid rs) = answer w (on_openReactions C w u e pid rs)"
| "handle U P C E w (SignInviteCreation u i g expires) = answer w (on_signInviteCreation P C w u i g expires)"
| "handle U P C E w (SignInviteAcceptance u i k) = answer w (on_signInviteAcceptance P C w u i k)"
| "handle U P C E w (CompleteInvite u i g own n iu ed x mac ref day) = answer w (on_completeInvite P C E w u i g own n iu ed x mac ref day)"
| "handle U P C E w (SignReadmission u g s ed x i ref day n) = answer w (on_signReadmission P w u g s ed x i ref day n)"
| "handle U P C E w (StartGroupRotation u g own n s) = answer w (on_startGroupRotation P C E w u g own n s)"
| "handle U P C E w (StartSelfRekey u g n h) = answer w (on_startSelfRekey P C E w u g n h)"
| "handle U P C E w (SelfWrapFromHandoff u g n h) = answer w (on_selfWrapFromHandoff C E w u g n h)"
| "handle U P C E w (StartApprovalRekey u g own n m k) = answer w (on_startApprovalRekey P C E w u g own n m k)"
| "handle U P C E w (SignLeaveRotationStart u g n) = answer w (on_signLeaveRotationStart P w u g n)"
| "handle U P C E w (RewrapGroupKey u g own n rs) = answer w (on_rewrapGroupKey C E w u g own n rs)"
| "handle U P C E w (BeginKeyRotation u) = answer_changed w (on_beginKeyRotation P C E w u)"
| "handle U P C E w (WrapHandoff u req) = answer w (on_wrapHandoff C E w u req)"
| "handle U P C E w (SignKeyRotation u req) = answer_reported w (on_signKeyRotation U P C E w u req)"
| "handle U P C E w (CommitKeyRotation u) = answer_changed w (on_commitKeyRotation w u)"
| "handle U P C E w DiscardKeyRotation = answer_changed w (Inr (on_discardKeyRotation w))"
| "handle U P C E w ClearLiveKeys = (on_clearLiveKeys w, None)"

text \<open>The handlers that are not \<open>async\<close>.\<close>

definition synchronous :: "WorkerRequest \<Rightarrow> bool" where
  "synchronous req = (case req of
     SignRoleGrant _ _ _ _ _ \<Rightarrow> True | SignSuccessorDesignation _ _ _ _ _ \<Rightarrow> True | SignSuccessorClaim _ _ _ \<Rightarrow> True
   | SignPin _ _ _ _ _ \<Rightarrow> True | SignWrapRecord _ _ _ _ _ _ \<Rightarrow> True | SignVerification _ _ _ \<Rightarrow> True
   | GetOwnSigningKey _ \<Rightarrow> True | GetOwnFingerprint _ \<Rightarrow> True | HasLiveKeys _ \<Rightarrow> True
   | SignReadmission _ _ _ _ _ _ _ _ _ \<Rightarrow> True | SignLeaveRotationStart _ _ _ \<Rightarrow> True
   | BeginKeyRotation _ \<Rightarrow> True | CommitKeyRotation _ \<Rightarrow> True | DiscardKeyRotation \<Rightarrow> True | ClearLiveKeys \<Rightarrow> True
   | _ \<Rightarrow> False)"

section \<open>The worker among its messages\<close>

text \<open>
  The message loop: requests arrive at any time; a request that is being worked on posts its
  progress and then its answer at any later time, in any order among the others.
\<close>

record job =
  jb_id :: js_string
  jb_request :: WorkerRequest
  jb_steps :: "ProgressStep list"
  jb_result :: "(WorkerResult \<times> LiveKeys option) result"

record machine =
  m_worker :: Worker
  m_jobs :: "job list"

datatype event = Received js_string WorkerRequest | Posted js_string WorkerRequest WorkerResponse

primrec response :: "(WorkerResult \<times> LiveKeys option) result \<Rightarrow> WorkerResponse" where
  "response (Inl e) = Failed e"
| "response (Inr r) = Done (fst r)"

definition new_machine :: machine where
  "new_machine = \<lparr>m_worker = new_worker, m_jobs = []\<rparr>"

text \<open>\<open>liveKeys = keys\<close>, when there are keys to cache.\<close>

definition cache_keys :: "(WorkerResult \<times> LiveKeys option) result \<Rightarrow> Worker \<Rightarrow> Worker" where
  "cache_keys r w = (case r of Inr (_, Some keys) \<Rightarrow> w\<lparr>liveKeys := Some keys\<rparr> | _ \<Rightarrow> w)"

inductive machine_step ::
  "(js_string \<Rightarrow> js_string) \<Rightarrow> prims \<Rightarrow> ciphers \<Rightarrow> machine \<Rightarrow> event list \<Rightarrow> machine \<Rightarrow> bool"
  for U P C where
  cleared: "handle U P C E (m_worker m) req = (w', None) \<Longrightarrow>
    machine_step U P C m [Received i req] (m\<lparr>m_worker := w'\<rparr>)"
| answered: "handle U P C E (m_worker m) req = (w', Some (ps, r)) \<Longrightarrow> synchronous req \<Longrightarrow>
    machine_step U P C m [Received i req, Posted i req (response r)] (m\<lparr>m_worker := w'\<rparr>)"
| started: "handle U P C E (m_worker m) req = (w', Some (ps, r)) \<Longrightarrow> \<not> synchronous req \<Longrightarrow>
    machine_step U P C m [Received i req]
      \<lparr>m_worker = w', m_jobs = \<lparr>jb_id = i, jb_request = req, jb_steps = ps, jb_result = r\<rparr> # m_jobs m\<rparr>"
| progressed: "m_jobs m = js1 @ j # js2 \<Longrightarrow> jb_steps j = p # ps \<Longrightarrow>
    machine_step U P C m [Posted (jb_id j) (jb_request j) (SignupProgress p)]
      (m\<lparr>m_jobs := js1 @ j\<lparr>jb_steps := ps\<rparr> # js2\<rparr>)"
| finished: "m_jobs m = js1 @ j # js2 \<Longrightarrow> jb_steps j = [] \<Longrightarrow>
    machine_step U P C m [Posted (jb_id j) (jb_request j) (response (jb_result j))]
      \<lparr>m_worker = cache_keys (jb_result j) (m_worker m), m_jobs = js1 @ js2\<rparr>"

inductive run ::
  "(js_string \<Rightarrow> js_string) \<Rightarrow> prims \<Rightarrow> ciphers \<Rightarrow> machine \<Rightarrow> event list \<Rightarrow> machine \<Rightarrow> bool"
  for U P C where
  start: "run U P C m [] m"
| more: "run U P C m es m' \<Longrightarrow> machine_step U P C m' es' m'' \<Longrightarrow> run U P C m (es @ es') m''"

inductive_cases machine_stepE: "machine_step U P C m es m'"

end
