(* ===== verification/Worker_Client.thy ===== *)
theory Worker_Client
  imports Worker
begin

text \<open>
  worker-client.ts: the main thread's side of the crypto worker.  Every exported function posts one
  request under a fresh id and waits for the answer with that id; the functions are \<open>call_<function>\<close>,
  the promise they return is a \<open>call\<close>, and \<open>on_message\<close> is its listener.  \<open>client_step\<close> is
  the page with its calls, the two message queues and the worker.
\<close>

section \<open>Kinds and errors\<close>

text \<open>The \<open>kind\<close> of the responses of worker-protocol.ts.\<close>

primrec done_kind :: "WorkerResult \<Rightarrow> string" where
  "done_kind (GenerateSignupMaterialDone a) = ''generateSignupMaterialDone''"
| "done_kind (CompleteLoginDone a) = ''completeLoginDone''"
| "done_kind (CompleteRecoveryDone a) = ''completeRecoveryDone''"
| "done_kind (CompleteChangePasswordDone a) = ''completeChangePasswordDone''"
| "done_kind (SignGroupCreationDone a) = ''signGroupCreationDone''"
| "done_kind (SignRoleGrantDone a) = ''signRoleGrantDone''"
| "done_kind (SignSuccessorDesignationDone a) = ''signSuccessorDesignationDone''"
| "done_kind (SignSuccessorClaimDone a) = ''signSuccessorClaimDone''"
| "done_kind (SignPinDone a) = ''signPinDone''"
| "done_kind (SignWrapRecordDone a) = ''signWrapRecordDone''"
| "done_kind (SignVerificationDone a) = ''signVerificationDone''"
| "done_kind (GetOwnSigningKeyDone a) = ''getOwnSigningKeyDone''"
| "done_kind (GetOwnFingerprintDone a) = ''getOwnFingerprintDone''"
| "done_kind (HasLiveKeysDone a) = ''hasLiveKeysDone''"
| "done_kind (DecryptGroupNamesDone a) = ''decryptGroupNamesDone''"
| "done_kind (EncryptGroupTextDone a) = ''encryptGroupTextDone''"
| "done_kind (SealPostDone a) = ''sealPostDone''"
| "done_kind (SealPostEditDone a) = ''sealPostEditDone''"
| "done_kind (SealCommentDone a) = ''sealCommentDone''"
| "done_kind (SealCommentEditDone a) = ''sealCommentEditDone''"
| "done_kind (SealReactionDone a) = ''sealReactionDone''"
| "done_kind (OpenPostsDone a) = ''openPostsDone''"
| "done_kind (OpenCommentsDone a) = ''openCommentsDone''"
| "done_kind (OpenReactionsDone a) = ''openReactionsDone''"
| "done_kind (SignInviteCreationDone a) = ''signInviteCreationDone''"
| "done_kind (SignInviteAcceptanceDone a) = ''signInviteAcceptanceDone''"
| "done_kind (CompleteInviteDone a) = ''completeInviteDone''"
| "done_kind (SignReadmissionDone a) = ''signReadmissionDone''"
| "done_kind (StartGroupRotationDone a) = ''startGroupRotationDone''"
| "done_kind (StartSelfRekeyDone a) = ''startSelfRekeyDone''"
| "done_kind (SelfWrapFromHandoffDone a) = ''selfWrapFromHandoffDone''"
| "done_kind (StartApprovalRekeyDone a) = ''startApprovalRekeyDone''"
| "done_kind (SignLeaveRotationStartDone a) = ''signLeaveRotationStartDone''"
| "done_kind (RewrapGroupKeyDone a) = ''rewrapGroupKeyDone''"
| "done_kind (BeginKeyRotationDone a b) = ''beginKeyRotationDone''"
| "done_kind (WrapHandoffDone a) = ''wrapHandoffDone''"
| "done_kind (SignKeyRotationDone a) = ''signKeyRotationDone''"
| "done_kind CommitKeyRotationDone = ''commitKeyRotationDone''"
| "done_kind DiscardKeyRotationDone = ''discardKeyRotationDone''"

text \<open>
  The name an error is posted with (\<open>errorName\<close>): the two errors that have a class of their own on this side
  have a message of their own.
\<close>

definition errorName :: "string \<Rightarrow> string" where
  "errorName message =
     (if message = DecryptionFailed then ''DecryptionFailedError''
      else if message = InviteMACError then ''InviteMACError'' else ''Error'')"

datatype client_error = DecryptionFailedError | InviteMACFailure | OtherError string

definition reconstructWorkerError :: "string \<Rightarrow> client_error" where
  "reconstructWorkerError message =
     (if errorName message = ''DecryptionFailedError'' then DecryptionFailedError
      else if errorName message = ''InviteMACError'' then InviteMACFailure else OtherError message)"

section \<open>A call and its listener\<close>

record call =
  ca_id :: js_string
  ca_request :: WorkerRequest
  ca_doneKind :: string
  ca_name :: string
  ca_listens :: bool  \<comment> \<open>whether it takes progress reports\<close>

datatype settlement = Resolved WorkerResult | Rejected client_error

datatype reaction = Ignored | Reported ProgressStep | Settled settlement

definition unexpected :: "string \<Rightarrow> call \<Rightarrow> reaction" where
  "unexpected kind c =
     Settled (Rejected (OtherError (''worker: unexpected response kind '' @ kind @ '' for '' @ ca_name c)))"

definition on_message :: "call \<Rightarrow> js_string \<Rightarrow> WorkerResponse \<Rightarrow> reaction" where
  "on_message c i msg =
     (if i \<noteq> ca_id c then Ignored
      else case msg of
        SignupProgress p \<Rightarrow> if ca_listens c then Reported p else unexpected ''signupProgress'' c
      | Failed message \<Rightarrow> Settled (Rejected (reconstructWorkerError message))
      | Done r \<Rightarrow> if done_kind r = ca_doneKind c then Settled (Resolved r) else unexpected (done_kind r) c)"

section \<open>The exported functions\<close>

text \<open>
  The round trip that most functions write out, and the two helpers the others share, which name the
  response or the request in their error.
\<close>

definition round_trip :: "string \<Rightarrow> string \<Rightarrow> bool \<Rightarrow> js_string \<Rightarrow> WorkerRequest \<Rightarrow> call" where
  "round_trip name doneKind listens i req =
     \<lparr>ca_id = i, ca_request = req, ca_doneKind = doneKind, ca_name = name, ca_listens = listens\<rparr>"

definition workerCall :: "string \<Rightarrow> js_string \<Rightarrow> WorkerRequest \<Rightarrow> call" where
  "workerCall doneKind i req = round_trip doneKind doneKind False i req"

definition rotationCall :: "string \<Rightarrow> string \<Rightarrow> js_string \<Rightarrow> WorkerRequest \<Rightarrow> call" where
  "rotationCall kind doneKind i req = round_trip kind doneKind True i req"

definition call_generateSignupMaterial where
  "call_generateSignupMaterial rid u password =
     round_trip ''generateSignupMaterial'' ''generateSignupMaterialDone'' True rid (GenerateSignupMaterial u password)"

definition call_completeLogin where
  "call_completeLogin rid req =
     round_trip ''completeLogin'' ''completeLoginDone'' False rid (CompleteLoginRequest req)"

definition call_completeRecovery where
  "call_completeRecovery rid req =
     round_trip ''completeRecovery'' ''completeRecoveryDone'' True rid (CompleteRecoveryRequest req)"

definition call_completeChangePassword where
  "call_completeChangePassword rid req =
     round_trip ''completeChangePassword'' ''completeChangePasswordDone'' True rid (CompleteChangePasswordRequest req)"

definition call_signGroupCreation where
  "call_signGroupCreation rid u g k =
     round_trip ''signGroupCreation'' ''signGroupCreationDone'' False rid (SignGroupCreation u g k)"

definition call_signRoleGrant where
  "call_signRoleGrant rid u g s role ref =
     round_trip ''signRoleGrant'' ''signRoleGrantDone'' False rid (SignRoleGrant u g s role ref)"

definition call_signSuccessorDesignation where
  "call_signSuccessorDesignation rid u g s days ref =
     round_trip ''signSuccessorDesignation'' ''signSuccessorDesignationDone'' False rid (SignSuccessorDesignation u g s days ref)"

definition call_signSuccessorClaim where
  "call_signSuccessorClaim rid u g k =
     round_trip ''signSuccessorClaim'' ''signSuccessorClaimDone'' False rid (SignSuccessorClaim u g k)"

definition call_signVerification where
  "call_signVerification rid u v f =
     round_trip ''signVerification'' ''signVerificationDone'' False rid (SignVerification u v f)"

definition call_signPin where
  "call_signPin rid u p ks x n =
     round_trip ''signPin'' ''signPinDone'' False rid (SignPin u p ks x n)"

definition call_signWrapRecord where
  "call_signWrapRecord rid u g m n ep reason =
     round_trip ''signWrapRecord'' ''signWrapRecordDone'' False rid (SignWrapRecord u g m n ep reason)"

definition call_signReadmission where
  "call_signReadmission rid u g s ed x i ref day n =
     round_trip ''signReadmission'' ''signReadmissionDone'' False rid (SignReadmission u g s ed x i ref day n)"

definition call_getOwnSigningKey where
  "call_getOwnSigningKey rid u =
     round_trip ''getOwnSigningKey'' ''getOwnSigningKeyDone'' False rid (GetOwnSigningKey u)"

definition call_signInviteCreation where
  "call_signInviteCreation rid u i g expires =
     round_trip ''signInviteCreation'' ''signInviteCreationDone'' False rid (SignInviteCreation u i g expires)"

definition call_signInviteAcceptance where
  "call_signInviteAcceptance rid u i k =
     round_trip ''signInviteAcceptance'' ''signInviteAcceptanceDone'' False rid (SignInviteAcceptance u i k)"

definition call_completeInvite where
  "call_completeInvite rid u i g own n iu ed x mac ref day =
     round_trip ''completeInvite'' ''completeInviteDone'' False rid (CompleteInvite u i g own n iu ed x mac ref day)"

definition call_startGroupRotation where
  "call_startGroupRotation rid u g own n s =
     workerCall ''startGroupRotationDone'' rid (StartGroupRotation u g own n s)"

definition call_startSelfRekey where
  "call_startSelfRekey rid u g n h =
     workerCall ''startSelfRekeyDone'' rid (StartSelfRekey u g n h)"

definition call_selfWrapFromHandoff where
  "call_selfWrapFromHandoff rid u g n h =
     workerCall ''selfWrapFromHandoffDone'' rid (SelfWrapFromHandoff u g n h)"

definition call_startApprovalRekey where
  "call_startApprovalRekey rid u g own n m k =
     workerCall ''startApprovalRekeyDone'' rid (StartApprovalRekey u g own n m k)"

definition call_signLeaveRotationStart where
  "call_signLeaveRotationStart rid u g n =
     workerCall ''signLeaveRotationStartDone'' rid (SignLeaveRotationStart u g n)"

definition call_rewrapGroupKey where
  "call_rewrapGroupKey rid u g own n rs =
     workerCall ''rewrapGroupKeyDone'' rid (RewrapGroupKey u g own n rs)"

definition call_decryptGroupNames where
  "call_decryptGroupNames rid u gs =
     round_trip ''decryptGroupNames'' ''decryptGroupNamesDone'' False rid (DecryptGroupNames u gs)"

definition call_encryptGroupText where
  "call_encryptGroupText rid u req =
     round_trip ''encryptGroupText'' ''encryptGroupTextDone'' False rid (EncryptGroupTextRequest u req)"

definition call_sealPost where
  "call_sealPost rid u e n title body =
     round_trip ''sealPost'' ''sealPostDone'' False rid (SealPost u e n title body)"

definition call_sealPostEdit where
  "call_sealPostEdit rid u e n k title body at =
     round_trip ''sealPostEdit'' ''sealPostEditDone'' False rid (SealPostEdit u e n k title body at)"

definition call_sealCommentEdit where
  "call_sealCommentEdit rid u e pid path n txt at =
     round_trip ''sealCommentEdit'' ''sealCommentEditDone'' False rid (SealCommentEdit u e pid path n txt at)"

definition call_sealComment where
  "call_sealComment rid u e pid path n txt =
     round_trip ''sealComment'' ''sealCommentDone'' False rid (SealComment u e pid path n txt)"

definition call_openPosts where
  "call_openPosts rid u e ps =
     round_trip ''openPosts'' ''openPostsDone'' False rid (OpenPosts u e ps)"

definition call_openComments where
  "call_openComments rid u e pid cs =
     round_trip ''openComments'' ''openCommentsDone'' False rid (OpenComments u e pid cs)"

definition call_sealReaction where
  "call_sealReaction rid u e pid target n i =
     round_trip ''sealReaction'' ''sealReactionDone'' False rid (SealReaction u e pid target n i)"

definition call_openReactions where
  "call_openReactions rid u e pid rs =
     round_trip ''openReactions'' ''openReactionsDone'' False rid (OpenReactions u e pid rs)"

definition call_getOwnFingerprint where
  "call_getOwnFingerprint rid u =
     round_trip ''getOwnFingerprint'' ''getOwnFingerprintDone'' False rid (GetOwnFingerprint u)"

definition call_hasLiveKeys where
  "call_hasLiveKeys rid u =
     round_trip ''hasLiveKeys'' ''hasLiveKeysDone'' False rid (HasLiveKeys u)"

definition call_beginKeyRotation where
  "call_beginKeyRotation rid u =
     rotationCall ''beginKeyRotation'' ''beginKeyRotationDone'' rid (BeginKeyRotation u)"

definition call_wrapHandoff where
  "call_wrapHandoff rid u req =
     rotationCall ''wrapHandoff'' ''wrapHandoffDone'' rid (WrapHandoff u req)"

definition call_signKeyRotation where
  "call_signKeyRotation rid u req =
     rotationCall ''signKeyRotation'' ''signKeyRotationDone'' rid (SignKeyRotation u req)"

definition call_commitKeyRotation where
  "call_commitKeyRotation rid u =
     rotationCall ''commitKeyRotation'' ''commitKeyRotationDone'' rid (CommitKeyRotation u)"

definition call_discardKeyRotation where
  "call_discardKeyRotation rid =
     rotationCall ''discardKeyRotation'' ''discardKeyRotationDone'' rid DiscardKeyRotation"

text \<open>Which function posts a request; \<open>clearLiveKeys\<close> waits for nothing.\<close>

primrec client_call :: "js_string \<Rightarrow> WorkerRequest \<Rightarrow> call option" where
  "client_call rid (GenerateSignupMaterial u password) = Some (call_generateSignupMaterial rid u password)"
| "client_call rid (CompleteLoginRequest req) = Some (call_completeLogin rid req)"
| "client_call rid (CompleteRecoveryRequest req) = Some (call_completeRecovery rid req)"
| "client_call rid (CompleteChangePasswordRequest req) = Some (call_completeChangePassword rid req)"
| "client_call rid (SignGroupCreation u g k) = Some (call_signGroupCreation rid u g k)"
| "client_call rid (SignRoleGrant u g s role ref) = Some (call_signRoleGrant rid u g s role ref)"
| "client_call rid (SignSuccessorDesignation u g s days ref) = Some (call_signSuccessorDesignation rid u g s days ref)"
| "client_call rid (SignSuccessorClaim u g k) = Some (call_signSuccessorClaim rid u g k)"
| "client_call rid (SignPin u p ks x n) = Some (call_signPin rid u p ks x n)"
| "client_call rid (SignWrapRecord u g m n ep reason) = Some (call_signWrapRecord rid u g m n ep reason)"
| "client_call rid (SignVerification u v f) = Some (call_signVerification rid u v f)"
| "client_call rid (GetOwnSigningKey u) = Some (call_getOwnSigningKey rid u)"
| "client_call rid (GetOwnFingerprint u) = Some (call_getOwnFingerprint rid u)"
| "client_call rid (HasLiveKeys u) = Some (call_hasLiveKeys rid u)"
| "client_call rid (DecryptGroupNames u gs) = Some (call_decryptGroupNames rid u gs)"
| "client_call rid (EncryptGroupTextRequest u req) = Some (call_encryptGroupText rid u req)"
| "client_call rid (SealPost u e n title body) = Some (call_sealPost rid u e n title body)"
| "client_call rid (SealPostEdit u e n k title body at) = Some (call_sealPostEdit rid u e n k title body at)"
| "client_call rid (SealComment u e pid path n txt) = Some (call_sealComment rid u e pid path n txt)"
| "client_call rid (SealCommentEdit u e pid path n txt at) = Some (call_sealCommentEdit rid u e pid path n txt at)"
| "client_call rid (SealReaction u e pid target n i) = Some (call_sealReaction rid u e pid target n i)"
| "client_call rid (OpenPosts u e ps) = Some (call_openPosts rid u e ps)"
| "client_call rid (OpenComments u e pid cs) = Some (call_openComments rid u e pid cs)"
| "client_call rid (OpenReactions u e pid rs) = Some (call_openReactions rid u e pid rs)"
| "client_call rid (SignInviteCreation u i g expires) = Some (call_signInviteCreation rid u i g expires)"
| "client_call rid (SignInviteAcceptance u i k) = Some (call_signInviteAcceptance rid u i k)"
| "client_call rid (CompleteInvite u i g own n iu ed x mac ref day) = Some (call_completeInvite rid u i g own n iu ed x mac ref day)"
| "client_call rid (SignReadmission u g s ed x i ref day n) = Some (call_signReadmission rid u g s ed x i ref day n)"
| "client_call rid (StartGroupRotation u g own n s) = Some (call_startGroupRotation rid u g own n s)"
| "client_call rid (StartSelfRekey u g n h) = Some (call_startSelfRekey rid u g n h)"
| "client_call rid (SelfWrapFromHandoff u g n h) = Some (call_selfWrapFromHandoff rid u g n h)"
| "client_call rid (StartApprovalRekey u g own n m k) = Some (call_startApprovalRekey rid u g own n m k)"
| "client_call rid (SignLeaveRotationStart u g n) = Some (call_signLeaveRotationStart rid u g n)"
| "client_call rid (RewrapGroupKey u g own n rs) = Some (call_rewrapGroupKey rid u g own n rs)"
| "client_call rid (BeginKeyRotation u) = Some (call_beginKeyRotation rid u)"
| "client_call rid (WrapHandoff u req) = Some (call_wrapHandoff rid u req)"
| "client_call rid (SignKeyRotation u req) = Some (call_signKeyRotation rid u req)"
| "client_call rid (CommitKeyRotation u) = Some (call_commitKeyRotation rid u)"
| "client_call rid DiscardKeyRotation = Some (call_discardKeyRotation rid)"
| "client_call rid ClearLiveKeys = None"

section \<open>The page and the worker\<close>

text \<open>
  \<open>cn_requests\<close> are the messages posted to the worker and not yet taken, \<open>cn_replies\<close> those posted
  back and not yet delivered, each with the request it answers; \<open>cn_ids\<close> are the ids drawn.
  \<open>cn_broken\<close>: the worker failed while no call was listening, and nobody replaced it.
\<close>

record client =
  cn_worker :: "machine option"
  cn_broken :: bool
  cn_requests :: "(js_string \<times> WorkerRequest) list"
  cn_replies :: "(js_string \<times> WorkerRequest \<times> WorkerResponse) list"
  cn_calls :: "call list"
  cn_ids :: "js_string set"

definition new_client :: client where
  "new_client = \<lparr>cn_worker = None, cn_broken = False, cn_requests = [], cn_replies = [], cn_calls = [], cn_ids = {}\<rparr>"

definition getWorker :: "client \<Rightarrow> machine" where
  "getWorker s = (case cn_worker s of None \<Rightarrow> new_machine | Some m \<Rightarrow> m)"

text \<open>What the worker took and what it posted.\<close>

fun taken :: "event list \<Rightarrow> (js_string \<times> WorkerRequest) list" where
  "taken [] = []"
| "taken (Received i req # es) = (i, req) # taken es"
| "taken (Posted i req msg # es) = taken es"

fun replies :: "event list \<Rightarrow> (js_string \<times> WorkerRequest \<times> WorkerResponse) list" where
  "replies [] = []"
| "replies (Received i req # es) = replies es"
| "replies (Posted i req msg # es) = (i, req, msg) # replies es"

datatype client_event =
    Called call | LoggedOut js_string | InWorker event
  | Told call ProgressStep | SettledCall call settlement | WorkerFailed string

definition reaction_events :: "js_string \<Rightarrow> WorkerResponse \<Rightarrow> call \<Rightarrow> client_event list" where
  "reaction_events i msg c = (case on_message c i msg of
     Ignored \<Rightarrow> [] | Reported p \<Rightarrow> [Told c p] | Settled v \<Rightarrow> [SettledCall c v])"

definition still_waits :: "js_string \<Rightarrow> WorkerResponse \<Rightarrow> call \<Rightarrow> bool" where
  "still_waits i msg c \<longleftrightarrow> (\<forall>v. on_message c i msg \<noteq> Settled v)"

text \<open>\<open>attachFailureHandlers\<close>: every call listening rejects, and the worker is discarded.\<close>

definition fail_calls :: "string \<Rightarrow> client \<Rightarrow> client \<times> client_event list" where
  "fail_calls reason s =
     (s\<lparr>cn_worker := None, cn_requests := [], cn_replies := [], cn_calls := []\<rparr>,
      WorkerFailed reason # map (\<lambda>c. SettledCall c (Rejected (OtherError reason))) (cn_calls s))"

inductive client_step ::
  "(js_string \<Rightarrow> js_string) \<Rightarrow> prims \<Rightarrow> ciphers \<Rightarrow> client \<Rightarrow> client_event list \<Rightarrow> client \<Rightarrow> bool"
  for U P C where
  called: "client_call i req = Some c \<Longrightarrow> i \<notin> cn_ids s \<Longrightarrow>
    client_step U P C s [Called c] (s\<lparr>cn_worker := Some (getWorker s), cn_requests := cn_requests s @ [(i, req)],
      cn_calls := cn_calls s @ [c], cn_ids := insert i (cn_ids s)\<rparr>)"
| logged_out: "i \<notin> cn_ids s \<Longrightarrow>
    client_step U P C s [LoggedOut i] (s\<lparr>cn_worker := Some (getWorker s),
      cn_requests := cn_requests s @ [(i, ClearLiveKeys)], cn_ids := insert i (cn_ids s)\<rparr>)"
| worked: "cn_worker s = Some m \<Longrightarrow> \<not> cn_broken s \<Longrightarrow> machine_step U P C m es m' \<Longrightarrow>
    cn_requests s = taken es @ rest \<Longrightarrow>
    client_step U P C s (map InWorker es)
      (s\<lparr>cn_worker := Some m', cn_requests := rest, cn_replies := cn_replies s @ replies es\<rparr>)"
| delivered: "cn_replies s = (i, req, msg) # rest \<Longrightarrow>
    client_step U P C s (concat (map (reaction_events i msg) (cn_calls s)))
      (s\<lparr>cn_replies := rest, cn_calls := filter (still_waits i msg) (cn_calls s)\<rparr>)"
| failed: "cn_worker s = Some m \<Longrightarrow> \<not> cn_broken s \<Longrightarrow> cn_calls s \<noteq> [] \<Longrightarrow> fail_calls reason s = (s', es) \<Longrightarrow>
    client_step U P C s es s'"
| failed_unheard: "cn_worker s = Some m \<Longrightarrow> cn_calls s = [] \<Longrightarrow>
    client_step U P C s [WorkerFailed reason] (s\<lparr>cn_broken := True\<rparr>)"

inductive client_run ::
  "(js_string \<Rightarrow> js_string) \<Rightarrow> prims \<Rightarrow> ciphers \<Rightarrow> client \<Rightarrow> client_event list \<Rightarrow> client \<Rightarrow> bool"
  for U P C where
  opened: "client_run U P C s [] s"
| stepped: "client_run U P C s es s' \<Longrightarrow> client_step U P C s' es' s'' \<Longrightarrow> client_run U P C s (es @ es') s''"

end
