(* ===== verification/Worker_Properties.thy ===== *)
theory Worker_Properties
  imports Worker Rotation_Properties
begin

text \<open>
  The worker as a state machine: whose keys it holds, when it signs, and what a machine step keeps true
  (its runs are in \<open>Worker_Runs\<close>).
\<close>

section \<open>One request\<close>

text \<open>The account a request names, for the requests that need its keys or its pending rotation.\<close>

definition user_of :: "WorkerRequest \<Rightarrow> js_string option" where
  "user_of req = (case req of
     SignGroupCreation u _ _ \<Rightarrow> Some u | SignRoleGrant u _ _ _ _ \<Rightarrow> Some u
   | SignSuccessorDesignation u _ _ _ _ \<Rightarrow> Some u | SignSuccessorClaim u _ _ \<Rightarrow> Some u
   | SignPin u _ _ _ _ \<Rightarrow> Some u | SignWrapRecord u _ _ _ _ _ \<Rightarrow> Some u | SignVerification u _ _ \<Rightarrow> Some u
   | GetOwnSigningKey u \<Rightarrow> Some u | GetOwnFingerprint u \<Rightarrow> Some u | DecryptGroupNames u _ \<Rightarrow> Some u
   | EncryptGroupTextRequest u _ \<Rightarrow> Some u | SealPost u _ _ _ _ \<Rightarrow> Some u | SealPostEdit u _ _ _ _ _ _ \<Rightarrow> Some u
   | SealComment u _ _ _ _ _ \<Rightarrow> Some u | SealCommentEdit u _ _ _ _ _ _ \<Rightarrow> Some u | SealReaction u _ _ _ _ _ \<Rightarrow> Some u
   | OpenPosts u _ _ \<Rightarrow> Some u | OpenComments u _ _ _ \<Rightarrow> Some u | OpenReactions u _ _ _ \<Rightarrow> Some u
   | SignInviteCreation u _ _ _ \<Rightarrow> Some u | SignInviteAcceptance u _ _ \<Rightarrow> Some u
   | CompleteInvite u _ _ _ _ _ _ _ _ _ _ \<Rightarrow> Some u | SignReadmission u _ _ _ _ _ _ _ _ \<Rightarrow> Some u
   | StartGroupRotation u _ _ _ _ \<Rightarrow> Some u | StartSelfRekey u _ _ _ \<Rightarrow> Some u | SelfWrapFromHandoff u _ _ _ \<Rightarrow> Some u
   | StartApprovalRekey u _ _ _ _ _ \<Rightarrow> Some u | SignLeaveRotationStart u _ _ \<Rightarrow> Some u
   | RewrapGroupKey u _ _ _ _ \<Rightarrow> Some u | BeginKeyRotation u \<Rightarrow> Some u | WrapHandoff u _ \<Rightarrow> Some u
   | SignKeyRotation u _ \<Rightarrow> Some u | CommitKeyRotation u \<Rightarrow> Some u | _ \<Rightarrow> None)"

definition keys_ok :: "prims \<Rightarrow> ciphers \<Rightarrow> LiveKeys \<Rightarrow> bool" where
  "keys_ok P C k \<longleftrightarrow> genuine P (lv_signingKey k) \<and> genuine_wrapping C (lv_wrappingKey k)"

lemma completeLogin_keys:
  "completeLogin P C req = Inr (s, k) \<Longrightarrow> keys_ok P C k \<and> lv_userId k = cl_userId req"
  by (auto simp: completeLogin_def Let_def bind_Inr_iff keys_ok_def split: prod.splits
      dest: genuine_from_seed wrappingKeyFromPrivate_genuine)

lemma beginKeyRotation_keys:
  "beginKeyRotation P C seed priv keys = Inr (p, s, x) \<Longrightarrow>
   keys_ok P C (commitKeyRotation p) \<and> pn_userId p = lv_userId keys
   \<and> s = bytesToBase64 (sk_publicKey (pn_signingKey p)) \<and> x = bytesToBase64 (wk_publicKey (pn_wrappingKey p))"
  by (auto simp: beginKeyRotation_def generateSigningKey_def bind_Inr_iff keys_ok_def commitKeyRotation_def
      dest: genuine_from_seed generateWrappingKey_genuine)

lemma no_keys_iff [simp]:
  "no_keys r = Inr (x, k) \<longleftrightarrow> r = Inr x \<and> k = None" "no_keys (Inl e) = Inl e"
  by (auto simp: no_keys_def bind_Inr_iff)

text \<open>The state a request leaves, and the keys its answer caches.\<close>

definition pending_of :: "Worker \<Rightarrow> PendingRotation option" where
  "pending_of w = pending (rotation w)"

lemma handle_cases:
  assumes "handle U P C E w req = (w', oc)"
  obtains (same) ps r where "w' = w" "oc = Some (ps, no_keys r)" "req \<noteq> ClearLiveKeys" "\<And>q. req \<noteq> CompleteLoginRequest q"
  | (login) q where "w' = w" "req = CompleteLoginRequest q" "oc = Some ([], on_completeLogin P C q)"
  | (begun) u p keys s x where "req = BeginKeyRotation u" "liveKeys w = Some keys" "lv_userId keys = u"
      "beginKeyRotation P C (en_seed E) (en_scalar E) keys = Inr (p, s, x)"
      "w' = w\<lparr>rotation := rotation_begin p (rotation w)\<rparr>" "oc = Some ([], Inr (BeginKeyRotationDone s x, None))"
  | (committed) u p where "req = CommitKeyRotation u" "pending_of w = Some p" "pn_userId p = u"
      "w' = w\<lparr>liveKeys := Some (commitKeyRotation p), rotation := (rotation w)\<lparr>pending := None\<rparr>\<rparr>"
      "oc = Some ([], Inr (CommitKeyRotationDone, None))"
  | (discarded) "req = DiscardKeyRotation" "w' = w\<lparr>rotation := rotation_clear (rotation w)\<rparr>"
      "oc = Some ([], Inr (DiscardKeyRotationDone, None))"
  | (cleared) "req = ClearLiveKeys" "w' = on_clearLiveKeys w" "oc = None"
proof (cases req)
  case (CompleteLoginRequest q)
  with assms login show ?thesis by simp
next
  case (BeginKeyRotation u)
  show ?thesis
  proof (cases "on_beginKeyRotation P C E w u")
    case (Inl e)
    with assms BeginKeyRotation same [of "[]" "Inl e"] show ?thesis by (simp add: answer_changed_def)
  next
    case (Inr r)
    then obtain keys p s x where "liveKeys w = Some keys" "lv_userId keys = u"
      "beginKeyRotation P C (en_seed E) (en_scalar E) keys = Inr (p, s, x)"
      "r = (w\<lparr>rotation := rotation_begin p (rotation w)\<rparr>, BeginKeyRotationDone s x)"
      by (auto simp: on_beginKeyRotation_def requireLiveKeys_def cached_keys_def bind_Inr_iff split: option.splits if_splits)
    with assms BeginKeyRotation Inr show ?thesis by (intro begun) (auto simp: answer_changed_def)
  qed
next
  case (CommitKeyRotation u)
  show ?thesis
  proof (cases "on_commitKeyRotation w u")
    case (Inl e)
    with assms CommitKeyRotation same [of "[]" "Inl e"] show ?thesis by (simp add: answer_changed_def)
  next
    case (Inr r)
    then obtain p where "pending_of w = Some p" "pn_userId p = u"
      "r = (w\<lparr>liveKeys := Some (commitKeyRotation p), rotation := (rotation w)\<lparr>pending := None\<rparr>\<rparr>, CommitKeyRotationDone)"
      by (auto simp: on_commitKeyRotation_def rotation_commit_def rotation_require_def bind_Inr_iff pending_of_def
          split: option.splits if_splits)
    with assms CommitKeyRotation Inr show ?thesis by (intro committed) (auto simp: answer_changed_def)
  qed
next
  case DiscardKeyRotation
  with assms discarded show ?thesis by (simp add: answer_changed_def on_discardKeyRotation_def)
next
  case ClearLiveKeys
  with assms cleared show ?thesis by simp
qed (use assms same in \<open>auto simp: answer_def answer_reported_def\<close>)

lemmas handler_defs = on_signGroupCreation_def on_decryptGroupNames_def on_encryptGroupText_def
  on_sealComment_def on_sealCommentEdit_def on_sealPostEdit_def on_sealPost_def on_openPosts_def
  on_sealReaction_def on_openReactions_def on_openComments_def on_signRoleGrant_def
  on_signSuccessorDesignation_def on_signSuccessorClaim_def on_signVerification_def on_signPin_def
  on_signWrapRecord_def on_signReadmission_def on_getOwnSigningKey_def on_getOwnFingerprint_def
  on_signInviteCreation_def on_signInviteAcceptance_def on_completeInvite_def
  on_startGroupRotation_def on_startSelfRekey_def on_selfWrapFromHandoff_def
  on_startApprovalRekey_def on_signLeaveRotationStart_def on_rewrapGroupKey_def on_hasLiveKeys_def
  on_beginKeyRotation_def on_wrapHandoff_def on_signKeyRotation_def on_commitKeyRotation_def
  on_discardKeyRotation_def on_generateSignupMaterial_def on_completeRecovery_def
  on_completeChangePassword_def

lemmas guard_defs = cached_keys_def requireLiveKeys_def requireLiveKeysFor_def idle_keys_def assertIdle_def

text \<open>Without keys and a pending rotation every request of an account fails.\<close>

lemma cold_guards:
  assumes "liveKeys w = None" "pending (rotation w) = None"
  shows "\<exists>e. cached_keys w u d = Inl e" "\<exists>e. requireLiveKeys w u d = Inl e" "\<exists>e. requireLiveKeysFor w u d = Inl e"
    "\<exists>e. idle_keys w u d = Inl e"
  using assms by (simp_all add: guard_defs)

lemma cold_handle:
  assumes "liveKeys w = None" "pending_of w = None" "user_of req = Some u"
  shows "\<exists>e. handle U P C E w req = (w, Some ([], Inl e))"
  using assms
  by (cases req) (simp_all add: user_of_def answer_def answer_reported_def answer_changed_def handler_defs guard_defs
      pending_of_def rotation_commit_def rotation_require_def)

text \<open>What a roster covers is signed while no rotation is pending, with the keys of the account that asks.\<close>

definition roster_answer :: "WorkerResult \<Rightarrow> js_string \<Rightarrow> bool" where
  "roster_answer r signer \<longleftrightarrow>
     (\<exists>s. r = SignPinDone s \<and> signer = sp_pinnerSigningPublicKey s)
     \<or> (\<exists>v. r = SignVerificationDone v \<and> signer = sv_verifierSigningPublicKey v)"

lemma handle_roster_answer:
  assumes "handle U P C E w req = (w', Some (ps, Inr (r, k)))" "roster_answer r signer"
  shows "synchronous req \<and> pending_of w = None
    \<and> (\<exists>keys. liveKeys w = Some keys \<and> user_of req = Some (lv_userId keys)
         \<and> signer = bytesToBase64 (sk_publicKey (lv_signingKey keys)))"
  using assms
  by (cases req) (auto simp: roster_answer_def user_of_def answer_def answer_reported_def answer_changed_def handler_defs guard_defs
      synchronous_def pending_of_def on_completeLogin_def signPin_def signVerification_def Let_def bind_Inr_iff then_do_def quiet_def
      split: sum.splits option.splits if_splits prod.splits)

section \<open>The keys in the worker\<close>

text \<open>
  The invariant of the machine behind the messages \<open>es\<close>: the keys it holds are well formed and came
  from a login of, or a committed rotation for, the account they are kept for; a pending rotation
  belongs to the account that began it and its public halves were posted; a request being worked
  on is not one of the synchronous ones, and its answer comes from the handler.
\<close>

definition keys_known :: "prims \<Rightarrow> ciphers \<Rightarrow> event list \<Rightarrow> LiveKeys \<Rightarrow> bool" where
  "keys_known P C es k \<longleftrightarrow> keys_ok P C k
     \<and> ((\<exists>i q r. Posted i (CompleteLoginRequest q) (Done r) \<in> set es \<and> cl_userId q = lv_userId k)
        \<or> (\<exists>i. Posted i (CommitKeyRotation (lv_userId k)) (Done CommitKeyRotationDone) \<in> set es))"

definition pending_known :: "prims \<Rightarrow> ciphers \<Rightarrow> event list \<Rightarrow> PendingRotation \<Rightarrow> bool" where
  "pending_known P C es p \<longleftrightarrow> keys_ok P C (commitKeyRotation p)
     \<and> (\<exists>i. Posted i (BeginKeyRotation (pn_userId p)) (Done (BeginKeyRotationDone
           (bytesToBase64 (sk_publicKey (pn_signingKey p))) (bytesToBase64 (wk_publicKey (pn_wrappingKey p))))) \<in> set es)"

definition job_ok :: "prims \<Rightarrow> ciphers \<Rightarrow> job \<Rightarrow> bool" where
  "job_ok P C j \<longleftrightarrow> \<not> synchronous (jb_request j)
     \<and> (\<forall>r k. jb_result j = Inr (r, Some k) \<longrightarrow>
          keys_ok P C k \<and> (\<exists>q. jb_request j = CompleteLoginRequest q \<and> cl_userId q = lv_userId k))
     \<and> (\<forall>r k signer. jb_result j = Inr (r, k) \<longrightarrow> \<not> roster_answer r signer)"

definition machine_ok :: "prims \<Rightarrow> ciphers \<Rightarrow> event list \<Rightarrow> machine \<Rightarrow> bool" where
  "machine_ok P C es m \<longleftrightarrow>
     (\<forall>k. liveKeys (m_worker m) = Some k \<longrightarrow> keys_known P C es k)
     \<and> (\<forall>p. pending_of (m_worker m) = Some p \<longrightarrow> pending_known P C es p)
     \<and> (\<forall>j\<in>set (m_jobs m). job_ok P C j)"

lemma known_mono:
  "keys_known P C es k \<Longrightarrow> keys_known P C (es @ es') k"
  "pending_known P C es p \<Longrightarrow> pending_known P C (es @ es') p"
  by (auto simp: keys_known_def pending_known_def)

lemma on_completeLogin_keys:
  "on_completeLogin P C q = Inr (r, Some k) \<Longrightarrow> keys_ok P C k \<and> cl_userId q = lv_userId k"
  by (auto simp: on_completeLogin_def bind_Inr_iff dest: completeLogin_keys)

lemma handled_job_ok:
  assumes "handle U P C E w req = (w', Some (ps, r))" "\<not> synchronous req"
  shows "job_ok P C \<lparr>jb_id = i, jb_request = req, jb_steps = ps, jb_result = r\<rparr>"
proof -
  have "\<not> roster_answer x signer" if "r = Inr (x, k)" for x k signer
    using handle_roster_answer [of U P C E w req w' ps x k signer] assms that by auto
  moreover have "keys_ok P C k \<and> (\<exists>q. req = CompleteLoginRequest q \<and> cl_userId q = lv_userId k)" if "r = Inr (x, Some k)" for x k
    using assms(1) that by (elim handle_cases) (auto simp: eq_commute [of "Inr (x, Some k)"] dest: on_completeLogin_keys)
  ultimately show ?thesis using assms(2) by (simp add: job_ok_def)
qed

text \<open>The state after the synchronous part; an asynchronous one leaves it as it is.\<close>

lemma async_same_state:
  assumes "handle U P C E w req = (w', oc)" "\<not> synchronous req"
  shows "w' = w"
  using assms by (elim handle_cases) (auto simp: synchronous_def)

lemma machine_step_ok:
  assumes "machine_step U P C m es' m'" "machine_ok P C es m"
  shows "machine_ok P C (es @ es') m'"
  using assms(1)
proof cases
  case (cleared E req w' i)
  then have "w' = on_clearLiveKeys (m_worker m)" by (elim handle_cases) auto
  with cleared assms(2) show ?thesis
    by (auto simp: machine_ok_def on_clearLiveKeys_def pending_of_def rotation_clear_def)
next
  case (answered E req w' ps r i)
  from answered(3) show ?thesis
  proof (cases rule: handle_cases)
    case (begun u p keys s x)
    then show ?thesis using answered assms(2) beginKeyRotation_keys [OF begun(4)] known_mono
      by (auto simp: machine_ok_def pending_of_def rotation_begin_def pending_known_def)
  next
    case (committed u p)
    then show ?thesis using answered assms(2) known_mono
      by (auto simp: machine_ok_def pending_of_def keys_known_def pending_known_def commitKeyRotation_def)
  qed (use answered assms(2) known_mono in
      \<open>auto simp: machine_ok_def pending_of_def rotation_clear_def synchronous_def\<close>)
next
  case (started E req w' ps r i)
  with async_same_state [OF started(3,4)] handled_job_ok [OF started(3,4), of i] assms(2) known_mono show ?thesis
    by (auto simp: machine_ok_def)
next
  case (progressed js1 j js2 p ps)
  with assms(2) known_mono show ?thesis by (auto simp: machine_ok_def job_ok_def)
next
  case (finished js1 j js2)
  then have j: "job_ok P C j" using assms(2) by (simp add: machine_ok_def)
  show ?thesis
  proof (cases "\<exists>x k. jb_result j = Inr (x, Some k)")
    case True
    then obtain x k where r: "jb_result j = Inr (x, Some k)" by blast
    with j obtain q where "keys_ok P C k" "jb_request j = CompleteLoginRequest q" "cl_userId q = lv_userId k"
      by (auto simp: job_ok_def)
    with finished r assms(2) known_mono show ?thesis
      by (auto simp: machine_ok_def cache_keys_def keys_known_def pending_of_def)
  next
    case False
    then have "cache_keys (jb_result j) (m_worker m) = m_worker m"
      by (auto simp: cache_keys_def split: sum.split option.split)
    with finished assms(2) known_mono show ?thesis by (auto simp: machine_ok_def)
  qed
qed

lemma run_ok: "run U P C new_machine es m \<Longrightarrow> machine_ok P C es m"
proof (induction "new_machine" es m rule: run.induct)
  case start
  show ?case by (simp add: machine_ok_def new_machine_def new_worker_def new_rotation_def pending_of_def)
next
  case (more es m' es' m'')
  then show ?case by (blast intro: machine_step_ok)
qed

end
