(* ===== verification/Worker_Runs.thy ===== *)
theory Worker_Runs
  imports Worker_Properties "HOL-Library.Multiset"
begin

text \<open>
  The runs of the crypto worker: the keys it ever holds, when it signs what a roster covers, what
  is left after a logout, and that every request it takes is answered, exactly once.
\<close>

section \<open>A login to run with\<close>

lemma sample_login:
  "\<exists>q s k. on_completeLogin sample sample_ciphers q = Inr (CompleteLoginDone s, Some k)
     \<and> cl_userId q = alice \<and> lv_userId k = alice"
proof -
  have l: "case_laws (\<lambda>s. s)" "length (seed_of 1) = 32" "length (seed_of 11) = 32" "credential_draw_ok sample_credentials"
    "js ''hunter22'' \<noteq> []"
    by (simp_all add: case_laws_def credential_draw_ok_def sample_credentials_def)
  from x_public_exists [OF sample_x25519 l(3)] obtain pub where pub: "x_public sample_ciphers (seed_of 11) = Some pub" by blast
  from signup_bundle [OF l(2,3)] obtain keyBundle where
    dec: "decodeKeyBundle keyBundle = Inr \<lparr>kb_signingSeed = seed_of 1, kb_wrappingPrivateKey = seed_of 11\<rparr>" by blast
  from wrapNewCredentials_opens [OF sample_aead sample_argon2 l(1,4,5), of alice keyBundle 0 3] obtain m where
    "opens_profile sample_ciphers alice (js ''hunter22'') m keyBundle" by blast
  from hold_login [OF sample_laws l(2) pub l(3) dec this]
  have "login_ok sample sample_ciphers alice (js ''hunter22'') m (account_keys sample alice (seed_of 1) (seed_of 11) pub)" .
  then obtain signature where "completeLogin sample sample_ciphers (login_with alice (js ''hunter22'') m [])
      = Inr (bytesToBase64 signature, account_keys sample alice (seed_of 1) (seed_of 11) pub)"
    unfolding login_ok_def by blast
  then show ?thesis
    by (intro exI [of _ "login_with alice (js ''hunter22'') m []"] exI [of _ "bytesToBase64 signature"]
        exI [of _ "account_keys sample alice (seed_of 1) (seed_of 11) pub"])
      (simp add: on_completeLogin_def login_with_def account_keys_def)
qed

lemma run_append:
  assumes "run U P C m' es' m''" "run U P C m es m'"
  shows "run U P C m (es @ es') m''"
  using assms
proof (induction rule: run.induct)
  case (more m' es' m1 es1 m2)
  then show ?case using run.more [of U P C m "es @ es'" m1 es1 m2] by simp
qed simp

lemma run_step: "machine_step U P C m es m' \<Longrightarrow> run U P C m es m'"
  using run.more [OF run.start] by fastforce

lemma machine_updates:
  "\<lparr>m_worker = m_worker m, m_jobs = xs\<rparr> = m\<lparr>m_jobs := xs\<rparr>" "\<lparr>m_worker = w, m_jobs = m_jobs m\<rparr> = m\<lparr>m_worker := w\<rparr>"
  for m :: machine
  by (cases m, simp)+

text \<open>The steps of a login: its request is taken, and its answer is posted later.\<close>

lemma login_taken:
  assumes "on_completeLogin P C q = r"
  shows "machine_step U P C m [Received i (CompleteLoginRequest q)]
    (m\<lparr>m_jobs := \<lparr>jb_id = i, jb_request = CompleteLoginRequest q, jb_steps = [], jb_result = r\<rparr> # m_jobs m\<rparr>)"
  using machine_step.started [of U P C undefined m "CompleteLoginRequest q" "m_worker m" "[]" r i] assms
  by (simp add: synchronous_def machine_updates)

lemma newest_finished:
  assumes "m_jobs m = j # rest" "jb_steps j = []"
  shows "machine_step U P C m [Posted (jb_id j) (jb_request j) (response (jb_result j))]
    \<lparr>m_worker = cache_keys (jb_result j) (m_worker m), m_jobs = rest\<rparr>"
  using machine_step.finished [of m "[]" j rest U P C] assms by simp

lemma logout_taken: "machine_step U P C m [Received i ClearLiveKeys] (m\<lparr>m_worker := on_clearLiveKeys (m_worker m)\<rparr>)"
  by (rule machine_step.cleared) simp

lemma login_runs:
  assumes "on_completeLogin P C q = Inr (x, Some k)"
  shows "run U P C m [Received i (CompleteLoginRequest q), Posted i (CompleteLoginRequest q) (Done x)]
    (m\<lparr>m_worker := (m_worker m)\<lparr>liveKeys := Some k\<rparr>\<rparr>)"
proof -
  let ?j = "\<lparr>jb_id = i, jb_request = CompleteLoginRequest q, jb_steps = [], jb_result = Inr (x, Some k)\<rparr>"
  from newest_finished [of "m\<lparr>m_jobs := ?j # m_jobs m\<rparr>" ?j "m_jobs m" U P C]
  have "run U P C (m\<lparr>m_jobs := ?j # m_jobs m\<rparr>) [Posted i (CompleteLoginRequest q) (Done x)]
      (m\<lparr>m_worker := (m_worker m)\<lparr>liveKeys := Some k\<rparr>\<rparr>)"
    by (intro run_step) (simp add: cache_keys_def machine_updates)
  from run_append [OF this run_step [OF login_taken [OF assms]]] show ?thesis by simp
qed

section \<open>The keys a worker holds\<close>



text \<open>
  C29: what a roster covers is signed while no rotation is pending.  A pin or a verification is posted
  in the very step that takes its request, in a state without a pending rotation, and is signed
  by the keys the worker holds for the account that asked; the state stays as it is.
\<close>
theorem roster_signed_while_idle:
  assumes "run U P C new_machine es m" "machine_step U P C m es' m'"
    and "Posted i req (Done r) \<in> set es'" "roster_answer r signer"
  shows "es' = [Received i req, Posted i req (Done r)] \<and> pending_of (m_worker m) = None
    \<and> (\<exists>keys. liveKeys (m_worker m) = Some keys \<and> user_of req = Some (lv_userId keys)
         \<and> signer = bytesToBase64 (sk_publicKey (lv_signingKey keys)))
    \<and> m' = m"
  using assms(2)
proof cases
  case (answered E req' w' ps x i')
  with assms(3) have e: "req' = req" "i' = i" "response x = Done r" by auto
  then obtain k where x: "x = Inr (r, k)" by (cases x) auto
  from handle_roster_answer [OF answered(3) [unfolded e(1) x] assms(4)]
  have h: "pending_of (m_worker m) = None"
    "\<exists>keys. liveKeys (m_worker m) = Some keys \<and> user_of req = Some (lv_userId keys)
         \<and> signer = bytesToBase64 (sk_publicKey (lv_signingKey keys))" by blast+
  have "w' = m_worker m"
    using answered(3) [unfolded e(1) x] assms(4) by (elim handle_cases) (auto simp: roster_answer_def)
  with h answered e show ?thesis by simp
next
  case (finished js1 j js2)
  with run_ok [OF assms(1)] have j: "job_ok P C j" by (simp add: machine_ok_def)
  from finished assms(3) have "response (jb_result j) = Done r" by simp
  then obtain k where "jb_result j = Inr (r, k)" by (cases "jb_result j") auto
  with j assms(4) show ?thesis by (auto simp: job_ok_def)
qed (use assms(3) in auto)

lemma verification_signed:
  assumes "liveKeys w = Some keys" "lv_userId keys = u" "pending_of w = None"
  shows "handle U P C E w (SignVerification u v f) = (w, Some ([],
    Inr (SignVerificationDone (signVerification P keys v f (en_now E)), None)))"
  using assms
  by (simp add: answer_def on_signVerification_def guard_defs pending_of_def no_keys_def)

theorem roster_signed_while_idle_witness:
  "\<exists>es m m' i req r signer. run (\<lambda>s. s) sample sample_ciphers new_machine es m
     \<and> machine_step (\<lambda>s. s) sample sample_ciphers m [Received i req, Posted i req (Done r)] m'
     \<and> roster_answer r signer \<and> pending_of (m_worker m) = None \<and> m' = m"
proof -
  from sample_login obtain q s k where
    l: "on_completeLogin sample sample_ciphers q = Inr (CompleteLoginDone s, Some k)" and u: "lv_userId k = alice" by blast
  let ?m = "new_machine\<lparr>m_worker := (m_worker new_machine)\<lparr>liveKeys := Some k\<rparr>\<rparr>"
  let ?req = "SignVerification alice (js ''bob'') (js ''11111'')"
  let ?v = "signVerification sample k (js ''bob'') (js ''11111'') (en_now (undefined :: entropy))"
  have h: "handle (\<lambda>s. s) sample sample_ciphers undefined (m_worker ?m) ?req
      = (m_worker ?m, Some ([], Inr (SignVerificationDone ?v, None)))"
    by (rule verification_signed) (simp_all add: u new_machine_def new_worker_def new_rotation_def pending_of_def)
  have "machine_step (\<lambda>s. s) sample sample_ciphers ?m [Received (js ''2'') ?req, Posted (js ''2'') ?req (Done (SignVerificationDone ?v))] ?m"
    using machine_step.answered [OF h, of "js ''2''"] by (simp add: synchronous_def)
  with login_runs [OF l, where m = new_machine and U = "\<lambda>s. s" and i = "js ''1''"]
    roster_signed_while_idle [OF login_runs [OF l, where m = new_machine and U = "\<lambda>s. s" and i = "js ''1''"] this, of "js ''2''" ?req]
  show ?thesis by (fastforce simp: roster_answer_def)
qed

section \<open>After a logout\<close>

text \<open>A worker without keys, without a pending rotation and with no login being worked on.\<close>

definition logged_out :: "machine \<Rightarrow> bool" where
  "logged_out m \<longleftrightarrow> liveKeys (m_worker m) = None \<and> pending_of (m_worker m) = None
     \<and> (\<forall>j\<in>set (m_jobs m). \<forall>r k. jb_result j \<noteq> Inr (r, Some k))"

lemma cold_handle_state:
  assumes "handle U P C E w req = (w', oc)" "liveKeys w = None" "pending_of w = None"
  shows "liveKeys w' = None \<and> pending_of w' = None"
  using assms
  by (elim handle_cases) (auto simp: pending_of_def rotation_clear_def on_clearLiveKeys_def)

lemma handled_keys:
  assumes "handle U P C E w req = (w', Some (ps, Inr (r, Some k)))"
  shows "\<exists>q. req = CompleteLoginRequest q"
  using assms by (elim handle_cases) (auto simp: eq_commute [of "Inr (r, Some k)"])

lemma logged_out_step:
  assumes "machine_step U P C m es m'" "logged_out m" "\<And>i q. Received i (CompleteLoginRequest q) \<notin> set es"
  shows "logged_out m'"
  using assms(1)
proof cases
  case (cleared E req w' i)
  with cold_handle_state [OF cleared(3)] assms(2) show ?thesis by (simp add: logged_out_def)
next
  case (answered E req w' ps r i)
  with cold_handle_state [OF answered(3)] assms(2) show ?thesis by (simp add: logged_out_def)
next
  case (started E req w' ps r i)
  then have "r \<noteq> Inr (x, Some k)" for x k
    using handled_keys [of U P C E "m_worker m" req w' ps x k] assms(3) by auto
  with cold_handle_state [OF started(3)] started assms(2) show ?thesis by (simp add: logged_out_def)
next
  case (progressed js1 j js2 p ps)
  with assms(2) show ?thesis by (simp add: logged_out_def)
next
  case (finished js1 j js2)
  with assms(2) have "cache_keys (jb_result j) (m_worker m) = m_worker m"
    by (auto simp: logged_out_def cache_keys_def split: sum.split option.split)
  with finished assms(2) show ?thesis by (simp add: logged_out_def)
qed

lemma logged_out_run:
  assumes "run U P C m es m'" "logged_out m" "\<And>i q. Received i (CompleteLoginRequest q) \<notin> set es"
  shows "logged_out m'"
  using assms
proof (induction rule: run.induct)
  case (more m es m' es' m'')
  then show ?case using logged_out_step [OF more(2)] by simp
qed simp

lemma logout_logged_out:
  assumes "machine_ok P C es m" "\<And>j q. j \<in> set (m_jobs m) \<Longrightarrow> jb_request j \<noteq> CompleteLoginRequest q"
  shows "logged_out (m\<lparr>m_worker := on_clearLiveKeys (m_worker m)\<rparr>)"
  using assms by (auto simp: logged_out_def machine_ok_def job_ok_def on_clearLiveKeys_def pending_of_def rotation_clear_def)

text \<open>
  C34: a logout lasts until the next login.  Once a \<open>clearLiveKeys\<close> message has been taken while no
  login was being worked on, then through every further sequence of requests and answers without
  a new login the worker holds no keys and no pending rotation, says so, and answers every request
  that names an account with an error, its state unchanged.
\<close>
theorem logged_out_stays_out:
  assumes "run U P C new_machine es0 m0" "\<forall>j\<in>set (m_jobs m0). \<forall>q. jb_request j \<noteq> CompleteLoginRequest q"
    and "machine_step U P C m0 [Received i ClearLiveKeys] m1"
    and "run U P C m1 es m" "\<forall>i q. Received i (CompleteLoginRequest q) \<notin> set es"
  shows "liveKeys (m_worker m) = None \<and> pending_of (m_worker m) = None
    \<and> (\<forall>u. on_hasLiveKeys (m_worker m) u = HasLiveKeysDone False)
    \<and> (\<forall>E u req. user_of req = Some u \<longrightarrow> (\<exists>e. handle U P C E (m_worker m) req = (m_worker m, Some ([], Inl e))))"
proof -
  have "m1 = m0\<lparr>m_worker := on_clearLiveKeys (m_worker m0)\<rparr>"
    using assms(3) by cases (auto simp: synchronous_def)
  with logout_logged_out [OF run_ok [OF assms(1)]] assms(2) have "logged_out m1" by simp
  with logged_out_run [OF assms(4)] assms(5) have m: "liveKeys (m_worker m) = None" "pending_of (m_worker m) = None"
    by (auto simp: logged_out_def)
  with cold_handle [OF m] show ?thesis by (auto simp: on_hasLiveKeys_def liveKeysWarmFor_def)
qed

theorem logged_out_stays_out_witness:
  "\<exists>m0 m1 k. liveKeys (m_worker m0) = Some k \<and> machine_step (\<lambda>s. s) sample sample_ciphers m0 [Received [] ClearLiveKeys] m1
     \<and> (\<exists>e. handle (\<lambda>s. s) sample sample_ciphers undefined (m_worker m1) (GetOwnSigningKey alice) = (m_worker m1, Some ([], Inl e)))"
proof -
  from sample_login obtain q s k where
    l: "on_completeLogin sample sample_ciphers q = Inr (CompleteLoginDone s, Some k)" by blast
  let ?m = "new_machine\<lparr>m_worker := (m_worker new_machine)\<lparr>liveKeys := Some k\<rparr>\<rparr>"
  have "\<forall>j\<in>set (m_jobs ?m). \<forall>q. jb_request j \<noteq> CompleteLoginRequest q" by (simp add: new_machine_def)
  from logged_out_stays_out [OF login_runs [OF l] this logout_taken run.start]
  have "user_of req = Some u \<Longrightarrow> \<exists>e. handle (\<lambda>s. s) sample sample_ciphers E
      (m_worker (?m\<lparr>m_worker := on_clearLiveKeys (m_worker ?m)\<rparr>)) req
    = (m_worker (?m\<lparr>m_worker := on_clearLiveKeys (m_worker ?m)\<rparr>), Some ([], Inl e))" for E u req
    unfolding list.set by blast
  from this [of "GetOwnSigningKey alice" alice] have
    "\<exists>e. handle (\<lambda>s. s) sample sample_ciphers undefined
      (m_worker (?m\<lparr>m_worker := on_clearLiveKeys (m_worker ?m)\<rparr>)) (GetOwnSigningKey alice)
    = (m_worker (?m\<lparr>m_worker := on_clearLiveKeys (m_worker ?m)\<rparr>), Some ([], Inl e))"
    unfolding user_of_def by simp
  moreover have "liveKeys (m_worker ?m) = Some k" by simp
  ultimately show ?thesis using logout_taken by blast
qed

text \<open>
  Without the condition on logins it does not hold: a login that was taken before the logout and
  finishes after it caches its keys, and the worker is warm again.
\<close>

lemma login_outlives_logout:
  assumes "on_completeLogin P C q = Inr (x, Some k)"
  shows "\<exists>m. run U P C new_machine
       [Received i (CompleteLoginRequest q), Received i' ClearLiveKeys, Posted i (CompleteLoginRequest q) (Done x)] m
     \<and> liveKeys (m_worker m) = Some k"
proof -
  let ?j = "\<lparr>jb_id = i, jb_request = CompleteLoginRequest q, jb_steps = [], jb_result = Inr (x, Some k)\<rparr>"
  let ?m = "new_machine\<lparr>m_jobs := [?j]\<rparr>"
  let ?m' = "?m\<lparr>m_worker := on_clearLiveKeys (m_worker ?m)\<rparr>"
  have "run U P C new_machine [Received i (CompleteLoginRequest q)] ?m"
    using run_step [OF login_taken [OF assms, of U new_machine i]] by (simp add: new_machine_def)
  from run_append [OF run_step [OF logout_taken] this]
  have "run U P C new_machine [Received i (CompleteLoginRequest q), Received i' ClearLiveKeys] ?m'" by simp
  from run_append [OF run_step [OF newest_finished [of ?m' ?j "[]"]] this] show ?thesis
    by (intro exI conjI) (auto simp: cache_keys_def)
qed

section \<open>Every request is answered\<close>

text \<open>The requests of a run that are to be answered, the answers, and what is left to post.\<close>

primrec requested :: "event \<Rightarrow> (js_string \<times> WorkerRequest) multiset" where
  "requested (Received i req) = (if req = ClearLiveKeys then {#} else {#(i, req)#})"
| "requested (Posted i req r) = {#}"

primrec final :: "WorkerResponse \<Rightarrow> bool" where
  "final (SignupProgress p) = False" | "final (Done r) = True" | "final (Failed e) = True"

primrec answered_by :: "event \<Rightarrow> (js_string \<times> WorkerRequest) multiset" where
  "answered_by (Received i req) = {#}"
| "answered_by (Posted i req r) = (if final r then {#(i, req)#} else {#})"

definition requests :: "event list \<Rightarrow> (js_string \<times> WorkerRequest) multiset" where
  "requests es = sum_list (map requested es)"

definition answers :: "event list \<Rightarrow> (js_string \<times> WorkerRequest) multiset" where
  "answers es = sum_list (map answered_by es)"

definition in_flight :: "machine \<Rightarrow> (js_string \<times> WorkerRequest) multiset" where
  "in_flight m = mset (map (\<lambda>j. (jb_id j, jb_request j)) (m_jobs m))"

definition work :: "machine \<Rightarrow> nat" where
  "work m = (\<Sum>j\<leftarrow>m_jobs m. Suc (length (jb_steps j)))"

definition quiet_events :: "event list \<Rightarrow> bool" where
  "quiet_events es \<longleftrightarrow> (\<forall>i req. Received i req \<notin> set es)"

lemma requests_append [simp]:
  "requests (es @ es') = requests es + requests es'" "answers (es @ es') = answers es + answers es'"
  by (simp_all add: requests_def answers_def)

lemma final_response [simp]: "final (response r)"
  by (cases r) simp_all

lemma handle_answers:
  assumes "handle U P C E w req = (w', oc)"
  shows "oc = None \<longleftrightarrow> req = ClearLiveKeys"
  using assms by (elim handle_cases) auto

lemma machine_step_balance:
  "machine_step U P C m es m' \<Longrightarrow> requests es + in_flight m = answers es + in_flight m'"
  by (induction rule: machine_step.induct)
    (auto simp: requests_def answers_def in_flight_def dest: handle_answers)

lemma run_balance:
  "run U P C m es m' \<Longrightarrow> requests es + in_flight m = answers es + in_flight m'"
proof (induction rule: run.induct)
  case (more m es m' es' m'')
  have "requests (es @ es') + in_flight m = (requests es + in_flight m) + requests es'" by (simp add: ac_simps)
  also have "\<dots> = answers es + (requests es' + in_flight m')" unfolding more(3) by (simp add: ac_simps)
  also have "\<dots> = answers (es @ es') + in_flight m''" unfolding machine_step_balance [OF more(2)] by (simp add: ac_simps)
  finally show ?case .
qed (simp add: requests_def answers_def)

lemma machine_step_work:
  assumes "machine_step U P C m es m'" "quiet_events es"
  shows "Suc (work m') = work m \<and> length es = 1"
  using assms by cases (auto simp: work_def quiet_events_def)

lemma run_work:
  assumes "run U P C m es m'" "quiet_events es"
  shows "length es + work m' = work m"
  using assms
proof (induction rule: run.induct)
  case (more m es m' es' m'')
  from more(4) have "quiet_events es" "quiet_events es'" by (auto simp: quiet_events_def)
  with machine_step_work [OF more(2)] more(3) show ?case by simp
qed simp

lemma work_left:
  assumes "work m \<noteq> 0"
  shows "\<exists>es m'. machine_step U P C m es m' \<and> quiet_events es"
proof -
  from assms obtain j js' where j: "m_jobs m = [] @ j # js'" by (cases "m_jobs m") (auto simp: work_def)
  show ?thesis
  proof (cases "jb_steps j")
    case Nil
    from machine_step.finished [OF j this] show ?thesis by (fastforce simp: quiet_events_def)
  next
    case (Cons p ps)
    from machine_step.progressed [OF j this] show ?thesis by (fastforce simp: quiet_events_def)
  qed
qed

lemma drained: "work m = 0 \<Longrightarrow> in_flight m = {#}"
  by (cases "m_jobs m") (auto simp: work_def in_flight_def)

lemma quiet_requests: "quiet_events es \<Longrightarrow> requests es = {#}"
proof (induction es)
  case (Cons e es)
  then show ?case by (cases e) (auto simp: quiet_events_def requests_def)
qed (simp add: requests_def)

lemma drained_jobs: "work \<lparr>m_worker = w, m_jobs = []\<rparr> = 0"
  by (simp add: work_def)

lemma quiet_posted: "quiet_events [Posted i req r]"
  by (simp add: quiet_events_def)

text \<open>
  C33: every request is answered, once.  In every run the answers posted so far are those of distinct
  requests taken, the others being worked on.  From wherever a run has come, posting on without
  taking further requests cannot go on for more than \<open>work m\<close> messages, can always go on while something
  is being worked on, and when it is at its end the answers posted are exactly one for
  each request taken, a logout excepted, which is not answered.
\<close>
theorem every_request_is_answered:
  assumes "run U P C new_machine es m"
  shows "requests es = answers es + in_flight m
    \<and> (\<forall>es' m'. run U P C m es' m' \<longrightarrow> quiet_events es' \<longrightarrow>
         length es' \<le> work m
         \<and> (work m' \<noteq> 0 \<longrightarrow> (\<exists>es'' m''. machine_step U P C m' es'' m'' \<and> quiet_events es''))
         \<and> (work m' = 0 \<longrightarrow> answers (es @ es') = requests es))"
proof -
  have "in_flight new_machine = {#}" by (simp add: in_flight_def new_machine_def)
  with run_balance [OF assms] have b: "requests es = answers es + in_flight m" by simp
  have "answers (es @ es') = requests es" if "run U P C m es' m'" "quiet_events es'" "work m' = 0" for es' m'
  proof -
    from run_balance [OF that(1)] drained [OF that(3)] quiet_requests [OF that(2)] b show ?thesis by simp
  qed
  moreover have "length es' \<le> work m" if "run U P C m es' m'" "quiet_events es'" for es' m'
    using run_work [OF that] by simp
  ultimately show ?thesis using b by (intro conjI allI impI) (assumption | rule work_left)+
qed

theorem every_request_is_answered_witness:
  "\<exists>es m es' m'. run (\<lambda>s. s) sample sample_ciphers new_machine es m \<and> work m = 1
     \<and> run (\<lambda>s. s) sample sample_ciphers m es' m' \<and> answers (es @ es') = requests es \<and> requests es \<noteq> {#}"
proof -
  from sample_login obtain q s k where
    l: "on_completeLogin sample sample_ciphers q = Inr (CompleteLoginDone s, Some k)" by blast
  let ?j = "\<lparr>jb_id = [], jb_request = CompleteLoginRequest q, jb_steps = [], jb_result = Inr (CompleteLoginDone s, Some k)\<rparr>"
  let ?m = "new_machine\<lparr>m_jobs := [?j]\<rparr>"
  let ?m' = "\<lparr>m_worker = cache_keys (jb_result ?j) (m_worker ?m), m_jobs = []\<rparr>"
  have r: "run (\<lambda>s. s) sample sample_ciphers new_machine [Received [] (CompleteLoginRequest q)] ?m"
    using run_step [OF login_taken [OF l, of "\<lambda>s. s" new_machine "[]"]] by (simp add: new_machine_def)
  have f: "run (\<lambda>s. s) sample sample_ciphers ?m [Posted [] (CompleteLoginRequest q) (Done (CompleteLoginDone s))] ?m'"
    using run_step [OF newest_finished [of ?m ?j "[]" "\<lambda>s. s" sample sample_ciphers]] by simp
  from every_request_is_answered [OF r] f have "answers ([Received [] (CompleteLoginRequest q)]
      @ [Posted [] (CompleteLoginRequest q) (Done (CompleteLoginDone s))]) = requests [Received [] (CompleteLoginRequest q)]"
    by (metis (no_types, lifting) drained_jobs quiet_posted)
  with r f show ?thesis
    by (intro exI [of _ "[Received [] (CompleteLoginRequest q)]"] exI [of _ ?m]
        exI [of _ "[Posted [] (CompleteLoginRequest q) (Done (CompleteLoginDone s))]"] exI [of _ ?m'] conjI)
      (simp_all add: work_def requests_def)
qed

end
