(* ===== verification/Client_Runs.thy ===== *)
theory Client_Runs
  imports Worker_Client Worker_Runs
begin

text \<open>
  The page and its worker together: a call is settled once, with the answer the worker posted for its
  own request and of the kind it waits for, and no call waits forever unless the worker failed while
  nobody was listening.
\<close>

section \<open>The worker answers in kind\<close>

lemmas call_defs = round_trip_def workerCall_def rotationCall_def
  call_generateSignupMaterial_def call_completeLogin_def call_completeRecovery_def call_completeChangePassword_def
  call_signGroupCreation_def call_signRoleGrant_def call_signSuccessorDesignation_def call_signSuccessorClaim_def
  call_signVerification_def call_signPin_def call_signWrapRecord_def call_signReadmission_def call_getOwnSigningKey_def
  call_signInviteCreation_def call_signInviteAcceptance_def call_completeInvite_def call_startGroupRotation_def
  call_startSelfRekey_def call_selfWrapFromHandoff_def call_startApprovalRekey_def call_signLeaveRotationStart_def
  call_rewrapGroupKey_def call_decryptGroupNames_def call_encryptGroupText_def call_sealPost_def call_sealPostEdit_def
  call_sealCommentEdit_def call_sealComment_def call_openPosts_def call_openComments_def call_sealReaction_def
  call_openReactions_def call_getOwnFingerprint_def call_hasLiveKeys_def call_beginKeyRotation_def call_wrapHandoff_def
  call_signKeyRotation_def call_commitKeyRotation_def call_discardKeyRotation_def

lemma client_call_Some:
  "client_call i req = Some c \<Longrightarrow> ca_id c = i \<and> ca_request c = req \<and> req \<noteq> ClearLiveKeys"
  by (cases req) (auto simp: call_defs)

lemma client_call_exists: "req \<noteq> ClearLiveKeys \<Longrightarrow> \<exists>c. client_call i req = Some c"
  by (cases req) simp_all

text \<open>What a response must be for the request it answers.\<close>

definition proper :: "WorkerRequest \<Rightarrow> WorkerResponse \<Rightarrow> bool" where
  "proper req msg \<longleftrightarrow> (\<forall>i c. client_call i req = Some c \<longrightarrow> (case msg of
     SignupProgress p \<Rightarrow> ca_listens c | Failed e \<Rightarrow> True | Done r \<Rightarrow> done_kind r = ca_doneKind c))"

definition job_proper :: "job \<Rightarrow> bool" where
  "job_proper j \<longleftrightarrow> proper (jb_request j) (response (jb_result j))
     \<and> (\<forall>p\<in>set (jb_steps j). proper (jb_request j) (SignupProgress p))"

lemma handle_kind:
  assumes "handle U P C E w req = (w', Some (ps, Inr (x, k)))" "client_call i req = Some c"
  shows "done_kind x = ca_doneKind c"
  using assms
  by (cases req) (auto simp: call_defs answer_def answer_reported_def answer_changed_def handler_defs guard_defs
      on_completeLogin_def Let_def bind_Inr_iff then_do_def quiet_def
      split: sum.splits option.splits if_splits prod.splits)

lemma handle_reports:
  assumes "handle U P C E w req = (w', Some (ps, r))" "client_call i req = Some c" "ps \<noteq> []"
  shows "ca_listens c"
  using assms
  by (cases req) (auto simp: call_defs answer_def answer_changed_def split: sum.splits prod.splits)

lemma handle_proper:
  assumes "handle U P C E w req = (w', Some (ps, r))"
  shows "proper req (response r)" "p \<in> set ps \<Longrightarrow> proper req (SignupProgress p)"
proof -
  show "proper req (response r)"
  proof (cases r)
    case (Inr a)
    obtain x k where "a = (x, k)" by (cases a)
    with Inr handle_kind [OF assms [unfolded Inr this]] show ?thesis by (simp add: proper_def)
  qed (simp add: proper_def)
  show "proper req (SignupProgress p)" if "p \<in> set ps"
    using that handle_reports [OF assms] by (fastforce simp: proper_def)
qed

section \<open>A step of the worker, from outside\<close>

definition job_key :: "job \<Rightarrow> js_string \<times> WorkerRequest" where
  [simp]: "job_key j = (jb_id j, jb_request j)"

definition reply_key :: "js_string \<times> WorkerRequest \<times> WorkerResponse \<Rightarrow> js_string \<times> WorkerRequest" where
  [simp]: "reply_key x = (fst x, fst (snd x))"

lemma machine_step_proper:
  assumes "machine_step U P C m es m'" "\<And>j. j \<in> set (m_jobs m) \<Longrightarrow> job_proper j"
  shows "(\<forall>j\<in>set (m_jobs m'). job_proper j) \<and> (\<forall>(i, req, msg)\<in>set (replies es). proper req msg)"
  using assms(1)
proof cases
  case (answered E req w' ps r i)
  with handle_proper(1) [OF answered(3)] assms(2) show ?thesis by simp
next
  case (started E req w' ps r i)
  with handle_proper [OF started(3)] assms(2) show ?thesis by (auto simp: job_proper_def)
next
  case (progressed js1 j js2 p ps)
  with assms(2) [of j] assms(2) show ?thesis by (auto simp: job_proper_def)
qed (use assms(2) in \<open>auto simp: job_proper_def\<close>)

lemma machine_step_origin:
  "machine_step U P C m es m' \<Longrightarrow>
     job_key ` set (m_jobs m') \<union> reply_key ` set (replies es)
     \<subseteq> set (taken es) \<union> job_key ` set (m_jobs m)"
  by (induction rule: machine_step.induct) auto

lemma machine_step_answers:
  assumes "machine_step U P C m es m'" "(i, req) \<in> set (taken es) \<union> job_key ` set (m_jobs m)" "req \<noteq> ClearLiveKeys"
  shows "(i, req) \<in> job_key ` set (m_jobs m') \<or> (\<exists>msg. final msg \<and> (i, req, msg) \<in> set (replies es))"
  using assms
  by (induction rule: machine_step.induct) (auto dest: handle_answers)

lemma events_of_machine:
  "(i, req, msg) \<in> set (replies es) \<longleftrightarrow> Posted i req msg \<in> set es" "(i, req) \<in> set (taken es) \<longleftrightarrow> Received i req \<in> set es"
  by (induction es rule: replies.induct) auto

section \<open>The invariant\<close>

definition client_jobs :: "client \<Rightarrow> job list" where
  "client_jobs s = (case cn_worker s of None \<Rightarrow> [] | Some m \<Rightarrow> m_jobs m)"

text \<open>The requests the worker or the queues still hold.\<close>

definition held :: "client \<Rightarrow> (js_string \<times> WorkerRequest) set" where
  "held s = set (cn_requests s) \<union> job_key ` set (client_jobs s) \<union> reply_key ` set (cn_replies s)"

definition answer_of :: "client_event list \<Rightarrow> call \<Rightarrow> settlement \<Rightarrow> bool" where
  "answer_of es c v \<longleftrightarrow> client_call (ca_id c) (ca_request c) = Some c \<and> Called c \<in> set es \<and> (case v of
     Resolved r \<Rightarrow> InWorker (Posted (ca_id c) (ca_request c) (Done r)) \<in> set es \<and> done_kind r = ca_doneKind c
   | Rejected e \<Rightarrow>
       (\<exists>message. InWorker (Posted (ca_id c) (ca_request c) (Failed message)) \<in> set es \<and> e = reconstructWorkerError message)
       \<or> (\<exists>reason. WorkerFailed reason \<in> set es \<and> e = OtherError reason))"

definition calls_ok :: "client_event list \<Rightarrow> client \<Rightarrow> bool" where
  "calls_ok es s \<longleftrightarrow> (\<forall>c\<in>set (cn_calls s). client_call (ca_id c) (ca_request c) = Some c \<and> Called c \<in> set es)
     \<and> (\<forall>i req. (i, req) \<in> held s \<longrightarrow>
          i \<in> cn_ids s \<and> (\<forall>c\<in>set (cn_calls s). ca_id c = i \<longrightarrow> ca_request c = req))"

definition messages_ok :: "client_event list \<Rightarrow> client \<Rightarrow> bool" where
  "messages_ok es s \<longleftrightarrow> (\<forall>j\<in>set (client_jobs s). job_proper j)
     \<and> (\<forall>(i, req, msg)\<in>set (cn_replies s). proper req msg \<and> InWorker (Posted i req msg) \<in> set es)"

fun settled_ids :: "client_event list \<Rightarrow> js_string list" where
  "settled_ids [] = []"
| "settled_ids (SettledCall c v # es) = ca_id c # settled_ids es"
| "settled_ids (e # es) = settled_ids es"

definition settled_ok :: "client_event list \<Rightarrow> client \<Rightarrow> bool" where
  "settled_ok es s \<longleftrightarrow> distinct (settled_ids es @ map ca_id (cn_calls s))
     \<and> set (settled_ids es @ map ca_id (cn_calls s)) \<subseteq> cn_ids s
     \<and> (\<forall>c v. SettledCall c v \<in> set es \<longrightarrow> answer_of es c v)"

definition awaited :: "client \<Rightarrow> bool" where
  "awaited s \<longleftrightarrow> cn_broken s \<or> (\<forall>c\<in>set (cn_calls s). cn_worker s \<noteq> None
     \<and> ((ca_id c, ca_request c) \<in> set (cn_requests s) \<union> job_key ` set (client_jobs s)
        \<or> (\<exists>msg. final msg \<and> (ca_id c, ca_request c, msg) \<in> set (cn_replies s))))"

definition client_ok :: "client_event list \<Rightarrow> client \<Rightarrow> bool" where
  "client_ok es s \<longleftrightarrow> calls_ok es s \<and> messages_ok es s \<and> settled_ok es s \<and> awaited s"

lemma answer_of_mono: "answer_of es c v \<Longrightarrow> answer_of (es @ es') c v"
  unfolding answer_of_def by (cases v) auto

lemma settled_ids_append [simp]: "settled_ids (es @ es') = settled_ids es @ settled_ids es'"
  by (induction es rule: settled_ids.induct) auto

lemma settled_ids_workers [simp]: "settled_ids (map InWorker es) = []"
  by (induction es) simp_all

lemma calls_ok_less:
  assumes "calls_ok es s" "held s' \<subseteq> held s" "set (cn_calls s') \<subseteq> set (cn_calls s)" "cn_ids s' = cn_ids s"
  shows "calls_ok (es @ es') s'"
  using assms by (simp add: calls_ok_def subset_iff) blast

lemma getWorker_jobs: "m_jobs (getWorker s) = client_jobs s"
  by (simp add: getWorker_def client_jobs_def new_machine_def split: option.split)

lemma client_jobs_simps [simp]:
  "client_jobs (s\<lparr>cn_broken := b\<rparr>) = client_jobs s" "client_jobs (s\<lparr>cn_requests := q\<rparr>) = client_jobs s"
  "client_jobs (s\<lparr>cn_replies := r\<rparr>) = client_jobs s" "client_jobs (s\<lparr>cn_calls := cs\<rparr>) = client_jobs s"
  "client_jobs (s\<lparr>cn_ids := is\<rparr>) = client_jobs s" "client_jobs (s\<lparr>cn_worker := None\<rparr>) = []"
  "client_jobs (s\<lparr>cn_worker := Some m\<rparr>) = m_jobs m"
  by (simp_all add: client_jobs_def)

lemma settles:
  "on_message c i msg = Settled v \<Longrightarrow> i = ca_id c"
  "final msg \<Longrightarrow> \<not> still_waits (ca_id c) msg c"
  by (auto simp: on_message_def still_waits_def unexpected_def split: if_splits WorkerResponse.splits)

lemma proper_settles:
  assumes "on_message c (ca_id c) msg = Settled v" "proper (ca_request c) msg" "client_call (ca_id c) (ca_request c) = Some c"
    and "Called c \<in> set es" "InWorker (Posted (ca_id c) (ca_request c) msg) \<in> set es"
  shows "answer_of es c v"
  using assms
  by (cases msg) (auto simp: on_message_def answer_of_def proper_def split: if_splits)

lemma reaction_settles:
  "SettledCall c v \<in> set (reaction_events i msg x) \<longleftrightarrow> x = c \<and> on_message c i msg = Settled v"
  by (cases "on_message x i msg") (auto simp: reaction_events_def)

lemma settled_ids_reactions:
  "settled_ids (concat (map (reaction_events i msg) cs)) = map ca_id (filter (\<lambda>c. \<not> still_waits i msg c) cs)"
  by (induction cs) (auto simp: reaction_events_def still_waits_def split: reaction.split)

lemma distinct_filter_split:
  "distinct (xs @ map f ys) \<Longrightarrow> distinct ((xs @ map f (filter (\<lambda>y. \<not> P y) ys)) @ map f (filter P ys))"
  by (induction ys) auto

lemma called_ok:
  assumes "client_ok es s" "client_call i req = Some c" "i \<notin> cn_ids s"
  shows "client_ok (es @ [Called c]) (s\<lparr>cn_worker := Some (getWorker s), cn_requests := cn_requests s @ [(i, req)],
      cn_calls := cn_calls s @ [c], cn_ids := insert i (cn_ids s)\<rparr>)" (is "client_ok _ ?s")
proof -
  note c = client_call_Some [OF assms(2)]
  have held: "held ?s = insert (i, req) (held s)" by (auto simp: held_def getWorker_jobs)
  have "calls_ok (es @ [Called c]) ?s"
    using assms c unfolding calls_ok_def held by (fastforce simp: client_ok_def calls_ok_def settled_ok_def)
  moreover have "messages_ok (es @ [Called c]) ?s"
    using assms(1) by (auto simp: client_ok_def messages_ok_def getWorker_jobs)
  moreover have "settled_ok (es @ [Called c]) ?s"
    using assms c by (auto simp: client_ok_def settled_ok_def answer_of_mono)
  moreover have "awaited ?s"
    using assms(1) c by (auto simp: client_ok_def awaited_def getWorker_jobs)
  ultimately show ?thesis by (simp add: client_ok_def)
qed

lemma logged_out_ok:
  assumes "client_ok es s" "i \<notin> cn_ids s"
  shows "client_ok (es @ [LoggedOut i]) (s\<lparr>cn_worker := Some (getWorker s),
      cn_requests := cn_requests s @ [(i, ClearLiveKeys)], cn_ids := insert i (cn_ids s)\<rparr>)" (is "client_ok _ ?s")
proof -
  have held: "held ?s = insert (i, ClearLiveKeys) (held s)" by (auto simp: held_def getWorker_jobs)
  have "calls_ok (es @ [LoggedOut i]) ?s"
    using assms unfolding calls_ok_def held by (fastforce simp: client_ok_def calls_ok_def settled_ok_def)
  moreover have "messages_ok (es @ [LoggedOut i]) ?s"
    using assms(1) by (auto simp: client_ok_def messages_ok_def getWorker_jobs)
  moreover have "settled_ok (es @ [LoggedOut i]) ?s"
    using assms by (auto simp: client_ok_def settled_ok_def answer_of_mono)
  moreover have "awaited ?s"
    using assms(1) by (auto simp: client_ok_def awaited_def getWorker_jobs)
  ultimately show ?thesis by (simp add: client_ok_def)
qed

lemma worked_ok:
  assumes "client_ok es s" "cn_worker s = Some m" "machine_step U P C m es' m'" "cn_requests s = taken es' @ rest"
  shows "client_ok (es @ map InWorker es')
      (s\<lparr>cn_worker := Some m', cn_requests := rest, cn_replies := cn_replies s @ replies es'\<rparr>)" (is "client_ok _ ?s")
proof -
  have jobs: "client_jobs s = m_jobs m" using assms(2) by (simp add: client_jobs_def)
  have "held ?s = set rest \<union> (job_key ` set (m_jobs m') \<union> reply_key ` set (replies es')) \<union> reply_key ` set (cn_replies s)"
    by (simp add: held_def client_jobs_def image_Un Un_ac)
  also have "\<dots> \<subseteq> set rest \<union> (set (taken es') \<union> job_key ` set (m_jobs m)) \<union> reply_key ` set (cn_replies s)"
    using machine_step_origin [OF assms(3)] by blast
  also have "\<dots> = held s" by (simp only: held_def jobs assms(4) set_append Un_ac)
  finally have held: "held ?s \<subseteq> held s" .
  with assms(1) have "calls_ok (es @ map InWorker es') ?s" by (intro calls_ok_less [of es s]) (simp_all add: client_ok_def)
  moreover have "messages_ok (es @ map InWorker es') ?s"
    using assms(1) machine_step_proper [OF assms(3)]
    by (fastforce simp: client_ok_def messages_ok_def jobs events_of_machine)
  moreover have "settled_ok (es @ map InWorker es') ?s"
    using assms(1) by (auto simp: client_ok_def settled_ok_def answer_of_mono)
  moreover have "awaited ?s"
  proof -
    have "(ca_id c, ca_request c) \<in> set rest \<union> job_key ` set (m_jobs m')
        \<or> (\<exists>msg. final msg \<and> (ca_id c, ca_request c, msg) \<in> set (cn_replies s @ replies es'))"
      if "\<not> cn_broken s" "c \<in> set (cn_calls s)" for c
    proof -
      from assms(1) that(2) have "ca_request c \<noteq> ClearLiveKeys"
        by (auto simp: client_ok_def calls_ok_def dest!: client_call_Some)
      note step = machine_step_answers [OF assms(3) _ this]
      from assms(1,4) that have "(ca_id c, ca_request c) \<in> set rest \<union> (set (taken es') \<union> job_key ` set (m_jobs m))
          \<or> (\<exists>msg. final msg \<and> (ca_id c, ca_request c, msg) \<in> set (cn_replies s))"
        by (auto simp: client_ok_def awaited_def jobs)
      with step [of "ca_id c"] show ?thesis by (metis Un_iff set_append)
    qed
    then show ?thesis by (simp add: awaited_def) blast
  qed
  ultimately show ?thesis by (simp add: client_ok_def)
qed

lemma delivered_ok:
  assumes "client_ok es s" "cn_replies s = (i, req, msg) # rest"
  shows "client_ok (es @ concat (map (reaction_events i msg) (cn_calls s)))
      (s\<lparr>cn_replies := rest, cn_calls := filter (still_waits i msg) (cn_calls s)\<rparr>)" (is "client_ok (es @ ?es) ?s")
proof -
  have held: "held ?s \<subseteq> held s"
    using assms(2) by (auto simp: held_def)
  with assms(1) have "calls_ok (es @ ?es) ?s" by (intro calls_ok_less [of es s]) (auto simp: client_ok_def)
  moreover have "messages_ok (es @ ?es) ?s" using assms by (auto simp: client_ok_def messages_ok_def)
  moreover have "settled_ok (es @ ?es) ?s"
  proof -
    have "answer_of (es @ ?es) c v" if "SettledCall c v \<in> set ?es" for c v
    proof -
      from that have c: "c \<in> set (cn_calls s)" "on_message c i msg = Settled v"
        by (auto simp: reaction_settles)
      moreover from c settles(1) have "i = ca_id c" by blast
      moreover have "(i, req) \<in> held s" using assms(2) by (auto simp: held_def)
      ultimately have "req = ca_request c" using assms(1) by (fastforce simp: client_ok_def calls_ok_def)
      with c \<open>i = ca_id c\<close> assms have "answer_of es c v"
        by (intro proper_settles [of c msg v es]) (auto simp: client_ok_def calls_ok_def messages_ok_def)
      then show ?thesis by (rule answer_of_mono)
    qed
    with assms(1) distinct_filter_split [of "settled_ids es" ca_id "cn_calls s" "still_waits i msg"] show ?thesis
      by (auto simp: client_ok_def settled_ok_def settled_ids_reactions answer_of_mono)
  qed
  moreover have "awaited ?s"
    using assms settles(2) by (fastforce simp: client_ok_def awaited_def)
  ultimately show ?thesis by (simp add: client_ok_def)
qed

lemma failed_ok:
  assumes "client_ok es s" "fail_calls reason s = (s', es')"
  shows "client_ok (es @ es') s'"
proof -
  have ids: "settled_ids (map (\<lambda>c. SettledCall c v) cs) = map ca_id cs" for v cs by (induction cs) simp_all
  from assms(2) have e: "es' = WorkerFailed reason # map (\<lambda>c. SettledCall c (Rejected (OtherError reason))) (cn_calls s)"
    "s' = s\<lparr>cn_worker := None, cn_requests := [], cn_replies := [], cn_calls := []\<rparr>"
    by (auto simp: fail_calls_def)
  have "settled_ok (es @ es') s'"
    using assms(1) by (auto simp: client_ok_def settled_ok_def calls_ok_def e ids answer_of_mono) (auto simp: answer_of_def)
  then show ?thesis by (simp add: client_ok_def e calls_ok_def messages_ok_def awaited_def held_def)
qed

lemma failed_unheard_ok:
  "client_ok es s \<Longrightarrow> client_ok (es @ [WorkerFailed reason]) (s\<lparr>cn_broken := True\<rparr>)"
  by (auto simp: client_ok_def calls_ok_def messages_ok_def settled_ok_def awaited_def held_def answer_of_mono)

lemma client_step_ok:
  "client_step U P C s es' s' \<Longrightarrow> client_ok es s \<Longrightarrow> client_ok (es @ es') s'"
  by (induction rule: client_step.induct)
    (simp_all add: called_ok logged_out_ok worked_ok delivered_ok failed_ok failed_unheard_ok)

lemma client_run_ok: "client_run U P C new_client es s \<Longrightarrow> client_ok es s"
proof (induction "new_client" es s rule: client_run.induct)
  case opened
  show ?case
    by (simp add: client_ok_def calls_ok_def messages_ok_def settled_ok_def awaited_def new_client_def held_def client_jobs_def)
next
  case (stepped es s' es' s'')
  then show ?case by (blast intro: client_step_ok)
qed

end
