(* ===== verification/Client_Properties.thy ===== *)
theory Client_Properties
  imports Client_Runs
begin

text \<open>Theorems about the calls of the main thread and the worker that answers them.\<close>

section \<open>Serving\<close>

text \<open>A step in which the page makes no call, logs nobody out and loses no worker.\<close>

definition serving :: "client_event list \<Rightarrow> bool" where
  "serving es \<longleftrightarrow> (\<forall>e\<in>set es. case e of Called _ \<Rightarrow> False | LoggedOut _ \<Rightarrow> False | WorkerFailed _ \<Rightarrow> False | _ \<Rightarrow> True)"

definition serve :: "(js_string \<Rightarrow> js_string) \<Rightarrow> prims \<Rightarrow> ciphers \<Rightarrow> client \<Rightarrow> client \<Rightarrow> bool" where
  "serve U P C s s' \<longleftrightarrow> (\<exists>es. client_step U P C s es s' \<and> serving es)"

definition client_work :: "client \<Rightarrow> nat" where
  "client_work s = (case cn_worker s of None \<Rightarrow> 0 | Some m \<Rightarrow> work m)"

definition load :: "client \<Rightarrow> nat \<times> nat \<times> nat" where
  "load s = (length (cn_requests s), client_work s, length (cn_replies s))"

definition lighter :: "((nat \<times> nat \<times> nat) \<times> (nat \<times> nat \<times> nat)) set" where
  "lighter = less_than <*lex*> less_than <*lex*> less_than"

lemma serving_simps [simp]:
  "serving (es @ es') \<longleftrightarrow> serving es \<and> serving es'" "serving (map InWorker ws)"
  "serving []" "\<not> serving [Called c]" "\<not> serving [LoggedOut i]" "\<not> serving (WorkerFailed r # es)"
  "serving (concat (map (reaction_events i msg) cs))"
  by (auto simp: serving_def reaction_events_def split: reaction.splits)

lemma quiet_taken: "taken es = [] \<longleftrightarrow> quiet_events es"
  by (induction es rule: taken.induct) (auto simp: quiet_events_def)

lemma serve_lighter:
  assumes "serve U P C s s'"
  shows "(load s', load s) \<in> lighter"
proof -
  from assms obtain es where step: "client_step U P C s es s'" and es: "serving es" by (auto simp: serve_def)
  from step show ?thesis
  proof cases
    case (worked m es' m' rest)
    show ?thesis
    proof (cases "taken es'")
      case Nil
      then have "quiet_events es'" by (simp add: quiet_taken)
      with machine_step_work [OF worked(5)] Nil worked show ?thesis
        by (auto simp: lighter_def load_def client_work_def)
    qed (use worked in \<open>simp add: lighter_def load_def\<close>)
  next
    case (delivered i req msg rest)
    then show ?thesis by (simp add: lighter_def load_def client_work_def)
  qed (use es in \<open>auto simp: fail_calls_def\<close>)
qed

lemma wf_lighter: "wf lighter"
  by (auto simp: lighter_def)

lemma worker_takes: "\<exists>es m'. machine_step U P C m es m' \<and> taken es = [(i, req)]"
proof -
  obtain w' oc where h: "handle U P C undefined (m_worker m) req = (w', oc)" by (cases "handle U P C undefined (m_worker m) req")
  show ?thesis
  proof (cases oc)
    case None
    from machine_step.cleared [OF h [unfolded this], of i] show ?thesis by fastforce
  next
    case (Some o')
    then obtain ps r where "handle U P C undefined (m_worker m) req = (w', Some (ps, r))" using h by (cases o') simp
    from machine_step.answered [OF this, of i] machine_step.started [OF this, of i] show ?thesis
      by (cases "synchronous req") fastforce+
  qed
qed

lemma serve_possible:
  assumes "client_ok es s" "\<not> cn_broken s" "cn_calls s \<noteq> []"
  shows "\<exists>s'. serve U P C s s'"
proof (cases "cn_replies s")
  case (Cons x rest)
  then obtain i req msg where "cn_replies s = (i, req, msg) # rest" by (cases x) simp
  from client_step.delivered [OF this] show ?thesis by (fastforce simp: serve_def)
next
  case Nil
  from assms(3) obtain c where "c \<in> set (cn_calls s)" by (cases "cn_calls s") auto
  with assms(1,2) Nil obtain m where m: "cn_worker s = Some m"
    and c: "(ca_id c, ca_request c) \<in> set (cn_requests s) \<union> job_key ` set (m_jobs m)"
    by (auto simp: client_ok_def awaited_def client_jobs_def)
  have "\<exists>es' m' rest. machine_step U P C m es' m' \<and> cn_requests s = taken es' @ rest"
  proof (cases "cn_requests s")
    case Nil
    with c have "work m \<noteq> 0" by (auto simp: work_def)
    from work_left [OF this, of U P C] Nil show ?thesis by (auto simp: quiet_taken [symmetric])
  next
    case (Cons x rest)
    obtain i req where "x = (i, req)" by (cases x)
    with worker_takes [of U P C m i req] Cons show ?thesis by fastforce
  qed
  then obtain es' m' rest where "machine_step U P C m es' m'" "cn_requests s = taken es' @ rest" by blast
  from client_step.worked [OF m assms(2) this] show ?thesis by (metis serve_def serving_simps(2))
qed

lemma client_run_append:
  assumes "client_run U P C s' es' s''" "client_run U P C s es s'"
  shows "client_run U P C s (es @ es') s''"
  using assms
proof (induction rule: client_run.induct)
  case (stepped s' es' s1 es1 s2)
  then show ?case using client_run.stepped [of U P C s "es @ es'" s1 es1 s2] by simp
qed simp

lemma client_run_step: "client_step U P C s es s' \<Longrightarrow> client_run U P C s es s'"
  using client_run.stepped [OF client_run.opened] by fastforce

lemma serving_keeps_worker:
  assumes "client_run U P C s es s'" "serving es"
  shows "cn_broken s' = cn_broken s"
  using assms
proof (induction rule: client_run.induct)
  case (stepped s es s' es' s'')
  from stepped(2) stepped(4) have "cn_broken s'' = cn_broken s'" by cases (auto simp: fail_calls_def)
  with stepped show ?case by simp
qed simp

section \<open>A call to run with\<close>

definition asked :: "js_string \<Rightarrow> client" where
  "asked i = new_client\<lparr>cn_worker := Some new_machine, cn_requests := [(i, HasLiveKeys alice)],
     cn_calls := [call_hasLiveKeys i alice], cn_ids := {i}\<rparr>"

lemma asked_run: "client_run U P C new_client [Called (call_hasLiveKeys i alice)] (asked i)"
proof -
  have "client_call i (HasLiveKeys alice) = Some (call_hasLiveKeys i alice)" by simp
  from client_run_step [OF client_step.called [OF this, of new_client]] show ?thesis
    by (simp add: asked_def new_client_def getWorker_def)
qed

lemma asked_answered:
  "\<exists>es s. client_run U P C (asked i) es s
     \<and> SettledCall (call_hasLiveKeys i alice) (Resolved (HasLiveKeysDone False)) \<in> set es"
proof -
  let ?req = "HasLiveKeys alice" and ?c = "call_hasLiveKeys i alice"
  let ?s = "(asked i)\<lparr>cn_worker := Some new_machine, cn_requests := [], cn_replies := [(i, ?req, Done (HasLiveKeysDone False))]\<rparr>"
  have h: "handle U P C undefined (m_worker new_machine) ?req = (m_worker new_machine, Some ([], Inr (HasLiveKeysDone False, None)))"
    by (simp add: answer_def no_keys_def on_hasLiveKeys_def liveKeysWarmFor_def new_machine_def new_worker_def)
  have "machine_step U P C new_machine [Received i ?req, Posted i ?req (Done (HasLiveKeysDone False))] new_machine"
    using machine_step.answered [OF h, of i] by (simp add: synchronous_def)
  from client_run_step [OF client_step.worked [OF _ _ this, of "asked i" "[]"]] have
    w: "client_run U P C (asked i) (map InWorker [Received i ?req, Posted i ?req (Done (HasLiveKeysDone False))]) ?s"
    by (simp add: asked_def new_client_def)
  have "cn_replies ?s = [(i, ?req, Done (HasLiveKeysDone False))]" by simp
  from client_run_append [OF client_run_step [OF client_step.delivered [OF this]] w] show ?thesis
    by (intro exI conjI) (auto simp: asked_def reaction_events_def on_message_def call_hasLiveKeys_def round_trip_def new_client_def)
qed

section \<open>Properties\<close>

text \<open>
  C23: a call gets its own answer, once.  However the calls of the page, the worker and the two queues
  have interleaved, a promise that is settled was settled once; if it resolved, then with what the worker
  posted for its own request, of the kind its function waits for; and if it was rejected, then with the
  error the worker posted for that request or because the worker failed.  No call is ever rejected for a
  response of another kind.
\<close>
theorem client_settles_with_its_answer:
  assumes "client_run U P C new_client es s"
  shows "distinct (settled_ids es)
    \<and> (\<forall>c r. SettledCall c (Resolved r) \<in> set es \<longrightarrow>
         Called c \<in> set es \<and> client_call (ca_id c) (ca_request c) = Some c
         \<and> InWorker (Posted (ca_id c) (ca_request c) (Done r)) \<in> set es \<and> done_kind r = ca_doneKind c)
    \<and> (\<forall>c e. SettledCall c (Rejected e) \<in> set es \<longrightarrow>
         (\<exists>message. InWorker (Posted (ca_id c) (ca_request c) (Failed message)) \<in> set es \<and> e = reconstructWorkerError message)
         \<or> (\<exists>reason. WorkerFailed reason \<in> set es \<and> e = OtherError reason))"
proof -
  from client_run_ok [OF assms] have d: "distinct (settled_ids es)"
    and a: "SettledCall c v \<in> set es \<Longrightarrow> answer_of es c v" for c v
    by (auto simp: client_ok_def settled_ok_def)
  show ?thesis
  proof (intro conjI allI impI)
    fix c r
    assume "SettledCall c (Resolved r) \<in> set es"
    from a [OF this] show "Called c \<in> set es" "client_call (ca_id c) (ca_request c) = Some c"
      "InWorker (Posted (ca_id c) (ca_request c) (Done r)) \<in> set es" "done_kind r = ca_doneKind c"
      by (simp_all add: answer_of_def)
  next
    fix c e
    assume "SettledCall c (Rejected e) \<in> set es"
    from a [OF this] show "(\<exists>message. InWorker (Posted (ca_id c) (ca_request c) (Failed message)) \<in> set es
        \<and> e = reconstructWorkerError message) \<or> (\<exists>reason. WorkerFailed reason \<in> set es \<and> e = OtherError reason)"
      by (simp add: answer_of_def)
  qed (rule d)
qed

theorem client_settles_with_its_answer_witness:
  "\<exists>es s c. client_run (\<lambda>s. s) sample sample_ciphers new_client es s
     \<and> SettledCall c (Resolved (HasLiveKeysDone False)) \<in> set es
     \<and> InWorker (Posted (ca_id c) (ca_request c) (Done (HasLiveKeysDone False))) \<in> set es"
proof -
  from asked_answered obtain es s where
    r: "client_run (\<lambda>s. s) sample sample_ciphers (asked (js ''1'')) es s"
    and d: "SettledCall (call_hasLiveKeys (js ''1'') alice) (Resolved (HasLiveKeysDone False)) \<in> set es" by blast
  from client_run_append [OF r asked_run] have
    run: "client_run (\<lambda>s. s) sample sample_ciphers new_client ([Called (call_hasLiveKeys (js ''1'') alice)] @ es) s" .
  from client_settles_with_its_answer [OF run] d run show ?thesis by (metis Un_iff set_append)
qed

text \<open>
  C24: no call waits forever.  From every state the page reaches with a worker that did not fail
  unheard, serving what has been asked, in whatever order, comes to an end, and at its end every call has been settled.
\<close>
theorem client_calls_are_settled:
  assumes "client_run U P C new_client es s" "\<not> cn_broken s"
  shows "\<not> (\<exists>f. f 0 = s \<and> (\<forall>n. serve U P C (f n) (f (Suc n))))
    \<and> (\<forall>es' s'. client_run U P C s es' s' \<longrightarrow> serving es' \<longrightarrow> (\<nexists>s''. serve U P C s' s'') \<longrightarrow> cn_calls s' = [])"
proof -
  have "\<not> (\<exists>f. \<forall>n. (f (Suc n), f n) \<in> lighter)" using wf_lighter by (simp add: wf_iff_no_infinite_down_chain)
  then have "\<not> (\<exists>f. f 0 = s \<and> (\<forall>n. serve U P C (f n) (f (Suc n))))" using serve_lighter by meson
  moreover have "cn_calls s' = []"
    if "client_run U P C s es' s'" "serving es'" "\<nexists>s''. serve U P C s' s''" for es' s'
    using serve_possible [OF client_run_ok [OF client_run_append [OF that(1) assms(1)]]]
      serving_keeps_worker [OF that(1,2)] assms(2) that(3) by blast
  ultimately show ?thesis by blast
qed

theorem client_calls_are_settled_witness:
  "cn_calls (asked (js ''1'')) \<noteq> [] \<and> (\<exists>s'. serve (\<lambda>s. s) sample sample_ciphers (asked (js ''1'')) s')"
proof -
  have b: "\<not> cn_broken (asked (js ''1''))" "cn_calls (asked (js ''1'')) \<noteq> []" by (simp_all add: asked_def new_client_def)
  from client_calls_are_settled [OF asked_run b(1)] have
    "client_run (\<lambda>s. s) sample sample_ciphers (asked (js ''1'')) [] (asked (js ''1'')) \<Longrightarrow> serving []
     \<Longrightarrow> \<exists>s'. serve (\<lambda>s. s) sample sample_ciphers (asked (js ''1'')) s'" using b(2) by blast
  with b(2) client_run.opened show ?thesis by simp
qed

text \<open>
  The condition is needed.  \<open>clearLiveKeys\<close> may be the call that creates the worker, and it listens to
  nothing: if that worker fails to load, it is kept, and the next call waits forever.
\<close>

lemma silent_failure_hangs:
  assumes "i \<noteq> j"
  shows "\<exists>s. client_run U P C new_client [LoggedOut i, WorkerFailed reason, Called (call_hasLiveKeys j alice)] s
    \<and> cn_calls s \<noteq> [] \<and> (\<nexists>s'. serve U P C s s')"
proof -
  let ?s1 = "new_client\<lparr>cn_worker := Some new_machine, cn_requests := [(i, ClearLiveKeys)], cn_ids := {i}\<rparr>"
  let ?s2 = "?s1\<lparr>cn_broken := True\<rparr>"
  let ?s3 = "?s2\<lparr>cn_requests := [(i, ClearLiveKeys), (j, HasLiveKeys alice)],
      cn_calls := [call_hasLiveKeys j alice], cn_ids := {j, i}\<rparr>"
  have 1: "client_run U P C new_client [LoggedOut i] ?s1"
    using client_run_step [OF client_step.logged_out [of i new_client U P C]] by (simp add: new_client_def getWorker_def)
  have 2: "client_run U P C ?s1 [WorkerFailed reason] ?s2"
    by (rule client_run_step, rule client_step.failed_unheard) (simp_all add: new_client_def)
  have "client_call j (HasLiveKeys alice) = Some (call_hasLiveKeys j alice)" by simp
  from client_step.called [OF this, of ?s2] assms have 3: "client_run U P C ?s2 [Called (call_hasLiveKeys j alice)] ?s3"
    by (intro client_run_step) (simp add: new_client_def getWorker_def)
  have "\<not> serve U P C ?s3 s'" for s'
    unfolding serve_def by (auto elim!: client_step.cases simp: new_client_def fail_calls_def)
  with client_run_append [OF 3 client_run_append [OF 2 1]] show ?thesis
    by (intro exI [of _ ?s3]) simp
qed

end
