(* ===== verification/Successors.thy ===== *)
theory Successors
  imports Group_Material Membership
begin

text \<open>
  lib/groups/designation.ts: what the served designations say right now, for the screen that manages
  them; and the two flows of routes/runSuccessor.ts, which sign and send a designation or a claim.
  A flow's signer and its request to the server are arguments that answer by attempt; the flow is modelled
  with the requests it sends.
\<close>

section \<open>designation.ts\<close>

definition SUGGESTED_PERIOD_DAYS :: int where "SUGGESTED_PERIOD_DAYS = 90"

definition keyDayMs :: "prims \<Rightarrow> js_string \<Rightarrow> int option" where
  "keyDayMs P sortKey =
     (case (case match_key (js ''DESIGNATION#'') sortKey of
              Some m \<Rightarrow> Some m | None \<Rightarrow> match_key (js ''GRANT#'') sortKey) of
        None \<Rightarrow> None
      | Some m \<Rightarrow> date_parse (date_other P) (snd m @ js ''T00:00:00Z''))"

definition utcDayMs :: "int \<Rightarrow> int" where "utcDayMs nowMs = nowMs div DAY_MS * DAY_MS"

definition formatDay :: "int \<Rightarrow> js_string" where "formatDay dayMs = isoDay dayMs"

definition addDays :: "int \<Rightarrow> int \<Rightarrow> int" where "addDays dayMs days = dayMs + days * DAY_MS"

record MemberLike =
  ml_userId :: js_string
  ml_role :: js_string

datatype AdminSuccessorStatus =
    NoSuccessor
  | SuccessorRevoked int
  | SuccessorCancelled int
  | SuccessorUsed DesignationRecord js_string
  | SuccessorLapsed DesignationRecord int
  | SuccessorGone DesignationRecord
  | SuccessorAdmin DesignationRecord
  | SuccessorActive DesignationRecord js_string int int int

datatype NewestDesignation = Newest DesignationRecord int | CancelledOn int

text \<open>The loop of \<open>newestOf\<close>: the best day so far (\<open>None\<close>: minus infinity) and the designations on it.\<close>

fun scan_newest ::
  "prims \<Rightarrow> js_string \<Rightarrow> DesignationRecord list \<Rightarrow> int option \<times> DesignationRecord list
   \<Rightarrow> int option \<times> DesignationRecord list" where
  "scan_newest P adminUserId [] acc = acc"
| "scan_newest P adminUserId (d # ds) acc =
     (if de_adminUserId d \<noteq> adminUserId then scan_newest P adminUserId ds acc
      else case keyDayMs P (de_sortKey d) of
        None \<Rightarrow> scan_newest P adminUserId ds acc
      | Some day \<Rightarrow>
          scan_newest P adminUserId ds
            (if (case fst acc of None \<Rightarrow> True | Some bestDay \<Rightarrow> bestDay < day) then (Some day, [d])
             else if fst acc = Some day then (fst acc, snd acc @ [d]) else acc))"

definition newestOf :: "prims \<Rightarrow> js_string \<Rightarrow> DesignationRecord list \<Rightarrow> NewestDesignation option" where
  "newestOf P adminUserId designations =
     (case scan_newest P adminUserId designations (None, []) of
        (Some bestDay, [d]) \<Rightarrow> Some (Newest d bestDay)
      | (Some bestDay, d # e # ds) \<Rightarrow> Some (CancelledOn bestDay)
      | _ \<Rightarrow> None)"

fun scan_first_grant ::
  "prims \<Rightarrow> js_string \<Rightarrow> GrantRecord list \<Rightarrow> int \<Rightarrow> int \<Rightarrow> int option \<Rightarrow> int option" where
  "scan_first_grant P adminUserId [] fromDay toDay found = found"
| "scan_first_grant P adminUserId (g # gs) fromDay toDay found =
     scan_first_grant P adminUserId gs fromDay toDay
       (if gr_subjectUserId g \<noteq> adminUserId then found
        else case keyDayMs P (gr_sortKey g) of
          None \<Rightarrow> found
        | Some day \<Rightarrow>
            if fromDay \<le> day \<and> day \<le> toDay \<and> (case found of None \<Rightarrow> True | Some f \<Rightarrow> day < f) then Some day else found)"

definition firstGrantToAdmin :: "prims \<Rightarrow> js_string \<Rightarrow> GrantRecord list \<Rightarrow> int \<Rightarrow> int \<Rightarrow> int option" where
  "firstGrantToAdmin P adminUserId grants fromDay toDay = scan_first_grant P adminUserId grants fromDay toDay None"

definition claimedBy :: "js_string \<Rightarrow> GrantRecord list \<Rightarrow> js_string option" where
  "claimedBy sortKey grants =
     (case List.find (\<lambda>x. gr_viaDesignation x = Some sortKey) grants of
        None \<Rightarrow> None | Some g \<Rightarrow> Some (gr_subjectUserId g))"

definition is_member :: "js_string \<Rightarrow> MemberLike list \<Rightarrow> bool" where
  "is_member u members \<longleftrightarrow> list_ex (\<lambda>m. ml_userId m = u) members"

definition is_admin :: "js_string \<Rightarrow> MemberLike list \<Rightarrow> bool" where
  "is_admin u members \<longleftrightarrow> list_ex (\<lambda>m. ml_userId m = u \<and> ml_role m = js ''admin'') members"

definition adminSuccessorStatus ::
  "prims \<Rightarrow> js_string \<Rightarrow> DesignationRecord list \<Rightarrow> GrantRecord list \<Rightarrow> MemberLike list \<Rightarrow> int
   \<Rightarrow> AdminSuccessorStatus" where
  "adminSuccessorStatus P adminUserId designations grants members nowMs =
     (case newestOf P adminUserId designations of
        None \<Rightarrow> NoSuccessor
      | Some (CancelledOn day) \<Rightarrow> SuccessorCancelled day
      | Some (Newest d day) \<Rightarrow>
          (case de_successorUserId d of
             None \<Rightarrow> SuccessorRevoked day
           | Some successor \<Rightarrow>
               if successor = [] then SuccessorRevoked day
               else case claimedBy (de_sortKey d) grants of
                 Some taker \<Rightarrow> SuccessorUsed d taker
               | None \<Rightarrow>
                   (case firstGrantToAdmin P adminUserId grants day (utcDayMs nowMs) of
                      Some since \<Rightarrow> SuccessorLapsed d since
                    | None \<Rightarrow>
                        if \<not> is_member successor members then SuccessorGone d
                        else if is_admin successor members then SuccessorAdmin d
                        else SuccessorActive d successor (de_periodDays d) day (addDays day (de_periodDays d)))))"

record SuccessorOffer =
  so_designation :: DesignationRecord
  so_adminUserId :: js_string
  so_periodDays :: int
  so_designationDay :: int
  so_claimableFrom :: int
  so_periodElapsed :: bool

definition offer_of ::
  "prims \<Rightarrow> js_string \<Rightarrow> DesignationRecord list \<Rightarrow> GrantRecord list \<Rightarrow> MemberLike list \<Rightarrow> int \<Rightarrow> js_string
   \<Rightarrow> SuccessorOffer option" where
  "offer_of P userId designations grants members claimDayMs adminUserId =
     (if \<not> is_admin adminUserId members then None
      else case newestOf P adminUserId designations of
        Some (Newest d day) \<Rightarrow>
          if de_successorUserId d \<noteq> Some userId then None
          else if claimedBy (de_sortKey d) grants \<noteq> None then None
          else if firstGrantToAdmin P adminUserId grants day claimDayMs \<noteq> None then None
          else let claimableFrom = addDays day (de_periodDays d)
               in Some \<lparr>so_designation = d, so_adminUserId = adminUserId, so_periodDays = de_periodDays d,
                    so_designationDay = day, so_claimableFrom = claimableFrom,
                    so_periodElapsed = (claimableFrom \<le> claimDayMs)\<rparr>
      | _ \<Rightarrow> None)"

definition successorOffers ::
  "prims \<Rightarrow> js_string \<Rightarrow> DesignationRecord list \<Rightarrow> GrantRecord list \<Rightarrow> MemberLike list \<Rightarrow> int
   \<Rightarrow> SuccessorOffer list" where
  "successorOffers P userId designations grants members claimDayMs =
     List.map_filter (offer_of P userId designations grants members claimDayMs)
       (unique_list (map de_adminUserId (filter (\<lambda>d. de_successorUserId d = Some userId) designations)))"

section \<open>runSuccessor.ts\<close>

record SuccessorView =
  sv_groupId :: js_string
  sv_myRole :: js_string
  sv_myGrantSortKey :: "js_string option"
  sv_members :: "MemberLike list"
  sv_designations :: "DesignationRecord list"
  sv_grants :: "GrantRecord list"

text \<open>What a rejected promise carries: an \<open>ApiError\<close>, or another \<open>Error\<close>.\<close>

datatype thrown = ApiError int "js_string option" js_string | OtherThrown js_string

datatype SuccessorActionResult =
    ActionOk | ActionStale | ActionForbidden | ActionAuthRequired | ActionColdKeys | ActionNotFound
  | ActionRejected js_string | ActionAmbiguous

definition MAX_SIGN_ATTEMPTS :: nat where "MAX_SIGN_ATTEMPTS = 2"

definition DESIGNATE_STALE_CODES :: "js_string list" where
  "DESIGNATE_STALE_CODES = map js [''grantor_ref_stale'', ''grantor_changed'', ''conflict_retry'']"

definition CLAIM_STALE_CODES :: "js_string list" where
  "CLAIM_STALE_CODES = map js
     [''designation_superseded'', ''designation_lapsed'', ''designation_not_yours'', ''admin_changed'',
      ''already_claimed'', ''already_admin'', ''subject_role_changed'', ''conflict_retry'']"

definition CLOCK_SKEW_MESSAGE :: js_string where
  "CLOCK_SKEW_MESSAGE = js (''This device's date or time looks wrong, or this was prepared too long ago. '' @
     ''Check the date and time on this device, then try again.'')"

definition mapApiError :: "thrown \<Rightarrow> js_string list \<Rightarrow> SuccessorActionResult" where
  "mapApiError err staleCodes = (case err of
     ApiError status code message \<Rightarrow>
       if status = 409 then
         (case code of Some c \<Rightarrow> if c \<in> set staleCodes then ActionStale else ActionRejected message
                     | None \<Rightarrow> ActionRejected message)
       else if status = 400 \<and> code = Some (js ''clock_skew'') then ActionRejected CLOCK_SKEW_MESSAGE
       else if status = 401 then ActionAuthRequired
       else if status = 403 then ActionForbidden
       else if status = 404 then ActionNotFound
       else if status < 500 then ActionRejected message
       else ActionAmbiguous
   | OtherThrown message \<Rightarrow> ActionAmbiguous)"

text \<open>\<open>String.prototype.includes\<close>, and runListGroups.ts's test for the worker's guard messages.\<close>

fun js_includes :: "js_string \<Rightarrow> js_string \<Rightarrow> bool" where
  "js_includes [] part \<longleftrightarrow> part = []"
| "js_includes (u # s) part \<longleftrightarrow> take (length part) (u # s) = part \<or> js_includes s part"

definition isLiveKeysMessage :: "js_string \<Rightarrow> bool" where
  "isLiveKeysMessage message \<longleftrightarrow> js_includes message (js ''no live keys cached'')
     \<or> js_includes message (js ''cached keys belong to a different account'')"

primrec thrown_message :: "thrown \<Rightarrow> js_string" where
  "thrown_message (ApiError status code message) = message"
| "thrown_message (OtherThrown message) = message"

definition isLiveKeysError :: "thrown \<Rightarrow> bool" where
  "isLiveKeysError err = isLiveKeysMessage (thrown_message err)"

definition signFailure :: "thrown \<Rightarrow> SuccessorActionResult" where
  "signFailure err =
     (if isLiveKeysError err then ActionColdKeys else ActionRejected (js ''Couldn't sign this. Try again.''))"

definition is_api :: "int \<Rightarrow> string \<Rightarrow> thrown \<Rightarrow> bool" where
  "is_api status code err \<longleftrightarrow> (case err of ApiError st c message \<Rightarrow> st = status \<and> c = Some (js code) | _ \<Rightarrow> False)"

text \<open>
  A flow returns its outcome and the requests it sent.  \<open>signer\<close> and \<open>send\<close> answer the attempt of that number.
\<close>

record PutDesignation =
  pd_designationSortKey :: js_string
  pd_successorUserId :: js_string
  pd_periodDays :: int
  pd_adminGrantRef :: js_string
  pd_signature :: js_string

text \<open>The attempts of \<open>designate\<close>, with \<open>k\<close> of them left.\<close>

fun designate_attempts ::
  "nat \<Rightarrow> (nat \<Rightarrow> thrown + js_string \<times> js_string) \<Rightarrow> (nat \<Rightarrow> thrown + unit) \<Rightarrow> js_string \<Rightarrow> int \<Rightarrow> js_string
   \<Rightarrow> SuccessorActionResult \<times> PutDesignation list" where
  "designate_attempts 0 signer send successorUserId periodDays adminGrantRef = (ActionAmbiguous, [])"
| "designate_attempts (Suc k) signer send successorUserId periodDays adminGrantRef =
     (let attempt = MAX_SIGN_ATTEMPTS - k in
      case signer attempt of
        Inl err \<Rightarrow> (signFailure err, [])
      | Inr (designationSortKey, signature) \<Rightarrow>
          let req = \<lparr>pd_designationSortKey = designationSortKey, pd_successorUserId = successorUserId,
            pd_periodDays = periodDays, pd_adminGrantRef = adminGrantRef, pd_signature = signature\<rparr> in
          (case send attempt of
             Inr _ \<Rightarrow> (ActionOk, [req])
           | Inl err \<Rightarrow>
               if is_api 409 ''designation_key_taken'' err \<and> attempt < MAX_SIGN_ATTEMPTS
               then (case designate_attempts k signer send successorUserId periodDays adminGrantRef of
                       (r, reqs) \<Rightarrow> (r, req # reqs))
               else (mapApiError err DESIGNATE_STALE_CODES, [req])))"

definition designate ::
  "(nat \<Rightarrow> thrown + js_string \<times> js_string) \<Rightarrow> (nat \<Rightarrow> thrown + unit) \<Rightarrow> js_string \<Rightarrow> SuccessorView \<Rightarrow> js_string
   \<Rightarrow> int \<Rightarrow> SuccessorActionResult \<times> PutDesignation list" where
  "designate signer send userId view successorUserId periodDays =
     (case sv_myGrantSortKey view of
        None \<Rightarrow> (ActionForbidden, [])
      | Some ref \<Rightarrow>
          if sv_myRole view \<noteq> js ''admin'' \<or> ref = [] then (ActionForbidden, [])
          else if periodDays < MIN_PERIOD_DAYS \<or> MAX_PERIOD_DAYS < periodDays
          then (ActionRejected (js ''Choose a period between '' @ js_num MIN_PERIOD_DAYS @ js '' and '' @
                  js_num MAX_PERIOD_DAYS @ js '' days.''), [])
          else if successorUserId = userId then (ActionRejected (js ''You cannot designate yourself.''), [])
          else designate_attempts MAX_SIGN_ATTEMPTS signer send successorUserId periodDays ref)"

definition claimBlocker :: "prims \<Rightarrow> SuccessorView \<Rightarrow> js_string \<Rightarrow> js_string \<Rightarrow> int \<Rightarrow> js_string option" where
  "claimBlocker P view userId designationSortKey claimDayMs =
     (if sv_myRole view = js ''admin'' then Some (js ''You are already an admin of this group.'')
      else case List.find (\<lambda>o'. de_sortKey (so_designation o') = designationSortKey)
                  (successorOffers P userId (sv_designations view) (sv_grants view) (sv_members view) claimDayMs) of
        None \<Rightarrow> Some (js (''This designation no longer applies: the admin changed it, was replaced, '' @
                  ''or it was already used.''))
      | Some offer \<Rightarrow>
          if \<not> so_periodElapsed offer
          then Some (js ''You can claim from '' @ formatDay (so_claimableFrom offer) @ js '' (UTC), when '' @
                 js_num (so_periodDays offer) @ js '' days have passed since the admin named you.'')
          else None)"

record ClaimDesignation =
  kd_designationSortKey :: js_string
  kd_claimSortKey :: js_string
  kd_signature :: js_string

fun claim_attempts ::
  "prims \<Rightarrow> nat \<Rightarrow> (nat \<Rightarrow> thrown + js_string \<times> js_string) \<Rightarrow> (nat \<Rightarrow> thrown + unit) \<Rightarrow> int option \<Rightarrow> SuccessorView
   \<Rightarrow> js_string \<Rightarrow> js_string \<Rightarrow> SuccessorActionResult \<times> ClaimDesignation list" where
  "claim_attempts P 0 signer send serverNow view userId designationSortKey = (ActionAmbiguous, [])"
| "claim_attempts P (Suc k) signer send serverNow view userId designationSortKey =
     (let attempt = MAX_SIGN_ATTEMPTS - k in
      case signer attempt of
        Inl err \<Rightarrow> (signFailure err, [])
      | Inr (claimSortKey, signature) \<Rightarrow>
          (case keyDayMs P claimSortKey of
             None \<Rightarrow> (ActionRejected (js ''Couldn't sign this. Try again.''), [])
           | Some signedDay \<Rightarrow>
               (case claimBlocker P view userId designationSortKey signedDay of
                  Some late \<Rightarrow> (ActionRejected late, [])
                | None \<Rightarrow>
                    let req = \<lparr>kd_designationSortKey = designationSortKey, kd_claimSortKey = claimSortKey,
                      kd_signature = signature\<rparr> in
                    (case send attempt of
                       Inr _ \<Rightarrow> (ActionOk, [req])
                     | Inl err \<Rightarrow>
                         if is_api 409 ''grant_key_taken'' err \<and> attempt < MAX_SIGN_ATTEMPTS
                         then (case claim_attempts P k signer send serverNow view userId designationSortKey of
                                 (r, reqs) \<Rightarrow> (r, req # reqs))
                         else if is_api 409 ''not_inactive'' err
                                 \<and> (case serverNow of None \<Rightarrow> False | Some n \<Rightarrow> signedDay < utcDayMs n)
                         then (ActionRejected CLOCK_SKEW_MESSAGE, [req])
                         else (mapApiError err CLAIM_STALE_CODES, [req])))))"

text \<open>\<open>claim\<close>, once the group has been reloaded; \<open>serverNow\<close> is the estimate of serverClock.ts.\<close>

definition claim ::
  "prims \<Rightarrow> (nat \<Rightarrow> thrown + js_string \<times> js_string) \<Rightarrow> (nat \<Rightarrow> thrown + unit) \<Rightarrow> int \<Rightarrow> int option \<Rightarrow> SuccessorView
   \<Rightarrow> js_string \<Rightarrow> js_string \<Rightarrow> SuccessorActionResult \<times> ClaimDesignation list" where
  "claim P signer send now serverNow view userId designationSortKey =
     (case claimBlocker P view userId designationSortKey (utcDayMs now) of
        Some early \<Rightarrow>
          (case serverNow of
             None \<Rightarrow> (ActionRejected early, [])
           | Some n \<Rightarrow>
               if claimBlocker P view userId designationSortKey (utcDayMs n) = None
               then (ActionRejected CLOCK_SKEW_MESSAGE, []) else (ActionRejected early, []))
      | None \<Rightarrow> claim_attempts P MAX_SIGN_ATTEMPTS signer send serverNow view userId designationSortKey)"

definition shouldReloadAfterSuccessor :: "SuccessorActionResult \<Rightarrow> bool" where
  "shouldReloadAfterSuccessor outcome \<longleftrightarrow> outcome \<noteq> ActionColdKeys \<and> outcome \<noteq> ActionAuthRequired"

end
