(* ===== verification/Successor_Properties.thy ===== *)
theory Successor_Properties
  imports Successors Group_Properties
begin

text \<open>
  What a screen about successors says agrees with what the verifier of the grants decides: the admin's
  screen and the successor's agree on who is designated, and a claim the successor's client sends is
  judged valid by every viewer to whom the designation verifies.
\<close>

section \<open>The two readings of a sort key\<close>

text \<open>
  The screen reads the day of a key without the milliseconds the verifier reads it with.  On dates of the
  calendar they agree; \<open>reads_alike\<close> is that the engine treats the two spellings of an impossible date alike.
\<close>

definition reads_alike :: "prims \<Rightarrow> bool" where
  "reads_alike P \<longleftrightarrow> (\<forall>d. day_shape d \<longrightarrow>
     date_other P (d @ js ''T00:00:00Z'') = date_other P (d @ js ''T00:00:00.000Z''))"

lemma match_key_shape: "match_key p s = Some (u, d) \<Longrightarrow> day_shape d"
  by (auto simp: match_key_def Let_def split: if_splits)

lemma date_parse_alike:
  assumes "reads_alike P" "day_shape d"
  shows "date_parse (date_other P) (d @ js ''T00:00:00Z'') = date_parse (date_other P) (d @ js ''T00:00:00.000Z'')"
proof -
  from assms(2) obtain f where f: "day_fields d = Some f" by (auto simp: day_shape_def)
  have "iso_ms (d @ js ''T00:00:00Z'') = iso_ms (d @ js ''T00:00:00.000Z'')"
  proof (cases "valid_date f")
    case True
    with iso_ms_midnight [OF f] show ?thesis by simp
  next
    case False
    with f day_shape_length [OF assms(2)] show ?thesis by (simp add: iso_ms_def)
  qed
  then show ?thesis using assms by (simp add: date_parse_def reads_alike_def split: option.split)
qed

lemma prefixes_differ: "match_key (js ''DESIGNATION#'') s \<noteq> None \<Longrightarrow> match_key (js ''GRANT#'') s = None"
proof -
  assume "match_key (js ''DESIGNATION#'') s \<noteq> None"
  then have "length s = length (js ''DESIGNATION#'') + 64" by (auto simp: match_key_def Let_def split: if_splits)
  then show ?thesis by (simp add: match_key_def Let_def js_def)
qed

lemma keyDayMs_grant:
  assumes "reads_alike P" "parseSortKey P s = Some p"
  shows "keyDayMs P s = Some (pk_day p)"
proof -
  from assms(2) obtain u d where m: "match_key (js ''GRANT#'') s = Some (u, d)" and p: "parsed_key P (u, d) = Some p"
    by (auto simp: parseSortKey_def split: option.splits)
  with prefixes_differ [of s] have "match_key (js ''DESIGNATION#'') s = None"
    by (cases "match_key (js ''DESIGNATION#'') s") simp_all
  with m p date_parse_alike [OF assms(1) match_key_shape [OF m]] show ?thesis
    by (auto simp: keyDayMs_def parsed_key_def split: option.splits)
qed

lemma keyDayMs_designation:
  assumes "reads_alike P" "parseDesignationKey P s = Some p"
  shows "keyDayMs P s = Some (pk_day p)"
proof -
  from assms(2) obtain u d where m: "match_key (js ''DESIGNATION#'') s = Some (u, d)" and p: "parsed_key P (u, d) = Some p"
    by (auto simp: parseDesignationKey_def split: option.splits)
  with date_parse_alike [OF assms(1) match_key_shape [OF m]] show ?thesis
    by (auto simp: keyDayMs_def parsed_key_def split: option.splits)
qed

section \<open>What the scans find\<close>

text \<open>The designations of an admin that have a day, with it.\<close>

definition dated :: "prims \<Rightarrow> js_string \<Rightarrow> DesignationRecord list \<Rightarrow> int \<Rightarrow> DesignationRecord list" where
  "dated P a ds day = filter (\<lambda>d. de_adminUserId d = a \<and> keyDayMs P (de_sortKey d) = Some day) ds"

definition newest_so_far :: "prims \<Rightarrow> js_string \<Rightarrow> DesignationRecord list \<Rightarrow> int option \<times> DesignationRecord list \<Rightarrow> bool" where
  "newest_so_far P a seen acc \<longleftrightarrow> (case fst acc of
     None \<Rightarrow> snd acc = [] \<and> (\<forall>e. dated P a seen e = [])
   | Some l \<Rightarrow> snd acc = dated P a seen l \<and> snd acc \<noteq> [] \<and> (\<forall>e. dated P a seen e \<noteq> [] \<longrightarrow> e \<le> l))"

lemma scan_newest_found:
  "newest_so_far P a seen acc \<Longrightarrow> newest_so_far P a (seen @ ds) (scan_newest P a ds acc)"
proof (induction ds arbitrary: seen acc)
  case (Cons d ds)
  let ?acc = "if de_adminUserId d \<noteq> a then acc else case keyDayMs P (de_sortKey d) of None \<Rightarrow> acc
    | Some day \<Rightarrow> if (case fst acc of None \<Rightarrow> True | Some bestDay \<Rightarrow> bestDay < day) then (Some day, [d])
             else if fst acc = Some day then (fst acc, snd acc @ [d]) else acc"
  have "scan_newest P a (d # ds) acc = scan_newest P a ds ?acc" by (simp split: option.split)
  moreover have "newest_so_far P a (seen @ [d]) ?acc"
  proof (cases "de_adminUserId d = a \<and> keyDayMs P (de_sortKey d) \<noteq> None")
    case False
    then have "dated P a (seen @ [d]) e = dated P a seen e" for e by (auto simp: dated_def)
    with False Cons.prems show ?thesis by (auto simp: newest_so_far_def split: option.splits)
  next
    case True
    then obtain day where day: "keyDayMs P (de_sortKey d) = Some day" by blast
    with True have step: "dated P a (seen @ [d]) e = dated P a seen e @ (if e = day then [d] else [])" for e
      by (auto simp: dated_def)
    show ?thesis
    proof (cases "fst acc")
      case None
      with True day Cons.prems step show ?thesis by (simp add: newest_so_far_def)
    next
      case (Some l)
      with Cons.prems have l: "snd acc = dated P a seen l" "snd acc \<noteq> []" "\<forall>e. dated P a seen e \<noteq> [] \<longrightarrow> e \<le> l"
        by (auto simp: newest_so_far_def)
      have "l < day \<Longrightarrow> dated P a seen day = []" using l(3) by (meson not_le)
      with True day Some l step show ?thesis by (auto simp: newest_so_far_def)
    qed
  qed
  ultimately show ?case using Cons.IH [of "seen @ [d]" ?acc] by simp
qed simp

lemma newestOf_Newest:
  assumes "newestOf P a ds = Some (Newest d day)"
  shows "dated P a ds day = [d]" "dated P a ds e \<noteq> [] \<Longrightarrow> e \<le> day"
proof -
  have "newest_so_far P a ds (scan_newest P a ds (None, []))"
    using scan_newest_found [of P a "[]" "(None, [])" ds] by (simp add: newest_so_far_def dated_def)
  with assms show "dated P a ds day = [d]" "dated P a ds e \<noteq> [] \<Longrightarrow> e \<le> day"
    by (auto simp: newestOf_def newest_so_far_def split: prod.splits option.splits list.splits)
qed

lemma scan_first_grant_None:
  "scan_first_grant P a gs x y found = None \<longleftrightarrow> found = None
     \<and> (\<forall>g\<in>set gs. gr_subjectUserId g = a \<longrightarrow> (\<forall>e. keyDayMs P (gr_sortKey g) = Some e \<longrightarrow> \<not> (x \<le> e \<and> e \<le> y)))"
  by (induction gs arbitrary: found) (auto split: option.splits if_splits)

lemma firstGrantToAdmin_None:
  "firstGrantToAdmin P a gs x y = None \<longleftrightarrow>
     (\<forall>g\<in>set gs. gr_subjectUserId g = a \<longrightarrow> (\<forall>e. keyDayMs P (gr_sortKey g) = Some e \<longrightarrow> \<not> (x \<le> e \<and> e \<le> y)))"
  by (simp add: firstGrantToAdmin_def scan_first_grant_None)

lemma claimedBy_None: "claimedBy k gs = None \<longleftrightarrow> (\<forall>g\<in>set gs. gr_viaDesignation g \<noteq> Some k)"
  by (auto simp: claimedBy_def find_None_iff split: option.splits dest: find_Some_iff_mem)

lemma set_unique_list: "set (unique_list xs) = set xs"
proof -
  have "set (foldl (\<lambda>out x. if x \<in> set out then out else out @ [x]) out xs) = set out \<union> set xs" for out
    by (induction xs arbitrary: out) auto
  then show ?thesis by (simp add: unique_list_def)
qed

lemma offer_exists:
  "o' \<in> set (successorOffers P u ds gs ms day) \<longleftrightarrow>
     (\<exists>d\<in>set ds. de_successorUserId d = Some u \<and> offer_of P u ds gs ms day (de_adminUserId d) = Some o')"
  by (auto simp: successorOffers_def map_filter_def set_unique_list image_iff)

lemma offer_of_Some:
  "offer_of P u ds gs ms day a = Some o' \<longleftrightarrow> is_admin a ms
     \<and> (\<exists>d dday. newestOf P a ds = Some (Newest d dday) \<and> de_successorUserId d = Some u
          \<and> claimedBy (de_sortKey d) gs = None \<and> firstGrantToAdmin P a gs dday day = None
          \<and> o' = \<lparr>so_designation = d, so_adminUserId = a, so_periodDays = de_periodDays d, so_designationDay = dday,
               so_claimableFrom = addDays dday (de_periodDays d), so_periodElapsed = (addDays dday (de_periodDays d) \<le> day)\<rparr>)"
  by (auto simp: offer_of_def Let_def split: option.splits NewestDesignation.splits if_splits)

lemma newest_member: "newestOf P a ds = Some (Newest d day) \<Longrightarrow> d \<in> set ds \<and> de_adminUserId d = a"
  using newestOf_Newest(1) [of P a ds d day] by (auto simp: dated_def filter_eq_Cons_iff)

text \<open>
  The admin's screen and the successor's agree.  For a member who is not an admin, the offers
  listed on a day are exactly the designations that the designating admin's own screen shows as
  standing for that member on that day, of those whose author is still an admin, with the same period,
  day and first day to claim.
\<close>
theorem offers_agree_with_status:
  assumes "u \<noteq> []" "is_member u ms" "\<not> is_admin u ms"
  shows "o' \<in> set (successorOffers P u ds gs ms (utcDayMs now)) \<longleftrightarrow>
    is_admin (so_adminUserId o') ms
    \<and> adminSuccessorStatus P (so_adminUserId o') ds gs ms now
        = SuccessorActive (so_designation o') u (so_periodDays o') (so_designationDay o') (so_claimableFrom o')
    \<and> so_periodElapsed o' = (so_claimableFrom o' \<le> utcDayMs now)" (is "?offered \<longleftrightarrow> ?standing")
proof
  assume ?offered
  with assms show ?standing
    by (auto simp: offer_exists offer_of_Some adminSuccessorStatus_def)
next
  assume s: ?standing
  then obtain d dday where n: "newestOf P (so_adminUserId o') ds = Some (Newest d dday)"
    and d: "de_successorUserId d = Some u" "claimedBy (de_sortKey d) gs = None"
      "firstGrantToAdmin P (so_adminUserId o') gs dday (utcDayMs now) = None"
    and f: "so_designation o' = d" "so_periodDays o' = de_periodDays d" "so_designationDay o' = dday"
      "so_claimableFrom o' = addDays dday (de_periodDays d)"
    by (auto simp: adminSuccessorStatus_def split: option.splits NewestDesignation.splits if_splits)
  from newest_member [OF n] n d f s have "offer_of P u ds gs ms (utcDayMs now) (de_adminUserId d) = Some o'"
    by (cases o') (auto simp: offer_of_Some)
  with newest_member [OF n] d(1) show ?offered by (auto simp: offer_exists)
qed


section \<open>What a claim that is sent is worth\<close>

text \<open>The row the server files for a claim.\<close>

definition filed_claim :: "js_string \<Rightarrow> DesignationRecord \<Rightarrow> ClaimDesignation \<Rightarrow> GrantRecord" where
  "filed_claim u d req = \<lparr>gr_sortKey = kd_claimSortKey req, gr_subjectUserId = u, gr_grantedRole = js ''admin'',
     gr_grantorUserId = de_adminUserId d, gr_grantorSigningPublicKey = None,
     gr_grantorGrantRef = Some (de_adminGrantRef d), gr_viaDesignation = Some (de_sortKey d),
     gr_signature = kd_signature req\<rparr>"

lemma claim_attempts_sends:
  assumes "req \<in> set (snd (claim_attempts P k signer send serverNow view u dkey))"
  shows "kd_designationSortKey req = dkey \<and> (\<exists>i. signer i = Inr (kd_claimSortKey req, kd_signature req))
    \<and> (\<exists>day. keyDayMs P (kd_claimSortKey req) = Some day \<and> claimBlocker P view u dkey day = None)"
  using assms
proof (induction k)
  case (Suc k)
  then show ?case
    by (auto simp: Let_def split: sum.splits option.splits if_splits prod.splits)
qed simp

lemma claim_sends:
  assumes "claim P signer send now serverNow view u dkey = (r, reqs)" "req \<in> set reqs"
  shows "kd_designationSortKey req = dkey \<and> (\<exists>i. signer i = Inr (kd_claimSortKey req, kd_signature req))
    \<and> (\<exists>day. keyDayMs P (kd_claimSortKey req) = Some day \<and> claimBlocker P view u dkey day = None)"
  using assms claim_attempts_sends [of req P MAX_SIGN_ATTEMPTS signer send serverNow view u dkey]
  by (auto simp: claim_def split: option.splits if_splits)

lemma claimBlocker_None:
  assumes "claimBlocker P view u dkey day = None"
  shows "\<exists>o'\<in>set (successorOffers P u (sv_designations view) (sv_grants view) (sv_members view) day).
    de_sortKey (so_designation o') = dkey \<and> so_periodElapsed o'"
  using assms by (auto simp: claimBlocker_def split: option.splits if_splits dest: find_Some_iff_mem)

lemma offer_facts:
  assumes "o' \<in> set (successorOffers P u ds gs ms day)"
  shows "\<exists>d dday. newestOf P (so_adminUserId o') ds = Some (Newest d dday) \<and> de_successorUserId d = Some u
    \<and> claimedBy (de_sortKey d) gs = None \<and> firstGrantToAdmin P (so_adminUserId o') gs dday day = None
    \<and> so_designation o' = d \<and> so_periodElapsed o' = (addDays dday (de_periodDays d) \<le> day)"
proof -
  from assms obtain a where "offer_of P u ds gs ms day a = Some o'" by (auto simp: offer_exists)
  then show ?thesis unfolding offer_of_Some by auto
qed

lemma designated_keys:
  "designated P input d dday \<Longrightarrow> \<not> duplicatedDesignations input (de_sortKey d)
     \<and> parseDesignationKey P (de_sortKey d) = Some \<lparr>pk_subject = de_adminUserId d, pk_day = dday\<rparr>"
  by (erule designated.cases) simp

lemma designationByKey_unique:
  assumes "\<not> duplicatedDesignations input (de_sortKey d)" "d \<in> set (gi_designations input)"
  shows "designationByKey input (de_sortKey d) = Some d"
proof -
  obtain e where e: "designationByKey input (de_sortKey d) = Some e"
    using assms(2) by (cases "designationByKey input (de_sortKey d)") (auto simp: designationByKey_def find_None_iff)
  with designationByKey_mem [OF e] unique_designation [OF assms(1,2)] show ?thesis by auto
qed

text \<open>
  C22: a claim that is sent counts.  Every claim the flow sends, whatever answers the server gives in
  between and however the device's clock moves, is for a designation that its screen offers on the very
  day the claim is dated; and if that designation verifies for a viewer, and the keys of the
  successor cover the day, the row filed for the claim is judged valid by verifyGrantChain.
\<close>
theorem sent_claim_is_valid:
  assumes "ed25519_laws P" "reads_alike P" "genuine P (lv_signingKey keys)"
    and "length (lv_userId keys) = 36" "list_all is_id_char (lv_userId keys)"
    and "\<forall>i. day_shape (isoDay (clock i)) \<and> length (random i) = 8"
    and "claim P (\<lambda>i. Inr (signSuccessorClaim P (clock i) (random i) keys (sv_groupId view) dkey)) send now serverNow
           view (lv_userId keys) dkey = (r, reqs)" "req \<in> set reqs"
    and "gi_groupId input = sv_groupId view" "gi_designations input = sv_designations view"
    and "d \<in> set (sv_designations view)" "de_sortKey d = dkey" "designated P input d dday"
    and "gi_grants input = before @ filed_claim (lv_userId keys) d req # after" "sv_grants view = before @ after"
    and "kd_claimSortKey req \<notin> gr_sortKey ` set (sv_grants view)" "de_adminUserId d \<noteq> lv_userId keys"
    and "gi_keyHistories input (lv_userId keys) = Some history"
    and "\<forall>i. sk_publicKey (lv_signingKey keys) \<in> set (keysOnDay P history (utcDayMs (clock i)))"
    and "\<forall>n i. gi_now input = Some n \<longrightarrow> clock i \<le> n"
    and "verifyGrantChain fuel P input = Some result"
  shows "\<exists>v. cr_verdicts result (kd_claimSortKey req) = Some v \<and> gv_valid v"
proof -
  let ?u = "lv_userId keys" and ?g = "filed_claim (lv_userId keys) d req"
  from claim_sends [OF assms(7,8)] obtain i day where dk: "kd_designationSortKey req = dkey"
    and s: "signSuccessorClaim P (clock i) (random i) keys (sv_groupId view) dkey = (kd_claimSortKey req, kd_signature req)"
    and day: "keyDayMs P (kd_claimSortKey req) = Some day" and free: "claimBlocker P view ?u dkey day = None" by auto
  let ?payload = "successorClaimPayload (gi_groupId input) ?u dkey (kd_claimSortKey req)"
  let ?sig = "sign P (lv_signingKey keys) SuccessorClaim ?payload"
  from s have key: "kd_claimSortKey req = generateGrantSortKey ?u (clock i) (random i)"
    and sig: "kd_signature req = bytesToBase64 ?sig"
    by (auto simp: signSuccessorClaim_def Let_def assms(9))
  have parse: "parseSortKey P (kd_claimSortKey req) = Some \<lparr>pk_subject = ?u, pk_day = utcDayMs (clock i)\<rparr>"
    unfolding key utcDayMs_def using assms(4-6) by (intro parse_minted) auto
  with keyDayMs_grant [OF assms(2) this] day have day_eq: "day = utcDayMs (clock i)" by simp
  from claimBlocker_None [OF free] obtain o' where
    o': "o' \<in> set (successorOffers P ?u (sv_designations view) (sv_grants view) (sv_members view) day)"
    "de_sortKey (so_designation o') = dkey" "so_periodElapsed o'" by blast
  from offer_facts [OF o'(1)] o'(2,3) obtain e dday' where
    e: "newestOf P (so_adminUserId o') (sv_designations view) = Some (Newest e dday')"
    "de_successorUserId e = Some ?u" "claimedBy (de_sortKey e) (sv_grants view) = None"
    "firstGrantToAdmin P (so_adminUserId o') (sv_grants view) dday' day = None"
    "de_sortKey e = dkey" "addDays dday' (de_periodDays e) \<le> day"
    by metis
  note keys_d = designated_keys [OF assms(13)]
  from newest_member [OF e(1)] have e_mem: "e \<in> set (sv_designations view)" "de_adminUserId e = so_adminUserId o'" by auto
  have "e = d"
    using unique_designation [of input d e] keys_d e_mem e(5) assms(10-12) by simp
  have dday: "dday' = dday"
  proof -
    from newestOf_Newest(1) [OF e(1)] have "e \<in> set (dated P (so_adminUserId o') (sv_designations view) dday')" by simp
    then have "keyDayMs P (de_sortKey e) = Some dday'" by (simp add: dated_def)
    with keyDayMs_designation [OF assms(2)] keys_d \<open>e = d\<close> show ?thesis by fastforce
  qed
  have sig_ne: "?sig \<noteq> []" using genuine_sizes(2) [OF assms(1,3), of SuccessorClaim ?payload] by auto
  have ok: "row_ok P input ?g day ?sig"
  proof -
    have c0: "count_list (map gr_sortKey xs) k = 0" if "k \<notin> gr_sortKey ` set xs" for xs k
      using that by (induction xs) auto
    have "\<not> duplicated input (kd_claimSortKey req)"
      using assms(14-16) c0 [of "kd_claimSortKey req" before] c0 [of "kd_claimSortKey req" after]
      by (simp add: duplicated_def set_duplicates filed_claim_def image_Un)
    moreover have "decode (kd_signature req) = Some ?sig" unfolding sig by (rule decode_b64 [OF sig_ne])
    ultimately show ?thesis using parse unfolding row_ok_def day_eq by (simp add: filed_claim_def ROLES_def)
  qed
  have dkey_ne: "dkey \<noteq> []"
    using keys_d assms(12) by (auto simp: parseDesignationKey_def match_key_def Let_def split: option.splits if_splits)
  have via: "via ?g = Some dkey" using dkey_ne assms(12) by (simp add: via_def filed_claim_def)
  have "backed P input ?g"
  proof (rule backed_designated.claimed [OF ok via, where d = d and dday = dday])
    have "via g \<noteq> Some dkey" if "g \<in> set before \<union> set after" for g
      using e(3,5) that assms(15) by (auto simp: claimedBy_None via_def split: option.splits if_splits)
    then have "filter (\<lambda>g. via g = Some dkey) before = []" "filter (\<lambda>g. via g = Some dkey) after = []"
      by (auto simp: filter_empty_conv)
    then show "citing input dkey \<le> 1" using via by (simp add: citing_def assms(14))
    show "designationByKey input dkey = Some d"
      using designationByKey_unique [of input d] keys_d assms(10-12) by simp
    show "de_successorUserId d = Some (gr_subjectUserId ?g)" using e(2) \<open>e = d\<close> by (simp add: filed_claim_def)
    show "dday + de_periodDays d * DAY_MS \<le> day" using e(6) dday \<open>e = d\<close> by (simp add: addDays_def)
    have "utcDayMs (clock i) \<le> clock i" by (simp add: utcDayMs_def DAY_MS_def minus_mod_eq_div_mult [symmetric])
    then have "day \<le> n + CLAIM_DAY_SKEW_TOLERANCE_MS" if "gi_now input = Some n" for n
      using assms(20) that day_eq unfolding CLAIM_DAY_SKEW_TOLERANCE_MS_def by (smt (verit, best))
    then show "\<forall>n. gi_now input = Some n \<longrightarrow> day \<le> n + CLAIM_DAY_SKEW_TOLERANCE_MS" by blast
    show "\<forall>x\<in>set (designationsByAdmin input (de_adminUserId d)). de_sortKey x \<noteq> dkey \<longrightarrow>
        \<not> in_span (parseDesignationKey P (de_sortKey x)) dday day"
    proof (intro ballI impI notI)
      fix x
      assume x: "x \<in> set (designationsByAdmin input (de_adminUserId d))" "de_sortKey x \<noteq> dkey"
        "in_span (parseDesignationKey P (de_sortKey x)) dday day"
      then obtain q where q: "parseDesignationKey P (de_sortKey x) = Some q" "dday \<le> pk_day q"
        by (auto simp: in_span_def split: option.splits)
      have mem: "x \<in> set (dated P (so_adminUserId o') (sv_designations view) (pk_day q))"
        using x(1) keyDayMs_designation [OF assms(2) q(1)] e_mem(2) \<open>e = d\<close>
        by (simp add: designationsByAdmin_def dated_def assms(10))
      then have "dated P (so_adminUserId o') (sv_designations view) (pk_day q) \<noteq> []" by auto
      with newestOf_Newest(2) [OF e(1)] q(2) dday have "pk_day q = dday'" by fastforce
      with mem newestOf_Newest(1) [OF e(1)] have "x = e" by simp
      with x(2) e(5) show False by simp
    qed
    show "\<forall>x\<in>set (grantsBySubject input (de_adminUserId d)). \<not> in_span (parseSortKey P (gr_sortKey x)) dday day"
    proof (intro ballI notI)
      fix x
      assume x: "x \<in> set (grantsBySubject input (de_adminUserId d))" "in_span (parseSortKey P (gr_sortKey x)) dday day"
      then obtain q where q: "parseSortKey P (gr_sortKey x) = Some q" "dday \<le> pk_day q" "pk_day q \<le> day"
        by (auto simp: in_span_def split: option.splits)
      from x(1) assms(14,15,17) have "x \<in> set (sv_grants view)" "gr_subjectUserId x = de_adminUserId d"
        by (auto simp: grantsBySubject_def filed_claim_def)
      with e(4) e_mem(2) \<open>e = d\<close> dday keyDayMs_grant [OF assms(2) q(1)] q show False
        by (auto simp: firstGrantToAdmin_None)
    qed
    show "signed_by P input (gr_subjectUserId ?g) day SuccessorClaim
        (successorClaimPayload (gi_groupId input) (gr_subjectUserId ?g) dkey (gr_sortKey ?g)) ?sig"
      using assms(18,19) day_eq verify_genuine [OF assms(1,3)]
      by (auto simp: signed_by_def signed_on_def list_ex_iff filed_claim_def)
  qed (use assms(13) in \<open>simp_all add: filed_claim_def ref_of_def\<close>)
  moreover have "?g \<in> set (gi_grants input)" by (simp add: assms(14))
  ultimately show ?thesis using verdict_iff_backed [OF assms(21), of ?g] by (auto simp: filed_claim_def)
qed


section \<open>A group with a successor\<close>

definition heir_key :: js_string where
  "heir_key = js ''DESIGNATION#00000000-0000-4000-8000-00000000000a#2026-02-01#0123456789abcdef''"

definition heir :: DesignationRecord where
  "heir = \<lparr>de_sortKey = heir_key, de_adminUserId = alice, de_successorUserId = Some bob, de_periodDays = 30,
     de_adminGrantRef = root_key, de_signature = signed_b64 1 SuccessorDesignation
       (projr (successorDesignationPayload group1 alice bob 30 heir_key root_key))\<rparr>"

definition heir_view :: SuccessorView where
  "heir_view = \<lparr>sv_groupId = group1, sv_myRole = js ''member'', sv_myGrantSortKey = None,
     sv_members = [\<lparr>ml_userId = alice, ml_role = js ''admin''\<rparr>, \<lparr>ml_userId = bob, ml_role = js ''member''\<rparr>],
     sv_designations = [heir], sv_grants = [root_row]\<rparr>"

definition heir_keys :: LiveKeys where
  "heir_keys = \<lparr>lv_userId = bob, lv_signingKey = key_of 2, lv_wrappingKey = undefined\<rparr>"

definition heir_claim :: ClaimDesignation where
  "heir_claim = (let s = signSuccessorClaim sample 1772600000000 (replicate 8 255) heir_keys group1 heir_key
     in \<lparr>kd_designationSortKey = heir_key, kd_claimSortKey = fst s, kd_signature = snd s\<rparr>)"

definition heir_input :: GrantChainInput where
  "heir_input = sample_input\<lparr>gi_grants := [filed_claim bob heir heir_claim, root_row], gi_designations := [heir]\<rparr>"

lemma heir_fields [simp]:
  "de_sortKey heir = heir_key" "de_adminUserId heir = alice" "de_successorUserId heir = Some bob" "de_periodDays heir = 30"
  "de_adminGrantRef heir = root_key" "heir_key \<noteq> []" "lv_userId heir_keys = bob" "lv_signingKey heir_keys = key_of 2"
  "sv_groupId heir_view = group1" "sv_designations heir_view = [heir]" "sv_grants heir_view = [root_row]"
  "gr_viaDesignation root_row = None"
  by (simp_all add: heir_def heir_key_def heir_keys_def heir_view_def root_row_def)

lemma heir_clock:
  "day_shape (isoDay 1772600000000)" "length bob = 36" "list_all is_id_char bob" "utcDayMs 1772600000000 = 1772582400000"
  "keyDayMs sample heir_key = Some 1769904000000" "keyDayMs sample root_key = Some 1767571200000"
  "parseDesignationKey sample heir_key = Some \<lparr>pk_subject = alice, pk_day = 1769904000000\<rparr>"
  by code_simp+

lemma heir_claim_key:
  "kd_claimSortKey heir_claim = generateGrantSortKey bob 1772600000000 (replicate 8 255)"
  "kd_claimSortKey heir_claim \<noteq> root_key"
proof -
  show k: "kd_claimSortKey heir_claim = generateGrantSortKey bob 1772600000000 (replicate 8 255)"
    by (simp add: heir_claim_def signSuccessorClaim_def Let_def)
  have "parseSortKey sample (kd_claimSortKey heir_claim) = Some \<lparr>pk_subject = bob, pk_day = 1772582400000\<rparr>"
    using parse_minted [OF heir_clock(2,3,1), of "replicate 8 255" sample] heir_clock(4) k by (simp add: utcDayMs_def)
  then show "kd_claimSortKey heir_claim \<noteq> root_key" by auto
qed

lemma sample_reads_alike: "reads_alike sample"
  by (simp add: reads_alike_def sample_def)

lemma heir_may_claim: "claimBlocker sample heir_view bob heir_key 1772582400000 = None"
proof -
  have "newestOf sample alice [heir] = Some (Newest heir 1769904000000)"
    by (simp add: newestOf_def heir_clock)
  moreover have "firstGrantToAdmin sample alice [root_row] 1769904000000 1772582400000 = None"
    by (simp add: firstGrantToAdmin_def heir_clock)
  ultimately have "successorOffers sample bob [heir] [root_row] (sv_members heir_view) 1772582400000
      = [\<lparr>so_designation = heir, so_adminUserId = alice, so_periodDays = 30, so_designationDay = 1769904000000,
          so_claimableFrom = 1772496000000, so_periodElapsed = True\<rparr>]"
    by (simp add: successorOffers_def unique_list_def map_filter_def offer_of_def is_admin_def heir_view_def claimedBy_def
        addDays_def DAY_MS_def)
  then show ?thesis by (simp add: claimBlocker_def) (simp add: heir_view_def)
qed

lemma heir_claims:
  "claim sample (\<lambda>i. Inr (signSuccessorClaim sample 1772600000000 (replicate 8 255) heir_keys group1 heir_key)) (\<lambda>i. Inr ())
     1772600000000 None heir_view bob heir_key = (ActionOk, [heir_claim])"
proof -
  have "parseSortKey sample (kd_claimSortKey heir_claim) = Some \<lparr>pk_subject = bob, pk_day = 1772582400000\<rparr>"
    using parse_minted [OF heir_clock(2,3,1), of "replicate 8 255" sample] heir_clock(4) heir_claim_key(1)
    by (simp add: utcDayMs_def)
  from keyDayMs_grant [OF sample_reads_alike this] have "keyDayMs sample (kd_claimSortKey heir_claim) = Some 1772582400000" by simp
  then show ?thesis
    by (simp add: claim_def heir_clock heir_may_claim MAX_SIGN_ATTEMPTS_def numeral_2_eq_2 heir_claim_def Let_def split_beta)
qed

lemma heir_input_fields [simp]:
  "gi_groupId heir_input = group1" "gi_anchor heir_input = sample_anchor" "gi_designations heir_input = [heir]"
  "gi_keyHistories heir_input = [alice \<mapsto> history_of 1, bob \<mapsto> history_of 2]" "gi_now heir_input = None"
  "gi_grants heir_input = [filed_claim bob heir heir_claim, root_row]" "gi_pinnedAnchor heir_input = Some sample_pin"
  by (simp_all add: heir_input_def)

lemma heir_root: "backed sample heir_input root_row" "grantsBySubject heir_input alice = [root_row]"
proof -
  have ok: "row_ok sample heir_input root_row 1767571200000 (sign sample (key_of 1) RoleGrant (grant_payload heir_input root_row))"
    using heir_claim_key(2)
    by (simp add: row_ok_def ROLES_def grant_payload_def duplicated_def filed_claim_def)
  have "anchorValid sample heir_input"
    by (simp add: anchorValid_def pinMismatch_def pinMatched_def anchorKey_def)
      (simp add: sample_anchor_def sample_pin_def)
  from backed_designated.root [OF ok _ _ this, of "seed_of 1" "history_of 1"] show "backed sample heir_input root_row"
    by (simp add: anchorKey_def)
  show "grantsBySubject heir_input alice = [root_row]" by (simp add: grantsBySubject_def filed_claim_def)
qed

lemma heir_designated: "designated sample heir_input heir 1769904000000"
proof -
  obtain payload where pl: "successorDesignationPayload group1 alice bob 30 heir_key root_key = Inr payload"
    by (simp add: successorDesignationPayload_def isSafeInteger_def)
  show ?thesis
  proof (rule backed_designated.designated [where cur = root_row and payload = payload])
    show "decode (de_signature heir) = Some (sign sample (key_of 1) SuccessorDesignation payload)"
      by (simp add: heir_def pl)
    show "current_at sample (grantsBySubject heir_input (de_adminUserId heir)) 1769904000000 root_row"
      by (auto simp: current_at_def heir_root intro!: exI [of _ "1767571200000::int"])
    show "signed_by sample heir_input (de_adminUserId heir) 1769904000000 SuccessorDesignation payload
        (sign sample (key_of 1) SuccessorDesignation payload)"
      by (simp add: signed_by_def)
  qed (use pl in \<open>simp_all add: duplicatedDesignations_def heir_clock MIN_PERIOD_DAYS_def MAX_PERIOD_DAYS_def heir_root\<close>)
qed

lemma heir_chain_returns: "\<exists>result. verifyGrantChain 4 sample heir_input = Some result"
proof -
  have "parseSortKey sample (kd_claimSortKey heir_claim) = Some \<lparr>pk_subject = bob, pk_day = 1772582400000\<rparr>"
    using parse_minted [OF heir_clock(2,3,1), of "replicate 8 255" sample] heir_clock(4) heir_claim_key(1)
    by (simp add: utcDayMs_def)
  then have "claims_in_order sample heir_input"
    by (simp add: claims_in_order_def claim_in_order_def filed_claim_def via_def designationByKey_def heir_clock)
  from verifyAll_returns [OF this, of 4 "gi_grants heir_input" no_caches] show ?thesis
    by (auto simp: verifyGrantChain_def sound_caches_def no_caches_def split: option.splits)
qed

theorem sent_claim_is_valid_witness:
  "\<exists>result v. verifyGrantChain 4 sample heir_input = Some result
     \<and> cr_verdicts result (kd_claimSortKey heir_claim) = Some v \<and> gv_valid v"
proof -
  from heir_chain_returns obtain result where r: "verifyGrantChain 4 sample heir_input = Some result" by blast
  have own: "genuine sample (lv_signingKey heir_keys)" by (simp add: genuine_def key_of_def sample_def)
  have ids: "length (lv_userId heir_keys) = 36" "list_all is_id_char (lv_userId heir_keys)"
    "\<forall>i::nat. day_shape (isoDay 1772600000000) \<and> length (replicate 8 255 :: bytes) = 8"
    using heir_clock by simp_all
  have c: "claim sample (\<lambda>i. Inr (signSuccessorClaim sample 1772600000000 (replicate 8 255) heir_keys (sv_groupId heir_view) heir_key))
     (\<lambda>i. Inr ()) 1772600000000 None heir_view (lv_userId heir_keys) heir_key = (ActionOk, [heir_claim])"
    using heir_claims by simp
  from sent_claim_is_valid [OF sample_laws sample_reads_alike own ids c, of heir_claim heir_input heir 1769904000000 "[]" "[root_row]"
      "history_of 2" 4 result] heir_claim_key(2) heir_designated r
  show ?thesis by (auto simp: key_of_def)
qed

text \<open>The agreement of the two screens, on the same group.\<close>

theorem offers_agree_with_status_witness:
  "adminSuccessorStatus sample alice [heir] [root_row] (sv_members heir_view) 1772600000000
     = SuccessorActive heir bob 30 1769904000000 1772496000000"
proof -
  let ?o = "\<lparr>so_designation = heir, so_adminUserId = alice, so_periodDays = 30, so_designationDay = 1769904000000,
          so_claimableFrom = 1772496000000, so_periodElapsed = True\<rparr>"
  have "newestOf sample alice [heir] = Some (Newest heir 1769904000000)"
    "firstGrantToAdmin sample alice [root_row] 1769904000000 1772582400000 = None"
    by (simp_all add: newestOf_def firstGrantToAdmin_def heir_clock)
  then have "?o \<in> set (successorOffers sample bob [heir] [root_row] (sv_members heir_view) (utcDayMs 1772600000000))"
    by (simp add: heir_clock successorOffers_def unique_list_def map_filter_def offer_of_def is_admin_def heir_view_def claimedBy_def
        addDays_def DAY_MS_def)
  moreover have "bob \<noteq> []" "is_member bob (sv_members heir_view)" "\<not> is_admin bob (sv_members heir_view)"
    by (simp add: bob_def, simp_all add: is_member_def is_admin_def heir_view_def)
  ultimately show ?thesis using offers_agree_with_status [of bob "sv_members heir_view" ?o sample "[heir]" "[root_row]" 1772600000000]
    by simp
qed

end
