(* ===== verification/Flow.thy ===== *)
theory Flow
  imports Successors "HOL-Library.State_Monad" "HOL-Library.AList"
begin

text \<open>
  How the flows of routes are modelled.  A flow calls what it was given (the server's endpoints, the
  worker, the browser's storage) and awaits the answers; nothing is known of an answer but its type.
  The state of a flow is the trace of the calls made so far, each with its answer, and a callee may
  answer by all that came before it.  A call that rejects is the left side of a sum, and \<open>attempt\<close> is the
  \<open>try\<close> around it.  What a flow does is then a statement about its trace: a call is there only after others.
\<close>

named_theorems flow_simps \<open>how the steps of a flow transform what is claimed of it\<close>

type_synonym ('c, 'a) flow = "('c list, 'a) state"

definition ask :: "('c list \<Rightarrow> 'a) \<Rightarrow> ('a \<Rightarrow> 'c) \<Rightarrow> ('c, 'a) flow" where
  "ask answer entry = State (\<lambda>h. (answer h, h @ [entry (answer h)]))"

definition give :: "'a \<Rightarrow> ('c, 'a) flow" where
  "give x = State_Monad.return x"

text \<open>\<open>try { x = await m } catch (err) { return ... }\<close>, and \<open>await\<close> with the rejection passed on.\<close>

definition attempt ::
  "('c, 'e + 'a) flow \<Rightarrow> ('e \<Rightarrow> ('c, 'b) flow) \<Rightarrow> ('a \<Rightarrow> ('c, 'b) flow) \<Rightarrow> ('c, 'b) flow" where
  "attempt m failed k = do { r \<leftarrow> m; case r of Inl err \<Rightarrow> failed err | Inr x \<Rightarrow> k x }"

definition await ::
  "('c, 'e + 'a) flow \<Rightarrow> ('a \<Rightarrow> ('c, 'e + 'b) flow) \<Rightarrow> ('c, 'e + 'b) flow" where
  "await m k = attempt m (\<lambda>err. give (Inl err)) k"

text \<open>A loop that may return early: the left side of the inner sum is what the function returns.\<close>

definition proceed ::
  "('c, 'e + ('o + 'a)) flow \<Rightarrow> ('a \<Rightarrow> ('c, 'e + ('o + 'b)) flow) \<Rightarrow> ('c, 'e + ('o + 'b)) flow" where
  "proceed m k = await m (\<lambda>r. case r of Inl outcome \<Rightarrow> give (Inr (Inl outcome)) | Inr x \<Rightarrow> k x)"

text \<open>A value that a synchronous call returned or threw.\<close>

definition lift :: "'a option \<Rightarrow> string \<Rightarrow> ('c, thrown + 'a) flow" where
  "lift x failure = give (case x of None \<Rightarrow> Inl (OtherThrown (js failure)) | Some y \<Rightarrow> Inr y)"

definition lift_result :: "'a result \<Rightarrow> ('c, thrown + 'a) flow" where
  "lift_result x = give (case x of Inl failure \<Rightarrow> Inl (OtherThrown (js failure)) | Inr y \<Rightarrow> Inr y)"

text \<open>\<open>new Map(xs)\<close>: the last entry of a key wins.  \<open>Map.prototype.set\<close> is the library's \<^const>\<open>AList.update\<close>.\<close>

definition js_map :: "('k \<times> 'v) list \<Rightarrow> ('k \<rightharpoonup> 'v)" where
  "js_map xs = map_of (rev xs)"

text \<open>A field that counts as present when it is there and not the empty string.\<close>

definition truthy :: "js_string option \<Rightarrow> js_string option" where
  "truthy s = (case s of None \<Rightarrow> None | Some t \<Rightarrow> if t = [] then None else Some t)"

definition code_of :: "thrown \<Rightarrow> js_string option" where
  "code_of err = (case err of ApiError status code message \<Rightarrow> code | OtherThrown message \<Rightarrow> None)"

definition has_code :: "string \<Rightarrow> thrown \<Rightarrow> bool" where
  "has_code c err \<longleftrightarrow> code_of err = Some (js c)"

definition has_status :: "int \<Rightarrow> thrown \<Rightarrow> bool" where
  "has_status n err \<longleftrightarrow> (case err of ApiError status code message \<Rightarrow> status = n | OtherThrown message \<Rightarrow> False)"

text \<open>
  Every list the server serves in pages is read the same way: at most \<open>k\<close> pages, each fetched with the
  cursor the last one gave.
\<close>

fun read_pages ::
  "nat \<Rightarrow> (js_string option \<Rightarrow> ('c, thrown + 'p) flow) \<Rightarrow> ('p \<Rightarrow> 'x list) \<Rightarrow> ('p \<Rightarrow> js_string option) \<Rightarrow> string
   \<Rightarrow> js_string option \<Rightarrow> 'x list \<Rightarrow> ('c, thrown + 'x list) flow" where
  "read_pages 0 fetch items next_cursor failure cursor out = give (Inl (OtherThrown (js failure)))"
| "read_pages (Suc k) fetch items next_cursor failure cursor out =
     await (fetch cursor) (\<lambda>res.
       case truthy (next_cursor res) of
         None \<Rightarrow> give (Inr (out @ items res))
       | Some c \<Rightarrow> read_pages k fetch items next_cursor failure (Some c) (out @ items res))"

section \<open>Claims about a flow\<close>

text \<open>\<open>ends m Q h\<close>: run after the calls \<open>h\<close>, the flow ends with a result and a trace of which \<open>Q\<close> holds.\<close>

definition ends :: "('c, 'a) flow \<Rightarrow> ('a \<Rightarrow> 'c list \<Rightarrow> bool) \<Rightarrow> 'c list \<Rightarrow> bool" where
  "ends m Q h \<longleftrightarrow> Q (fst (run_state m h)) (snd (run_state m h))"

lemma ends_give [flow_simps]: "ends (give x) Q h \<longleftrightarrow> Q x h"
  by (simp add: ends_def give_def)

lemma ends_return [flow_simps]: "ends (State_Monad.return x) Q h \<longleftrightarrow> Q x h"
  by (simp add: ends_def)

lemma ends_bind [flow_simps]: "ends (State_Monad.bind m f) Q h \<longleftrightarrow> ends m (\<lambda>x. ends (f x) Q) h"
  by (simp add: ends_def split: prod.splits)

lemma ends_ask [flow_simps]: "ends (ask answer entry) Q h \<longleftrightarrow> Q (answer h) (h @ [entry (answer h)])"
  by (simp add: ends_def ask_def)

lemma ends_attempt [flow_simps]:
  "ends (attempt m failed k) Q h \<longleftrightarrow>
     ends m (\<lambda>r h'. case r of Inl err \<Rightarrow> ends (failed err) Q h' | Inr x \<Rightarrow> ends (k x) Q h') h"
  unfolding attempt_def ends_bind by (rule arg_cong3 [of m m _ _ h h ends]) (auto split: sum.splits)

lemma ends_await [flow_simps]:
  "ends (await m k) Q h \<longleftrightarrow> ends m (\<lambda>r h'. case r of Inl err \<Rightarrow> Q (Inl err) h' | Inr x \<Rightarrow> ends (k x) Q h') h"
  unfolding await_def ends_attempt ends_give by (rule refl)

lemma ends_lift [flow_simps]:
  "ends (lift x failure) Q h \<longleftrightarrow> Q (case x of None \<Rightarrow> Inl (OtherThrown (js failure)) | Some y \<Rightarrow> Inr y) h"
  by (simp add: lift_def ends_give)

lemma ends_lift_result [flow_simps]:
  "ends (lift_result x) Q h \<longleftrightarrow> Q (case x of Inl failure \<Rightarrow> Inl (OtherThrown (js failure)) | Inr y \<Rightarrow> Inr y) h"
  by (simp add: lift_result_def ends_give)

lemma ends_Let [flow_simps]: "ends (Let x f) Q h \<longleftrightarrow> (let y = x in ends (f y) Q h)"
  by simp

lemma ends_if [flow_simps]: "ends (if b then m else n) Q h \<longleftrightarrow> (if b then ends m Q h else ends n Q h)"
  by simp

lemma ends_option [flow_simps]:
  "ends (case x of None \<Rightarrow> m | Some y \<Rightarrow> f y) Q h \<longleftrightarrow> (case x of None \<Rightarrow> ends m Q h | Some y \<Rightarrow> ends (f y) Q h)"
  by (simp split: option.splits)

lemma ends_sum [flow_simps]:
  "ends (case x of Inl e \<Rightarrow> m e | Inr y \<Rightarrow> f y) Q h \<longleftrightarrow> (case x of Inl e \<Rightarrow> ends (m e) Q h | Inr y \<Rightarrow> ends (f y) Q h)"
  by (simp split: sum.splits)

lemma ends_prod [flow_simps]: "ends (case x of (a, b) \<Rightarrow> f a b) Q h \<longleftrightarrow> (case x of (a, b) \<Rightarrow> ends (f a b) Q h)"
  by (simp split: prod.splits)

lemma ends_proceed [flow_simps]:
  "ends (proceed m k) Q h \<longleftrightarrow>
     ends m (\<lambda>r h'. case r of Inl err \<Rightarrow> Q (Inl err) h'
       | Inr s \<Rightarrow> (case s of Inl outcome \<Rightarrow> Q (Inr (Inl outcome)) h' | Inr x \<Rightarrow> ends (k x) Q h')) h"
  unfolding proceed_def ends_await ends_sum ends_give by (rule refl)

text \<open>The rule of consequence.\<close>

lemma ends_mono: "ends m Q h \<Longrightarrow> (\<And>r h'. Q r h' \<Longrightarrow> R r h') \<Longrightarrow> ends m R h"
  by (simp add: ends_def)

lemma ends_conj: "ends m (\<lambda>r h'. Q r h' \<and> R r h') h \<longleftrightarrow> ends m Q h \<and> ends m R h"
  by (simp add: ends_def)

lemma ends_run: "run_state m h = (r, h') \<Longrightarrow> ends m Q h \<Longrightarrow> Q r h'"
  by (simp add: ends_def)

section \<open>What each call needs before it\<close>

text \<open>
  \<open>justified J h\<close>: every call of the trace was made with \<open>J\<close> true of the calls before it.  To know one call it is
  then enough to look at what came earlier.
\<close>

definition justified :: "('c set \<Rightarrow> 'c \<Rightarrow> bool) \<Rightarrow> 'c list \<Rightarrow> bool" where
  "justified J h \<longleftrightarrow> (\<forall>i<length h. J (set (take i h)) (h ! i))"

lemma justified_Nil [simp]: "justified J []"
  by (simp add: justified_def)

lemma justified_snoc [simp]: "justified J (h @ [c]) \<longleftrightarrow> justified J h \<and> J (set h) c"
  by (auto simp: justified_def nth_append less_Suc_eq)

lemma justified_split: "justified J (h @ c # t) \<Longrightarrow> J (set h) c"
  unfolding justified_def by (drule spec [of _ "length h"]) simp

text \<open>
  A fact about the calls made so far lasts if it stays true when more are made.  Lasting facts are built from
  membership by monotone connectives.
\<close>

definition lasting :: "('c set \<Rightarrow> bool) \<Rightarrow> bool" where
  "lasting A \<longleftrightarrow> (\<forall>H K. H \<subseteq> K \<longrightarrow> A H \<longrightarrow> A K)"

named_theorems lasting_intro \<open>facts that stay true as a flow goes on\<close>

lemma lastingD: "lasting A \<Longrightarrow> A H \<Longrightarrow> H \<subseteq> K \<Longrightarrow> A K"
  by (auto simp: lasting_def)

lemma lasting_mem [lasting_intro]: "lasting (\<lambda>H. c \<in> H)"
  by (auto simp: lasting_def)

lemma lasting_pure [lasting_intro]: "lasting (\<lambda>H. b)"
  by (simp add: lasting_def)

lemma lasting_conj [lasting_intro]: "lasting A \<Longrightarrow> lasting B \<Longrightarrow> lasting (\<lambda>H. A H \<and> B H)"
  unfolding lasting_def by meson

lemma lasting_disj [lasting_intro]: "lasting A \<Longrightarrow> lasting B \<Longrightarrow> lasting (\<lambda>H. A H \<or> B H)"
  unfolding lasting_def by meson

lemma lasting_imp [lasting_intro]: "(b \<Longrightarrow> lasting A) \<Longrightarrow> lasting (\<lambda>H. b \<longrightarrow> A H)"
  unfolding lasting_def by meson

lemma lasting_all [lasting_intro]: "(\<And>x. lasting (A x)) \<Longrightarrow> lasting (\<lambda>H. \<forall>x. A x H)"
  unfolding lasting_def by meson

lemma lasting_ball [lasting_intro]: "(\<And>x. x \<in> S \<Longrightarrow> lasting (A x)) \<Longrightarrow> lasting (\<lambda>H. \<forall>x\<in>S. A x H)"
  unfolding lasting_def by meson

lemma lasting_ex [lasting_intro]: "(\<And>x. lasting (A x)) \<Longrightarrow> lasting (\<lambda>H. \<exists>x. A x H)"
  unfolding lasting_def by meson

lemma lasting_bex [lasting_intro]: "(\<And>x. x \<in> S \<Longrightarrow> lasting (A x)) \<Longrightarrow> lasting (\<lambda>H. \<exists>x\<in>S. A x H)"
  unfolding lasting_def by meson

lemma lasting_if [lasting_intro]: "lasting A \<Longrightarrow> lasting B \<Longrightarrow> lasting (\<lambda>H. if b then A H else B H)"
  by (cases b) simp_all

lemma lasting_Let [lasting_intro]: "lasting (A x) \<Longrightarrow> lasting (\<lambda>H. let y = x in A y H)"
  by simp

lemma lasting_option [lasting_intro]:
  "lasting A \<Longrightarrow> (\<And>y. lasting (B y)) \<Longrightarrow> lasting (\<lambda>H. case x of None \<Rightarrow> A H | Some y \<Rightarrow> B y H)"
  by (cases x) simp_all

lemma lasting_sum [lasting_intro]:
  "(\<And>e. lasting (A e)) \<Longrightarrow> (\<And>y. lasting (B y)) \<Longrightarrow> lasting (\<lambda>H. case x of Inl e \<Rightarrow> A e H | Inr y \<Rightarrow> B y H)"
  by (cases x) simp_all

lemma lasting_prod [lasting_intro]: "(\<And>a b. lasting (A a b)) \<Longrightarrow> lasting (\<lambda>H. case x of (a, b) \<Rightarrow> A a b H)"
  by (cases x) simp

section \<open>A calculus for flows\<close>

text \<open>
  \<open>meets J A m B\<close>: run when \<open>A\<close> is known of the calls so far, the flow makes only calls that \<open>J\<close> justifies, takes none
  back, and ends with a result of which \<open>B\<close> is known.
\<close>

definition meets ::
  "('c set \<Rightarrow> 'c \<Rightarrow> bool) \<Rightarrow> ('c set \<Rightarrow> bool) \<Rightarrow> ('c, 'a) flow \<Rightarrow> ('a \<Rightarrow> 'c set \<Rightarrow> bool) \<Rightarrow> bool" where
  "meets J A m B \<longleftrightarrow>
     (\<forall>h. justified J h \<longrightarrow> A (set h) \<longrightarrow> ends m (\<lambda>r h'. justified J h' \<and> set h \<subseteq> set h' \<and> B r (set h')) h)"

lemma meetsD:
  "meets J A m B \<Longrightarrow> justified J h \<Longrightarrow> A (set h) \<Longrightarrow> ends m (\<lambda>r h'. justified J h' \<and> set h \<subseteq> set h' \<and> B r (set h')) h"
  by (simp add: meets_def)

lemma meets_run:
  "meets J A m B \<Longrightarrow> A {} \<Longrightarrow> run_state m [] = (r, h) \<Longrightarrow> justified J h \<and> B r (set h)"
  unfolding meets_def ends_def by (drule spec [of _ "[]"]) simp

lemma meets_weaken:
  assumes "meets J A m B" "\<And>H. A' H \<Longrightarrow> A H" "\<And>r H. B r H \<Longrightarrow> B' r H"
  shows "meets J A' m B'"
  unfolding meets_def
proof (intro allI impI)
  fix h
  assume h: "justified J h" "A' (set h)"
  show "ends m (\<lambda>r h'. justified J h' \<and> set h \<subseteq> set h' \<and> B' r (set h')) h"
    by (rule ends_mono [OF meetsD [OF assms(1) h(1) assms(2) [OF h(2)]]]) (simp add: assms(3))
qed

lemma meets_pre: "meets J A m B \<Longrightarrow> (\<And>H. A' H \<Longrightarrow> A H) \<Longrightarrow> meets J A' m B"
  by (rule meets_weaken)

lemma meets_post: "meets J A m B \<Longrightarrow> (\<And>r H. B r H \<Longrightarrow> B' r H) \<Longrightarrow> meets J A m B'"
  by (rule meets_weaken)

text \<open>What is known before is known after.\<close>

lemma meets_frame:
  assumes "meets J A m B" "lasting F"
  shows "meets J (\<lambda>H. F H \<and> A H) m (\<lambda>r H. F H \<and> B r H)"
  unfolding meets_def
proof (intro allI impI)
  fix h
  assume h: "justified J h" "F (set h) \<and> A (set h)"
  show "ends m (\<lambda>r h'. justified J h' \<and> set h \<subseteq> set h' \<and> F (set h') \<and> B r (set h')) h"
    by (rule ends_mono [OF meetsD [OF assms(1) h(1) conjunct2 [OF h(2)]]])
      (use h(2) lastingD [OF assms(2)] in blast)
qed

lemma meets_keeps:
  assumes "meets J A m B" "lasting A" "\<And>r H. A H \<Longrightarrow> B r H \<Longrightarrow> B' r H"
  shows "meets J A m B'"
  by (rule meets_weaken [OF meets_frame [OF assms(1,2)]]) (use assms(3) in auto)

lemma meets_give: "(\<And>H. A H \<Longrightarrow> B x H) \<Longrightarrow> meets J A (give x) B"
  by (simp add: meets_def ends_give)

lemma meets_ask:
  "(\<And>H x. A H \<Longrightarrow> J H (entry x)) \<Longrightarrow> meets J A (ask answer entry) (\<lambda>x H. entry x \<in> H)"
  by (auto simp add: meets_def ends_ask)

lemma meets_bind:
  assumes "lasting A" "meets J A m B" "\<And>x. meets J (\<lambda>H. A H \<and> B x H) (f x) C"
  shows "meets J A (State_Monad.bind m f) C"
  unfolding meets_def ends_bind
proof (intro allI impI)
  fix h
  assume h: "justified J h" "A (set h)"
  show "ends m (\<lambda>x. ends (f x) (\<lambda>r h'. justified J h' \<and> set h \<subseteq> set h' \<and> C r (set h'))) h"
  proof (rule ends_mono [OF meetsD [OF assms(2) h]])
    fix x h1
    assume 1: "justified J h1 \<and> set h \<subseteq> set h1 \<and> B x (set h1)"
    with h(2) have "A (set h1)" by (blast intro: lastingD [OF assms(1)])
    with 1 have "ends (f x) (\<lambda>r h'. justified J h' \<and> set h1 \<subseteq> set h' \<and> C r (set h')) h1"
      by (intro meetsD [OF assms(3)]) simp_all
    then show "ends (f x) (\<lambda>r h'. justified J h' \<and> set h \<subseteq> set h' \<and> C r (set h')) h1"
      by (rule ends_mono) (use 1 in auto)
  qed
qed

lemma meets_sum:
  "(\<And>e. x = Inl e \<Longrightarrow> meets J A (m e) B) \<Longrightarrow> (\<And>y. x = Inr y \<Longrightarrow> meets J A (f y) B)
   \<Longrightarrow> meets J A (case x of Inl e \<Rightarrow> m e | Inr y \<Rightarrow> f y) B"
  by (simp split: sum.splits)

lemma meets_option:
  "(x = None \<Longrightarrow> meets J A m B) \<Longrightarrow> (\<And>y. x = Some y \<Longrightarrow> meets J A (f y) B)
   \<Longrightarrow> meets J A (case x of None \<Rightarrow> m | Some y \<Rightarrow> f y) B"
  by (simp split: option.splits)

lemma meets_prod: "(\<And>a b. x = (a, b) \<Longrightarrow> meets J A (f a b) B) \<Longrightarrow> meets J A (case x of (a, b) \<Rightarrow> f a b) B"
  by (simp split: prod.splits)

lemma meets_if: "(b \<Longrightarrow> meets J A m B) \<Longrightarrow> (\<not> b \<Longrightarrow> meets J A n B) \<Longrightarrow> meets J A (if b then m else n) B"
  by simp

lemma meets_Let: "(\<And>y. y = x \<Longrightarrow> meets J A (f y) B) \<Longrightarrow> meets J A (Let x f) B"
  by simp

lemma meets_attempt:
  assumes "lasting A" "meets J A m B" "\<And>e. meets J (\<lambda>H. A H \<and> B (Inl e) H) (failed e) C"
    "\<And>x. meets J (\<lambda>H. A H \<and> B (Inr x) H) (k x) C"
  shows "meets J A (attempt m failed k) C"
  unfolding attempt_def
proof (rule meets_bind [OF assms(1,2)])
  show "meets J (\<lambda>H. A H \<and> B r H) (case r of Inl err \<Rightarrow> failed err | Inr x \<Rightarrow> k x) C" for r
    using assms(3,4) by (cases r) simp_all
qed

lemma meets_await:
  assumes "lasting A" "meets J A m B" "\<And>e H. A H \<Longrightarrow> B (Inl e) H \<Longrightarrow> C (Inl e) H"
    "\<And>x. meets J (\<lambda>H. A H \<and> B (Inr x) H) (k x) C"
  shows "meets J A (await m k) C"
  unfolding await_def using assms by (intro meets_attempt [OF assms(1,2)] meets_give) auto

lemma meets_proceed:
  assumes "lasting A" "meets J A m B" "\<And>e H. A H \<Longrightarrow> B (Inl e) H \<Longrightarrow> C (Inl e) H"
    "\<And>x H. A H \<Longrightarrow> B (Inr (Inl x)) H \<Longrightarrow> C (Inr (Inl x)) H"
    "\<And>x. meets J (\<lambda>H. A H \<and> B (Inr (Inr x)) H) (k x) C"
  shows "meets J A (proceed m k) C"
  unfolding proceed_def
proof (rule meets_await [OF assms(1,2)])
  show "meets J (\<lambda>H. A H \<and> B (Inr r) H) (case r of Inl outcome \<Rightarrow> give (Inr (Inl outcome)) | Inr x \<Rightarrow> k x) C" for r
    using assms(4,5) by (cases r) (auto intro: meets_give)
qed (rule assms(3))

lemma meets_lift:
  "meets J A (lift x failure) (\<lambda>r H. case r of Inl e \<Rightarrow> x = None | Inr y \<Rightarrow> x = Some y)"
  unfolding lift_def by (rule meets_give) (simp split: option.split)

lemma meets_lift_result:
  "meets J A (lift_result x) (\<lambda>r H. case r of Inl e \<Rightarrow> (\<exists>f. x = Inl f) | Inr y \<Rightarrow> x = Inr y)"
  unfolding lift_result_def by (rule meets_give) (simp split: sum.split)

lemma meets_lift_intro:
  "(\<And>H. x = None \<Longrightarrow> A H \<Longrightarrow> B (Inl (OtherThrown (js failure))) H) \<Longrightarrow> (\<And>y H. x = Some y \<Longrightarrow> A H \<Longrightarrow> B (Inr y) H)
   \<Longrightarrow> meets J A (lift x failure) B"
  unfolding lift_def by (rule meets_give) (simp split: option.split)

text \<open>A claim about a result that is there; a rejection, or a reason why not, carries none.\<close>

definition on_ok :: "('a \<Rightarrow> 'c set \<Rightarrow> bool) \<Rightarrow> 'e + 'a \<Rightarrow> 'c set \<Rightarrow> bool" where
  "on_ok B r H \<longleftrightarrow> (case r of Inl e \<Rightarrow> True | Inr x \<Rightarrow> B x H)"

lemma on_ok_simps [simp]: "on_ok B (Inl e) H" "on_ok B (Inr x) H \<longleftrightarrow> B x H"
  by (simp_all add: on_ok_def)

lemma on_ok_True [simp]: "on_ok (\<lambda>x H. True) r H"
  by (simp add: on_ok_def split: sum.split)

lemma on_ok_mono: "on_ok B r H \<Longrightarrow> (\<And>x. B x H \<Longrightarrow> C x H) \<Longrightarrow> on_ok C r H"
  by (simp add: on_ok_def split: sum.splits)

lemma on_ok_last [lasting_intro]: "(\<And>x. lasting (B x)) \<Longrightarrow> lasting (on_ok B r)"
  unfolding on_ok_def [abs_def] by (intro lasting_intro)

lemma meets_await_ok:
  "lasting A \<Longrightarrow> meets J A m (on_ok B) \<Longrightarrow> (\<And>x. meets J (\<lambda>H. A H \<and> B x H) (k x) (on_ok C))
   \<Longrightarrow> meets J A (await m k) (on_ok C)"
  by (rule meets_await [where B = "on_ok B"]) simp_all

lemma meets_proceed_ok:
  "lasting A \<Longrightarrow> meets J A m (on_ok (on_ok B)) \<Longrightarrow> (\<And>x. meets J (\<lambda>H. A H \<and> B x H) (k x) (on_ok (on_ok C)))
   \<Longrightarrow> meets J A (proceed m k) (on_ok (on_ok C))"
  by (rule meets_proceed [where B = "on_ok (on_ok B)"]) simp_all

lemma meets_attempt_ok:
  "lasting A \<Longrightarrow> meets J A m (on_ok B) \<Longrightarrow> (\<And>e. meets J A (failed e) C) \<Longrightarrow> (\<And>x. meets J (\<lambda>H. A H \<and> B x H) (k x) C)
   \<Longrightarrow> meets J A (attempt m failed k) C"
  by (rule meets_attempt [where B = "on_ok B"]) (simp_all add: on_ok_def)

lemma meets_lift_ok: "meets J A (lift x failure) (on_ok (\<lambda>y H. x = Some y))"
  by (rule meets_lift_intro) simp_all

lemma meets_lift_result_ok: "meets J A (lift_result x) (on_ok (\<lambda>y H. x = Inr y))"
  unfolding lift_result_def by (rule meets_give) (simp split: sum.split)

text \<open>A flow none of whose calls needs a justification, and of whose result nothing is claimed.\<close>

abbreviation quiet :: "('c set \<Rightarrow> 'c \<Rightarrow> bool) \<Rightarrow> ('c, 'a) flow \<Rightarrow> bool" where
  "quiet J m \<equiv> meets J (\<lambda>H. True) m (\<lambda>r H. True)"

lemma quiet_give: "quiet J (give x)"
  by (rule meets_give)

lemma quiet_ask: "(\<And>H x. J H (entry x)) \<Longrightarrow> quiet J (ask answer entry)"
  by (rule meets_post [OF meets_ask]) simp_all

lemma quiet_bind: "quiet J m \<Longrightarrow> (\<And>x. quiet J (f x)) \<Longrightarrow> quiet J (State_Monad.bind m f)"
  by (rule meets_bind [OF lasting_pure, where B = "\<lambda>r H. True"]) simp_all

lemma quiet_attempt: "quiet J m \<Longrightarrow> (\<And>e. quiet J (failed e)) \<Longrightarrow> (\<And>x. quiet J (k x)) \<Longrightarrow> quiet J (attempt m failed k)"
  by (rule meets_attempt [OF lasting_pure, where B = "\<lambda>r H. True"]) simp_all

lemma quiet_await: "quiet J m \<Longrightarrow> (\<And>x. quiet J (k x)) \<Longrightarrow> quiet J (await m k)"
  by (rule meets_await [OF lasting_pure, where B = "\<lambda>r H. True"]) simp_all

lemma quiet_proceed: "quiet J m \<Longrightarrow> (\<And>x. quiet J (k x)) \<Longrightarrow> quiet J (proceed m k)"
  by (rule meets_proceed [OF lasting_pure, where B = "\<lambda>r H. True"]) simp_all

lemma quiet_lift: "quiet J (lift x failure)" "quiet J (lift_result y)"
  by (rule meets_post [OF meets_lift] meets_post [OF meets_lift_result], simp)+

lemmas quiet_rules = quiet_give quiet_bind quiet_attempt quiet_await quiet_proceed quiet_lift
  meets_if meets_Let meets_option meets_sum meets_prod

lemma quiet_read_pages: "(\<And>c. quiet J (fetch c)) \<Longrightarrow> quiet J (read_pages k fetch items next_cursor failure cursor out)"
  by (induction k arbitrary: cursor out) (auto intro!: quiet_rules)

text \<open>A quiet step before one of which something is known.\<close>

lemma meets_after_quiet:
  "lasting A \<Longrightarrow> quiet J m \<Longrightarrow> (\<And>x. meets J A (k x) (on_ok C)) \<Longrightarrow> meets J A (await m k) (on_ok C)"
  by (rule meets_await_ok [where B = "\<lambda>x H. True"]) (auto elim: meets_weaken)

end
