(* ===== verification/Group_Api.thy ===== *)
theory Group_Api
  imports Flow Item_Check
begin

text \<open>
  lib/api/groups.ts and lib/api/users.ts as the flows see them: the shapes that cross the wire, the calls
  a flow can make, and the interfaces of the functions it is given.  An optional field of the wire is an
  option; a served object has the fields its type declares.
\<close>

section \<open>users.ts\<close>

record UserProjection =
  up_userId :: js_string
  up_username :: js_string
  up_signingPublicKey :: js_string
  up_wrappingPublicKey :: js_string
  up_supersededSigningKeys :: "SupersededKey list"
  up_keyEpoch :: int
  up_deleted :: bool

record UserDetail = UserProjection +
  ud_keyChanges :: "WireKeyChange list"

text \<open>What the pin check and the grant check read of a projection.\<close>

definition served_keys :: "'a UserProjection_scheme \<Rightarrow> ServedUserKeys" where
  "served_keys u = \<lparr>su_signingPublicKey = up_signingPublicKey u,
     su_supersededSigningKeys = map ss_publicKey (up_supersededSigningKeys u),
     su_wrappingPublicKey = up_wrappingPublicKey u, su_keyEpoch = up_keyEpoch u\<rparr>"

definition historyOf :: "'a UserProjection_scheme \<Rightarrow> UserKeyHistory" where
  "historyOf u = \<lparr>kh_signingPublicKey = up_signingPublicKey u, kh_superseded = up_supersededSigningKeys u\<rparr>"

definition USER_BATCH_SIZE :: nat where "USER_BATCH_SIZE = 100"

text \<open>An answer of \<open>getUsers\<close>: the map, in its order of insertion, and what \<open>onError\<close> was last called with.\<close>

type_synonym users_answer = "(js_string \<times> UserProjection) list \<times> thrown option"

text \<open>The chunks of the ids, and the body of the loop; \<open>postBatch\<close> is the request.\<close>

fun chunks_of :: "nat \<Rightarrow> 'a list \<Rightarrow> 'a list list" where
  "chunks_of n [] = []"
| "chunks_of n (x # xs) = take (max 1 n) (x # xs) # chunks_of n (drop (max 1 n) (x # xs))"

definition keep_asked ::
  "js_string list \<Rightarrow> UserProjection list \<Rightarrow> (js_string \<times> UserProjection) list \<Rightarrow> (js_string \<times> UserProjection) list" where
  "keep_asked chunk users found =
     foldl (\<lambda>out u. if up_userId u \<in> set chunk then AList.update (up_userId u) u out else out) found users"

fun get_chunks ::
  "(js_string list \<Rightarrow> ('c, thrown + UserProjection list) flow) \<Rightarrow> js_string list list \<Rightarrow> users_answer
   \<Rightarrow> ('c, users_answer) flow" where
  "get_chunks postBatch [] acc = give acc"
| "get_chunks postBatch (chunk # rest) (found, failure) =
     attempt (attempt (postBatch chunk)
                (\<lambda>err. if has_status 503 err then postBatch chunk else give (Inl err)) (\<lambda>users. give (Inr users)))
       (\<lambda>err. get_chunks postBatch rest (found, Some err))
       (\<lambda>users. get_chunks postBatch rest (keep_asked chunk users found, failure))"

definition getUsers_api ::
  "(js_string list \<Rightarrow> ('c, thrown + UserProjection list) flow) \<Rightarrow> js_string list \<Rightarrow> ('c, users_answer) flow" where
  "getUsers_api postBatch ids = get_chunks postBatch (chunks_of USER_BATCH_SIZE (unique_list ids)) ([], None)"

section \<open>groups.ts: what is served\<close>

record GroupListEntry =
  ge_groupId :: js_string
  ge_visibility :: js_string
  ge_role :: js_string
  ge_generation :: int
  ge_noRotation :: bool
  ge_nameGeneration :: int
  ge_namePlaintext :: "js_string option"
  ge_descriptionPlaintext :: "js_string option"
  ge_nameCiphertext :: "Sealed option"
  ge_descriptionCiphertext :: "Sealed option"
  ge_wrappedGroupKey :: "WireWrapped option"

record RotationMarker =
  mk_generation :: int
  mk_startedAt :: js_string
  mk_startedBy :: js_string
  mk_removedUserId :: "js_string option"
  mk_startSignature :: "js_string option"
  mk_rekeyedUserId :: "js_string option"
  mk_rekeyReason :: "js_string option"

record GroupDetail = GroupListEntry +
  gd_revocationMode :: js_string
  gd_memberCap :: int
  gd_expirationDays :: int
  gd_version :: int
  gd_myGrantSortKey :: "js_string option"
  gd_rotation :: "RotationMarker option"

record RosterEntry =
  re_userId :: js_string
  re_role :: js_string
  re_generation :: int
  re_wrapEpoch :: "int option"
  re_wrapRecord :: "WireWrapRecord option"

record ListMembersResponse =
  lm_members :: "RosterEntry list"
  lm_nextCursor :: "js_string option"

record ListGrantsResponse =
  lg_anchor :: GrantAnchor
  lg_grants :: "GrantRecord list"
  lg_nextCursor :: "js_string option"

record ListAdmissionsResponse =
  la_admissions :: "AdmissionRecord list"
  la_nextCursor :: "js_string option"

record ListDesignationsResponse =
  ld_designations :: "DesignationRecord list"
  ld_nextCursor :: "js_string option"

record KeychainLink = RemovalLink +
  kl_wrapped :: Sealed

record KeychainResponse =
  kp_links :: "KeychainLink list"
  kp_nextFrom :: "int option"

section \<open>groups.ts: what is sent\<close>

text \<open>The two fields of a wrap record: both or neither.\<close>

type_synonym WrapRecordFields = "(js_string \<times> js_string) option"

definition MAX_REWRAP_BATCH :: nat where "MAX_REWRAP_BATCH = 25"

record TakeOverRotationRequest =
  to_generation :: int
  to_link :: Sealed
  to_wrappedKey :: WireWrapped
  to_startSignature :: js_string
  to_record :: WrapRecordFields

record RemoveRotationRequest =
  rq_generation :: int
  rq_link :: Sealed
  rq_removerWrappedKey :: WireWrapped
  rq_startSignature :: js_string
  rq_record :: WrapRecordFields

record SignedDemotion =
  sd_grantSortKey :: js_string
  sd_grantorGrantRef :: js_string
  sd_signature :: js_string

record RemoveMemberRequest =
  rb_demotion :: "SignedDemotion option"
  rb_rotation :: "RemoveRotationRequest option"

record LeaveRotationRequest =
  lr_generation :: int
  lr_startSignature :: js_string

record LeaveGroupRequest =
  lb_demotion :: "SignedDemotion option"
  lb_rotation :: "LeaveRotationRequest option"

record ReadmitMemberRequest =
  rr_inviteId :: js_string
  rr_generation :: int
  rr_inviterGrantRef :: js_string
  rr_day :: js_string
  rr_signature :: js_string

record ApproveRewrapRequest =
  aw_generation :: int
  aw_wrappedKey :: WireWrapped
  aw_keyEpoch :: int
  aw_record :: WrapRecordFields

record ApproveRekeyRequest = TakeOverRotationRequest +
  ar_memberWrappedKey :: "WireWrapped option"
  ar_memberKeyEpoch :: int

record SelfWrapRequest =
  sf_generation :: int
  sf_wrappedKey :: WireWrapped
  sf_record :: WrapRecordFields

record ChangeMemberRoleRequest =
  cm_role :: js_string
  cm_grantSortKey :: js_string
  cm_grantorGrantRef :: js_string
  cm_signature :: js_string

section \<open>worker-protocol.ts: what the worker is asked\<close>

record RewrapGroupKeyRequest =
  rw_userId :: js_string
  rw_groupId :: js_string
  rw_ownWrappedGroupKey :: WireWrapped
  rw_ownGeneration :: int
  rw_recipients :: "(js_string \<times> js_string) list"

record StartGroupRotationRequest =
  sg_userId :: js_string
  sg_groupId :: js_string
  sg_ownWrappedGroupKey :: WireWrapped
  sg_ownGeneration :: int
  sg_subjectUserId :: js_string

record StartApprovalRekeyRequest =
  sa_userId :: js_string
  sa_groupId :: js_string
  sa_ownWrappedGroupKey :: WireWrapped
  sa_ownGeneration :: int
  sa_memberUserId :: js_string
  sa_memberWrappingPublicKey :: js_string

record HandoffKeyRequest =
  hk_userId :: js_string
  hk_groupId :: js_string
  hk_handoffGeneration :: int
  hk_handoffWrappedKey :: WireWrapped

record SignWrapRecordRequest =
  wq_userId :: js_string
  wq_groupId :: js_string
  wq_memberUserId :: js_string
  wq_generation :: int
  wq_keyEpoch :: int
  wq_reason :: RekeyReason

record SignReadmissionRequest =
  ra_userId :: js_string
  ra_groupId :: js_string
  ra_subjectUserId :: js_string
  ra_subjectEd25519PublicKey :: js_string
  ra_subjectX25519PublicKey :: js_string
  ra_inviteId :: js_string
  ra_inviterGrantRef :: js_string
  ra_day :: js_string
  ra_generation :: int

record SignRoleGrantRequest =
  rg_userId :: js_string
  rg_groupId :: js_string
  rg_subjectUserId :: js_string
  rg_role :: js_string
  rg_grantorGrantRef :: js_string

section \<open>The calls of a flow\<close>

text \<open>Reads, writes in the browser, what is asked of the worker and what is sent to the server, each with its answer.\<close>

datatype (plugins only: code size) call =
    ReadGroup js_string "thrown + GroupDetail"
  | ReadGrants js_string "js_string option" "thrown + ListGrantsResponse"
  | ReadDesignations js_string "js_string option" "thrown + ListDesignationsResponse"
  | ReadAdmissions js_string "js_string option" "thrown + ListAdmissionsResponse"
  | ReadKeychain js_string int int "thrown + KeychainResponse"
  | ReadMembers js_string "thrown + RosterEntry list"
  | ReadMembersPage js_string "js_string option" "thrown + ListMembersResponse"
  | ReadUsers "js_string list" "thrown + users_answer"
  | ReadUserDetail js_string "thrown + UserDetail"
  | ReadOwnKey "thrown + js_string"
  | ReadOwnHistory bytes "thrown + OwnKeyHistory option"
  | ReadHistoryFailure bytes "thrown + js_string option"
  | ReadPins "thrown + PinRecord list"
  | ReadVerifications "thrown + VerificationRecord list"
  | ReadAnchorPin js_string "PinnedAnchor option"
  | ReadClock int
  | DrawInviteId js_string
  | WriteAnchorPin js_string PinnedAnchor bool
  | StorePin js_string "js_string list" js_string int "thrown + unit"
  | AskRewrap RewrapGroupKeyRequest "thrown + (js_string \<times> WireWrapped) list"
  | AskRotationStart StartGroupRotationRequest "thrown + RotationStarted"
  | AskApprovalRekey StartApprovalRekeyRequest "thrown + RotationStarted"
  | AskSelfRekey HandoffKeyRequest "thrown + RotationStarted"
  | AskSelfWrap HandoffKeyRequest "thrown + WireWrapped"
  | AskWrapRecord SignWrapRecordRequest "thrown + js_string \<times> js_string"
  | AskReadmission SignReadmissionRequest "thrown + SignedAdmission"
  | AskRoleGrant SignRoleGrantRequest "thrown + js_string \<times> js_string"
  | AskLeaveStart js_string js_string int "thrown + int \<times> js_string"
  | AskVerification js_string js_string js_string "thrown + SignedVerification"
  | SendRewrap js_string int "(js_string \<times> WireWrapped) list" "thrown + unit"
  | SendComplete js_string int "thrown + unit"
  | SendTakeOver js_string TakeOverRotationRequest "thrown + unit"
  | SendRemove js_string js_string "RemoveMemberRequest option" "thrown + unit"
  | SendReadmit js_string js_string ReadmitMemberRequest "thrown + unit"
  | SendApproveRewrap js_string js_string ApproveRewrapRequest "thrown + unit"
  | SendApproveRekey js_string js_string ApproveRekeyRequest "thrown + unit"
  | SendSelfRekey js_string TakeOverRotationRequest "thrown + unit"
  | SendSelfWrap js_string SelfWrapRequest "thrown + unit"
  | SendDeleteHandoff js_string "thrown + unit"
  | SendLeave js_string LeaveGroupRequest "thrown + bool"
  | SendRole js_string js_string ChangeMemberRoleRequest "thrown + unit"
  | SendVerification js_string js_string SignedVerification "thrown + unit"
  | SendUnverify js_string "thrown + unit"

type_synonym 'a answer = "call list \<Rightarrow> thrown + 'a"

section \<open>The interfaces of the flows\<close>

text \<open>
  The dependencies of runGrantCheck.ts, and of runRotation.ts which extends them.  A dependency that may be
  absent is an option.
\<close>

record GrantCheckDeps =
  listGrants :: "js_string \<Rightarrow> js_string option \<Rightarrow> ListGrantsResponse answer"
  listDesignations :: "js_string \<Rightarrow> js_string option \<Rightarrow> ListDesignationsResponse answer"
  now :: "call list \<Rightarrow> int"
  getUsers :: "js_string list \<Rightarrow> users_answer answer"
  readPin :: "js_string \<Rightarrow> call list \<Rightarrow> PinnedAnchor option"
  writePin :: "js_string \<Rightarrow> PinnedAnchor \<Rightarrow> call list \<Rightarrow> bool"
  selfUserId :: js_string
  ownSigningKey :: "js_string answer"
  loadOwnKeyHistory :: "(bytes \<Rightarrow> OwnKeyHistory option answer) option"
  listPins :: "PinRecord list answer"
  pinKeys :: "js_string \<Rightarrow> js_string list \<Rightarrow> js_string \<Rightarrow> int \<Rightarrow> unit answer"

record RotationDeps = GrantCheckDeps +
  listAdmissions :: "js_string \<Rightarrow> js_string option \<Rightarrow> ListAdmissionsResponse answer"
  getGroup :: "js_string \<Rightarrow> GroupDetail answer"
  getKeychain :: "js_string \<Rightarrow> int \<Rightarrow> int \<Rightarrow> KeychainResponse answer"
  listAllMembers :: "js_string \<Rightarrow> RosterEntry list answer"
  getUserDetail :: "(js_string \<Rightarrow> UserDetail answer) option"
  signWrapRecord :: "(SignWrapRecordRequest \<Rightarrow> (js_string \<times> js_string) answer) option"
  ownKeyHistoryFailure :: "(bytes \<Rightarrow> js_string option answer) option"
  rewrapCrypto :: "RewrapGroupKeyRequest \<Rightarrow> (js_string \<times> WireWrapped) list answer"
  rewrapMembers :: "js_string \<Rightarrow> int \<Rightarrow> (js_string \<times> WireWrapped) list \<Rightarrow> unit answer"
  completeRotation :: "js_string \<Rightarrow> int \<Rightarrow> unit answer"
  takeOverCrypto :: "StartGroupRotationRequest \<Rightarrow> RotationStarted answer"
  takeOverRotation :: "js_string \<Rightarrow> TakeOverRotationRequest \<Rightarrow> unit answer"

section \<open>The calls as steps\<close>

abbreviation read_grants :: "'d GrantCheckDeps_scheme \<Rightarrow> js_string \<Rightarrow> js_string option \<Rightarrow> (call, thrown + ListGrantsResponse) flow" where
  "read_grants D g c \<equiv> ask (listGrants D g c) (ReadGrants g c)"

abbreviation read_designations :: "'d GrantCheckDeps_scheme \<Rightarrow> js_string \<Rightarrow> js_string option \<Rightarrow> (call, thrown + ListDesignationsResponse) flow" where
  "read_designations D g c \<equiv> ask (listDesignations D g c) (ReadDesignations g c)"

abbreviation read_clock :: "'d GrantCheckDeps_scheme \<Rightarrow> (call, int) flow" where
  "read_clock D \<equiv> ask (now D) ReadClock"

abbreviation read_users :: "'d GrantCheckDeps_scheme \<Rightarrow> js_string list \<Rightarrow> (call, thrown + users_answer) flow" where
  "read_users D ids \<equiv> ask (getUsers D ids) (ReadUsers ids)"

abbreviation read_anchor_pin :: "'d GrantCheckDeps_scheme \<Rightarrow> js_string \<Rightarrow> (call, PinnedAnchor option) flow" where
  "read_anchor_pin D g \<equiv> ask (readPin D g) (ReadAnchorPin g)"

abbreviation write_anchor_pin :: "'d GrantCheckDeps_scheme \<Rightarrow> js_string \<Rightarrow> PinnedAnchor \<Rightarrow> (call, bool) flow" where
  "write_anchor_pin D g pin \<equiv> ask (writePin D g pin) (WriteAnchorPin g pin)"

abbreviation read_own_key :: "'d GrantCheckDeps_scheme \<Rightarrow> (call, thrown + js_string) flow" where
  "read_own_key D \<equiv> ask (ownSigningKey D) ReadOwnKey"

abbreviation read_pins :: "'d GrantCheckDeps_scheme \<Rightarrow> (call, thrown + PinRecord list) flow" where
  "read_pins D \<equiv> ask (listPins D) ReadPins"

abbreviation store_pin ::
  "'d GrantCheckDeps_scheme \<Rightarrow> js_string \<Rightarrow> js_string list \<Rightarrow> js_string \<Rightarrow> int \<Rightarrow> (call, thrown + unit) flow" where
  "store_pin D u ks w e \<equiv> ask (pinKeys D u ks w e) (StorePin u ks w e)"

abbreviation read_admissions :: "'d RotationDeps_scheme \<Rightarrow> js_string \<Rightarrow> js_string option \<Rightarrow> (call, thrown + ListAdmissionsResponse) flow" where
  "read_admissions D g c \<equiv> ask (listAdmissions D g c) (ReadAdmissions g c)"

abbreviation read_group :: "'d RotationDeps_scheme \<Rightarrow> js_string \<Rightarrow> (call, thrown + GroupDetail) flow" where
  "read_group D g \<equiv> ask (getGroup D g) (ReadGroup g)"

abbreviation read_keychain :: "'d RotationDeps_scheme \<Rightarrow> js_string \<Rightarrow> int \<Rightarrow> int \<Rightarrow> (call, thrown + KeychainResponse) flow" where
  "read_keychain D g a b \<equiv> ask (getKeychain D g a b) (ReadKeychain g a b)"

abbreviation read_members :: "'d RotationDeps_scheme \<Rightarrow> js_string \<Rightarrow> (call, thrown + RosterEntry list) flow" where
  "read_members D g \<equiv> ask (listAllMembers D g) (ReadMembers g)"

abbreviation ask_rewrap :: "'d RotationDeps_scheme \<Rightarrow> RewrapGroupKeyRequest \<Rightarrow> (call, thrown + (js_string \<times> WireWrapped) list) flow" where
  "ask_rewrap D req \<equiv> ask (rewrapCrypto D req) (AskRewrap req)"

abbreviation send_rewrap ::
  "'d RotationDeps_scheme \<Rightarrow> js_string \<Rightarrow> int \<Rightarrow> (js_string \<times> WireWrapped) list \<Rightarrow> (call, thrown + unit) flow" where
  "send_rewrap D g n wraps \<equiv> ask (rewrapMembers D g n wraps) (SendRewrap g n wraps)"

abbreviation send_complete :: "'d RotationDeps_scheme \<Rightarrow> js_string \<Rightarrow> int \<Rightarrow> (call, thrown + unit) flow" where
  "send_complete D g n \<equiv> ask (completeRotation D g n) (SendComplete g n)"

abbreviation ask_take_over :: "'d RotationDeps_scheme \<Rightarrow> StartGroupRotationRequest \<Rightarrow> (call, thrown + RotationStarted) flow" where
  "ask_take_over D req \<equiv> ask (takeOverCrypto D req) (AskRotationStart req)"

abbreviation send_take_over :: "'d RotationDeps_scheme \<Rightarrow> js_string \<Rightarrow> TakeOverRotationRequest \<Rightarrow> (call, thrown + unit) flow" where
  "send_take_over D g req \<equiv> ask (takeOverRotation D g req) (SendTakeOver g req)"

end
