(* ===== verification/Grant_Check.thy ===== *)
theory Grant_Check
  imports Group_Api
begin

text \<open>
  routes/ownHistory.ts and routes/runGrantCheck.ts: the grant history as the server pages it out, the key
  histories of everyone who signed it, checked against the caller's own pins, and what the verifier of
  Grant_Chain says of the whole.  \<open>n\<close> is the depth of the call stack the verifier may use.
\<close>

section \<open>ownHistory.ts\<close>

definition ownHistoryFor :: "'d GrantCheckDeps_scheme \<Rightarrow> bytes \<Rightarrow> (call, OwnKeyHistory option) flow" where
  "ownHistoryFor D own =
     (case loadOwnKeyHistory D of
        None \<Rightarrow> give None
      | Some load \<Rightarrow> attempt (ask (load own) (ReadOwnHistory own)) (\<lambda>err. give None) give)"

definition ownSigningKeysFor :: "'d GrantCheckDeps_scheme \<Rightarrow> bytes \<Rightarrow> (call, bytes list) flow" where
  "ownSigningKeysFor D own = do {
     history \<leftarrow> ownHistoryFor D own;
     give (case history of None \<Rightarrow> [own] | Some h \<Rightarrow> ownKeys h)
   }"

text \<open>\<open>base64ToBytes(await deps.ownSigningKey())\<close>.\<close>

definition own_signing_key :: "'d GrantCheckDeps_scheme \<Rightarrow> (call, thrown + bytes) flow" where
  "own_signing_key D = await (read_own_key D) (\<lambda>s. lift (base64ToBytes s) ''InvalidCharacterError'')"

section \<open>runGrantCheck.ts: what a check says\<close>

datatype AnchorState = AnchorPinned | AnchorFirstSeen | AnchorUnpinned | AnchorChanged | RootUnverified

datatype KeyState = KeysPinned | KeysFirstSeen | KeysUnchecked | KeysBlocked

datatype GrantCheck =
    Unavailable
  | Checked AnchorState KeyState "js_string list" "js_string \<rightharpoonup> RoleStatus"

definition checkForView :: "('v \<times> GrantCheck) option \<Rightarrow> 'v \<Rightarrow> GrantCheck option" where
  "checkForView stored current = (case stored of None \<Rightarrow> None | Some (view, r) \<Rightarrow> if view = current then Some r else None)"

record VerifiedChain =
  vc_anchor :: GrantAnchor
  vc_anchorState :: AnchorState
  vc_keys :: KeyState
  vc_blockedKeyUsers :: "js_string list"
  vc_result :: GrantChainResult
  vc_keyHistories :: "js_string \<rightharpoonup> UserKeyHistory"
  vc_rootVerdict :: "GrantVerdict option"

section \<open>Reading the history\<close>

definition MAX_GRANT_PAGES :: nat where "MAX_GRANT_PAGES = 100"

text \<open>The pages of \<open>readAllGrants\<close>: the anchor of the first one, the rows, and whether every page served that anchor.\<close>

fun grant_pages ::
  "nat \<Rightarrow> 'd GrantCheckDeps_scheme \<Rightarrow> js_string \<Rightarrow> GrantAnchor option \<Rightarrow> bool \<Rightarrow> js_string option \<Rightarrow> GrantRecord list
   \<Rightarrow> (call, thrown + GrantAnchor \<times> GrantRecord list \<times> bool) flow" where
  "grant_pages 0 D groupId anchor anchorsAgree cursor grants =
     give (Inl (OtherThrown (js ''grant pagination did not terminate'')))"
| "grant_pages (Suc k) D groupId anchor anchorsAgree cursor grants =
     await (read_grants D groupId cursor) (\<lambda>res.
       let first = (case anchor of None \<Rightarrow> lg_anchor res | Some a \<Rightarrow> a);
           agree = (anchorsAgree \<and> first = lg_anchor res);
           rows = grants @ lg_grants res
       in case truthy (lg_nextCursor res) of
            None \<Rightarrow> give (Inr (first, rows, agree))
          | Some c \<Rightarrow> grant_pages k D groupId (Some first) agree (Some c) rows)"

definition readAllGrants ::
  "'d GrantCheckDeps_scheme \<Rightarrow> js_string \<Rightarrow> (call, thrown + GrantAnchor \<times> GrantRecord list \<times> bool) flow" where
  "readAllGrants D groupId = grant_pages MAX_GRANT_PAGES D groupId None True None []"

definition readAllDesignations :: "'d GrantCheckDeps_scheme \<Rightarrow> js_string \<Rightarrow> (call, thrown + DesignationRecord list) flow" where
  "readAllDesignations D groupId =
     read_pages MAX_GRANT_PAGES (read_designations D groupId) ld_designations ld_nextCursor
       ''designation pagination did not terminate'' None []"

text \<open>The served keys, as the map's entries in order, and how many of the wanted ids are missing.\<close>

definition readServedKeys ::
  "'d GrantCheckDeps_scheme \<Rightarrow> js_string list \<Rightarrow> (call, (js_string \<times> UserProjection) list \<times> int) flow" where
  "readServedKeys D ids =
     (let wanted = unique_list ids;
          unreadable = (\<lambda>out. int (length wanted) - int (length out))
      in if wanted = [] then give ([], unreadable [])
         else attempt (read_users D wanted)
           (\<lambda>err. give ([], unreadable []))
           (\<lambda>(users, failure).
              let out = foldl (\<lambda>m (i, u). AList.update i u m) [] users in give (out, unreadable out)))"

section \<open>Checking the served keys\<close>

definition sameBytes :: "bytes \<Rightarrow> bytes \<Rightarrow> bool" where
  "sameBytes a b \<longleftrightarrow> length a = length b \<and> list_all (\<lambda>(x, y). x = y) (zip a b)"

definition pin_map :: "PinRecord list \<Rightarrow> (js_string \<rightharpoonup> PinRecord)" where
  "pin_map ps = js_map (map (\<lambda>p. (pr_pinnedUserId p, p)) ps)"

text \<open>The question every flow puts to \<open>evaluatePin\<close>.\<close>

definition pin_verdict ::
  "prims \<Rightarrow> js_string \<Rightarrow> bytes \<Rightarrow> OwnKeyHistory option \<Rightarrow> js_string \<Rightarrow> PinRecord option \<Rightarrow> 'a UserProjection_scheme
   \<Rightarrow> PinVerdict" where
  "pin_verdict P self own history userId pin u =
     evaluatePin P \<lparr>ep_pinnerUserId = self, ep_pinnerSigningPublicKey = own, ep_pinnerHistory = history,
       ep_pinnedUserId = userId, ep_pin = pin, ep_served = served_keys u\<rparr>"

text \<open>What could be read of the caller's own key, pins and history; the first failure ends the \<open>try\<close>.\<close>

definition own_material ::
  "'d GrantCheckDeps_scheme \<Rightarrow> (call, bytes option \<times> (js_string \<rightharpoonup> PinRecord) option \<times> OwnKeyHistory option) flow" where
  "own_material D =
     attempt (own_signing_key D) (\<lambda>err. give (None, None, None)) (\<lambda>own.
     attempt (read_pins D) (\<lambda>err. give (Some own, None, None)) (\<lambda>ps.
       case loadOwnKeyHistory D of
         None \<Rightarrow> give (Some own, Some (pin_map ps), None)
       | Some load \<Rightarrow>
           attempt (ask (load own) (ReadOwnHistory own)) (\<lambda>err. give (Some own, Some (pin_map ps), None))
             (\<lambda>h. give (Some own, Some (pin_map ps), h))))"

record KeyScan =
  kx_keyHistories :: "js_string \<rightharpoonup> UserKeyHistory"
  kx_blockedKeyUsers :: "js_string list"
  kx_unchecked :: bool
  kx_firstSeen :: bool

definition allow :: "js_string \<Rightarrow> UserKeyHistory \<Rightarrow> KeyScan \<Rightarrow> KeyScan" where
  "allow i h acc = acc\<lparr>kx_keyHistories := (kx_keyHistories acc)(i \<mapsto> h)\<rparr>"

definition withhold :: "js_string \<Rightarrow> KeyScan \<Rightarrow> KeyScan" where
  "withhold i acc = acc\<lparr>kx_blockedKeyUsers := kx_blockedKeyUsers acc @ [i]\<rparr>"

text \<open>The caller's own row: theirs only if it agrees with the chain they signed.\<close>

definition scan_self ::
  "bytes \<Rightarrow> OwnKeyHistory option \<Rightarrow> js_string \<Rightarrow> UserProjection \<Rightarrow> KeyScan \<Rightarrow> (call, thrown + KeyScan) flow" where
  "scan_self own history i u acc =
     await (lift (base64ToBytes (up_signingPublicKey u)) ''InvalidCharacterError'') (\<lambda>current.
       let agrees = (case history of
             Some h \<Rightarrow> ownHistoryMatchesServed h (up_signingPublicKey u) (map ss_publicKey (up_supersededSigningKeys u)) (up_keyEpoch u)
           | None \<Rightarrow> sameBytes current own \<and> up_supersededSigningKeys u = [])
       in give (Inr (if agrees
            then allow i (case history of Some h \<Rightarrow> ownKeyHistoryForVerifiers h | None \<Rightarrow> historyOf u) acc
            else withhold i acc)))"

definition scan_other ::
  "prims \<Rightarrow> 'd GrantCheckDeps_scheme \<Rightarrow> bytes \<Rightarrow> (js_string \<rightharpoonup> PinRecord) \<Rightarrow> OwnKeyHistory option \<Rightarrow> js_string
   \<Rightarrow> UserProjection \<Rightarrow> KeyScan \<Rightarrow> (call, KeyScan) flow" where
  "scan_other P D own pins history i u acc =
     (case pin_verdict P (selfUserId D) own history i (pins i) u of
        Match \<Rightarrow> give (allow i (historyOf u) acc)
      | FirstSight \<Rightarrow>
          (case servedSigningKeySet (served_keys u) of
             None \<Rightarrow> give (withhold i acc)
           | Some keys \<Rightarrow>
               attempt (store_pin D i (map bytesToBase64 keys) (up_wrappingPublicKey u) (up_keyEpoch u))
                 (\<lambda>err. give (allow i (historyOf u) acc\<lparr>kx_unchecked := True\<rparr>))
                 (\<lambda>_. give (allow i (historyOf u) acc\<lparr>kx_firstSeen := True\<rparr>)))
      | _ \<Rightarrow> give (withhold i acc))"

fun scan_served ::
  "prims \<Rightarrow> 'd GrantCheckDeps_scheme \<Rightarrow> bytes option \<Rightarrow> (js_string \<rightharpoonup> PinRecord) option \<Rightarrow> OwnKeyHistory option
   \<Rightarrow> (js_string \<times> UserProjection) list \<Rightarrow> KeyScan \<Rightarrow> (call, thrown + KeyScan) flow" where
  "scan_served P D own pins history [] acc = give (Inr acc)"
| "scan_served P D own pins history ((i, u) # rest) acc =
     (case (own, pins) of
        (Some ownKey, Some pinMap) \<Rightarrow>
          await (if i = selfUserId D then scan_self ownKey history i u acc
                 else do { acc' \<leftarrow> scan_other P D ownKey pinMap history i u acc; give (Inr acc') })
            (\<lambda>acc'. scan_served P D own pins history rest acc')
      | _ \<Rightarrow> scan_served P D own pins history rest ((allow i (historyOf u) acc)\<lparr>kx_unchecked := True\<rparr>))"

definition key_state :: "KeyScan \<Rightarrow> KeyState" where
  "key_state acc =
     (if kx_blockedKeyUsers acc \<noteq> [] then KeysBlocked
      else if kx_unchecked acc then KeysUnchecked
      else if kx_firstSeen acc then KeysFirstSeen else KeysPinned)"

definition checkServedKeys ::
  "prims \<Rightarrow> 'd GrantCheckDeps_scheme \<Rightarrow> (js_string \<times> UserProjection) list \<Rightarrow> int \<Rightarrow> (call, thrown + KeyScan) flow" where
  "checkServedKeys P D served unreadable = do {
     (own, pins, history) \<leftarrow> own_material D;
     scan_served P D own pins history served
       \<lparr>kx_keyHistories = Map.empty, kx_blockedKeyUsers = [], kx_unchecked = unreadable > 0, kx_firstSeen = False\<rparr>
   }"

section \<open>The verified chain\<close>

text \<open>Whose keys are needed.\<close>

definition key_users :: "GrantAnchor \<Rightarrow> GrantRecord list \<Rightarrow> DesignationRecord list \<Rightarrow> js_string list \<Rightarrow> js_string list" where
  "key_users anchor grants designations extraKeyUsers =
     (let claims = filter (\<lambda>g. via g \<noteq> None) grants;
          cited = map gr_viaDesignation claims
      in [an_creatorUserId anchor] @ map gr_grantorUserId grants @ map gr_subjectUserId claims
         @ map de_adminUserId (filter (\<lambda>d. Some (de_sortKey d) \<in> set cited) designations) @ extraKeyUsers)"

definition root_valid :: "GrantVerdict option \<Rightarrow> bool" where
  "root_valid v = (case v of None \<Rightarrow> False | Some w \<Rightarrow> gv_valid w)"

text \<open>What \<open>loadVerifiedChain\<close> returns, and its end: the verifier runs, and an anchor seen first is remembered.\<close>

definition verified_chain :: "GrantAnchor \<Rightarrow> KeyScan \<Rightarrow> GrantChainResult \<Rightarrow> AnchorState \<Rightarrow> VerifiedChain" where
  "verified_chain anchor scan r state =
     \<lparr>vc_anchor = anchor, vc_anchorState = state, vc_keys = key_state scan, vc_blockedKeyUsers = kx_blockedKeyUsers scan,
      vc_result = r, vc_keyHistories = kx_keyHistories scan, vc_rootVerdict = cr_verdicts r (an_rootGrantSortKey anchor)\<rparr>"

definition settle_anchor ::
  "'d GrantCheckDeps_scheme \<Rightarrow> js_string \<Rightarrow> GrantAnchor \<Rightarrow> bool \<Rightarrow> PinnedAnchor option \<Rightarrow> KeyScan \<Rightarrow> GrantChainResult
   \<Rightarrow> (call, thrown + VerifiedChain) flow" where
  "settle_anchor D groupId anchor anchorsAgree stored scan r =
     (let chain = verified_chain anchor scan r
      in if \<not> anchorsAgree \<or> stored \<noteq> None \<and> \<not> cr_anchorPinned r then give (Inr (chain AnchorChanged))
         else if \<not> root_valid (cr_verdicts r (an_rootGrantSortKey anchor)) then give (Inr (chain RootUnverified))
         else if stored \<noteq> None then give (Inr (chain AnchorPinned))
         else do {
           saved \<leftarrow> write_anchor_pin D groupId \<lparr>pa_creatorUserId = an_creatorUserId anchor,
             pa_creatorSigningPublicKey = an_creatorSigningPublicKey anchor\<rparr>;
           give (Inr (chain (if saved then AnchorFirstSeen else AnchorUnpinned)))
         })"

definition loadVerifiedChain ::
  "nat \<Rightarrow> prims \<Rightarrow> 'd GrantCheckDeps_scheme \<Rightarrow> js_string \<Rightarrow> js_string list \<Rightarrow> (call, thrown + VerifiedChain) flow" where
  "loadVerifiedChain n P D groupId extraKeyUsers =
     await (readAllGrants D groupId) (\<lambda>(anchor, grants, anchorsAgree).
     await (if list_ex (\<lambda>g. via g \<noteq> None) grants then readAllDesignations D groupId else give (Inr [])) (\<lambda>designations. do {
       (served, unreadable) \<leftarrow> readServedKeys D (key_users anchor grants designations extraKeyUsers);
       await (checkServedKeys P D served unreadable) (\<lambda>scan. do {
         stored \<leftarrow> read_anchor_pin D groupId;
         at \<leftarrow> read_clock D;
         await (lift (verifyGrantChain n P
                  \<lparr>gi_groupId = groupId, gi_anchor = anchor, gi_pinnedAnchor = stored, gi_grants = grants,
                   gi_keyHistories = kx_keyHistories scan, gi_designations = designations, gi_now = Some at\<rparr>)
                  ''Maximum call stack size exceeded'')
           (settle_anchor D groupId anchor anchorsAgree stored scan)
       })
     }))"

text \<open>A chain with no valid start overrides what \<open>checkMemberRole\<close> says of anyone.\<close>

definition blanket_status :: "VerifiedChain \<Rightarrow> RoleStatus option" where
  "blanket_status chain =
     (case vc_anchorState chain of
        AnchorChanged \<Rightarrow> Some (Unverified (js ''the group anchor changed since you first saw it''))
      | RootUnverified \<Rightarrow>
          Some (Unverified (js ''the group's root grant could not be checked'' @
            (case vc_rootVerdict chain of
               Some v \<Rightarrow> (case gv_reason v of Some reason \<Rightarrow> js '' ('' @ reason @ js '')'' | None \<Rightarrow> js '' (not served)'')
             | None \<Rightarrow> js '' (not served)'')))
      | _ \<Rightarrow> None)"

definition checkGrants ::
  "nat \<Rightarrow> prims \<Rightarrow> 'd GrantCheckDeps_scheme \<Rightarrow> js_string \<Rightarrow> (js_string \<times> js_string) list \<Rightarrow> (call, GrantCheck) flow" where
  "checkGrants n P D groupId members =
     attempt (loadVerifiedChain n P D groupId []) (\<lambda>err. give Unavailable) (\<lambda>chain.
       give (Checked (vc_anchorState chain) (vc_keys chain) (vc_blockedKeyUsers chain)
         (js_map (map (\<lambda>(userId, role). (userId,
            case blanket_status chain of
              Some s \<Rightarrow> s | None \<Rightarrow> checkMemberRole P (vc_result chain) userId role)) members))))"

section \<open>Wrap records\<close>

text \<open>routes/wrapRecord.ts: the signed record of who wrapped an entry, sent with the wrap when it can be made.\<close>

definition wrapRecordFor ::
  "(SignWrapRecordRequest \<Rightarrow> (js_string \<times> js_string) answer) option \<Rightarrow> SignWrapRecordRequest
   \<Rightarrow> (call, WrapRecordFields) flow" where
  "wrapRecordFor sign_record req =
     (case sign_record of
        None \<Rightarrow> give None
      | Some signer \<Rightarrow> attempt (ask (signer req) (AskWrapRecord req)) (\<lambda>err. give None) (\<lambda>r. give (Some r)))"

definition ownWrapRecord ::
  "js_string \<Rightarrow> (js_string \<Rightarrow> UserDetail answer) option
   \<Rightarrow> (SignWrapRecordRequest \<Rightarrow> (js_string \<times> js_string) answer) option \<Rightarrow> js_string \<Rightarrow> int
   \<Rightarrow> (call, WrapRecordFields) flow" where
  "ownWrapRecord self user_detail sign_record groupId generation =
     (case (sign_record, user_detail) of
        (Some signer, Some get) \<Rightarrow>
          attempt (ask (get self) (ReadUserDetail self)) (\<lambda>err. give None) (\<lambda>detail.
            wrapRecordFor sign_record
              \<lparr>wq_userId = self, wq_groupId = groupId, wq_memberUserId = self, wq_generation = generation,
               wq_keyEpoch = up_keyEpoch detail, wq_reason = RekeySelf\<rparr>)
      | _ \<Rightarrow> give None)"

definition sendWithRecord ::
  "WrapRecordFields \<Rightarrow> (WrapRecordFields \<Rightarrow> (call, thrown + unit) flow) \<Rightarrow> (call, thrown + unit) flow" where
  "sendWithRecord record_fields send =
     attempt (send record_fields)
       (\<lambda>err. if record_fields \<noteq> None \<and> has_code ''bad_signature'' err then send None else give (Inl err))
       (\<lambda>_. give (Inr ()))"

end
