(* ===== verification/Rotation_Run.thy ===== *)
theory Rotation_Run
  imports Grant_Check
begin

text \<open>
  routes/runRotation.ts: the job that re-wraps a new group key to the members who are behind.  \<open>n\<close> is the depth
  of the call stack the grant verifier may use.  A function of the source that returns a reason is a sum with the reason on the
  left; what it throws is the outer sum.
\<close>

definition MAX_PASSES :: nat where "MAX_PASSES = 6"
definition MAX_ADMISSION_PAGES :: nat where "MAX_ADMISSION_PAGES = 100"
definition MAX_KEYCHAIN_PAGES :: nat where "MAX_KEYCHAIN_PAGES = 100"

type_synonym user_ids = "js_string list"  \<comment> \<open>a \<open>Set\<close>, in the order of insertion\<close>

datatype RotationOutcome =
    NothingToDo
  | Completed int
  | CaughtUp int
  | Blocked user_ids user_ids user_ids user_ids int  \<comment> \<open>blocked, changed, unadmitted, readmittable, rewrapped\<close>
  | CannotResume js_string
  | Incomplete js_string int

definition set_add :: "'a \<Rightarrow> 'a list \<Rightarrow> 'a list" where
  "set_add x xs = (if x \<in> set xs then xs else xs @ [x])"

definition adminsFirst :: "RosterEntry list \<Rightarrow> RosterEntry list" where
  "adminsFirst members =
     filter (\<lambda>m. re_role m = js ''admin'') members @ filter (\<lambda>m. re_role m \<noteq> js ''admin'') members"

section \<open>The keys of a signer\<close>

text \<open>The loop over the signers that are not the caller.\<close>

fun resolve_others ::
  "prims \<Rightarrow> 'd GrantCheckDeps_scheme \<Rightarrow> bytes \<Rightarrow> (js_string \<rightharpoonup> UserProjection) \<Rightarrow> thrown option \<Rightarrow> PinRecord list
   \<Rightarrow> js_string \<Rightarrow> js_string list \<Rightarrow> (js_string \<rightharpoonup> bytes list option)
   \<Rightarrow> (call, js_string + (js_string \<rightharpoonup> bytes list option)) flow" where
  "resolve_others P D own served failure pins who [] keys = give (Inr keys)"
| "resolve_others P D own served failure pins who (i # rest) keys =
     (case served i of
        None \<Rightarrow> give (Inl (case failure of
            None \<Rightarrow> js ''could not fetch the keys of '' @ who @ js '' ('' @ i @ js '')''
          | Some err \<Rightarrow> js ''could not fetch the keys of '' @ who @ js '': '' @ thrown_message err))
      | Some u \<Rightarrow> do {
          history \<leftarrow> ownHistoryFor D own;
          if pin_verdict P (selfUserId D) own history i (List.find (\<lambda>p. pr_pinnedUserId p = i) pins) u \<in> {Match, FirstSight}
          then resolve_others P D own served failure pins who rest (keys(i \<mapsto> servedSigningKeySet (served_keys u)))
          else give (Inl (js ''the keys served for '' @ who @ js '' do not match your pin''))
        })"

definition resolveSignerKeys ::
  "prims \<Rightarrow> 'd GrantCheckDeps_scheme \<Rightarrow> bytes \<Rightarrow> js_string list \<Rightarrow> js_string
   \<Rightarrow> (call, thrown + (js_string + (js_string \<rightharpoonup> bytes list option))) flow" where
  "resolveSignerKeys P D own signers who =
     (let others = filter (\<lambda>i. i \<noteq> selfUserId D) signers in do {
        keys \<leftarrow> (if selfUserId D \<in> set signers
                then do { ks \<leftarrow> ownSigningKeysFor D own; give [selfUserId D \<mapsto> Some ks] }
                else give Map.empty);
        if others = [] then give (Inr (Inr keys))
        else await (read_users D others) (\<lambda>(served, failure).
          attempt (read_pins D)
            (\<lambda>err. give (Inr (Inl (js ''could not read your pins: '' @ thrown_message err))))
            (\<lambda>pins. do {
               r \<leftarrow> resolve_others P D own (map_of served) failure pins who others keys;
               give (Inr r)
             }))
      })"

section \<open>Whom the group's history removed\<close>

fun keychain_pages ::
  "nat \<Rightarrow> 'd RotationDeps_scheme \<Rightarrow> js_string \<Rightarrow> int \<Rightarrow> int \<Rightarrow> KeychainLink list
   \<Rightarrow> (call, thrown + KeychainLink list) flow" where
  "keychain_pages 0 D groupId from_generation last_generation links =
     give (Inl (OtherThrown (js ''key chain pagination did not terminate'')))"
| "keychain_pages (Suc k) D groupId from_generation last_generation links =
     await (read_keychain D groupId from_generation last_generation) (\<lambda>res.
       case kp_nextFrom res of
         None \<Rightarrow> give (Inr (links @ kp_links res))
       | Some nextFrom \<Rightarrow>
           if nextFrom \<le> from_generation then give (Inl (OtherThrown (js ''key chain pagination did not advance'')))
           else keychain_pages k D groupId nextFrom last_generation (links @ kp_links res))"

definition key_lookup :: "(js_string \<rightharpoonup> bytes list option) \<Rightarrow> js_string \<Rightarrow> bytes list option" where
  "key_lookup keys i = (case keys i of None \<Rightarrow> None | Some ks \<Rightarrow> ks)"

definition loadRemovals ::
  "prims \<Rightarrow> 'd RotationDeps_scheme \<Rightarrow> bytes \<Rightarrow> js_string \<Rightarrow> int \<Rightarrow> (call, thrown + RemovalVerdict) flow" where
  "loadRemovals P D own groupId currentGeneration =
     (if currentGeneration = 0 then give (Inr (Inr Map.empty))
      else attempt (keychain_pages MAX_KEYCHAIN_PAGES D groupId 0 (currentGeneration - 1) [])
        (\<lambda>err. give (Inr (Inl (js ''could not read the group's removal history: '' @ thrown_message err))))
        (\<lambda>links.
           let removal_links = map RemovalLink.truncate links in
           proceed (resolveSignerKeys P D own (removersOf removal_links) (js ''an admin who removed a member'')) (\<lambda>keys.
             lift (verifyRemovals P \<lparr>vi_groupId = groupId, vi_currentGeneration = currentGeneration,
               vi_links = removal_links, vi_keysFor = key_lookup keys\<rparr>) ''RangeError'')))"

section \<open>Who was admitted\<close>

record AdmissionContext =
  ax_chain :: VerifiedChain
  ax_byInvitee :: "js_string \<rightharpoonup> AdmissionRecord"
  ax_removedAt :: "js_string \<rightharpoonup> int"
  ax_inviteeHistories :: "js_string \<rightharpoonup> OwnKeyHistory option"

text \<open>The body of the \<open>try\<close> block of \<open>loadAdmissions\<close>.\<close>

definition load_context ::
  "nat \<Rightarrow> prims \<Rightarrow> 'd RotationDeps_scheme \<Rightarrow> bytes \<Rightarrow> js_string \<Rightarrow> int
   \<Rightarrow> (call, thrown + (js_string + AdmissionContext)) flow" where
  "load_context n P D own groupId ownGeneration =
     await (read_pages MAX_ADMISSION_PAGES (read_admissions D groupId) la_admissions la_nextCursor
              ''admission pagination did not terminate'' None []) (\<lambda>records.
     await (loadVerifiedChain n P D groupId (unique_list (map ad_inviterUserId records))) (\<lambda>chain.
       if vc_anchorState chain = AnchorChanged
       then give (Inr (Inl (js ''the group anchor changed since you first saw it, so admissions cannot be checked'')))
       else if vc_anchorState chain = RootUnverified
       then give (Inr (Inl (js ''the group's root grant could not be verified, so admissions cannot be checked'')))
       else proceed (loadRemovals P D own groupId ownGeneration) (\<lambda>removedAt.
         give (Inr (Inr \<lparr>ax_chain = chain,
           ax_byInvitee = js_map (map (\<lambda>r. (ad_inviteeUserId r, r)) records),
           ax_removedAt = removedAt, ax_inviteeHistories = Map.empty\<rparr>)))))"

definition loadAdmissions ::
  "nat \<Rightarrow> prims \<Rightarrow> 'd RotationDeps_scheme \<Rightarrow> bytes \<Rightarrow> js_string \<Rightarrow> int
   \<Rightarrow> (call, thrown + (js_string + AdmissionContext)) flow" where
  "loadAdmissions n P D own groupId ownGeneration =
     await (case ownKeyHistoryFailure D of
              None \<Rightarrow> give (Inr None)
            | Some failure \<Rightarrow> ask (failure own) (ReadHistoryFailure own)) (\<lambda>historyFailure.
       case historyFailure of
         Some why \<Rightarrow> give (Inr (Inl (js ''could not load your key history: '' @ why @ js ''; try again'')))
       | None \<Rightarrow>
           attempt (load_context n P D own groupId ownGeneration)
             (\<lambda>err. give (Inr (Inl (js ''could not check who admitted the members: '' @ thrown_message err))))
             (\<lambda>r. give (Inr r)))"

text \<open>The history and the cache after it; the left side is the message of the \<open>ChainReadError\<close>.\<close>

definition inviteeHistoryFor ::
  "prims \<Rightarrow> 'd RotationDeps_scheme \<Rightarrow> (js_string \<rightharpoonup> OwnKeyHistory option) \<Rightarrow> js_string \<Rightarrow> UserProjection
   \<Rightarrow> (call, js_string + OwnKeyHistory option \<times> (js_string \<rightharpoonup> OwnKeyHistory option)) flow" where
  "inviteeHistoryFor P D histories userId served =
     (case histories userId of
        Some h \<Rightarrow> give (Inr (h, histories))
      | None \<Rightarrow>
          (case getUserDetail D of
             None \<Rightarrow> give (Inr (None, histories))
           | Some get \<Rightarrow>
               attempt (await (ask (get userId) (ReadUserDetail userId)) (\<lambda>detail.
                   await (lift (base64ToBytes (up_signingPublicKey served)) ''InvalidCharacterError'') (\<lambda>key.
                     give (Inr (buildOwnKeyHistory P userId key (ud_keyChanges detail) []))))
               ) (\<lambda>err. give (Inl (js ''could not read the key history of '' @ userId @ js '': '' @ thrown_message err)))
               (\<lambda>history. give (Inr (history, histories(userId \<mapsto> history))))))"

definition isAdmitted ::
  "prims \<Rightarrow> 'd RotationDeps_scheme \<Rightarrow> AdmissionContext \<Rightarrow> js_string \<Rightarrow> js_string \<Rightarrow> UserProjection
   \<Rightarrow> (call, js_string + bool \<times> AdmissionContext) flow" where
  "isAdmitted P D ctx groupId userId served =
     (if userId = an_creatorUserId (vc_anchor (ax_chain ctx)) \<and> ax_removedAt ctx userId = None then give (Inr (True, ctx))
      else case (ax_byInvitee ctx userId, servedSigningKeySet (served_keys served)) of
        (Some r, Some signingKeys) \<Rightarrow>
          if (case ax_removedAt ctx userId of None \<Rightarrow> False | Some g \<Rightarrow> ad_generation r < g) then give (Inr (False, ctx))
          else do {
            h \<leftarrow> (if ad_inviteeX25519PublicKey r = up_wrappingPublicKey served
                  then give (Inr (None, ax_inviteeHistories ctx))
                  else inviteeHistoryFor P D (ax_inviteeHistories ctx) userId served);
            case h of
              Inl message \<Rightarrow> give (Inl message)
            | Inr (history, histories) \<Rightarrow>
                give (Inr (verifyAdmission P
                  \<lparr>va_groupId = groupId, va_record = r, va_inviteeSigningKeys = signingKeys,
                   va_inviteeWrappingKey = up_wrappingPublicKey served, va_chain = vc_result (ax_chain ctx),
                   va_inviterHistory = vc_keyHistories (ax_chain ctx) (ad_inviterUserId r),
                   va_inviteeHistory = history\<rparr> = Admitted, ctx\<lparr>ax_inviteeHistories := histories\<rparr>))
          }
      | _ \<Rightarrow> give (Inr (False, ctx)))"

section \<open>The marker of the rotation\<close>

text \<open>Whom the marker names as removed, when its signature verifies (nobody for a re-key).\<close>

type_synonym RotationStartCheck = "js_string + js_string option"

definition verify_marker ::
  "prims \<Rightarrow> 'd GrantCheckDeps_scheme \<Rightarrow> bytes \<Rightarrow> RotationMarker \<Rightarrow> SigningContext \<Rightarrow> bytes result \<Rightarrow> bytes \<Rightarrow> js_string
   \<Rightarrow> js_string option \<Rightarrow> (call, thrown + RotationStartCheck) flow" where
  "verify_marker P D own marker ctx payload signature refusal removed =
     await (lift_result payload) (\<lambda>pl.
     proceed (resolveSignerKeys P D own [mk_startedBy marker] (js ''the admin who started this rotation'')) (\<lambda>resolved.
       case key_lookup resolved (mk_startedBy marker) of
         None \<Rightarrow> give (Inr (Inl refusal))
       | Some keys \<Rightarrow>
           if list_ex (\<lambda>k. verify P k ctx pl signature) keys then give (Inr (Inr removed)) else give (Inr (Inl refusal))))"

definition verifyRekeyStart ::
  "prims \<Rightarrow> 'd GrantCheckDeps_scheme \<Rightarrow> bytes \<Rightarrow> js_string \<Rightarrow> RotationMarker \<Rightarrow> (call, thrown + RotationStartCheck) flow" where
  "verifyRekeyStart P D own groupId marker =
     (case (mk_rekeyedUserId marker, mk_startSignature marker, mk_removedUserId marker) of
        (Some rekeyed, Some startSignature, None) \<Rightarrow>
          (case rekeyKindOk (mk_rekeyReason marker) (mk_startedBy marker) rekeyed of
             None \<Rightarrow> give (Inr (Inl (js ''the rotation's re-key record is of a kind this app cannot check'')))
           | Some reason \<Rightarrow>
               (case base64ToBytes startSignature of
                  None \<Rightarrow> give (Inr (Inl (js ''the rotation's signed re-key record is malformed'')))
                | Some signature \<Rightarrow>
                    verify_marker P D own marker RotationRekey
                      (rotationRekeyPayload groupId (mk_startedBy marker) rekeyed (mk_generation marker) reason)
                      signature (js ''the rotation's signed re-key record does not verify'') None))
      | _ \<Rightarrow> give (Inr (Inl (js ''the rotation's signed re-key record is missing or malformed''))))"

definition verifyRotationStart ::
  "prims \<Rightarrow> 'd GrantCheckDeps_scheme \<Rightarrow> bytes \<Rightarrow> js_string \<Rightarrow> RotationMarker \<Rightarrow> (call, thrown + RotationStartCheck) flow" where
  "verifyRotationStart P D own groupId marker =
     (if mk_rekeyedUserId marker \<noteq> None then verifyRekeyStart P D own groupId marker
      else case (mk_removedUserId marker, mk_startSignature marker) of
        (Some removed, Some startSignature) \<Rightarrow>
          (case base64ToBytes startSignature of
             None \<Rightarrow> give (Inr (Inl (js ''the rotation's signed start record is malformed'')))
           | Some signature \<Rightarrow>
               verify_marker P D own marker RotationStart
                 (rotationStartPayload groupId (mk_startedBy marker) removed (mk_generation marker))
                 signature (js ''the rotation's signed start record does not verify'') (Some removed))
      | _ \<Rightarrow> give (Inr (Inl (js (''this rotation was started without a signed record of who was removed, '' @
                ''so it cannot be resumed safely'')))))"

section \<open>Checking a recipient\<close>

datatype RecipientCheck = Cleared js_string | RecipientBlocked bool | RecipientUnavailable js_string

definition checkRecipient ::
  "prims \<Rightarrow> 'd GrantCheckDeps_scheme \<Rightarrow> bytes \<Rightarrow> (js_string \<rightharpoonup> PinRecord) \<Rightarrow> js_string \<Rightarrow> UserProjection option
   \<Rightarrow> thrown option \<Rightarrow> (call, RecipientCheck) flow" where
  "checkRecipient P D own pins userId served fetchFailure =
     (case served of
        None \<Rightarrow> give (RecipientUnavailable (js ''could not fetch keys for '' @ userId @
                  (case fetchFailure of None \<Rightarrow> [] | Some err \<Rightarrow> js '': '' @ thrown_message err)))
      | Some u \<Rightarrow> do {
          history \<leftarrow> ownHistoryFor D own;
          case pin_verdict P (selfUserId D) own history userId (pins userId) u of
            Match \<Rightarrow> give (Cleared (up_wrappingPublicKey u))
          | FirstSight \<Rightarrow>
              (case servedSigningKeySet (served_keys u) of
                 None \<Rightarrow> give (RecipientBlocked False)
               | Some keys \<Rightarrow>
                   attempt (store_pin D userId (map bytesToBase64 keys) (up_wrappingPublicKey u) (up_keyEpoch u))
                     (\<lambda>err. give (RecipientUnavailable (js ''could not pin '' @ userId @ js '': '' @ thrown_message err)))
                     (\<lambda>_. give (Cleared (up_wrappingPublicKey u))))
          | v \<Rightarrow> give (RecipientBlocked (v = Mismatch))
        })"

section \<open>Taking over the rotation of a member who left\<close>

text \<open>Why the leaver's key is not trusted, or \<open>None\<close>.\<close>

definition leaver_refused :: "string \<Rightarrow> js_string option" where
  "leaver_refused why = Some (js (''the member who left has no pin of yours and no valid admission behind the key that '' @
     ''signed their leaving, so it was not taken over ('') @ js why @ js '')'')"

text \<open>The keys an admitted leaver may have signed with.\<close>

definition leaver_signers :: "AdmissionContext \<Rightarrow> js_string \<Rightarrow> bytes list option" where
  "leaver_signers ctx leaverId =
     (case ax_byInvitee ctx leaverId of
        None \<Rightarrow> Some []
      | Some r \<Rightarrow>
          (case base64ToBytes (ad_inviteeEd25519PublicKey r) of
             None \<Rightarrow> None
           | Some admitted \<Rightarrow> Some (admitted #
               (case ax_inviteeHistories ctx leaverId of
                  Some (Some h) \<Rightarrow> keysCarriedFrom h admitted | _ \<Rightarrow> []))))"

definition check_first_sight_leaver ::
  "nat \<Rightarrow> prims \<Rightarrow> 'd RotationDeps_scheme \<Rightarrow> bytes \<Rightarrow> js_string \<Rightarrow> int \<Rightarrow> js_string \<Rightarrow> UserProjection
   \<Rightarrow> (bytes list \<Rightarrow> bool) \<Rightarrow> (call, thrown + js_string option) flow" where
  "check_first_sight_leaver n P D own groupId ownGeneration leaverId u signedBy =
     await (loadAdmissions n P D own groupId ownGeneration) (\<lambda>loaded.
       case loaded of
         Inl reason \<Rightarrow> give (Inr (Some reason))
       | Inr ctx \<Rightarrow>
           if leaverId = an_creatorUserId (vc_anchor (ax_chain ctx)) \<and> ax_removedAt ctx leaverId = None
           then await (lift (base64ToBytes (an_creatorSigningPublicKey (vc_anchor (ax_chain ctx)))) ''InvalidCharacterError'')
             (\<lambda>creatorKey. give (Inr (if signedBy [creatorKey] then None
                else leaver_refused ''the start was not signed by the key the group's anchor names'')))
           else do {
             admitted \<leftarrow> isAdmitted P D ctx groupId leaverId u;
             case admitted of
               Inl message \<Rightarrow> give (Inr (Some message))
             | Inr (ok, ctx') \<Rightarrow>
                 if \<not> ok then give (Inr (leaver_refused ''no admission signed for the keys served for them''))
                 else await (lift (leaver_signers ctx' leaverId) ''InvalidCharacterError'') (\<lambda>signers.
                   give (Inr (if ax_byInvitee ctx' leaverId \<noteq> None \<and> signedBy signers then None
                     else leaver_refused ''the start was not signed by the key their admission names'')))
           })"

definition checkLeaverKey ::
  "nat \<Rightarrow> prims \<Rightarrow> 'd RotationDeps_scheme \<Rightarrow> bytes \<Rightarrow> js_string \<Rightarrow> int \<Rightarrow> RotationMarker
   \<Rightarrow> (call, thrown + js_string option) flow" where
  "checkLeaverKey n P D own groupId ownGeneration marker =
     (case (mk_removedUserId marker, mk_startSignature marker) of
        (Some leaverId, Some startSignature) \<Rightarrow>
          await (lift (base64ToBytes startSignature) ''InvalidCharacterError'') (\<lambda>signature.
          await (lift_result (rotationStartPayload groupId (mk_startedBy marker) leaverId (mk_generation marker))) (\<lambda>payload.
            let signedBy = list_ex (\<lambda>k. verify P k RotationStart payload signature) in
            attempt (await (read_users D [leaverId]) (\<lambda>(served, failure).
                await (read_pins D) (\<lambda>pins. give (Inr (map_of served leaverId, pins)))))
              (\<lambda>err. give (Inr (Some (js ''could not check the keys of the member who left: '' @ thrown_message err))))
              (\<lambda>(served, pins). case served of
                 None \<Rightarrow> give (Inr (leaver_refused ''their keys could not be fetched''))
               | Some u \<Rightarrow> do {
                   history \<leftarrow> ownHistoryFor D own;
                   case pin_verdict P (selfUserId D) own history leaverId
                          (List.find (\<lambda>p. pr_pinnedUserId p = leaverId) pins) u of
                     Match \<Rightarrow> give (Inr None)
                   | FirstSight \<Rightarrow> check_first_sight_leaver n P D own groupId ownGeneration leaverId u signedBy
                   | _ \<Rightarrow> give (Inr (leaver_refused ''their keys do not match your pin''))
                 })))
      | _ \<Rightarrow> give (Inr (Some (js ''the rotation's signed start record is missing''))))"

text \<open>The \<open>for\<close> loop of \<open>takeOverLeave\<close>, with \<open>k\<close> more tries; \<open>None\<close> is \<open>continue\<close>.\<close>

fun take_over_attempts ::
  "nat \<Rightarrow> 'd RotationDeps_scheme \<Rightarrow> js_string \<Rightarrow> StartGroupRotationRequest \<Rightarrow> int \<Rightarrow> (call, RotationOutcome option) flow" where
  "take_over_attempts k D groupId req carried =
     attempt (await (ask_take_over D req) (\<lambda>minted. do {
         fields \<leftarrow> ownWrapRecord (selfUserId D) (getUserDetail D) (signWrapRecord D) groupId (rs_generation minted);
         sendWithRecord fields (\<lambda>f. send_take_over D groupId
           \<lparr>to_generation = rs_generation minted, to_link = rs_link minted, to_wrappedKey = rs_removerWrappedKey minted,
            to_startSignature = rs_startSignature minted, to_record = f\<rparr>)
       }))
       (\<lambda>err. if has_code ''rotation_not_active'' err then give None
              else if has_code ''conflict_retry'' err
              then (case k of
                      0 \<Rightarrow> give (Some (Incomplete (js ''the group was busy while taking over the rotation; run again'') carried))
                    | Suc k' \<Rightarrow> take_over_attempts k' D groupId req carried)
              else give (Some (Incomplete (thrown_message err) carried)))
       (\<lambda>_. give None)"

declare take_over_attempts.simps [simp del]

text \<open>\<open>None\<close> is \<open>continue\<close>; the reasons end the run as incomplete.\<close>

definition takeOverLeave ::
  "nat \<Rightarrow> prims \<Rightarrow> 'd RotationDeps_scheme \<Rightarrow> js_string \<Rightarrow> GroupDetail \<Rightarrow> RotationMarker \<Rightarrow> int
   \<Rightarrow> (call, thrown + RotationOutcome option) flow" where
  "takeOverLeave n P D groupId detail marker carried =
     (case ge_wrappedGroupKey detail of
        None \<Rightarrow> give (Inr (Some NothingToDo))
      | Some ownWrapped \<Rightarrow>
          attempt (own_signing_key D)
            (\<lambda>err. give (Inr (Some (Incomplete (js ''could not read your pins: '' @ thrown_message err) carried))))
            (\<lambda>own.
          await (verifyRotationStart P D own groupId marker) (\<lambda>started. case started of
            Inl reason \<Rightarrow> give (Inr (Some (Incomplete reason carried)))
          | Inr None \<Rightarrow> give (Inr (Some (Incomplete (js ''the rotation names no one who left'') carried)))
          | Inr (Some removed) \<Rightarrow>
          await (checkLeaverKey n P D own groupId (ge_generation detail) marker) (\<lambda>trusted. case trusted of
            Some reason \<Rightarrow> give (Inr (Some (Incomplete reason carried)))
          | None \<Rightarrow> do {
              r \<leftarrow> take_over_attempts 1 D groupId
                \<lparr>sg_userId = selfUserId D, sg_groupId = groupId, sg_ownWrappedGroupKey = ownWrapped,
                 sg_ownGeneration = ge_generation detail, sg_subjectUserId = removed\<rparr> carried;
              give (Inr r)
            }))))"

section \<open>The run\<close>

text \<open>What one run knows, whoever it is for.\<close>

record RunSetting =
  rx_groupId :: js_string
  rx_own :: bytes
  rx_ownGeneration :: int
  rx_ownWrappedGroupKey :: WireWrapped
  rx_marker :: "RotationMarker option"
  rx_exclude :: "js_string set"
  rx_restarted :: bool

record RunState =
  ry_blocked :: user_ids
  ry_changed :: user_ids
  ry_unadmitted :: user_ids
  ry_readmittable :: user_ids
  ry_rewrapped :: int

text \<open>Who a pass works on.\<close>

definition members_behind :: "'d GrantCheckDeps_scheme \<Rightarrow> RunSetting \<Rightarrow> RunState \<Rightarrow> RosterEntry list \<Rightarrow> RosterEntry list" where
  "members_behind D X S members =
     adminsFirst (filter (\<lambda>m. re_userId m \<noteq> selfUserId D \<and> re_generation m < rx_ownGeneration X
       \<and> re_userId m \<notin> set (ry_blocked S) \<and> re_userId m \<notin> set (ry_unadmitted S)
       \<and> re_userId m \<notin> rx_exclude X) members)"

text \<open>The admission check of a member whose keys were served: the context is loaded the first time it is needed.\<close>

definition admit ::
  "nat \<Rightarrow> prims \<Rightarrow> 'd RotationDeps_scheme \<Rightarrow> RunSetting \<Rightarrow> RunState \<Rightarrow> AdmissionContext option \<Rightarrow> js_string \<Rightarrow> UserProjection
   \<Rightarrow> (call, thrown + (RotationOutcome + bool \<times> AdmissionContext)) flow" where
  "admit n P D X S admissions userId served =
     proceed (case admissions of
         Some ctx \<Rightarrow> give (Inr (Inr ctx))
       | None \<Rightarrow> await (loadAdmissions n P D (rx_own X) (rx_groupId X) (rx_ownGeneration X)) (\<lambda>loaded.
           give (Inr (case loaded of Inl reason \<Rightarrow> Inl (Incomplete reason (ry_rewrapped S)) | Inr ctx \<Rightarrow> Inr ctx))))
       (\<lambda>ctx. do {
         r \<leftarrow> isAdmitted P D ctx (rx_groupId X) userId served;
         give (Inr (case r of Inl message \<Rightarrow> Inl (Incomplete message (ry_rewrapped S)) | Inr admitted \<Rightarrow> Inr admitted))
       })"

definition mark_unadmitted :: "AdmissionContext \<Rightarrow> js_string \<Rightarrow> RunState \<Rightarrow> RunState" where
  "mark_unadmitted ctx userId S =
     S\<lparr>ry_unadmitted := set_add userId (ry_unadmitted S),
       ry_readmittable := (if ax_removedAt ctx userId = None then set_add userId (ry_readmittable S) else ry_readmittable S)\<rparr>"

text \<open>The loop over the members of a chunk, which collects the recipients.\<close>

fun scan_chunk ::
  "nat \<Rightarrow> prims \<Rightarrow> 'd RotationDeps_scheme \<Rightarrow> RunSetting \<Rightarrow> (js_string \<rightharpoonup> PinRecord) \<Rightarrow> (js_string \<rightharpoonup> UserProjection)
   \<Rightarrow> thrown option \<Rightarrow> RosterEntry list \<Rightarrow> RunState \<Rightarrow> AdmissionContext option \<Rightarrow> (js_string \<times> js_string) list
   \<Rightarrow> (call, thrown + (RotationOutcome + RunState \<times> AdmissionContext option \<times> (js_string \<times> js_string) list)) flow" where
  "scan_chunk n P D X pins served failure [] S admissions recipients = give (Inr (Inr (S, admissions, recipients)))"
| "scan_chunk n P D X pins served failure (m # ms) S admissions recipients =
     proceed (case served (re_userId m) of
         None \<Rightarrow> give (Inr (Inr (True, admissions)))
       | Some u \<Rightarrow> proceed (admit n P D X S admissions (re_userId m) u) (\<lambda>(ok, ctx). give (Inr (Inr (ok, Some ctx)))))
       (\<lambda>(ok, admissions').
         if \<not> ok then
           scan_chunk n P D X pins served failure ms
             (case admissions' of None \<Rightarrow> S | Some ctx \<Rightarrow> mark_unadmitted ctx (re_userId m) S) admissions' recipients
         else do {
           verdict \<leftarrow> checkRecipient P D (rx_own X) pins (re_userId m) (served (re_userId m)) failure;
           case verdict of
             Cleared key \<Rightarrow>
               scan_chunk n P D X pins served failure ms S admissions' (recipients @ [(re_userId m, key)])
           | RecipientBlocked changed \<Rightarrow>
               scan_chunk n P D X pins served failure ms
                 (S\<lparr>ry_blocked := set_add (re_userId m) (ry_blocked S),
                    ry_changed := (if changed then set_add (re_userId m) (ry_changed S) else ry_changed S)\<rparr>)
                 admissions' recipients
           | RecipientUnavailable detail \<Rightarrow> give (Inr (Inl (Incomplete detail (ry_rewrapped S))))
         })"

text \<open>How the chunks of a pass end: the next pass, or a fresh start after the marker changed.\<close>

datatype ChunksEnd = NextPass RunState | StartOver int

fun run_chunks ::
  "nat \<Rightarrow> prims \<Rightarrow> 'd RotationDeps_scheme \<Rightarrow> RunSetting \<Rightarrow> (js_string \<rightharpoonup> PinRecord) \<Rightarrow> RosterEntry list list \<Rightarrow> RunState
   \<Rightarrow> AdmissionContext option \<Rightarrow> (call, thrown + (RotationOutcome + ChunksEnd)) flow" where
  "run_chunks n P D X pins [] S admissions = give (Inr (Inr (NextPass S)))"
| "run_chunks n P D X pins (chunk # chunks) S admissions =
     await (read_users D (map re_userId chunk)) (\<lambda>(served, failure).
     proceed (scan_chunk n P D X pins (map_of served) failure chunk S admissions []) (\<lambda>(S', admissions', recipients).
       if recipients = [] then run_chunks n P D X pins chunks S' admissions'
       else attempt (await (ask_rewrap D
                \<lparr>rw_userId = selfUserId D, rw_groupId = rx_groupId X, rw_ownWrappedGroupKey = rx_ownWrappedGroupKey X,
                 rw_ownGeneration = rx_ownGeneration X, rw_recipients = recipients\<rparr>)
                (send_rewrap D (rx_groupId X) (rx_ownGeneration X)))
         (\<lambda>err. if has_code ''member_changed'' err \<or> has_code ''conflict_retry'' err then give (Inr (Inr (NextPass S')))
                else if has_code ''rotation_not_active'' err \<and> \<not> rx_restarted X
                then give (Inr (Inr (StartOver (ry_rewrapped S'))))
                else give (Inr (Inl (Incomplete (thrown_message err) (ry_rewrapped S')))))
         (\<lambda>_. run_chunks n P D X pins chunks
                (S'\<lparr>ry_rewrapped := ry_rewrapped S' + int (length recipients)\<rparr>) admissions')))"

text \<open>Nobody is behind: \<open>Some\<close> outcome, or another pass.\<close>

definition finish ::
  "'d RotationDeps_scheme \<Rightarrow> RunSetting \<Rightarrow> RunState \<Rightarrow> (call, RotationOutcome option) flow" where
  "finish D X S =
     (if ry_blocked S \<noteq> [] \<or> ry_unadmitted S \<noteq> []
      then give (Some (Blocked (ry_blocked S) (ry_changed S) (ry_unadmitted S) (ry_readmittable S) (ry_rewrapped S)))
      else case rx_marker X of
        None \<Rightarrow> give (Some (if ry_rewrapped S > 0 then CaughtUp (ry_rewrapped S) else NothingToDo))
      | Some marker \<Rightarrow>
          attempt (send_complete D (rx_groupId X) (rx_ownGeneration X))
            (\<lambda>err. if has_code ''rotation_not_active'' err then give (Some (Completed (ry_rewrapped S)))
                   else if has_code ''members_behind'' err \<or> has_code ''conflict_retry'' err then give None
                   else give (Some (Incomplete (thrown_message err) (ry_rewrapped S))))
            (\<lambda>_. give (Some (Completed (ry_rewrapped S)))))"

text \<open>The passes left; the right side is a fresh start, with what has been re-wrapped.\<close>

fun run_passes ::
  "nat \<Rightarrow> nat \<Rightarrow> prims \<Rightarrow> 'd RotationDeps_scheme \<Rightarrow> RunSetting \<Rightarrow> RunState \<Rightarrow> (call, thrown + (RotationOutcome + int)) flow" where
  "run_passes 0 n P D X S = give (Inr (Inl (Incomplete (js ''the group kept changing; run again'') (ry_rewrapped S))))"
| "run_passes (Suc k) n P D X S =
     attempt (read_pins D)
       (\<lambda>err. give (Inr (Inl (Incomplete (js ''could not read your pins: '' @ thrown_message err) (ry_rewrapped S)))))
       (\<lambda>pins.
     attempt (read_members D (rx_groupId X))
       (\<lambda>err. give (Inr (Inl (Incomplete (thrown_message err) (ry_rewrapped S)))))
       (\<lambda>members.
         let behind = members_behind D X S members in
         if behind = [] then do {
           r \<leftarrow> finish D X S;
           case r of Some outcome \<Rightarrow> give (Inr (Inl outcome)) | None \<Rightarrow> run_passes k n P D X S
         }
         else proceed (run_chunks n P D X (pin_map pins) (chunks_of MAX_REWRAP_BATCH behind) S None) (\<lambda>r. case r of
           NextPass S' \<Rightarrow> run_passes k n P D X S'
         | StartOver carried \<Rightarrow> give (Inr (Inr carried)))))"

definition fresh_state :: "int \<Rightarrow> RunState" where
  "fresh_state carried = \<lparr>ry_blocked = [], ry_changed = [], ry_unadmitted = [], ry_readmittable = [], ry_rewrapped = carried\<rparr>"

text \<open>From the marker check on, with the caller's key read.\<close>

definition run_checked ::
  "nat \<Rightarrow> prims \<Rightarrow> 'd RotationDeps_scheme \<Rightarrow> js_string \<Rightarrow> GroupDetail \<Rightarrow> WireWrapped \<Rightarrow> bytes
   \<Rightarrow> (int \<Rightarrow> js_string set \<Rightarrow> (call, thrown + RotationOutcome) flow) option \<Rightarrow> int \<Rightarrow> js_string set
   \<Rightarrow> (call, thrown + RotationOutcome) flow" where
  "run_checked n P D groupId detail ownWrapped own again carried exclude =
     await (case gd_rotation detail of
              None \<Rightarrow> give (Inr (Inr None))
            | Some marker \<Rightarrow> verifyRotationStart P D own groupId marker) (\<lambda>started. case started of
       Inl reason \<Rightarrow> give (Inr (Incomplete reason carried))
     | Inr removed \<Rightarrow>
         let exclude' = (case removed of None \<Rightarrow> exclude | Some u \<Rightarrow> insert u exclude) in
         await (run_passes MAX_PASSES n P D
             \<lparr>rx_groupId = groupId, rx_own = own, rx_ownGeneration = ge_generation detail,
              rx_ownWrappedGroupKey = ownWrapped, rx_marker = gd_rotation detail, rx_exclude = exclude',
              rx_restarted = (again = None)\<rparr>
             (fresh_state carried)) (\<lambda>r.
           case (r, again) of
             (Inl outcome, _) \<Rightarrow> give (Inr outcome)
           | (Inr carried', Some f) \<Rightarrow> f carried' exclude'
           | (Inr carried', None) \<Rightarrow> give (Inr (Incomplete [] carried'))))"

definition run_at_marker ::
  "nat \<Rightarrow> prims \<Rightarrow> 'd RotationDeps_scheme \<Rightarrow> js_string \<Rightarrow> GroupDetail \<Rightarrow> WireWrapped
   \<Rightarrow> (int \<Rightarrow> js_string set \<Rightarrow> (call, thrown + RotationOutcome) flow) option \<Rightarrow> int \<Rightarrow> js_string set
   \<Rightarrow> (call, thrown + RotationOutcome) flow" where
  "run_at_marker n P D groupId detail ownWrapped again carried exclude =
     (case gd_rotation detail of
        Some marker \<Rightarrow>
          if mk_generation marker \<noteq> ge_generation detail
          then give (Inr (CannotResume (if ge_generation detail < mk_generation marker
            then js ''your own key is not at the rotation generation yet; an admin who has it must resume''
            else js ''your own key is ahead of the rotation marker; reload'')))
          else attempt (own_signing_key D)
            (\<lambda>err. give (Inr (Incomplete (js ''could not read your pins: '' @ thrown_message err) carried)))
            (\<lambda>own. run_checked n P D groupId detail ownWrapped own again carried exclude)
      | None \<Rightarrow> attempt (own_signing_key D)
            (\<lambda>err. give (Inr (Incomplete (js ''could not read your pins: '' @ thrown_message err) carried)))
            (\<lambda>own. run_checked n P D groupId detail ownWrapped own again carried exclude))"

text \<open>\<open>runOnce\<close>; \<open>again\<close> is its recursive call with \<open>restarted\<close> set, absent when it is set already.\<close>

definition run_once ::
  "nat \<Rightarrow> prims \<Rightarrow> 'd RotationDeps_scheme \<Rightarrow> js_string
   \<Rightarrow> (int \<Rightarrow> js_string set \<Rightarrow> (call, thrown + RotationOutcome) flow) option \<Rightarrow> int \<Rightarrow> js_string set
   \<Rightarrow> (call, thrown + RotationOutcome) flow" where
  "run_once n P D groupId again carried exclude =
     attempt (read_group D groupId) (\<lambda>err. give (Inr (Incomplete (thrown_message err) carried))) (\<lambda>detail.
       if ge_role detail \<noteq> js ''admin'' \<or> ge_visibility detail \<noteq> js ''private'' then give (Inr NothingToDo)
       else case ge_wrappedGroupKey detail of
         None \<Rightarrow> give (Inr NothingToDo)
       | Some ownWrapped \<Rightarrow>
           (case (gd_rotation detail, again) of
              (Some marker, Some f) \<Rightarrow>
                if mk_generation marker = ge_generation detail + 1 \<and> mk_removedUserId marker = Some (mk_startedBy marker)
                then await (takeOverLeave n P D groupId detail marker carried) (\<lambda>taken.
                  case taken of Some outcome \<Rightarrow> give (Inr outcome) | None \<Rightarrow> f carried exclude)
                else run_at_marker n P D groupId detail ownWrapped again carried exclude
            | _ \<Rightarrow> run_at_marker n P D groupId detail ownWrapped again carried exclude))"

definition runOnce ::
  "nat \<Rightarrow> prims \<Rightarrow> 'd RotationDeps_scheme \<Rightarrow> js_string \<Rightarrow> bool \<Rightarrow> int \<Rightarrow> js_string set
   \<Rightarrow> (call, thrown + RotationOutcome) flow" where
  "runOnce n P D groupId restarted carried exclude =
     run_once n P D groupId (if restarted then None else Some (run_once n P D groupId None)) carried exclude"

definition runRotation ::
  "nat \<Rightarrow> prims \<Rightarrow> 'd RotationDeps_scheme \<Rightarrow> js_string \<Rightarrow> js_string set \<Rightarrow> (call, thrown + RotationOutcome) flow" where
  "runRotation n P D groupId exclude = runOnce n P D groupId False 0 exclude"

section \<open>Telling the admin\<close>

definition people :: "int \<Rightarrow> js_string" where
  "people k = js_num k @ js '' '' @ js (if k = 1 then ''member'' else ''members'')"

datatype Note = Info js_string | Problem js_string

text \<open>The parts of the sentence about a paused rotation.\<close>

definition blocked_parts ::
  "(js_string \<Rightarrow> js_string) \<Rightarrow> user_ids \<Rightarrow> user_ids \<Rightarrow> user_ids \<Rightarrow> js_string list" where
  "blocked_parts label blocked changed unadmitted =
     (let stuck = filter (\<lambda>i. i \<notin> set changed) blocked;
          names = (\<lambda>ids. js_join (js '', '') (map label ids));
          one = (\<lambda>ids. length ids = 1)
      in (if stuck = [] then [] else
            [js ''The keys the server shows for '' @ names stuck @ js '' don't match the copy you saved earlier.''])
       @ (if changed = [] then [] else
            [names changed @ js '' '' @ js (if one changed then ''has'' else ''have'') @
             js (('' new keys that don't match the copy you saved earlier, possibly approved by another admin. '') @
                 ''Check the fingerprint with '') @ js (if one changed then ''them'' else ''each of them'') @
             js '', then use Accept key change in the member list to continue.''])
       @ (if unadmitted = [] then [] else
            [names unadmitted @ js '' '' @ js (if one unadmitted then ''is'' else ''are'') @ js '' listed as '' @
             js (if one unadmitted then ''a member'' else ''members'') @
             js ('' but no admin or ambassador's signed invitation backs them '' @
                 ''(for someone removed earlier, one made after the removal).'')]))"

definition describeRotation :: "RotationOutcome \<Rightarrow> (js_string \<Rightarrow> js_string) \<Rightarrow> Note option" where
  "describeRotation outcome label = (case outcome of
     NothingToDo \<Rightarrow> None
   | Completed rewrapped \<Rightarrow> Some (Info (if rewrapped > 0
       then js ''Key rotation finished: '' @ people rewrapped @ js '' moved to the new group key.''
       else js ''Key rotation finished.''))
   | CaughtUp rewrapped \<Rightarrow> Some (Info (people rewrapped @ js '' who had fallen behind '' @
       js (if rewrapped = 1 then ''was'' else ''were'') @ js '' moved to the current group key.''))
   | Blocked blocked changed unadmitted readmittable rewrapped \<Rightarrow>
       Some (Problem (js ''Key rotation is paused. '' @ js_join (js '' '') (blocked_parts label blocked changed unadmitted) @
         js ('' They were NOT given the new group key. Check with them another way before relying on this group.'') @
         (if readmittable = [] then [] else js ('' To clear a member whose invitation record no longer verifies, use Re-admit '' @
            ''next to their name, after checking their fingerprint with them.'')) @
         (if length unadmitted > length readmittable
          then js '' Someone removed earlier can only come back through a fresh invitation.'' else [])))
   | CannotResume reason \<Rightarrow>
       Some (Info (js ''A key rotation is running, and it has to be finished by an admin who already holds the new key.''))
   | Incomplete reason rewrapped \<Rightarrow>
       Some (Problem (js ''Key rotation stopped ('' @ reason @ js ''). It resumes the next time an admin opens this group.'')))"

end
