(* ===== verification/Rotation_Run_Facts.thy ===== *)
theory Rotation_Run_Facts
  imports Rotation_Run
begin

text \<open>
  What the calls of a rotation run may be made for.  A fact is a statement about the set of calls made so far that
  lasts as more are made; \<open>rotation_call\<close> says, for each call that hands out a key, stores a pin or changes the
  group, what must have been read and checked before it.
\<close>

section \<open>Facts about the calls made\<close>

definition own_key :: "bytes \<Rightarrow> call set \<Rightarrow> bool" where
  "own_key own H \<longleftrightarrow> (\<exists>s. ReadOwnKey (Inr s) \<in> H \<and> base64ToBytes s = Some own)"

definition own_history :: "bytes \<Rightarrow> OwnKeyHistory option \<Rightarrow> call set \<Rightarrow> bool" where
  "own_history own history H \<longleftrightarrow> history = None \<or> ReadOwnHistory own (Inr history) \<in> H"

definition served_in :: "js_string \<Rightarrow> UserProjection \<Rightarrow> call set \<Rightarrow> bool" where
  "served_in i u H \<longleftrightarrow> (\<exists>ids users failure. ReadUsers ids (Inr (users, failure)) \<in> H \<and> (i, u) \<in> set users)"

text \<open>A pin may be stored for a user only where the pins read showed none, and then for the whole set served.\<close>

definition first_sight :: "js_string \<Rightarrow> js_string list \<Rightarrow> js_string \<Rightarrow> int \<Rightarrow> call set \<Rightarrow> bool" where
  "first_sight i sent w e H \<longleftrightarrow>
     (\<exists>ps u keys. ReadPins (Inr ps) \<in> H \<and> pin_map ps i = None \<and> served_in i u H
        \<and> servedSigningKeySet (served_keys u) = Some keys \<and> sent = map bytesToBase64 keys
        \<and> w = up_wrappingPublicKey u \<and> e = up_keyEpoch u)"

text \<open>The keys served for a user are the pinned ones, or were pinned because no pin of that user was found.\<close>

definition pin_cleared :: "prims \<Rightarrow> js_string \<Rightarrow> bytes \<Rightarrow> js_string \<Rightarrow> UserProjection \<Rightarrow> call set \<Rightarrow> bool" where
  "pin_cleared P self own i u H \<longleftrightarrow>
     (\<exists>ps. ReadPins (Inr ps) \<in> H
        \<and> (case pin_map ps i of
             Some pin \<Rightarrow> \<exists>history. own_history own history H \<and> pin_verdict P self own history i (Some pin) u = Match
           | None \<Rightarrow> \<exists>keys. servedSigningKeySet (served_keys u) = Some keys
               \<and> StorePin i (map bytesToBase64 keys) (up_wrappingPublicKey u) (up_keyEpoch u) (Inr ()) \<in> H))"

text \<open>
  A key history the grant verifier was given: the caller's own by their signed chain, another's by their pin.  When the
  caller's key or pins could not be read, the grant check lets every served history through.
\<close>

definition pins_unread :: "call set \<Rightarrow> bool" where
  "pins_unread H \<longleftrightarrow> (\<exists>err. ReadOwnKey (Inl err) \<in> H) \<or> (\<exists>err. ReadPins (Inl err) \<in> H)
     \<or> (\<exists>s. ReadOwnKey (Inr s) \<in> H \<and> base64ToBytes s = None)"

definition own_row_agrees :: "bytes \<Rightarrow> OwnKeyHistory option \<Rightarrow> UserProjection \<Rightarrow> UserKeyHistory \<Rightarrow> bool" where
  "own_row_agrees own history u hist \<longleftrightarrow>
     (case history of
        Some h \<Rightarrow> hist = ownKeyHistoryForVerifiers h
          \<and> ownHistoryMatchesServed h (up_signingPublicKey u) (map ss_publicKey (up_supersededSigningKeys u)) (up_keyEpoch u)
      | None \<Rightarrow> hist = historyOf u \<and> up_supersededSigningKeys u = []
          \<and> base64ToBytes (up_signingPublicKey u) = Some own)"

definition history_checked :: "prims \<Rightarrow> js_string \<Rightarrow> js_string \<Rightarrow> UserKeyHistory \<Rightarrow> call set \<Rightarrow> bool" where
  "history_checked P self i hist H \<longleftrightarrow>
     (\<exists>own ps history u. own_key own H \<and> ReadPins (Inr ps) \<in> H \<and> own_history own history H \<and> served_in i u H
        \<and> (if i = self then own_row_agrees own history u hist
           else hist = historyOf u \<and> pin_verdict P self own history i (pin_map ps i) u \<in> {Match, FirstSight}))"

definition histories_checked :: "prims \<Rightarrow> js_string \<Rightarrow> (js_string \<rightharpoonup> UserKeyHistory) \<Rightarrow> call set \<Rightarrow> bool" where
  "histories_checked P self histories H \<longleftrightarrow>
     pins_unread H \<or> (\<forall>i hist. histories i = Some hist \<longrightarrow> history_checked P self i hist H)"

definition chain_verified ::
  "nat \<Rightarrow> prims \<Rightarrow> js_string \<Rightarrow> js_string \<Rightarrow> VerifiedChain \<Rightarrow> call set \<Rightarrow> bool" where
  "chain_verified n P self groupId chain H \<longleftrightarrow>
     (\<exists>grants designations stored at.
        ReadAnchorPin groupId stored \<in> H
        \<and> verifyGrantChain n P \<lparr>gi_groupId = groupId, gi_anchor = vc_anchor chain, gi_pinnedAnchor = stored,
            gi_grants = grants, gi_keyHistories = vc_keyHistories chain, gi_designations = designations,
            gi_now = Some at\<rparr> = Some (vc_result chain)
        \<and> (stored \<noteq> None \<longrightarrow> vc_anchorState chain \<noteq> AnchorChanged \<longrightarrow> cr_anchorPinned (vc_result chain)))
     \<and> (vc_anchorState chain \<notin> {AnchorChanged, RootUnverified} \<longrightarrow>
          root_valid (cr_verdicts (vc_result chain) (an_rootGrantSortKey (vc_anchor chain))))
     \<and> histories_checked P self (vc_keyHistories chain) H"

text \<open>The keys a removal or the start of a rotation was checked under.\<close>

definition signer_keys :: "prims \<Rightarrow> js_string \<Rightarrow> bytes \<Rightarrow> js_string \<Rightarrow> bytes list \<Rightarrow> call set \<Rightarrow> bool" where
  "signer_keys P self own i ks H \<longleftrightarrow>
     (\<exists>history. own_history own history H
        \<and> (if i = self then ks = (case history of None \<Rightarrow> [own] | Some h \<Rightarrow> ownKeys h)
           else \<exists>ps u. ReadPins (Inr ps) \<in> H \<and> served_in i u H \<and> servedSigningKeySet (served_keys u) = Some ks
             \<and> pin_verdict P self own history i (List.find (\<lambda>p. pr_pinnedUserId p = i) ps) u \<in> {Match, FirstSight}))"

definition resolved_keys ::
  "prims \<Rightarrow> js_string \<Rightarrow> bytes \<Rightarrow> (js_string \<rightharpoonup> bytes list option) \<Rightarrow> call set \<Rightarrow> bool" where
  "resolved_keys P self own keys H \<longleftrightarrow> (\<forall>i ks. key_lookup keys i = Some ks \<longrightarrow> signer_keys P self own i ks H)"

definition removals_verified ::
  "prims \<Rightarrow> js_string \<Rightarrow> bytes \<Rightarrow> js_string \<Rightarrow> int \<Rightarrow> (js_string \<rightharpoonup> int) \<Rightarrow> call set \<Rightarrow> bool" where
  "removals_verified P self own groupId generation removedAt H \<longleftrightarrow>
     (if generation = 0 then removedAt = Map.empty
      else \<exists>links keys. resolved_keys P self own keys H
        \<and> verifyRemovals P \<lparr>vi_groupId = groupId, vi_currentGeneration = generation, vi_links = links,
             vi_keysFor = key_lookup keys\<rparr> = Some (Inr removedAt))"

definition context_verified ::
  "nat \<Rightarrow> prims \<Rightarrow> js_string \<Rightarrow> bytes \<Rightarrow> js_string \<Rightarrow> int \<Rightarrow> AdmissionContext \<Rightarrow> call set \<Rightarrow> bool" where
  "context_verified n P self own groupId generation ctx H \<longleftrightarrow>
     chain_verified n P self groupId (ax_chain ctx) H
     \<and> vc_anchorState (ax_chain ctx) \<notin> {AnchorChanged, RootUnverified}
     \<and> (\<forall>i r. ax_byInvitee ctx i = Some r \<longrightarrow> ad_inviteeUserId r = i)
     \<and> removals_verified P self own groupId generation (ax_removedAt ctx) H"

text \<open>The rule of admission: the creator while nobody removed them, or a record at least as new as the removal.\<close>

definition admitted_in ::
  "prims \<Rightarrow> js_string \<Rightarrow> AdmissionContext \<Rightarrow> js_string \<Rightarrow> UserProjection \<Rightarrow> bool" where
  "admitted_in P groupId ctx i u \<longleftrightarrow>
     i = an_creatorUserId (vc_anchor (ax_chain ctx)) \<and> ax_removedAt ctx i = None
     \<or> (\<exists>r keys history. ax_byInvitee ctx i = Some r \<and> servedSigningKeySet (served_keys u) = Some keys
          \<and> (case ax_removedAt ctx i of None \<Rightarrow> True | Some g \<Rightarrow> g \<le> ad_generation r)
          \<and> verifyAdmission P \<lparr>va_groupId = groupId, va_record = r, va_inviteeSigningKeys = keys,
              va_inviteeWrappingKey = up_wrappingPublicKey u, va_chain = vc_result (ax_chain ctx),
              va_inviterHistory = vc_keyHistories (ax_chain ctx) (ad_inviterUserId r),
              va_inviteeHistory = history\<rparr> = Admitted)"

definition admission_verified ::
  "nat \<Rightarrow> prims \<Rightarrow> js_string \<Rightarrow> bytes \<Rightarrow> js_string \<Rightarrow> int \<Rightarrow> js_string \<Rightarrow> UserProjection \<Rightarrow> call set \<Rightarrow> bool" where
  "admission_verified n P self own groupId generation i u H \<longleftrightarrow>
     (\<exists>ctx. context_verified n P self own groupId generation ctx H \<and> admitted_in P groupId ctx i u)"

text \<open>A recipient of a new group key.\<close>

definition cleared_recipient ::
  "nat \<Rightarrow> prims \<Rightarrow> js_string \<Rightarrow> bytes \<Rightarrow> js_string \<Rightarrow> int \<Rightarrow> js_string \<Rightarrow> js_string \<Rightarrow> call set \<Rightarrow> bool" where
  "cleared_recipient n P self own groupId generation i key H \<longleftrightarrow>
     (\<exists>u. served_in i u H \<and> up_wrappingPublicKey u = key \<and> pin_cleared P self own i u H
        \<and> admission_verified n P self own groupId generation i u H)"

text \<open>The marker's signed record verifies under a key of whoever started the rotation; \<open>removed\<close> is whom it names.\<close>

definition start_verified ::
  "prims \<Rightarrow> js_string \<Rightarrow> bytes \<Rightarrow> js_string \<Rightarrow> RotationMarker \<Rightarrow> js_string option \<Rightarrow> call set \<Rightarrow> bool" where
  "start_verified P self own groupId marker removed H \<longleftrightarrow>
     (\<exists>s signature keys payload. mk_startSignature marker = Some s \<and> base64ToBytes s = Some signature
        \<and> signer_keys P self own (mk_startedBy marker) keys H
        \<and> (case mk_rekeyedUserId marker of
             None \<Rightarrow> removed = mk_removedUserId marker
               \<and> (\<exists>u. removed = Some u \<and> rotationStartPayload groupId (mk_startedBy marker) u (mk_generation marker) = Inr payload)
               \<and> (\<exists>k\<in>set keys. verify P k RotationStart payload signature)
           | Some rekeyed \<Rightarrow> removed = None \<and> mk_removedUserId marker = None
               \<and> (\<exists>reason. rekeyKindOk (mk_rekeyReason marker) (mk_startedBy marker) rekeyed = Some reason
                    \<and> rotationRekeyPayload groupId (mk_startedBy marker) rekeyed (mk_generation marker) reason = Inr payload)
               \<and> (\<exists>k\<in>set keys. verify P k RotationRekey payload signature)))"

text \<open>What a run stands on: the group as read, and whom the run leaves out.\<close>

definition run_basis ::
  "prims \<Rightarrow> js_string \<Rightarrow> js_string \<Rightarrow> js_string set \<Rightarrow> GroupDetail \<Rightarrow> bytes \<Rightarrow> js_string set \<Rightarrow> call set \<Rightarrow> bool" where
  "run_basis P self groupId exclude detail own left_out H \<longleftrightarrow>
     ReadGroup groupId (Inr detail) \<in> H \<and> ge_role detail = js ''admin'' \<and> ge_visibility detail = js ''private''
     \<and> own_key own H \<and> exclude \<subseteq> left_out
     \<and> (case gd_rotation detail of
          None \<Rightarrow> True
        | Some marker \<Rightarrow> mk_generation marker = ge_generation detail
            \<and> (\<exists>removed. start_verified P self own groupId marker removed H \<and> set_option removed \<subseteq> left_out))"

definition listed_behind :: "js_string \<Rightarrow> int \<Rightarrow> js_string \<Rightarrow> call set \<Rightarrow> bool" where
  "listed_behind groupId generation i H \<longleftrightarrow>
     (\<exists>members. ReadMembers groupId (Inr members) \<in> H
        \<and> (\<exists>m\<in>set members. re_userId m = i \<and> re_generation m < generation))"

lemmas fact_defs = own_key_def own_history_def served_in_def first_sight_def pin_cleared_def pins_unread_def
  history_checked_def histories_checked_def chain_verified_def signer_keys_def resolved_keys_def
  removals_verified_def context_verified_def admission_verified_def cleared_recipient_def start_verified_def
  run_basis_def listed_behind_def

text \<open>Each fact lasts: it is built from membership by monotone connectives.\<close>

lemma facts_last [lasting_intro]:
  "lasting (own_key own)"
  "lasting (own_history own history)"
  "lasting (served_in i u)"
  "lasting (first_sight i sent w e)"
  "lasting (pin_cleared P self own i u)"
  "lasting pins_unread"
  "lasting (history_checked P self i hist)"
  "lasting (histories_checked P self histories)"
  "lasting (chain_verified n P self groupId chain)"
  "lasting (signer_keys P self own i ks)"
  "lasting (resolved_keys P self own keys)"
  "lasting (removals_verified P self own groupId generation removedAt)"
  "lasting (context_verified n P self own groupId generation ctx)"
  "lasting (admission_verified n P self own groupId generation i u)"
  "lasting (cleared_recipient n P self own groupId generation i key)"
  "lasting (start_verified P self own groupId marker removed)"
  "lasting (run_basis P self groupId exclude detail own left_out)"
  "lasting (listed_behind groupId generation i)"
  unfolding fact_defs [abs_def] by (intro lasting_intro)+

text \<open>The anchor of a group is remembered only where none was, and only with a root grant that verifies under it.\<close>

definition anchor_checked :: "nat \<Rightarrow> prims \<Rightarrow> js_string \<Rightarrow> js_string \<Rightarrow> PinnedAnchor \<Rightarrow> call set \<Rightarrow> bool" where
  "anchor_checked n P self groupId pin H \<longleftrightarrow>
     ReadAnchorPin groupId None \<in> H
     \<and> (\<exists>input r. verifyGrantChain n P input = Some r \<and> gi_groupId input = groupId \<and> gi_pinnedAnchor input = None
          \<and> pin = \<lparr>pa_creatorUserId = an_creatorUserId (gi_anchor input),
                   pa_creatorSigningPublicKey = an_creatorSigningPublicKey (gi_anchor input)\<rparr>
          \<and> root_valid (cr_verdicts r (an_rootGrantSortKey (gi_anchor input)))
          \<and> histories_checked P self (gi_keyHistories input) H)"

section \<open>Which calls may be made\<close>

text \<open>The calls that change nothing.\<close>

definition is_read :: "call \<Rightarrow> bool" where
  "is_read c \<longleftrightarrow> (case c of
     ReadGroup g r \<Rightarrow> True | ReadGrants g cursor r \<Rightarrow> True | ReadDesignations g cursor r \<Rightarrow> True
   | ReadAdmissions g cursor r \<Rightarrow> True | ReadKeychain g a b r \<Rightarrow> True | ReadMembers g r \<Rightarrow> True
   | ReadMembersPage g cursor r \<Rightarrow> True | ReadUsers ids r \<Rightarrow> True | ReadUserDetail i r \<Rightarrow> True
   | ReadOwnKey r \<Rightarrow> True | ReadOwnHistory own r \<Rightarrow> True | ReadHistoryFailure own r \<Rightarrow> True
   | ReadPins r \<Rightarrow> True | ReadVerifications r \<Rightarrow> True | ReadAnchorPin g r \<Rightarrow> True | ReadClock t \<Rightarrow> True
   | DrawInviteId i \<Rightarrow> True | _ \<Rightarrow> False)"

lemma pin_verdict_first_sight: "pin_verdict P self own history i p u = FirstSight \<longleftrightarrow> p = None"
  unfolding pin_verdict_def evaluatePin_def by (auto split: option.split)

end
