(* ===== verification/Key_Checks.thy ===== *)
theory Key_Checks
  imports Rotation_Run_Facts
begin

text \<open>
  What the shared checks of the flows (ownHistory.ts, runGrantCheck.ts, and the admission and marker checks of
  runRotation.ts) promise to every flow that runs them.  A flow says with \<open>J\<close> which calls it may make; the promises hold for
  any \<open>J\<close> that allows reads, pins at first sight and a checked anchor, so each flow interprets the locale on its own.
\<close>

lemma sameBytes_eq: "sameBytes a b \<longleftrightarrow> a = b"
proof
  assume "sameBytes a b"
  then have "list_all2 (=) a b" by (auto simp: sameBytes_def list_all2_iff list_all_iff)
  then show "a = b" by (simp add: list_all2_eq)
qed (simp add: sameBytes_def list_all_iff zip_same_conv_map)

lemma update_entries: "set (AList.update k v xs) \<subseteq> insert (k, v) (set xs)"
  by (induction xs) auto

lemma updates_entries: "set (foldl (\<lambda>m (i, u). AList.update i u m) out users) \<subseteq> set out \<union> set users"
proof (induction users arbitrary: out)
  case (Cons x users)
  then show ?case using update_entries [of "fst x" "snd x" out] by (cases x) fastforce
qed simp

text \<open>Sending with a record, and again without it, makes no other calls than sending.\<close>

lemma send_either:
  "lasting A \<Longrightarrow> meets J A (send record_fields) (\<lambda>r H. True) \<Longrightarrow> meets J A (send None) (\<lambda>r H. True)
   \<Longrightarrow> meets J A (sendWithRecord record_fields send) (\<lambda>r H. True)"
  unfolding sendWithRecord_def
  by (intro meets_attempt [where B = "\<lambda>r H. True"] meets_if meets_give) simp_all

text \<open>What is known of the material the served keys are checked against.\<close>

definition material_known ::
  "bytes option \<Rightarrow> (js_string \<rightharpoonup> PinRecord) option \<Rightarrow> OwnKeyHistory option \<Rightarrow> call set \<Rightarrow> bool" where
  "material_known own pins history H \<longleftrightarrow> (case (own, pins) of
     (Some k, Some pm) \<Rightarrow> own_key k H \<and> (\<exists>ps. ReadPins (Inr ps) \<in> H \<and> pm = pin_map ps) \<and> own_history k history H
   | _ \<Rightarrow> pins_unread H)"

definition rows_served :: "(js_string \<times> UserProjection) list \<Rightarrow> call set \<Rightarrow> bool" where
  "rows_served rows H \<longleftrightarrow> (\<forall>x\<in>set rows. served_in (fst x) (snd x) H)"

lemma material_last [lasting_intro]: "lasting (material_known own pins history)"
proof (cases own; cases pins)
  fix k pm
  assume "own = Some k" "pins = Some pm"
  then show ?thesis unfolding material_known_def [abs_def] by simp (intro lasting_intro)
qed (simp_all add: material_known_def [abs_def] lasting_intro)

lemma rows_last [lasting_intro]: "lasting (rows_served rows)"
  unfolding rows_served_def [abs_def] by (intro lasting_intro)

lemma histories_allow:
  "histories_checked P self (kx_keyHistories acc) H \<Longrightarrow> history_checked P self i h H
   \<Longrightarrow> histories_checked P self (kx_keyHistories (allow i h acc)) H"
  by (auto simp: histories_checked_def allow_def)

lemma history_checked_self:
  "material_known (Some own) (Some pm) history H \<Longrightarrow> served_in self u H \<Longrightarrow> own_row_agrees own history u h
   \<Longrightarrow> history_checked P self self h H"
  unfolding history_checked_def material_known_def by auto

lemma history_checked_other:
  "material_known (Some own) (Some pm) history H \<Longrightarrow> served_in i u H \<Longrightarrow> i \<noteq> self
   \<Longrightarrow> pin_verdict P self own history i (pm i) u \<in> {Match, FirstSight} \<Longrightarrow> history_checked P self i (historyOf u) H"
  unfolding history_checked_def material_known_def by auto

lemma histories_withhold [simp]:
  "kx_keyHistories (withhold i acc) = kx_keyHistories acc"
  by (simp add: withhold_def)

text \<open>
  Without the caller's key or pins the grant check lets every history through as served, and says so in \<open>vc_keys\<close>;
  \<^const>\<open>loadAdmissions\<close> does not look there, so the promises below are made up to \<^const>\<open>pins_unread\<close>.
\<close>

lemma unread_pins_check_nothing:
  "run_state (scan_served P D own None history [(i, u)] acc) h = (Inr ((allow i (historyOf u) acc)\<lparr>kx_unchecked := True\<rparr>), h)"
  by (cases own) (simp_all add: give_def)

lemma checkServedKeys_throws:
  "base64ToBytes (up_signingPublicKey u) = None \<Longrightarrow> selfUserId D = self
   \<Longrightarrow> run_state (scan_served P D (Some own) (Some pm) history [(self, u)] acc) h
     = (Inl (OtherThrown (js ''InvalidCharacterError'')), h)"
  by (simp add: scan_self_def lift_def await_def attempt_def give_def)

text \<open>A flow may read what it likes; what it may write depends on the flow.\<close>

locale reading =
  fixes J :: "call set \<Rightarrow> call \<Rightarrow> bool"
  assumes reads: "is_read c \<Longrightarrow> J H c"
begin

lemma meets_read:
  "(\<And>x. is_read (entry x)) \<Longrightarrow> meets J A (ask answer entry) (\<lambda>x H. entry x \<in> H)"
  by (rule meets_ask) (rule reads)

lemma meets_read_ok:
  "(\<And>x. is_read (entry x)) \<Longrightarrow> meets J A (ask answer entry) (on_ok (\<lambda>x H. entry (Inr x) \<in> H))"
  by (rule meets_post [OF meets_read]) (auto simp: on_ok_def split: sum.split)

lemma quiet_read: "(\<And>x. is_read (entry x)) \<Longrightarrow> quiet J (ask answer entry)"
  by (rule quiet_ask) (rule reads)

text \<open>The caller's own keys.\<close>

lemma own_history_found: "meets J A (ownHistoryFor D own) (own_history own)"
  unfolding ownHistoryFor_def
  by (intro meets_option meets_give meets_attempt [OF lasting_pure [of True] meets_read, THEN meets_pre])
    (simp_all add: own_history_def is_read_def)

lemma own_keys_found:
  "meets J A (ownSigningKeysFor D own)
     (\<lambda>ks H. \<exists>history. own_history own history H \<and> ks = (case history of None \<Rightarrow> [own] | Some h \<Rightarrow> ownKeys h))"
  unfolding ownSigningKeysFor_def give_def [symmetric]
  by (rule meets_pre [OF meets_bind [OF lasting_pure [of True] own_history_found meets_give]]) auto

lemma own_key_found:
  "meets J A (own_signing_key D)
     (\<lambda>r H. case r of Inl e \<Rightarrow> pins_unread H | Inr own \<Rightarrow> own_key own H)"
  unfolding own_signing_key_def
proof (rule meets_pre [OF meets_await [OF lasting_pure [of True] meets_read]])
  show "meets J (\<lambda>H. True \<and> ReadOwnKey (Inr s) \<in> H) (lift (base64ToBytes s) ''InvalidCharacterError'')
     (\<lambda>r H. case r of Inl e \<Rightarrow> pins_unread H | Inr own \<Rightarrow> own_key own H)" for s
    unfolding lift_def by (rule meets_give) (auto simp: own_key_def pins_unread_def split: option.split)
qed (auto simp: is_read_def pins_unread_def)

lemma own_key_ok: "meets J A (own_signing_key D) (on_ok own_key)"
  by (rule meets_post [OF own_key_found]) (simp add: on_ok_def split: sum.splits)

end

locale key_checks = reading J for J :: "call set \<Rightarrow> call \<Rightarrow> bool" +
  fixes n :: nat and P :: prims and self :: js_string
  assumes pins: "first_sight i sent w e H \<Longrightarrow> J H (StorePin i sent w e r)"
    and anchors: "anchor_checked n P self g pin H \<Longrightarrow> J H (WriteAnchorPin g pin saved)"
begin

section \<open>The grant check\<close>

abbreviation checked_scan :: "KeyScan \<Rightarrow> call set \<Rightarrow> bool" where
  "checked_scan scan \<equiv> histories_checked P self (kx_keyHistories scan)"

lemma served_rows:
  "meets J A (readServedKeys D ids) (\<lambda>(rows, k) H. rows_served rows H)"
  unfolding readServedKeys_def Let_def
proof (intro meets_if meets_give meets_pre [OF meets_attempt [OF lasting_pure [of True] meets_read]], goal_cases)
  case (4 x)
  show ?case
    by (cases x) (auto intro!: meets_give simp: rows_served_def served_in_def dest!: subsetD [OF updates_entries])
qed (auto simp: rows_served_def is_read_def)

lemma own_material_known: "meets J A (own_material D) (\<lambda>(own, pins, history) H. material_known own pins history H)"
  unfolding own_material_def
proof (rule meets_pre [OF meets_attempt [OF lasting_pure [of True] own_key_found]])
  fix own
  show "meets J (\<lambda>H. True \<and> (case Inr own of Inl e \<Rightarrow> pins_unread H | Inr own \<Rightarrow> own_key own H))
     (attempt (read_pins D) (\<lambda>err. give (Some own, None, None)) (\<lambda>ps. case loadOwnKeyHistory D of
         None \<Rightarrow> give (Some own, Some (pin_map ps), None)
       | Some load \<Rightarrow> attempt (ask (load own) (ReadOwnHistory own)) (\<lambda>err. give (Some own, Some (pin_map ps), None))
             (\<lambda>h. give (Some own, Some (pin_map ps), h))))
     (\<lambda>(own, pins, history) H. material_known own pins history H)"
    unfolding sum.case
    by (intro meets_attempt [OF _ meets_read] meets_option meets_give lasting_intro)
      (auto simp: material_known_def is_read_def pins_unread_def own_history_def)
qed (auto intro!: meets_give simp: material_known_def)

lemma self_row_checked:
  assumes "i = self"
  shows "meets J (\<lambda>H. material_known (Some own) (Some pm) history H \<and> served_in i u H
       \<and> checked_scan acc H)
     (scan_self own history i u acc)
     (on_ok checked_scan)"
  unfolding scan_self_def Let_def
proof (rule meets_await_ok [OF _ meets_lift_ok])
  fix current
  show "meets J (\<lambda>H. (material_known (Some own) (Some pm) history H \<and> served_in i u H \<and> checked_scan acc H)
      \<and> base64ToBytes (up_signingPublicKey u) = Some current)
     (give (Inr (if case history of
             Some h \<Rightarrow> ownHistoryMatchesServed h (up_signingPublicKey u) (map ss_publicKey (up_supersededSigningKeys u)) (up_keyEpoch u)
           | None \<Rightarrow> sameBytes current own \<and> up_supersededSigningKeys u = []
        then allow i (case history of Some h \<Rightarrow> ownKeyHistoryForVerifiers h | None \<Rightarrow> historyOf u) acc
        else withhold i acc)))
     (on_ok checked_scan)"
    using assms
    by (intro meets_give)
      (cases history; auto intro!: histories_allow history_checked_self simp: sameBytes_eq own_row_agrees_def)
qed (intro lasting_intro | simp)+

lemma other_row_checked:
  assumes "i \<noteq> self" "selfUserId D = self"
  shows "meets J (\<lambda>H. material_known (Some own) (Some pm) history H \<and> served_in i u H
       \<and> checked_scan acc H)
     (scan_other P D own pm history i u acc)
     checked_scan"
    (is "meets J ?A _ ?B")
proof -
  have ok: "histories_checked P self (kx_keyHistories (allow i (historyOf u) acc)) H"
    if "?A H" "pin_verdict P self own history i (pm i) u \<in> {Match, FirstSight}" for H
    using that assms by (intro histories_allow history_checked_other) auto
  have first: "J H (StorePin i (map bytesToBase64 keys) (up_wrappingPublicKey u) (up_keyEpoch u) r)"
    if "?A H" "pin_verdict P self own history i (pm i) u = FirstSight" "servedSigningKeySet (served_keys u) = Some keys" for H keys r
    using that by (intro pins) (auto simp: first_sight_def material_known_def pin_verdict_first_sight)
  show ?thesis
  proof (cases "pin_verdict P self own history i (pm i) u")
    case FirstSight
    have last: "lasting ?A" by (intro lasting_intro)
    from FirstSight show ?thesis
      unfolding scan_other_def assms(2)
      by (simp, intro meets_option meets_give meets_attempt [OF last meets_ask]) (use ok first in auto)
  qed (auto simp: scan_other_def assms(2) intro!: meets_give ok)
qed

lemma row_checked:
  assumes "selfUserId D = self"
  shows "meets J (\<lambda>H. material_known (Some own) (Some pm) history H \<and> served_in i u H
       \<and> checked_scan acc H)
     (if i = selfUserId D then scan_self own history i u acc
      else State_Monad.bind (scan_other P D own pm history i u acc) (\<lambda>acc'. give (Inr acc')))
     (on_ok checked_scan)"
proof (cases "i = self")
  case True
  then show ?thesis using assms by (simp add: self_row_checked)
next
  case False
  show ?thesis
    using False assms
    by simp (rule meets_bind [OF _ other_row_checked meets_give], (intro lasting_intro | simp)+)
qed

lemma rows_checked:
  assumes "selfUserId D = self"
  shows "meets J (\<lambda>H. material_known own pm history H \<and> rows_served rows H \<and> checked_scan acc H)
     (scan_served P D own pm history rows acc)
     (on_ok checked_scan)"
proof (induction rows arbitrary: acc)
  case Nil
  show ?case by (simp, rule meets_give) simp
next
  case (Cons row rows)
  obtain i u where row: "row = (i, u)" by (cases row)
  have tail: "rows_served (row # rows) H \<longleftrightarrow> served_in i u H \<and> rows_served rows H" for H
    by (simp add: row rows_served_def)
  show ?case
  proof (cases "own = None \<or> pm = None")
    case True
    then have all: "material_known own pm history H \<Longrightarrow> histories_checked P self f H" for f H
      by (auto simp: material_known_def histories_checked_def split: option.splits)
    from True have "scan_served P D own pm history (row # rows) acc
        = scan_served P D own pm history rows ((allow i (historyOf u) acc)\<lparr>kx_unchecked := True\<rparr>)"
      by (auto simp: row split: option.split)
    then show ?thesis
      by (simp only:) (rule meets_pre [OF Cons.IH], simp add: tail all)
  next
    case False
    then obtain k m where found: "own = Some k" "pm = Some m" by auto
    show ?thesis
      unfolding row found scan_served.simps option.case prod.case
    proof (rule meets_await_ok [where B = checked_scan])
      show "lasting (\<lambda>H. material_known (Some k) (Some m) history H \<and> rows_served ((i, u) # rows) H
          \<and> checked_scan acc H)"
        by (intro lasting_intro)
    next
      show "meets J (\<lambda>H. material_known (Some k) (Some m) history H \<and> rows_served ((i, u) # rows) H
            \<and> checked_scan acc H)
          (if i = selfUserId D then scan_self k history i u acc
           else State_Monad.bind (scan_other P D k m history i u acc) (\<lambda>acc'. give (Inr acc')))
          (on_ok checked_scan)"
        by (rule meets_pre [OF row_checked [OF assms]]) (auto simp: rows_served_def)
    next
      show "meets J (\<lambda>H. (material_known (Some k) (Some m) history H \<and> rows_served ((i, u) # rows) H
            \<and> checked_scan acc H)
          \<and> checked_scan acc' H)
          (scan_served P D (Some k) (Some m) history rows acc')
          (on_ok checked_scan)" for acc'
        by (rule meets_pre [OF Cons.IH [unfolded found]]) (auto simp: rows_served_def)
    qed
  qed
qed

lemma served_keys_checked:
  assumes "selfUserId D = self"
  shows "meets J (rows_served rows) (checkServedKeys P D rows k) (on_ok checked_scan)"
  unfolding checkServedKeys_def
proof (rule meets_bind [OF _ own_material_known], goal_cases)
  case (2 x)
  show ?case
    by (cases x) (simp, rule meets_pre [OF rows_checked [OF assms]], simp add: histories_checked_def)
qed (rule lasting_intro)

lemma quiet_grant_pages: "quiet J (grant_pages k D groupId anchor agree cursor rows)"
  by (induction k arbitrary: anchor agree cursor rows)
    (auto intro!: quiet_rules quiet_read simp: is_read_def split: prod.splits)

lemma quiet_grants: "quiet J (readAllGrants D groupId)" "quiet J (readAllDesignations D groupId)"
  unfolding readAllGrants_def readAllDesignations_def
  by (rule quiet_grant_pages) (intro quiet_read_pages quiet_read, simp add: is_read_def)

lemma anchor_settled:
  assumes "verifyGrantChain n P \<lparr>gi_groupId = groupId, gi_anchor = anchor, gi_pinnedAnchor = stored, gi_grants = grants,
      gi_keyHistories = kx_keyHistories scan, gi_designations = designations, gi_now = Some t\<rparr> = Some r"
  shows "meets J (\<lambda>H. histories_checked P self (kx_keyHistories scan) H \<and> ReadAnchorPin groupId stored \<in> H)
     (settle_anchor D groupId anchor agree stored scan r) (on_ok (chain_verified n P self groupId))" (is "meets J ?A _ _")
proof -
  have known: "chain_verified n P self groupId (verified_chain anchor scan r state) H"
    if "?A H" "stored \<noteq> None \<Longrightarrow> state \<noteq> AnchorChanged \<Longrightarrow> cr_anchorPinned r"
      "state \<notin> {AnchorChanged, RootUnverified} \<Longrightarrow> root_valid (cr_verdicts r (an_rootGrantSortKey anchor))" for H state
    unfolding chain_verified_def
    by (intro conjI exI [of _ grants] exI [of _ designations] exI [of _ stored] exI [of _ t])
      (use that assms in \<open>simp_all add: verified_chain_def\<close>)
  have remembered: "J H (WriteAnchorPin groupId \<lparr>pa_creatorUserId = an_creatorUserId anchor,
      pa_creatorSigningPublicKey = an_creatorSigningPublicKey anchor\<rparr> saved)"
    if "?A H" "stored = None" "root_valid (cr_verdicts r (an_rootGrantSortKey anchor))" for H saved
  proof (rule anchors)
    show "anchor_checked n P self groupId \<lparr>pa_creatorUserId = an_creatorUserId anchor,
        pa_creatorSigningPublicKey = an_creatorSigningPublicKey anchor\<rparr> H"
      unfolding anchor_checked_def 
    proof
      show "ReadAnchorPin groupId None \<in> H" using that by simp
    qed ((rule exI)+, rule conjI, rule assms, use that in simp)
  qed
  have last: "lasting ?A" by (intro lasting_intro)
  show ?thesis
    unfolding settle_anchor_def Let_def
    by (intro meets_if meets_give meets_bind [OF last meets_ask]) (auto intro!: known remembered)
qed

lemma chain_checked:
  assumes "selfUserId D = self"
  shows "meets J A (loadVerifiedChain n P D groupId extra) (on_ok (chain_verified n P self groupId))"
proof -
  note start = lasting_pure [of True]
  have "meets J (\<lambda>H. True) (loadVerifiedChain n P D groupId extra) (on_ok (chain_verified n P self groupId))"
    unfolding loadVerifiedChain_def
  proof (intro meets_after_quiet [OF start] meets_prod meets_bind [OF start served_rows] meets_if quiet_grants quiet_give, goal_cases)
    case (1 x anchor x' grants agree designations rows served unreadable)
    show ?case
      unfolding \<open>rows = (served, unreadable)\<close> prod.case simp_thms
    proof (rule meets_await_ok [OF _ served_keys_checked [OF assms]], goal_cases)
      case (2 scan)
      show ?case
      proof (intro meets_bind [OF _ meets_read] meets_await [OF _ meets_lift], goal_cases)
        case (7 stored t r)
        let ?input = "\<lparr>gi_groupId = groupId, gi_anchor = anchor, gi_pinnedAnchor = stored, gi_grants = grants,
          gi_keyHistories = kx_keyHistories scan, gi_designations = designations, gi_now = Some t\<rparr>"
        show ?case
        proof (cases "verifyGrantChain n P ?input = Some r")
          case True
          then show ?thesis by (rule meets_pre [OF anchor_settled]) simp
        qed (simp add: meets_def)
      qed (intro lasting_intro | simp add: is_read_def)+
    qed (intro lasting_intro)
  qed
  then show ?thesis by (rule meets_pre) simp
qed

end

end
