(* ===== verification/Admission_Checks.thy ===== *)
theory Admission_Checks
  imports Key_Checks
begin

text \<open>
  What the removal history, the admissions and the marker of a rotation promise to a flow that checks them:
  the keys they were verified under, the chain they rest on, and whom they name.
\<close>

lemma key_lookup_upd [simp]: "key_lookup (keys(i \<mapsto> ks)) j = (if j = i then ks else key_lookup keys j)"
  by (simp add: key_lookup_def)

lemma resolved_keys_upd:
  "resolved_keys P self own keys H \<Longrightarrow> (\<And>ks. found = Some ks \<Longrightarrow> signer_keys P self own i ks H)
   \<Longrightarrow> resolved_keys P self own (keys(i \<mapsto> found)) H"
  by (simp add: resolved_keys_def)

lemma resolved_keys_empty [simp]: "resolved_keys P self own Map.empty H"
  by (simp add: resolved_keys_def key_lookup_def)

lemma signer_keys_other:
  "own_history own history H \<Longrightarrow> ReadPins (Inr ps) \<in> H \<Longrightarrow> served_in i u H \<Longrightarrow> servedSigningKeySet (served_keys u) = Some ks
   \<Longrightarrow> pin_verdict P self own history i (List.find (\<lambda>p. pr_pinnedUserId p = i) ps) u \<in> {Match, FirstSight} \<Longrightarrow> i \<noteq> self
   \<Longrightarrow> signer_keys P self own i ks H"
  unfolding signer_keys_def by (rule exI [of _ history], simp, intro exI [of _ ps] conjI exI [of _ u]) auto

context key_checks
begin

section \<open>The keys of a signer\<close>

lemma others_resolved:
  assumes "self \<notin> set ids" "selfUserId D = self"
  shows "meets J (\<lambda>H. ReadPins (Inr ps) \<in> H \<and> (\<forall>i u. served i = Some u \<longrightarrow> served_in i u H) \<and> resolved_keys P self own keys H)
     (resolve_others P D own served failure ps who ids keys) (on_ok (resolved_keys P self own))"
  using assms
proof (induction ids arbitrary: keys)
  case Nil
  show ?case by (simp, rule meets_give) simp
next
  case (Cons i ids)
  show ?case
  proof (cases "served i")
    case None
    then show ?thesis by (simp, intro meets_give) simp
  next
    case (Some u)
    let ?A = "\<lambda>H. ReadPins (Inr ps) \<in> H \<and> (\<forall>i u. served i = Some u \<longrightarrow> served_in i u H) \<and> resolved_keys P self own keys H"
    have upd: "resolved_keys P self own (keys(i \<mapsto> servedSigningKeySet (served_keys u))) H"
      if "?A H" "own_history own history H"
        "pin_verdict P self own history i (List.find (\<lambda>p. pr_pinnedUserId p = i) ps) u \<in> {Match, FirstSight}" for H history
      using that Some Cons.prems(1) by (intro resolved_keys_upd signer_keys_other [of own history H ps i u]) auto
    have last: "lasting ?A" by (intro lasting_intro)
    show ?thesis
      unfolding resolve_others.simps Some option.case Cons.prems(2)
      by (intro meets_bind [OF last own_history_found] meets_if meets_pre [OF Cons.IH] meets_give conjI upd)
        (use Cons.prems in \<open>simp_all del: fun_upd_apply\<close>)
  qed
qed

lemma signers_resolved:
  assumes "selfUserId D = self"
  shows "meets J A (resolveSignerKeys P D own signers who) (on_ok (on_ok (resolved_keys P self own)))"
proof -
  have own_part: "meets J A (if self \<in> set signers
       then do { ks \<leftarrow> ownSigningKeysFor D own; give [self \<mapsto> Some ks] } else give Map.empty)
     (resolved_keys P self own)" for A
    by (intro meets_if meets_pre [OF meets_bind [OF lasting_pure [of True] own_keys_found meets_give]] meets_give)
      (auto intro!: resolved_keys_upd simp: signer_keys_def)
  have "meets J (\<lambda>H. True) (resolveSignerKeys P D own signers who) (on_ok (on_ok (resolved_keys P self own)))"
    unfolding resolveSignerKeys_def Let_def assms
  proof (rule meets_bind [OF lasting_pure own_part], goal_cases)
    case (1 keys)
    show ?case
    proof (intro meets_if meets_give meets_await_ok [OF _ meets_read_ok], goal_cases)
      case (4 x)
      obtain served failure where x: "x = (served, failure)" by (cases x)
      show ?case
        unfolding x prod.case
        by (intro meets_attempt_ok [OF _ meets_read_ok] meets_give meets_bind [OF _ others_resolved [OF _ assms, THEN meets_pre]])
          (auto intro!: lasting_intro simp: is_read_def served_in_def dest: map_of_SomeD)
    qed (auto intro!: lasting_intro simp: is_read_def)
  qed
  then show ?thesis by (rule meets_pre) simp
qed

section \<open>Removals and admissions\<close>

lemma quiet_keychain: "quiet J (keychain_pages k D groupId a b links)"
  by (induction k arbitrary: a links) (auto intro!: quiet_rules quiet_read simp: is_read_def)

lemma removals_known:
  assumes "selfUserId D = self"
  shows "meets J A (loadRemovals P D own groupId g) (on_ok (on_ok (removals_verified P self own groupId g)))"
proof -
  have "meets J (\<lambda>H. True) (loadRemovals P D own groupId g) (on_ok (on_ok (removals_verified P self own groupId g)))"
    unfolding loadRemovals_def Let_def
  proof (intro meets_if meets_give meets_attempt_ok [OF lasting_pure, where B = "\<lambda>x H. True"]
      meets_proceed_ok [OF _ signers_resolved [OF assms]], goal_cases)
    case (2 ) show ?case by (rule meets_weaken [OF quiet_keychain]) simp_all
  next
    case (5 links keys)
    show ?case
    proof (rule meets_lift_intro)
      fix y H
      assume "verifyRemovals P \<lparr>vi_groupId = groupId, vi_currentGeneration = g, vi_links = map RemovalLink.truncate links,
          vi_keysFor = key_lookup keys\<rparr> = Some y" "(True \<and> True) \<and> resolved_keys P self own keys H"
      then show "on_ok (on_ok (removals_verified P self own groupId g)) (Inr y) H"
        using \<open>g \<noteq> 0\<close> by (auto simp: on_ok_def removals_verified_def split: sum.split)
    qed simp
  qed (auto simp: removals_verified_def intro: lasting_intro)
  then show ?thesis by (rule meets_pre) simp
qed

lemma context_known:
  assumes "selfUserId D = self"
  shows "meets J A (load_context n P D own groupId g) (on_ok (on_ok (context_verified n P self own groupId g)))"
proof -
  have "meets J (\<lambda>H. True) (load_context n P D own groupId g) (on_ok (on_ok (context_verified n P self own groupId g)))"
    unfolding load_context_def
  proof (rule meets_after_quiet [OF lasting_pure], goal_cases)
    case 1
    show ?case by (intro quiet_read_pages quiet_read) (simp add: is_read_def)
  next
    case (2 rows)
    show ?case
      by (intro meets_await_ok [OF lasting_pure chain_checked [OF assms]] meets_if meets_give
          meets_proceed_ok [OF _ removals_known [OF assms]])
        (auto intro!: lasting_intro simp: context_verified_def js_map_def dest!: map_of_SomeD)
  qed
  then show ?thesis by (rule meets_pre) simp
qed

lemma admissions_known:
  assumes "selfUserId D = self"
  shows "meets J A (loadAdmissions n P D own groupId g) (on_ok (on_ok (context_verified n P self own groupId g)))"
proof -
  have "meets J (\<lambda>H. True) (loadAdmissions n P D own groupId g) (on_ok (on_ok (context_verified n P self own groupId g)))"
    unfolding loadAdmissions_def
  proof (rule meets_after_quiet [OF lasting_pure], goal_cases)
    case 1
    show ?case by (intro quiet_rules quiet_read) (simp add: is_read_def)
  next
    case (2 failed)
    show ?case
      by (intro meets_option meets_give meets_attempt_ok [OF lasting_pure context_known [OF assms]]) simp_all
  qed
  then show ?thesis by (rule meets_pre) simp
qed

text \<open>The cache of chains does not matter to what is known.\<close>

lemma context_histories [simp]:
  "context_verified n P self own groupId g (ctx\<lparr>ax_inviteeHistories := hs\<rparr>) = context_verified n P self own groupId g ctx"
  "admitted_in P groupId (ctx\<lparr>ax_inviteeHistories := hs\<rparr>) = admitted_in P groupId ctx"
  by (simp_all add: context_verified_def [abs_def] admitted_in_def [abs_def])

lemma quiet_history: "quiet J (inviteeHistoryFor P D histories i u)"
  unfolding inviteeHistoryFor_def by (intro quiet_rules quiet_read) (simp_all add: is_read_def)

lemma admission_known:
  "meets J (context_verified n P self own groupId g ctx) (isAdmitted P D ctx groupId i u)
     (on_ok (\<lambda>(admitted, ctx') H. context_verified n P self own groupId g ctx' H
        \<and> (admitted \<longrightarrow> admitted_in P groupId ctx' i u)))"
proof (cases "i = an_creatorUserId (vc_anchor (ax_chain ctx)) \<and> ax_removedAt ctx i = None")
  case True
  then show ?thesis
    unfolding isAdmitted_def if_P [OF True] by (intro meets_give) (use True in \<open>simp add: admitted_in_def\<close>)
next
  case False
  show ?thesis
  proof (cases "ax_byInvitee ctx i = None \<or> servedSigningKeySet (served_keys u) = None")
    case True
    with False show ?thesis unfolding isAdmitted_def by (auto intro!: meets_give split: option.split)
  next
    case neither: False
    then obtain r keys where found: "ax_byInvitee ctx i = Some r" "servedSigningKeySet (served_keys u) = Some keys" by auto
    have ok: "admitted_in P groupId ctx i u"
      if "\<not> (case ax_removedAt ctx i of None \<Rightarrow> False | Some g \<Rightarrow> ad_generation r < g)"
        "verifyAdmission P \<lparr>va_groupId = groupId, va_record = r, va_inviteeSigningKeys = keys,
           va_inviteeWrappingKey = up_wrappingPublicKey u, va_chain = vc_result (ax_chain ctx),
           va_inviterHistory = vc_keyHistories (ax_chain ctx) (ad_inviterUserId r), va_inviteeHistory = history\<rparr> = Admitted"
      for history
      unfolding admitted_in_def
      by (rule disjI2, rule exI [of _ r], rule exI [of _ keys], rule exI [of _ history])
        (use that found in \<open>simp split: option.splits\<close>)
    show ?thesis
      unfolding isAdmitted_def using False found
      by (simp only: if_False option.case prod.case)
        (intro meets_if meets_give meets_bind [OF facts_last(13), where B = "\<lambda>r H. True"] meets_sum meets_prod
          meets_weaken [OF quiet_history]; auto intro!: ok)
  qed
qed

section \<open>The marker of a rotation\<close>

lemma marker_verified:
  assumes "selfUserId D = self"
  shows "meets J A (verify_marker P D own marker sctx payload signature refusal removed)
     (on_ok (on_ok (\<lambda>r H. r = removed \<and> (\<exists>keys pl. signer_keys P self own (mk_startedBy marker) keys H \<and> payload = Inr pl
        \<and> (\<exists>k\<in>set keys. verify P k sctx pl signature)))))"
proof -
  have "meets J (\<lambda>H. True) (verify_marker P D own marker sctx payload signature refusal removed)
     (on_ok (on_ok (\<lambda>r H. r = removed \<and> (\<exists>keys pl. signer_keys P self own (mk_startedBy marker) keys H \<and> payload = Inr pl
        \<and> (\<exists>k\<in>set keys. verify P k sctx pl signature)))))"
    unfolding verify_marker_def
  proof (intro meets_await_ok [OF lasting_pure meets_lift_result_ok] meets_proceed_ok [OF _ signers_resolved [OF assms]]
      meets_option meets_if meets_give, goal_cases)
    case (3 pl keys ks H)
    from 3(1,3) have "signer_keys P self own (mk_startedBy marker) ks H" by (simp add: resolved_keys_def)
    moreover from 3(2) have "\<exists>k\<in>set ks. verify P k sctx pl signature" by (simp add: list_ex_iff)
    ultimately show ?case using 3(3) by auto
  qed (auto intro: lasting_intro)
  then show ?thesis by (rule meets_pre) simp
qed

lemma start_known:
  assumes "selfUserId D = self"
  shows "meets J A (verifyRotationStart P D own groupId marker) (on_ok (on_ok (start_verified P self own groupId marker)))"
proof -
  have removal: "start_verified P self own groupId marker r H"
    if "mk_rekeyedUserId marker = None" "mk_removedUserId marker = Some u" "mk_startSignature marker = Some s"
      "base64ToBytes s = Some signature"
      "r = Some u \<and> (\<exists>keys pl. signer_keys P self own (mk_startedBy marker) keys H
         \<and> rotationStartPayload groupId (mk_startedBy marker) u (mk_generation marker) = Inr pl
         \<and> (\<exists>k\<in>set keys. verify P k RotationStart pl signature))" for u s signature r H
    using that unfolding start_verified_def by fastforce
  have rekey: "start_verified P self own groupId marker r H"
    if "mk_rekeyedUserId marker = Some u" "mk_removedUserId marker = None" "mk_startSignature marker = Some s"
      "base64ToBytes s = Some signature" "rekeyKindOk (mk_rekeyReason marker) (mk_startedBy marker) u = Some reason"
      "r = None \<and> (\<exists>keys pl. signer_keys P self own (mk_startedBy marker) keys H
         \<and> rotationRekeyPayload groupId (mk_startedBy marker) u (mk_generation marker) reason = Inr pl
         \<and> (\<exists>k\<in>set keys. verify P k RotationRekey pl signature))" for u s signature r reason H
    using that unfolding start_verified_def by fastforce
  show ?thesis
  proof (cases "mk_rekeyedUserId marker")
    case None
    then show ?thesis
      unfolding verifyRotationStart_def
      by (simp, intro meets_option meets_prod meets_give meets_post [OF marker_verified [OF assms]])
        (auto elim!: on_ok_mono intro: removal)
  next
    case (Some u)
    then show ?thesis
      unfolding verifyRotationStart_def verifyRekeyStart_def
      by (simp, intro meets_option meets_prod meets_give meets_post [OF marker_verified [OF assms]])
        (auto elim!: on_ok_mono intro: rekey)
  qed
qed

end

end
