(* ===== verification/Rotation_Checks.thy ===== *)
theory Rotation_Checks
  imports Admission_Checks
begin

text \<open>
  routes/runRotation.ts: what a run of a key rotation may do.  \<open>rotation_call\<close> says of each call what must have been
  read and checked before it, and \<open>rotation_follows\<close> that every call of a run is one it allows.
\<close>

section \<open>What a run may do\<close>

text \<open>The start of a leave was signed by a key the caller has a reason to trust.\<close>

definition leaver_trusted ::
  "nat \<Rightarrow> prims \<Rightarrow> js_string \<Rightarrow> bytes \<Rightarrow> js_string \<Rightarrow> int \<Rightarrow> RotationMarker \<Rightarrow> js_string \<Rightarrow> call set \<Rightarrow> bool" where
  "leaver_trusted n P self own groupId generation marker leaver H \<longleftrightarrow>
     (\<exists>s signature payload u. mk_startSignature marker = Some s \<and> base64ToBytes s = Some signature
        \<and> rotationStartPayload groupId (mk_startedBy marker) leaver (mk_generation marker) = Inr payload \<and> served_in leaver u H
        \<and> ((\<exists>ps history. ReadPins (Inr ps) \<in> H \<and> own_history own history H
              \<and> pin_verdict P self own history leaver (List.find (\<lambda>p. pr_pinnedUserId p = leaver) ps) u = Match)
         \<or> (\<exists>ctx. context_verified n P self own groupId generation ctx H
              \<and> (leaver = an_creatorUserId (vc_anchor (ax_chain ctx)) \<and> ax_removedAt ctx leaver = None
                   \<and> (\<exists>k. base64ToBytes (an_creatorSigningPublicKey (vc_anchor (ax_chain ctx))) = Some k
                        \<and> verify P k RotationStart payload signature)
                 \<or> admitted_in P groupId ctx leaver u
                   \<and> (\<exists>keys. leaver_signers ctx leaver = Some keys \<and> (\<exists>k\<in>set keys. verify P k RotationStart payload signature))))))"

definition leave_basis ::
  "nat \<Rightarrow> prims \<Rightarrow> js_string \<Rightarrow> js_string \<Rightarrow> GroupDetail \<Rightarrow> js_string \<Rightarrow> call set \<Rightarrow> bool" where
  "leave_basis n P self groupId detail leaver H \<longleftrightarrow>
     ReadGroup groupId (Inr detail) \<in> H \<and> ge_role detail = js ''admin'' \<and> ge_visibility detail = js ''private''
     \<and> (\<exists>marker own. gd_rotation detail = Some marker \<and> mk_generation marker = ge_generation detail + 1
          \<and> mk_startedBy marker = leaver \<and> mk_removedUserId marker = Some leaver
          \<and> own_key own H \<and> start_verified P self own groupId marker (Some leaver) H
          \<and> leaver_trusted n P self own groupId (ge_generation detail) marker leaver H)"

definition rewrap_allowed ::
  "nat \<Rightarrow> prims \<Rightarrow> js_string \<Rightarrow> js_string \<Rightarrow> js_string set \<Rightarrow> RewrapGroupKeyRequest \<Rightarrow> call set \<Rightarrow> bool" where
  "rewrap_allowed n P self groupId exclude req H \<longleftrightarrow>
     (\<exists>detail own left_out. run_basis P self groupId exclude detail own left_out H
        \<and> rw_userId req = self \<and> rw_groupId req = groupId \<and> rw_ownGeneration req = ge_generation detail
        \<and> ge_wrappedGroupKey detail = Some (rw_ownWrappedGroupKey req) \<and> rw_recipients req \<noteq> []
        \<and> (\<forall>(i, key)\<in>set (rw_recipients req). i \<noteq> self \<and> i \<notin> left_out
             \<and> listed_behind groupId (ge_generation detail) i H
             \<and> cleared_recipient n P self own groupId (ge_generation detail) i key H))"

definition completion_allowed ::
  "prims \<Rightarrow> js_string \<Rightarrow> js_string \<Rightarrow> js_string set \<Rightarrow> int \<Rightarrow> call set \<Rightarrow> bool" where
  "completion_allowed P self groupId exclude generation H \<longleftrightarrow>
     (\<exists>detail own left_out members. run_basis P self groupId exclude detail own left_out H
        \<and> gd_rotation detail \<noteq> None \<and> generation = ge_generation detail \<and> ReadMembers groupId (Inr members) \<in> H
        \<and> (\<forall>m\<in>set members. generation \<le> re_generation m \<or> re_userId m = self \<or> re_userId m \<in> left_out))"

definition rotation_call ::
  "nat \<Rightarrow> prims \<Rightarrow> js_string \<Rightarrow> js_string \<Rightarrow> js_string set \<Rightarrow> call set \<Rightarrow> call \<Rightarrow> bool" where
  "rotation_call n P self groupId exclude H c \<longleftrightarrow> (case c of
     StorePin i sent w e r \<Rightarrow> first_sight i sent w e H
   | WriteAnchorPin g pin r \<Rightarrow> anchor_checked n P self g pin H
   | AskRewrap req r \<Rightarrow> rewrap_allowed n P self groupId exclude req H
   | SendRewrap g generation wraps r \<Rightarrow>
       (\<exists>req. AskRewrap req (Inr wraps) \<in> H \<and> g = rw_groupId req \<and> generation = rw_ownGeneration req)
   | SendComplete g generation r \<Rightarrow> g = groupId \<and> completion_allowed P self groupId exclude generation H
   | AskRotationStart req r \<Rightarrow>
       (\<exists>detail. leave_basis n P self groupId detail (sg_subjectUserId req) H
          \<and> sg_userId req = self \<and> sg_groupId req = groupId \<and> sg_ownGeneration req = ge_generation detail
          \<and> ge_wrappedGroupKey detail = Some (sg_ownWrappedGroupKey req))
   | AskWrapRecord req r \<Rightarrow>
       wq_userId req = self \<and> wq_memberUserId req = self \<and> wq_groupId req = groupId
       \<and> (\<exists>sg minted. AskRotationStart sg (Inr minted) \<in> H \<and> wq_generation req = rs_generation minted)
   | SendTakeOver g req r \<Rightarrow>
       g = groupId \<and> (\<exists>sg minted. AskRotationStart sg (Inr minted) \<in> H \<and> to_generation req = rs_generation minted
          \<and> to_link req = rs_link minted \<and> to_wrappedKey req = rs_removerWrappedKey minted
          \<and> to_startSignature req = rs_startSignature minted)
   | _ \<Rightarrow> is_read c)"

lemma leave_last [lasting_intro]:
  "lasting (leaver_trusted n P self own groupId generation marker leaver)"
  "lasting (leave_basis n P self groupId detail leaver)"
  unfolding leave_basis_def [abs_def] leaver_trusted_def [abs_def] by (intro lasting_intro)+

abbreviation trusted_unless :: "(call set \<Rightarrow> bool) \<Rightarrow> js_string option \<Rightarrow> call set \<Rightarrow> bool" where
  "trusted_unless F reason H \<equiv> reason = None \<longrightarrow> F H"

text \<open>What a pass knows of its setting, of the pins it reads and of the members it works on.\<close>

definition setting_known ::
  "prims \<Rightarrow> js_string \<Rightarrow> js_string \<Rightarrow> js_string set \<Rightarrow> RunSetting \<Rightarrow> call set \<Rightarrow> bool" where
  "setting_known P self groupId exclude X H \<longleftrightarrow>
     (\<exists>detail. run_basis P self groupId exclude detail (rx_own X) (rx_exclude X) H \<and> rx_groupId X = groupId
        \<and> rx_ownGeneration X = ge_generation detail \<and> ge_wrappedGroupKey detail = Some (rx_ownWrappedGroupKey X)
        \<and> rx_marker X = gd_rotation detail)"

definition pins_known :: "(js_string \<rightharpoonup> PinRecord) \<Rightarrow> call set \<Rightarrow> bool" where
  "pins_known pm H \<longleftrightarrow> (\<exists>ps. ReadPins (Inr ps) \<in> H \<and> pm = pin_map ps)"

definition served_known :: "(js_string \<rightharpoonup> UserProjection) \<Rightarrow> call set \<Rightarrow> bool" where
  "served_known served H \<longleftrightarrow> (\<forall>i u. served i = Some u \<longrightarrow> served_in i u H)"

definition admissions_checked :: "nat \<Rightarrow> prims \<Rightarrow> js_string \<Rightarrow> RunSetting \<Rightarrow> AdmissionContext option \<Rightarrow> call set \<Rightarrow> bool" where
  "admissions_checked n P self X admissions H \<longleftrightarrow>
     (\<forall>ctx. admissions = Some ctx \<longrightarrow> context_verified n P self (rx_own X) (rx_groupId X) (rx_ownGeneration X) ctx H)"

definition recipients_cleared :: "nat \<Rightarrow> prims \<Rightarrow> js_string \<Rightarrow> RunSetting \<Rightarrow> (js_string \<times> js_string) list \<Rightarrow> call set \<Rightarrow> bool" where
  "recipients_cleared n P self X recipients H \<longleftrightarrow>
     (\<forall>x\<in>set recipients. cleared_recipient n P self (rx_own X) (rx_groupId X) (rx_ownGeneration X) (fst x) (snd x) H)"

definition members_listed :: "js_string \<Rightarrow> RunSetting \<Rightarrow> RosterEntry list \<Rightarrow> call set \<Rightarrow> bool" where
  "members_listed self X members H \<longleftrightarrow>
     (\<forall>m\<in>set members. re_userId m \<noteq> self \<and> re_userId m \<notin> rx_exclude X
        \<and> listed_behind (rx_groupId X) (rx_ownGeneration X) (re_userId m) H)"

lemma pass_last [lasting_intro]:
  "lasting (setting_known P self groupId exclude X)" "lasting (pins_known pm)" "lasting (served_known served)"
  "lasting (admissions_checked n P self X admissions)" "lasting (recipients_cleared n P self X recipients)"
  "lasting (members_listed self X members)"
  unfolding setting_known_def [abs_def] pins_known_def [abs_def] served_known_def [abs_def]
    admissions_checked_def [abs_def] recipients_cleared_def [abs_def] members_listed_def [abs_def]
  by (intro lasting_intro)+

abbreviation chunk_scanned ::
  "nat \<Rightarrow> prims \<Rightarrow> js_string \<Rightarrow> RunSetting \<Rightarrow> js_string set
   \<Rightarrow> RunState \<times> AdmissionContext option \<times> (js_string \<times> js_string) list \<Rightarrow> call set \<Rightarrow> bool" where
  "chunk_scanned n P self X ids \<equiv> \<lambda>(S, admissions, recipients) H.
     admissions_checked n P self X admissions H \<and> recipients_cleared n P self X recipients H \<and> (\<forall>x\<in>set recipients. fst x \<in> ids)"

text \<open>The fresh start, where the run has one left.\<close>

definition restart_allowed ::
  "(call set \<Rightarrow> call \<Rightarrow> bool) \<Rightarrow> js_string set
   \<Rightarrow> (int \<Rightarrow> js_string set \<Rightarrow> (call, thrown + RotationOutcome) flow) option \<Rightarrow> bool" where
  "restart_allowed J exclude again \<longleftrightarrow>
     (\<forall>f c ex. again = Some f \<longrightarrow> exclude \<subseteq> ex \<longrightarrow> quiet J (f c ex))"

lemma cleared_by:
  "context_verified n P self own groupId g ctx H \<Longrightarrow> admitted_in P groupId ctx i u \<Longrightarrow> served_in i u H
   \<Longrightarrow> up_wrappingPublicKey u = key \<Longrightarrow> pin_cleared P self own i u H
   \<Longrightarrow> cleared_recipient n P self own groupId g i key H"
  unfolding cleared_recipient_def admission_verified_def by blast

locale rotation_checks =
  fixes J :: "call set \<Rightarrow> call \<Rightarrow> bool" and n :: nat and P :: prims and self :: js_string
    and groupId :: js_string and exclude :: "js_string set"
  assumes allowed: "rotation_call n P self groupId exclude H c \<Longrightarrow> J H c"

sublocale rotation_checks \<subseteq> key_checks J n P self
proof unfold_locales
  show "is_read c \<Longrightarrow> J H c" for c H
    by (rule allowed) (cases c; simp add: rotation_call_def is_read_def)
qed (rule allowed, simp add: rotation_call_def)+

context rotation_checks
begin

section \<open>Taking over a leave\<close>

lemma leaver_by_pin:
  "mk_startSignature marker = Some s \<Longrightarrow> base64ToBytes s = Some signature
   \<Longrightarrow> rotationStartPayload groupId (mk_startedBy marker) leaver (mk_generation marker) = Inr payload
   \<Longrightarrow> served_in leaver u H \<Longrightarrow> ReadPins (Inr ps) \<in> H \<Longrightarrow> own_history own history H
   \<Longrightarrow> pin_verdict P self own history leaver (List.find (\<lambda>p. pr_pinnedUserId p = leaver) ps) u = Match
   \<Longrightarrow> leaver_trusted n P self own groupId g marker leaver H"
  unfolding leaver_trusted_def
  by (rule exI [of _ s], rule exI [of _ signature], rule exI [of _ payload], rule exI [of _ u]) auto

lemma leaver_is_creator:
  "mk_startSignature marker = Some s \<Longrightarrow> base64ToBytes s = Some signature
   \<Longrightarrow> rotationStartPayload groupId (mk_startedBy marker) leaver (mk_generation marker) = Inr payload
   \<Longrightarrow> served_in leaver u H \<Longrightarrow> context_verified n P self own groupId g ctx H
   \<Longrightarrow> leaver = an_creatorUserId (vc_anchor (ax_chain ctx)) \<Longrightarrow> ax_removedAt ctx leaver = None
   \<Longrightarrow> base64ToBytes (an_creatorSigningPublicKey (vc_anchor (ax_chain ctx))) = Some k
   \<Longrightarrow> verify P k RotationStart payload signature \<Longrightarrow> leaver_trusted n P self own groupId g marker leaver H"
  unfolding leaver_trusted_def
  by (rule exI [of _ s], rule exI [of _ signature], rule exI [of _ payload], rule exI [of _ u]) auto

lemma leaver_admitted:
  "mk_startSignature marker = Some s \<Longrightarrow> base64ToBytes s = Some signature
   \<Longrightarrow> rotationStartPayload groupId (mk_startedBy marker) leaver (mk_generation marker) = Inr payload
   \<Longrightarrow> served_in leaver u H \<Longrightarrow> context_verified n P self own groupId g ctx H
   \<Longrightarrow> admitted_in P groupId ctx leaver u \<Longrightarrow> leaver_signers ctx leaver = Some keys
   \<Longrightarrow> list_ex (\<lambda>k. verify P k RotationStart payload signature) keys
   \<Longrightarrow> leaver_trusted n P self own groupId g marker leaver H"
  unfolding leaver_trusted_def list_ex_iff
  by (rule exI [of _ s], rule exI [of _ signature], rule exI [of _ payload], rule exI [of _ u]) auto

lemma first_sight_leaver_trusted:
  fixes D :: "'d RotationDeps_scheme"
  assumes "selfUserId D = self" "mk_startSignature marker = Some s" "base64ToBytes s = Some signature"
    "rotationStartPayload groupId (mk_startedBy marker) leaver (mk_generation marker) = Inr payload"
  shows "meets J (served_in leaver u)
     (check_first_sight_leaver n P D own groupId g leaver u (list_ex (\<lambda>k. verify P k RotationStart payload signature)))
     (on_ok (trusted_unless (leaver_trusted n P self own groupId g marker leaver)))"
  unfolding check_first_sight_leaver_def
proof (intro meets_await_ok [OF _ admissions_known [OF assms(1)]] meets_sum meets_if meets_give, goal_cases)
  case (3 r ctx)
  then show ?case
    by (intro meets_await_ok [OF _ meets_lift_ok] meets_give lasting_intro)
      (use assms(2-4) in \<open>auto simp: leaver_refused_def intro: leaver_is_creator split: if_splits\<close>)
next
  case (4 r ctx)
  show ?case
  proof (rule meets_bind [OF _ meets_pre [OF admission_known [where own = own and g = g]]], goal_cases)
    case (3 x)
    show ?case
    proof (intro meets_sum meets_prod meets_if meets_give meets_await_ok [OF _ meets_lift_ok], goal_cases)
      case (4 y ok ctx' keys H)
      then show ?case
        by (auto simp: leaver_refused_def intro: leaver_admitted [OF assms(2-4)] split: if_splits)
    qed (auto intro!: lasting_intro simp: leaver_refused_def split: prod.splits)
  qed (use \<open>r = Inr ctx\<close> in \<open>auto intro!: lasting_intro\<close>)
qed (auto intro!: lasting_intro)

lemma leaver_known:
  fixes D :: "'d RotationDeps_scheme"
  assumes "selfUserId D = self" "mk_removedUserId marker = Some leaver"
  shows "meets J A (checkLeaverKey n P D own groupId g marker)
     (on_ok (trusted_unless (leaver_trusted n P self own groupId g marker leaver)))"
proof -
  have "meets J (\<lambda>H. True) (checkLeaverKey n P D own groupId g marker)
     (on_ok (trusted_unless (leaver_trusted n P self own groupId g marker leaver)))"
  proof (cases "mk_startSignature marker")
    case None
    then show ?thesis unfolding checkLeaverKey_def by (simp add: assms(2)) (rule meets_give, simp)
  next
    case (Some s)
    show ?thesis
      unfolding checkLeaverKey_def assms(2) Some prod.case option.case Let_def assms(1)
    proof (intro meets_await_ok [OF _ meets_lift_ok] meets_await_ok [OF _ meets_lift_result_ok]
        meets_attempt_ok [where B = "\<lambda>(served, ps) H. ReadPins (Inr ps) \<in> H \<and> (\<forall>u. served = Some u \<longrightarrow> served_in leaver u H)"],
        goal_cases)
      case (4 signature payload)
      show ?case
        by (intro meets_await_ok [OF _ meets_read_ok] meets_prod meets_give)
          (auto intro!: lasting_intro simp: is_read_def served_in_def dest: map_of_SomeD)
    next
      case (6 signature payload x)
      obtain served ps where x: "x = (served, ps)" by (cases x)
      show ?case
      proof (cases "base64ToBytes s = Some signature
          \<and> rotationStartPayload groupId (mk_startedBy marker) leaver (mk_generation marker) = Inr payload")
        case True
        note ok = first_sight_leaver_trusted [OF assms(1) Some conjunct1 [OF True] conjunct2 [OF True]]
        show ?thesis
        proof (cases served)
          case None
          then show ?thesis unfolding x by simp (rule meets_give, simp add: leaver_refused_def)
        next
          case (Some u)
          have pinned: "leaver_trusted n P self own groupId g marker leaver H"
            if "served_in leaver u H" "ReadPins (Inr ps) \<in> H" "own_history own history H"
              "pin_verdict P self own history leaver (List.find (\<lambda>p. pr_pinnedUserId p = leaver) ps) u = Match" for history H
            using that True \<open>mk_startSignature marker = Some s\<close> by (intro leaver_by_pin) auto
          have branch: "meets J
             (\<lambda>H. (served_in leaver u H \<and> ReadPins (Inr ps) \<in> H) \<and> own_history own history H)
             (case pin_verdict P self own history leaver (List.find (\<lambda>p. pr_pinnedUserId p = leaver) ps) u of
                Match \<Rightarrow> give (Inr None)
              | FirstSight \<Rightarrow> check_first_sight_leaver n P D own groupId g leaver u (list_ex (\<lambda>k. verify P k RotationStart payload signature))
              | _ \<Rightarrow> give (Inr (leaver_refused ''their keys do not match your pin'')))
             (on_ok (trusted_unless (leaver_trusted n P self own groupId g marker leaver)))" for history
            by (cases "pin_verdict P self own history leaver (List.find (\<lambda>p. pr_pinnedUserId p = leaver) ps) u")
              (auto intro!: meets_give meets_pre [OF ok] pinned simp: leaver_refused_def)
          show ?thesis
            unfolding x Some prod.case option.case
            by (rule meets_pre [OF meets_bind [OF _ own_history_found branch]]) (auto intro!: lasting_intro)
        qed
      qed (auto simp: meets_def)
    qed (auto intro!: lasting_intro meets_give)
  qed
  then show ?thesis by (rule meets_pre) simp
qed

text \<open>The wrap record of what was minted, and the takeover it is sent with.\<close>

lemma record_justified:
  "AskRotationStart sg (Inr minted) \<in> H \<Longrightarrow> J H (AskWrapRecord \<lparr>wq_userId = self, wq_groupId = groupId, wq_memberUserId = self,
     wq_generation = rs_generation minted, wq_keyEpoch = e, wq_reason = w\<rparr> r)"
  by (rule allowed) (auto simp: rotation_call_def)

lemma record_for_minted:
  assumes "selfUserId D = self"
  shows "meets J (\<lambda>H. AskRotationStart sg (Inr minted) \<in> H)
     (ownWrapRecord (selfUserId D) getter signer groupId (rs_generation minted)) (\<lambda>r H. True)"
  unfolding ownWrapRecord_def wrapRecordFor_def assms
  by (intro meets_option meets_prod meets_give meets_attempt_ok [OF _ meets_read_ok]
      meets_attempt [OF _ meets_ask])
    (auto intro!: lasting_intro record_justified simp: is_read_def)

lemma take_over_allowed:
  assumes "selfUserId D = self"
    and ok: "\<And>H r. A H \<Longrightarrow> J H (AskRotationStart req r)"
    and "lasting A"
  shows "meets J A (take_over_attempts k D groupId req carried) (\<lambda>r H. True)"
proof -
  have body: "meets J A
     (await (ask_take_over D req) (\<lambda>minted. do {
         fields \<leftarrow> ownWrapRecord (selfUserId D) (getUserDetail D) (signWrapRecord D) groupId (rs_generation minted);
         sendWithRecord fields (\<lambda>f. send_take_over D groupId
           \<lparr>to_generation = rs_generation minted, to_link = rs_link minted, to_wrappedKey = rs_removerWrappedKey minted,
            to_startSignature = rs_startSignature minted, to_record = f\<rparr>)
       })) (\<lambda>r H. True)"
  proof (rule meets_await [OF assms(3) meets_ask], goal_cases)
    case (3 minted)
    let ?minted = "\<lambda>H. AskRotationStart req (Inr minted) \<in> H"
    have sent: "meets J ?minted
       (send_take_over D groupId \<lparr>to_generation = rs_generation minted, to_link = rs_link minted,
          to_wrappedKey = rs_removerWrappedKey minted, to_startSignature = rs_startSignature minted, to_record = f\<rparr>)
       (\<lambda>r H. True)" for f
      by (rule meets_post [OF meets_ask], rule allowed) (auto simp: rotation_call_def)
    show ?case
      by (intro meets_pre [OF meets_bind [OF _ record_for_minted [OF assms(1), where sg = req and minted = minted]], where A' = "\<lambda>H. A H \<and> ?minted H"]
          send_either meets_pre [OF sent] lasting_intro) simp_all
  qed (use ok in simp_all)
  show ?thesis
  proof (induction k)
    case 0
    show ?case
      by (subst take_over_attempts.simps, intro meets_attempt [OF assms(3) body] meets_if meets_give, simp_all)
         (rule meets_give, simp)
  next
    case (Suc k)
    then show ?case
      by (subst take_over_attempts.simps, intro meets_attempt [OF assms(3) body] meets_if meets_give) (auto elim: meets_pre)
  qed
qed

lemma take_over_known:
  fixes D :: "'d RotationDeps_scheme"
  assumes "selfUserId D = self" "gd_rotation detail = Some marker" "mk_generation marker = ge_generation detail + 1"
    "mk_removedUserId marker = Some (mk_startedBy marker)" "ge_role detail = js ''admin''"
    "ge_visibility detail = js ''private''"
  shows "meets J (\<lambda>H. ReadGroup groupId (Inr detail) \<in> H)
     (takeOverLeave n P D groupId detail marker carried) (\<lambda>r H. True)"
proof (cases "ge_wrappedGroupKey detail")
  case None
  then show ?thesis unfolding takeOverLeave_def by simp (rule meets_give, simp)
next
  case (Some wrapped)
  have minting: "J H (AskRotationStart \<lparr>sg_userId = self, sg_groupId = groupId,
      sg_ownWrappedGroupKey = wrapped, sg_ownGeneration = ge_generation detail, sg_subjectUserId = mk_startedBy marker\<rparr> r)"
    if "ReadGroup groupId (Inr detail) \<in> H" "own_key own H" "start_verified P self own groupId marker (Some (mk_startedBy marker)) H"
      "leaver_trusted n P self own groupId (ge_generation detail) marker (mk_startedBy marker) H" for own H r
    by (rule allowed) (use that assms Some in \<open>auto simp: rotation_call_def leave_basis_def\<close>)
  have names: "start_verified P self own groupId marker (Some removed) H \<Longrightarrow> removed = mk_startedBy marker" for own removed H
    using assms(4) by (auto simp: start_verified_def split: option.splits)
  show ?thesis
    unfolding takeOverLeave_def Some option.case
  proof (rule meets_attempt_ok [OF _ own_key_ok], goal_cases)
    case (3 own)
    show ?case
    proof (rule meets_await [OF _ start_known [OF assms(1)]], goal_cases)
      case (3 started)
      show ?case
      proof (intro meets_sum meets_option meets_give meets_await [OF _ leaver_known [OF assms(1,4)]], goal_cases)
        case (5 r removed trusted)
        show ?case
        proof (rule meets_bind [OF _ take_over_allowed [OF assms(1)] meets_give], goal_cases)
          case (2 H q)
          with 5 show ?case
            by (auto intro!: minting simp: assms(1) dest: names)
        qed (auto intro!: lasting_intro)
      qed (auto intro!: lasting_intro)
    qed (auto intro!: lasting_intro)
  qed (auto intro!: lasting_intro meets_give)
qed

section \<open>The passes of a run\<close>

lemma admit_known:
  fixes D :: "'d RotationDeps_scheme"
  assumes "selfUserId D = self"
  shows "meets J (admissions_checked n P self X admissions)
     (admit n P D X S admissions i u)
     (on_ok (on_ok (\<lambda>(ok, ctx) H. admissions_checked n P self X (Some ctx) H \<and> (ok \<longrightarrow> admitted_in P (rx_groupId X) ctx i u))))"
proof -
  let ?known = "context_verified n P self (rx_own X) (rx_groupId X) (rx_ownGeneration X)"
  have loaded: "meets J (admissions_checked n P self X admissions)
     (case admissions of
         Some ctx \<Rightarrow> give (Inr (Inr ctx))
       | None \<Rightarrow> await (loadAdmissions n P D (rx_own X) (rx_groupId X) (rx_ownGeneration X)) (\<lambda>loaded.
           give (Inr (case loaded of Inl reason \<Rightarrow> Inl (Incomplete reason (ry_rewrapped S)) | Inr ctx \<Rightarrow> Inr ctx))))
     (on_ok (on_ok ?known))"
    by (intro meets_option meets_give meets_await_ok [OF _ admissions_known [OF assms]])
      (auto simp: admissions_checked_def on_ok_def intro!: lasting_intro split: sum.splits)
  show ?thesis
    unfolding admit_def
  proof (rule meets_proceed_ok [OF _ loaded], goal_cases)
    case (2 ctx)
    show ?case
      by (rule meets_pre [OF meets_bind [OF _ admission_known [where own = "rx_own X" and g = "rx_ownGeneration X"] meets_give]])
        (auto intro!: lasting_intro simp: on_ok_def admissions_checked_def split: sum.splits)
  qed (intro lasting_intro)
qed

lemma recipient_checked:
  fixes D :: "'d RotationDeps_scheme"
  assumes "selfUserId D = self"
  shows "meets J (\<lambda>H. pins_known pm H \<and> (\<forall>u. served = Some u \<longrightarrow> served_in i u H))
     (checkRecipient P D own pm i served failure)
     (\<lambda>v H. \<forall>key. v = Cleared key \<longrightarrow>
        (\<exists>u. served = Some u \<and> up_wrappingPublicKey u = key \<and> pin_cleared P self own i u H))"
proof (cases served)
  case None
  then show ?thesis unfolding checkRecipient_def by simp (rule meets_give, simp)
next
  case (Some u)
  let ?A = "\<lambda>H. pins_known pm H \<and> served_in i u H"
  have last: "lasting ?A" "lasting (\<lambda>H. ?A H \<and> own_history own history H)" for history by (intro lasting_intro)+
  have pinned: "pin_cleared P self own i u H"
    if "?A H" "own_history own history H" "pin_verdict P self own history i (pm i) u = Match" for history H
  proof -
    from that(3) have "pm i \<noteq> None" using pin_verdict_first_sight [of P self own history i "pm i" u] by auto
    moreover from that(1) obtain ps where "ReadPins (Inr ps) \<in> H" "pm = pin_map ps" by (auto simp: pins_known_def)
    ultimately show ?thesis
      unfolding pin_cleared_def using that by (intro exI [of _ ps]) auto
  qed
  have first: "J H
       (StorePin i (map bytesToBase64 keys) (up_wrappingPublicKey u) (up_keyEpoch u) r)"
    if "?A H" "pm i = None" "servedSigningKeySet (served_keys u) = Some keys" for H keys r
    by (rule pins) (use that in \<open>auto simp: first_sight_def pins_known_def\<close>)
  have stored: "pin_cleared P self own i u H"
    if "?A H" "pm i = None" "servedSigningKeySet (served_keys u) = Some keys"
      "StorePin i (map bytesToBase64 keys) (up_wrappingPublicKey u) (up_keyEpoch u) (Inr ()) \<in> H" for H keys
  proof -
    from that(1) obtain ps where "ReadPins (Inr ps) \<in> H" "pm = pin_map ps" by (auto simp: pins_known_def)
    with that show ?thesis
      unfolding pin_cleared_def by (intro exI [of _ ps]) auto
  qed
  have branch: "meets J (\<lambda>H. ?A H \<and> own_history own history H)
     (case pin_verdict P self own history i (pm i) u of
        Match \<Rightarrow> give (Cleared (up_wrappingPublicKey u))
      | FirstSight \<Rightarrow>
          (case servedSigningKeySet (served_keys u) of
             None \<Rightarrow> give (RecipientBlocked False)
           | Some keys \<Rightarrow>
               attempt (store_pin D i (map bytesToBase64 keys) (up_wrappingPublicKey u) (up_keyEpoch u))
                 (\<lambda>err. give (RecipientUnavailable (js ''could not pin '' @ i @ js '': '' @ thrown_message err)))
                 (\<lambda>_. give (Cleared (up_wrappingPublicKey u))))
      | v \<Rightarrow> give (RecipientBlocked (v = Mismatch)))
     (\<lambda>v H. \<forall>key. v = Cleared key \<longrightarrow> up_wrappingPublicKey u = key \<and> pin_cleared P self own i u H)" for history
  proof (cases "pin_verdict P self own history i (pm i) u")
    case FirstSight
    then have "pm i = None" by (simp add: pin_verdict_first_sight)
    then show ?thesis
      unfolding FirstSight PinVerdict.case
      by (intro meets_option meets_give meets_attempt [OF last(2) meets_ask]) (auto intro!: first stored)
  qed (auto intro!: meets_give pinned)
  show ?thesis
    unfolding checkRecipient_def Some option.case assms
    by (rule meets_weaken [OF meets_bind [OF last(1) own_history_found branch]]) auto
qed

lemma scan_chunk_known:
  fixes D :: "'d RotationDeps_scheme"
  assumes "selfUserId D = self" "re_userId ` set ms \<subseteq> ids"
  shows "meets J
     (\<lambda>H. pins_known pm H \<and> served_known served H \<and> admissions_checked n P self X admissions H
        \<and> recipients_cleared n P self X recipients H \<and> (\<forall>x\<in>set recipients. fst x \<in> ids))
     (scan_chunk n P D X pm served failure ms S admissions recipients)
     (on_ok (on_ok (chunk_scanned n P self X ids)))"
  using assms(2)
proof (induction ms arbitrary: S admissions recipients)
  case Nil
  show ?case by (simp, rule meets_give) simp
next
  case (Cons m ms)
  let ?i = "re_userId m"
  let ?A = "\<lambda>H. pins_known pm H \<and> served_known served H \<and> admissions_checked n P self X admissions H
        \<and> recipients_cleared n P self X recipients H \<and> (\<forall>x\<in>set recipients. fst x \<in> ids)"
  let ?B = "\<lambda>(ok, admissions') H. admissions_checked n P self X admissions' H
        \<and> (ok \<longrightarrow> (\<forall>u. served ?i = Some u \<longrightarrow> (\<exists>ctx. admissions' = Some ctx \<and> admitted_in P (rx_groupId X) ctx ?i u)))"
  have last: "lasting ?A" by (intro lasting_intro)
  note IH = Cons.IH [THEN meets_pre]
  have admitted: "meets J ?A
     (case served ?i of
         None \<Rightarrow> give (Inr (Inr (True, admissions)))
       | Some u \<Rightarrow> proceed (admit n P D X S admissions ?i u) (\<lambda>(ok, ctx). give (Inr (Inr (ok, Some ctx)))))
     (on_ok (on_ok ?B))"
    by (intro meets_option meets_give meets_proceed_ok [OF last meets_pre [OF admit_known [OF assms(1)]]] meets_prod)
      auto
  show ?case
    unfolding scan_chunk.simps
  proof (rule meets_proceed_ok [OF last admitted], goal_cases)
    case (1 x)
    obtain ok adm where x: "x = (ok, adm)" by (cases x)
    show ?case
    proof (cases ok)
      case False
      with Cons.prems show ?thesis
        unfolding x by simp (rule IH, auto)
    next
      case True
      have cleared: "recipients_cleared n P self X (recipients @ [(?i, key)]) H"
        if "?A H" "?B (True, adm) H" "served ?i = Some u" "up_wrappingPublicKey u = key" "pin_cleared P self (rx_own X) ?i u H"
        for H u key
        using that by (auto simp: recipients_cleared_def served_known_def admissions_checked_def intro!: cleared_by)
      show ?thesis
        unfolding x prod.case
      proof (rule meets_if, simp add: True, rule meets_bind [OF _ recipient_checked [OF assms(1), THEN meets_pre]], goal_cases)
        case (3 v)
        show ?case
          using Cons.prems True
          by (cases v) (auto intro!: meets_give IH cleared)
      qed (auto intro!: lasting_intro simp: served_known_def)
    qed
  qed
qed

lemma rewrap_justified:
  assumes "setting_known P self groupId exclude X H" "recipients_cleared n P self X recipients H"
    "members_listed self X members H" "\<forall>x\<in>set recipients. fst x \<in> re_userId ` set members" "recipients \<noteq> []"
  shows "J H (AskRewrap
     \<lparr>rw_userId = self, rw_groupId = rx_groupId X, rw_ownWrappedGroupKey = rx_ownWrappedGroupKey X,
      rw_ownGeneration = rx_ownGeneration X, rw_recipients = recipients\<rparr> r)"
proof -
  from assms(1) obtain detail where detail: "run_basis P self groupId exclude detail (rx_own X) (rx_exclude X) H"
    "rx_groupId X = groupId" "rx_ownGeneration X = ge_generation detail"
    "ge_wrappedGroupKey detail = Some (rx_ownWrappedGroupKey X)" by (auto simp: setting_known_def)
  have "i \<noteq> self \<and> i \<notin> rx_exclude X \<and> listed_behind groupId (ge_generation detail) i H
      \<and> cleared_recipient n P self (rx_own X) groupId (ge_generation detail) i key H" if "(i, key) \<in> set recipients" for i key
    using that assms(2-4) detail by (fastforce simp: recipients_cleared_def members_listed_def)
  with detail assms(5) have "rewrap_allowed n P self groupId exclude
     \<lparr>rw_userId = self, rw_groupId = rx_groupId X, rw_ownWrappedGroupKey = rx_ownWrappedGroupKey X,
      rw_ownGeneration = rx_ownGeneration X, rw_recipients = recipients\<rparr> H"
    by (auto simp: rewrap_allowed_def intro!: exI [of _ detail] exI [of _ "rx_own X"] exI [of _ "rx_exclude X"])
  then show ?thesis by (intro allowed) (simp add: rotation_call_def)
qed

lemma run_chunks_allowed:
  fixes D :: "'d RotationDeps_scheme"
  assumes "selfUserId D = self"
  shows "meets J
     (\<lambda>H. setting_known P self groupId exclude X H \<and> pins_known pm H \<and> admissions_checked n P self X admissions H
        \<and> (\<forall>chunk\<in>set chunks. members_listed self X chunk H))
     (run_chunks n P D X pm chunks S admissions) (\<lambda>r H. True)"
proof (induction chunks arbitrary: S admissions)
  case Nil
  show ?case by (simp, rule meets_give) simp
next
  case (Cons chunk chunks)
  let ?A = "\<lambda>H. setting_known P self groupId exclude X H \<and> pins_known pm H \<and> admissions_checked n P self X admissions H
        \<and> (\<forall>chunk\<in>set (chunk # chunks). members_listed self X chunk H)"
  have last: "lasting ?A" by (intro lasting_intro)
  note IH = meets_pre [OF Cons.IH]
  show ?case
    unfolding run_chunks.simps
  proof (rule meets_await [OF last meets_read_ok], simp add: is_read_def, simp, goal_cases)
    case (1 x)
    obtain served failure where x: "x = (served, failure)" by (cases x)
    have served: "lasting (\<lambda>H. ?A H \<and> served_known (map_of served) H)" by (intro lasting_intro)
    have scanned: "meets J (\<lambda>H. ?A H \<and> served_known (map_of served) H)
       (scan_chunk n P D X pm (map_of served) failure chunk S admissions [])
       (on_ok (on_ok (chunk_scanned n P self X (re_userId ` set chunk))))"
      by (rule meets_pre [OF scan_chunk_known [OF assms order_refl]]) (simp add: recipients_cleared_def)
    have "meets J (\<lambda>H. ?A H \<and> served_known (map_of served) H)
      (proceed (scan_chunk n P D X pm (map_of served) failure chunk S admissions []) (\<lambda>(S', admissions', recipients).
       if recipients = [] then run_chunks n P D X pm chunks S' admissions'
       else attempt (await (ask_rewrap D
                \<lparr>rw_userId = selfUserId D, rw_groupId = rx_groupId X, rw_ownWrappedGroupKey = rx_ownWrappedGroupKey X,
                 rw_ownGeneration = rx_ownGeneration X, rw_recipients = recipients\<rparr>)
                (send_rewrap D (rx_groupId X) (rx_ownGeneration X)))
         (\<lambda>err. if has_code ''member_changed'' err \<or> has_code ''conflict_retry'' err then give (Inr (Inr (NextPass S')))
                else if has_code ''rotation_not_active'' err \<and> \<not> rx_restarted X
                then give (Inr (Inr (StartOver (ry_rewrapped S'))))
                else give (Inr (Inl (Incomplete (thrown_message err) (ry_rewrapped S')))))
         (\<lambda>_. run_chunks n P D X pm chunks
                (S'\<lparr>ry_rewrapped := ry_rewrapped S' + int (length recipients)\<rparr>) admissions'))) (\<lambda>r H. True)"
    proof (rule meets_proceed [OF served scanned], simp, simp, goal_cases)
      case (1 y)
      obtain S' adm recipients where y: "y = (S', adm, recipients)" by (cases y)
      show ?case
        unfolding y prod.case assms
      proof (intro meets_if IH meets_attempt [where B = "\<lambda>r H. True"] meets_await [OF _ meets_ask] meets_give, goal_cases)
        case (4 H r)
        then show ?case by (intro rewrap_justified [where members = chunk]) auto
      next
        case (6 wraps)
        show ?case
          by (rule meets_post [OF meets_ask], rule allowed) (auto simp: rotation_call_def)
      qed (auto intro!: lasting_intro)
    qed
    then show ?case
      unfolding x prod.case
      by (rule meets_pre) (auto simp: served_known_def served_in_def dest: map_of_SomeD)
  qed
qed

lemma chunks_subset: "chunk \<in> set (chunks_of k xs) \<Longrightarrow> set chunk \<subseteq> set xs"
proof (induction k xs rule: chunks_of.induct)
  case (2 k x xs)
  then show ?case
    using set_take_subset [of "max 1 k" "x # xs"] set_drop_subset [of "max 1 k" "x # xs"] by auto
qed simp

lemma behind_members:
  "set (members_behind D X S members) = {m \<in> set members. re_userId m \<noteq> selfUserId D \<and> re_generation m < rx_ownGeneration X
     \<and> re_userId m \<notin> set (ry_blocked S) \<and> re_userId m \<notin> set (ry_unadmitted S) \<and> re_userId m \<notin> rx_exclude X}"
  unfolding members_behind_def adminsFirst_def by auto

lemma behind_listed:
  assumes "selfUserId D = self" "setting_known P self groupId exclude X H" "ReadMembers (rx_groupId X) (Inr members) \<in> H"
    "chunk \<in> set (chunks_of k (members_behind D X S members))"
  shows "members_listed self X chunk H"
  unfolding members_listed_def
proof
  fix m
  assume "m \<in> set chunk"
  with chunks_subset [OF assms(4)] have "m \<in> set (members_behind D X S members)" by blast
  then have m: "m \<in> set members" "re_userId m \<noteq> self" "re_generation m < rx_ownGeneration X" "re_userId m \<notin> rx_exclude X"
    by (simp_all add: behind_members assms(1))
  with assms(3) have "listed_behind (rx_groupId X) (rx_ownGeneration X) (re_userId m) H"
    unfolding listed_behind_def by blast
  with m show "re_userId m \<noteq> self \<and> re_userId m \<notin> rx_exclude X \<and> listed_behind (rx_groupId X) (rx_ownGeneration X) (re_userId m) H"
    by simp
qed

lemma completion_justified:
  assumes "selfUserId D = self" "setting_known P self groupId exclude X H" "ReadMembers (rx_groupId X) (Inr members) \<in> H"
    "members_behind D X S members = []" "ry_blocked S = []" "ry_unadmitted S = []" "rx_marker X \<noteq> None"
  shows "J H (SendComplete (rx_groupId X) (rx_ownGeneration X) r)"
proof -
  from assms(2) obtain detail where detail: "run_basis P self groupId exclude detail (rx_own X) (rx_exclude X) H"
    "rx_groupId X = groupId" "rx_ownGeneration X = ge_generation detail" "rx_marker X = gd_rotation detail"
    by (auto simp: setting_known_def)
  have "\<forall>m\<in>set members. rx_ownGeneration X \<le> re_generation m \<or> re_userId m = self \<or> re_userId m \<in> rx_exclude X"
  proof
    fix m
    assume "m \<in> set members"
    moreover have "m \<notin> set (members_behind D X S members)" by (simp add: assms(4))
    ultimately show "rx_ownGeneration X \<le> re_generation m \<or> re_userId m = self \<or> re_userId m \<in> rx_exclude X"
      unfolding behind_members using assms(1,5,6) by auto
  qed
  with detail assms(3,7) have "completion_allowed P self groupId exclude (rx_ownGeneration X) H"
    unfolding completion_allowed_def
    by (intro exI [of _ detail] exI [of _ "rx_own X"] exI [of _ "rx_exclude X"] exI [of _ members]) auto
  with detail(2) show ?thesis by (auto intro!: allowed simp: rotation_call_def)
qed

lemma run_passes_allowed:
  fixes D :: "'d RotationDeps_scheme"
  assumes "selfUserId D = self"
  shows "meets J (setting_known P self groupId exclude X)
     (run_passes k n P D X S) (\<lambda>r H. True)"
proof (induction k arbitrary: S)
  case 0
  show ?case by (simp, rule meets_give) simp
next
  case (Suc k)
  let ?A = "setting_known P self groupId exclude X"
  show ?case
    unfolding run_passes.simps Let_def
  proof (intro meets_attempt_ok [OF _ meets_read_ok] meets_give, goal_cases)
    case (7 ps members)
    show ?case
    proof (intro meets_if, goal_cases)
      case 1
      have ended: "meets J
         (\<lambda>H. (?A H \<and> ReadPins (Inr ps) \<in> H) \<and> ReadMembers (rx_groupId X) (Inr members) \<in> H) (finish D X S) (\<lambda>r H. True)"
        unfolding finish_def
        by (intro meets_if meets_give meets_option meets_attempt [OF _ meets_ask])
          (auto intro!: lasting_intro completion_justified [OF assms _ _ 1])
      show ?case
        by (intro meets_bind [OF _ ended] meets_option meets_give meets_pre [OF Suc.IH] lasting_intro) simp_all
    next
      case 2
      have step: "meets J
         (\<lambda>H. (?A H \<and> ReadPins (Inr ps) \<in> H) \<and> ReadMembers (rx_groupId X) (Inr members) \<in> H)
         (run_chunks n P D X (pin_map ps) (chunks_of MAX_REWRAP_BATCH (members_behind D X S members)) S None) (\<lambda>r H. True)"
        by (rule meets_pre [OF run_chunks_allowed [OF assms]])
          (auto simp: pins_known_def admissions_checked_def intro: behind_listed [OF assms])
      show ?case
      proof (rule meets_proceed [OF _ step], (auto intro!: lasting_intro)[3], goal_cases)
        case (1 r)
        show ?case by (cases r) (auto intro: meets_give meets_pre [OF Suc.IH])
      qed
    qed
  qed (auto intro!: lasting_intro simp: is_read_def)
qed

section \<open>A run\<close>

lemma restart_meets:
  "restart_allowed J exclude again \<Longrightarrow> again = Some f \<Longrightarrow> exclude \<subseteq> ex
   \<Longrightarrow> meets J A (f c ex) (\<lambda>r H. True)"
  unfolding restart_allowed_def by (blast intro: meets_pre)

lemma run_checked_allowed:
  fixes D :: "'d RotationDeps_scheme"
  assumes "selfUserId D = self" "exclude \<subseteq> exclude'" "ge_role detail = js ''admin''" "ge_visibility detail = js ''private''"
    "\<forall>marker. gd_rotation detail = Some marker \<longrightarrow> mk_generation marker = ge_generation detail"
    "ge_wrappedGroupKey detail = Some wrapped"
    and again: "restart_allowed J exclude again"
  shows "meets J (\<lambda>H. ReadGroup groupId (Inr detail) \<in> H \<and> own_key own H)
     (run_checked n P D groupId detail wrapped own again carried exclude') (\<lambda>r H. True)"
proof -
  let ?A = "\<lambda>H. ReadGroup groupId (Inr detail) \<in> H \<and> own_key own H"
  let ?started = "\<lambda>removed H. case gd_rotation detail of None \<Rightarrow> removed = None
     | Some marker \<Rightarrow> start_verified P self own groupId marker removed H"
  have started: "meets J ?A
     (case gd_rotation detail of None \<Rightarrow> give (Inr (Inr None)) | Some marker \<Rightarrow> verifyRotationStart P D own groupId marker)
     (on_ok (on_ok ?started))"
    by (cases "gd_rotation detail") (auto intro!: meets_give start_known [OF assms(1)])
  have last: "lasting ?A" by (intro lasting_intro)
  show ?thesis
    unfolding run_checked_def
  proof (rule meets_await [OF last started], simp, goal_cases)
    case (1 r)
    show ?case
    proof (intro meets_sum meets_give, simp, unfold Let_def, goal_cases)
      case (1 removed)
      let ?ex = "case removed of None \<Rightarrow> exclude' | Some u \<Rightarrow> insert u exclude'"
      have passes: "meets J
         (\<lambda>H. ?A H \<and> on_ok (on_ok ?started) (Inr r) H)
         (run_passes MAX_PASSES n P D
             \<lparr>rx_groupId = groupId, rx_own = own, rx_ownGeneration = ge_generation detail,
              rx_ownWrappedGroupKey = wrapped, rx_marker = gd_rotation detail, rx_exclude = ?ex,
              rx_restarted = (again = None)\<rparr> (fresh_state carried)) (\<lambda>r H. True)"
      proof (rule meets_pre [OF run_passes_allowed [OF assms(1)]])
        fix H
        assume "?A H \<and> on_ok (on_ok ?started) (Inr r) H"
        with 1 assms(2-6) show "setting_known P self groupId exclude
            \<lparr>rx_groupId = groupId, rx_own = own, rx_ownGeneration = ge_generation detail,
             rx_ownWrappedGroupKey = wrapped, rx_marker = gd_rotation detail, rx_exclude = ?ex,
             rx_restarted = (again = None)\<rparr> H"
          unfolding setting_known_def run_basis_def
          by (intro exI [of _ detail]) (auto split: option.splits)
      qed
      have "meets J B (f c ?ex) (\<lambda>r H. True)" if "again = Some f" for f c B
        by (rule restart_meets [OF again that]) (use assms(2) in \<open>auto split: option.split\<close>)
      then show ?case
        by (intro meets_await [OF _ passes] meets_prod)
          (auto intro!: lasting_intro meets_give split: sum.split option.split)
    qed
  qed
qed

lemma run_at_marker_allowed:
  fixes D :: "'d RotationDeps_scheme"
  assumes "selfUserId D = self" "exclude \<subseteq> exclude'" "ge_role detail = js ''admin''" "ge_visibility detail = js ''private''"
    "ge_wrappedGroupKey detail = Some wrapped"
    and again: "restart_allowed J exclude again"
  shows "meets J (\<lambda>H. ReadGroup groupId (Inr detail) \<in> H)
     (run_at_marker n P D groupId detail wrapped again carried exclude') (\<lambda>r H. True)"
proof -
  have checked: "meets J (\<lambda>H. ReadGroup groupId (Inr detail) \<in> H)
     (attempt (own_signing_key D)
        (\<lambda>err. give (Inr (Incomplete (js ''could not read your pins: '' @ thrown_message err) carried)))
        (\<lambda>own. run_checked n P D groupId detail wrapped own again carried exclude')) (\<lambda>r H. True)"
    if "\<forall>marker. gd_rotation detail = Some marker \<longrightarrow> mk_generation marker = ge_generation detail"
    by (intro meets_attempt_ok [OF _ own_key_ok] meets_give run_checked_allowed [OF assms(1-4) that assms(5) again])
      (auto intro!: lasting_intro)
  then show ?thesis
    unfolding run_at_marker_def
    by (cases "gd_rotation detail") (auto intro!: meets_give)
qed

lemma run_once_allowed:
  fixes D :: "'d RotationDeps_scheme"
  assumes "selfUserId D = self" "exclude \<subseteq> exclude'"
    and again: "restart_allowed J exclude again"
  shows "meets J (\<lambda>H. True)
     (run_once n P D groupId again carried exclude') (\<lambda>r H. True)"
  unfolding run_once_def
proof (intro meets_attempt_ok [OF _ meets_read_ok] meets_give meets_if, simp_all add: is_read_def lasting_pure, goal_cases)
  case (1 detail)
  show ?case
  proof (cases "ge_wrappedGroupKey detail")
    case None
    then show ?thesis by simp (rule meets_give, simp)
  next
    case (Some wrapped)
    note at = run_at_marker_allowed [OF assms(1,2) _ _ Some again]
    have take: "meets J (\<lambda>H. ReadGroup groupId (Inr detail) \<in> H)
       (await (takeOverLeave n P D groupId detail marker carried) (\<lambda>taken.
          case taken of Some outcome \<Rightarrow> give (Inr outcome) | None \<Rightarrow> f carried exclude')) (\<lambda>r H. True)"
      if "gd_rotation detail = Some marker" "again = Some f" "mk_generation marker = ge_generation detail + 1"
        "mk_removedUserId marker = Some (mk_startedBy marker)" for marker f
      using 1 by (intro meets_await [OF _ take_over_known [OF assms(1) that(1,3,4)]] meets_option meets_give
          restart_meets [OF again that(2) assms(2)]) (auto intro!: lasting_intro)
    show ?thesis
      unfolding Some option.case prod.case by (intro meets_option meets_if at take) (use 1 in auto)
  qed
qed

text \<open>A run makes only calls that it may make.\<close>

lemma run_allowed:
  fixes D :: "'d RotationDeps_scheme"
  assumes "selfUserId D = self"
  shows "meets J A (runRotation n P D groupId exclude) (\<lambda>r H. True)"
proof -
  have restarted: "meets J (\<lambda>H. True) (run_once n P D groupId None c ex) (\<lambda>r H. True)" if "exclude \<subseteq> ex" for c ex
    by (rule run_once_allowed [OF assms that]) (simp add: restart_allowed_def)
  have "meets J (\<lambda>H. True) (runRotation n P D groupId exclude) (\<lambda>r H. True)"
    unfolding runRotation_def runOnce_def
    by (rule run_once_allowed [OF assms order_refl]) (auto simp: restart_allowed_def intro: restarted)
  then show ?thesis by (rule meets_pre) simp
qed

end

interpretation rotation: rotation_checks "rotation_call n P self groupId exclude" n P self groupId exclude
  by unfold_locales

text \<open>Every call of a run is one it may make: the one statement from which its guarantees follow.\<close>

lemma rotation_follows:
  fixes D :: "'d RotationDeps_scheme"
  assumes "run_state (runRotation n P D groupId exclude) [] = (outcome, h)"
  shows "justified (rotation_call n P (selfUserId D) groupId exclude) h"
  using meets_run [OF rotation.run_allowed [OF refl] _ assms] by simp

end
