(* ===== verification/Rotation_Sample.thy ===== *)
theory Rotation_Sample
  imports Key_Checks Membership_Properties
begin

text \<open>
  Two concrete runs of a rotation.  In the first, alice, who created the group, finishes the rotation she started
  when she removed carol: bob, whom she invited, is behind.  In the second, alice has left, and bob takes her
  rotation over.
\<close>

definition carol :: js_string where
  "carol = js ''00000000-0000-4000-8000-00000000000c''"

lemma carol_other [simp]: "alice \<noteq> carol" "carol \<noteq> alice" "bob \<noteq> carol" "carol \<noteq> bob" "alice \<noteq> []"
  by (simp_all add: carol_def alice_def bob_def)

definition user_of :: "js_string \<Rightarrow> byte \<Rightarrow> byte \<Rightarrow> UserProjection" where
  "user_of i k w = \<lparr>up_userId = i, up_username = [], up_signingPublicKey = bytesToBase64 (seed_of k),
     up_wrappingPublicKey = bytesToBase64 (seed_of w), up_supersededSigningKeys = [], up_keyEpoch = 0, up_deleted = False\<rparr>"

definition known_users :: "(js_string \<times> UserProjection) list" where
  "known_users = [(alice, user_of alice 1 11), (bob, user_of bob 2 12)]"

definition a_wrap :: WireWrapped where
  "a_wrap = \<lparr>we_ephemeralPub = js ''AA'', we_nonce = js ''AA'', we_ciphertext = js ''AA''\<rparr>"

definition a_link :: Sealed where
  "a_link = \<lparr>sl_nonce = js ''AA'', sl_ciphertext = js ''AA''\<rparr>"

definition a_minted :: RotationStarted where
  "a_minted = \<lparr>rs_generation = 1, rs_link = a_link, rs_removerWrappedKey = a_wrap, rs_memberWrappedKey = None,
     rs_startSignature = js ''AA''\<rparr>"

definition start_signature :: "js_string \<Rightarrow> byte \<Rightarrow> js_string \<Rightarrow> js_string" where
  "start_signature i k removed = signed_b64 k RotationStart
     (lengthPrefixedConcat [utf8_encode group1, utf8_encode i, utf8_encode removed, utf8_encode (js_num 1)])"

definition sample_marker :: "js_string \<Rightarrow> RotationMarker" where
  "sample_marker removed = \<lparr>mk_generation = 1, mk_startedAt = [], mk_startedBy = alice, mk_removedUserId = Some removed,
     mk_startSignature = Some (start_signature alice 1 removed), mk_rekeyedUserId = None, mk_rekeyReason = None\<rparr>"

definition sample_detail :: "int \<Rightarrow> js_string \<Rightarrow> GroupDetail" where
  "sample_detail g removed = \<lparr>ge_groupId = group1, ge_visibility = js ''private'', ge_role = js ''admin'', ge_generation = g,
     ge_noRotation = False, ge_nameGeneration = 0, ge_namePlaintext = None, ge_descriptionPlaintext = None,
     ge_nameCiphertext = None, ge_descriptionCiphertext = None, ge_wrappedGroupKey = Some a_wrap,
     gd_revocationMode = [], gd_memberCap = 10, gd_expirationDays = 0, gd_version = 1, gd_myGrantSortKey = None,
     gd_rotation = Some (sample_marker removed)\<rparr>"

definition carol_link :: KeychainLink where
  "carol_link = \<lparr>rl_generation = 0, rl_removerUserId = Some alice, rl_removedUserId = Some carol,
     rl_startSignature = Some (start_signature alice 1 carol), rl_rekeyedUserId = None, rl_rekeyReason = None,
     kl_wrapped = a_link\<rparr>"

definition roster_entry :: "js_string \<Rightarrow> js_string \<Rightarrow> int \<Rightarrow> RosterEntry" where
  "roster_entry i role g = \<lparr>re_userId = i, re_role = role, re_generation = g, re_wrapEpoch = None, re_wrapRecord = None\<rparr>"

definition sample_roster :: "int \<Rightarrow> RosterEntry list" where
  "sample_roster g = [roster_entry alice (js ''admin'') 1, roster_entry bob (js ''admin'') g]"

text \<open>
  The server and the browser of a user: bob is listed as behind until the new key was sent.  The admissions served and
  what a longer record holds beyond a rotation are arguments.
\<close>

definition served_deps :: "js_string \<Rightarrow> byte \<Rightarrow> GroupDetail \<Rightarrow> AdmissionRecord list \<Rightarrow> 'm \<Rightarrow> 'm RotationDeps_scheme" where
  "served_deps self k detail admissions rest = \<lparr>
     listGrants = (\<lambda>g c h. Inr \<lparr>lg_anchor = sample_anchor, lg_grants = [root_row], lg_nextCursor = None\<rparr>),
     listDesignations = (\<lambda>g c h. Inr \<lparr>ld_designations = [], ld_nextCursor = None\<rparr>),
     now = (\<lambda>h. 1772323200000),
     getUsers = (\<lambda>ids h. Inr (filter (\<lambda>(i, u). i \<in> set ids) known_users, None)),
     readPin = (\<lambda>g h. None), writePin = (\<lambda>g pin h. True), selfUserId = self,
     ownSigningKey = (\<lambda>h. Inr (bytesToBase64 (seed_of k))), loadOwnKeyHistory = None,
     listPins = (\<lambda>h. Inr []), pinKeys = (\<lambda>i ks w e h. Inr ()),
     listAdmissions = (\<lambda>g c h. Inr \<lparr>la_admissions = admissions, la_nextCursor = None\<rparr>),
     getGroup = (\<lambda>g h. Inr detail),
     getKeychain = (\<lambda>g a b h. Inr \<lparr>kp_links = [carol_link], kp_nextFrom = None\<rparr>),
     listAllMembers = (\<lambda>g h. Inr (sample_roster (if \<exists>gen wraps. SendRewrap g gen wraps (Inr ()) \<in> set h then 1 else 0))),
     getUserDetail = None, signWrapRecord = None, ownKeyHistoryFailure = None,
     rewrapCrypto = (\<lambda>req h. Inr []), rewrapMembers = (\<lambda>g gen wraps h. Inr ()), completeRotation = (\<lambda>g gen h. Inr ()),
     takeOverCrypto = (\<lambda>req h. Inr (a_minted)), takeOverRotation = (\<lambda>g req h. Inr ()), \<dots> = rest\<rparr>"

abbreviation sample_deps :: "js_string \<Rightarrow> byte \<Rightarrow> GroupDetail \<Rightarrow> RotationDeps" where
  "sample_deps self k detail \<equiv> served_deps self k detail [sample_admission] ()"

section \<open>The grant chain the sample serves\<close>

definition served_input :: "(js_string \<rightharpoonup> UserKeyHistory) \<Rightarrow> GrantChainInput" where
  "served_input hs = \<lparr>gi_groupId = group1, gi_anchor = sample_anchor, gi_pinnedAnchor = None, gi_grants = [root_row],
     gi_keyHistories = hs, gi_designations = [], gi_now = Some 1772323200000\<rparr>"

lemma served_fields [simp]:
  "gi_groupId (served_input hs) = group1" "gi_anchor (served_input hs) = sample_anchor" "gi_pinnedAnchor (served_input hs) = None"
  "gi_grants (served_input hs) = [root_row]" "gi_keyHistories (served_input hs) = hs"
  "gi_designations (served_input hs) = []" "gi_now (served_input hs) = Some 1772323200000"
  by (simp_all add: served_input_def)

lemma served_row_ok:
  "row_ok sample (served_input hs) root_row 1767571200000 (sign sample (key_of 1) RoleGrant (grant_payload (served_input hs) root_row))"
  by (simp add: row_ok_def ROLES_def grant_payload_def duplicated_def)

lemma served_backed:
  assumes "hs alice = Some (history_of 1)"
  shows "backed sample (served_input hs) root_row"
proof (rule backed_designated.root [OF served_row_ok])
  show "gi_keyHistories (served_input hs) (an_creatorUserId (gi_anchor (served_input hs))) = Some (history_of 1)"
    by (simp add: assms)
  show "anchorValid sample (served_input hs)"
    by (simp add: anchorValid_def pinMismatch_def pinMatched_def anchorKey_def sample_anchor_def assms)
  show "verify sample (seed_of 1) RoleGrant (grant_payload (served_input hs) root_row)
     (sign sample (key_of 1) RoleGrant (grant_payload (served_input hs) root_row))" by simp
qed (simp_all add: anchorKey_def)

lemma served_returns: "verifyGrantChain 4 sample (served_input hs) \<noteq> None"
proof -
  have "claims_in_order sample (served_input hs)" by (simp add: claims_in_order_def claim_in_order_def)
  then have "verifyAll 4 sample (served_input hs) (gi_grants (served_input hs)) no_caches \<noteq> None"
    by (intro verifyAll_returns) (simp_all add: sound_caches_def no_caches_def)
  then show ?thesis by (auto simp: verifyGrantChain_def)
qed

definition served_result :: "(js_string \<rightharpoonup> UserKeyHistory) \<Rightarrow> GrantChainResult" where
  "served_result hs = the (verifyGrantChain 4 sample (served_input hs))"

lemma served_result: "verifyGrantChain 4 sample (served_input hs) = Some (served_result hs)"
  using served_returns [of hs] by (auto simp: served_result_def)

lemma served_root:
  "cr_grantsBySubject (served_result hs) alice = [root_row]"
  "hs alice = Some (history_of 1) \<Longrightarrow> \<exists>v. cr_verdicts (served_result hs) root_key = Some v \<and> gv_valid v"
  using served_result [of hs] verdict_iff_backed [OF served_result, of root_row hs] served_backed [of hs]
  by (auto elim!: verifyGrantChain_SomeE simp: grantsBySubject_def)

lemma served_root_valid: "hs alice = Some (history_of 1) \<Longrightarrow> root_valid (cr_verdicts (served_result hs) root_key)"
  using served_root(2) [of hs] by (auto simp: root_valid_def)

abbreviation alice_only :: "js_string \<rightharpoonup> UserKeyHistory" where "alice_only \<equiv> [alice \<mapsto> history_of 1]"

section \<open>Running the sample\<close>

lemma run_by_ends: "ends m (\<lambda>r h'. r = a \<and> h' = b) h \<Longrightarrow> run_state m h = (a, b)"
  by (simp add: ends_def prod_eq_iff)

lemma ends_by_run: "run_state m h = (a, b) \<Longrightarrow> ends m Q h \<longleftrightarrow> Q a b"
  by (simp add: ends_def)

lemma more_pages:
  "\<exists>k. MAX_GRANT_PAGES = Suc k" "\<exists>k. MAX_ADMISSION_PAGES = Suc k" "\<exists>k. MAX_KEYCHAIN_PAGES = Suc k"
  "\<exists>k. MAX_PASSES = Suc (Suc k)"
  by (auto simp: MAX_GRANT_PAGES_def MAX_ADMISSION_PAGES_def MAX_KEYCHAIN_PAGES_def MAX_PASSES_def
      intro: exI [of _ 99] exI [of _ 4])

lemma user_fields [simp]:
  "up_userId (user_of i k w) = i" "up_signingPublicKey (user_of i k w) = bytesToBase64 (seed_of k)"
  "up_wrappingPublicKey (user_of i k w) = bytesToBase64 (seed_of w)" "up_supersededSigningKeys (user_of i k w) = []"
  "up_keyEpoch (user_of i k w) = 0" "historyOf (user_of i k w) = history_of k"
  "servedSigningKeySet (served_keys (user_of i k w)) = Some [seed_of k]"
  by (simp_all add: user_of_def historyOf_def history_of_def servedSigningKeySet_def served_keys_def keySet_def KEY_SIZE_def base64.dec_enc)

lemma sample_deps_fields [simp]:
  "listGrants (served_deps self k d rows m) = (\<lambda>g c h. Inr \<lparr>lg_anchor = sample_anchor, lg_grants = [root_row], lg_nextCursor = None\<rparr>)"
  "now (served_deps self k d rows m) = (\<lambda>h. 1772323200000)"
  "getUsers (served_deps self k d rows m) = (\<lambda>ids h. Inr (filter (\<lambda>(i, u). i \<in> set ids) known_users, None))"
  "readPin (served_deps self k d rows m) = (\<lambda>g h. None)" "writePin (served_deps self k d rows m) = (\<lambda>g pin h. True)"
  "selfUserId (served_deps self k d rows m) = self" "ownSigningKey (served_deps self k d rows m) = (\<lambda>h. Inr (bytesToBase64 (seed_of k)))"
  "loadOwnKeyHistory (served_deps self k d rows m) = None" "listPins (served_deps self k d rows m) = (\<lambda>h. Inr [])"
  "pinKeys (served_deps self k d rows m) = (\<lambda>i ks w e h. Inr ())"
  "listAdmissions (served_deps self k d rows m) = (\<lambda>g c h. Inr \<lparr>la_admissions = rows, la_nextCursor = None\<rparr>)"
  "getGroup (served_deps self k d rows m) = (\<lambda>g h. Inr d)"
  "getKeychain (served_deps self k d rows m) = (\<lambda>g a b h. Inr \<lparr>kp_links = [carol_link], kp_nextFrom = None\<rparr>)"
  "listAllMembers (served_deps self k d rows m) =
     (\<lambda>g h. Inr (sample_roster (if \<exists>gen wraps. SendRewrap g gen wraps (Inr ()) \<in> set h then 1 else 0)))"
  "getUserDetail (served_deps self k d rows m) = None" "signWrapRecord (served_deps self k d rows m) = None"
  "ownKeyHistoryFailure (served_deps self k d rows m) = None" "rewrapCrypto (served_deps self k d rows m) = (\<lambda>req h. Inr [])"
  "rewrapMembers (served_deps self k d rows m) = (\<lambda>g gen wraps h. Inr ())"
  "completeRotation (served_deps self k d rows m) = (\<lambda>g gen h. Inr ())"
  "takeOverCrypto (served_deps self k d rows m) = (\<lambda>req h. Inr a_minted)"
  "takeOverRotation (served_deps self k d rows m) = (\<lambda>g req h. Inr ())"
  by (simp_all add: served_deps_def)

definition sample_chain :: VerifiedChain where
  "sample_chain = \<lparr>vc_anchor = sample_anchor, vc_anchorState = AnchorFirstSeen, vc_keys = KeysPinned,
     vc_blockedKeyUsers = [], vc_result = served_result alice_only, vc_keyHistories = [alice \<mapsto> history_of 1],
     vc_rootVerdict = cr_verdicts (served_result alice_only) root_key\<rparr>"

definition chain_calls :: "call list" where
  "chain_calls = [ReadGrants group1 None (Inr \<lparr>lg_anchor = sample_anchor, lg_grants = [root_row], lg_nextCursor = None\<rparr>),
     ReadUsers [alice] (Inr ([(alice, user_of alice 1 11)], None)), ReadOwnKey (Inr (bytesToBase64 (seed_of 1))),
     ReadPins (Inr []), ReadAnchorPin group1 None, ReadClock 1772323200000, WriteAnchorPin group1 sample_pin True]"

lemma chain_run:
  assumes "extra \<in> {[], [alice]}"
  shows "run_state (loadVerifiedChain 4 sample (served_deps alice 1 d rows m) group1 extra) h = (Inr sample_chain, h @ chain_calls)"
proof (rule run_by_ends)
  obtain k where pages: "MAX_GRANT_PAGES = Suc k" using more_pages(1) by blast
  have verdict: "verifyGrantChain 4 sample \<lparr>gi_groupId = group1, gi_anchor = sample_anchor, gi_pinnedAnchor = None, gi_grants = [root_row],
     gi_keyHistories = [alice \<mapsto> history_of 1], gi_designations = [], gi_now = Some 1772323200000\<rparr> = Some (served_result alice_only)"
    using served_result [of alice_only] by (simp add: served_input_def)
  show "ends (loadVerifiedChain 4 sample (served_deps alice 1 d rows m) group1 extra)
      (\<lambda>r h'. r = Inr sample_chain \<and> h' = h @ chain_calls) h"
    using assms by (elim insertE emptyE) (simp_all add: pages loadVerifiedChain_def readAllGrants_def readServedKeys_def checkServedKeys_def own_material_def
        own_signing_key_def scan_self_def settle_anchor_def flow_simps truthy_def key_users_def unique_list_def known_users_def allow_def
        sameBytes_eq base64.dec_enc verdict served_root_valid verified_chain_def sample_chain_def chain_calls_def key_state_def
        sample_pin_def)
qed

definition served_context :: "AdmissionRecord list \<Rightarrow> AdmissionContext" where
  "served_context rows = \<lparr>ax_chain = sample_chain, ax_byInvitee = map_of (map (\<lambda>r. (ad_inviteeUserId r, r)) rows), ax_removedAt = [carol \<mapsto> 1],
     ax_inviteeHistories = Map.empty\<rparr>"

abbreviation sample_context :: AdmissionContext where
  "sample_context \<equiv> served_context [sample_admission]"

lemma removals_pass:
  "keys alice = Some (Some [seed_of 1]) \<Longrightarrow> verifyRemovals sample \<lparr>vi_groupId = group1, vi_currentGeneration = 1,
     vi_links = [RemovalLink.truncate carol_link], vi_keysFor = key_lookup keys\<rparr> = Some (Inr [carol \<mapsto> 1])"
  by (simp add: verifyRemovals_def carol_link_def isSafeInteger_def verify_link_def rotationStartPayload_def
      start_signature_def RemovalLink.truncate_def key_lookup_def)

definition served_calls :: "AdmissionRecord list \<Rightarrow> call list" where
  "served_calls rows = ReadAdmissions group1 None (Inr \<lparr>la_admissions = rows, la_nextCursor = None\<rparr>) # chain_calls
     @ [ReadKeychain group1 0 0 (Inr \<lparr>kp_links = [carol_link], kp_nextFrom = None\<rparr>)]"

abbreviation context_calls :: "call list" where
  "context_calls \<equiv> served_calls [sample_admission]"

lemma context_run:
  assumes "rows \<in> {[], [sample_admission]}"
  shows "run_state (loadAdmissions 4 sample (served_deps alice 1 d rows m) (seed_of 1) group1 1) h
    = (Inr (Inr (served_context rows)), h @ served_calls rows)"
proof (rule run_by_ends)
  obtain k k' where pages: "MAX_ADMISSION_PAGES = Suc k" "MAX_KEYCHAIN_PAGES = Suc k'" using more_pages(2,3) by blast
  have [simp]: "ad_inviterUserId sample_admission = alice" "ad_inviteeUserId sample_admission = bob"
    by (simp_all add: sample_admission_def)
  have removers: "removersOf [RemovalLink.truncate carol_link] = [alice]"
    by (simp add: removersOf_def unique_list_def carol_link_def RemovalLink.truncate_def)
  show "ends (loadAdmissions 4 sample (served_deps alice 1 d rows m) (seed_of 1) group1 1)
      (\<lambda>r h'. r = Inr (Inr (served_context rows)) \<and> h' = h @ served_calls rows) h"
    using assms by (elim insertE emptyE) (simp_all add: loadAdmissions_def load_context_def pages flow_simps truthy_def unique_list_def ends_by_run [OF chain_run]
        loadRemovals_def removers resolveSignerKeys_def ownSigningKeysFor_def ownHistoryFor_def removals_pass
        served_calls_def served_context_def sample_chain_def js_map_def)
qed

lemma bob_admitted:
  assumes "hs alice = Some (history_of 1)"
  shows "verifyAdmission sample \<lparr>va_groupId = group1, va_record = sample_admission, va_inviteeSigningKeys = [seed_of 2],
     va_inviteeWrappingKey = bytesToBase64 (seed_of 12), va_chain = served_result hs, va_inviterHistory = Some (history_of 1),
     va_inviteeHistory = None\<rparr> = Admitted"
proof -
  obtain v where "cr_verdicts (served_result hs) root_key = Some v" "gv_valid v" using served_root(2) [of hs, OF assms] by blast
  then show ?thesis
    by (simp add: verifyAdmission_def sample_admission_def decode_sized_b64 signed_b64_def
        sample_march served_root wrapping_admitted_def)
qed

lemma bob_admitted_run:
  "run_state (isAdmitted sample (sample_deps alice 1 d) sample_context group1 bob (user_of bob 2 12)) h
   = (Inr (True, sample_context), h)"
proof (rule run_by_ends)
  have [simp]: "ad_inviteeX25519PublicKey sample_admission = bytesToBase64 (seed_of 12)" "ad_inviterUserId sample_admission = alice"
    "ad_inviteeUserId sample_admission = bob" by (simp_all add: sample_admission_def)
  show "ends (isAdmitted sample (sample_deps alice 1 d) sample_context group1 bob (user_of bob 2 12))
      (\<lambda>r h'. r = Inr (True, sample_context) \<and> h' = h) h"
    by (simp add: isAdmitted_def served_context_def sample_chain_def flow_simps bob_admitted)
qed

text \<open>The calls of the first run, in order: the wrap for bob comes after his admission was checked and his keys pinned.\<close>

definition bob_wrap :: RewrapGroupKeyRequest where
  "bob_wrap = \<lparr>rw_userId = alice, rw_groupId = group1, rw_ownWrappedGroupKey = a_wrap, rw_ownGeneration = 1,
     rw_recipients = [(bob, bytesToBase64 (seed_of 12))]\<rparr>"

definition remover_calls :: "call list" where
  "remover_calls = [ReadGroup group1 (Inr (sample_detail 1 carol)), ReadOwnKey (Inr (bytesToBase64 (seed_of 1))),
     ReadPins (Inr []), ReadMembers group1 (Inr (sample_roster 0)), ReadUsers [bob] (Inr ([(bob, user_of bob 2 12)], None))]
     @ context_calls @ [StorePin bob [bytesToBase64 (seed_of 2)] (bytesToBase64 (seed_of 12)) 0 (Inr ()),
     AskRewrap bob_wrap (Inr []), SendRewrap group1 1 [] (Inr ()), ReadPins (Inr []),
     ReadMembers group1 (Inr (sample_roster 1)), SendComplete group1 1 (Inr ())]"

lemma roster_fields [simp]:
  "re_userId (roster_entry i r g) = i" "re_role (roster_entry i r g) = r" "re_generation (roster_entry i r g) = g"
  by (simp_all add: roster_entry_def)

lemma detail_fields [simp]:
  "ge_role (sample_detail g r) = js ''admin''" "ge_visibility (sample_detail g r) = js ''private''"
  "ge_generation (sample_detail g r) = g" "ge_wrappedGroupKey (sample_detail g r) = Some a_wrap"
  "gd_rotation (sample_detail g r) = Some (sample_marker r)" "mk_generation (sample_marker r) = 1"
  "mk_removedUserId (sample_marker r) = Some r" "mk_startedBy (sample_marker r) = alice"
  "mk_rekeyedUserId (sample_marker r) = None" "mk_startSignature (sample_marker r) = Some (start_signature alice 1 r)"
  by (simp_all add: sample_detail_def sample_marker_def)

lemma no_rewrap_yet [simp]: "SendRewrap g n w r \<notin> set context_calls"
  by (simp add: served_calls_def chain_calls_def)

lemma marker_run:
  "run_state (verifyRotationStart sample (sample_deps alice 1 d) (seed_of 1) group1 (sample_marker r)) h = (Inr (Inr (Some r)), h)"
  by (rule run_by_ends)
    (simp add: verifyRotationStart_def verify_marker_def start_signature_def rotationStartPayload_def isSafeInteger_def
      flow_simps resolveSignerKeys_def ownSigningKeysFor_def ownHistoryFor_def key_lookup_def)

lemma remover_run_after:
  assumes fresh: "\<And>gen wraps. SendRewrap group1 gen wraps (Inr ()) \<notin> set h" and "exclude \<in> {{}, {carol}}"
  shows "run_state (runRotation 4 sample (sample_deps alice 1 (sample_detail 1 carol)) group1 exclude) h
    = (Inr (Completed 1), h @ remover_calls)"
proof (rule run_by_ends)
  obtain k where pages: "MAX_PASSES = Suc (Suc k)" using more_pages(4) by blast
  have behind: "members_behind (sample_deps alice 1 (sample_detail 1 carol)) X S (sample_roster 0) = [roster_entry bob (js ''admin'') 0]"
    if "rx_ownGeneration X = 1" "ry_blocked S = []" "ry_unadmitted S = []" "rx_exclude X = {carol}" for X S
    using that by (simp add: members_behind_def adminsFirst_def sample_roster_def)
  have moved: "members_behind (sample_deps alice 1 (sample_detail 1 carol)) X S (sample_roster 1) = []"
    if "rx_ownGeneration X = 1" for X S
    using that by (simp add: members_behind_def adminsFirst_def sample_roster_def)
  show "ends (runRotation 4 sample (sample_deps alice 1 (sample_detail 1 carol)) group1 exclude)
      (\<lambda>r h'. r = Inr (Completed 1) \<and> h' = h @ remover_calls) h"
    using assms(2) by (elim insertE emptyE) (simp_all add: fresh runRotation_def runOnce_def run_once_def run_at_marker_def own_signing_key_def run_checked_def flow_simps
        base64.dec_enc ends_by_run [OF marker_run] pages behind moved fresh_state_def MAX_REWRAP_BATCH_def
        known_users_def admit_def ends_by_run [OF context_run] ends_by_run [OF bob_admitted_run] checkRecipient_def
        ownHistoryFor_def pin_verdict_def pin_map_def js_map_def evaluatePin_def finish_def remover_calls_def bob_wrap_def)
qed

lemma remover_run:
  "run_state (runRotation 4 sample (sample_deps alice 1 (sample_detail 1 carol)) group1 {}) []
   = (Inr (Completed 1), remover_calls)"
  using remover_run_after [of "[]" "{}"] by simp

text \<open>The second run, up to the key bob mints.\<close>

definition leave_request :: StartGroupRotationRequest where
  "leave_request = \<lparr>sg_userId = bob, sg_groupId = group1, sg_ownWrappedGroupKey = a_wrap, sg_ownGeneration = 0,
     sg_subjectUserId = alice\<rparr>"

definition alice_read :: call where
  "alice_read = ReadUsers [alice] (Inr ([(alice, user_of alice 1 11)], None))"

definition leave_calls :: "call list" where
  "leave_calls = [ReadGroup group1 (Inr (sample_detail 0 alice)), ReadOwnKey (Inr (bytesToBase64 (seed_of 2))),
     alice_read, ReadPins (Inr []), alice_read, ReadPins (Inr []),
     ReadAdmissions group1 None (Inr \<lparr>la_admissions = [sample_admission], la_nextCursor = None\<rparr>),
     ReadGrants group1 None (Inr \<lparr>lg_anchor = sample_anchor, lg_grants = [root_row], lg_nextCursor = None\<rparr>),
     alice_read, ReadOwnKey (Inr (bytesToBase64 (seed_of 2))), ReadPins (Inr []),
     StorePin alice [bytesToBase64 (seed_of 1)] (bytesToBase64 (seed_of 11)) 0 (Inr ()), ReadAnchorPin group1 None,
     ReadClock 1772323200000, WriteAnchorPin group1 sample_pin True, AskRotationStart leave_request (Inr a_minted)]"

lemma leaver_run:
  "ends (runRotation 4 sample (sample_deps bob 2 (sample_detail 0 alice)) group1 {})
     (\<lambda>r h. \<exists>h2. h = leave_calls @ h2) []"
proof -
  obtain k k' where pages: "MAX_ADMISSION_PAGES = Suc k" "MAX_GRANT_PAGES = Suc k'" using more_pages(1,2) by blast
  have verdict: "verifyGrantChain 4 sample \<lparr>gi_groupId = group1, gi_anchor = sample_anchor, gi_pinnedAnchor = None, gi_grants = [root_row],
     gi_keyHistories = [alice \<mapsto> history_of 1], gi_designations = [], gi_now = Some 1772323200000\<rparr> = Some (served_result alice_only)"
    using served_result [of alice_only] by (simp add: served_input_def)
  have [simp]: "ad_inviterUserId sample_admission = alice" "ad_inviteeUserId sample_admission = bob"
    by (simp_all add: sample_admission_def)
  show ?thesis
    by (simp add: runRotation_def runOnce_def run_once_def takeOverLeave_def own_signing_key_def flow_simps base64.dec_enc
        verifyRotationStart_def verify_marker_def start_signature_def rotationStartPayload_def isSafeInteger_def
        resolveSignerKeys_def known_users_def ownHistoryFor_def pin_verdict_def evaluatePin_def key_lookup_def
        checkLeaverKey_def check_first_sight_leaver_def loadAdmissions_def load_context_def loadVerifiedChain_def
        readAllGrants_def pages truthy_def unique_list_def readServedKeys_def key_users_def checkServedKeys_def
        own_material_def scan_other_def pin_map_def js_map_def allow_def verdict settle_anchor_def served_root_valid
        verified_chain_def loadRemovals_def take_over_attempts.simps [of "Suc 0"] ownWrapRecord_def sendWithRecord_def
        run_at_marker_def leave_calls_def alice_read_def leave_request_def sample_pin_def a_minted_def)
qed

section \<open>Pinned twice in one pass\<close>

text \<open>
  The pins a pass works with are read at its start.  The admission check inside the pass stores pins too, for the
  inviters it meets for the first time, and the recipient check of the same pass does not see them.  Below, bob has invited
  carol and is himself behind.  The server shows the admission check one wrapping key of his and the recipient
  check another: both are stored, the second in place of the first.
\<close>

definition carol_admission :: AdmissionRecord where
  "carol_admission = sample_admission\<lparr>ad_inviteeUserId := carol, ad_inviterUserId := bob\<rparr>"

definition two_faced_deps :: RotationDeps where
  "two_faced_deps = (sample_deps alice 1 (sample_detail 1 carol))\<lparr>
     listAdmissions := (\<lambda>g c h. Inr \<lparr>la_admissions = [sample_admission, carol_admission], la_nextCursor = None\<rparr>),
     getUsers := (\<lambda>ids h. Inr (if ids = [bob] then [(bob, user_of bob 2 12)]
        else [(alice, user_of alice 1 11), (bob, user_of bob 2 13)], None))\<rparr>"

lemma rotation_pins_twice:
  assumes "rx_groupId X = group1" "rx_own X = seed_of 1" "rx_ownGeneration X = 1"
  shows "ends (scan_chunk 4 sample two_faced_deps X (pin_map []) [bob \<mapsto> user_of bob 2 12] None
       [roster_entry bob (js ''admin'') 0] (fresh_state 0) None [])
     (\<lambda>r h'. (\<exists>S ctx. r = Inr (Inr (S, ctx, [(bob, bytesToBase64 (seed_of 12))])))
        \<and> (\<exists>h1 between. h' = h1 @ StorePin bob [bytesToBase64 (seed_of 2)] (bytesToBase64 (seed_of 13)) 0 (Inr ())
            # between @ [StorePin bob [bytesToBase64 (seed_of 2)] (bytesToBase64 (seed_of 12)) 0 (Inr ())]
          \<and> (\<forall>r. ReadPins r \<notin> set between))) h"
proof -
  obtain k k' k'' k3 where pages: "MAX_ADMISSION_PAGES = Suc k" "MAX_GRANT_PAGES = Suc k'" "MAX_PASSES = Suc (Suc k'')"
    "MAX_KEYCHAIN_PAGES = Suc k3"
    using more_pages by blast
  have verdict: "verifyGrantChain 4 sample \<lparr>gi_groupId = group1, gi_anchor = sample_anchor, gi_pinnedAnchor = None, gi_grants = [root_row],
     gi_keyHistories = [alice \<mapsto> history_of 1, bob \<mapsto> history_of 2], gi_designations = [], gi_now = Some 1772323200000\<rparr>
     = Some (served_result [alice \<mapsto> history_of 1, bob \<mapsto> history_of 2])"
    using served_result [of "[alice \<mapsto> history_of 1, bob \<mapsto> history_of 2]"] by (simp add: served_input_def)
  have [simp]: "ad_inviterUserId sample_admission = alice" "ad_inviteeUserId sample_admission = bob"
    "ad_inviteeX25519PublicKey sample_admission = bytesToBase64 (seed_of 12)"
    by (simp_all add: sample_admission_def)
  have [simp]: "ad_inviterUserId carol_admission = bob" "ad_inviteeUserId carol_admission = carol"
    by (simp_all add: carol_admission_def)
  have [simp]: "selfUserId two_faced_deps = alice" "loadOwnKeyHistory two_faced_deps = None" "ownKeyHistoryFailure two_faced_deps = None"
    "listGrants two_faced_deps = (\<lambda>g c h. Inr \<lparr>lg_anchor = sample_anchor, lg_grants = [root_row], lg_nextCursor = None\<rparr>)"
    "readPin two_faced_deps = (\<lambda>g h. None)" "writePin two_faced_deps = (\<lambda>g pin h. True)"
    "now two_faced_deps = (\<lambda>h. 1772323200000)" "getUserDetail two_faced_deps = None"
    "getKeychain two_faced_deps = (\<lambda>g a b h. Inr \<lparr>kp_links = [carol_link], kp_nextFrom = None\<rparr>)"
    "listAdmissions two_faced_deps = (\<lambda>g c h. Inr \<lparr>la_admissions = [sample_admission, carol_admission], la_nextCursor = None\<rparr>)"
    "getUsers two_faced_deps = (\<lambda>ids h. Inr (if ids = [bob] then [(bob, user_of bob 2 12)]
        else [(alice, user_of alice 1 11), (bob, user_of bob 2 13)], None))"
    "listPins two_faced_deps = (\<lambda>h. Inr [])" "pinKeys two_faced_deps = (\<lambda>i ks w e h. Inr ())"
    "ownSigningKey two_faced_deps = (\<lambda>h. Inr (bytesToBase64 (seed_of 1)))"
    by (simp_all add: two_faced_deps_def)
  have removers: "removersOf [RemovalLink.truncate carol_link] = [alice]"
    by (simp add: removersOf_def unique_list_def carol_link_def RemovalLink.truncate_def)
  define h1 where "h1 = h @ [ReadAdmissions group1 None
       (Inr \<lparr>la_admissions = [sample_admission, carol_admission], la_nextCursor = None\<rparr>),
     ReadGrants group1 None (Inr \<lparr>lg_anchor = sample_anchor, lg_grants = [root_row], lg_nextCursor = None\<rparr>),
     ReadUsers [alice, bob] (Inr ([(alice, user_of alice 1 11), (bob, user_of bob 2 13)], None)),
     ReadOwnKey (Inr (bytesToBase64 (seed_of 1))), ReadPins (Inr [])]"
  define between where "between = [ReadAnchorPin group1 None, ReadClock 1772323200000,
     WriteAnchorPin group1 \<lparr>pa_creatorUserId = alice, pa_creatorSigningPublicKey = bytesToBase64 (seed_of 1)\<rparr> True,
     ReadKeychain group1 0 0 (Inr \<lparr>kp_links = [carol_link], kp_nextFrom = None\<rparr>)]"
  have "ends (scan_chunk 4 sample two_faced_deps X (pin_map []) [bob \<mapsto> user_of bob 2 12] None
       [roster_entry bob (js ''admin'') 0] (fresh_state 0) None [])
     (\<lambda>r h'. (\<exists>S ctx. r = Inr (Inr (S, ctx, [(bob, bytesToBase64 (seed_of 12))])))
        \<and> h' = h1 @ StorePin bob [bytesToBase64 (seed_of 2)] (bytesToBase64 (seed_of 13)) 0 (Inr ())
            # between @ [StorePin bob [bytesToBase64 (seed_of 2)] (bytesToBase64 (seed_of 12)) 0 (Inr ())]) h"
    by (simp add: assms flow_simps admit_def loadAdmissions_def load_context_def loadVerifiedChain_def
        readAllGrants_def pages truthy_def unique_list_def readServedKeys_def key_users_def checkServedKeys_def
        own_material_def own_signing_key_def scan_self_def sameBytes_eq base64.dec_enc scan_other_def pin_map_def js_map_def
        allow_def pin_verdict_def evaluatePin_def verdict settle_anchor_def served_root_valid verified_chain_def
        loadRemovals_def removers resolveSignerKeys_def ownSigningKeysFor_def ownHistoryFor_def removals_pass
        isAdmitted_def bob_admitted checkRecipient_def h1_def between_def)
  moreover have "\<forall>r. ReadPins r \<notin> set between" by (simp add: between_def)
  ultimately show ?thesis by (elim ends_mono) blast
qed

end
