(* ===== verification/Rotation_Run_Properties.thy ===== *)
theory Rotation_Run_Properties
  imports Rotation_Checks Rotation_Sample
begin

text \<open>
  routes/runRotation.ts: what a run of a key rotation may do, read off \<open>rotation_call\<close> of Rotation_Checks.
\<close>

section \<open>What a run guarantees\<close>

lemma call_justified:
  fixes D :: "'d RotationDeps_scheme"
  assumes "run_state (runRotation n P D groupId exclude) [] = (outcome, h1 @ c # h2)"
  shows "rotation_call n P (selfUserId D) groupId exclude (set h1) c"
  by (rule justified_split [OF rotation_follows [OF assms]])

lemma remover_made:
  assumes "c \<in> set remover_calls"
  obtains h1 h2 where "remover_calls = h1 @ c # h2"
    "run_state (runRotation 4 sample (sample_deps alice 1 (sample_detail 1 carol)) group1 {}) [] = (Inr (Completed 1), h1 @ c # h2)"
  using split_list [OF assms] remover_run that by auto

lemma sample_self [simp]: "selfUserId (sample_deps self k d) = self"
  by simp

text \<open>
  C6: A new group key is wrapped only for members who were checked.  Before a run asks the worker to wrap the key of
  a generation for somebody, it has read the group as an admin of a private group at that generation, and where a
  rotation is running, verified the signed record of its start.  The member is not the caller, not one the caller
  removed, not the one the signed start names as removed, and is listed as behind.  The key wrapped for is the
  wrapping key served for them; the keys served are those of the caller's pin, or were pinned because the pins read held
  none; and their admission was verified against the grant history.
\<close>
theorem rotation_wraps_only_cleared:
  fixes D :: "'d RotationDeps_scheme"
  assumes "run_state (runRotation n P D groupId exclude) [] = (outcome, h1 @ AskRewrap req answer # h2)"
    and "(i, key) \<in> set (rw_recipients req)"
  shows "\<exists>detail own left_out.
     run_basis P (selfUserId D) groupId exclude detail own left_out (set h1)
     \<and> rw_groupId req = groupId \<and> rw_ownGeneration req = ge_generation detail
     \<and> ge_wrappedGroupKey detail = Some (rw_ownWrappedGroupKey req)
     \<and> i \<noteq> selfUserId D \<and> i \<notin> exclude \<and> i \<notin> left_out \<and> listed_behind groupId (ge_generation detail) i (set h1)
     \<and> cleared_recipient n P (selfUserId D) own groupId (ge_generation detail) i key (set h1)"
  using call_justified [OF assms(1)] assms(2)
  unfolding rotation_call_def call.case rewrap_allowed_def run_basis_def by blast

theorem rotation_wraps_only_cleared_witness:
  "\<exists>h1 h2 detail own left_out.
     run_state (runRotation 4 sample (sample_deps alice 1 (sample_detail 1 carol)) group1 {}) []
       = (Inr (Completed 1), h1 @ AskRewrap bob_wrap (Inr []) # h2)
     \<and> run_basis sample alice group1 {} detail own left_out (set h1)
     \<and> cleared_recipient 4 sample alice own group1 1 bob (bytesToBase64 (seed_of 12)) (set h1)"
proof -
  obtain h1 h2 where run: "run_state (runRotation 4 sample (sample_deps alice 1 (sample_detail 1 carol)) group1 {}) []
       = (Inr (Completed 1), h1 @ AskRewrap bob_wrap (Inr []) # h2)"
    by (rule remover_made [of "AskRewrap bob_wrap (Inr [])"]) (simp add: remover_calls_def)
  have bob: "(bob, bytesToBase64 (seed_of 12)) \<in> set (rw_recipients bob_wrap)" "rw_ownGeneration bob_wrap = 1"
    by (simp_all add: bob_wrap_def)
  obtain detail own left_out where "run_basis sample alice group1 {} detail own left_out (set h1)"
    "rw_ownGeneration bob_wrap = ge_generation detail"
    "cleared_recipient 4 sample alice own group1 (ge_generation detail) bob (bytesToBase64 (seed_of 12)) (set h1)"
    using rotation_wraps_only_cleared [OF run bob(1)] by auto
  with run bob(2) show ?thesis
    by (intro exI [of _ h1] exI [of _ h2] exI [of _ detail] exI [of _ own] exI [of _ left_out]) simp
qed





text \<open>
  C8: A leave is taken over only when the leaver signed it with a trusted key.  Before a run asks the worker to mint
  the key of a rotation that names a member as removed, it has read the group as an admin of a private group one
  generation below the rotation's, the rotation was started by that same member, its signed start verifies under a key
  served for them, and a key the caller has a reason to trust signed it: the keys served match the caller's pin, or the anchor
  of the verified grant history names the key, or an admission that verifies does.
\<close>
theorem rotation_takes_over_trusted_leave:
  fixes D :: "'d RotationDeps_scheme"
  assumes "run_state (runRotation n P D groupId exclude) [] = (outcome, h1 @ AskRotationStart req answer # h2)"
  shows "\<exists>detail marker own. ReadGroup groupId (Inr detail) \<in> set h1
     \<and> ge_role detail = js ''admin'' \<and> ge_visibility detail = js ''private'' \<and> sg_ownGeneration req = ge_generation detail
     \<and> gd_rotation detail = Some marker \<and> mk_generation marker = ge_generation detail + 1
     \<and> mk_startedBy marker = sg_subjectUserId req \<and> mk_removedUserId marker = Some (sg_subjectUserId req)
     \<and> start_verified P (selfUserId D) own groupId marker (Some (sg_subjectUserId req)) (set h1)
     \<and> leaver_trusted n P (selfUserId D) own groupId (ge_generation detail) marker (sg_subjectUserId req) (set h1)"
  using call_justified [OF assms] unfolding rotation_call_def call.case leave_basis_def by blast

theorem rotation_takes_over_trusted_leave_witness:
  "\<exists>outcome h2. \<exists>detail :: GroupDetail. \<exists>marker own.
     run_state (runRotation 4 sample (sample_deps bob 2 (sample_detail 0 alice)) group1 {}) [] = (outcome, leave_calls @ h2)
     \<and> leaver_trusted 4 sample bob own group1 (ge_generation detail) marker alice (set (butlast leave_calls))"
proof -
  let ?run = "run_state (runRotation 4 sample (sample_deps bob 2 (sample_detail 0 alice)) group1 {}) []"
  from leaver_run obtain h2 where run: "?run = (fst ?run, leave_calls @ h2)"
    by (auto simp: ends_def prod_eq_iff)
  moreover have split: "leave_calls @ h2 = butlast leave_calls @ AskRotationStart leave_request (Inr a_minted) # h2"
    by (simp add: leave_calls_def)
  ultimately have "?run = (fst ?run, butlast leave_calls @ AskRotationStart leave_request (Inr a_minted) # h2)" by simp
  from rotation_takes_over_trusted_leave [OF this] obtain detail :: GroupDetail and marker own where
    "leaver_trusted 4 sample bob own group1 (ge_generation detail) marker (sg_subjectUserId leave_request) (set (butlast leave_calls))"
    unfolding sample_self by blast
  moreover have "sg_subjectUserId leave_request = alice" by (simp add: leave_request_def)
  ultimately show ?thesis using run by metis
qed

end
