(* ===== verification/Verification_Run.thy ===== *)
theory Verification_Run
  imports Grant_Check
begin

text \<open>
  routes/runMemberVerification.ts: what the member list says of each fingerprint, and the actions that sign,
  store and withdraw a verification.  Only the fields of the interfaces that this file names are used.
\<close>

record LoadVerificationsDeps = GrantCheckDeps +
  listVerifications :: "VerificationRecord list answer"

record VerifyDeps = GrantCheckDeps +
  signVerificationCall :: "js_string \<Rightarrow> js_string \<Rightarrow> js_string \<Rightarrow> SignedVerification answer"
  putVerification :: "js_string \<Rightarrow> js_string \<Rightarrow> SignedVerification \<Rightarrow> unit answer"

record MemberVerification =
  mv_fingerprint :: "js_string option"
  mv_verdict :: VerificationVerdict

datatype MemberVerifications = VerificationsUnavailable | VerificationsReady "js_string \<rightharpoonup> MemberVerification"

text \<open>The fingerprint of the two keys served, or null when either is malformed.\<close>

definition fingerprint_of :: "prims \<Rightarrow> 'a UserProjection_scheme \<Rightarrow> js_string option" where
  "fingerprint_of P u =
     (case (base64ToBytes (up_signingPublicKey u), base64ToBytes (up_wrappingPublicKey u)) of
        (Some s, Some w) \<Rightarrow> (case fingerprint P s w of Inl failure \<Rightarrow> None | Inr f \<Rightarrow> Some f)
      | _ \<Rightarrow> None)"

definition servedFingerprint :: "prims \<Rightarrow> 'a UserProjection_scheme option \<Rightarrow> js_string option" where
  "servedFingerprint P user =
     (case user of None \<Rightarrow> None | Some u \<Rightarrow> if up_deleted u then None else fingerprint_of P u)"

section \<open>What is said of each member\<close>

definition member_verification ::
  "prims \<Rightarrow> js_string \<Rightarrow> bytes \<Rightarrow> OwnKeyHistory option \<Rightarrow> (js_string \<rightharpoonup> VerificationRecord)
   \<Rightarrow> (js_string \<rightharpoonup> UserProjection) \<Rightarrow> js_string \<Rightarrow> MemberVerification" where
  "member_verification P self ownKey history recordFor users i =
     (let served = servedFingerprint P (users i)
      in \<lparr>mv_fingerprint = served,
          mv_verdict = evaluateVerification P \<lparr>ev_verifierUserId = self, ev_verifierSigningPublicKey = ownKey,
            ev_verifierHistory = history, ev_verifiedUserId = i, ev_record = recordFor i,
            ev_servedFingerprint = served\<rparr>\<rparr>)"

text \<open>\<open>Promise.all\<close>: both are asked, and a rejection of either is one.\<close>

definition both :: "('c, 'e + 'a) flow \<Rightarrow> ('c, 'e + 'b) flow \<Rightarrow> ('c, 'e + 'a \<times> 'b) flow" where
  "both m m' = do {
     r \<leftarrow> m;
     r' \<leftarrow> m';
     give (case (r, r') of
       (Inl err, _) \<Rightarrow> Inl err
     | (_, Inl err) \<Rightarrow> Inl err
     | (Inr x, Inr y) \<Rightarrow> Inr (x, y))
   }"

definition loadMemberVerifications ::
  "prims \<Rightarrow> 'd LoadVerificationsDeps_scheme \<Rightarrow> js_string list \<Rightarrow> (call, MemberVerifications) flow" where
  "loadMemberVerifications P D memberIds =
     (let others = filter (\<lambda>i. i \<noteq> selfUserId D) memberIds
      in if others = [] then give (VerificationsReady Map.empty)
         else attempt (await (own_signing_key D) (\<lambda>own.
               await (both (ask (listVerifications D) ReadVerifications) (read_users D others)) (\<lambda>(records, users, failure).
                 give (Inr (own, records, users)))))
           (\<lambda>err. give VerificationsUnavailable)
           (\<lambda>(own, records, users). do {
              history \<leftarrow> ownHistoryFor D own;
              let recordFor = js_map (map (\<lambda>r. (vr_verifiedUserId r, r)) records);
              give (VerificationsReady (js_map (map (\<lambda>i.
                (i, member_verification P (selfUserId D) own history recordFor (map_of users) i)) others)))
            }))"

section \<open>Verifying and withdrawing\<close>

datatype VerifyFailureKind = VerifyChanged | VerifyColdKeys | VerifyAuthRequired | VerifyFailed

definition verify_failure :: "thrown \<Rightarrow> VerifyFailureKind" where
  "verify_failure err =
     (if isLiveKeysError err then VerifyColdKeys
      else if has_status 401 err then VerifyAuthRequired
      else if has_status 409 err \<and> has_code ''fingerprint_stale'' err then VerifyChanged
      else VerifyFailed)"

definition verifyMember ::
  "prims \<Rightarrow> 'd VerifyDeps_scheme \<Rightarrow> js_string \<Rightarrow> js_string \<Rightarrow> (call, VerifyFailureKind + unit) flow" where
  "verifyMember P D subjectUserId shownFingerprint =
     attempt (read_users D [subjectUserId]) (\<lambda>err. give (Inl VerifyFailed)) (\<lambda>(users, failure).
       case servedFingerprint P (map_of users subjectUserId) of
         None \<Rightarrow> give (Inl VerifyFailed)
       | Some current \<Rightarrow>
           if current \<noteq> shownFingerprint then give (Inl VerifyChanged)
           else attempt
             (await (ask (signVerificationCall D (selfUserId D) subjectUserId shownFingerprint)
                       (AskVerification (selfUserId D) subjectUserId shownFingerprint)) (\<lambda>signed.
                ask (putVerification D subjectUserId shownFingerprint signed)
                  (SendVerification subjectUserId shownFingerprint signed)))
             (\<lambda>err. give (Inl (verify_failure err)))
             (\<lambda>_. give (Inr ())))"

definition unverifyMember :: "(js_string \<Rightarrow> unit answer) \<Rightarrow> js_string \<Rightarrow> (call, bool) flow" where
  "unverifyMember deleteVerification subjectUserId =
     attempt (ask (deleteVerification subjectUserId) (SendUnverify subjectUserId)) (\<lambda>err. give False) (\<lambda>_. give True)"

definition verifyFailureMessage :: "VerifyFailureKind \<Rightarrow> js_string" where
  "verifyFailureMessage kind = (case kind of
     VerifyChanged \<Rightarrow> js (''Their keys changed while you were comparing, so nothing was saved. '' @
       ''Compare their new fingerprint from the start.'')
   | VerifyColdKeys \<Rightarrow> js ''This tab needs your password to sign a verification.''
   | VerifyAuthRequired \<Rightarrow> js ''Your session has expired. Log in again and retry.''
   | VerifyFailed \<Rightarrow> js ''Couldn't save the verification. Try again.'')"

end
