(* ===== verification/Readmit_Run.thy ===== *)
theory Readmit_Run
  imports Rotation_Run Verification_Run
begin

text \<open>
  routes/runReadmit.ts: an admin or ambassador replaces the admission of a member whose record no longer verifies.
  A failure is on the left of the inner sum; what the function throws is the outer one.
\<close>

record ReadmitDeps = RotationDeps +
  signReadmissionCall :: "SignReadmissionRequest \<Rightarrow> SignedAdmission answer"
  readmitMember :: "js_string \<Rightarrow> js_string \<Rightarrow> ReadmitMemberRequest \<Rightarrow> unit answer"
  newInviteId :: "call list \<Rightarrow> js_string"

datatype ReadmitFailure =
    ReadmitRemoved | ReadmitAlreadyAdmitted | ReadmitPinMismatch | ReadmitKeysChanged | ReadmitForbidden
  | ReadmitAuthRequired | ReadmitNotFound | ReadmitDeleted | ReadmitColdKeys | ReadmitGrantMissing | ReadmitStale
  | ReadmitUnchecked js_string | ReadmitRejected js_string | ReadmitAmbiguous

definition READMIT_STALE_CODES :: "js_string list" where
  "READMIT_STALE_CODES = map js [''grantor_ref_stale'', ''grantor_changed'', ''conflict_retry'']"

definition code_among :: "js_string list \<Rightarrow> thrown \<Rightarrow> bool" where
  "code_among codes err \<longleftrightarrow> (case code_of err of None \<Rightarrow> False | Some c \<Rightarrow> c \<in> set codes)"

definition readmit_failure :: "thrown \<Rightarrow> ReadmitFailure" where
  "readmit_failure err = (case err of
     ApiError status code message \<Rightarrow>
       if code_among READMIT_STALE_CODES err then ReadmitStale
       else if has_code ''subject_deleted'' err then ReadmitDeleted
       else if status = 400 \<and> has_code ''clock_skew'' err then ReadmitRejected CLOCK_SKEW_MESSAGE
       else if status = 401 then ReadmitAuthRequired
       else if status = 403 then ReadmitForbidden
       else if status = 404 then ReadmitNotFound
       else if status < 500 then ReadmitRejected message
       else ReadmitAmbiguous
   | OtherThrown message \<Rightarrow> ReadmitAmbiguous)"

section \<open>What decides it\<close>

text \<open>
  The first \<open>try\<close> of a member's keys, the same in runReadmit.ts and runApprove.ts: the caller's key, the row the
  server serves for the subject (a failed read without a row is a failure) and the caller's pins.
\<close>

definition read_subject ::
  "'d GrantCheckDeps_scheme \<Rightarrow> js_string \<Rightarrow> (call, thrown + bytes \<times> UserProjection option \<times> PinRecord list) flow" where
  "read_subject D subjectUserId =
     await (own_signing_key D) (\<lambda>own.
     await (read_users D [subjectUserId]) (\<lambda>(users, failure).
       case (map_of users subjectUserId, failure) of
         (None, Some err) \<Rightarrow> give (Inl err)
       | (served, _) \<Rightarrow> await (read_pins D) (\<lambda>ps. give (Inr (own, served, ps)))))"

definition pin_of :: "PinRecord list \<Rightarrow> js_string \<Rightarrow> PinRecord option" where
  "pin_of ps i = List.find (\<lambda>p. pr_pinnedUserId p = i) ps"

record ReadmitInspection =
  ri_detail :: GroupDetail
  ri_served :: UserProjection
  ri_signingKeys :: "bytes list"
  ri_firstSight :: bool
  ri_fingerprint :: js_string

text \<open>The history that decides it, and the fingerprint shown.\<close>

definition readmit_history ::
  "nat \<Rightarrow> prims \<Rightarrow> 'd RotationDeps_scheme \<Rightarrow> js_string \<Rightarrow> js_string \<Rightarrow> GroupDetail \<Rightarrow> bytes \<Rightarrow> UserProjection \<Rightarrow> bytes list
   \<Rightarrow> bool \<Rightarrow> (call, thrown + (ReadmitFailure + ReadmitInspection)) flow" where
  "readmit_history n P D groupId subjectUserId detail own u signingKeys firstSight =
     await (loadAdmissions n P D own groupId (ge_generation detail)) (\<lambda>loaded. case loaded of
       Inl reason \<Rightarrow> give (Inr (Inl (ReadmitUnchecked reason)))
     | Inr ctx \<Rightarrow>
         if ax_removedAt ctx subjectUserId \<noteq> None then give (Inr (Inl ReadmitRemoved))
         else do {
           checked \<leftarrow> isAdmitted P D ctx groupId subjectUserId u;
           case checked of
             Inl message \<Rightarrow> give (Inr (Inl (ReadmitUnchecked message)))
           | Inr (admitted, _) \<Rightarrow>
               if admitted then give (Inr (Inl ReadmitAlreadyAdmitted))
               else (case fingerprint_of P u of
                 None \<Rightarrow> give (Inr (Inl (ReadmitUnchecked (js ''the keys served for them are malformed''))))
               | Some print \<Rightarrow> give (Inr (Inr \<lparr>ri_detail = detail, ri_served = u, ri_signingKeys = signingKeys,
                   ri_firstSight = firstSight, ri_fingerprint = print\<rparr>)))
         })"

definition readmit_keys ::
  "nat \<Rightarrow> prims \<Rightarrow> 'd RotationDeps_scheme \<Rightarrow> js_string \<Rightarrow> js_string \<Rightarrow> GroupDetail
   \<Rightarrow> (call, thrown + (ReadmitFailure + ReadmitInspection)) flow" where
  "readmit_keys n P D groupId subjectUserId detail =
     attempt (read_subject D subjectUserId)
       (\<lambda>err. give (Inr (Inl (ReadmitUnchecked (js ''could not read their keys: '' @ thrown_message err)))))
       (\<lambda>(own, served, ps). case served of
          None \<Rightarrow> give (Inr (Inl ReadmitNotFound))
        | Some u \<Rightarrow>
            if up_deleted u then give (Inr (Inl ReadmitDeleted))
            else (case servedSigningKeySet (served_keys u) of
              None \<Rightarrow> give (Inr (Inl (ReadmitUnchecked (js ''the keys served for them are malformed''))))
            | Some signingKeys \<Rightarrow> do {
                history \<leftarrow> ownHistoryFor D own;
                let verdict = pin_verdict P (selfUserId D) own history subjectUserId (pin_of ps subjectUserId) u;
                if verdict \<noteq> Match \<and> verdict \<noteq> FirstSight then give (Inr (Inl ReadmitPinMismatch))
                else readmit_history n P D groupId subjectUserId detail own u signingKeys (verdict = FirstSight)
              }))"

definition readmit_inspect ::
  "nat \<Rightarrow> prims \<Rightarrow> 'd RotationDeps_scheme \<Rightarrow> js_string \<Rightarrow> js_string
   \<Rightarrow> (call, thrown + (ReadmitFailure + ReadmitInspection)) flow" where
  "readmit_inspect n P D groupId subjectUserId =
     attempt (read_group D groupId)
       (\<lambda>err. give (Inr (Inl (case readmit_failure err of
          ReadmitAmbiguous \<Rightarrow> ReadmitUnchecked (js ''could not load the group: '' @ thrown_message err)
        | failure \<Rightarrow> failure))))
       (\<lambda>detail.
          if ge_role detail \<noteq> js ''admin'' \<and> ge_role detail \<noteq> js ''ambassador'' then give (Inr (Inl ReadmitForbidden))
          else if subjectUserId = selfUserId D then give (Inr (Inl (ReadmitRejected (js ''You cannot re-admit yourself.''))))
          else if truthy (gd_myGrantSortKey detail) = None then give (Inr (Inl ReadmitGrantMissing))
          else readmit_keys n P D groupId subjectUserId detail)"

definition prepareReadmit ::
  "nat \<Rightarrow> prims \<Rightarrow> 'd RotationDeps_scheme \<Rightarrow> js_string \<Rightarrow> js_string \<Rightarrow> (call, thrown + (ReadmitFailure + js_string)) flow" where
  "prepareReadmit n P D groupId subjectUserId =
     proceed (readmit_inspect n P D groupId subjectUserId) (\<lambda>found. give (Inr (Inr (ri_fingerprint found))))"

section \<open>Doing it\<close>

text \<open>The clock is one that \<open>toISOString\<close> takes.\<close>

definition readmit_request :: "js_string \<Rightarrow> js_string \<Rightarrow> js_string \<Rightarrow> ReadmitInspection \<Rightarrow> js_string \<Rightarrow> int \<Rightarrow> SignReadmissionRequest" where
  "readmit_request self groupId subjectUserId found inviteId at =
     \<lparr>ra_userId = self, ra_groupId = groupId, ra_subjectUserId = subjectUserId,
      ra_subjectEd25519PublicKey = up_signingPublicKey (ri_served found),
      ra_subjectX25519PublicKey = up_wrappingPublicKey (ri_served found), ra_inviteId = inviteId,
      ra_inviterGrantRef = (case gd_myGrantSortKey (ri_detail found) of None \<Rightarrow> [] | Some s \<Rightarrow> s),
      ra_day = isoDay at, ra_generation = ge_generation (ri_detail found)\<rparr>"

definition sign_readmit ::
  "'d ReadmitDeps_scheme \<Rightarrow> js_string \<Rightarrow> js_string \<Rightarrow> ReadmitInspection
   \<Rightarrow> (call, thrown + (ReadmitFailure + unit)) flow" where
  "sign_readmit D groupId subjectUserId found = do {
     inviteId \<leftarrow> ask (newInviteId D) DrawInviteId;
     at \<leftarrow> read_clock D;
     let req = readmit_request (selfUserId D) groupId subjectUserId found inviteId at;
     attempt (ask (signReadmissionCall D req) (AskReadmission req))
       (\<lambda>err. give (Inr (Inl (if isLiveKeysError err then ReadmitColdKeys
          else ReadmitRejected (js ''Couldn't sign this re-admission. Try again.'')))))
       (\<lambda>signed.
          let body = \<lparr>rr_inviteId = inviteId, rr_generation = ge_generation (ri_detail found),
                rr_inviterGrantRef = am_inviterGrantRef signed, rr_day = am_day signed, rr_signature = am_signature signed\<rparr>
          in attempt (ask (readmitMember D groupId subjectUserId body) (SendReadmit groupId subjectUserId body))
            (\<lambda>err. give (Inr (Inl (if has_status 400 err \<and> has_code ''bad_signature'' err then ReadmitKeysChanged
               else readmit_failure err))))
            (\<lambda>_. give (Inr (Inr ()))))
   }"

definition runReadmit ::
  "nat \<Rightarrow> prims \<Rightarrow> 'd ReadmitDeps_scheme \<Rightarrow> js_string \<Rightarrow> js_string \<Rightarrow> js_string
   \<Rightarrow> (call, thrown + (ReadmitFailure + unit)) flow" where
  "runReadmit n P D groupId subjectUserId confirmedFingerprint =
     proceed (readmit_inspect n P D groupId subjectUserId) (\<lambda>found.
       if ri_fingerprint found \<noteq> confirmedFingerprint then give (Inr (Inl ReadmitKeysChanged))
       else if ri_firstSight found then
         attempt (store_pin D subjectUserId (map bytesToBase64 (ri_signingKeys found))
             (up_wrappingPublicKey (ri_served found)) (up_keyEpoch (ri_served found)))
           (\<lambda>err. give (Inr (Inl (ReadmitUnchecked (js ''could not save their keys: '' @ thrown_message err)))))
           (\<lambda>_. sign_readmit D groupId subjectUserId found)
       else sign_readmit D groupId subjectUserId found)"

section \<open>What the screen says and offers\<close>

definition readmitFailureMessage :: "ReadmitFailure \<Rightarrow> js_string" where
  "readmitFailureMessage outcome = (case outcome of
     ReadmitRejected message \<Rightarrow> message
   | ReadmitUnchecked reason \<Rightarrow>
       js ''Nothing was signed, because the history that decides this could not be checked ('' @ reason @ js '').''
   | ReadmitRemoved \<Rightarrow> js (''The group's signed history shows this member was removed, '' @
       ''so they can only come back through a fresh invitation.'')
   | ReadmitAlreadyAdmitted \<Rightarrow> js ''Their invitation record verifies, so there is nothing to re-admit.''
   | ReadmitPinMismatch \<Rightarrow> js (''The keys the server shows for them don't match the copy you saved earlier, '' @
       ''so nothing was signed. Check with them another way.'')
   | ReadmitKeysChanged \<Rightarrow> js (''Their keys are not the ones whose fingerprint you confirmed, so nothing was signed. '' @
       ''Start again and compare the new fingerprint with them.'')
   | ReadmitForbidden \<Rightarrow> js ''Only a group admin or ambassador can re-admit members.''
   | ReadmitAuthRequired \<Rightarrow> js ''Your session has expired. Log in again and retry.''
   | ReadmitNotFound \<Rightarrow> js ''This member or group no longer exists.''
   | ReadmitDeleted \<Rightarrow> js ''That member's account was deleted.''
   | ReadmitColdKeys \<Rightarrow> js ''This tab needs your password again to re-admit members.''
   | ReadmitGrantMissing \<Rightarrow> js ''Your own grant isn't on record, so a re-admission can't be signed from here yet.''
   | ReadmitStale \<Rightarrow> js (''The group changed while you were working, so nothing was saved. '' @
       ''The latest roster is shown; try again.'')
   | ReadmitAmbiguous \<Rightarrow> js (''We couldn't confirm whether the re-admission was saved. '' @
       ''The latest roster is shown; check it before trying again.''))"

definition shouldReloadAfterReadmit :: "ReadmitFailure + unit \<Rightarrow> bool" where
  "shouldReloadAfterReadmit outcome = (case outcome of
     Inr _ \<Rightarrow> True | Inl failure \<Rightarrow> failure \<in> {ReadmitStale, ReadmitAmbiguous, ReadmitAlreadyAdmitted})"

definition readmittableAfter :: "RotationOutcome option \<Rightarrow> js_string set \<Rightarrow> js_string set" where
  "readmittableAfter outcome previous = (case outcome of
     None \<Rightarrow> previous
   | Some r \<Rightarrow> (case r of
       Blocked blocked changed unadmitted readmittable rewrapped \<Rightarrow> set readmittable
     | Incomplete reason rewrapped \<Rightarrow> previous
     | CannotResume reason \<Rightarrow> previous
     | _ \<Rightarrow> {}))"

end
