(* ===== verification/Approve_Run.thy ===== *)
theory Approve_Run
  imports Readmit_Run
begin

text \<open>
  routes/runApprove.ts: approving the new keys of a dormant member, by a plain wrap of the current group key or by a
  re-key that mints a new one; the server decides which applies, and an unknown outcome is settled by reading again.
\<close>

record ApproveDeps = RotationDeps +
  approveRewrap :: "js_string \<Rightarrow> js_string \<Rightarrow> ApproveRewrapRequest \<Rightarrow> unit answer"
  approveRekey :: "js_string \<Rightarrow> js_string \<Rightarrow> ApproveRekeyRequest \<Rightarrow> unit answer"
  startApprovalCrypto :: "StartApprovalRekeyRequest \<Rightarrow> RotationStarted answer"

datatype ApproveFailure =
    ApprovePinMismatch | ApproveKeysRotated | ApproveKeysChanged | ApproveForbidden | ApproveAuthRequired
  | ApproveNotFound | ApproveDeleted | ApproveColdKeys | ApproveNotDormant | ApproveAskAdmin | ApproveRotationRunning
  | ApproveStale | ApproveUnchecked js_string | ApproveRejected js_string | ApproveAmbiguous

datatype ApproveHow = HowRewrap | HowRekey | HowAlready

type_synonym ApproveResult = "ApproveFailure + ApproveHow"

definition APPROVE_STALE_CODES :: "js_string list" where
  "APPROVE_STALE_CODES = map js [''conflict_retry'', ''rotation_caller_behind'', ''key_epoch_stale'', ''rotation_not_active'']"

definition approve_failure :: "thrown \<Rightarrow> ApproveFailure" where
  "approve_failure err = (case err of
     ApiError status code message \<Rightarrow>
       if has_code ''subject_deleted'' err then ApproveDeleted
       else if code_among APPROVE_STALE_CODES err then ApproveStale
       else if status = 401 then ApproveAuthRequired
       else if status = 403 then ApproveForbidden
       else if status = 404 then ApproveNotFound
       else if status < 500 then ApproveRejected message
       else ApproveAmbiguous
   | OtherThrown message \<Rightarrow> ApproveAmbiguous)"

definition approve_read_failure :: "thrown \<Rightarrow> js_string \<Rightarrow> ApproveFailure" where
  "approve_read_failure err reason =
     (case approve_failure err of ApproveAmbiguous \<Rightarrow> ApproveUnchecked reason | failure \<Rightarrow> failure)"

definition isDormant :: "RosterEntry \<Rightarrow> 'a UserProjection_scheme \<Rightarrow> bool" where
  "isDormant member u \<longleftrightarrow> (case re_wrapEpoch member of None \<Rightarrow> False | Some e \<Rightarrow> e < up_keyEpoch u)"

section \<open>What decides it\<close>

record ApproveInspection =
  ai_detail :: GroupDetail
  ai_served :: UserProjection
  ai_signingKeys :: "bytes list"
  ai_firstSight :: bool
  ai_fingerprint :: js_string
  ai_entry :: RosterEntry

text \<open>The check of the pin, with a pin from before the latest rotation told apart.\<close>

definition approve_pin ::
  "prims \<Rightarrow> 'd GrantCheckDeps_scheme \<Rightarrow> js_string \<Rightarrow> bytes \<Rightarrow> PinRecord list \<Rightarrow> UserProjection
   \<Rightarrow> (call, ApproveFailure + bool) flow" where
  "approve_pin P D subjectUserId own ps u = do {
     history \<leftarrow> ownHistoryFor D own;
     let verdict = pin_verdict P (selfUserId D) own history subjectUserId (pin_of ps subjectUserId) u;
     give (if verdict \<noteq> Match \<and> verdict \<noteq> FirstSight
       then Inl (case pin_of ps subjectUserId of
         Some pinned \<Rightarrow> if verdict = Mismatch \<and> pr_keyEpoch pinned < up_keyEpoch u then ApproveKeysRotated else ApprovePinMismatch
       | None \<Rightarrow> ApprovePinMismatch)
       else Inr (verdict = FirstSight))
   }"

definition approve_keys ::
  "prims \<Rightarrow> 'd RotationDeps_scheme \<Rightarrow> js_string \<Rightarrow> js_string \<Rightarrow> GroupDetail
   \<Rightarrow> (call, ApproveFailure + ApproveInspection) flow" where
  "approve_keys P D groupId subjectUserId detail =
     attempt (await (read_subject D subjectUserId) (\<lambda>(own, served, ps).
                await (read_members D groupId) (\<lambda>members. give (Inr (own, served, ps, members)))))
       (\<lambda>err. give (Inl (ApproveUnchecked (js ''could not read their keys: '' @ thrown_message err))))
       (\<lambda>(own, served, ps, members). case served of
          None \<Rightarrow> give (Inl ApproveNotFound)
        | Some u \<Rightarrow>
            if up_deleted u then give (Inl ApproveDeleted)
            else (case List.find (\<lambda>m. re_userId m = subjectUserId) members of
              None \<Rightarrow> give (Inl ApproveNotFound)
            | Some entry \<Rightarrow>
                if \<not> isDormant entry u then give (Inl ApproveNotDormant)
                else (case (servedSigningKeySet (served_keys u), servedFingerprint P (Some u)) of
                  (Some signingKeys, Some print) \<Rightarrow> do {
                     r \<leftarrow> approve_pin P D subjectUserId own ps u;
                     give (case r of Inl failure \<Rightarrow> Inl failure
                       | Inr firstSight \<Rightarrow> Inr \<lparr>ai_detail = detail, ai_served = u, ai_signingKeys = signingKeys,
                           ai_firstSight = firstSight, ai_fingerprint = print, ai_entry = entry\<rparr>)
                   }
                | _ \<Rightarrow> give (Inl (ApproveUnchecked (js ''the keys served for them are malformed''))))))"

definition approve_inspect ::
  "prims \<Rightarrow> 'd RotationDeps_scheme \<Rightarrow> js_string \<Rightarrow> js_string \<Rightarrow> (call, ApproveFailure + ApproveInspection) flow" where
  "approve_inspect P D groupId subjectUserId =
     (if subjectUserId = selfUserId D then give (Inl (ApproveRejected (js ''You cannot approve your own key change.'')))
      else attempt (read_group D groupId)
        (\<lambda>err. give (Inl (approve_read_failure err (js ''could not load the group: '' @ thrown_message err))))
        (\<lambda>detail.
           if ge_role detail \<noteq> js ''admin'' \<and> ge_role detail \<noteq> js ''ambassador'' then give (Inl ApproveForbidden)
           else approve_keys P D groupId subjectUserId detail))"

definition prepareApprove ::
  "prims \<Rightarrow> 'd RotationDeps_scheme \<Rightarrow> js_string \<Rightarrow> js_string \<Rightarrow> (call, ApproveFailure + js_string) flow" where
  "prepareApprove P D groupId subjectUserId = do {
     found \<leftarrow> approve_inspect P D groupId subjectUserId;
     give (case found of Inl failure \<Rightarrow> Inl failure | Inr f \<Rightarrow> Inr (ai_fingerprint f))
   }"

section \<open>The two writes\<close>

definition approve_sign_failure :: "thrown \<Rightarrow> ApproveFailure" where
  "approve_sign_failure err =
     (if isLiveKeysError err then ApproveColdKeys
      else ApproveRejected (js ''Couldn't prepare this approval. Try again.''))"

text \<open>What the two attempts are made with: the group as read, the row served and the caller's wrapped key.\<close>

record ApproveContext =
  ao_groupId :: js_string
  ao_subjectUserId :: js_string
  ao_detail :: GroupDetail
  ao_served :: UserProjection
  ao_ownWrapped :: WireWrapped

text \<open>The member's entry, read again; a failed read is ambiguous.\<close>

definition settle_approval :: "'d RotationDeps_scheme \<Rightarrow> ApproveContext \<Rightarrow> ApproveFailure \<Rightarrow> (call, ApproveResult) flow" where
  "settle_approval D X unsettled =
     attempt (read_members D (ao_groupId X)) (\<lambda>err. give (Inl ApproveAmbiguous)) (\<lambda>members.
       case List.find (\<lambda>m. re_userId m = ao_subjectUserId X) members of
         None \<Rightarrow> give (Inl ApproveNotFound)
       | Some entry \<Rightarrow>
           attempt (read_users D [ao_subjectUserId X]) (\<lambda>err. give (Inl ApproveAmbiguous)) (\<lambda>(users, failure).
             case map_of users (ao_subjectUserId X) of
               None \<Rightarrow> give (Inl ApproveAmbiguous)
             | Some u \<Rightarrow> give (if isDormant entry u then Inl unsettled else Inr HowAlready)))"

text \<open>What both writes make of a rejection that none of their own codes explains.\<close>

definition approve_unexplained :: "'d RotationDeps_scheme \<Rightarrow> ApproveContext \<Rightarrow> thrown \<Rightarrow> (call, ApproveResult option) flow" where
  "approve_unexplained D X err = do {
     r \<leftarrow> (if has_status 400 err \<and> code_of err = None then settle_approval D X ApproveStale
          else case approve_failure err of
            ApproveAmbiguous \<Rightarrow> settle_approval D X ApproveAmbiguous
          | failure \<Rightarrow> give (Inl failure));
     give (Some r)
   }"

definition approval_record :: "js_string \<Rightarrow> ApproveContext \<Rightarrow> int \<Rightarrow> SignWrapRecordRequest" where
  "approval_record self X generation =
     \<lparr>wq_userId = self, wq_groupId = ao_groupId X, wq_memberUserId = ao_subjectUserId X, wq_generation = generation,
      wq_keyEpoch = up_keyEpoch (ao_served X), wq_reason = RekeyApproval\<rparr>"

text \<open>An attempt answers \<open>None\<close> for \<open>'fallback'\<close>.\<close>

definition tryRewrap :: "'d ApproveDeps_scheme \<Rightarrow> ApproveContext \<Rightarrow> (call, ApproveResult option) flow" where
  "tryRewrap D X =
     attempt (ask_rewrap D
         \<lparr>rw_userId = selfUserId D, rw_groupId = ao_groupId X, rw_ownWrappedGroupKey = ao_ownWrapped X,
          rw_ownGeneration = ge_generation (ao_detail X),
          rw_recipients = [(ao_subjectUserId X, up_wrappingPublicKey (ao_served X))]\<rparr>)
       (\<lambda>err. give (Some (Inl (approve_sign_failure err))))
       (\<lambda>wraps. case map_option snd (List.find (\<lambda>(i, w). i = ao_subjectUserId X) wraps) of
          None \<Rightarrow> give (Some (Inl (ApproveRejected (js ''Couldn't wrap the group key. Try again.''))))
        | Some wrappedKey \<Rightarrow> do {
            record_fields \<leftarrow> wrapRecordFor (signWrapRecord D) (approval_record (selfUserId D) X (ge_generation (ao_detail X)));
            attempt (sendWithRecord record_fields (\<lambda>fs.
                let body = \<lparr>aw_generation = ge_generation (ao_detail X), aw_wrappedKey = wrappedKey,
                      aw_keyEpoch = up_keyEpoch (ao_served X), aw_record = fs\<rparr>
                in ask (approveRewrap D (ao_groupId X) (ao_subjectUserId X) body)
                     (SendApproveRewrap (ao_groupId X) (ao_subjectUserId X) body)))
              (\<lambda>err. if has_code ''rekey_required'' err then give None
                 else if has_code ''member_not_dormant'' err then give (Some (Inr HowAlready))
                 else if has_code ''wrap_epoch_stale'' err then give (Some (Inl ApproveKeysChanged))
                 else approve_unexplained D X err)
              (\<lambda>_. give (Some (Inr HowRewrap)))
          })"

definition tryRekey :: "'d ApproveDeps_scheme \<Rightarrow> ApproveContext \<Rightarrow> (call, ApproveResult option) flow" where
  "tryRekey D X =
     (if ge_role (ao_detail X) \<noteq> js ''admin'' then give (Some (Inl ApproveAskAdmin))
      else let req = \<lparr>sa_userId = selfUserId D, sa_groupId = ao_groupId X, sa_ownWrappedGroupKey = ao_ownWrapped X,
             sa_ownGeneration = ge_generation (ao_detail X), sa_memberUserId = ao_subjectUserId X,
             sa_memberWrappingPublicKey = up_wrappingPublicKey (ao_served X)\<rparr>
      in attempt (ask (startApprovalCrypto D req) (AskApprovalRekey req))
        (\<lambda>err. give (Some (Inl (approve_sign_failure err))))
        (\<lambda>minted. do {
           record_fields \<leftarrow> wrapRecordFor (signWrapRecord D) (approval_record (selfUserId D) X (rs_generation minted));
           attempt (sendWithRecord record_fields (\<lambda>fs.
               let body = \<lparr>to_generation = rs_generation minted, to_link = rs_link minted,
                     to_wrappedKey = rs_removerWrappedKey minted, to_startSignature = rs_startSignature minted,
                     to_record = fs, ar_memberWrappedKey = rs_memberWrappedKey minted,
                     ar_memberKeyEpoch = up_keyEpoch (ao_served X)\<rparr>
               in ask (approveRekey D (ao_groupId X) (ao_subjectUserId X) body)
                    (SendApproveRekey (ao_groupId X) (ao_subjectUserId X) body)))
             (\<lambda>err. if has_code ''rekey_not_required'' err then give None
                else if has_code ''member_not_dormant'' err then give (Some (Inr HowAlready))
                else if has_code ''wrap_epoch_stale'' err then give (Some (Inl ApproveKeysChanged))
                else if has_code ''rotation_in_progress'' err then give (Some (Inl ApproveRotationRunning))
                else approve_unexplained D X err)
             (\<lambda>_. give (Some (Inr HowRekey)))
         }))"

section \<open>Approving\<close>

definition approve_writes :: "'d ApproveDeps_scheme \<Rightarrow> ApproveContext \<Rightarrow> bool \<Rightarrow> (call, ApproveResult) flow" where
  "approve_writes D X mustMint = do {
     result \<leftarrow> (if mustMint then tryRekey D X else tryRewrap D X);
     case result of
       Some r \<Rightarrow> give r
     | None \<Rightarrow> do {
         again \<leftarrow> (if mustMint then tryRewrap D X else tryRekey D X);
         give (case again of None \<Rightarrow> Inl ApproveStale | Some r \<Rightarrow> r)
       }
   }"

definition approve_found ::
  "'d ApproveDeps_scheme \<Rightarrow> js_string \<Rightarrow> js_string \<Rightarrow> ApproveInspection \<Rightarrow> (call, ApproveResult) flow" where
  "approve_found D groupId subjectUserId found =
     (if gd_rotation (ai_detail found) \<noteq> None then give (Inl ApproveRotationRunning)
      else case ge_wrappedGroupKey (ai_detail found) of
        None \<Rightarrow> give (Inl (ApproveUnchecked (js ''your own copy of the group key is missing'')))
      | Some ownWrapped \<Rightarrow>
          let mustMint = (gd_revocationMode (ai_detail found) = js ''rotating''
                \<and> ge_generation (ai_detail found) \<le> re_generation (ai_entry found));
              X = \<lparr>ao_groupId = groupId, ao_subjectUserId = subjectUserId, ao_detail = ai_detail found,
                ao_served = ai_served found, ao_ownWrapped = ownWrapped\<rparr>
          in if mustMint \<and> ge_role (ai_detail found) \<noteq> js ''admin'' then give (Inl ApproveAskAdmin)
             else if ai_firstSight found then
               attempt (store_pin D subjectUserId (map bytesToBase64 (ai_signingKeys found))
                   (up_wrappingPublicKey (ai_served found)) (up_keyEpoch (ai_served found)))
                 (\<lambda>err. give (Inl (ApproveUnchecked (js ''could not save their keys: '' @ thrown_message err))))
                 (\<lambda>_. approve_writes D X mustMint)
             else approve_writes D X mustMint)"

definition runApprove ::
  "prims \<Rightarrow> 'd ApproveDeps_scheme \<Rightarrow> js_string \<Rightarrow> js_string \<Rightarrow> js_string \<Rightarrow> (call, ApproveResult) flow" where
  "runApprove P D groupId subjectUserId confirmedFingerprint = do {
     r \<leftarrow> approve_inspect P D groupId subjectUserId;
     case r of
       Inl failure \<Rightarrow> give (Inl failure)
     | Inr found \<Rightarrow>
         if ai_fingerprint found \<noteq> confirmedFingerprint then give (Inl ApproveKeysChanged)
         else approve_found D groupId subjectUserId found
   }"

section \<open>What the screen says\<close>

definition approveFailureMessage :: "ApproveFailure \<Rightarrow> js_string" where
  "approveFailureMessage outcome = (case outcome of
     ApproveRejected message \<Rightarrow> message
   | ApproveUnchecked reason \<Rightarrow>
       js ''Nothing was approved, because what decides this could not be checked ('' @ reason @ js '').''
   | ApproveKeysRotated \<Rightarrow> js (''They changed their keys since you saved theirs. '' @
       ''Accept their key change on their row first, then approve them.'')
   | ApprovePinMismatch \<Rightarrow> js (''The keys the server shows for them don't match the copy you saved earlier, '' @
       ''so nothing was approved. Check with them another way.'')
   | ApproveKeysChanged \<Rightarrow> js (''Their keys are not the ones whose fingerprint you confirmed, so nothing was approved. '' @
       ''Start again and compare the new fingerprint with them.'')
   | ApproveForbidden \<Rightarrow> js ''Only a group admin or ambassador can approve a key change.''
   | ApproveAuthRequired \<Rightarrow> js ''Your session has expired. Log in again and retry.''
   | ApproveNotFound \<Rightarrow> js ''This member or group no longer exists.''
   | ApproveDeleted \<Rightarrow> js ''That member's account was deleted.''
   | ApproveColdKeys \<Rightarrow> js ''This tab needs your password again to approve a key change.''
   | ApproveNotDormant \<Rightarrow> js ''Their keys are already approved here.''
   | ApproveAskAdmin \<Rightarrow> js (''Approving them needs a new key for the whole group, which only an admin can make. '' @
       ''Ask an admin to approve them.'')
   | ApproveRotationRunning \<Rightarrow> js ''A key rotation is running. Wait for it to finish, then approve them.''
   | ApproveStale \<Rightarrow> js (''The group changed while you were working, so nothing was saved. '' @
       ''The latest roster is shown; try again.'')
   | ApproveAmbiguous \<Rightarrow> js (''We couldn't confirm whether the approval was saved. '' @
       ''The latest roster is shown; check it before trying again.''))"

definition shouldReloadAfterApprove :: "ApproveResult \<Rightarrow> bool" where
  "shouldReloadAfterApprove outcome = (case outcome of
     Inr how \<Rightarrow> True
   | Inl failure \<Rightarrow> failure \<in> {ApproveStale, ApproveAmbiguous, ApproveNotDormant, ApproveRotationRunning})"

end
