(* ===== verification/Member_Checks.thy ===== *)
theory Member_Checks
  imports Admission_Checks Approve_Run
begin

text \<open>
  What the flows about one member know of that member's keys: the row the server serves, the caller's pin of it, and
  what the history says of their admission.
\<close>

section \<open>The facts\<close>

text \<open>The pins read hold no pin of the member, or one that the keys served match.\<close>

definition pin_checked :: "prims \<Rightarrow> js_string \<Rightarrow> bytes \<Rightarrow> js_string \<Rightarrow> UserProjection \<Rightarrow> bool \<Rightarrow> call set \<Rightarrow> bool" where
  "pin_checked P self own i u first H \<longleftrightarrow>
     (\<exists>ps. ReadPins (Inr ps) \<in> H
        \<and> (if first then pin_of ps i = None
           else \<exists>history. own_history own history H \<and> pin_verdict P self own history i (pin_of ps i) u = Match))"

text \<open>And where there was none, the keys served have been pinned.\<close>

definition pin_confirmed :: "prims \<Rightarrow> js_string \<Rightarrow> bytes \<Rightarrow> js_string \<Rightarrow> UserProjection \<Rightarrow> call set \<Rightarrow> bool" where
  "pin_confirmed P self own i u H \<longleftrightarrow> pin_checked P self own i u False H
     \<or> pin_checked P self own i u True H
       \<and> (\<exists>keys. servedSigningKeySet (served_keys u) = Some keys
            \<and> StorePin i (map bytesToBase64 keys) (up_wrappingPublicKey u) (up_keyEpoch u) (Inr ()) \<in> H)"

text \<open>No admission of the member verifies: none is served, or the one served is too old or does not verify.\<close>

definition refused_in :: "prims \<Rightarrow> js_string \<Rightarrow> AdmissionContext \<Rightarrow> js_string \<Rightarrow> UserProjection \<Rightarrow> bool" where
  "refused_in P groupId ctx i u \<longleftrightarrow>
     \<not> (i = an_creatorUserId (vc_anchor (ax_chain ctx)) \<and> ax_removedAt ctx i = None)
     \<and> (ax_byInvitee ctx i = None \<or> servedSigningKeySet (served_keys u) = None
        \<or> (\<exists>r keys. ax_byInvitee ctx i = Some r \<and> servedSigningKeySet (served_keys u) = Some keys
             \<and> ((\<exists>g. ax_removedAt ctx i = Some g \<and> ad_generation r < g)
                \<or> (\<exists>history. (ad_inviteeX25519PublicKey r = up_wrappingPublicKey u \<longrightarrow> history = None)
                     \<and> verifyAdmission P \<lparr>va_groupId = groupId, va_record = r, va_inviteeSigningKeys = keys,
                         va_inviteeWrappingKey = up_wrappingPublicKey u, va_chain = vc_result (ax_chain ctx),
                         va_inviterHistory = vc_keyHistories (ax_chain ctx) (ad_inviterUserId r),
                         va_inviteeHistory = history\<rparr> \<noteq> Admitted))))"

lemma member_facts_last [lasting_intro]:
  "lasting (pin_checked P self own i u first)"
  "lasting (pin_confirmed P self own i u)"
  unfolding pin_checked_def [abs_def] pin_confirmed_def [abs_def] by (intro lasting_intro)+

lemma pin_of_None: "pin_of ps i = None \<Longrightarrow> pin_map ps i = None"
  by (auto simp: pin_of_def pin_map_def js_map_def find_None_iff map_of_eq_None_iff)

lemma pin_checked_by:
  "ReadPins (Inr ps) \<in> H \<Longrightarrow> own_history own history H
   \<Longrightarrow> pin_verdict P self own history i (pin_of ps i) u \<in> {Match, FirstSight}
   \<Longrightarrow> pin_checked P self own i u (pin_verdict P self own history i (pin_of ps i) u = FirstSight) H"
  unfolding pin_checked_def using pin_verdict_first_sight [of P self own history i "pin_of ps i" u] by auto

lemma pin_checked_cases:
  "ReadPins (Inr ps) \<in> H \<Longrightarrow> own_history own history H
   \<Longrightarrow> pin_verdict P self own history i (pin_of ps i) u = Match \<Longrightarrow> pin_checked P self own i u False H"
  "ReadPins (Inr ps) \<in> H \<Longrightarrow> own_history own history H
   \<Longrightarrow> pin_verdict P self own history i (pin_of ps i) u = FirstSight \<Longrightarrow> pin_checked P self own i u True H"
  using pin_checked_by [of ps H own history P self i u] by simp_all

lemma pin_confirmed_by:
  "pin_checked P self own i u first H \<Longrightarrow> servedSigningKeySet (served_keys u) = Some keys
   \<Longrightarrow> first \<longrightarrow> StorePin i (map bytesToBase64 keys) (up_wrappingPublicKey u) (up_keyEpoch u) (Inr ()) \<in> H
   \<Longrightarrow> pin_confirmed P self own i u H"
  unfolding pin_confirmed_def by (cases first) auto

section \<open>What the flows learn\<close>

context key_checks
begin

lemma subject_known:
  "meets J A (read_subject D i) (on_ok (\<lambda>(own, served, ps) H. own_key own H \<and> ReadPins (Inr ps) \<in> H
     \<and> (\<forall>u. served = Some u \<longrightarrow> served_in i u H)))"
proof -
  have "meets J (\<lambda>H. True) (read_subject D i) (on_ok (\<lambda>(own, served, ps) H. own_key own H \<and> ReadPins (Inr ps) \<in> H
     \<and> (\<forall>u. served = Some u \<longrightarrow> served_in i u H)))"
    unfolding read_subject_def
  proof (intro meets_await_ok [OF _ own_key_ok] meets_await_ok [OF _ meets_read_ok] meets_prod, goal_cases)
    case (4 own x users failure row failed)
    have rows: "map_of users i = Some u \<Longrightarrow> ReadUsers [i] (Inr (users, failure)) \<in> H \<Longrightarrow> served_in i u H" for u H
      by (auto simp: served_in_def dest: map_of_SomeD)
    have read: "meets J (\<lambda>H. own_key own H \<and> ReadUsers [i] (Inr x) \<in> H)
       (await (read_pins D) (\<lambda>ps. give (Inr (own, served, ps))))
       (on_ok (\<lambda>(own, served, ps) H. own_key own H \<and> ReadPins (Inr ps) \<in> H \<and> (\<forall>u. served = Some u \<longrightarrow> served_in i u H)))"
      if "served = map_of users i" for served
      by (intro meets_await_ok [OF _ meets_read_ok] meets_give) (auto simp: 4 that is_read_def rows intro!: lasting_intro)
    show ?case
      using 4(2) by (cases row; cases failed) (auto intro!: meets_give read [simplified])
  qed (auto simp: is_read_def intro!: lasting_intro)
  then show ?thesis by (rule meets_pre) simp
qed

text \<open>A pin stored where the check found none.\<close>

lemma pin_at_first_sight:
  "pin_checked P self own i u True H \<Longrightarrow> served_in i u H \<Longrightarrow> servedSigningKeySet (served_keys u) = Some keys
   \<Longrightarrow> J H (StorePin i (map bytesToBase64 keys) (up_wrappingPublicKey u) (up_keyEpoch u) r)"
  by (rule pins) (auto simp: pin_checked_def first_sight_def dest: pin_of_None)

text \<open>An admission that the check refuses.\<close>

lemma refusal_known:
  "meets J (\<lambda>H. True) (isAdmitted P D ctx groupId i u) (on_ok (\<lambda>(admitted, ctx') H. \<not> admitted \<longrightarrow> refused_in P groupId ctx i u))"
proof (cases "i = an_creatorUserId (vc_anchor (ax_chain ctx)) \<and> ax_removedAt ctx i = None")
  case True
  then show ?thesis
    unfolding isAdmitted_def if_P [OF True] by (intro meets_give) simp
next
  case False
  show ?thesis
  proof (cases "ax_byInvitee ctx i = None \<or> servedSigningKeySet (served_keys u) = None")
    case True
    with False show ?thesis
      unfolding isAdmitted_def by (auto intro!: meets_give simp: refused_in_def split: option.split)
  next
    case neither: False
    then obtain r keys where found: "ax_byInvitee ctx i = Some r" "servedSigningKeySet (served_keys u) = Some keys" by auto
    show ?thesis
      unfolding isAdmitted_def using False found
      by (simp only: if_False option.case prod.case)
        (intro meets_if meets_give meets_bind [OF lasting_pure, where B = "\<lambda>h H. \<forall>history histories. h = Inr (history, histories)
            \<longrightarrow> ad_inviteeX25519PublicKey r = up_wrappingPublicKey u \<longrightarrow> history = None"] meets_sum meets_prod
          meets_weaken [OF quiet_history]; auto simp: refused_in_def split: option.splits)
  qed
qed

end

end
