(* ===== verification/Readmit_Checks.thy ===== *)
theory Readmit_Checks
  imports Member_Checks
begin

text \<open>
  routes/runReadmit.ts: what a re-admission may do.  \<open>readmit_call\<close> says of each call what must have been read and
  checked before it.
\<close>

section \<open>What a re-admission may do\<close>

text \<open>
  What the caller's signature stands on: their own standing, the keys served, and a history that neither names the
  member as removed nor verifies their admission.
\<close>

definition readmit_basis ::
  "nat \<Rightarrow> prims \<Rightarrow> js_string \<Rightarrow> js_string \<Rightarrow> js_string \<Rightarrow> GroupDetail \<Rightarrow> bytes \<Rightarrow> UserProjection \<Rightarrow> call set \<Rightarrow> bool" where
  "readmit_basis n P self groupId i detail own u H \<longleftrightarrow>
     ReadGroup groupId (Inr detail) \<in> H \<and> ge_role detail \<in> {js ''admin'', js ''ambassador''} \<and> i \<noteq> self
     \<and> truthy (gd_myGrantSortKey detail) \<noteq> None \<and> own_key own H \<and> served_in i u H \<and> \<not> up_deleted u
     \<and> (\<exists>ctx. context_verified n P self own groupId (ge_generation detail) ctx H \<and> ax_removedAt ctx i = None
          \<and> refused_in P groupId ctx i u)"

definition readmission_allowed ::
  "nat \<Rightarrow> prims \<Rightarrow> js_string \<Rightarrow> js_string \<Rightarrow> js_string \<Rightarrow> js_string \<Rightarrow> SignReadmissionRequest \<Rightarrow> call set \<Rightarrow> bool" where
  "readmission_allowed n P self groupId i confirmed req H \<longleftrightarrow>
     (\<exists>detail own u at. readmit_basis n P self groupId i detail own u H \<and> pin_confirmed P self own i u H
        \<and> fingerprint_of P u = Some confirmed
        \<and> ra_userId req = self \<and> ra_groupId req = groupId \<and> ra_subjectUserId req = i
        \<and> ra_subjectEd25519PublicKey req = up_signingPublicKey u \<and> ra_subjectX25519PublicKey req = up_wrappingPublicKey u
        \<and> gd_myGrantSortKey detail = Some (ra_inviterGrantRef req) \<and> ra_generation req = ge_generation detail
        \<and> DrawInviteId (ra_inviteId req) \<in> H \<and> ReadClock at \<in> H \<and> ra_day req = isoDay at)"

definition readmit_call ::
  "nat \<Rightarrow> prims \<Rightarrow> js_string \<Rightarrow> js_string \<Rightarrow> js_string \<Rightarrow> js_string \<Rightarrow> call set \<Rightarrow> call \<Rightarrow> bool" where
  "readmit_call n P self groupId i confirmed H c \<longleftrightarrow> (case c of
     StorePin j sent w e r \<Rightarrow> first_sight j sent w e H
   | WriteAnchorPin g pin r \<Rightarrow> anchor_checked n P self g pin H
   | AskReadmission req r \<Rightarrow> readmission_allowed n P self groupId i confirmed req H
   | SendReadmit g j req r \<Rightarrow> g = groupId \<and> j = i
       \<and> (\<exists>rq signed. AskReadmission rq (Inr signed) \<in> H \<and> rr_inviteId req = ra_inviteId rq
            \<and> rr_generation req = ra_generation rq \<and> rr_inviterGrantRef req = am_inviterGrantRef signed
            \<and> rr_day req = am_day signed \<and> rr_signature req = am_signature signed)
   | _ \<Rightarrow> is_read c)"

lemma readmit_last [lasting_intro]: "lasting (readmit_basis n P self groupId i detail own u)"
  unfolding readmit_basis_def [abs_def] by (intro lasting_intro)

locale readmit_checks =
  fixes J :: "call set \<Rightarrow> call \<Rightarrow> bool" and n :: nat and P :: prims and self :: js_string
    and groupId :: js_string and subject :: js_string and confirmed :: js_string
  assumes allowed: "readmit_call n P self groupId subject confirmed H c \<Longrightarrow> J H c"

sublocale readmit_checks \<subseteq> key_checks J n P self
proof unfold_locales
  show "is_read c \<Longrightarrow> J H c" for c H
    by (rule allowed) (cases c; simp add: readmit_call_def is_read_def)
qed (rule allowed, simp add: readmit_call_def)+

context readmit_checks
begin

section \<open>The inspection\<close>

abbreviation inspected :: "ReadmitInspection \<Rightarrow> call set \<Rightarrow> bool" where
  "inspected found H \<equiv> (\<exists>own. readmit_basis n P self groupId subject (ri_detail found) own (ri_served found) H
     \<and> pin_checked P self own subject (ri_served found) (ri_firstSight found) H)
     \<and> servedSigningKeySet (served_keys (ri_served found)) = Some (ri_signingKeys found)
     \<and> fingerprint_of P (ri_served found) = Some (ri_fingerprint found)"

text \<open>What is known when the history is read.\<close>

abbreviation keys_known :: "GroupDetail \<Rightarrow> bytes \<Rightarrow> UserProjection \<Rightarrow> bool \<Rightarrow> call set \<Rightarrow> bool" where
  "keys_known detail own u first H \<equiv> ReadGroup groupId (Inr detail) \<in> H \<and> own_key own H \<and> served_in subject u H
     \<and> pin_checked P self own subject u first H"

lemma history_inspected:
  assumes "selfUserId D = self" "ge_role detail \<in> {js ''admin'', js ''ambassador''}" "subject \<noteq> self"
    "truthy (gd_myGrantSortKey detail) \<noteq> None" "\<not> up_deleted u" "servedSigningKeySet (served_keys u) = Some keys"
  shows "meets J (keys_known detail own u first) (readmit_history n P D groupId subject detail own u keys first) (on_ok (on_ok inspected))"
  unfolding readmit_history_def
proof (rule meets_await_ok [OF _ admissions_known [OF assms(1)]], goal_cases)
  case (2 loaded)
  show ?case
  proof (intro meets_sum meets_give meets_if, simp, simp, goal_cases)
    case (1 ctx)
    then have none: "ax_removedAt ctx subject = None" by simp
    have basis: "readmit_basis n P self groupId subject detail own u H"
      if "keys_known detail own u first H" "context_verified n P self own groupId (ge_generation detail) ctx H"
        "refused_in P groupId ctx subject u" for H
      using that assms none unfolding readmit_basis_def by blast
    show ?case
    proof (rule meets_bind [OF _ meets_pre [OF refusal_known]], goal_cases)
      case (3 checked)
      show ?case
        by (intro meets_sum meets_prod meets_if meets_option meets_give)
          (use 1 assms(6) basis in \<open>auto simp: on_ok_def\<close>)
    qed (use 1 in \<open>auto intro!: lasting_intro\<close>)
  qed
qed (intro lasting_intro)

lemma keys_inspected:
  assumes "selfUserId D = self" "ge_role detail \<in> {js ''admin'', js ''ambassador''}" "subject \<noteq> self"
    "truthy (gd_myGrantSortKey detail) \<noteq> None"
  shows "meets J (\<lambda>H. ReadGroup groupId (Inr detail) \<in> H) (readmit_keys n P D groupId subject detail) (on_ok (on_ok inspected))"
  unfolding readmit_keys_def
proof (rule meets_attempt_ok [OF _ subject_known], goal_cases)
  case (3 x)
  obtain own served ps where x: "x = (own, served, ps)" by (cases x)
  show ?case
    unfolding x prod.case
  proof (intro meets_option meets_if meets_give, simp_all, goal_cases)
    case (1 u keys)
    show ?case
      unfolding assms(1) Let_def
    proof (rule meets_bind [OF _ own_history_found], goal_cases)
      case (2 history)
      show ?case
        by (intro meets_if meets_give meets_pre [OF history_inspected [OF assms]] 1)
          (auto intro!: pin_checked_by)
    qed (auto intro!: lasting_intro)
  qed
qed (auto intro!: lasting_intro meets_give)

lemma inspection_known:
  assumes "selfUserId D = self"
  shows "meets J (\<lambda>H. True) (readmit_inspect n P D groupId subject) (on_ok (on_ok inspected))"
  unfolding readmit_inspect_def assms
  by (intro meets_attempt_ok [OF lasting_pure meets_read_ok] meets_if meets_give meets_pre [OF keys_inspected])
    (auto simp: is_read_def assms)

section \<open>The signature\<close>

lemma signing_allowed:
  fixes D :: "'d ReadmitDeps_scheme"
  assumes "selfUserId D = self" "ri_fingerprint found = confirmed"
  shows "meets J (\<lambda>H. inspected found H \<and> (ri_firstSight found \<longrightarrow> StorePin subject (map bytesToBase64 (ri_signingKeys found))
       (up_wrappingPublicKey (ri_served found)) (up_keyEpoch (ri_served found)) (Inr ()) \<in> H))
     (sign_readmit D groupId subject found) (\<lambda>r H. True)"
proof -
  let ?A = "\<lambda>H. inspected found H \<and> (ri_firstSight found \<longrightarrow> StorePin subject (map bytesToBase64 (ri_signingKeys found))
       (up_wrappingPublicKey (ri_served found)) (up_keyEpoch (ri_served found)) (Inr ()) \<in> H)"
  have last: "lasting ?A" by (intro lasting_intro)
  have signed: "J H (AskReadmission (readmit_request self groupId subject found inviteId at) r)"
    if known: "?A H" "DrawInviteId inviteId \<in> H" "ReadClock at \<in> H" for H inviteId at r
  proof (rule allowed)
    from known(1) obtain own where own: "readmit_basis n P self groupId subject (ri_detail found) own (ri_served found) H"
      "pin_checked P self own subject (ri_served found) (ri_firstSight found) H" by blast
    then have "pin_confirmed P self own subject (ri_served found) H"
      using known(1) by (blast intro: pin_confirmed_by)
    moreover from own(1) obtain ref where "gd_myGrantSortKey (ri_detail found) = Some ref"
      by (auto simp: readmit_basis_def truthy_def split: option.splits)
    ultimately have "readmission_allowed n P self groupId subject confirmed
        (readmit_request self groupId subject found inviteId at) H"
      unfolding readmission_allowed_def readmit_request_def
      by (intro exI [of _ "ri_detail found"] exI [of _ own] exI [of _ "ri_served found"] exI [of _ at])
        (use known own assms(2) in simp)
    then show "readmit_call n P self groupId subject confirmed H
        (AskReadmission (readmit_request self groupId subject found inviteId at) r)" by (simp add: readmit_call_def)
  qed
  have sent: "J H (SendReadmit groupId subject \<lparr>rr_inviteId = inviteId, rr_generation = ge_generation (ri_detail found),
       rr_inviterGrantRef = am_inviterGrantRef signed, rr_day = am_day signed, rr_signature = am_signature signed\<rparr> r)"
    if "AskReadmission (readmit_request self groupId subject found inviteId at) (Inr signed) \<in> H" for H inviteId at signed r
    by (rule allowed, simp add: readmit_call_def, intro exI conjI, rule that) (simp_all add: readmit_request_def)
  show ?thesis
    unfolding sign_readmit_def Let_def assms(1)
    by (intro meets_bind [OF last meets_read] meets_bind [OF _ meets_read] meets_attempt [OF _ meets_ask] meets_give)
      (auto intro!: lasting_intro intro: signed sent simp: is_read_def)
qed

lemma run_allowed:
  fixes D :: "'d ReadmitDeps_scheme"
  assumes "selfUserId D = self"
  shows "meets J A (runReadmit n P D groupId subject confirmed) (\<lambda>r H. True)"
proof -
  have "meets J (\<lambda>H. True) (runReadmit n P D groupId subject confirmed) (\<lambda>r H. True)"
    unfolding runReadmit_def
  proof (rule meets_proceed [OF _ inspection_known [OF assms]], (auto intro: lasting_intro)[3], goal_cases)
    case (1 found)
    have last: "lasting (inspected found)" by (intro lasting_intro)
    show ?case
      unfolding on_ok_simps simp_thms
      by (intro meets_if meets_give meets_attempt [OF last meets_ask] meets_pre [OF signing_allowed [OF assms]])
        (auto simp: readmit_basis_def intro: pin_at_first_sight)
  qed
  then show ?thesis by (rule meets_pre) simp
qed

end

interpretation readmission: readmit_checks "readmit_call n P self groupId subject confirmed" n P self groupId subject confirmed
  by unfold_locales

text \<open>Every call of a re-admission is one it may make.\<close>

lemma readmit_follows:
  fixes D :: "'d ReadmitDeps_scheme"
  assumes "run_state (runReadmit n P D groupId subject confirmed) [] = (outcome, h)"
  shows "justified (readmit_call n P (selfUserId D) groupId subject confirmed) h"
  using meets_run [OF readmission.run_allowed [OF refl] _ assms] by simp

end
