(* ===== verification/Readmit_Properties.thy ===== *)
theory Readmit_Properties
  imports Readmit_Checks Rotation_Sample
begin

text \<open>
  routes/runReadmit.ts: what a re-admission guarantees, read off \<open>readmit_call\<close> of Readmit_Checks, and a concrete run in
  which alice re-admits bob, of whom the server serves no admission.
\<close>

section \<open>A run\<close>

definition readmit_detail :: GroupDetail where
  "readmit_detail = (sample_detail 1 carol)\<lparr>gd_myGrantSortKey := Some root_key\<rparr>"

definition signed_again :: SignedAdmission where
  "signed_again = \<lparr>am_inviterGrantRef = root_key, am_day = js ''2026-03-01'', am_signature = js ''AA''\<rparr>"

abbreviation readmit_deps :: ReadmitDeps where
  "readmit_deps \<equiv> served_deps alice 1 readmit_detail []
     (ReadmitDeps.fields (\<lambda>req h. Inr signed_again) (\<lambda>g i req h. Inr ()) (\<lambda>h. js ''invite''))"

lemma readmit_deps_fields [simp]:
  "signReadmissionCall readmit_deps = (\<lambda>req h. Inr signed_again)" "readmitMember readmit_deps = (\<lambda>g i req h. Inr ())"
  "newInviteId readmit_deps = (\<lambda>h. js ''invite'')"
  by (simp_all add: served_deps_def ReadmitDeps.defs)






section \<open>What a re-admission guarantees\<close>



end
