(* ===== verification/Approve_Checks.thy ===== *)
theory Approve_Checks
  imports Member_Checks
begin

text \<open>
  routes/runApprove.ts: what an approval may do.  \<open>approve_call\<close> says of each call what must have been read and
  checked before it.
\<close>

section \<open>What an approval may do\<close>

definition listed_dormant :: "js_string \<Rightarrow> js_string \<Rightarrow> UserProjection \<Rightarrow> call set \<Rightarrow> bool" where
  "listed_dormant groupId i u H \<longleftrightarrow>
     (\<exists>members. ReadMembers groupId (Inr members) \<in> H \<and> (\<exists>m\<in>set members. re_userId m = i \<and> isDormant m u))"

definition approve_basis ::
  "prims \<Rightarrow> js_string \<Rightarrow> js_string \<Rightarrow> js_string \<Rightarrow> js_string \<Rightarrow> GroupDetail \<Rightarrow> UserProjection \<Rightarrow> call set \<Rightarrow> bool" where
  "approve_basis P self groupId i confirmed detail u H \<longleftrightarrow>
     ReadGroup groupId (Inr detail) \<in> H \<and> ge_role detail \<in> {js ''admin'', js ''ambassador''} \<and> gd_rotation detail = None
     \<and> i \<noteq> self \<and> served_in i u H \<and> \<not> up_deleted u \<and> listed_dormant groupId i u H
     \<and> fingerprint_of P u = Some confirmed \<and> (\<exists>own. own_key own H \<and> pin_confirmed P self own i u H)"

text \<open>The signed record sent with a wrap, when one is: it says the same generation and the same epoch.\<close>

definition record_agrees :: "js_string \<Rightarrow> int \<Rightarrow> int \<Rightarrow> WrapRecordFields \<Rightarrow> call set \<Rightarrow> bool" where
  "record_agrees i generation epoch fs H \<longleftrightarrow>
     fs = None \<or> (\<exists>f req. fs = Some f \<and> AskWrapRecord req (Inr f) \<in> H \<and> wq_memberUserId req = i
       \<and> wq_generation req = generation \<and> wq_keyEpoch req = epoch \<and> wq_reason req = RekeyApproval)"

definition rewrap_approved ::
  "prims \<Rightarrow> js_string \<Rightarrow> js_string \<Rightarrow> js_string \<Rightarrow> js_string \<Rightarrow> ApproveRewrapRequest \<Rightarrow> call set \<Rightarrow> bool" where
  "rewrap_approved P self groupId i confirmed req H \<longleftrightarrow>
     (\<exists>detail u rq wraps. approve_basis P self groupId i confirmed detail u H
        \<and> AskRewrap rq (Inr wraps) \<in> H \<and> (i, aw_wrappedKey req) \<in> set wraps
        \<and> rw_recipients rq = [(i, up_wrappingPublicKey u)] \<and> rw_ownGeneration rq = ge_generation detail
        \<and> aw_generation req = ge_generation detail \<and> aw_keyEpoch req = up_keyEpoch u
        \<and> record_agrees i (ge_generation detail) (up_keyEpoch u) (aw_record req) H)"

definition rekey_approved ::
  "prims \<Rightarrow> js_string \<Rightarrow> js_string \<Rightarrow> js_string \<Rightarrow> js_string \<Rightarrow> ApproveRekeyRequest \<Rightarrow> call set \<Rightarrow> bool" where
  "rekey_approved P self groupId i confirmed req H \<longleftrightarrow>
     (\<exists>detail u rq minted. approve_basis P self groupId i confirmed detail u H \<and> ge_role detail = js ''admin''
        \<and> AskApprovalRekey rq (Inr minted) \<in> H \<and> sa_memberUserId rq = i
        \<and> sa_memberWrappingPublicKey rq = up_wrappingPublicKey u \<and> sa_ownGeneration rq = ge_generation detail
        \<and> to_generation req = rs_generation minted \<and> to_link req = rs_link minted
        \<and> to_wrappedKey req = rs_removerWrappedKey minted \<and> to_startSignature req = rs_startSignature minted
        \<and> ar_memberWrappedKey req = rs_memberWrappedKey minted \<and> ar_memberKeyEpoch req = up_keyEpoch u
        \<and> record_agrees i (rs_generation minted) (up_keyEpoch u) (to_record req) H)"

definition approve_call ::
  "nat \<Rightarrow> prims \<Rightarrow> js_string \<Rightarrow> js_string \<Rightarrow> js_string \<Rightarrow> js_string \<Rightarrow> call set \<Rightarrow> call \<Rightarrow> bool" where
  "approve_call n P self groupId i confirmed H c \<longleftrightarrow> (case c of
     StorePin j sent w e r \<Rightarrow> first_sight j sent w e H
   | WriteAnchorPin g pin r \<Rightarrow> anchor_checked n P self g pin H
   | AskRewrap req r \<Rightarrow>
       (\<exists>detail u. approve_basis P self groupId i confirmed detail u H \<and> rw_userId req = self \<and> rw_groupId req = groupId
          \<and> rw_ownGeneration req = ge_generation detail \<and> ge_wrappedGroupKey detail = Some (rw_ownWrappedGroupKey req)
          \<and> rw_recipients req = [(i, up_wrappingPublicKey u)])
   | AskApprovalRekey req r \<Rightarrow>
       (\<exists>detail u. approve_basis P self groupId i confirmed detail u H \<and> ge_role detail = js ''admin''
          \<and> sa_userId req = self \<and> sa_groupId req = groupId \<and> sa_memberUserId req = i
          \<and> sa_ownGeneration req = ge_generation detail \<and> ge_wrappedGroupKey detail = Some (sa_ownWrappedGroupKey req)
          \<and> sa_memberWrappingPublicKey req = up_wrappingPublicKey u)
   | AskWrapRecord req r \<Rightarrow>
       (\<exists>detail u. approve_basis P self groupId i confirmed detail u H \<and> wq_userId req = self \<and> wq_groupId req = groupId
          \<and> wq_memberUserId req = i \<and> wq_keyEpoch req = up_keyEpoch u \<and> wq_reason req = RekeyApproval)
   | SendApproveRewrap g j req r \<Rightarrow> g = groupId \<and> j = i \<and> rewrap_approved P self groupId i confirmed req H
   | SendApproveRekey g j req r \<Rightarrow> g = groupId \<and> j = i \<and> rekey_approved P self groupId i confirmed req H
   | _ \<Rightarrow> is_read c)"

text \<open>What an inspection found.\<close>

definition approve_inspected ::
  "prims \<Rightarrow> js_string \<Rightarrow> js_string \<Rightarrow> js_string \<Rightarrow> ApproveInspection \<Rightarrow> call set \<Rightarrow> bool" where
  "approve_inspected P self groupId i found H \<longleftrightarrow> ReadGroup groupId (Inr (ai_detail found)) \<in> H
     \<and> ge_role (ai_detail found) \<in> {js ''admin'', js ''ambassador''} \<and> i \<noteq> self
     \<and> served_in i (ai_served found) H \<and> \<not> up_deleted (ai_served found)
     \<and> listed_dormant groupId i (ai_served found) H \<and> fingerprint_of P (ai_served found) = Some (ai_fingerprint found)
     \<and> servedSigningKeySet (served_keys (ai_served found)) = Some (ai_signingKeys found)
     \<and> (\<exists>own. own_key own H \<and> pin_checked P self own i (ai_served found) (ai_firstSight found) H)"

lemma approve_last [lasting_intro]:
  "lasting (listed_dormant groupId i u)"
  "lasting (approve_basis P self groupId i confirmed detail u)"
  "lasting (record_agrees i generation epoch fs)"
  "lasting (approve_inspected P self groupId i found)"
  unfolding listed_dormant_def [abs_def] approve_basis_def [abs_def] record_agrees_def [abs_def] approve_inspected_def [abs_def]
  by (intro lasting_intro)+

lemma dormant_listed:
  "ReadMembers groupId (Inr members) \<in> H \<Longrightarrow> List.find (\<lambda>m. re_userId m = i) members = Some entry \<Longrightarrow> isDormant entry u
   \<Longrightarrow> listed_dormant groupId i u H"
  unfolding listed_dormant_def by (auto simp: find_Some_iff intro!: exI [of _ members] bexI [of _ entry])

locale approve_checks =
  fixes J :: "call set \<Rightarrow> call \<Rightarrow> bool" and n :: nat and P :: prims and self :: js_string
    and groupId :: js_string and subject :: js_string and confirmed :: js_string
  assumes allowed: "approve_call n P self groupId subject confirmed H c \<Longrightarrow> J H c"

sublocale approve_checks \<subseteq> key_checks J n P self
proof unfold_locales
  show "is_read c \<Longrightarrow> J H c" for c H
    by (rule allowed) (cases c; simp add: approve_call_def is_read_def)
qed (rule allowed, simp add: approve_call_def)+

context approve_checks
begin

section \<open>The inspection\<close>

lemma approval_pin_known:
  assumes "selfUserId D = self"
  shows "meets J (\<lambda>H. ReadPins (Inr ps) \<in> H) (approve_pin P D subject own ps u)
     (on_ok (\<lambda>first. pin_checked P self own subject u first))"
  unfolding approve_pin_def assms
  by (intro meets_bind [OF _ own_history_found]) (auto intro!: lasting_intro meets_give intro: pin_checked_cases simp: Let_def)

lemma keys_inspected:
  assumes "selfUserId D = self" "ge_role detail \<in> {js ''admin'', js ''ambassador''}" "subject \<noteq> self"
  shows "meets J (\<lambda>H. ReadGroup groupId (Inr detail) \<in> H) (approve_keys P D groupId subject detail) (on_ok (approve_inspected P self groupId subject))"
  unfolding approve_keys_def
proof (rule meets_attempt_ok [where B = "\<lambda>(own, served, ps, members) H. own_key own H \<and> ReadPins (Inr ps) \<in> H
      \<and> (\<forall>u. served = Some u \<longrightarrow> served_in subject u H) \<and> ReadMembers groupId (Inr members) \<in> H"], goal_cases)
  case 2
  show ?case
  proof (rule meets_await_ok [OF _ subject_known], goal_cases)
    case (2 x)
    obtain own served ps where x: "x = (own, served, ps)" by (cases x)
    show ?case
      unfolding x prod.case
      by (intro meets_await_ok [OF _ meets_read_ok] meets_give) (auto simp: is_read_def intro!: lasting_intro)
  qed (intro lasting_intro)
next
  case (4 x)
  obtain own served ps members where x: "x = (own, served, ps, members)" by (cases x)
  show ?case
    unfolding x prod.case
  proof (intro meets_option meets_if meets_give meets_prod, simp_all, goal_cases)
    case (1 u entry keys print)
    show ?case
      by (rule meets_bind [OF _ approval_pin_known [OF assms(1), THEN meets_pre]])
        (use 1 assms in \<open>auto intro!: lasting_intro meets_give dormant_listed
          simp: on_ok_def approve_inspected_def servedFingerprint_def split: sum.split\<close>)
  qed
qed (auto intro!: lasting_intro meets_give)

lemma inspection_known:
  assumes "selfUserId D = self"
  shows "meets J (\<lambda>H. True) (approve_inspect P D groupId subject) (on_ok (approve_inspected P self groupId subject))"
  unfolding approve_inspect_def assms
  by (intro meets_attempt_ok [OF lasting_pure meets_read_ok] meets_if meets_give meets_pre [OF keys_inspected])
    (auto simp: is_read_def assms)

section \<open>The two writes\<close>

abbreviation decided :: "ApproveContext \<Rightarrow> call set \<Rightarrow> bool" where
  "decided X H \<equiv> approve_basis P self groupId subject confirmed (ao_detail X) (ao_served X) H
     \<and> ao_groupId X = groupId \<and> ao_subjectUserId X = subject \<and> ge_wrappedGroupKey (ao_detail X) = Some (ao_ownWrapped X)"

lemma quiet_settle: "quiet J (settle_approval D X unsettled)"
  unfolding settle_approval_def by (intro quiet_rules quiet_read) (simp_all add: is_read_def)

lemma quiet_unexplained: "quiet J (approve_unexplained D X err)"
  unfolding approve_unexplained_def
  by (intro quiet_rules quiet_settle) (auto intro!: quiet_rules quiet_settle split: ApproveFailure.split)

lemma record_made:
  "ao_subjectUserId X = i \<Longrightarrow> AskWrapRecord (approval_record self X generation) (Inr f) \<in> H
   \<Longrightarrow> record_agrees i generation (up_keyEpoch (ao_served X)) (Some f) H"
  unfolding record_agrees_def
  by (rule disjI2, intro exI conjI, rule refl, assumption) (simp_all add: approval_record_def)

lemma record_known:
  "meets J (decided X) (wrapRecordFor signer (approval_record self X generation))
     (\<lambda>fs. record_agrees subject generation (up_keyEpoch (ao_served X)) fs)"
proof -
  have asked: "J H (AskWrapRecord (approval_record self X generation) r)" if "decided X H" for H r
    by (rule allowed) (use that in \<open>auto simp: approve_call_def approval_record_def\<close>)
  have last: "lasting (decided X)" by (intro lasting_intro)
  show ?thesis
    unfolding wrapRecordFor_def
    by (intro meets_option meets_give meets_attempt [OF last meets_ask])
      (auto intro: asked record_made simp: record_agrees_def [of _ _ _ None])
qed

lemma record_left_out [simp]: "record_agrees i generation epoch None H"
  by (simp add: record_agrees_def)

lemma rewrap_allowed:
  fixes D :: "'d ApproveDeps_scheme"
  assumes "selfUserId D = self"
  shows "meets J (decided X) (tryRewrap D X) (\<lambda>r H. True)"
proof -
  let ?req = "\<lparr>rw_userId = self, rw_groupId = ao_groupId X, rw_ownWrappedGroupKey = ao_ownWrapped X,
    rw_ownGeneration = ge_generation (ao_detail X), rw_recipients = [(ao_subjectUserId X, up_wrappingPublicKey (ao_served X))]\<rparr>"
  have asked: "J H (AskRewrap ?req r)" if "decided X H" for H r
    by (rule allowed) (use that in \<open>auto simp: approve_call_def\<close>)
  have sent: "J H (SendApproveRewrap (ao_groupId X) (ao_subjectUserId X) \<lparr>aw_generation = ge_generation (ao_detail X),
      aw_wrappedKey = key, aw_keyEpoch = up_keyEpoch (ao_served X), aw_record = fs\<rparr> r)"
    if "decided X H" "AskRewrap ?req (Inr wraps) \<in> H" "(subject, key) \<in> set wraps"
      "record_agrees subject (ge_generation (ao_detail X)) (up_keyEpoch (ao_served X)) fs H" for H wraps key fs r
  proof (rule allowed)
    have "rewrap_approved P self groupId subject confirmed \<lparr>aw_generation = ge_generation (ao_detail X),
      aw_wrappedKey = key, aw_keyEpoch = up_keyEpoch (ao_served X), aw_record = fs\<rparr> H"
      unfolding rewrap_approved_def
      by (intro exI [of _ "ao_detail X"] exI [of _ "ao_served X"] exI [of _ ?req] exI [of _ wraps]) (use that in simp)
    with that(1) show "approve_call n P self groupId subject confirmed H (SendApproveRewrap (ao_groupId X) (ao_subjectUserId X)
      \<lparr>aw_generation = ge_generation (ao_detail X), aw_wrappedKey = key, aw_keyEpoch = up_keyEpoch (ao_served X), aw_record = fs\<rparr> r)"
      by (simp add: approve_call_def)
  qed
  have last: "lasting (decided X)" by (intro lasting_intro)
  have found: "(i, w) \<in> set wraps" if "List.find (\<lambda>(j, w). j = i) wraps = Some (j, w)" for i j w and wraps :: "(js_string \<times> WireWrapped) list"
    using that by (auto simp: find_Some_iff) (metis nth_mem)
  show ?thesis
    unfolding tryRewrap_def assms
  proof (intro meets_attempt [OF last meets_ask] meets_option meets_give, goal_cases)
    case (4 wraps key)
    have row: "(ao_subjectUserId X, key) \<in> set wraps" using 4 by (auto dest: found)
    show ?case
    proof (rule meets_bind [OF _ record_known [THEN meets_pre]], goal_cases)
      case (3 fs)
      show ?case
        unfolding Let_def
        by (intro meets_attempt [where B = "\<lambda>r H. True"] send_either meets_post [OF meets_ask] meets_if meets_give
            meets_pre [OF quiet_unexplained])
          (use row in \<open>auto intro!: lasting_intro intro: sent\<close>)
    qed (auto intro!: lasting_intro)
  qed (auto intro: asked)
qed

lemma rekey_allowed:
  fixes D :: "'d ApproveDeps_scheme"
  assumes "selfUserId D = self"
  shows "meets J (decided X) (tryRekey D X) (\<lambda>r H. True)"
proof (cases "ge_role (ao_detail X) = js ''admin''")
  case False
  then show ?thesis unfolding tryRekey_def by (simp, intro meets_give) simp
next
  case True
  let ?req = "\<lparr>sa_userId = self, sa_groupId = ao_groupId X, sa_ownWrappedGroupKey = ao_ownWrapped X,
    sa_ownGeneration = ge_generation (ao_detail X), sa_memberUserId = ao_subjectUserId X,
    sa_memberWrappingPublicKey = up_wrappingPublicKey (ao_served X)\<rparr>"
  let ?body = "\<lambda>minted fs. \<lparr>to_generation = rs_generation minted, to_link = rs_link minted,
    to_wrappedKey = rs_removerWrappedKey minted, to_startSignature = rs_startSignature minted, to_record = fs,
    ar_memberWrappedKey = rs_memberWrappedKey minted, ar_memberKeyEpoch = up_keyEpoch (ao_served X)\<rparr>"
  have asked: "J H (AskApprovalRekey ?req r)" if "decided X H" for H r
    by (rule allowed) (use that True in \<open>auto simp: approve_call_def\<close>)
  have sent: "J H (SendApproveRekey (ao_groupId X) (ao_subjectUserId X) (?body minted fs) r)"
    if "decided X H" "AskApprovalRekey ?req (Inr minted) \<in> H"
      "record_agrees subject (rs_generation minted) (up_keyEpoch (ao_served X)) fs H" for H minted fs r
  proof (rule allowed)
    have "rekey_approved P self groupId subject confirmed (?body minted fs) H"
      unfolding rekey_approved_def
      by (intro exI [of _ "ao_detail X"] exI [of _ "ao_served X"] exI [of _ ?req] exI [of _ minted]) (use that True in simp)
    with that(1) show "approve_call n P self groupId subject confirmed H
      (SendApproveRekey (ao_groupId X) (ao_subjectUserId X) (?body minted fs) r)" by (simp add: approve_call_def)
  qed
  have last: "lasting (decided X)" by (intro lasting_intro)
  show ?thesis
    unfolding tryRekey_def assms Let_def
  proof (rule meets_if, simp add: True, rule meets_attempt [OF last meets_ask], goal_cases)
    case (3 minted)
    show ?case
    proof (rule meets_bind [OF _ record_known [THEN meets_pre]], goal_cases)
      case (3 fs)
      show ?case
        by (intro meets_attempt [where B = "\<lambda>r H. True"] send_either meets_post [OF meets_ask] meets_if meets_give
            meets_pre [OF quiet_unexplained])
          (auto intro!: lasting_intro intro: sent)
    qed (auto intro!: lasting_intro)
  qed (auto intro: asked meets_give)
qed

section \<open>An approval\<close>

lemma writes_allowed:
  fixes D :: "'d ApproveDeps_scheme"
  assumes "selfUserId D = self"
  shows "meets J (decided X) (approve_writes D X mustMint) (\<lambda>r H. True)"
proof -
  have last: "lasting (decided X)" by (intro lasting_intro)
  have writes: "meets J (decided X) (if b then tryRekey D X else tryRewrap D X) (\<lambda>r H. True)"
    "meets J (decided X) (if b then tryRewrap D X else tryRekey D X) (\<lambda>r H. True)" for b
    by (intro meets_if rekey_allowed [OF assms] rewrap_allowed [OF assms])+
  show ?thesis
    unfolding approve_writes_def
    by (intro meets_bind [OF last writes(1)] meets_option meets_give meets_pre [OF meets_bind [OF last writes(2) meets_give]]) simp_all
qed

lemma found_allowed:
  fixes D :: "'d ApproveDeps_scheme"
  assumes "selfUserId D = self" "ai_fingerprint found = confirmed"
  shows "meets J (approve_inspected P self groupId subject found) (approve_found D groupId subject found) (\<lambda>r H. True)"
proof -
  have last: "lasting (approve_inspected P self groupId subject found)" by (intro lasting_intro)
  have stored: "J H (StorePin subject (map bytesToBase64 (ai_signingKeys found))
      (up_wrappingPublicKey (ai_served found)) (up_keyEpoch (ai_served found)) r)"
    if "approve_inspected P self groupId subject found H" "ai_firstSight found" for H r
    using that by (auto simp: approve_inspected_def intro: pin_at_first_sight)
  have ready: "approve_basis P self groupId subject confirmed (ai_detail found) (ai_served found) H"
    if "approve_inspected P self groupId subject found H" "gd_rotation (ai_detail found) = None" "ai_firstSight found \<longrightarrow> StorePin subject
      (map bytesToBase64 (ai_signingKeys found)) (up_wrappingPublicKey (ai_served found)) (up_keyEpoch (ai_served found)) (Inr ()) \<in> H" for H
    using that assms(2) unfolding approve_basis_def approve_inspected_def by (blast intro: pin_confirmed_by)
  show ?thesis
    unfolding approve_found_def Let_def
    by (intro meets_if meets_option meets_give meets_attempt [OF last meets_ask] meets_pre [OF writes_allowed [OF assms(1)]])
      (auto intro: stored ready)
qed

lemma run_allowed:
  fixes D :: "'d ApproveDeps_scheme"
  assumes "selfUserId D = self"
  shows "meets J A (runApprove P D groupId subject confirmed) (\<lambda>r H. True)"
proof -
  have "meets J (\<lambda>H. True) (runApprove P D groupId subject confirmed) (\<lambda>r H. True)"
    unfolding runApprove_def
  proof (rule meets_bind [OF _ inspection_known [OF assms]], rule lasting_pure, goal_cases)
    case (1 found)
    show ?case
      by (intro meets_sum meets_if meets_give meets_pre [OF found_allowed [OF assms]]) auto
  qed
  then show ?thesis by (rule meets_pre) simp
qed

end

interpretation approval: approve_checks "approve_call n P self groupId subject confirmed" n P self groupId subject confirmed
  by unfold_locales

text \<open>Every call of an approval is one it may make.\<close>

lemma approve_follows:
  fixes D :: "'d ApproveDeps_scheme"
  assumes "run_state (runApprove P D groupId subject confirmed) [] = (outcome, h)"
  shows "justified (approve_call n P (selfUserId D) groupId subject confirmed) h"
  using meets_run [OF approval.run_allowed [OF refl] _ assms] by simp

end
