(* ===== verification/Approve_Properties.thy ===== *)
theory Approve_Properties
  imports Approve_Checks Rotation_Sample
begin

text \<open>
  routes/runApprove.ts: what an approval guarantees, read off \<open>approve_call\<close> of Approve_Checks, and two concrete runs in
  which alice approves the new keys of bob: a plain wrap, and, in a group that rotates its key, a re-key.
\<close>

section \<open>The runs\<close>

definition dormant_bob :: RosterEntry where
  "dormant_bob = (roster_entry bob (js ''member'') 1)\<lparr>re_wrapEpoch := Some 0\<rparr>"

definition rotated_bob :: UserProjection where
  "rotated_bob = (user_of bob 2 12)\<lparr>up_keyEpoch := 1\<rparr>"

definition approve_detail :: "js_string \<Rightarrow> GroupDetail" where
  "approve_detail mode = (sample_detail 1 carol)\<lparr>gd_rotation := None, gd_revocationMode := mode\<rparr>"

definition minted_for_bob :: RotationStarted where
  "minted_for_bob = a_minted\<lparr>rs_generation := 2, rs_memberWrappedKey := Some a_wrap\<rparr>"

definition approve_deps :: "js_string \<Rightarrow> ApproveDeps" where
  "approve_deps mode = (served_deps alice 1 (approve_detail mode) []
     (ApproveDeps.fields (\<lambda>g i req h. Inr ()) (\<lambda>g i req h. Inr ()) (\<lambda>req h. Inr minted_for_bob)))
     \<lparr>getUsers := (\<lambda>ids h. Inr ([(bob, rotated_bob)], None)), listAllMembers := (\<lambda>g h. Inr [dormant_bob]),
      rewrapCrypto := (\<lambda>req h. Inr [(bob, a_wrap)])\<rparr>"

lemma approve_deps_fields [simp]:
  "selfUserId (approve_deps mode) = alice" "getGroup (approve_deps mode) = (\<lambda>g h. Inr (approve_detail mode))"
  "ownSigningKey (approve_deps mode) = (\<lambda>h. Inr (bytesToBase64 (seed_of 1)))" "loadOwnKeyHistory (approve_deps mode) = None"
  "listPins (approve_deps mode) = (\<lambda>h. Inr [])" "pinKeys (approve_deps mode) = (\<lambda>i ks w e h. Inr ())"
  "getUsers (approve_deps mode) = (\<lambda>ids h. Inr ([(bob, rotated_bob)], None))"
  "listAllMembers (approve_deps mode) = (\<lambda>g h. Inr [dormant_bob])"
  "rewrapCrypto (approve_deps mode) = (\<lambda>req h. Inr [(bob, a_wrap)])" "signWrapRecord (approve_deps mode) = None"
  "approveRewrap (approve_deps mode) = (\<lambda>g i req h. Inr ())" "approveRekey (approve_deps mode) = (\<lambda>g i req h. Inr ())"
  "startApprovalCrypto (approve_deps mode) = (\<lambda>req h. Inr minted_for_bob)"
  by (simp_all add: approve_deps_def served_deps_def ApproveDeps.defs)

definition rotated_print :: js_string where
  "rotated_print = (case fingerprint_of sample rotated_bob of Some f \<Rightarrow> f)"

lemma rotated_bob [simp]:
  "fingerprint_of sample rotated_bob = Some rotated_print" "up_deleted rotated_bob = False" "up_keyEpoch rotated_bob = 1"
  "up_wrappingPublicKey rotated_bob = bytesToBase64 (seed_of 12)" "up_signingPublicKey rotated_bob = bytesToBase64 (seed_of 2)"
  "servedSigningKeySet (served_keys rotated_bob) = Some [seed_of 2]"
  by (simp_all add: rotated_print_def rotated_bob_def user_of_def fingerprint_of_def fingerprint_def PUBLIC_KEY_SIZE_def
      base64.dec_enc servedSigningKeySet_def served_keys_def keySet_def KEY_SIZE_def)

lemma dormant_bob [simp]:
  "re_userId dormant_bob = bob" "isDormant dormant_bob rotated_bob" "re_generation dormant_bob = 1"
  by (simp_all add: dormant_bob_def isDormant_def)

lemma approve_detail_fields [simp]:
  "ge_role (approve_detail mode) = js ''admin''" "ge_generation (approve_detail mode) = 1" "gd_rotation (approve_detail mode) = None"
  "ge_wrappedGroupKey (approve_detail mode) = Some a_wrap" "gd_revocationMode (approve_detail mode) = mode"
  by (simp_all add: approve_detail_def)

definition bob_rewrap :: ApproveRewrapRequest where
  "bob_rewrap = \<lparr>aw_generation = 1, aw_wrappedKey = a_wrap, aw_keyEpoch = 1, aw_record = None\<rparr>"

definition bob_rekey :: ApproveRekeyRequest where
  "bob_rekey = \<lparr>to_generation = 2, to_link = a_link, to_wrappedKey = a_wrap, to_startSignature = js ''AA'', to_record = None,
     ar_memberWrappedKey = Some a_wrap, ar_memberKeyEpoch = 1\<rparr>"

definition approve_reads :: "js_string \<Rightarrow> call list" where
  "approve_reads mode = [ReadGroup group1 (Inr (approve_detail mode)), ReadOwnKey (Inr (bytesToBase64 (seed_of 1))),
     ReadUsers [bob] (Inr ([(bob, rotated_bob)], None)), ReadPins (Inr []), ReadMembers group1 (Inr [dormant_bob]),
     StorePin bob [bytesToBase64 (seed_of 2)] (bytesToBase64 (seed_of 12)) 1 (Inr ())]"

definition rewrap_ask :: call where
  "rewrap_ask = AskRewrap \<lparr>rw_userId = alice, rw_groupId = group1, rw_ownWrappedGroupKey = a_wrap, rw_ownGeneration = 1,
     rw_recipients = [(bob, bytesToBase64 (seed_of 12))]\<rparr> (Inr [(bob, a_wrap)])"

definition rekey_ask :: call where
  "rekey_ask = AskApprovalRekey \<lparr>sa_userId = alice, sa_groupId = group1, sa_ownWrappedGroupKey = a_wrap, sa_ownGeneration = 1,
     sa_memberUserId = bob, sa_memberWrappingPublicKey = bytesToBase64 (seed_of 12)\<rparr> (Inr minted_for_bob)"

lemma approve_runs:
  "run_state (runApprove sample (approve_deps []) group1 bob rotated_print) []
   = (Inr HowRewrap, approve_reads [] @ [rewrap_ask, SendApproveRewrap group1 bob bob_rewrap (Inr ())])"
  "run_state (runApprove sample (approve_deps (js ''rotating'')) group1 bob rotated_print) []
   = (Inr HowRekey, approve_reads (js ''rotating'') @ [rekey_ask, SendApproveRekey group1 bob bob_rekey (Inr ())])"
  by (rule run_by_ends, simp add: runApprove_def approve_inspect_def approve_keys_def approve_pin_def approve_found_def
      approve_writes_def tryRewrap_def tryRekey_def wrapRecordFor_def sendWithRecord_def read_subject_def own_signing_key_def
      servedFingerprint_def ownHistoryFor_def pin_verdict_def pin_of_def evaluatePin_def flow_simps base64.dec_enc
      approve_reads_def rewrap_ask_def rekey_ask_def bob_rewrap_def bob_rekey_def minted_for_bob_def a_minted_def)+

section \<open>What an approval guarantees\<close>

text \<open>
  C12: An approval sends one wrap, for keys whose fingerprint was confirmed.  Whatever \<open>runApprove\<close> sends, a wrap of the
  current group key or a re-key that mints a new one, it has read the group as an admin or ambassador (for a re-key: as an
  admin) while no rotation was running, and the roster lists the member as dormant.  The wrapping key the group key was
  wrapped for, the epoch sent and the record signed are those of one row served for the member, whose fingerprint is the
  one the caller confirmed and whose keys are those of the caller's pin or have been pinned because there was none.
\<close>
theorem approval_wraps_for_confirmed_keys:
  fixes D :: "'d ApproveDeps_scheme"
  assumes "run_state (runApprove P D groupId subject confirmed) [] = (outcome, h1 @ c # h2)"
    and "c = SendApproveRewrap g i rewrap answer \<or> c = SendApproveRekey g i rekey answer"
  shows "g = groupId \<and> i = subject \<and>
    (\<exists>detail u. approve_basis P (selfUserId D) groupId subject confirmed detail u (set h1)
     \<and> (c = SendApproveRewrap g i rewrap answer \<longrightarrow>
          (\<exists>rq wraps. AskRewrap rq (Inr wraps) \<in> set h1 \<and> rw_recipients rq = [(subject, up_wrappingPublicKey u)]
             \<and> rw_ownGeneration rq = ge_generation detail \<and> (subject, aw_wrappedKey rewrap) \<in> set wraps
             \<and> aw_generation rewrap = ge_generation detail \<and> aw_keyEpoch rewrap = up_keyEpoch u
             \<and> record_agrees subject (ge_generation detail) (up_keyEpoch u) (aw_record rewrap) (set h1)))
     \<and> (c = SendApproveRekey g i rekey answer \<longrightarrow>
          ge_role detail = js ''admin''
          \<and> (\<exists>rq minted. AskApprovalRekey rq (Inr minted) \<in> set h1 \<and> sa_memberUserId rq = subject
             \<and> sa_memberWrappingPublicKey rq = up_wrappingPublicKey u \<and> sa_ownGeneration rq = ge_generation detail
             \<and> to_generation rekey = rs_generation minted \<and> to_link rekey = rs_link minted
             \<and> to_wrappedKey rekey = rs_removerWrappedKey minted \<and> to_startSignature rekey = rs_startSignature minted
             \<and> ar_memberWrappedKey rekey = rs_memberWrappedKey minted \<and> ar_memberKeyEpoch rekey = up_keyEpoch u
             \<and> record_agrees subject (rs_generation minted) (up_keyEpoch u) (to_record rekey) (set h1))))"
proof -
  from justified_split [OF approve_follows [OF assms(1)]]
  have "approve_call n P (selfUserId D) groupId subject confirmed (set h1) c" for n .
  then show ?thesis
    using assms(2) unfolding approve_call_def rewrap_approved_def rekey_approved_def by (elim disjE) fastforce+
qed

theorem approval_wraps_for_confirmed_keys_witness:
  "\<exists>h1 h1' detail detail' u u'.
     run_state (runApprove sample (approve_deps []) group1 bob rotated_print) []
       = (Inr HowRewrap, h1 @ [SendApproveRewrap group1 bob bob_rewrap (Inr ())])
     \<and> approve_basis sample alice group1 bob rotated_print detail u (set h1) \<and> aw_keyEpoch bob_rewrap = up_keyEpoch u
     \<and> run_state (runApprove sample (approve_deps (js ''rotating'')) group1 bob rotated_print) []
       = (Inr HowRekey, h1' @ [SendApproveRekey group1 bob bob_rekey (Inr ())])
     \<and> approve_basis sample alice group1 bob rotated_print detail' u' (set h1') \<and> ar_memberKeyEpoch bob_rekey = up_keyEpoch u'"
proof -
  let ?h = "approve_reads [] @ [rewrap_ask]" and ?h' = "approve_reads (js ''rotating'') @ [rekey_ask]"
  have runs: "run_state (runApprove sample (approve_deps []) group1 bob rotated_print) []
      = (Inr HowRewrap, ?h @ SendApproveRewrap group1 bob bob_rewrap (Inr ()) # [])"
    "run_state (runApprove sample (approve_deps (js ''rotating'')) group1 bob rotated_print) []
      = (Inr HowRekey, ?h' @ SendApproveRekey group1 bob bob_rekey (Inr ()) # [])"
    using approve_runs by simp_all
  have self: "selfUserId (approve_deps mode) = alice" for mode by simp
  note both = approval_wraps_for_confirmed_keys [OF runs(1), of group1 bob bob_rewrap "Inr ()" bob_rekey, unfolded self]
    approval_wraps_for_confirmed_keys [OF runs(2), of group1 bob bob_rewrap "Inr ()" bob_rekey, unfolded self]
  from both(1) obtain detail u where 1: "approve_basis sample alice group1 bob rotated_print detail u (set ?h)"
    "aw_keyEpoch bob_rewrap = up_keyEpoch u" by auto
  from both(2) obtain detail' u' where 2: "approve_basis sample alice group1 bob rotated_print detail' u' (set ?h')"
    "ar_memberKeyEpoch bob_rekey = up_keyEpoch u'" by auto
  show ?thesis
    by (intro exI [of _ ?h] exI [of _ ?h'] exI [of _ detail] exI [of _ detail'] exI [of _ u] exI [of _ u'])
      (use runs 1 2 in simp)
qed

end
