(* ===== verification/Accept_Run.thy ===== *)
theory Accept_Run
  imports Readmit_Run
begin

text \<open>
  routes/runAcceptKeyChange.ts: replacing the caller's pin of somebody by the keys served now, after the caller compared
  the fingerprint, with the evidence the screen shows.  A failure is on the left.
\<close>

record AcceptKeyChangeDeps = GrantCheckDeps +
  acceptUserDetail :: "js_string \<Rightarrow> UserDetail answer"
  acceptHistoryFailure :: "(bytes \<Rightarrow> js_string option answer) option"

datatype AcceptFailure =
    AcceptNotChanged | AcceptRollback | AcceptPinUnverifiable | AcceptKeysChanged | AcceptStale | AcceptAuthRequired
  | AcceptNotFound | AcceptDeleted | AcceptColdKeys | AcceptUnchecked js_string | AcceptRejected js_string

record AcceptInspection =
  ci_served :: UserDetail
  ci_signingKeys :: "bytes list"
  ci_fingerprint :: js_string
  ci_evidence :: KeyChangeEvidence
  ci_own :: bytes
  ci_pins :: "PinRecord list"
  ci_pinnerHistory :: "OwnKeyHistory option"

section \<open>What decides it\<close>

text \<open>An allowlist over the verdict: only a mismatch is a key change.\<close>

definition accept_verdict ::
  "prims \<Rightarrow> 'd AcceptKeyChangeDeps_scheme \<Rightarrow> js_string \<Rightarrow> UserDetail \<Rightarrow> bytes \<Rightarrow> PinRecord list \<Rightarrow> bytes list \<Rightarrow> js_string
   \<Rightarrow> OwnKeyHistory option \<Rightarrow> (call, thrown + (AcceptFailure + AcceptInspection)) flow" where
  "accept_verdict P D subjectUserId u own ps signingKeys print history =
     (case pin_verdict P (selfUserId D) own history subjectUserId (pin_of ps subjectUserId) u of
        Rollback \<Rightarrow> give (Inr (Inl AcceptRollback))
      | BadSignature \<Rightarrow>
          await (case acceptHistoryFailure D of
                   None \<Rightarrow> give (Inr None)
                 | Some failure \<Rightarrow> ask (failure own) (ReadHistoryFailure own)) (\<lambda>failed.
            give (Inr (Inl (case failed of
              Some why \<Rightarrow> AcceptUnchecked (js ''could not load your key history: '' @ why)
            | None \<Rightarrow> AcceptPinUnverifiable))))
      | Mismatch \<Rightarrow>
          (case pin_of ps subjectUserId of
             None \<Rightarrow> give (Inr (Inl AcceptNotChanged))
           | Some pin \<Rightarrow> give (Inr (Inr
               \<lparr>ci_served = u, ci_signingKeys = signingKeys, ci_fingerprint = print,
                ci_evidence = keyChangeEvidence P subjectUserId (pr_signingPublicKeys pin) (pr_keyEpoch pin)
                  (up_signingPublicKey u) (ud_keyChanges u),
                ci_own = own, ci_pins = ps, ci_pinnerHistory = history\<rparr>)))
      | _ \<Rightarrow> give (Inr (Inl AcceptNotChanged)))"

definition accept_inspect ::
  "prims \<Rightarrow> 'd AcceptKeyChangeDeps_scheme \<Rightarrow> js_string \<Rightarrow> (call, thrown + (AcceptFailure + AcceptInspection)) flow" where
  "accept_inspect P D subjectUserId =
     (if subjectUserId = selfUserId D then give (Inr (Inl (AcceptRejected (js ''You cannot accept your own key change.''))))
      else attempt (await (ask (acceptUserDetail D subjectUserId) (ReadUserDetail subjectUserId)) (\<lambda>u.
              await (own_signing_key D) (\<lambda>own.
              await (read_pins D) (\<lambda>ps. give (Inr (u, own, ps))))))
        (\<lambda>err. give (Inr (Inl (if has_status 404 err then AcceptNotFound
           else if has_status 401 err then AcceptAuthRequired
           else AcceptUnchecked (js ''could not read their keys: '' @ thrown_message err)))))
        (\<lambda>(u, own, ps).
           if up_deleted u then give (Inr (Inl AcceptDeleted))
           else case (servedSigningKeySet (served_keys u), servedFingerprint P (Some u)) of
             (Some signingKeys, Some print) \<Rightarrow> do {
               history \<leftarrow> ownHistoryFor D own;
               accept_verdict P D subjectUserId u own ps signingKeys print history
             }
           | _ \<Rightarrow> give (Inr (Inl (AcceptUnchecked (js ''the keys served for them are malformed''))))))"

section \<open>Who wrapped their entry\<close>

definition sameKey :: "js_string \<Rightarrow> bytes \<Rightarrow> bool" where
  "sameKey b64 key \<longleftrightarrow> (case base64ToBytes b64 of None \<Rightarrow> False | Some b \<Rightarrow> sameBytes b key)"

definition unanchoredReason :: "PinVerdict \<Rightarrow> js_string" where
  "unanchoredReason verdict = (case verdict of
     FirstSight \<Rightarrow> js ''you have not saved the wrapper's keys''
   | Mismatch \<Rightarrow> js ''the wrapper's keys changed since you saved them''
   | Rollback \<Rightarrow> js ''the server shows older keys for the wrapper than you saw before''
   | _ \<Rightarrow> js ''the copy of the wrapper's keys you saved does not verify'')"

definition check_entry ::
  "prims \<Rightarrow> js_string \<Rightarrow> js_string \<Rightarrow> RosterEntry \<Rightarrow> UserDetail option \<Rightarrow> (call, thrown + WrapEvidence) flow" where
  "check_entry P groupId subjectUserId entry wrapper =
     lift (checkWrapRecord P \<lparr>cw_groupId = groupId, cw_memberUserId = subjectUserId, cw_generation = re_generation entry,
       cw_wrapEpoch = re_wrapEpoch entry, cw_record = re_wrapRecord entry,
       cw_wrapper = map_option (\<lambda>w. \<lparr>wr_signingPublicKey = up_signingPublicKey w, wr_keyChanges = ud_keyChanges w\<rparr>) wrapper\<rparr>)
       ''RangeError''"

definition wrapEvidenceFor ::
  "prims \<Rightarrow> 'd AcceptKeyChangeDeps_scheme \<Rightarrow> js_string \<Rightarrow> AcceptInspection \<Rightarrow> js_string \<Rightarrow> RosterEntry option
   \<Rightarrow> (call, thrown + WrapEvidence) flow" where
  "wrapEvidenceFor P D subjectUserId found groupId entry = (case entry of
     None \<Rightarrow> give (Inr (UncheckedWrap (js ''they are not on the roster'')))
   | Some e \<Rightarrow> (case re_wrapRecord e of
       None \<Rightarrow> check_entry P groupId subjectUserId e None
     | Some r \<Rightarrow>
         let wrapperId = ww_wrapperUserId r in
         attempt (if wrapperId = subjectUserId then give (Inr (ci_served found))
                  else ask (acceptUserDetail D wrapperId) (ReadUserDetail wrapperId))
           (\<lambda>err. give (Inr (UncheckedWrap (js ''could not read the wrapper's keys: '' @ thrown_message err))))
           (\<lambda>wrapper.
              if wrapperId = selfUserId D then
                if \<not> sameKey (up_signingPublicKey wrapper) (ci_own found)
                then give (Inr (UncheckedWrap (js ''the keys served for you are not the ones you hold'')))
                else check_entry P groupId subjectUserId e (Some wrapper)
              else if wrapperId \<noteq> subjectUserId then
                let verdict = pin_verdict P (selfUserId D) (ci_own found) (ci_pinnerHistory found) wrapperId
                      (pin_of (ci_pins found) wrapperId) wrapper
                in if verdict \<noteq> Match then give (Inr (UncheckedWrap (unanchoredReason verdict)))
                   else check_entry P groupId subjectUserId e (Some wrapper)
              else check_entry P groupId subjectUserId e (Some wrapper))))"

record PreparedAccept =
  pp_fingerprint :: js_string
  pp_evidence :: KeyChangeEvidence
  pp_wrap :: WrapEvidence

definition prepareAcceptKeyChange ::
  "prims \<Rightarrow> 'd AcceptKeyChangeDeps_scheme \<Rightarrow> js_string \<Rightarrow> js_string \<Rightarrow> RosterEntry option
   \<Rightarrow> (call, thrown + (AcceptFailure + PreparedAccept)) flow" where
  "prepareAcceptKeyChange P D subjectUserId groupId entry =
     proceed (accept_inspect P D subjectUserId) (\<lambda>found.
       await (wrapEvidenceFor P D subjectUserId found groupId entry) (\<lambda>evidence.
         give (Inr (Inr \<lparr>pp_fingerprint = ci_fingerprint found, pp_evidence = ci_evidence found, pp_wrap = evidence\<rparr>))))"

section \<open>Accepting\<close>

definition accept_failure :: "thrown \<Rightarrow> AcceptFailure" where
  "accept_failure err =
     (if isLiveKeysError err then AcceptColdKeys
      else if has_code ''pin_epoch_stale'' err then AcceptStale
      else if has_status 401 err then AcceptAuthRequired
      else if has_status 404 err then AcceptNotFound
      else AcceptUnchecked (js ''could not save their keys: '' @ thrown_message err))"

definition runAcceptKeyChange ::
  "prims \<Rightarrow> 'd AcceptKeyChangeDeps_scheme \<Rightarrow> js_string \<Rightarrow> js_string \<Rightarrow> (call, thrown + (AcceptFailure + unit)) flow" where
  "runAcceptKeyChange P D subjectUserId confirmedFingerprint =
     proceed (accept_inspect P D subjectUserId) (\<lambda>found.
       if ci_fingerprint found \<noteq> confirmedFingerprint then give (Inr (Inl AcceptKeysChanged))
       else attempt (store_pin D subjectUserId (map bytesToBase64 (ci_signingKeys found))
               (up_wrappingPublicKey (ci_served found)) (up_keyEpoch (ci_served found)))
         (\<lambda>err. give (Inr (Inl (accept_failure err))))
         (\<lambda>_. give (Inr (Inr ()))))"

section \<open>What the screen says\<close>

definition acceptFailureMessage :: "AcceptFailure \<Rightarrow> js_string" where
  "acceptFailureMessage outcome = (case outcome of
     AcceptRejected message \<Rightarrow> message
   | AcceptUnchecked reason \<Rightarrow> js ''Nothing was saved, because what decides this could not be checked ('' @ reason @ js '').''
   | AcceptNotChanged \<Rightarrow> js ''Their keys match the copy you saved, so there is nothing to accept.''
   | AcceptRollback \<Rightarrow> js (''The server is showing older keys for them than you saw before. '' @
       ''That should never happen, so nothing was accepted. Check with them another way.'')
   | AcceptPinUnverifiable \<Rightarrow> js (''The copy of their keys you saved doesn't verify, '' @
       ''so it can't be replaced from here. Check with them another way.'')
   | AcceptKeysChanged \<Rightarrow> js (''Their keys are not the ones whose fingerprint you confirmed, so nothing was saved. '' @
       ''Start again and compare the new fingerprint with them.'')
   | AcceptStale \<Rightarrow> js ''They changed their keys again while you were checking. Start again with the new ones.''
   | AcceptAuthRequired \<Rightarrow> js ''Your session has expired. Log in again and retry.''
   | AcceptNotFound \<Rightarrow> js ''That account no longer exists.''
   | AcceptDeleted \<Rightarrow> js ''That member's account was deleted.''
   | AcceptColdKeys \<Rightarrow> js ''This tab needs your password again to accept a key change.'')"

definition wrapEvidenceText :: "WrapEvidence \<Rightarrow> (js_string \<Rightarrow> js_string) \<Rightarrow> js_string" where
  "wrapEvidenceText evidence label = (case evidence of
     ApprovedWrap i \<Rightarrow> js ''Their new keys were wrapped by '' @ label i @ js ''.''
   | SelfWrap \<Rightarrow> js ''They wrapped their own new keys (self-approved).''
   | NoWrap \<Rightarrow> js ''No signed record of who wrapped their new keys.''
   | InvalidWrap \<Rightarrow> js ''A record is attached, but its signature doesn't check out.''
   | UncheckedWrap reason \<Rightarrow> js ''Could not check who wrapped their new keys ('' @ reason @ js '').'')"

definition evidenceText :: "KeyChangeEvidence \<Rightarrow> js_string" where
  "evidenceText evidence = (case evidence of
     SignedRotation \<Rightarrow> js (''The server shows a rotation signed by the keys you saved, '' @
       ''so whoever held them made this change.'')
   | NoLink \<Rightarrow> js (''Nothing signed by the keys you saved leads to these. '' @
       ''Only accept if they confirm this fingerprint themselves.'')
   | UnverifiedChange \<Rightarrow> js (''The server's record of their key changes does not verify. '' @
       ''Only accept if they confirm this fingerprint themselves.''))"

end
