(* ===== verification/Accept_Properties.thy ===== *)
theory Accept_Properties
  imports Accept_Run Key_Checks Pin_Properties Rotation_Sample
begin

text \<open>
  routes/runAcceptKeyChange.ts: the caller's pin of somebody is replaced only by the keys whose fingerprint was confirmed,
  and only over a pin the caller signed that is not newer.
\<close>

section \<open>A pin that the served keys contradict\<close>

lemma evaluatePin_mismatch:
  assumes "evaluatePin P input = Mismatch"
  obtains pin pinned signer wrapping sig where "ep_pin input = Some pin" "pr_pinnedUserId pin = ep_pinnedUserId input"
    "pr_keyEpoch pin \<le> su_keyEpoch (ep_served input)" "keySet (pr_signingPublicKeys pin) = Some pinned"
    "base64ToBytes (pr_wrappingPublicKey pin) = Some wrapping"
    "own_signer P (ep_pinnerSigningPublicKey input) (ep_pinnerHistory input) signer (pr_signedDay pin)
       (js ''PIN#'' @ ep_pinnedUserId input) sig"
    "verify P signer Pin (pinPayload (ep_pinnerUserId input) (ep_pinnedUserId input) signer wrapping pinned
       (pr_keyEpoch pin) (pr_signedDay pin)) sig"
proof -
  from assms obtain pin where pin: "ep_pin input = Some pin"
    by (cases "ep_pin input") (simp_all add: evaluatePin_def)
  from assms obtain signer wrapping sig pinned where
    dec: "base64ToBytes (pr_pinnerSigningPublicKey pin) = Some signer" "base64ToBytes (pr_wrappingPublicKey pin) = Some wrapping"
      "base64ToBytes (pr_signature pin) = Some sig" "keySet (pr_signingPublicKeys pin) = Some pinned"
    by (cases "base64ToBytes (pr_pinnerSigningPublicKey pin)"; cases "base64ToBytes (pr_wrappingPublicKey pin)";
        cases "base64ToBytes (pr_signature pin)"; cases "keySet (pr_signingPublicKeys pin)")
      (simp_all add: evaluatePin_def pin split: if_splits)
  show thesis
    by (rule that [OF pin _ _ dec(4,2), of signer sig]) (use assms in \<open>simp_all add: evaluatePin_def pin dec split: if_splits\<close>)
qed

section \<open>What accepting may do\<close>

definition replacement_allowed ::
  "prims \<Rightarrow> js_string \<Rightarrow> js_string \<Rightarrow> js_string \<Rightarrow> js_string list \<Rightarrow> js_string \<Rightarrow> int \<Rightarrow> call set \<Rightarrow> bool" where
  "replacement_allowed P self i confirmed sent w e H \<longleftrightarrow>
     (\<exists>u own history ps keys. i \<noteq> self \<and> ReadUserDetail i (Inr u) \<in> H \<and> \<not> up_deleted u \<and> fingerprint_of P u = Some confirmed
        \<and> own_key own H \<and> ReadPins (Inr ps) \<in> H \<and> own_history own history H
        \<and> pin_verdict P self own history i (pin_of ps i) u = Mismatch
        \<and> servedSigningKeySet (served_keys u) = Some keys \<and> sent = map bytesToBase64 keys
        \<and> w = up_wrappingPublicKey u \<and> e = up_keyEpoch u)"

definition accept_call :: "prims \<Rightarrow> js_string \<Rightarrow> js_string \<Rightarrow> js_string \<Rightarrow> call set \<Rightarrow> call \<Rightarrow> bool" where
  "accept_call P self i confirmed H c \<longleftrightarrow> (case c of
     StorePin j sent w e r \<Rightarrow> j = i \<and> replacement_allowed P self i confirmed sent w e H
   | _ \<Rightarrow> is_read c)"

lemma replacement_allowed_intro:
  "\<lbrakk>i \<noteq> self; ReadUserDetail i (Inr u) \<in> H; \<not> up_deleted u; fingerprint_of P u = Some confirmed; own_key own H;
    ReadPins (Inr ps) \<in> H; own_history own history H; pin_verdict P self own history i (pin_of ps i) u = Mismatch;
    servedSigningKeySet (served_keys u) = Some keys\<rbrakk>
   \<Longrightarrow> replacement_allowed P self i confirmed (map bytesToBase64 keys) (up_wrappingPublicKey u) (up_keyEpoch u) H"
  unfolding replacement_allowed_def by blast

interpretation accepting: reading "accept_call P self i confirmed"
  by unfold_locales (simp add: accept_call_def is_read_def split: call.splits)

text \<open>What an inspection found that was not a failure.\<close>

definition accept_inspected :: "prims \<Rightarrow> js_string \<Rightarrow> js_string \<Rightarrow> AcceptInspection \<Rightarrow> call set \<Rightarrow> bool" where
  "accept_inspected P self i found H \<longleftrightarrow>
     replacement_allowed P self i (ci_fingerprint found) (map bytesToBase64 (ci_signingKeys found))
       (up_wrappingPublicKey (ci_served found)) (up_keyEpoch (ci_served found)) H"

lemma accept_last [lasting_intro]:
  "lasting (replacement_allowed P self i confirmed sent w e)" "lasting (accept_inspected P self i found)"
  unfolding accept_inspected_def [abs_def] replacement_allowed_def [abs_def] by (intro lasting_intro)+

lemma accept_inspection:
  fixes D :: "'d AcceptKeyChangeDeps_scheme"
  assumes "selfUserId D = self"
  shows "meets (accept_call P self i confirmed) (\<lambda>H. True) (accept_inspect P D i) (on_ok (on_ok (accept_inspected P self i)))"
proof -
  let ?J = "accept_call P self i confirmed"
  have material: "meets ?J (\<lambda>H. True) (await (ask (acceptUserDetail D i) (ReadUserDetail i)) (\<lambda>u.
      await (own_signing_key D) (\<lambda>own. await (read_pins D) (\<lambda>ps. give (Inr (u, own, ps))))))
      (on_ok (\<lambda>(u, own, ps) H. ReadUserDetail i (Inr u) \<in> H \<and> own_key own H \<and> ReadPins (Inr ps) \<in> H))"
    by (intro meets_await_ok [OF _ accepting.meets_read_ok] meets_await_ok [OF _ accepting.own_key_ok] meets_give)
      (auto intro!: lasting_intro simp: is_read_def)
  show ?thesis
    unfolding accept_inspect_def assms
  proof (intro meets_if meets_attempt_ok [OF lasting_pure material] meets_give, goal_cases)
    case (3 x)
    obtain u own ps where x: "x = (u, own, ps)" by (cases x)
    let ?A = "\<lambda>H. ReadUserDetail i (Inr u) \<in> H \<and> own_key own H \<and> ReadPins (Inr ps) \<in> H"
    have last: "lasting ?A" by (intro lasting_intro)
    have decided: "meets ?J (\<lambda>H. ?A H \<and> own_history own history H) (accept_verdict P D i u own ps keys print history)
        (on_ok (on_ok (accept_inspected P self i)))"
      if "\<not> up_deleted u" "servedSigningKeySet (served_keys u) = Some keys" "fingerprint_of P u = Some print"
      for keys print history
    proof (cases "pin_verdict P self own history i (pin_of ps i) u")
      case Mismatch
      with that 3 show ?thesis
        unfolding accept_verdict_def assms Mismatch PinVerdict.case
        by (intro meets_option meets_give)
          (use Mismatch in \<open>auto simp: accept_inspected_def intro!: replacement_allowed_intro\<close>)
    next
      case BadSignature
      then show ?thesis
        unfolding accept_verdict_def assms BadSignature PinVerdict.case
        by (intro meets_pre [OF meets_await_ok [OF lasting_pure [of True], where B = "\<lambda>x H. True"]] meets_option meets_give
            meets_post [OF accepting.quiet_read]) (auto simp: is_read_def)
    qed (simp_all add: accept_verdict_def assms meets_give)
    show ?case
      unfolding x prod.case simp_thms
    proof (intro meets_if, goal_cases)
      case 2
      then show ?case
        by (cases "servedSigningKeySet (served_keys u)"; cases "servedFingerprint P (Some u)";
            simp add: meets_give servedFingerprint_def meets_bind [OF last meets_pre [OF accepting.own_history_found] decided])
    qed (rule meets_give, simp)
  qed simp_all
qed

lemma accept_follows:
  fixes D :: "'d AcceptKeyChangeDeps_scheme"
  assumes "run_state (runAcceptKeyChange P D i confirmed) [] = (outcome, h)"
  shows "justified (accept_call P (selfUserId D) i confirmed) h"
proof -
  let ?J = "accept_call P (selfUserId D) i confirmed"
  have "meets ?J (\<lambda>H. True) (runAcceptKeyChange P D i confirmed) (\<lambda>r H. True)"
    unfolding runAcceptKeyChange_def
  proof (rule meets_proceed [OF lasting_pure accept_inspection [OF refl]], goal_cases)
    case (3 found)
    have "lasting (accept_inspected P (selfUserId D) i found)" by (rule lasting_intro)
    then show ?case
      unfolding on_ok_simps simp_thms
      by (intro meets_if meets_give meets_attempt [OF _ meets_ask]) (auto simp: accept_call_def accept_inspected_def intro: lasting_intro)
  qed simp_all
  from meets_run [OF this _ assms] show ?thesis by simp
qed

section \<open>What accepting guarantees\<close>

text \<open>
  C13: A pin is replaced only over an older pin of the caller's, by keys whose fingerprint was confirmed.  When
  \<open>runAcceptKeyChange\<close> stores a pin, it is for the person asked about, who is not the caller and not deleted: all
  the signing keys, the wrapping key and the epoch of the row the server served for them, whose fingerprint is the one the
  caller confirmed.  The pin read for them, signed by the caller under a key the caller held, is of an epoch no later than
  the one served, so no rollback and no forged pin is ever accepted as a key change.
\<close>
theorem accepted_keys_were_confirmed:
  fixes D :: "'d AcceptKeyChangeDeps_scheme"
  assumes "run_state (runAcceptKeyChange P D subject confirmed) [] = (outcome, h1 @ StorePin i sent w e answer # h2)"
  shows "i = subject \<and> subject \<noteq> selfUserId D
    \<and> (\<exists>u keys. ReadUserDetail subject (Inr u) \<in> set h1 \<and> \<not> up_deleted u \<and> fingerprint_of P u = Some confirmed
        \<and> servedSigningKeySet (served_keys u) = Some keys \<and> sent = map bytesToBase64 keys
        \<and> w = up_wrappingPublicKey u \<and> e = up_keyEpoch u)
    \<and> (\<exists>own history ps pin pinned signer wrapping sig. own_key own (set h1) \<and> own_history own history (set h1)
        \<and> ReadPins (Inr ps) \<in> set h1 \<and> pin \<in> set ps \<and> pr_pinnedUserId pin = subject \<and> pr_keyEpoch pin \<le> e
        \<and> keySet (pr_signingPublicKeys pin) = Some pinned
        \<and> own_signer P own history signer (pr_signedDay pin) (js ''PIN#'' @ subject) sig
        \<and> verify P signer Pin (pinPayload (selfUserId D) subject signer wrapping pinned (pr_keyEpoch pin) (pr_signedDay pin)) sig)"
proof -
  from justified_split [OF accept_follows [OF assms]]
  have i: "i = subject" and allowed: "replacement_allowed P (selfUserId D) subject confirmed sent w e (set h1)"
    by (simp_all add: accept_call_def)
  then obtain u own history ps keys where u: "subject \<noteq> selfUserId D" "ReadUserDetail subject (Inr u) \<in> set h1" "\<not> up_deleted u"
      "fingerprint_of P u = Some confirmed" "servedSigningKeySet (served_keys u) = Some keys" "sent = map bytesToBase64 keys"
      "w = up_wrappingPublicKey u" "e = up_keyEpoch u"
    and own: "own_key own (set h1)" "ReadPins (Inr ps) \<in> set h1" "own_history own history (set h1)"
    and mismatch: "pin_verdict P (selfUserId D) own history subject (pin_of ps subject) u = Mismatch"
    unfolding replacement_allowed_def by blast
  obtain pin pinned signer wrapping sig where pin: "pin_of ps subject = Some pin" "pr_pinnedUserId pin = subject"
      "pr_keyEpoch pin \<le> su_keyEpoch (served_keys u)" "keySet (pr_signingPublicKeys pin) = Some pinned"
      "own_signer P own history signer (pr_signedDay pin) (js ''PIN#'' @ subject) sig"
      "verify P signer Pin (pinPayload (selfUserId D) subject signer wrapping pinned (pr_keyEpoch pin) (pr_signedDay pin)) sig"
    by (rule evaluatePin_mismatch [OF mismatch [unfolded pin_verdict_def]]) simp
  have "pin \<in> set ps" using pin(1) by (auto simp: pin_of_def find_Some_iff)
  moreover have "su_keyEpoch (served_keys u) = e" by (simp add: served_keys_def u)
  ultimately show ?thesis
    using i u own pin by (intro conjI exI [of _ u] exI [of _ keys] exI [of _ own] exI [of _ history] exI [of _ ps]
        exI [of _ pin] exI [of _ pinned] exI [of _ signer] exI [of _ wrapping] exI [of _ sig]) simp_all
qed

text \<open>A run: bob, whom alice pinned at epoch 0, is served with new keys at epoch 1.\<close>

definition changed_bob :: UserDetail where
  "changed_bob = UserProjection.extend ((user_of bob 5 15)\<lparr>up_keyEpoch := 1\<rparr>) (UserDetail.fields [])"

definition accept_deps :: AcceptKeyChangeDeps where
  "accept_deps = GrantCheckDeps.extend ((GrantCheckDeps.truncate (sample_deps alice 1 (sample_detail 1 carol)))
     \<lparr>listPins := (\<lambda>h. Inr [bob_pin])\<rparr>) (AcceptKeyChangeDeps.fields (\<lambda>i h. Inr changed_bob) None)"

lemma accept_deps_fields [simp]:
  "selfUserId accept_deps = alice" "ownSigningKey accept_deps = (\<lambda>h. Inr (bytesToBase64 (seed_of 1)))"
  "loadOwnKeyHistory accept_deps = None" "listPins accept_deps = (\<lambda>h. Inr [bob_pin])"
  "pinKeys accept_deps = (\<lambda>i ks w e h. Inr ())" "acceptUserDetail accept_deps = (\<lambda>i h. Inr changed_bob)"
  by (simp_all add: accept_deps_def served_deps_def GrantCheckDeps.defs AcceptKeyChangeDeps.defs)

definition changed_print :: js_string where
  "changed_print = (case fingerprint_of sample changed_bob of Some f \<Rightarrow> f)"

lemma changed_bob [simp]:
  "fingerprint_of sample changed_bob = Some changed_print" "up_deleted changed_bob = False" "up_keyEpoch changed_bob = 1"
  "up_wrappingPublicKey changed_bob = bytesToBase64 (seed_of 15)"
  "servedSigningKeySet (served_keys changed_bob) = Some [seed_of 5]"
  by (simp_all add: changed_print_def changed_bob_def user_of_def UserProjection.defs UserDetail.defs fingerprint_of_def
      fingerprint_def PUBLIC_KEY_SIZE_def base64.dec_enc servedSigningKeySet_def served_keys_def keySet_def KEY_SIZE_def)

lemma changed_bob_mismatch: "pin_verdict sample alice (seed_of 1) None bob (Some bob_pin) changed_bob = Mismatch"
proof -
  have "su_keyEpoch (served_keys changed_bob) = 1" by (simp add: served_keys_def)
  moreover have "verify sample (seed_of 1) Pin m (sign sample (key_of 1) Pin m)" for m
    using verify_genuine [OF sample_laws, of "key_of 1"] by simp
  moreover have "keySet [bytesToBase64 (seed_of 2)] = Some [seed_of 2]" using keySet_made [of "[seed_of 2]"] by simp
  ultimately show ?thesis
    using isoDay_isUtcDay [of 1767600000000] sample_now
    by (simp add: pin_verdict_def evaluatePin_def bob_pin_def stored_pin_def signPin_def Let_def base64.dec_enc own_signer_def
        isSafeInteger_def split: option.split)
qed

definition accept_reads :: "call list" where
  "accept_reads = [ReadUserDetail bob (Inr changed_bob), ReadOwnKey (Inr (bytesToBase64 (seed_of 1))), ReadPins (Inr [bob_pin])]"

theorem accepted_keys_were_confirmed_witness:
  "run_state (runAcceptKeyChange sample accept_deps bob changed_print) []
     = (Inr (Inr ()), accept_reads @ StorePin bob [bytesToBase64 (seed_of 5)] (bytesToBase64 (seed_of 15)) 1 (Inr ()) # [])
   \<and> (\<exists>u. ReadUserDetail bob (Inr u) \<in> set accept_reads \<and> fingerprint_of sample u = Some changed_print)"
proof
  have pin: "pin_of [bob_pin] bob = Some bob_pin" by (simp add: pin_of_def bob_pin_def stored_pin_def)
  show run: "run_state (runAcceptKeyChange sample accept_deps bob changed_print) []
     = (Inr (Inr ()), accept_reads @ StorePin bob [bytesToBase64 (seed_of 5)] (bytesToBase64 (seed_of 15)) 1 (Inr ()) # [])"
    by (rule run_by_ends)
      (simp add: runAcceptKeyChange_def accept_inspect_def accept_verdict_def own_signing_key_def ownHistoryFor_def
        servedFingerprint_def changed_bob_mismatch pin flow_simps base64.dec_enc accept_reads_def)
  from accepted_keys_were_confirmed [OF run]
  show "\<exists>u. ReadUserDetail bob (Inr u) \<in> set accept_reads \<and> fingerprint_of sample u = Some changed_print" by blast
qed

end
