(* ===== verification/Members_Run.thy ===== *)
theory Members_Run
  imports Readmit_Run
begin

text \<open>
  routes/runGroupMembers.ts, routes/memberLabel.ts and routes/runRemoveMember.ts: the roster as the screen loads it, a
  change of role, and a removal with the demotion and the rotation it starts.
\<close>

section \<open>The roster\<close>

record MembersView =
  mb_groupId :: js_string
  mb_members :: "RosterEntry list"
  mb_myRole :: js_string
  mb_myGrantSortKey :: "js_string option"
  mb_revocationMode :: js_string
  mb_myGeneration :: int
  mb_rotation :: "RotationMarker option"

record LoadMembersDeps =
  lo_getGroup :: "js_string \<Rightarrow> GroupDetail answer"
  lo_listMembers :: "js_string \<Rightarrow> js_string option \<Rightarrow> ListMembersResponse answer"

datatype LoadMembersFailure = LoadNotFound | LoadAuthRequired | LoadFailed

definition MAX_MEMBER_PAGES :: nat where "MAX_MEMBER_PAGES = 100"

definition read_all_members :: "LoadMembersDeps \<Rightarrow> js_string \<Rightarrow> (call, thrown + RosterEntry list) flow" where
  "read_all_members D groupId =
     read_pages MAX_MEMBER_PAGES (\<lambda>c. ask (lo_listMembers D groupId c) (ReadMembersPage groupId c)) lm_members lm_nextCursor
       ''roster pagination did not terminate'' None []"

definition loadMembers :: "LoadMembersDeps \<Rightarrow> js_string \<Rightarrow> (call, LoadMembersFailure + MembersView) flow" where
  "loadMembers D groupId =
     attempt (both (ask (lo_getGroup D groupId) (ReadGroup groupId)) (read_all_members D groupId))
       (\<lambda>err. give (Inl (if has_status 404 err then LoadNotFound
          else if has_status 401 err then LoadAuthRequired else LoadFailed)))
       (\<lambda>(detail, members). give (Inr
          \<lparr>mb_groupId = groupId, mb_members = members, mb_myRole = ge_role detail,
           mb_myGrantSortKey = gd_myGrantSortKey detail, mb_revocationMode = gd_revocationMode detail,
           mb_myGeneration = ge_generation detail, mb_rotation = gd_rotation detail\<rparr>))"

section \<open>A change of role\<close>

record ChangeRoleDeps =
  cr_signRoleGrant :: "SignRoleGrantRequest \<Rightarrow> (js_string \<times> js_string) answer"
  cr_changeMemberRole :: "js_string \<Rightarrow> js_string \<Rightarrow> ChangeMemberRoleRequest \<Rightarrow> unit answer"
  cr_userId :: js_string

datatype ChangeRoleFailure =
    RoleStale | RoleForbidden | RoleAuthRequired | RoleColdKeys | RoleNotFound | RoleRejected js_string | RoleAmbiguous

definition ROLE_STALE_CODES :: "js_string list" where
  "ROLE_STALE_CODES = map js [''grantor_ref_stale'', ''grantor_changed'', ''subject_role_changed'', ''conflict_retry'']"

definition ROLE_SIGN_ATTEMPTS :: nat where "ROLE_SIGN_ATTEMPTS = 2"

definition role_failure :: "thrown \<Rightarrow> ChangeRoleFailure" where
  "role_failure err = (case err of
     ApiError status code message \<Rightarrow>
       if status = 409 then if code_among ROLE_STALE_CODES err then RoleStale else RoleRejected message
       else if status = 400 \<and> has_code ''clock_skew'' err then RoleRejected CLOCK_SKEW_MESSAGE
       else if status = 401 then RoleAuthRequired
       else if status = 403 then RoleForbidden
       else if status = 404 then RoleNotFound
       else if status < 500 then RoleRejected message
       else RoleAmbiguous
   | OtherThrown message \<Rightarrow> RoleAmbiguous)"

definition grant_key_taken :: "thrown \<Rightarrow> bool" where
  "grant_key_taken err \<longleftrightarrow> has_status 409 err \<and> has_code ''grant_key_taken'' err"

text \<open>The loop, with the attempts left.\<close>

fun role_attempts ::
  "nat \<Rightarrow> ChangeRoleDeps \<Rightarrow> js_string \<Rightarrow> js_string \<Rightarrow> js_string \<Rightarrow> js_string \<Rightarrow> (call, ChangeRoleFailure + unit) flow" where
  "role_attempts 0 D groupId subjectUserId role ref = give (Inl RoleAmbiguous)"
| "role_attempts (Suc k) D groupId subjectUserId role ref =
     (let req = \<lparr>rg_userId = cr_userId D, rg_groupId = groupId, rg_subjectUserId = subjectUserId, rg_role = role,
        rg_grantorGrantRef = ref\<rparr>
      in attempt (ask (cr_signRoleGrant D req) (AskRoleGrant req))
        (\<lambda>err. give (Inl (if isLiveKeysError err then RoleColdKeys else RoleRejected (js ''Couldn't sign this change. Try again.''))))
        (\<lambda>(grantSortKey, signature).
           let body = \<lparr>cm_role = role, cm_grantSortKey = grantSortKey, cm_grantorGrantRef = ref, cm_signature = signature\<rparr>
           in attempt (ask (cr_changeMemberRole D groupId subjectUserId body) (SendRole groupId subjectUserId body))
             (\<lambda>err. if grant_key_taken err \<and> k > 0 then role_attempts k D groupId subjectUserId role ref
                else give (Inl (role_failure err)))
             (\<lambda>_. give (Inr ()))))"

definition changeRole ::
  "ChangeRoleDeps \<Rightarrow> MembersView \<Rightarrow> js_string \<Rightarrow> js_string \<Rightarrow> (call, ChangeRoleFailure + unit) flow" where
  "changeRole D view subjectUserId role =
     (case truthy (mb_myGrantSortKey view) of
        None \<Rightarrow> give (Inl RoleForbidden)
      | Some ref \<Rightarrow>
          if mb_myRole view \<noteq> js ''admin'' then give (Inl RoleForbidden)
          else role_attempts ROLE_SIGN_ATTEMPTS D (mb_groupId view) subjectUserId role ref)"

definition shouldReloadAfter :: "ChangeRoleFailure + unit \<Rightarrow> bool" where
  "shouldReloadAfter outcome = (case outcome of Inr _ \<Rightarrow> True | Inl failure \<Rightarrow> failure \<notin> {RoleColdKeys, RoleAuthRequired})"

section \<open>A removal\<close>

record RemoveDeps =
  rv_getGroup :: "js_string \<Rightarrow> GroupDetail answer"
  rv_signRoleGrant :: "SignRoleGrantRequest \<Rightarrow> (js_string \<times> js_string) answer"
  rv_startGroupRotation :: "StartGroupRotationRequest \<Rightarrow> RotationStarted answer"
  rv_removeMember :: "js_string \<Rightarrow> js_string \<Rightarrow> RemoveMemberRequest option \<Rightarrow> unit answer"
  rv_userId :: js_string
  rv_getUserDetail :: "(js_string \<Rightarrow> UserDetail answer) option"
  rv_signWrapRecord :: "(SignWrapRecordRequest \<Rightarrow> (js_string \<times> js_string) answer) option"

datatype RemoveFailure =
    RemoveStale | RemoveRotationInProgress | RemoveAuthRequired | RemoveForbidden | RemoveNotFound | RemoveColdKeys
  | RemoveGrantMissing | RemoveNoGroupKey | RemoveRejected js_string | RemoveAmbiguous

type_synonym RemoveResult = "RemoveFailure + bool"  \<comment> \<open>whether a rotation was started\<close>

definition REMOVE_STALE_CODES :: "js_string list" where
  "REMOVE_STALE_CODES = map js [''grantor_ref_stale'', ''grantor_changed'', ''subject_role_changed'', ''conflict_retry'',
     ''rotation_stale_generation'', ''demotion_required'', ''rotation_required'', ''rotation_not_applicable'']"

definition REMOVE_SIGN_ATTEMPTS :: nat where "REMOVE_SIGN_ATTEMPTS = 2"

definition remove_failure :: "thrown \<Rightarrow> RemoveFailure" where
  "remove_failure err = (case err of
     ApiError status code message \<Rightarrow>
       if status = 409 \<and> has_code ''rotation_in_progress'' err then RemoveRotationInProgress
       else if code_among REMOVE_STALE_CODES err then RemoveStale
       else if status = 409 then RemoveRejected message
       else if status = 400 \<and> has_code ''clock_skew'' err then RemoveRejected CLOCK_SKEW_MESSAGE
       else if status = 401 then RemoveAuthRequired
       else if status = 403 then RemoveForbidden
       else if status = 404 then RemoveNotFound
       else if status < 500 then RemoveRejected message
       else RemoveAmbiguous
   | OtherThrown message \<Rightarrow> RemoveAmbiguous)"

text \<open>The rotation a removal carries: what was minted once, with the record it is sent with.\<close>

definition prepare_removal ::
  "RemoveDeps \<Rightarrow> js_string \<Rightarrow> js_string \<Rightarrow> GroupDetail \<Rightarrow> (call, RemoveFailure + RemoveRotationRequest option) flow" where
  "prepare_removal D groupId subjectUserId detail =
     (if gd_revocationMode detail \<noteq> js ''rotating'' then give (Inr None)
      else case ge_wrappedGroupKey detail of
        None \<Rightarrow> give (Inl RemoveNoGroupKey)
      | Some ownWrapped \<Rightarrow>
          let req = \<lparr>sg_userId = rv_userId D, sg_groupId = groupId, sg_ownWrappedGroupKey = ownWrapped,
            sg_ownGeneration = ge_generation detail, sg_subjectUserId = subjectUserId\<rparr>
          in attempt (ask (rv_startGroupRotation D req) (AskRotationStart req))
            (\<lambda>err. give (Inl (if isLiveKeysError err then RemoveColdKeys
               else RemoveRejected (js ''Couldn't prepare the new group key. Try again.''))))
            (\<lambda>minted. do {
               record_fields \<leftarrow> ownWrapRecord (rv_userId D) (rv_getUserDetail D) (rv_signWrapRecord D) groupId (rs_generation minted);
               give (Inr (Some \<lparr>rq_generation = rs_generation minted, rq_link = rs_link minted,
                 rq_removerWrappedKey = rs_removerWrappedKey minted, rq_startSignature = rs_startSignature minted,
                 rq_record = record_fields\<rparr>))
             }))"

text \<open>The demotion an elevated subject needs, signed on the caller's own grant.\<close>

definition sign_demotion ::
  "RemoveDeps \<Rightarrow> js_string \<Rightarrow> js_string \<Rightarrow> bool \<Rightarrow> js_string \<Rightarrow> (call, thrown + SignedDemotion option) flow" where
  "sign_demotion D groupId subjectUserId elevated ref =
     (if \<not> elevated then give (Inr None)
      else let req = \<lparr>rg_userId = rv_userId D, rg_groupId = groupId, rg_subjectUserId = subjectUserId,
        rg_role = js ''member'', rg_grantorGrantRef = ref\<rparr>
      in await (ask (rv_signRoleGrant D req) (AskRoleGrant req)) (\<lambda>(grantSortKey, signature).
        give (Inr (Some \<lparr>sd_grantSortKey = grantSortKey, sd_grantorGrantRef = ref, sd_signature = signature\<rparr>))))"

definition removal_body :: "SignedDemotion option \<Rightarrow> RemoveRotationRequest option \<Rightarrow> RemoveMemberRequest option" where
  "removal_body demotion rotation =
     (if demotion = None \<and> rotation = None then None else Some \<lparr>rb_demotion = demotion, rb_rotation = rotation\<rparr>)"

definition has_record :: "RemoveRotationRequest option \<Rightarrow> bool" where
  "has_record rotation \<longleftrightarrow> (case rotation of None \<Rightarrow> False | Some r \<Rightarrow> rq_record r \<noteq> None)"

definition without_record :: "RemoveRotationRequest option \<Rightarrow> RemoveRotationRequest option" where
  "without_record rotation = map_option (\<lambda>r. r\<lparr>rq_record := None\<rparr>) rotation"

lemma without_record_none [simp]: "\<not> has_record (without_record rotation)"
  by (cases rotation) (simp_all add: has_record_def without_record_def)

text \<open>
  The loop, with the attempts left: a refused record is dropped without using one up, which can happen only once.
\<close>

function remove_attempts ::
  "nat \<Rightarrow> RemoveRotationRequest option \<Rightarrow> RemoveDeps \<Rightarrow> js_string \<Rightarrow> js_string \<Rightarrow> bool \<Rightarrow> js_string
   \<Rightarrow> (call, RemoveFailure + unit) flow" where
  "remove_attempts 0 rotation D groupId subjectUserId elevated ref = give (Inl RemoveAmbiguous)"
| "remove_attempts (Suc k) rotation D groupId subjectUserId elevated ref =
     attempt (sign_demotion D groupId subjectUserId elevated ref)
       (\<lambda>err. give (Inl (if isLiveKeysError err then RemoveColdKeys
          else RemoveRejected (js ''Couldn't sign this removal. Try again.''))))
       (\<lambda>demotion.
          let body = removal_body demotion rotation
          in attempt (ask (rv_removeMember D groupId subjectUserId body) (SendRemove groupId subjectUserId body))
            (\<lambda>err. if has_record rotation \<and> has_code ''bad_signature'' err
               then remove_attempts (Suc k) (without_record rotation) D groupId subjectUserId elevated ref
               else if grant_key_taken err
               then if k > 0 then remove_attempts k rotation D groupId subjectUserId elevated ref
                    else give (Inl (RemoveRejected (thrown_message err)))
               else give (Inl (remove_failure err)))
            (\<lambda>_. give (Inr ())))"
  by pat_completeness auto
termination
  by (relation "measure (\<lambda>(k, rotation, _). 2 * k + (if has_record rotation then 1 else 0))") auto

definition runRemoveMember ::
  "RemoveDeps \<Rightarrow> js_string \<Rightarrow> js_string \<Rightarrow> js_string \<Rightarrow> (call, RemoveResult) flow" where
  "runRemoveMember D groupId subjectUserId subjectRole =
     attempt (ask (rv_getGroup D groupId) (ReadGroup groupId)) (\<lambda>err. give (Inl (remove_failure err))) (\<lambda>detail.
       if ge_role detail \<noteq> js ''admin'' then give (Inl RemoveForbidden)
       else if gd_rotation detail \<noteq> None then give (Inl RemoveRotationInProgress)
       else case truthy (gd_myGrantSortKey detail) of
         None \<Rightarrow> give (Inl RemoveGrantMissing)
       | Some ref \<Rightarrow> do {
           prepared \<leftarrow> prepare_removal D groupId subjectUserId detail;
           case prepared of
             Inl failure \<Rightarrow> give (Inl failure)
           | Inr rotation \<Rightarrow> do {
               sent \<leftarrow> remove_attempts REMOVE_SIGN_ATTEMPTS rotation D groupId subjectUserId
                 (subjectRole \<noteq> js ''member'') ref;
               give (case sent of Inl failure \<Rightarrow> Inl failure
                 | Inr _ \<Rightarrow> Inr (gd_revocationMode detail = js ''rotating''))
             }
         })"

text \<open>Whether a rotation must run now: whom it must never wrap to.\<close>

definition rotationNeededAfter :: "RemoveResult \<Rightarrow> bool \<Rightarrow> js_string \<Rightarrow> js_string set option" where
  "rotationNeededAfter outcome rotatingGroup subjectUserId = (case outcome of
     Inr rotating \<Rightarrow> if rotating then Some {subjectUserId} else None
   | Inl failure \<Rightarrow>
       if failure = RemoveRotationInProgress then Some {}
       else if failure = RemoveAmbiguous \<and> rotatingGroup then Some {subjectUserId}
       else None)"

definition shouldReloadAfterRemove :: "RemoveResult \<Rightarrow> bool" where
  "shouldReloadAfterRemove outcome = (case outcome of
     Inr _ \<Rightarrow> True | Inl failure \<Rightarrow> failure \<notin> {RemoveColdKeys, RemoveAuthRequired})"

definition removeFailureMessage :: "RemoveFailure \<Rightarrow> js_string" where
  "removeFailureMessage outcome = (case outcome of
     RemoveRejected message \<Rightarrow> message
   | RemoveStale \<Rightarrow> js (''The group changed while you were working, so nobody was removed. '' @
       ''The latest roster is shown; try again.'')
   | RemoveRotationInProgress \<Rightarrow> js (''A key rotation was still running, so nobody was removed. '' @
       ''This page is finishing it; try again once it has.'')
   | RemoveAuthRequired \<Rightarrow> js ''Your session has expired. Log in again and retry.''
   | RemoveForbidden \<Rightarrow> js ''Only a group admin can remove members.''
   | RemoveNotFound \<Rightarrow> js ''This member or group no longer exists.''
   | RemoveColdKeys \<Rightarrow> js ''This tab needs your password again to remove members.''
   | RemoveGrantMissing \<Rightarrow> js ''Your own admin grant isn't on record, so a removal can't be signed from here yet.''
   | RemoveNoGroupKey \<Rightarrow> js ''This browser doesn't hold the group's key, so it can't start the key rotation.''
   | RemoveAmbiguous \<Rightarrow> js (''We couldn't confirm whether the removal went through. '' @
       ''The latest roster is shown; check it before trying again.''))"

section \<open>memberLabel.ts\<close>

definition DELETED_USER_LABEL :: js_string where "DELETED_USER_LABEL = js ''deleted user''"

definition memberLabel :: "js_string \<Rightarrow> (js_string \<rightharpoonup> js_string) \<Rightarrow> js_string" where
  "memberLabel userId usernames = (case usernames userId of
     Some username \<Rightarrow> if username = [] then DELETED_USER_LABEL else username
   | None \<Rightarrow> takeWhile (\<lambda>c. c \<noteq> 45) userId)"

definition isDeletedUser :: "js_string \<Rightarrow> (js_string \<rightharpoonup> js_string) \<Rightarrow> bool" where
  "isDeletedUser userId usernames \<longleftrightarrow> usernames userId = Some []"

definition unresolvedClass :: "js_string \<Rightarrow> (js_string \<rightharpoonup> js_string) \<Rightarrow> js_string" where
  "unresolvedClass userId usernames = (if usernames userId \<noteq> None then [] else js ''font-mono'')"

end
