(* ===== verification/Removal_Checks.thy ===== *)
theory Removal_Checks
  imports Members_Run Key_Checks
begin

text \<open>
  routes/runRemoveMember.ts: what a removal may do.  \<open>removal_call\<close> says of each call what must have been read, minted
  and signed before it.
\<close>

section \<open>What a removal may do\<close>

definition removal_basis :: "js_string \<Rightarrow> GroupDetail \<Rightarrow> call set \<Rightarrow> bool" where
  "removal_basis groupId detail H \<longleftrightarrow>
     ReadGroup groupId (Inr detail) \<in> H \<and> ge_role detail = js ''admin'' \<and> gd_rotation detail = None"

text \<open>The demotion sent was signed on the caller's own grant, for this member and to the role member.\<close>

definition demotion_signed :: "js_string \<Rightarrow> js_string \<Rightarrow> js_string \<Rightarrow> GroupDetail \<Rightarrow> SignedDemotion \<Rightarrow> call set \<Rightarrow> bool" where
  "demotion_signed self groupId i detail demotion H \<longleftrightarrow>
     (\<exists>req. AskRoleGrant req (Inr (sd_grantSortKey demotion, sd_signature demotion)) \<in> H
        \<and> rg_userId req = self \<and> rg_groupId req = groupId \<and> rg_subjectUserId req = i \<and> rg_role req = js ''member''
        \<and> gd_myGrantSortKey detail = Some (rg_grantorGrantRef req) \<and> sd_grantorGrantRef demotion = rg_grantorGrantRef req)"

text \<open>The rotation sent is the one that was minted from the caller's key of the generation read.\<close>

definition rotation_minted :: "js_string \<Rightarrow> js_string \<Rightarrow> js_string \<Rightarrow> GroupDetail \<Rightarrow> RemoveRotationRequest \<Rightarrow> call set \<Rightarrow> bool" where
  "rotation_minted self groupId i detail rotation H \<longleftrightarrow>
     (\<exists>sg minted. AskRotationStart sg (Inr minted) \<in> H
        \<and> sg_userId sg = self \<and> sg_groupId sg = groupId \<and> sg_subjectUserId sg = i \<and> sg_ownGeneration sg = ge_generation detail
        \<and> ge_wrappedGroupKey detail = Some (sg_ownWrappedGroupKey sg)
        \<and> rq_generation rotation = rs_generation minted \<and> rq_link rotation = rs_link minted
        \<and> rq_removerWrappedKey rotation = rs_removerWrappedKey minted \<and> rq_startSignature rotation = rs_startSignature minted)"

definition demotion_of :: "RemoveMemberRequest option \<Rightarrow> SignedDemotion option" where
  "demotion_of body = (case body of None \<Rightarrow> None | Some b \<Rightarrow> rb_demotion b)"

definition rotation_of :: "RemoveMemberRequest option \<Rightarrow> RemoveRotationRequest option" where
  "rotation_of body = (case body of None \<Rightarrow> None | Some b \<Rightarrow> rb_rotation b)"

definition removal_sent ::
  "js_string \<Rightarrow> js_string \<Rightarrow> js_string \<Rightarrow> bool \<Rightarrow> RemoveMemberRequest option \<Rightarrow> call set \<Rightarrow> bool" where
  "removal_sent self groupId i elevated body H \<longleftrightarrow>
     (\<exists>detail. removal_basis groupId detail H
        \<and> (if elevated then \<exists>d. demotion_of body = Some d \<and> demotion_signed self groupId i detail d H else demotion_of body = None)
        \<and> (if gd_revocationMode detail = js ''rotating''
           then \<exists>r. rotation_of body = Some r \<and> rotation_minted self groupId i detail r H else rotation_of body = None))"

definition removal_call :: "js_string \<Rightarrow> js_string \<Rightarrow> js_string \<Rightarrow> bool \<Rightarrow> call set \<Rightarrow> call \<Rightarrow> bool" where
  "removal_call self groupId i elevated H c \<longleftrightarrow> (case c of
     ReadGroup g r \<Rightarrow> g = groupId
   | ReadUserDetail j r \<Rightarrow> j = self
   | AskRotationStart req r \<Rightarrow>
       (\<exists>detail. removal_basis groupId detail H \<and> gd_revocationMode detail = js ''rotating''
          \<and> sg_userId req = self \<and> sg_groupId req = groupId \<and> sg_subjectUserId req = i
          \<and> sg_ownGeneration req = ge_generation detail \<and> ge_wrappedGroupKey detail = Some (sg_ownWrappedGroupKey req))
   | AskWrapRecord req r \<Rightarrow>
       wq_userId req = self \<and> wq_memberUserId req = self \<and> wq_groupId req = groupId
       \<and> (\<exists>sg minted. AskRotationStart sg (Inr minted) \<in> H \<and> wq_generation req = rs_generation minted)
   | AskRoleGrant req r \<Rightarrow>
       elevated \<and> rg_userId req = self \<and> rg_groupId req = groupId \<and> rg_subjectUserId req = i \<and> rg_role req = js ''member''
       \<and> (\<exists>detail. removal_basis groupId detail H \<and> gd_myGrantSortKey detail = Some (rg_grantorGrantRef req))
   | SendRemove g j body r \<Rightarrow> g = groupId \<and> j = i \<and> removal_sent self groupId i elevated body H
   | _ \<Rightarrow> False)"

lemma removal_last [lasting_intro]:
  "lasting (removal_basis groupId detail)" "lasting (demotion_signed self groupId i detail demotion)"
  "lasting (rotation_minted self groupId i detail rotation)"
  unfolding removal_basis_def [abs_def] demotion_signed_def [abs_def] rotation_minted_def [abs_def] by (intro lasting_intro)+

lemma removal_body_parts [simp]:
  "demotion_of (removal_body demotion rotation) = demotion" "rotation_of (removal_body demotion rotation) = rotation"
  by (auto simp: removal_body_def demotion_of_def rotation_of_def)

text \<open>What is to be sent as the rotation: nothing, or what was minted.\<close>

definition rotation_ready ::
  "js_string \<Rightarrow> js_string \<Rightarrow> js_string \<Rightarrow> GroupDetail \<Rightarrow> RemoveRotationRequest option \<Rightarrow> call set \<Rightarrow> bool" where
  "rotation_ready self groupId i detail rotation H \<longleftrightarrow>
     (if gd_revocationMode detail = js ''rotating''
      then \<exists>r. rotation = Some r \<and> rotation_minted self groupId i detail r H else rotation = None)"

lemma ready_last [lasting_intro]: "lasting (rotation_ready self groupId i detail rotation)"
  unfolding rotation_ready_def [abs_def] by (intro lasting_intro)

lemma minted_without_record [simp]:
  "rotation_minted self groupId i detail (r\<lparr>rq_record := x\<rparr>) H \<longleftrightarrow> rotation_minted self groupId i detail r H"
  by (simp add: rotation_minted_def)

lemma ready_without_record:
  "rotation_ready self groupId i detail rotation H \<Longrightarrow> rotation_ready self groupId i detail (without_record rotation) H"
  by (auto simp: rotation_ready_def without_record_def split: if_splits)

locale removal_checks =
  fixes J :: "call set \<Rightarrow> call \<Rightarrow> bool" and self :: js_string and groupId :: js_string and subject :: js_string
    and elevated :: bool
  assumes removing: "removal_call self groupId subject elevated H c \<Longrightarrow> J H c"
begin

lemma rotation_prepared:
  assumes "rv_userId D = self"
  shows "meets J (removal_basis groupId detail) (prepare_removal D groupId subject detail)
    (on_ok (\<lambda>rotation. rotation_ready self groupId subject detail rotation))"
proof -
  let ?A = "removal_basis groupId detail"
  have recorded: "J H (AskWrapRecord \<lparr>wq_userId = self, wq_groupId = groupId, wq_memberUserId = self,
      wq_generation = rs_generation minted, wq_keyEpoch = e, wq_reason = RekeySelf\<rparr> r)"
    if "AskRotationStart req (Inr minted) \<in> H" for H req minted e r
    by (rule removing, unfold removal_call_def call.case) (use that in auto)
  have read: "J H (ReadUserDetail self r)" for H r by (rule removing) (simp add: removal_call_def)
  have minted: "meets J (\<lambda>H. ?A H \<and> AskRotationStart req (Inr minted) \<in> H)
      (ownWrapRecord self getter signer groupId (rs_generation minted)) (\<lambda>r H. True)" for req minted getter signer
    unfolding ownWrapRecord_def wrapRecordFor_def
    by (intro meets_option meets_prod meets_give meets_attempt [OF _ meets_ask])
      (auto intro!: lasting_intro intro: recorded read)
  show ?thesis
    unfolding prepare_removal_def Let_def assms
  proof (intro meets_if meets_option meets_give, goal_cases)
    case (3 ownWrapped)
    let ?req = "\<lparr>sg_userId = self, sg_groupId = groupId, sg_ownWrappedGroupKey = ownWrapped,
      sg_ownGeneration = ge_generation detail, sg_subjectUserId = subject\<rparr>"
    have asked: "J H (AskRotationStart ?req r)" if "?A H" for H r
      by (rule removing) (use that 3 in \<open>auto simp: removal_call_def\<close>)
    have ready: "rotation_ready self groupId subject detail (Some \<lparr>rq_generation = rs_generation minted, rq_link = rs_link minted,
        rq_removerWrappedKey = rs_removerWrappedKey minted, rq_startSignature = rs_startSignature minted, rq_record = f\<rparr>) H"
      if "AskRotationStart ?req (Inr minted) \<in> H" for minted f H
    proof -
      have rotating: "gd_revocationMode detail = js ''rotating''" using 3 by simp
      show ?thesis
        unfolding rotation_ready_def rotation_minted_def if_P [OF rotating]
        by (intro exI [of _ "\<lparr>rq_generation = rs_generation minted, rq_link = rs_link minted,
            rq_removerWrappedKey = rs_removerWrappedKey minted, rq_startSignature = rs_startSignature minted, rq_record = f\<rparr>"]
            conjI exI [of _ ?req] exI [of _ minted]) (use that 3 in simp_all)
    qed
    show ?case
    proof (intro meets_attempt [OF _ meets_ask] meets_give, goal_cases)
      case (4 minted)
      show ?case
        by (rule meets_bind [OF _ minted [where req = ?req]])
          (use ready in \<open>auto intro!: lasting_intro meets_give\<close>)
    qed (use asked in \<open>auto intro: lasting_intro\<close>)
  qed (auto simp: rotation_ready_def)
qed

lemma attempts_allowed:
  assumes "rv_userId D = self" "gd_myGrantSortKey detail = Some ref"
  shows "meets J (\<lambda>H. removal_basis groupId detail H \<and> rotation_ready self groupId subject detail rotation H)
    (remove_attempts k rotation D groupId subject elevated ref) (\<lambda>r H. True)"
proof (induction "2 * k + (if has_record rotation then 1 else 0)" arbitrary: k rotation rule: less_induct)
  case less
  let ?A = "\<lambda>H. removal_basis groupId detail H \<and> rotation_ready self groupId subject detail rotation H"
  have last: "lasting ?A" by (intro lasting_intro)
  let ?req = "\<lparr>rg_userId = self, rg_groupId = groupId, rg_subjectUserId = subject, rg_role = js ''member'', rg_grantorGrantRef = ref\<rparr>"
  let ?B = "\<lambda>demotion H. if elevated then \<exists>d. demotion = Some d \<and> demotion_signed self groupId subject detail d H
       else demotion = None"
  have asked: "J H (AskRoleGrant ?req r)" if "?A H" elevated for H r
    by (rule removing) (use that assms(2) in \<open>auto simp: removal_call_def\<close>)
  have signed: "meets J ?A (sign_demotion D groupId subject elevated ref) (on_ok ?B)"
    unfolding sign_demotion_def Let_def assms(1)
    by (intro meets_if meets_give meets_await [OF last meets_ask] meets_prod)
      (use asked assms(2) in \<open>auto simp: demotion_signed_def\<close>)
  have sent: "J H (SendRemove groupId subject (removal_body demotion rotation) r)" if "?A H \<and> ?B demotion H" for H demotion r
  proof (rule removing)
    from that have "removal_sent self groupId subject elevated (removal_body demotion rotation) H"
      unfolding removal_sent_def removal_body_parts rotation_ready_def by blast
    then show "removal_call self groupId subject elevated H (SendRemove groupId subject (removal_body demotion rotation) r)"
      by (simp add: removal_call_def)
  qed
  show ?case
  proof (cases k)
    case 0
    then show ?thesis by (simp add: meets_give)
  next
    case (Suc l)
    have again: "meets J ?A (remove_attempts (Suc l) (without_record rotation) D groupId subject elevated ref) (\<lambda>r H. True)"
      if "has_record rotation"
      by (rule meets_pre [OF less]) (use that Suc ready_without_record in auto)
    have fewer: "meets J ?A (remove_attempts l rotation D groupId subject elevated ref) (\<lambda>r H. True)"
      by (rule meets_pre [OF less]) (use Suc in auto)
    show ?thesis
      unfolding Suc
    proof (subst remove_attempts.simps(2), unfold Let_def, rule meets_attempt_ok [OF last signed], goal_cases)
      case (2 demotion)
      have "lasting (\<lambda>H. ?A H \<and> ?B demotion H)" by (intro lasting_intro)
      then show ?case
        by (intro meets_attempt [OF _ meets_ask] meets_if meets_give meets_pre [OF again] meets_pre [OF fewer])
          (use sent in auto)
    qed (rule meets_give, simp)
  qed
qed

lemma removal_allowed:
  assumes "rv_userId D = self" "elevated = (role \<noteq> js ''member'')"
  shows "meets J A (runRemoveMember D groupId subject role) (\<lambda>r H. True)"
proof -
  have read: "J H (ReadGroup groupId r)" for H r by (rule removing) (simp add: removal_call_def)
  have "meets J (\<lambda>H. True) (runRemoveMember D groupId subject role) (\<lambda>r H. True)"
    unfolding runRemoveMember_def
  proof (rule meets_attempt [OF lasting_pure meets_ask], goal_cases)
    case (3 detail)
    show ?case
    proof (intro meets_if meets_option meets_give, goal_cases)
      case (4 ref)
      then have ref: "gd_myGrantSortKey detail = Some ref" by (auto simp: truthy_def split: option.splits if_splits)
      have last: "lasting (removal_basis groupId detail)" by (rule lasting_intro)
      have "meets J (removal_basis groupId detail) (do {
           prepared \<leftarrow> prepare_removal D groupId subject detail;
           case prepared of
             Inl failure \<Rightarrow> give (Inl failure)
           | Inr rotation \<Rightarrow> do {
               sent \<leftarrow> remove_attempts REMOVE_SIGN_ATTEMPTS rotation D groupId subject elevated ref;
               give (case sent of Inl failure \<Rightarrow> Inl failure
                 | Inr _ \<Rightarrow> Inr (gd_revocationMode detail = js ''rotating''))
             }
         }) (\<lambda>r H. True)"
        by (rule meets_bind [OF last rotation_prepared [OF assms(1)]], intro meets_sum meets_bind [OF _ meets_pre [OF attempts_allowed [OF assms(1) ref]]] meets_give)
          (auto intro!: lasting_intro)
      then show ?case
        unfolding assms(2) by (rule meets_pre) (use 4 in \<open>simp add: removal_basis_def\<close>)
    qed simp_all
  qed (auto intro: meets_give read)
  then show ?thesis by (rule meets_pre) simp
qed

end

interpretation removal: removal_checks "removal_call self groupId subject elevated" self groupId subject elevated
  by unfold_locales

text \<open>Every call of a removal is one it may make.\<close>

lemma removal_follows:
  assumes "run_state (runRemoveMember D groupId subject role) [] = (outcome, h)"
  shows "justified (removal_call (rv_userId D) groupId subject (role \<noteq> js ''member'')) h"
  using meets_run [OF removal.removal_allowed [OF refl refl] _ assms] by simp

section \<open>What an answer settles\<close>

text \<open>
  After this answer the member may be gone: the server said so, or nothing definite is known.  An error with the code
  of a refused record is tried again without one, so it settles nothing.
\<close>

definition may_be_removed :: "thrown + unit \<Rightarrow> bool" where
  "may_be_removed answer \<longleftrightarrow>
     (case answer of Inl err \<Rightarrow> remove_failure err = RemoveAmbiguous \<and> \<not> has_code ''bad_signature'' err | Inr _ \<Rightarrow> True)"

definition removal_landed :: "js_string \<Rightarrow> js_string \<Rightarrow> call set \<Rightarrow> bool" where
  "removal_landed groupId i H \<longleftrightarrow> (\<exists>body answer. SendRemove groupId i body answer \<in> H \<and> may_be_removed answer)"

lemma removal_landed_insert:
  "removal_landed groupId i (insert c H) \<longleftrightarrow>
     removal_landed groupId i H \<or> (\<exists>body answer. c = SendRemove groupId i body answer \<and> may_be_removed answer)"
  by (auto simp: removal_landed_def)

lemma taken_not_ambiguous: "grant_key_taken err \<Longrightarrow> remove_failure err \<noteq> RemoveAmbiguous"
  by (auto simp: grant_key_taken_def remove_failure_def has_status_def split: thrown.splits)

text \<open>A flow tells what it may have removed: if a removal landed on its way, its result says so.\<close>

definition tells :: "js_string \<Rightarrow> js_string \<Rightarrow> ('a \<Rightarrow> bool) \<Rightarrow> (call, 'a) flow \<Rightarrow> call list \<Rightarrow> bool" where
  "tells groupId i said m h \<longleftrightarrow>
     ends m (\<lambda>r h'. removal_landed groupId i (set h') \<longrightarrow> removal_landed groupId i (set h) \<or> said r) h"

lemma tells_give: "tells groupId i said (give r) h"
  by (simp add: tells_def flow_simps)

lemma tells_after:
  "tells groupId i said m (h @ [c]) \<Longrightarrow> (removal_landed groupId i (set (h @ [c])) \<Longrightarrow> removal_landed groupId i (set h))
   \<Longrightarrow> ends m (\<lambda>r h'. removal_landed groupId i (set h') \<longrightarrow> removal_landed groupId i (set h) \<or> said r) (h @ [c])"
  unfolding tells_def by (erule ends_mono) blast

lemma tells_attempt:
  assumes "tells groupId i (\<lambda>r. False) m h" "\<And>e h. tells groupId i said (failed e) h" "\<And>x h. tells groupId i said (k x) h"
  shows "tells groupId i said (attempt m failed k) h"
  unfolding tells_def ends_attempt
proof (rule ends_mono [OF assms(1) [unfolded tells_def]])
  fix r h'
  assume "removal_landed groupId i (set h') \<longrightarrow> removal_landed groupId i (set h) \<or> False"
  then show "case r of
      Inl e \<Rightarrow> ends (failed e) (\<lambda>r h'. removal_landed groupId i (set h') \<longrightarrow> removal_landed groupId i (set h) \<or> said r) h'
    | Inr x \<Rightarrow> ends (k x) (\<lambda>r h'. removal_landed groupId i (set h') \<longrightarrow> removal_landed groupId i (set h) \<or> said r) h'"
    by (cases r) (auto intro: ends_mono [OF assms(2) [unfolded tells_def]] ends_mono [OF assms(3) [unfolded tells_def]])
qed

lemma tells_bind:
  assumes "tells groupId i (\<lambda>r. False) m h" "\<And>x h. tells groupId i said (f x) h"
  shows "tells groupId i said (State_Monad.bind m f) h"
  unfolding tells_def ends_bind
proof (rule ends_mono [OF assms(1) [unfolded tells_def]])
  fix r h'
  assume "removal_landed groupId i (set h') \<longrightarrow> removal_landed groupId i (set h) \<or> False"
  then show "ends (f r) (\<lambda>r h'. removal_landed groupId i (set h') \<longrightarrow> removal_landed groupId i (set h) \<or> said r) h'"
    by (auto intro: ends_mono [OF assms(2) [unfolded tells_def]])
qed

lemma tells_ask:
  "(\<And>x body answer. entry x \<noteq> SendRemove groupId i body answer) \<Longrightarrow> tells groupId i (\<lambda>r. False) (ask answer entry) h"
  by (simp add: tells_def flow_simps removal_landed_insert)

lemma demotion_tells: "tells groupId i (\<lambda>r. False) (sign_demotion D g j elevated ref) h"
  by (auto simp: tells_def sign_demotion_def Let_def flow_simps removal_landed_insert split: sum.split)

lemma preparation_tells: "tells groupId i (\<lambda>r. False) (prepare_removal D g j detail) h"
  by (auto simp: tells_def prepare_removal_def ownWrapRecord_def wrapRecordFor_def Let_def flow_simps removal_landed_insert
      split: sum.split option.split)

definition says_removed :: "RemoveFailure + 'a \<Rightarrow> bool" where
  "says_removed r \<longleftrightarrow> (case r of Inl failure \<Rightarrow> failure = RemoveAmbiguous | Inr _ \<Rightarrow> True)"

lemma says_removed_simps [simp]:
  "says_removed (Inl failure) \<longleftrightarrow> failure = RemoveAmbiguous" "says_removed (Inr x)"
  by (simp_all add: says_removed_def)

lemma attempts_tell: "tells groupId i says_removed (remove_attempts k rotation D groupId i elevated ref) h"
proof (induction "2 * k + (if has_record rotation then 1 else 0)" arbitrary: k rotation h rule: less_induct)
  case less
  show ?case
  proof (cases k)
    case (Suc l)
    have again: "j = Suc l \<Longrightarrow> has_record rotation
        \<Longrightarrow> tells groupId i says_removed (remove_attempts j (without_record rotation) D groupId i elevated ref) h"
      and fewer: "tells groupId i says_removed (remove_attempts l rotation D groupId i elevated ref) h" for h j
      by (rule less; simp add: Suc)+
    show ?thesis
      unfolding Suc
    proof (subst remove_attempts.simps(2), unfold Let_def, rule tells_attempt [OF demotion_tells tells_give], goal_cases)
      case (1 demotion h)
      show ?case
        unfolding tells_def ends_attempt ends_ask
        by (cases "rv_removeMember D groupId i (removal_body demotion rotation) h")
          (auto simp: flow_simps removal_landed_insert may_be_removed_def simp del: remove_attempts.simps dest: taken_not_ambiguous
            intro!: tells_after again fewer)
    qed
  qed (simp add: tells_give)
qed

lemma removal_tells: "tells groupId i says_removed (runRemoveMember D groupId i role) h"
  unfolding runRemoveMember_def
proof (intro tells_attempt [OF tells_ask tells_give], simp, goal_cases)
  case (1 detail h)
  show ?case
  proof (auto intro!: tells_give split: option.split, goal_cases)
    case (1 ref)
    show ?case
    proof (rule tells_bind [OF preparation_tells], goal_cases)
      case (1 prepared h)
      show ?case
      proof (cases prepared)
        case (Inr rotation)
        have kept: "tells groupId i says_removed (State_Monad.bind m (\<lambda>sent. give (case sent of Inl failure \<Rightarrow> Inl failure | Inr x \<Rightarrow> Inr b))) h"
          if "tells groupId i says_removed m h" for m :: "(call, RemoveFailure + unit) flow" and b :: bool
          using that unfolding tells_def ends_bind ends_give
          by (elim ends_mono) (auto simp: says_removed_def split: sum.splits)
        show ?thesis unfolding Inr sum.case by (rule kept [OF attempts_tell])
      qed (simp add: tells_give)
    qed
  qed
qed

end
