(* ===== verification/Rotation_Jobs.thy ===== *)
theory Rotation_Jobs
  imports Approve_Run Members_Run
begin

text \<open>
  routes/rotationJobs.ts: one rotation job per group at a time, and the sequences that hold the lock while they change
  the group and drive the rotation they started.
\<close>

section \<open>The lock\<close>

text \<open>
  A guard, with a number for each token drawn; a listener is called with every change of \<open>held\<close>, so the list of calls
  is part of the state.
\<close>

record RotationGuard =
  gu_holder :: "nat option"
  gu_drawn :: nat
  gu_listeners :: "nat list"
  gu_notified :: "(nat \<times> bool) list"

definition createRotationGuard :: RotationGuard where
  "createRotationGuard = \<lparr>gu_holder = None, gu_drawn = 0, gu_listeners = [], gu_notified = []\<rparr>"

definition notify :: "bool \<Rightarrow> RotationGuard \<Rightarrow> RotationGuard" where
  "notify held g = g\<lparr>gu_notified := gu_notified g @ map (\<lambda>l. (l, held)) (gu_listeners g)\<rparr>"

definition guard_held :: "RotationGuard \<Rightarrow> bool" where
  "guard_held g \<longleftrightarrow> gu_holder g \<noteq> None"

text \<open>The token of the release function, if the lock was free.\<close>

definition tryAcquire :: "RotationGuard \<Rightarrow> nat option \<times> RotationGuard" where
  "tryAcquire g =
     (if gu_holder g \<noteq> None then (None, g)
      else (Some (gu_drawn g), notify True (g\<lparr>gu_holder := Some (gu_drawn g), gu_drawn := Suc (gu_drawn g)\<rparr>)))"

definition release :: "nat \<Rightarrow> RotationGuard \<Rightarrow> RotationGuard" where
  "release token g = (if gu_holder g = Some token then notify False (g\<lparr>gu_holder := None\<rparr>) else g)"

definition subscribe :: "nat \<Rightarrow> RotationGuard \<Rightarrow> RotationGuard" where
  "subscribe l g = g\<lparr>gu_listeners := (if l \<in> set (gu_listeners g) then gu_listeners g else gu_listeners g @ [l])\<rparr>"

definition unsubscribe :: "nat \<Rightarrow> RotationGuard \<Rightarrow> RotationGuard" where
  "unsubscribe l g = g\<lparr>gu_listeners := removeAll l (gu_listeners g)\<rparr>"

text \<open>The guards of the tab, one per group, made when first asked for.\<close>

definition rotationGuardFor :: "js_string \<Rightarrow> (js_string \<rightharpoonup> RotationGuard) \<Rightarrow> RotationGuard \<times> (js_string \<rightharpoonup> RotationGuard)" where
  "rotationGuardFor groupId guards = (case guards groupId of
     Some g \<Rightarrow> (g, guards)
   | None \<Rightarrow> (createRotationGuard, guards(groupId \<mapsto> createRotationGuard)))"

section \<open>The jobs, with the lock held\<close>

text \<open>What a job does once it holds the lock; \<open>tryAcquire\<close> answering null is the outcome busy.\<close>

definition catch_up_job ::
  "nat \<Rightarrow> prims \<Rightarrow> 'd RotationDeps_scheme \<Rightarrow> js_string \<Rightarrow> (call, thrown + RotationOutcome) flow" where
  "catch_up_job n P D groupId = runRotation n P D groupId {}"

definition remove_job ::
  "nat \<Rightarrow> prims \<Rightarrow> RemoveDeps \<Rightarrow> 'd RotationDeps_scheme \<Rightarrow> js_string \<Rightarrow> js_string \<Rightarrow> js_string \<Rightarrow> bool
   \<Rightarrow> (call, thrown + RemoveResult \<times> RotationOutcome option \<times> js_string set option) flow" where
  "remove_job n P R D groupId subjectUserId subjectRole rotatingGroup = do {
     removal \<leftarrow> runRemoveMember R groupId subjectUserId subjectRole;
     let need = rotationNeededAfter removal rotatingGroup subjectUserId;
     case need of
       None \<Rightarrow> give (Inr (removal, None, need))
     | Some exclude \<Rightarrow>
         await (runRotation n P D groupId exclude) (\<lambda>rotation. give (Inr (removal, Some rotation, need)))
   }"

definition readmit_job ::
  "nat \<Rightarrow> prims \<Rightarrow> 'd ReadmitDeps_scheme \<Rightarrow> js_string \<Rightarrow> js_string \<Rightarrow> js_string
   \<Rightarrow> (call, thrown + (ReadmitFailure + unit) \<times> RotationOutcome option) flow" where
  "readmit_job n P D groupId subjectUserId confirmedFingerprint =
     await (runReadmit n P D groupId subjectUserId confirmedFingerprint) (\<lambda>readmit.
       if readmit = Inr () \<or> readmit = Inl ReadmitAmbiguous
       then await (runRotation n P D groupId {}) (\<lambda>rotation. give (Inr (readmit, Some rotation)))
       else give (Inr (readmit, None)))"

definition may_have_started :: "ApproveResult \<Rightarrow> bool" where
  "may_have_started approve = (case approve of Inr how \<Rightarrow> how \<noteq> HowRewrap | Inl failure \<Rightarrow> failure = ApproveAmbiguous)"

definition approve_job ::
  "nat \<Rightarrow> prims \<Rightarrow> 'd ApproveDeps_scheme \<Rightarrow> js_string \<Rightarrow> js_string \<Rightarrow> js_string
   \<Rightarrow> (call, thrown + ApproveResult \<times> RotationOutcome option) flow" where
  "approve_job n P D groupId subjectUserId confirmedFingerprint = do {
     approve \<leftarrow> runApprove P D groupId subjectUserId confirmedFingerprint;
     if may_have_started approve
     then await (runRotation n P D groupId {}) (\<lambda>rotation. give (Inr (approve, Some rotation)))
     else give (Inr (approve, None))
   }"

text \<open>
  A job under the lock of its group: the guard is the tab's, so it is a part of the state beside the trace, and it is
  released whether the job returns or throws (\<open>finally\<close>).  Busy is the left side.
\<close>

definition under_guard ::
  "(call, 'a) flow \<Rightarrow> RotationGuard \<times> call list \<Rightarrow> (unit + 'a) \<times> RotationGuard \<times> call list" where
  "under_guard job = (\<lambda>(g, h). case tryAcquire g of
     (None, g') \<Rightarrow> (Inl (), g', h)
   | (Some token, g') \<Rightarrow> (case run_state job h of (r, h') \<Rightarrow> (Inr r, release token g', h')))"

definition catchUpRotation ::
  "nat \<Rightarrow> prims \<Rightarrow> 'd RotationDeps_scheme \<Rightarrow> js_string \<Rightarrow> RotationGuard \<times> call list
   \<Rightarrow> (unit + (thrown + RotationOutcome)) \<times> RotationGuard \<times> call list" where
  "catchUpRotation n P D groupId = under_guard (catch_up_job n P D groupId)"

definition removeAndRotate ::
  "nat \<Rightarrow> prims \<Rightarrow> RemoveDeps \<Rightarrow> 'd RotationDeps_scheme \<Rightarrow> js_string \<Rightarrow> js_string \<Rightarrow> js_string \<Rightarrow> bool
   \<Rightarrow> RotationGuard \<times> call list
   \<Rightarrow> (unit + (thrown + RemoveResult \<times> RotationOutcome option \<times> js_string set option)) \<times> RotationGuard \<times> call list" where
  "removeAndRotate n P R D groupId subjectUserId subjectRole rotatingGroup =
     under_guard (remove_job n P R D groupId subjectUserId subjectRole rotatingGroup)"

definition readmitAndRotate ::
  "nat \<Rightarrow> prims \<Rightarrow> 'd ReadmitDeps_scheme \<Rightarrow> js_string \<Rightarrow> js_string \<Rightarrow> js_string \<Rightarrow> RotationGuard \<times> call list
   \<Rightarrow> (unit + (thrown + (ReadmitFailure + unit) \<times> RotationOutcome option)) \<times> RotationGuard \<times> call list" where
  "readmitAndRotate n P D groupId subjectUserId confirmedFingerprint =
     under_guard (readmit_job n P D groupId subjectUserId confirmedFingerprint)"

definition approveAndRotate ::
  "nat \<Rightarrow> prims \<Rightarrow> 'd ApproveDeps_scheme \<Rightarrow> js_string \<Rightarrow> js_string \<Rightarrow> js_string \<Rightarrow> RotationGuard \<times> call list
   \<Rightarrow> (unit + (thrown + ApproveResult \<times> RotationOutcome option)) \<times> RotationGuard \<times> call list" where
  "approveAndRotate n P D groupId subjectUserId confirmedFingerprint =
     under_guard (approve_job n P D groupId subjectUserId confirmedFingerprint)"

end
