(* ===== verification/Job_Properties.thy ===== *)
theory Job_Properties
  imports Removal_Checks Rotation_Jobs Rotation_Checks Rotation_Sample
begin

text \<open>
  routes/rotationJobs.ts: the lock of a group is held by one job at a time, and a removal followed by the rotation it
  starts never wraps the new key for the member removed.
\<close>

section \<open>A removal and its rotation\<close>

text \<open>What the two flows may do together, the rotation leaving out \<open>exclude\<close>.\<close>

definition remove_job_call ::
  "nat \<Rightarrow> prims \<Rightarrow> js_string \<Rightarrow> js_string \<Rightarrow> js_string \<Rightarrow> js_string \<Rightarrow> bool \<Rightarrow> js_string set \<Rightarrow> call set \<Rightarrow> call \<Rightarrow> bool" where
  "remove_job_call n P remover self groupId i elevated exclude H c \<longleftrightarrow>
     removal_call remover groupId i elevated H c \<or> rotation_call n P self groupId exclude H c"

interpretation job_removal: removal_checks "remove_job_call n P remover self groupId subject elevated exclude" remover groupId subject elevated
  by unfold_locales (simp add: remove_job_call_def)

interpretation job_rotation: rotation_checks "remove_job_call n P remover self groupId subject elevated exclude" n P self groupId exclude
  by unfold_locales (simp add: remove_job_call_def)

text \<open>A rotation sends no removal.\<close>

definition removes_only :: "call set \<Rightarrow> call set \<Rightarrow> call \<Rightarrow> bool" where
  "removes_only S H c \<longleftrightarrow> (\<forall>g i body answer. c = SendRemove g i body answer \<longrightarrow> c \<in> S)"

interpretation no_removal: rotation_checks "removes_only S" n P self groupId exclude
  by unfold_locales (auto simp: removes_only_def rotation_call_def is_read_def)

lemma justified_mem: "justified J h \<Longrightarrow> c \<in> set h \<Longrightarrow> \<exists>h1 h2. h = h1 @ c # h2 \<and> J (set h1) c"
  by (drule split_list) (auto dest: justified_split)

lemma rotation_removes_nobody:
  fixes D :: "'d RotationDeps_scheme"
  assumes "run_state (runRotation n P D groupId exclude) h0 = (outcome, h)"
  shows "removal_landed g i (set h) \<Longrightarrow> removal_landed g i (set h0)"
proof -
  have "justified (removes_only (set h0)) h0"
    unfolding justified_def removes_only_def by (metis nth_mem)
  from meetsD [OF no_removal.run_allowed [where D = D, OF refl] this TrueI]
  have kept: "justified (removes_only (set h0)) h" by (rule ends_run [OF assms, THEN conjunct1])
  have "SendRemove g i body answer \<in> set h0" if "SendRemove g i body answer \<in> set h" for body answer
    using justified_mem [OF kept that] by (auto simp: removes_only_def)
  then show "removal_landed g i (set h) \<Longrightarrow> removal_landed g i (set h0)"
    unfolding removal_landed_def by blast
qed

text \<open>The two parts of the job.\<close>

lemma remove_job_cases:
  fixes D :: "'d RotationDeps_scheme"
  assumes "run_state (remove_job n P R D groupId subject role rotating) [] = (outcome, h)"
  obtains (alone) removal where "run_state (runRemoveMember R groupId subject role) [] = (removal, h)"
      "rotationNeededAfter removal rotating subject = None"
  | (rotated) removal h0 exclude rotation where "run_state (runRemoveMember R groupId subject role) [] = (removal, h0)"
      "rotationNeededAfter removal rotating subject = Some exclude"
      "run_state (runRotation n P D groupId exclude) h0 = (rotation, h)"
proof (cases "run_state (runRemoveMember R groupId subject role) []")
  case (Pair removal h0)
  show ?thesis
  proof (cases "rotationNeededAfter removal rotating subject")
    case None
    with assms Pair show ?thesis by (intro alone) (simp_all add: remove_job_def give_def)
  next
    case (Some exclude)
    obtain rotation h' where run: "run_state (runRotation n P D groupId exclude) h0 = (rotation, h')" by fastforce
    with assms Pair Some have "h' = h"
      by (cases rotation) (simp_all add: remove_job_def give_def await_def attempt_def)
    with Pair Some run show ?thesis by (intro rotated) simp_all
  qed
qed

lemma excluded_after_removal:
  assumes "run_state (runRemoveMember R groupId subject role) [] = (removal, h0)" "removal_landed groupId subject (set h0)"
    "rotationNeededAfter removal rotating subject = Some exclude"
  shows "exclude = {subject}"
proof -
  have "says_removed removal"
    using removal_tells [of groupId subject R role "[]"] assms(1,2) by (simp add: tells_def ends_def removal_landed_def)
  with assms(3) show ?thesis by (auto simp: says_removed_def rotationNeededAfter_def split: sum.splits if_splits)
qed

lemma no_wrap_in_removal: "\<not> removal_call self groupId i elevated H (AskRewrap req answer)"
  by (simp add: removal_call_def)

text \<open>
  C9: A member who was removed is never given the new key.  In the job that removes a member and drives the rotation
  their removal starts, once the server has answered a removal of theirs with success, or in a way that leaves open
  whether it happened, every new group key is wrapped only for others, each of them cleared: listed as behind, pinned,
  admitted and not removed.  So for every role the roster showed, in every order of answers, whatever the server lists.
\<close>
theorem removed_member_gets_no_new_key:
  fixes D :: "'d RotationDeps_scheme"
  assumes "run_state (remove_job n P R D groupId subject role rotating) [] = (outcome, h1 @ AskRewrap req answer # h2)"
    and "SendRemove groupId subject body result \<in> set h1"
    and "result = Inr () \<or> (\<exists>err. result = Inl err \<and> remove_failure err = RemoveAmbiguous \<and> \<not> has_code ''bad_signature'' err)"
  shows "\<forall>(i, key)\<in>set (rw_recipients req). i \<noteq> subject \<and> i \<noteq> selfUserId D
    \<and> (\<exists>own. cleared_recipient n P (selfUserId D) own groupId (rw_ownGeneration req) i key (set h1))"
proof -
  let ?h = "h1 @ AskRewrap req answer # h2" and ?elevated = "role \<noteq> js ''member''"
  have landed: "removal_landed groupId subject (set h1)"
    unfolding removal_landed_def
    by (intro exI [of _ body] exI [of _ result] conjI assms(2)) (use assms(3) in \<open>auto simp: may_be_removed_def\<close>)
  from assms(1) show ?thesis
  proof (cases rule: remove_job_cases)
    case (alone removal)
    from justified_split [OF removal_follows [OF alone(1)]] show ?thesis by (simp add: no_wrap_in_removal)
  next
    case (rotated removal h0 exclude rotation)
    have "removal_landed groupId subject (set h0)"
      by (rule rotation_removes_nobody [OF rotated(3)]) (use landed in \<open>auto simp: removal_landed_def\<close>)
    from excluded_after_removal [OF rotated(1) this rotated(2)] have exclude: "exclude = {subject}" .
    let ?J = "remove_job_call n P (rv_userId R) (selfUserId D) groupId subject ?elevated exclude"
    have "justified ?J h0"
      using meets_run [OF job_removal.removal_allowed [OF refl refl] TrueI rotated(1)] by blast
    from meetsD [OF job_rotation.run_allowed [where D = D, OF refl] this TrueI] have "justified ?J ?h"
      using rotated(3) by (simp add: ends_def)
    from justified_split [OF this] have "rewrap_allowed n P (selfUserId D) groupId {subject} req (set h1)"
      by (simp add: remove_job_call_def no_wrap_in_removal exclude rotation_call_def)
    then show ?thesis unfolding rewrap_allowed_def run_basis_def by fastforce
  qed
qed

text \<open>A run: alice removes carol, who is an ambassador, and drives the rotation.\<close>

definition removal_detail :: GroupDetail where
  "removal_detail = (sample_detail 0 carol)\<lparr>gd_rotation := None, gd_revocationMode := js ''rotating'',
     gd_myGrantSortKey := Some root_key\<rparr>"

definition demoting_key :: js_string where
  "demoting_key = js ''GRANT#00000000-0000-4000-8000-00000000000c#2026-03-01#0123456789abcdef''"

definition remove_deps :: RemoveDeps where
  "remove_deps = \<lparr>rv_getGroup = (\<lambda>g h. Inr removal_detail), rv_signRoleGrant = (\<lambda>req h. Inr (demoting_key, js ''AA'')),
     rv_startGroupRotation = (\<lambda>req h. Inr a_minted), rv_removeMember = (\<lambda>g i body h. Inr ()), rv_userId = alice,
     rv_getUserDetail = None, rv_signWrapRecord = None\<rparr>"

definition removal_request :: "RemoveMemberRequest option" where
  "removal_request = Some \<lparr>rb_demotion = Some \<lparr>sd_grantSortKey = demoting_key, sd_grantorGrantRef = root_key, sd_signature = js ''AA''\<rparr>,
     rb_rotation = Some \<lparr>rq_generation = 1, rq_link = a_link, rq_removerWrappedKey = a_wrap, rq_startSignature = js ''AA'',
       rq_record = None\<rparr>\<rparr>"

definition removal_asks :: "call list" where
  "removal_asks = [ReadGroup group1 (Inr removal_detail),
     AskRotationStart \<lparr>sg_userId = alice, sg_groupId = group1, sg_ownWrappedGroupKey = a_wrap, sg_ownGeneration = 0,
       sg_subjectUserId = carol\<rparr> (Inr a_minted),
     AskRoleGrant \<lparr>rg_userId = alice, rg_groupId = group1, rg_subjectUserId = carol, rg_role = js ''member'',
       rg_grantorGrantRef = root_key\<rparr> (Inr (demoting_key, js ''AA''))]"

definition removal_calls :: "call list" where
  "removal_calls = removal_asks @ [SendRemove group1 carol removal_request (Inr ())]"

lemma sample_removal_run:
  "run_state (runRemoveMember remove_deps group1 carol (js ''ambassador'')) h = (Inr True, h @ removal_calls)"
proof (rule run_by_ends)
  obtain k where attempts: "REMOVE_SIGN_ATTEMPTS = Suc k" by (simp add: REMOVE_SIGN_ATTEMPTS_def)
  show "ends (runRemoveMember remove_deps group1 carol (js ''ambassador'')) (\<lambda>r h'. r = Inr True \<and> h' = h @ removal_calls) h"
    by (simp add: runRemoveMember_def remove_deps_def removal_detail_def truthy_def root_key_def prepare_removal_def
        ownWrapRecord_def attempts sign_demotion_def removal_body_def a_minted_def flow_simps removal_calls_def removal_asks_def
        removal_request_def)
qed

lemma remove_job_run:
  "run_state (remove_job 4 sample remove_deps (sample_deps alice 1 (sample_detail 1 carol)) group1 carol (js ''ambassador'') True) []
   = (Inr (Inr True, Some (Completed 1), Some {carol}), removal_calls @ remover_calls)"
proof -
  have "run_state (runRotation 4 sample (sample_deps alice 1 (sample_detail 1 carol)) group1 {carol}) removal_calls
      = (Inr (Completed 1), removal_calls @ remover_calls)"
    by (rule remover_run_after) (auto simp: removal_calls_def removal_asks_def)
  then show ?thesis
    by (simp add: remove_job_def sample_removal_run [of "[]", simplified] rotationNeededAfter_def await_def attempt_def give_def)
qed

theorem removed_member_gets_no_new_key_witness:
  "\<exists>outcome h1 h2. run_state (remove_job 4 sample remove_deps (sample_deps alice 1 (sample_detail 1 carol)) group1 carol
       (js ''ambassador'') True) [] = (outcome, h1 @ AskRewrap bob_wrap (Inr []) # h2)
     \<and> SendRemove group1 carol removal_request (Inr ()) \<in> set h1 \<and> (\<forall>(i, key)\<in>set (rw_recipients bob_wrap). i \<noteq> carol)"
proof -
  have "AskRewrap bob_wrap (Inr []) \<in> set remover_calls" by (simp add: remover_calls_def)
  then obtain h1 h2 where split: "remover_calls = h1 @ AskRewrap bob_wrap (Inr []) # h2" by (meson split_list)
  have run: "run_state (remove_job 4 sample remove_deps (sample_deps alice 1 (sample_detail 1 carol)) group1 carol
      (js ''ambassador'') True) []
      = (Inr (Inr True, Some (Completed 1), Some {carol}), (removal_calls @ h1) @ AskRewrap bob_wrap (Inr []) # h2)"
    using remove_job_run split by simp
  have sent: "SendRemove group1 carol removal_request (Inr ()) \<in> set (removal_calls @ h1)" by (simp add: removal_calls_def)
  have "\<forall>(i, key)\<in>set (rw_recipients bob_wrap). i \<noteq> carol"
    using removed_member_gets_no_new_key [OF run sent] by auto
  with run sent show ?thesis by blast
qed

text \<open>
  A removal sends what was minted and signed for it.  Before \<open>runRemoveMember\<close> sends a removal, it has read the group
  as an admin while no rotation was running.  It carries a demotion exactly when the roster shows the member with a role
  above member, signed for this member on the caller's own grant; and a rotation exactly when the group rotates its key,
  which is the one the worker minted for this removal from the caller's key of the generation read, whatever was tried before.
\<close>
theorem removal_sends_what_was_minted:
  assumes "run_state (runRemoveMember R groupId subject role) [] = (outcome, h1 @ SendRemove g i body answer # h2)"
  shows "g = groupId \<and> i = subject
    \<and> (\<exists>detail. ReadGroup groupId (Inr detail) \<in> set h1 \<and> ge_role detail = js ''admin'' \<and> gd_rotation detail = None
        \<and> (if role \<noteq> js ''member''
           then \<exists>d. demotion_of body = Some d \<and> demotion_signed (rv_userId R) groupId subject detail d (set h1)
           else demotion_of body = None)
        \<and> (if gd_revocationMode detail = js ''rotating''
           then \<exists>r. rotation_of body = Some r \<and> rotation_minted (rv_userId R) groupId subject detail r (set h1)
           else rotation_of body = None))"
  using justified_split [OF removal_follows [OF assms]]
  unfolding removal_call_def call.case removal_sent_def removal_basis_def by blast

theorem removal_sends_what_was_minted_witness:
  "run_state (runRemoveMember remove_deps group1 carol (js ''ambassador'')) []
     = (Inr True, removal_asks @ SendRemove group1 carol removal_request (Inr ()) # [])
   \<and> (\<exists>detail d. demotion_of removal_request = Some d \<and> demotion_signed alice group1 carol detail d (set removal_asks))"
proof
  show run: "run_state (runRemoveMember remove_deps group1 carol (js ''ambassador'')) []
     = (Inr True, removal_asks @ SendRemove group1 carol removal_request (Inr ()) # [])"
    using sample_removal_run [of "[]"] by (simp add: removal_calls_def)
  have "rv_userId remove_deps = alice" "js ''ambassador'' \<noteq> js ''member''" by (simp_all add: remove_deps_def)
  with removal_sends_what_was_minted [OF run]
  show "\<exists>detail d. demotion_of removal_request = Some d \<and> demotion_signed alice group1 carol detail d (set removal_asks)"
    by (auto split: if_splits)
qed

end
