(* ===== verification/Guard_Properties.thy ===== *)
theory Guard_Properties
  imports Rotation_Jobs
begin

text \<open>
  routes/rotationJobs.ts: the locks of the tab as jobs take and give them back, in any order.
\<close>

section \<open>The tab\<close>

text \<open>
  The guards made so far, the job that holds each release function not yet called, and the release functions that were
  called: a closure can be called again, by a screen that is gone.
\<close>

record tab =
  tb_guards :: "js_string \<rightharpoonup> RotationGuard"
  tb_running :: "nat \<rightharpoonup> js_string \<times> nat"
  tb_released :: "(js_string \<times> nat) set"

definition empty_tab :: tab where
  "empty_tab = \<lparr>tb_guards = Map.empty, tb_running = Map.empty, tb_released = {}\<rparr>"

abbreviation set_guard :: "js_string \<Rightarrow> RotationGuard \<Rightarrow> tab \<Rightarrow> tab" where
  "set_guard groupId g s \<equiv> s\<lparr>tb_guards := (tb_guards s)(groupId \<mapsto> g)\<rparr>"

inductive tab_step :: "tab \<Rightarrow> tab \<Rightarrow> bool" where
  start: "\<lbrakk>rotationGuardFor groupId (tb_guards s) = (g, guards); tryAcquire g = (Some token, g'); tb_running s job = None\<rbrakk>
    \<Longrightarrow> tab_step s (s\<lparr>tb_guards := guards(groupId \<mapsto> g'), tb_running := (tb_running s)(job \<mapsto> (groupId, token))\<rparr>)"
| busy: "\<lbrakk>rotationGuardFor groupId (tb_guards s) = (g, guards); tryAcquire g = (None, g')\<rbrakk>
    \<Longrightarrow> tab_step s (s\<lparr>tb_guards := guards(groupId \<mapsto> g')\<rparr>)"
| finish: "\<lbrakk>tb_running s job = Some (groupId, token); tb_guards s groupId = Some g\<rbrakk>
    \<Longrightarrow> tab_step s (set_guard groupId (release token g)
         (s\<lparr>tb_running := (tb_running s)(job := None), tb_released := insert (groupId, token) (tb_released s)\<rparr>))"
| release_again: "\<lbrakk>(groupId, token) \<in> tb_released s; tb_guards s groupId = Some g\<rbrakk>
    \<Longrightarrow> tab_step s (set_guard groupId (release token g) s)"
| listen: "rotationGuardFor groupId (tb_guards s) = (g, guards)
    \<Longrightarrow> tab_step s (s\<lparr>tb_guards := guards(groupId \<mapsto> subscribe l g)\<rparr>)"
| unlisten: "tb_guards s groupId = Some g \<Longrightarrow> tab_step s (set_guard groupId (unsubscribe l g) s)"

inductive_cases tab_stepE: "tab_step s s'"

section \<open>The invariant\<close>

text \<open>The jobs that run for a group hold its lock, and the numbers drawn are never drawn again.\<close>

definition guard_agrees :: "js_string \<Rightarrow> RotationGuard \<Rightarrow> tab \<Rightarrow> bool" where
  "guard_agrees groupId g s \<longleftrightarrow>
     (\<forall>token. gu_holder g = Some token \<longleftrightarrow> (\<exists>job. tb_running s job = Some (groupId, token)))
     \<and> (\<forall>job token. tb_running s job = Some (groupId, token) \<longrightarrow> token < gu_drawn g)
     \<and> (\<forall>token. (groupId, token) \<in> tb_released s \<longrightarrow> token < gu_drawn g \<and> gu_holder g \<noteq> Some token)"

text \<open>A guard not made yet is a free one.\<close>

definition guard_of :: "(js_string \<rightharpoonup> RotationGuard) \<Rightarrow> js_string \<Rightarrow> RotationGuard" where
  "guard_of guards groupId = (case guards groupId of None \<Rightarrow> createRotationGuard | Some g \<Rightarrow> g)"

definition tab_ok :: "tab \<Rightarrow> bool" where
  "tab_ok s \<longleftrightarrow>
     (\<forall>groupId. guard_agrees groupId (guard_of (tb_guards s) groupId) s)
     \<and> (\<forall>job job' x. tb_running s job = Some x \<longrightarrow> tb_running s job' = Some x \<longrightarrow> job = job')"

lemma guard_of_simps [simp]:
  "guard_of (guards(i \<mapsto> g)) i' = (if i' = i then g else guard_of guards i')"
  "guards i = Some g \<Longrightarrow> guard_of guards i = g"
  by (simp_all add: guard_of_def)

lemma guard_for:
  "rotationGuardFor i guards = (g, guards') \<Longrightarrow> g = guard_of guards i \<and> guards'(i \<mapsto> x) = guards(i \<mapsto> x)"
  by (auto simp: rotationGuardFor_def guard_of_def split: option.splits)

lemma guard_fields [simp]:
  "gu_holder (notify b g) = gu_holder g" "gu_drawn (notify b g) = gu_drawn g"
  "gu_holder (subscribe l g) = gu_holder g" "gu_drawn (subscribe l g) = gu_drawn g"
  "gu_holder (unsubscribe l g) = gu_holder g" "gu_drawn (unsubscribe l g) = gu_drawn g"
  "gu_drawn (release token g) = gu_drawn g"
  "gu_holder (release token g) = (if gu_holder g = Some token then None else gu_holder g)"
  by (simp_all add: notify_def subscribe_def unsubscribe_def release_def)

lemma tab_ok_empty: "tab_ok empty_tab"
  by (simp add: tab_ok_def empty_tab_def guard_agrees_def guard_of_def createRotationGuard_def)

lemma tab_okD:
  "tab_ok s \<Longrightarrow> guard_agrees i (guard_of (tb_guards s) i) s"
  "tab_ok s \<Longrightarrow> tb_running s job = Some x \<Longrightarrow> tb_running s job' = Some x \<Longrightarrow> job = job'"
  unfolding tab_ok_def by blast+

text \<open>What is claimed of a guard looks only at the jobs of its group.\<close>

lemma guard_agrees_cong:
  assumes "guard_agrees i g s" "gu_holder g' = gu_holder g" "gu_drawn g' = gu_drawn g"
    "\<And>job t. tb_running s' job = Some (i, t) \<longleftrightarrow> tb_running s job = Some (i, t)"
    "\<And>t. (i, t) \<in> tb_released s' \<longleftrightarrow> (i, t) \<in> tb_released s"
  shows "guard_agrees i g' s'"
  using assms(1) unfolding guard_agrees_def assms(2-) .

text \<open>A step that changes one guard and not who holds it.\<close>

lemma tab_ok_same:
  assumes "tab_ok s" "gu_holder g = gu_holder (guard_of (tb_guards s) i)" "gu_drawn g = gu_drawn (guard_of (tb_guards s) i)"
  shows "tab_ok (set_guard i g s)"
  unfolding tab_ok_def
proof (intro conjI allI impI)
  show "guard_agrees i' (guard_of (tb_guards (set_guard i g s)) i') (set_guard i g s)" for i'
    by (rule guard_agrees_cong [OF tab_okD(1) [OF assms(1)]]) (simp_all add: assms(2,3))
qed (use tab_okD(2) [OF assms(1)] in simp)

lemma tab_ok_step: "tab_step s s' \<Longrightarrow> tab_ok s \<Longrightarrow> tab_ok s'"
proof (induction rule: tab_step.induct)
  case (start i s g guards token g' job)
  then have g: "g = guard_of (tb_guards s) i" "guards(i \<mapsto> g') = (tb_guards s)(i \<mapsto> g')"
    by (auto dest: guard_for)
  have free: "gu_holder g = None" "token = gu_drawn g" "gu_holder g' = Some token" "gu_drawn g' = Suc token"
    using start(2) by (auto simp: tryAcquire_def split: if_splits)
  have agrees: "guard_agrees i g s" using tab_okD(1) [OF start(4), of i] g(1) by simp
  have none: "tb_running s j \<noteq> Some (i, t)" for j t using agrees free(1) by (auto simp: guard_agrees_def)
  let ?s = "s\<lparr>tb_guards := guards(i \<mapsto> g'), tb_running := (tb_running s)(job \<mapsto> (i, token))\<rparr>"
  have "guard_agrees i g' ?s"
    using agrees free none unfolding guard_agrees_def by (auto simp: less_Suc_eq)
  moreover have "guard_agrees i' (guard_of (tb_guards s) i') ?s" if "i' \<noteq> i" for i'
    by (rule guard_agrees_cong [OF tab_okD(1) [OF start(4)]]) (use that start(3) in auto)
  ultimately show ?case
    unfolding tab_ok_def using g(2) none tab_okD(2) [OF start(4)] by (auto split: if_splits)
next
  case (busy i s g guards g')
  then have "g' = g" by (auto simp: tryAcquire_def split: if_splits)
  moreover have "guards(i \<mapsto> g') = (tb_guards s)(i \<mapsto> g')" "g = guard_of (tb_guards s) i"
    using guard_for [OF busy(1)] by blast+
  ultimately show ?case using tab_ok_same [OF busy(3), of g' i] by simp
next
  case (finish s job i token g)
  have agrees: "guard_agrees i g s" using tab_okD(1) [OF finish(3), of i] finish(2) by simp
  then have holder: "gu_holder g = Some token" using finish(1) by (auto simp: guard_agrees_def)
  have only: "tb_running s j = Some (i, t) \<longleftrightarrow> j = job \<and> t = token" for j t
  proof
    assume *: "tb_running s j = Some (i, t)"
    with agrees holder have "t = token" by (auto simp: guard_agrees_def)
    with * show "j = job \<and> t = token" using tab_okD(2) [OF finish(3) _ finish(1)] by simp
  qed (use finish(1) in simp)
  let ?s = "set_guard i (release token g)
    (s\<lparr>tb_running := (tb_running s)(job := None), tb_released := insert (i, token) (tb_released s)\<rparr>)"
  have "guard_agrees i (release token g) ?s"
    using agrees by (simp add: guard_agrees_def only holder)
  moreover have "guard_agrees i' (guard_of (tb_guards s) i') ?s" if "i' \<noteq> i" for i'
    by (rule guard_agrees_cong [OF tab_okD(1) [OF finish(3)]]) (use that finish(1) in auto)
  ultimately show ?case
    unfolding tab_ok_def using tab_okD(2) [OF finish(3)] by (auto split: if_splits)
next
  case (release_again i token s g)
  then have "gu_holder g \<noteq> Some token" using tab_okD(1) [of s i] by (auto simp: guard_agrees_def)
  with release_again show ?case by (intro tab_ok_same) simp_all
next
  case (listen i s g guards l)
  moreover have "guards(i \<mapsto> subscribe l g) = (tb_guards s)(i \<mapsto> subscribe l g)" "g = guard_of (tb_guards s) i"
    using guard_for [OF listen(1)] by blast+
  ultimately show ?case using tab_ok_same [of s "subscribe l g" i] by simp
next
  case (unlisten s i g l)
  then show ?case by (intro tab_ok_same) simp_all
qed

section \<open>What the locks guarantee\<close>

lemma reached_tab_ok: "tab_step\<^sup>*\<^sup>* empty_tab s \<Longrightarrow> tab_ok s"
  by (induction rule: rtranclp_induct) (auto intro: tab_ok_empty tab_ok_step)

text \<open>
  C10: One rotation job at a time for each group.  However the jobs of a tab start, are turned away, finish, and call
  the release functions they still have, at most one job runs for a group; its lock is held exactly while one does, so
  that a job that asks then is told busy and one that asks otherwise is let in; and calling a release function
  a second time changes nothing, whoever holds the lock by then.
\<close>
theorem one_rotation_job_per_group:
  assumes "tab_step\<^sup>*\<^sup>* empty_tab s"
  shows "(\<forall>job job' token token'. tb_running s job = Some (groupId, token) \<longrightarrow> tb_running s job' = Some (groupId, token')
        \<longrightarrow> job = job' \<and> token = token')
    \<and> (fst (tryAcquire (fst (rotationGuardFor groupId (tb_guards s)))) = None
        \<longleftrightarrow> (\<exists>job token. tb_running s job = Some (groupId, token)))
    \<and> (guard_held (fst (rotationGuardFor groupId (tb_guards s))) \<longleftrightarrow> (\<exists>job token. tb_running s job = Some (groupId, token)))
    \<and> (\<forall>token. (groupId, token) \<in> tb_released s \<longrightarrow>
        release token (fst (rotationGuardFor groupId (tb_guards s))) = fst (rotationGuardFor groupId (tb_guards s)))"
proof -
  let ?g = "fst (rotationGuardFor groupId (tb_guards s))"
  have "?g = guard_of (tb_guards s) groupId"
    by (cases "rotationGuardFor groupId (tb_guards s)") (simp add: guard_for)
  then have agrees: "guard_agrees groupId ?g s" using tab_okD(1) [OF reached_tab_ok [OF assms]] by simp
  then have same: "token = token'"
    if "tb_running s job = Some (groupId, token)" "tb_running s job' = Some (groupId, token')" for job job' token token'
    using that unfolding guard_agrees_def by (metis option.inject)
  have held: "gu_holder ?g \<noteq> None \<longleftrightarrow> (\<exists>job token. tb_running s job = Some (groupId, token))"
    using agrees unfolding guard_agrees_def by auto
  have "release token ?g = ?g" if "(groupId, token) \<in> tb_released s" for token
    using agrees that by (auto simp: guard_agrees_def release_def)
  with held same tab_okD(2) [OF reached_tab_ok [OF assms]] show ?thesis
    by (auto simp: guard_held_def tryAcquire_def)
qed

text \<open>A job that runs, one that finished before it, and the stale call of its release function.\<close>

theorem one_rotation_job_per_group_witness:
  "\<exists>s. tab_step\<^sup>*\<^sup>* empty_tab s \<and> tb_running s 7 = Some (js ''g'', 1) \<and> (js ''g'', 0) \<in> tb_released s
     \<and> guard_held (fst (rotationGuardFor (js ''g'') (tb_guards s)))
     \<and> release 0 (fst (rotationGuardFor (js ''g'') (tb_guards s))) = fst (rotationGuardFor (js ''g'') (tb_guards s))"
proof -
  let ?g = "js ''g''" and ?held = "\<lambda>h d. \<lparr>gu_holder = h, gu_drawn = d, gu_listeners = [], gu_notified = []\<rparr>"
  let ?s1 = "\<lparr>tb_guards = [?g \<mapsto> ?held (Some 0) 1], tb_running = [5 \<mapsto> (?g, 0)], tb_released = {}\<rparr>"
  let ?s2 = "\<lparr>tb_guards = [?g \<mapsto> ?held None 1], tb_running = Map.empty, tb_released = {(?g, 0)}\<rparr>"
  let ?s3 = "\<lparr>tb_guards = [?g \<mapsto> ?held (Some 1) 2], tb_running = [7 \<mapsto> (?g, 1)], tb_released = {(?g, 0)}\<rparr>"
  have "tab_step empty_tab ?s1"
    using tab_step.start [of ?g empty_tab "?held None 0" "[?g \<mapsto> ?held None 0]" 0 "?held (Some 0) 1" 5]
    by (simp add: empty_tab_def rotationGuardFor_def createRotationGuard_def tryAcquire_def notify_def)
  moreover have "tab_step ?s1 ?s2"
    using tab_step.finish [of ?s1 5 ?g 0 "?held (Some 0) 1"] by (simp add: release_def notify_def)
  moreover have "tab_step ?s2 ?s3"
    using tab_step.start [of ?g ?s2 "?held None 1" "[?g \<mapsto> ?held None 1]" 1 "?held (Some 1) 2" 7]
    by (simp add: rotationGuardFor_def tryAcquire_def notify_def)
  ultimately have reached: "tab_step\<^sup>*\<^sup>* empty_tab ?s3"
    by (intro rtranclp.rtrancl_into_rtrancl [OF rtranclp.rtrancl_into_rtrancl [OF r_into_rtranclp]])
  note locked = one_rotation_job_per_group [OF reached, of ?g, THEN conjunct2, THEN conjunct2]
  have "tb_running ?s3 7 = Some (?g, 1)" "(?g, 0) \<in> tb_released ?s3" by simp_all
  then have "guard_held (fst (rotationGuardFor ?g (tb_guards ?s3)))"
    "release 0 (fst (rotationGuardFor ?g (tb_guards ?s3))) = fst (rotationGuardFor ?g (tb_guards ?s3))"
    using locked by blast+
  with reached show ?thesis by (intro exI [of _ ?s3]) simp
qed

end
