(* ===== verification/Self_Rekey_Run.thy ===== *)
theory Self_Rekey_Run
  imports Rotation_Run
begin

text \<open>
  routes/runSelfRekey.ts and routes/pendingHandoffs.ts: after an account's keys were rotated, each of its groups is
  re-keyed from the row that holds the group's key under the new one.
\<close>

record HandoffEntry =
  he_groupId :: js_string
  he_generation :: int
  he_newWrappingPublicKey :: js_string
  he_wrappedGroupKey :: WireWrapped

definition owes_row :: "GroupListEntry \<Rightarrow> bool" where
  "owes_row g \<longleftrightarrow> ge_role g = js ''admin'' \<or> ge_noRotation g"

text \<open>The ids of the groups with a self re-key waiting, in the order of the rows.\<close>

definition pending_rows :: "HandoffEntry list \<Rightarrow> GroupListEntry list \<Rightarrow> js_string \<Rightarrow> js_string list" where
  "pending_rows rows groups currentWrappingPublicKey =
     map he_groupId (filter (\<lambda>r. he_groupId r \<in> ge_groupId ` set (filter owes_row groups)
       \<and> he_newWrappingPublicKey r = currentWrappingPublicKey) rows)"

definition pendingSelfRekeys ::
  "('c, 'e + HandoffEntry list) flow \<Rightarrow> GroupListEntry list \<Rightarrow> js_string \<Rightarrow> ('c, 'e + js_string list) flow" where
  "pendingSelfRekeys listHandoffs groups currentWrappingPublicKey =
     await listHandoffs (\<lambda>rows. give (Inr (pending_rows rows groups currentWrappingPublicKey)))"

section \<open>The self re-key\<close>

record SelfRekeyDeps = RotationDeps +
  startSelfRekeyCrypto :: "HandoffKeyRequest \<Rightarrow> RotationStarted answer"
  selfRekey :: "js_string \<Rightarrow> TakeOverRotationRequest \<Rightarrow> unit answer"
  selfWrapCrypto :: "HandoffKeyRequest \<Rightarrow> WireWrapped answer"
  selfWrap :: "js_string \<Rightarrow> SelfWrapRequest \<Rightarrow> unit answer"
  deleteHandoff :: "js_string \<Rightarrow> unit answer"

datatype SelfRekeyOutcome =
    Rekeyed RotationOutcome | RowStale | NotAdmin | SelfWrapped | RekeyIncomplete js_string

definition row_request :: "js_string \<Rightarrow> HandoffEntry \<Rightarrow> HandoffKeyRequest" where
  "row_request self row = \<lparr>hk_userId = self, hk_groupId = he_groupId row, hk_handoffGeneration = he_generation row,
     hk_handoffWrappedKey = he_wrappedGroupKey row\<rparr>"

definition staleRow :: "'d SelfRekeyDeps_scheme \<Rightarrow> js_string \<Rightarrow> (call, thrown + SelfRekeyOutcome) flow" where
  "staleRow D groupId =
     attempt (ask (deleteHandoff D groupId) (SendDeleteHandoff groupId))
       (\<lambda>err. give (Inr (RekeyIncomplete (js ''could not clear a used-up handoff: '' @ thrown_message err))))
       (\<lambda>_. give (Inr RowStale))"

definition continueJob ::
  "nat \<Rightarrow> prims \<Rightarrow> 'd SelfRekeyDeps_scheme \<Rightarrow> js_string \<Rightarrow> (call, thrown + SelfRekeyOutcome) flow" where
  "continueJob n P D groupId = await (runRotation n P D groupId {}) (\<lambda>outcome. give (Inr (Rekeyed outcome)))"

definition could_not_open :: "thrown \<Rightarrow> SelfRekeyOutcome" where
  "could_not_open err = RekeyIncomplete (js ''could not open the saved key for this group: '' @ thrown_message err)"

text \<open>A group with no re-key: the row's key, wrapped for the caller's new one.\<close>

definition selfWrapOpen ::
  "'d SelfRekeyDeps_scheme \<Rightarrow> HandoffEntry \<Rightarrow> int \<Rightarrow> (call, thrown + SelfRekeyOutcome) flow" where
  "selfWrapOpen D row entryGeneration =
     (let groupId = he_groupId row
      in if entryGeneration \<noteq> he_generation row then staleRow D groupId
         else attempt (ask (selfWrapCrypto D (row_request (selfUserId D) row)) (AskSelfWrap (row_request (selfUserId D) row)))
           (\<lambda>err. give (Inr (could_not_open err)))
           (\<lambda>wrappedKey. do {
              record_fields \<leftarrow> ownWrapRecord (selfUserId D) (getUserDetail D) (signWrapRecord D) groupId (he_generation row);
              attempt (sendWithRecord record_fields (\<lambda>fs.
                  let body = \<lparr>sf_generation = he_generation row, sf_wrappedKey = wrappedKey, sf_record = fs\<rparr>
                  in ask (selfWrap D groupId body) (SendSelfWrap groupId body)))
                (\<lambda>err. if has_code ''handoff_stale'' err then staleRow D groupId
                   else give (Inr (RekeyIncomplete (thrown_message err))))
                (\<lambda>_. give (Inr SelfWrapped))
            }))"

text \<open>The start of the re-key, from the row.\<close>

definition start_rekey ::
  "nat \<Rightarrow> prims \<Rightarrow> 'd SelfRekeyDeps_scheme \<Rightarrow> HandoffEntry \<Rightarrow> (call, thrown + SelfRekeyOutcome) flow" where
  "start_rekey n P D row =
     (let groupId = he_groupId row
      in attempt (ask (startSelfRekeyCrypto D (row_request (selfUserId D) row)) (AskSelfRekey (row_request (selfUserId D) row)))
        (\<lambda>err. give (Inr (could_not_open err)))
        (\<lambda>minted. do {
           record_fields \<leftarrow> ownWrapRecord (selfUserId D) (getUserDetail D) (signWrapRecord D) groupId (rs_generation minted);
           attempt (sendWithRecord record_fields (\<lambda>fs.
               let body = \<lparr>to_generation = rs_generation minted, to_link = rs_link minted,
                     to_wrappedKey = rs_removerWrappedKey minted, to_startSignature = rs_startSignature minted, to_record = fs\<rparr>
               in ask (selfRekey D groupId body) (SendSelfRekey groupId body)))
             (\<lambda>err. if has_code ''handoff_stale'' err then staleRow D groupId
                else if has_code ''rotation_in_progress'' err then continueJob n P D groupId
                else give (Inr (RekeyIncomplete (thrown_message err))))
             (\<lambda>_. continueJob n P D groupId)
         }))"

definition runSelfRekey ::
  "nat \<Rightarrow> prims \<Rightarrow> 'd SelfRekeyDeps_scheme \<Rightarrow> HandoffEntry \<Rightarrow> (call, thrown + SelfRekeyOutcome) flow" where
  "runSelfRekey n P D row =
     (let groupId = he_groupId row
      in attempt (read_group D groupId)
        (\<lambda>err. give (Inr (if has_status 404 err then NotAdmin else RekeyIncomplete (thrown_message err))))
        (\<lambda>detail.
           if ge_role detail = [] then give (Inr NotAdmin)
           else if gd_revocationMode detail = js ''open'' \<or> ge_visibility detail \<noteq> js ''private''
           then selfWrapOpen D row (ge_generation detail)
           else if ge_role detail \<noteq> js ''admin'' then give (Inr NotAdmin)
           else if gd_rotation detail \<noteq> None then continueJob n P D groupId
           else if ge_generation detail \<noteq> he_generation row then staleRow D groupId
           else start_rekey n P D row))"

end
