(* ===== verification/Self_Rekey_Properties.thy ===== *)
theory Self_Rekey_Properties
  imports Self_Rekey_Run Rotation_Checks Rotation_Sample
begin

text \<open>
  routes/runSelfRekey.ts: what the re-key of a group after a rotation of the account's keys may do: the row that holds the
  group's key is given up only when it can be of no use, and what is sent was made from it.
\<close>

section \<open>What a self re-key may do\<close>

text \<open>The row is of no use: the caller's entry is at another generation, or the server said the row is stale.\<close>

definition row_used_up :: "HandoffEntry \<Rightarrow> call set \<Rightarrow> bool" where
  "row_used_up row H \<longleftrightarrow>
     (\<exists>detail. ReadGroup (he_groupId row) (Inr detail) \<in> H \<and> ge_role detail \<noteq> [] \<and> ge_generation detail \<noteq> he_generation row)
     \<or> (\<exists>body err. SendSelfRekey (he_groupId row) body (Inl err) \<in> H \<and> has_code ''handoff_stale'' err)
     \<or> (\<exists>body err. SendSelfWrap (he_groupId row) body (Inl err) \<in> H \<and> has_code ''handoff_stale'' err)"

text \<open>The group as read: the row is of the caller's own generation, and the group is one to wrap or one to re-key.\<close>

definition row_current :: "HandoffEntry \<Rightarrow> GroupDetail \<Rightarrow> call set \<Rightarrow> bool" where
  "row_current row detail H \<longleftrightarrow> ReadGroup (he_groupId row) (Inr detail) \<in> H \<and> ge_role detail \<noteq> []
     \<and> ge_generation detail = he_generation row"

definition wrap_here :: "GroupDetail \<Rightarrow> bool" where
  "wrap_here detail \<longleftrightarrow> gd_revocationMode detail = js ''open'' \<or> ge_visibility detail \<noteq> js ''private''"

definition rekey_here :: "GroupDetail \<Rightarrow> bool" where
  "rekey_here detail \<longleftrightarrow> \<not> wrap_here detail \<and> ge_role detail = js ''admin'' \<and> gd_rotation detail = None"

definition self_rekey_call :: "nat \<Rightarrow> prims \<Rightarrow> js_string \<Rightarrow> HandoffEntry \<Rightarrow> call set \<Rightarrow> call \<Rightarrow> bool" where
  "self_rekey_call n P self row H c \<longleftrightarrow> (case c of
     AskSelfRekey req r \<Rightarrow> req = row_request self row \<and> (\<exists>detail. row_current row detail H \<and> rekey_here detail)
   | AskSelfWrap req r \<Rightarrow> req = row_request self row \<and> (\<exists>detail. row_current row detail H \<and> wrap_here detail)
   | AskWrapRecord req r \<Rightarrow>
       wq_userId req = self \<and> wq_memberUserId req = self \<and> wq_groupId req = he_groupId row
       \<and> (wq_generation req = he_generation row
          \<or> (\<exists>rq minted. AskSelfRekey rq (Inr minted) \<in> H \<and> wq_generation req = rs_generation minted))
       \<or> rotation_call n P self (he_groupId row) {} H c
   | SendSelfRekey g body r \<Rightarrow> g = he_groupId row
       \<and> (\<exists>detail. row_current row detail H \<and> rekey_here detail)
       \<and> (\<exists>minted. AskSelfRekey (row_request self row) (Inr minted) \<in> H \<and> to_generation body = rs_generation minted
            \<and> to_link body = rs_link minted \<and> to_wrappedKey body = rs_removerWrappedKey minted
            \<and> to_startSignature body = rs_startSignature minted)
   | SendSelfWrap g body r \<Rightarrow> g = he_groupId row \<and> sf_generation body = he_generation row
       \<and> (\<exists>detail. row_current row detail H \<and> wrap_here detail)
       \<and> AskSelfWrap (row_request self row) (Inr (sf_wrappedKey body)) \<in> H
   | SendDeleteHandoff g r \<Rightarrow> g = he_groupId row \<and> row_used_up row H
   | _ \<Rightarrow> rotation_call n P self (he_groupId row) {} H c)"

lemma rekey_last [lasting_intro]: "lasting (row_used_up row)" "lasting (row_current row detail)"
  unfolding row_used_up_def [abs_def] row_current_def [abs_def] by (intro lasting_intro)+

interpretation rekey: rotation_checks "self_rekey_call n P self row" n P self "he_groupId row" "{}"
  by unfold_locales (auto simp: self_rekey_call_def rotation_call_def is_read_def split: call.splits)

lemma rekey_simps:
  "self_rekey_call n P self row H (AskSelfRekey req a) \<longleftrightarrow> req = row_request self row \<and> (\<exists>detail. row_current row detail H \<and> rekey_here detail)"
  "self_rekey_call n P self row H (AskSelfWrap req b) \<longleftrightarrow> req = row_request self row \<and> (\<exists>detail. row_current row detail H \<and> wrap_here detail)"
  "self_rekey_call n P self row H (SendDeleteHandoff g d) \<longleftrightarrow> g = he_groupId row \<and> row_used_up row H"
  by (simp_all add: self_rekey_call_def)

lemma stale_row_allowed:
  "meets (self_rekey_call n P self row) (row_used_up row) (staleRow D (he_groupId row)) (\<lambda>r H. True)"
  unfolding staleRow_def
  by (intro meets_attempt [OF _ meets_ask] meets_give) (auto simp: rekey_simps intro: lasting_intro)

lemma continue_allowed:
  fixes D :: "'d SelfRekeyDeps_scheme"
  shows "selfUserId D = self \<Longrightarrow> meets (self_rekey_call n P self row) A (continueJob n P D (he_groupId row)) (\<lambda>r H. True)"
  unfolding continueJob_def
  by (rule meets_pre [OF meets_await [OF lasting_pure [of True] rekey.run_allowed]]) (auto intro: meets_give)

text \<open>The record for the caller's own new entry.\<close>

lemma own_record_allowed:
  assumes "\<And>H e r. A H \<Longrightarrow> self_rekey_call n P self row H (AskWrapRecord \<lparr>wq_userId = self, wq_groupId = he_groupId row,
     wq_memberUserId = self, wq_generation = g, wq_keyEpoch = e, wq_reason = RekeySelf\<rparr> r)" "lasting A"
  shows "meets (self_rekey_call n P self row) A (ownWrapRecord self getter signer (he_groupId row) g) (\<lambda>r H. True)"
  unfolding ownWrapRecord_def wrapRecordFor_def
  by (intro meets_option meets_prod meets_give meets_attempt [OF assms(2) rekey.meets_read]
      meets_attempt [OF _ meets_ask])
    (use assms in \<open>auto intro!: lasting_intro simp: is_read_def\<close>)

text \<open>A failure that is passed on is one of a call that was made.\<close>

lemma send_told:
  assumes "lasting A" "\<And>fs. meets J A (send fs) (\<lambda>r H. \<forall>err. r = Inl err \<longrightarrow> F err H)"
  shows "meets J A (sendWithRecord record_fields send) (\<lambda>r H. \<forall>err. r = Inl err \<longrightarrow> F err H)"
  unfolding sendWithRecord_def
  by (intro meets_attempt [OF assms] meets_if meets_give meets_pre [OF assms(2)]) auto

lemma wrap_allowed:
  fixes D :: "'d SelfRekeyDeps_scheme"
  assumes "selfUserId D = self" "wrap_here detail"
  shows "meets (self_rekey_call n P self row) (\<lambda>H. ReadGroup (he_groupId row) (Inr detail) \<in> H \<and> ge_role detail \<noteq> [])
    (selfWrapOpen D row (ge_generation detail)) (\<lambda>r H. True)"
proof -
  let ?J = "self_rekey_call n P self row" and ?g = "he_groupId row"
  have sent: "meets ?J (\<lambda>H. row_current row detail H \<and> AskSelfWrap (row_request self row) (Inr key) \<in> H)
      (ask (selfWrap D ?g \<lparr>sf_generation = he_generation row, sf_wrappedKey = key, sf_record = fs\<rparr>)
        (SendSelfWrap ?g \<lparr>sf_generation = he_generation row, sf_wrappedKey = key, sf_record = fs\<rparr>))
      (\<lambda>r H. \<forall>err. r = Inl err \<longrightarrow> has_code ''handoff_stale'' err \<longrightarrow> row_used_up row H)" for key fs
    by (rule meets_post [OF meets_ask]) (use assms(2) in \<open>auto simp: self_rekey_call_def row_used_up_def\<close>)
  show ?thesis
    unfolding selfWrapOpen_def Let_def assms(1)
  proof (intro meets_if meets_pre [OF stale_row_allowed] meets_attempt [OF _ meets_ask] meets_give, goal_cases)
    case (5 key)
    have last: "lasting (\<lambda>H. row_current row detail H \<and> AskSelfWrap (row_request self row) (Inr key) \<in> H)" by (intro lasting_intro)
    have "meets ?J (\<lambda>H. row_current row detail H \<and> AskSelfWrap (row_request self row) (Inr key) \<in> H) (do {
         record_fields \<leftarrow> ownWrapRecord self (getUserDetail D) (signWrapRecord D) ?g (he_generation row);
         attempt (sendWithRecord record_fields (\<lambda>fs. ask (selfWrap D ?g \<lparr>sf_generation = he_generation row, sf_wrappedKey = key, sf_record = fs\<rparr>)
             (SendSelfWrap ?g \<lparr>sf_generation = he_generation row, sf_wrappedKey = key, sf_record = fs\<rparr>)))
           (\<lambda>err. if has_code ''handoff_stale'' err then staleRow D ?g else give (Inr (RekeyIncomplete (thrown_message err))))
           (\<lambda>_. give (Inr SelfWrapped)) }) (\<lambda>r H. True)"
      by (intro meets_bind [OF last own_record_allowed] meets_pre [OF meets_attempt [OF last send_told [OF last sent]]]
          meets_if meets_pre [OF stale_row_allowed] meets_give)
        (auto simp: self_rekey_call_def intro: last)
    then show ?case by (rule meets_pre) (use 5 in \<open>simp add: row_current_def\<close>)
  qed (use assms(2) in \<open>auto intro!: lasting_intro simp: row_used_up_def rekey_simps row_current_def\<close>)
qed

lemma start_allowed:
  fixes D :: "'d SelfRekeyDeps_scheme"
  assumes "selfUserId D = self" "rekey_here detail"
  shows "meets (self_rekey_call n P self row) (row_current row detail) (start_rekey n P D row) (\<lambda>r H. True)"
proof -
  let ?J = "self_rekey_call n P self row" and ?g = "he_groupId row"
  let ?body = "\<lambda>minted fs. \<lparr>to_generation = rs_generation minted, to_link = rs_link minted,
      to_wrappedKey = rs_removerWrappedKey minted, to_startSignature = rs_startSignature minted, to_record = fs\<rparr>"
  have sent: "meets ?J (\<lambda>H. row_current row detail H \<and> AskSelfRekey (row_request self row) (Inr minted) \<in> H)
      (ask (selfRekey D ?g (?body minted fs)) (SendSelfRekey ?g (?body minted fs)))
      (\<lambda>r H. \<forall>err. r = Inl err \<longrightarrow> has_code ''handoff_stale'' err \<longrightarrow> row_used_up row H)" for minted fs
    by (rule meets_post [OF meets_ask]) (use assms(2) in \<open>auto simp: self_rekey_call_def row_used_up_def\<close>)
  show ?thesis
    unfolding start_rekey_def Let_def assms(1)
  proof (intro meets_attempt [OF _ meets_ask] meets_give, goal_cases)
    case (4 minted)
    have last: "lasting (\<lambda>H. row_current row detail H \<and> AskSelfRekey (row_request self row) (Inr minted) \<in> H)" by (intro lasting_intro)
    have "meets ?J (\<lambda>H. row_current row detail H \<and> AskSelfRekey (row_request self row) (Inr minted) \<in> H) (do {
         record_fields \<leftarrow> ownWrapRecord self (getUserDetail D) (signWrapRecord D) ?g (rs_generation minted);
         attempt (sendWithRecord record_fields (\<lambda>fs. ask (selfRekey D ?g (?body minted fs)) (SendSelfRekey ?g (?body minted fs))))
           (\<lambda>err. if has_code ''handoff_stale'' err then staleRow D ?g
              else if has_code ''rotation_in_progress'' err then continueJob n P D ?g
              else give (Inr (RekeyIncomplete (thrown_message err))))
           (\<lambda>_. continueJob n P D ?g) }) (\<lambda>r H. True)"
      by (intro meets_bind [OF last own_record_allowed] meets_pre [OF meets_attempt [OF last send_told [OF last sent]]]
          meets_if meets_pre [OF stale_row_allowed] meets_give continue_allowed [OF assms(1)])
        (auto simp: self_rekey_call_def intro: last)
    then show ?case by (rule meets_pre) simp
  qed (use assms(2) in \<open>auto intro!: lasting_intro simp: rekey_simps\<close>)
qed

lemma self_rekey_follows:
  fixes D :: "'d SelfRekeyDeps_scheme"
  assumes "run_state (runSelfRekey n P D row) [] = (outcome, h)"
  shows "justified (self_rekey_call n P (selfUserId D) row) h"
proof -
  let ?J = "self_rekey_call n P (selfUserId D) row"
  have "meets ?J (\<lambda>H. True) (runSelfRekey n P D row) (\<lambda>r H. True)"
    unfolding runSelfRekey_def Let_def
    by (intro meets_attempt_ok [OF lasting_pure rekey.meets_read_ok] meets_if meets_give continue_allowed [OF refl]
        meets_pre [OF wrap_allowed [OF refl]] meets_pre [OF start_allowed [OF refl]] meets_pre [OF stale_row_allowed])
      (auto simp: is_read_def wrap_here_def rekey_here_def row_current_def row_used_up_def)
  from meets_run [OF this _ assms] show ?thesis by simp
qed

section \<open>What a self re-key guarantees\<close>

text \<open>
  C14: The row that holds a group's key is given up only when it is of no use.  \<open>runSelfRekey\<close> deletes the row it works
  on only after it read the caller's entry at another generation, or after the server refused the re-key or the wrap as
  stale; no failed read, no other refusal and no key that does not open costs it.  And it starts a re-key only for a private group
  of the row's generation, read as an admin while no rotation was running, with what was minted from that very row.
\<close>
theorem handoff_kept_until_used_up:
  fixes D :: "'d SelfRekeyDeps_scheme"
  assumes "run_state (runSelfRekey n P D row) [] = (outcome, h1 @ c # h2)"
  shows "(\<forall>g answer. c = SendDeleteHandoff g answer \<longrightarrow> g = he_groupId row
        \<and> ((\<exists>detail. ReadGroup g (Inr detail) \<in> set h1 \<and> ge_role detail \<noteq> [] \<and> ge_generation detail \<noteq> he_generation row)
           \<or> (\<exists>err. has_code ''handoff_stale'' err
                \<and> ((\<exists>body. SendSelfRekey g body (Inl err) \<in> set h1) \<or> (\<exists>body. SendSelfWrap g body (Inl err) \<in> set h1)))))
    \<and> (\<forall>g body answer. c = SendSelfRekey g body answer \<longrightarrow> g = he_groupId row
        \<and> (\<exists>detail. ReadGroup g (Inr detail) \<in> set h1 \<and> ge_generation detail = he_generation row
             \<and> ge_role detail = js ''admin'' \<and> ge_visibility detail = js ''private'' \<and> gd_rotation detail = None)
        \<and> (\<exists>minted. AskSelfRekey (row_request (selfUserId D) row) (Inr minted) \<in> set h1
             \<and> to_generation body = rs_generation minted \<and> to_link body = rs_link minted
             \<and> to_wrappedKey body = rs_removerWrappedKey minted \<and> to_startSignature body = rs_startSignature minted))"
proof -
  note allowed = justified_split [OF self_rekey_follows [OF assms]]
  show ?thesis
    by (cases c) (use allowed in \<open>auto simp: self_rekey_call_def row_used_up_def row_current_def rekey_here_def wrap_here_def\<close>)
qed

text \<open>A row of another generation, which is deleted; and one of the group's generation, whose re-key the server does not answer.\<close>

definition handoff_row :: HandoffEntry where
  "handoff_row = \<lparr>he_groupId = group1, he_generation = 0, he_newWrappingPublicKey = bytesToBase64 (seed_of 11),
     he_wrappedGroupKey = a_wrap\<rparr>"

definition rekey_detail :: "int \<Rightarrow> GroupDetail" where
  "rekey_detail g = (sample_detail g carol)\<lparr>gd_rotation := None\<rparr>"

abbreviation rekey_deps :: "int \<Rightarrow> SelfRekeyDeps" where
  "rekey_deps g \<equiv> served_deps alice 1 (rekey_detail g) []
     (SelfRekeyDeps.fields (\<lambda>req h. Inr a_minted) (\<lambda>g body h. Inl (OtherThrown (js ''Failed to fetch''))) (\<lambda>req h. Inr a_wrap)
        (\<lambda>g body h. Inr ()) (\<lambda>g h. Inr ()))"

lemma rekey_deps_fields [simp]:
  "startSelfRekeyCrypto (rekey_deps g) = (\<lambda>req h. Inr a_minted)"
  "selfRekey (rekey_deps g) = (\<lambda>g body h. Inl (OtherThrown (js ''Failed to fetch'')))"
  "deleteHandoff (rekey_deps g) = (\<lambda>g h. Inr ())"
  by (simp_all add: served_deps_def SelfRekeyDeps.defs)

definition rekey_body :: TakeOverRotationRequest where
  "rekey_body = \<lparr>to_generation = 1, to_link = a_link, to_wrappedKey = a_wrap, to_startSignature = js ''AA'', to_record = None\<rparr>"

lemma rekey_detail_fields [simp]:
  "ge_role (rekey_detail g) = js ''admin''" "ge_visibility (rekey_detail g) = js ''private''" "ge_generation (rekey_detail g) = g"
  "gd_revocationMode (rekey_detail g) = []" "gd_rotation (rekey_detail g) = None"
  by (simp_all add: rekey_detail_def sample_detail_def)

lemma minted_fields [simp]:
  "rs_generation a_minted = 1" "rs_link a_minted = a_link" "rs_removerWrappedKey a_minted = a_wrap" "rs_startSignature a_minted = js ''AA''"
  by (simp_all add: a_minted_def)

lemma row_fields [simp]: "he_groupId handoff_row = group1" "he_generation handoff_row = 0"
  by (simp_all add: handoff_row_def)

lemma self_rekey_runs:
  "run_state (runSelfRekey 4 sample (rekey_deps 1) handoff_row) []
     = (Inr RowStale, [ReadGroup group1 (Inr (rekey_detail 1)), SendDeleteHandoff group1 (Inr ())])"
  "run_state (runSelfRekey 4 sample (rekey_deps 0) handoff_row) []
     = (Inr (RekeyIncomplete (js ''Failed to fetch'')),
        [ReadGroup group1 (Inr (rekey_detail 0)), AskSelfRekey (row_request alice handoff_row) (Inr a_minted),
         SendSelfRekey group1 rekey_body (Inl (OtherThrown (js ''Failed to fetch'')))])"
  by (rule run_by_ends, simp add: runSelfRekey_def start_rekey_def staleRow_def ownWrapRecord_def sendWithRecord_def
      has_code_def code_of_def rekey_body_def flow_simps)+

theorem handoff_kept_until_used_up_witness:
  "(\<exists>detail. ReadGroup group1 (Inr detail) \<in> {ReadGroup group1 (Inr (rekey_detail 1))} \<and> ge_generation detail \<noteq> he_generation handoff_row)
   \<and> run_state (runSelfRekey 4 sample (rekey_deps 0) handoff_row) []
     = (Inr (RekeyIncomplete (js ''Failed to fetch'')),
        [ReadGroup group1 (Inr (rekey_detail 0)), AskSelfRekey (row_request alice handoff_row) (Inr a_minted)]
        @ SendSelfRekey group1 rekey_body (Inl (OtherThrown (js ''Failed to fetch''))) # [])
   \<and> (\<exists>detail. ReadGroup group1 (Inr detail) \<in> {ReadGroup group1 (Inr (rekey_detail 0)),
          AskSelfRekey (row_request alice handoff_row) (Inr a_minted)} \<and> ge_generation detail = he_generation handoff_row)"
proof -
  let ?asked = "[ReadGroup group1 (Inr (rekey_detail 0)), AskSelfRekey (row_request alice handoff_row) (Inr a_minted)]"
  have stale: "run_state (runSelfRekey 4 sample (rekey_deps 1) handoff_row) []
      = (Inr RowStale, [ReadGroup group1 (Inr (rekey_detail 1))] @ SendDeleteHandoff group1 (Inr ()) # [])"
    and started: "run_state (runSelfRekey 4 sample (rekey_deps 0) handoff_row) []
      = (Inr (RekeyIncomplete (js ''Failed to fetch'')),
         ?asked @ SendSelfRekey group1 rekey_body (Inl (OtherThrown (js ''Failed to fetch''))) # [])"
    using self_rekey_runs by simp_all
  from handoff_kept_until_used_up [OF stale, THEN conjunct1]
  have "\<exists>detail. ReadGroup group1 (Inr detail) \<in> set [ReadGroup group1 (Inr (rekey_detail 1))] \<and> ge_generation detail \<noteq> he_generation handoff_row"
    by auto
  moreover from handoff_kept_until_used_up [OF started, THEN conjunct2]
  have "\<exists>detail. ReadGroup group1 (Inr detail) \<in> set ?asked \<and> ge_generation detail = he_generation handoff_row"
    by blast
  ultimately show ?thesis using started by simp
qed

end
