(* ===== verification/Leave_Run.thy ===== *)
theory Leave_Run
  imports Members_Run
begin

text \<open>routes/runLeaveGroup.ts: leaving a group, with the demotion and the start of the rotation a leave carries.\<close>

datatype LeavePlan = DeletesGroup | NeedsSuccessor "js_string list" | PlainLeave

definition leavePlan :: "MembersView \<Rightarrow> js_string \<Rightarrow> (js_string \<rightharpoonup> js_string) \<Rightarrow> LeavePlan" where
  "leavePlan view userId usernames =
     (let others = filter (\<lambda>m. re_userId m \<noteq> userId) (mb_members view)
      in if others = [] then DeletesGroup
         else if mb_myRole view = js ''admin''
           \<and> \<not> list_ex (\<lambda>m. re_role m = js ''admin'' \<and> \<not> isDeletedUser (re_userId m) usernames) others
         then NeedsSuccessor (map re_userId others)
         else PlainLeave)"

datatype LeaveFailure =
    LeaveLastAdmin | LeaveStale | LeaveAuthRequired | LeaveColdKeys | LeaveGrantMissing | LeaveNotFound
  | LeaveRotationInProgress | LeaveCannotCheck | LeaveRefused | LeaveClockSkew | LeaveAmbiguous

record LeaveDeps =
  lp_leaveGroup :: "js_string \<Rightarrow> LeaveGroupRequest \<Rightarrow> bool answer"
  lp_signRoleGrant :: "SignRoleGrantRequest \<Rightarrow> (js_string \<times> js_string) answer"
  lp_userId :: js_string
  lp_getGroup :: "js_string \<Rightarrow> GroupDetail answer"
  lp_listAllMembers :: "js_string \<Rightarrow> RosterEntry list answer"
  lp_signLeaveRotationStart :: "js_string \<Rightarrow> js_string \<Rightarrow> int \<Rightarrow> (int \<times> js_string) answer"

definition LEAVE_SIGN_ATTEMPTS :: nat where "LEAVE_SIGN_ATTEMPTS = 2"

section \<open>The start of the rotation\<close>

definition sign_leave_start ::
  "LeaveDeps \<Rightarrow> js_string \<Rightarrow> GroupDetail \<Rightarrow> (call, LeaveFailure + LeaveRotationRequest option) flow" where
  "sign_leave_start D groupId detail =
     attempt (ask (lp_signLeaveRotationStart D (lp_userId D) groupId (ge_generation detail))
                (AskLeaveStart (lp_userId D) groupId (ge_generation detail)))
       (\<lambda>err. give (Inl (if isLiveKeysError err then LeaveColdKeys else LeaveAmbiguous)))
       (\<lambda>(generation, startSignature).
          give (Inr (Some \<lparr>lr_generation = generation, lr_startSignature = startSignature\<rparr>)))"

text \<open>The reads are one \<open>try\<close>: the inner sum is its early return.\<close>

definition prepareLeaveRotation :: "LeaveDeps \<Rightarrow> js_string \<Rightarrow> (call, LeaveFailure + LeaveRotationRequest option) flow" where
  "prepareLeaveRotation D groupId =
     attempt (await (ask (lp_getGroup D groupId) (ReadGroup groupId)) (\<lambda>detail.
         if ge_visibility detail \<noteq> js ''private'' \<or> gd_revocationMode detail \<noteq> js ''rotating'' then give (Inr None)
         else await (ask (lp_listAllMembers D groupId) (ReadMembers groupId)) (\<lambda>members.
           give (Inr (Some (detail, members))))))
       (\<lambda>err. give (Inl (if has_status 401 err then LeaveAuthRequired
          else if has_status 404 err then LeaveNotFound else LeaveCannotCheck)))
       (\<lambda>r. case r of
          None \<Rightarrow> give (Inr None)
        | Some (detail, members) \<Rightarrow>
            if list_all (\<lambda>m. re_userId m = lp_userId D) members then give (Inr None)
            else if gd_rotation detail \<noteq> None then give (Inl LeaveRotationInProgress)
            else sign_leave_start D groupId detail)"

section \<open>Leaving\<close>

definition leave_failure :: "thrown \<Rightarrow> LeaveFailure" where
  "leave_failure err = (case err of
     ApiError status code message \<Rightarrow>
       if status = 409 \<and> has_code ''rotation_in_progress'' err then LeaveRotationInProgress
       else if status = 409 then if has_code ''last_admin'' err then LeaveLastAdmin else LeaveStale
       else if status = 400 \<and> (has_code ''demotion_required'' err \<or> has_code ''rotation_required'' err) then LeaveStale
       else if status = 400 \<and> has_code ''clock_skew'' err then LeaveClockSkew
       else if status = 401 then LeaveAuthRequired
       else if status = 404 then LeaveNotFound
       else if status \<ge> 400 \<and> status < 500 then LeaveRefused
       else LeaveAmbiguous
   | OtherThrown message \<Rightarrow> LeaveAmbiguous)"

definition sign_own_demotion ::
  "LeaveDeps \<Rightarrow> js_string \<Rightarrow> bool \<Rightarrow> js_string \<Rightarrow> (call, thrown + SignedDemotion option) flow" where
  "sign_own_demotion D groupId needsDemotion ref =
     (if \<not> needsDemotion then give (Inr None)
      else let req = \<lparr>rg_userId = lp_userId D, rg_groupId = groupId, rg_subjectUserId = lp_userId D,
        rg_role = js ''member'', rg_grantorGrantRef = ref\<rparr>
      in await (ask (lp_signRoleGrant D req) (AskRoleGrant req)) (\<lambda>(grantSortKey, signature).
        give (Inr (Some \<lparr>sd_grantSortKey = grantSortKey, sd_grantorGrantRef = ref, sd_signature = signature\<rparr>))))"

text \<open>The loop, with the attempts left; a leave that carries nothing sends an empty body.\<close>

fun leave_attempts ::
  "nat \<Rightarrow> LeaveDeps \<Rightarrow> js_string \<Rightarrow> bool \<Rightarrow> js_string \<Rightarrow> LeaveRotationRequest option \<Rightarrow> (call, LeaveFailure + bool) flow" where
  "leave_attempts 0 D groupId needsDemotion ref rotation = give (Inl LeaveAmbiguous)"
| "leave_attempts (Suc k) D groupId needsDemotion ref rotation =
     attempt (sign_own_demotion D groupId needsDemotion ref)
       (\<lambda>err. give (Inl (if isLiveKeysError err then LeaveColdKeys else LeaveAmbiguous)))
       (\<lambda>demotion.
          let body = \<lparr>lb_demotion = demotion, lb_rotation = rotation\<rparr>
          in attempt (ask (lp_leaveGroup D groupId body) (SendLeave groupId body))
            (\<lambda>err. if grant_key_taken err \<and> k > 0 then leave_attempts k D groupId needsDemotion ref rotation
               else give (Inl (leave_failure err)))
            (\<lambda>groupDeleted. give (Inr groupDeleted)))"

definition runLeave :: "LeaveDeps \<Rightarrow> MembersView \<Rightarrow> LeavePlan \<Rightarrow> (call, LeaveFailure + bool) flow" where
  "runLeave D view plan =
     (let needsDemotion = (mb_myRole view \<noteq> js ''member'' \<and> plan \<noteq> DeletesGroup);
          ref = (case mb_myGrantSortKey view of None \<Rightarrow> [] | Some s \<Rightarrow> s)
      in if needsDemotion \<and> ref = [] then give (Inl LeaveGrantMissing)
         else do {
           prepared \<leftarrow> (if plan \<noteq> DeletesGroup \<and> mb_revocationMode view = js ''rotating''
             then prepareLeaveRotation D (mb_groupId view) else give (Inr None));
           case prepared of
             Inl failure \<Rightarrow> give (Inl failure)
           | Inr rotation \<Rightarrow> leave_attempts LEAVE_SIGN_ATTEMPTS D (mb_groupId view) needsDemotion ref rotation
         })"

section \<open>What the screen says\<close>

definition leave_error :: "LeaveFailure \<Rightarrow> js_string" where
  "leave_error kind = (case kind of
     LeaveLastAdmin \<Rightarrow> js (''You are the last admin, so you cannot leave yet. '' @
       ''The latest roster is shown; choose a successor.'')
   | LeaveStale \<Rightarrow> js ''The group changed while you were working, so nothing was saved. Try again.''
   | LeaveAuthRequired \<Rightarrow> js ''Your session has expired. Log in again and retry.''
   | LeaveColdKeys \<Rightarrow> js ''This tab needs your password again to sign your leaving. Nothing was changed.''
   | LeaveGrantMissing \<Rightarrow> js (''Your own role isn't on record for this group, so you can't leave from here yet. '' @
       ''Nothing was changed.'')
   | LeaveRotationInProgress \<Rightarrow> js (''A key rotation is still running, so you cannot leave yet. Nothing was changed. '' @
       ''Try again once it has finished.'')
   | LeaveCannotCheck \<Rightarrow> js ''We couldn't read the group to prepare your leaving, so nothing was changed. Try again.''
   | LeaveRefused \<Rightarrow> js ''The server refused this request, so nothing was changed. Reload the page and try again.''
   | LeaveClockSkew \<Rightarrow> CLOCK_SKEW_MESSAGE
   | LeaveNotFound \<Rightarrow> js ''You are no longer a member of this group.''
   | LeaveAmbiguous \<Rightarrow> js ''We couldn't confirm whether you left. Check your group list before trying again.'')"

definition leaveFailureMessage :: "LeaveFailure \<Rightarrow> js_string option \<Rightarrow> js_string" where
  "leaveFailureMessage kind promotedName = (case promotedName of
     None \<Rightarrow> leave_error kind
   | Some name \<Rightarrow>
       if kind = LeaveAmbiguous
       then name @ js ('' is now an admin, but we couldn't confirm whether you left. '' @
         ''Check your group list before trying again.'')
       else if kind \<in> {LeaveStale, LeaveLastAdmin, LeaveRefused}
       then name @ js '' is now an admin, but leaving didn't go through. Try Leave again.''
       else if kind = LeaveClockSkew
       then name @ js '' is now an admin, but leaving didn't go through. '' @ CLOCK_SKEW_MESSAGE
       else leave_error kind)"

end
