(* ===== verification/Dormancy.thy ===== *)
theory Dormancy
  imports Approve_Run Members_Run
begin

text \<open>
  routes/dormancy.ts and routes/rotationStaleness.ts: what the member list tells an admin about members whose entry is
  wrapped to a replaced key, and about a rotation that stopped.
\<close>

section \<open>dormancy.ts\<close>

datatype DormantEntry = EntryBehind | EntryCurrent | EntryOpen

record DormantMember =
  dm_userId :: js_string
  dm_role :: js_string
  dm_keyEpoch :: int
  dm_wrapEpoch :: int
  dm_fingerprint :: "js_string option"
  dm_entry :: DormantEntry

record ReadyDormancy =
  dr_dormant :: "DormantMember list"
  dr_changed :: "js_string set"
  dr_changedUnavailable :: bool

datatype Dormancy = DormancyUnavailable | DormancyReady ReadyDormancy

text \<open>The caller's pins are optional: \<open>dy_withPins\<close> says whether they are there.\<close>

record LoadDormancyDeps = GrantCheckDeps +
  dy_withPins :: bool
  dy_historyFailure :: "(bytes \<Rightarrow> js_string option answer) option"

definition dormant_member ::
  "prims \<Rightarrow> (js_string \<rightharpoonup> UserProjection) \<Rightarrow> js_string \<Rightarrow> int \<Rightarrow> js_string \<Rightarrow> RosterEntry \<Rightarrow> DormantMember option" where
  "dormant_member P users self myGeneration revocationMode m =
     (if re_userId m = self then None
      else case (users (re_userId m), re_wrapEpoch m) of
        (Some u, Some e) \<Rightarrow>
          if up_deleted u \<or> up_keyEpoch u \<le> e then None
          else Some \<lparr>dm_userId = re_userId m, dm_role = re_role m, dm_keyEpoch = up_keyEpoch u, dm_wrapEpoch = e,
            dm_fingerprint = servedFingerprint P (Some u),
            dm_entry = (if revocationMode = js ''open'' then EntryOpen
              else if re_generation m < myGeneration then EntryBehind else EntryCurrent)\<rparr>
      | _ \<Rightarrow> None)"

definition findDormant ::
  "prims \<Rightarrow> RosterEntry list \<Rightarrow> (js_string \<rightharpoonup> UserProjection) \<Rightarrow> js_string \<Rightarrow> int \<Rightarrow> js_string \<Rightarrow> DormantMember list" where
  "findDormant P members users self myGeneration revocationMode =
     List.map_filter (dormant_member P users self myGeneration revocationMode) members"

definition isAcceptableChange :: "prims \<Rightarrow> PinVerdict \<Rightarrow> UserProjection \<Rightarrow> bool" where
  "isAcceptableChange P verdict u \<longleftrightarrow>
     verdict = Mismatch \<and> servedSigningKeySet (served_keys u) \<noteq> None \<and> servedFingerprint P (Some u) \<noteq> None"

definition member_changed ::
  "prims \<Rightarrow> (js_string \<rightharpoonup> UserProjection) \<Rightarrow> js_string \<Rightarrow> bytes \<Rightarrow> PinRecord list \<Rightarrow> OwnKeyHistory option \<Rightarrow> RosterEntry \<Rightarrow> bool" where
  "member_changed P users self own ps history m \<longleftrightarrow>
     re_userId m \<noteq> self
     \<and> (case users (re_userId m) of
          None \<Rightarrow> False
        | Some u \<Rightarrow> \<not> up_deleted u
            \<and> isAcceptableChange P (pin_verdict P self own history (re_userId m) (pin_of ps (re_userId m)) u) u)"

definition findChanged ::
  "prims \<Rightarrow> RosterEntry list \<Rightarrow> (js_string \<rightharpoonup> UserProjection) \<Rightarrow> js_string \<Rightarrow> bytes \<Rightarrow> PinRecord list
   \<Rightarrow> OwnKeyHistory option \<Rightarrow> js_string set" where
  "findChanged P members users self own ps history =
     re_userId ` set (filter (member_changed P users self own ps history) members)"

definition loadChanged ::
  "prims \<Rightarrow> 'd LoadDormancyDeps_scheme \<Rightarrow> RosterEntry list \<Rightarrow> (js_string \<rightharpoonup> UserProjection)
   \<Rightarrow> (call, js_string set \<times> bool) flow" where
  "loadChanged P D members users =
     (if \<not> dy_withPins D then give ({}, False)
      else attempt (await (own_signing_key D) (\<lambda>own.
              await (read_pins D) (\<lambda>ps. do {
                history \<leftarrow> ownHistoryFor D own;
                await (case dy_historyFailure D of
                         None \<Rightarrow> give (Inr None)
                       | Some failure \<Rightarrow> ask (failure own) (ReadHistoryFailure own)) (\<lambda>historyFailure.
                  give (Inr (findChanged P members users (selfUserId D) own ps history, historyFailure \<noteq> None)))
              })))
        (\<lambda>err. give ({}, True)) give)"

definition loadDormancy ::
  "prims \<Rightarrow> 'd LoadDormancyDeps_scheme \<Rightarrow> RosterEntry list \<Rightarrow> int \<Rightarrow> js_string \<Rightarrow> (call, thrown + Dormancy) flow" where
  "loadDormancy P D members myGeneration revocationMode =
     (let others = map re_userId (filter (\<lambda>m. re_userId m \<noteq> selfUserId D) members)
      in if others = [] then give (Inr (DormancyReady \<lparr>dr_dormant = [], dr_changed = {}, dr_changedUnavailable = False\<rparr>))
         else await (read_users D others) (\<lambda>(found, failure).
           if failure \<noteq> None then give (Inr DormancyUnavailable)
           else do {
             (changed, failed) \<leftarrow> loadChanged P D members (map_of found);
             give (Inr (DormancyReady
               \<lparr>dr_dormant = findDormant P members (map_of found) (selfUserId D) myGeneration revocationMode,
                dr_changed = changed, dr_changedUnavailable = failed\<rparr>))
           }))"

section \<open>rotationStaleness.ts\<close>

definition ROTATION_STALE_AFTER_MS :: int where "ROTATION_STALE_AFTER_MS = 60 * 60 * 1000"

datatype RotationStatus = StNone | StCompleted | StCaughtUp | StBlocked | StCannotResume | StIncomplete

definition status_of :: "RotationOutcome \<Rightarrow> RotationStatus" where
  "status_of outcome = (case outcome of
     NothingToDo \<Rightarrow> StNone | Completed _ \<Rightarrow> StCompleted | CaughtUp _ \<Rightarrow> StCaughtUp | Blocked _ _ _ _ _ \<Rightarrow> StBlocked
   | CannotResume _ \<Rightarrow> StCannotResume | Incomplete _ _ \<Rightarrow> StIncomplete)"

datatype NoticeKind = NeedsOtherAdmin | NoticeAhead | NoticeStopped | NoticeNeedsPassword | NoticeBlocked

record RotationNotice =
  no_kind :: NoticeKind
  no_startedBy :: js_string
  no_ageMs :: "int option"

definition rotationNotice ::
  "prims \<Rightarrow> MembersView \<Rightarrow> int \<Rightarrow> RotationStatus option \<Rightarrow> bool \<Rightarrow> RotationNotice option" where
  "rotationNotice P view nowMs outcome needsPassword =
     (case (mb_rotation view, outcome) of
        (Some marker, Some status) \<Rightarrow>
          if mb_myRole view \<noteq> js ''admin'' then None
          else let age = map_option (\<lambda>started. nowMs - started) (date_parse (date_other P) (mk_startedAt marker));
                   notice = (\<lambda>k. Some \<lparr>no_kind = k, no_startedBy = mk_startedBy marker, no_ageMs = age\<rparr>)
          in if (case age of None \<Rightarrow> False | Some a \<Rightarrow> a < ROTATION_STALE_AFTER_MS) then None
             else (case status of
               StCannotResume \<Rightarrow> notice (if mb_myGeneration view > mk_generation marker then NoticeAhead else NeedsOtherAdmin)
             | StIncomplete \<Rightarrow> notice (if needsPassword then NoticeNeedsPassword else NoticeStopped)
             | StBlocked \<Rightarrow> notice NoticeBlocked
             | _ \<Rightarrow> None)
      | _ \<Rightarrow> None)"

definition describeAge :: "int option \<Rightarrow> js_string" where
  "describeAge ageMs = (case ageMs of
     None \<Rightarrow> js ''a while''
   | Some age \<Rightarrow>
       let minutes = age div 60000; hours = minutes div 60
       in if minutes < 60 then js_num minutes @ js '' '' @ js (if minutes = 1 then ''minute'' else ''minutes'')
          else if hours < 48 then js ''about '' @ js_num hours @ js '' '' @ js (if hours = 1 then ''hour'' else ''hours'')
          else js ''about '' @ js_num (hours div 24) @ js '' days'')"

record CatchUpEffects =
  ce_status :: RotationStatus
  ce_error :: "js_string option"
  ce_message :: "js_string option"
  ce_reload :: bool
  ce_needsPassword :: bool

definition catchUpResult ::
  "prims \<Rightarrow> RotationOutcome \<Rightarrow> MembersView option \<Rightarrow> int \<Rightarrow> (js_string \<Rightarrow> js_string) \<Rightarrow> CatchUpEffects" where
  "catchUpResult P outcome view loadedAtMs label =
     (let cold = (case outcome of Incomplete reason _ \<Rightarrow> isLiveKeysMessage reason | _ \<Rightarrow> False);
          note = describeRotation outcome label;
          covers = (status_of outcome = StCannotResume
            \<and> (case view of None \<Rightarrow> False | Some v \<Rightarrow> rotationNotice P v loadedAtMs (Some (status_of outcome)) False \<noteq> None))
      in if cold then \<lparr>ce_status = status_of outcome, ce_error = None, ce_message = None, ce_reload = False, ce_needsPassword = True\<rparr>
         else \<lparr>ce_status = status_of outcome,
           ce_error = (case note of Some (Problem t) \<Rightarrow> Some t | _ \<Rightarrow> None),
           ce_message = (case note of Some (Info t) \<Rightarrow> if covers then None else Some t | _ \<Rightarrow> None),
           ce_reload = (status_of outcome = StCompleted), ce_needsPassword = False\<rparr>)"

end
