(* ===== verification/Key_Rotation_Run.thy ===== *)
theory Key_Rotation_Run
  imports Self_Rekey_Run Verification_Run Rotation_Material
begin

text \<open>
  routes/runKeyRotation.ts: the flow behind the screen that rotates the keys of the account.  The attempt that a retry
  resumes is a record that the flow is given and gives back, also when it throws.
\<close>

section \<open>The data\<close>

text \<open>lib/api/keyRotation.ts: an error of these endpoints may name the groups it is about; it is then an \<open>ApiError\<close> of status 409.\<close>

datatype key_thrown = GroupsConflict "js_string option" js_string "js_string list" | Thrown thrown

definition key_status :: "key_thrown \<Rightarrow> int option" where
  "key_status err = (case err of
     GroupsConflict code message groups \<Rightarrow> Some 409
   | Thrown e \<Rightarrow> (case e of ApiError status code message \<Rightarrow> Some status | OtherThrown message \<Rightarrow> None))"

definition key_code :: "string \<Rightarrow> key_thrown \<Rightarrow> bool" where
  "key_code c err \<longleftrightarrow> (case err of
     GroupsConflict code message groups \<Rightarrow> code = Some (js c)
   | Thrown e \<Rightarrow> has_code c e)"

record PutHandoffRequest =
  ph_generation :: int
  ph_newWrappingPublicKey :: js_string
  ph_wrappedGroupKey :: WireWrapped

record RotateKeysRequest =
  rt_expectedKeyEpoch :: int
  rt_expectedCredentialVersion :: int
  rt_signedDay :: js_string
  rt_newSigningPublicKey :: js_string
  rt_newWrappingPublicKey :: js_string
  rt_roster :: "js_string list"
  rt_oldSignature :: js_string
  rt_newSignature :: js_string
  rt_salt :: js_string
  rt_argon2Params :: Argon2idParams
  rt_wrappedPrivateKeys :: Sealed
  rt_recoverySalt :: js_string
  rt_recoveryArgon2Params :: Argon2idParams
  rt_recoveryWrappedPrivateKeys :: Sealed
  rt_recoveryVerifierSalt :: js_string
  rt_recoveryVerifierParams :: Argon2idParams
  rt_recoveryVerifier :: js_string

record RotateKeysResponse =
  rk_keyEpoch :: int
  rk_credentialVersion :: int

record SentInvite =
  si_inviteId :: js_string
  si_groupId :: js_string
  si_expiresAt :: js_string
  si_accepted :: bool
  si_completionDeadline :: "js_string option"
  si_overdue :: "bool option"
  si_removalDate :: "js_string option"

record AccountCredentials =
  ac_userId :: js_string
  ac_credentialVersion :: int
  ac_wrappedPrivateKeys :: Sealed

record AdminGroup =
  ag_groupId :: js_string
  ag_generation :: int
  ag_wrappedGroupKey :: WireWrapped
  ag_open :: bool
  ag_admin :: bool
  ag_visibility :: js_string

record KeyRotationPreflight =
  pf_userId :: js_string
  pf_username :: js_string
  pf_keyEpoch :: int
  pf_credentialVersion :: int
  pf_adminGroups :: "AdminGroup list"
  pf_pendingSelfRekeys :: "js_string list"
  pf_invitesToRevoke :: "SentInvite list"
  pf_invitesAwaitingCompletion :: nat

datatype KeyRotationStep = StepPreparing | StepHandoffs nat nat | StepSigning | StepCommitting | StepSettling

datatype KeyRotationFailure =
    NeedsLogin | KeyAuthRequired | Cooldown | HandoffPending "js_string list" | GroupBusy "js_string list"
  | ChangedElsewhere | KeyRejected js_string | KeyExpired | Unreachable | Unconfirmed js_string

record KeyRotated =
  kr_recoveryCode :: js_string
  kr_keyEpoch :: int
  kr_needsRelogin :: bool

type_synonym KeyRotationResult = "KeyRotationFailure \<times> key_thrown option + KeyRotated"

record KeyRotationAttempt =
  at_ambiguous :: bool
  at_sent :: bool
  at_begun :: "(js_string \<times> js_string) option"
  at_signed :: "SignedKeyRotation option"
  at_request :: "RotateKeysRequest option"
  at_invitesRevoked :: bool

definition fresh_attempt :: KeyRotationAttempt where
  "fresh_attempt = \<lparr>at_ambiguous = False, at_sent = False, at_begun = None, at_signed = None, at_request = None,
     at_invitesRevoked = False\<rparr>"

text \<open>The calls, and what the screen is told on the way.\<close>

datatype (plugins only: code size) key_call =
    TellStep KeyRotationStep
  | AskLiveKeys js_string "key_thrown + bool"
  | ReadCredentials "key_thrown + AccountCredentials"
  | ReadKeyUser js_string "key_thrown + UserProjection"
  | ReadGroups "key_thrown + GroupListEntry list"
  | ReadGroupDetail js_string "key_thrown + GroupDetail"
  | ReadSentInvites "key_thrown + SentInvite list"
  | ReadHandoffs "key_thrown + HandoffEntry list"
  | ReadAllPins "key_thrown + PinRecord list"
  | ReadAllVerifications "key_thrown + VerificationRecord list"
  | ReadChallenge js_string "key_thrown + Sealed"
  | WaitFor int "key_thrown + unit"
  | AskBegin js_string "key_thrown + js_string \<times> js_string"
  | AskHandoff js_string WrapHandoffRequest "key_thrown + HandoffWrap"
  | AskSignRotation js_string SignKeyRotationRequest "key_thrown + SignedKeyRotation"
  | AskCommit js_string "key_thrown + unit"
  | SendRevokeInvite js_string "key_thrown + unit"
  | SendHandoff js_string PutHandoffRequest "key_thrown + unit"
  | SendRotateKeys RotateKeysRequest "key_thrown + RotateKeysResponse"

type_synonym 'a key_answer = "key_call list \<Rightarrow> key_thrown + 'a"

record KeyRotationDeps =
  kd_hasLiveKeys :: "js_string \<Rightarrow> bool key_answer"
  kd_getCredentials :: "AccountCredentials key_answer"
  kd_getUser :: "js_string \<Rightarrow> UserProjection key_answer"
  kd_challenge :: "js_string \<Rightarrow> Sealed key_answer"
  kd_listGroups :: "GroupListEntry list key_answer"
  kd_getGroup :: "js_string \<Rightarrow> GroupDetail key_answer"
  kd_sentInvites :: "SentInvite list key_answer"
  kd_revokeInvite :: "js_string \<Rightarrow> unit key_answer"
  kd_listHandoffs :: "HandoffEntry list key_answer"
  kd_listAllPins :: "PinRecord list key_answer"
  kd_listAllVerifications :: "VerificationRecord list key_answer"
  kd_beginKeyRotation :: "js_string \<Rightarrow> (js_string \<times> js_string) key_answer"
  kd_wrapHandoff :: "js_string \<Rightarrow> WrapHandoffRequest \<Rightarrow> HandoffWrap key_answer"
  kd_putHandoff :: "js_string \<Rightarrow> PutHandoffRequest \<Rightarrow> unit key_answer"
  kd_signKeyRotation :: "js_string \<Rightarrow> SignKeyRotationRequest \<Rightarrow> SignedKeyRotation key_answer"
  kd_rotateKeys :: "RotateKeysRequest \<Rightarrow> RotateKeysResponse key_answer"
  kd_wait :: "int \<Rightarrow> unit key_answer"
  kd_commitKeyRotation :: "js_string \<Rightarrow> unit key_answer"

definition tell :: "KeyRotationStep \<Rightarrow> (key_call, unit) flow" where
  "tell s = ask (\<lambda>h. ()) (\<lambda>_. TellStep s)"

definition IN_FLIGHT_WAIT_MS :: int where "IN_FLIGHT_WAIT_MS = 60000"
definition MAX_ROUNDS :: nat where "MAX_ROUNDS = 4"

section \<open>The preflight\<close>

definition key_not_served :: "js_string \<Rightarrow> key_thrown" where
  "key_not_served groupId =
     Thrown (OtherThrown (js ''group '' @ groupId @ js '': your own key for this group was not served''))"

fun admin_groups :: "KeyRotationDeps \<Rightarrow> GroupListEntry list \<Rightarrow> AdminGroup list \<Rightarrow> (key_call, key_thrown + AdminGroup list) flow" where
  "admin_groups D [] out = give (Inr out)"
| "admin_groups D (g # gs) out =
     (if ge_role g \<noteq> js ''admin'' \<and> \<not> ge_noRotation g then admin_groups D gs out
      else case ge_wrappedGroupKey g of
        None \<Rightarrow> give (Inl (key_not_served (ge_groupId g)))
      | Some wrapped \<Rightarrow>
          await (ask (kd_getGroup D (ge_groupId g)) (ReadGroupDetail (ge_groupId g))) (\<lambda>detail.
            admin_groups D gs (out @ [\<lparr>ag_groupId = ge_groupId g, ag_generation = ge_generation g,
              ag_wrappedGroupKey = wrapped, ag_open = (gd_revocationMode detail = js ''open''),
              ag_admin = (ge_role g = js ''admin''), ag_visibility = ge_visibility g\<rparr>])))"

definition adminGroupsOf :: "KeyRotationDeps \<Rightarrow> GroupListEntry list \<Rightarrow> (key_call, key_thrown + AdminGroup list) flow" where
  "adminGroupsOf D groups = admin_groups D groups []"

definition preflightKeyRotation :: "KeyRotationDeps \<Rightarrow> (key_call, key_thrown + KeyRotationPreflight) flow" where
  "preflightKeyRotation D =
     await (ask (kd_getCredentials D) ReadCredentials) (\<lambda>credentials.
     await (both (ask (kd_getUser D (ac_userId credentials)) (ReadKeyUser (ac_userId credentials)))
              (both (ask (kd_listGroups D) ReadGroups) (ask (kd_sentInvites D) ReadSentInvites))) (\<lambda>(user, groups, sent).
     await (adminGroupsOf D groups) (\<lambda>adminGroups.
     await (pendingSelfRekeys (ask (kd_listHandoffs D) ReadHandoffs) groups (up_wrappingPublicKey user)) (\<lambda>waiting.
       give (Inr \<lparr>pf_userId = ac_userId credentials, pf_username = up_username user, pf_keyEpoch = up_keyEpoch user,
         pf_credentialVersion = ac_credentialVersion credentials, pf_adminGroups = adminGroups,
         pf_pendingSelfRekeys = waiting, pf_invitesToRevoke = filter (\<lambda>i. \<not> si_accepted i) sent,
         pf_invitesAwaitingCompletion = length (filter si_accepted sent)\<rparr>)))))"

section \<open>The handoff rows\<close>

text \<open>An error as a failure; one that leaves the outcome open is \<open>unreachable\<close>.\<close>

definition key_failure :: "thrown \<Rightarrow> KeyRotationFailure" where
  "key_failure err = (case err of
     ApiError status code message \<Rightarrow>
       if status = 401 then KeyAuthRequired
       else if status = 429 \<and> has_code ''rotation_cooldown'' err then Cooldown
       else if status = 409 then if has_code ''handoff_pending'' err then HandoffPending [] else ChangedElsewhere
       else if status < 500 then KeyRejected message
       else Unreachable
   | OtherThrown message \<Rightarrow> Unreachable)"

definition classify :: "key_thrown \<Rightarrow> KeyRotationFailure" where
  "classify err = (case err of
     GroupsConflict code message groups \<Rightarrow>
       if code = Some (js ''handoff_pending'') then HandoffPending groups
       else if code = Some (js ''rotation_in_progress'') then GroupBusy groups
       else ChangedElsewhere
   | Thrown e \<Rightarrow> key_failure e)"

definition read_key_groups :: "KeyRotationDeps \<Rightarrow> (key_call, key_thrown + (js_string \<rightharpoonup> GroupListEntry)) flow" where
  "read_key_groups D = await (ask (kd_listGroups D) ReadGroups) (\<lambda>groups. give (Inr (js_map (map (\<lambda>g. (ge_groupId g, g)) groups))))"

text \<open>One row; \<open>again\<close> is what a stale one leads to.  A failure is on the left, the groups as last read on the right.\<close>

definition hand_off ::
  "KeyRotationDeps \<Rightarrow> js_string \<Rightarrow> js_string
   \<Rightarrow> (key_call, key_thrown + (KeyRotationFailure + (js_string \<rightharpoonup> GroupListEntry))) flow
   \<Rightarrow> (js_string \<rightharpoonup> GroupListEntry) \<Rightarrow> (key_call, key_thrown + (KeyRotationFailure + (js_string \<rightharpoonup> GroupListEntry))) flow" where
  "hand_off D userId groupId again groups = (case groups groupId of
     None \<Rightarrow> give (Inr (Inr groups))
   | Some g \<Rightarrow>
       if ge_role g \<noteq> js ''admin'' \<and> \<not> ge_noRotation g then give (Inr (Inr groups))
       else case ge_wrappedGroupKey g of
         None \<Rightarrow> give (Inl (key_not_served groupId))
       | Some own \<Rightarrow>
           let req = \<lparr>wh_groupId = groupId, wh_ownWrappedGroupKey = own, wh_generation = ge_generation g\<rparr>
           in await (ask (kd_wrapHandoff D userId req) (AskHandoff userId req)) (\<lambda>wrapped.
             let row = \<lparr>ph_generation = hw_generation wrapped, ph_newWrappingPublicKey = hw_newWrappingPublicKey wrapped,
                   ph_wrappedGroupKey = hw_wrappedGroupKey wrapped\<rparr>
             in attempt (ask (kd_putHandoff D groupId row) (SendHandoff groupId row))
               (\<lambda>err. if key_code ''handoff_stale'' err then again else give (Inr (Inl (classify err))))
               (\<lambda>_. give (Inr (Inr groups)))))"

text \<open>Two tries: a first stale row has the groups read again, a second one means the group is busy.\<close>

definition hand_off_group ::
  "KeyRotationDeps \<Rightarrow> js_string \<Rightarrow> js_string \<Rightarrow> (js_string \<rightharpoonup> GroupListEntry)
   \<Rightarrow> (key_call, key_thrown + (KeyRotationFailure + (js_string \<rightharpoonup> GroupListEntry))) flow" where
  "hand_off_group D userId groupId groups =
     hand_off D userId groupId
       (await (read_key_groups D) (hand_off D userId groupId (give (Inr (Inl (GroupBusy [groupId])))))) groups"

fun hand_off_groups ::
  "KeyRotationDeps \<Rightarrow> js_string \<Rightarrow> nat \<Rightarrow> nat \<Rightarrow> js_string list \<Rightarrow> (js_string \<rightharpoonup> GroupListEntry)
   \<Rightarrow> (key_call, key_thrown + (KeyRotationFailure + unit)) flow" where
  "hand_off_groups D userId total_groups i [] groups = give (Inr (Inr ()))"
| "hand_off_groups D userId total_groups i (groupId # ids) groups =
     proceed (hand_off_group D userId groupId groups) (\<lambda>groups'. do {
       tell (StepHandoffs (Suc i) total_groups);
       hand_off_groups D userId total_groups (Suc i) ids groups'
     })"

definition writeHandoffs ::
  "KeyRotationDeps \<Rightarrow> js_string \<Rightarrow> js_string list \<Rightarrow> (key_call, key_thrown + (KeyRotationFailure + unit)) flow" where
  "writeHandoffs D userId groupIds = do {
     tell (StepHandoffs 0 (length groupIds));
     await (read_key_groups D) (hand_off_groups D userId (length groupIds) 0 groupIds)
   }"

section \<open>Before the send\<close>

text \<open>The signatures are decoded as the rows come; \<open>atob\<close> throws on the first that is not base64.\<close>

fun roster_ids :: "prims \<Rightarrow> (js_string \<times> js_string) list \<Rightarrow> js_string list result" where
  "roster_ids P [] = Inr []"
| "roster_ids P ((sortKey, signature) # rows) =
     Wrapping.bind (atob signature) (\<lambda>sig.
     Wrapping.bind (roster_ids P rows) (\<lambda>ids. Inr (bytesToBase64 (rosterEntryId P sortKey sig) # ids)))"

definition rosterOf :: "prims \<Rightarrow> PinRecord list \<Rightarrow> VerificationRecord list \<Rightarrow> js_string list result" where
  "rosterOf P ps verifications =
     roster_ids P (map (\<lambda>p. (js ''PIN#'' @ pr_pinnedUserId p, pr_signature p)) ps
       @ map (\<lambda>v. (js ''VERIFIED#'' @ vr_verifiedUserId v, vr_signature v)) verifications)"

fun revoke_invites :: "KeyRotationDeps \<Rightarrow> SentInvite list \<Rightarrow> (key_call, key_thrown + unit) flow" where
  "revoke_invites D [] = give (Inr ())"
| "revoke_invites D (invite # invites) =
     attempt (ask (kd_revokeInvite D (si_inviteId invite)) (SendRevokeInvite (si_inviteId invite)))
       (\<lambda>err. if key_code ''invite_already_accepted'' err then revoke_invites D invites else give (Inl err))
       (\<lambda>_. revoke_invites D invites)"

definition prepared_request :: "KeyRotationPreflight \<Rightarrow> SignedKeyRotation \<Rightarrow> RotateKeysRequest" where
  "prepared_request pre m =
     \<lparr>rt_expectedKeyEpoch = pf_keyEpoch pre, rt_expectedCredentialVersion = pf_credentialVersion pre,
      rt_signedDay = sr_signedDay m, rt_newSigningPublicKey = sr_newSigningPublicKey m,
      rt_newWrappingPublicKey = sr_newWrappingPublicKey m, rt_roster = sr_roster m,
      rt_oldSignature = sr_oldSignature m, rt_newSignature = sr_newSignature m,
      rt_salt = rm_salt (sr_credentials m), rt_argon2Params = rm_argon2Params (sr_credentials m),
      rt_wrappedPrivateKeys = rm_wrappedPrivateKeys (sr_credentials m),
      rt_recoverySalt = rm_recoverySalt (sr_credentials m),
      rt_recoveryArgon2Params = rm_recoveryArgon2Params (sr_credentials m),
      rt_recoveryWrappedPrivateKeys = rm_recoveryWrappedPrivateKeys (sr_credentials m),
      rt_recoveryVerifierSalt = rm_recoveryVerifierSalt (sr_credentials m),
      rt_recoveryVerifierParams = rm_recoveryVerifierParams (sr_credentials m),
      rt_recoveryVerifier = rm_recoveryVerifier (sr_credentials m)\<rparr>"

type_synonym 'a attempted = "KeyRotationAttempt \<times> (key_thrown + 'a)"

definition sign_attempt ::
  "prims \<Rightarrow> KeyRotationDeps \<Rightarrow> KeyRotationPreflight \<Rightarrow> js_string \<Rightarrow> KeyRotationAttempt
   \<Rightarrow> (key_call, (KeyRotationFailure + unit) attempted) flow" where
  "sign_attempt P D pre newPassword at = do {
     tell StepSigning;
     attempt (both (ask (kd_listAllPins D) ReadAllPins) (ask (kd_listAllVerifications D) ReadAllVerifications))
       (\<lambda>err. give (at, Inl err))
       (\<lambda>(ps, verifications). case rosterOf P ps verifications of
          Inl failure \<Rightarrow> give (at, Inl (Thrown (OtherThrown (js failure))))
        | Inr roster \<Rightarrow>
            let req = \<lparr>kq_newPassword = newPassword, kq_expectedKeyEpoch = pf_keyEpoch pre, kq_roster = roster\<rparr>
            in attempt (ask (kd_signKeyRotation D (pf_userId pre) req) (AskSignRotation (pf_userId pre) req))
              (\<lambda>err. give (at, Inl err))
              (\<lambda>material. give (at\<lparr>at_signed := Some material, at_request := Some (prepared_request pre material)\<rparr>, Inr (Inr ()))))
   }"

definition prepare_handoffs ::
  "prims \<Rightarrow> KeyRotationDeps \<Rightarrow> KeyRotationPreflight \<Rightarrow> js_string \<Rightarrow> KeyRotationAttempt
   \<Rightarrow> (key_call, (KeyRotationFailure + unit) attempted) flow" where
  "prepare_handoffs P D pre newPassword at = do {
     r \<leftarrow> writeHandoffs D (pf_userId pre) (map ag_groupId (pf_adminGroups pre));
     case r of
       Inl err \<Rightarrow> give (at, Inl err)
     | Inr outcome \<Rightarrow> (case outcome of
         Inl failure \<Rightarrow> give (at, Inr (Inl failure))
       | Inr _ \<Rightarrow> sign_attempt P D pre newPassword at)
   }"

definition prepare ::
  "prims \<Rightarrow> KeyRotationDeps \<Rightarrow> KeyRotationPreflight \<Rightarrow> js_string \<Rightarrow> KeyRotationAttempt
   \<Rightarrow> (key_call, (KeyRotationFailure + unit) attempted) flow" where
  "prepare P D pre newPassword at = do {
     tell StepPreparing;
     r \<leftarrow> (if at_invitesRevoked at then give (Inr ()) else revoke_invites D (pf_invitesToRevoke pre));
     case r of
       Inl err \<Rightarrow> give (at, Inl err)
     | Inr _ \<Rightarrow>
         let revoked = at\<lparr>at_invitesRevoked := True\<rparr>
         in case at_begun at of
              Some keys \<Rightarrow> prepare_handoffs P D pre newPassword revoked
            | None \<Rightarrow>
                attempt (ask (kd_beginKeyRotation D (pf_userId pre)) (AskBegin (pf_userId pre)))
                  (\<lambda>err. give (revoked, Inl err))
                  (\<lambda>keys. prepare_handoffs P D pre newPassword (revoked\<lparr>at_begun := Some keys\<rparr>))
   }"

section \<open>After the send\<close>

text \<open>Whether the login challenge serves the keys of this request; a failed read says no.\<close>

definition rotationLanded :: "KeyRotationDeps \<Rightarrow> KeyRotationPreflight \<Rightarrow> RotateKeysRequest \<Rightarrow> (key_call, bool) flow" where
  "rotationLanded D pre request =
     attempt (ask (kd_challenge D (pf_username pre)) (ReadChallenge (pf_username pre))) (\<lambda>err. give False)
       (\<lambda>served. give (served = rt_wrappedPrivateKeys request))"

text \<open>\<open>commitKeyRotation\<close>, whose failure is only told by asking for a new login.\<close>

definition commit_keys :: "KeyRotationDeps \<Rightarrow> KeyRotationPreflight \<Rightarrow> (key_call, bool) flow" where
  "commit_keys D pre =
     attempt (ask (kd_commitKeyRotation D (pf_userId pre)) (AskCommit (pf_userId pre))) (\<lambda>err. give False) (\<lambda>_. give True)"

definition landed :: "KeyRotationDeps \<Rightarrow> KeyRotationPreflight \<Rightarrow> js_string \<Rightarrow> (key_call, KeyRotationResult) flow" where
  "landed D pre recoveryCode = do {
     _ \<leftarrow> commit_keys D pre;
     give (Inr \<lparr>kr_recoveryCode = recoveryCode, kr_keyEpoch = pf_keyEpoch pre + 1, kr_needsRelogin = True\<rparr>)
   }"

definition settle ::
  "KeyRotationDeps \<Rightarrow> KeyRotationPreflight \<Rightarrow> KeyRotationAttempt \<Rightarrow> RotateKeysRequest \<Rightarrow> js_string \<Rightarrow> key_thrown option
   \<Rightarrow> (key_call, KeyRotationAttempt \<times> KeyRotationResult) flow" where
  "settle D pre at request recoveryCode error = do {
     did \<leftarrow> rotationLanded D pre request;
     if did then do {
       r \<leftarrow> landed D pre recoveryCode;
       give (at\<lparr>at_ambiguous := True\<rparr>, r)
     } else give (at\<lparr>at_ambiguous := True\<rparr>, Inl (Unconfirmed recoveryCode, error))
   }"

datatype StateAfterWait = AccountUnchanged | AccountLanded | AccountUnknown

definition stateAfterWait ::
  "KeyRotationDeps \<Rightarrow> KeyRotationPreflight \<Rightarrow> RotateKeysRequest \<Rightarrow> (key_call, key_thrown + StateAfterWait) flow" where
  "stateAfterWait D pre request = do {
     tell StepSettling;
     await (ask (kd_wait D IN_FLIGHT_WAIT_MS) (WaitFor IN_FLIGHT_WAIT_MS)) (\<lambda>_.
       attempt (ask (kd_getCredentials D) ReadCredentials) (\<lambda>err. give (Inr AccountUnknown)) (\<lambda>served.
         give (Inr (if ac_wrappedPrivateKeys served = rt_wrappedPrivateKeys request then AccountLanded
           else if ac_credentialVersion served = pf_credentialVersion pre then AccountUnchanged else AccountUnknown))))
   }"

section \<open>The rotation\<close>

definition recovery_code :: "SignedKeyRotation \<Rightarrow> js_string" where
  "recovery_code m = rm_recoveryCode (sr_credentials m)"

text \<open>A definite failure: settled if an earlier send is unaccounted for, otherwise the request built is dropped.\<close>

definition halt ::
  "KeyRotationDeps \<Rightarrow> KeyRotationPreflight \<Rightarrow> KeyRotationAttempt \<Rightarrow> KeyRotationFailure \<Rightarrow> key_thrown option
   \<Rightarrow> (key_call, KeyRotationAttempt \<times> KeyRotationResult) flow" where
  "halt D pre at failure error =
     (let dropped = (at\<lparr>at_request := None, at_signed := None, at_sent := False\<rparr>, Inl (failure, error))
      in case (at_request at, at_signed at) of
        (Some built, Some material) \<Rightarrow>
          if at_ambiguous at then settle D pre at built (recovery_code material) error else give dropped
      | _ \<Rightarrow> give dropped)"

definition halted ::
  "KeyRotationDeps \<Rightarrow> KeyRotationPreflight \<Rightarrow> KeyRotationAttempt \<Rightarrow> KeyRotationFailure \<Rightarrow> key_thrown option
   \<Rightarrow> (key_call, KeyRotationResult attempted) flow" where
  "halted D pre at failure error = do { (at', r) \<leftarrow> halt D pre at failure error; give (at', Inr r) }"

definition settled_as ::
  "KeyRotationDeps \<Rightarrow> KeyRotationPreflight \<Rightarrow> KeyRotationAttempt \<Rightarrow> RotateKeysRequest \<Rightarrow> js_string \<Rightarrow> key_thrown option
   \<Rightarrow> (key_call, KeyRotationResult attempted) flow" where
  "settled_as D pre at request recoveryCode error =
     do { (at', r) \<leftarrow> settle D pre at request recoveryCode error; give (at', Inr r) }"

text \<open>A day that has passed: with an earlier send unaccounted for, that one is waited out first.\<close>

definition day_passed ::
  "KeyRotationDeps \<Rightarrow> KeyRotationPreflight \<Rightarrow> KeyRotationAttempt \<Rightarrow> RotateKeysRequest \<Rightarrow> js_string \<Rightarrow> key_thrown
   \<Rightarrow> (key_call, KeyRotationResult attempted) flow" where
  "day_passed D pre at request recoveryCode err =
     (if \<not> at_ambiguous at then halted D pre at KeyExpired (Some err)
      else attempt (stateAfterWait D pre request) (\<lambda>e. give (at, Inl e)) (\<lambda>state. case state of
        AccountLanded \<Rightarrow> do { r \<leftarrow> landed D pre recoveryCode; give (at, Inr r) }
      | AccountUnknown \<Rightarrow> settled_as D pre at request recoveryCode (Some err)
      | AccountUnchanged \<Rightarrow> halted D pre (at\<lparr>at_ambiguous := False\<rparr>) KeyExpired (Some err)))"

text \<open>The groups a refusal asks rows for.\<close>

definition required_groups :: "key_thrown \<Rightarrow> js_string list option" where
  "required_groups err = (case err of
     GroupsConflict code message groups \<Rightarrow> if code = Some (js ''handoff_required'') then Some groups else None
   | Thrown e \<Rightarrow> None)"

definition refused :: "key_thrown \<Rightarrow> bool" where
  "refused err \<longleftrightarrow> (case key_status err of None \<Rightarrow> False | Some status \<Rightarrow> status < 500)"

text \<open>The rounds, with the number left.\<close>

fun rotate_rounds ::
  "nat \<Rightarrow> KeyRotationDeps \<Rightarrow> KeyRotationPreflight \<Rightarrow> RotateKeysRequest \<Rightarrow> js_string \<Rightarrow> KeyRotationAttempt
   \<Rightarrow> (key_call, KeyRotationResult attempted) flow" where
  "rotate_rounds 0 D pre request recoveryCode at = halted D pre at (GroupBusy []) None"
| "rotate_rounds (Suc k) D pre request recoveryCode at =
     (let sent = at\<lparr>at_sent := True\<rparr>; answered = at\<lparr>at_sent := False\<rparr>;
          rewrite = (\<lambda>groupIds. do {
            r \<leftarrow> writeHandoffs D (pf_userId pre) groupIds;
            case r of
              Inl e \<Rightarrow> give (answered, Inl e)
            | Inr outcome \<Rightarrow> (case outcome of
                Inl failure \<Rightarrow> halted D pre answered failure None
              | Inr _ \<Rightarrow> do { tell StepCommitting; rotate_rounds k D pre request recoveryCode answered })
          })
      in attempt (ask (kd_rotateKeys D request) (SendRotateKeys request))
        (\<lambda>err. case required_groups err of
           Some groups \<Rightarrow> rewrite groups
         | None \<Rightarrow>
             if key_status err = Some 409 \<and> key_code ''handoff_changed'' err
             then rewrite (map ag_groupId (pf_adminGroups pre))
             else if key_status err = Some 400 \<and> key_code ''signed_day_stale'' err
             then day_passed D pre sent request recoveryCode err
             else if refused err \<and> \<not> at_ambiguous at then halted D pre sent (classify err) (Some err)
             else settled_as D pre sent request recoveryCode (Some err))
        (\<lambda>res. do {
           did \<leftarrow> commit_keys D pre;
           give (sent, Inr (Inr \<lparr>kr_recoveryCode = recoveryCode, kr_keyEpoch = rk_keyEpoch res, kr_needsRelogin = \<not> did\<rparr>))
         }))"

text \<open>With a request built: an earlier send that landed is noticed before anything is sent again.\<close>

definition rotate_prepared ::
  "KeyRotationDeps \<Rightarrow> KeyRotationPreflight \<Rightarrow> KeyRotationAttempt \<Rightarrow> (key_call, KeyRotationResult attempted) flow" where
  "rotate_prepared D pre at = (case (at_request at, at_signed at) of
     (Some request, Some material) \<Rightarrow> do {
       did \<leftarrow> (if at_ambiguous at then rotationLanded D pre request else give False);
       if did then do { r \<leftarrow> landed D pre (recovery_code material); give (at, Inr r) }
       else do {
         tell StepCommitting;
         rotate_rounds MAX_ROUNDS D pre request (recovery_code material) at
       }
     }
   | _ \<Rightarrow> give (at, Inl (Thrown (OtherThrown (js ''rotation: signed material missing'')))))"

text \<open>The body of the \<open>try\<close>; what it throws comes with the attempt as it was then.\<close>

definition rotate_tried ::
  "prims \<Rightarrow> KeyRotationDeps \<Rightarrow> KeyRotationPreflight \<Rightarrow> js_string \<Rightarrow> KeyRotationAttempt
   \<Rightarrow> (key_call, KeyRotationResult attempted) flow" where
  "rotate_tried P D pre newPassword at =
     attempt (ask (kd_hasLiveKeys D (pf_userId pre)) (AskLiveKeys (pf_userId pre))) (\<lambda>err. give (at, Inl err)) (\<lambda>live.
       if \<not> live then give (at, Inr (Inl (NeedsLogin, None)))
       else if at_request at \<noteq> None then rotate_prepared D pre at
       else do {
         (at', r) \<leftarrow> prepare P D pre newPassword at;
         case r of
           Inl err \<Rightarrow> give (at', Inl err)
         | Inr outcome \<Rightarrow> (case outcome of
             Inl failure \<Rightarrow> give (at', Inr (Inl (failure, None)))
           | Inr _ \<Rightarrow> rotate_prepared D pre at')
       })"

definition runKeyRotation ::
  "prims \<Rightarrow> KeyRotationDeps \<Rightarrow> KeyRotationPreflight \<Rightarrow> js_string \<Rightarrow> KeyRotationAttempt
   \<Rightarrow> (key_call, KeyRotationAttempt \<times> KeyRotationResult) flow" where
  "runKeyRotation P D pre newPassword at = do {
     (at', r) \<leftarrow> rotate_tried P D pre newPassword at;
     case r of
       Inr result \<Rightarrow> give (at', result)
     | Inl err \<Rightarrow> (case (at_request at', at_signed at') of
         (Some request, Some material) \<Rightarrow>
           if at_sent at' then settle D pre at' request (recovery_code material) (Some err)
           else halt D pre at' (classify err) (Some err)
       | _ \<Rightarrow> halt D pre at' (classify err) (Some err))
   }"

end
