(* ===== verification/Key_Rotation_Properties.thy ===== *)
theory Key_Rotation_Properties
  imports Key_Rotation_Run Sample
begin

text \<open>
  routes/runKeyRotation.ts: once a rotation was sent and its outcome is not known, nothing definite is said of it, the
  request and its recovery code are kept, and only that request is sent again.
\<close>

section \<open>What a flow adds to the trace\<close>












section \<open>The sends that are not accounted for\<close>

text \<open>
  A send whose answer is no refusal may have landed.  It is accounted for when, after the wait that lets it land or die, the
  credentials of the account are read and are the ones the flow started from.
\<close>

definition owed_step ::
  "int \<Rightarrow> RotateKeysRequest option \<times> bool \<Rightarrow> key_call \<Rightarrow> RotateKeysRequest option \<times> bool" where
  "owed_step version s c = (case (s, c) of
     ((owed, waited), SendRotateKeys req r) \<Rightarrow>
       (case r of Inl err \<Rightarrow> if refused err then (owed, False) else (Some req, False) | Inr res \<Rightarrow> (Some req, False))
   | ((owed, waited), WaitFor ms r) \<Rightarrow> (owed, waited \<or> ms = IN_FLIGHT_WAIT_MS \<and> r = Inr ())
   | ((owed, waited), ReadCredentials (Inr served)) \<Rightarrow>
       (if waited \<and> ac_credentialVersion served = version
             \<and> Some (ac_wrappedPrivateKeys served) \<noteq> map_option rt_wrappedPrivateKeys owed
        then None else owed, waited)
   | _ \<Rightarrow> s)"

definition owed :: "int \<Rightarrow> key_call list \<Rightarrow> RotateKeysRequest option" where
  "owed version h = fst (foldl (owed_step version) (None, False) h)"

definition waited :: "int \<Rightarrow> key_call list \<Rightarrow> bool" where
  "waited version h = snd (foldl (owed_step version) (None, False) h)"


text \<open>The other calls change nothing of that.\<close>

definition neutral :: "key_call set" where
  "neutral = {c. (\<forall>req r. c \<noteq> SendRotateKeys req r) \<and> (\<forall>ms r. c \<noteq> WaitFor ms r) \<and> (\<forall>r. c \<noteq> ReadCredentials r)}"

lemma neutral_simps [simp]:
  "TellStep a \<in> neutral" "AskLiveKeys b r1 \<in> neutral" "ReadGroups r2 \<in> neutral" "ReadAllPins r3 \<in> neutral"
  "ReadAllVerifications r4 \<in> neutral" "ReadChallenge c r5 \<in> neutral" "AskBegin d r6 \<in> neutral" "AskHandoff e f r7 \<in> neutral"
  "AskSignRotation g i r8 \<in> neutral" "AskCommit j r9 \<in> neutral" "SendRevokeInvite k r10 \<in> neutral"
  "SendHandoff l m r11 \<in> neutral"
  by (simp_all add: neutral_def)



text \<open>While a send is owed an answer, only the same request is sent.\<close>

definition same_sends :: "int \<Rightarrow> key_call list \<Rightarrow> bool" where
  "same_sends v h \<longleftrightarrow>
     (\<forall>h1 req r h2 req'. h = h1 @ SendRotateKeys req r # h2 \<longrightarrow> owed v h1 = Some req' \<longrightarrow> req = req')"

lemma same_sends_Nil [simp]: "same_sends v []"
  by (simp add: same_sends_def)



section \<open>The parts that touch no send\<close>








section \<open>What the attempt remembers\<close>

text \<open>The request and what was signed for it come and go together.\<close>

definition attempt_ok :: "KeyRotationPreflight \<Rightarrow> KeyRotationAttempt \<Rightarrow> bool" where
  "attempt_ok pre at \<longleftrightarrow>
     at_request at = map_option (prepared_request pre) (at_signed at) \<and> (at_ambiguous at \<longrightarrow> at_request at \<noteq> None)"

text \<open>A send that is owed an answer is the attempt's own, and the attempt is marked.\<close>

definition trace_ok :: "KeyRotationPreflight \<Rightarrow> KeyRotationAttempt \<Rightarrow> key_call list \<Rightarrow> bool" where
  "trace_ok pre at h \<longleftrightarrow> attempt_ok pre at \<and> same_sends (pf_credentialVersion pre) h
     \<and> (\<forall>req. owed (pf_credentialVersion pre) h = Some req \<longrightarrow> at_ambiguous at \<and> at_request at = Some req)"



text \<open>An attempt whose request is known: what the parts after the send are given.\<close>

definition built :: "KeyRotationPreflight \<Rightarrow> KeyRotationAttempt \<Rightarrow> RotateKeysRequest \<Rightarrow> js_string \<Rightarrow> bool" where
  "built pre at request code \<longleftrightarrow> attempt_ok pre at
     \<and> (\<exists>m. at_signed at = Some m \<and> at_request at = Some request \<and> request = prepared_request pre m \<and> code = recovery_code m)"


lemma built_attempt: "built pre at request code \<Longrightarrow> attempt_ok pre at"
  by (simp add: built_def)






section \<open>Settling\<close>










section \<open>The rounds\<close>







text \<open>A group that is told to be busy, or a failure of the server, says nothing is unconfirmed.\<close>

definition definite :: "key_thrown + (KeyRotationFailure + 'a) \<Rightarrow> bool" where
  "definite r \<longleftrightarrow> (\<forall>failure code. r = Inr (Inl failure) \<longrightarrow> failure \<noteq> Unconfirmed code)"

lemma definite_simps [simp]:
  "definite (Inl e)" "definite (Inr (Inr x))" "definite (Inr (Inl f)) \<longleftrightarrow> (\<forall>code. f \<noteq> Unconfirmed code)"
  by (auto simp: definite_def)















lemma trace_ok_sent [simp]: "trace_ok pre (at\<lparr>at_sent := b\<rparr>) h \<longleftrightarrow> trace_ok pre at h"
  by (simp add: trace_ok_def attempt_ok_def)





section \<open>The whole flow\<close>


text \<open>Before the send an attempt that is not built stays so, and is built when all went well.\<close>

definition starting :: "KeyRotationPreflight \<Rightarrow> KeyRotationAttempt \<Rightarrow> bool" where
  "starting pre at \<longleftrightarrow> \<not> at_ambiguous at \<and> at_request at = None \<and> at_signed at = None"


lemma starting_simps [simp]:
  "starting pre (at\<lparr>at_invitesRevoked := b\<rparr>) \<longleftrightarrow> starting pre at" "starting pre (at\<lparr>at_begun := keys\<rparr>) \<longleftrightarrow> starting pre at"
  by (simp_all add: starting_def)










section \<open>A rotation whose answer was lost\<close>










end
