(* ===== verification/Reading_Run.thy ===== *)
theory Reading_Run
  imports Verification_Run Item_Material
begin

text \<open>
  How a page of posts or a thread is read: routes/runListPosts.ts, routes/runLoadThread.ts and lib/groups/nameChain.ts.  What the
  resolver of authors remembers between pages is a record that each reader is given and gives back; authors are resolved in
  the order of the set, one answered after the other.
\<close>

section \<open>What is served\<close>

record WireLivePost =
  wl_sortKey :: js_string
  wl_authorUserId :: js_string
  wl_generation :: int
  wl_sealed :: Sealed
  wl_signature :: js_string
  wl_signedDay :: "js_string option"

datatype WirePost = LivePost WireLivePost | DeletedPost js_string

record ListPostsResponse =
  lp_posts :: "WirePost list"
  lp_nextCursor :: "js_string option"

record WireLiveComment =
  wc_path :: js_string
  wc_authorUserId :: js_string
  wc_generation :: int
  wc_signedDay :: js_string
  wc_sealed :: Sealed
  wc_signature :: js_string

datatype WireComment = LiveComment WireLiveComment | DeletedComment js_string

record WireReaction =
  wx_target :: js_string
  wx_reactorUserId :: js_string
  wx_generation :: int
  wx_sealed :: Sealed

record ThreadResponse =
  tr_comments :: "WireComment list"
  tr_reactions :: "WireReaction list"
  tr_nextCursor :: "js_string option"

text \<open>The calls of these flows.\<close>

datatype (plugins only: code size) page_call =
    AskGroup js_string "thrown + GroupDetail"
  | AskKeychain js_string int int "thrown + KeychainResponse"
  | AskPosts js_string "js_string option" "thrown + ListPostsResponse"
  | AskPost js_string "thrown + WirePost"
  | AskThread js_string "js_string option" "thrown + ThreadResponse"
  | AskAuthor js_string "thrown + UserDetail"
  | AskOwnKey "thrown + js_string"
  | AskOwnHistory bytes "thrown + OwnKeyHistory option"
  | AskPins "thrown + PinRecord list"
  | SavePin js_string "js_string list" js_string int "thrown + unit"
  | AskOpenPosts js_string MemberEntry "StoredPost list" "thrown + PostContent opened list"
  | AskOpenComments js_string MemberEntry js_string "StoredComment list" "thrown + CommentContent opened list"
  | AskOpenReactions js_string MemberEntry js_string "StoredReaction list" "thrown + nat opened list"

type_synonym 'a page_answer = "page_call list \<Rightarrow> thrown + 'a"

section \<open>nameChain.ts\<close>

definition MAX_CHAIN_PAGES :: nat where "MAX_CHAIN_PAGES = 100"

text \<open>The links of one page, into a map in the order they were first set.\<close>

definition chain_links :: "int \<Rightarrow> int \<Rightarrow> KeychainLink list \<Rightarrow> (int \<times> KeychainLink) list \<Rightarrow> (int \<times> KeychainLink) list" where
  "chain_links nameGeneration upper = fold (\<lambda>l links.
     if nameGeneration \<le> rl_generation l \<and> rl_generation l \<le> upper then AList.update (rl_generation l) l links else links)"

fun chain_pages ::
  "nat \<Rightarrow> (js_string \<Rightarrow> int \<Rightarrow> int \<Rightarrow> KeychainResponse page_answer) \<Rightarrow> js_string \<Rightarrow> int \<Rightarrow> int \<Rightarrow> int
   \<Rightarrow> (int \<times> KeychainLink) list \<Rightarrow> (page_call, (int \<times> KeychainLink) list option) flow" where
  "chain_pages 0 read groupId nameGeneration upper from_generation links = give (Some links)"
| "chain_pages (Suc k) read groupId nameGeneration upper from_generation links =
     attempt (ask (read groupId from_generation upper) (AskKeychain groupId from_generation upper)) (\<lambda>err. give None) (\<lambda>res.
       let links' = chain_links nameGeneration upper (kp_links res) links
       in case kp_nextFrom res of
            None \<Rightarrow> give (Some links')
          | Some next_from \<Rightarrow>
              if next_from \<le> from_generation then give None
              else chain_pages k read groupId nameGeneration upper next_from links')"

text \<open>The model keeps of a link what the worker is handed.\<close>

definition chain_link :: "KeychainLink \<Rightarrow> ChainLink" where
  "chain_link l = \<lparr>cl_generation = rl_generation l, cl_wrapped = kl_wrapped l\<rparr>"

definition fetchNameChain ::
  "(js_string \<Rightarrow> int \<Rightarrow> int \<Rightarrow> KeychainResponse page_answer) \<Rightarrow> js_string \<Rightarrow> int \<Rightarrow> int
   \<Rightarrow> (page_call, ChainLink list option) flow" where
  "fetchNameChain read groupId nameGeneration generation =
     (if generation \<le> nameGeneration then give (Some [])
      else do {
        links \<leftarrow> chain_pages MAX_CHAIN_PAGES read groupId nameGeneration (generation - 1) nameGeneration [];
        give (case links of
          None \<Rightarrow> None
        | Some ls \<Rightarrow>
            if list_all (\<lambda>g. map_of ls g \<noteq> None) [nameGeneration..generation - 1] then Some (map (chain_link \<circ> snd) ls)
            else None)
      })"

section \<open>The author of an item\<close>

record AuthorResolverDeps =
  ar_getUserDetail :: "js_string \<Rightarrow> UserDetail page_answer"
  ar_selfUserId :: js_string
  ar_ownSigningKey :: "js_string page_answer"
  ar_loadOwnKeyHistory :: "(bytes \<Rightarrow> OwnKeyHistory option page_answer) option"
  ar_listPins :: "PinRecord list page_answer"
  ar_pinKeys :: "js_string \<Rightarrow> js_string list \<Rightarrow> js_string \<Rightarrow> int \<Rightarrow> unit page_answer"

datatype KeyAnchor = OwnKeys | PinnedKeys | FirstSeenKeys

datatype AuthorCheck =
    AuthorKnown AuthorKeys KeyAnchor "js_string option"
  | AuthorUnchecked string "js_string option"

primrec author_name :: "AuthorCheck \<Rightarrow> js_string option" where
  "author_name (AuthorKnown keys anchor name) = name"
| "author_name (AuthorUnchecked reason name) = name"

type_synonym own_ground = "bytes \<times> (js_string \<rightharpoonup> PinRecord) \<times> OwnKeyHistory option"

text \<open>What a resolver remembers: the answers by author, and the caller's own key, pins and history once read.\<close>

record Resolver =
  rs_cache :: "js_string \<rightharpoonup> AuthorCheck"
  rs_ground :: "own_ground option"

definition makeAuthorResolver :: Resolver where
  "makeAuthorResolver = \<lparr>rs_cache = Map.empty, rs_ground = None\<rparr>"

definition own_ground :: "'d AuthorResolverDeps_scheme \<Rightarrow> (page_call, thrown + own_ground) flow" where
  "own_ground D =
     await (ask (ar_ownSigningKey D) AskOwnKey) (\<lambda>s.
     await (lift (base64ToBytes s) ''InvalidCharacterError'') (\<lambda>own.
     await (ask (ar_listPins D) AskPins) (\<lambda>ps.
       case ar_loadOwnKeyHistory D of
         None \<Rightarrow> give (Inr (own, pin_map ps, None))
       | Some load \<Rightarrow> await (ask (load own) (AskOwnHistory own)) (\<lambda>h. give (Inr (own, pin_map ps, h))))))"

text \<open>A failed read is not remembered.\<close>

definition readGround :: "'d AuthorResolverDeps_scheme \<Rightarrow> Resolver \<Rightarrow> (page_call, Resolver \<times> (thrown + own_ground)) flow" where
  "readGround D rs = (case rs_ground rs of
     Some g \<Rightarrow> give (rs, Inr g)
   | None \<Rightarrow> do {
       r \<leftarrow> own_ground D;
       give (case r of Inl err \<Rightarrow> (rs, Inl err) | Inr g \<Rightarrow> (rs\<lparr>rs_ground := Some g\<rparr>, Inr g))
     })"

text \<open>An answer that came from a failed read: asked again next time, which the flag says.\<close>

definition couldNotRead :: "string \<Rightarrow> js_string option \<Rightarrow> AuthorCheck \<times> bool" where
  "couldNotRead reason username = (AuthorUnchecked reason username, True)"

definition author_unanchored :: "PinVerdict \<Rightarrow> string" where
  "author_unanchored verdict = (case verdict of
     Mismatch \<Rightarrow> ''their keys changed since you saved them''
   | Rollback \<Rightarrow> ''the server shows older keys for them than you saw before''
   | _ \<Rightarrow> ''the copy of their keys you saved does not verify'')"

definition same_own_key :: "js_string \<Rightarrow> bytes \<Rightarrow> bool" where
  "same_own_key b64 key \<longleftrightarrow> (case base64ToBytes b64 of None \<Rightarrow> False | Some b \<Rightarrow> sameBytes b key)"

text \<open>The keys of an author that were served, once the caller's own are known.\<close>

definition anchor_author ::
  "prims \<Rightarrow> 'd AuthorResolverDeps_scheme \<Rightarrow> own_ground \<Rightarrow> js_string \<Rightarrow> UserDetail \<Rightarrow> js_string option
   \<Rightarrow> (page_call, AuthorCheck \<times> bool) flow" where
  "anchor_author P D g userId served username =
     (let keys = \<lparr>ak_signingPublicKey = up_signingPublicKey served, ak_keyChanges = ud_keyChanges served\<rparr>;
          (own, ps, history) = g;
          verdict = pin_verdict P (ar_selfUserId D) own history userId (ps userId) served
      in if userId = ar_selfUserId D
         then give (if same_own_key (up_signingPublicKey served) own then AuthorKnown keys OwnKeys username
                    else AuthorUnchecked ''the keys served for you are not the ones you hold'' username, False)
         else if verdict = Match then give (AuthorKnown keys PinnedKeys username, False)
         else if verdict = FirstSight then
           (case servedSigningKeySet (served_keys served) of
              None \<Rightarrow> give (AuthorUnchecked ''the keys served for them are malformed'' username, False)
            | Some ks \<Rightarrow>
                attempt (ask (ar_pinKeys D userId (map bytesToBase64 ks) (up_wrappingPublicKey served) (up_keyEpoch served))
                    (SavePin userId (map bytesToBase64 ks) (up_wrappingPublicKey served) (up_keyEpoch served)))
                  (\<lambda>err. give (couldNotRead ''their keys could not be saved, so nothing vouches for them yet'' username))
                  (\<lambda>_. give (AuthorKnown keys FirstSeenKeys username, False)))
         else give (AuthorUnchecked (author_unanchored verdict) username, False))"

definition resolve_author ::
  "prims \<Rightarrow> 'd AuthorResolverDeps_scheme \<Rightarrow> Resolver \<Rightarrow> js_string \<Rightarrow> (page_call, Resolver \<times> AuthorCheck \<times> bool) flow" where
  "resolve_author P D rs userId =
     attempt (ask (ar_getUserDetail D userId) (AskAuthor userId))
       (\<lambda>err. give (rs, couldNotRead ''their keys could not be read'' None))
       (\<lambda>served. do {
          let username = (if up_username served = [] then None else Some (up_username served));
          (rs', r) \<leftarrow> readGround D rs;
          case r of
            Inl err \<Rightarrow> give (rs', couldNotRead ''your own keys or saved keys could not be read'' username)
          | Inr g \<Rightarrow> do { found \<leftarrow> anchor_author P D g userId served username; give (rs', found) }
        })"

definition resolveAuthor ::
  "prims \<Rightarrow> 'd AuthorResolverDeps_scheme \<Rightarrow> Resolver \<Rightarrow> js_string \<Rightarrow> (page_call, Resolver \<times> AuthorCheck) flow" where
  "resolveAuthor P D rs userId = (case rs_cache rs userId of
     Some check \<Rightarrow> give (rs, check)
   | None \<Rightarrow> do {
       (rs', check, transient) \<leftarrow> resolve_author P D rs userId;
       give (if transient then rs' else rs'\<lparr>rs_cache := (rs_cache rs')(userId \<mapsto> check)\<rparr>, check)
     })"

fun resolve_all ::
  "prims \<Rightarrow> 'd AuthorResolverDeps_scheme \<Rightarrow> Resolver \<Rightarrow> js_string list
   \<Rightarrow> (page_call, Resolver \<times> (js_string \<times> AuthorCheck) list) flow" where
  "resolve_all P D rs [] = give (rs, [])"
| "resolve_all P D rs (i # ids) = do {
     (rs', check) \<leftarrow> resolveAuthor P D rs i;
     (rs'', checks) \<leftarrow> resolve_all P D rs' ids;
     give (rs'', (i, check) # checks)
   }"

section \<open>A page of posts\<close>

record ListPostsDeps = AuthorResolverDeps +
  lp_getGroup :: "js_string \<Rightarrow> GroupDetail page_answer"
  lp_getKeychain :: "js_string \<Rightarrow> int \<Rightarrow> int \<Rightarrow> KeychainResponse page_answer"
  lp_listPosts :: "js_string \<Rightarrow> js_string option \<Rightarrow> ListPostsResponse page_answer"
  lp_getPost :: "js_string \<Rightarrow> WirePost page_answer"
  lp_openPosts :: "js_string \<Rightarrow> MemberEntry \<Rightarrow> StoredPost list \<Rightarrow> PostContent opened list page_answer"

datatype ShownContent = ShownPost PostContent bool | UnreadablePost

record PostView =
  pv_sortKey :: js_string
  pv_day :: js_string
  pv_authorUserId :: js_string
  pv_authorName :: "js_string option"
  pv_content :: ShownContent
  pv_signedDay :: "js_string option"
  pv_signature :: SignatureVerdict
  pv_keyAnchor :: "KeyAnchor option"

datatype PostEntry = PostShown PostView | PostDeleted js_string js_string

primrec isDeletedPost :: "PostEntry \<Rightarrow> bool" where
  "isDeletedPost (PostShown v) = False"
| "isDeletedPost (PostDeleted sortKey day) = True"

primrec entry_day :: "PostEntry \<Rightarrow> js_string" where
  "entry_day (PostShown v) = pv_day v"
| "entry_day (PostDeleted sortKey day) = day"

datatype PageFailure = PageNotFound | PageAuthRequired | PageColdKeys | PageChain | PageFailed

definition page_failure :: "thrown \<Rightarrow> PageFailure" where
  "page_failure err =
     (if has_status 404 err then PageNotFound else if has_status 401 err then PageAuthRequired else PageFailed)"

definition open_failure :: "thrown \<Rightarrow> PageFailure" where
  "open_failure err = (if isLiveKeysError err then PageColdKeys else PageFailed)"

text \<open>The links from the oldest generation asked for up to the caller's own; a chain that could not be read ends the page.\<close>

definition chain_to ::
  "(js_string \<Rightarrow> int \<Rightarrow> int \<Rightarrow> KeychainResponse page_answer) \<Rightarrow> js_string \<Rightarrow> GroupDetail \<Rightarrow> int list
   \<Rightarrow> (page_call, PageFailure + ChainLink list) flow" where
  "chain_to read groupId detail generations =
     (let oldest = min_list generations
      in if oldest < ge_generation detail
         then do {
           chain \<leftarrow> fetchNameChain read groupId oldest (ge_generation detail);
           give (case chain of None \<Rightarrow> Inl PageChain | Some links \<Rightarrow> Inr links)
         }
         else give (Inr []))"

definition page_entry :: "js_string \<Rightarrow> GroupDetail \<Rightarrow> WireWrapped \<Rightarrow> ChainLink list \<Rightarrow> MemberEntry" where
  "page_entry groupId detail wrapped chain =
     \<lparr>me_groupId = groupId, me_generation = ge_generation detail, me_wrappedGroupKey = wrapped, me_chain = chain\<rparr>"

definition stored_post :: "WireLivePost \<Rightarrow> StoredPost" where
  "stored_post p = \<lparr>st_sortKey = wl_sortKey p, st_generation = wl_generation p, st_sealed = wl_sealed p\<rparr>"

definition openAll ::
  "'d ListPostsDeps_scheme \<Rightarrow> GroupDetail \<Rightarrow> WireWrapped \<Rightarrow> js_string \<Rightarrow> WireLivePost list
   \<Rightarrow> (page_call, PageFailure + PostContent opened list) flow" where
  "openAll D detail wrapped groupId posts =
     (if posts = [] then give (Inr [])
      else do {
        chain \<leftarrow> chain_to (lp_getKeychain D) groupId detail (map wl_generation posts);
        case chain of
          Inl failure \<Rightarrow> give (Inl failure)
        | Inr links \<Rightarrow>
            let entry = page_entry groupId detail wrapped links; stored = map stored_post posts
            in attempt (ask (lp_openPosts D (ar_selfUserId D) entry stored) (AskOpenPosts (ar_selfUserId D) entry stored))
              (\<lambda>err. give (Inl (open_failure err))) (\<lambda>opened. give (Inr opened))
      })"

definition sort_key_day :: "js_string \<Rightarrow> js_string" where
  "sort_key_day sortKey = (case sortKeyDay sortKey of None \<Rightarrow> [] | Some day \<Rightarrow> day)"

definition post_view :: "prims \<Rightarrow> js_string \<Rightarrow> WireLivePost \<Rightarrow> PostContent opened \<Rightarrow> AuthorCheck \<Rightarrow> PostView" where
  "post_view P groupId p o_post author =
     \<lparr>pv_sortKey = wl_sortKey p, pv_day = sort_key_day (wl_sortKey p), pv_authorUserId = wl_authorUserId p,
      pv_authorName = author_name author,
      pv_content = (case o_post of
        Opened c \<Rightarrow> ShownPost c (postTimeSuspect (wl_sortKey p) (wl_signedDay p) (po_at c) (po_editedAt c))
      | Unreadable \<Rightarrow> UnreadablePost),
      pv_signedDay = wl_signedDay p,
      pv_signature = (case author of
        AuthorUnchecked reason name \<Rightarrow> UncheckedSignature reason
      | AuthorKnown keys anchor name \<Rightarrow>
          checkPostSignature P \<lparr>si_groupId = groupId, si_authorUserId = wl_authorUserId p, si_sortKey = wl_sortKey p,
            si_generation = wl_generation p, si_ciphertext = sl_ciphertext (wl_sealed p), si_signature = wl_signature p,
            si_author = Some keys\<rparr> (wl_signedDay p)),
      pv_keyAnchor = (case author of AuthorKnown keys anchor name \<Rightarrow> Some anchor | AuthorUnchecked reason name \<Rightarrow> None)\<rparr>"

text \<open>Every live post has its own opened one; without it, or without its author, reading a field of it throws.\<close>

fun post_entries ::
  "prims \<Rightarrow> js_string \<Rightarrow> (js_string \<rightharpoonup> AuthorCheck) \<Rightarrow> WirePost list \<Rightarrow> PostContent opened list \<Rightarrow> PostEntry list option" where
  "post_entries P groupId authors [] opened = Some []"
| "post_entries P groupId authors (DeletedPost sortKey # ps) opened =
     map_option (Cons (PostDeleted sortKey (sort_key_day sortKey))) (post_entries P groupId authors ps opened)"
| "post_entries P groupId authors (LivePost p # ps) [] = None"
| "post_entries P groupId authors (LivePost p # ps) (o_post # opened) = (case authors (wl_authorUserId p) of
     None \<Rightarrow> None
   | Some author \<Rightarrow>
       map_option (Cons (PostShown (post_view P groupId p o_post author))) (post_entries P groupId authors ps opened))"

fun live_posts :: "WirePost list \<Rightarrow> WireLivePost list" where
  "live_posts [] = []"
| "live_posts (LivePost p # ps) = p # live_posts ps"
| "live_posts (DeletedPost sortKey # ps) = live_posts ps"

text \<open>A reader's outcome, and the resolver as it is left.\<close>

type_synonym 'a page_result = "Resolver \<times> (thrown + (PageFailure + 'a))"

definition viewsOf ::
  "prims \<Rightarrow> 'd ListPostsDeps_scheme \<Rightarrow> Resolver \<Rightarrow> js_string \<Rightarrow> GroupDetail \<Rightarrow> WireWrapped \<Rightarrow> WirePost list
   \<Rightarrow> (page_call, PostEntry list page_result) flow" where
  "viewsOf P D rs groupId detail wrapped posts = do {
     let live = live_posts posts;
     r \<leftarrow> openAll D detail wrapped groupId live;
     case r of
       Inl failure \<Rightarrow> give (rs, Inr (Inl failure))
     | Inr opened \<Rightarrow> do {
         (rs', authors) \<leftarrow> resolve_all P D rs (unique_list (map wl_authorUserId live));
         give (rs', case post_entries P groupId (map_of authors) posts opened of
             None \<Rightarrow> Inl (OtherThrown (js ''TypeError''))
           | Some entries \<Rightarrow> Inr (Inr entries))
       }
   }"

text \<open>Whether the group lets its caller read: a role and a key of its own.\<close>

definition readable :: "GroupDetail \<Rightarrow> WireWrapped option" where
  "readable detail = (if ge_role detail = [] then None else ge_wrappedGroupKey detail)"

section \<open>The order inside a day\<close>

primrec trustRank :: "PostEntry \<Rightarrow> int" where
  "trustRank (PostDeleted sortKey day) = 3"
| "trustRank (PostShown v) = (case pv_content v of UnreadablePost \<Rightarrow> 2 | ShownPost c suspect \<Rightarrow> if suspect then 1 else 0)"

primrec entry_at :: "PostEntry \<Rightarrow> js_string option" where
  "entry_at (PostDeleted sortKey day) = None"
| "entry_at (PostShown v) = (case pv_content v of UnreadablePost \<Rightarrow> None | ShownPost c suspect \<Rightarrow> Some (po_at c))"

definition day_compare :: "PostEntry \<times> nat \<Rightarrow> PostEntry \<times> nat \<Rightarrow> int" where
  "day_compare = (\<lambda>(a, i) (b, j).
     if trustRank a \<noteq> trustRank b then trustRank a - trustRank b
     else case (entry_at a, entry_at b) of
       (Some x, Some y) \<Rightarrow> if trustRank a = 0 \<and> x \<noteq> y then if x < y then 1 else - 1 else int i - int j
     | _ \<Rightarrow> int i - int j)"

definition add_to_days :: "PostEntry list list \<Rightarrow> PostEntry \<Rightarrow> PostEntry list list" where
  "add_to_days days v =
     (if days \<noteq> [] \<and> entry_day (hd (last days)) = entry_day v then butlast days @ [last days @ [v]] else days @ [[v]])"

definition order_day :: "PostEntry list \<Rightarrow> PostEntry list" where
  "order_day g = map fst (js_sort day_compare (zip g [0..<length g]))"

definition orderWithinDays :: "PostEntry list \<Rightarrow> PostEntry list" where
  "orderWithinDays views = concat (map order_day (foldl add_to_days [] views))"

section \<open>The two readers of posts\<close>

record PostsPage =
  pg_posts :: "PostEntry list"
  pg_nextCursor :: "js_string option"

definition loadPostsPage ::
  "prims \<Rightarrow> 'd ListPostsDeps_scheme \<Rightarrow> Resolver \<Rightarrow> js_string \<Rightarrow> js_string option \<Rightarrow> (page_call, PostsPage page_result) flow" where
  "loadPostsPage P D rs groupId cursor =
     attempt (both (ask (lp_getGroup D groupId) (AskGroup groupId)) (ask (lp_listPosts D groupId cursor) (AskPosts groupId cursor)))
       (\<lambda>err. give (rs, Inr (Inl (page_failure err))))
       (\<lambda>(detail, page). case readable detail of
          None \<Rightarrow> give (rs, Inr (Inl PageNotFound))
        | Some wrapped \<Rightarrow> do {
            (rs', r) \<leftarrow> viewsOf P D rs groupId detail wrapped (lp_posts page);
            give (rs', case r of
              Inl err \<Rightarrow> Inl err
            | Inr (Inl failure) \<Rightarrow> Inr (Inl failure)
            | Inr (Inr views) \<Rightarrow> Inr (Inr \<lparr>pg_posts = orderWithinDays views, pg_nextCursor = truthy (lp_nextCursor page)\<rparr>))
          })"

definition loadPost ::
  "prims \<Rightarrow> 'd ListPostsDeps_scheme \<Rightarrow> Resolver \<Rightarrow> js_string \<Rightarrow> js_string \<Rightarrow> (page_call, PostEntry page_result) flow" where
  "loadPost P D rs groupId postId =
     attempt (both (ask (lp_getGroup D groupId) (AskGroup groupId)) (ask (lp_getPost D postId) (AskPost postId)))
       (\<lambda>err. give (rs, Inr (Inl (page_failure err))))
       (\<lambda>(detail, wire). case readable detail of
          None \<Rightarrow> give (rs, Inr (Inl PageNotFound))
        | Some wrapped \<Rightarrow> do {
            (rs', r) \<leftarrow> viewsOf P D rs groupId detail wrapped [wire];
            give (rs', case r of
              Inl err \<Rightarrow> Inl err
            | Inr (Inl failure) \<Rightarrow> Inr (Inl failure)
            | Inr (Inr views) \<Rightarrow> Inr (Inr (hd views)))
          })"

section \<open>A thread\<close>

text \<open>
  routes/runLoadThread.ts: one page of the comments and reactions of a post, read with the resolver of authors the pages of posts
  share.
\<close>

definition POST_TARGET :: js_string where "POST_TARGET = js ''0000''"

section \<open>Where a comment stands\<close>

text \<open>The segments of a path: four digits each, with a dot between two.\<close>

function path_segments :: "js_string \<Rightarrow> js_string list option" where
  "path_segments path =
     (if length path < 4 \<or> \<not> list_all is_digit (take 4 path) then None
      else case drop 4 path of
        [] \<Rightarrow> Some [path]
      | c # rest \<Rightarrow> if c = 46 then map_option (Cons (take 4 path)) (path_segments rest) else None)"
  by pat_completeness auto
termination
proof (relation "measure length")
  fix path c :: js_string and x rest
  assume "drop 4 path = x # rest"
  then have "length (drop 4 path) = Suc (length rest)" by simp
  then show "(rest, path) \<in> measure length" by simp
qed simp

text \<open>\<open>PATH\<close>, \<open>/^\d{4}(\.\d{4}){0,7}$/\<close>, with no segment 0000: how many segments, or 0.\<close>

definition commentDepth :: "js_string \<Rightarrow> nat" where
  "commentDepth path = (case path_segments path of
     None \<Rightarrow> 0
   | Some segments \<Rightarrow> if 8 < length segments \<or> js ''0000'' \<in> set segments then 0 else length segments)"

section \<open>What is shown\<close>

record LoadThreadDeps = AuthorResolverDeps +
  lt_getGroup :: "js_string \<Rightarrow> GroupDetail page_answer"
  lt_getKeychain :: "js_string \<Rightarrow> int \<Rightarrow> int \<Rightarrow> KeychainResponse page_answer"
  lt_getThread :: "js_string \<Rightarrow> js_string option \<Rightarrow> ThreadResponse page_answer"
  lt_openComments :: "js_string \<Rightarrow> MemberEntry \<Rightarrow> js_string \<Rightarrow> StoredComment list \<Rightarrow> CommentContent opened list page_answer"
  lt_openReactions :: "js_string \<Rightarrow> MemberEntry \<Rightarrow> js_string \<Rightarrow> StoredReaction list \<Rightarrow> nat opened list page_answer"

record ReactionView =
  xv_target :: js_string
  xv_reactorUserId :: js_string
  xv_index :: "nat option"

datatype ShownComment = ShownComment CommentContent bool | UnreadableComment

record CommentView =
  cv_path :: js_string
  cv_depth :: nat
  cv_authorUserId :: js_string
  cv_authorName :: "js_string option"
  cv_signedDay :: js_string
  cv_content :: ShownComment
  cv_signature :: SignatureVerdict
  cv_keyAnchor :: "KeyAnchor option"

datatype ThreadEntry = CommentShown CommentView | CommentDeleted js_string nat

primrec isDeletedComment :: "ThreadEntry \<Rightarrow> bool" where
  "isDeletedComment (CommentShown v) = False"
| "isDeletedComment (CommentDeleted path depth) = True"

record ThreadPage =
  tp_comments :: "ThreadEntry list"
  tp_reactions :: "ReactionView list"
  tp_nextCursor :: "js_string option"

definition tombstone :: "js_string \<Rightarrow> ThreadEntry" where
  "tombstone path = CommentDeleted path (commentDepth path)"

definition comment_view :: "prims \<Rightarrow> js_string \<Rightarrow> WireLiveComment \<Rightarrow> CommentContent opened \<Rightarrow> AuthorCheck \<Rightarrow> CommentView" where
  "comment_view P groupId c o_comment author =
     (let wellFormed = 0 < commentDepth (wc_path c) in
      \<lparr>cv_path = wc_path c, cv_depth = commentDepth (wc_path c), cv_authorUserId = wc_authorUserId c,
       cv_authorName = author_name author, cv_signedDay = wc_signedDay c,
       cv_content = (case o_comment of
         Opened x \<Rightarrow>
           if wellFormed then ShownComment x (commentTimeSuspect (wc_signedDay c) (co_at x) (co_editedAt x)) else UnreadableComment
       | Unreadable \<Rightarrow> UnreadableComment),
       cv_signature = (if \<not> wellFormed then InvalidSignature
         else case author of
           AuthorUnchecked reason name \<Rightarrow> UncheckedSignature reason
         | AuthorKnown keys anchor name \<Rightarrow>
             checkCommentSignature P \<lparr>ci_groupId = groupId, ci_authorUserId = wc_authorUserId c, ci_path = wc_path c,
               ci_generation = wc_generation c, ci_signedDay = wc_signedDay c, ci_ciphertext = sl_ciphertext (wc_sealed c),
               ci_signature = wc_signature c, ci_author = Some keys\<rparr>),
       cv_keyAnchor = (case author of AuthorKnown keys anchor name \<Rightarrow> Some anchor | AuthorUnchecked reason name \<Rightarrow> None)\<rparr>)"

definition reaction_view :: "WireReaction \<Rightarrow> nat opened option \<Rightarrow> ReactionView" where
  "reaction_view x o_reaction =
     \<lparr>xv_target = wx_target x, xv_reactorUserId = wx_reactorUserId x,
      xv_index = (case o_reaction of Some (Opened i) \<Rightarrow> Some i | _ \<Rightarrow> None)\<rparr>"

text \<open>A comment for which nothing was opened is unreadable; without its author, reading a field of it throws.\<close>

fun comment_entries ::
  "prims \<Rightarrow> js_string \<Rightarrow> (js_string \<rightharpoonup> AuthorCheck) \<Rightarrow> WireComment list \<Rightarrow> CommentContent opened list \<Rightarrow> ThreadEntry list option" where
  "comment_entries P groupId authors [] opened = Some []"
| "comment_entries P groupId authors (DeletedComment path # cs) opened =
     map_option (Cons (tombstone path)) (comment_entries P groupId authors cs opened)"
| "comment_entries P groupId authors (LiveComment c # cs) opened = (case authors (wc_authorUserId c) of
     None \<Rightarrow> None
   | Some author \<Rightarrow>
       let o_comment = (case opened of [] \<Rightarrow> Unreadable | x # xs \<Rightarrow> x)
       in map_option (Cons (CommentShown (comment_view P groupId c o_comment author)))
            (comment_entries P groupId authors cs (tl opened)))"

fun reaction_views :: "WireReaction list \<Rightarrow> nat opened list \<Rightarrow> ReactionView list" where
  "reaction_views [] opened = []"
| "reaction_views (x # xs) [] = reaction_view x None # reaction_views xs []"
| "reaction_views (x # xs) (o_reaction # opened) = reaction_view x (Some o_reaction) # reaction_views xs opened"

fun live_comments :: "WireComment list \<Rightarrow> WireLiveComment list" where
  "live_comments [] = []"
| "live_comments (LiveComment c # cs) = c # live_comments cs"
| "live_comments (DeletedComment path # cs) = live_comments cs"

fun deleted_paths :: "WireComment list \<Rightarrow> js_string list" where
  "deleted_paths [] = []"
| "deleted_paths (LiveComment c # cs) = deleted_paths cs"
| "deleted_paths (DeletedComment path # cs) = path # deleted_paths cs"

primrec comment_path :: "WireComment \<Rightarrow> js_string" where
  "comment_path (LiveComment c) = wc_path c"
| "comment_path (DeletedComment path) = path"

text \<open>The reactions that have a place: on the post, or on a comment of a well-formed path that is not deleted.\<close>

definition placed_reactions :: "ThreadResponse \<Rightarrow> WireReaction list" where
  "placed_reactions page = filter (\<lambda>x.
     (wx_target x = POST_TARGET \<or> 0 < commentDepth (wx_target x)) \<and> wx_target x \<notin> set (deleted_paths (tr_comments page)))
     (tr_reactions page)"

section \<open>The reader\<close>

definition stored_comment :: "WireLiveComment \<Rightarrow> StoredComment" where
  "stored_comment c = \<lparr>sc_path = wc_path c, sc_generation = wc_generation c, sc_sealed = wc_sealed c\<rparr>"

definition stored_reaction :: "WireReaction \<Rightarrow> StoredReaction" where
  "stored_reaction x =
     \<lparr>sr_target = wx_target x, sr_reactorUserId = wx_reactorUserId x, sr_generation = wx_generation x, sr_sealed = wx_sealed x\<rparr>"

definition open_comments ::
  "'d LoadThreadDeps_scheme \<Rightarrow> MemberEntry \<Rightarrow> js_string \<Rightarrow> WireLiveComment list
   \<Rightarrow> (page_call, PageFailure + CommentContent opened list) flow" where
  "open_comments D entry postId wire =
     (if wire = [] then give (Inr [])
      else let stored = map stored_comment wire
           in attempt (ask (lt_openComments D (ar_selfUserId D) entry postId stored)
                 (AskOpenComments (ar_selfUserId D) entry postId stored))
                (\<lambda>err. give (Inl (open_failure err))) (\<lambda>opened. give (Inr opened)))"

text \<open>Reactions that do not open are shown as that, unless the tab has no live keys.\<close>

definition open_reactions ::
  "'d LoadThreadDeps_scheme \<Rightarrow> MemberEntry \<Rightarrow> js_string \<Rightarrow> WireReaction list
   \<Rightarrow> (page_call, PageFailure + nat opened list) flow" where
  "open_reactions D entry postId wire =
     (if wire = [] then give (Inr [])
      else let stored = map stored_reaction wire
           in attempt (ask (lt_openReactions D (ar_selfUserId D) entry postId stored)
                 (AskOpenReactions (ar_selfUserId D) entry postId stored))
                (\<lambda>err. give (if isLiveKeysError err then Inl PageColdKeys else Inr [])) (\<lambda>opened. give (Inr opened)))"

definition read_thread ::
  "prims \<Rightarrow> 'd LoadThreadDeps_scheme \<Rightarrow> Resolver \<Rightarrow> js_string \<Rightarrow> js_string \<Rightarrow> GroupDetail \<Rightarrow> WireWrapped \<Rightarrow> ThreadResponse
   \<Rightarrow> (page_call, ThreadPage page_result) flow" where
  "read_thread P D rs groupId postId detail wrapped page = do {
     let wire = live_comments (tr_comments page);
     let reactions = placed_reactions page;
     chain \<leftarrow> chain_to (lt_getKeychain D) groupId detail (map wc_generation wire @ map wx_generation reactions);
     case chain of
       Inl failure \<Rightarrow> give (rs, Inr (Inl failure))
     | Inr links \<Rightarrow> do {
         let entry = page_entry groupId detail wrapped links;
         r \<leftarrow> open_comments D entry postId wire;
         case r of
           Inl failure \<Rightarrow> give (rs, Inr (Inl failure))
         | Inr opened \<Rightarrow> do {
             s \<leftarrow> open_reactions D entry postId reactions;
             case s of
               Inl failure \<Rightarrow> give (rs, Inr (Inl failure))
             | Inr openedReactions \<Rightarrow> do {
                 (rs', authors) \<leftarrow> resolve_all P D rs (unique_list (map wc_authorUserId wire));
                 give (rs', case comment_entries P groupId (map_of authors) (tr_comments page) opened of
                     None \<Rightarrow> Inl (OtherThrown (js ''TypeError''))
                   | Some entries \<Rightarrow> Inr (Inr \<lparr>tp_comments = entries, tp_reactions = reaction_views reactions openedReactions,
                       tp_nextCursor = truthy (tr_nextCursor page)\<rparr>))
               }
           }
       }
   }"

definition loadThreadPage ::
  "prims \<Rightarrow> 'd LoadThreadDeps_scheme \<Rightarrow> Resolver \<Rightarrow> js_string \<Rightarrow> js_string \<Rightarrow> js_string option
   \<Rightarrow> (page_call, ThreadPage page_result) flow" where
  "loadThreadPage P D rs groupId postId cursor =
     (if groupOfPostId postId \<noteq> Some groupId then give (rs, Inr (Inl PageNotFound))
      else attempt (both (ask (lt_getGroup D groupId) (AskGroup groupId)) (ask (lt_getThread D postId cursor) (AskThread postId cursor)))
        (\<lambda>err. give (rs, Inr (Inl (page_failure err))))
        (\<lambda>(detail, page). case readable detail of
           None \<Rightarrow> give (rs, Inr (Inl PageNotFound))
         | Some wrapped \<Rightarrow>
             if live_comments (tr_comments page) = [] \<and> placed_reactions page = []
             then give (rs, Inr (Inr \<lparr>tp_comments = map (tombstone \<circ> comment_path) (tr_comments page), tp_reactions = [],
               tp_nextCursor = truthy (tr_nextCursor page)\<rparr>))
             else read_thread P D rs groupId postId detail wrapped page))"

end
