(* ===== verification/Reading_Checks.thy ===== *)
theory Reading_Checks
  imports Reading_Run Key_Checks Item_Properties
begin

text \<open>
  What the readers of posts and threads (\<open>Reading_Run\<close>, \<open>Thread_Run\<close>) call, in which order, and what is then known of what they
  return: the links that were served for a chain, the keys behind an author, the row behind an item that is shown.
\<close>

section \<open>The links of a chain\<close>

definition chain_kept :: "int \<Rightarrow> int \<Rightarrow> (int \<times> KeychainLink) list \<Rightarrow> bool" where
  "chain_kept a b links \<longleftrightarrow> distinct (map fst links)
     \<and> (\<forall>(g, l) \<in> set links. g = rl_generation l \<and> a \<le> g \<and> g \<le> b)"

lemma update_subset: "set (AList.update k x links) \<subseteq> insert (k, x) (set links)"
  by (induction links) auto

lemma chain_kept_update:
  assumes "chain_kept a b links" "a \<le> rl_generation l" "rl_generation l \<le> b"
  shows "chain_kept a b (AList.update (rl_generation l) l links)"
  using assms update_subset [of "rl_generation l" l links] by (fastforce simp: chain_kept_def AList.distinct_update)

lemma set_chain_links: "snd ` set (chain_links a b ls links) \<subseteq> set ls \<union> snd ` set links"
proof (induction ls arbitrary: links)
  case (Cons x ls)
  let ?links = "if a \<le> rl_generation x \<and> rl_generation x \<le> b then AList.update (rl_generation x) x links else links"
  obtain links' where links': "links' = ?links" by simp
  then have "snd ` set links' \<subseteq> insert x (snd ` set links)"
    using image_mono [OF update_subset [of "rl_generation x" x links], of snd] by auto
  moreover have "chain_links a b (x # ls) links = chain_links a b ls links'"
    by (simp add: chain_links_def links')
  moreover have "A \<subseteq> B \<union> C \<Longrightarrow> C \<subseteq> insert x D \<Longrightarrow> A \<subseteq> insert x B \<union> D" for A B C D :: "KeychainLink set"
    by blast
  ultimately show ?case using Cons.IH [of links'] by simp
qed (simp add: chain_links_def)

lemma chain_kept_links: "chain_kept a b links \<Longrightarrow> chain_kept a b (chain_links a b ls links)"
  unfolding chain_links_def by (induction ls arbitrary: links) (auto simp: chain_kept_update)

definition links_served :: "js_string \<Rightarrow> page_call set \<Rightarrow> KeychainLink set \<Rightarrow> bool" where
  "links_served groupId H ls \<longleftrightarrow>
     (\<forall>l\<in>ls. \<exists>a b res. AskKeychain groupId a b (Inr res) \<in> H \<and> l \<in> set (kp_links res))"

lemma links_served_last [lasting_intro]: "lasting (\<lambda>H. links_served groupId H ls)"
  unfolding links_served_def by (intro lasting_intro)

lemma chain_pages_meets:
  assumes "\<And>g a b r H. J H (AskKeychain g a b r)"
  shows "chain_kept a b links \<Longrightarrow> meets J (\<lambda>H. links_served groupId H (snd ` set links))
    (chain_pages k read groupId a b from_generation links)
    (\<lambda>r H. \<forall>ls. r = Some ls \<longrightarrow> chain_kept a b ls \<and> links_served groupId H (snd ` set ls))"
proof (induction k arbitrary: from_generation links)
  case 0
  then show ?case by (auto intro: meets_give)
next
  case (Suc k)
  have served: "links_served groupId H (snd ` set (chain_links a b (kp_links res) links))"
    if "links_served groupId H (snd ` set links)" "AskKeychain groupId from_generation b (Inr res) \<in> H" for H res
    unfolding links_served_def
  proof
    fix l
    assume "l \<in> snd ` set (chain_links a b (kp_links res) links)"
    with set_chain_links have "l \<in> set (kp_links res) \<or> l \<in> snd ` set links" by fast
    with that show "\<exists>f t res. AskKeychain groupId f t (Inr res) \<in> H \<and> l \<in> set (kp_links res)"
      unfolding links_served_def by blast
  qed
  show ?case
    unfolding chain_pages.simps Let_def
    by (intro meets_attempt [OF _ meets_ask] meets_option meets_if meets_give meets_pre [OF Suc.IH])
      (auto simp: assms served chain_kept_links [OF Suc.prems] intro: lasting_intro)
qed

text \<open>A chain that is returned has one served link for each generation of the range, and no other.\<close>

definition chain_covers :: "int \<Rightarrow> int \<Rightarrow> ChainLink list \<Rightarrow> bool" where
  "chain_covers a b links \<longleftrightarrow> distinct (map cl_generation links) \<and> set (map cl_generation links) = {a..<b}"

lemma fetchNameChain_meets:
  assumes "\<And>g a b r H. J H (AskKeychain g a b r)"
  shows "meets J (\<lambda>H. True) (fetchNameChain read groupId a b) (\<lambda>r H. \<forall>links. r = Some links \<longrightarrow>
    chain_covers a b links
    \<and> (\<forall>link\<in>set links. \<exists>f t res l. AskKeychain groupId f t (Inr res) \<in> H \<and> l \<in> set (kp_links res) \<and> link = chain_link l))"
proof (cases "b \<le> a")
  case True
  then show ?thesis by (auto simp: fetchNameChain_def chain_covers_def intro!: meets_give)
next
  case False
  have covers: "chain_covers a b (map (chain_link \<circ> snd) ls)"
    if "chain_kept a (b - 1) ls" "list_all (\<lambda>g. map_of ls g \<noteq> None) [a..b - 1]" for ls
  proof -
    have gens: "map (cl_generation \<circ> (chain_link \<circ> snd)) ls = map fst ls"
      using that(1) by (auto simp: chain_kept_def chain_link_def)
    have "g \<in> fst ` set ls" if "a \<le> g" "g < b" for g
      using \<open>list_all _ _\<close> that by (auto simp: list_all_iff map_of_eq_None_iff)
    with that(1) show ?thesis
      unfolding chain_covers_def map_map gens by (fastforce simp: chain_kept_def)
  qed
  have served: "\<forall>link\<in>set (map (chain_link \<circ> snd) ls).
      \<exists>f t res l. AskKeychain groupId f t (Inr res) \<in> H \<and> l \<in> set (kp_links res) \<and> link = chain_link l"
    if "links_served groupId H (snd ` set ls)" for ls H
    using that unfolding links_served_def by fastforce
  show ?thesis
    unfolding fetchNameChain_def if_not_P [OF False]
  proof (rule meets_bind [OF lasting_pure [of True] meets_pre [OF chain_pages_meets [where J = J, OF assms]]], goal_cases)
    case (3 x)
    show ?case
    proof (rule meets_give, goal_cases)
      case (1 H)
      show ?case
      proof (intro allI impI, goal_cases)
        case (1 links)
        then obtain ls where "x = Some ls" "list_all (\<lambda>g. map_of ls g \<noteq> None) [a..b - 1]" "links = map (chain_link \<circ> snd) ls"
          by (auto split: option.splits if_splits)
        with \<open>True \<and> _\<close> covers [of ls] served [of H ls] show ?case by blast
      qed
    qed
  qed (simp_all add: chain_kept_def links_served_def)
qed

section \<open>What stands behind an author's keys\<close>

text \<open>The caller's own key, pins and history, as they were read.\<close>

definition ground_read :: "page_call set \<Rightarrow> own_ground \<Rightarrow> bool" where
  "ground_read H = (\<lambda>(own, ps, history).
     (\<exists>s. AskOwnKey (Inr s) \<in> H \<and> base64ToBytes s = Some own) \<and> (\<exists>rows. AskPins (Inr rows) \<in> H \<and> ps = pin_map rows)
     \<and> (history \<noteq> None \<longrightarrow> AskOwnHistory own (Inr history) \<in> H))"

text \<open>Keys that were served for an author, and why they are believed to be the author's.\<close>

definition vouched :: "prims \<Rightarrow> js_string \<Rightarrow> page_call set \<Rightarrow> js_string \<Rightarrow> AuthorKeys \<Rightarrow> KeyAnchor \<Rightarrow> bool" where
  "vouched P self H userId keys anchor \<longleftrightarrow> (\<exists>served own ps history.
     AskAuthor userId (Inr served) \<in> H
     \<and> keys = \<lparr>ak_signingPublicKey = up_signingPublicKey served, ak_keyChanges = ud_keyChanges served\<rparr>
     \<and> ground_read H (own, ps, history)
     \<and> (case anchor of
          OwnKeys \<Rightarrow> userId = self \<and> base64ToBytes (up_signingPublicKey served) = Some own
        | PinnedKeys \<Rightarrow> userId \<noteq> self \<and> pin_verdict P self own history userId (ps userId) served = Match
        | FirstSeenKeys \<Rightarrow> userId \<noteq> self \<and> ps userId = None
            \<and> (\<exists>ks. servedSigningKeySet (served_keys served) = Some ks
                \<and> SavePin userId (map bytesToBase64 ks) (up_wrappingPublicKey served) (up_keyEpoch served) (Inr ()) \<in> H)))"

text \<open>A pin is saved only where none was read, for exactly the keys served.\<close>

definition reading_call :: "prims \<Rightarrow> js_string \<Rightarrow> page_call set \<Rightarrow> page_call \<Rightarrow> bool" where
  "reading_call P self H c \<longleftrightarrow> (case c of
     SavePin userId ks wrapping epoch r \<Rightarrow> (\<exists>served own ps history keys.
       AskAuthor userId (Inr served) \<in> H \<and> ground_read H (own, ps, history) \<and> userId \<noteq> self \<and> ps userId = None
       \<and> servedSigningKeySet (served_keys served) = Some keys \<and> ks = map bytesToBase64 keys
       \<and> wrapping = up_wrappingPublicKey served \<and> epoch = up_keyEpoch served)
   | AskOpenPosts userId entry posts r \<Rightarrow> userId = self
       \<and> (\<forall>p\<in>set posts. chain_covers (st_generation p) (me_generation entry) (filter (\<lambda>l. st_generation p \<le> cl_generation l) (me_chain entry)))
   | AskOpenComments userId entry postId comments r \<Rightarrow> userId = self
   | AskOpenReactions userId entry postId reactions r \<Rightarrow> userId = self
   | _ \<Rightarrow> True)"

lemma ground_read_last [lasting_intro]: "lasting (\<lambda>H. ground_read H g)"
  unfolding ground_read_def by (cases g) (auto intro!: lasting_intro)

lemma vouched_last [lasting_intro]: "lasting (\<lambda>H. vouched P self H userId keys anchor)"
  unfolding vouched_def by (cases anchor) (auto intro!: lasting_intro)

definition check_vouched :: "prims \<Rightarrow> js_string \<Rightarrow> js_string \<Rightarrow> AuthorCheck \<Rightarrow> page_call set \<Rightarrow> bool" where
  "check_vouched P self userId check H \<longleftrightarrow> (\<forall>keys anchor name. check = AuthorKnown keys anchor name \<longrightarrow> vouched P self H userId keys anchor)"

definition resolver_vouched :: "prims \<Rightarrow> js_string \<Rightarrow> Resolver \<Rightarrow> page_call set \<Rightarrow> bool" where
  "resolver_vouched P self rs H \<longleftrightarrow>
     (\<forall>userId check. rs_cache rs userId = Some check \<longrightarrow> check_vouched P self userId check H)
     \<and> (\<forall>g. rs_ground rs = Some g \<longrightarrow> ground_read H g)"

lemma check_vouched_simps [simp]:
  "check_vouched P self userId (AuthorUnchecked reason name) H"
  "check_vouched P self userId (AuthorKnown keys anchor name) H \<longleftrightarrow> vouched P self H userId keys anchor"
  by (simp_all add: check_vouched_def)

lemma check_vouched_last [lasting_intro]: "lasting (check_vouched P self userId check)"
  unfolding check_vouched_def [abs_def] by (intro lasting_intro)

lemma resolver_vouched_last [lasting_intro]: "lasting (resolver_vouched P self rs)"
  unfolding resolver_vouched_def [abs_def] by (intro lasting_intro)

lemma reading_call_simps [simp]:
  "reading_call P self H (AskGroup g r1)" "reading_call P self H (AskKeychain g a b r2)" "reading_call P self H (AskPosts g c r3)"
  "reading_call P self H (AskPost i r4)" "reading_call P self H (AskThread i c r5)" "reading_call P self H (AskAuthor u r6)"
  "reading_call P self H (AskOwnKey r7)" "reading_call P self H (AskOwnHistory k r8)" "reading_call P self H (AskPins r9)"
  by (simp_all add: reading_call_def)

lemma own_ground_meets: "meets (reading_call P self) (\<lambda>H. True) (own_ground D) (on_ok (\<lambda>g H. ground_read H g))"
  unfolding own_ground_def
  by (intro meets_await [OF _ meets_ask] meets_await [OF _ meets_lift_ok] meets_option meets_give)
    (auto intro!: lasting_intro simp: ground_read_def on_ok_def)

lemma readGround_meets:
  "meets (reading_call P self) (resolver_vouched P self rs) (readGround D rs)
    (\<lambda>(rs', r) H. resolver_vouched P self rs' H \<and> on_ok (\<lambda>g H. ground_read H g) r H)"
  unfolding readGround_def
  by (intro meets_option meets_give meets_bind [OF resolver_vouched_last meets_pre [OF own_ground_meets]])
    (auto simp: resolver_vouched_def on_ok_def split: sum.splits)

lemma first_sight: "pin_verdict P self own history userId pin u = FirstSight \<Longrightarrow> pin = None"
  by (auto simp: pin_verdict_def evaluatePin_def Let_def split: option.splits if_splits)

lemma anchor_author_meets:
  assumes "ar_selfUserId D = self"
  shows "meets (reading_call P self) (\<lambda>H. AskAuthor userId (Inr served) \<in> H \<and> ground_read H g) (anchor_author P D g userId served username)
    (\<lambda>(check, transient). check_vouched P self userId check)"
proof -
  obtain own ps history where g: "g = (own, ps, history)" by (metis prod_cases3)
  let ?keys = "\<lparr>ak_signingPublicKey = up_signingPublicKey served, ak_keyChanges = ud_keyChanges served\<rparr>"
  let ?A = "\<lambda>H. AskAuthor userId (Inr served) \<in> H \<and> ground_read H g"
  have own: "vouched P self H userId ?keys OwnKeys" if "?A H" "userId = self" "same_own_key (up_signingPublicKey served) own" for H
    using that unfolding vouched_def g same_own_key_def
    by (intro exI [of _ served] exI [of _ own] exI [of _ ps] exI [of _ history]) (auto simp: sameBytes_eq split: option.splits)
  have pinned: "vouched P self H userId ?keys PinnedKeys"
    if "?A H" "userId \<noteq> self" "pin_verdict P self own history userId (ps userId) served = Match" for H
    using that unfolding vouched_def g by auto
  have first: "vouched P self H userId ?keys FirstSeenKeys"
    if "?A H" "userId \<noteq> self" "pin_verdict P self own history userId (ps userId) served = FirstSight"
      "servedSigningKeySet (served_keys served) = Some ks"
      "SavePin userId (map bytesToBase64 ks) (up_wrappingPublicKey served) (up_keyEpoch served) (Inr ()) \<in> H" for H ks
    using that(1,2,4,5) first_sight [OF that(3)] unfolding vouched_def g by auto
  have saved: "reading_call P self H (SavePin userId (map bytesToBase64 ks) (up_wrappingPublicKey served) (up_keyEpoch served) r)"
    if "?A H" "userId \<noteq> self" "pin_verdict P self own history userId (ps userId) served = FirstSight"
      "servedSigningKeySet (served_keys served) = Some ks" for H ks r
    using that(1,2,4) first_sight [OF that(3)] unfolding reading_call_def g by auto
  have last: "lasting ?A" by (intro lasting_intro)
  show ?thesis
    unfolding anchor_author_def Let_def g prod.case assms
    by (intro meets_if meets_give meets_option meets_attempt [OF last [unfolded g] meets_ask])
      (use own pinned first saved in \<open>auto simp: g couldNotRead_def\<close>)
qed

lemma resolve_author_meets:
  assumes "ar_selfUserId D = self"
  shows "meets (reading_call P self) (resolver_vouched P self rs) (resolve_author P D rs userId)
    (\<lambda>(rs', check, transient) H. resolver_vouched P self rs' H \<and> check_vouched P self userId check H)"
  unfolding resolve_author_def Let_def
proof (intro meets_attempt [OF _ meets_ask] meets_give meets_bind [OF _ meets_pre [OF readGround_meets]] meets_prod meets_sum
    meets_bind [OF _ meets_pre [OF anchor_author_meets [OF assms]]], goal_cases)
qed (auto simp: couldNotRead_def intro!: lasting_intro)

lemma resolveAuthor_meets:
  assumes "ar_selfUserId D = self"
  shows "meets (reading_call P self) (resolver_vouched P self rs) (resolveAuthor P D rs userId)
    (\<lambda>(rs', check) H. resolver_vouched P self rs' H \<and> check_vouched P self userId check H)"
  unfolding resolveAuthor_def
  by (intro meets_option meets_give meets_bind [OF resolver_vouched_last resolve_author_meets [OF assms]] meets_prod)
    (auto simp: resolver_vouched_def)

lemma resolve_all_meets:
  assumes "ar_selfUserId D = self"
  shows "meets (reading_call P self) (resolver_vouched P self rs) (resolve_all P D rs ids)
    (\<lambda>(rs', checks) H. resolver_vouched P self rs' H \<and> (\<forall>(i, check) \<in> set checks. check_vouched P self i check H))"
proof (induction ids arbitrary: rs)
  case (Cons i ids)
  show ?case
    unfolding resolve_all.simps
    by (intro meets_bind [OF _ resolveAuthor_meets [OF assms]] meets_prod meets_bind [OF _ meets_pre [OF Cons.IH]] meets_give)
      (auto intro!: lasting_intro)
qed (auto intro: meets_give)

section \<open>What a page shows\<close>

text \<open>What is shown of an author's item: the verdict that was computed, under keys that are vouched for.\<close>

lemma post_entries_LiveE:
  assumes "post_entries P groupId authors (LivePost p # ps) opened = Some es"
  obtains o_post os author es' where "opened = o_post # os" "authors (wl_authorUserId p) = Some author"
    "post_entries P groupId authors ps os = Some es'" "es = PostShown (post_view P groupId p o_post author) # es'"
  using assms by (cases opened) (auto split: option.splits)

lemma post_entries_shown:
  "post_entries P groupId authors posts opened = Some es \<Longrightarrow> PostShown v \<in> set es
   \<Longrightarrow> \<exists>p o_post author. LivePost p \<in> set posts \<and> (p, o_post) \<in> set (zip (live_posts posts) opened)
       \<and> authors (wl_authorUserId p) = Some author \<and> v = post_view P groupId p o_post author"
proof (induction posts arbitrary: opened es)
  case (Cons w ps)
  show ?case
  proof (cases w)
    case (LivePost p)
    with Cons.prems(1) obtain o_post os author es' where e: "opened = o_post # os" "authors (wl_authorUserId p) = Some author"
      "post_entries P groupId authors ps os = Some es'" "es = PostShown (post_view P groupId p o_post author) # es'"
      by (auto elim: post_entries_LiveE)
    consider "v = post_view P groupId p o_post author" | "PostShown v \<in> set es'" using Cons.prems(2) e(4) by auto
    then show ?thesis
    proof cases
      case 1
      with e LivePost show ?thesis by (intro exI [of _ p] exI [of _ o_post] exI [of _ author]) simp
    next
      case 2
      from Cons.IH [OF e(3) 2] show ?thesis by (auto simp: e(1) LivePost)
    qed
  next
    case (DeletedPost sortKey)
    with Cons.prems obtain es' where "post_entries P groupId authors ps opened = Some es'" "PostShown v \<in> set es'" by auto
    from Cons.IH [OF this] show ?thesis by (auto simp: DeletedPost)
  qed
qed simp

text \<open>Every served post has its entry, in the order served.\<close>

primrec entry_key :: "PostEntry \<Rightarrow> js_string" where
  "entry_key (PostShown v) = pv_sortKey v"
| "entry_key (PostDeleted sortKey day) = sortKey"

primrec wire_key :: "WirePost \<Rightarrow> js_string" where
  "wire_key (LivePost p) = wl_sortKey p"
| "wire_key (DeletedPost sortKey) = sortKey"

lemma post_entries_keys: "post_entries P groupId authors posts opened = Some es \<Longrightarrow> map entry_key es = map wire_key posts"
proof (induction posts arbitrary: opened es)
  case (Cons w ps)
  then show ?case
    by (cases w) (auto elim!: post_entries_LiveE simp: post_view_def)
qed simp

lemma comment_entries_LiveE:
  assumes "comment_entries P groupId authors (LiveComment c # cs) opened = Some es"
  obtains author es' where "authors (wc_authorUserId c) = Some author" "comment_entries P groupId authors cs (tl opened) = Some es'"
    "es = CommentShown (comment_view P groupId c (case opened of [] \<Rightarrow> Unreadable | x # xs \<Rightarrow> x) author) # es'"
  using assms by (auto simp: Let_def split: option.splits)

lemma comment_entries_shown:
  "comment_entries P groupId authors comments opened = Some es \<Longrightarrow> CommentShown v \<in> set es
   \<Longrightarrow> \<exists>c o_comment author. LiveComment c \<in> set comments
       \<and> (o_comment = Unreadable \<or> (c, o_comment) \<in> set (zip (live_comments comments) opened))
       \<and> authors (wc_authorUserId c) = Some author \<and> v = comment_view P groupId c o_comment author"
proof (induction comments arbitrary: opened es)
  case (Cons w cs)
  show ?case
  proof (cases w)
    case (LiveComment c)
    let ?o = "case opened of [] \<Rightarrow> Unreadable | x # xs \<Rightarrow> x"
    from Cons.prems(1) LiveComment obtain author es' where e: "authors (wc_authorUserId c) = Some author"
      "comment_entries P groupId authors cs (tl opened) = Some es'" "es = CommentShown (comment_view P groupId c ?o author) # es'"
      by (metis comment_entries_LiveE)
    consider "v = comment_view P groupId c ?o author" | "CommentShown v \<in> set es'" using Cons.prems(2) e(3) by auto
    then show ?thesis
    proof cases
      case 1
      with e LiveComment show ?thesis
        by (intro exI [of _ c] exI [of _ ?o] exI [of _ author]) (auto split: list.split)
    next
      case 2
      from Cons.IH [OF e(2) 2] show ?thesis by (cases opened) (auto simp: LiveComment)
    qed
  next
    case (DeletedComment path)
    with Cons.prems obtain es' where "comment_entries P groupId authors cs opened = Some es'" "CommentShown v \<in> set es'"
      by (auto simp: tombstone_def)
    from Cons.IH [OF this] show ?thesis by (auto simp: DeletedComment)
  qed
qed simp

text \<open>The worker is asked to open only with a chain that reaches every generation asked for.\<close>

lemma min_list_le: "x \<in> set xs \<Longrightarrow> min_list xs \<le> (x :: int)"
  by (induction xs rule: induct_list012) (auto simp: min_list_Min)

lemma chain_to_meets:
  "meets (reading_call P self) (\<lambda>H. True) (chain_to read groupId detail gens)
    (on_ok (\<lambda>links H. \<forall>g\<in>set gens. chain_covers g (ge_generation detail) (filter (\<lambda>l. g \<le> cl_generation l) links)))"
proof -
  have covers: "chain_covers g (ge_generation detail) (filter (\<lambda>l. g \<le> cl_generation l) links)"
    if "chain_covers (min_list gens) (ge_generation detail) links" "g \<in> set gens" for g links
  proof -
    have "set (map cl_generation (filter (\<lambda>l. g \<le> cl_generation l) links)) = set (map cl_generation links) \<inter> {g..}" by auto
    with that min_list_le [OF that(2)] show ?thesis
      by (auto simp: chain_covers_def distinct_map intro: inj_on_subset)
  qed
  show ?thesis
    unfolding chain_to_def Let_def
  proof (intro meets_if meets_bind [OF lasting_pure [of True] meets_pre [OF fetchNameChain_meets]] meets_give, goal_cases)
    case (3 chain H)
    then show ?case
      by (cases chain) (auto simp: on_ok_def intro: covers)
  next
    case (4 H)
    then show ?case
      using min_list_le [of _ gens] by (fastforce simp: on_ok_def chain_covers_def)
  qed simp_all
qed

definition opened_post :: "js_string \<Rightarrow> js_string \<Rightarrow> page_call set \<Rightarrow> WireLivePost \<Rightarrow> PostContent opened \<Rightarrow> bool" where
  "opened_post self groupId H p o_post \<longleftrightarrow> (\<exists>entry stored opened. AskOpenPosts self entry stored (Inr opened) \<in> H
     \<and> me_groupId entry = groupId \<and> (stored_post p, o_post) \<in> set (zip stored opened))"

lemma opened_post_last [lasting_intro]: "lasting (\<lambda>H. opened_post self groupId H p o_post)"
  unfolding opened_post_def by (intro lasting_intro)

lemma openAll_meets:
  assumes "ar_selfUserId D = self"
  shows "meets (reading_call P self) (\<lambda>H. True) (openAll D detail wrapped groupId posts)
    (on_ok (\<lambda>opened H. \<forall>(p, o_post) \<in> set (zip posts opened). opened_post self groupId H p o_post))"
proof -
  have zipped: "opened_post self groupId H p o_post"
    if "AskOpenPosts self (page_entry groupId detail wrapped links) (map stored_post posts) (Inr opened) \<in> H"
      "(p, o_post) \<in> set (zip posts opened)" for H p o_post links opened
  proof -
    have "(stored_post p, o_post) \<in> set (zip (map stored_post posts) opened)"
      using that(2) by (force simp: zip_map1)
    with that(1) show ?thesis unfolding opened_post_def by (force simp: page_entry_def)
  qed
  show ?thesis
    unfolding openAll_def Let_def assms
    by (intro meets_if meets_give meets_bind [OF lasting_pure meets_pre [OF chain_to_meets]] meets_sum
        meets_attempt [OF _ meets_ask])
      (auto simp: reading_call_def page_entry_def [of groupId] stored_post_def intro!: lasting_intro zipped)
qed

definition post_backed :: "prims \<Rightarrow> js_string \<Rightarrow> js_string \<Rightarrow> WirePost list \<Rightarrow> PostView \<Rightarrow> page_call set \<Rightarrow> bool" where
  "post_backed P self groupId posts v H \<longleftrightarrow> (\<exists>p o_post author. LivePost p \<in> set posts \<and> opened_post self groupId H p o_post
     \<and> check_vouched P self (wl_authorUserId p) author H \<and> v = post_view P groupId p o_post author)"

lemma post_backed_last [lasting_intro]: "lasting (post_backed P self groupId posts v)"
  unfolding post_backed_def [abs_def] by (intro lasting_intro)

definition entries_backed :: "prims \<Rightarrow> js_string \<Rightarrow> js_string \<Rightarrow> WirePost list \<Rightarrow> PostEntry list \<Rightarrow> page_call set \<Rightarrow> bool" where
  "entries_backed P self groupId posts es H \<longleftrightarrow>
     map entry_key es = map wire_key posts \<and> (\<forall>v. PostShown v \<in> set es \<longrightarrow> post_backed P self groupId posts v H)"

lemma viewsOf_meets:
  assumes "ar_selfUserId D = self"
  shows "meets (reading_call P self) (resolver_vouched P self rs) (viewsOf P D rs groupId detail wrapped posts)
    (\<lambda>(rs', r) H. resolver_vouched P self rs' H \<and> on_ok (on_ok (entries_backed P self groupId posts)) r H)"
proof -
  have entries: "entries_backed P self groupId posts es H"
    if "\<forall>(p, o_post) \<in> set (zip (live_posts posts) opened). opened_post self groupId H p o_post"
      "\<forall>(i, check) \<in> set authors. check_vouched P self i check H"
      "post_entries P groupId (map_of authors) posts opened = Some es" for opened authors es H
    unfolding entries_backed_def post_backed_def
    using post_entries_shown [OF that(3)] post_entries_keys [OF that(3)] that(1,2) by (fastforce dest: map_of_SomeD)
  show ?thesis
    unfolding viewsOf_def Let_def
    by (intro meets_bind [OF resolver_vouched_last meets_pre [OF openAll_meets [OF assms]]] meets_sum meets_give
        meets_bind [OF _ meets_pre [OF resolve_all_meets [OF assms]]] meets_prod)
      (auto simp: on_ok_def split: option.split intro!: lasting_intro entries)
qed

lemma asked_both:
  assumes "\<And>r H. J H (e1 r)" "\<And>r H. J H (e2 r)"
  shows "meets J A (both (ask a1 e1) (ask a2 e2)) (on_ok (\<lambda>(x, y) H. e1 (Inr x) \<in> H \<and> e2 (Inr y) \<in> H))"
proof -
  have "meets J (\<lambda>H. True) (both (ask a1 e1) (ask a2 e2)) (on_ok (\<lambda>(x, y) H. e1 (Inr x) \<in> H \<and> e2 (Inr y) \<in> H))"
    unfolding both_def
    by (intro meets_bind [OF lasting_pure meets_ask] meets_bind [OF _ meets_ask] meets_give)
      (auto simp: assms on_ok_def split: sum.split intro!: lasting_intro)
  then show ?thesis by (rule meets_pre) simp
qed

lemma loadPostsPage_meets:
  assumes "ar_selfUserId D = self"
  shows "meets (reading_call P self) (resolver_vouched P self rs) (loadPostsPage P D rs groupId cursor)
    (\<lambda>(rs', r) H. resolver_vouched P self rs' H \<and> on_ok (on_ok (\<lambda>page H. \<exists>res views. AskPosts groupId cursor (Inr res) \<in> H
       \<and> entries_backed P self groupId (lp_posts res) views H \<and> pg_posts page = orderWithinDays views)) r H)"
  unfolding loadPostsPage_def
  by (intro meets_attempt_ok [OF resolver_vouched_last asked_both] meets_give meets_prod meets_option
      meets_bind [OF _ meets_pre [OF viewsOf_meets [OF assms]]])
    (auto simp: on_ok_def split: sum.splits intro!: lasting_intro)

lemma loadPost_meets:
  assumes "ar_selfUserId D = self"
  shows "meets (reading_call P self) (resolver_vouched P self rs) (loadPost P D rs groupId postId)
    (\<lambda>(rs', r) H. resolver_vouched P self rs' H)"
  unfolding loadPost_def
  by (intro meets_attempt_ok [OF resolver_vouched_last asked_both] meets_give meets_prod meets_option
      meets_bind [OF _ meets_pre [OF viewsOf_meets [OF assms]]])
    (auto simp: on_ok_def split: sum.splits intro!: lasting_intro)

section \<open>What a thread shows\<close>

definition opened_comment :: "js_string \<Rightarrow> js_string \<Rightarrow> js_string \<Rightarrow> page_call set \<Rightarrow> WireLiveComment \<Rightarrow> CommentContent opened \<Rightarrow> bool" where
  "opened_comment self groupId postId H c o_comment \<longleftrightarrow> (\<exists>entry stored opened. AskOpenComments self entry postId stored (Inr opened) \<in> H
     \<and> me_groupId entry = groupId \<and> (stored_comment c, o_comment) \<in> set (zip stored opened))"

lemma opened_comment_last [lasting_intro]: "lasting (\<lambda>H. opened_comment self groupId postId H c o_comment)"
  unfolding opened_comment_def by (intro lasting_intro)

definition comment_backed :: "prims \<Rightarrow> js_string \<Rightarrow> js_string \<Rightarrow> js_string \<Rightarrow> WireComment list \<Rightarrow> CommentView \<Rightarrow> page_call set \<Rightarrow> bool" where
  "comment_backed P self groupId postId comments v H \<longleftrightarrow> (\<exists>c o_comment author. LiveComment c \<in> set comments
     \<and> (o_comment = Unreadable \<or> opened_comment self groupId postId H c o_comment)
     \<and> check_vouched P self (wc_authorUserId c) author H \<and> v = comment_view P groupId c o_comment author)"

lemma comment_backed_last [lasting_intro]: "lasting (comment_backed P self groupId postId comments v)"
  unfolding comment_backed_def [abs_def] by (intro lasting_intro)

lemma open_comments_meets:
  assumes "ar_selfUserId D = self" "me_groupId entry = groupId"
  shows "meets (reading_call P self) (\<lambda>H. True) (open_comments D entry postId wire)
    (on_ok (\<lambda>opened H. \<forall>(c, o_comment) \<in> set (zip wire opened). opened_comment self groupId postId H c o_comment))"
proof -
  have zipped: "opened_comment self groupId postId H c o_comment"
    if "AskOpenComments self entry postId (map stored_comment wire) (Inr opened) \<in> H" "(c, o_comment) \<in> set (zip wire opened)"
    for H c o_comment opened
  proof -
    have "(stored_comment c, o_comment) \<in> set (zip (map stored_comment wire) opened)"
      using that(2) by (force simp: zip_map1)
    with that(1) assms(2) show ?thesis unfolding opened_comment_def by blast
  qed
  show ?thesis
    unfolding open_comments_def Let_def assms(1)
    by (intro meets_if meets_give meets_attempt [OF _ meets_ask])
      (auto simp: reading_call_def intro!: lasting_intro zipped)
qed

lemma open_reactions_meets:
  assumes "ar_selfUserId D = self"
  shows "meets (reading_call P self) (\<lambda>H. True) (open_reactions D entry postId wire) (\<lambda>r H. True)"
  unfolding open_reactions_def Let_def assms
  by (intro meets_if meets_give meets_attempt [OF _ meets_ask]) (auto simp: reading_call_def intro!: lasting_intro)

text \<open>What is shown of a thread: comments that are backed, and reactions that have a place.\<close>

definition thread_backed :: "prims \<Rightarrow> js_string \<Rightarrow> js_string \<Rightarrow> js_string \<Rightarrow> ThreadResponse \<Rightarrow> ThreadPage \<Rightarrow> page_call set \<Rightarrow> bool" where
  "thread_backed P self groupId postId res page H \<longleftrightarrow>
     (\<forall>v. CommentShown v \<in> set (tp_comments page) \<longrightarrow> comment_backed P self groupId postId (tr_comments res) v H)
     \<and> map xv_target (tp_reactions page) = map wx_target (placed_reactions res)"

lemma reaction_views_targets: "map xv_target (reaction_views xs opened) = map wx_target xs"
  by (induction xs opened rule: reaction_views.induct) (simp_all add: reaction_view_def)

lemma read_thread_meets:
  assumes "ar_selfUserId D = self"
  shows "meets (reading_call P self) (resolver_vouched P self rs) (read_thread P D rs groupId postId detail wrapped res)
    (\<lambda>(rs', r) H. resolver_vouched P self rs' H \<and> on_ok (on_ok (thread_backed P self groupId postId res)) r H)"
proof -
  have entries: "thread_backed P self groupId postId res
      \<lparr>tp_comments = es, tp_reactions = reaction_views (placed_reactions res) reactions, tp_nextCursor = cursor\<rparr> H"
    if "\<forall>(c, o_comment) \<in> set (zip (live_comments (tr_comments res)) opened). opened_comment self groupId postId H c o_comment"
      "\<forall>(i, check) \<in> set authors. check_vouched P self i check H"
      "comment_entries P groupId (map_of authors) (tr_comments res) opened = Some es" for opened authors es reactions cursor H
    unfolding thread_backed_def comment_backed_def
    using comment_entries_shown [OF that(3)] that(1,2) by (fastforce dest: map_of_SomeD simp: reaction_views_targets)
  show ?thesis
    unfolding read_thread_def Let_def
    by (intro meets_bind [OF resolver_vouched_last meets_pre [OF chain_to_meets]] meets_sum meets_give
        meets_bind [OF _ meets_pre [OF open_comments_meets [OF assms]]] meets_bind [OF _ meets_pre [OF open_reactions_meets [OF assms]]]
        meets_bind [OF _ meets_pre [OF resolve_all_meets [OF assms]]] meets_prod)
      (auto simp: on_ok_def page_entry_def split: option.split sum.splits intro!: lasting_intro entries)
qed

lemma loadThreadPage_meets:
  assumes "ar_selfUserId D = self"
  shows "meets (reading_call P self) (resolver_vouched P self rs) (loadThreadPage P D rs groupId postId cursor)
    (\<lambda>(rs', r) H. resolver_vouched P self rs' H \<and> on_ok (on_ok (\<lambda>page H. groupOfPostId postId = Some groupId
       \<and> (\<exists>res. AskThread postId cursor (Inr res) \<in> H \<and> thread_backed P self groupId postId res page H))) r H)"
proof -
  have "thread_backed P self groupId postId res
      \<lparr>tp_comments = map (tombstone \<circ> comment_path) cs, tp_reactions = [], tp_nextCursor = next_cursor\<rparr> H"
    if "placed_reactions res = []" for res cs next_cursor H
    using that by (auto simp: thread_backed_def tombstone_def)
  then show ?thesis
    unfolding loadThreadPage_def
    by (intro meets_if meets_attempt_ok [OF resolver_vouched_last asked_both] meets_give meets_prod meets_option
        meets_keeps [OF meets_pre [OF read_thread_meets [OF assms]]])
      (auto simp: on_ok_def split: sum.splits intro!: lasting_intro)
qed

section \<open>What a valid signature is over\<close>

text \<open>The signed form of a served row, under the keys of its author.\<close>

definition posted_item :: "js_string \<Rightarrow> WireLivePost \<Rightarrow> AuthorKeys \<Rightarrow> SignedItem" where
  "posted_item groupId p keys = \<lparr>si_groupId = groupId, si_authorUserId = wl_authorUserId p, si_sortKey = wl_sortKey p,
     si_generation = wl_generation p, si_ciphertext = sl_ciphertext (wl_sealed p), si_signature = wl_signature p,
     si_author = Some keys\<rparr>"

definition commented_item :: "js_string \<Rightarrow> WireLiveComment \<Rightarrow> AuthorKeys \<Rightarrow> SignedItem" where
  "commented_item groupId c keys = \<lparr>si_groupId = groupId, si_authorUserId = wc_authorUserId c, si_sortKey = js ''CMT#'' @ wc_path c,
     si_generation = wc_generation c, si_ciphertext = sl_ciphertext (wc_sealed c), si_signature = wc_signature c,
     si_author = Some keys\<rparr>"

lemma post_view_fields [simp]:
  "pv_sortKey (post_view P groupId p o_post author) = wl_sortKey p"
  "pv_authorUserId (post_view P groupId p o_post author) = wl_authorUserId p"
  "pv_content (post_view P groupId p o_post author) = ShownPost c suspect \<Longrightarrow> o_post = Opened c"
  by (simp_all add: post_view_def split: opened.splits)

lemma post_view_valid:
  assumes "pv_signature (post_view P groupId p o_post author) = ValidSignature"
  shows "\<exists>keys anchor name day history key. author = AuthorKnown keys anchor name
    \<and> pv_keyAnchor (post_view P groupId p o_post author) = Some anchor \<and> signed_item P (posted_item groupId p keys) day Post history key"
proof (cases author)
  case (AuthorKnown keys anchor name)
  then have "checkPostSignature P (posted_item groupId p keys) (wl_signedDay p) = ValidSignature"
    using assms by (simp add: post_view_def posted_item_def)
  then have "\<exists>day. checkSignedItem P (posted_item groupId p keys) day Post = ValidSignature"
    by (auto simp: checkPostSignature_def split: option.splits if_splits)
  with AuthorKnown show ?thesis by (simp add: checkSignedItem_valid) (simp add: post_view_def)
next
  case AuthorUnchecked
  with assms show ?thesis by (simp add: post_view_def)
qed

lemma comment_view_fields [simp]:
  "cv_path (comment_view P groupId c o_comment author) = wc_path c"
  "cv_authorUserId (comment_view P groupId c o_comment author) = wc_authorUserId c"
  "cv_content (comment_view P groupId c o_comment author) = ShownComment x suspect \<Longrightarrow> o_comment = Opened x"
  by (simp_all add: comment_view_def Let_def split: opened.splits if_splits)

lemma comment_view_valid:
  assumes "cv_signature (comment_view P groupId c o_comment author) = ValidSignature"
  shows "0 < commentDepth (wc_path c) \<and> (\<exists>keys anchor name history key. author = AuthorKnown keys anchor name
    \<and> cv_keyAnchor (comment_view P groupId c o_comment author) = Some anchor
    \<and> signed_item P (commented_item groupId c keys) (wc_signedDay c) Comment history key)"
proof (cases author)
  case (AuthorKnown keys anchor name)
  from assms have depth: "0 < commentDepth (wc_path c)"
    by (simp add: comment_view_def Let_def split: if_splits)
  have "checkSignedItem P (commented_item groupId c keys) (wc_signedDay c) Comment = ValidSignature"
    using assms by (simp add: comment_view_def commented_item_def checkCommentSignature_def AuthorKnown Let_def split: if_splits)
  with depth AuthorKnown show ?thesis by (simp add: checkSignedItem_valid) (simp add: comment_view_def)
next
  case AuthorUnchecked
  with assms show ?thesis by (simp add: comment_view_def Let_def split: if_splits)
qed

end
