(* ===== verification/Reading_Order.thy ===== *)
theory Reading_Order
  imports Reading_Run
begin

text \<open>
  routes/runListPosts.ts: the order of a page.  The loop that splits it at the day changes and the comparison the engine sorts each
  day with amount to the order a reader is told of.
\<close>

section \<open>Sorting by a comparison\<close>

lemma mset_js_sort: "mset (js_sort cmp xs) = mset xs"
proof -
  have "mset (insert_by cmp x ys) = add_mset x (mset ys)" for x ys
    by (induction ys) auto
  then show ?thesis by (induction xs) (simp_all add: js_sort_def)
qed

lemma set_js_sort: "set (js_sort cmp xs) = set xs"
  by (metis mset_js_sort set_mset_mset)

lemma sorted_js_sort:
  assumes "\<And>x y. cmp x y \<le> 0 \<or> cmp y x \<le> (0 :: int)" "\<And>x y z. cmp x y \<le> 0 \<Longrightarrow> cmp y z \<le> 0 \<Longrightarrow> cmp x z \<le> 0"
  shows "sorted_wrt (\<lambda>x y. cmp x y \<le> 0) (js_sort cmp xs)"
proof -
  have set_insert: "set (insert_by cmp x ys) = insert x (set ys)" for x ys
    by (induction ys) auto
  have "sorted_wrt (\<lambda>x y. cmp x y \<le> 0) (insert_by cmp x ys)" if "sorted_wrt (\<lambda>x y. cmp x y \<le> 0) ys" for x ys
    using that assms(1) [of x] assms(2) [of x] by (induction ys) (auto simp: set_insert)
  then show ?thesis by (induction xs) (simp_all add: js_sort_def)
qed

text \<open>Two lists of the same elements that an antisymmetric order sorts are the same.\<close>

lemma sorted_wrt_unique:
  assumes "mset xs = mset ys" "sorted_wrt R xs" "sorted_wrt R ys"
    and "\<And>x y. x \<in> set xs \<Longrightarrow> y \<in> set xs \<Longrightarrow> R x y \<Longrightarrow> R y x \<Longrightarrow> x = y"
  shows "xs = ys"
  using assms
proof (induction xs arbitrary: ys)
  case (Cons x xs)
  then obtain y zs where ys: "ys = y # zs" by (cases ys) auto
  from Cons.prems(1) have sets: "set (x # xs) = set ys" by (metis set_mset_mset)
  have "x = y"
  proof (rule ccontr)
    assume "x \<noteq> y"
    with sets ys have "y \<in> set xs" "x \<in> set zs" by auto
    with Cons.prems(2,3) ys have "R x y" "R y x" by auto
    with \<open>x \<noteq> y\<close> \<open>y \<in> set xs\<close> show False using Cons.prems(4) [of x y] by simp
  qed
  with Cons.prems ys show ?case by (auto intro!: Cons.IH)
qed simp

section \<open>One day\<close>

definition written_at :: "PostEntry \<Rightarrow> js_string" where
  "written_at v = (case entry_at v of None \<Rightarrow> [] | Some at \<Rightarrow> at)"

text \<open>Stable, newest first: ties keep the order served.\<close>

definition newest_first :: "PostEntry list \<Rightarrow> PostEntry list" where
  "newest_first vs = rev (sort_key written_at (rev vs))"

text \<open>Posts with a trusted time newest first, then those whose time is suspect, the unreadable ones and the deleted ones.\<close>

definition day_in_order :: "PostEntry list \<Rightarrow> PostEntry list" where
  "day_in_order g = newest_first (filter (\<lambda>v. trustRank v = 0) g)
     @ filter (\<lambda>v. trustRank v = 1) g @ filter (\<lambda>v. trustRank v = 2) g @ filter (\<lambda>v. trustRank v = 3) g"

lemma trustRank_cases: "trustRank v = 0 \<or> trustRank v = 1 \<or> trustRank v = 2 \<or> trustRank v = 3"
  by (cases v) (auto split: ShownContent.split)

lemma day_compare_le:
  "day_compare (a, i) (b, j) \<le> 0 \<longleftrightarrow> trustRank a < trustRank b
     \<or> trustRank a = trustRank b \<and> (if trustRank a = 0 then written_at b < written_at a \<or> written_at a = written_at b \<and> i \<le> j else i \<le> j)"
proof (cases "trustRank a = trustRank b \<and> trustRank a = 0")
  case True
  have timed: "\<exists>at. entry_at v = Some at" if "trustRank v = 0" for v
    using that by (cases v) (auto split: ShownContent.splits)
  from True timed [of a] timed [of b] obtain x y where "entry_at a = Some x" "entry_at b = Some y" by auto
  with True show ?thesis
    by (auto simp: day_compare_def written_at_def not_less_iff_gr_or_eq)
next
  case False
  then show ?thesis
    by (auto simp: day_compare_def split: option.split)
qed

abbreviation day_le :: "PostEntry \<times> nat \<Rightarrow> PostEntry \<times> nat \<Rightarrow> bool" where
  "day_le x y \<equiv> day_compare x y \<le> 0"

lemma day_le_total: "day_le x y \<or> day_le y x"
  by (cases x; cases y) (auto simp: day_compare_le)

lemma newer_trans:
  fixes u v w :: "'a::linorder"
  shows "v < u \<or> u = v \<and> i \<le> j \<Longrightarrow> w < v \<or> v = w \<and> j \<le> k \<Longrightarrow> w < u \<or> u = w \<and> i \<le> (k :: nat)"
  by (auto intro: order.strict_trans)

lemma day_le_trans: "day_le x y \<Longrightarrow> day_le y z \<Longrightarrow> day_le x z"
proof -
  obtain a i b j c k where [simp]: "x = (a, i)" "y = (b, j)" "z = (c, k)" by (metis surj_pair)
  assume xy: "day_le x y" and yz: "day_le y z"
  then have "trustRank a < trustRank c \<or> trustRank a = trustRank b \<and> trustRank b = trustRank c"
    by (auto simp: day_compare_le)
  then show "day_le x z"
  proof
    assume "trustRank a < trustRank c"
    then show ?thesis by (simp add: day_compare_le)
  next
    assume eq: "trustRank a = trustRank b \<and> trustRank b = trustRank c"
    show ?thesis
    proof (cases "trustRank a = 0")
      case True
      with xy yz eq newer_trans [of "written_at b" "written_at a" i j "written_at c" k] show ?thesis
        by (simp add: day_compare_le)
    next
      case False
      with xy yz eq show ?thesis by (simp add: day_compare_le)
    qed
  qed
qed

lemma day_le_antisym: "day_le x y \<Longrightarrow> day_le y x \<Longrightarrow> snd x = snd y"
proof -
  obtain a i b j where [simp]: "x = (a, i)" "y = (b, j)" by (metis surj_pair)
  assume xy: "day_le x y" and yx: "day_le y x"
  then have eq: "trustRank a = trustRank b" by (auto simp: day_compare_le)
  show ?thesis
  proof (cases "trustRank a = 0")
    case True
    with eq xy yx have "written_at b < written_at a \<or> written_at a = written_at b \<and> i \<le> j"
      "written_at a < written_at b \<or> written_at b = written_at a \<and> j \<le> i" by (simp_all add: day_compare_le)
    then show ?thesis by (auto dest: order.strict_trans)
  next
    case False
    with eq xy yx show ?thesis by (simp add: day_compare_le)
  qed
qed

text \<open>The reference order, on posts numbered as they were served.\<close>

lemma sorted_newest:
  fixes f :: "'a \<Rightarrow> 'k::linorder" and n :: "'a \<Rightarrow> nat"
  assumes "sorted_wrt (\<lambda>x y. n y < n x) xs"
  shows "sorted_wrt (\<lambda>x y. f x < f y \<or> f x = f y \<and> n y < n x) (sort_key f xs)"
  using assms
proof (induction xs)
  case (Cons x xs)
  have "sorted_wrt (\<lambda>x y. f x < f y \<or> f x = f y \<and> n y < n x) (insort_key f x ys)"
    if "sorted_wrt (\<lambda>x y. f x < f y \<or> f x = f y \<and> n y < n x) ys" "\<forall>y\<in>set ys. n y < n x" for ys
    using that
  proof (induction ys)
    case (Cons y ys)
    then show ?case by (auto simp: set_insort_key)
  qed simp
  with Cons show ?case by simp
qed simp

definition numbered :: "PostEntry list \<Rightarrow> (PostEntry \<times> nat) list" where
  "numbered g = zip g [0..<length g]"

definition numbered_order :: "(PostEntry \<times> nat) list \<Rightarrow> (PostEntry \<times> nat) list" where
  "numbered_order g = rev (sort_key (written_at \<circ> fst) (rev (filter (\<lambda>x. trustRank (fst x) = 0) g)))
     @ filter (\<lambda>x. trustRank (fst x) = 1) g @ filter (\<lambda>x. trustRank (fst x) = 2) g @ filter (\<lambda>x. trustRank (fst x) = 3) g"

lemma map_fst_insort: "map fst (insort_key (k \<circ> fst) x xs) = insort_key k (fst x) (map fst xs)"
  by (induction xs) auto

lemma map_fst_sort: "map fst (sort_key (k \<circ> fst) xs) = sort_key k (map fst xs)"
  by (induction xs) (simp_all add: map_fst_insort [unfolded comp_def] comp_def)

lemma map_fst_numbered_order: "map fst (numbered_order (numbered g)) = day_in_order g"
proof -
  have same: "map fst (filter (\<lambda>x. trustRank (fst x) = r) (numbered g)) = filter (\<lambda>v. trustRank v = r) g" for r
  proof -
    have "map fst (filter ((\<lambda>v. trustRank v = r) \<circ> fst) (numbered g)) = filter (\<lambda>v. trustRank v = r) (map fst (numbered g))"
      by (simp add: filter_map)
    then show ?thesis by (simp add: numbered_def comp_def)
  qed
  show ?thesis
    by (simp only: numbered_order_def day_in_order_def newest_first_def map_append rev_map [symmetric] map_fst_sort same)
qed

lemma numbered_increasing: "sorted_wrt (\<lambda>x y. snd x < snd y) (numbered g)"
  by (simp add: sorted_wrt_iff_nth_less numbered_def)

lemma mset_numbered_order: "mset (numbered_order g) = mset g"
proof (induction g)
  case (Cons x g)
  then show ?case
    using trustRank_cases [of "fst x"] by (auto simp: numbered_order_def)
qed (simp add: numbered_order_def)

lemma sorted_numbered_order: "sorted_wrt day_le (numbered_order (numbered g))"
proof -
  have increasing: "sorted_wrt (\<lambda>x y. snd x < snd y) (filter Q (numbered g))" for Q
    by (rule sorted_wrt_filter [OF numbered_increasing])
  have "sorted_wrt (\<lambda>x y. written_at (fst x) < written_at (fst y) \<or> written_at (fst x) = written_at (fst y) \<and> snd y < snd x)
      (sort_key (written_at \<circ> fst) (rev (filter (\<lambda>x. trustRank (fst x) = 0) (numbered g))))"
    using sorted_newest [of snd "rev (filter (\<lambda>x. trustRank (fst x) = 0) (numbered g))" "written_at \<circ> fst"] increasing
    by (simp add: sorted_wrt_rev)
  then have trusted: "sorted_wrt day_le (rev (sort_key (written_at \<circ> fst) (rev (filter (\<lambda>x. trustRank (fst x) = 0) (numbered g)))))"
    unfolding sorted_wrt_rev
    by (rule sorted_wrt_mono_rel [rotated]) (auto simp: day_compare_le)
  have others: "sorted_wrt day_le (filter (\<lambda>x. trustRank (fst x) = r) (numbered g))" if "r \<noteq> 0" for r
    by (rule sorted_wrt_mono_rel [OF _ increasing]) (use that in \<open>auto simp: day_compare_le\<close>)
  show ?thesis
    unfolding numbered_order_def sorted_wrt_append
    using trusted others by (auto simp: day_compare_le)
qed

lemma order_day_exact: "order_day g = day_in_order g"
proof -
  have inj: "x = y" if "x \<in> set (numbered g)" "y \<in> set (numbered g)" "snd x = snd y" for x y
    using that by (auto simp: numbered_def in_set_zip prod_eq_iff)
  have "js_sort day_compare (numbered g) = numbered_order (numbered g)"
  proof (rule sorted_wrt_unique [where R = day_le])
    show "sorted_wrt day_le (js_sort day_compare (numbered g))"
      by (rule sorted_js_sort [OF day_le_total]) (rule day_le_trans)
    show "x = y" if "x \<in> set (js_sort day_compare (numbered g))" "y \<in> set (js_sort day_compare (numbered g))"
      "day_le x y" "day_le y x" for x y
      using inj that(1,2) day_le_antisym [OF that(3,4)] by (simp add: set_js_sort)
  qed (simp_all add: mset_js_sort mset_numbered_order sorted_numbered_order)
  then show ?thesis
    unfolding order_day_def numbered_def [symmetric] by (simp add: map_fst_numbered_order)
qed

section \<open>The days\<close>

text \<open>The runs of posts of one day, in the order served.\<close>

function day_runs :: "PostEntry list \<Rightarrow> PostEntry list list" where
  "day_runs [] = []"
| "day_runs (v # vs) = (v # takeWhile (\<lambda>w. entry_day w = entry_day v) vs) # day_runs (dropWhile (\<lambda>w. entry_day w = entry_day v) vs)"
  by pat_completeness auto
termination by (relation "measure length") (auto simp: le_imp_less_Suc length_dropWhile_le)

lemma add_days_step: "g \<noteq> [] \<Longrightarrow> add_to_days (ds @ [g]) v = (if entry_day (hd g) = entry_day v then ds @ [g @ [v]] else ds @ [g, [v]])"
  by (simp add: add_to_days_def)

lemma days_run:
  "g \<noteq> [] \<Longrightarrow> foldl add_to_days (ds @ [g]) vs =
     ds @ (g @ takeWhile (\<lambda>w. entry_day w = entry_day (hd g)) vs) # day_runs (dropWhile (\<lambda>w. entry_day w = entry_day (hd g)) vs)"
proof (induction vs arbitrary: ds g)
  case (Cons v vs)
  show ?case
  proof (cases "entry_day (hd g) = entry_day v")
    case True
    with Cons.prems have "foldl add_to_days (ds @ [g]) (v # vs) = foldl add_to_days (ds @ [g @ [v]]) vs"
      by (simp add: add_days_step)
    with Cons.IH [of "g @ [v]" ds] True Cons.prems show ?thesis by simp
  next
    case False
    with Cons.prems have "foldl add_to_days (ds @ [g]) (v # vs) = foldl add_to_days ((ds @ [g]) @ [[v]]) vs"
      by (simp add: add_days_step)
    with Cons.IH [of "[v]" "ds @ [g]"] False show ?thesis by auto
  qed
qed simp

lemma days_exact: "foldl add_to_days [] vs = day_runs vs"
proof (cases vs)
  case (Cons v ws)
  have "foldl add_to_days [] (v # ws) = foldl add_to_days ([] @ [[v]]) ws"
    by (simp add: add_to_days_def)
  with days_run [of "[v]" "[]" ws] Cons show ?thesis by simp
qed simp

lemma concat_day_runs: "concat (day_runs vs) = vs"
  by (induction vs rule: day_runs.induct) simp_all

text \<open>Nothing is dropped or added.\<close>

lemma mset_orderWithinDays: "mset (orderWithinDays vs) = mset vs"
proof -
  have "mset (order_day g) = mset g" for g
  proof -
    have "mset (order_day g) = image_mset fst (mset (numbered g))"
      by (simp add: order_day_def numbered_def mset_js_sort)
    also have "\<dots> = mset (map fst (numbered g))" by simp
    finally show ?thesis by (simp add: numbered_def)
  qed
  then have "mset (concat (map order_day gs)) = mset (concat gs)" for gs
    by (induction gs) simp_all
  then show ?thesis by (simp add: orderWithinDays_def days_exact concat_day_runs)
qed

text \<open>
  C17: the order of a page of posts.  Sorting each run of one day with the screen's comparison gives the order a reader is told
  of, and nothing is dropped: the days as served, and inside a day the posts whose time is trusted newest first, ties
  as served, then those whose time is suspect, the unreadable and the deleted ones, each as served.
\<close>

theorem orderWithinDays_exact:
  "orderWithinDays views = concat (map day_in_order (day_runs views)) \<and> mset (orderWithinDays views) = mset views"
proof
  have "map order_day = map day_in_order" by (simp add: order_day_exact [abs_def])
  then show "orderWithinDays views = concat (map day_in_order (day_runs views))"
    unfolding orderWithinDays_def days_exact by simp
qed (rule mset_orderWithinDays)

end
