(* ===== verification/Reading_Properties.thy ===== *)
theory Reading_Properties
  imports Reading_Checks Reading_Order Rotation_Sample Pin_Properties
begin

text \<open>
  routes/runListPosts.ts and routes/runLoadThread.ts: what stands behind a post or a comment that a reader is shown.
\<close>

section \<open>A visit\<close>

text \<open>
  What a resolver of authors remembers comes from any pages, posts and threads read before, of any group, with any
  outcome.
\<close>

inductive readings :: "prims \<Rightarrow> js_string \<Rightarrow> Resolver \<Rightarrow> page_call list \<Rightarrow> bool" for P self where
  new_resolver: "readings P self makeAuthorResolver []"
| read_page: "readings P self rs h \<Longrightarrow> ar_selfUserId D = self \<Longrightarrow> run_state (loadPostsPage P (D :: ListPostsDeps) rs groupId cursor) h = ((rs', r), h')
    \<Longrightarrow> readings P self rs' h'"
| read_post: "readings P self rs h \<Longrightarrow> ar_selfUserId D' = self \<Longrightarrow> run_state (loadPost P (D' :: ListPostsDeps) rs groupId postId) h = ((rs', r'), h')
    \<Longrightarrow> readings P self rs' h'"
| read_thread_page: "readings P self rs h \<Longrightarrow> ar_selfUserId D'' = self
    \<Longrightarrow> run_state (loadThreadPage P (D'' :: LoadThreadDeps) rs groupId postId cursor) h = ((rs', r''), h') \<Longrightarrow> readings P self rs' h'"

lemma readings_vouched:
  "readings P self rs h \<Longrightarrow> justified (reading_call P self) h \<and> resolver_vouched P self rs (set h)"
proof (induction rule: readings.induct)
  case new_resolver
  show ?case by (simp add: resolver_vouched_def makeAuthorResolver_def)
next
  case (read_page rs h D groupId cursor rs' r h')
  then show ?case
    using ends_run [OF read_page.hyps(3) meetsD [OF loadPostsPage_meets]] by blast
next
  case (read_post rs h D' groupId postId rs' r' h')
  then show ?case
    using ends_run [OF read_post.hyps(3) meetsD [OF loadPost_meets]] by blast
next
  case (read_thread_page rs h D'' groupId postId cursor rs' r'' h')
  then show ?case
    using ends_run [OF read_thread_page.hyps(3) meetsD [OF loadThreadPage_meets]] by blast
qed

text \<open>
  C16: what stands behind a post that is shown.  However much was read before, and whatever the server answers: every served post
  has one entry on the page, and no other has; a text shown is what the worker opened of the row served; and a post
  shown as validly signed is signed, over its own place and bytes, by a key of its author that was current on the signing day, in
  the key history served for that author, whose keys are the caller's own, match the pin the caller signed, or were seen for the
  first time and saved.
\<close>

theorem shown_post_is_vouched_for:
  assumes "readings P self rs h" "ar_selfUserId D = self"
    and "run_state (loadPostsPage P D rs groupId cursor) h = ((rs', Inr (Inr page)), h')"
  shows "\<exists>res. AskPosts groupId cursor (Inr res) \<in> set h'
    \<and> mset (map entry_key (pg_posts page)) = mset (map wire_key (lp_posts res))
    \<and> (\<forall>v. PostShown v \<in> set (pg_posts page) \<longrightarrow> (\<exists>p. LivePost p \<in> set (lp_posts res)
         \<and> pv_sortKey v = wl_sortKey p \<and> pv_authorUserId v = wl_authorUserId p
         \<and> (\<forall>c suspect. pv_content v = ShownPost c suspect \<longrightarrow> opened_post self groupId (set h') p (Opened c))
         \<and> (pv_signature v = ValidSignature \<longrightarrow> (\<exists>keys anchor day history key.
              pv_keyAnchor v = Some anchor \<and> vouched P self (set h') (wl_authorUserId p) keys anchor
              \<and> signed_item P (posted_item groupId p keys) day Post history key))))"
proof -
  from readings_vouched [OF assms(1)] obtain res views where page: "AskPosts groupId cursor (Inr res) \<in> set h'"
      "entries_backed P self groupId (lp_posts res) views (set h')" "pg_posts page = orderWithinDays views"
    using ends_run [OF assms(3) meetsD [OF loadPostsPage_meets [OF assms(2)]]] by auto
  have keys: "mset (map entry_key (pg_posts page)) = mset (map wire_key (lp_posts res))"
  proof -
    have "mset (map entry_key (pg_posts page)) = image_mset entry_key (mset views)"
      by (simp add: page(3) mset_orderWithinDays)
    also have "\<dots> = mset (map entry_key views)" by simp
    also have "map entry_key views = map wire_key (lp_posts res)" using page(2) by (simp add: entries_backed_def)
    finally show ?thesis .
  qed
  have "set (pg_posts page) = set views"
    using page(3) mset_orderWithinDays [of views] by (metis set_mset_mset)
  with page(2) have backed: "post_backed P self groupId (lp_posts res) v (set h')" if "PostShown v \<in> set (pg_posts page)" for v
    using that by (simp add: entries_backed_def)
  show ?thesis
  proof (intro exI [of _ res] conjI page(1) keys allI impI)
    fix v
    assume "PostShown v \<in> set (pg_posts page)"
    from backed [OF this] obtain p o_post author where p: "LivePost p \<in> set (lp_posts res)"
        "opened_post self groupId (set h') p o_post" "check_vouched P self (wl_authorUserId p) author (set h')"
        "v = post_view P groupId p o_post author"
      by (auto simp: post_backed_def)
    have shown: "opened_post self groupId (set h') p (Opened c)" if "pv_content v = ShownPost c suspect" for c suspect
      using that p(2) post_view_fields(3) unfolding p(4) by metis
    have valid: "\<exists>keys anchor day history key. pv_keyAnchor v = Some anchor \<and> vouched P self (set h') (wl_authorUserId p) keys anchor
        \<and> signed_item P (posted_item groupId p keys) day Post history key" if "pv_signature v = ValidSignature"
      using post_view_valid [OF that [unfolded p(4)]] p(3) unfolding p(4) by auto blast
    show "\<exists>p. LivePost p \<in> set (lp_posts res) \<and> pv_sortKey v = wl_sortKey p \<and> pv_authorUserId v = wl_authorUserId p
         \<and> (\<forall>c suspect. pv_content v = ShownPost c suspect \<longrightarrow> opened_post self groupId (set h') p (Opened c))
         \<and> (pv_signature v = ValidSignature \<longrightarrow> (\<exists>keys anchor day history key.
              pv_keyAnchor v = Some anchor \<and> vouched P self (set h') (wl_authorUserId p) keys anchor
              \<and> signed_item P (posted_item groupId p keys) day Post history key))"
      by (intro exI [of _ p] conjI allI impI p(1) shown valid) (simp_all add: p(4))
  qed
qed

text \<open>
  What stands behind a comment that is shown, and where reactions are: the same for a thread, whose group is the one the
  post id names; and no reaction is shown on a deleted comment or on anything that is neither the post nor a comment's path.
\<close>

theorem shown_comment_is_vouched_for:
  assumes "readings P self rs h" "ar_selfUserId D = self"
    and "run_state (loadThreadPage P D rs groupId postId cursor) h = ((rs', Inr (Inr page)), h')"
  shows "groupOfPostId postId = Some groupId \<and> (\<exists>res. AskThread postId cursor (Inr res) \<in> set h'
    \<and> (\<forall>x\<in>set (tp_reactions page). (xv_target x = POST_TARGET \<or> 0 < commentDepth (xv_target x))
         \<and> DeletedComment (xv_target x) \<notin> set (tr_comments res))
    \<and> (\<forall>v. CommentShown v \<in> set (tp_comments page) \<longrightarrow> (\<exists>c. LiveComment c \<in> set (tr_comments res)
         \<and> cv_path v = wc_path c \<and> cv_authorUserId v = wc_authorUserId c
         \<and> (\<forall>x suspect. cv_content v = ShownComment x suspect \<longrightarrow> opened_comment self groupId postId (set h') c (Opened x))
         \<and> (cv_signature v = ValidSignature \<longrightarrow> 0 < commentDepth (wc_path c) \<and> (\<exists>keys anchor history key.
              cv_keyAnchor v = Some anchor \<and> vouched P self (set h') (wc_authorUserId c) keys anchor
              \<and> signed_item P (commented_item groupId c keys) (wc_signedDay c) Comment history key)))))"
proof -
  from readings_vouched [OF assms(1)] obtain res where page: "groupOfPostId postId = Some groupId"
      "AskThread postId cursor (Inr res) \<in> set h'" "thread_backed P self groupId postId res page (set h')"
    using ends_run [OF assms(3) meetsD [OF loadThreadPage_meets [OF assms(2)]]] by auto
  have deleted: "path \<in> set (deleted_paths cs) \<longleftrightarrow> DeletedComment path \<in> set cs" for path cs
    by (induction cs rule: deleted_paths.induct) auto
  have placed: "(xv_target x = POST_TARGET \<or> 0 < commentDepth (xv_target x)) \<and> DeletedComment (xv_target x) \<notin> set (tr_comments res)"
    if "x \<in> set (tp_reactions page)" for x
  proof -
    have "xv_target x \<in> set (map wx_target (placed_reactions res))"
      using that page(3) by (metis image_eqI list.set_map thread_backed_def)
    then show ?thesis by (auto simp: placed_reactions_def deleted)
  qed
  show ?thesis
  proof (intro conjI page(1) exI [of _ res] page(2) ballI allI impI)
    fix v
    assume "CommentShown v \<in> set (tp_comments page)"
    with page(3) obtain c o_comment author where c: "LiveComment c \<in> set (tr_comments res)"
        "o_comment = Unreadable \<or> opened_comment self groupId postId (set h') c o_comment"
        "check_vouched P self (wc_authorUserId c) author (set h')" "v = comment_view P groupId c o_comment author"
      unfolding thread_backed_def comment_backed_def by blast
    have shown: "opened_comment self groupId postId (set h') c (Opened x)" if "cv_content v = ShownComment x suspect" for x suspect
      using that c(2) comment_view_fields(3) unfolding c(4) by (metis opened.distinct(1))
    have valid: "0 < commentDepth (wc_path c) \<and> (\<exists>keys anchor history key. cv_keyAnchor v = Some anchor
        \<and> vouched P self (set h') (wc_authorUserId c) keys anchor
        \<and> signed_item P (commented_item groupId c keys) (wc_signedDay c) Comment history key)" if "cv_signature v = ValidSignature"
      using comment_view_valid [OF that [unfolded c(4)]] c(3) unfolding c(4) by auto blast
    show "\<exists>c. LiveComment c \<in> set (tr_comments res)
         \<and> cv_path v = wc_path c \<and> cv_authorUserId v = wc_authorUserId c
         \<and> (\<forall>x suspect. cv_content v = ShownComment x suspect \<longrightarrow> opened_comment self groupId postId (set h') c (Opened x))
         \<and> (cv_signature v = ValidSignature \<longrightarrow> 0 < commentDepth (wc_path c) \<and> (\<exists>keys anchor history key.
              cv_keyAnchor v = Some anchor \<and> vouched P self (set h') (wc_authorUserId c) keys anchor
              \<and> signed_item P (commented_item groupId c keys) (wc_signedDay c) Comment history key))"
      by (intro exI [of _ c] conjI allI impI c(1) shown) (use valid in \<open>simp_all add: c(4)\<close>)
  qed (use placed in auto)
qed

section \<open>A page that is read\<close>

text \<open>A post and a comment of Bob's, whom Alice has never seen before: his keys are saved, and both signatures are valid.\<close>

definition bob_detail :: UserDetail where
  "bob_detail = \<lparr>up_userId = bob, up_username = js ''bob'', up_signingPublicKey = bytesToBase64 (seed_of 2),
     up_wrappingPublicKey = bytesToBase64 (seed_of 3), up_supersededSigningKeys = [], up_keyEpoch = 0, up_deleted = False,
     ud_keyChanges = []\<rparr>"

definition bob_post :: WireLivePost where
  "bob_post = \<lparr>wl_sortKey = sample_sort_key, wl_authorUserId = bob, wl_generation = 3,
     wl_sealed = \<lparr>sl_nonce = js ''AA=='', sl_ciphertext = bytesToBase64 (seed_of 9)\<rparr>,
     wl_signature = si_signature sample_item, wl_signedDay = None\<rparr>"

definition bob_comment :: WireLiveComment where
  "bob_comment = \<lparr>wc_path = js ''0001.0002'', wc_authorUserId = bob, wc_generation = 3, wc_signedDay = js ''2026-10-28'',
     wc_sealed = \<lparr>sl_nonce = js ''AA=='', sl_ciphertext = bytesToBase64 (seed_of 9)\<rparr>,
     wc_signature = signed_b64 2 Comment (signedPayload sample bob group1 (js ''CMT#'' @ js ''0001.0002'') 3 (js ''2026-10-28'') (seed_of 9))\<rparr>"

definition post_content :: PostContent where
  "post_content = \<lparr>po_title = js ''hi'', po_body = [], po_at = js ''2026-10-28T10:00:00.000Z'', po_editedAt = None\<rparr>"

definition comment_content :: CommentContent where
  "comment_content = \<lparr>co_text = js ''yes'', co_at = js ''2026-10-28T11:00:00.000Z'', co_editedAt = None\<rparr>"

definition bob_author :: AuthorCheck where
  "bob_author = AuthorKnown \<lparr>ak_signingPublicKey = bytesToBase64 (seed_of 2), ak_keyChanges = []\<rparr> FirstSeenKeys (Some (js ''bob''))"

definition page_deps :: ListPostsDeps where
  "page_deps = \<lparr>ar_getUserDetail = \<lambda>_ _. Inr bob_detail, ar_selfUserId = alice,
     ar_ownSigningKey = \<lambda>_. Inr (bytesToBase64 (seed_of 1)), ar_loadOwnKeyHistory = None, ar_listPins = \<lambda>_. Inr [],
     ar_pinKeys = \<lambda>_ _ _ _ _. Inr (), lp_getGroup = \<lambda>_ _. Inr (sample_detail 3 carol),
     lp_getKeychain = \<lambda>_ _ _ _. Inr \<lparr>kp_links = [], kp_nextFrom = None\<rparr>,
     lp_listPosts = \<lambda>_ _ _. Inr \<lparr>lp_posts = [DeletedPost (js ''POST#2026-10-28#00000000000000ff''), LivePost bob_post], lp_nextCursor = None\<rparr>,
     lp_getPost = \<lambda>_ _. Inr (LivePost bob_post), lp_openPosts = \<lambda>_ _ _ _. Inr [Opened post_content]\<rparr>"

definition bob_thread :: ThreadResponse where
  "bob_thread = \<lparr>tr_comments = [DeletedComment (js ''0001''), LiveComment bob_comment],
     tr_reactions = [\<lparr>wx_target = js ''0001'', wx_reactorUserId = bob, wx_generation = 3, wx_sealed = wc_sealed bob_comment\<rparr>,
       \<lparr>wx_target = POST_TARGET, wx_reactorUserId = bob, wx_generation = 3, wx_sealed = wc_sealed bob_comment\<rparr>],
     tr_nextCursor = None\<rparr>"

definition thread_deps :: LoadThreadDeps where
  "thread_deps = \<lparr>ar_getUserDetail = \<lambda>_ _. Inr bob_detail, ar_selfUserId = alice,
     ar_ownSigningKey = \<lambda>_. Inr (bytesToBase64 (seed_of 1)), ar_loadOwnKeyHistory = None, ar_listPins = \<lambda>_. Inr [],
     ar_pinKeys = \<lambda>_ _ _ _ _. Inr (), lt_getGroup = \<lambda>_ _. Inr (sample_detail 3 carol),
     lt_getKeychain = \<lambda>_ _ _ _. Inr \<lparr>kp_links = [], kp_nextFrom = None\<rparr>, lt_getThread = \<lambda>_ _ _. Inr bob_thread,
     lt_openComments = \<lambda>_ _ _ _ _. Inr [Opened comment_content], lt_openReactions = \<lambda>_ _ _ _ _. Inr [Opened 2]\<rparr>"

definition sample_post_id :: js_string where
  "sample_post_id = group1 @ js ''#2026-10-28#0123456789abcdef''"

lemma bob_keys_served: "servedSigningKeySet (served_keys bob_detail) = Some [seed_of 2]"
  using bob_served_set by (simp add: served_keys_def bob_detail_def bob_served_def)

lemma bob_not_alice [simp]: "bob \<noteq> alice"
  by code_simp

text \<open>Bob is resolved, by whichever reader asks first.\<close>

definition bob_resolver :: Resolver where
  "bob_resolver = \<lparr>rs_cache = [bob \<mapsto> bob_author], rs_ground = Some (seed_of 1, Map.empty, None)\<rparr>"

definition bob_calls :: "page_call list" where
  "bob_calls = [AskAuthor bob (Inr bob_detail), AskOwnKey (Inr (bytesToBase64 (seed_of 1))), AskPins (Inr []),
     SavePin bob [bytesToBase64 (seed_of 2)] (bytesToBase64 (seed_of 3)) 0 (Inr ())]"

lemma bob_resolved:
  assumes "ar_selfUserId D = alice" "ar_getUserDetail D = (\<lambda>_ _. Inr bob_detail)" "ar_ownSigningKey D = (\<lambda>_. Inr (bytesToBase64 (seed_of 1)))"
    "ar_loadOwnKeyHistory D = None" "ar_listPins D = (\<lambda>_. Inr [])" "ar_pinKeys D = (\<lambda>_ _ _ _ _. Inr ())"
  shows "run_state (resolve_all sample D makeAuthorResolver [bob]) h = ((bob_resolver, [(bob, bob_author)]), h @ bob_calls)"
  by (rule run_by_ends)
    (simp add: assms resolve_author_def resolveAuthor_def makeAuthorResolver_def readGround_def own_ground_def anchor_author_def Let_def flow_simps
      pin_map_def js_map_def pin_verdict_def evaluatePin_def bob_keys_served bob_author_def bob_resolver_def bob_calls_def,
      simp add: bob_detail_def js_def)

lemma page_deps_fields [simp]:
  "ar_selfUserId page_deps = alice" "lp_getGroup page_deps g = (\<lambda>_. Inr (sample_detail 3 carol))"
  "lp_listPosts page_deps g c = (\<lambda>_. Inr \<lparr>lp_posts = [DeletedPost (js ''POST#2026-10-28#00000000000000ff''), LivePost bob_post], lp_nextCursor = None\<rparr>)"
  "lp_openPosts page_deps self e ps = (\<lambda>_. Inr [Opened post_content])"
  "run_state (resolve_all sample page_deps makeAuthorResolver [bob]) h = ((bob_resolver, [(bob, bob_author)]), h @ bob_calls)"
  by (simp_all add: bob_resolved del: resolve_all.simps add: page_deps_def)

lemma thread_deps_fields [simp]:
  "ar_selfUserId thread_deps = alice" "lt_getGroup thread_deps g = (\<lambda>_. Inr (sample_detail 3 carol))"
  "lt_getThread thread_deps i c = (\<lambda>_. Inr bob_thread)"
  "lt_openComments thread_deps self e i cs = (\<lambda>_. Inr [Opened comment_content])"
  "lt_openReactions thread_deps self e i xs = (\<lambda>_. Inr [Opened 2])"
  "run_state (resolve_all sample thread_deps makeAuthorResolver [bob]) h = ((bob_resolver, [(bob, bob_author)]), h @ bob_calls)"
  by (simp_all add: bob_resolved del: resolve_all.simps add: thread_deps_def)

lemma sample_fields [simp]:
  "readable (sample_detail 3 carol) = Some a_wrap" "ge_generation (sample_detail 3 carol) = 3"
  "wl_authorUserId bob_post = bob" "wl_generation bob_post = 3" "wc_authorUserId bob_comment = bob" "wc_generation bob_comment = 3"
  by (simp_all add: readable_def sample_detail_def bob_post_def bob_comment_def)

lemmas page_simps = both_def chain_to_def unique_list_def Let_def flow_simps

lemma page_read:
  "ends (loadPostsPage sample page_deps makeAuthorResolver group1 None)
    (\<lambda>(rs, r) h. \<exists>page. r = Inr (Inr page) \<and> PostShown (post_view sample group1 bob_post (Opened post_content) bob_author) \<in> set (pg_posts page)) []"
proof -
  have views: "PostShown v \<in> set (orderWithinDays [PostDeleted k d, PostShown v])" for v k d
    using mset_orderWithinDays [of "[PostDeleted k d, PostShown v]"] by (metis list.set_intros(1,2) set_mset_mset)
  show ?thesis
    by (simp add: loadPostsPage_def viewsOf_def openAll_def page_simps ends_def [of "resolve_all _ _ _ _"] views del: resolve_all.simps)
qed

lemma bob_post_valid: "pv_signature (post_view sample group1 bob_post (Opened post_content) bob_author) = ValidSignature"
  using sample_item_valid by (simp add: post_view_def bob_author_def bob_post_def sample_item_def)

lemma thread_read:
  "ends (loadThreadPage sample thread_deps makeAuthorResolver group1 sample_post_id None)
    (\<lambda>(rs, r) h. \<exists>page. r = Inr (Inr page) \<and> CommentShown (comment_view sample group1 bob_comment (Opened comment_content) bob_author)
       \<in> set (tp_comments page)) []"
proof -
  have id: "groupOfPostId sample_post_id = Some group1" by code_simp
  have placed: "placed_reactions bob_thread = [\<lparr>wx_target = POST_TARGET, wx_reactorUserId = bob, wx_generation = 3, wx_sealed = wc_sealed bob_comment\<rparr>]"
    by (simp add: placed_reactions_def bob_thread_def POST_TARGET_def js_def)
  show ?thesis
    by (simp add: loadThreadPage_def id read_thread_def open_comments_def open_reactions_def page_simps ends_def [of "resolve_all _ _ _ _"]
        placed bob_thread_def [THEN arg_cong, of tr_comments] bob_thread_def [THEN arg_cong, of tr_nextCursor] del: resolve_all.simps)
qed

theorem shown_post_is_vouched_for_witness:
  "\<exists>h keys anchor day history key p. vouched sample alice (set h) bob keys anchor \<and> wl_authorUserId p = bob
     \<and> signed_item sample (posted_item group1 p keys) day Post history key \<and> opened_post alice group1 (set h) p (Opened post_content)"
proof -
  let ?v = "post_view sample group1 bob_post (Opened post_content) bob_author"
  obtain rs page h where run: "run_state (loadPostsPage sample page_deps makeAuthorResolver group1 None) [] = ((rs, Inr (Inr page)), h)"
    and shown: "PostShown ?v \<in> set (pg_posts page)"
    using page_read by (auto simp: ends_def split: prod.splits) (metis prod.collapse)
  have v: "pv_authorUserId ?v = bob" "\<exists>suspect. pv_content ?v = ShownPost post_content suspect"
    by (simp_all add: post_view_def)
  from shown_post_is_vouched_for [OF new_resolver page_deps_fields(1) run] shown bob_post_valid v show ?thesis
    by metis
qed

theorem shown_comment_is_vouched_for_witness:
  "\<exists>h keys anchor day history key c. vouched sample alice (set h) bob keys anchor \<and> wc_authorUserId c = bob
     \<and> signed_item sample (commented_item group1 c keys) day Comment history key
     \<and> opened_comment alice group1 sample_post_id (set h) c (Opened comment_content)"
proof -
  let ?v = "comment_view sample group1 bob_comment (Opened comment_content) bob_author"
  obtain rs page h where run: "run_state (loadThreadPage sample thread_deps makeAuthorResolver group1 sample_post_id None) [] = ((rs, Inr (Inr page)), h)"
    and shown: "CommentShown ?v \<in> set (tp_comments page)"
    using thread_read by (auto simp: ends_def split: prod.splits) (metis prod.collapse)
  have depth: "0 < commentDepth (js ''0001.0002'')" by code_simp
  have signed_on: "day_shape (js ''2026-10-28'')" by code_simp
  have v: "cv_authorUserId ?v = bob" "\<exists>suspect. cv_content ?v = ShownComment comment_content suspect" "cv_signature ?v = ValidSignature"
    using depth signed_on
    by (simp_all add: comment_view_def bob_comment_def bob_author_def checkCommentSignature_def checkSignedItem_def signingKeysOn_eq)
  from shown_comment_is_vouched_for [OF new_resolver thread_deps_fields(1) run, THEN conjunct2] shown v show ?thesis
    by metis
qed

end
