(* ===== verification/Spec2Isabelle.thy ===== *)
theory Spec2Isabelle
  imports Grant_Properties Key_Properties Pin_Properties Membership_Properties Item_Properties
    Group_Properties Item_Material_Properties Recovery_Properties Account_Properties
    Rotation_Properties Client_Properties Successor_Properties Rotation_Run_Properties
    Readmit_Properties Approve_Properties Accept_Properties Job_Properties Guard_Properties Self_Rekey_Properties
    Leave_Run Dormancy Key_Rotation_Properties Reading_Properties
begin

text \<open>
  UndergroundBB is an end-to-end encrypted bulletin board: the server stores what it cannot read
  and is not trusted to tell who wrote, admitted, removed or promoted whom.  What makes it so is
  the crypto code of the web client, web/src/lib/crypto, and that is what this development
  models: every function of it behind the worker's messages, with the bytes it signs and seals.

  The parts, bottom up, and the theories that model them.  A definition has the name of the
  function, type or constant it models; a part of a function has a name of its own.

  \<^item> Values.  \<open>Prelude\<close>: strings as lists of 16-bit code units, byte arrays as lists of 8-bit words,
    numbers as \<open>int\<close> where the code checks that they are safe integers, and as words where it uses
    bitwise operators.  \<open>Codec\<close>, \<open>Text_Decoder\<close>, \<open>Base_Encodings\<close>, \<open>Length_Prefix\<close>: TextEncoder and
    TextDecoder, base64.ts, hex.ts, payload.ts, with one locale \<open>codec\<close> (and \<open>strict_codec\<close>) for what
    an encoder and its decoder promise each other, interpreted on each pair.  \<open>Calendar\<close>: Date.parse,
    toISOString and the two day checks of pin.ts and own-history.ts.
  \<^item> Primitives.  \<open>Signing\<close> (ed25519.ts) and \<open>Wrapping\<close> (aesgcm.ts, x25519.ts, argon2.ts, the MAC of
    invite.ts): the guards and the composition, over the third-party functions.
  \<^item> Bytes that are signed or bound.  \<open>Payloads\<close>: group.ts, invite.ts, credential.ts.  \<open>Items\<close>: the stored
    layouts of post.ts, comment.ts, reaction.ts and keybundle.ts.
  \<^item> Verifiers, which read what the server claims.  \<open>Key_History\<close> (key-rotation.ts, own-history.ts): the
    doubly signed chain of a user's keys.  \<open>Grant_Chain\<close> (grant-chain.ts): who holds which role.
    \<open>Membership\<close> (admission.ts, removal.ts), \<open>Pins\<close> (pin.ts, verification.ts, fingerprint.ts,
    key-change-evidence.ts), \<open>Item_Check\<close> (post-check.ts, comment-check.ts, wrap-record.ts).
  \<^item> Makers, which sign and seal with the live keys (\<open>LiveKeys\<close> in \<open>Signing\<close>).  credential-material.ts is split into
    \<open>Group_Material\<close>, \<open>Item_Material\<close> and \<open>Account\<close>; rotation-material.ts is \<open>Rotation_Material\<close>;
    recovery-code.ts and uuid.ts are \<open>Recovery\<close>.
  \<^item> \<open>Worker\<close> (worker.ts, worker-protocol.ts): the one place private keys live.  One definition
    \<open>on_<handler>\<close> per handler, \<open>handle\<close> for the dispatch, and the message loop as the step relation
    \<open>machine_step\<close>: a request is taken, a synchronous one is answered in the same step, another
    posts its progress and its answer later, in any order among the others, and a login caches
    its keys only then.
  \<^item> \<open>Worker_Client\<close> (worker-client.ts): the calls of the main thread, one \<open>call_<function>\<close> per exported
    function, their listener \<open>on_message\<close>, and the page with its worker and the two message queues as the
    step relation \<open>client_step\<close>.
  \<^item> \<open>Successors\<close> (lib/groups/designation.ts, routes/runSuccessor.ts): what the screens say about a designated
    successor, and the flows that sign and send a designation or a claim.

  \<^item> Flows, which run over the verifiers, the worker and the server.  \<open>Flow\<close>: a flow is a state monad over the trace of the calls it has
    made, each with its answer; a callee answers by all that came before, so nothing is assumed of the server.
    \<open>Group_Api\<close> (lib/api/groups.ts, lib/api/users.ts): the shapes on the wire and the datatype \<open>call\<close> of what a flow
    can ask for.  \<open>Grant_Check\<close> (routes/runGrantCheck.ts, routes/ownHistory.ts, routes/wrapRecord.ts) and
    \<open>Rotation_Run\<close> (routes/runRotation.ts): the grant check and the job that finishes a key rotation.
    \<open>Rotation_Run_Facts\<close> says what must have been read and checked before a call; the locales \<open>reading\<close> and \<open>key_checks\<close>
    (\<open>Key_Checks\<close>, \<open>Admission_Checks\<close>) prove what the shared reads and checks promise to any flow that may make the calls they
    make, and each flow interprets them on its own rules (\<open>Rotation_Checks\<close>, \<open>Member_Checks\<close>, \<open>Readmit_Checks\<close>,
    \<open>Approve_Checks\<close>, \<open>Removal_Checks\<close>).  \<open>Rotation_Sample\<close> runs the job on a concrete server.
  \<^item> What an admin does to a member.  \<open>Members_Run\<close> (routes/runGroupMembers.ts, runRemoveMember.ts, memberLabel.ts): the roster, a role
    change, a removal.  \<open>Readmit_Run\<close> (runReadmit.ts), \<open>Approve_Run\<close> (runApprove.ts), \<open>Accept_Run\<close> (runAcceptKeyChange.ts),
    \<open>Verification_Run\<close> (runMemberVerification.ts), \<open>Leave_Run\<close> (runLeaveGroup.ts), \<open>Dormancy\<close> (dormancy.ts,
    rotationStaleness.ts).  \<open>Rotation_Jobs\<close> (rotationJobs.ts): the lock that keeps one rotation job per group in a tab, and the
    jobs that change the membership and then drive the rotation; \<open>tab_step\<close> in \<open>Guard_Properties\<close> is the tab with its jobs as
    a step relation.
  \<^item> What an account does to its own keys.  \<open>Key_Rotation_Run\<close> (runKeyRotation.ts): the preflight, the handoff rows, the signed
    request, the rounds that send it, and the attempt a retry resumes.  \<open>Self_Rekey_Run\<close> (runSelfRekey.ts, pendingHandoffs.ts): the
    re-keying of a group the rotation left to do.
  \<^item> What a reader is shown.  \<open>Reading_Run\<close> (runListPosts.ts, runLoadThread.ts, lib/groups/nameChain.ts): pages of posts and of
    threads, and the resolver of authors that remembers what it anchored; \<open>Reading_Checks\<close> says what is known of what is
    returned, \<open>Reading_Order\<close> what the order of a page is.

  What the theorems show.  The verifiers are sound, and where a verdict has a declarative rule exact:
  \<open>verifyGrantChain\<close> agrees with \<open>backed\<close>, the trust rule stated inductively (\<open>Grant_Chain_Proofs\<close>),
  and a history, an admission, a removal, a pin or a post is accepted only with the signatures the
  design asks for.  The makers and the verifiers fit: what one member signs and seals, another
  opens and judges valid (a created group, an invite, a rotation, a pin, a post and its edit, a
  wrap record).  The codecs invert each other.  The account keeps its keys through recoveries and
  password changes.  The worker holds only keys of the account that logged in or
  rotated, signs nothing a roster covers while a rotation is pending, stays empty after a logout and
  answers every request once; a call of the main thread is settled once, with its own answer, and
  waits forever only on a worker that failed unheard.  The two screens about a successor agree, and a claim the
  client sends is judged valid by \<open>verifyGrantChain\<close>.  Of a flow, the theorems say for every run, whatever the
  server answers and whenever it fails, what was verified before a key is handed out, a rotation completed or a leave taken over; that a
  member who may have been removed gets no later key, that two rotation jobs never run at once for a group, that an admin signs
  or wraps only for keys whose fingerprint was confirmed, that the only wrap of a group key is deleted only when it is used up,
  that a post shown as validly signed is signed by a key the reader's pins or first sight vouch for, in a page with nothing dropped and in the
  declared order; and that an account key rotation whose outcome is unknown is never given up or shown as failed, over all its retries.

  Parameters.  \<open>prims\<close> and \<open>ciphers\<close> are the third-party functions (@noble, SubtleCrypto, hash-wasm, the
  engine's reading of non-ISO dates), \<open>U\<close> the case mapping of \<open>toUpperCase\<close> beyond ASCII, and clocks and
  random draws are arguments.  What a theorem needs of them is a named hypothesis stating documented
  behaviour: \<open>ed25519_laws\<close>, \<open>aead_laws\<close>, \<open>x25519_laws\<close>, \<open>argon2_laws\<close>, \<open>case_laws\<close>; \<open>Sample\<close> and the
  witnesses have an instance of each.  No theorem assumes that signatures cannot be forged: they
  say which signed bytes were checked under which key.

  Errors are the left side of a sum and carry the message or the name of the error thrown.  Loops are
  structural recursion; the loops of the flows are bounded in the code (\<open>MAX_PASSES\<close>, 100 pages of a list), and the
  restart of a rotation run is taken once.  The recursion of grant-chain.ts has fuel: twice the number of grants
  is enough whenever a claim is dated after its designation
  (\<open>verifyGrantChain_returns\<close>), and on two rows that are not it never ends
  (\<open>verifyGrantChain_cyclic_claims\<close>); with less fuel \<open>None\<close> is the overflow of the call stack.

  Not modelled: the HTTP requests of lib/api, lib/session (storage, React contexts), the rest
  of lib/groups and the other flows and helpers of the screens in routes; the Go server, another language;
  the infrastructure.  The options a flow is given as \<open>deps\<close> are read once; what \<open>Promise\<close> scheduling could interleave
  with a flow is part of the answers it gets.  In the worker, the name of a thrown error, which a response carries beside its message, is not kept apart,
  and two requests whose answers are ready at once may post in either order.
\<close>

end
